(* ===== verification/Prelude.thy ===== *)
theory Prelude
  imports Main "HOL-Library.Word" "HOL-Library.Multiset"
begin

text \<open>
  Shared vocabulary of the development: the C integer types as words, little-endian reads and
  writes of byte buffers (the kernel's \<open>get_unaligned_le16\<close> and relatives), the generic facts on
  words, lists and multisets that the component theories use, and the theorem collections they
  extend.
\<close>

unbundle bit_operations_syntax

type_synonym u8 = "8 word"
type_synonym u16 = "16 word"
type_synonym u32 = "32 word"
type_synonym u64 = "64 word"

named_theorems wmask \<open>masking a word with an all-ones constant, read as arithmetic modulo a power of two\<close>
named_theorems bytes \<open>little-endian loads and stores\<close>
named_theorems inv_pres \<open>operations of a component keep its invariant\<close>


section \<open>Words\<close>

lemma unat_and_mask [wmask]: "unat (w AND mask n :: 'a::len word) = unat w mod 2 ^ n"
  by (metis unsigned_take_bit_eq take_bit_eq_mask take_bit_eq_mod)

lemma unat_and_0xFFF [wmask]: "unat (w AND 0xFFF :: 16 word) = unat w mod 4096"
  using unat_and_mask [of w 12] by (simp add: mask_eq_exp_minus_1)

lemma unat_and_0xFFFF [wmask]: "unat (w AND 0xFFFF :: 32 word) = unat w mod 65536"
  using unat_and_mask [of w 16] by (simp add: mask_eq_exp_minus_1)

lemma unat_and_0xFF [wmask]: "unat (w AND 0xFF :: 16 word) = unat w mod 256"
  using unat_and_mask [of w 8] by (simp add: mask_eq_exp_minus_1)

lemma unat_drop_bit: "unat (drop_bit n w :: 'a::len word) = unat w div 2 ^ n"
proof -
  have "take_bit LENGTH('a) (unat w) = unat w"
    using unsigned_less [of w, where 'a = nat] by (simp add: take_bit_nat_eq_self)
  then show ?thesis
    using unsigned_drop_bit_eq [of n w, where 'a = nat] drop_bit_eq_div [of n "unat w"] by simp
qed

lemma mod_mult_div: "(m :: nat) mod (a * b) div a = m div a mod b"
  by (cases "a = 0") (simp_all add: mod_mult2_eq)

lemma unat_minus_mod:
  "unat (a - b :: 'a::len word) = (unat a + 2 ^ LENGTH('a) - unat b) mod 2 ^ LENGTH('a)"
proof -
  have ub: "unat b < 2 ^ LENGTH('a)" and ua: "unat a < 2 ^ LENGTH('a)"
    by (simp_all add: unsigned_less)
  show ?thesis
  proof (cases "unat b \<le> unat a")
    case True
    then have "unat (a - b) = unat a - unat b"
      by (simp add: unat_sub word_le_nat_alt)
    moreover have "(unat a + 2 ^ LENGTH('a) - unat b) mod 2 ^ LENGTH('a) = unat a - unat b"
      using True ua by (simp add: le_mod_geq less_imp_diff_less)
    ultimately show ?thesis by simp
  next
    case False
    then have "unat (a - b) = unat a + 2 ^ LENGTH('a) - unat b"
      using ub by (simp add: unat_sub_if_size word_size)
    moreover have "unat a + 2 ^ LENGTH('a) - unat b < 2 ^ LENGTH('a)"
      using False ub by linarith
    ultimately show ?thesis by simp
  qed
qed

lemma mod_sum_zero:
  fixes a b n :: nat
  assumes "(a + b) mod n = 0" "0 < a" "a < n" "b < n"
  shows "a + b = n"
proof (cases "a + b < n")
  case True
  then show ?thesis using assms by simp
next
  case False
  then have "(a + b) mod n = a + b - n"
    using assms by (simp add: le_mod_geq)
  then show ?thesis using assms False by linarith
qed

text \<open>A word is a power-of-two aligned address of the C code exactly when masking it leaves 0.\<close>

lemma nat_and_mask_eq_mod: "(x :: nat) AND (2 ^ n - 1) = x mod 2 ^ n"
  by (metis mask_eq_exp_minus_1 take_bit_eq_mask take_bit_eq_mod)


text \<open>The remainder of C, which takes the sign of the dividend.\<close>

definition c_rem :: "int \<Rightarrow> int \<Rightarrow> int" where
  "c_rem a b = sgn a * (\<bar>a\<bar> mod \<bar>b\<bar>)"


section \<open>Little-endian buffers\<close>

text \<open>
  The kernel's unaligned accessors, on a buffer that is a byte list. They are total here; a
  component whose property is that no read leaves its buffer tests the bounds itself.
\<close>

definition le16 :: "u8 \<Rightarrow> u8 \<Rightarrow> u16" where
  "le16 b0 b1 = ucast b0 OR push_bit 8 (ucast b1)"

definition le32 :: "u8 \<Rightarrow> u8 \<Rightarrow> u8 \<Rightarrow> u8 \<Rightarrow> u32" where
  "le32 b0 b1 b2 b3 =
     ucast b0 OR push_bit 8 (ucast b1) OR push_bit 16 (ucast b2) OR push_bit 24 (ucast b3)"

definition get_le16 :: "u8 list \<Rightarrow> nat \<Rightarrow> u16" where
  "get_le16 buf i = le16 (buf ! i) (buf ! (i + 1))"

definition get_le32 :: "u8 list \<Rightarrow> nat \<Rightarrow> u32" where
  "get_le32 buf i = le32 (buf ! i) (buf ! (i + 1)) (buf ! (i + 2)) (buf ! (i + 3))"

definition put_le16 :: "u16 \<Rightarrow> u8 list" where
  "put_le16 w = [ucast w, ucast (drop_bit 8 w)]"

definition put_le32 :: "u32 \<Rightarrow> u8 list" where
  "put_le32 w = [ucast w, ucast (drop_bit 8 w), ucast (drop_bit 16 w), ucast (drop_bit 24 w)]"

definition get_be16 :: "u8 list \<Rightarrow> nat \<Rightarrow> u16" where
  "get_be16 buf i = le16 (buf ! (i + 1)) (buf ! i)"

definition put_be16 :: "u16 \<Rightarrow> u8 list" where
  "put_be16 w = [ucast (drop_bit 8 w), ucast w]"

lemma length_put_le16 [simp]: "length (put_le16 w) = 2"
  by (simp add: put_le16_def)

lemma length_put_le32 [simp]: "length (put_le32 w) = 4"
  by (simp add: put_le32_def)

lemma bit_u8_beyond [simp]: "8 \<le> n \<Longrightarrow> \<not> bit (a :: u8) n"
  using bit_imp_le_length [of a n] by auto

lemma le16_put_le16 [bytes]: "le16 (ucast w) (ucast (drop_bit 8 w)) = w"
  unfolding le16_def by (rule bit_word_eqI) (auto simp: bit_simps)

lemma le32_put_le32 [bytes]:
  "le32 (ucast w) (ucast (drop_bit 8 w)) (ucast (drop_bit 16 w)) (ucast (drop_bit 24 w)) = w"
proof (rule bit_word_eqI)
  fix n assume "n < LENGTH(32)"
  then consider "n < 8" | "8 \<le> n" "n < 16" | "16 \<le> n" "n < 24" | "24 \<le> n" "n < 32"
    by fastforce
  then show "bit (le32 (ucast w) (ucast (drop_bit 8 w)) (ucast (drop_bit 16 w)) (ucast (drop_bit 24 w))) n
      \<longleftrightarrow> bit w n"
    by cases (auto simp: le32_def bit_simps)
qed

lemma length_put_be16 [simp]: "length (put_be16 w) = 2"
  by (simp add: put_be16_def)

lemma get_put_be16 [bytes]: "length xs = i \<Longrightarrow> get_be16 (xs @ put_be16 w @ ys) i = w"
  by (simp add: get_be16_def put_be16_def nth_append le16_put_le16)

lemma put_le16_le16 [bytes]: "put_le16 (le16 a b) = [a, b]"
  unfolding put_le16_def le16_def by (auto intro!: bit_word_eqI simp: bit_simps)

lemma put_le32_le32 [bytes]: "put_le32 (le32 a b c d) = [a, b, c, d]"
  unfolding put_le32_def le32_def by (auto intro!: bit_word_eqI simp: bit_simps)

lemma le16_eq_iff [bytes]: "le16 a b = le16 c d \<longleftrightarrow> a = c \<and> b = d"
proof
  assume "le16 a b = le16 c d"
  then have "put_le16 (le16 a b) = put_le16 (le16 c d)" by simp
  then show "a = c \<and> b = d" by (simp add: put_le16_le16)
qed simp

lemma le32_eq_iff [bytes]: "le32 a b c d = le32 a' b' c' d' \<longleftrightarrow> a = a' \<and> b = b' \<and> c = c' \<and> d = d'"
proof
  assume "le32 a b c d = le32 a' b' c' d'"
  then have "put_le32 (le32 a b c d) = put_le32 (le32 a' b' c' d')" by simp
  then show "a = a' \<and> b = b' \<and> c = c' \<and> d = d'" by (simp add: put_le32_le32)
qed simp


section \<open>Lists and multisets\<close>

lemma mset_concat_update:
  assumes "i < length xss"
  shows "mset (concat (xss[i := ys])) + mset (xss ! i) = mset (concat xss) + mset ys"
proof -
  have "mset (concat xss) = mset (concat (take i xss @ xss ! i # drop (Suc i) xss))"
    using assms by (metis id_take_nth_drop)
  moreover have "mset (concat (xss[i := ys])) = mset (concat (take i xss @ ys # drop (Suc i) xss))"
    using assms by (simp only: upd_conv_take_nth_drop)
  ultimately show ?thesis by (simp add: ac_simps)
qed

lemma mset_concat_clear:
  assumes "i < length xss"
  shows "mset (concat (xss[i := []])) + mset (xss ! i) = mset (concat xss)"
  using mset_concat_update [OF assms, of "[]"] by simp

lemma mset_concat_snoc:
  assumes "i < length xss"
  shows "mset (concat (xss[i := xss ! i @ [x]])) = add_mset x (mset (concat xss))"
  using mset_concat_update [OF assms, of "xss ! i @ [x]"] by simp

text \<open>Counting the indices with a property, under an update of one entry.\<close>

definition count_if :: "('a \<Rightarrow> bool) \<Rightarrow> 'a list \<Rightarrow> nat" where
  "count_if P xs = length (filter P xs)"

lemma count_if_Nil [simp]: "count_if P [] = 0"
  and count_if_Cons [simp]: "count_if P (x # xs) = (if P x then 1 else 0) + count_if P xs"
  by (simp_all add: count_if_def)

lemma count_if_update:
  assumes "i < length xs"
  shows "count_if P (xs[i := y]) + (if P (xs ! i) then 1 else 0)
       = count_if P xs + (if P y then 1 else 0)"
  using assms
proof (induction xs arbitrary: i)
  case Nil
  then show ?case by simp
next
  case (Cons x xs)
  then show ?case by (cases i) (auto simp: Cons.IH)
qed

lemma count_if_0_iff: "count_if P xs = 0 \<longleftrightarrow> (\<forall>x \<in> set xs. \<not> P x)"
  by (simp add: count_if_def filter_empty_conv)

lemma count_if_pos_iff: "0 < count_if P xs \<longleftrightarrow> (\<exists>i < length xs. P (xs ! i))"
  by (metis count_if_0_iff in_set_conv_nth neq0_conv)

lemma count_if_le_length: "count_if P xs \<le> length xs"
  by (simp add: count_if_def)


text \<open>Steps around a ring of \<open>n\<close> slots.\<close>

definition ring_dist :: "nat \<Rightarrow> nat \<Rightarrow> nat \<Rightarrow> nat" where
  "ring_dist n j i = (if j \<le> i then i - j else i + n - j)"

lemma ring_dist_step:
  "j < n \<Longrightarrow> i < n \<Longrightarrow> j \<noteq> i \<Longrightarrow> ring_dist n j i = Suc (ring_dist n ((j + 1) mod n) i)"
  by (cases "j + 1 = n") (auto simp: ring_dist_def)

lemma sum_list_map_update:
  fixes g :: "'a \<Rightarrow> 'b::comm_monoid_add"
  shows "i < length xs \<Longrightarrow> sum_list (map g (xs[i := x])) + g (xs ! i) = sum_list (map g xs) + g x"
proof (induction xs arbitrary: i)
  case (Cons y ys)
  then show ?case by (cases i) (simp_all add: ac_simps)
qed simp

lemma high_bits: "unat (w :: 'a::len word) < 2 ^ n \<Longrightarrow> n \<le> i \<Longrightarrow> \<not> bit w i"
proof -
  assume a: "unat w < 2 ^ n" "n \<le> i"
  have "(2::nat) ^ n \<le> 2 ^ i" using a(2) by simp
  then have "unat w < 2 ^ i" using a(1) by linarith
  then have "\<not> bit (unat w) i" by (simp add: bit_iff_odd)
  then show ?thesis by (cases "i < LENGTH('a)") (auto simp: bit_unsigned_iff dest: bit_imp_le_length)
qed

lemma unat_u16_u32: "unat (ucast (x :: u16) :: u32) = unat x"
proof -
  have "unat x < 2 ^ 32" using unsigned_less [of x, where 'a = nat] by simp
  then show ?thesis by (simp add: unsigned_ucast_eq take_bit_nat_eq_self)
qed



section \<open>Keyed tables\<close>

text \<open>What the users of a table keyed by a field of its entries rely on: lookup after insertion, update
  and deletion. Seen through \<open>abs_map\<close> it is a finite map.\<close>

locale keyed_table =
  fixes at :: "'k \<Rightarrow> 't \<Rightarrow> 'v option"
    and upd :: "'k \<Rightarrow> ('v \<Rightarrow> 'v) \<Rightarrow> 't \<Rightarrow> 't"
    and ins :: "'v \<Rightarrow> 't \<Rightarrow> 't"
    and del :: "'k \<Rightarrow> 't \<Rightarrow> 't"
    and key :: "'v \<Rightarrow> 'k"
  assumes at_key: "at k t = Some v \<Longrightarrow> key v = k"
    and at_ins: "at k (ins v t) = (if key v = k then Some v else at k t)"
    and at_upd: "(\<And>v. key (f v) = key v) \<Longrightarrow> at k (upd k' f t) = (if k = k' then map_option f (at k t) else at k t)"
    and at_del: "at k (del k' t) = (if k = k' then None else at k t)"
begin

definition abs_map :: "'t \<Rightarrow> 'k \<Rightarrow> 'v option" where
  "abs_map t = (\<lambda>k. at k t)"

lemma abs_ins: "abs_map (ins v t) = (abs_map t)(key v \<mapsto> v)"
  by (auto simp: abs_map_def at_ins)

lemma abs_del: "abs_map (del k t) = (abs_map t)(k := None)"
  by (auto simp: abs_map_def at_del)

lemma abs_upd:
  "(\<And>v. key (f v) = key v) \<Longrightarrow> abs_map (upd k f t) = (abs_map t)(k := map_option f (abs_map t k))"
  by (auto simp: abs_map_def at_upd)

end

end
