(* ===== verification/SeqNum.thy ===== *)
theory SeqNum
  imports Prelude
begin

text \<open>
  Serial number arithmetic. Three counters of the code wrap and are compared by their distance:
  the 12-bit 802.11 sequence number (\<open>ieee80211_sn_less\<close> and relatives, ieee80211.h), the 32-bit
  mesh sequence number (\<open>SN_GT\<close>, mesh_hwmp.c) and the jiffies clock (\<open>time_after\<close>). The locale
  states what all three promise their clients; each counter interprets it.
\<close>


section \<open>The interface of a wrapping counter\<close>

text \<open>
  \<open>dist a b\<close> is the number of increments that lead from \<open>a\<close> to \<open>b\<close>, and \<open>before a b\<close> the code's
  comparison. At distance exactly half of the period the counters of the code differ, so the
  interface promises nothing there.
\<close>

locale serial_counter =
  fixes dist :: "'a \<Rightarrow> 'a \<Rightarrow> nat"
    and before :: "'a \<Rightarrow> 'a \<Rightarrow> bool"
    and half :: nat
  assumes half_pos: "0 < half"
    and dist_self: "dist a a = 0"
    and dist_bound: "dist a b < 2 * half"
    and dist_chain: "dist a c = (dist a b + dist b c) mod (2 * half)"
    and before_near: "dist a b < half \<Longrightarrow> before a b \<longleftrightarrow> 0 < dist a b"
    and before_far: "half < dist a b \<Longrightarrow> \<not> before a b"
begin

lemma before_irrefl: "\<not> before a a"
  using before_near [of a a] half_pos by (simp add: dist_self)

lemma dist_back: "0 < dist a b \<Longrightarrow> dist b a = 2 * half - dist a b"
proof -
  assume pos: "0 < dist a b"
  have "(dist a b + dist b a) mod (2 * half) = 0"
    using dist_chain [of a a b] by (simp add: dist_self)
  then have "dist a b + dist b a = 2 * half"
    using pos by (rule mod_sum_zero) (rule dist_bound)+
  then show ?thesis by simp
qed

lemma before_asym: "dist a b \<noteq> half \<Longrightarrow> before a b \<Longrightarrow> \<not> before b a"
proof -
  assume ne: "dist a b \<noteq> half" and ab: "before a b"
  have "dist a b < half"
    using ne ab before_far [of a b] by linarith
  moreover from this have "0 < dist a b"
    using ab before_near by blast
  ultimately have "half < dist b a"
    using dist_back [of a b] by linarith
  then show ?thesis by (rule before_far)
qed

lemma before_total: "0 < dist a b \<Longrightarrow> dist a b \<noteq> half \<Longrightarrow> before a b \<or> before b a"
proof (cases "dist a b < half")
  case True
  then show "0 < dist a b \<Longrightarrow> ?thesis" by (simp add: before_near)
next
  case False
  assume "0 < dist a b" and "dist a b \<noteq> half"
  then have "dist b a < half" and "0 < dist b a"
    using False dist_back [of a b] dist_bound [of a b] by linarith+
  then show ?thesis by (simp add: before_near)
qed

lemma dist_add: "dist a b + dist b c < 2 * half \<Longrightarrow> dist a c = dist a b + dist b c"
  by (simp add: dist_chain [of a c b])

lemma before_trans:
  "dist a b + dist b c < half \<Longrightarrow> before a b \<Longrightarrow> before b c \<Longrightarrow> before a c"
  using dist_add [of a b c] before_near [of a b] before_near [of b c] before_near [of a c]
  by simp

lemma dist_diff: "dist a b \<le> dist a c \<Longrightarrow> dist b c = dist a c - dist a b"
proof -
  assume le: "dist a b \<le> dist a c"
  have ac: "dist a c = (dist a b + dist b c) mod (2 * half)" by (rule dist_chain)
  show ?thesis
  proof (cases "dist a b + dist b c < 2 * half")
    case True
    then show ?thesis using ac by simp
  next
    case False
    then have "(dist a b + dist b c) mod (2 * half) = dist a b + dist b c - 2 * half"
      using dist_bound [of a b] dist_bound [of b c] by (simp add: le_mod_geq)
    then show ?thesis using ac le False dist_bound [of b c] by linarith
  qed
qed

lemma dist_0_imp_same: "dist a b = 0 \<Longrightarrow> dist c a = dist c b"
  using dist_chain [of c b a] dist_bound [of c a] by simp

end


section \<open>802.11 sequence numbers\<close>

abbreviation (input) IEEE80211_SN_MASK :: u16 where "IEEE80211_SN_MASK \<equiv> 0xFFF"
abbreviation (input) IEEE80211_SN_MODULO :: u16 where "IEEE80211_SN_MODULO \<equiv> 0x1000"
abbreviation (input) IEEE80211_SCTL_FRAG :: u16 where "IEEE80211_SCTL_FRAG \<equiv> 0x000F"
abbreviation (input) IEEE80211_SCTL_SEQ :: u16 where "IEEE80211_SCTL_SEQ \<equiv> 0xFFF0"

text \<open>
  The C operands are promoted to \<open>int\<close> before the subtraction; the mask keeps the low 12 bits,
  which the 16-bit subtraction has in common with it.
\<close>

definition ieee80211_sn_less :: "u16 \<Rightarrow> u16 \<Rightarrow> bool" where
  "ieee80211_sn_less sn1 sn2 \<longleftrightarrow>
     ((sn1 - sn2) AND IEEE80211_SN_MASK) > drop_bit 1 IEEE80211_SN_MODULO"

definition ieee80211_sn_less_eq :: "u16 \<Rightarrow> u16 \<Rightarrow> bool" where
  "ieee80211_sn_less_eq sn1 sn2 \<longleftrightarrow>
     ((sn2 - sn1) AND IEEE80211_SN_MASK) \<le> drop_bit 1 IEEE80211_SN_MODULO"

definition ieee80211_sn_add :: "u16 \<Rightarrow> u16 \<Rightarrow> u16" where
  "ieee80211_sn_add sn1 sn2 = (sn1 + sn2) AND IEEE80211_SN_MASK"

definition ieee80211_sn_inc :: "u16 \<Rightarrow> u16" where
  "ieee80211_sn_inc sn = ieee80211_sn_add sn 1"

definition ieee80211_sn_sub :: "u16 \<Rightarrow> u16 \<Rightarrow> u16" where
  "ieee80211_sn_sub sn1 sn2 = (sn1 - sn2) AND IEEE80211_SN_MASK"

definition IEEE80211_SEQ_TO_SN :: "u16 \<Rightarrow> u16" where
  "IEEE80211_SEQ_TO_SN s = drop_bit 4 (s AND IEEE80211_SCTL_SEQ)"

definition IEEE80211_SN_TO_SEQ :: "u16 \<Rightarrow> u16" where
  "IEEE80211_SN_TO_SEQ ssn = push_bit 4 ssn AND IEEE80211_SCTL_SEQ"

text \<open>The number of increments from one sequence number to another.\<close>

definition sn_dist :: "u16 \<Rightarrow> u16 \<Rightarrow> nat" where
  "sn_dist a b = unat (ieee80211_sn_sub b a)"

lemma sn_dist_mod: "sn_dist a b = (unat b + 65536 - unat a) mod 4096"
proof -
  have "sn_dist a b = ((unat b + 65536 - unat a) mod 65536) mod 4096"
    by (simp add: sn_dist_def ieee80211_sn_sub_def wmask unat_minus_mod)
  also have "\<dots> = (unat b + 65536 - unat a) mod 4096"
    by (simp add: mod_mod_cancel)
  finally show ?thesis .
qed

lemma sn_dist_chain_aux:
  assumes "a < 65536" "b < 65536" "c < 65536"
  shows "((c::nat) + 65536 - a) mod 4096 = ((b + 65536 - a) mod 4096 + (c + 65536 - b) mod 4096) mod 4096"
proof -
  have "((b + 65536 - a) mod 4096 + (c + 65536 - b) mod 4096) mod 4096
      = ((b + 65536 - a) + (c + 65536 - b)) mod 4096"
    by (rule mod_add_eq)
  also have "(b + 65536 - a) + (c + 65536 - b) = (c + 65536 - a) + 16 * 4096"
    using assms by simp
  finally show ?thesis by (simp only: mod_mult_self3 mult.commute [of 16] mod_mult_self2)
qed

lemma u16_bound: "unat (w :: u16) < 65536"
  using unsigned_less [of w] by simp

lemma sn_less_dist: "ieee80211_sn_less a b \<longleftrightarrow> 2048 < sn_dist b a"
  by (simp add: ieee80211_sn_less_def sn_dist_def ieee80211_sn_sub_def word_less_nat_alt)

lemma sn_less_eq_dist: "ieee80211_sn_less_eq a b \<longleftrightarrow> sn_dist a b \<le> 2048"
  by (simp add: ieee80211_sn_less_eq_def sn_dist_def ieee80211_sn_sub_def word_le_nat_alt)

lemma sn_dist_self: "sn_dist a a = 0"
  by (simp add: sn_dist_def ieee80211_sn_sub_def)

lemma sn_dist_bound: "sn_dist a b < 4096"
  by (simp add: sn_dist_mod)

lemma sn_dist_chain: "sn_dist a c = (sn_dist a b + sn_dist b c) mod 4096"
  unfolding sn_dist_mod by (rule sn_dist_chain_aux) (rule u16_bound)+

lemma sn_dist_back: "0 < sn_dist a b \<Longrightarrow> sn_dist b a = 4096 - sn_dist a b"
proof -
  assume "0 < sn_dist a b"
  moreover have "(sn_dist a b + sn_dist b a) mod 4096 = 0"
    using sn_dist_chain [of a a b] by (simp add: sn_dist_self)
  ultimately show ?thesis
    using mod_sum_zero [of "sn_dist a b" "sn_dist b a" 4096] sn_dist_bound by simp
qed

lemma sn_before: "ieee80211_sn_less a b \<longleftrightarrow> 0 < sn_dist a b \<and> sn_dist a b < 2048"
proof (cases "sn_dist a b = 0")
  case True
  then have "sn_dist b a = 0"
    using sn_dist_chain [of b b a] sn_dist_bound [of b a] by (simp add: sn_dist_self)
  with True show ?thesis by (simp add: sn_less_dist)
next
  case False
  then have "sn_dist b a = 4096 - sn_dist a b" using sn_dist_back [of a b] by simp
  with False show ?thesis using sn_dist_bound [of a b] by (auto simp: sn_less_dist)
qed

interpretation sn: serial_counter sn_dist ieee80211_sn_less 2048
proof (unfold_locales, goal_cases)
  case (4 a c b)
  show ?case using sn_dist_chain [of a c b] by simp
qed (simp_all add: sn_dist_self sn_dist_bound sn_before)

text \<open>Advancing a sequence number and the distance it covers.\<close>

lemma unat_sn_inc: "unat (ieee80211_sn_inc s) = (unat s + 1) mod 4096"
  by (simp add: ieee80211_sn_inc_def ieee80211_sn_add_def wmask unat_word_ariths mod_mod_cancel)

lemma unat_sn_add: "unat (ieee80211_sn_add s k) = (unat s + unat k) mod 4096"
  by (simp add: ieee80211_sn_add_def wmask unat_word_ariths mod_mod_cancel)

lemma sn_dist_of_less:
  assumes "unat a < 4096" "unat b < 4096"
  shows "sn_dist a b = (if unat a \<le> unat b then unat b - unat a else unat b + 4096 - unat a)"
proof (cases "unat a \<le> unat b")
  case True
  then have "unat b + 65536 - unat a = (unat b - unat a) + 16 * 4096" by simp
  then have "sn_dist a b = (unat b - unat a) mod 4096"
    unfolding sn_dist_mod by (metis mod_mult_self1 mult.commute)
  with True assms show ?thesis by simp
next
  case False
  then have "unat b + 65536 - unat a = (unat b + 4096 - unat a) + 15 * 4096"
    using assms by simp
  then have "sn_dist a b = (unat b + 4096 - unat a) mod 4096"
    unfolding sn_dist_mod by (metis mod_mult_self1 mult.commute)
  with False assms show ?thesis by simp
qed

lemma sn_dist_0: "unat a < 4096 \<Longrightarrow> unat b < 4096 \<Longrightarrow> sn_dist a b = 0 \<longleftrightarrow> a = b"
  by (auto simp: sn_dist_of_less intro: word_unat_eq_iff [THEN iffD2] split: if_splits)

lemma sn_mask: "IEEE80211_SN_MASK = mask 12"
  by (simp add: mask_eq_exp_minus_1)

lemma sn_dist_sn_add: "unat k < 4096 \<Longrightarrow> sn_dist s (ieee80211_sn_add s k) = unat k"
  by (simp add: sn_dist_def ieee80211_sn_sub_def ieee80211_sn_add_def sn_mask mask_eqs unat_and_mask
      del: take_bit_eq_mask [symmetric])

lemma sn_dist_inc: "sn_dist s (ieee80211_sn_inc s) = 1"
  using sn_dist_sn_add [of 1 s] by (simp add: ieee80211_sn_inc_def)

text \<open>The sequence control field: a sequence number and a fragment number share 16 bits.\<close>

lemma sctl_seq: "IEEE80211_SCTL_SEQ = push_bit 4 (mask 12)"
  by (simp add: mask_eq_exp_minus_1)

lemma SEQ_TO_SN_roundtrip: "unat sn < 4096 \<Longrightarrow> IEEE80211_SEQ_TO_SN (IEEE80211_SN_TO_SEQ sn) = sn"
proof -
  assume "unat sn < 4096"
  then have "sn AND mask 12 = sn"
    by (simp add: word_unat_eq_iff unat_and_mask)
  moreover have "IEEE80211_SEQ_TO_SN (IEEE80211_SN_TO_SEQ sn) = sn AND mask 12"
    unfolding IEEE80211_SEQ_TO_SN_def IEEE80211_SN_TO_SEQ_def sctl_seq
    by (rule bit_word_eqI) (auto simp: bit_simps)
  ultimately show ?thesis by simp
qed


section \<open>Counters of a full word: jiffies and mesh sequence numbers\<close>

text \<open>
  The kernel's \<open>time_after(a, b)\<close> is \<open>(long)(b - a) < 0\<close>, and \<open>SN_GT(x, y)\<close> of mesh_hwmp.c the same
  on 32 bits: the sign of the wrapped difference.
\<close>

definition signed_before :: "'a::len word \<Rightarrow> 'a word \<Rightarrow> bool" where
  "signed_before a b \<longleftrightarrow> sint (a - b) < 0"

definition time_after :: "u64 \<Rightarrow> u64 \<Rightarrow> bool" where
  "time_after a b \<longleftrightarrow> signed_before b a"

definition word_dist :: "'a::len word \<Rightarrow> 'a word \<Rightarrow> nat" where
  "word_dist a b = unat (b - a)"

lemma sint_neg_iff: "sint (w :: 'a::len word) < 0 \<longleftrightarrow> 2 ^ (LENGTH('a) - 1) \<le> unat w"
proof -
  have len: "2 * 2 ^ (LENGTH('a) - 1) = (2 :: nat) ^ LENGTH('a)"
    by (metis One_nat_def Suc_pred len_gt_0 power_Suc)
  have "sint w < 0 \<longleftrightarrow> odd (unat w div 2 ^ (LENGTH('a) - 1))"
  proof -
    have "sint w < 0 \<longleftrightarrow> bit w (LENGTH('a) - 1)"
      by (simp add: bit_last_iff)
    also have "\<dots> \<longleftrightarrow> bit (unat w) (LENGTH('a) - 1)"
      by (simp add: bit_unsigned_iff)
    finally show ?thesis by (simp add: bit_iff_odd)
  qed
  moreover have "unat w div 2 ^ (LENGTH('a) - 1) < 2"
    using unsigned_less [of w] len by (simp add: less_mult_imp_div_less)
  ultimately show ?thesis
    by (metis div_eq_0_iff even_zero less_2_cases not_less odd_one One_nat_def zero_neq_numeral power_not_zero)
qed

lemma word_dist_chain:
  "word_dist a c = (word_dist a b + word_dist b c) mod 2 ^ LENGTH('a)" for a b c :: "'a::len word"
  by (simp add: word_dist_def flip: unat_word_ariths(1))

lemma word_dist_back: "0 < word_dist a b \<Longrightarrow> word_dist b a = 2 ^ LENGTH('a) - word_dist a b"
  for a b :: "'a::len word"
proof -
  assume pos: "0 < word_dist a b"
  have "(word_dist a b + word_dist b a) mod 2 ^ LENGTH('a) = 0"
    using word_dist_chain [of a a b] by (simp add: word_dist_def)
  then have "word_dist a b + word_dist b a = 2 ^ LENGTH('a)"
    using pos by (rule mod_sum_zero) (simp_all add: word_dist_def unsigned_less)
  then show ?thesis by simp
qed

interpretation wrap: serial_counter "word_dist :: 'a::len word \<Rightarrow> 'a word \<Rightarrow> nat" signed_before
  "2 ^ (LENGTH('a) - 1)"
proof -
  have len: "2 * 2 ^ (LENGTH('a) - 1) = (2 :: nat) ^ LENGTH('a)"
    by (metis One_nat_def Suc_pred len_gt_0 power_Suc)
  show "serial_counter (word_dist :: 'a word \<Rightarrow> 'a word \<Rightarrow> nat) signed_before (2 ^ (LENGTH('a) - 1))"
  proof (unfold_locales, unfold len, goal_cases)
    case (3 a b)
    show ?case by (simp add: word_dist_def unsigned_less)
  next
    case (4 a c b)
    show ?case by (rule word_dist_chain)
  next
    case (5 a b)
    show ?case
    proof (cases "word_dist a b = 0")
      case True
      then show ?thesis by (simp add: signed_before_def word_dist_def unat_eq_0)
    next
      case False
      then show ?thesis
        using 5 word_dist_back [of a b] len by (auto simp: signed_before_def sint_neg_iff word_dist_def)
    qed
  next
    case (6 a b)
    then have "0 < word_dist a b" by simp
    then have "word_dist b a = 2 ^ LENGTH('a) - word_dist a b" by (rule word_dist_back)
    moreover have "(0 :: nat) < 2 ^ (LENGTH('a) - 1)" by simp
    ultimately have "word_dist b a < 2 ^ (LENGTH('a) - 1)"
      using 6 len by linarith
    then show ?case by (simp add: signed_before_def sint_neg_iff word_dist_def)
  qed (simp_all add: word_dist_def)
qed

end
