(* ===== verification/Frame.thy ===== *)
theory Frame
  imports SeqNum
begin

text \<open>
  The 802.11 MAC header as the code reads it: the inline predicates of include/linux/ieee80211.h on
  the frame control field, the address and QoS accessors, and the header length of
  net/wireless/util.c. A header is the byte list at the front of the frame; the accessors of the
  code do not check its length, and neither do these.
\<close>

type_synonym hdr = "u8 list"

abbreviation (input) IEEE80211_FCTL_FTYPE :: u16 where "IEEE80211_FCTL_FTYPE \<equiv> 0x000c"
abbreviation (input) IEEE80211_FCTL_STYPE :: u16 where "IEEE80211_FCTL_STYPE \<equiv> 0x00f0"
abbreviation (input) IEEE80211_FCTL_TODS :: u16 where "IEEE80211_FCTL_TODS \<equiv> 0x0100"
abbreviation (input) IEEE80211_FCTL_FROMDS :: u16 where "IEEE80211_FCTL_FROMDS \<equiv> 0x0200"
abbreviation (input) IEEE80211_FCTL_MOREFRAGS :: u16 where "IEEE80211_FCTL_MOREFRAGS \<equiv> 0x0400"
abbreviation (input) IEEE80211_FCTL_RETRY :: u16 where "IEEE80211_FCTL_RETRY \<equiv> 0x0800"
abbreviation (input) IEEE80211_FCTL_PROTECTED :: u16 where "IEEE80211_FCTL_PROTECTED \<equiv> 0x4000"
abbreviation (input) IEEE80211_FCTL_ORDER :: u16 where "IEEE80211_FCTL_ORDER \<equiv> 0x8000"
abbreviation (input) IEEE80211_FTYPE_MGMT :: u16 where "IEEE80211_FTYPE_MGMT \<equiv> 0x0000"
abbreviation (input) IEEE80211_FTYPE_CTL :: u16 where "IEEE80211_FTYPE_CTL \<equiv> 0x0004"
abbreviation (input) IEEE80211_FTYPE_DATA :: u16 where "IEEE80211_FTYPE_DATA \<equiv> 0x0008"
abbreviation (input) IEEE80211_FTYPE_EXT :: u16 where "IEEE80211_FTYPE_EXT \<equiv> 0x000c"
abbreviation (input) IEEE80211_STYPE_NULLFUNC :: u16 where "IEEE80211_STYPE_NULLFUNC \<equiv> 0x0040"
abbreviation (input) IEEE80211_STYPE_QOS_DATA :: u16 where "IEEE80211_STYPE_QOS_DATA \<equiv> 0x0080"
abbreviation (input) IEEE80211_STYPE_QOS_NULLFUNC :: u16 where "IEEE80211_STYPE_QOS_NULLFUNC \<equiv> 0x00C0"
abbreviation (input) IEEE80211_QOS_CTL_TID_MASK :: u8 where "IEEE80211_QOS_CTL_TID_MASK \<equiv> 0x0f"
abbreviation (input) IEEE80211_QOS_CTL_ACK_POLICY_MASK :: u8 where "IEEE80211_QOS_CTL_ACK_POLICY_MASK \<equiv> 0x60"
abbreviation (input) IEEE80211_QOS_CTL_ACK_POLICY_NOACK :: u8 where "IEEE80211_QOS_CTL_ACK_POLICY_NOACK \<equiv> 0x20"
abbreviation (input) IEEE80211_QOS_CTL_ACK_POLICY_BLOCKACK :: u8 where "IEEE80211_QOS_CTL_ACK_POLICY_BLOCKACK \<equiv> 0x60"

text \<open>The kinds of interface, \<open>enum nl80211_iftype\<close>.\<close>

abbreviation (input) NL80211_IFTYPE_ADHOC :: nat where "NL80211_IFTYPE_ADHOC \<equiv> 1"
abbreviation (input) NL80211_IFTYPE_STATION :: nat where "NL80211_IFTYPE_STATION \<equiv> 2"
abbreviation (input) NL80211_IFTYPE_AP :: nat where "NL80211_IFTYPE_AP \<equiv> 3"
abbreviation (input) NL80211_IFTYPE_AP_VLAN :: nat where "NL80211_IFTYPE_AP_VLAN \<equiv> 4"
abbreviation (input) NL80211_IFTYPE_MESH_POINT :: nat where "NL80211_IFTYPE_MESH_POINT \<equiv> 7"
abbreviation (input) NL80211_IFTYPE_P2P_CLIENT :: nat where "NL80211_IFTYPE_P2P_CLIENT \<equiv> 8"
abbreviation (input) NL80211_IFTYPE_P2P_GO :: nat where "NL80211_IFTYPE_P2P_GO \<equiv> 9"
abbreviation (input) NL80211_IFTYPE_OCB :: nat where "NL80211_IFTYPE_OCB \<equiv> 11"

definition frame_control :: "hdr \<Rightarrow> u16" where "frame_control h = get_le16 h 0"
definition addr1 :: "hdr \<Rightarrow> u8 list" where "addr1 h = take 6 (drop 4 h)"
definition addr2 :: "hdr \<Rightarrow> u8 list" where "addr2 h = take 6 (drop 10 h)"
definition addr3 :: "hdr \<Rightarrow> u8 list" where "addr3 h = take 6 (drop 16 h)"
definition seq_ctrl :: "hdr \<Rightarrow> u16" where "seq_ctrl h = get_le16 h 22"
definition addr4 :: "hdr \<Rightarrow> u8 list" where "addr4 h = take 6 (drop 24 h)"

definition is_multicast_ether_addr :: "u8 list \<Rightarrow> bool" where
  "is_multicast_ether_addr a \<longleftrightarrow> a ! 0 AND 1 \<noteq> 0"

definition ieee80211_has_tods :: "u16 \<Rightarrow> bool" where
  "ieee80211_has_tods fc \<longleftrightarrow> fc AND IEEE80211_FCTL_TODS \<noteq> 0"

definition ieee80211_has_fromds :: "u16 \<Rightarrow> bool" where
  "ieee80211_has_fromds fc \<longleftrightarrow> fc AND IEEE80211_FCTL_FROMDS \<noteq> 0"

definition ieee80211_has_a4 :: "u16 \<Rightarrow> bool" where
  "ieee80211_has_a4 fc \<longleftrightarrow>
     fc AND (IEEE80211_FCTL_TODS OR IEEE80211_FCTL_FROMDS) = IEEE80211_FCTL_TODS OR IEEE80211_FCTL_FROMDS"

definition ieee80211_has_morefrags :: "u16 \<Rightarrow> bool" where
  "ieee80211_has_morefrags fc \<longleftrightarrow> fc AND IEEE80211_FCTL_MOREFRAGS \<noteq> 0"

definition ieee80211_has_retry :: "u16 \<Rightarrow> bool" where
  "ieee80211_has_retry fc \<longleftrightarrow> fc AND IEEE80211_FCTL_RETRY \<noteq> 0"

definition ieee80211_has_protected :: "u16 \<Rightarrow> bool" where
  "ieee80211_has_protected fc \<longleftrightarrow> fc AND IEEE80211_FCTL_PROTECTED \<noteq> 0"

definition ieee80211_has_order :: "u16 \<Rightarrow> bool" where
  "ieee80211_has_order fc \<longleftrightarrow> fc AND IEEE80211_FCTL_ORDER \<noteq> 0"

definition ieee80211_is_mgmt :: "u16 \<Rightarrow> bool" where
  "ieee80211_is_mgmt fc \<longleftrightarrow> fc AND IEEE80211_FCTL_FTYPE = IEEE80211_FTYPE_MGMT"

definition ieee80211_is_ctl :: "u16 \<Rightarrow> bool" where
  "ieee80211_is_ctl fc \<longleftrightarrow> fc AND IEEE80211_FCTL_FTYPE = IEEE80211_FTYPE_CTL"

definition ieee80211_is_data :: "u16 \<Rightarrow> bool" where
  "ieee80211_is_data fc \<longleftrightarrow> fc AND IEEE80211_FCTL_FTYPE = IEEE80211_FTYPE_DATA"

definition ieee80211_is_ext :: "u16 \<Rightarrow> bool" where
  "ieee80211_is_ext fc \<longleftrightarrow> fc AND IEEE80211_FCTL_FTYPE = IEEE80211_FTYPE_EXT"

definition ieee80211_is_data_qos :: "u16 \<Rightarrow> bool" where
  "ieee80211_is_data_qos fc \<longleftrightarrow>
     fc AND (IEEE80211_FCTL_FTYPE OR IEEE80211_STYPE_QOS_DATA)
       = IEEE80211_FTYPE_DATA OR IEEE80211_STYPE_QOS_DATA"

definition ieee80211_is_data_present :: "u16 \<Rightarrow> bool" where
  "ieee80211_is_data_present fc \<longleftrightarrow> fc AND (IEEE80211_FCTL_FTYPE OR 0x40) = IEEE80211_FTYPE_DATA"

definition ieee80211_is_nullfunc :: "u16 \<Rightarrow> bool" where
  "ieee80211_is_nullfunc fc \<longleftrightarrow>
     fc AND (IEEE80211_FCTL_FTYPE OR IEEE80211_FCTL_STYPE)
       = IEEE80211_FTYPE_DATA OR IEEE80211_STYPE_NULLFUNC"

definition ieee80211_is_qos_nullfunc :: "u16 \<Rightarrow> bool" where
  "ieee80211_is_qos_nullfunc fc \<longleftrightarrow>
     fc AND (IEEE80211_FCTL_FTYPE OR IEEE80211_FCTL_STYPE)
       = IEEE80211_FTYPE_DATA OR IEEE80211_STYPE_QOS_NULLFUNC"

definition ieee80211_is_any_nullfunc :: "u16 \<Rightarrow> bool" where
  "ieee80211_is_any_nullfunc fc \<longleftrightarrow> ieee80211_is_nullfunc fc \<or> ieee80211_is_qos_nullfunc fc"

definition ieee80211_is_first_frag :: "u16 \<Rightarrow> bool" where
  "ieee80211_is_first_frag sc \<longleftrightarrow> sc AND IEEE80211_SCTL_FRAG = 0"

definition ieee80211_is_frag :: "hdr \<Rightarrow> bool" where
  "ieee80211_is_frag h \<longleftrightarrow>
     ieee80211_has_morefrags (frame_control h) \<or> seq_ctrl h AND IEEE80211_SCTL_FRAG \<noteq> 0"

definition ieee80211_get_sn :: "hdr \<Rightarrow> u16" where
  "ieee80211_get_sn h = IEEE80211_SEQ_TO_SN (seq_ctrl h)"

text \<open>Storing into the frame control field.\<close>

definition set_fc :: "u16 \<Rightarrow> u8 list \<Rightarrow> u8 list" where
  "set_fc w h = put_le16 w @ drop 2 h"

text \<open>The QoS control bytes follow the fourth address when there is one.\<close>

definition ieee80211_get_qos_ctl :: "hdr \<Rightarrow> u8 list" where
  "ieee80211_get_qos_ctl h =
     (if ieee80211_has_a4 (frame_control h) then drop 30 h else drop 24 h)"

definition ieee80211_get_tid :: "hdr \<Rightarrow> u8" where
  "ieee80211_get_tid h = ieee80211_get_qos_ctl h ! 0 AND IEEE80211_QOS_CTL_TID_MASK"

definition ieee80211_get_SA :: "hdr \<Rightarrow> u8 list" where
  "ieee80211_get_SA h =
     (if ieee80211_has_a4 (frame_control h) then addr4 h
      else if ieee80211_has_fromds (frame_control h) then addr3 h
      else addr2 h)"

definition ieee80211_get_DA :: "hdr \<Rightarrow> u8 list" where
  "ieee80211_get_DA h = (if ieee80211_has_tods (frame_control h) then addr3 h else addr1 h)"

definition ieee80211_hdrlen :: "u16 \<Rightarrow> nat" where
  "ieee80211_hdrlen fc =
     (if ieee80211_is_ext fc then 4
      else if ieee80211_is_data fc then
        (if ieee80211_has_a4 fc then 30 else 24)
          + (if ieee80211_is_data_qos fc then 2 + (if ieee80211_has_order fc then 4 else 0) else 0)
      else if ieee80211_is_mgmt fc then 24 + (if ieee80211_has_order fc then 4 else 0)
      else if ieee80211_is_ctl fc then (if fc AND 0x00E0 = 0x00C0 then 10 else 16)
      else 24)"

definition ieee80211_get_hdrlen_from_skb :: "u8 list \<Rightarrow> nat" where
  "ieee80211_get_hdrlen_from_skb data =
     (if length data < 10 then 0
      else let hdrlen = ieee80211_hdrlen (frame_control data)
           in if hdrlen > length data then 0 else hdrlen)"


section \<open>Facts\<close>

lemma SEQ_TO_SN_bound: "unat (IEEE80211_SEQ_TO_SN s) < 4096"
proof -
  have "IEEE80211_SEQ_TO_SN s = drop_bit 4 s AND mask 12"
    unfolding IEEE80211_SEQ_TO_SN_def sctl_seq
    by (rule bit_word_eqI) (auto simp: bit_simps)
  then show ?thesis by (simp add: unat_and_mask)
qed

lemma get_sn_bound [simp]: "unat (ieee80211_get_sn h) < 4096"
  unfolding ieee80211_get_sn_def by (rule SEQ_TO_SN_bound)

lemma and_or_disjoint: "b AND m = 0 \<Longrightarrow> (w OR b) AND m = w AND (m :: u16)"
  by (simp add: bit.conj_disj_distrib2)

lemmas fc_defs = ieee80211_is_ctl_def ieee80211_is_ext_def ieee80211_is_data_def ieee80211_is_mgmt_def
  ieee80211_has_a4_def ieee80211_is_data_qos_def ieee80211_has_order_def ieee80211_has_protected_def

lemma hdrlen_le: "ieee80211_hdrlen fc \<le> 36"
  by (simp add: ieee80211_hdrlen_def)

lemma data_present_data: "ieee80211_is_data_present fc \<Longrightarrow> ieee80211_is_data fc"
proof -
  assume a: "ieee80211_is_data_present fc"
  have "fc AND 0xC = (fc AND (0xC OR 0x40)) AND (0xC :: u16)" by (simp add: and.assoc)
  with a show ?thesis by (simp add: ieee80211_is_data_present_def ieee80211_is_data_def)
qed

text \<open>The type field has two bits, so the last branch of the length computation is dead.\<close>

lemma ftype_cases:
  "ieee80211_is_mgmt fc \<or> ieee80211_is_ctl fc \<or> ieee80211_is_data fc \<or> ieee80211_is_ext fc"
proof -
  have m: "IEEE80211_FCTL_FTYPE = push_bit 2 (mask 2)"
    by (simp add: mask_eq_exp_minus_1)
  have [simp]: "2 \<le> n \<Longrightarrow> Suc (Suc (n - 2)) = n" for n :: nat
    by simp
  have "fc AND IEEE80211_FCTL_FTYPE = push_bit 2 (drop_bit 2 fc AND mask 2)"
    unfolding m by (rule bit_word_eqI) (auto simp: bit_simps)
  moreover have "unat (drop_bit 2 fc AND mask 2) \<in> {0, 1, 2, 3}"
    using unat_and_mask [of "drop_bit 2 fc" 2] by auto
  then have "drop_bit 2 fc AND mask 2 \<in> {0, 1, 2, 3}"
    by (auto simp: word_unat_eq_iff)
  ultimately obtain x where "fc AND IEEE80211_FCTL_FTYPE = push_bit 2 x" and "x \<in> {0, 1, 2, 3}"
    by blast
  then show ?thesis
    by (auto simp: ieee80211_is_mgmt_def ieee80211_is_ctl_def ieee80211_is_data_def ieee80211_is_ext_def)
qed

end
