(* ===== verification/Reorder.thy ===== *)
theory Reorder
  imports Frame
begin

text \<open>
  The receive reorder buffer of a block-ack session: \<open>struct tid_ampdu_rx\<close> (sta_info.h) and the
  functions of net/mac80211/rx.c that store, release and time out its frames. A socket buffer is
  its bytes with the two receive flags the code looks at; a queue of them is a list, oldest first.
  Every operation returns, beside the new session, the frames it appended to the caller's \<open>frames\<close>
  queue and the frames it freed, in order, so that no buffer disappears silently. Loops that could
  run forever in C are \<open>option\<close>-valued: \<open>None\<close> means the loop does not end.
\<close>


section \<open>State\<close>

record skb =
  skb_data :: "u8 list"
  amsdu_more :: bool       \<comment> \<open>\<open>RX_FLAG_AMSDU_MORE\<close> of \<open>status->flag\<close>\<close>
  deferred_release :: bool \<comment> \<open>\<open>IEEE80211_RX_DEFERRED_RELEASE\<close> of \<open>status->rx_flags\<close>\<close>

abbreviation skb_sn :: "skb \<Rightarrow> u16" where
  "skb_sn f \<equiv> ieee80211_get_sn (skb_data f)"

record tid_ampdu_rx =
  reorder_buf_filtered :: u64
  reorder_buf :: "skb list list"
  reorder_time :: "u64 list"
  session_timer :: "u64 option"
  reorder_timer :: "u64 option" \<comment> \<open>expiry of the armed timer\<close>
  last_rx :: u64
  head_seq_num :: u16
  stored_mpdu_num :: u16
  ssn :: u16
  buf_size :: u16
  ba_timeout :: u16
  auto_seq :: bool
  removed :: bool
  started :: bool

text \<open>\<open>HZ / 10\<close>, with the \<open>CONFIG_HZ=100\<close> of the kernel configuration.\<close>

abbreviation (input) HT_RX_REORDER_BUF_TIMEOUT :: u64 where
  "HT_RX_REORDER_BUF_TIMEOUT \<equiv> 10"

abbreviation slots :: "tid_ampdu_rx \<Rightarrow> nat" where
  "slots t \<equiv> unat (buf_size t)"

text \<open>\<open>BIT_ULL\<close> of an index; the bitmap only has 64 bits, and the code documents that it serves
  sessions of at most 64 slots.\<close>

definition filtered_bit :: "nat \<Rightarrow> u64" where
  "filtered_bit index = push_bit index 1"


section \<open>Releasing frames\<close>

definition ieee80211_rx_reorder_ready :: "tid_ampdu_rx \<Rightarrow> nat \<Rightarrow> bool" where
  "ieee80211_rx_reorder_ready t index =
     (let frames = reorder_buf t ! index
      in if reorder_buf_filtered t \<noteq> 0 \<and> reorder_buf_filtered t AND filtered_bit index \<noteq> 0 then True
         else if frames = [] then False
         else if amsdu_more (last frames) then False
         else True)"

type_synonym released = "tid_ampdu_rx \<times> skb list \<times> skb list"

definition ieee80211_release_reorder_frame :: "tid_ampdu_rx \<Rightarrow> nat \<Rightarrow> released" where
  "ieee80211_release_reorder_frame t index =
     (let skb_list = reorder_buf t ! index;
          cleared = t\<lparr>reorder_buf := (reorder_buf t)[index := []]\<rparr>;
          (t', out, freed) =
            (if skb_list = [] then (t, [], [])
             else if \<not> ieee80211_rx_reorder_ready t index then (cleared, [], skb_list)
             else (cleared\<lparr>stored_mpdu_num := stored_mpdu_num t - 1\<rparr>,
                   map (\<lambda>skb. skb\<lparr>deferred_release := True\<rparr>) skb_list, []));
          t'' = (if reorder_buf_filtered t' \<noteq> 0
                 then t'\<lparr>reorder_buf_filtered := reorder_buf_filtered t' AND NOT (filtered_bit index)\<rparr>
                 else t')
      in (t''\<lparr>head_seq_num := ieee80211_sn_inc (head_seq_num t'')\<rparr>, out, freed))"

lemma head_release_reorder_frame:
  "head_seq_num (fst (ieee80211_release_reorder_frame t i)) = ieee80211_sn_inc (head_seq_num t)"
  by (simp add: ieee80211_release_reorder_frame_def Let_def split: prod.splits)

function ieee80211_release_reorder_frames :: "tid_ampdu_rx \<Rightarrow> u16 \<Rightarrow> released" where
  "ieee80211_release_reorder_frames t h =
     (if ieee80211_sn_less (head_seq_num t) h then
        let (t1, out1, freed1) =
              ieee80211_release_reorder_frame t (unat (head_seq_num t) mod slots t);
            (t2, out2, freed2) = ieee80211_release_reorder_frames t1 h
        in (t2, out1 @ out2, freed1 @ freed2)
      else (t, [], []))"
  by pat_completeness auto
termination
proof (relation "measure (\<lambda>(t, h). sn_dist (head_seq_num t) h)", goal_cases)
  case (2 t h x t1 y out1 freed1)
  then have "head_seq_num t1 = ieee80211_sn_inc (head_seq_num t)"
    by (metis fst_conv head_release_reorder_frame)
  moreover have "0 < sn_dist (head_seq_num t) h"
    using 2 by (simp add: sn_before)
  ultimately show ?case
    using sn.dist_diff [of "head_seq_num t" "head_seq_num t1" h] by (simp add: sn_dist_inc)
qed simp

declare ieee80211_release_reorder_frames.simps [simp del]

text \<open>\<open>__skb_queue_purge\<close> of one slot, and of a list of slots.\<close>

definition purge_slot :: "tid_ampdu_rx \<Rightarrow> nat \<Rightarrow> tid_ampdu_rx \<times> skb list" where
  "purge_slot t i = (t\<lparr>reorder_buf := (reorder_buf t)[i := []]\<rparr>, reorder_buf t ! i)"

fun purge_slots :: "tid_ampdu_rx \<Rightarrow> nat list \<Rightarrow> tid_ampdu_rx \<times> skb list" where
  "purge_slots t [] = (t, [])"
| "purge_slots t (i # is) =
     (let (t1, freed1) = purge_slot t i; (t2, freed2) = purge_slots t1 is
      in (t2, freed1 @ freed2))"

text \<open>
  The timeout loop of \<open>ieee80211_sta_reorder_release\<close>. The slots still to visit are the list
  argument, in the order the \<open>for\<close> loop visits them; \<open>seen\<close> is the part already visited, which is
  what the inner purging loop runs over. The last component of the result is the slot with which
  the code jumps to \<open>set_release_timer\<close>, if it does.
\<close>

fun reorder_timeout_scan ::
  "u64 \<Rightarrow> nat list \<Rightarrow> nat list \<Rightarrow> nat \<Rightarrow> tid_ampdu_rx \<Rightarrow> tid_ampdu_rx \<times> skb list \<times> skb list \<times> nat option"
where
  "reorder_timeout_scan jiffies seen [] skipped t = (t, [], [], None)"
| "reorder_timeout_scan jiffies seen (j # js) skipped t =
     (if \<not> ieee80211_rx_reorder_ready t j then
        reorder_timeout_scan jiffies (seen @ [j]) js (skipped + 1) t
      else if skipped \<noteq> 0 \<and>
              \<not> time_after jiffies (reorder_time t ! j + HT_RX_REORDER_BUF_TIMEOUT) then
        (t, [], [], Some j)
      else
        let (t1, purged) = purge_slots t seen;
            (t2, out2, freed2) = ieee80211_release_reorder_frame t1 j;
            t3 = t2\<lparr>head_seq_num := (head_seq_num t2 + of_nat skipped) AND IEEE80211_SN_MASK\<rparr>;
            (t4, out4, freed4, stop) = reorder_timeout_scan jiffies (seen @ [j]) js 0 t3
        in (t4, out2 @ out4, purged @ freed2 @ freed4, stop))"

text \<open>The slots after \<open>index\<close>, once around the ring.\<close>

definition slots_after :: "nat \<Rightarrow> nat \<Rightarrow> nat list" where
  "slots_after n index = map (\<lambda>k. (index + k) mod n) [1..<n]"

text \<open>The \<open>else while\<close> loop: release as long as the head slot is ready.\<close>

partial_function (option) release_while_ready ::
  "tid_ampdu_rx \<Rightarrow> skb list \<Rightarrow> skb list \<Rightarrow> released option"
where
  "release_while_ready t out freed =
     (let index = unat (head_seq_num t) mod slots t
      in if ieee80211_rx_reorder_ready t index then
           let (t1, out1, freed1) = ieee80211_release_reorder_frame t index
           in release_while_ready t1 (out @ out1) (freed @ freed1)
         else Some (t, out, freed))"

text \<open>
  The loop that looks for the slot whose time arms the timer:
  \<open>for (; j != (index - 1) % buf_size; j = (j + 1) % buf_size)\<close>. For \<open>index = 0\<close> the C remainder is
  negative and the loop has no bound of its own.
\<close>

partial_function (option) timer_slot :: "tid_ampdu_rx \<Rightarrow> int \<Rightarrow> nat \<Rightarrow> nat option" where
  "timer_slot t stop j =
     (if int j \<noteq> stop then
        (if ieee80211_rx_reorder_ready t j then Some j
         else timer_slot t stop ((j + 1) mod slots t))
      else Some j)"

declare release_while_ready.simps [code]
declare timer_slot.simps [code]

definition set_release_timer :: "tid_ampdu_rx \<Rightarrow> nat \<Rightarrow> tid_ampdu_rx" where
  "set_release_timer t j =
     (if removed t then t
      else t\<lparr>reorder_timer := Some (reorder_time t ! j + 1 + HT_RX_REORDER_BUF_TIMEOUT)\<rparr>)"

definition rearm_timer :: "tid_ampdu_rx \<Rightarrow> tid_ampdu_rx option" where
  "rearm_timer t =
     (if stored_mpdu_num t \<noteq> 0 then
        let index = unat (head_seq_num t) mod slots t
        in map_option (set_release_timer t)
             (timer_slot t (c_rem (int index - 1) (int (slots t))) index)
      else Some (t\<lparr>reorder_timer := None\<rparr>))"

definition ieee80211_sta_reorder_release :: "tid_ampdu_rx \<Rightarrow> u64 \<Rightarrow> released option" where
  "ieee80211_sta_reorder_release t jiffies =
     (let index = unat (head_seq_num t) mod slots t
      in if \<not> ieee80211_rx_reorder_ready t index \<and> stored_mpdu_num t \<noteq> 0 then
           (case reorder_timeout_scan jiffies [] (slots_after (slots t) index) 1 t of
              (t1, out, freed, Some j) \<Rightarrow> Some (set_release_timer t1 j, out, freed)
            | (t1, out, freed, None) \<Rightarrow> map_option (\<lambda>t2. (t2, out, freed)) (rearm_timer t1))
         else
           Option.bind (release_while_ready t [] [])
             (\<lambda>(t1, out, freed). map_option (\<lambda>t2. (t2, out, freed)) (rearm_timer t1)))"


section \<open>Receiving a frame\<close>

text \<open>
  The result says whether the frame was consumed (\<open>true\<close>) or is to be processed by the caller at
  once (\<open>false\<close>).
\<close>

definition reorder_start :: "tid_ampdu_rx \<Rightarrow> u16 \<Rightarrow> tid_ampdu_rx" where
  "reorder_start t mpdu_seq_num =
     (if auto_seq t then t\<lparr>auto_seq := False, ssn := mpdu_seq_num, head_seq_num := mpdu_seq_num\<rparr>
      else t)"

definition reorder_store :: "tid_ampdu_rx \<Rightarrow> skb \<Rightarrow> u64 \<Rightarrow> (tid_ampdu_rx \<times> bool \<times> skb list \<times> skb list) option" where
  "reorder_store t skb jiffies =
     (let mpdu_seq_num = skb_sn skb;
          index = unat mpdu_seq_num mod slots t
      in if ieee80211_rx_reorder_ready t index then Some (t, True, [], [skb])
         else if mpdu_seq_num = head_seq_num t \<and> stored_mpdu_num t = 0 then
           Some (if amsdu_more skb then t
                 else t\<lparr>head_seq_num := ieee80211_sn_inc (head_seq_num t)\<rparr>, False, [], [])
         else
           let t1 = t\<lparr>reorder_buf := (reorder_buf t)[index := reorder_buf t ! index @ [skb]]\<rparr>
           in if amsdu_more skb then Some (t1, True, [], [])
              else map_option (\<lambda>(t2, out, freed). (t2, True, out, freed))
                     (ieee80211_sta_reorder_release
                        (t1\<lparr>reorder_time := (reorder_time t1)[index := jiffies],
                            stored_mpdu_num := stored_mpdu_num t1 + 1\<rparr>) jiffies))"

definition ieee80211_sta_manage_reorder_buf ::
  "tid_ampdu_rx \<Rightarrow> skb \<Rightarrow> u64 \<Rightarrow> (tid_ampdu_rx \<times> bool \<times> skb list \<times> skb list) option"
where
  "ieee80211_sta_manage_reorder_buf t0 skb jiffies =
     (let mpdu_seq_num = skb_sn skb;
          t = reorder_start t0 mpdu_seq_num;
          h = head_seq_num t
      in if \<not> started t \<and> ieee80211_sn_less mpdu_seq_num h then Some (t, False, [], [])
         else
           let t = t\<lparr>started := True\<rparr>
           in if ieee80211_sn_less mpdu_seq_num h then Some (t, True, [], [skb])
              else
                let (t1, out1, freed1) =
                      (if \<not> ieee80211_sn_less mpdu_seq_num (h + buf_size t) then
                         ieee80211_release_reorder_frames t
                           (ieee80211_sn_inc (ieee80211_sn_sub mpdu_seq_num (buf_size t)))
                       else (t, [], []))
                in map_option (\<lambda>(t2, ret, out2, freed2). (t2, ret, out1 @ out2, freed1 @ freed2))
                     (reorder_store t1 skb jiffies))"


section \<open>No frame is lost or duplicated\<close>

text \<open>
  A session is well formed when its two arrays have \<open>buf_size\<close> entries. \<open>held\<close> is what the buffer
  holds, up to the \<open>deferred_release\<close> mark that releasing sets.
\<close>

definition wf_session :: "tid_ampdu_rx \<Rightarrow> bool" where
  "wf_session t \<longleftrightarrow>
     0 < slots t \<and> length (reorder_buf t) = slots t \<and> length (reorder_time t) = slots t"

definition unmark :: "skb \<Rightarrow> skb" where
  "unmark f = f\<lparr>deferred_release := False\<rparr>"

definition unmarked :: "skb list \<Rightarrow> skb multiset" where
  "unmarked fs = image_mset unmark (mset fs)"

definition held :: "tid_ampdu_rx \<Rightarrow> skb multiset" where
  "held t = unmarked (concat (reorder_buf t))"

text \<open>What every releasing operation guarantees: it moves frames out of the buffer, each to exactly
  one of the two result lists.\<close>

definition moves :: "tid_ampdu_rx \<Rightarrow> tid_ampdu_rx \<Rightarrow> skb list \<Rightarrow> skb list \<Rightarrow> bool" where
  "moves t t' out freed \<longleftrightarrow>
     (wf_session t \<longrightarrow> wf_session t' \<and> buf_size t' = buf_size t \<and>
        held t = held t' + unmarked out + unmarked freed)"

lemma unmark_mark [simp]: "unmark (f\<lparr>deferred_release := b\<rparr>) = unmark f"
  by (simp add: unmark_def)

lemma unmarked_simps [simp]:
  "unmarked [] = {#}" "unmarked (fs @ gs) = unmarked fs + unmarked gs"
  "unmarked (f # fs) = add_mset (unmark f) (unmarked fs)"
  "unmarked (map (\<lambda>f. f\<lparr>deferred_release := b\<rparr>) fs) = unmarked fs"
  by (simp_all add: unmarked_def multiset.map_comp o_def)

lemma moves_refl [intro, simp]: "moves t t [] []"
  by (simp add: moves_def)

lemma moves_trans:
  "moves t t1 o1 f1 \<Longrightarrow> moves t1 t2 o2 f2 \<Longrightarrow> moves t t2 (o1 @ o2) (f1 @ f2)"
  by (auto simp: moves_def ac_simps)

lemma unmarked_clear:
  "i < length buf \<Longrightarrow> unmarked (concat (buf[i := []])) + unmarked (buf ! i) = unmarked (concat buf)"
  unfolding unmarked_def by (metis image_mset_union mset_concat_clear)

lemma moves_same_buf:
  "reorder_buf t' = reorder_buf t \<Longrightarrow> length (reorder_time t') = length (reorder_time t) \<Longrightarrow>
   buf_size t' = buf_size t \<Longrightarrow> moves t t' [] []"
  by (simp add: moves_def held_def wf_session_def)

lemma moves_frame:
  assumes "moves t t1 out freed" "reorder_buf t' = reorder_buf t1"
    "length (reorder_time t') = length (reorder_time t1)" "buf_size t' = buf_size t1"
  shows "moves t t' out freed"
  using moves_trans [OF assms(1) moves_same_buf [OF assms(2-4)]] by simp

lemma moves_purge_slot:
  "purge_slot t i = (t', freed) \<Longrightarrow> i < slots t \<Longrightarrow> moves t t' [] freed"
  using unmarked_clear [of i "reorder_buf t"]
  by (auto simp: purge_slot_def moves_def wf_session_def held_def)

lemma moves_release_reorder_frame:
  assumes "ieee80211_release_reorder_frame t i = (t', out, freed)" "i < slots t"
  shows "moves t t' out freed"
proof -
  consider "reorder_buf t ! i = []" "reorder_buf t' = reorder_buf t" "out = []" "freed = []"
    | "reorder_buf t' = (reorder_buf t)[i := []]"
      "unmarked out + unmarked freed = unmarked (reorder_buf t ! i)"
    using assms(1) by (auto simp: ieee80211_release_reorder_frame_def Let_def split: if_splits)
  moreover have "buf_size t' = buf_size t" "reorder_time t' = reorder_time t"
    using assms(1) by (auto simp: ieee80211_release_reorder_frame_def Let_def split: if_splits)
  ultimately show ?thesis
    using unmarked_clear [of i "reorder_buf t"] assms(2)
    by cases (auto simp: moves_def wf_session_def held_def union_assoc [symmetric] union_commute)
qed

lemma head_slot_less: "0 < slots t \<Longrightarrow> unat (head_seq_num t) mod slots t < slots t"
  by simp

lemma moves_buf_size: "moves t t' out freed \<Longrightarrow> wf_session t \<Longrightarrow> buf_size t' = buf_size t"
  by (simp add: moves_def)

lemma moves_wf: "moves t t' out freed \<Longrightarrow> wf_session t \<Longrightarrow> wf_session t'"
  by (simp add: moves_def)

lemma moves_unless: "(wf_session t \<Longrightarrow> moves t t' out freed) \<Longrightarrow> moves t t' out freed"
  by (auto simp: moves_def)

lemma wf_slots: "wf_session t \<Longrightarrow> 0 < slots t"
  by (simp add: wf_session_def)

lemma moves_release_reorder_frames:
  "ieee80211_release_reorder_frames t h = (t', out, freed) \<Longrightarrow> moves t t' out freed"
proof (induction t h arbitrary: t' out freed rule: ieee80211_release_reorder_frames.induct)
  case (1 t h)
  show ?case
  proof (cases "ieee80211_sn_less (head_seq_num t) h")
    case False
    with 1 show ?thesis by (simp add: ieee80211_release_reorder_frames.simps)
  next
    case True
    obtain t1 out1 freed1 where r1:
      "ieee80211_release_reorder_frame t (unat (head_seq_num t) mod slots t) = (t1, out1, freed1)"
      by (metis prod_cases3)
    obtain t2 out2 freed2 where r2: "ieee80211_release_reorder_frames t1 h = (t2, out2, freed2)"
      by (metis prod_cases3)
    have eq: "t' = t2" "out = out1 @ out2" "freed = freed1 @ freed2"
      using "1.prems" True r1 r2 by (simp_all add: ieee80211_release_reorder_frames.simps [of t h])
    have "wf_session t \<Longrightarrow> moves t t1 out1 freed1"
      by (rule moves_release_reorder_frame [OF r1]) (rule head_slot_less, rule wf_slots)
    then have "moves t t1 out1 freed1" by (rule moves_unless)
    moreover have "moves t1 t2 out2 freed2"
      using "1.IH" True r1 r2 by force
    ultimately show ?thesis unfolding eq by (rule moves_trans)
  qed
qed

lemma moves_purge_slots:
  "purge_slots t is = (t', freed) \<Longrightarrow> \<forall>i \<in> set is. i < slots t \<Longrightarrow> moves t t' [] freed"
proof (induction t "is" arbitrary: t' freed rule: purge_slots.induct)
  case (2 t i js)
  obtain t1 freed1 where r1: "purge_slot t i = (t1, freed1)" by fastforce
  obtain t2 freed2 where r2: "purge_slots t1 js = (t2, freed2)" by fastforce
  have "moves t t1 [] freed1"
    using r1 2 by (auto intro: moves_purge_slot)
  moreover have "slots t1 = slots t" using r1 by (auto simp: purge_slot_def)
  then have "moves t1 t2 [] freed2" using "2.IH" [OF r1 [symmetric] refl r2] "2.prems" by simp
  ultimately show ?case using "2.prems" r1 r2 moves_trans [of t t1 "[]" freed1 t2 "[]" freed2] by auto
qed auto

lemma moves_reorder_timeout_scan:
  assumes "reorder_timeout_scan jiffies seen js skipped t = (t', out, freed, stop)"
    and "\<forall>i \<in> set seen \<union> set js. i < slots t" and "wf_session t"
  shows "moves t t' out freed"
  using assms
proof (induction jiffies seen js skipped t arbitrary: t' out freed stop rule: reorder_timeout_scan.induct)
  case (2 jiffies seen j js skipped t)
  consider (skip) "\<not> ieee80211_rx_reorder_ready t j"
    | (stop) "ieee80211_rx_reorder_ready t j" "t' = t" "out = []" "freed = []"
    | (go) "ieee80211_rx_reorder_ready t j"
        "\<not> (skipped \<noteq> 0 \<and> \<not> time_after jiffies (reorder_time t ! j + HT_RX_REORDER_BUF_TIMEOUT))"
    using "2.prems"(1) by (auto split: if_splits)
  then show ?case
  proof cases
    case skip
    then show ?thesis using "2.IH"(1) "2.prems" by simp
  next
    case stop
    then show ?thesis by simp
  next
    case go
    obtain t1 purged where r1: "purge_slots t seen = (t1, purged)" by fastforce
    obtain t2 out2 freed2 where r2: "ieee80211_release_reorder_frame t1 j = (t2, out2, freed2)"
      by (metis prod_cases3)
    define t3 where "t3 = t2\<lparr>head_seq_num := (head_seq_num t2 + of_nat skipped) AND IEEE80211_SN_MASK\<rparr>"
    obtain t4 out4 freed4 stop4 where r4:
      "reorder_timeout_scan jiffies (seen @ [j]) js 0 t3 = (t4, out4, freed4, stop4)"
      by (metis prod_cases4)
    have eq: "t' = t4" "out = out2 @ out4" "freed = purged @ freed2 @ freed4"
      using "2.prems"(1) go r1 r2 r4 by (auto simp: t3_def)
    have m1: "moves t t1 [] purged"
      using r1 "2.prems"(2) by (auto intro: moves_purge_slots)
    have s1: "slots t1 = slots t" and w1: "wf_session t1"
      using moves_buf_size [OF m1 "2.prems"(3)] moves_wf [OF m1 "2.prems"(3)] by simp_all
    have m3: "moves t1 t3 out2 freed2"
      by (rule moves_frame [OF moves_release_reorder_frame [OF r2]])
        (use "2.prems"(2) s1 in \<open>simp_all add: t3_def\<close>)
    have s3: "slots t3 = slots t" and w3: "wf_session t3"
      using moves_buf_size [OF m3 w1] moves_wf [OF m3 w1] s1 by simp_all
    have "moves t3 t4 out4 freed4"
      using "2.IH"(2) [OF _ _ r1 [symmetric] refl r2 [symmetric] refl refl t3_def r4] go "2.prems"(2) s3 w3
      by simp
    then show ?thesis
      unfolding eq using moves_trans [OF moves_trans [OF m1 m3]] by simp
  qed
qed simp

text \<open>The two \<open>option\<close>-valued loops: whatever they return, they moved frames.\<close>

lemma moves_release_while_ready:
  assumes "release_while_ready t out freed = Some (t', out', freed')"
  shows "\<exists>o1 f1. out' = out @ o1 \<and> freed' = freed @ f1 \<and> moves t t' o1 f1"
proof -
  define P where "P = (\<lambda>t out freed r. \<exists>o1 f1. fst (snd r) = out @ o1 \<and> snd (snd r) = freed @ f1 \<and>
      moves t (fst r) o1 f1)"
  have "P t out freed (t', out', freed')"
  proof (rule release_while_ready.raw_induct [OF _ assms])
  fix f t out freed r
  assume IH: "\<And>t out freed r. f t out freed = Some r \<Longrightarrow> P t out freed r"
    and eq: "(let index = unat (head_seq_num t) mod slots t
        in if ieee80211_rx_reorder_ready t index
           then let (t1, out1, freed1) = ieee80211_release_reorder_frame t index
                in f t1 (out @ out1) (freed @ freed1)
           else Some (t, out, freed)) = Some r"
  show "P t out freed r"
  proof (cases "ieee80211_rx_reorder_ready t (unat (head_seq_num t) mod slots t)")
    case False
    with eq show ?thesis by (auto simp: P_def)
  next
    case True
    obtain t1 out1 freed1 where rel:
      "ieee80211_release_reorder_frame t (unat (head_seq_num t) mod slots t) = (t1, out1, freed1)"
      by (metis prod_cases3)
    have "wf_session t \<Longrightarrow> moves t t1 out1 freed1"
      by (rule moves_release_reorder_frame [OF rel]) (rule head_slot_less, rule wf_slots)
    then have m: "moves t t1 out1 freed1" by (rule moves_unless)
    have "f t1 (out @ out1) (freed @ freed1) = Some r"
      using eq True rel by simp
    then have "P t1 (out @ out1) (freed @ freed1) r" by (rule IH)
    with moves_trans [OF m] show ?thesis by (fastforce simp: P_def)
  qed
  qed
  then show ?thesis by (simp add: P_def)
qed

lemma moves_rearm_timer: "rearm_timer t = Some t' \<Longrightarrow> moves t t' [] []"
  by (auto simp: rearm_timer_def Let_def set_release_timer_def intro!: moves_same_buf split: if_splits)

lemma slots_after_less: "0 < n \<Longrightarrow> i \<in> set (slots_after n index) \<Longrightarrow> i < n"
  by (auto simp: slots_after_def)

lemma moves_sta_reorder_release:
  assumes "ieee80211_sta_reorder_release t jiffies = Some (t', out, freed)"
  shows "moves t t' out freed"
proof (rule moves_unless)
  assume wf: "wf_session t"
  let ?index = "unat (head_seq_num t) mod slots t"
  show ?thesis
  proof (cases "\<not> ieee80211_rx_reorder_ready t ?index \<and> stored_mpdu_num t \<noteq> 0")
    case True
    obtain t1 out1 freed1 stop where r:
      "reorder_timeout_scan jiffies [] (slots_after (slots t) ?index) 1 t = (t1, out1, freed1, stop)"
      by (metis prod_cases4)
    have m: "moves t t1 out1 freed1"
      by (rule moves_reorder_timeout_scan [OF r]) (use wf slots_after_less wf_slots in \<open>auto\<close>)
    show ?thesis
    proof (cases stop)
      case None
      then obtain t2 where "rearm_timer t1 = Some t2" "t' = t2" "out = out1" "freed = freed1"
        using assms True r by (auto simp: ieee80211_sta_reorder_release_def Let_def)
      then show ?thesis
        using moves_trans [OF m moves_rearm_timer] by auto
    next
      case (Some j)
      then have "t' = set_release_timer t1 j" "out = out1" "freed = freed1"
        using assms True r by (auto simp: ieee80211_sta_reorder_release_def Let_def)
      then show ?thesis
        using moves_frame [OF m, of t'] by (simp add: set_release_timer_def)
    qed
  next
    case False
    then obtain t1 out1 freed1 where r: "release_while_ready t [] [] = Some (t1, out1, freed1)"
        and "rearm_timer t1 = Some t'" "out = out1" "freed = freed1"
      using assms by (auto simp: ieee80211_sta_reorder_release_def Let_def split: bind_splits)
    then show ?thesis
      using moves_release_while_ready [OF r] moves_trans [OF _ moves_rearm_timer] by fastforce
  qed
qed

lemma held_store:
  assumes "wf_session t" "i < slots t"
  shows "held (t\<lparr>reorder_buf := (reorder_buf t)[i := reorder_buf t ! i @ [f]]\<rparr>)
       = add_mset (unmark f) (held t)"
  using assms mset_concat_snoc [of i "reorder_buf t" f] by (simp add: held_def unmarked_def wf_session_def)

lemma conserve_reorder_store:
  assumes "reorder_store t skb jiffies = Some (t', ret, out, freed)" "wf_session t"
  shows "wf_session t' \<and> buf_size t' = buf_size t \<and>
     add_mset (unmark skb) (held t)
       = held t' + unmarked out + unmarked freed + (if ret then {#} else {#unmark skb#})"
proof -
  let ?i = "unat (skb_sn skb) mod slots t"
  let ?t1 = "t\<lparr>reorder_buf := (reorder_buf t)[?i := reorder_buf t ! ?i @ [skb]]\<rparr>"
  have i: "?i < slots t" using assms(2) by (simp add: wf_session_def)
  have h1: "held ?t1 = add_mset (unmark skb) (held t)" by (rule held_store [OF assms(2) i])
  have w1: "wf_session ?t1" using assms(2) by (simp add: wf_session_def)
  let ?t2 = "?t1\<lparr>reorder_time := (reorder_time ?t1)[?i := jiffies],
                 stored_mpdu_num := stored_mpdu_num ?t1 + 1\<rparr>"
  show ?thesis
  proof (cases "ieee80211_rx_reorder_ready t ?i")
    case True
    then show ?thesis using assms by (auto simp: reorder_store_def Let_def)
  next
    case nready: False
    show ?thesis
    proof (cases "skb_sn skb = head_seq_num t \<and> stored_mpdu_num t = 0")
      case True
      then show ?thesis
        using assms nready by (auto simp: reorder_store_def held_def wf_session_def Let_def)
    next
      case nhead: False
      show ?thesis
      proof (cases "amsdu_more skb")
        case True
        then have "t' = ?t1" "ret" "out = []" "freed = []"
          using assms(1) nready nhead by (simp_all add: reorder_store_def Let_def)
        then show ?thesis using h1 w1 by simp
      next
        case False
        then have rel: "ieee80211_sta_reorder_release ?t2 jiffies = Some (t', out, freed)" and "ret"
          using assms(1) nready nhead by (auto simp: reorder_store_def Let_def)
        have "moves ?t1 ?t2 [] []" by (rule moves_same_buf) simp_all
        then have "moves ?t1 t' out freed"
          using moves_trans [OF _ moves_sta_reorder_release [OF rel]] by fastforce
        then show ?thesis using \<open>ret\<close> h1 w1 by (simp add: moves_def)
      qed
    qed
  qed
qed

lemma conserve_manage_reorder_buf:
  assumes "ieee80211_sta_manage_reorder_buf t skb jiffies = Some (t', ret, out, freed)" "wf_session t"
  shows "wf_session t' \<and> buf_size t' = buf_size t \<and>
     add_mset (unmark skb) (held t)
       = held t' + unmarked out + unmarked freed + (if ret then {#} else {#unmark skb#})"
proof -
  define s where "s = reorder_start t (skb_sn skb)"
  define s1 where "s1 = s\<lparr>started := True\<rparr>"
  have same: "held s = held t" "held s1 = held t" "wf_session s" "wf_session s1"
      "buf_size s = buf_size t" "buf_size s1 = buf_size t"
    using assms(2) by (simp_all add: s_def s1_def reorder_start_def held_def wf_session_def)
  consider
      (early) "t' = s" "\<not> ret" "out = []" "freed = []"
    | (old) "t' = s1" "ret" "out = []" "freed = [skb]"
    | (go) t1 out1 freed1 out2 freed2 where "moves s1 t1 out1 freed1"
        "reorder_store t1 skb jiffies = Some (t', ret, out2, freed2)"
        "out = out1 @ out2" "freed = freed1 @ freed2"
    using assms(1) moves_release_reorder_frames moves_refl
    by (simp add: ieee80211_sta_manage_reorder_buf_def Let_def s_def [symmetric] s1_def [symmetric]
        split: if_splits prod.splits) blast+
  then show ?thesis
  proof cases
    case early
    then show ?thesis using same by simp
  next
    case old
    then show ?thesis using same by simp
  next
    case go
    have "wf_session t1" "buf_size t1 = buf_size t" "held t = held t1 + unmarked out1 + unmarked freed1"
      using go(1) same by (simp_all add: moves_def)
    then show ?thesis
      using conserve_reorder_store [OF go(2)] go(3,4) by (simp add: ac_simps)
  qed
qed

end
