(* ===== verification/ReorderInv.thy ===== *)
theory ReorderInv
  imports Reorder
begin

text \<open>
  The counter \<open>stored_mpdu_num\<close> of a reorder session is the number of slots that hold a complete
  MPDU, as long as no frame was marked as filtered. That invariant is what makes the timer loop of
  \<open>ieee80211_sta_reorder_release\<close> end, so it is proved together with termination: every operation
  returns and keeps it.
\<close>


section \<open>The invariant\<close>

definition complete :: "skb list \<Rightarrow> bool" where
  "complete s \<longleftrightarrow> s \<noteq> [] \<and> \<not> amsdu_more (last s)"

definition reorder_inv :: "tid_ampdu_rx \<Rightarrow> bool" where
  "reorder_inv t \<longleftrightarrow>
     wf_session t \<and> reorder_buf_filtered t = 0 \<and>
     unat (stored_mpdu_num t) = count_if complete (reorder_buf t)"

lemma complete_Nil [simp]: "\<not> complete []"
  by (simp add: complete_def)

lemma complete_snoc [simp]: "complete (s @ [f]) \<longleftrightarrow> \<not> amsdu_more f"
  by (simp add: complete_def)

lemma ready_iff:
  "reorder_buf_filtered t = 0 \<Longrightarrow> ieee80211_rx_reorder_ready t i \<longleftrightarrow> complete (reorder_buf t ! i)"
  by (auto simp: ieee80211_rx_reorder_ready_def complete_def Let_def)

lemma inv_ready_iff: "reorder_inv t \<Longrightarrow> ieee80211_rx_reorder_ready t i \<longleftrightarrow> complete (reorder_buf t ! i)"
  by (simp add: reorder_inv_def ready_iff)

lemma inv_wf [simp]: "reorder_inv t \<Longrightarrow> wf_session t"
  by (simp add: reorder_inv_def)

lemma inv_slots_pos [simp]: "reorder_inv t \<Longrightarrow> 0 < slots t"
  by (simp add: wf_slots)

lemma inv_length: "reorder_inv t \<Longrightarrow> length (reorder_buf t) = slots t"
  by (simp add: reorder_inv_def wf_session_def)

lemma release_reorder_frame_eq:
  assumes "reorder_inv t" "i < slots t"
  shows "ieee80211_release_reorder_frame t i =
     (t\<lparr>reorder_buf := (reorder_buf t)[i := []],
        stored_mpdu_num := (if complete (reorder_buf t ! i) then stored_mpdu_num t - 1 else stored_mpdu_num t),
        head_seq_num := ieee80211_sn_inc (head_seq_num t)\<rparr>,
      if complete (reorder_buf t ! i)
        then map (\<lambda>f. f\<lparr>deferred_release := True\<rparr>) (reorder_buf t ! i) else [],
      if complete (reorder_buf t ! i) then [] else reorder_buf t ! i)"
proof (cases "reorder_buf t ! i = []")
  case True
  then have "(reorder_buf t)[i := []] = reorder_buf t"
    by (metis list_update_id)
  with True assms show ?thesis
    by (simp add: ieee80211_release_reorder_frame_def reorder_inv_def)
next
  case False
  with assms show ?thesis
    by (simp add: ieee80211_release_reorder_frame_def reorder_inv_def ready_iff Let_def)
qed

lemma count_clear:
  "i < length buf \<Longrightarrow>
   count_if complete (buf[i := []]) = count_if complete buf - (if complete (buf ! i) then 1 else 0)"
  using count_if_update [of i buf complete "[]"] by auto

lemma count_pos: "i < length buf \<Longrightarrow> complete (buf ! i) \<Longrightarrow> 0 < count_if complete buf"
  by (auto simp: count_if_pos_iff)

lemma unat_dec: "0 < unat (w :: 'a::len word) \<Longrightarrow> unat (w - 1) = unat w - 1"
  by (metis gr_implies_not0 unat_eq_zero unat_minus_one)

lemma inv_release_reorder_frame:
  assumes "reorder_inv t" "i < slots t" "ieee80211_release_reorder_frame t i = (t', out, freed)"
  shows "reorder_inv t'"
  using assms count_clear [of i "reorder_buf t"] count_pos [of i "reorder_buf t"]
  by (auto simp: release_reorder_frame_eq reorder_inv_def wf_session_def unat_dec)

lemma inv_upd_head [simp]: "reorder_inv (t\<lparr>head_seq_num := h\<rparr>) \<longleftrightarrow> reorder_inv t"
  by (simp add: reorder_inv_def wf_session_def)

lemma inv_upd_timer [simp]: "reorder_inv (t\<lparr>reorder_timer := x\<rparr>) \<longleftrightarrow> reorder_inv t"
  by (simp add: reorder_inv_def wf_session_def)

lemma inv_upd_started [simp]: "reorder_inv (t\<lparr>started := x\<rparr>) \<longleftrightarrow> reorder_inv t"
  by (simp add: reorder_inv_def wf_session_def)

lemma inv_release_reorder_frames:
  "ieee80211_release_reorder_frames t h = (t', out, freed) \<Longrightarrow> reorder_inv t \<Longrightarrow> reorder_inv t'"
proof (induction t h arbitrary: t' out freed rule: ieee80211_release_reorder_frames.induct)
  case (1 t h)
  obtain t1 out1 freed1 where r1:
    "ieee80211_release_reorder_frame t (unat (head_seq_num t) mod slots t) = (t1, out1, freed1)"
    by (metis prod_cases3)
  obtain t2 out2 freed2 where r2: "ieee80211_release_reorder_frames t1 h = (t2, out2, freed2)"
    by (metis prod_cases3)
  have "reorder_inv t1"
    using inv_release_reorder_frame [OF "1.prems"(2) _ r1] "1.prems"(2) by simp
  then show ?case
    using 1 r1 r2 by (cases "ieee80211_sn_less (head_seq_num t) h")
      (auto simp: ieee80211_release_reorder_frames.simps [of t h])
qed


section \<open>Purging and the timeout scan\<close>

lemma purge_slots_buf:
  assumes "purge_slots t is = (t', freed)" "\<forall>i \<in> set is. i < length (reorder_buf t)"
  shows "t' = t\<lparr>reorder_buf := reorder_buf t'\<rparr> \<and> length (reorder_buf t') = length (reorder_buf t) \<and>
     (\<forall>i < length (reorder_buf t). reorder_buf t' ! i = (if i \<in> set is then [] else reorder_buf t ! i))"
  using assms
proof (induction t "is" arbitrary: t' freed rule: purge_slots.induct)
  case (2 t i js)
  obtain t1 freed1 where r1: "purge_slot t i = (t1, freed1)" by fastforce
  obtain t2 freed2 where r2: "purge_slots t1 js = (t2, freed2)" by fastforce
  have t1: "t1 = t\<lparr>reorder_buf := (reorder_buf t)[i := []]\<rparr>"
    using r1 by (simp add: purge_slot_def)
  have "t' = t2" using "2.prems" r1 r2 by simp
  then show ?case
    using "2.IH" [OF r1 [symmetric] refl r2] "2.prems"(2) t1 by (auto simp: nth_list_update)
qed simp

lemma count_incomplete_change:
  assumes "length buf' = length buf"
    and "\<forall>i < length buf. complete (buf' ! i) \<longleftrightarrow> complete (buf ! i)"
  shows "count_if complete buf' = count_if complete buf"
proof -
  have "count_if complete buf = card {i. i < length buf \<and> complete (buf ! i)}" for buf
    unfolding count_if_def by (rule length_filter_conv_card)
  moreover have "{i. i < length buf' \<and> complete (buf' ! i)} = {i. i < length buf \<and> complete (buf ! i)}"
    using assms by auto
  ultimately show ?thesis by simp
qed

lemma inv_purge_slots:
  assumes "purge_slots t is = (t', freed)" "reorder_inv t"
    and "\<forall>i \<in> set is. i < slots t \<and> \<not> complete (reorder_buf t ! i)"
  shows "reorder_inv t'"
proof -
  have b: "t' = t\<lparr>reorder_buf := reorder_buf t'\<rparr>" "length (reorder_buf t') = length (reorder_buf t)"
      "\<forall>i < length (reorder_buf t). reorder_buf t' ! i = (if i \<in> set is then [] else reorder_buf t ! i)"
    using purge_slots_buf [OF assms(1)] assms(2,3) by (auto simp: inv_length)
  have "count_if complete (reorder_buf t') = count_if complete (reorder_buf t)"
    using b(2,3) assms(3) by (intro count_incomplete_change) auto
  moreover have "buf_size t' = buf_size t" "reorder_time t' = reorder_time t"
      "stored_mpdu_num t' = stored_mpdu_num t" "reorder_buf_filtered t' = reorder_buf_filtered t"
    by (subst b(1), simp)+
  ultimately show ?thesis
    using assms(2) b(2) by (simp add: reorder_inv_def wf_session_def)
qed

lemma inv_reorder_timeout_scan:
  assumes "reorder_timeout_scan jiffies seen js skipped t = (t', out, freed, stop)"
    and "\<forall>i \<in> set seen \<union> set js. i < slots t" and "reorder_inv t"
    and "\<forall>i \<in> set seen. \<not> complete (reorder_buf t ! i)"
  shows "reorder_inv t' \<and> buf_size t' = buf_size t"
  using assms
proof (induction jiffies seen js skipped t arbitrary: t' out freed stop rule: reorder_timeout_scan.induct)
  case (2 jiffies seen j js skipped t)
  note ready = inv_ready_iff [OF "2.prems"(3)]
  consider (skip) "\<not> ieee80211_rx_reorder_ready t j"
    | (stop) "t' = t"
    | (go) "ieee80211_rx_reorder_ready t j"
        "\<not> (skipped \<noteq> 0 \<and> \<not> time_after jiffies (reorder_time t ! j + HT_RX_REORDER_BUF_TIMEOUT))"
    using "2.prems"(1) by (auto split: if_splits)
  then show ?case
  proof cases
    case skip
    then show ?thesis using "2.IH"(1) [OF skip] "2.prems" by (auto simp: ready)
  next
    case stop
    then show ?thesis using "2.prems" by simp
  next
    case go
    obtain t1 purged where r1: "purge_slots t seen = (t1, purged)" by fastforce
    obtain t2 out2 freed2 where r2: "ieee80211_release_reorder_frame t1 j = (t2, out2, freed2)"
      by (metis prod_cases3)
    define t3 where "t3 = t2\<lparr>head_seq_num := (head_seq_num t2 + of_nat skipped) AND IEEE80211_SN_MASK\<rparr>"
    obtain t4 out4 freed4 stop4 where r4:
      "reorder_timeout_scan jiffies (seen @ [j]) js 0 t3 = (t4, out4, freed4, stop4)"
      by (metis prod_cases4)
    have eq: "t' = t4" using "2.prems"(1) go r1 r2 r4 by (auto simp: t3_def)
    have b1: "t1 = t\<lparr>reorder_buf := reorder_buf t1\<rparr>" "length (reorder_buf t1) = slots t"
        "\<forall>i < slots t. reorder_buf t1 ! i = (if i \<in> set seen then [] else reorder_buf t ! i)"
      using purge_slots_buf [OF r1] "2.prems"(2,3) by (auto simp: inv_length)
    have inv1: "reorder_inv t1"
      using inv_purge_slots [OF r1 "2.prems"(3)] "2.prems"(2,4) by simp
    have bs1: "buf_size t1 = buf_size t" by (subst b1(1), simp)
    then have sl1: "slots t1 = slots t" by simp
    have j: "j < slots t1" using "2.prems"(2) sl1 by simp
    have t2: "reorder_buf t2 = (reorder_buf t1)[j := []]" "buf_size t2 = buf_size t1"
      using r2 release_reorder_frame_eq [OF inv1 j] by (auto)
    have inv3: "reorder_inv t3"
      using inv_release_reorder_frame [OF inv1 j r2] by (simp add: t3_def)
    have sl3: "slots t3 = slots t" using t2 sl1 by (simp add: t3_def)
    have "\<forall>i \<in> set (seen @ [j]). \<not> complete (reorder_buf t3 ! i)"
      using t2(1) b1(2,3) "2.prems"(2) j sl1 by (auto simp: t3_def nth_list_update)
    then have "reorder_inv t4 \<and> buf_size t4 = buf_size t3"
      using "2.IH"(2) [OF _ _ r1 [symmetric] refl r2 [symmetric] refl refl t3_def r4]
        go "2.prems"(2) sl3 inv3 by simp
    then show ?thesis using eq t2(2) bs1 by (simp add: t3_def)
  qed
qed simp


section \<open>The loops end\<close>

lemma release_while_ready_returns:
  assumes "reorder_inv t"
  shows "\<exists>t' out' freed'. release_while_ready t out freed = Some (t', out', freed') \<and>
     reorder_inv t' \<and> buf_size t' = buf_size t"
  using assms
proof (induction "count_if complete (reorder_buf t)" arbitrary: t out freed rule: less_induct)
  case less
  let ?i = "unat (head_seq_num t) mod slots t"
  note eq = release_while_ready.simps [of t out freed]
  have i: "?i < slots t" using less.prems by simp
  show ?case
  proof (cases "complete (reorder_buf t ! ?i)")
    case False
    then show ?thesis using less.prems eq by (simp add: inv_ready_iff)
  next
    case True
    obtain t1 out1 freed1 where r1: "ieee80211_release_reorder_frame t ?i = (t1, out1, freed1)"
      by (metis prod_cases3)
    have t1: "reorder_buf t1 = (reorder_buf t)[?i := []]" "buf_size t1 = buf_size t"
      using r1 release_reorder_frame_eq [OF less.prems i] by auto
    have inv1: "reorder_inv t1" by (rule inv_release_reorder_frame [OF less.prems i r1])
    have "count_if complete (reorder_buf t1) < count_if complete (reorder_buf t)"
      using True i t1(1) count_clear [of ?i "reorder_buf t"] count_pos [of ?i "reorder_buf t"]
        inv_length [OF less.prems] by simp
    from less.hyps [OF this inv1, of "out @ out1" "freed @ freed1"] t1(2)
    show ?thesis using True r1 eq less.prems by (simp add: inv_ready_iff)
  qed
qed

lemma timer_slot_returns:
  assumes "ieee80211_rx_reorder_ready t i" "i < slots t" "j < slots t"
  shows "\<exists>j' < slots t. timer_slot t stop j = Some j'"
  using assms(3)
proof (induction "ring_dist (slots t) j i" arbitrary: j)
  case 0
  then have "j = i" using assms(2) by (auto simp: ring_dist_def split: if_splits)
  then show ?case using assms by (simp add: timer_slot.simps)
next
  case (Suc d)
  show ?case
  proof (cases "int j = stop \<or> ieee80211_rx_reorder_ready t j")
    case True
    then show ?thesis using Suc.prems by (auto simp: timer_slot.simps [of t stop j])
  next
    case False
    then have "j \<noteq> i" using assms(1) by auto
    then have "d = ring_dist (slots t) ((j + 1) mod slots t) i"
      using Suc.hyps(2) Suc.prems assms(2) ring_dist_step by (metis nat.inject)
    moreover have "(j + 1) mod slots t < slots t" using Suc.prems by simp
    ultimately have "\<exists>j' < slots t. timer_slot t stop ((j + 1) mod slots t) = Some j'"
      by (rule Suc.hyps(1))
    then show ?thesis using False by (simp add: timer_slot.simps [of t stop j])
  qed
qed

text \<open>
  Without a ready slot and with the head in slot 0, the loop has no exit: the C remainder
  \<open>(0 - 1) % buf_size\<close> is negative and no slot index ever equals it.
\<close>

lemma timer_slot_diverges:
  assumes "\<forall>i < slots t. \<not> ieee80211_rx_reorder_ready t i" "stop < 0" "j < slots t"
  shows "timer_slot t stop j = None"
proof (rule ccontr)
  assume "timer_slot t stop j \<noteq> None"
  then obtain r where r: "timer_slot t stop j = Some r" by blast
  define P where "P = (\<lambda>t' stop' (j' :: nat) (r :: nat). t' = t \<longrightarrow> stop' = stop \<longrightarrow> j' < slots t \<longrightarrow> False)"
  have "P t stop j r"
  proof (rule timer_slot.raw_induct [OF _ r])
    fix f t' stop' j' r'
    assume IH: "\<And>t' stop' j' r'. f t' stop' j' = Some r' \<Longrightarrow> P t' stop' j' r'"
      and eq: "(if int j' \<noteq> stop'
         then if ieee80211_rx_reorder_ready t' j' then Some j' else f t' stop' ((j' + 1) mod slots t')
         else Some j') = Some r'"
    show "P t' stop' j' r'"
      unfolding P_def
    proof (intro impI)
      assume h: "t' = t" "stop' = stop" "j' < slots t"
      then have "f t stop ((j' + 1) mod slots t) = Some r'"
        using eq assms(1,2) by (auto split: if_splits)
      then show False using IH [of t stop "(j' + 1) mod slots t" r'] h by (simp add: P_def)
    qed
  qed
  then show False using assms(3) by (simp add: P_def)
qed

lemma rearm_timer_returns:
  assumes "reorder_inv t"
  shows "\<exists>t'. rearm_timer t = Some t' \<and> reorder_inv t' \<and> buf_size t' = buf_size t"
proof (cases "stored_mpdu_num t = 0")
  case True
  then show ?thesis using assms by (simp add: rearm_timer_def)
next
  case False
  let ?i = "unat (head_seq_num t) mod slots t"
  have "0 < count_if complete (reorder_buf t)"
    using False assms by (simp add: reorder_inv_def unat_gt_0 flip: neq0_conv)
      (metis False unat_eq_zero)
  then obtain i where "i < slots t" "ieee80211_rx_reorder_ready t i"
    using assms by (auto simp: count_if_pos_iff inv_length inv_ready_iff)
  moreover have "?i < slots t" using assms by simp
  ultimately obtain j where "timer_slot t (c_rem (int ?i - 1) (int (slots t))) ?i = Some j"
    using timer_slot_returns by blast
  then show ?thesis
    using False assms by (simp add: rearm_timer_def Let_def set_release_timer_def)
qed

lemma sta_reorder_release_returns:
  assumes "reorder_inv t"
  shows "\<exists>t' out freed. ieee80211_sta_reorder_release t jiffies = Some (t', out, freed) \<and>
     reorder_inv t' \<and> buf_size t' = buf_size t"
proof -
  let ?i = "unat (head_seq_num t) mod slots t"
  show ?thesis
  proof (cases "\<not> ieee80211_rx_reorder_ready t ?i \<and> stored_mpdu_num t \<noteq> 0")
    case True
    obtain t1 out1 freed1 stop where r:
      "reorder_timeout_scan jiffies [] (slots_after (slots t) ?i) 1 t = (t1, out1, freed1, stop)"
      by (metis prod_cases4)
    have inv1: "reorder_inv t1 \<and> buf_size t1 = buf_size t"
      by (rule inv_reorder_timeout_scan [OF r]) (use assms slots_after_less in auto)
    then obtain t2 where "rearm_timer t1 = Some t2" "reorder_inv t2" "buf_size t2 = buf_size t1"
      using rearm_timer_returns by blast
    with True r inv1 show ?thesis
      by (cases stop) (auto simp: ieee80211_sta_reorder_release_def Let_def set_release_timer_def)
  next
    case False
    obtain t1 out1 freed1 where r: "release_while_ready t [] [] = Some (t1, out1, freed1)"
        and inv1: "reorder_inv t1" "buf_size t1 = buf_size t"
      using release_while_ready_returns [OF assms] by blast
    obtain t2 where "rearm_timer t1 = Some t2" "reorder_inv t2" "buf_size t2 = buf_size t1"
      using rearm_timer_returns [OF inv1(1)] by blast
    with False r inv1 show ?thesis
      by (auto simp: ieee80211_sta_reorder_release_def Let_def)
  qed
qed

lemma inv_store_complete:
  assumes "reorder_inv t" "i < slots t" "\<not> complete (reorder_buf t ! i)" "\<not> amsdu_more f"
  shows "reorder_inv (t\<lparr>reorder_buf := (reorder_buf t)[i := reorder_buf t ! i @ [f]],
     reorder_time := (reorder_time t)[i := now], stored_mpdu_num := stored_mpdu_num t + 1\<rparr>)"
proof -
  have c: "count_if complete ((reorder_buf t)[i := reorder_buf t ! i @ [f]])
      = count_if complete (reorder_buf t) + 1"
    using count_if_update [of i "reorder_buf t" complete "reorder_buf t ! i @ [f]"] assms
    by (simp add: inv_length)
  have "count_if complete ((reorder_buf t)[i := reorder_buf t ! i @ [f]]) \<le> slots t"
    using count_if_le_length [of complete "(reorder_buf t)[i := reorder_buf t ! i @ [f]]"] assms(1)
    by (simp add: inv_length)
  also have "slots t < 65536" by (rule u16_bound)
  finally have "unat (stored_mpdu_num t + 1) = unat (stored_mpdu_num t) + 1"
    using c assms(1) by (simp add: reorder_inv_def unat_word_ariths)
  then show ?thesis
    using c assms(1) by (simp add: reorder_inv_def wf_session_def)
qed

lemma inv_store_more:
  assumes "reorder_inv t" "i < slots t" "\<not> complete (reorder_buf t ! i)" "amsdu_more f"
  shows "reorder_inv (t\<lparr>reorder_buf := (reorder_buf t)[i := reorder_buf t ! i @ [f]]\<rparr>)"
  using count_if_update [of i "reorder_buf t" complete "reorder_buf t ! i @ [f]"] assms
  by (simp add: reorder_inv_def wf_session_def)

lemma reorder_store_returns:
  assumes "reorder_inv t"
  shows "\<exists>t' ret out freed. reorder_store t skb jiffies = Some (t', ret, out, freed) \<and>
     reorder_inv t' \<and> buf_size t' = buf_size t"
proof -
  let ?i = "unat (skb_sn skb) mod slots t"
  have i: "?i < slots t" using assms by simp
  show ?thesis
  proof (cases "complete (reorder_buf t ! ?i) \<or> skb_sn skb = head_seq_num t \<and> stored_mpdu_num t = 0")
    case True
    then show ?thesis using assms by (auto simp: reorder_store_def Let_def inv_ready_iff)
  next
    case False
    then have nc: "\<not> complete (reorder_buf t ! ?i)" by simp
    show ?thesis
    proof (cases "amsdu_more skb")
      case True
      then show ?thesis
        using False assms inv_store_more [OF assms i nc True]
        by (auto simp: reorder_store_def Let_def inv_ready_iff)
    next
      case no_more: False
      from sta_reorder_release_returns [OF inv_store_complete [OF assms i nc no_more], of jiffies jiffies]
      show ?thesis
        using False no_more assms by (auto simp: reorder_store_def Let_def inv_ready_iff)
    qed
  qed
qed

lemma inv_reorder_start [simp]: "reorder_inv (reorder_start t s) \<longleftrightarrow> reorder_inv t"
  by (simp add: reorder_start_def reorder_inv_def wf_session_def)

lemma manage_reorder_buf_returns:
  assumes "reorder_inv t"
  shows "\<exists>t' ret out freed. ieee80211_sta_manage_reorder_buf t skb jiffies = Some (t', ret, out, freed) \<and>
     reorder_inv t' \<and> buf_size t' = buf_size t"
proof -
  define s where "s = reorder_start t (skb_sn skb)"
  have "buf_size s = buf_size t" by (simp add: s_def reorder_start_def)
  then have inv: "reorder_inv s" "reorder_inv (s\<lparr>started := True\<rparr>)" "buf_size s = buf_size t"
    using assms by (simp_all add: s_def)
  obtain t1 out1 freed1 where rel:
      "(if \<not> ieee80211_sn_less (skb_sn skb) (head_seq_num s + buf_size s) then
          ieee80211_release_reorder_frames (s\<lparr>started := True\<rparr>)
            (ieee80211_sn_inc (ieee80211_sn_sub (skb_sn skb) (buf_size s)))
        else (s\<lparr>started := True\<rparr>, [], [])) = (t1, out1, freed1)"
    by (metis prod_cases3)
  have m: "moves (s\<lparr>started := True\<rparr>) t1 out1 freed1"
    using rel moves_release_reorder_frames by (auto split: if_splits)
  have inv1: "reorder_inv t1"
    using rel inv(2) inv_release_reorder_frames by (auto split: if_splits)
  have sz: "buf_size t1 = buf_size t"
    using m inv by (auto simp: moves_def)
  show ?thesis
    using reorder_store_returns [OF inv1, of skb jiffies] rel inv sz
    by (auto simp: ieee80211_sta_manage_reorder_buf_def Let_def s_def [symmetric])
qed


section \<open>A small session\<close>

text \<open>A QoS data frame with a given sequence number, and a session of four slots whose head is at
  sequence number 4094 and which holds the frame 4095.\<close>

definition qos_frame :: "u16 \<Rightarrow> skb" where
  "qos_frame sn =
     \<lparr>skb_data = [0x88, 0] @ replicate 20 0 @ put_le16 (IEEE80211_SN_TO_SEQ sn) @ [0, 0],
      amsdu_more = False, deferred_release = False\<rparr>"

definition demo_session :: tid_ampdu_rx where
  "demo_session =
     \<lparr>reorder_buf_filtered = 0, reorder_buf = [[], [], [], [qos_frame 4095]],
      reorder_time = [0, 0, 0, 100], session_timer = None, reorder_timer = Some 111, last_rx = 0,
      head_seq_num = 4094, stored_mpdu_num = 1, ssn = 4094, buf_size = 4, ba_timeout = 0,
      auto_seq = False, removed = False, started = True\<rparr>"

lemma qos_frame_sn: "unat sn < 4096 \<Longrightarrow> skb_sn (qos_frame sn) = sn"
  by (simp add: qos_frame_def ieee80211_get_sn_def seq_ctrl_def get_le16_def put_le16_def
      nth_append le16_put_le16 SEQ_TO_SN_roundtrip)

lemma demo_inv: "reorder_inv demo_session"
  by (simp add: reorder_inv_def wf_session_def demo_session_def count_if_def complete_def qos_frame_def)

lemma demo_wf: "wf_session demo_session"
  using demo_inv by simp

end
