(* ===== verification/ReorderOrder.thy ===== *)
theory ReorderOrder
  imports ReorderInv
begin

text \<open>
  What the reorder buffer is for: frames leave it in sequence-number order, and only old or
  duplicate frames are dropped. Both hold for sessions whose driver reports no separate A-MSDU
  subframes and whose window size divides the sequence-number space (\<open>window_inv\<close>); the last
  section shows by runs of the model that each of the two conditions is needed.
\<close>


section \<open>The window invariant\<close>

abbreviation pos :: "u16 \<Rightarrow> skb \<Rightarrow> nat" where
  "pos h f \<equiv> sn_dist h (skb_sn f)"

definition window_size_ok :: "nat \<Rightarrow> bool" where
  "window_size_ok n \<longleftrightarrow> n dvd 4096 \<and> 2 \<le> n \<and> n \<le> 1024"

text \<open>The frames of slot \<open>i\<close> carry the one sequence number of the window that belongs there.\<close>

definition slot_ok :: "u16 \<Rightarrow> nat \<Rightarrow> nat \<Rightarrow> skb list \<Rightarrow> bool" where
  "slot_ok h n i s \<longleftrightarrow> length s \<le> 1 \<and>
     (\<forall>f \<in> set s. unat (skb_sn f) mod n = i \<and> pos h f < n \<and> \<not> amsdu_more f)"

definition window_inv :: "tid_ampdu_rx \<Rightarrow> bool" where
  "window_inv t \<longleftrightarrow>
     reorder_inv t \<and> window_size_ok (slots t) \<and> unat (head_seq_num t) < 4096 \<and>
     (\<forall>i < slots t. slot_ok (head_seq_num t) (slots t) i (reorder_buf t ! i))"

text \<open>
  \<open>advance h h' k out\<close>: the head moved from \<open>h\<close> to \<open>h'\<close> by \<open>k\<close>, and the frames that left the buffer
  have strictly increasing sequence numbers, all from the \<open>k\<close> numbers the head passed.
\<close>

definition advance :: "u16 \<Rightarrow> u16 \<Rightarrow> nat \<Rightarrow> skb list \<Rightarrow> bool" where
  "advance h h' k out \<longleftrightarrow>
     unat h' = (unat h + k) mod 4096 \<and> sorted_wrt (<) (map (pos h) out) \<and> (\<forall>f \<in> set out. pos h f < k)"

lemma unat_of_dist: "unat b < 4096 \<Longrightarrow> unat b = (unat a + sn_dist a b) mod 4096"
proof -
  assume b: "unat b < 4096"
  have "(unat a + sn_dist a b) mod 4096 = (unat a + (unat b + 65536 - unat a)) mod 4096"
    unfolding sn_dist_mod by (rule mod_add_right_eq)
  also have "\<dots> = (unat b + 16 * 4096) mod 4096"
    using u16_bound [of a] by simp
  finally show ?thesis using b by (simp only: mod_mult_self3 mult.commute [of 16] mod_mult_self2 mod_less)
qed

lemma dist_of_advance: "unat h' = (unat h + k) mod 4096 \<Longrightarrow> k < 4096 \<Longrightarrow> sn_dist h h' = k"
proof -
  assume h': "unat h' = (unat h + k) mod 4096" and k: "k < 4096"
  have k16: "unat (of_nat k :: u16) = k"
    using k by (simp add: unat_of_nat)
  have "h' = ieee80211_sn_add h (of_nat k)"
    using h' k16 by (simp add: word_unat_eq_iff unat_sn_add)
  then show ?thesis using k k16 by (simp add: sn_dist_sn_add)
qed

lemma pos_shift:
  assumes "unat h1 = (unat h + k) mod 4096" "k + pos h1 f < 4096"
  shows "pos h f = k + pos h1 f"
proof -
  have "sn_dist h h1 = k"
    using assms by (intro dist_of_advance) simp_all
  then show ?thesis
    using sn.dist_add [of h h1 "skb_sn f"] assms(2) by simp
qed

lemma pos_unshift:
  assumes "unat h1 = (unat h + k) mod 4096" "k < 4096" "k \<le> pos h f"
  shows "pos h1 f = pos h f - k"
  using sn.dist_diff [of h h1 "skb_sn f"] dist_of_advance [OF assms(1,2)] assms(3) by simp

lemma advance_refl [simp]: "unat h < 4096 \<Longrightarrow> advance h h 0 []"
  by (simp add: advance_def)

lemma advance_trans:
  assumes "advance h h1 k1 o1" "advance h1 h2 k2 o2" "k1 + k2 < 4096"
  shows "advance h h2 (k1 + k2) (o1 @ o2)"
proof -
  have shift: "pos h f = k1 + pos h1 f" if "f \<in> set o2" for f
    using assms that by (intro pos_shift) (auto simp: advance_def)
  have "map (pos h) o2 = map (\<lambda>p. k1 + p) (map (pos h1) o2)"
    using shift by simp
  then have "sorted_wrt (<) (map (pos h) o2)"
    using assms(2) by (simp only: sorted_wrt_map) (simp add: advance_def sorted_wrt_map)
  moreover have "unat h2 = (unat h + (k1 + k2)) mod 4096"
    using assms(1,2) by (simp add: advance_def mod_add_left_eq add.assoc)
  ultimately show ?thesis
    using assms(1,2) shift by (auto simp: advance_def sorted_wrt_append)
qed

text \<open>A slot of the window belongs to exactly one distance from the head.\<close>

lemma slot_of_pos:
  assumes "n dvd 4096" "unat h < 4096"
  shows "unat (skb_sn f) mod n = (unat h + pos h f) mod n"
  using unat_of_dist [of "skb_sn f" h] assms(1) by (metis get_sn_bound mod_mod_cancel)

lemma mod_add_inj:
  fixes h a b n :: nat
  assumes "(h + a) mod n = (h + b) mod n" "a < n" "b < n"
  shows "a = b"
proof -
  have *: "a = b" if "a \<le> b" "(h + a) mod n = (h + b) mod n" "a < n" "b < n" for a b
  proof -
    have "n dvd b - a"
      using that mod_eq_dvd_iff_nat [of "h + a" "h + b" n] by simp
    then show ?thesis using that by (metis diff_is_0_eq' dvd_imp_le less_imp_diff_less linorder_not_le
        neq0_conv order_antisym zero_less_diff)
  qed
  show ?thesis using assms * [of a b] * [of b a] by (cases "a \<le> b") auto
qed

lemma slot_ok_pos:
  assumes "slot_ok h n ((unat h + m) mod n) s" "f \<in> set s" "m < n" "n dvd 4096" "unat h < 4096"
  shows "pos h f = m"
proof -
  have "unat (skb_sn f) mod n = (unat h + m) mod n" and lt: "pos h f < n"
    using assms(1,2) unfolding slot_ok_def by blast+
  then have "(unat h + pos h f) mod n = (unat h + m) mod n"
    using slot_of_pos [OF assms(4,5), of f] by simp
  then show ?thesis using lt assms(3) by (rule mod_add_inj)
qed

lemma slot_ok_complete: "slot_ok h n i s \<Longrightarrow> complete s \<longleftrightarrow> s \<noteq> []"
  by (auto simp: slot_ok_def complete_def)

lemma slot_ok_Nil [simp]: "slot_ok h n i []"
  by (simp add: slot_ok_def)

lemma slot_ok_single: "slot_ok h n i s \<Longrightarrow> s \<noteq> [] \<Longrightarrow> \<exists>f. s = [f]"
  by (cases s) (auto simp: slot_ok_def)

lemma slot_ok_shift:
  assumes "slot_ok h n i s" "unat h1 = (unat h + k) mod 4096" "k < 4096" "\<forall>f \<in> set s. k \<le> pos h f"
  shows "slot_ok h1 n i s"
  using assms pos_unshift [OF assms(2,3)] by (auto simp: slot_ok_def)


section \<open>Releasing from the head\<close>

lemma window_inv_reorder [simp]: "window_inv t \<Longrightarrow> reorder_inv t"
  by (simp add: window_inv_def)

lemma window_head_slot:
  assumes "window_inv t" "f \<in> set (reorder_buf t ! (unat (head_seq_num t) mod slots t))"
  shows "pos (head_seq_num t) f = 0"
proof -
  have ok: "slot_ok (head_seq_num t) (slots t) ((unat (head_seq_num t) + 0) mod slots t)
      (reorder_buf t ! (unat (head_seq_num t) mod slots t))"
    using assms(1) by (simp add: window_inv_def window_size_ok_def)
  show ?thesis
    by (rule slot_ok_pos [OF ok assms(2)]) (use assms(1) in \<open>auto simp: window_inv_def window_size_ok_def\<close>)
qed

lemma window_other_slot:
  assumes "window_inv t" "i < slots t" "i \<noteq> unat (head_seq_num t) mod slots t"
    "f \<in> set (reorder_buf t ! i)"
  shows "1 \<le> pos (head_seq_num t) f"
proof (rule ccontr)
  assume "\<not> 1 \<le> pos (head_seq_num t) f"
  then have "pos (head_seq_num t) f = 0" by simp
  then have "unat (skb_sn f) mod slots t = unat (head_seq_num t) mod slots t"
    using slot_of_pos [of "slots t" "head_seq_num t" f] assms(1)
    by (simp add: window_inv_def window_size_ok_def)
  moreover have "unat (skb_sn f) mod slots t = i"
    using assms by (auto simp: window_inv_def slot_ok_def)
  ultimately show False using assms(3) by simp
qed

lemma pos_mark [simp]: "pos h (f\<lparr>deferred_release := b\<rparr>) = pos h f"
  by simp

text \<open>Releasing the head slot is the basic step: the head moves by one, and at most the one frame
  with the head's number leaves.\<close>

lemma window_release_head:
  assumes "window_inv t"
    and "ieee80211_release_reorder_frame t (unat (head_seq_num t) mod slots t) = (t', out, freed)"
  shows "window_inv t' \<and> buf_size t' = buf_size t \<and> freed = [] \<and>
     advance (head_seq_num t) (head_seq_num t') 1 out"
proof -
  let ?h = "head_seq_num t" and ?n = "slots t"
  let ?i = "unat ?h mod ?n"
  have inv: "reorder_inv t" and i: "?i < ?n" using assms(1) by simp_all
  have ok: "slot_ok ?h ?n ?i (reorder_buf t ! ?i)"
    using assms(1) i by (simp add: window_inv_def)
  have eqs: "reorder_buf t' = (reorder_buf t)[?i := []]" "buf_size t' = buf_size t"
      "head_seq_num t' = ieee80211_sn_inc ?h" "freed = []"
      "out = map (\<lambda>f. f\<lparr>deferred_release := True\<rparr>) (reorder_buf t ! ?i)"
    using assms(2) release_reorder_frame_eq [OF inv i] slot_ok_complete [OF ok]
    by (auto split: if_splits)
  have head': "unat (head_seq_num t') = (unat ?h + 1) mod 4096"
    by (simp add: eqs(3) unat_sn_inc)
  have "slot_ok (head_seq_num t') ?n j (reorder_buf t' ! j)" if j: "j < ?n" for j
  proof (cases "j = ?i")
    case True
    then show ?thesis using i inv by (simp add: eqs(1) inv_length)
  next
    case False
    have "slot_ok ?h ?n j (reorder_buf t ! j)"
      using assms(1) j by (simp add: window_inv_def)
    then have "slot_ok (head_seq_num t') ?n j (reorder_buf t ! j)"
      by (rule slot_ok_shift [OF _ head']) (use window_other_slot [OF assms(1) j False] in auto)
    then show ?thesis using False by (simp add: eqs(1))
  qed
  moreover have "reorder_inv t'"
    by (rule inv_release_reorder_frame [OF inv i assms(2)])
  ultimately have "window_inv t'"
    using assms(1) head' by (simp add: window_inv_def eqs(2))
  moreover have "advance ?h (head_seq_num t') 1 out"
  proof -
    have "length (reorder_buf t ! ?i) \<le> 1" using ok by (simp add: slot_ok_def)
    then have "sorted_wrt (<) (map (pos ?h) out)"
      by (cases "reorder_buf t ! ?i") (auto simp: eqs(5))
    then show ?thesis
      using window_head_slot [OF assms(1)] head' by (auto simp: advance_def eqs(5))
  qed
  ultimately show ?thesis using eqs by simp
qed

lemma window_release_frames:
  assumes "window_inv t" "ieee80211_release_reorder_frames t h = (t', out, freed)" "unat h < 4096"
    and "sn_dist (head_seq_num t) h < 2048"
  shows "window_inv t' \<and> buf_size t' = buf_size t \<and> freed = [] \<and> head_seq_num t' = h \<and>
     advance (head_seq_num t) h (sn_dist (head_seq_num t) h) out"
  using assms
proof (induction t h arbitrary: t' out freed rule: ieee80211_release_reorder_frames.induct)
  case (1 t h)
  let ?h = "head_seq_num t"
  show ?case
  proof (cases "ieee80211_sn_less ?h h")
    case False
    then have "sn_dist ?h h = 0" using "1.prems"(4) by (simp add: sn_before)
    then have "?h = h" using "1.prems" by (simp add: sn_dist_0 window_inv_def)
    then show ?thesis
      using 1 False by (simp add: ieee80211_release_reorder_frames.simps [of t h] sn_dist_self)
  next
    case True
    obtain t1 out1 freed1 where r1:
      "ieee80211_release_reorder_frame t (unat ?h mod slots t) = (t1, out1, freed1)"
      by (metis prod_cases3)
    obtain t2 out2 freed2 where r2: "ieee80211_release_reorder_frames t1 h = (t2, out2, freed2)"
      by (metis prod_cases3)
    have eq: "t' = t2" "out = out1 @ out2" "freed = freed1 @ freed2"
      using "1.prems"(2) True r1 r2 by (simp_all add: ieee80211_release_reorder_frames.simps [of t h])
    note w1 = window_release_head [OF "1.prems"(1) r1]
    have "sn_dist ?h (head_seq_num t1) = 1"
      using w1 by (intro dist_of_advance) (simp_all add: advance_def)
    moreover have "0 < sn_dist ?h h" using True by (simp add: sn_before)
    ultimately have d: "sn_dist (head_seq_num t1) h = sn_dist ?h h - 1"
      using sn.dist_diff [of ?h "head_seq_num t1" h] by simp
    have w2: "window_inv t2 \<and> buf_size t2 = buf_size t1 \<and> freed2 = [] \<and> head_seq_num t2 = h \<and>
        advance (head_seq_num t1) h (sn_dist (head_seq_num t1) h) out2"
    proof (rule "1.IH" [OF True r1 [symmetric] refl refl _ r2 "1.prems"(3)])
      show "window_inv t1" using w1 by simp
      show "sn_dist (head_seq_num t1) h < 2048" using d "1.prems"(4) by linarith
    qed
    have "advance ?h h (1 + sn_dist (head_seq_num t1) h) (out1 @ out2)"
      using w1 w2 d "1.prems"(4) by (intro advance_trans) auto
    then show ?thesis
      using w1 w2 d \<open>0 < sn_dist ?h h\<close> by (simp add: eq)
  qed
qed

lemma window_release_while_ready:
  assumes "window_inv t" "release_while_ready t out0 freed0 = Some (t', out', freed')"
  shows "\<exists>k out. k \<le> count_if complete (reorder_buf t) \<and> out' = out0 @ out \<and> freed' = freed0 \<and>
     window_inv t' \<and> buf_size t' = buf_size t \<and> advance (head_seq_num t) (head_seq_num t') k out"
  using assms
proof (induction "count_if complete (reorder_buf t)" arbitrary: t out0 freed0 rule: less_induct)
  case less
  let ?i = "unat (head_seq_num t) mod slots t"
  note eq = release_while_ready.simps [of t out0 freed0]
  have inv: "reorder_inv t" and i: "?i < slots t" using less.prems by simp_all
  show ?case
  proof (cases "complete (reorder_buf t ! ?i)")
    case False
    then have "t' = t \<and> out' = out0 \<and> freed' = freed0"
      using less.prems(2) inv eq by (simp add: inv_ready_iff)
    then show ?thesis
      using less.prems(1) by (intro exI [of _ 0] exI [of _ "[]"]) (simp add: window_inv_def)
  next
    case True
    obtain t1 out1 freed1 where r1: "ieee80211_release_reorder_frame t ?i = (t1, out1, freed1)"
      by (metis prod_cases3)
    note w1 = window_release_head [OF less.prems(1) r1]
    have next_eq: "release_while_ready t1 (out0 @ out1) freed0 = Some (t', out', freed')"
      using less.prems(2) True r1 eq inv w1 by (simp add: inv_ready_iff)
    have b1: "reorder_buf t1 = (reorder_buf t)[?i := []]"
      using r1 release_reorder_frame_eq [OF inv i] by auto
    have dec: "count_if complete (reorder_buf t1) < count_if complete (reorder_buf t)"
      using True i b1 count_clear [of ?i "reorder_buf t"] count_pos [of ?i "reorder_buf t"]
        inv_length [OF inv] by simp
    obtain k out where k: "k \<le> count_if complete (reorder_buf t1)" "out' = (out0 @ out1) @ out"
        "freed' = freed0" "window_inv t'" "buf_size t' = buf_size t1"
        "advance (head_seq_num t1) (head_seq_num t') k out"
      using less.hyps [OF dec _ next_eq] w1 by blast
    have "count_if complete (reorder_buf t) \<le> 1024"
      using count_if_le_length [of complete "reorder_buf t"] inv_length [OF inv] less.prems(1)
      by (simp add: window_inv_def window_size_ok_def)
    then have "advance (head_seq_num t) (head_seq_num t') (1 + k) (out1 @ out)"
      using w1 k dec by (intro advance_trans) auto
    then show ?thesis
      using k dec w1 by (intro exI [of _ "1 + k"] exI [of _ "out1 @ out"]) simp
  qed
qed


section \<open>Releasing after a timeout\<close>

text \<open>
  The state of the timeout loop when it has visited the first \<open>k\<close> slots from the head \<open>h0\<close>: they are
  empty, and the head has been moved by \<open>a\<close>, to the last slot released.
\<close>

definition slot_at :: "u16 \<Rightarrow> nat \<Rightarrow> nat \<Rightarrow> nat" where
  "slot_at h0 n m = (unat h0 + m) mod n"

definition scan_inv :: "u16 \<Rightarrow> nat \<Rightarrow> nat \<Rightarrow> nat \<Rightarrow> tid_ampdu_rx \<Rightarrow> bool" where
  "scan_inv h0 n a k t \<longleftrightarrow>
     reorder_inv t \<and> window_size_ok n \<and> slots t = n \<and> unat h0 < 4096 \<and> a \<le> k \<and>
     unat (head_seq_num t) = (unat h0 + a) mod 4096 \<and>
     (\<forall>i < n. slot_ok h0 n i (reorder_buf t ! i)) \<and>
     (\<forall>m < k. m < n \<longrightarrow> reorder_buf t ! slot_at h0 n m = [])"

lemma slots_after_slot_at: "slots_after n (unat h0 mod n) = map (slot_at h0 n) [1..<n]"
  by (simp add: slots_after_def slot_at_def mod_add_left_eq)

lemma slot_at_less: "window_size_ok n \<Longrightarrow> slot_at h0 n m < n"
  by (simp add: slot_at_def window_size_ok_def)

lemma slot_at_inj: "slot_at h0 n m = slot_at h0 n k \<Longrightarrow> m < n \<Longrightarrow> k < n \<Longrightarrow> m = k"
  unfolding slot_at_def by (rule mod_add_inj)

lemma slot_at_surj:
  assumes "i < n"
  shows "\<exists>m < n. slot_at h0 n m = i"
proof -
  have inj: "inj_on (slot_at h0 n) {..<n}"
    by (auto intro: inj_onI dest: slot_at_inj)
  have "slot_at h0 n ` {..<n} = {..<n}"
    by (rule endo_inj_surj [OF _ _ inj]) (use assms in \<open>auto simp: slot_at_def\<close>)
  then show ?thesis using assms by (metis imageE lessThan_iff)
qed

lemma scan_pos:
  assumes "scan_inv h0 n a k t" "m < n" "f \<in> set (reorder_buf t ! slot_at h0 n m)"
  shows "pos h0 f = m"
  by (rule slot_ok_pos [of h0 n m "reorder_buf t ! slot_at h0 n m"])
    (use assms in \<open>auto simp: scan_inv_def slot_at_def window_size_ok_def\<close>)

lemma purge_empty_slots:
  "\<forall>i \<in> set is. reorder_buf t ! i = [] \<Longrightarrow> purge_slots t is = (t, [])"
proof (induction "is")
  case (Cons i js)
  then have "purge_slot t i = (t, [])"
    using list_update_id [of "reorder_buf t" i] by (simp add: purge_slot_def)
  with Cons show ?case by simp
qed simp

lemma scan_inv_skip:
  assumes "scan_inv h0 n a k t" "k < n" "\<not> complete (reorder_buf t ! slot_at h0 n k)"
  shows "scan_inv h0 n a (Suc k) t"
proof -
  have "slot_ok h0 n (slot_at h0 n k) (reorder_buf t ! slot_at h0 n k)"
    using assms(1) slot_at_less by (simp add: scan_inv_def)
  then have "reorder_buf t ! slot_at h0 n k = []"
    using assms(3) slot_ok_complete by blast
  then show ?thesis using assms(1) by (auto simp: scan_inv_def less_Suc_eq)
qed

lemma scan_inv_release:
  assumes inv: "scan_inv h0 n a k t" and k: "k < n"
    and compl: "complete (reorder_buf t ! slot_at h0 n k)"
    and rel: "ieee80211_release_reorder_frame t (slot_at h0 n k) = (t', out, freed)"
  defines "t'' \<equiv> t'\<lparr>head_seq_num := (head_seq_num t' + of_nat (k - a)) AND IEEE80211_SN_MASK\<rparr>"
  shows "scan_inv h0 n (Suc k) (Suc k) t'' \<and> freed = [] \<and> buf_size t'' = buf_size t \<and>
     length out \<le> 1 \<and> (\<forall>f \<in> set out. pos h0 f = k)"
proof -
  let ?i = "slot_at h0 n k"
  have r: "reorder_inv t" and n: "window_size_ok n" "slots t = n"
    using inv by (simp_all add: scan_inv_def)
  have i: "?i < slots t" using n slot_at_less by simp
  have eqs: "reorder_buf t' = (reorder_buf t)[?i := []]" "buf_size t' = buf_size t"
      "head_seq_num t' = ieee80211_sn_inc (head_seq_num t)" "freed = []"
      "out = map (\<lambda>f. f\<lparr>deferred_release := True\<rparr>) (reorder_buf t ! ?i)"
    using rel release_reorder_frame_eq [OF r i] compl by (auto split: if_splits)
  have a: "a \<le> k" "k < 1024" using inv k by (auto simp: scan_inv_def window_size_ok_def)
  define d where "d = k - a"
  have d: "a + d = k" "unat (of_nat d :: u16) = d"
    using a by (simp_all add: d_def unat_of_nat del: of_nat_diff)
  have "unat (head_seq_num t'') = ((unat h0 + a) mod 4096 + (1 + d)) mod 4096"
    using inv d(2) by (simp add: t''_def d_def [symmetric] eqs(3) wmask unat_word_ariths unat_sn_inc
        mod_mod_cancel mod_add_left_eq scan_inv_def del: of_nat_diff)
  also have "\<dots> = ((unat h0 + a) + (1 + d)) mod 4096" by (rule mod_add_left_eq)
  also have "(unat h0 + a) + (1 + d) = unat h0 + Suc k" using d(1) by simp
  finally have head: "unat (head_seq_num t'') = (unat h0 + Suc k) mod 4096" .
  have len: "length (reorder_buf t) = n" using inv_length [OF r] n by simp
  have "reorder_inv t''"
    using inv_release_reorder_frame [OF r i rel] by (simp add: t''_def)
  moreover have "\<forall>i < n. slot_ok h0 n i (reorder_buf t'' ! i)"
    using inv i n(2) len by (auto simp: t''_def eqs(1) scan_inv_def nth_list_update)
  moreover have "reorder_buf t'' ! slot_at h0 n m = []" if "m < Suc k" "m < n" for m
    using that inv i n(2) len by (auto simp: t''_def eqs(1) scan_inv_def nth_list_update less_Suc_eq)
  ultimately have "scan_inv h0 n (Suc k) (Suc k) t''"
    using inv head by (simp add: scan_inv_def t''_def eqs(2))
  moreover have "length (reorder_buf t ! ?i) \<le> 1"
    using inv i n by (simp add: scan_inv_def slot_ok_def)
  ultimately show ?thesis
    using scan_pos [OF inv k] by (auto simp: t''_def eqs)
qed

lemma window_timeout_scan:
  assumes "scan_inv h0 n a k t"
    and "reorder_timeout_scan jiffies (map (slot_at h0 n) [1..<k]) (map (slot_at h0 n) [k..<n]) (k - a) t
      = (t', out, freed, stop)" and "1 \<le> k" "k \<le> n"
  shows "\<exists>a' k'. scan_inv h0 n a' k' t' \<and> a \<le> a' \<and> a' \<le> n \<and> freed = [] \<and> buf_size t' = buf_size t \<and>
     sorted_wrt (<) (map (pos h0) out) \<and> (\<forall>f \<in> set out. a \<le> pos h0 f \<and> pos h0 f < a')"
  using assms
proof (induction "n - k" arbitrary: a k t t' out freed stop)
  case 0
  then have "t' = t" "out = []" "freed = []" by simp_all
  with 0 show ?case by (intro exI [of _ a] exI [of _ k]) (auto simp: scan_inv_def)
next
  case (Suc d)
  have k: "k < n" using Suc.hyps(2) by simp
  have r: "reorder_inv t" and a: "a \<le> k" using Suc.prems(1) by (simp_all add: scan_inv_def)
  have js: "map (slot_at h0 n) [k..<n] = slot_at h0 n k # map (slot_at h0 n) [Suc k..<n]"
    using k by (simp add: upt_conv_Cons)
  have seen: "map (slot_at h0 n) [1..<k] @ [slot_at h0 n k] = map (slot_at h0 n) [1..<Suc k]"
    using Suc.prems(3) by simp
  note run = Suc.prems(2) [unfolded js reorder_timeout_scan.simps seen]
  consider (skip) "\<not> complete (reorder_buf t ! slot_at h0 n k)"
    | (stop) "complete (reorder_buf t ! slot_at h0 n k)" "t' = t" "out = []" "freed = []"
    | (go) "complete (reorder_buf t ! slot_at h0 n k)"
        "\<not> (k - a \<noteq> 0 \<and> \<not> time_after jiffies (reorder_time t ! slot_at h0 n k + HT_RX_REORDER_BUF_TIMEOUT))"
    using run r by (auto simp: inv_ready_iff split: if_splits)
  then show ?case
  proof cases
    case skip
    have sk: "scan_inv h0 n a (Suc k) t" by (rule scan_inv_skip [OF Suc.prems(1) k skip])
    have run': "reorder_timeout_scan jiffies (map (slot_at h0 n) [1..<Suc k])
        (map (slot_at h0 n) [Suc k..<n]) (Suc k - a) t = (t', out, freed, stop)"
      using run skip r a by (simp add: inv_ready_iff Suc_diff_le)
    show ?thesis by (rule Suc.hyps(1) [OF _ sk run']) (use Suc.hyps(2) k in auto)
  next
    case stop
    then show ?thesis
      using Suc.prems(1) k by (intro exI [of _ a] exI [of _ k]) (auto simp: scan_inv_def)
  next
    case go
    have purge: "purge_slots t (map (slot_at h0 n) [1..<k]) = (t, [])"
      by (rule purge_empty_slots) (use Suc.prems(1) k in \<open>auto simp: scan_inv_def\<close>)
    obtain t2 out2 freed2 where rel:
      "ieee80211_release_reorder_frame t (slot_at h0 n k) = (t2, out2, freed2)"
      by (metis prod_cases3)
    define t3 where "t3 = t2\<lparr>head_seq_num := (head_seq_num t2 + of_nat (k - a)) AND IEEE80211_SN_MASK\<rparr>"
    note step = scan_inv_release [OF Suc.prems(1) k go(1) rel, folded t3_def]
    obtain t4 out4 freed4 stop4 where rest: "reorder_timeout_scan jiffies (map (slot_at h0 n) [1..<Suc k])
        (map (slot_at h0 n) [Suc k..<n]) (Suc k - Suc k) t3 = (t4, out4, freed4, stop4)"
      by (metis prod_cases4)
    have eq: "t' = t4" "out = out2 @ out4" "freed = freed2 @ freed4"
      using run go r purge rel rest by (auto simp: inv_ready_iff t3_def)
    obtain a' k' where IH: "scan_inv h0 n a' k' t4" "a' \<le> n" "freed4 = []" "buf_size t4 = buf_size t3"
        "sorted_wrt (<) (map (pos h0) out4)" "\<forall>f \<in> set out4. Suc k \<le> pos h0 f \<and> pos h0 f < a'"
        "Suc k \<le> a'"
    proof -
      have d: "d = n - Suc k" using Suc.hyps(2) by simp
      have "scan_inv h0 n (Suc k) (Suc k) t3" using step by simp
      from Suc.hyps(1) [OF d this rest] k show thesis by (auto intro: that)
    qed
    have "sorted_wrt (<) (map (pos h0) out2)"
      using step by (cases out2) auto
    then show ?thesis
      using IH step a by (intro exI [of _ a'] exI [of _ k']) (fastforce simp: eq sorted_wrt_append)
  qed
qed

lemma scan_inv_start:
  assumes "window_inv t" "\<not> complete (reorder_buf t ! (unat (head_seq_num t) mod slots t))"
  shows "scan_inv (head_seq_num t) (slots t) 0 1 t"
proof -
  have "slot_ok (head_seq_num t) (slots t) (unat (head_seq_num t) mod slots t)
      (reorder_buf t ! (unat (head_seq_num t) mod slots t))"
    using assms(1) by (simp add: window_inv_def window_size_ok_def)
  then show ?thesis
    using assms slot_ok_complete by (fastforce simp: scan_inv_def window_inv_def slot_at_def)
qed

lemma scan_inv_window:
  assumes "scan_inv h0 n a k t" "a \<le> n"
  shows "window_inv t"
proof -
  have head: "unat (head_seq_num t) = (unat h0 + a) mod 4096" and "a < 4096"
    using assms by (auto simp: scan_inv_def window_size_ok_def)
  have "slot_ok (head_seq_num t) n i (reorder_buf t ! i)" if i: "i < n" for i
  proof -
    obtain m where m: "m < n" "slot_at h0 n m = i" using slot_at_surj [OF i] by blast
    have "a \<le> pos h0 f" if "f \<in> set (reorder_buf t ! i)" for f
      using scan_pos [OF assms(1) m(1)] m assms(1) that
      by (cases "m < k") (auto simp: scan_inv_def)
    then show ?thesis
      using slot_ok_shift [OF _ head \<open>a < 4096\<close>] assms(1) i by (auto simp: scan_inv_def)
  qed
  then show ?thesis using assms(1) head by (simp add: window_inv_def scan_inv_def)
qed

lemma window_upd_timer [simp]: "window_inv (t\<lparr>reorder_timer := x\<rparr>) \<longleftrightarrow> window_inv t"
  by (simp add: window_inv_def)

lemma window_upd_started [simp]: "window_inv (t\<lparr>started := x\<rparr>) \<longleftrightarrow> window_inv t"
  by (simp add: window_inv_def)

lemma set_release_timer_window:
  "window_inv (set_release_timer t j) \<longleftrightarrow> window_inv t"
  "head_seq_num (set_release_timer t j) = head_seq_num t"
  by (simp_all add: set_release_timer_def)

lemma rearm_timer_window:
  "rearm_timer t = Some t' \<Longrightarrow>
     (window_inv t' \<longleftrightarrow> window_inv t) \<and> head_seq_num t' = head_seq_num t"
  by (auto simp: rearm_timer_def Let_def set_release_timer_window split: if_splits)

lemma window_sta_reorder_release:
  assumes "window_inv t" "ieee80211_sta_reorder_release t jiffies = Some (t', out, freed)"
  shows "window_inv t' \<and> freed = [] \<and>
     (\<exists>k \<le> slots t. advance (head_seq_num t) (head_seq_num t') k out)"
proof -
  let ?h = "head_seq_num t"
  let ?i = "unat ?h mod slots t"
  have r: "reorder_inv t" using assms(1) by simp
  show ?thesis
  proof (cases "\<not> complete (reorder_buf t ! ?i) \<and> stored_mpdu_num t \<noteq> 0")
    case True
    obtain t1 out1 freed1 stop where run:
      "reorder_timeout_scan jiffies [] (slots_after (slots t) ?i) 1 t = (t1, out1, freed1, stop)"
      by (metis prod_cases4)
    have "\<exists>a k. scan_inv ?h (slots t) a k t1 \<and> 0 \<le> a \<and> a \<le> slots t \<and> freed1 = [] \<and>
        buf_size t1 = buf_size t \<and> sorted_wrt (<) (map (pos ?h) out1) \<and>
        (\<forall>f \<in> set out1. 0 \<le> pos ?h f \<and> pos ?h f < a)"
      by (rule window_timeout_scan [OF scan_inv_start [OF assms(1)], where jiffies = jiffies and stop = stop])
        (use True run assms(1) in \<open>simp_all add: slots_after_slot_at window_inv_def window_size_ok_def\<close>)
    then obtain a k where a: "scan_inv ?h (slots t) a k t1" "a \<le> slots t" "freed1 = []"
        "sorted_wrt (<) (map (pos ?h) out1)" "\<forall>f \<in> set out1. pos ?h f < a" by blast
    have "window_inv t' \<and> head_seq_num t' = head_seq_num t1 \<and> out = out1 \<and> freed = freed1"
      using assms(2) True run r scan_inv_window [OF a(1,2)] rearm_timer_window [of t1]
      by (cases stop) (auto simp: ieee80211_sta_reorder_release_def Let_def inv_ready_iff set_release_timer_window)
    then show ?thesis using a by (auto simp: advance_def scan_inv_def intro!: exI [of _ a])
  next
    case False
    then obtain t1 out1 freed1 where run: "release_while_ready t [] [] = Some (t1, out1, freed1)"
        and eq: "rearm_timer t1 = Some t'" "out = out1" "freed = freed1"
      using assms(2) r by (auto simp: ieee80211_sta_reorder_release_def Let_def inv_ready_iff split: bind_splits)
    have "count_if complete (reorder_buf t) \<le> slots t"
      using count_if_le_length [of complete "reorder_buf t"] inv_length [OF r] by simp
    then show ?thesis
      using window_release_while_ready [OF assms(1) run] rearm_timer_window [OF eq(1)] eq(2,3)
      by (metis append_Nil le_trans)
  qed
qed


section \<open>Receiving a frame\<close>

lemma window_store:
  assumes "window_inv t" "pos (head_seq_num t) f < slots t" "\<not> amsdu_more f"
    "\<not> complete (reorder_buf t ! (unat (skb_sn f) mod slots t))"
  defines "i \<equiv> unat (skb_sn f) mod slots t"
  shows "window_inv (t\<lparr>reorder_buf := (reorder_buf t)[i := reorder_buf t ! i @ [f]],
     reorder_time := (reorder_time t)[i := now], stored_mpdu_num := stored_mpdu_num t + 1\<rparr>)"
proof -
  have r: "reorder_inv t" using assms(1) by simp
  have i: "i < slots t" using r by (simp add: i_def)
  have "slot_ok (head_seq_num t) (slots t) i (reorder_buf t ! i)"
    using assms(1) i by (simp add: window_inv_def)
  then have e: "reorder_buf t ! i = []"
    using assms(4) slot_ok_complete unfolding i_def by blast
  have "slot_ok (head_seq_num t) (slots t) i [f]"
    using assms(2,3) by (simp add: slot_ok_def i_def)
  then have "slot_ok (head_seq_num t) (slots t) j ((reorder_buf t)[i := reorder_buf t ! i @ [f]] ! j)"
    if "j < slots t" for j
    using that e assms(1) inv_length [OF r] i by (cases "j = i") (simp_all add: window_inv_def)
  then show ?thesis
    using inv_store_complete [OF r i _ assms(3), of now] assms(1,4)
    by (simp add: window_inv_def i_def [symmetric])
qed

lemma complete_slot_duplicate:
  assumes "window_inv t" "pos (head_seq_num t) f < slots t"
    "complete (reorder_buf t ! (unat (skb_sn f) mod slots t))"
  shows "\<exists>g \<in># held t. skb_sn g = skb_sn f"
proof -
  let ?i = "unat (skb_sn f) mod slots t"
  have w: "slots t dvd 4096" "unat (head_seq_num t) < 4096" "0 < slots t"
    using assms(1) by (auto simp: window_inv_def window_size_ok_def)
  obtain g where g: "g \<in> set (reorder_buf t ! ?i)"
    using assms(3) by (metis complete_Nil list.set_intros(1) neq_Nil_conv)
  have ok: "slot_ok (head_seq_num t) (slots t) ?i (reorder_buf t ! ?i)"
    using assms(1) w by (simp add: window_inv_def)
  have "pos (head_seq_num t) g = pos (head_seq_num t) f"
    by (rule slot_ok_pos [where n = "slots t" and s = "reorder_buf t ! ?i"])
      (use ok g assms(2) w slot_of_pos [OF w(1,2), of f] in simp_all)
  then have "unat (skb_sn g) = unat (skb_sn f)"
    by (metis get_sn_bound unat_of_dist)
  moreover have "unmark g \<in># held t"
  proof -
    have "reorder_buf t ! ?i \<in> set (reorder_buf t)"
      using w inv_length assms(1) by simp
    then have "g \<in> set (concat (reorder_buf t))" using g by auto
    then show ?thesis by (simp add: held_def unmarked_def)
  qed
  ultimately show ?thesis by (auto simp: word_unat_eq_iff unmark_def intro!: bexI [of _ "unmark g"])
qed

lemma advance_one:
  assumes "unat h < 4096" "skb_sn f = h"
  shows "advance h (ieee80211_sn_inc h) 1 [f]"
  using assms by (simp add: advance_def unat_sn_inc sn_dist_self)

lemma window_reorder_store:
  assumes "window_inv t" "pos (head_seq_num t) f < slots t" "\<not> amsdu_more f"
    and "reorder_store t f jiffies = Some (t', ret, out, freed)"
  shows "window_inv t' \<and>
     (freed = [] \<or> freed = [f] \<and> (\<exists>g \<in># held t. skb_sn g = skb_sn f)) \<and>
     (\<exists>k \<le> slots t. advance (head_seq_num t) (head_seq_num t') k (out @ (if ret then [] else [f])))"
proof -
  let ?i = "unat (skb_sn f) mod slots t"
  have r: "reorder_inv t" and h: "unat (head_seq_num t) < 4096" and n: "1 \<le> slots t"
    using assms(1) by (simp_all add: window_inv_def window_size_ok_def)
  show ?thesis
  proof (cases "complete (reorder_buf t ! ?i)")
    case True
    then have "t' = t" "ret" "out = []" "freed = [f]"
      using assms(4) r by (simp_all add: reorder_store_def Let_def inv_ready_iff)
    then show ?thesis
      using complete_slot_duplicate [OF assms(1,2) True] assms(1) h by (auto intro: exI [of _ 0])
  next
    case nc: False
    show ?thesis
    proof (cases "skb_sn f = head_seq_num t \<and> stored_mpdu_num t = 0")
      case True
      then have eq: "t' = t\<lparr>head_seq_num := ieee80211_sn_inc (head_seq_num t)\<rparr>" "\<not> ret" "out = []" "freed = []"
        using assms(3,4) r nc by (auto simp: reorder_store_def Let_def inv_ready_iff)
      have empty: "reorder_buf t ! j = []" if "j < slots t" for j
      proof -
        have "count_if complete (reorder_buf t) = 0" using True r by (simp add: reorder_inv_def)
        then have "\<not> complete (reorder_buf t ! j)"
          using that inv_length [OF r] by (metis count_pos less_numeral_extra(3))
        then show ?thesis
          using assms(1) that slot_ok_complete by (fastforce simp: window_inv_def)
      qed
      have "window_inv t'"
        using assms(1) empty by (auto simp: eq(1) window_inv_def unat_sn_inc)
      then show ?thesis
        using advance_one [OF h, of f] True n eq by (auto intro!: exI [of _ 1])
    next
      case False
      define t1 where "t1 = t\<lparr>reorder_buf := (reorder_buf t)[?i := reorder_buf t ! ?i @ [f]],
         reorder_time := (reorder_time t)[?i := jiffies], stored_mpdu_num := stored_mpdu_num t + 1\<rparr>"
      have "ieee80211_sta_reorder_release t1 jiffies = Some (t', out, freed)" "ret"
        using assms(3,4) nc False r by (auto simp: reorder_store_def Let_def inv_ready_iff t1_def)
      moreover have "window_inv t1"
        unfolding t1_def by (rule window_store [OF assms(1-3) nc])
      ultimately show ?thesis
        using window_sta_reorder_release [of t1 jiffies t' out freed] by (simp add: t1_def)
    qed
  qed
qed

text \<open>How far from the head a frame is when the code finds it too far for the window.\<close>

lemma far_frame:
  assumes "window_inv t" "\<not> ieee80211_sn_less (skb_sn f) (head_seq_num t)"
  defines "d \<equiv> pos (head_seq_num t) f"
  shows "ieee80211_sn_less (skb_sn f) (head_seq_num t + buf_size t) \<longleftrightarrow> d < slots t"
proof -
  let ?h = "head_seq_num t" and ?top = "head_seq_num t + buf_size t"
  have n: "slots t \<le> 1024" using assms(1) by (simp add: window_inv_def window_size_ok_def)
  have d: "d \<le> 2048" using assms(2) by (simp add: sn_less_dist d_def)
  have top: "sn_dist ?h ?top = slots t"
    using n by (simp add: sn_dist_def ieee80211_sn_sub_def wmask)
  show ?thesis
  proof
    assume "ieee80211_sn_less (skb_sn f) ?top"
    then have far: "2048 < sn_dist ?top (skb_sn f)" by (simp add: sn_less_dist)
    show "d < slots t"
    proof (rule ccontr)
      assume "\<not> d < slots t"
      then have "sn_dist ?top (skb_sn f) = d - slots t"
        using sn.dist_diff [of ?h ?top "skb_sn f"] top by (simp add: d_def)
      then show False using far d by simp
    qed
  next
    assume lt: "d < slots t"
    then have "sn_dist (skb_sn f) ?top = slots t - d"
      using sn.dist_diff [of ?h "skb_sn f" ?top] top by (simp add: d_def)
    then show "ieee80211_sn_less (skb_sn f) ?top" using lt n by (simp add: sn_before)
  qed
qed

text \<open>The head that makes room for a frame at distance \<open>d \<ge> buf_size\<close> is \<open>d - buf_size + 1\<close> ahead, and
  the frame then belongs to the last slot of the window.\<close>

lemma far_head:
  assumes "window_inv t" "slots t \<le> pos (head_seq_num t) f" "pos (head_seq_num t) f \<le> 2048"
  defines "h \<equiv> ieee80211_sn_inc (ieee80211_sn_sub (skb_sn f) (buf_size t))"
  shows "sn_dist (head_seq_num t) h = pos (head_seq_num t) f - slots t + 1"
    and "pos h f = slots t - 1" and "unat h < 4096"
proof -
  let ?h = "head_seq_num t"
  have n: "slots t \<le> 1024" "2 \<le> slots t"
    using assms(1) by (simp_all add: window_inv_def window_size_ok_def)
  show lt: "unat h < 4096" by (simp add: h_def unat_sn_inc)
  have "(unat h + (slots t - 1)) mod 4096 = unat (skb_sn f)"
  proof -
    have "unat h = ((unat (skb_sn f) + 65536 - slots t) mod 4096 + 1) mod 4096"
      by (simp add: h_def unat_sn_inc ieee80211_sn_sub_def wmask unat_minus_mod mod_mod_cancel)
    then have "(unat h + (slots t - 1)) mod 4096
        = (unat (skb_sn f) + 65536 - slots t + 1 + (slots t - 1)) mod 4096"
      by (simp only: mod_add_left_eq)
    also have "unat (skb_sn f) + 65536 - slots t + 1 + (slots t - 1) = unat (skb_sn f) + 16 * 4096"
      using n by simp
    also have "\<dots> mod 4096 = unat (skb_sn f)"
      using get_sn_bound [of "skb_data f"] by (metis mod_less mod_mult_self1 mult.commute)
    finally show ?thesis .
  qed
  then show fh: "pos h f = slots t - 1"
    using n by (intro dist_of_advance) simp_all
  have "sn_dist ?h h + (slots t - 1) = pos ?h f \<or> sn_dist ?h h + (slots t - 1) = pos ?h f + 4096"
  proof -
    have "pos ?h f = (sn_dist ?h h + (slots t - 1)) mod 4096"
      using sn_dist_chain [of ?h "skb_sn f" h] fh by simp
    then show ?thesis
      using sn_dist_bound [of ?h h] n by (auto simp: mod_if split: if_splits)
  qed
  then show "sn_dist ?h h = pos ?h f - slots t + 1"
    using assms(2) n sn_dist_bound [of ?h h] by auto
qed

lemma held_release:
  "ieee80211_release_reorder_frames t h = (t', out, freed) \<Longrightarrow> wf_session t \<Longrightarrow> g \<in># held t' \<Longrightarrow> g \<in># held t"
  using moves_release_reorder_frames [of t h t' out freed] by (auto simp: moves_def)

lemma window_manage:
  assumes w: "window_inv t" "started t" "\<not> auto_seq t" "\<not> amsdu_more f"
    and run: "ieee80211_sta_manage_reorder_buf t f jiffies = Some (t', ret, out, freed)"
  shows "window_inv t' \<and>
     (freed = [] \<or> freed = [f] \<and>
        (ieee80211_sn_less (skb_sn f) (head_seq_num t) \<or> (\<exists>g \<in># held t. skb_sn g = skb_sn f))) \<and>
     (\<exists>k < 4096. advance (head_seq_num t) (head_seq_num t') k (out @ (if ret then [] else [f])))"
proof -
  let ?h = "head_seq_num t"
  have t: "t\<lparr>started := True\<rparr> = t" using w(2) by simp
  have h: "unat ?h < 4096" and n: "slots t \<le> 1024" and n2: "2 \<le> slots t"
    using w(1) by (simp_all add: window_inv_def window_size_ok_def)
  note run' = run [unfolded ieee80211_sta_manage_reorder_buf_def reorder_start_def Let_def]
  show ?thesis
  proof (cases "ieee80211_sn_less (skb_sn f) ?h")
    case True
    then have "t' = t" "ret" "out = []" "freed = [f]" using run' w(2,3) t by auto
    then show ?thesis using True w(1) h by (auto intro: exI [of _ 0])
  next
    case notold: False
    then have d: "pos ?h f \<le> 2048" by (simp add: sn_less_dist)
    show ?thesis
    proof (cases "pos ?h f < slots t")
      case True
      then have st: "reorder_store t f jiffies = Some (t', ret, out, freed)"
        using run' w(2,3) t notold far_frame [OF w(1) notold] by auto
      obtain k where "k \<le> slots t"
          "advance ?h (head_seq_num t') k (out @ (if ret then [] else [f]))"
        using window_reorder_store [OF w(1) True w(4) st] by blast
      moreover have "k < 4096" using calculation(1) n by simp
      ultimately show ?thesis
        using window_reorder_store [OF w(1) True w(4) st] by blast
    next
      case False
      define hd where "hd = ieee80211_sn_inc (ieee80211_sn_sub (skb_sn f) (buf_size t))"
      have hd: "sn_dist ?h hd = pos ?h f - slots t + 1" "pos hd f = slots t - 1" "unat hd < 4096"
        using far_head [OF w(1) _ d] False by (simp_all add: hd_def)
      obtain t1 out1 freed1 where rel: "ieee80211_release_reorder_frames t hd = (t1, out1, freed1)"
        by (metis prod_cases3)
      obtain out2 freed2 where st: "reorder_store t1 f jiffies = Some (t', ret, out2, freed2)"
          and eq: "out = out1 @ out2" "freed = freed1 @ freed2"
        using run' w(2,3) t notold far_frame [OF w(1) notold] False rel by (auto simp: hd_def)
      have w1: "window_inv t1 \<and> buf_size t1 = buf_size t \<and> freed1 = [] \<and> head_seq_num t1 = hd \<and>
          advance ?h hd (sn_dist ?h hd) out1"
        by (rule window_release_frames [OF w(1) rel hd(3)])
          (use hd(1) d n2 in linarith)
      have "pos (head_seq_num t1) f < slots t1"
        using w1 hd(2) w(1) by (simp add: window_inv_def window_size_ok_def)
      then obtain k where s1: "window_inv t'" "k \<le> slots t1"
          "freed2 = [] \<or> freed2 = [f] \<and> (\<exists>g \<in># held t1. skb_sn g = skb_sn f)"
          "advance hd (head_seq_num t') k (out2 @ (if ret then [] else [f]))"
        using window_reorder_store [OF _ _ w(4) st] w1 by blast
      have "advance ?h (head_seq_num t') (sn_dist ?h hd + k) (out1 @ out2 @ (if ret then [] else [f]))"
        by (rule advance_trans) (use w1 s1 hd(1) d n in auto)
      moreover have "sn_dist ?h hd + k < 4096" using hd(1) d n s1(2) w1 by simp
      moreover have "freed = [] \<or> freed = [f] \<and> (\<exists>g \<in># held t. skb_sn g = skb_sn f)"
        using s1(3) w1 held_release [OF rel] w(1) unfolding eq(2)
        by (metis append_Nil inv_wf window_inv_reorder)
      ultimately show ?thesis
        using s1(1) unfolding eq(1) append_assoc by blast
    qed
  qed
qed

end
