(* ===== verification/RxBa.thy ===== *)
theory RxBa
  imports ReorderOrder
begin

text \<open>
  The block-ack sessions of a station: \<open>struct sta_ampdu_mlme\<close> (sta_info.h), the session set-up and
  tear-down of net/mac80211/agg-rx.c and the entry points of net/mac80211/rx.c that use a session
  (a received MPDU, a BlockAckReq, the reorder timer, the driver's filter marker), with the receive
  part of the session work of net/mac80211/ht.c. Calls that leave the component
  are collected as \<open>ba_effect\<close>s in the order they are made; the driver's answer to
  \<open>drv_ampdu_action\<close> is the argument \<open>drv\<close>, and \<open>alloc\<close> says whether the allocations succeed.
\<close>


section \<open>State\<close>

record sta_ampdu_mlme =
  tid_rx :: "tid_ampdu_rx option list"
  tid_rx_token :: "u8 list"
  tid_rx_timer_expired :: "bool list"
  tid_rx_stop_requested :: "bool list"
  tid_rx_manage_offl :: "bool list"    \<comment> \<open>two bits per TID: start, and 16 further on stop\<close>
  agg_session_valid :: "bool list"
  unexpected_agg :: "bool list"

text \<open>What the set-up reads of the station, its link and the hardware.\<close>

record ba_caps =
  link_usable :: bool          \<comment> \<open>\<open>link_conf\<close> and its channel are there\<close>
  band_6ghz :: bool
  ht_supported :: bool
  delay_ba :: bool             \<comment> \<open>\<open>IEEE80211_HT_CAP_DELAY_BA\<close>\<close>
  block_ba :: bool             \<comment> \<open>\<open>WLAN_STA_BLOCK_BA\<close>\<close>
  has_he :: bool
  has_eht :: bool
  max_rx_aggregation_subframes :: u16
  hw_reordering :: bool        \<comment> \<open>\<open>SUPPORTS_REORDERING_BUFFER\<close>\<close>

datatype ampdu_action = IEEE80211_AMPDU_RX_START | IEEE80211_AMPDU_RX_STOP

record ieee80211_ampdu_params =
  action :: ampdu_action
  p_tid :: nat
  p_timeout :: u16
  p_ssn :: u16
  p_buf_size :: u16

datatype ba_effect =
    DrvAmpduAction ieee80211_ampdu_params
  | SendDelba nat u16 u16              \<comment> \<open>tid, initiator, reason\<close>
  | SendAddbaResp nat u8 u16 u16 u16 u16 u8 \<comment> \<open>tid, token, status, policy, size, timeout, ext\<close>
  | QueueSkbToIface skb
  | QueueWork
  | BaFrameTimeout nat
  | BarRxEvent nat u16                 \<comment> \<open>tid, starting sequence number\<close>

abbreviation (input) IEEE80211_NUM_TIDS :: nat where "IEEE80211_NUM_TIDS \<equiv> 16"
abbreviation (input) IEEE80211_FIRST_TSPEC_TSID :: nat where "IEEE80211_FIRST_TSPEC_TSID \<equiv> 8"
abbreviation (input) IEEE80211_MAX_AMPDU_BUF_HT :: u16 where "IEEE80211_MAX_AMPDU_BUF_HT \<equiv> 0x40"
abbreviation (input) IEEE80211_MAX_AMPDU_BUF_HE :: u16 where "IEEE80211_MAX_AMPDU_BUF_HE \<equiv> 0x100"
abbreviation (input) IEEE80211_MAX_AMPDU_BUF_EHT :: u16 where "IEEE80211_MAX_AMPDU_BUF_EHT \<equiv> 0x400"
abbreviation (input) WLAN_STATUS_SUCCESS :: u16 where "WLAN_STATUS_SUCCESS \<equiv> 0"
abbreviation (input) WLAN_STATUS_UNSPECIFIED_QOS :: u16 where "WLAN_STATUS_UNSPECIFIED_QOS \<equiv> 32"
abbreviation (input) WLAN_STATUS_REQUEST_DECLINED :: u16 where "WLAN_STATUS_REQUEST_DECLINED \<equiv> 37"
abbreviation (input) WLAN_STATUS_INVALID_QOS_PARAM :: u16 where "WLAN_STATUS_INVALID_QOS_PARAM \<equiv> 38"
abbreviation (input) WLAN_REASON_QSTA_REQUIRE_SETUP :: u16 where "WLAN_REASON_QSTA_REQUIRE_SETUP \<equiv> 38"
abbreviation (input) WLAN_REASON_UNSPECIFIED :: u16 where "WLAN_REASON_UNSPECIFIED \<equiv> 1"
abbreviation (input) WLAN_REASON_QSTA_TIMEOUT :: u16 where "WLAN_REASON_QSTA_TIMEOUT \<equiv> 39"
abbreviation (input) WLAN_BACK_RECIPIENT :: u16 where "WLAN_BACK_RECIPIENT \<equiv> 0"

text \<open>\<open>TU_TO_JIFFIES\<close>: \<open>usecs_to_jiffies(x * 1024)\<close>, which rounds up, with \<open>HZ\<close> = 100.\<close>

definition TU_TO_JIFFIES :: "u16 \<Rightarrow> u64" where
  "TU_TO_JIFFIES x = of_nat ((unat x * 1024 + 9999) div 10000)"


section \<open>Stopping and starting a session\<close>

text \<open>The frames that die with a session, in the order \<open>ieee80211_free_tid_rx\<close> purges them.\<close>

definition ieee80211_free_tid_rx :: "tid_ampdu_rx \<Rightarrow> skb list" where
  "ieee80211_free_tid_rx t = concat (take (slots t) (reorder_buf t))"

definition stop_rx_ba_session ::
  "sta_ampdu_mlme \<Rightarrow> nat \<Rightarrow> u16 \<Rightarrow> u16 \<Rightarrow> bool \<Rightarrow> sta_ampdu_mlme \<times> skb list \<times> ba_effect list"
where
  "stop_rx_ba_session m tid initiator reason tx =
     (if \<not> agg_session_valid m ! tid then (m, [], [])
      else
        (m\<lparr>tid_rx := (tid_rx m)[tid := None], agg_session_valid := (agg_session_valid m)[tid := False]\<rparr>,
         case tid_rx m ! tid of None \<Rightarrow> [] | Some t \<Rightarrow> ieee80211_free_tid_rx (t\<lparr>removed := True\<rparr>),
         DrvAmpduAction \<lparr>action = IEEE80211_AMPDU_RX_STOP, p_tid = tid, p_timeout = 0, p_ssn = 0, p_buf_size = 0\<rparr>
           # (if initiator = WLAN_BACK_RECIPIENT \<and> tx then [SendDelba tid WLAN_BACK_RECIPIENT reason] else [])))"

text \<open>The session \<open>kzalloc\<close> and the assignments after the driver accepted build.\<close>

definition new_session :: "u16 \<Rightarrow> u16 \<Rightarrow> u16 \<Rightarrow> bool \<Rightarrow> u64 \<Rightarrow> tid_ampdu_rx" where
  "new_session start_seq_num bsize timeout auto jiffies =
     \<lparr>reorder_buf_filtered = 0,
      reorder_buf = replicate (unat bsize) [],
      reorder_time = replicate (unat bsize) 0,
      session_timer = (if timeout \<noteq> 0 then Some (jiffies + TU_TO_JIFFIES timeout) else None),
      reorder_timer = None,
      last_rx = (if timeout \<noteq> 0 then jiffies else 0),
      head_seq_num = start_seq_num, stored_mpdu_num = 0, ssn = start_seq_num,
      buf_size = bsize, ba_timeout = timeout, auto_seq = auto, removed = False, started = False\<rparr>"

definition max_buf_size :: "ba_caps \<Rightarrow> u16" where
  "max_buf_size c =
     (if has_eht c then IEEE80211_MAX_AMPDU_BUF_EHT
      else if has_he c then IEEE80211_MAX_AMPDU_BUF_HE
      else IEEE80211_MAX_AMPDU_BUF_HT)"

text \<open>The requested size, with the default for 0, cut to what the hardware supports.\<close>

definition clamp_buf_size :: "ba_caps \<Rightarrow> u16 \<Rightarrow> u16" where
  "clamp_buf_size c bsize =
     (let bsize = (if bsize = 0 then max_buf_size c else bsize)
      in if bsize > max_rx_aggregation_subframes c then max_rx_aggregation_subframes c else bsize)"

text \<open>The checks before a session is touched: the status to answer with when one of them fails.\<close>

definition addba_check :: "ba_caps \<Rightarrow> nat \<Rightarrow> u16 \<Rightarrow> u16 \<Rightarrow> u16 option" where
  "addba_check c tid ba_policy bsize =
     (if tid \<ge> IEEE80211_FIRST_TSPEC_TSID then Some WLAN_STATUS_REQUEST_DECLINED
      else if \<not> link_usable c then Some WLAN_STATUS_REQUEST_DECLINED
      else if \<not> ht_supported c \<and> \<not> band_6ghz c then Some WLAN_STATUS_REQUEST_DECLINED
      else if block_ba c then Some WLAN_STATUS_REQUEST_DECLINED
      else if ba_policy \<noteq> 1 \<and> \<not> delay_ba c \<or> bsize > max_buf_size c then Some WLAN_STATUS_INVALID_QOS_PARAM
      else None)"

text \<open>From the update of an existing session to the label \<open>end\<close>.\<close>

definition addba_session ::
  "ba_caps \<Rightarrow> (ieee80211_ampdu_params \<Rightarrow> bool) \<Rightarrow> bool \<Rightarrow> u64 \<Rightarrow> sta_ampdu_mlme \<Rightarrow> u8 \<Rightarrow> u16 \<Rightarrow> u16 \<Rightarrow> nat \<Rightarrow> u16 \<Rightarrow> bool \<Rightarrow>
   u16 \<times> sta_ampdu_mlme \<times> skb list \<times> ba_effect list"
where
  "addba_session c drv alloc jiffies m dialog_token timeout start_seq_num tid bsize auto =
     (let params = \<lparr>action = IEEE80211_AMPDU_RX_START, p_tid = tid, p_timeout = timeout,
                    p_ssn = start_seq_num, p_buf_size = bsize\<rparr>
      in if agg_session_valid m ! tid \<and> tid_rx_token m ! tid = dialog_token then
           (if hw_reordering c then
              (if drv params then WLAN_STATUS_SUCCESS else WLAN_STATUS_REQUEST_DECLINED, m, [],
               [DrvAmpduAction params])
            else
              (case tid_rx m ! tid of
                 Some t \<Rightarrow> if ba_timeout t = timeout then WLAN_STATUS_SUCCESS else WLAN_STATUS_REQUEST_DECLINED
               | None \<Rightarrow> WLAN_STATUS_REQUEST_DECLINED, m, [], []))
         else
           let (m1, freed, eff) =
                 (if agg_session_valid m ! tid
                  then stop_rx_ba_session m tid WLAN_BACK_RECIPIENT WLAN_STATUS_UNSPECIFIED_QOS False
                  else (m, [], []))
           in if hw_reordering c then
                (if drv params then WLAN_STATUS_SUCCESS else WLAN_STATUS_REQUEST_DECLINED, m1, freed,
                 eff @ [DrvAmpduAction params])
              else if \<not> alloc then (WLAN_STATUS_REQUEST_DECLINED, m1, freed, eff)
              else if \<not> drv params then
                (WLAN_STATUS_REQUEST_DECLINED, m1, freed, eff @ [DrvAmpduAction params])
              else
                (WLAN_STATUS_SUCCESS,
                 m1\<lparr>tid_rx := (tid_rx m1)[tid := Some (new_session start_seq_num bsize timeout auto jiffies)]\<rparr>,
                 freed, eff @ [DrvAmpduAction params]))"

definition start_rx_ba_session ::
  "ba_caps \<Rightarrow> (ieee80211_ampdu_params \<Rightarrow> bool) \<Rightarrow> bool \<Rightarrow> u64 \<Rightarrow> sta_ampdu_mlme \<Rightarrow> u8 \<Rightarrow> u16 \<Rightarrow> u16 \<Rightarrow> u16 \<Rightarrow> nat \<Rightarrow> u16 \<Rightarrow>
   bool \<Rightarrow> bool \<Rightarrow> u8 \<Rightarrow> sta_ampdu_mlme \<times> skb list \<times> ba_effect list"
where
  "start_rx_ba_session c drv alloc jiffies m dialog_token timeout start_seq_num ba_policy tid req_size tx auto
     addba_ext_data =
     (let (status, bsize, m1, freed, eff) =
            (case addba_check c tid ba_policy req_size of
               Some status \<Rightarrow> (status, req_size, m, [], [])
             | None \<Rightarrow> let bsize = clamp_buf_size c req_size
                       in (case addba_session c drv alloc jiffies m dialog_token timeout start_seq_num tid bsize auto
                           of (status, m1, freed, eff) \<Rightarrow> (status, bsize, m1, freed, eff)));
          m2 = (if status = WLAN_STATUS_SUCCESS
                then m1\<lparr>agg_session_valid := (agg_session_valid m1)[tid := True],
                        unexpected_agg := (unexpected_agg m1)[tid := False],
                        tid_rx_token := (tid_rx_token m1)[tid := dialog_token]\<rparr>
                else m1)
      in (m2, freed, eff @ (if tx then [SendAddbaResp tid dialog_token status 1 bsize timeout addba_ext_data] else [])))"

text \<open>
  The ADDBA request: the fixed fields of the action frame from its dialog token on (token, parameter
  set, timeout, starting sequence control, then the elements). \<open>ieee802_11_parse_elems\<close> is the
  argument \<open>parse\<close>: the data byte of the ADDBA extension element, if the elements parse and have one.
\<close>

definition ieee80211_retrieve_addba_ext_data ::
  "(u8 list \<Rightarrow> u8 option) \<Rightarrow> ba_caps \<Rightarrow> u8 list \<Rightarrow> u16 \<Rightarrow> u8 \<times> u16"
where
  "ieee80211_retrieve_addba_ext_data parse c elem_data bsize =
     (if \<not> has_he c then (0, bsize)
      else if elem_data = [] then (0, bsize)
      else if elem_data ! 0 \<noteq> 159 then (0, bsize)
      else case parse elem_data of
             None \<Rightarrow> (0, bsize)
           | Some data \<Rightarrow>
               (data, if \<not> has_eht c then bsize
                      else bsize OR push_bit 10 (ucast (drop_bit 5 (data AND 0xE0)))))"

record addba_req =
  r_token :: u8
  r_timeout :: u16
  r_ssn :: u16
  r_policy :: u16
  r_tid :: u16
  r_buf_size :: u16
  r_ext :: u8

definition parse_addba_request :: "(u8 list \<Rightarrow> u8 option) \<Rightarrow> ba_caps \<Rightarrow> u8 list \<Rightarrow> addba_req" where
  "parse_addba_request parse c body =
     (let capab = get_le16 body 1;
          (ext, bsize) = ieee80211_retrieve_addba_ext_data parse c (drop 7 body)
                          (drop_bit 6 (capab AND 0xFFC0))
      in \<lparr>r_token = body ! 0, r_timeout = get_le16 body 3, r_ssn = drop_bit 4 (get_le16 body 5),
          r_policy = drop_bit 1 (capab AND 0x0002), r_tid = drop_bit 2 (capab AND 0x003C),
          r_buf_size = bsize, r_ext = ext\<rparr>)"

definition ieee80211_process_addba_request ::
  "(u8 list \<Rightarrow> u8 option) \<Rightarrow> ba_caps \<Rightarrow> (ieee80211_ampdu_params \<Rightarrow> bool) \<Rightarrow> bool \<Rightarrow> u64 \<Rightarrow> sta_ampdu_mlme \<Rightarrow> u8 list \<Rightarrow>
   sta_ampdu_mlme \<times> skb list \<times> ba_effect list"
where
  "ieee80211_process_addba_request parse c drv alloc jiffies m body =
     (let r = parse_addba_request parse c body
      in start_rx_ba_session c drv alloc jiffies m (r_token r) (r_timeout r) (r_ssn r) (r_policy r)
           (unat (r_tid r)) (r_buf_size r) True False (r_ext r))"


text \<open>
  The other side, \<open>ieee80211_send_addba_request\<close> of agg-tx.c with \<open>ieee80211_add_addbaext\<close>: the same
  part of the action frame. \<open>u8_encode_bits\<close> and \<open>u16_encode_bits\<close> shift a value to a field and cut it
  to the field's mask.
\<close>

definition encode_bits :: "'a::len word \<Rightarrow> nat \<Rightarrow> 'a word \<Rightarrow> 'a word" where
  "encode_bits v shift field = push_bit shift v AND field"

definition ieee80211_add_addbaext :: "u8 \<Rightarrow> u16 \<Rightarrow> u8 list" where
  "ieee80211_add_addbaext req_addba_ext_data bsize =
     (let data = (1 :: u8);
          data = (if req_addba_ext_data \<noteq> 0 then data AND req_addba_ext_data else data)
      in [159, 1, data OR encode_bits (ucast (drop_bit 10 bsize)) 5 0xE0])"

definition ieee80211_send_addba_request :: "ba_caps \<Rightarrow> u16 \<Rightarrow> u8 \<Rightarrow> u16 \<Rightarrow> u16 \<Rightarrow> u16 \<Rightarrow> u8 list" where
  "ieee80211_send_addba_request c tid dialog_token start_seq_num agg_size timeout =
     (let capab = 0x0001 OR 0x0002 OR encode_bits tid 2 0x003C OR encode_bits agg_size 6 0xFFC0
      in dialog_token # put_le16 capab @ put_le16 timeout @ put_le16 (push_bit 4 start_seq_num)
         @ (if has_he c then ieee80211_add_addbaext 0 agg_size else []))"


text \<open>The bytes of the BlockAckReq that \<open>ieee80211_send_bar\<close> of agg-tx.c builds; \<open>start\<close> is a sequence
  control value, the number in its upper twelve bits.\<close>

definition ieee80211_bar_frame :: "u8 list \<Rightarrow> u8 list \<Rightarrow> u16 \<Rightarrow> u16 \<Rightarrow> u8 list" where
  "ieee80211_bar_frame ra ta tid start =
     put_le16 (IEEE80211_FTYPE_CTL OR 0x0080) @ put_le16 0 @ ra @ ta
     @ put_le16 (0x0000 OR 0x0004 OR push_bit 12 tid) @ put_le16 start"


text \<open>The answer, \<open>ieee80211_send_addba_resp\<close> of agg-rx.c, the same part of the action frame; \<open>amsdu\<close> is \<open>SUPPORTS_AMSDU_IN_AMPDU\<close>.\<close>

definition ieee80211_send_addba_resp :: "ba_caps \<Rightarrow> bool \<Rightarrow> u16 \<Rightarrow> u8 \<Rightarrow> u16 \<Rightarrow> u16 \<Rightarrow> u16 \<Rightarrow> u16 \<Rightarrow> u8 \<Rightarrow> u8 list" where
  "ieee80211_send_addba_resp c amsdu tid dialog_token status policy bsize timeout req_addba_ext_data =
     (let capab = encode_bits (if amsdu then 1 else 0) 0 0x0001 OR encode_bits policy 1 0x0002 OR encode_bits tid 2 0x003C
                  OR encode_bits bsize 6 0xFFC0
      in dialog_token # put_le16 status @ put_le16 capab @ put_le16 timeout
         @ (if has_he c then ieee80211_add_addbaext req_addba_ext_data bsize else []))"


section \<open>Session timer and tear-down work\<close>

text \<open>\<open>time_is_after_jiffies(a)\<close> is \<open>time_before(jiffies, a)\<close>. The expiry handler either re-arms the
  session timer or asks the work function to stop the session.\<close>

definition sta_rx_agg_session_timer_expired ::
  "sta_ampdu_mlme \<Rightarrow> nat \<Rightarrow> tid_ampdu_rx \<Rightarrow> u64 \<Rightarrow> sta_ampdu_mlme \<times> tid_ampdu_rx \<times> ba_effect list"
where
  "sta_rx_agg_session_timer_expired m tid t jiffies =
     (let timeout = last_rx t + TU_TO_JIFFIES (ba_timeout t)
      in if time_after timeout jiffies then (m, t\<lparr>session_timer := Some timeout\<rparr>, [])
         else (m\<lparr>tid_rx_timer_expired := (tid_rx_timer_expired m)[tid := True]\<rparr>, t, [QueueWork]))"

definition ieee80211_stop_rx_ba_session :: "sta_ampdu_mlme \<Rightarrow> u16 \<Rightarrow> sta_ampdu_mlme \<times> ba_effect list" where
  "ieee80211_stop_rx_ba_session m ba_rx_bitmap =
     (m\<lparr>tid_rx_stop_requested :=
          map2 (\<lambda>i b. b \<or> ba_rx_bitmap AND push_bit i 1 \<noteq> 0) [0..<IEEE80211_NUM_TIDS] (tid_rx_stop_requested m)\<rparr>,
      [QueueWork])"

text \<open>The driver's own session timer ran out.\<close>

definition ieee80211_rx_ba_timer_expired :: "sta_ampdu_mlme \<Rightarrow> nat \<Rightarrow> sta_ampdu_mlme \<times> ba_effect list" where
  "ieee80211_rx_ba_timer_expired m tid =
     (m\<lparr>tid_rx_timer_expired := (tid_rx_timer_expired m)[tid := True]\<rparr>, [QueueWork])"

text \<open>A driver that negotiates block ack itself asks for a session to be made or dropped.\<close>

definition ieee80211_manage_rx_ba_offl :: "sta_ampdu_mlme \<Rightarrow> nat \<Rightarrow> sta_ampdu_mlme \<times> ba_effect list" where
  "ieee80211_manage_rx_ba_offl m tid =
     (m\<lparr>tid_rx_manage_offl := (tid_rx_manage_offl m)[tid := True]\<rparr>, [QueueWork])"

definition ieee80211_start_rx_ba_session_offl :: "sta_ampdu_mlme \<Rightarrow> nat \<Rightarrow> sta_ampdu_mlme \<times> ba_effect list" where
  "ieee80211_start_rx_ba_session_offl m tid =
     (if tid \<ge> IEEE80211_NUM_TIDS then (m, []) else ieee80211_manage_rx_ba_offl m tid)"

definition ieee80211_stop_rx_ba_session_offl :: "sta_ampdu_mlme \<Rightarrow> nat \<Rightarrow> sta_ampdu_mlme \<times> ba_effect list" where
  "ieee80211_stop_rx_ba_session_offl m tid =
     (if tid \<ge> IEEE80211_NUM_TIDS then (m, []) else ieee80211_manage_rx_ba_offl m (tid + IEEE80211_NUM_TIDS))"

text \<open>
  The receive part of one turn of \<open>ieee80211_ba_session_work\<close>'s loop over the TIDs: each request
  bit is tested and cleared and its call made before the next bit is looked at. The bit that asks
  for an offloaded session is left alone while \<open>WLAN_STA_BLOCK_BA\<close> is set.
\<close>

definition ba_work_timer_expired :: "sta_ampdu_mlme \<Rightarrow> nat \<Rightarrow> sta_ampdu_mlme \<times> skb list \<times> ba_effect list" where
  "ba_work_timer_expired m tid =
     (if tid_rx_timer_expired m ! tid
      then stop_rx_ba_session (m\<lparr>tid_rx_timer_expired := (tid_rx_timer_expired m)[tid := False]\<rparr>) tid
             WLAN_BACK_RECIPIENT WLAN_REASON_QSTA_TIMEOUT True
      else (m, [], []))"

definition ba_work_stop_requested :: "sta_ampdu_mlme \<Rightarrow> nat \<Rightarrow> sta_ampdu_mlme \<times> skb list \<times> ba_effect list" where
  "ba_work_stop_requested m tid =
     (if tid_rx_stop_requested m ! tid
      then stop_rx_ba_session (m\<lparr>tid_rx_stop_requested := (tid_rx_stop_requested m)[tid := False]\<rparr>) tid
             WLAN_BACK_RECIPIENT WLAN_REASON_UNSPECIFIED True
      else (m, [], []))"

definition ba_work_start_offl ::
  "ba_caps \<Rightarrow> (ieee80211_ampdu_params \<Rightarrow> bool) \<Rightarrow> bool \<Rightarrow> u64 \<Rightarrow> sta_ampdu_mlme \<Rightarrow> nat \<Rightarrow>
   sta_ampdu_mlme \<times> skb list \<times> ba_effect list"
where
  "ba_work_start_offl c drv alloc jiffies m tid =
     (if \<not> block_ba c \<and> tid_rx_manage_offl m ! tid
      then start_rx_ba_session c drv alloc jiffies
             (m\<lparr>tid_rx_manage_offl := (tid_rx_manage_offl m)[tid := False]\<rparr>) 0 0 0 1 tid
             IEEE80211_MAX_AMPDU_BUF_HT False True 0
      else (m, [], []))"

definition ba_work_stop_offl :: "sta_ampdu_mlme \<Rightarrow> nat \<Rightarrow> sta_ampdu_mlme \<times> skb list \<times> ba_effect list" where
  "ba_work_stop_offl m tid =
     (if tid_rx_manage_offl m ! (tid + IEEE80211_NUM_TIDS)
      then stop_rx_ba_session
             (m\<lparr>tid_rx_manage_offl := (tid_rx_manage_offl m)[tid + IEEE80211_NUM_TIDS := False]\<rparr>) tid
             WLAN_BACK_RECIPIENT 0 False
      else (m, [], []))"

definition ba_session_work_rx ::
  "ba_caps \<Rightarrow> (ieee80211_ampdu_params \<Rightarrow> bool) \<Rightarrow> bool \<Rightarrow> u64 \<Rightarrow> sta_ampdu_mlme \<Rightarrow> nat \<Rightarrow>
   sta_ampdu_mlme \<times> skb list \<times> ba_effect list"
where
  "ba_session_work_rx c drv alloc jiffies m tid =
     (let (m1, freed1, eff1) = ba_work_timer_expired m tid;
          (m2, freed2, eff2) = ba_work_stop_requested m1 tid;
          (m3, freed3, eff3) = ba_work_start_offl c drv alloc jiffies m2 tid;
          (m4, freed4, eff4) = ba_work_stop_offl m3 tid
      in (m4, freed1 @ freed2 @ freed3 @ freed4, eff1 @ eff2 @ eff3 @ eff4))"


section \<open>Using a session\<close>

text \<open>
  A received MPDU. The result is the new station state, the frames appended to \<open>frames\<close> (the
  received one at the end when it is not reordered), the frames freed and the effects.
\<close>

definition ieee80211_rx_reorder_ampdu ::
  "sta_ampdu_mlme option \<Rightarrow> skb \<Rightarrow> u64 \<Rightarrow>
   (sta_ampdu_mlme option \<times> skb list \<times> skb list \<times> ba_effect list) option"
where
  "ieee80211_rx_reorder_ampdu sta f jiffies =
     (let hdr = skb_data f; fc = frame_control hdr; dont_reorder = (\<lambda>sta eff. Some (sta, [f], [], eff))
      in if \<not> ieee80211_is_data_qos fc \<or> is_multicast_ether_addr (addr1 hdr) then dont_reorder sta []
         else case sta of
           None \<Rightarrow> dont_reorder sta []
         | Some m \<Rightarrow>
             let ack_policy = ieee80211_get_qos_ctl hdr ! 0 AND IEEE80211_QOS_CTL_ACK_POLICY_MASK;
                 tid = unat (ieee80211_get_tid hdr)
             in case tid_rx m ! tid of
                  None \<Rightarrow>
                    (if ack_policy = IEEE80211_QOS_CTL_ACK_POLICY_BLOCKACK \<and> \<not> agg_session_valid m ! tid then
                       dont_reorder (Some (m\<lparr>unexpected_agg := (unexpected_agg m)[tid := True]\<rparr>))
                         (if unexpected_agg m ! tid then []
                          else [SendDelba tid WLAN_BACK_RECIPIENT WLAN_REASON_QSTA_REQUIRE_SETUP])
                     else dont_reorder sta [])
                | Some t \<Rightarrow>
                    if fc AND IEEE80211_STYPE_NULLFUNC \<noteq> 0 then dont_reorder sta []
                    else if ack_policy = IEEE80211_QOS_CTL_ACK_POLICY_NOACK then dont_reorder sta []
                    else
                      let t1 = (if ba_timeout t \<noteq> 0 then t\<lparr>last_rx := jiffies\<rparr> else t);
                          upd = (\<lambda>t. Some (m\<lparr>tid_rx := (tid_rx m)[tid := Some t]\<rparr>))
                      in if seq_ctrl hdr AND IEEE80211_SCTL_FRAG \<noteq> 0 then
                           Some (upd t1, [], [], [QueueSkbToIface f])
                         else
                           map_option
                             (\<lambda>(t2, ret, out, freed). (upd t2, out @ (if ret then [] else [f]), freed, []))
                             (ieee80211_sta_manage_reorder_buf t1 f jiffies))"

text \<open>
  A control frame, of which only the BlockAckReq is looked at: it tells a sender without a session
  so, and otherwise moves the window to the starting sequence number it carries. The result says
  what \<open>ieee80211_rx_h_ctrl\<close> returns, then come the released frames, the frames freed and the
  effects.
\<close>

datatype rx_ctrl_result = CTRL_CONTINUE | CTRL_QUEUED | CTRL_DROP_MONITOR

definition ieee80211_is_back_req :: "u16 \<Rightarrow> bool" where
  "ieee80211_is_back_req fc \<longleftrightarrow>
     fc AND (IEEE80211_FCTL_FTYPE OR IEEE80211_FCTL_STYPE) = IEEE80211_FTYPE_CTL OR 0x0080"

definition ieee80211_rx_h_ctrl ::
  "sta_ampdu_mlme option \<Rightarrow> skb \<Rightarrow> u64 \<Rightarrow>
   rx_ctrl_result \<times> sta_ampdu_mlme option \<times> skb list \<times> skb list \<times> ba_effect list"
where
  "ieee80211_rx_h_ctrl sta f jiffies =
     (let bar = skb_data f; fc = frame_control bar
      in if \<not> ieee80211_is_ctl fc then (CTRL_CONTINUE, sta, [], [], [])
         else if ieee80211_is_back_req fc then
           (case sta of
              None \<Rightarrow> (CTRL_DROP_MONITOR, sta, [], [], [])
            | Some m \<Rightarrow>
                if length bar < 20 then (CTRL_DROP_MONITOR, sta, [], [], [])
                else
                  let tid = unat (drop_bit 12 (get_le16 bar 16));
                      (m1, eff) =
                        (if agg_session_valid m ! tid then (m, [])
                         else (m\<lparr>unexpected_agg := (unexpected_agg m)[tid := True]\<rparr>,
                               if unexpected_agg m ! tid then []
                               else [SendDelba tid WLAN_BACK_RECIPIENT WLAN_REASON_QSTA_REQUIRE_SETUP]))
                  in case tid_rx m1 ! tid of
                       None \<Rightarrow> (CTRL_DROP_MONITOR, Some m1, [], [], eff)
                     | Some t \<Rightarrow>
                         let start_seq_num = drop_bit 4 (get_le16 bar 18);
                             t1 = (if ba_timeout t \<noteq> 0
                                   then t\<lparr>session_timer := Some (jiffies + TU_TO_JIFFIES (ba_timeout t))\<rparr>
                                   else t);
                             (t2, out, freed) = ieee80211_release_reorder_frames t1 start_seq_num
                         in (CTRL_QUEUED, Some (m1\<lparr>tid_rx := (tid_rx m1)[tid := Some t2]\<rparr>), out,
                             freed @ [f], eff @ [BarRxEvent tid start_seq_num]))
         else (CTRL_DROP_MONITOR, sta, [], [], []))"

text \<open>The reorder timer; \<open>ieee80211_rx_handlers\<close> gets the released frames. \<open>set_sta\<close> is the answer of
  \<open>ieee80211_rx_data_set_sta\<close>, false when the link of the station is gone.\<close>

definition ieee80211_release_reorder_timeout ::
  "bool \<Rightarrow> sta_ampdu_mlme \<Rightarrow> nat \<Rightarrow> u64 \<Rightarrow> (sta_ampdu_mlme \<times> skb list \<times> skb list \<times> ba_effect list) option"
where
  "ieee80211_release_reorder_timeout set_sta m tid jiffies =
     (if \<not> set_sta then Some (m, [], [], [])
      else case tid_rx m ! tid of
        None \<Rightarrow> Some (m, [], [], [])
      | Some t \<Rightarrow>
          map_option
            (\<lambda>(t1, out, freed). (m\<lparr>tid_rx := (tid_rx m)[tid := Some t1]\<rparr>, out, freed,
                                 if out \<noteq> [] then [BaFrameTimeout tid] else []))
            (ieee80211_sta_reorder_release t jiffies))"

text \<open>The bitmap loop of the filter marker.\<close>

definition mark_filtered :: "u64 \<Rightarrow> nat \<Rightarrow> nat \<Rightarrow> u64 \<Rightarrow> u64" where
  "mark_filtered filtered rx_ssn n bitmap =
     fold (\<lambda>i bm. let index = (rx_ssn + i) mod n; bm' = bm AND NOT (filtered_bit index)
                  in if filtered AND filtered_bit i \<noteq> 0 then bm' OR filtered_bit index else bm')
       [0..<n] bitmap"

definition mark_rx_ba_filtered :: "tid_ampdu_rx \<Rightarrow> u16 \<Rightarrow> u64 \<Rightarrow> u16 \<Rightarrow> u64 \<Rightarrow> released option" where
  "mark_rx_ba_filtered t rx_ssn filtered received_mpdus jiffies =
     (let (t1, out1, freed1) =
            (if received_mpdus \<ge> drop_bit 1 IEEE80211_SN_MODULO then
               let release = of_nat ((unat (head_seq_num t) + unat (buf_size t)) mod 4096);
                   (t', out, freed) = ieee80211_release_reorder_frames t release
               in (t'\<lparr>head_seq_num := rx_ssn\<rparr>, out, freed)
             else ieee80211_release_reorder_frames t rx_ssn);
          diff = unat ((head_seq_num t1 - rx_ssn) AND IEEE80211_SN_MASK)
      in if diff \<ge> slots t1 then Some (t1\<lparr>reorder_buf_filtered := 0\<rparr>, out1, freed1)
         else
           let filtered' = drop_bit diff filtered;
               start = unat (rx_ssn + of_nat diff);
               t2 = t1\<lparr>reorder_buf_filtered :=
                         mark_filtered filtered' start (slots t1) (reorder_buf_filtered t1)\<rparr>
           in map_option (\<lambda>(t3, out3, freed3). (t3, out1 @ out3, freed1 @ freed3))
                (ieee80211_sta_reorder_release t2 jiffies))"

definition ieee80211_mark_rx_ba_filtered_frames ::
  "bool \<Rightarrow> sta_ampdu_mlme \<Rightarrow> nat \<Rightarrow> u16 \<Rightarrow> u64 \<Rightarrow> u16 \<Rightarrow> u64 \<Rightarrow> (sta_ampdu_mlme \<times> skb list \<times> skb list) option"
where
  "ieee80211_mark_rx_ba_filtered_frames set_sta m tid rx_ssn filtered received_mpdus jiffies =
     (if tid \<ge> IEEE80211_NUM_TIDS \<or> \<not> set_sta then Some (m, [], [])
      else case tid_rx m ! tid of
        None \<Rightarrow> Some (m, [], [])
      | Some t \<Rightarrow>
          map_option (\<lambda>(t1, out, freed). (m\<lparr>tid_rx := (tid_rx m)[tid := Some t1]\<rparr>, out, freed))
            (mark_rx_ba_filtered t rx_ssn filtered received_mpdus jiffies))"

end
