(* ===== verification/RxBaInv.thy ===== *)
theory RxBaInv
  imports RxBa
begin

text \<open>
  Runs of the block-ack receive machinery of one station: the events that touch its sessions as a
  step relation, the contract a property of one session has to meet to hold in every session of
  every reachable state (a locale, interpreted on the exact invariant and on well-formedness alone,
  which also survives the driver's filter marker), the conservation of frames along a run, and that
  no event gets stuck in a loop.
\<close>


section \<open>Steps and runs\<close>

definition to_iface :: "ba_effect list \<Rightarrow> skb list" where
  "to_iface eff = concat (map (\<lambda>e. case e of QueueSkbToIface f \<Rightarrow> [f] | _ \<Rightarrow> []) eff)"

text \<open>\<open>ba_step mk c m ins outs freed m'\<close>: the frames that arrive, leave upwards and are freed. The
  filter marker is a step only of a driver that uses it, which is what \<open>mk\<close> says.\<close>

inductive ba_step ::
  "bool \<Rightarrow> ba_caps \<Rightarrow> sta_ampdu_mlme \<Rightarrow> skb list \<Rightarrow> skb list \<Rightarrow> skb list \<Rightarrow> sta_ampdu_mlme \<Rightarrow> bool"
  for mk :: bool and c :: ba_caps
where
  rx: "ieee80211_rx_reorder_ampdu (Some m) f jiffies = Some (Some m', out, freed, eff) \<Longrightarrow>
     ba_step mk c m [f] (out @ to_iface eff) freed m'"
| ctrl: "ieee80211_rx_h_ctrl (Some m) f jiffies = (res, Some m', out, freed, eff) \<Longrightarrow>
     ba_step mk c m [f] (out @ (if res = CTRL_QUEUED then [] else [f])) freed m'"
| reorder_timer: "ieee80211_release_reorder_timeout set_sta m tid jiffies = Some (m', out, freed, eff) \<Longrightarrow>
     tid < IEEE80211_NUM_TIDS \<Longrightarrow> ba_step mk c m [] out freed m'"
| addba: "ieee80211_process_addba_request parse c drv alloc jiffies m body = (m', freed, eff) \<Longrightarrow>
     ba_step mk c m [] [] freed m'"
| stop: "stop_rx_ba_session m tid initiator reason tx = (m', freed, eff) \<Longrightarrow>
     tid < IEEE80211_NUM_TIDS \<Longrightarrow> ba_step mk c m [] [] freed m'"
| session_timer: "tid_rx m ! tid = Some t \<Longrightarrow> tid < IEEE80211_NUM_TIDS \<Longrightarrow>
     sta_rx_agg_session_timer_expired m tid t jiffies = (m', t', eff) \<Longrightarrow>
     ba_step mk c m [] [] [] (m'\<lparr>tid_rx := (tid_rx m')[tid := Some t']\<rparr>)"
| driver_timer: "ieee80211_rx_ba_timer_expired m tid = (m', eff) \<Longrightarrow> ba_step mk c m [] [] [] m'"
| stop_request: "ieee80211_stop_rx_ba_session m bitmap = (m', eff) \<Longrightarrow> ba_step mk c m [] [] [] m'"
| start_offl: "ieee80211_start_rx_ba_session_offl m tid = (m', eff) \<Longrightarrow> ba_step mk c m [] [] [] m'"
| stop_offl: "ieee80211_stop_rx_ba_session_offl m tid = (m', eff) \<Longrightarrow> ba_step mk c m [] [] [] m'"
| work: "ba_session_work_rx c drv alloc jiffies m tid = (m', freed, eff) \<Longrightarrow>
     tid < IEEE80211_NUM_TIDS \<Longrightarrow> ba_step mk c m [] [] freed m'"
| marker: "mk \<Longrightarrow> ieee80211_mark_rx_ba_filtered_frames set_sta m tid rx_ssn filtered received_mpdus jiffies
       = Some (m', out, freed) \<Longrightarrow> ba_step mk c m [] out freed m'"

inductive_cases ba_step_cases: "ba_step mk c m ins outs freed m'"

text \<open>The capabilities may change between events; the hardware's limit on the window is never 0.\<close>

inductive ba_run ::
  "bool \<Rightarrow> sta_ampdu_mlme \<Rightarrow> skb list \<Rightarrow> skb list \<Rightarrow> skb list \<Rightarrow> sta_ampdu_mlme \<Rightarrow> bool"
  for mk :: bool
where
  start: "ba_run mk m [] [] [] m"
| step: "ba_run mk m ins outs freed m1 \<Longrightarrow> ba_step mk c m1 ins' outs' freed' m2 \<Longrightarrow>
     0 < max_rx_aggregation_subframes c \<Longrightarrow>
     ba_run mk m (ins @ ins') (outs @ outs') (freed @ freed') m2"


section \<open>The invariant\<close>

definition session_wf :: "tid_ampdu_rx \<Rightarrow> bool" where
  "session_wf t \<longleftrightarrow> wf_session t \<and> slots t \<le> 1024"

definition session_ok :: "tid_ampdu_rx \<Rightarrow> bool" where
  "session_ok t \<longleftrightarrow> reorder_inv t \<and> slots t \<le> 1024"

text \<open>A station's state with a property \<open>P\<close> of its sessions.\<close>

definition mlme_ok :: "(tid_ampdu_rx \<Rightarrow> bool) \<Rightarrow> sta_ampdu_mlme \<Rightarrow> bool" where
  "mlme_ok P m \<longleftrightarrow>
     length (tid_rx m) = IEEE80211_NUM_TIDS \<and> length (tid_rx_token m) = IEEE80211_NUM_TIDS \<and>
     length (tid_rx_timer_expired m) = IEEE80211_NUM_TIDS \<and>
     length (tid_rx_stop_requested m) = IEEE80211_NUM_TIDS \<and>
     length (tid_rx_manage_offl m) = 2 * IEEE80211_NUM_TIDS \<and>
     length (agg_session_valid m) = IEEE80211_NUM_TIDS \<and> length (unexpected_agg m) = IEEE80211_NUM_TIDS \<and>
     (\<forall>tid < IEEE80211_NUM_TIDS. \<forall>t. tid_rx m ! tid = Some t \<longrightarrow>
        agg_session_valid m ! tid \<and> tid < IEEE80211_FIRST_TSPEC_TSID \<and> P t)"

abbreviation mlme_inv :: "sta_ampdu_mlme \<Rightarrow> bool" where "mlme_inv \<equiv> mlme_ok session_ok"
abbreviation mlme_wf :: "sta_ampdu_mlme \<Rightarrow> bool" where "mlme_wf \<equiv> mlme_ok session_wf"

lemma session_ok_wf: "session_ok t \<Longrightarrow> session_wf t"
  by (simp add: session_ok_def session_wf_def)

lemma mlme_inv_wf: "mlme_inv m \<Longrightarrow> mlme_wf m"
  by (auto simp: mlme_ok_def intro: session_ok_wf)

definition held_by :: "tid_ampdu_rx option \<Rightarrow> skb multiset" where
  "held_by s = (case s of None \<Rightarrow> {#} | Some t \<Rightarrow> held t)"

definition held_all :: "sta_ampdu_mlme \<Rightarrow> skb multiset" where
  "held_all m = sum_list (map held_by (tid_rx m))"

text \<open>What an operation on the station guarantees.\<close>

definition keeps ::
  "(tid_ampdu_rx \<Rightarrow> bool) \<Rightarrow> sta_ampdu_mlme \<Rightarrow> skb list \<Rightarrow> skb list \<Rightarrow> skb list \<Rightarrow> sta_ampdu_mlme \<Rightarrow> bool"
where
  "keeps P m ins outs freed m' \<longleftrightarrow>
     mlme_ok P m' \<and> unmarked ins + held_all m = held_all m' + unmarked outs + unmarked freed"

lemma keeps_refl [simp]: "mlme_ok P m \<Longrightarrow> keeps P m fs fs [] m"
  by (simp add: keeps_def)

lemma keeps_trans:
  "keeps P m i1 o1 f1 m1 \<Longrightarrow> keeps P m1 i2 o2 f2 m2 \<Longrightarrow> keeps P m (i1 @ i2) (o1 @ o2) (f1 @ f2) m2"
proof -
  assume k: "keeps P m i1 o1 f1 m1" "keeps P m1 i2 o2 f2 m2"
  have "unmarked (i1 @ i2) + held_all m = (unmarked i1 + held_all m) + unmarked i2"
    by (simp add: ac_simps)
  also have "\<dots> = (unmarked i2 + held_all m1) + unmarked o1 + unmarked f1"
    using k(1) by (simp add: keeps_def ac_simps)
  also have "\<dots> = held_all m2 + unmarked (o1 @ o2) + unmarked (f1 @ f2)"
    using k(2) by (simp add: keeps_def ac_simps)
  finally show ?thesis using k(2) by (simp add: keeps_def)
qed

lemma keeps_same_sessions:
  "mlme_ok P m' \<Longrightarrow> tid_rx m' = tid_rx m \<Longrightarrow> keeps P m fs fs [] m'"
  by (simp add: keeps_def held_all_def)

lemma held_all_update:
  assumes "mlme_ok P m" "tid < IEEE80211_NUM_TIDS"
  shows "held_all (m\<lparr>tid_rx := (tid_rx m)[tid := s]\<rparr>) + held_by (tid_rx m ! tid) = held_all m + held_by s"
  using sum_list_map_update [of tid "tid_rx m" held_by s] assms by (simp add: held_all_def mlme_ok_def)

lemma mlme_ok_session:
  assumes "mlme_ok P m" "tid < IEEE80211_NUM_TIDS" "tid_rx m ! tid = Some t"
  shows "agg_session_valid m ! tid" "tid < IEEE80211_FIRST_TSPEC_TSID" "P t"
  using assms by (auto simp: mlme_ok_def)

lemma mlme_ok_update:
  assumes "mlme_ok P m" "tid < IEEE80211_NUM_TIDS" "tid_rx m ! tid = Some t" "P t'"
  shows "mlme_ok P (m\<lparr>tid_rx := (tid_rx m)[tid := Some t']\<rparr>)"
  using assms by (auto simp: mlme_ok_def nth_list_update)

lemma keeps_update:
  assumes "mlme_ok P m" "tid < IEEE80211_NUM_TIDS" "tid_rx m ! tid = Some t" "P t'"
    and "unmarked ins + held t = held t' + unmarked outs + unmarked freed"
  shows "keeps P m ins outs freed (m\<lparr>tid_rx := (tid_rx m)[tid := Some t']\<rparr>)"
proof -
  let ?m = "m\<lparr>tid_rx := (tid_rx m)[tid := Some t']\<rparr>"
  have "held_all ?m + held t = held_all m + held t'"
    using held_all_update [OF assms(1,2), of "Some t'"] assms(3) by (simp add: held_by_def)
  then have "(unmarked ins + held_all m) + held t' = (held_all ?m + unmarked outs + unmarked freed) + held t'"
    using assms(5) by (metis (no_types, lifting) add.assoc add.commute)
  then show ?thesis
    using mlme_ok_update [OF assms(1-4)] by (simp add: keeps_def)
qed


lemma held_free_tid_rx: "wf_session t \<Longrightarrow> unmarked (ieee80211_free_tid_rx t) = held t"
  by (simp add: ieee80211_free_tid_rx_def held_def wf_session_def)

lemma free_tid_rx_removed [simp]: "ieee80211_free_tid_rx (t\<lparr>removed := b\<rparr>) = ieee80211_free_tid_rx t"
  by (simp add: ieee80211_free_tid_rx_def)

lemma held_new_session [simp]: "held (new_session sn bsize timeout auto jiffies) = {#}"
  by (simp add: held_def new_session_def)

lemma held_upd [simp]:
  "held (t\<lparr>last_rx := x\<rparr>) = held t" "held (t\<lparr>session_timer := y\<rparr>) = held t"
  "held (t\<lparr>removed := z\<rparr>) = held t"
  by (simp_all add: held_def)

lemma tid_bound: "unat (ieee80211_get_tid hdr) < IEEE80211_NUM_TIDS"
proof -
  have "unat (w AND 0x0f) < 16" for w :: u8
    using unat_and_mask [of w 4] by (simp add: mask_eq_exp_minus_1)
  then show ?thesis by (simp add: ieee80211_get_tid_def)
qed

lemma bar_tid_bound: "unat (drop_bit 12 (w :: u16)) < IEEE80211_NUM_TIDS"
proof -
  have "unat w < 16 * 4096" using unsigned_less [of w] by simp
  then have "unat w div 4096 < 16" by (rule less_mult_imp_div_less)
  then show ?thesis by (simp add: drop_bit_eq_div unat_div)
qed

lemma max_buf_size_bounds: "0 < unat (max_buf_size c) \<and> unat (max_buf_size c) \<le> 1024"
  by (simp add: max_buf_size_def)

lemma clamp_buf_size_bounds:
  assumes "bsize \<le> max_buf_size c" "0 < max_rx_aggregation_subframes c"
  shows "0 < unat (clamp_buf_size c bsize) \<and> unat (clamp_buf_size c bsize) \<le> 1024"
  using assms max_buf_size_bounds [of c]
  by (auto simp: clamp_buf_size_def Let_def word_le_nat_alt word_less_nat_alt unat_gt_0)

lemma addba_check_None:
  "addba_check c tid policy bsize = None \<Longrightarrow> tid < IEEE80211_FIRST_TSPEC_TSID \<and> bsize \<le> max_buf_size c"
  by (auto simp: addba_check_def split: if_splits)

definition ba_granted :: "sta_ampdu_mlme \<Rightarrow> nat \<Rightarrow> u8 \<Rightarrow> sta_ampdu_mlme" where
  "ba_granted m tid token = m\<lparr>agg_session_valid := (agg_session_valid m)[tid := True],
     unexpected_agg := (unexpected_agg m)[tid := False], tid_rx_token := (tid_rx_token m)[tid := token]\<rparr>"

lemma keeps_granted:
  "keeps P m ins outs freed m' \<Longrightarrow> tid < IEEE80211_NUM_TIDS \<Longrightarrow>
   keeps P m ins outs freed (ba_granted m' tid token)"
  by (auto simp: keeps_def mlme_ok_def ba_granted_def held_all_def nth_list_update)

text \<open>The request bits do not matter to the sessions.\<close>

lemma mlme_ok_requests [simp]:
  "mlme_ok P (m\<lparr>tid_rx_timer_expired := (tid_rx_timer_expired m)[i := b]\<rparr>) \<longleftrightarrow> mlme_ok P m"
  "mlme_ok P (m\<lparr>tid_rx_stop_requested := (tid_rx_stop_requested m)[i := b]\<rparr>) \<longleftrightarrow> mlme_ok P m"
  "mlme_ok P (m\<lparr>tid_rx_manage_offl := (tid_rx_manage_offl m)[i := b]\<rparr>) \<longleftrightarrow> mlme_ok P m"
  "mlme_ok P (m\<lparr>unexpected_agg := (unexpected_agg m)[i := b]\<rparr>) \<longleftrightarrow> mlme_ok P m"
  by (simp_all add: mlme_ok_def)

lemma keeps_requests [simp]:
  "keeps P (m\<lparr>tid_rx_timer_expired := x\<rparr>) ins outs freed m' \<longleftrightarrow> keeps P m ins outs freed m'"
  "keeps P (m\<lparr>tid_rx_stop_requested := x\<rparr>) ins outs freed m' \<longleftrightarrow> keeps P m ins outs freed m'"
  "keeps P (m\<lparr>tid_rx_manage_offl := x\<rparr>) ins outs freed m' \<longleftrightarrow> keeps P m ins outs freed m'"
  "keeps P (m\<lparr>unexpected_agg := x\<rparr>) ins outs freed m' \<longleftrightarrow> keeps P m ins outs freed m'"
  by (simp_all add: keeps_def held_all_def)


section \<open>What a property of a session has to promise\<close>

text \<open>The contract between a session and the station that keeps it: a fresh session has the property
  and every operation the station calls on a session keeps it.\<close>

locale session_contract =
  fixes P :: "tid_ampdu_rx \<Rightarrow> bool"
  assumes well_formed: "P t \<Longrightarrow> wf_session t"
    and fresh: "0 < unat bsize \<Longrightarrow> unat bsize \<le> 1024 \<Longrightarrow> P (new_session sn bsize timeout auto jiffies)"
    and last_rx: "P t \<Longrightarrow> P (t\<lparr>last_rx := x\<rparr>)"
    and session_timer: "P t \<Longrightarrow> P (t\<lparr>session_timer := y\<rparr>)"
    and received: "P t \<Longrightarrow> ieee80211_sta_manage_reorder_buf t f jiffies = Some (t1, ret, out, freed) \<Longrightarrow> P t1"
    and timed_out: "P t \<Longrightarrow> ieee80211_sta_reorder_release t jiffies = Some (t2, out, freed) \<Longrightarrow> P t2"
    and moved_up: "P t \<Longrightarrow> ieee80211_release_reorder_frames t sn = (t3, out, freed) \<Longrightarrow> P t3"
begin

lemma rx_keeps:
  assumes "mlme_ok P m" "ieee80211_rx_reorder_ampdu (Some m) f jiffies = Some (Some m', out, freed, eff)"
  shows "keeps P m [f] (out @ to_iface eff) freed m'"
proof -
  let ?tid = "unat (ieee80211_get_tid (skb_data f))"
  have tid: "?tid < IEEE80211_NUM_TIDS" by (rule tid_bound)
  have unexp: "keeps P m [f] [f] [] (m\<lparr>unexpected_agg := (unexpected_agg m)[?tid := True]\<rparr>)"
    using assms(1) by (simp add: keeps_same_sessions)
  show ?thesis
  proof (cases "tid_rx m ! ?tid")
    case None
    then show ?thesis
      using assms unexp by (auto simp: ieee80211_rx_reorder_ampdu_def Let_def to_iface_def split: if_splits)
  next
    case (Some t)
    define t1 where "t1 = (if ba_timeout t \<noteq> 0 then t\<lparr>last_rx := jiffies\<rparr> else t)"
    have ok1: "P t1" "held t1 = held t"
      using mlme_ok_session(3) [OF assms(1) tid Some] by (simp_all add: t1_def last_rx)
    have man: "keeps P m [f] (out @ (if ret then [] else [f])) freed (m\<lparr>tid_rx := (tid_rx m)[?tid := Some t2]\<rparr>)"
      if "ieee80211_sta_manage_reorder_buf t1 f jiffies = Some (t2, ret, out, freed)" for t2 ret out freed
    proof (rule keeps_update [OF assms(1) tid Some])
      show "P t2" by (rule received [OF ok1(1) that])
      show "unmarked [f] + held t = held t2 + unmarked (out @ (if ret then [] else [f])) + unmarked freed"
        using conserve_manage_reorder_buf [OF that well_formed [OF ok1(1)]] ok1(2) by (auto simp: ac_simps)
    qed
    have frag: "keeps P m [f] [f] [] (m\<lparr>tid_rx := (tid_rx m)[?tid := Some t1]\<rparr>)"
      using ok1 by (intro keeps_update [OF assms(1) tid Some]) simp_all
    show ?thesis
      using Some assms man frag
      by (auto simp: ieee80211_rx_reorder_ampdu_def Let_def t1_def [symmetric] to_iface_def split: if_splits)
  qed
qed

lemma ctrl_keeps:
  assumes "mlme_ok P m" "ieee80211_rx_h_ctrl (Some m) f jiffies = (res, Some m', out, freed, eff)"
  shows "keeps P m [f] (out @ (if res = CTRL_QUEUED then [] else [f])) freed m'"
proof -
  let ?tid = "unat (drop_bit 12 (get_le16 (skb_data f) 16))"
  let ?u = "m\<lparr>unexpected_agg := (unexpected_agg m)[?tid := True]\<rparr>"
  have tid: "?tid < IEEE80211_NUM_TIDS" by (rule bar_tid_bound)
  have unexp: "keeps P m [f] [f] [] ?u" using assms(1) by (simp add: keeps_same_sessions)
  show ?thesis
  proof (cases "tid_rx m ! ?tid")
    case None
    then show ?thesis
      using assms unexp by (auto simp: ieee80211_rx_h_ctrl_def Let_def split: if_splits)
  next
    case (Some t)
    define t1 where "t1 = (if ba_timeout t \<noteq> 0
      then t\<lparr>session_timer := Some (jiffies + TU_TO_JIFFIES (ba_timeout t))\<rparr> else t)"
    obtain t2 o2 f2 where rel:
        "ieee80211_release_reorder_frames t1 (drop_bit 4 (get_le16 (skb_data f) 18)) = (t2, o2, f2)"
      by (metis prod_cases3)
    have ok: "agg_session_valid m ! ?tid" "P t1" "held t1 = held t"
      using mlme_ok_session [OF assms(1) tid Some] by (simp_all add: t1_def session_timer)
    have "held t = held t2 + unmarked o2 + unmarked f2"
      using moves_release_reorder_frames [OF rel] well_formed [OF ok(2)] ok(3) by (simp add: moves_def)
    then have "keeps P m [f] o2 (f2 @ [f]) (m\<lparr>tid_rx := (tid_rx m)[?tid := Some t2]\<rparr>)"
      by (intro keeps_update [OF assms(1) tid Some moved_up [OF ok(2) rel]]) simp
    then show ?thesis
      using Some assms ok(1) rel
      by (auto simp: ieee80211_rx_h_ctrl_def Let_def t1_def [symmetric] split: if_splits)
  qed
qed

lemma timeout_keeps:
  assumes "mlme_ok P m" "tid < IEEE80211_NUM_TIDS"
    and "ieee80211_release_reorder_timeout set_sta m tid jiffies = Some (m', out, freed, eff)"
  shows "keeps P m [] out freed m'"
proof (cases "set_sta \<and> tid_rx m ! tid \<noteq> None")
  case False
  then show ?thesis
    using assms keeps_refl [of P m "[]"]
    by (auto simp: ieee80211_release_reorder_timeout_def split: if_splits option.splits)
next
  case True
  then obtain t t1 where Some: "tid_rx m ! tid = Some t"
      and rel: "ieee80211_sta_reorder_release t jiffies = Some (t1, out, freed)"
      and m': "m' = m\<lparr>tid_rx := (tid_rx m)[tid := Some t1]\<rparr>"
    using assms(3) by (auto simp: ieee80211_release_reorder_timeout_def)
  have ok: "P t" using mlme_ok_session(3) [OF assms(1,2) Some] .
  have "held t = held t1 + unmarked out + unmarked freed"
    using moves_sta_reorder_release [OF rel] well_formed [OF ok] by (simp add: moves_def)
  then show ?thesis
    unfolding m' by (intro keeps_update [OF assms(1,2) Some timed_out [OF ok rel]]) simp
qed

lemma stop_keeps:
  assumes "mlme_ok P m" "tid < IEEE80211_NUM_TIDS"
    and "stop_rx_ba_session m tid initiator reason tx = (m', freed, eff)"
  shows "keeps P m [] [] freed m' \<and> tid_rx m' ! tid = None \<and> \<not> agg_session_valid m' ! tid"
proof (cases "agg_session_valid m ! tid")
  case False
  then show ?thesis
    using assms mlme_ok_session(1) [OF assms(1,2)]
    by (cases "tid_rx m ! tid") (auto simp: stop_rx_ba_session_def)
next
  case True
  have inv: "mlme_ok P m'"
    using assms True by (auto simp: stop_rx_ba_session_def mlme_ok_def nth_list_update split: if_splits)
  have "unmarked freed = held_by (tid_rx m ! tid)"
    using assms True mlme_ok_session(3) [OF assms(1,2)]
    by (auto simp: stop_rx_ba_session_def held_by_def well_formed held_free_tid_rx split: option.splits)
  moreover have "held_all m' = held_all (m\<lparr>tid_rx := (tid_rx m)[tid := None]\<rparr>)"
    using assms True by (auto simp: stop_rx_ba_session_def held_all_def)
  ultimately have "held_all m = held_all m' + unmarked freed"
    using held_all_update [OF assms(1,2), of None] by (simp add: held_by_def)
  then show ?thesis
    using inv assms True by (auto simp: keeps_def stop_rx_ba_session_def mlme_ok_def)
qed

lemma keeps_new_session:
  assumes "keeps P m [] [] freed m1" "tid_rx m1 ! tid = None" "tid < IEEE80211_FIRST_TSPEC_TSID" "P t"
    "held t = {#}"
  shows "keeps P m [] [] freed (ba_granted (m1\<lparr>tid_rx := (tid_rx m1)[tid := Some t]\<rparr>) tid token)"
proof -
  let ?m = "ba_granted (m1\<lparr>tid_rx := (tid_rx m1)[tid := Some t]\<rparr>) tid token"
  have inv: "mlme_ok P m1" using assms(1) by (simp add: keeps_def)
  have "mlme_ok P ?m"
    using inv assms(3,4) by (auto simp: mlme_ok_def ba_granted_def nth_list_update)
  moreover have "held_all ?m = held_all m1"
    using held_all_update [OF inv, of tid "Some t"] assms(2,3,5) by (simp add: held_by_def held_all_def ba_granted_def)
  ultimately show ?thesis using assms(1) by (simp add: keeps_def)
qed

lemma session_keeps:
  assumes "mlme_ok P m" "tid < IEEE80211_FIRST_TSPEC_TSID" "0 < unat bsize" "unat bsize \<le> 1024"
    and "addba_session c drv alloc jiffies m token timeout sn tid bsize auto = (status, m', freed, eff)"
  shows "if status = WLAN_STATUS_SUCCESS then keeps P m [] [] freed (ba_granted m' tid token)
         else keeps P m [] [] freed m'"
proof (cases "agg_session_valid m ! tid \<and> tid_rx_token m ! tid = token")
  case True
  then have "m' = m" "freed = []"
    using assms(5) by (auto simp: addba_session_def Let_def split: if_splits option.splits)
  then show ?thesis using assms(1,2) keeps_granted [of P m "[]" "[]" "[]" m tid token] by simp
next
  case False
  obtain m1 freed1 eff1 where st: "(if agg_session_valid m ! tid
        then stop_rx_ba_session m tid WLAN_BACK_RECIPIENT WLAN_STATUS_UNSPECIFIED_QOS False
        else (m, [], [])) = (m1, freed1, eff1)"
    by (metis prod_cases3)
  have k: "keeps P m [] [] freed1 m1" "tid_rx m1 ! tid = None"
  proof -
    have tid: "tid < IEEE80211_NUM_TIDS" using assms(2) by simp
    have "keeps P m [] [] freed1 m1 \<and> tid_rx m1 ! tid = None"
    proof (cases "agg_session_valid m ! tid")
      case True
      then show ?thesis using stop_keeps [OF assms(1) tid] st by auto
    next
      case False
      then have "tid_rx m ! tid = None"
        using mlme_ok_session(1) [OF assms(1) tid] by (cases "tid_rx m ! tid") auto
      then show ?thesis using False st assms(1) by auto
    qed
    then show "keeps P m [] [] freed1 m1" "tid_rx m1 ! tid = None" by simp_all
  qed
  have new: "keeps P m [] [] freed1
      (ba_granted (m1\<lparr>tid_rx := (tid_rx m1)[tid := Some (new_session sn bsize timeout auto jiffies)]\<rparr>) tid token)"
    by (rule keeps_new_session [OF k assms(2) fresh [OF assms(3,4)]]) simp
  show ?thesis
    using assms(2,5) False st k new keeps_granted [OF k(1), of tid token]
    by (auto simp: addba_session_def Let_def split: if_splits)
qed

lemma start_keeps:
  assumes "mlme_ok P m" "0 < max_rx_aggregation_subframes c"
    and "start_rx_ba_session c drv alloc jiffies m token timeout sn policy tid bsize tx auto ext = (m', freed, eff)"
  shows "keeps P m [] [] freed m'"
proof (cases "addba_check c tid policy bsize")
  case (Some status)
  moreover have "status \<noteq> WLAN_STATUS_SUCCESS"
    using Some by (auto simp: addba_check_def split: if_splits)
  ultimately show ?thesis using assms by (auto simp: start_rx_ba_session_def)
next
  case None
  obtain status m1 freed1 eff1 where s: "addba_session c drv alloc jiffies m token timeout sn tid
      (clamp_buf_size c bsize) auto = (status, m1, freed1, eff1)"
    by (metis prod_cases4)
  have c: "tid < IEEE80211_FIRST_TSPEC_TSID" "bsize \<le> max_buf_size c"
    using addba_check_None [OF None] by simp_all
  then have b: "0 < unat (clamp_buf_size c bsize)" "unat (clamp_buf_size c bsize) \<le> 1024"
    using clamp_buf_size_bounds [OF _ assms(2)] by simp_all
  show ?thesis
    using session_keeps [OF assms(1) c(1) b s] assms(3) None s
    by (auto simp: start_rx_ba_session_def Let_def ba_granted_def [symmetric] split: if_splits)
qed

lemma stop_sessionD:
  "stop_rx_ba_session m tid initiator reason tx = (m', freed, eff) \<Longrightarrow> mlme_ok P m \<Longrightarrow> tid < IEEE80211_NUM_TIDS \<Longrightarrow>
   keeps P m [] [] freed m'"
  using stop_keeps by blast

lemma start_sessionD:
  "start_rx_ba_session c drv alloc jiffies m token timeout sn policy tid bsize tx auto ext = (m', freed, eff) \<Longrightarrow>
   mlme_ok P m \<Longrightarrow> 0 < max_rx_aggregation_subframes c \<Longrightarrow> keeps P m [] [] freed m'"
  using start_keeps by blast

lemma work_keeps:
  assumes "mlme_ok P m" "tid < IEEE80211_NUM_TIDS" "0 < max_rx_aggregation_subframes c"
    and "ba_session_work_rx c drv alloc jiffies m tid = (m', freed, eff)"
  shows "keeps P m [] [] freed m'"
proof -
  obtain m1 f1 e1 where s1: "ba_work_timer_expired m tid = (m1, f1, e1)" by (metis prod_cases3)
  obtain m2 f2 e2 where s2: "ba_work_stop_requested m1 tid = (m2, f2, e2)" by (metis prod_cases3)
  obtain m3 f3 e3 where s3: "ba_work_start_offl c drv alloc jiffies m2 tid = (m3, f3, e3)" by (metis prod_cases3)
  obtain m4 f4 e4 where s4: "ba_work_stop_offl m3 tid = (m4, f4, e4)" by (metis prod_cases3)
  have ok: "keeps P x i out f y \<Longrightarrow> mlme_ok P y" for x i out f y by (simp add: keeps_def)
  have k1: "keeps P m [] [] f1 m1"
    using s1 assms(1,2) by (auto simp: ba_work_timer_expired_def dest!: stop_sessionD split: if_splits)
  have k2: "keeps P m1 [] [] f2 m2"
    using s2 ok [OF k1] assms(2) by (auto simp: ba_work_stop_requested_def dest!: stop_sessionD split: if_splits)
  have k3: "keeps P m2 [] [] f3 m3"
    using s3 ok [OF k2] assms(3) by (auto simp: ba_work_start_offl_def dest!: start_sessionD split: if_splits)
  have k4: "keeps P m3 [] [] f4 m4"
    using s4 ok [OF k3] assms(2) by (auto simp: ba_work_stop_offl_def dest!: stop_sessionD split: if_splits)
  have "m' = m4" "freed = f1 @ f2 @ f3 @ f4"
    using assms(4) s1 s2 s3 s4 by (simp_all add: ba_session_work_rx_def)
  then show ?thesis
    using keeps_trans [OF k1 keeps_trans [OF k2 keeps_trans [OF k3 k4]]] by simp
qed

lemma session_timer_keeps:
  assumes "mlme_ok P m" "tid < IEEE80211_NUM_TIDS" "tid_rx m ! tid = Some t"
    and "sta_rx_agg_session_timer_expired m tid t jiffies = (m1, t1, eff)"
  shows "keeps P m [] [] [] (m1\<lparr>tid_rx := (tid_rx m1)[tid := Some t1]\<rparr>)"
proof -
  have inv1: "mlme_ok P m1" "tid_rx m1 = tid_rx m" "P t1" "held t1 = held t"
    using assms(4) assms(1) mlme_ok_session(3) [OF assms(1-3)] session_timer
    by (auto simp: sta_rx_agg_session_timer_expired_def Let_def split: if_splits)
  have "keeps P m1 [] [] [] (m1\<lparr>tid_rx := (tid_rx m1)[tid := Some t1]\<rparr>)"
    by (rule keeps_update [OF inv1(1) assms(2) _ inv1(3)]) (use assms inv1 in auto)
  then show ?thesis
    using keeps_trans [OF keeps_same_sessions [OF inv1(1,2), of "[]"]] by simp
qed

lemma step_keeps:
  assumes "ba_step mk c m ins outs freed m'" "mlme_ok P m" "0 < max_rx_aggregation_subframes c"
    and marker_keeps: "\<And>set_sta tid rx_ssn filtered received_mpdus jiffies.
      mk \<Longrightarrow> ieee80211_mark_rx_ba_filtered_frames set_sta m tid rx_ssn filtered received_mpdus jiffies
        = Some (m', outs, freed) \<Longrightarrow> keeps P m [] outs freed m'"
  shows "keeps P m ins outs freed m'"
  using assms(1)
proof cases
  case rx
  then show ?thesis using rx_keeps [OF assms(2)] by auto
next
  case ctrl
  then show ?thesis using ctrl_keeps [OF assms(2)] by auto
next
  case reorder_timer
  then show ?thesis using timeout_keeps [OF assms(2)] by auto
next
  case addba
  then show ?thesis
    using start_keeps [OF assms(2,3)] by (auto simp: ieee80211_process_addba_request_def Let_def)
next
  case stop
  then show ?thesis using stop_keeps [OF assms(2)] by auto
next
  case session_timer
  then show ?thesis using session_timer_keeps [OF assms(2)] by auto
next
  case stop_request
  then have "mlme_ok P m'" "tid_rx m' = tid_rx m"
    using assms(2) by (auto simp: ieee80211_stop_rx_ba_session_def mlme_ok_def)
  then show ?thesis using keeps_same_sessions [of P m' m "[]"] stop_request by simp
next
  case work
  then show ?thesis using work_keeps [OF assms(2) _ assms(3)] by auto
next
  case marker
  then show ?thesis using marker_keeps by auto
qed (use assms(2) in \<open>auto simp: ieee80211_rx_ba_timer_expired_def ieee80211_start_rx_ba_session_offl_def
    ieee80211_stop_rx_ba_session_offl_def ieee80211_manage_rx_ba_offl_def keeps_same_sessions split: if_splits\<close>)

end


section \<open>The two properties of a session\<close>

text \<open>The exact invariant, with the counter of complete MPDUs, for drivers that set no filter marker.\<close>

interpretation exact: session_contract session_ok
proof
  fix t x y f jiffies t1 ret out freed t2 t3 sn bsize timeout auto
  show "session_ok t \<Longrightarrow> wf_session t" by (simp add: session_ok_def)
  show "0 < unat bsize \<Longrightarrow> unat bsize \<le> 1024 \<Longrightarrow> session_ok (new_session sn bsize timeout auto jiffies)"
    by (simp add: session_ok_def new_session_def reorder_inv_def wf_session_def count_if_def)
  show "session_ok t \<Longrightarrow> session_ok (t\<lparr>last_rx := x\<rparr>)" "session_ok t \<Longrightarrow> session_ok (t\<lparr>session_timer := y\<rparr>)"
    by (simp_all add: session_ok_def reorder_inv_def wf_session_def)
  show "session_ok t \<Longrightarrow> ieee80211_sta_manage_reorder_buf t f jiffies = Some (t1, ret, out, freed) \<Longrightarrow> session_ok t1"
    using manage_reorder_buf_returns [of t f jiffies] by (auto simp: session_ok_def)
  show "session_ok t \<Longrightarrow> ieee80211_sta_reorder_release t jiffies = Some (t2, out, freed) \<Longrightarrow> session_ok t2"
    using sta_reorder_release_returns [of t jiffies] by (auto simp: session_ok_def)
  show "session_ok t \<Longrightarrow> ieee80211_release_reorder_frames t sn = (t3, out, freed) \<Longrightarrow> session_ok t3"
    using inv_release_reorder_frames [of t sn] moves_release_reorder_frames [of t sn t3 out freed]
    by (auto simp: session_ok_def moves_def)
qed

text \<open>Well-formedness alone, which the marker keeps too.\<close>

interpretation formed: session_contract session_wf
proof
  fix t x y f jiffies t1 ret out freed t2 t3 sn bsize timeout auto
  show "session_wf t \<Longrightarrow> wf_session t" by (simp add: session_wf_def)
  show "0 < unat bsize \<Longrightarrow> unat bsize \<le> 1024 \<Longrightarrow> session_wf (new_session sn bsize timeout auto jiffies)"
    by (simp add: session_wf_def new_session_def wf_session_def)
  show "session_wf t \<Longrightarrow> session_wf (t\<lparr>last_rx := x\<rparr>)" "session_wf t \<Longrightarrow> session_wf (t\<lparr>session_timer := y\<rparr>)"
    by (simp_all add: session_wf_def wf_session_def)
  show "session_wf t \<Longrightarrow> ieee80211_sta_manage_reorder_buf t f jiffies = Some (t1, ret, out, freed) \<Longrightarrow> session_wf t1"
    using conserve_manage_reorder_buf [of t f jiffies t1 ret out freed] by (auto simp: session_wf_def)
  show "session_wf t \<Longrightarrow> ieee80211_sta_reorder_release t jiffies = Some (t2, out, freed) \<Longrightarrow> session_wf t2"
    using moves_sta_reorder_release [of t jiffies t2 out freed] by (auto simp: session_wf_def moves_def)
  show "session_wf t \<Longrightarrow> ieee80211_release_reorder_frames t sn = (t3, out, freed) \<Longrightarrow> session_wf t3"
    using moves_release_reorder_frames [of t sn t3 out freed] by (auto simp: session_wf_def moves_def)
qed

lemma moves_mark_rx_ba_filtered:
  assumes "mark_rx_ba_filtered t rx_ssn filtered received_mpdus jiffies = Some (t', out, freed)"
  shows "moves t t' out freed"
proof -
  define r where "r = (if received_mpdus \<ge> drop_bit 1 IEEE80211_SN_MODULO
    then let release = of_nat ((unat (head_seq_num t) + unat (buf_size t)) mod 4096);
             (t', out, freed) = ieee80211_release_reorder_frames t release
         in (t'\<lparr>head_seq_num := rx_ssn\<rparr>, out, freed)
    else ieee80211_release_reorder_frames t rx_ssn)"
  obtain t1 out1 freed1 where r: "r = (t1, out1, freed1)" by (metis prod_cases3)
  have m1: "moves t t1 out1 freed1"
  proof (cases "received_mpdus \<ge> drop_bit 1 IEEE80211_SN_MODULO")
    case True
    obtain t0 where "ieee80211_release_reorder_frames t
          (of_nat ((unat (head_seq_num t) + unat (buf_size t)) mod 4096)) = (t0, out1, freed1)"
        and "t1 = t0\<lparr>head_seq_num := rx_ssn\<rparr>"
      using r True by (auto simp: r_def Let_def split: prod.splits)
    then show ?thesis using moves_frame [OF moves_release_reorder_frames, of t _ t0 out1 freed1 t1] by simp
  next
    case False
    then show ?thesis using r moves_release_reorder_frames by (simp add: r_def)
  qed
  define diff where "diff = unat ((head_seq_num t1 - rx_ssn) AND IEEE80211_SN_MASK)"
  note mark = assms [unfolded mark_rx_ba_filtered_def, folded r_def, unfolded r Let_def prod.case, folded diff_def]
  show ?thesis
  proof (cases "diff \<ge> slots t1")
    case True
    then have "t' = t1\<lparr>reorder_buf_filtered := 0\<rparr>" "out = out1" "freed = freed1"
      using mark by simp_all
    then show ?thesis using moves_frame [OF m1, of t'] by simp
  next
    case False
    then obtain b out3 freed3 where
        rel: "ieee80211_sta_reorder_release (t1\<lparr>reorder_buf_filtered := b\<rparr>) jiffies = Some (t', out3, freed3)"
        and "out = out1 @ out3" "freed = freed1 @ freed3"
      using mark by (auto split: if_splits)
    moreover have "moves t (t1\<lparr>reorder_buf_filtered := b\<rparr>) out1 freed1" by (rule moves_frame [OF m1]) simp_all
    ultimately show ?thesis using moves_trans [OF _ moves_sta_reorder_release [OF rel]] by simp
  qed
qed

lemma marker_keeps:
  assumes "mlme_wf m"
    and "ieee80211_mark_rx_ba_filtered_frames set_sta m tid rx_ssn filtered received_mpdus jiffies = Some (m', out, freed)"
  shows "keeps session_wf m [] out freed m'"
proof (cases "tid < IEEE80211_NUM_TIDS \<and> set_sta \<and> tid_rx m ! tid \<noteq> None")
  case False
  then show ?thesis
    using assms keeps_refl [of session_wf m "[]"]
    by (auto simp: ieee80211_mark_rx_ba_filtered_frames_def split: if_splits option.splits)
next
  case True
  then obtain t t1 where tid: "tid < IEEE80211_NUM_TIDS" and t: "tid_rx m ! tid = Some t"
      and mark: "mark_rx_ba_filtered t rx_ssn filtered received_mpdus jiffies = Some (t1, out, freed)"
      and m': "m' = m\<lparr>tid_rx := (tid_rx m)[tid := Some t1]\<rparr>"
    using assms(2) by (auto simp: ieee80211_mark_rx_ba_filtered_frames_def)
  have "session_wf t" using mlme_ok_session(3) [OF assms(1) tid t] .
  with moves_mark_rx_ba_filtered [OF mark]
  have "session_wf t1" "held t = held t1 + unmarked out + unmarked freed"
    by (simp_all add: moves_def session_wf_def)
  then show ?thesis unfolding m' by (intro keeps_update [OF assms(1) tid t]) simp_all
qed


section \<open>Runs\<close>

lemma ba_run_keeps_wf:
  assumes "ba_run mk m ins outs freed m'" "mlme_wf m"
  shows "keeps session_wf m ins outs freed m'"
  using assms
proof (induction rule: ba_run.induct)
  case (start m)
  then show ?case using keeps_refl [of session_wf m "[]"] by simp
next
  case (step m ins outs freed m1 c ins' outs' freed' m2)
  then have k: "keeps session_wf m ins outs freed m1" by simp
  then have "mlme_wf m1" by (simp add: keeps_def)
  then have "keeps session_wf m1 ins' outs' freed' m2"
    using step.hyps(3) marker_keeps by (intro formed.step_keeps [OF step.hyps(2)])
  with k show ?case by (rule keeps_trans)
qed

lemma ba_run_keeps:
  assumes "ba_run False m ins outs freed m'" "mlme_inv m"
  shows "keeps session_ok m ins outs freed m'"
  using assms
proof (induction rule: ba_run.induct)
  case (start m)
  then show ?case using keeps_refl [of session_ok m "[]"] by simp
next
  case (step m ins outs freed m1 c ins' outs' freed' m2)
  then have k: "keeps session_ok m ins outs freed m1" by simp
  then have "mlme_inv m1" by (simp add: keeps_def)
  then have "keeps session_ok m1 ins' outs' freed' m2"
    using step.hyps(3) by (intro exact.step_keeps [OF step.hyps(2)]) simp_all
  with k show ?case by (rule keeps_trans)
qed


section \<open>The loops end\<close>

lemma rx_reorder_ampdu_returns:
  assumes "mlme_inv m"
  shows "\<exists>m' out freed eff. ieee80211_rx_reorder_ampdu (Some m) f jiffies = Some (Some m', out, freed, eff)"
proof (cases "tid_rx m ! unat (ieee80211_get_tid (skb_data f))")
  case None
  then show ?thesis by (simp add: ieee80211_rx_reorder_ampdu_def Let_def)
next
  case (Some t)
  define t1 where "t1 = (if ba_timeout t \<noteq> 0 then t\<lparr>last_rx := jiffies\<rparr> else t)"
  have "session_ok t1"
    using mlme_ok_session(3) [OF assms tid_bound Some] by (simp add: t1_def exact.last_rx)
  then show ?thesis
    using Some manage_reorder_buf_returns [of t1 f jiffies]
    by (auto simp: ieee80211_rx_reorder_ampdu_def Let_def t1_def [symmetric] session_ok_def)
qed

lemma release_timeout_returns:
  assumes "mlme_inv m" "tid < IEEE80211_NUM_TIDS"
  shows "\<exists>m' out freed eff. ieee80211_release_reorder_timeout set_sta m tid jiffies = Some (m', out, freed, eff)"
proof (cases "tid_rx m ! tid")
  case None
  then show ?thesis by (simp add: ieee80211_release_reorder_timeout_def)
next
  case (Some t)
  then show ?thesis
    using sta_reorder_release_returns [of t jiffies] mlme_ok_session(3) [OF assms Some]
    by (auto simp: ieee80211_release_reorder_timeout_def session_ok_def)
qed

end
