(* ===== verification/RxBaProps.thy ===== *)
theory RxBaProps
  imports RxBaInv
begin

text \<open>
  The properties of the block-ack receive path, over the definitions of \<open>Reorder\<close> and \<open>RxBa\<close>: no
  frame is lost along any run, no event loops unless a filter marker was set, frames leave in order
  and only stale or duplicate ones are dropped, a BlockAckReq moves the window, a session is granted
  exactly as the request and the capabilities say, and the request survives the wire. The last section evaluates the model at the inputs where the code
  departs from that.
\<close>


section \<open>Examples\<close>

definition demo_mlme :: sta_ampdu_mlme where
  "demo_mlme =
     \<lparr>tid_rx = Some demo_session # replicate 15 None, tid_rx_token = replicate 16 0,
      tid_rx_timer_expired = replicate 16 False, tid_rx_stop_requested = replicate 16 False,
      tid_rx_manage_offl = replicate 32 False, agg_session_valid = True # replicate 15 False, unexpected_agg = replicate 16 False\<rparr>"

definition demo_caps :: ba_caps where
  "demo_caps =
     \<lparr>link_usable = True, band_6ghz = False, ht_supported = True, delay_ba = False, block_ba = False,
      has_he = True, has_eht = True, max_rx_aggregation_subframes = 256, hw_reordering = False\<rparr>"

text \<open>A BlockAckReq for TID 0 that starts the window at 0.\<close>

definition demo_bar :: skb where
  "demo_bar = (qos_frame 0)\<lparr>skb_data := ieee80211_bar_frame [2, 0, 0, 0, 0, 1] [2, 0, 0, 0, 0, 2] 0 0\<rparr>"

lemma demo_mlme_inv: "mlme_inv demo_mlme"
proof -
  have "session_ok demo_session"
    using demo_inv by (simp add: session_ok_def demo_session_def)
  then show ?thesis
    by (auto simp: mlme_ok_def demo_mlme_def nth_Cons split: nat.splits)
qed

lemma demo_caps_max: "0 < max_rx_aggregation_subframes demo_caps"
  by (simp add: demo_caps_def)

lemma demo_window: "window_inv demo_session"
proof -
  have sn: "skb_sn (qos_frame 4095) = 4095" by (rule qos_frame_sn) simp
  have pos: "pos 4094 (qos_frame 4095) = 1" unfolding sn by (simp add: sn_dist_def ieee80211_sn_sub_def)
  have "slot_ok 4094 4 3 [qos_frame 4095]"
    unfolding slot_ok_def using pos sn by (simp add: qos_frame_def)
  then have "slot_ok 4094 4 i ([[], [], [], [qos_frame 4095]] ! i)" if "i < 4" for i
  proof -
    consider "i = 0" | "i = 1" | "i = 2" | "i = 3" using \<open>i < 4\<close> by linarith
    then show ?thesis using \<open>slot_ok 4094 4 3 _\<close> by cases simp_all
  qed
  moreover have "window_size_ok 4" by (simp add: window_size_ok_def)
  ultimately show ?thesis
    using demo_inv unfolding window_inv_def by (simp add: demo_session_def)
qed


section \<open>Runs\<close>

lemma rx_h_ctrl_keeps_sta:
  "\<exists>res m' out freed eff. ieee80211_rx_h_ctrl (Some m) f jiffies = (res, Some m', out, freed, eff)"
  by (auto simp: ieee80211_rx_h_ctrl_def Let_def split: if_splits option.splits prod.splits)

text \<open>C1: Along every run of the block-ack receive machinery of a station - data frames, control
  frames with the BlockAckReq among them, ADDBA requests, stops, session and reorder timers, the
  driver's requests to start, stop or time out a session, the session work, and the driver's filter
  marker where the driver uses it (\<open>mk\<close>), in any order and with any answers of driver and
  allocator - every frame that arrived is exactly once still held, passed on or freed, and the
  state stays well formed: a session exists only on TIDs below 8 whose bit is set in
  \<open>agg_session_valid\<close>, and its arrays have \<open>buf_size\<close> entries, at most 1024. For a driver that never
  sets the filter marker the exact invariant holds as well: \<open>stored_mpdu_num\<close> counts the complete
  MPDUs. A marker call that does not return (\<open>filter_marker_hangs\<close>) is no step.\<close>

theorem ba_run_conserves:
  assumes "ba_run mk m ins outs freed m'" "mlme_wf m"
  shows "mlme_wf m' \<and> unmarked ins + held_all m = held_all m' + unmarked outs + unmarked freed \<and>
     (\<not> mk \<longrightarrow> mlme_inv m \<longrightarrow> mlme_inv m')"
proof -
  have "keeps session_wf m ins outs freed m'" by (rule ba_run_keeps_wf [OF assms])
  moreover have "mlme_inv m'" if "\<not> mk" "mlme_inv m"
    using ba_run_keeps [of m ins outs freed m'] assms(1) that by (simp add: keeps_def)
  ultimately show ?thesis by (simp add: keeps_def)
qed

lemma demo_run:
  "\<exists>outs freed m'. ba_run mk demo_mlme [qos_frame 4094, demo_bar] outs freed m'"
proof -
  obtain m1 out1 freed1 eff1 where
    "ieee80211_rx_reorder_ampdu (Some demo_mlme) (qos_frame 4094) 105 = Some (Some m1, out1, freed1, eff1)"
    using rx_reorder_ampdu_returns [OF demo_mlme_inv] by blast
  then have r1: "ba_step mk demo_caps demo_mlme [qos_frame 4094] (out1 @ to_iface eff1) freed1 m1"
    by (rule ba_step.rx)
  obtain res m2 out2 freed2 eff2 where
    "ieee80211_rx_h_ctrl (Some m1) demo_bar 106 = (res, Some m2, out2, freed2, eff2)"
    using rx_h_ctrl_keeps_sta by blast
  then have r2: "ba_step mk demo_caps m1 [demo_bar] (out2 @ (if res = CTRL_QUEUED then [] else [demo_bar])) freed2 m2"
    by (rule ba_step.ctrl)
  show ?thesis
    using ba_run.step [OF ba_run.step [OF ba_run.start r1 demo_caps_max] r2 demo_caps_max] by auto
qed

theorem ba_run_conserves_witness:
  "\<exists>outs freed m'. ba_run False demo_mlme [qos_frame 4094, demo_bar] outs freed m' \<and> mlme_inv m' \<and>
     unmarked [qos_frame 4094, demo_bar] + held_all demo_mlme = held_all m' + unmarked outs + unmarked freed"
proof -
  obtain outs freed m' where r: "ba_run False demo_mlme [qos_frame 4094, demo_bar] outs freed m'"
    using demo_run by blast
  show ?thesis using ba_run_conserves [OF r mlme_inv_wf [OF demo_mlme_inv]] r demo_mlme_inv by blast
qed

text \<open>C26: No event can get stuck when the driver sets no filter marker: in every state that a run
  without marker calls reaches, receiving any frame and the expiry of any reorder timer return - the
  release, timeout and timer-search loops all end - and so does receiving any control frame, which
  leaves the station's state there. With the marker this is false: \<open>filter_marker_hangs\<close>.\<close>

theorem ba_events_return:
  assumes "ba_run False m ins outs freed m'" "mlme_inv m" "tid < IEEE80211_NUM_TIDS"
  shows "ieee80211_rx_reorder_ampdu (Some m') f jiffies \<noteq> None \<and>
     ieee80211_release_reorder_timeout set_sta m' tid jiffies \<noteq> None \<and>
     (\<exists>res m'' out fr eff. ieee80211_rx_h_ctrl (Some m') f jiffies = (res, Some m'', out, fr, eff) \<and> mlme_inv m'')"
proof -
  have inv: "mlme_inv m'" using ba_run_keeps [OF assms(1,2)] by (simp add: keeps_def)
  obtain res m'' out fr eff where c: "ieee80211_rx_h_ctrl (Some m') f jiffies = (res, Some m'', out, fr, eff)"
    using rx_h_ctrl_keeps_sta by blast
  have "mlme_inv m''" using exact.ctrl_keeps [OF inv c] by (simp add: keeps_def)
  then show ?thesis
    using c rx_reorder_ampdu_returns [OF inv, of f jiffies] release_timeout_returns [OF inv assms(3), of set_sta jiffies]
    by fastforce
qed

theorem ba_events_return_witness:
  "ieee80211_rx_reorder_ampdu (Some demo_mlme) (qos_frame 4095) 105 \<noteq> None \<and>
     ieee80211_release_reorder_timeout True demo_mlme 0 105 \<noteq> None"
  using ba_events_return [OF ba_run.start demo_mlme_inv, of 0 "qos_frame 4095" 105 True] by simp


section \<open>Order\<close>

text \<open>C10: Frames leave a session in order, under conditions that the code does not enforce: the window
  size divides the sequence space and every buffered MPDU is whole (\<open>window_inv\<close>), the session has
  started and does not take its start from the first frame (\<open>started\<close>, no \<open>auto_seq\<close>), and the frame
  received is no part of an A-MSDU still to be continued. Then receiving a frame moves the head
  forward by some \<open>k\<close>, and what is passed on - released frames and then, if it is not buffered, the
  frame itself - has strictly increasing sequence numbers, all of them among the \<open>k\<close> numbers the head
  passed. With a window of 60 it fails (\<open>window_60_drops_new_frame\<close>).\<close>

theorem manage_reorder_buf_in_order:
  assumes "window_inv t" "started t" "\<not> auto_seq t" "\<not> amsdu_more f"
    and "ieee80211_sta_manage_reorder_buf t f jiffies = Some (t', ret, out, freed)"
  shows "window_inv t' \<and>
     (\<exists>k < 4096. unat (head_seq_num t') = (unat (head_seq_num t) + k) mod 4096 \<and>
        sorted_wrt (<) (map (pos (head_seq_num t)) (out @ (if ret then [] else [f]))) \<and>
        list_all (\<lambda>g. pos (head_seq_num t) g < k) (out @ (if ret then [] else [f])))"
  using window_manage [OF assms] unfolding advance_def list_all_iff by blast

theorem manage_reorder_buf_in_order_witness:
  "\<exists>t' ret out freed. ieee80211_sta_manage_reorder_buf demo_session (qos_frame 4094) 105 = Some (t', ret, out, freed) \<and>
     window_inv t' \<and>
     (\<exists>k < 4096. unat (head_seq_num t') = (unat (head_seq_num demo_session) + k) mod 4096 \<and>
        sorted_wrt (<) (map (pos (head_seq_num demo_session)) (out @ (if ret then [] else [qos_frame 4094]))) \<and>
        list_all (\<lambda>g. pos (head_seq_num demo_session) g < k) (out @ (if ret then [] else [qos_frame 4094])))"
proof -
  obtain t' ret out freed where r:
    "ieee80211_sta_manage_reorder_buf demo_session (qos_frame 4094) 105 = Some (t', ret, out, freed)"
    using manage_reorder_buf_returns [OF demo_inv] by blast
  have "started demo_session" "\<not> auto_seq demo_session" "\<not> amsdu_more (qos_frame 4094)"
    by (simp_all add: demo_session_def qos_frame_def)
  from manage_reorder_buf_in_order [OF demo_window this r] r show ?thesis by blast
qed

text \<open>The session drops nothing but the frame just received, and that one only when its sequence
  number is behind the head or is the number of a frame the buffer already holds.\<close>

theorem manage_reorder_buf_drops:
  assumes "window_inv t" "started t" "\<not> auto_seq t" "\<not> amsdu_more f"
    and "ieee80211_sta_manage_reorder_buf t f jiffies = Some (t', ret, out, freed)" "freed \<noteq> []"
  shows "freed = [f] \<and>
     (ieee80211_sn_less (skb_sn f) (head_seq_num t) \<or> (\<exists>g. g \<in># held t \<and> skb_sn g = skb_sn f))"
  using window_manage [OF assms(1-5)] assms(6) by blast

theorem manage_reorder_buf_drops_witness:
  "\<exists>t' ret out. ieee80211_sta_manage_reorder_buf demo_session (qos_frame 4095) 105
        = Some (t', ret, out, [qos_frame 4095]) \<and>
     (ieee80211_sn_less (skb_sn (qos_frame 4095)) (head_seq_num demo_session) \<or>
        (\<exists>g. g \<in># held demo_session \<and> skb_sn g = skb_sn (qos_frame 4095)))"
proof -
  have sn: "skb_sn (qos_frame 4095) = 4095" by (rule qos_frame_sn) simp
  have "started demo_session" "\<not> auto_seq demo_session" "\<not> amsdu_more (qos_frame 4095)"
    by (simp_all add: demo_session_def qos_frame_def)
  moreover have r: "ieee80211_sta_manage_reorder_buf demo_session (qos_frame 4095) 105
      = Some (demo_session, True, [], [qos_frame 4095])"
    by (simp add: ieee80211_sta_manage_reorder_buf_def reorder_start_def sn demo_session_def Let_def
        ieee80211_sn_less_def reorder_store_def ieee80211_rx_reorder_ready_def)
      (auto simp: qos_frame_def)
  ultimately show ?thesis using manage_reorder_buf_drops [OF demo_window _ _ _ r] by blast
qed


section \<open>A BlockAckReq moves the window\<close>

lemma shift4: "unat (sn :: u16) < 4096 \<Longrightarrow> drop_bit 4 (push_bit 4 sn) = sn"
proof (rule bit_word_eqI)
  fix i
  assume "unat sn < 4096"
  then have "i < 12" if "bit sn i" using high_bits [of sn 12 i] that by fastforce
  then show "bit (drop_bit 4 (push_bit 4 sn)) i = bit sn i" by (auto simp: bit_simps)
qed

text \<open>A BlockAckReq as \<open>ieee80211_send_bar\<close> writes it is read back.\<close>

lemma bar_frame_fields:
  assumes "length ra = 6" "length ta = 6" "unat tid < 16"
  shows "ieee80211_is_ctl (frame_control (ieee80211_bar_frame ra ta tid start))"
    "ieee80211_is_back_req (frame_control (ieee80211_bar_frame ra ta tid start))"
    "length (ieee80211_bar_frame ra ta tid start) = 20"
    "drop_bit 12 (get_le16 (ieee80211_bar_frame ra ta tid start) 16) = tid"
    "get_le16 (ieee80211_bar_frame ra ta tid start) 18 = start"
proof -
  have fc: "frame_control (ieee80211_bar_frame ra ta tid start) = 0x84"
    by (simp add: frame_control_def ieee80211_bar_frame_def get_le16_def put_le16_def le16_def)
  show "ieee80211_is_ctl (frame_control (ieee80211_bar_frame ra ta tid start))"
    "ieee80211_is_back_req (frame_control (ieee80211_bar_frame ra ta tid start))"
    unfolding fc by (simp_all add: ieee80211_is_ctl_def ieee80211_is_back_req_def)
  show "length (ieee80211_bar_frame ra ta tid start) = 20"
    using assms by (simp add: ieee80211_bar_frame_def)
  have "get_le16 (put_le16 a @ put_le16 b @ ra @ ta @ put_le16 x @ rest) 16 = x" for a b x rest
    using assms by (simp add: get_le16_def nth_append put_le16_def le16_put_le16)
  then have eq: "get_le16 (ieee80211_bar_frame ra ta tid start) 16 = push_bit 2 (mask 1) OR push_bit 12 tid"
    unfolding ieee80211_bar_frame_def by (simp only:) (simp add: mask_eq_exp_minus_1)
  have tid: "i < 4" if "bit tid i" for i using high_bits [of tid 4 i] assms(3) that by fastforce
  show "drop_bit 12 (get_le16 (ieee80211_bar_frame ra ta tid start) 16) = tid"
    unfolding eq by (rule bit_word_eqI) (auto simp: bit_simps dest: tid)
  show "get_le16 (ieee80211_bar_frame ra ta tid start) 18 = start"
    using assms by (simp add: ieee80211_bar_frame_def get_le16_def nth_append put_le16_def le16_put_le16)
qed

text \<open>Moving the head forward splits the buffer at the new head.\<close>

lemma held_in_window: "window_inv t \<Longrightarrow> g \<in># held t \<Longrightarrow> pos (head_seq_num t) g < slots t"
proof -
  assume w: "window_inv t" and g: "g \<in># held t"
  have "g \<in> unmark ` (\<Union>s \<in> set (reorder_buf t). set s)" using g by (simp add: held_def unmarked_def)
  then obtain s f where f: "s \<in> set (reorder_buf t)" "f \<in> set s" "g = unmark f" by blast
  then obtain i where i: "i < slots t" "s = reorder_buf t ! i"
    using inv_length [OF window_inv_reorder [OF w]] by (metis in_set_conv_nth)
  then have "pos (head_seq_num t) f < slots t"
    using w f(2) unfolding window_inv_def slot_ok_def by blast
  then show ?thesis using f(3) by (simp add: unmark_def)
qed

lemma window_release_split:
  assumes "window_inv t" "ieee80211_release_reorder_frames t h = (t', out, freed)" "unat h < 4096"
    and "sn_dist (head_seq_num t) h < 2048"
  defines "early \<equiv> \<lambda>g. pos (head_seq_num t) g < sn_dist (head_seq_num t) h"
  shows "unmarked out = filter_mset early (held t)" "held t' = filter_mset (\<lambda>g. \<not> early g) (held t)"
proof -
  note rel = window_release_frames [OF assms(1-4)]
  have sum: "held t = held t' + unmarked out"
    using moves_release_reorder_frames [OF assms(2)] rel assms(1) by (simp add: moves_def)
  have out: "early g" if "g \<in># unmarked out" for g
    using rel that by (auto simp: advance_def early_def unmarked_def unmark_def)
  have rest: "\<not> early g" if "g \<in># held t'" for g
  proof -
    have "pos h g < 1024"
      using held_in_window [of t' g] that rel by (auto simp: window_inv_def window_size_ok_def)
    then have "pos (head_seq_num t) g = sn_dist (head_seq_num t) h + pos h g"
      using rel assms(4) by (intro pos_shift) (auto simp: advance_def)
    then show ?thesis by (simp add: early_def)
  qed
  have none: "filter_mset early (held t') = {#}" "filter_mset (\<lambda>g. \<not> early g) (unmarked out) = {#}"
    using out rest by simp_all
  have "unmarked out = filter_mset early (unmarked out)" "held t' = filter_mset (\<lambda>g. \<not> early g) (held t')"
    using multiset_partition [of "unmarked out" early] multiset_partition [of "held t'" early]
    unfolding none by (simp_all only: add_0_left add_0_right)
  then show "unmarked out = filter_mset early (held t)" "held t' = filter_mset (\<lambda>g. \<not> early g) (held t)"
    unfolding sum filter_union_mset none by (simp_all only: add_0_left add_0_right)
qed

text \<open>C27: A BlockAckReq moves the window. For an open session whose window size divides the sequence
  space and whose buffer holds whole MPDUs, the request \<open>ieee80211_send_bar\<close> builds for the TID and
  the sequence number \<open>sn\<close> is taken: with \<open>sn\<close> less than half the sequence space ahead of the head,
  the head becomes \<open>sn\<close>, and exactly the buffered frames numbered before \<open>sn\<close> are passed on, in
  order, while the others stay buffered; with \<open>sn\<close> behind the head, nothing leaves the buffer. No
  other session and no other buffered frame is touched, nothing but the request itself is freed, and
  the driver is told.\<close>

theorem bar_moves_window:
  assumes "mlme_inv m" "unat tid < 16" "tid_rx m ! unat tid = Some t" "window_inv t" "unat sn < 4096"
    and "skb_data f = ieee80211_bar_frame ra ta tid (push_bit 4 sn)" "length ra = 6" "length ta = 6"
  shows "\<exists>t' out. ieee80211_rx_h_ctrl (Some m) f jiffies =
       (CTRL_QUEUED, Some (m\<lparr>tid_rx := (tid_rx m)[unat tid := Some t']\<rparr>), out, [f], [BarRxEvent (unat tid) sn]) \<and>
     window_inv t' \<and> sorted_wrt (<) (map (pos (head_seq_num t)) out) \<and>
     (if sn_dist (head_seq_num t) sn < 2048
      then head_seq_num t' = sn \<and>
        unmarked out = {#g \<in># held t. pos (head_seq_num t) g < sn_dist (head_seq_num t) sn#} \<and>
        held t' = {#g \<in># held t. \<not> pos (head_seq_num t) g < sn_dist (head_seq_num t) sn#}
      else head_seq_num t' = head_seq_num t \<and> out = [] \<and> held t' = held t)"
proof -
  define t1 where "t1 = (if ba_timeout t \<noteq> 0
    then t\<lparr>session_timer := Some (jiffies + TU_TO_JIFFIES (ba_timeout t))\<rparr> else t)"
  obtain t' out freed where rel: "ieee80211_release_reorder_frames t1 sn = (t', out, freed)"
    by (metis prod_cases3)
  have valid: "agg_session_valid m ! unat tid" using mlme_ok_session(1) [OF assms(1) _ assms(3)] assms(2) by simp
  have t1: "window_inv t1" "head_seq_num t1 = head_seq_num t" "held t1 = held t"
    using assms(4) by (simp_all add: t1_def window_inv_def reorder_inv_def wf_session_def)
  have run: "ieee80211_rx_h_ctrl (Some m) f jiffies =
      (CTRL_QUEUED, Some (m\<lparr>tid_rx := (tid_rx m)[unat tid := Some t']\<rparr>), out, freed @ [f], [BarRxEvent (unat tid) sn])"
    using assms(3,6) valid rel bar_frame_fields [OF assms(7,8,2), of "push_bit 4 sn"] shift4 [OF assms(5)]
    by (simp add: ieee80211_rx_h_ctrl_def Let_def t1_def [symmetric])
  show ?thesis
  proof (cases "sn_dist (head_seq_num t) sn < 2048")
    case True
    then show ?thesis
      using run window_release_frames [OF t1(1) rel assms(5)] window_release_split [OF t1(1) rel assms(5)]
      unfolding t1(2,3) by (auto simp: advance_def)
  next
    case False
    then have "\<not> ieee80211_sn_less (head_seq_num t1) sn" by (simp add: sn_before t1(2))
    then have "t' = t1" "out = []" "freed = []" using rel by (simp_all add: ieee80211_release_reorder_frames.simps)
    with run t1 False show ?thesis by auto
  qed
qed

theorem bar_moves_window_witness:
  "\<exists>t' out. ieee80211_rx_h_ctrl (Some demo_mlme) demo_bar 106 =
       (CTRL_QUEUED, Some (demo_mlme\<lparr>tid_rx := (tid_rx demo_mlme)[0 := Some t']\<rparr>), out, [demo_bar], [BarRxEvent 0 0]) \<and>
     head_seq_num t' = 0 \<and> unmarked out = {#qos_frame 4095#} \<and> held t' = {#}"
proof -
  have sn: "skb_sn (qos_frame 4095) = 4095" by (rule qos_frame_sn) simp
  have d: "head_seq_num demo_session = 4094" "sn_dist 4094 0 = 2" "sn_dist 4094 4095 = 1"
    by (simp_all add: demo_session_def sn_dist_def ieee80211_sn_sub_def)
  have h: "held demo_session = {#qos_frame 4095#}"
    by (simp add: held_def demo_session_def unmark_def qos_frame_def)
  have s: "tid_rx demo_mlme ! unat (0 :: u16) = Some demo_session" by (simp add: demo_mlme_def)
  have b: "skb_data demo_bar = ieee80211_bar_frame [2, 0, 0, 0, 0, 1] [2, 0, 0, 0, 0, 2] 0 (push_bit 4 0)"
    by (simp add: demo_bar_def)
  from bar_moves_window [OF demo_mlme_inv _ s demo_window _ b, of 106] show ?thesis
    unfolding d h by (auto simp: sn d)
qed


section \<open>Session set-up\<close>

text \<open>An acceptable ADDBA request (checks passed, memory available, driver agreeing, no session
  with the same token) ends with a fresh, empty session on that TID whose window is the requested
  size cut to the hardware's limit and whose head is the requested start; the peer is told success
  and exactly that window. A previous session on the TID is stopped and all its frames are freed.\<close>

lemma addba_grants:
  assumes "mlme_inv m" "addba_check c tid policy bsize = None" "\<not> hw_reordering c"
    and "\<And>p. drv p" "\<not> (agg_session_valid m ! tid \<and> tid_rx_token m ! tid = token)"
  shows "\<exists>m' freed eff. start_rx_ba_session c drv True jiffies m token timeout sn policy tid bsize True auto ext
       = (m', freed, eff @ [SendAddbaResp tid token WLAN_STATUS_SUCCESS 1 (clamp_buf_size c bsize) timeout ext]) \<and>
     tid_rx m' ! tid = Some (new_session sn (clamp_buf_size c bsize) timeout auto jiffies) \<and>
     agg_session_valid m' ! tid \<and> tid_rx_token m' ! tid = token \<and> \<not> unexpected_agg m' ! tid \<and>
     unmarked freed = held_by (tid_rx m ! tid)"
proof -
  let ?stop = "stop_rx_ba_session m tid WLAN_BACK_RECIPIENT WLAN_STATUS_UNSPECIFIED_QOS False"
  have tid: "tid < IEEE80211_NUM_TIDS" using addba_check_None [OF assms(2)] by simp
  have len: "length (tid_rx m) = 16" "length (agg_session_valid m) = 16" "length (tid_rx_token m) = 16"
      "length (unexpected_agg m) = 16"
    using assms(1) by (simp_all add: mlme_ok_def)
  obtain m1 freed eff where st: "?stop = (m1, freed, eff)" by (metis prod_cases3)
  have freed: "unmarked freed = held_by (tid_rx m ! tid)"
    using st mlme_ok_session [OF assms(1) tid]
    by (auto simp: stop_rx_ba_session_def held_by_def session_ok_def held_free_tid_rx
        split: if_splits option.splits)
  show ?thesis
  proof (cases "agg_session_valid m ! tid")
    case True
    then show ?thesis
      using assms(2-5) st freed tid len
      by (auto simp: start_rx_ba_session_def addba_session_def Let_def stop_rx_ba_session_def split: if_splits)
  next
    case False
    moreover have "tid_rx m ! tid = None"
      using False mlme_ok_session(1) [OF assms(1) tid] by (cases "tid_rx m ! tid") auto
    ultimately show ?thesis
      using assms(2-5) tid len
      by (auto simp: start_rx_ba_session_def addba_session_def Let_def held_by_def)
  qed
qed

text \<open>A request that fails a check changes nothing: no session is touched, no frame freed, and the
  peer gets exactly one response, with an error status and the size it asked for.\<close>

theorem addba_rejects:
  assumes "addba_check c tid policy bsize = Some status"
  shows "start_rx_ba_session c drv alloc jiffies m token timeout sn policy tid bsize True auto ext
       = (m, [], [SendAddbaResp tid token status 1 bsize timeout ext]) \<and> status \<noteq> WLAN_STATUS_SUCCESS"
proof -
  have "status \<noteq> WLAN_STATUS_SUCCESS"
    using assms by (auto simp: addba_check_def split: if_splits)
  then show ?thesis using assms by (simp add: start_rx_ba_session_def)
qed

theorem addba_rejects_witness:
  "start_rx_ba_session demo_caps (\<lambda>_. True) True 200 demo_mlme 7 0 100 1 3 2000 True False 0
     = (demo_mlme, [], [SendAddbaResp 3 7 WLAN_STATUS_INVALID_QOS_PARAM 1 2000 0 0]) \<and>
   WLAN_STATUS_INVALID_QOS_PARAM \<noteq> WLAN_STATUS_SUCCESS"
  by (rule addba_rejects) (simp add: addba_check_def demo_caps_def max_buf_size_def)

lemma fields: "(0x003C::u16) = push_bit 2 (mask 4)" "(0xFFC0::u16) = push_bit 6 (mask 10)" "(0x0002::u16) = push_bit 1 (mask 1)"
  "(0x0001::u16) = mask 1" "(0xE0::u8) = push_bit 5 (mask 3)" "(1::u8) = mask 1"
  by (simp_all add: mask_eq_exp_minus_1)

lemma addba_capab:
  fixes tid agg :: u16
  assumes "unat tid < 16" 
  defines "capab \<equiv> 0x0001 OR 0x0002 OR encode_bits tid 2 0x003C OR encode_bits agg 6 0xFFC0"
  shows "drop_bit 1 (capab AND 0x0002) = 1" "drop_bit 2 (capab AND 0x003C) = tid"
    "drop_bit 6 (capab AND 0xFFC0) = agg AND mask 10"
proof -
  have tid: "i < 4" if "bit tid i" for i using high_bits [of tid 4 i] assms(1) that by fastforce
  show "drop_bit 1 (capab AND 0x0002) = 1"
    unfolding capab_def encode_bits_def fields
    by (rule bit_word_eqI) (auto simp: bit_simps)
  show "drop_bit 2 (capab AND 0x003C) = tid"
    unfolding capab_def encode_bits_def fields
    by (rule bit_word_eqI) (auto simp: bit_simps dest: tid)
  show "drop_bit 6 (capab AND 0xFFC0) = agg AND mask 10"
    unfolding capab_def encode_bits_def fields
    by (rule bit_word_eqI) (auto simp: bit_simps)
qed

lemma addba_size:
  assumes "unat (agg :: u16) < 8192" "d AND 0xE0 = (0 :: u8)"
  shows "(agg AND mask 10) OR push_bit 10 (ucast (drop_bit 5 ((d OR encode_bits (ucast (drop_bit 10 agg)) 5 0xE0) AND 0xE0))) = agg"
proof -
  have hi: "i < 13" if "bit agg i" for i using high_bits [of agg 13 i] assms(1) that by fastforce
  have "(d OR encode_bits (ucast (drop_bit 10 agg)) 5 0xE0) AND 0xE0 = encode_bits (ucast (drop_bit 10 agg)) 5 0xE0"
    using assms(2) by (simp add: bit.conj_disj_distrib2 encode_bits_def and.assoc)
  then show ?thesis
    unfolding encode_bits_def fields
    by (simp only:) (rule bit_word_eqI, auto simp: bit_simps dest: hi)
qed

text \<open>The size a peer reads out of the two places it is written to.\<close>

definition wire_size :: "ba_caps \<Rightarrow> u16 \<Rightarrow> bool" where
  "wire_size c agg \<longleftrightarrow> unat agg < (if has_he c \<and> has_eht c then 8192 else 1024)"

lemma retrieve_size:
  assumes "wire_size c agg" "\<And>d. parse [159, 1, d] = Some d"
  shows "snd (ieee80211_retrieve_addba_ext_data parse c (if has_he c then ieee80211_add_addbaext ext agg else []) (agg AND mask 10)) = agg"
proof -
  define d where "d = (if ext \<noteq> 0 then 1 AND ext else 1 :: u8)"
  have d: "d AND 0xE0 = 0" unfolding d_def fields by (auto intro!: bit_word_eqI simp: bit_simps)
  have agg: "agg AND mask 10 = agg" if "unat agg < 1024"
  proof (rule bit_word_eqI)
    fix i
    have "i < 10" if "bit agg i" using high_bits [of agg 10 i] \<open>unat agg < 1024\<close> that by fastforce
    then show "bit (agg AND mask 10) i = bit agg i" by (auto simp: bit_simps)
  qed
  have eq: "ieee80211_add_addbaext ext agg = [159, 1, d OR encode_bits (ucast (drop_bit 10 agg)) 5 0xE0]"
    by (simp add: ieee80211_add_addbaext_def d_def Let_def)
  show ?thesis
    using assms addba_size [OF _ d, of agg] agg unfolding ieee80211_retrieve_addba_ext_data_def wire_size_def eq
    by (cases "has_he c"; cases "has_eht c") simp_all
qed

text \<open>Three fields of two bytes after the token.\<close>

lemma token_fields:
  "get_le16 (token # put_le16 x @ rest) 1 = x"
  "get_le16 (token # put_le16 x @ put_le16 y @ rest) 3 = y"
  "get_le16 (token # put_le16 x @ put_le16 y @ put_le16 z @ rest) 5 = z"
  "drop 7 (token # put_le16 x @ put_le16 y @ put_le16 z @ rest) = rest"
  by (simp_all add: get_le16_def put_le16_def le16_put_le16)

text \<open>What \<open>ieee80211_send_addba_request\<close> puts on the wire, \<open>ieee80211_process_addba_request\<close> reads
  back: token, timeout, starting sequence number, TID and the window size, whose three upper bits go
  through the ADDBA extension element (for the element parser assumed to return that element's data byte).\<close>

lemma addba_request_roundtrip:
  assumes "wire_size c agg" "unat tid < 16" "unat sn < 4096"
    and "\<And>d. parse [159, 1, d] = Some d" "has_he c' = has_he c" "has_eht c' = has_eht c"
  shows "\<exists>ext. parse_addba_request parse c' (ieee80211_send_addba_request c tid token sn agg timeout)
     = \<lparr>r_token = token, r_timeout = timeout, r_ssn = sn, r_policy = 1, r_tid = tid, r_buf_size = agg, r_ext = ext\<rparr>"
proof -
  define capab where "capab = 0x0001 OR 0x0002 OR encode_bits tid 2 0x003C OR encode_bits agg 6 0xFFC0"
  define ext where "ext = (if has_he c then ieee80211_add_addbaext 0 agg else [])"
  have body: "ieee80211_send_addba_request c tid token sn agg timeout
      = token # put_le16 capab @ put_le16 timeout @ put_le16 (push_bit 4 sn) @ ext"
    by (simp add: ieee80211_send_addba_request_def capab_def ext_def Let_def)
  have "snd (ieee80211_retrieve_addba_ext_data parse c' ext (agg AND mask 10)) = agg"
    unfolding ext_def assms(5) [symmetric] using assms(1,4-6) by (intro retrieve_size) (simp_all add: wire_size_def)
  moreover have "drop_bit 1 (capab AND 0x0002) = 1" "drop_bit 2 (capab AND 0x003C) = tid"
      "drop_bit 6 (capab AND 0xFFC0) = agg AND mask 10"
    unfolding capab_def by (rule addba_capab [OF assms(2)])+
  ultimately show ?thesis
    unfolding body parse_addba_request_def Let_def token_fields
    by (simp only: shift4 [OF assms(3)] prod.case_eq_if nth_Cons_0) blast
qed

lemma addba_resp_capab:
  fixes tid agg policy :: u16 and amsdu :: bool
  assumes "unat tid < 16"
  defines "capab \<equiv> encode_bits (if amsdu then 1 else 0) 0 0x0001 OR encode_bits policy 1 0x0002 OR encode_bits tid 2 0x003C OR encode_bits agg 6 0xFFC0"
  shows "(capab AND 1 \<noteq> 0) = amsdu" "drop_bit 2 (capab AND 0x003C) = tid" "drop_bit 6 (capab AND 0xFFC0) = agg AND mask 10"
proof -
  have tid: "i < 4" if "bit tid i" for i using high_bits [of tid 4 i] assms(1) that by fastforce
  have "capab AND 1 = (if amsdu then 1 else 0)"
    unfolding capab_def encode_bits_def fields
    by (rule bit_word_eqI) (auto simp: bit_simps)
  then show "(capab AND 1 \<noteq> 0) = amsdu" by simp
  show "drop_bit 2 (capab AND 0x003C) = tid"
    unfolding capab_def encode_bits_def fields
    by (rule bit_word_eqI) (auto simp: bit_simps dest: tid)
  show "drop_bit 6 (capab AND 0xFFC0) = agg AND mask 10"
    unfolding capab_def encode_bits_def fields
    by (rule bit_word_eqI) (auto simp: bit_simps)
qed


section \<open>Where the code departs from this\<close>

text \<open>An incomplete A-MSDU: more subframes of it are to come.\<close>

definition amsdu_part :: "u16 \<Rightarrow> skb" where
  "amsdu_part sn = (qos_frame sn)\<lparr>amsdu_more := True\<rparr>"

definition stale_session :: tid_ampdu_rx where
  "stale_session =
     \<lparr>reorder_buf_filtered = 0, reorder_buf = [[amsdu_part 0], [qos_frame 1], [], []],
      reorder_time = [0, 0, 0, 0], session_timer = None, reorder_timer = Some 11, last_rx = 0,
      head_seq_num = 0, stored_mpdu_num = 1, ssn = 0, buf_size = 4, ba_timeout = 0,
      auto_seq = False, removed = False, started = True\<rparr>"

definition summary :: "released option \<Rightarrow> (u16 \<times> u16 list list \<times> u16 list \<times> u16 list) option" where
  "summary r = map_option (\<lambda>(t, out, freed). (head_seq_num t, map (map skb_sn) (reorder_buf t),
     map skb_sn out, map skb_sn freed)) r"

text \<open>The timeout release leaves the incomplete A-MSDU of the head slot behind: the head moves past
  it to 2, but the purging loop starts one slot after the head slot, so the subframe with sequence
  number 0 stays in slot 0, where the MPDU with number 4 belongs.\<close>

theorem timeout_keeps_stale_amsdu:
  "summary (ieee80211_sta_reorder_release stale_session 100) = Some (2, [[0], [], [], []], [1], [])"
  by code_simp

definition filtered_session :: tid_ampdu_rx where
  "filtered_session = stale_session\<lparr>reorder_buf := [[], [], [], [amsdu_part 3]], head_seq_num := 3,
     stored_mpdu_num := 0\<rparr>"

text \<open>The session once the marker is in its bitmap, and once its head slot was released.\<close>

definition marked_session :: tid_ampdu_rx where
  "marked_session = filtered_session\<lparr>reorder_buf_filtered := 8\<rparr>"

definition drained_session :: tid_ampdu_rx where
  "drained_session = filtered_session\<lparr>reorder_buf := [[], [], [], []], head_seq_num := 4,
     stored_mpdu_num := 65535\<rparr>"

lemma marked_session_release:
  "release_while_ready marked_session [] []
     = Some (drained_session, [(amsdu_part 3)\<lparr>deferred_release := True\<rparr>], [])"
  by code_simp

lemma drained_session_timer: "rearm_timer drained_session = None"
proof -
  have "\<not> ieee80211_rx_reorder_ready drained_session i" if "i < slots drained_session" for i
  proof -
    have "i < 4" using that by (simp add: drained_session_def filtered_session_def stale_session_def)
    then consider "i = 0" | "i = 1" | "i = 2" | "i = 3" by linarith
    then show ?thesis
      by cases (simp_all add: ieee80211_rx_reorder_ready_def drained_session_def filtered_session_def
          stale_session_def)
  qed
  then have "timer_slot drained_session (- 1) 0 = None"
    by (intro timer_slot_diverges) (simp_all add: drained_session_def filtered_session_def stale_session_def)
  then show ?thesis
    by (simp add: rearm_timer_def drained_session_def filtered_session_def stale_session_def Let_def c_rem_def)
qed

text \<open>A filter marker on the slot of an incomplete A-MSDU hangs the receive path: releasing the
  slot decrements \<open>stored_mpdu_num\<close> from 0 to 65535, no slot is ready any more, and with the head in
  slot 0 the loop that looks for the next timer slot compares with \<open>(0 - 1) % buf_size\<close>, which is
  negative in C, and never ends.\<close>

theorem filter_marker_hangs: "mark_rx_ba_filtered filtered_session 3 1 1 jiffies = None"
proof -
  have "ieee80211_sta_reorder_release marked_session jiffies = None"
  proof -
    have "ieee80211_rx_reorder_ready marked_session (unat (head_seq_num marked_session) mod slots marked_session)"
      by code_simp
    then show ?thesis
      using marked_session_release drained_session_timer
      by (simp add: ieee80211_sta_reorder_release_def Let_def)
  qed
  moreover have "ieee80211_release_reorder_frames filtered_session 3 = (filtered_session, [], [])"
    by code_simp
  moreover have "mark_filtered 1 3 4 0 = 8" by code_simp
  moreover have "\<not> (2048 :: u16) \<le> 1" by (simp add: word_le_nat_alt)
  ultimately show ?thesis
    by (simp add: mark_rx_ba_filtered_def Let_def marked_session_def filtered_session_def stale_session_def)
qed

definition odd_session :: tid_ampdu_rx where
  "odd_session = stale_session\<lparr>reorder_buf := (replicate 60 [])[15 := [qos_frame 4095]],
     reorder_time := replicate 60 0, head_seq_num := 4090, buf_size := 60\<rparr>"

text \<open>With a window of 60, which a peer may ask for and which does not divide 4096, two numbers of
  one window share a slot: with head 4090 and the frame 4095 buffered, the frame 15 - new, and
  inside the window - is freed as if it were a duplicate.\<close>

theorem window_60_drops_new_frame:
  "ieee80211_sta_manage_reorder_buf odd_session (qos_frame 15) jiffies
     = Some (odd_session, True, [], [qos_frame 15])"
  by code_simp

end
