(* ===== verification/Radiotap.thy ===== *)
theory Radiotap
  imports Prelude
begin

text \<open>
  The radiotap header iterator of net/wireless/radiotap.c. The buffer is the byte list of the whole
  packet, pointers into it are offsets from the header's start, and every read checks the list's
  length: a read outside it is the result \<open>OutOfBounds\<close>, which the code never has to produce.
  \<open>_next_ns_data\<close> is only set when a vendor namespace was seen; before that it is \<open>None\<close>, and using
  it is the result \<open>Uninit\<close>.
\<close>


section \<open>Tables and state\<close>

abbreviation (input) IEEE80211_RADIOTAP_RADIOTAP_NAMESPACE :: nat where "IEEE80211_RADIOTAP_RADIOTAP_NAMESPACE \<equiv> 29"
abbreviation (input) IEEE80211_RADIOTAP_VENDOR_NAMESPACE :: nat where "IEEE80211_RADIOTAP_VENDOR_NAMESPACE \<equiv> 30"
abbreviation (input) IEEE80211_RADIOTAP_EXT :: nat where "IEEE80211_RADIOTAP_EXT \<equiv> 31"

text \<open>The alignment and size of each argument; index 18 has no entry of its own, so C fills it with
  zeros.\<close>

definition rtap_namespace_sizes :: "(nat \<times> nat) list" where
  "rtap_namespace_sizes =
     [(8, 8), (1, 1), (1, 1), (2, 4), (2, 2), (1, 1), (1, 1), (2, 2), (2, 2), (2, 2), (1, 1), (1, 1),
      (1, 1), (1, 1), (2, 2), (2, 2), (1, 1), (1, 1), (0, 0), (1, 3), (4, 8), (2, 12)]"

record radiotap_vendor_ns =
  v_oui :: u32
  v_subns :: u8
  v_align_size :: "(nat \<times> nat) list"

datatype rt_namespace = NsNull | NsRadiotap | NsVendor radiotap_vendor_ns

record radiotap_iterator =
  rt_max_length :: nat
  rt_arg_index :: nat
  rt_bitmap_shifter :: u32
  rt_arg :: nat
  rt_reset_on_ext :: bool
  rt_next_bitmap :: nat
  rt_next_ns_data :: "nat option"
  rt_current_namespace :: rt_namespace
  is_radiotap_ns :: bool
  this_arg :: nat
  this_arg_index :: nat
  this_arg_size :: nat

datatype rt_fault = OutOfBounds | Uninit

datatype rt_result = Hit radiotap_iterator | Enoent | Einval | Fault rt_fault

definition read_le32 :: "u8 list \<Rightarrow> nat \<Rightarrow> u32 option" where
  "read_le32 buf i = (if i + 4 \<le> length buf then Some (get_le32 buf i) else None)"

definition ns_align_size :: "rt_namespace \<Rightarrow> (nat \<times> nat) list" where
  "ns_align_size ns =
     (case ns of NsNull \<Rightarrow> [] | NsRadiotap \<Rightarrow> rtap_namespace_sizes | NsVendor v \<Rightarrow> v_align_size v)"


section \<open>Initialisation\<close>

text \<open>\<open>Some (Some arg)\<close>: the bitmaps end before \<open>arg\<close>; \<open>Some None\<close>: they run past the header;
  \<open>None\<close>: a read outside the buffer.\<close>

function skip_bitmaps :: "u8 list \<Rightarrow> nat \<Rightarrow> nat \<Rightarrow> nat option option" where
  "skip_bitmaps buf mx arg =
     (case read_le32 buf arg of
        None \<Rightarrow> None
      | Some w \<Rightarrow>
          if bit w IEEE80211_RADIOTAP_EXT then
            (if arg + 4 + 4 > mx then Some None else skip_bitmaps buf mx (arg + 4))
          else Some (Some (arg + 4)))"
  by pat_completeness auto
termination by (relation "measure (\<lambda>(buf, mx, arg). mx - arg)") auto

declare skip_bitmaps.simps [simp del]

definition ieee80211_radiotap_iterator_init :: "u8 list \<Rightarrow> nat \<Rightarrow> rt_result" where
  "ieee80211_radiotap_iterator_init buf max_length =
     (if max_length < 8 then Einval
      else if length buf < 8 then Fault OutOfBounds
      else if buf ! 0 \<noteq> 0 then Einval
      else if max_length < unat (get_le16 buf 2) then Einval
      else
        let it = \<lparr>rt_max_length = unat (get_le16 buf 2), rt_arg_index = 0,
                  rt_bitmap_shifter = get_le32 buf 4, rt_arg = 8, rt_reset_on_ext = False,
                  rt_next_bitmap = 8, rt_next_ns_data = None, rt_current_namespace = NsRadiotap,
                  is_radiotap_ns = True, this_arg = 8, this_arg_index = 0, this_arg_size = 0\<rparr>
        in if bit (rt_bitmap_shifter it) IEEE80211_RADIOTAP_EXT then
             (if 8 + 4 > rt_max_length it then Einval
              else case skip_bitmaps buf (rt_max_length it) 8 of
                     None \<Rightarrow> Fault OutOfBounds
                   | Some None \<Rightarrow> Einval
                   | Some (Some arg) \<Rightarrow> Hit (it\<lparr>rt_arg := arg, this_arg := arg\<rparr>))
           else Hit it)"


section \<open>The next argument\<close>

definition find_ns :: "radiotap_vendor_ns list option \<Rightarrow> u32 \<Rightarrow> u8 \<Rightarrow> rt_namespace" where
  "find_ns vns oui subns =
     (case vns of
        None \<Rightarrow> NsNull
      | Some ns \<Rightarrow> (case find (\<lambda>v. v_oui v = oui \<and> v_subns v = subns) ns of
                     None \<Rightarrow> NsNull | Some v \<Rightarrow> NsVendor v))"

text \<open>One turn of the \<open>while (1)\<close> loop either continues with a new iterator or returns.\<close>

datatype rt_turn = Continue radiotap_iterator | Return rt_result

definition next_entry :: "bool \<Rightarrow> radiotap_iterator \<Rightarrow> rt_turn" where
  "next_entry hit it =
     (let it' = it\<lparr>rt_bitmap_shifter := drop_bit 1 (rt_bitmap_shifter it), rt_arg_index := rt_arg_index it + 1\<rparr>
      in if hit then Return (Hit it') else Continue it')"

text \<open>The alignment and size of the argument at \<open>_arg_index\<close>: \<open>Inr\<close> when the loop goes on to place it,
  \<open>Inl\<close> when it returns or skips the rest of the namespace.\<close>

definition rt_align_size :: "radiotap_iterator \<Rightarrow> rt_turn + nat \<times> nat" where
  "rt_align_size it =
     (let i = rt_arg_index it mod 32; ns = rt_current_namespace it
      in if i = IEEE80211_RADIOTAP_RADIOTAP_NAMESPACE \<or> i = IEEE80211_RADIOTAP_EXT then Inr (1, 0)
         else if i = IEEE80211_RADIOTAP_VENDOR_NAMESPACE then Inr (2, 6)
         else
           let known = rt_arg_index it < length (ns_align_size ns);
               (align, sz) = (if known then ns_align_size ns ! rt_arg_index it else (0, 0))
           in if \<not> known \<and> ns = NsRadiotap then Inl (Return Enoent)
              else if align = 0 then
                Inl (case rt_next_ns_data it of
                       None \<Rightarrow> Return (Fault Uninit)
                     | Some d \<Rightarrow> next_entry False (it\<lparr>rt_arg := d, rt_current_namespace := NsNull\<rparr>))
              else Inr (align, sz))"

text \<open>The vendor namespace argument: look the namespace up and note where its data ends.\<close>

definition rt_vendor :: "u8 list \<Rightarrow> radiotap_vendor_ns list option \<Rightarrow> radiotap_iterator \<Rightarrow> nat \<Rightarrow>
    rt_result + radiotap_iterator \<times> nat"
where
  "rt_vendor buf vns it sz =
     (let a = rt_arg it
      in if a + sz > rt_max_length it then Inl Einval
         else if a + 6 > length buf then Inl (Fault OutOfBounds)
         else
           let oui = push_bit 16 (ucast (buf ! a)) OR push_bit 8 (ucast (buf ! (a + 1))) OR ucast (buf ! (a + 2));
               subns = buf ! (a + 3);
               ns = find_ns vns oui subns;
               vnslen = unat (get_le16 buf (a + 4))
           in Inr (it\<lparr>rt_current_namespace := ns, rt_next_ns_data := Some (a + sz + vnslen)\<rparr>,
                   if ns = NsNull then sz + vnslen else sz))"

text \<open>The second \<open>switch\<close>, after the argument was found to fit.\<close>

definition rt_dispatch :: "u8 list \<Rightarrow> radiotap_iterator \<Rightarrow> rt_turn" where
  "rt_dispatch buf it =
     (let i = rt_arg_index it mod 32
      in if i = IEEE80211_RADIOTAP_VENDOR_NAMESPACE then
           next_entry (rt_current_namespace it = NsNull)
             (it\<lparr>rt_reset_on_ext := True, is_radiotap_ns := False,
                 this_arg_index := IEEE80211_RADIOTAP_VENDOR_NAMESPACE\<rparr>)
         else if i = IEEE80211_RADIOTAP_RADIOTAP_NAMESPACE then
           next_entry False
             (it\<lparr>rt_reset_on_ext := True, rt_current_namespace := NsRadiotap, is_radiotap_ns := True\<rparr>)
         else if i = IEEE80211_RADIOTAP_EXT then
           (case read_le32 buf (rt_next_bitmap it) of
              None \<Rightarrow> Return (Fault OutOfBounds)
            | Some w \<Rightarrow>
                Continue (it\<lparr>rt_bitmap_shifter := w, rt_next_bitmap := rt_next_bitmap it + 4,
                             rt_arg_index := (if rt_reset_on_ext it then 0 else rt_arg_index it + 1),
                             rt_reset_on_ext := False\<rparr>))
         else next_entry True it)"

definition rt_turn :: "u8 list \<Rightarrow> radiotap_vendor_ns list option \<Rightarrow> radiotap_iterator \<Rightarrow> rt_turn" where
  "rt_turn buf vns it =
     (let present = bit (rt_bitmap_shifter it) 0; i = rt_arg_index it mod 32
      in if i = IEEE80211_RADIOTAP_EXT \<and> \<not> present then Return Enoent
         else if \<not> present then next_entry False it
         else case rt_align_size it of
           Inl turn \<Rightarrow> turn
         | Inr (align, sz) \<Rightarrow>
             let pad = rt_arg it AND (align - 1);
                 it1 = (if pad \<noteq> 0 then it\<lparr>rt_arg := rt_arg it + (align - pad)\<rparr> else it)
             in case (if i = IEEE80211_RADIOTAP_VENDOR_NAMESPACE then rt_vendor buf vns it1 sz else Inr (it1, sz)) of
                  Inl r \<Rightarrow> Return r
                | Inr (it2, sz2) \<Rightarrow>
                    let it3 = it2\<lparr>this_arg_index := rt_arg_index it2, this_arg := rt_arg it2,
                                  this_arg_size := sz2, rt_arg := rt_arg it2 + sz2\<rparr>
                    in if rt_arg it3 > rt_max_length it3 then Return Einval else rt_dispatch buf it3)"

text \<open>What is left to scan: bitmap words, and bits of the current one. Every turn that does not end
  the walk makes it smaller.\<close>

definition rt_left :: "u8 list \<Rightarrow> radiotap_iterator \<Rightarrow> nat" where
  "rt_left buf it = 32 * (length buf + 4 - rt_next_bitmap it) + (31 - rt_arg_index it mod 32)"

lemma mod32_step: "(i::nat) mod 32 \<noteq> 31 \<Longrightarrow> Suc i mod 32 = Suc (i mod 32)"
  by (simp add: mod_Suc)

lemma next_entry_left:
  assumes "rt_arg_index it mod 32 \<noteq> IEEE80211_RADIOTAP_EXT"
    "next_entry hit it = Continue it' \<or> next_entry hit it = Return (Hit it')"
  shows "rt_left buf it' < rt_left buf it"
proof -
  have "it' = it\<lparr>rt_bitmap_shifter := drop_bit 1 (rt_bitmap_shifter it), rt_arg_index := rt_arg_index it + 1\<rparr>"
    using assms(2) by (auto simp: next_entry_def Let_def split: if_splits)
  moreover have "rt_arg_index it mod 32 < 31"
    using assms(1) mod_less_divisor [of 32 "rt_arg_index it"] by linarith
  ultimately show ?thesis using mod32_step [OF assms(1)] by (simp add: rt_left_def)
qed

lemma rt_dispatch_left:
  assumes "rt_dispatch buf it = Continue it' \<or> rt_dispatch buf it = Return (Hit it')"
  shows "rt_left buf it' < rt_left buf it"
proof (cases "rt_arg_index it mod 32 = IEEE80211_RADIOTAP_EXT")
  case True
  then obtain w where w: "read_le32 buf (rt_next_bitmap it) = Some w"
    and it': "it' = it\<lparr>rt_bitmap_shifter := w, rt_next_bitmap := rt_next_bitmap it + 4,
         rt_arg_index := (if rt_reset_on_ext it then 0 else rt_arg_index it + 1), rt_reset_on_ext := False\<rparr>"
    using assms by (auto simp: rt_dispatch_def Let_def split: option.splits)
  have "rt_next_bitmap it + 4 \<le> length buf"
    using w by (auto simp: read_le32_def split: if_splits)
  moreover have "31 - rt_arg_index it' mod 32 \<le> 31" by simp
  ultimately show ?thesis using True unfolding rt_left_def it' by simp
next
  case False
  have "\<exists>hit it1. rt_dispatch buf it = next_entry hit it1 \<and> rt_arg_index it1 = rt_arg_index it \<and>
      rt_next_bitmap it1 = rt_next_bitmap it"
    using False unfolding rt_dispatch_def Let_def
    by (cases "rt_arg_index it mod 32 = IEEE80211_RADIOTAP_VENDOR_NAMESPACE";
        cases "rt_arg_index it mod 32 = IEEE80211_RADIOTAP_RADIOTAP_NAMESPACE")
      (simp, force, force, force)
  then obtain hit it1 where e: "rt_dispatch buf it = next_entry hit it1" "rt_arg_index it1 = rt_arg_index it"
      "rt_next_bitmap it1 = rt_next_bitmap it" by blast
  then have "rt_left buf it' < rt_left buf it1"
    using next_entry_left [of it1 hit it' buf] assms False by simp
  then show ?thesis using e by (simp add: rt_left_def)
qed

lemma rt_align_size_left:
  assumes "rt_align_size it = Inl (Continue it') \<or> rt_align_size it = Inl (Return (Hit it'))"
  shows "rt_left buf it' < rt_left buf it"
proof -
  obtain d where d: "rt_arg_index it mod 32 \<noteq> IEEE80211_RADIOTAP_EXT"
    "next_entry False (it\<lparr>rt_arg := d, rt_current_namespace := NsNull\<rparr>) = Continue it' \<or>
     next_entry False (it\<lparr>rt_arg := d, rt_current_namespace := NsNull\<rparr>) = Return (Hit it')"
    using assms by (auto simp: rt_align_size_def Let_def split: if_splits option.splits prod.splits)
  then have "rt_left buf it' < rt_left buf (it\<lparr>rt_arg := d, rt_current_namespace := NsNull\<rparr>)"
    by (intro next_entry_left) simp_all
  then show ?thesis by (simp add: rt_left_def)
qed

lemma rt_vendor_same:
  "rt_vendor buf vns it sz = Inr (it', sz') \<Longrightarrow>
     rt_arg_index it' = rt_arg_index it \<and> rt_next_bitmap it' = rt_next_bitmap it"
  by (auto simp: rt_vendor_def Let_def split: if_splits)

lemma rt_vendor_no_hit: "rt_vendor buf vns it sz \<noteq> Inl (Hit it')"
  by (auto simp: rt_vendor_def Let_def)

lemma rt_turn_left:
  assumes "rt_turn buf vns it = Continue it' \<or> rt_turn buf vns it = Return (Hit it')"
  shows "rt_left buf it' < rt_left buf it"
proof -
  consider (skip) "rt_arg_index it mod 32 \<noteq> IEEE80211_RADIOTAP_EXT"
        "next_entry False it = Continue it' \<or> next_entry False it = Return (Hit it')"
    | (align) "rt_align_size it = Inl (Continue it') \<or> rt_align_size it = Inl (Return (Hit it'))"
    | (go) it3 where "rt_arg_index it3 = rt_arg_index it" "rt_next_bitmap it3 = rt_next_bitmap it"
        "rt_dispatch buf it3 = Continue it' \<or> rt_dispatch buf it3 = Return (Hit it')"
    using assms rt_vendor_no_hit
    by (fastforce simp: rt_turn_def Let_def split: if_splits sum.splits prod.splits dest: rt_vendor_same)
  then show ?thesis
  proof cases
    case skip
    then show ?thesis by (intro next_entry_left) simp_all
  next
    case align
    then show ?thesis by (rule rt_align_size_left)
  next
    case go
    then show ?thesis using rt_dispatch_left [of buf it3 it'] by (simp add: rt_left_def)
  qed
qed

function ieee80211_radiotap_iterator_next ::
  "u8 list \<Rightarrow> radiotap_vendor_ns list option \<Rightarrow> radiotap_iterator \<Rightarrow> rt_result"
where
  "ieee80211_radiotap_iterator_next buf vns it =
     (case rt_turn buf vns it of
        Return r \<Rightarrow> r
      | Continue it' \<Rightarrow> ieee80211_radiotap_iterator_next buf vns it')"
  by pat_completeness auto
termination
  by (relation "measure (\<lambda>(buf, vns, it). rt_left buf it)") (auto intro: rt_turn_left)

declare ieee80211_radiotap_iterator_next.simps [simp del]

lemma iterator_next_left:
  "ieee80211_radiotap_iterator_next buf vns it = Hit it' \<Longrightarrow> rt_left buf it' < rt_left buf it"
proof (induction buf vns it rule: ieee80211_radiotap_iterator_next.induct)
  case (1 buf vns it)
  show ?case
  proof (cases "rt_turn buf vns it")
    case (Continue it1)
    then have "rt_left buf it' < rt_left buf it1" "rt_left buf it1 < rt_left buf it"
      using 1 rt_turn_left by (auto simp: ieee80211_radiotap_iterator_next.simps [of buf vns it])
    then show ?thesis by simp
  next
    case (Return r)
    then show ?thesis
      using 1 rt_turn_left by (auto simp: ieee80211_radiotap_iterator_next.simps [of buf vns it])
  qed
qed

text \<open>The loop of every user: call \<open>next\<close> until it does not return 0. The arguments seen, and the
  result that ended the walk.\<close>

function rt_walk :: "u8 list \<Rightarrow> radiotap_vendor_ns list option \<Rightarrow> radiotap_iterator \<Rightarrow>
    radiotap_iterator list \<times> rt_result"
where
  "rt_walk buf vns it =
     (case ieee80211_radiotap_iterator_next buf vns it of
        Hit it' \<Rightarrow> (case rt_walk buf vns it' of (hits, r) \<Rightarrow> (it' # hits, r))
      | r \<Rightarrow> ([], r))"
  by pat_completeness auto
termination
  by (relation "measure (\<lambda>(buf, vns, it). rt_left buf it)") (auto intro: iterator_next_left)

declare rt_walk.simps [simp del]


section \<open>The iterator stays inside the header\<close>

text \<open>The extension bit of the word being scanned promises a chain of readable bitmap words.\<close>

definition chain_ok :: "u8 list \<Rightarrow> nat \<Rightarrow> nat \<Rightarrow> bool" where
  "chain_ok buf mx off \<longleftrightarrow> off + 4 \<le> mx \<and> (\<exists>e. skip_bitmaps buf mx off = Some (Some e))"

definition rt_inv :: "u8 list \<Rightarrow> radiotap_iterator \<Rightarrow> bool" where
  "rt_inv buf it \<longleftrightarrow>
     rt_max_length it \<le> length buf \<and>
     (bit (rt_bitmap_shifter it) (31 - rt_arg_index it mod 32) \<longrightarrow>
        chain_ok buf (rt_max_length it) (rt_next_bitmap it)) \<and>
     (rt_current_namespace it \<noteq> NsRadiotap \<longrightarrow> rt_next_ns_data it \<noteq> None)"

text \<open>What a returned argument promises: it lies inside the header, and an argument of the radiotap
  namespace has the size of the table and is aligned as the table says.\<close>

definition hit_ok :: "radiotap_iterator \<Rightarrow> bool" where
  "hit_ok it \<longleftrightarrow>
     this_arg it + this_arg_size it \<le> rt_max_length it \<and>
     (rt_current_namespace it = NsRadiotap \<longrightarrow>
        this_arg_index it < length rtap_namespace_sizes \<and>
        this_arg_size it = snd (rtap_namespace_sizes ! this_arg_index it) \<and>
        this_arg it mod fst (rtap_namespace_sizes ! this_arg_index it) = 0)"

text \<open>No bitmap word from an offset on has bit 18 set.\<close>

function no_xchannel :: "u8 list \<Rightarrow> nat \<Rightarrow> bool" where
  "no_xchannel buf off =
     (case read_le32 buf off of
        None \<Rightarrow> True
      | Some w \<Rightarrow> \<not> bit w 18 \<and> (bit w IEEE80211_RADIOTAP_EXT \<longrightarrow> no_xchannel buf (off + 4)))"
  by pat_completeness auto
termination
  by (relation "measure (\<lambda>(buf, off). length buf - off)") (auto simp: read_le32_def split: if_splits)

declare no_xchannel.simps [simp del]

definition rt_inv18 :: "u8 list \<Rightarrow> radiotap_iterator \<Rightarrow> bool" where
  "rt_inv18 buf it \<longleftrightarrow>
     (rt_arg_index it mod 32 \<le> 18 \<longrightarrow> \<not> bit (rt_bitmap_shifter it) (18 - rt_arg_index it mod 32)) \<and>
     (bit (rt_bitmap_shifter it) (31 - rt_arg_index it mod 32) \<longrightarrow> no_xchannel buf (rt_next_bitmap it))"

lemma chain_ok_read:
  assumes "chain_ok buf mx off"
  shows "\<exists>w. read_le32 buf off = Some w \<and> (bit w IEEE80211_RADIOTAP_EXT \<longrightarrow> chain_ok buf mx (off + 4))"
  using assms skip_bitmaps.simps [of buf mx off]
  by (auto simp: chain_ok_def split: option.splits if_splits)

lemma no_xchannel_read:
  "no_xchannel buf off \<Longrightarrow> read_le32 buf off = Some w \<Longrightarrow>
     \<not> bit w 18 \<and> (bit w IEEE80211_RADIOTAP_EXT \<longrightarrow> no_xchannel buf (off + 4))"
  by (simp add: no_xchannel.simps [of buf off])

lemma shifter_drop:
  assumes "i mod 32 \<noteq> 31"
  shows "bit (drop_bit 1 (w :: u32)) (31 - Suc i mod 32) \<longleftrightarrow> bit w (31 - i mod 32)"
proof -
  have "i mod 32 < 31" using assms mod_less_divisor [of 32 i] by linarith
  then have "1 + (31 - Suc i mod 32) = 31 - i mod 32" using mod32_step [OF assms] by simp
  then show ?thesis by (simp add: bit_drop_bit_eq)
qed

lemma shifter_drop18:
  assumes "i mod 32 \<noteq> 31" "Suc i mod 32 \<le> 18"
  shows "bit (drop_bit 1 (w :: u32)) (18 - Suc i mod 32) \<longleftrightarrow> bit w (18 - i mod 32)"
proof -
  have "1 + (18 - Suc i mod 32) = 18 - i mod 32" using assms mod32_step [OF assms(1)] by simp
  then show ?thesis by (simp add: bit_drop_bit_eq)
qed

text \<open>A turn that moves to the next bit keeps what does not depend on the position.\<close>

lemma next_entry_inv:
  assumes "rt_inv buf it" "rt_arg_index it mod 32 \<noteq> IEEE80211_RADIOTAP_EXT"
    "next_entry hit it = Continue it' \<or> next_entry hit it = Return (Hit it')"
  shows "rt_inv buf it' \<and> (rt_inv18 buf it \<longrightarrow> rt_inv18 buf it') \<and>
     rt_max_length it' = rt_max_length it \<and> (hit_ok it \<longrightarrow> hit_ok it')"
proof -
  have it': "it' = it\<lparr>rt_bitmap_shifter := drop_bit 1 (rt_bitmap_shifter it), rt_arg_index := Suc (rt_arg_index it)\<rparr>"
    using assms(3) by (auto simp: next_entry_def Let_def split: if_splits)
  have "rt_inv buf it'"
    using assms(1) shifter_drop [OF assms(2)] unfolding rt_inv_def it' by simp
  moreover have "rt_inv18 buf it'" if "rt_inv18 buf it"
  proof -
    have "rt_arg_index it mod 32 \<le> 18" if "Suc (rt_arg_index it) mod 32 \<le> 18"
      using that mod32_step [OF assms(2)] by simp
    then show ?thesis
      using that shifter_drop [OF assms(2)] shifter_drop18 [OF assms(2)] unfolding rt_inv18_def it' by simp
  qed
  ultimately show ?thesis by (simp add: it' hit_ok_def)
qed

text \<open>What is asked of every turn.\<close>

definition turn_ok :: "u8 list \<Rightarrow> radiotap_iterator \<Rightarrow> rt_turn \<Rightarrow> bool" where
  "turn_ok buf it turn \<longleftrightarrow>
     (case turn of
        Continue it' \<Rightarrow> rt_inv buf it' \<and> (rt_inv18 buf it \<longrightarrow> rt_inv18 buf it') \<and> rt_max_length it' = rt_max_length it
      | Return (Hit it') \<Rightarrow>
          rt_inv buf it' \<and> (rt_inv18 buf it \<longrightarrow> rt_inv18 buf it') \<and> rt_max_length it' = rt_max_length it \<and> hit_ok it'
      | Return (Fault f) \<Rightarrow> f = Uninit \<and> \<not> rt_inv18 buf it
      | Return _ \<Rightarrow> True)"

lemma next_entry_ok:
  assumes "rt_inv buf it" "rt_arg_index it mod 32 \<noteq> IEEE80211_RADIOTAP_EXT" "hit \<longrightarrow> hit_ok it"
  shows "turn_ok buf it (next_entry hit it)"
proof (cases hit)
  case True
  then obtain it' where "next_entry hit it = Return (Hit it')" by (simp add: next_entry_def Let_def)
  then show ?thesis using next_entry_inv [OF assms(1,2)] assms(3) True by (auto simp: turn_ok_def)
next
  case False
  then obtain it' where "next_entry hit it = Continue it'" by (simp add: next_entry_def Let_def)
  then show ?thesis using next_entry_inv [OF assms(1,2)] by (auto simp: turn_ok_def)
qed

lemma turn_ok_cong:
  "turn_ok buf it1 turn \<Longrightarrow> rt_max_length it1 = rt_max_length it \<Longrightarrow> rt_inv18 buf it1 = rt_inv18 buf it \<Longrightarrow>
   turn_ok buf it turn"
  by (auto simp: turn_ok_def split: rt_turn.splits rt_result.splits)

lemma rt_align_size_ok:
  assumes "rt_inv buf it" "bit (rt_bitmap_shifter it) 0" "rt_align_size it = Inl turn"
  shows "turn_ok buf it turn"
proof -
  let ?i = "rt_arg_index it mod 32" and ?ns = "rt_current_namespace it"
  have i: "?i \<noteq> IEEE80211_RADIOTAP_EXT" using assms(3) by (auto simp: rt_align_size_def Let_def)
  show ?thesis
  proof (cases "turn = Return Enoent")
    case True
    then show ?thesis by (simp add: turn_ok_def)
  next
    case False
    then have unaligned: "rt_arg_index it < length (ns_align_size ?ns) \<longrightarrow> fst (ns_align_size ?ns ! rt_arg_index it) = 0"
        "\<not> rt_arg_index it < length (ns_align_size ?ns) \<longrightarrow> ?ns \<noteq> NsRadiotap"
      and t: "turn = (case rt_next_ns_data it of None \<Rightarrow> Return (Fault Uninit)
          | Some d \<Rightarrow> next_entry False (it\<lparr>rt_arg := d, rt_current_namespace := NsNull\<rparr>))"
      using assms(3) by (auto simp: rt_align_size_def Let_def split: if_splits prod.splits)
    show ?thesis
    proof (cases "rt_next_ns_data it")
      case (Some d)
      let ?it = "it\<lparr>rt_arg := d, rt_current_namespace := NsNull\<rparr>"
      have "rt_inv buf ?it" using assms(1) Some by (simp add: rt_inv_def)
      then have "turn_ok buf ?it (next_entry False ?it)" by (rule next_entry_ok) (use i in simp_all)
      then show ?thesis using Some t by (auto intro: turn_ok_cong simp: rt_inv18_def)
    next
      case None
      then have ns: "?ns = NsRadiotap" using assms(1) by (auto simp: rt_inv_def)
      then have "rt_arg_index it < 22" "fst (rtap_namespace_sizes ! rt_arg_index it) = 0"
        using unaligned by (auto simp: ns_align_size_def rtap_namespace_sizes_def)
      then have "rt_arg_index it = 18" 
        by (auto simp: rtap_namespace_sizes_def nth_Cons numeral_eq_Suc less_Suc_eq split: nat.splits)
      then have "\<not> rt_inv18 buf it" using assms(2) by (simp add: rt_inv18_def)
      then show ?thesis using None t by (simp add: turn_ok_def)
    qed
  qed
qed

text \<open>Padding to an alignment that is a power of two.\<close>

definition pad_to :: "nat \<Rightarrow> nat \<Rightarrow> nat" where
  "pad_to a align = (let pad = a AND (align - 1) in if pad \<noteq> 0 then a + (align - pad) else a)"

lemma pad_to_aligned: "pad_to a (2 ^ n) mod 2 ^ n = 0"
proof -
  have "a AND (2 ^ n - 1) = a mod 2 ^ n" by (rule nat_and_mask_eq_mod)
  moreover have "(a + (2 ^ n - a mod 2 ^ n)) mod 2 ^ n = 0"
  proof -
    have "a mod 2 ^ n < 2 ^ n" by simp
    then have "a + (2 ^ n - a mod 2 ^ n) = 2 ^ n * (a div 2 ^ n) + 2 ^ n"
      using mult_div_mod_eq [of "2 ^ n" a] by linarith
    then show ?thesis by simp
  qed
  ultimately show ?thesis by (simp add: pad_to_def Let_def)
qed

lemma table_align:
  assumes "i < length rtap_namespace_sizes" "fst (rtap_namespace_sizes ! i) \<noteq> 0"
  shows "pad_to a (fst (rtap_namespace_sizes ! i)) mod fst (rtap_namespace_sizes ! i) = 0"
proof -
  have "list_all (\<lambda>p. fst p \<in> {0, 2 ^ 0, 2 ^ 1, 2 ^ 2, 2 ^ 3}) rtap_namespace_sizes"
    by (simp add: rtap_namespace_sizes_def)
  then have "fst (rtap_namespace_sizes ! i) \<in> {0, 2 ^ 0, 2 ^ 1, 2 ^ 2, 2 ^ 3}"
    using assms(1) by (simp only: list_all_length)
  then obtain n where "fst (rtap_namespace_sizes ! i) = 2 ^ n" using assms(2) by blast
  then show ?thesis using pad_to_aligned by simp
qed

lemma rt_dispatch_ok:
  assumes "rt_inv buf it" "bit (rt_bitmap_shifter it) 0"
    and "rt_arg it \<le> rt_max_length it" "this_arg it + this_arg_size it = rt_arg it"
    and "rt_arg_index it mod 32 \<notin> {29, 30, 31} \<Longrightarrow> hit_ok it"
    and "rt_arg_index it mod 32 = IEEE80211_RADIOTAP_VENDOR_NAMESPACE \<Longrightarrow> rt_next_ns_data it \<noteq> None"
  shows "turn_ok buf it (rt_dispatch buf it)"
proof -
  let ?i = "rt_arg_index it mod 32"
  consider (vendor) "?i = 30" | (radiotap) "?i = 29" | (ext) "?i = 31" | (other) "?i \<notin> {29, 30, 31}" by blast
  then show ?thesis
  proof cases
    case vendor
    define it1 where "it1 = it\<lparr>rt_reset_on_ext := True, is_radiotap_ns := False, this_arg_index := 30\<rparr>"
    have "turn_ok buf it1 (next_entry (rt_current_namespace it = NsNull) it1)"
      by (rule next_entry_ok)
        (use assms vendor in \<open>auto simp: it1_def rt_inv_def hit_ok_def\<close>)
    then show ?thesis
      using vendor by (auto intro: turn_ok_cong simp: it1_def rt_dispatch_def rt_inv18_def)
  next
    case radiotap
    define it1 where "it1 = it\<lparr>rt_reset_on_ext := True, rt_current_namespace := NsRadiotap, is_radiotap_ns := True\<rparr>"
    have "turn_ok buf it1 (next_entry False it1)"
      by (rule next_entry_ok) (use assms(1) radiotap in \<open>auto simp: it1_def rt_inv_def\<close>)
    then show ?thesis
      using radiotap by (auto intro: turn_ok_cong simp: it1_def rt_dispatch_def rt_inv18_def)
  next
    case ext
    then have "bit (rt_bitmap_shifter it) (31 - ?i)" using assms(2) by simp
    then have "chain_ok buf (rt_max_length it) (rt_next_bitmap it)" using assms(1) unfolding rt_inv_def by blast
    then obtain w where w: "read_le32 buf (rt_next_bitmap it) = Some w"
        "bit w IEEE80211_RADIOTAP_EXT \<longrightarrow> chain_ok buf (rt_max_length it) (rt_next_bitmap it + 4)"
      using chain_ok_read by blast
    define it1 where "it1 = it\<lparr>rt_bitmap_shifter := w, rt_next_bitmap := rt_next_bitmap it + 4,
        rt_arg_index := (if rt_reset_on_ext it then 0 else rt_arg_index it + 1), rt_reset_on_ext := False\<rparr>"
    have zero: "rt_arg_index it1 mod 32 = 0" using ext by (simp add: it1_def mod_Suc)
    have "rt_inv buf it1"
      unfolding rt_inv_def zero using assms(1) w(2) by (simp add: it1_def rt_inv_def)
    moreover have "rt_inv18 buf it1" if "rt_inv18 buf it"
    proof -
      have "no_xchannel buf (rt_next_bitmap it)" using that ext assms(2) by (simp add: rt_inv18_def)
      then show ?thesis
        using no_xchannel_read [OF _ w(1)] unfolding rt_inv18_def zero by (simp add: it1_def)
    qed
    ultimately show ?thesis using ext w(1) by (simp add: rt_dispatch_def turn_ok_def it1_def)
  next
    case other
    then show ?thesis
      using next_entry_ok [OF assms(1), of True] assms(5) by (simp add: rt_dispatch_def)
  qed
qed

lemma rt_align_size_Inr:
  assumes "rt_align_size it = Inr (align, sz)"
  shows "rt_arg_index it mod 32 \<notin> {29, 30, 31} \<Longrightarrow>
       rt_arg_index it < length (ns_align_size (rt_current_namespace it)) \<and>
       ns_align_size (rt_current_namespace it) ! rt_arg_index it = (align, sz) \<and> align \<noteq> 0"
    and "rt_arg_index it mod 32 = 30 \<Longrightarrow> sz = 6"
  using assms by (auto simp: rt_align_size_def Let_def split: if_splits prod.splits)

lemma rt_turn_ok:
  assumes inv: "rt_inv buf it"
  shows "turn_ok buf it (rt_turn buf vns it)"
proof -
  let ?i = "rt_arg_index it mod 32"
  show ?thesis
  proof (cases "bit (rt_bitmap_shifter it) 0")
    case False
    then show ?thesis
      using next_entry_ok [OF inv, of False]
      by (cases "?i = IEEE80211_RADIOTAP_EXT") (simp_all add: rt_turn_def turn_ok_def)
  next
    case present: True
    show ?thesis
    proof (cases "rt_align_size it")
      case (Inl turn)
      then show ?thesis using rt_align_size_ok [OF inv present Inl] present by (simp add: rt_turn_def)
    next
      case (Inr p)
      obtain align sz where p: "p = (align, sz)" by fastforce
      define it1 where "it1 = it\<lparr>rt_arg := pad_to (rt_arg it) align\<rparr>"
      have pad: "(if rt_arg it AND (align - 1) \<noteq> 0 then it\<lparr>rt_arg := rt_arg it + (align - (rt_arg it AND (align - 1)))\<rparr>
          else it) = it1"
        by (simp add: it1_def pad_to_def Let_def)
      note as = rt_align_size_Inr [OF Inr [unfolded p]]
      define v where "v = (if ?i = IEEE80211_RADIOTAP_VENDOR_NAMESPACE then rt_vendor buf vns it1 sz else Inr (it1, sz))"
      have turn: "rt_turn buf vns it = (case v of Inl r \<Rightarrow> Return r | Inr (it2, sz2) \<Rightarrow>
          let it3 = it2\<lparr>this_arg_index := rt_arg_index it2, this_arg := rt_arg it2,
                this_arg_size := sz2, rt_arg := rt_arg it2 + sz2\<rparr>
          in if rt_arg it3 > rt_max_length it3 then Return Einval else rt_dispatch buf it3)"
        by (simp only: rt_turn_def Let_def Inr p sum.case prod.case pad v_def present simp_thms if_False)
      show ?thesis
      proof (cases v)
        case (Inl r)
        then have "?i = 30" "sz = 6" "rt_vendor buf vns it1 sz = Inl r"
          using as by (auto simp: v_def split: if_splits)
        moreover have "rt_max_length it1 \<le> length buf" using inv by (simp add: it1_def rt_inv_def)
        ultimately have "r = Einval" by (auto simp: rt_vendor_def Let_def split: if_splits)
        then show ?thesis using turn Inl by (simp add: turn_ok_def)
      next
        case (Inr q)
        obtain it2 sz2 where q: "q = (it2, sz2)" by fastforce
        have same: "rt_inv buf it2" "rt_inv18 buf it2 = rt_inv18 buf it" "rt_max_length it2 = rt_max_length it"
            "rt_bitmap_shifter it2 = rt_bitmap_shifter it" "rt_arg_index it2 = rt_arg_index it"
            "?i = 30 \<Longrightarrow> rt_next_ns_data it2 \<noteq> None" "?i \<noteq> 30 \<Longrightarrow> it2 = it1 \<and> sz2 = sz"
          using Inr q inv
          by (auto simp: v_def it1_def rt_vendor_def Let_def rt_inv_def rt_inv18_def split: if_splits)
        define it3 where "it3 = it2\<lparr>this_arg_index := rt_arg_index it2, this_arg := rt_arg it2,
                this_arg_size := sz2, rt_arg := rt_arg it2 + sz2\<rparr>"
        have "turn_ok buf it (rt_dispatch buf it3)" if fits: "rt_arg it3 \<le> rt_max_length it3"
        proof (rule turn_ok_cong [OF rt_dispatch_ok])
          show "rt_inv buf it3" using same(1) by (simp add: it3_def rt_inv_def)
          show "hit_ok it3" if other: "rt_arg_index it3 mod 32 \<notin> {29, 30, 31}"
          proof -
            have i: "?i \<notin> {29, 30, 31}" using other same(5) by (simp add: it3_def)
            then have "it2 = it1" "sz2 = sz" using same(7) by auto
            then show ?thesis
              using fits as(1) [OF i] table_align [of "rt_arg_index it" "rt_arg it"]
              by (auto simp: hit_ok_def it3_def it1_def ns_align_size_def)
          qed
        qed (use same present fits in \<open>auto simp: it3_def rt_inv18_def\<close>)
        moreover have "rt_turn buf vns it
            = (if rt_arg it3 > rt_max_length it3 then Return Einval else rt_dispatch buf it3)"
          unfolding turn Inr q by (simp only: sum.case prod.case Let_def it3_def)
        ultimately show ?thesis
          by (cases "rt_arg it3 > rt_max_length it3") (simp_all add: turn_ok_def [of buf it "Return Einval"])
      qed
    qed
  qed
qed

lemma iterator_next_ok:
  assumes "rt_inv buf it"
  shows "turn_ok buf it (Return (ieee80211_radiotap_iterator_next buf vns it))"
  using assms
proof (induction buf vns it rule: ieee80211_radiotap_iterator_next.induct)
  case (1 buf vns it)
  note ok = rt_turn_ok [OF "1.prems", of vns]
  show ?case
  proof (cases "rt_turn buf vns it")
    case (Return r)
    then show ?thesis using ok by (simp add: ieee80211_radiotap_iterator_next.simps [of buf vns it])
  next
    case (Continue it1)
    then have c: "rt_inv buf it1" "rt_inv18 buf it \<longrightarrow> rt_inv18 buf it1" "rt_max_length it1 = rt_max_length it"
      using ok by (simp_all add: turn_ok_def)
    have "turn_ok buf it1 (Return (ieee80211_radiotap_iterator_next buf vns it1))"
      by (rule "1.IH" [OF Continue c(1)])
    then show ?thesis
      using c Continue
      by (auto simp: ieee80211_radiotap_iterator_next.simps [of buf vns it] turn_ok_def split: rt_result.splits)
  qed
qed

lemma init_inv:
  assumes "ieee80211_radiotap_iterator_init buf mx = Hit it" "mx \<le> length buf"
  shows "rt_inv buf it \<and> (no_xchannel buf 4 \<longrightarrow> rt_inv18 buf it) \<and> rt_max_length it \<le> mx"
proof -
  have len: "8 \<le> mx" "unat (get_le16 buf 2) \<le> mx"
    using assms(1) by (auto simp: ieee80211_radiotap_iterator_init_def Let_def split: if_splits)
  then have w: "read_le32 buf 4 = Some (get_le32 buf 4)" using assms(2) by (simp add: read_le32_def)
  have it: "rt_max_length it = unat (get_le16 buf 2)" "rt_bitmap_shifter it = get_le32 buf 4"
      "rt_arg_index it = 0" "rt_next_bitmap it = 8" "rt_current_namespace it = NsRadiotap"
      "bit (get_le32 buf 4) IEEE80211_RADIOTAP_EXT \<longrightarrow> chain_ok buf (unat (get_le16 buf 2)) 8"
    using assms(1)
    by (auto simp: ieee80211_radiotap_iterator_init_def Let_def chain_ok_def split: if_splits option.splits)
  have "rt_inv buf it" using it len assms(2) by (simp add: rt_inv_def)
  moreover have "rt_inv18 buf it" if "no_xchannel buf 4"
    using no_xchannel_read [OF that w] it by (simp add: rt_inv18_def)
  ultimately show ?thesis using it len by simp
qed

lemma rt_walk_ok:
  assumes "rt_inv buf it" "rt_walk buf vns it = (hits, r)"
  shows "list_all (\<lambda>h. hit_ok h \<and> rt_max_length h = rt_max_length it) hits \<and> r \<noteq> Fault OutOfBounds \<and>
     (rt_inv18 buf it \<longrightarrow> r = Enoent \<or> r = Einval) \<and> (\<forall>it'. r \<noteq> Hit it')"
  using assms
proof (induction buf vns it arbitrary: hits rule: rt_walk.induct)
  case (1 buf vns it)
  note ok = iterator_next_ok [OF "1.prems"(1), of vns]
  show ?case
  proof (cases "ieee80211_radiotap_iterator_next buf vns it")
    case (Hit it1)
    obtain hits1 r1 where w: "rt_walk buf vns it1 = (hits1, r1)" by fastforce
    have "hits = it1 # hits1" "r = r1"
      using "1.prems"(2) Hit w by (simp_all add: rt_walk.simps [of buf vns it])
    then show ?thesis
      using "1.IH" [OF Hit] ok Hit w by (auto simp: turn_ok_def)
  qed (use ok "1.prems"(2) in \<open>auto simp: rt_walk.simps [of buf vns it] turn_ok_def\<close>)
qed


section \<open>Properties\<close>

lemma skip_bitmaps_inside:
  "mx \<le> length buf \<Longrightarrow> arg + 4 \<le> mx \<Longrightarrow> skip_bitmaps buf mx arg \<noteq> None"
proof (induction buf mx arg rule: skip_bitmaps.induct)
  case (1 buf mx arg)
  have "read_le32 buf arg = Some (get_le32 buf arg)" using "1.prems" by (simp add: read_le32_def)
  then show ?case
    using "1.IH" [of "get_le32 buf arg"] "1.prems"
    by (auto simp: skip_bitmaps.simps [of buf mx arg])
qed

lemma init_no_fault: "mx \<le> length buf \<Longrightarrow> ieee80211_radiotap_iterator_init buf mx \<noteq> Fault f"
  using skip_bitmaps_inside [of "unat (get_le16 buf 2)" buf 8]
  by (auto simp: ieee80211_radiotap_iterator_init_def Let_def split: option.splits)

text \<open>A header with TSFT and flags, an extended bitmap word, and the padding before TSFT.\<close>

definition demo_radiotap :: "u8 list" where
  "demo_radiotap = [0, 0, 25, 0, 3, 0, 0, 128, 0, 0, 0, 0, 0, 0, 0, 0, 1, 2, 3, 4, 5, 6, 7, 8, 16, 0xAA, 0xBB]"

text \<open>C9: Walking a radiotap header, whatever its bytes and whatever vendor namespaces are registered:
  every argument returned lies inside the header and, in the radiotap namespace, has the size and
  alignment of the namespace table, and the walk ends with "no more arguments", with "invalid", or -
  only if a bitmap word of the header has the XChannel bit - where the code continues at a pointer
  that was never set (\<open>radiotap_xchannel_uninit\<close>); no read before that lies outside the packet, and
  without the XChannel bit none at all does.\<close>

theorem radiotap_walk_safe:
  assumes "max_length \<le> length buf" "ieee80211_radiotap_iterator_init buf max_length = Hit it"
    and "rt_walk buf vns it = (hits, r)"
  shows "list_all (\<lambda>h. hit_ok h \<and> rt_max_length h \<le> max_length) hits \<and>
     (r = Enoent \<or> r = Einval \<or> r = Fault Uninit \<and> \<not> no_xchannel buf 4)"
proof -
  have inv: "rt_inv buf it" "no_xchannel buf 4 \<longrightarrow> rt_inv18 buf it" "rt_max_length it \<le> max_length"
    using init_inv [OF assms(2,1)] by simp_all
  note ok = rt_walk_ok [OF inv(1) assms(3)]
  have "r = Enoent \<or> r = Einval \<or> r = Fault Uninit \<and> \<not> no_xchannel buf 4"
  proof (cases r)
    case (Fault x)
    then show ?thesis using ok inv(2) by (cases x) auto
  qed (use ok in auto)
  then show ?thesis using ok inv(3) by (auto simp: list_all_iff)
qed

theorem radiotap_walk_safe_witness:
  "\<exists>it hits r. ieee80211_radiotap_iterator_init demo_radiotap 27 = Hit it \<and>
     rt_walk demo_radiotap None it = (hits, r) \<and> length hits = 2 \<and> (r = Enoent \<or> r = Einval) \<and>
     list_all (\<lambda>h. hit_ok h \<and> rt_max_length h \<le> 27) hits"
proof -
  have run: "case ieee80211_radiotap_iterator_init demo_radiotap 27 of
      Hit it \<Rightarrow> length (fst (rt_walk demo_radiotap None it)) = 2 | _ \<Rightarrow> False"
    by code_simp
  then obtain it where it: "ieee80211_radiotap_iterator_init demo_radiotap 27 = Hit it"
    by (auto split: rt_result.splits)
  obtain hits r where w: "rt_walk demo_radiotap None it = (hits, r)" by fastforce
  have "27 \<le> length demo_radiotap" by (simp add: demo_radiotap_def)
  moreover have "no_xchannel demo_radiotap 4" by code_simp
  ultimately show ?thesis using radiotap_walk_safe [OF _ it w] run it w by simp
qed

text \<open>C28: Initialisation never reads outside the packet either, and for a header without the XChannel
  bit the walk always ends with "no more arguments" or "invalid": there is no other outcome.\<close>

theorem radiotap_walk_total:
  assumes "max_length \<le> length buf" "no_xchannel buf 4"
  shows "case ieee80211_radiotap_iterator_init buf max_length of
       Hit it \<Rightarrow> snd (rt_walk buf vns it) = Enoent \<or> snd (rt_walk buf vns it) = Einval
     | r \<Rightarrow> r = Einval"
proof (cases "ieee80211_radiotap_iterator_init buf max_length")
  case (Hit it)
  obtain hits r where w: "rt_walk buf vns it = (hits, r)" by fastforce
  show ?thesis
    using Hit rt_walk_ok [OF _ w] init_inv [OF Hit assms(1)] assms(2) w by simp
next
  case Enoent
  then show ?thesis
    by (auto simp: ieee80211_radiotap_iterator_init_def Let_def split: if_splits option.splits)
qed (use init_no_fault [OF assms(1)] in auto)

theorem radiotap_walk_total_witness:
  "case ieee80211_radiotap_iterator_init demo_radiotap 27 of
       Hit it \<Rightarrow> snd (rt_walk demo_radiotap None it) = Enoent \<or> snd (rt_walk demo_radiotap None it) = Einval
     | r \<Rightarrow> r = Einval"
  by (rule radiotap_walk_total) (simp add: demo_radiotap_def, code_simp)

text \<open>The XChannel bit (18) has no entry in the namespace table, so the iterator takes the branch
  for unknown vendor data and continues at \<open>_next_ns_data\<close>, which was never set.\<close>

theorem radiotap_xchannel_uninit:
  "case ieee80211_radiotap_iterator_init [0, 0, 8, 0, 0, 0, 4, 0] 8 of
     Hit it \<Rightarrow> ieee80211_radiotap_iterator_next [0, 0, 8, 0, 0, 0, 4, 0] None it = Fault Uninit
   | _ \<Rightarrow> False"
  by code_simp

end
