(* ===== verification/MeshPlink.thy ===== *)
theory MeshPlink
  imports SeqNum "HOL-Library.AList"
begin

text \<open>
  Mesh peering management, net/mac80211/mesh_plink.c: the peer link state machine, the event a
  received peering frame causes, the retry, confirm and holding timers, and opening, blocking and
  deactivating a link. The state is the mesh interface with its peers; \<open>estab_plinks\<close> is the atomic
  counter of established links. Calls into other parts (transmitting a peering frame, protection
  modes, power save, path flushing, the beacon update) are logged as \<open>plink_effect\<close>s. Random numbers
  are an argument, the list of values \<open>get_random_bytes\<close> returns.
\<close>


section \<open>State\<close>

datatype plink_state =
  PLINK_LISTEN | PLINK_OPN_SNT | PLINK_OPN_RCVD | PLINK_CNF_RCVD | PLINK_ESTAB | PLINK_HOLDING | PLINK_BLOCKED

datatype plink_event =
  PLINK_UNDEFINED | OPN_ACPT | OPN_RJCT | OPN_IGNR | CNF_ACPT | CNF_RJCT | CNF_IGNR | CLS_ACPT | CLS_IGNR

datatype sp_action = MESH_PEERING_OPEN | MESH_PEERING_CONFIRM | MESH_PEERING_CLOSE | SP_OTHER

type_synonym eth_addr = "u8 list"

record mesh_sta =
  plink_state :: plink_state
  llid :: u16
  plid :: u16
  peer_aid :: u16              \<comment> \<open>\<open>sta->mesh->aid\<close>\<close>
  reason :: u16
  plink_retries :: u8
  plink_timeout :: u32
  plink_timer :: "u64 option"  \<comment> \<open>expiry while the timer is pending\<close>
  authed :: bool               \<comment> \<open>\<open>WLAN_STA_AUTH\<close>\<close>
  aid :: nat                   \<comment> \<open>\<open>sta->sta.aid\<close>\<close>

record mesh_config =
  dot11MeshMaxPeerLinks :: u16
  dot11MeshMaxRetries :: u8
  dot11MeshRetryTimeout :: u16
  dot11MeshConfirmTimeout :: u16
  dot11MeshHoldingTimeout :: u16
  auto_open_plinks :: bool
  user_mpm :: bool
  sec_none :: bool             \<comment> \<open>\<open>security == IEEE80211_MESH_SEC_NONE\<close>\<close>
  sec_authed :: bool           \<comment> \<open>\<open>security & IEEE80211_MESH_SEC_AUTHED\<close>\<close>

record mesh_if =
  stas :: "(eth_addr \<times> mesh_sta) list"
  num_sta :: nat
  estab_plinks :: int
  accepting_plinks :: bool

datatype plink_effect =
    FrameTx eth_addr sp_action u16 u16 u16   \<comment> \<open>to, action, llid, plid, reason\<close>
  | HtProtMode | ShortSlotTime | MpsLocalStatus | MpsStaStatus | MpsStaLocalPm
  | CheckFastRx | FlushPaths | MbssChange

abbreviation (input) MESH_MAX_PLINKS :: nat where "MESH_MAX_PLINKS \<equiv> 256"
abbreviation (input) IEEE80211_MAX_AID :: nat where "IEEE80211_MAX_AID \<equiv> 2007"
abbreviation (input) WLAN_REASON_MESH_PEER_CANCELED :: u16 where "WLAN_REASON_MESH_PEER_CANCELED \<equiv> 52"
abbreviation (input) WLAN_REASON_MESH_CONFIG :: u16 where "WLAN_REASON_MESH_CONFIG \<equiv> 54"
abbreviation (input) WLAN_REASON_MESH_CLOSE :: u16 where "WLAN_REASON_MESH_CLOSE \<equiv> 55"
abbreviation (input) WLAN_REASON_MESH_MAX_RETRIES :: u16 where "WLAN_REASON_MESH_MAX_RETRIES \<equiv> 56"
abbreviation (input) WLAN_REASON_MESH_CONFIRM_TIMEOUT :: u16 where "WLAN_REASON_MESH_CONFIRM_TIMEOUT \<equiv> 57"

text \<open>\<open>msecs_to_jiffies\<close> with \<open>HZ\<close> = 100: negative as an \<open>int\<close> means for ever, otherwise round up.\<close>

definition msecs_to_jiffies :: "u32 \<Rightarrow> u64" where
  "msecs_to_jiffies m = (if sint m < 0 then 0x3FFFFFFFFFFFFFFE else of_nat ((unat m + 9) div 10))"

definition mod_plink_timer :: "u64 \<Rightarrow> mesh_sta \<Rightarrow> u32 \<Rightarrow> mesh_sta" where
  "mod_plink_timer jiffies s t = s\<lparr>plink_timer := Some (jiffies + msecs_to_jiffies t)\<rparr>"

definition mesh_plink_timer_set :: "u64 \<Rightarrow> mesh_sta \<Rightarrow> u32 \<Rightarrow> mesh_sta" where
  "mesh_plink_timer_set jiffies s timeout = mod_plink_timer jiffies (s\<lparr>plink_timeout := timeout\<rparr>) timeout"


section \<open>Counting links\<close>

definition mesh_plink_free_count :: "mesh_config \<Rightarrow> mesh_if \<Rightarrow> int" where
  "mesh_plink_free_count c m = int (unat (dot11MeshMaxPeerLinks c)) - estab_plinks m"

definition mesh_plink_availables :: "mesh_config \<Rightarrow> mesh_if \<Rightarrow> bool" where
  "mesh_plink_availables c m \<longleftrightarrow>
     min (mesh_plink_free_count c m) (int MESH_MAX_PLINKS - int (num_sta m)) > 0"

definition mesh_accept_plinks_update :: "mesh_config \<Rightarrow> mesh_if \<Rightarrow> mesh_if" where
  "mesh_accept_plinks_update c m = m\<lparr>accepting_plinks := mesh_plink_availables c m\<rparr>"

definition mesh_plink_inc_estab_count :: "mesh_config \<Rightarrow> mesh_if \<Rightarrow> mesh_if" where
  "mesh_plink_inc_estab_count c m = mesh_accept_plinks_update c (m\<lparr>estab_plinks := estab_plinks m + 1\<rparr>)"

definition mesh_plink_dec_estab_count :: "mesh_config \<Rightarrow> mesh_if \<Rightarrow> mesh_if" where
  "mesh_plink_dec_estab_count c m = mesh_accept_plinks_update c (m\<lparr>estab_plinks := estab_plinks m - 1\<rparr>)"

definition llid_in_use :: "mesh_if \<Rightarrow> u16 \<Rightarrow> bool" where
  "llid_in_use m l \<longleftrightarrow> list_ex (\<lambda>(a, s). llid s = l) (stas m)"

text \<open>The first random value that is not in use; \<open>None\<close> when the given values run out.\<close>

definition mesh_get_new_llid :: "mesh_if \<Rightarrow> u16 list \<Rightarrow> u16 option" where
  "mesh_get_new_llid m rands = find (\<lambda>l. \<not> llid_in_use m l) rands"


section \<open>The state machine\<close>

definition mesh_plink_fsm_restart :: "mesh_sta \<Rightarrow> mesh_sta" where
  "mesh_plink_fsm_restart s =
     s\<lparr>plink_state := PLINK_LISTEN, llid := 0, plid := 0, reason := 0, plink_retries := 0\<rparr>"

type_synonym plink_result = "mesh_if \<times> mesh_sta \<times> plink_effect list"

definition plink_deactivate :: "mesh_config \<Rightarrow> mesh_if \<Rightarrow> mesh_sta \<Rightarrow> plink_result" where
  "plink_deactivate c m s =
     (if plink_state s = PLINK_ESTAB then mesh_plink_dec_estab_count c m else m,
      s\<lparr>plink_state := PLINK_BLOCKED\<rparr>,
      (if plink_state s = PLINK_ESTAB then [MbssChange] else []) @ [MpsStaStatus, MpsStaLocalPm, CheckFastRx])"

definition mesh_plink_close :: "mesh_config \<Rightarrow> u64 \<Rightarrow> mesh_sta \<Rightarrow> plink_event \<Rightarrow> mesh_sta" where
  "mesh_plink_close c jiffies s event =
     mod_plink_timer jiffies
       (s\<lparr>reason := (if event = CLS_ACPT then WLAN_REASON_MESH_CLOSE else WLAN_REASON_MESH_CONFIG),
          plink_state := PLINK_HOLDING\<rparr>)
       (ucast (dot11MeshHoldingTimeout c))"

definition mesh_plink_establish :: "mesh_config \<Rightarrow> mesh_if \<Rightarrow> mesh_sta \<Rightarrow> plink_result" where
  "mesh_plink_establish c m s =
     (mesh_plink_inc_estab_count c m, s\<lparr>plink_timer := None, plink_state := PLINK_ESTAB\<rparr>,
      [MbssChange, HtProtMode, ShortSlotTime, MpsStaStatus, MpsStaLocalPm, CheckFastRx])"

text \<open>The two nested \<open>switch\<close> statements: the new interface and peer, the effects so far, and the
  frame to send. \<open>None\<close>: no unused link ID among the random values.\<close>

definition plink_fsm_switch ::
  "mesh_config \<Rightarrow> u64 \<Rightarrow> u16 list \<Rightarrow> mesh_if \<Rightarrow> mesh_sta \<Rightarrow> plink_event \<Rightarrow> (plink_result \<times> sp_action option) option"
where
  "plink_fsm_switch c jiffies rands m s event =
     (let stay = Some ((m, s, []), None);
          send = (\<lambda>a. Some ((m, s, []), Some a));
          close = Some ((m, mesh_plink_close c jiffies s event, []), Some MESH_PEERING_CLOSE)
      in case plink_state s of
           PLINK_LISTEN \<Rightarrow>
             (case event of
                CLS_ACPT \<Rightarrow> Some ((m, mesh_plink_fsm_restart s, []), None)
              | OPN_ACPT \<Rightarrow>
                  map_option
                    (\<lambda>l. ((m, mesh_plink_timer_set jiffies (s\<lparr>plink_state := PLINK_OPN_RCVD, llid := l\<rparr>)
                               (ucast (dot11MeshRetryTimeout c)), [MpsLocalStatus]), Some MESH_PEERING_OPEN))
                    (mesh_get_new_llid m rands)
              | _ \<Rightarrow> stay)
         | PLINK_OPN_SNT \<Rightarrow>
             (case event of
                OPN_RJCT \<Rightarrow> close | CNF_RJCT \<Rightarrow> close | CLS_ACPT \<Rightarrow> close
              | OPN_ACPT \<Rightarrow> Some ((m, s\<lparr>plink_state := PLINK_OPN_RCVD\<rparr>, []), Some MESH_PEERING_CONFIRM)
              | CNF_ACPT \<Rightarrow>
                  Some ((m, mod_plink_timer jiffies (s\<lparr>plink_state := PLINK_CNF_RCVD\<rparr>)
                              (ucast (dot11MeshConfirmTimeout c)), []), None)
              | _ \<Rightarrow> stay)
         | PLINK_OPN_RCVD \<Rightarrow>
             (case event of
                OPN_RJCT \<Rightarrow> close | CNF_RJCT \<Rightarrow> close | CLS_ACPT \<Rightarrow> close
              | OPN_ACPT \<Rightarrow> send MESH_PEERING_CONFIRM
              | CNF_ACPT \<Rightarrow>
                  (case mesh_plink_establish c m s of (m', s', eff) \<Rightarrow> Some ((m', s', eff @ [CheckFastRx]), None))
              | _ \<Rightarrow> stay)
         | PLINK_CNF_RCVD \<Rightarrow>
             (case event of
                OPN_RJCT \<Rightarrow> close | CNF_RJCT \<Rightarrow> close | CLS_ACPT \<Rightarrow> close
              | OPN_ACPT \<Rightarrow>
                  (case mesh_plink_establish c m s of
                     (m', s', eff) \<Rightarrow> Some ((m', s', eff @ [CheckFastRx]), Some MESH_PEERING_CONFIRM))
              | _ \<Rightarrow> stay)
         | PLINK_ESTAB \<Rightarrow>
             (case event of
                CLS_ACPT \<Rightarrow>
                  (case plink_deactivate c m s of
                     (m', s', eff) \<Rightarrow>
                       Some ((m', mesh_plink_close c jiffies s' event, eff @ [HtProtMode, ShortSlotTime, FlushPaths]),
                             Some MESH_PEERING_CLOSE))
              | OPN_ACPT \<Rightarrow> send MESH_PEERING_CONFIRM
              | _ \<Rightarrow> stay)
         | PLINK_HOLDING \<Rightarrow>
             (case event of
                CLS_ACPT \<Rightarrow> Some ((m, mesh_plink_fsm_restart (s\<lparr>plink_timer := None\<rparr>), []), None)
              | OPN_ACPT \<Rightarrow> send MESH_PEERING_CLOSE | CNF_ACPT \<Rightarrow> send MESH_PEERING_CLOSE
              | OPN_RJCT \<Rightarrow> send MESH_PEERING_CLOSE | CNF_RJCT \<Rightarrow> send MESH_PEERING_CLOSE
              | _ \<Rightarrow> stay)
         | PLINK_BLOCKED \<Rightarrow> stay)"

definition mesh_plink_fsm ::
  "mesh_config \<Rightarrow> u64 \<Rightarrow> u16 list \<Rightarrow> mesh_if \<Rightarrow> eth_addr \<Rightarrow> mesh_sta \<Rightarrow> plink_event \<Rightarrow> plink_result option"
where
  "mesh_plink_fsm c jiffies rands m addr s event =
     map_option
       (\<lambda>((m', s', eff), action).
          (m', s', eff @
             (case action of
                None \<Rightarrow> []
              | Some a \<Rightarrow>
                  FrameTx addr a (llid s') (plid s') (reason s')
                    # (if a = MESH_PEERING_OPEN
                       then [FrameTx addr MESH_PEERING_CONFIRM (llid s') (plid s') 0] else []))))
       (plink_fsm_switch c jiffies rands m s event)"


section \<open>Timer, open, block, deactivate\<close>

text \<open>
  The timer handler, for a pending timer that has fired. \<open>rand\<close> is the random word; the outcome
  \<open>None\<close> is the division by zero of \<open>rand % plink_timeout\<close>.
\<close>

definition mesh_plink_timer ::
  "mesh_config \<Rightarrow> u64 \<Rightarrow> bool \<Rightarrow> u32 \<Rightarrow> eth_addr \<Rightarrow> mesh_sta \<Rightarrow> (mesh_sta \<times> plink_effect list) option"
where
  "mesh_plink_timer c jiffies quiescing rand addr s =
     (let hold = (\<lambda>why.
            let s' = mod_plink_timer jiffies (s\<lparr>plink_state := PLINK_HOLDING\<rparr>) (ucast (dot11MeshHoldingTimeout c))
            in Some (s', [FrameTx addr MESH_PEERING_CLOSE (llid s') (plid s') why]))
      in if quiescing then Some (s, [])
         else if (case plink_timer s of None \<Rightarrow> False | Some e \<Rightarrow> time_after e jiffies) then Some (s, [])
         else if plink_state s = PLINK_LISTEN \<or> plink_state s = PLINK_ESTAB then Some (s, [])
         else if plink_state s = PLINK_OPN_RCVD \<or> plink_state s = PLINK_OPN_SNT then
           (if plink_retries s < dot11MeshMaxRetries c then
              (if plink_timeout s = 0 then None
               else
                 let t = plink_timeout s + rand mod plink_timeout s;
                     s' = mod_plink_timer jiffies (s\<lparr>plink_timeout := t, plink_retries := plink_retries s + 1\<rparr>) t
                 in Some (s', [FrameTx addr MESH_PEERING_OPEN (llid s') (plid s') 0]))
            else hold WLAN_REASON_MESH_MAX_RETRIES)
         else if plink_state s = PLINK_CNF_RCVD then hold WLAN_REASON_MESH_CONFIRM_TIMEOUT
         else if plink_state s = PLINK_HOLDING then
           Some (mesh_plink_fsm_restart (s\<lparr>plink_timer := None\<rparr>), [])
         else Some (s, []))"

definition mesh_plink_open ::
  "mesh_config \<Rightarrow> u64 \<Rightarrow> u16 list \<Rightarrow> mesh_if \<Rightarrow> eth_addr \<Rightarrow> mesh_sta \<Rightarrow> (mesh_sta \<times> plink_effect list) option"
where
  "mesh_plink_open c jiffies rands m addr s =
     (if \<not> authed s then Some (s, [])
      else
        map_option
          (\<lambda>l. let s1 = s\<lparr>llid := l\<rparr>
               in if plink_state s \<noteq> PLINK_LISTEN \<and> plink_state s \<noteq> PLINK_BLOCKED then (s1, [])
                  else
                    let s2 = mesh_plink_timer_set jiffies (s1\<lparr>plink_state := PLINK_OPN_SNT\<rparr>)
                               (ucast (dot11MeshRetryTimeout c))
                    in (s2, [MpsLocalStatus, FrameTx addr MESH_PEERING_OPEN (llid s2) 0 0]))
          (mesh_get_new_llid m rands))"

definition mesh_plink_block :: "mesh_config \<Rightarrow> mesh_if \<Rightarrow> mesh_sta \<Rightarrow> plink_result" where
  "mesh_plink_block c m s =
     (case plink_deactivate c m s of
        (m', s', eff) \<Rightarrow> (m', s'\<lparr>plink_state := PLINK_BLOCKED\<rparr>, eff @ [FlushPaths]))"

definition mesh_plink_deactivate :: "mesh_config \<Rightarrow> mesh_if \<Rightarrow> eth_addr \<Rightarrow> mesh_sta \<Rightarrow> plink_result" where
  "mesh_plink_deactivate c m addr s =
     (case plink_deactivate c m s of
        (m', s', eff) \<Rightarrow>
          if user_mpm c then (m', s', eff @ [FlushPaths])
          else
            let s'' = s'\<lparr>reason := WLAN_REASON_MESH_PEER_CANCELED\<rparr>
            in (m', s''\<lparr>plink_timer := None\<rparr>,
                eff @ [FrameTx addr MESH_PEERING_CLOSE (llid s'') (plid s'') (reason s''), FlushPaths]))"


section \<open>Peering frames\<close>

text \<open>What the element parser and \<open>mesh_matches_local\<close> find in a frame.\<close>

record plink_elems =
  peering :: "u8 list option"
  has_rsn :: bool
  has_mesh_id :: bool
  has_mesh_config :: bool
  matches :: bool
  accepts_plinks :: bool
  rssi_ok :: bool              \<comment> \<open>\<open>rssi_threshold_check\<close>\<close>

definition mesh_plink_get_event ::
  "mesh_config \<Rightarrow> mesh_if \<Rightarrow> mesh_sta option \<Rightarrow> plink_elems \<Rightarrow> nat \<Rightarrow> sp_action \<Rightarrow> u16 \<Rightarrow> u16 \<Rightarrow> plink_event"
where
  "mesh_plink_get_event c m sta elems ie_len ftype frame_llid frame_plid =
     (let matches_local = (ftype = MESH_PEERING_CLOSE \<or> matches elems);
          no_free = (mesh_plink_free_count c m = 0)
      in case sta of
           None \<Rightarrow>
             if \<not> matches_local then OPN_RJCT
             else if ftype \<noteq> MESH_PEERING_OPEN then PLINK_UNDEFINED
             else if no_free then PLINK_UNDEFINED
             else OPN_ACPT
         | Some s \<Rightarrow>
             if \<not> authed s then PLINK_UNDEFINED
             else if plink_state s = PLINK_BLOCKED then PLINK_UNDEFINED
             else case ftype of
               MESH_PEERING_OPEN \<Rightarrow>
                 if \<not> matches_local then OPN_RJCT
                 else if no_free \<or> plid s \<noteq> 0 \<and> plid s \<noteq> frame_plid then OPN_IGNR
                 else OPN_ACPT
             | MESH_PEERING_CONFIRM \<Rightarrow>
                 if \<not> matches_local then CNF_RJCT
                 else if no_free \<or> llid s \<noteq> frame_llid \<or> plid s \<noteq> 0 \<and> plid s \<noteq> frame_plid then CNF_IGNR
                 else CNF_ACPT
             | MESH_PEERING_CLOSE \<Rightarrow>
                 if plink_state s = PLINK_ESTAB then CLS_ACPT
                 else if plid s \<noteq> frame_plid then CLS_IGNR
                 else if ie_len = 8 \<and> llid s \<noteq> frame_llid then CLS_IGNR
                 else CLS_ACPT
             | SP_OTHER \<Rightarrow> PLINK_UNDEFINED)"

text \<open>Allocating a peer: the smallest free association ID above 0.\<close>

definition mesh_allocate_aid :: "mesh_if \<Rightarrow> nat option" where
  "mesh_allocate_aid m =
     find (\<lambda>a. a \<noteq> 0 \<and> \<not> list_ex (\<lambda>(_, s). aid s = a) (stas m)) [0..<IEEE80211_MAX_AID + 1]"

definition new_mesh_sta :: "nat \<Rightarrow> mesh_sta" where
  "new_mesh_sta a =
     \<lparr>plink_state = PLINK_LISTEN, llid = 0, plid = 0, peer_aid = 0, reason = 0, plink_retries = 0,
      plink_timeout = 0, plink_timer = None, authed = True, aid = a\<rparr>"

definition mesh_sta_info_alloc :: "mesh_config \<Rightarrow> bool \<Rightarrow> mesh_if \<Rightarrow> mesh_sta option" where
  "mesh_sta_info_alloc c alloc m =
     (if user_mpm c \<or> sec_authed c then None
      else if num_sta m \<ge> MESH_MAX_PLINKS then None
      else case mesh_allocate_aid m of
             None \<Rightarrow> None
           | Some a \<Rightarrow> if alloc then Some (new_mesh_sta a) else None)"

definition put_sta :: "mesh_if \<Rightarrow> eth_addr \<Rightarrow> mesh_sta \<Rightarrow> mesh_if" where
  "put_sta m addr s = m\<lparr>stas := AList.update addr s (stas m)\<rparr>"

text \<open>Look the peer up or insert a new one.\<close>

definition mesh_sta_info_get :: "mesh_config \<Rightarrow> bool \<Rightarrow> mesh_if \<Rightarrow> eth_addr \<Rightarrow> (mesh_if \<times> mesh_sta) option" where
  "mesh_sta_info_get c alloc m addr =
     (case map_of (stas m) addr of
        Some s \<Rightarrow> Some (m, s)
      | None \<Rightarrow>
          map_option (\<lambda>s. ((put_sta m addr s)\<lparr>num_sta := num_sta m + 1\<rparr>, s)) (mesh_sta_info_alloc c alloc m))"

definition plink_ie_ok :: "sp_action \<Rightarrow> nat \<Rightarrow> bool" where
  "plink_ie_ok ftype ie_len \<longleftrightarrow>
     \<not> (ftype = MESH_PEERING_OPEN \<and> ie_len \<noteq> 4 \<or>
        ftype = MESH_PEERING_CONFIRM \<and> ie_len \<noteq> 6 \<or>
        ftype = MESH_PEERING_CLOSE \<and> ie_len \<noteq> 6 \<and> ie_len \<noteq> 8)"

definition mesh_process_plink_frame ::
  "mesh_config \<Rightarrow> u64 \<Rightarrow> u16 list \<Rightarrow> bool \<Rightarrow> mesh_if \<Rightarrow> eth_addr \<Rightarrow> sp_action \<Rightarrow> u16 \<Rightarrow> plink_elems \<Rightarrow>
   (mesh_if \<times> plink_effect list) option"
where
  "mesh_process_plink_frame c jiffies rands alloc m sa ftype cnf_aid elems =
     (case peering elems of
        None \<Rightarrow> Some (m, [])
      | Some ie \<Rightarrow>
          if has_rsn elems \<and> sec_none c then Some (m, [])
          else if \<not> plink_ie_ok ftype (length ie) then Some (m, [])
          else if ftype \<noteq> MESH_PEERING_CLOSE \<and> (\<not> has_mesh_id elems \<or> \<not> has_mesh_config elems) then Some (m, [])
          else
            let frame_plid = get_le16 ie 2;
                frame_llid = (if ftype = MESH_PEERING_CONFIRM \<or> ftype = MESH_PEERING_CLOSE \<and> length ie = 8
                              then get_le16 ie 4 else 0);
                sta = map_of (stas m) sa
            in if ftype = MESH_PEERING_OPEN \<and> \<not> rssi_ok elems then Some (m, [])
               else
                 let event = mesh_plink_get_event c m sta elems (length ie) ftype frame_llid frame_plid;
                     run = (\<lambda>m1 s1.
                       map_option (\<lambda>(m2, s2, eff). (put_sta m2 sa s2, eff)) (mesh_plink_fsm c jiffies rands m1 sa s1 event))
                 in if event = OPN_ACPT then
                      (case mesh_sta_info_get c alloc m sa of
                         None \<Rightarrow> Some (m, [])
                       | Some (m1, s) \<Rightarrow> run (put_sta m1 sa (s\<lparr>plid := frame_plid\<rparr>)) (s\<lparr>plid := frame_plid\<rparr>))
                    else case sta of
                      None \<Rightarrow>
                        Some (m, if event = OPN_RJCT
                                 then [FrameTx sa MESH_PEERING_CLOSE 0 frame_plid WLAN_REASON_MESH_CONFIG] else [])
                    | Some s \<Rightarrow>
                        if event = PLINK_UNDEFINED then Some (m, [])
                        else
                          let s1 = (if event = CNF_ACPT
                                    then s\<lparr>plid := (if plid s = 0 then frame_plid else plid s), peer_aid := cnf_aid\<rparr>
                                    else s)
                          in run (put_sta m sa s1) s1)"

text \<open>A beacon or probe response of a mesh neighbour.\<close>

definition mesh_neighbour_update ::
  "mesh_config \<Rightarrow> u64 \<Rightarrow> u16 list \<Rightarrow> bool \<Rightarrow> mesh_if \<Rightarrow> eth_addr \<Rightarrow> plink_elems \<Rightarrow> (mesh_if \<times> plink_effect list) option"
where
  "mesh_neighbour_update c jiffies rands alloc m addr elems =
     (case mesh_sta_info_get c alloc m addr of
        None \<Rightarrow> Some (m, [])
      | Some (m1, s) \<Rightarrow>
          if accepts_plinks elems \<and> plink_state s = PLINK_LISTEN \<and> accepting_plinks m1 \<and>
             auto_open_plinks c \<and> rssi_ok elems
          then map_option (\<lambda>(s', eff). (put_sta m1 addr s', eff)) (mesh_plink_open c jiffies rands m1 addr s)
          else Some (m1, []))"

text \<open>The Mesh Peering Management element of a frame that \<open>mesh_plink_frame_tx\<close> sends (without its two
  bytes of element header): protocol, link IDs and, in a close, the reason.\<close>

definition peering_ie :: "sp_action \<Rightarrow> u16 \<Rightarrow> u16 \<Rightarrow> u16 \<Rightarrow> u8 list" where
  "peering_ie act l p why =
     [0, 0] @ put_le16 l
       @ (if act = MESH_PEERING_CONFIRM \<or> act = MESH_PEERING_CLOSE \<and> p \<noteq> 0 then put_le16 p else [])
       @ (if act = MESH_PEERING_CLOSE then put_le16 why else [])"

end
