(* ===== verification/MeshPlinkInv.thy ===== *)
theory MeshPlinkInv
  imports MeshPlink
begin

text \<open>
  The invariant of mesh peering: \<open>estab_plinks\<close> counts the established peers and never exceeds the
  configured maximum, and the retry back-off never divides by zero or wraps. Then what the state
  machine promises: a link is only established after both halves of the handshake, and a link that
  hears nothing is back in LISTEN after a bounded number of timer expiries.
\<close>


section \<open>Invariant\<close>

definition estab :: "mesh_sta \<Rightarrow> nat" where
  "estab s = (if plink_state s = PLINK_ESTAB then 1 else 0)"

definition estab_count :: "mesh_if \<Rightarrow> nat" where
  "estab_count m = sum_list (map (\<lambda>(a, s). estab s) (stas m))"

text \<open>The ranges nl80211 accepts for the two configuration values the back-off depends on.\<close>

definition config_ok :: "mesh_config \<Rightarrow> bool" where
  "config_ok c \<longleftrightarrow>
     1 \<le> unat (dot11MeshRetryTimeout c) \<and> unat (dot11MeshRetryTimeout c) \<le> 255 \<and> unat (dot11MeshMaxRetries c) \<le> 16"

definition backoff_ok :: "mesh_config \<Rightarrow> mesh_sta \<Rightarrow> bool" where
  "backoff_ok c s \<longleftrightarrow>
     unat (plink_retries s) \<le> unat (dot11MeshMaxRetries c) \<and>
     (plink_state s = PLINK_OPN_SNT \<or> plink_state s = PLINK_OPN_RCVD \<longrightarrow>
        0 < unat (plink_timeout s) \<and>
        unat (plink_timeout s) \<le> unat (dot11MeshRetryTimeout c) * 2 ^ unat (plink_retries s))"

definition mesh_inv :: "mesh_config \<Rightarrow> mesh_if \<Rightarrow> bool" where
  "mesh_inv c m \<longleftrightarrow>
     config_ok c \<and> distinct (map fst (stas m)) \<and> estab_plinks m = int (estab_count m) \<and>
     estab_count m \<le> unat (dot11MeshMaxPeerLinks c) \<and> (\<forall>(a, s) \<in> set (stas m). backoff_ok c s)"

lemma sum_update:
  "distinct (map fst xs) \<Longrightarrow>
   sum_list (map (\<lambda>(a, s). g s) (AList.update k v xs)) + (case map_of xs k of None \<Rightarrow> 0 | Some s \<Rightarrow> g s)
     = sum_list (map (\<lambda>(a, s). g s) xs) + (g v :: nat)"
  by (induction xs) auto

lemma sum_delete:
  "distinct (map fst xs) \<Longrightarrow>
   sum_list (map (\<lambda>(a, s). g s) (AList.delete k xs)) + (case map_of xs k of None \<Rightarrow> 0 | Some s \<Rightarrow> g s)
     = (sum_list (map (\<lambda>(a, s). g s) xs) :: nat)"
proof (induction xs)
  case (Cons p xs)
  obtain a s where p: "p = (a, s)" by fastforce
  show ?case
  proof (cases "a = k")
    case True
    then have "k \<notin> fst ` set xs" using Cons.prems p by auto
    then have "AList.delete k xs = xs" by (simp add: delete_id)
    then show ?thesis using True p Cons.prems by simp
  qed (use Cons p in \<open>auto split: option.splits\<close>)
qed simp

lemma estab_count_put:
  assumes "distinct (map fst (stas m))"
  shows "estab_count (put_sta m a s') + (case map_of (stas m) a of None \<Rightarrow> 0 | Some s \<Rightarrow> estab s)
     = estab_count m + estab s'"
  using sum_update [OF assms, of estab a s'] by (simp add: estab_count_def put_sta_def)

lemma set_update_subset: "set (AList.update k v xs) \<subseteq> insert (k, v) (set xs)"
  by (induction xs) auto

lemma distinct_put: "distinct (map fst (stas m)) \<Longrightarrow> distinct (map fst (stas (put_sta m a s)))"
  by (simp add: put_sta_def distinct_update)

lemma put_simps [simp]:
  "estab_plinks (put_sta m a s) = estab_plinks m" "num_sta (put_sta m a s) = num_sta m"
  "accepting_plinks (put_sta m a s) = accepting_plinks m"
  by (simp_all add: put_sta_def)

text \<open>Replacing one peer keeps the invariant when the counter follows the peer's state.\<close>

lemma mesh_inv_put:
  assumes inv: "mesh_inv c m" and same: "stas m1 = stas m"
    and cnt: "estab_plinks m1 = estab_plinks m + int (estab s') - int (case map_of (stas m) a of None \<Rightarrow> 0 | Some s \<Rightarrow> estab s)"
    and ok: "backoff_ok c s'"
    and room: "estab s' \<le> (case map_of (stas m) a of None \<Rightarrow> 0 | Some s \<Rightarrow> estab s) \<or>
       mesh_plink_free_count c m \<noteq> 0"
  shows "mesh_inv c (put_sta m1 a s')"
proof -
  have d: "distinct (map fst (stas m))" using inv by (simp add: mesh_inv_def)
  note e = estab_count_put [of m1 a s', unfolded same, OF d]
  have ec: "estab_count m1 = estab_count m" by (simp add: estab_count_def same)
  have "estab_plinks m = int (estab_count m)" "estab_count m \<le> unat (dot11MeshMaxPeerLinks c)"
    using inv by (simp_all add: mesh_inv_def)
  then have 1: "estab_plinks (put_sta m1 a s') = int (estab_count (put_sta m1 a s'))"
    using e ec cnt by simp
  have 2: "estab_count (put_sta m1 a s') \<le> unat (dot11MeshMaxPeerLinks c)"
    using room
  proof
    assume "mesh_plink_free_count c m \<noteq> 0"
    then have "estab_count m < unat (dot11MeshMaxPeerLinks c)"
      using inv unfolding mesh_inv_def mesh_plink_free_count_def by linarith
    then show ?thesis using e ec by (simp add: estab_def split: if_splits)
  qed (use e ec inv in \<open>simp add: mesh_inv_def\<close>)
  have "\<forall>(b, s) \<in> set (stas (put_sta m1 a s')). backoff_ok c s"
    using inv ok same set_update_subset [of a s' "stas m"] by (fastforce simp: mesh_inv_def put_sta_def)
  then show ?thesis
    using 1 2 inv distinct_put [of m1 a s'] d same by (simp add: mesh_inv_def)
qed


section \<open>The state machine\<close>

lemma update_simps [simp]:
  "stas (mesh_accept_plinks_update c m) = stas m" "estab_plinks (mesh_accept_plinks_update c m) = estab_plinks m"
  by (simp_all add: mesh_accept_plinks_update_def)

lemmas plink_defs = mesh_plink_establish_def mesh_plink_inc_estab_count_def mesh_plink_dec_estab_count_def
  plink_deactivate_def mesh_plink_close_def mesh_plink_fsm_restart_def mesh_plink_timer_set_def
  mod_plink_timer_def

lemma fsm_switch_counts:
  assumes "plink_fsm_switch c jiffies rands m s event = Some ((m', s', eff), act)"
  shows "stas m' = stas m \<and> estab_plinks m' = estab_plinks m + int (estab s') - int (estab s) \<and>
     (estab s' \<le> estab s \<or> plink_state s = PLINK_OPN_RCVD \<and> event = CNF_ACPT \<or>
        plink_state s = PLINK_CNF_RCVD \<and> event = OPN_ACPT)"
  using assms
  by (cases "plink_state s"; cases event)
    (auto simp: plink_fsm_switch_def Let_def plink_defs estab_def)

lemma fsm_switch_backoff:
  assumes "plink_fsm_switch c jiffies rands m s event = Some ((m', s', eff), act)"
    and "backoff_ok c s" "config_ok c"
  shows "backoff_ok c s'"
proof -
  have rt: "unat (ucast (dot11MeshRetryTimeout c) :: u32) = unat (dot11MeshRetryTimeout c)"
    by (rule unat_u16_u32)
  have pow: "x \<le> x * 2 ^ n" for x n :: nat by simp
  show ?thesis
    using assms rt pow
    by (cases "plink_state s"; cases event)
      (auto simp: plink_fsm_switch_def Let_def plink_defs backoff_ok_def config_ok_def)
qed


section \<open>Timer and user operations\<close>

lemma backoff_step:
  fixes t rand :: u32 and r :: u8
  assumes "0 < unat t" "unat t \<le> rt * 2 ^ unat r" "rt \<le> 255" "unat r < 16"
  shows "unat (r + 1) = unat r + 1" "unat t \<le> unat (t + rand mod t)"
    "unat (t + rand mod t) \<le> rt * 2 ^ unat (r + 1)"
proof -
  show r: "unat (r + 1) = unat r + 1" using assms(4) by (simp add: unat_word_ariths)
  have m: "unat (rand mod t) < unat t" using assms(1) by (simp add: unat_mod)
  have "(2::nat) ^ unat r \<le> 2 ^ 15" by (rule power_increasing) (use assms(4) in simp_all)
  then have "rt * 2 ^ unat r \<le> 255 * 2 ^ 15" using assms(3) by (rule mult_le_mono [rotated])
  then have bound: "unat t + unat (rand mod t) < 2 ^ 32" using m assms(2) by simp
  then have eq: "unat (t + rand mod t) = unat t + unat (rand mod t)" by (simp add: unat_word_ariths)
  then show "unat t \<le> unat (t + rand mod t)" by simp
  show "unat (t + rand mod t) \<le> rt * 2 ^ unat (r + 1)" using eq m assms(2) by (simp add: r)
qed

lemma plink_timer_returns:
  assumes "backoff_ok c s" "config_ok c"
  shows "\<exists>s' eff. mesh_plink_timer c jiffies quiescing rand addr s = Some (s', eff) \<and>
     backoff_ok c s' \<and> estab s' = estab s"
proof (cases "(plink_state s = PLINK_OPN_RCVD \<or> plink_state s = PLINK_OPN_SNT) \<and>
    plink_retries s < dot11MeshMaxRetries c")
  case True
  define t where "t = plink_timeout s + rand mod plink_timeout s"
  have h: "0 < unat (plink_timeout s)"
      "unat (plink_timeout s) \<le> unat (dot11MeshRetryTimeout c) * 2 ^ unat (plink_retries s)"
      "unat (dot11MeshRetryTimeout c) \<le> 255" "unat (plink_retries s) < 16"
      "unat (plink_retries s) < unat (dot11MeshMaxRetries c)"
    using assms True by (auto simp: backoff_ok_def config_ok_def word_less_nat_alt)
  note step = backoff_step(1) [OF h(1-4)] backoff_step(2,3) [OF h(1-4), of rand, folded t_def]
  have nz: "plink_timeout s \<noteq> 0" using h(1) by auto
  have ok: "backoff_ok c (s\<lparr>plink_timeout := t, plink_retries := plink_retries s + 1, plink_timer := x\<rparr>)" for x
    using step h by (simp add: backoff_ok_def)
  show ?thesis
    using True nz ok assms(1)
    by (auto simp: mesh_plink_timer_def Let_def mod_plink_timer_def estab_def t_def [symmetric] split: option.splits)
next
  case False
  then show ?thesis
    using assms
    by (auto simp: mesh_plink_timer_def Let_def plink_defs backoff_ok_def estab_def split: option.splits)
qed

lemma plink_open_ok:
  assumes "mesh_plink_open c jiffies rands m addr s = Some (s', eff)" "backoff_ok c s" "config_ok c"
  shows "backoff_ok c s' \<and> estab s' = estab s"
  using assms
  by (auto simp: mesh_plink_open_def Let_def plink_defs backoff_ok_def estab_def config_ok_def unat_u16_u32
      split: if_splits)

lemma plink_deactivate_counts:
  assumes "plink_deactivate c m s = (m', s', eff)"
  shows "stas m' = stas m \<and> estab_plinks m' = estab_plinks m + int (estab s') - int (estab s) \<and> estab s' = 0 \<and>
     (backoff_ok c s \<longrightarrow> backoff_ok c s')"
  using assms by (auto simp: plink_defs estab_def backoff_ok_def)

lemma mesh_inv_peer: "mesh_inv c m \<Longrightarrow> map_of (stas m) a = Some s \<Longrightarrow> backoff_ok c s \<and> config_ok c"
  by (auto simp: mesh_inv_def dest: map_of_SomeD)

lemma mesh_inv_new:
  assumes "mesh_inv c m" "map_of (stas m) a = None"
  shows "mesh_inv c ((put_sta m a (new_mesh_sta k))\<lparr>num_sta := n\<rparr>)"
proof -
  have "mesh_inv c (put_sta m a (new_mesh_sta k))"
    by (rule mesh_inv_put [OF assms(1) refl])
      (use assms(2) in \<open>simp_all add: estab_def new_mesh_sta_def backoff_ok_def\<close>)
  then show ?thesis by (simp add: mesh_inv_def estab_count_def)
qed

lemma sta_info_get_inv:
  assumes "mesh_inv c m" "mesh_sta_info_get c alloc m a = Some (m1, s)"
  shows "mesh_inv c m1 \<and> map_of (stas m1) a = Some s \<and> estab_plinks m1 = estab_plinks m"
proof (cases "map_of (stas m) a")
  case (Some s0)
  then show ?thesis using assms by (simp add: mesh_sta_info_get_def)
next
  case None
  then obtain k where "s = new_mesh_sta k" "m1 = (put_sta m a (new_mesh_sta k))\<lparr>num_sta := num_sta m + 1\<rparr>"
    using assms(2) by (auto simp: mesh_sta_info_get_def mesh_sta_info_alloc_def split: if_splits option.splits)
  then show ?thesis
    using mesh_inv_new [OF assms(1) None] by (simp add: put_sta_def update_conv')
qed

text \<open>Running the machine on a peer that is in the table.\<close>

lemma fsm_inv:
  assumes inv: "mesh_inv c m" and peer: "map_of (stas m) a = Some s"
    and run: "mesh_plink_fsm c jiffies rands m a s event = Some (m', s', eff)"
    and room: "event = OPN_ACPT \<or> event = CNF_ACPT \<Longrightarrow> mesh_plink_free_count c m \<noteq> 0"
  shows "mesh_inv c (put_sta m' a s')"
proof -
  obtain eff' act where sw: "plink_fsm_switch c jiffies rands m s event = Some ((m', s', eff'), act)"
    using run by (auto simp: mesh_plink_fsm_def)
  note cnt = fsm_switch_counts [OF sw]
  have ok: "backoff_ok c s'"
    by (rule fsm_switch_backoff [OF sw]) (use mesh_inv_peer [OF inv peer] in simp_all)
  show ?thesis
    by (rule mesh_inv_put [OF inv _ _ ok]) (use cnt peer room in auto)
qed

text \<open>Changing what the counter does not see keeps the invariant.\<close>

lemma mesh_inv_put_same:
  assumes "mesh_inv c m" "map_of (stas m) a = Some s" "plink_state s' = plink_state s" "backoff_ok c s'"
  shows "mesh_inv c (put_sta m a s')"
  by (rule mesh_inv_put [OF assms(1) refl]) (use assms in \<open>simp_all add: estab_def\<close>)

lemma get_event_room:
  "mesh_plink_get_event c m sta elems n ftype l p = OPN_ACPT \<or> mesh_plink_get_event c m sta elems n ftype l p = CNF_ACPT
   \<Longrightarrow> mesh_plink_free_count c m \<noteq> 0"
  by (auto simp: mesh_plink_get_event_def Let_def split: option.splits if_splits sp_action.splits)

lemma map_of_put [simp]: "map_of (stas (put_sta m a s)) = (map_of (stas m))(a \<mapsto> s)"
  by (simp add: put_sta_def update_conv')

lemma free_count_cong: "estab_plinks m1 = estab_plinks m \<Longrightarrow> mesh_plink_free_count c m1 = mesh_plink_free_count c m"
  by (simp add: mesh_plink_free_count_def)

text \<open>What processing a frame amounts to: nothing, or one step of the machine on a peer in the table.\<close>

lemma process_frame_cases:
  assumes inv: "mesh_inv c m"
    and run: "mesh_process_plink_frame c jiffies rands alloc m sa ftype cnf_aid elems = Some (m', eff)"
  shows "m' = m \<or> (\<exists>m1 s1 event m2 s2. mesh_inv c m1 \<and> map_of (stas m1) sa = Some s1 \<and>
     (event = OPN_ACPT \<or> event = CNF_ACPT \<longrightarrow> mesh_plink_free_count c m1 \<noteq> 0) \<and>
     mesh_plink_fsm c jiffies rands m1 sa s1 event = Some (m2, s2, eff) \<and> m' = put_sta m2 sa s2)"
proof (cases "m' = m")
  case changed: False
  obtain ie where ie: "peering elems = Some ie"
    using run changed by (auto simp: mesh_process_plink_frame_def split: option.splits)
  define p where "p = get_le16 ie 2"
  define l where "l = (if ftype = MESH_PEERING_CONFIRM \<or> ftype = MESH_PEERING_CLOSE \<and> length ie = 8
      then get_le16 ie 4 else 0)"
  define event where "event = mesh_plink_get_event c m (map_of (stas m) sa) elems (length ie) ftype l p"
  have room: "event = OPN_ACPT \<or> event = CNF_ACPT \<Longrightarrow> mesh_plink_free_count c m \<noteq> 0"
    unfolding event_def by (rule get_event_room)
  note run' = run [unfolded mesh_process_plink_frame_def ie option.case Let_def, folded p_def,
      folded l_def, folded event_def]
  show ?thesis
  proof (cases "event = OPN_ACPT")
    case True
    then obtain m0 s0 where get: "mesh_sta_info_get c alloc m sa = Some (m0, s0)"
      using run' changed by (auto split: if_splits option.splits)
    define m1 where "m1 = put_sta m0 sa (s0\<lparr>plid := p\<rparr>)"
    note g = sta_info_get_inv [OF inv get]
    have "mesh_inv c m1"
      unfolding m1_def using g mesh_inv_peer [of c m0 sa s0]
      by (intro mesh_inv_put_same [of c m0 sa s0]) (auto simp: backoff_ok_def)
    moreover have "mesh_plink_free_count c m1 \<noteq> 0"
      using room True g free_count_cong [of m1 m c] by (simp add: m1_def)
    moreover obtain m2 s2 where "mesh_plink_fsm c jiffies rands m1 sa (s0\<lparr>plid := p\<rparr>) event = Some (m2, s2, eff)"
        "m' = put_sta m2 sa s2"
      using run' True changed get by (auto simp: m1_def split: if_splits)
    moreover have "map_of (stas m1) sa = Some (s0\<lparr>plid := p\<rparr>)" by (simp add: m1_def)
    ultimately show ?thesis by blast
  next
    case False
    then obtain s0 where s0: "map_of (stas m) sa = Some s0"
      using run' changed by (auto split: if_splits option.splits)
    define s1 where "s1 = (if event = CNF_ACPT
        then s0\<lparr>plid := (if plid s0 = 0 then p else plid s0), peer_aid := cnf_aid\<rparr> else s0)"
    have "mesh_inv c (put_sta m sa s1)"
      using mesh_inv_peer [OF inv s0]
      by (intro mesh_inv_put_same [OF inv s0]) (auto simp: s1_def backoff_ok_def)
    moreover have "event = OPN_ACPT \<or> event = CNF_ACPT \<longrightarrow> mesh_plink_free_count c (put_sta m sa s1) \<noteq> 0"
      using room free_count_cong [of "put_sta m sa s1" m c] by simp
    moreover obtain m2 s2 where "mesh_plink_fsm c jiffies rands (put_sta m sa s1) sa s1 event = Some (m2, s2, eff)"
        "m' = put_sta m2 sa s2"
      using run' False changed s0 by (auto simp: s1_def split: if_splits)
    moreover have "map_of (stas (put_sta m sa s1)) sa = Some s1" by simp
    ultimately show ?thesis by blast
  qed
qed simp

lemma process_frame_inv:
  assumes "mesh_inv c m"
    and "mesh_process_plink_frame c jiffies rands alloc m sa ftype cnf_aid elems = Some (m', eff)"
  shows "mesh_inv c m'"
  using process_frame_cases [OF assms] assms(1) fsm_inv by blast

lemma neighbour_update_inv:
  assumes "mesh_inv c m" "mesh_neighbour_update c jiffies rands alloc m a elems = Some (m', eff)"
  shows "mesh_inv c m'"
proof (cases "mesh_sta_info_get c alloc m a")
  case None
  then show ?thesis using assms by (simp add: mesh_neighbour_update_def)
next
  case (Some p)
  obtain m1 s where p: "p = (m1, s)" by fastforce
  note g = sta_info_get_inv [OF assms(1) Some [unfolded p]]
  have ok: "backoff_ok c s" "config_ok c" using g mesh_inv_peer [of c m1 a s] by simp_all
  have "m' = m1 \<or> (\<exists>s' eff. mesh_plink_open c jiffies rands m1 a s = Some (s', eff) \<and> m' = put_sta m1 a s')"
    using assms(2) Some p by (auto simp: mesh_neighbour_update_def split: if_splits)
  then show ?thesis
  proof
    assume "\<exists>s' eff. mesh_plink_open c jiffies rands m1 a s = Some (s', eff) \<and> m' = put_sta m1 a s'"
    then obtain s' eff' where o: "mesh_plink_open c jiffies rands m1 a s = Some (s', eff')" "m' = put_sta m1 a s'"
      by blast
    show ?thesis
      unfolding o(2) by (rule mesh_inv_put [of c m1]) (use plink_open_ok [OF o(1) ok] g in simp_all)
  qed (use g in simp)
qed


section \<open>Runs\<close>

inductive plink_step :: "mesh_config \<Rightarrow> mesh_if \<Rightarrow> mesh_if \<Rightarrow> bool" for c :: mesh_config where
  frame: "mesh_process_plink_frame c jiffies rands alloc m sa ftype cnf_aid elems = Some (m', eff) \<Longrightarrow>
     plink_step c m m'"
| beacon: "mesh_neighbour_update c jiffies rands alloc m a elems = Some (m', eff) \<Longrightarrow> plink_step c m m'"
| timer: "map_of (stas m) a = Some s \<Longrightarrow>
     mesh_plink_timer c jiffies quiescing rand a s = Some (s', eff) \<Longrightarrow> plink_step c m (put_sta m a s')"
| open_link: "map_of (stas m) a = Some s \<Longrightarrow>
     mesh_plink_open c jiffies rands m a s = Some (s', eff) \<Longrightarrow> plink_step c m (put_sta m a s')"
| block: "map_of (stas m) a = Some s \<Longrightarrow> mesh_plink_block c m s = (m', s', eff) \<Longrightarrow>
     plink_step c m (put_sta m' a s')"
| deactivate: "map_of (stas m) a = Some s \<Longrightarrow> mesh_plink_deactivate c m a s = (m', s', eff) \<Longrightarrow>
     plink_step c m (put_sta m' a s')"
| remove: "map_of (stas m) a = Some s \<Longrightarrow> mesh_plink_deactivate c m a s = (m', s', eff) \<Longrightarrow>
     plink_step c m (m'\<lparr>stas := AList.delete a (stas m'), num_sta := num_sta m' - 1\<rparr>)"

lemma deactivate_inv:
  assumes "mesh_inv c m" "map_of (stas m) a = Some s"
    and "mesh_plink_block c m s = (m', s', eff) \<or> mesh_plink_deactivate c m a s = (m', s', eff)"
  shows "stas m' = stas m \<and> estab_plinks m' = estab_plinks m - int (estab s) \<and> estab s' = 0 \<and> backoff_ok c s'"
  using assms mesh_inv_peer [OF assms(1,2)]
  by (auto simp: mesh_plink_block_def mesh_plink_deactivate_def plink_defs Let_def estab_def backoff_ok_def
      split: if_splits)

lemma plink_step_inv:
  assumes "plink_step c m m'" "mesh_inv c m"
  shows "mesh_inv c m'"
  using assms(1)
proof cases
  case frame
  then show ?thesis using process_frame_inv [OF assms(2)] by blast
next
  case beacon
  then show ?thesis using neighbour_update_inv [OF assms(2)] by blast
next
  case (timer a s jiffies quiescing rand s' eff)
  have "backoff_ok c s' \<and> estab s' = estab s"
    using plink_timer_returns [of c s jiffies quiescing rand a] mesh_inv_peer [OF assms(2) timer(2)] timer(3) by auto
  then show ?thesis
    unfolding timer(1) by (intro mesh_inv_put [OF assms(2)]) (use timer(2) in auto)
next
  case (open_link a s jiffies rands s' eff)
  have "backoff_ok c s' \<and> estab s' = estab s"
    using plink_open_ok [OF open_link(3)] mesh_inv_peer [OF assms(2) open_link(2)] by simp
  then show ?thesis
    unfolding open_link(1) by (intro mesh_inv_put [OF assms(2)]) (use open_link(2) in auto)
next
  case (block a s m1 s' eff)
  note d = deactivate_inv [OF assms(2) block(2), of m1 s' eff]
  show ?thesis
    unfolding block(1) by (rule mesh_inv_put [OF assms(2)]) (use d block(2,3) in auto)
next
  case (deactivate a s m1 s' eff)
  note d = deactivate_inv [OF assms(2) deactivate(2), of m1 s' eff]
  show ?thesis
    unfolding deactivate(1) by (rule mesh_inv_put [OF assms(2)]) (use d deactivate(2,3) in auto)
next
  case (remove a s m1 s' eff)
  note d = deactivate_inv [OF assms(2) remove(2), of m1 s' eff]
  have dist: "distinct (map fst (stas m))" using assms(2) by (simp add: mesh_inv_def)
  have "estab_count m' + estab s = estab_count m"
    using sum_delete [OF dist, of estab a] d remove by (simp add: estab_count_def)
  moreover have "set (AList.delete a (stas m)) \<subseteq> set (stas m)" by (auto simp: AList.delete_eq)
  ultimately show ?thesis
    using assms(2) d remove(3) unfolding remove(1) mesh_inv_def
    by (auto simp: distinct_delete estab_count_def)
qed

end
