(* ===== verification/MeshPlinkProps.thy ===== *)
theory MeshPlinkProps
  imports MeshPlinkInv
begin

text \<open>
  The properties of mesh peering: the link counter over all runs, what a run of the state machine
  must have seen before a link is established, the retreat to LISTEN of a silent link, and the
  complete handshake of two peers over the frames they exchange.
\<close>


section \<open>Counting\<close>

definition demo_config :: mesh_config where
  "demo_config =
     \<lparr>dot11MeshMaxPeerLinks = 99, dot11MeshMaxRetries = 3, dot11MeshRetryTimeout = 100,
      dot11MeshConfirmTimeout = 100, dot11MeshHoldingTimeout = 100, auto_open_plinks = True, user_mpm = False,
      sec_none = True, sec_authed = False\<rparr>"

definition demo_peer :: mesh_sta where
  "demo_peer = (new_mesh_sta 1)\<lparr>plink_state := PLINK_ESTAB, llid := 7, plid := 8\<rparr>"

definition demo_mesh :: mesh_if where
  "demo_mesh = \<lparr>stas = [([1], demo_peer)], num_sta = 1, estab_plinks = 1, accepting_plinks = True\<rparr>"





section \<open>The handshake as the machine sees it\<close>

text \<open>The machine of one peer on a sequence of events, each with its time and random values.\<close>

fun fsm_run :: "mesh_config \<Rightarrow> mesh_if \<Rightarrow> eth_addr \<Rightarrow> mesh_sta \<Rightarrow> (u64 \<times> u16 list \<times> plink_event) list \<Rightarrow>
    (mesh_if \<times> mesh_sta) option"
where
  "fsm_run c m a s [] = Some (m, s)"
| "fsm_run c m a s ((jiffies, rands, event) # evs) =
     (case mesh_plink_fsm c jiffies rands m a s event of
        None \<Rightarrow> None
      | Some (m', s', eff) \<Rightarrow> fsm_run c m' a s' evs)"

text \<open>What must have been accepted for the machine to be in a state.\<close>

definition seen_ok :: "plink_event set \<Rightarrow> plink_state \<Rightarrow> bool" where
  "seen_ok E st \<longleftrightarrow>
     (st = PLINK_OPN_RCVD \<longrightarrow> OPN_ACPT \<in> E) \<and> (st = PLINK_CNF_RCVD \<longrightarrow> CNF_ACPT \<in> E) \<and>
     (st = PLINK_ESTAB \<longrightarrow> OPN_ACPT \<in> E \<and> CNF_ACPT \<in> E)"

lemma fsm_seen:
  assumes "mesh_plink_fsm c jiffies rands m a s event = Some (m', s', eff)" "seen_ok E (plink_state s)"
  shows "seen_ok (insert event E) (plink_state s')"
proof -
  obtain eff' act where "plink_fsm_switch c jiffies rands m s event = Some ((m', s', eff'), act)"
    using assms(1) by (auto simp: mesh_plink_fsm_def)
  then show ?thesis
    using assms(2)
    by (cases "plink_state s"; cases event)
      (auto simp: plink_fsm_switch_def Let_def plink_defs seen_ok_def)
qed

lemma fsm_run_seen:
  assumes "fsm_run c m a s evs = Some (m', s')" "seen_ok E (plink_state s)"
  shows "seen_ok (E \<union> set (map (snd \<circ> snd) evs)) (plink_state s')"
  using assms
proof (induction c m a s evs arbitrary: E rule: fsm_run.induct)
  case (2 c m a s jiffies rands event evs)
  then obtain m1 s1 eff where st: "mesh_plink_fsm c jiffies rands m a s event = Some (m1, s1, eff)"
      and rest: "fsm_run c m1 a s1 evs = Some (m', s')"
    by (auto split: option.splits)
  have "seen_ok (insert event E) (plink_state s1)" by (rule fsm_seen [OF st "2.prems"(2)])
  from "2.IH" [OF st _ _ rest this] show ?case by simp
qed auto

text \<open>C29: A link that starts in LISTEN or with our open sent is established only after the machine
  accepted both an open and a confirm from the peer, whatever else happened in between.\<close>

theorem established_after_handshake:
  assumes "fsm_run c m a s evs = Some (m', s')"
    and "plink_state s = PLINK_LISTEN \<or> plink_state s = PLINK_OPN_SNT" "plink_state s' = PLINK_ESTAB"
  shows "OPN_ACPT \<in> set (map (snd \<circ> snd) evs) \<and> CNF_ACPT \<in> set (map (snd \<circ> snd) evs)"
  using fsm_run_seen [OF assms(1), of "{}"] assms(2,3) by (auto simp: seen_ok_def)

theorem established_after_handshake_witness:
  "\<exists>m' s'. fsm_run demo_config demo_mesh [2] (new_mesh_sta 2) [(0, [5], OPN_ACPT), (1, [], CLS_IGNR), (2, [], CNF_ACPT)]
      = Some (m', s') \<and> plink_state s' = PLINK_ESTAB \<and>
     OPN_ACPT \<in> set [OPN_ACPT, CLS_IGNR, CNF_ACPT] \<and> CNF_ACPT \<in> set [OPN_ACPT, CLS_IGNR, CNF_ACPT]"
proof -
  let ?evs = "[(0, [5], OPN_ACPT), (1, [], CLS_IGNR), (2, [], CNF_ACPT)]"
  have "case fsm_run demo_config demo_mesh [2] (new_mesh_sta 2) ?evs of
      None \<Rightarrow> False | Some (m', s') \<Rightarrow> plink_state s' = PLINK_ESTAB"
    by code_simp
  then obtain m' s' where r: "fsm_run demo_config demo_mesh [2] (new_mesh_sta 2) ?evs = Some (m', s')"
      "plink_state s' = PLINK_ESTAB"
    by (auto split: option.splits)
  have "plink_state (new_mesh_sta 2) = PLINK_LISTEN" by (simp add: new_mesh_sta_def)
  then show ?thesis using established_after_handshake [OF r(1) _ r(2)] r by simp
qed


section \<open>A silent link\<close>

text \<open>The timer fires at its expiry, again and again, with nothing received in between.\<close>

definition fire :: "mesh_config \<Rightarrow> eth_addr \<Rightarrow> mesh_sta \<Rightarrow> u32 \<Rightarrow> (mesh_sta \<times> plink_effect list) option" where
  "fire c a s rand = mesh_plink_timer c (case plink_timer s of None \<Rightarrow> 0 | Some e \<Rightarrow> e) False rand a s"

fun expire :: "mesh_config \<Rightarrow> eth_addr \<Rightarrow> mesh_sta \<Rightarrow> u32 list \<Rightarrow> (mesh_sta \<times> plink_effect list) option" where
  "expire c a s [] = Some (s, [])"
| "expire c a s (r # rs) =
     (case fire c a s r of
        None \<Rightarrow> None
      | Some (s', eff) \<Rightarrow> map_option (\<lambda>(s'', eff'). (s'', eff @ eff')) (expire c a s' rs))"

definition opens :: "plink_effect list \<Rightarrow> nat" where
  "opens eff = length (filter (\<lambda>e. case e of FrameTx _ MESH_PEERING_OPEN _ _ _ \<Rightarrow> True | _ \<Rightarrow> False) eff)"

lemma not_time_after_self [simp]: "\<not> time_after e e"
  by (simp add: time_after_def signed_before_def)

lemma fire_holding:
  "plink_state s = PLINK_HOLDING \<Longrightarrow> fire c a s r = Some (mesh_plink_fsm_restart (s\<lparr>plink_timer := None\<rparr>), [])"
  by (auto simp: fire_def mesh_plink_timer_def Let_def split: option.splits)

lemma fire_give_up:
  assumes "plink_state s = PLINK_OPN_SNT \<or> plink_state s = PLINK_OPN_RCVD"
    "\<not> plink_retries s < dot11MeshMaxRetries c"
  shows "\<exists>s' l p. fire c a s r = Some (s', [FrameTx a MESH_PEERING_CLOSE l p WLAN_REASON_MESH_MAX_RETRIES]) \<and>
     plink_state s' = PLINK_HOLDING"
  using assms by (auto simp: fire_def mesh_plink_timer_def Let_def mod_plink_timer_def split: option.splits)

lemma fire_retry:
  assumes "plink_state s = PLINK_OPN_SNT \<or> plink_state s = PLINK_OPN_RCVD"
    "plink_retries s < dot11MeshMaxRetries c" "backoff_ok c s" "config_ok c"
  shows "\<exists>s' l p. fire c a s r = Some (s', [FrameTx a MESH_PEERING_OPEN l p 0]) \<and>
     plink_state s' = plink_state s \<and> unat (plink_retries s') = unat (plink_retries s) + 1 \<and> backoff_ok c s'"
proof -
  have lt: "unat (plink_retries s) < unat (dot11MeshMaxRetries c)" "unat (plink_retries s) < 16"
    using assms by (auto simp: word_less_nat_alt config_ok_def)
  have nz: "plink_timeout s \<noteq> 0" using assms by (auto simp: backoff_ok_def)
  have r: "unat (plink_retries s + 1) = unat (plink_retries s) + 1" using lt by (simp add: unat_word_ariths)
  have due: "\<not> (case plink_timer s of None \<Rightarrow> False
      | Some e \<Rightarrow> time_after e (case plink_timer s of None \<Rightarrow> 0 | Some e \<Rightarrow> e))"
    by (simp split: option.splits)
  obtain s' eff where f: "fire c a s r = Some (s', eff)" "backoff_ok c s'"
    using plink_timer_returns [OF assms(3,4)] unfolding fire_def by blast
  then show ?thesis
    using assms(1,2) nz r due by (auto simp: fire_def mesh_plink_timer_def Let_def mod_plink_timer_def)
qed

text \<open>C30: A peer that stays silent after our open (or its own) costs exactly the configured number of
  retries: after the remaining retries and two more expiries the link is back in LISTEN with its IDs
  cleared, and one open per retry was sent. No expiry on the way divides by zero.\<close>

theorem silent_link_gives_up:
  assumes "config_ok c" "backoff_ok c s" "plink_state s = PLINK_OPN_SNT \<or> plink_state s = PLINK_OPN_RCVD"
    and "length rands = unat (dot11MeshMaxRetries c) - unat (plink_retries s) + 2"
  shows "\<exists>s' eff. expire c a s rands = Some (s', eff) \<and> plink_state s' = PLINK_LISTEN \<and> llid s' = 0 \<and> plid s' = 0 \<and>
     opens eff = unat (dot11MeshMaxRetries c) - unat (plink_retries s)"
  using assms
proof (induction "unat (dot11MeshMaxRetries c) - unat (plink_retries s)" arbitrary: s rands)
  case 0
  then obtain r1 r2 where rs: "rands = [r1, r2]"
    by (auto simp: length_Suc_conv numeral_2_eq_2)
  have "\<not> plink_retries s < dot11MeshMaxRetries c" using 0 by (simp add: word_less_nat_alt)
  then obtain s1 l p where f: "fire c a s r1 = Some (s1, [FrameTx a MESH_PEERING_CLOSE l p WLAN_REASON_MESH_MAX_RETRIES])"
      "plink_state s1 = PLINK_HOLDING"
    using fire_give_up [OF "0.prems"(3)] by blast
  show ?case
    using f fire_holding [OF f(2)] 0 by (simp add: rs mesh_plink_fsm_restart_def opens_def)
next
  case (Suc n)
  obtain r1 rs where rs: "rands = r1 # rs" using Suc.prems(4) by (cases rands) auto
  have "plink_retries s < dot11MeshMaxRetries c" using Suc.hyps(2) by (simp add: word_less_nat_alt)
  then obtain s1 l p where f: "fire c a s r1 = Some (s1, [FrameTx a MESH_PEERING_OPEN l p 0])"
      "plink_state s1 = plink_state s" "unat (plink_retries s1) = unat (plink_retries s) + 1" "backoff_ok c s1"
    using fire_retry [OF Suc.prems(3) _ Suc.prems(2,1)] by blast
  have n: "n = unat (dot11MeshMaxRetries c) - unat (plink_retries s1)" using Suc.hyps(2) f(3) by simp
  have "length rs = unat (dot11MeshMaxRetries c) - unat (plink_retries s1) + 2"
    using Suc.prems(4) Suc.hyps(2) n rs by simp
  then obtain s' eff where "expire c a s1 rs = Some (s', eff)" "plink_state s' = PLINK_LISTEN" "llid s' = 0"
      "plid s' = 0" "opens eff = n"
    using Suc.hyps(1) [OF n Suc.prems(1) f(4)] Suc.prems(3) f(2) n by metis
  then show ?case using f(1) rs Suc.hyps(2) by (simp add: opens_def)
qed

theorem silent_link_gives_up_witness:
  "\<exists>s' eff. expire demo_config [1] (demo_peer\<lparr>plink_state := PLINK_OPN_SNT, plink_timeout := 100\<rparr>) [9, 9, 9, 9, 9] = Some (s', eff) \<and>
     plink_state s' = PLINK_LISTEN \<and> llid s' = 0 \<and> plid s' = 0 \<and> opens eff = 3"
  using silent_link_gives_up [of demo_config "demo_peer\<lparr>plink_state := PLINK_OPN_SNT, plink_timeout := 100\<rparr>" "[9, 9, 9, 9, 9]" "[1]"]
  by (simp add: demo_config_def config_ok_def demo_peer_def backoff_ok_def new_mesh_sta_def)


section \<open>Two peers\<close>

text \<open>
  Delivering what one side sent to the other: the peering element travels as bytes, and the rest of
  the frame is that of a matching mesh without security.
\<close>

definition good_elems :: "u8 list \<Rightarrow> plink_elems" where
  "good_elems ie = \<lparr>peering = Some ie, has_rsn = False, has_mesh_id = True, has_mesh_config = True,
     matches = True, accepts_plinks = True, rssi_ok = True\<rparr>"

fun deliver :: "mesh_config \<Rightarrow> u64 \<Rightarrow> u16 list \<Rightarrow> eth_addr \<Rightarrow> mesh_if \<Rightarrow> plink_effect list \<Rightarrow>
    (mesh_if \<times> plink_effect list) option"
where
  "deliver c jiffies rands sa m [] = Some (m, [])"
| "deliver c jiffies rands sa m (FrameTx da act l p why # effs) =
     (case mesh_process_plink_frame c jiffies rands True m sa act 0 (good_elems (peering_ie act l p why)) of
        None \<Rightarrow> None
      | Some (m', eff) \<Rightarrow> map_option (\<lambda>(m'', eff'). (m'', eff @ eff')) (deliver c jiffies rands sa m' effs))"
| "deliver c jiffies rands sa m (_ # effs) = deliver c jiffies rands sa m effs"

text \<open>A opens the link to B, which does not know A yet; every frame is delivered in turn.\<close>

definition handshake :: "mesh_config \<Rightarrow> eth_addr \<Rightarrow> eth_addr \<Rightarrow> u16 \<Rightarrow> u16 \<Rightarrow> (mesh_if \<times> mesh_if) option" where
  "handshake c a b la lb =
     (let mA = \<lparr>stas = [(b, new_mesh_sta 1)], num_sta = 1, estab_plinks = 0, accepting_plinks = True\<rparr>;
          mB = \<lparr>stas = [], num_sta = 0, estab_plinks = 0, accepting_plinks = True\<rparr>
      in case mesh_plink_open c 0 [la] mA b (new_mesh_sta 1) of
           None \<Rightarrow> None
         | Some (s, eff) \<Rightarrow>
             (case deliver c 1 [lb] a mB eff of
                None \<Rightarrow> None
              | Some (mB1, eff1) \<Rightarrow>
                  (case deliver c 2 [] b (put_sta mA b s) eff1 of
                     None \<Rightarrow> None
                   | Some (mA1, eff2) \<Rightarrow>
                       map_option (\<lambda>(mB2, eff3). (mA1, mB2)) (deliver c 3 [] a mB1 eff2))))"

lemma peering_ie_open: "get_le16 (peering_ie act l p why) 2 = l"
  by (simp add: peering_ie_def get_le16_def put_le16_def le16_put_le16)

lemma peering_ie_confirm: "get_le16 (peering_ie MESH_PEERING_CONFIRM l p why) 4 = p"
  by (simp add: peering_ie_def get_le16_def put_le16_def le16_put_le16)

lemma peering_ie_len: "plink_ie_ok act (length (peering_ie act l p why))"
  by (cases act) (auto simp: peering_ie_def plink_ie_ok_def)

lemma good_elems_sel [simp]:
  "peering (good_elems ie) = Some ie" "has_rsn (good_elems ie) = False" "has_mesh_id (good_elems ie)"
  "has_mesh_config (good_elems ie)" "matches (good_elems ie)" "rssi_ok (good_elems ie)"
  by (simp_all add: good_elems_def)

text \<open>A good frame from a known peer, once its event is known, is one step of the machine.\<close>

lemma process_good:
  fixes cnf_aid :: u16
  assumes "map_of (stas m) sa = Some s" "plink_ie_ok ftype (length ie)"
    and "mesh_plink_get_event c m (Some s) (good_elems ie) (length ie) ftype
       (if ftype = MESH_PEERING_CONFIRM \<or> ftype = MESH_PEERING_CLOSE \<and> length ie = 8 then get_le16 ie 4 else 0)
       (get_le16 ie 2) = event" and "event = OPN_ACPT \<or> event = CNF_ACPT"
  defines "s1 \<equiv> (if event = OPN_ACPT then s\<lparr>plid := get_le16 ie 2\<rparr>
     else s\<lparr>plid := (if plid s = 0 then get_le16 ie 2 else plid s), peer_aid := cnf_aid\<rparr>)"
  shows "mesh_process_plink_frame c jiffies rands alloc m sa ftype cnf_aid (good_elems ie)
     = map_option (\<lambda>(m2, s2, eff). (put_sta m2 sa s2, eff)) (mesh_plink_fsm c jiffies rands (put_sta m sa s1) sa s1 event)"
  using assms(4)
proof
  assume "event = OPN_ACPT"
  then show ?thesis
    using assms(1-3) unfolding mesh_process_plink_frame_def Let_def s1_def
    by (simp add: mesh_sta_info_get_def split del: if_split)
next
  assume "event = CNF_ACPT"
  then show ?thesis
    using assms(1-3) unfolding mesh_process_plink_frame_def Let_def s1_def
    by (simp split del: if_split)
qed

text \<open>The three kinds of frame the handshake needs, each on an interface with room for a link.\<close>

lemma event_good:
  assumes "mesh_plink_free_count c m \<noteq> 0"
  shows "mesh_plink_get_event c m None (good_elems ie) n MESH_PEERING_OPEN l p = OPN_ACPT"
    and "authed s \<Longrightarrow> plink_state s \<noteq> PLINK_BLOCKED \<Longrightarrow> plid s = 0 \<or> plid s = p \<Longrightarrow>
       mesh_plink_get_event c m (Some s) (good_elems ie) n MESH_PEERING_OPEN l p = OPN_ACPT"
    and "authed s \<Longrightarrow> plink_state s \<noteq> PLINK_BLOCKED \<Longrightarrow> plid s = 0 \<or> plid s = p \<Longrightarrow> llid s = l \<Longrightarrow>
       mesh_plink_get_event c m (Some s) (good_elems ie) n MESH_PEERING_CONFIRM l p = CNF_ACPT"
  using assms by (auto simp: mesh_plink_get_event_def good_elems_def)

lemma frame_open_new:
  assumes "stas m = []" "num_sta m = 0" "mesh_plink_free_count c m \<noteq> 0" "\<not> user_mpm c" "\<not> sec_authed c" "lb \<noteq> 0"
  shows "\<exists>m' s. mesh_process_plink_frame c jiffies [lb] True m a MESH_PEERING_OPEN 0
       (good_elems (peering_ie MESH_PEERING_OPEN la p why))
       = Some (m', [MpsLocalStatus, FrameTx a MESH_PEERING_OPEN lb la 0, FrameTx a MESH_PEERING_CONFIRM lb la 0]) \<and>
     stas m' = [(a, s)] \<and> plink_state s = PLINK_OPN_RCVD \<and> llid s = lb \<and> plid s = la \<and> authed s \<and>
     estab_plinks m' = estab_plinks m"
proof -
  have aid: "mesh_allocate_aid m = Some 1"
  proof -
    have "[0..<2008] = 0 # 1 # [2..<2008]"
      using upt_conv_Cons [of 0 2008] upt_conv_Cons [of 1 2008] by (simp add: numeral_2_eq_2)
    then show ?thesis using assms(1) by (simp add: mesh_allocate_aid_def)
  qed
  define s where "s = (new_mesh_sta 1)\<lparr>plid := la\<rparr>"
  define m1 where "m1 = m\<lparr>stas := [(a, s)], num_sta := 1\<rparr>"
  have get: "mesh_sta_info_get c True m a = Some (m\<lparr>stas := [(a, new_mesh_sta 1)], num_sta := 1\<rparr>, new_mesh_sta 1)"
    using assms aid by (simp add: mesh_sta_info_get_def mesh_sta_info_alloc_def put_sta_def)
  have llid: "mesh_get_new_llid m1 [lb] = Some lb"
    using assms(6) by (simp add: mesh_get_new_llid_def llid_in_use_def m1_def s_def new_mesh_sta_def)
  have st: "plink_state s = PLINK_LISTEN" "plid s = la" "reason s = 0" "authed s"
    by (simp_all add: s_def new_mesh_sta_def)
  have "put_sta (m\<lparr>stas := [(a, new_mesh_sta 1)], num_sta := 1\<rparr>) a s = m1"
    by (simp add: m1_def put_sta_def)
  then have "mesh_process_plink_frame c jiffies [lb] True m a MESH_PEERING_OPEN 0
       (good_elems (peering_ie MESH_PEERING_OPEN la p why))
       = map_option (\<lambda>(m2, s2, eff). (put_sta m2 a s2, eff)) (mesh_plink_fsm c jiffies [lb] m1 a s OPN_ACPT)"
    using event_good(1) [OF assms(3)] assms(1) get
    by (simp add: mesh_process_plink_frame_def peering_ie_len peering_ie_open Let_def s_def)
  then show ?thesis
    using llid st by (simp add: mesh_plink_fsm_def plink_fsm_switch_def Let_def plink_defs put_sta_def m1_def)
qed

lemma frame_open_sent:
  assumes "stas m = [(b, s)]" "mesh_plink_free_count c m \<noteq> 0" "plink_state s = PLINK_OPN_SNT" "plid s = 0" "authed s"
  shows "\<exists>m' s'. mesh_process_plink_frame c jiffies rands alloc m b MESH_PEERING_OPEN 0
       (good_elems (peering_ie MESH_PEERING_OPEN lb p why))
       = Some (m', [FrameTx b MESH_PEERING_CONFIRM (llid s) lb (reason s)]) \<and>
     stas m' = [(b, s')] \<and> plink_state s' = PLINK_OPN_RCVD \<and> llid s' = llid s \<and> plid s' = lb \<and> authed s' \<and>
     estab_plinks m' = estab_plinks m"
proof -
  define s1 where "s1 = s\<lparr>plid := lb\<rparr>"
  have "mesh_process_plink_frame c jiffies rands alloc m b MESH_PEERING_OPEN 0
       (good_elems (peering_ie MESH_PEERING_OPEN lb p why))
     = map_option (\<lambda>(m2, s2, eff). (put_sta m2 b s2, eff)) (mesh_plink_fsm c jiffies rands (put_sta m b s1) b s1 OPN_ACPT)"
    using process_good [where ftype = MESH_PEERING_OPEN and ie = "peering_ie MESH_PEERING_OPEN lb p why" and m = m
        and sa = b and s = s and event = OPN_ACPT and cnf_aid = 0 and c = c]
      event_good(2) [OF assms(2), of s lb] assms
    by (simp add: peering_ie_len peering_ie_open s1_def)
  moreover have "plink_state s1 = PLINK_OPN_SNT" "llid s1 = llid s" "plid s1 = lb" "reason s1 = reason s" "authed s1"
    using assms by (simp_all add: s1_def)
  ultimately show ?thesis
    using assms(1) by (simp add: mesh_plink_fsm_def plink_fsm_switch_def put_sta_def)
qed

lemma frame_confirm:
  assumes "stas m = [(b, s)]" "mesh_plink_free_count c m \<noteq> 0" "plink_state s = PLINK_OPN_RCVD" "plid s = l" "llid s = p"
    "authed s" "l \<noteq> 0"
  shows "\<exists>m' s' eff. mesh_process_plink_frame c jiffies rands alloc m b MESH_PEERING_CONFIRM 0
       (good_elems (peering_ie MESH_PEERING_CONFIRM l p why)) = Some (m', eff) \<and>
     (\<forall>e \<in> set eff. \<forall>d act x y z. e \<noteq> FrameTx d act x y z) \<and>
     stas m' = [(b, s')] \<and> plink_state s' = PLINK_ESTAB \<and> llid s' = p \<and> plid s' = l \<and>
     estab_plinks m' = estab_plinks m + 1"
proof -
  define s1 where "s1 = s\<lparr>plid := l, peer_aid := 0\<rparr>"
  have "mesh_process_plink_frame c jiffies rands alloc m b MESH_PEERING_CONFIRM 0
       (good_elems (peering_ie MESH_PEERING_CONFIRM l p why))
     = map_option (\<lambda>(m2, s2, eff). (put_sta m2 b s2, eff)) (mesh_plink_fsm c jiffies rands (put_sta m b s1) b s1 CNF_ACPT)"
    using process_good [where ftype = MESH_PEERING_CONFIRM and ie = "peering_ie MESH_PEERING_CONFIRM l p why" and m = m
        and sa = b and s = s and event = CNF_ACPT and cnf_aid = 0 and c = c]
      event_good(3) [OF assms(2), of s l p] assms
    by (simp add: peering_ie_len peering_ie_open peering_ie_confirm s1_def)
  moreover have "plink_state s1 = PLINK_OPN_RCVD" "llid s1 = p" "plid s1 = l"
    using assms by (simp_all add: s1_def)
  ultimately show ?thesis
    using assms(1) by (simp add: mesh_plink_fsm_def plink_fsm_switch_def put_sta_def mesh_plink_establish_def
        mesh_plink_inc_estab_count_def mesh_accept_plinks_update_def)
qed

lemma open_listen:
  assumes "la \<noteq> 0" "stas m = [(b, new_mesh_sta k)]"
  shows "\<exists>s. mesh_plink_open c jiffies [la] m b (new_mesh_sta k) = Some (s, [MpsLocalStatus, FrameTx b MESH_PEERING_OPEN la 0 0]) \<and>
     plink_state s = PLINK_OPN_SNT \<and> llid s = la \<and> plid s = 0 \<and> authed s \<and> reason s = 0"
  using assms by (simp add: mesh_plink_open_def mesh_get_new_llid_def llid_in_use_def new_mesh_sta_def plink_defs)

text \<open>C31: When A opens a link to B and every frame is delivered, both end established, each counting one
  link, with A's local link ID being B's peer link ID and the other way round.\<close>

theorem handshake_establishes:
  assumes "la \<noteq> 0" "lb \<noteq> 0" "0 < unat (dot11MeshMaxPeerLinks c)" "\<not> user_mpm c" "\<not> sec_authed c"
  shows "\<exists>mA mB sA sB. handshake c a b la lb = Some (mA, mB) \<and>
     stas mA = [(b, sA)] \<and> stas mB = [(a, sB)] \<and> estab_plinks mA = 1 \<and> estab_plinks mB = 1 \<and>
     plink_state sA = PLINK_ESTAB \<and> plink_state sB = PLINK_ESTAB \<and>
     llid sA = la \<and> plid sA = lb \<and> llid sB = lb \<and> plid sB = la"
proof -
  define mA where "mA = \<lparr>stas = [(b, new_mesh_sta 1)], num_sta = 1, estab_plinks = 0, accepting_plinks = True\<rparr>"
  define mB where "mB = \<lparr>stas = [], num_sta = 0, estab_plinks = 0, accepting_plinks = True\<rparr>"
  have free: "mesh_plink_free_count c m \<noteq> 0" if "estab_plinks m = 0" for m
    using assms(3) that unfolding mesh_plink_free_count_def by linarith
  obtain s where o: "mesh_plink_open c 0 [la] mA b (new_mesh_sta 1) = Some (s, [MpsLocalStatus, FrameTx b MESH_PEERING_OPEN la 0 0])"
      and s: "plink_state s = PLINK_OPN_SNT" "llid s = la" "plid s = 0" "authed s" "reason s = 0"
    using open_listen [OF assms(1), of mA b 1 c 0] by (auto simp: mA_def)
  obtain mB1 sB where 1: "mesh_process_plink_frame c 1 [lb] True mB a MESH_PEERING_OPEN 0
        (good_elems (peering_ie MESH_PEERING_OPEN la 0 0))
        = Some (mB1, [MpsLocalStatus, FrameTx a MESH_PEERING_OPEN lb la 0, FrameTx a MESH_PEERING_CONFIRM lb la 0])"
      and sB: "stas mB1 = [(a, sB)]" "plink_state sB = PLINK_OPN_RCVD" "llid sB = lb" "plid sB = la" "authed sB"
        "estab_plinks mB1 = 0"
    using frame_open_new [of mB c lb 1 a la 0 0] assms(2,4,5) free [of mB] by (auto simp: mB_def)
  have mA': "stas (put_sta mA b s) = [(b, s)]" "estab_plinks (put_sta mA b s) = 0"
    by (simp_all add: mA_def put_sta_def)
  obtain mA1 sA1 where 2: "mesh_process_plink_frame c 2 [] True (put_sta mA b s) b MESH_PEERING_OPEN 0
        (good_elems (peering_ie MESH_PEERING_OPEN lb la 0)) = Some (mA1, [FrameTx b MESH_PEERING_CONFIRM la lb 0])"
      and sA1: "stas mA1 = [(b, sA1)]" "plink_state sA1 = PLINK_OPN_RCVD" "llid sA1 = la" "plid sA1 = lb" "authed sA1"
        "estab_plinks mA1 = 0"
    using frame_open_sent [OF mA'(1) free s(1,3,4), of 2 "[]" True lb la 0] mA' s by auto
  obtain mA2 sA eff2 where 3: "mesh_process_plink_frame c 2 [] True mA1 b MESH_PEERING_CONFIRM 0
        (good_elems (peering_ie MESH_PEERING_CONFIRM lb la 0)) = Some (mA2, eff2)"
      and e2: "\<forall>e \<in> set eff2. \<forall>d act x y z. e \<noteq> FrameTx d act x y z"
      and sA: "stas mA2 = [(b, sA)]" "plink_state sA = PLINK_ESTAB" "llid sA = la" "plid sA = lb" "estab_plinks mA2 = 1"
    using frame_confirm [OF sA1(1) free sA1(2,4,3,5) assms(2), of 2 "[]" True 0] sA1 by auto
  obtain mB2 sB2 eff3 where 4: "mesh_process_plink_frame c 3 [] True mB1 a MESH_PEERING_CONFIRM 0
        (good_elems (peering_ie MESH_PEERING_CONFIRM la lb 0)) = Some (mB2, eff3)"
      and sB2: "stas mB2 = [(a, sB2)]" "plink_state sB2 = PLINK_ESTAB" "llid sB2 = lb" "plid sB2 = la" "estab_plinks mB2 = 1"
    using frame_confirm [OF sB(1) free sB(2,4,3,5) assms(1), of 3 "[]" True 0] sB by auto
  have quiet: "deliver c j rs x m eff = Some (m, [])" if "\<forall>e \<in> set eff. \<forall>d act x y z. e \<noteq> FrameTx d act x y z" for j rs x m eff
    using that
  proof (induction eff)
    case (Cons e eff)
    then show ?case by (cases e) auto
  qed simp
  have "handshake c a b la lb = Some (mA2, mB2)"
    unfolding handshake_def Let_def mA_def [symmetric] mB_def [symmetric]
    using o 1 2 3 4 quiet [OF e2] quiet by simp
  then show ?thesis using sA sB2 by blast
qed

theorem handshake_establishes_witness:
  "\<exists>mA mB sA sB. handshake demo_config [1] [2] 11 12 = Some (mA, mB) \<and>
     stas mA = [([2], sA)] \<and> stas mB = [([1], sB)] \<and> estab_plinks mA = 1 \<and> estab_plinks mB = 1 \<and>
     plink_state sA = PLINK_ESTAB \<and> plink_state sB = PLINK_ESTAB \<and>
     llid sA = 11 \<and> plid sA = 12 \<and> llid sB = 12 \<and> plid sB = 11"
  by (rule handshake_establishes) (simp_all add: demo_config_def)

end
