(* ===== verification/Defrag.thy ===== *)
theory Defrag
  imports Frame "HOL-Library.Sublist"
begin

text \<open>
  Defragmentation: the fragment cache of a station (sta_info.h) and its use in net/mac80211/rx.c
  (\<open>ieee80211_reassemble_add\<close>, \<open>ieee80211_reassemble_find\<close>, \<open>ieee80211_rx_h_defragment\<close>), and the
  transmit side, net/mac80211/tx.c \<open>ieee80211_fragment\<close> with the header update of
  \<open>ieee80211_tx_h_fragment\<close>. The tail room of a socket buffer is part of the state, because appending
  beyond it is a kernel panic: the result \<open>SKB_OVER_PANIC\<close>.
\<close>


section \<open>State\<close>

text \<open>What the handler reads of a frame: the bytes, the key it was decrypted with (whether its cipher
  numbers packets, its colour and the packet number stored for the queue), the packet number of this
  frame, the sequence counter index, \<open>RX_FLAG_DECRYPTED\<close>, the tail room of the buffer, and whether the
  two allocations succeed.\<close>

record frag_key =
  key_seq_pn :: bool           \<comment> \<open>CCMP or GCMP, 128 or 256\<close>
  key_color :: u32
  key_rx_pn :: "u8 list"

record rx_frag =
  rf_data :: "u8 list"
  rf_key :: "frag_key option"
  rf_pn :: "u8 list"
  rf_seqno_idx :: u8
  rf_decrypted :: bool
  rf_tailroom :: nat
  rf_linearize_ok :: bool
  rf_expand_ok :: bool

record fragment_entry =
  skb_list :: "u8 list list"
  e_tailroom :: nat            \<comment> \<open>tail room of the first buffer of the list\<close>
  first_frag_time :: u64
  e_seq :: u16
  extra_len :: u16
  last_frag :: u16
  rx_queue :: u8
  check_sequential_pn :: bool
  is_protected :: bool
  last_pn :: "u8 list"
  e_key_color :: u32

record fragment_cache =
  entries :: "fragment_entry list"
  cache_next :: nat

datatype drop_reason =
  RX_DROP_MONITOR | RX_DROP_U_OOM | RX_DROP_U_NONSEQ_PN | RX_DROP_U_BAD_KEY_COLOR | RX_DROP_U_REPLAY |
  RX_DROP_U_EXPECT_DEFRAG_PROT

datatype defrag_result = RX_CONTINUE "u8 list" | RX_QUEUED | RX_DROP drop_reason | SKB_OVER_PANIC

abbreviation (input) IEEE80211_FRAGMENT_MAX :: nat where "IEEE80211_FRAGMENT_MAX \<equiv> 4"

text \<open>\<open>2 * HZ\<close> with \<open>HZ\<close> = 100.\<close>

abbreviation (input) FRAG_TIMEOUT :: u64 where "FRAG_TIMEOUT \<equiv> 200"

definition empty_entry :: fragment_entry where
  "empty_entry =
     \<lparr>skb_list = [], e_tailroom = 0, first_frag_time = 0, e_seq = 0, extra_len = 0, last_frag = 0, rx_queue = 0,
      check_sequential_pn = False, is_protected = False, last_pn = replicate 6 0, e_key_color = 0\<rparr>"

definition ieee80211_init_frag_cache :: fragment_cache where
  "ieee80211_init_frag_cache = \<lparr>entries = replicate IEEE80211_FRAGMENT_MAX empty_entry, cache_next = 0\<rparr>"

definition ieee80211_destroy_frag_cache :: "fragment_cache \<Rightarrow> fragment_cache" where
  "ieee80211_destroy_frag_cache cache = cache\<lparr>entries := map (\<lambda>e. e\<lparr>skb_list := []\<rparr>) (entries cache)\<rparr>"


section \<open>Cache\<close>

text \<open>The index of the entry used, and the cache; what was queued there before is purged. The flag
  \<open>is_protected\<close> and the key colour are not touched.\<close>

definition ieee80211_reassemble_add :: "fragment_cache \<Rightarrow> u16 \<Rightarrow> u16 \<Rightarrow> rx_frag \<Rightarrow> u64 \<Rightarrow> fragment_cache \<times> nat" where
  "ieee80211_reassemble_add cache frag sn f jiffies =
     (let i = cache_next cache;
          nxt = (if i + 1 \<ge> IEEE80211_FRAGMENT_MAX then 0 else i + 1);
          e = (entries cache ! i)\<lparr>skb_list := [rf_data f], e_tailroom := rf_tailroom f, first_frag_time := jiffies,
                e_seq := sn, rx_queue := rf_seqno_idx f, last_frag := frag, check_sequential_pn := False, extra_len := 0\<rparr>
      in (\<lparr>entries = (entries cache)[i := e], cache_next = nxt\<rparr>, i))"

text \<open>The fields the search compares.\<close>

definition same_frame :: "u8 list \<Rightarrow> u8 list \<Rightarrow> bool" where
  "same_frame h h' \<longleftrightarrow>
     (frame_control h XOR frame_control h') AND IEEE80211_FCTL_FTYPE = 0 \<and> addr1 h = addr1 h' \<and> addr2 h = addr2 h'"

fun reassemble_search ::
  "nat \<Rightarrow> nat \<Rightarrow> fragment_entry list \<Rightarrow> u16 \<Rightarrow> u16 \<Rightarrow> u8 \<Rightarrow> u8 list \<Rightarrow> u64 \<Rightarrow> fragment_entry list \<times> nat option"
where
  "reassemble_search 0 idx es frag sn queue hdr jiffies = (es, None)"
| "reassemble_search (Suc n) idx es frag sn queue hdr jiffies =
     (let idx = (if idx = 0 then IEEE80211_FRAGMENT_MAX - 1 else idx - 1); e = es ! idx
      in if skb_list e = [] \<or> e_seq e \<noteq> sn \<or> rx_queue e \<noteq> queue \<or> unat (last_frag e) + 1 \<noteq> unat frag then
           reassemble_search n idx es frag sn queue hdr jiffies
         else if \<not> same_frame hdr (hd (skb_list e)) then
           reassemble_search n idx es frag sn queue hdr jiffies
         else if time_after jiffies (first_frag_time e + FRAG_TIMEOUT) then
           reassemble_search n idx (es[idx := e\<lparr>skb_list := []\<rparr>]) frag sn queue hdr jiffies
         else (es, Some idx))"

definition ieee80211_reassemble_find ::
  "fragment_cache \<Rightarrow> u16 \<Rightarrow> u16 \<Rightarrow> u8 \<Rightarrow> u8 list \<Rightarrow> u64 \<Rightarrow> fragment_cache \<times> nat option"
where
  "ieee80211_reassemble_find cache frag sn queue hdr jiffies =
     (case reassemble_search IEEE80211_FRAGMENT_MAX (cache_next cache) (entries cache) frag sn queue hdr jiffies of
        (es, r) \<Rightarrow> (cache\<lparr>entries := es\<rparr>, r))"

definition requires_sequential_pn :: "rx_frag \<Rightarrow> bool" where
  "requires_sequential_pn f \<longleftrightarrow>
     (case rf_key f of None \<Rightarrow> False | Some k \<Rightarrow> key_seq_pn k \<and> ieee80211_has_protected (frame_control (rf_data f)))"


section \<open>The handler\<close>

text \<open>The packet number plus one: byte 5 is the least significant.\<close>

fun pn_inc_rev :: "u8 list \<Rightarrow> u8 list" where
  "pn_inc_rev [] = []"
| "pn_inc_rev (b # bs) = (if b + 1 \<noteq> 0 then (b + 1) # bs else 0 # pn_inc_rev bs)"

definition pn_inc :: "u8 list \<Rightarrow> u8 list" where
  "pn_inc pn = rev (pn_inc_rev (rev pn))"

definition frag_no :: "rx_frag \<Rightarrow> u16" where
  "frag_no f = seq_ctrl (rf_data f) AND IEEE80211_SCTL_FRAG"

definition frag_seq :: "rx_frag \<Rightarrow> u16" where
  "frag_seq f = IEEE80211_SEQ_TO_SN (seq_ctrl (rf_data f))"

text \<open>\<open>skb_pull\<close> of the header does nothing when the buffer is shorter.\<close>

definition pulled :: "rx_frag \<Rightarrow> u8 list" where
  "pulled f =
     (let n = ieee80211_hdrlen (frame_control (rf_data f))
      in if n \<le> length (rf_data f) then drop n (rf_data f) else rf_data f)"

text \<open>What a first fragment leaves in its entry.\<close>

definition note_protection :: "rx_frag \<Rightarrow> fragment_entry \<Rightarrow> fragment_entry" where
  "note_protection f e =
     (case rf_key f of
        None \<Rightarrow> e
      | Some k \<Rightarrow>
          if requires_sequential_pn f then
            e\<lparr>check_sequential_pn := True, is_protected := True, e_key_color := key_color k, last_pn := key_rx_pn k\<rparr>
          else if ieee80211_has_protected (frame_control (rf_data f)) \<or> rf_decrypted f then
            e\<lparr>is_protected := True, e_key_color := key_color k\<rparr>
          else e)"

text \<open>The checks on a later fragment: \<open>Inl\<close> the reason to drop it, \<open>Inr\<close> the entry to append to. The
  third branch of the code, after the one for \<open>RX_DROP_U_EXPECT_DEFRAG_PROT\<close>, repeats a colour
  comparison that branch has already made.\<close>

definition check_fragment :: "rx_frag \<Rightarrow> fragment_entry \<Rightarrow> drop_reason + fragment_entry" where
  "check_fragment f e =
     (let prot = ieee80211_has_protected (frame_control (rf_data f))
      in if check_sequential_pn e then
           (case rf_key f of
              None \<Rightarrow> Inl RX_DROP_U_NONSEQ_PN
            | Some k \<Rightarrow>
                if \<not> requires_sequential_pn f then Inl RX_DROP_U_NONSEQ_PN
                else if e_key_color e \<noteq> key_color k then Inl RX_DROP_U_BAD_KEY_COLOR
                else if pn_inc (last_pn e) \<noteq> rf_pn f then Inl RX_DROP_U_REPLAY
                else Inr (e\<lparr>last_pn := pn_inc (last_pn e)\<rparr>))
         else if is_protected e \<and>
                 (case rf_key f of
                    None \<Rightarrow> True
                  | Some k \<Rightarrow> \<not> prot \<and> \<not> rf_decrypted f \<or> key_color k \<noteq> e_key_color e) then
           Inl RX_DROP_U_EXPECT_DEFRAG_PROT
         else if is_protected e \<and>
                 (case rf_key f of None \<Rightarrow> False | Some k \<Rightarrow> e_key_color e \<noteq> key_color k \<and> rf_decrypted f) then
           Inl RX_DROP_U_BAD_KEY_COLOR
         else Inr e)"

text \<open>The last fragment: append all the others to the first, making room when the counted length does
  not fit. \<open>skb_put_data\<close> past the tail room panics.\<close>

definition finish_frame :: "rx_frag \<Rightarrow> fragment_entry \<Rightarrow> defrag_result" where
  "finish_frame f e =
     (let grow = e_tailroom e < unat (extra_len e);
          room = (if grow then e_tailroom e + unat (extra_len e) else e_tailroom e);
          rest = concat (tl (skb_list e))
      in if grow \<and> \<not> rf_expand_ok f then RX_DROP RX_DROP_U_OOM
         else if room < length rest then SKB_OVER_PANIC
         else RX_CONTINUE (hd (skb_list e) @ rest))"

definition ieee80211_rx_h_defragment :: "fragment_cache \<Rightarrow> rx_frag \<Rightarrow> u64 \<Rightarrow> fragment_cache \<times> defrag_result" where
  "ieee80211_rx_h_defragment cache f jiffies =
     (let hdr = rf_data f; fc = frame_control hdr
      in if ieee80211_is_ctl fc \<or> ieee80211_is_ext fc then (cache, RX_CONTINUE hdr)
         else if \<not> ieee80211_has_morefrags fc \<and> frag_no f = 0 then (cache, RX_CONTINUE hdr)
         else if is_multicast_ether_addr (addr1 hdr) then (cache, RX_DROP RX_DROP_MONITOR)
         else if \<not> rf_linearize_ok f then (cache, RX_DROP RX_DROP_U_OOM)
         else if frag_no f = 0 then
           let (cache1, i) = ieee80211_reassemble_add cache (frag_no f) (frag_seq f) f jiffies
           in (cache1\<lparr>entries := (entries cache1)[i := note_protection f (entries cache1 ! i)]\<rparr>, RX_QUEUED)
         else
           case ieee80211_reassemble_find cache (frag_no f) (frag_seq f) (rf_seqno_idx f) hdr jiffies of
             (cache1, None) \<Rightarrow> (cache1, RX_DROP RX_DROP_MONITOR)
           | (cache1, Some i) \<Rightarrow>
               (case check_fragment f (entries cache1 ! i) of
                  Inl why \<Rightarrow> (cache1, RX_DROP why)
                | Inr e \<Rightarrow>
                    let e1 = e\<lparr>skb_list := skb_list e @ [pulled f], last_frag := frag_no f,
                               extra_len := extra_len e + of_nat (length (pulled f))\<rparr>;
                        upd = (\<lambda>e. cache1\<lparr>entries := (entries cache1)[i := e]\<rparr>)
                    in if ieee80211_has_morefrags fc then (upd e1, RX_QUEUED)
                       else (upd (e1\<lparr>skb_list := []\<rparr>), finish_frame f e1)))"


section \<open>The transmit side\<close>

text \<open>\<open>allocs\<close> is the number of buffers the allocator can still give. The arithmetic is that of C
  \<open>int\<close>: a threshold below the header length makes \<open>per_fragm\<close> negative, and a negative length handed
  to \<open>skb_put_data\<close> is a huge unsigned one. Rate and transmit flags of the fragments are not part of
  the model.\<close>

datatype fragment_error = EINVAL | ENOMEM | OVER_PANIC

fun fragment_loop :: "nat \<Rightarrow> int \<Rightarrow> int \<Rightarrow> u8 list \<Rightarrow> u8 list \<Rightarrow> fragment_error + u8 list list" where
  "fragment_loop allocs per_fragm rm hdr rest =
     (if rm = 0 then Inr []
      else case allocs of
        0 \<Rightarrow> Inl ENOMEM
      | Suc n \<Rightarrow>
          let fraglen = (if per_fragm > rm then rm else per_fragm)
          in if fraglen < 0 then Inl OVER_PANIC
             else case fragment_loop n per_fragm (rm - fraglen) hdr (drop (nat fraglen) rest) of
                    Inl e \<Rightarrow> Inl e
                  | Inr skbs \<Rightarrow> Inr ((hdr @ take (nat fraglen) rest) # skbs))"

declare fragment_loop.simps [simp del]

definition ieee80211_fragment :: "nat \<Rightarrow> u8 list \<Rightarrow> nat \<Rightarrow> int \<Rightarrow> fragment_error + u8 list list" where
  "ieee80211_fragment allocs data hdrlen frag_threshold =
     (let per_fragm = frag_threshold - int hdrlen - 4;
          pos = nat (int hdrlen + per_fragm);
          rm = int (length data) - int hdrlen - per_fragm
      in if rm < 0 then Inl EINVAL
         else case fragment_loop allocs per_fragm rm (take hdrlen data) (drop pos data) of
                Inl e \<Rightarrow> Inl e
              | Inr skbs \<Rightarrow> Inr (take pos data # skbs))"

definition set_seq_ctrl :: "u16 \<Rightarrow> u8 list \<Rightarrow> u8 list" where
  "set_seq_ctrl w h = take 22 h @ put_le16 w @ drop 24 h"

definition update_fragment :: "bool \<Rightarrow> nat \<Rightarrow> u8 list \<Rightarrow> u8 list" where
  "update_fragment is_last fragnum h =
     (let h1 = set_fc (if is_last then frame_control h AND NOT IEEE80211_FCTL_MOREFRAGS
                       else frame_control h OR IEEE80211_FCTL_MOREFRAGS) h
      in set_seq_ctrl (seq_ctrl h1 OR (of_nat fragnum AND IEEE80211_SCTL_FRAG)) h1)"

fun update_fragments :: "nat \<Rightarrow> u8 list list \<Rightarrow> u8 list list" where
  "update_fragments fragnum [] = []"
| "update_fragments fragnum (h # hs) = update_fragment (hs = []) fragnum h # update_fragments (fragnum + 1) hs"

datatype tx_result = TX_CONTINUE "u8 list list" | TX_DROP | TX_PANIC

text \<open>\<open>dontfrag\<close> and \<open>ampdu\<close> are the transmit flags of the frame, \<open>hw_frag\<close> the hardware flag
  \<open>SUPPORTS_TX_FRAG\<close>; the result carries the queue \<open>tx->skbs\<close>.\<close>

definition ieee80211_tx_h_fragment :: "bool \<Rightarrow> bool \<Rightarrow> bool \<Rightarrow> int \<Rightarrow> nat \<Rightarrow> u8 list \<Rightarrow> tx_result" where
  "ieee80211_tx_h_fragment dontfrag hw_frag ampdu frag_threshold allocs data =
     (if dontfrag then TX_CONTINUE [data]
      else if hw_frag then TX_CONTINUE [data]
      else if ampdu then TX_DROP
      else if int (length data) + 4 \<le> frag_threshold then TX_DROP
      else case ieee80211_fragment allocs data (ieee80211_hdrlen (frame_control data)) frag_threshold of
             Inl OVER_PANIC \<Rightarrow> TX_PANIC
           | Inl e \<Rightarrow> TX_DROP
           | Inr skbs \<Rightarrow> TX_CONTINUE (update_fragments 0 skbs))"

end
