(* ===== verification/DefragInv.thy ===== *)
theory DefragInv
  imports Defrag
begin

text \<open>
  Which frames a reassembled frame may be made of. \<open>legit\<close> says it of a list of received fragments;
  the invariant of the cache says that every pending entry is the beginning of a legitimate list
  taken, in order, from the frames received so far.
\<close>


section \<open>Legitimate fragment lists\<close>

definition prot :: "rx_frag \<Rightarrow> bool" where
  "prot f \<longleftrightarrow> rf_key f \<noteq> None \<and> (ieee80211_has_protected (frame_control (rf_data f)) \<or> rf_decrypted f)"

definition color :: "rx_frag \<Rightarrow> u32" where
  "color f = (case rf_key f of None \<Rightarrow> 0 | Some k \<Rightarrow> key_color k)"

definition first_pn :: "rx_frag \<Rightarrow> u8 list" where
  "first_pn f = (case rf_key f of None \<Rightarrow> [] | Some k \<Rightarrow> key_rx_pn k)"

text \<open>Fragment \<open>f\<close> may be the one with number \<open>i\<close> of the frame that starts with \<open>g\<close>.\<close>

definition frag_link :: "rx_frag \<Rightarrow> nat \<Rightarrow> rx_frag \<Rightarrow> bool" where
  "frag_link g i f \<longleftrightarrow>
     unat (frag_no f) = i \<and> frag_seq f = frag_seq g \<and> rf_seqno_idx f = rf_seqno_idx g \<and>
     same_frame (rf_data f) (rf_data g) \<and>
     (requires_sequential_pn g \<longrightarrow>
        requires_sequential_pn f \<and> (0 < i \<longrightarrow> rf_pn f = (pn_inc ^^ i) (first_pn g))) \<and>
     (prot g \<longrightarrow> prot f \<and> color f = color g)"

definition legit :: "rx_frag list \<Rightarrow> bool" where
  "legit gs \<longleftrightarrow> gs \<noteq> [] \<and> (\<forall>i < length gs. frag_link (hd gs) i (gs ! i))"

lemma same_frame_refl [simp]: "same_frame h h"
  by (simp add: same_frame_def)

lemma seq_pn_prot: "requires_sequential_pn f \<Longrightarrow> prot f"
  by (auto simp: requires_sequential_pn_def prot_def split: option.splits)

lemma legit_single: "frag_no f = 0 \<Longrightarrow> legit [f]"
  by (auto simp: legit_def frag_link_def)

lemma legit_snoc:
  assumes "legit gs" "unat (frag_no f) = length gs" "frag_seq f = frag_seq (hd gs)"
    "rf_seqno_idx f = rf_seqno_idx (hd gs)" "same_frame (rf_data f) (rf_data (hd gs))"
    "requires_sequential_pn (hd gs) \<longrightarrow>
       requires_sequential_pn f \<and> rf_pn f = (pn_inc ^^ length gs) (first_pn (hd gs))"
    "prot (hd gs) \<longrightarrow> prot f \<and> color f = color (hd gs)"
  shows "legit (gs @ [f])"
proof -
  have "gs \<noteq> []" using assms(1) by (simp add: legit_def)
  then show ?thesis
    using assms unfolding legit_def by (auto simp: nth_append less_Suc_eq frag_link_def)
qed

lemma legit_last: "legit (gs @ [f]) \<Longrightarrow> gs \<noteq> [] \<Longrightarrow> frag_link (hd gs) (length gs) f"
  by (auto simp: legit_def dest: spec [of _ "length gs"])

lemma legit_prefix: "legit (gs @ hs) \<Longrightarrow> gs \<noteq> [] \<Longrightarrow> legit gs"
  unfolding legit_def by (metis hd_append2 length_append nth_append trans_less_add1)


section \<open>The cache invariant\<close>

definition built :: "rx_frag list \<Rightarrow> fragment_entry \<Rightarrow> bool" where
  "built gs e \<longleftrightarrow>
     legit gs \<and> skb_list e = rf_data (hd gs) # map pulled (tl gs) \<and>
     e_seq e = frag_seq (hd gs) \<and> rx_queue e = rf_seqno_idx (hd gs) \<and> unat (last_frag e) = length gs - 1 \<and>
     check_sequential_pn e = requires_sequential_pn (hd gs) \<and>
     (requires_sequential_pn (hd gs) \<longrightarrow> last_pn e = (pn_inc ^^ (length gs - 1)) (first_pn (hd gs))) \<and>
     (prot (hd gs) \<longrightarrow> is_protected e \<and> e_key_color e = color (hd gs)) \<and>
     extra_len e = of_nat (length (concat (tl (skb_list e))))"

definition entry_ok :: "rx_frag list \<Rightarrow> fragment_entry \<Rightarrow> bool" where
  "entry_ok H e \<longleftrightarrow> (skb_list e \<noteq> [] \<longrightarrow> (\<exists>gs. subseq gs H \<and> built gs e))"

definition cache_inv :: "rx_frag list \<Rightarrow> fragment_cache \<Rightarrow> bool" where
  "cache_inv H c \<longleftrightarrow>
     length (entries c) = IEEE80211_FRAGMENT_MAX \<and> cache_next c < IEEE80211_FRAGMENT_MAX \<and>
     (\<forall>e \<in> set (entries c). entry_ok H e)"

lemma entry_ok_mono: "entry_ok H e \<Longrightarrow> entry_ok (H @ H') e"
  unfolding entry_ok_def by (meson subseq_order.order_trans list_emb_append2 subseq_order.refl prefixI prefix_imp_subseq)

lemma entry_ok_empty [simp]: "skb_list e = [] \<Longrightarrow> entry_ok H e"
  by (simp add: entry_ok_def)

lemma frag_init_inv: "cache_inv [] ieee80211_init_frag_cache"
  by (simp add: cache_inv_def ieee80211_init_frag_cache_def empty_entry_def)

lemma set_update_ok:
  "\<forall>e \<in> set es. entry_ok H e \<Longrightarrow> entry_ok H e' \<Longrightarrow> \<forall>e \<in> set (es[i := e']). entry_ok H e"
  using set_update_subset_insert by fastforce

lemma search_ok:
  assumes "reassemble_search n idx es frag sn queue hdr jiffies = (es', r)"
    "\<forall>e \<in> set es. entry_ok H e" "length es = IEEE80211_FRAGMENT_MAX" "idx \<le> IEEE80211_FRAGMENT_MAX"
  shows "length es' = IEEE80211_FRAGMENT_MAX \<and> (\<forall>e \<in> set es'. entry_ok H e) \<and>
     (\<forall>i. r = Some i \<longrightarrow> i < IEEE80211_FRAGMENT_MAX \<and> skb_list (es' ! i) \<noteq> [] \<and> e_seq (es' ! i) = sn \<and>
        rx_queue (es' ! i) = queue \<and> unat (last_frag (es' ! i)) + 1 = unat frag \<and>
        same_frame hdr (hd (skb_list (es' ! i))))"
  using assms
proof (induction n idx es frag sn queue hdr jiffies rule: reassemble_search.induct)
  case (2 n idx es frag sn queue hdr jiffies)
  define j where "j = (if idx = 0 then IEEE80211_FRAGMENT_MAX - 1 else idx - 1)"
  have j: "j < 4" "j \<le> 4" using "2.prems"(4) by (auto simp: j_def)
  have purged: "\<forall>e \<in> set (es[j := (es ! j)\<lparr>skb_list := []\<rparr>]). entry_ok H e"
    using "2.prems"(2) by (rule set_update_ok) simp
  show ?case
    using "2.prems" j purged "2.IH" [OF j_def refl]
    by (simp add: Let_def j_def [symmetric] split: if_splits) blast+
qed simp

lemma add_ok:
  assumes "cache_inv H c" "frag_no f = 0"
    and "ieee80211_reassemble_add c (frag_no f) (frag_seq f) f jiffies = (c1, i)"
  shows "cache_inv (H @ [f]) (c1\<lparr>entries := (entries c1)[i := note_protection f (entries c1 ! i)]\<rparr>)"
proof -
  have len: "length (entries c) = 4" "cache_next c < 4" using assms(1) by (simp_all add: cache_inv_def)
  define e where "e = note_protection f (entries c1 ! i)"
  have c1: "i = cache_next c" "entries c1 = (entries c)[i := entries c1 ! i]" "cache_next c1 < 4"
      "skb_list (entries c1 ! i) = [rf_data f]" "e_seq (entries c1 ! i) = frag_seq f"
      "rx_queue (entries c1 ! i) = rf_seqno_idx f" "last_frag (entries c1 ! i) = 0"
      "\<not> check_sequential_pn (entries c1 ! i)" "extra_len (entries c1 ! i) = 0"
    using assms(2,3) len by (auto simp: ieee80211_reassemble_add_def Let_def)
  have "built [f] e"
    using c1 legit_single [OF assms(2)]
    by (auto simp: built_def e_def note_protection_def requires_sequential_pn_def prot_def color_def first_pn_def
        split: option.splits)
  moreover have "subseq [f] (H @ [f])" by (simp add: list_emb_append2)
  ultimately have "entry_ok (H @ [f]) e" by (auto simp: entry_ok_def)
  moreover have "\<forall>x \<in> set (entries c). entry_ok (H @ [f]) x"
    using assms(1) entry_ok_mono by (auto simp: cache_inv_def)
  ultimately have "\<forall>x \<in> set ((entries c)[i := e]). entry_ok (H @ [f]) x"
    by (intro set_update_ok)
  moreover have "(entries c1)[i := e] = (entries c)[i := e]" by (subst c1(2)) simp
  ultimately show ?thesis
    using len c1(3) by (simp add: cache_inv_def e_def [symmetric])
qed

lemma check_fragment_built:
  assumes "built gs e" "check_fragment f e = Inr e'"
    and "unat (last_frag e) + 1 = unat (frag_no f)" "e_seq e = frag_seq f" "rx_queue e = rf_seqno_idx f"
    and "same_frame (rf_data f) (hd (skb_list e))"
  shows "built (gs @ [f]) (e'\<lparr>skb_list := skb_list e' @ [pulled f], last_frag := frag_no f,
     extra_len := extra_len e' + of_nat (length (pulled f))\<rparr>)"
proof -
  have b: "legit gs" "gs \<noteq> []" "skb_list e = rf_data (hd gs) # map pulled (tl gs)"
      "e_seq e = frag_seq (hd gs)" "rx_queue e = rf_seqno_idx (hd gs)" "unat (last_frag e) = length gs - 1"
      "check_sequential_pn e = requires_sequential_pn (hd gs)"
      "requires_sequential_pn (hd gs) \<longrightarrow> last_pn e = (pn_inc ^^ (length gs - 1)) (first_pn (hd gs))"
      "prot (hd gs) \<longrightarrow> is_protected e \<and> e_key_color e = color (hd gs)"
      "extra_len e = of_nat (length (concat (tl (skb_list e))))"
    using assms(1) by (auto simp: built_def legit_def)
  have no: "unat (frag_no f) = length gs" using assms(3) b(2,6) by (cases gs) auto
  have pw: "pn_inc ((pn_inc ^^ (length gs - 1)) p) = (pn_inc ^^ length gs) p" for p
    using b(2) by (cases gs) auto
  have same: "skb_list e' = skb_list e" "e_seq e' = e_seq e" "rx_queue e' = rx_queue e"
      "check_sequential_pn e' = check_sequential_pn e" "is_protected e' = is_protected e"
      "e_key_color e' = e_key_color e" "extra_len e' = extra_len e"
    using assms(2) by (auto simp: check_fragment_def Let_def split: if_splits option.splits)
  have pn: "requires_sequential_pn f \<and> rf_pn f = (pn_inc ^^ length gs) (first_pn (hd gs)) \<and>
      last_pn e' = (pn_inc ^^ length gs) (first_pn (hd gs))" if "requires_sequential_pn (hd gs)"
    using that assms(2) b(7,8) pw by (auto simp: check_fragment_def Let_def split: if_splits option.splits)
  have pr: "prot f \<and> color f = color (hd gs)" if "prot (hd gs)"
    using that assms(2) b(7,9) pn seq_pn_prot [of f]
    by (auto simp: check_fragment_def Let_def color_def prot_def split: if_splits option.splits)
  have "legit (gs @ [f])"
    by (rule legit_snoc [OF b(1) no]) (use assms(4-6) b pn pr in auto)
  then show ?thesis
    using b no same pn by (simp add: built_def)
qed


section \<open>The handler\<close>

definition fragmented :: "rx_frag \<Rightarrow> bool" where
  "fragmented f \<longleftrightarrow>
     \<not> ieee80211_is_ctl (frame_control (rf_data f)) \<and> \<not> ieee80211_is_ext (frame_control (rf_data f)) \<and>
     (ieee80211_has_morefrags (frame_control (rf_data f)) \<or> frag_no f \<noteq> 0)"

text \<open>The frame made of a list of fragments: the first one, then the bodies of the others.\<close>

definition reassembled :: "rx_frag list \<Rightarrow> u8 list" where
  "reassembled gs = rf_data (hd gs) @ concat (map pulled (tl gs))"

lemma finish_built:
  assumes "built gs e"
  shows "finish_frame f e = RX_CONTINUE d \<Longrightarrow> d = reassembled gs"
    and "finish_frame f e = SKB_OVER_PANIC \<Longrightarrow> 65536 \<le> length (concat (map pulled (tl gs)))"
proof -
  have s: "skb_list e = rf_data (hd gs) # map pulled (tl gs)"
      "extra_len e = of_nat (length (concat (map pulled (tl gs))))"
    using assms by (simp_all add: built_def)
  show "finish_frame f e = RX_CONTINUE d \<Longrightarrow> d = reassembled gs"
    by (simp add: finish_frame_def s(1) reassembled_def Let_def split: if_splits)
  assume p: "finish_frame f e = SKB_OVER_PANIC"
  show "65536 \<le> length (concat (map pulled (tl gs)))"
  proof (rule ccontr)
    assume small: "\<not> 65536 \<le> length (concat (map pulled (tl gs)))"
    then have "unat (extra_len e) = length (concat (map pulled (tl gs)))"
      unfolding s(2) by (simp add: unat_of_nat del: length_concat)
    then show False using p s(1) by (auto simp: finish_frame_def Let_def split: if_splits)
  qed
qed

lemma defragment_step:
  assumes "cache_inv H c" "ieee80211_rx_h_defragment c f jiffies = (c', r)"
  shows "cache_inv (H @ [f]) c' \<and>
     (fragmented f \<longrightarrow> (\<forall>d. r = RX_CONTINUE d \<longrightarrow>
        (\<exists>gs. subseq (gs @ [f]) (H @ [f]) \<and> legit (gs @ [f]) \<and> gs \<noteq> [] \<and> d = reassembled (gs @ [f])))) \<and>
     (r = SKB_OVER_PANIC \<longrightarrow>
        (\<exists>gs. subseq (gs @ [f]) (H @ [f]) \<and> legit (gs @ [f]) \<and>
           65536 \<le> length (concat (map pulled (tl (gs @ [f]))))))"
proof -
  let ?fc = "frame_control (rf_data f)"
  have mono: "cache_inv (H @ [f]) c"
    using assms(1) entry_ok_mono by (auto simp: cache_inv_def)
  consider (pass) "\<not> fragmented f" "c' = c" "r = RX_CONTINUE (rf_data f)"
    | (drop) why where "c' = c" "r = RX_DROP why"
    | (first) c1 i where "frag_no f = 0" "r = RX_QUEUED"
        "ieee80211_reassemble_add c (frag_no f) (frag_seq f) f jiffies = (c1, i)"
        "c' = c1\<lparr>entries := (entries c1)[i := note_protection f (entries c1 ! i)]\<rparr>"
    | (none) "ieee80211_reassemble_find c (frag_no f) (frag_seq f) (rf_seqno_idx f) (rf_data f) jiffies = (c', None)"
        "r = RX_DROP RX_DROP_MONITOR"
    | (bad) i why where "r = RX_DROP why"
        "ieee80211_reassemble_find c (frag_no f) (frag_seq f) (rf_seqno_idx f) (rf_data f) jiffies = (c', Some i)"
    | (append) c1 i e e1 where
        "ieee80211_reassemble_find c (frag_no f) (frag_seq f) (rf_seqno_idx f) (rf_data f) jiffies = (c1, Some i)"
        "check_fragment f (entries c1 ! i) = Inr e"
        "e1 = e\<lparr>skb_list := skb_list e @ [pulled f], last_frag := frag_no f,
               extra_len := extra_len e + of_nat (length (pulled f))\<rparr>"
        "(if ieee80211_has_morefrags ?fc then (c1\<lparr>entries := (entries c1)[i := e1]\<rparr>, RX_QUEUED)
          else (c1\<lparr>entries := (entries c1)[i := e1\<lparr>skb_list := []\<rparr>]\<rparr>, finish_frame f e1)) = (c', r)"
    using assms(2) unfolding ieee80211_rx_h_defragment_def fragmented_def Let_def
    by (simp split: if_splits prod.splits option.splits sum.splits) blast+
  then show ?thesis
  proof cases
    case first
    then show ?thesis using add_ok [OF assms(1) first(1,3)] by simp
  next
    case append
    have es: "length (entries c1) = 4" "\<forall>x \<in> set (entries c1). entry_ok H x" "cache_next c1 = cache_next c" "i < 4"
        "skb_list (entries c1 ! i) \<noteq> []" "e_seq (entries c1 ! i) = frag_seq f"
        "rx_queue (entries c1 ! i) = rf_seqno_idx f" "unat (last_frag (entries c1 ! i)) + 1 = unat (frag_no f)"
        "same_frame (rf_data f) (hd (skb_list (entries c1 ! i)))"
      using append(1) assms(1) search_ok [where H = H and es = "entries c" and n = 4 and idx = "cache_next c"]
      by (fastforce simp: ieee80211_reassemble_find_def cache_inv_def split: prod.splits)+
    obtain gs where gs: "subseq gs H" "built gs (entries c1 ! i)"
      using es(1,2,4,5) by (auto simp: entry_ok_def)
    have b: "built (gs @ [f]) e1"
      unfolding append(3) by (rule check_fragment_built [OF gs(2) append(2) es(8,6,7,9)])
    have sub: "subseq (gs @ [f]) (H @ [f])" using gs(1) by simp
    have ne: "gs \<noteq> []" "legit (gs @ [f])" using gs(2) b by (auto simp: built_def legit_def)
    have old: "\<forall>x \<in> set (entries c1). entry_ok (H @ [f]) x" using es(2) entry_ok_mono by blast
    have upd: "entry_ok (H @ [f]) e1" using b sub unfolding entry_ok_def by blast
    have "cache_inv (H @ [f]) c'"
      using append(4) es(1,3) assms(1) set_update_ok [OF old upd, of i]
        set_update_ok [OF old entry_ok_empty, of "e1\<lparr>skb_list := []\<rparr>" i]
      by (auto simp: cache_inv_def split: if_splits)
    moreover have "r = RX_QUEUED \<or> finish_frame f e1 = r" using append(4) by (auto split: if_splits)
    ultimately show ?thesis
      using finish_built [OF b, of f] sub ne by auto
  qed (use mono assms(1) search_ok [where H = H and es = "entries c" and n = 4 and idx = "cache_next c"] entry_ok_mono
      in \<open>fastforce simp: ieee80211_reassemble_find_def cache_inv_def split: prod.splits\<close>)+
qed

end
