(* ===== verification/PacketNumber.thy ===== *)
theory PacketNumber
  imports Prelude
begin

text \<open>
  Packet numbers of the frame protection: 48-bit counters kept as six bytes with the most significant
  one first, compared with \<open>memcmp\<close>. The locale at the end is what a receiver with a replay counter
  promises; its client lemma is that no packet number is accepted twice.
\<close>


section \<open>Big-endian numbers and memcmp\<close>

fun pn_val_rev :: "u8 list \<Rightarrow> nat" where
  "pn_val_rev [] = 0"
| "pn_val_rev (b # bs) = unat b + 256 * pn_val_rev bs"

definition pn_val :: "u8 list \<Rightarrow> nat" where
  "pn_val pn = pn_val_rev (rev pn)"

text \<open>The C function: the sign of the difference of the first bytes that differ.\<close>

fun memcmp :: "u8 list \<Rightarrow> u8 list \<Rightarrow> int" where
  "memcmp (a # as) (b # bs) = (if a = b then memcmp as bs else if a < b then - 1 else 1)"
| "memcmp _ _ = 0"

lemma pn_val_rev_append: "pn_val_rev (xs @ ys) = pn_val_rev xs + 256 ^ length xs * pn_val_rev ys"
  by (induction xs) (simp_all add: algebra_simps)

lemma pn_val_Nil [simp]: "pn_val [] = 0"
  by (simp add: pn_val_def)

lemma pn_val_Cons: "pn_val (b # bs) = unat b * 256 ^ length bs + pn_val bs"
  by (simp add: pn_val_def pn_val_rev_append)

lemma pn_val_bound: "pn_val bs < 256 ^ length bs"
proof (induction bs)
  case (Cons b bs)
  have "unat b + 1 \<le> 256" using unsigned_less [of b, where 'a = nat] by simp
  then have "(unat b + 1) * 256 ^ length bs \<le> 256 * 256 ^ length bs"
    by (rule mult_le_mono1)
  then have "unat b * 256 ^ length bs + 256 ^ length bs \<le> 256 ^ length (b # bs)" by simp
  then show ?case using Cons unfolding pn_val_Cons by linarith
qed simp

lemma digit_less:
  fixes a b x y B :: nat
  assumes "x < B" "y < B" "a < b"
  shows "a * B + x < b * B + y"
proof -
  have "(a + 1) * B \<le> b * B" using assms(3) by (intro mult_le_mono1) simp
  then show ?thesis using assms(1) by simp
qed

lemma memcmp_pn_val:
  "length as = length bs \<Longrightarrow>
   (memcmp as bs < 0 \<longleftrightarrow> pn_val as < pn_val bs) \<and> (memcmp as bs = 0 \<longleftrightarrow> as = bs) \<and>
   (memcmp as bs > 0 \<longleftrightarrow> pn_val as > pn_val bs)"
proof (induction as bs rule: memcmp.induct)
  case (1 a as b bs)
  have bounds: "pn_val as < 256 ^ length bs" "pn_val bs < 256 ^ length bs"
    using 1 pn_val_bound [of as] pn_val_bound [of bs] by simp_all
  show ?case
  proof (cases a b rule: linorder_cases)
    case less
    with digit_less [OF bounds, of "unat a" "unat b"] 1 show ?thesis
      by (auto simp: pn_val_Cons word_less_nat_alt)
  next
    case greater
    with digit_less [OF bounds(2,1), of "unat b" "unat a"] 1 show ?thesis
      by (auto simp: pn_val_Cons word_less_nat_alt)
  next
    case equal
    with 1 show ?thesis by (simp add: pn_val_Cons)
  qed
qed simp_all

lemma pn_val_inj: "length as = length bs \<Longrightarrow> pn_val as = pn_val bs \<longleftrightarrow> as = bs"
  using memcmp_pn_val [of as bs] by (metis less_irrefl linorder_neqE_linordered_idom)


section \<open>The counter of the transmitter\<close>

text \<open>The bytes \<open>pn[0]\<close> to \<open>pn[5]\<close> that the transmit handlers fill from \<open>pn64\<close>: its low 48 bits.\<close>

definition pn_of_u64 :: "u64 \<Rightarrow> u8 list" where
  "pn_of_u64 pn64 =
     [ucast (drop_bit 40 pn64), ucast (drop_bit 32 pn64), ucast (drop_bit 24 pn64), ucast (drop_bit 16 pn64),
      ucast (drop_bit 8 pn64), ucast pn64]"

lemma length_pn_of_u64 [simp]: "length (pn_of_u64 p) = 6"
  by (simp add: pn_of_u64_def)

lemma unat_byte: "unat (ucast (drop_bit n (p :: u64)) :: u8) = unat p div 2 ^ n mod 256"
  by (simp add: unsigned_ucast_eq take_bit_eq_mod unat_drop_bit del: drop_bit_eq_div)

lemma base256: "(n :: nat) mod 256 + 256 * (n div 256 mod B) = n mod (256 * B)"
  by (simp add: mod_mult2_eq)

lemma pn_val_of_u64: "pn_val (pn_of_u64 p) = unat p mod 2 ^ 48"
proof -
  let ?n = "unat p"
  have d: "?n div 2 ^ 16 = ?n div 256 div 256" "?n div 2 ^ 24 = ?n div 256 div 256 div 256"
      "?n div 2 ^ 32 = ?n div 256 div 256 div 256 div 256"
      "?n div 2 ^ 40 = ?n div 256 div 256 div 256 div 256 div 256"
    by (simp_all flip: div_mult2_eq)
  have "pn_val (pn_of_u64 p)
      = ?n mod 256 + 256 * (?n div 2 ^ 8 mod 256 + 256 * (?n div 2 ^ 16 mod 256 + 256 * (?n div 2 ^ 24 mod 256
          + 256 * (?n div 2 ^ 32 mod 256 + 256 * (?n div 2 ^ 40 mod 256)))))"
    using unat_byte [of 0 p] by (simp add: pn_val_def pn_of_u64_def unat_byte)
  also have "\<dots> = ?n mod 2 ^ 48"
    unfolding d by (simp add: base256)
  finally show ?thesis .
qed


section \<open>Replay counters\<close>

text \<open>The frames that a receiver lets through, among those the replay check applies to.\<close>

primrec accepted :: "('f \<Rightarrow> 'k \<Rightarrow> 'k \<times> bool) \<Rightarrow> ('f \<Rightarrow> bool) \<Rightarrow> 'k \<Rightarrow> 'f list \<Rightarrow> 'f list" where
  "accepted recv checked k [] = []"
| "accepted recv checked k (f # fs) =
     (if checked f \<and> snd (recv f k) then [f] else []) @ accepted recv checked (fst (recv f k)) fs"

text \<open>A receiver keeps one counter per queue in its key. Counters never go back; a frame under the
  check is accepted only above the counter of its queue, which it then becomes.\<close>

locale replay_counter =
  fixes recv :: "'f \<Rightarrow> 'k \<Rightarrow> 'k \<times> bool"
    and counter :: "'k \<Rightarrow> nat \<Rightarrow> int"
    and queue :: "'f \<Rightarrow> nat"
    and pn :: "'f \<Rightarrow> int"
    and checked :: "'f \<Rightarrow> bool"
    and wf_key :: "'k \<Rightarrow> bool"
  assumes wf_recv: "wf_key k \<Longrightarrow> wf_key (fst (recv f k))"
    and counter_mono: "wf_key k \<Longrightarrow> counter k q \<le> counter (fst (recv f k)) q"
    and accept_above: "wf_key k \<Longrightarrow> checked f \<Longrightarrow> snd (recv f k) \<Longrightarrow> counter k (queue f) < pn f"
    and accept_stored: "wf_key k \<Longrightarrow> checked f \<Longrightarrow> snd (recv f k) \<Longrightarrow> counter (fst (recv f k)) (queue f) = pn f"
begin

lemma accepted_above:
  "wf_key k \<Longrightarrow> f \<in> set (accepted recv checked k fs) \<Longrightarrow> counter k (queue f) < pn f"
proof (induction fs arbitrary: k)
  case (Cons g fs)
  show ?case
  proof (cases "f = g \<and> checked g \<and> snd (recv g k)")
    case True
    then show ?thesis using accept_above [of k g] Cons.prems(1) by simp
  next
    case False
    then have "f \<in> set (accepted recv checked (fst (recv g k)) fs)"
      using Cons.prems(2) by (auto split: if_splits)
    then have "counter (fst (recv g k)) (queue f) < pn f"
      using Cons.IH wf_recv [OF Cons.prems(1)] by blast
    then show ?thesis using counter_mono [OF Cons.prems(1), of "queue f" g] by linarith
  qed
qed simp

theorem no_replay:
  "wf_key k \<Longrightarrow> sorted_wrt (<) (map pn (filter (\<lambda>f. queue f = q) (accepted recv checked k fs)))"
proof (induction fs arbitrary: k)
  case (Cons g fs)
  note wf' = wf_recv [OF Cons.prems, of g]
  have "pn g < pn f" if "checked g" "snd (recv g k)" "f \<in> set (accepted recv checked (fst (recv g k)) fs)"
      "queue f = queue g" for f
    using accepted_above [OF wf' that(3)] accept_stored [OF Cons.prems that(1,2)] that(4) by simp
  then show ?case using Cons.IH [OF wf'] by auto
qed simp

end

end
