(* ===== verification/DefragProps.thy ===== *)
theory DefragProps
  imports DefragInv PacketNumber
begin

text \<open>
  The properties of defragmentation over whole sequences of received frames, the round trip with
  the transmit side, and the two places where the code does less than it should.
\<close>


section \<open>Runs\<close>

text \<open>The cache after a sequence of frames, and the result of the last one.\<close>

fun defrag_run :: "fragment_cache \<Rightarrow> (rx_frag \<times> u64) list \<Rightarrow> fragment_cache" where
  "defrag_run c [] = c"
| "defrag_run c ((f, jiffies) # fs) = defrag_run (fst (ieee80211_rx_h_defragment c f jiffies)) fs"

lemma defrag_run_inv: "cache_inv H c \<Longrightarrow> cache_inv (H @ map fst fs) (defrag_run c fs)"
proof (induction c fs arbitrary: H rule: defrag_run.induct)
  case (2 c f jiffies fs)
  obtain c1 r where "ieee80211_rx_h_defragment c f jiffies = (c1, r)" by fastforce
  then show ?case using "2.IH" [of "H @ [f]"] defragment_step [OF "2.prems"] by simp
qed simp

text \<open>A frame of a data MSDU as the examples use it: to one station, from another.\<close>

definition frag_frame :: "bool \<Rightarrow> bool \<Rightarrow> u16 \<Rightarrow> u8 list \<Rightarrow> u8 list" where
  "frag_frame mf sec sc body =
     [8, (if mf then 4 else 0) OR (if sec then 0x40 else 0), 0, 0] @ [2, 0, 0, 0, 0, 1] @ [2, 0, 0, 0, 0, 2]
       @ [2, 0, 0, 0, 0, 3] @ put_le16 sc @ body"

definition plain_frag :: "bool \<Rightarrow> u16 \<Rightarrow> u8 list \<Rightarrow> rx_frag" where
  "plain_frag mf sc body =
     \<lparr>rf_data = frag_frame mf False sc body, rf_key = None, rf_pn = [], rf_seqno_idx = 0, rf_decrypted = False,
      rf_tailroom = 64, rf_linearize_ok = True, rf_expand_ok = True\<rparr>"

definition ccmp_frag :: "u32 \<Rightarrow> u8 list \<Rightarrow> bool \<Rightarrow> u16 \<Rightarrow> u8 list \<Rightarrow> rx_frag" where
  "ccmp_frag col pn mf sc body =
     \<lparr>rf_data = frag_frame mf True sc body,
      rf_key = Some \<lparr>key_seq_pn = True, key_color = col, key_rx_pn = pn\<rparr>, rf_pn = pn, rf_seqno_idx = 0,
      rf_decrypted = True, rf_tailroom = 64, rf_linearize_ok = True, rf_expand_ok = True\<rparr>"

text \<open>C7: No mixing of fragments. Whatever frames a station sends, a reassembled frame consists of
  received fragments, in the order received, with fragment numbers 0, 1, 2, ... of one sequence
  number, queue, type and address pair. If the first fragment was protected then all were, with the
  same key, and under CCMP or GCMP their packet numbers go up in steps of one. Nothing is promised of
  the keys when the first fragment came in the clear: \<open>clear_first_fragment_mixes\<close>.\<close>

theorem defragment_no_mixing:
  assumes "ieee80211_rx_h_defragment (defrag_run ieee80211_init_frag_cache fs) f jiffies = (c', RX_CONTINUE d)"
    and "fragmented f"
  shows "\<exists>gs. subseq (gs @ [f]) (map fst fs @ [f]) \<and> legit (gs @ [f]) \<and> gs \<noteq> [] \<and> d = reassembled (gs @ [f])"
  using defragment_step [OF defrag_run_inv [OF frag_init_inv, of fs] assms(1)] assms(2) by simp

theorem defragment_no_mixing_witness:
  "\<exists>gs. subseq (gs @ [ccmp_frag 5 [0, 0, 0, 0, 1, 0] False 0x11 [3]])
       ([ccmp_frag 5 [0, 0, 0, 0, 0, 255] True 0x10 [1, 2]] @ [ccmp_frag 5 [0, 0, 0, 0, 1, 0] False 0x11 [3]]) \<and>
     legit (gs @ [ccmp_frag 5 [0, 0, 0, 0, 1, 0] False 0x11 [3]]) \<and> gs \<noteq> [] \<and>
     frag_frame True True 0x10 [1, 2, 3] = reassembled (gs @ [ccmp_frag 5 [0, 0, 0, 0, 1, 0] False 0x11 [3]])"
proof -
  let ?f = "ccmp_frag 5 [0, 0, 0, 0, 1, 0] False 0x11 [3]"
  let ?fs = "[(ccmp_frag 5 [0, 0, 0, 0, 0, 255] True 0x10 [1, 2], 0)] :: (rx_frag \<times> u64) list"
  have "snd (ieee80211_rx_h_defragment (defrag_run ieee80211_init_frag_cache ?fs) ?f 1)
      = RX_CONTINUE (frag_frame True True 0x10 [1, 2, 3])"
    by code_simp
  then obtain c' where run: "ieee80211_rx_h_defragment (defrag_run ieee80211_init_frag_cache ?fs) ?f 1
      = (c', RX_CONTINUE (frag_frame True True 0x10 [1, 2, 3]))"
    by (metis prod.collapse)
  have "fragmented ?f" by code_simp
  from defragment_no_mixing [OF run this] show ?thesis by simp
qed

text \<open>The protection of a frame is noted from its first fragment only: a first fragment in the clear is
  completed by protected ones of two different keys.\<close>

theorem clear_first_fragment_mixes:
  "snd (ieee80211_rx_h_defragment
      (defrag_run ieee80211_init_frag_cache
         [(plain_frag True 0x10 [1, 2], 0), (ccmp_frag 5 [0, 0, 0, 0, 0, 9] True 0x11 [3], 0)])
      (ccmp_frag 6 [0, 0, 0, 0, 0, 2] False 0x12 [4]) 1)
   = RX_CONTINUE (frag_frame True False 0x10 [1, 2, 3, 4])"
  by code_simp


section \<open>Packet numbers\<close>

lemma pn_inc_rev_val:
  "pn_val_rev (pn_inc_rev bs) = (pn_val_rev bs + 1) mod 256 ^ length bs \<and> length (pn_inc_rev bs) = length bs \<and>
   pn_val_rev bs < 256 ^ length bs"
proof (induction bs)
  case (Cons b bs)
  have ub: "unat b < 256" using unsigned_less [of b, where 'a = nat] by simp
  have bound: "unat b + 256 * pn_val_rev bs < 256 * 256 ^ length bs" using Cons ub by simp
  show ?case
  proof (cases "b + 1 = 0")
    case True
    then have "b = - 1" by (simp add: eq_neg_iff_add_eq_0)
    then have b255: "unat b = 255" by (simp add: unsigned_minus_1_eq_mask mask_eq_exp_minus_1)
    have "(unat b + 256 * pn_val_rev bs + 1) mod (256 * 256 ^ length bs) = 256 * ((pn_val_rev bs + 1) mod 256 ^ length bs)"
      using b255 by (simp add: mult_mod_right)
    then show ?thesis using True Cons bound b255 by simp
  next
    case False
    then have "unat (b + 1) = unat b + 1" by (metis unatSuc add.commute Suc_eq_plus1)
    moreover have "unat b < 255" 
      using calculation unsigned_less [of "b + 1", where 'a = nat] by simp
    moreover have "unat b + 1 + 256 * pn_val_rev bs < 256 * 256 ^ length bs"
      using calculation(2) Cons by linarith
    then have m: "(unat b + 256 * pn_val_rev bs + 1) mod (256 * 256 ^ length bs) = unat b + 1 + 256 * pn_val_rev bs"
      by (subst mod_less) simp_all
    moreover have "pn_val_rev (pn_inc_rev (b # bs)) = unat (b + 1) + 256 * pn_val_rev bs" using False by simp
    ultimately have "pn_val_rev (pn_inc_rev (b # bs)) = (unat b + 256 * pn_val_rev bs + 1) mod (256 * 256 ^ length bs)"
      using m by linarith
    then show ?thesis using False bound by simp
  qed
qed simp

text \<open>The packet number a continuation must carry is the previous one plus one, as a 48-bit
  big-endian number.\<close>

theorem pn_inc_is_successor:
  assumes "length pn = 6"
  shows "pn_val (pn_inc pn) = (pn_val pn + 1) mod 2 ^ 48 \<and> length (pn_inc pn) = 6"
  using pn_inc_rev_val [of "rev pn"] assms by (simp add: pn_val_def pn_inc_def)

theorem pn_inc_is_successor_witness:
  "pn_val (pn_inc [0, 0, 0, 0, 1, 255]) = (pn_val [0, 0, 0, 0, 1, 255] + 1) mod 2 ^ 48 \<and>
   length (pn_inc [0, 0, 0, 0, 1, 255]) = 6"
  by (rule pn_inc_is_successor) simp



section \<open>Completeness\<close>

fun defrag_results :: "fragment_cache \<Rightarrow> (rx_frag \<times> u64) list \<Rightarrow> defrag_result list" where
  "defrag_results c [] = []"
| "defrag_results c ((f, jiffies) # fs) =
     (case ieee80211_rx_h_defragment c f jiffies of (c', r) \<Rightarrow> r # defrag_results c' fs)"

text \<open>The slot the last first fragment went to, and the slot the next one will go to.\<close>

definition newest :: "fragment_cache \<Rightarrow> nat" where
  "newest c = (if cache_next c = 0 then IEEE80211_FRAGMENT_MAX - 1 else cache_next c - 1)"

text \<open>A frame the handler takes as a fragment, with its memory allocations succeeding.\<close>

definition acceptable :: "rx_frag \<Rightarrow> bool" where
  "acceptable f \<longleftrightarrow> fragmented f \<and> \<not> is_multicast_ether_addr (addr1 (rf_data f)) \<and> rf_linearize_ok f \<and> rf_expand_ok f"

definition pending :: "rx_frag list \<Rightarrow> u64 \<Rightarrow> fragment_cache \<Rightarrow> bool" where
  "pending gs t c \<longleftrightarrow>
     length (entries c) = IEEE80211_FRAGMENT_MAX \<and> cache_next c < IEEE80211_FRAGMENT_MAX \<and>
     built gs (entries c ! newest c) \<and> first_frag_time (entries c ! newest c) = t \<and>
     (is_protected (entries c ! newest c) \<longrightarrow> prot (hd gs))"

lemma newest_update [simp]: "newest (c\<lparr>entries := es\<rparr>) = newest c"
  by (simp add: newest_def)

text \<open>A legitimate continuation of the newest entry is found and passes the checks.\<close>

lemma legit_accepted:
  assumes "pending gs t c" "legit (gs @ [f])" "\<not> time_after jiffies (t + FRAG_TIMEOUT)"
  shows "ieee80211_reassemble_find c (frag_no f) (frag_seq f) (rf_seqno_idx f) (rf_data f) jiffies = (c, Some (newest c))"
    and "\<exists>e. check_fragment f (entries c ! newest c) = Inr e \<and> first_frag_time e = t \<and>
           is_protected e = is_protected (entries c ! newest c) \<and> skb_list e \<noteq> []"
proof -
  let ?e = "entries c ! newest c"
  have b: "built gs ?e" "first_frag_time ?e = t" "is_protected ?e \<longrightarrow> prot (hd gs)"
    using assms(1) by (simp_all add: pending_def)
  then have ne: "gs \<noteq> []" by (auto simp: built_def legit_def)
  have l: "unat (frag_no f) = length gs" "frag_seq f = frag_seq (hd gs)" "rf_seqno_idx f = rf_seqno_idx (hd gs)"
      "same_frame (rf_data f) (rf_data (hd gs))"
      "requires_sequential_pn (hd gs) \<Longrightarrow> requires_sequential_pn f \<and> rf_pn f = (pn_inc ^^ length gs) (first_pn (hd gs))"
      "prot (hd gs) \<Longrightarrow> prot f \<and> color f = color (hd gs)"
    using legit_last [OF assms(2) ne] ne by (auto simp: frag_link_def)
  have find: "skb_list ?e \<noteq> []" "e_seq ?e = frag_seq f" "rx_queue ?e = rf_seqno_idx f"
      "unat (last_frag ?e) + 1 = unat (frag_no f)" "same_frame (rf_data f) (hd (skb_list ?e))"
    using b(1) l ne by (simp_all add: built_def)
  have "reassemble_search (Suc 3) (cache_next c) (entries c) (frag_no f) (frag_seq f) (rf_seqno_idx f) (rf_data f) jiffies
      = (entries c, Some (newest c))"
    unfolding reassemble_search.simps newest_def [symmetric] Let_def using find b(2) assms(3) by simp
  then show "ieee80211_reassemble_find c (frag_no f) (frag_seq f) (rf_seqno_idx f) (rf_data f) jiffies = (c, Some (newest c))"
    by (simp add: ieee80211_reassemble_find_def eval_nat_numeral)
  have pw: "pn_inc ((pn_inc ^^ (length gs - 1)) p) = (pn_inc ^^ length gs) p" for p
    using ne by (cases gs) auto
  show "\<exists>e. check_fragment f ?e = Inr e \<and> first_frag_time e = t \<and> is_protected e = is_protected ?e \<and> skb_list e \<noteq> []"
  proof (cases "requires_sequential_pn (hd gs)")
    case True
    then show ?thesis
      using b find(1) l(5) l(6) [OF seq_pn_prot [OF True]] pw seq_pn_prot [OF True]
      by (auto simp: built_def check_fragment_def requires_sequential_pn_def [of f] color_def split: option.splits)
  next
    case False
    then show ?thesis
      using b find(1) l(6)
      by (auto simp: built_def check_fragment_def Let_def prot_def [of f] color_def [of f])
  qed
qed


text \<open>One step along a legitimate list: the fragment is queued, or it is the last and the frame is
  delivered.\<close>

lemma pending_step:
  assumes "pending gs t c" "legit (gs @ [f])" "\<not> time_after jiffies (t + FRAG_TIMEOUT)" "acceptable f"
    and "length (concat (map pulled (tl (gs @ [f])))) < 65536"
  shows "ieee80211_has_morefrags (frame_control (rf_data f)) \<Longrightarrow>
           \<exists>c'. ieee80211_rx_h_defragment c f jiffies = (c', RX_QUEUED) \<and> pending (gs @ [f]) t c'"
    and "\<not> ieee80211_has_morefrags (frame_control (rf_data f)) \<Longrightarrow>
           \<exists>c'. ieee80211_rx_h_defragment c f jiffies = (c', RX_CONTINUE (reassembled (gs @ [f])))"
proof -
  let ?e = "entries c ! newest c"
  obtain e where e: "check_fragment f ?e = Inr e" "first_frag_time e = t" "is_protected e = is_protected ?e"
    using legit_accepted(2) [OF assms(1-3)] by blast
  define e1 where "e1 = e\<lparr>skb_list := skb_list e @ [pulled f], last_frag := frag_no f,
      extra_len := extra_len e + of_nat (length (pulled f))\<rparr>"
  have p: "length (entries c) = 4" "cache_next c < 4" "built gs ?e" "is_protected ?e \<longrightarrow> prot (hd gs)"
    using assms(1) by (simp_all add: pending_def)
  then have ne: "gs \<noteq> []" by (auto simp: built_def legit_def)
  have l: "unat (frag_no f) = length gs" "frag_seq f = frag_seq (hd gs)" "rf_seqno_idx f = rf_seqno_idx (hd gs)"
      "same_frame (rf_data f) (rf_data (hd gs))"
    using legit_last [OF assms(2) ne] by (auto simp: frag_link_def)
  have b: "built (gs @ [f]) e1"
    unfolding e1_def by (rule check_fragment_built [OF p(3) e(1)]) (use p(3) l ne in \<open>auto simp: built_def\<close>)
  have frag: "frag_no f \<noteq> 0" using l(1) ne by auto
  have run: "ieee80211_rx_h_defragment c f jiffies =
      (if ieee80211_has_morefrags (frame_control (rf_data f)) then (c\<lparr>entries := (entries c)[newest c := e1]\<rparr>, RX_QUEUED)
       else (c\<lparr>entries := (entries c)[newest c := e1\<lparr>skb_list := []\<rparr>]\<rparr>, finish_frame f e1))"
    using assms(4) frag legit_accepted(1) [OF assms(1-3)] e(1)
    by (simp add: ieee80211_rx_h_defragment_def acceptable_def fragmented_def Let_def e1_def)
  have "newest c < 4" using p(2) by (auto simp: newest_def)
  moreover have "first_frag_time e1 = t" "is_protected e1 \<longrightarrow> prot (hd (gs @ [f]))"
    using e p(4) ne by (auto simp: e1_def)
  ultimately have "pending (gs @ [f]) t (c\<lparr>entries := (entries c)[newest c := e1]\<rparr>)"
    using p(1,2) b by (simp add: pending_def)
  then show "ieee80211_has_morefrags (frame_control (rf_data f)) \<Longrightarrow>
      \<exists>c'. ieee80211_rx_h_defragment c f jiffies = (c', RX_QUEUED) \<and> pending (gs @ [f]) t c'"
    using run by simp
  have "finish_frame f e1 \<noteq> SKB_OVER_PANIC" using finish_built(2) [OF b, of f] assms(5) by linarith
  then obtain d where "finish_frame f e1 = RX_CONTINUE d"
    using assms(4) by (auto simp: finish_frame_def Let_def acceptable_def split: if_splits)
  then have "finish_frame f e1 = RX_CONTINUE (reassembled (gs @ [f]))" using finish_built(1) [OF b, of f] by simp
  then show "\<not> ieee80211_has_morefrags (frame_control (rf_data f)) \<Longrightarrow>
      \<exists>c'. ieee80211_rx_h_defragment c f jiffies = (c', RX_CONTINUE (reassembled (gs @ [f])))"
    using run by simp
qed

text \<open>The first fragment becomes the newest entry. A flag left by a protected frame that used the slot
  before is the one thing that spoils it.\<close>

lemma pending_first:
  assumes "length (entries c) = IEEE80211_FRAGMENT_MAX" "cache_next c < IEEE80211_FRAGMENT_MAX"
    and "acceptable f" "frag_no f = 0" "is_protected (entries c ! cache_next c) \<longrightarrow> prot f"
  shows "\<exists>c'. ieee80211_rx_h_defragment c f jiffies = (c', RX_QUEUED) \<and> pending [f] jiffies c'"
proof -
  obtain c1 i where add: "ieee80211_reassemble_add c (frag_no f) (frag_seq f) f jiffies = (c1, i)" by fastforce
  let ?e = "entries c1 ! i"
  have "newest c1 = i"
    using add assms(1,2) by (cases "cache_next c = 3") (auto simp: ieee80211_reassemble_add_def Let_def newest_def)
  moreover have "length (entries c1) = 4" "i < 4" "cache_next c1 < 4" "skb_list ?e = [rf_data f]"
      "e_seq ?e = frag_seq f" "rx_queue ?e = rf_seqno_idx f" "last_frag ?e = 0" "\<not> check_sequential_pn ?e"
      "extra_len ?e = 0" "first_frag_time ?e = jiffies" "is_protected ?e = is_protected (entries c ! cache_next c)"
    using add assms(1,2,4) by (auto simp: ieee80211_reassemble_add_def Let_def newest_def)
  ultimately have c1: "newest c1 = i" "length (entries c1) = 4" "i < 4" "cache_next c1 < 4" "skb_list ?e = [rf_data f]"
      "e_seq ?e = frag_seq f" "rx_queue ?e = rf_seqno_idx f" "last_frag ?e = 0" "\<not> check_sequential_pn ?e"
      "extra_len ?e = 0" "first_frag_time ?e = jiffies" "is_protected ?e = is_protected (entries c ! cache_next c)"
    by simp_all
  have b: "built [f] (note_protection f ?e)"
    using c1 legit_single [OF assms(4)]
    by (auto simp: built_def note_protection_def requires_sequential_pn_def prot_def color_def first_pn_def
        split: option.splits)
  have "first_frag_time (note_protection f ?e) = jiffies" "is_protected (note_protection f ?e) \<longrightarrow> prot f"
    using c1 assms(5)
    by (auto simp: note_protection_def prot_def requires_sequential_pn_def split: option.splits)
  then have "pending [f] jiffies (c1\<lparr>entries := (entries c1)[i := note_protection f ?e]\<rparr>)"
    using b c1 by (simp add: pending_def)
  moreover have "ieee80211_rx_h_defragment c f jiffies =
      (c1\<lparr>entries := (entries c1)[i := note_protection f ?e]\<rparr>, RX_QUEUED)"
    using assms(3,4) add by (simp add: ieee80211_rx_h_defragment_def acceptable_def fragmented_def Let_def)
  ultimately show ?thesis by blast
qed


lemma pulled_total_mono:
  "gs \<noteq> [] \<Longrightarrow> length (concat (map pulled (tl (gs @ [f])))) \<le> length (concat (map pulled (tl (gs @ f # hs))))"
  by simp

lemma pending_run:
  assumes "pending gs t c" "legit (gs @ map fst fs @ [f])"
    and "\<forall>(g, j) \<in> set fs. acceptable g \<and> ieee80211_has_morefrags (frame_control (rf_data g)) \<and> \<not> time_after j (t + FRAG_TIMEOUT)"
    and "acceptable f" "\<not> ieee80211_has_morefrags (frame_control (rf_data f))" "\<not> time_after jiffies (t + FRAG_TIMEOUT)"
    and "length (concat (map pulled (tl (gs @ map fst fs @ [f])))) < 65536"
  shows "defrag_results c (fs @ [(f, jiffies)])
       = replicate (length fs) RX_QUEUED @ [RX_CONTINUE (reassembled (gs @ map fst fs @ [f]))]"
  using assms
proof (induction fs arbitrary: gs c)
  case Nil
  then show ?case using pending_step(2) [OF Nil(1) _ Nil(6,4)] by auto
next
  case (Cons gj fs)
  obtain g j where gj: "gj = (g, j)" by fastforce
  have ne: "gs \<noteq> []" using Cons.prems(1) by (auto simp: pending_def built_def legit_def)
  have lg: "legit (gs @ [g])"
    using legit_prefix [of "gs @ [g]" "map fst fs @ [f]"] Cons.prems(2) gj by simp
  have g: "acceptable g" "ieee80211_has_morefrags (frame_control (rf_data g))" "\<not> time_after j (t + FRAG_TIMEOUT)"
    using Cons.prems(3) gj by simp_all
  have "length (concat (map pulled (tl (gs @ [g])))) < 65536"
    using pulled_total_mono [OF ne, of g "map fst fs @ [f]"] Cons.prems(7) gj by simp
  from pending_step(1) [OF Cons.prems(1) lg g(3,1) this g(2)] obtain c' where
    c': "ieee80211_rx_h_defragment c g j = (c', RX_QUEUED)" "pending (gs @ [g]) t c'" by blast
  from Cons.IH [OF c'(2)] Cons.prems gj show ?case using c'(1) by simp
qed

lemma pending_complete:
  assumes "legit (g # map fst fs @ [f])"
    and "length (entries c) = IEEE80211_FRAGMENT_MAX" "cache_next c < IEEE80211_FRAGMENT_MAX"
    and "is_protected (entries c ! cache_next c) \<longrightarrow> prot g"
    and "acceptable g" "ieee80211_has_morefrags (frame_control (rf_data g))"
    and "\<forall>(h, j) \<in> set fs. acceptable h \<and> ieee80211_has_morefrags (frame_control (rf_data h)) \<and> \<not> time_after j (t + FRAG_TIMEOUT)"
    and "acceptable f" "\<not> ieee80211_has_morefrags (frame_control (rf_data f))" "\<not> time_after jiffies (t + FRAG_TIMEOUT)"
    and "length (concat (map pulled (map fst fs @ [f]))) < 65536"
  shows "defrag_results c ((g, t) # fs @ [(f, jiffies)])
       = replicate (Suc (length fs)) RX_QUEUED @ [RX_CONTINUE (reassembled (g # map fst fs @ [f]))]"
proof -
  have "frag_no g = 0" using assms(1) by (auto simp: legit_def frag_link_def unat_eq_zero)
  from pending_first [OF assms(2,3,5) this assms(4)] obtain c' where
    c': "ieee80211_rx_h_defragment c g t = (c', RX_QUEUED)" "pending [g] t c'" by blast
  have "length (concat (map pulled (tl ([g] @ map fst fs @ [f])))) < 65536" using assms(11) by simp
  from pending_run [OF c'(2) _ assms(7-10) this] assms(1) show ?thesis using c'(1) by simp
qed

text \<open>C32: Completeness. Fragments that form a legitimate list (numbers 0, 1, 2, ..., one sequence
  number, queue, type and address pair, one key with consecutive packet numbers), all but the last
  with more-fragments set, received within two seconds of the first and with less than 64 KiB of
  continuation data, are reassembled into exactly their frame whatever the cache held before, if a
  frame without protection does not meet a slot still marked as protected.\<close>

theorem defragment_complete:
  assumes "legit (g # map fst fs @ [f])"
    and "length (entries c) = IEEE80211_FRAGMENT_MAX" "cache_next c < IEEE80211_FRAGMENT_MAX"
    and "is_protected (entries c ! cache_next c) \<longrightarrow> prot g"
    and "acceptable g" "ieee80211_has_morefrags (frame_control (rf_data g))"
    and "\<forall>(h, j) \<in> set fs. acceptable h \<and> ieee80211_has_morefrags (frame_control (rf_data h)) \<and> \<not> time_after j (t + FRAG_TIMEOUT)"
    and "acceptable f" "\<not> ieee80211_has_morefrags (frame_control (rf_data f))" "\<not> time_after jiffies (t + FRAG_TIMEOUT)"
    and "length (concat (map pulled (map fst fs @ [f]))) < 65536"
  shows "defrag_results c ((g, t) # fs @ [(f, jiffies)])
       = replicate (Suc (length fs)) RX_QUEUED @ [RX_CONTINUE (reassembled (g # map fst fs @ [f]))]"
  by (rule pending_complete [OF assms])


theorem defragment_complete_witness:
  "defrag_results ieee80211_init_frag_cache
     ((plain_frag True 0x20 [1, 2], 7) # [(plain_frag True 0x21 [3], 8)] @ [(plain_frag False 0x22 [4, 5], 9)])
   = replicate (Suc (length [(plain_frag True 0x21 [3], 8 :: u64)])) RX_QUEUED @
     [RX_CONTINUE (reassembled (plain_frag True 0x20 [1, 2] # map fst [(plain_frag True 0x21 [3], 8 :: u64)] @
        [plain_frag False 0x22 [4, 5]]))]"
proof (rule defragment_complete)
  show "legit (plain_frag True 0x20 [1, 2] # map fst [(plain_frag True 0x21 [3], 8 :: u64)] @ [plain_frag False 0x22 [4, 5]])"
    by code_simp
  show "length (entries ieee80211_init_frag_cache) = 4" by code_simp
  show "cache_next ieee80211_init_frag_cache < 4" by code_simp
  show "is_protected (entries ieee80211_init_frag_cache ! cache_next ieee80211_init_frag_cache) \<longrightarrow>
      prot (plain_frag True 0x20 [1, 2])" by code_simp
  show "acceptable (plain_frag True 0x20 [1, 2])" by code_simp
  show "ieee80211_has_morefrags (frame_control (rf_data (plain_frag True 0x20 [1, 2])))" by code_simp
  show "\<forall>(h, j) \<in> set [(plain_frag True 0x21 [3], 8 :: u64)]. acceptable h \<and>
      ieee80211_has_morefrags (frame_control (rf_data h)) \<and> \<not> time_after j (7 + 200)" by code_simp
  show "acceptable (plain_frag False 0x22 [4, 5])" by code_simp
  show "\<not> ieee80211_has_morefrags (frame_control (rf_data (plain_frag False 0x22 [4, 5])))" by code_simp
  show "\<not> time_after 9 (7 + 200)" by code_simp
  have "length (concat (map pulled (map fst [(plain_frag True 0x21 [3], 8 :: u64)] @ [plain_frag False 0x22 [4, 5]]))) = 3"
    by code_simp
  then show "length (concat (map pulled (map fst [(plain_frag True 0x21 [3], 8 :: u64)] @ [plain_frag False 0x22 [4, 5]]))) < 65536"
    by linarith
qed


section \<open>Room for the reassembled frame\<close>

lemma frag_no_bound: "unat (frag_no f) < 16"
  using unat_and_mask [of "seq_ctrl (rf_data f)" 4] by (simp add: frag_no_def mask_eq_exp_minus_1)

lemma legit_length: "legit gs \<Longrightarrow> length gs \<le> 16"
  using frag_no_bound [of "gs ! (length gs - 1)"]
  by (cases gs) (auto simp: legit_def frag_link_def dest!: spec [of _ "length gs - 1"])

lemma concat_bound: "\<forall>x \<in> set xs. length (f x) \<le> b \<Longrightarrow> length (concat (map f xs)) \<le> length xs * b"
  by (induction xs) auto

text \<open>No overrun. Whatever is received, as long as no fragment body is longer than 4369 bytes (the
  largest for which 15 of them stay below 64 KiB), appending the fragments never runs over the end of
  the buffer of the first one.\<close>

theorem defragment_no_panic:
  assumes "list_all (\<lambda>g. length (pulled g) \<le> 4369) (map fst fs @ [f])"
  shows "snd (ieee80211_rx_h_defragment (defrag_run ieee80211_init_frag_cache fs) f jiffies) \<noteq> SKB_OVER_PANIC"
proof
  obtain c' r where run: "ieee80211_rx_h_defragment (defrag_run ieee80211_init_frag_cache fs) f jiffies = (c', r)"
    by fastforce
  assume "snd (ieee80211_rx_h_defragment (defrag_run ieee80211_init_frag_cache fs) f jiffies) = SKB_OVER_PANIC"
  then obtain gs where gs: "subseq (gs @ [f]) (map fst fs @ [f])" "legit (gs @ [f])"
      "65536 \<le> length (concat (map pulled (tl (gs @ [f]))))"
    using defragment_step [OF defrag_run_inv [OF frag_init_inv, of fs] run] run by auto
  have "set (tl (gs @ [f])) \<subseteq> set (map fst fs @ [f])"
    using list_emb_set [OF gs(1)] list.set_sel(2) [of "gs @ [f]"] by blast
  then have "\<forall>g \<in> set (tl (gs @ [f])). length (pulled g) \<le> 4369"
    using assms by (auto simp: list_all_iff)
  from concat_bound [OF this] legit_length [OF gs(2)] gs(3) show False by simp
qed

theorem defragment_no_panic_witness:
  "snd (ieee80211_rx_h_defragment (defrag_run ieee80211_init_frag_cache [(plain_frag True 0x20 [1, 2], 7)])
     (plain_frag False 0x21 [3]) 8) \<noteq> SKB_OVER_PANIC"
  by (rule defragment_no_panic) code_simp


section \<open>A stale mark\<close>

text \<open>\<open>ieee80211_reassemble_add\<close> takes over a slot without clearing \<open>is_protected\<close>. After four
  protected frames have used the slots, an unprotected frame of two fragments is not reassembled: its
  second fragment is dropped as a mixed-key attack, although a fresh cache delivers the frame.\<close>

theorem stale_protection_drops:
  "defrag_results ieee80211_init_frag_cache
     ([(ccmp_frag 1 [0, 0, 0, 0, 0, 1] True 0x10 [1], 0), (ccmp_frag 1 [0, 0, 0, 0, 0, 2] True 0x20 [1], 0),
       (ccmp_frag 1 [0, 0, 0, 0, 0, 3] True 0x30 [1], 0), (ccmp_frag 1 [0, 0, 0, 0, 0, 4] True 0x40 [1], 0)] @
      [(plain_frag True 0x50 [1, 2], 1000), (plain_frag False 0x51 [3], 1000)])
     = replicate 5 RX_QUEUED @ [RX_DROP RX_DROP_U_EXPECT_DEFRAG_PROT] \<and>
   defrag_results ieee80211_init_frag_cache [(plain_frag True 0x50 [1, 2], 1000), (plain_frag False 0x51 [3], 1000)]
     = [RX_QUEUED, RX_CONTINUE (frag_frame True False 0x50 [1, 2, 3])]"
  by code_simp

end
