(* ===== verification/DefragTx.thy ===== *)
theory DefragTx
  imports DefragProps
begin

text \<open>
  The round trip through \<open>ieee80211_tx_h_fragment\<close> and the defragmentation handler, for frames
  without protection.
\<close>


section \<open>Header updates\<close>

lemma get_le16_append [simp]: "length xs = i \<Longrightarrow> get_le16 (xs @ ys) i = le16 (ys ! 0) (ys ! 1)"
  by (auto simp: get_le16_def nth_append)

lemma le16_of_put [simp]: "le16 ((put_le16 w @ xs) ! 0) ((put_le16 w @ xs) ! Suc 0) = w"
  by (simp add: put_le16_def le16_put_le16)

lemma get_le16_prefix: "i + 1 < length xs \<Longrightarrow> get_le16 (xs @ ys) i = get_le16 xs i"
  by (simp add: get_le16_def nth_append)

lemma and_not_disjoint:
  assumes "b AND m = 0" shows "(w AND NOT b) AND m = w AND (m :: u16)"
proof (rule bit_word_eqI)
  fix n assume "n < LENGTH(16)"
  have "bit (b AND m) n = bit (0 :: u16) n" using assms by simp
  then show "bit ((w AND NOT b) AND m) n = bit (w AND m) n"
    using \<open>n < LENGTH(16)\<close> by (auto simp: bit_simps)
qed

text \<open>Setting or clearing more-fragments changes no other property of the frame control field.\<close>

lemma fc_set_morefrags:
  "ieee80211_hdrlen (fc OR 0x400) = ieee80211_hdrlen fc"
  "ieee80211_is_ctl (fc OR 0x400) = ieee80211_is_ctl fc" "ieee80211_is_ext (fc OR 0x400) = ieee80211_is_ext fc"
  "ieee80211_has_protected (fc OR 0x400) = ieee80211_has_protected fc" "ieee80211_has_morefrags (fc OR 0x400)"
  "(fc OR 0x400) AND 0xC = fc AND 0xC"
  by (simp_all add: ieee80211_hdrlen_def fc_defs and_or_disjoint ieee80211_has_morefrags_def bit.conj_disj_distrib2)

lemma fc_clear_morefrags:
  "ieee80211_hdrlen (fc AND NOT 0x400) = ieee80211_hdrlen fc"
  "ieee80211_is_ctl (fc AND NOT 0x400) = ieee80211_is_ctl fc" "ieee80211_is_ext (fc AND NOT 0x400) = ieee80211_is_ext fc"
  "ieee80211_has_protected (fc AND NOT 0x400) = ieee80211_has_protected fc"
  "\<not> ieee80211_has_morefrags (fc AND NOT 0x400)" "(fc AND NOT 0x400) AND 0xC = fc AND 0xC"
  by (simp_all add: ieee80211_hdrlen_def fc_defs and_not_disjoint ieee80211_has_morefrags_def and.assoc)

definition new_fc :: "bool \<Rightarrow> u16 \<Rightarrow> u16" where
  "new_fc is_last fc = (if is_last then fc AND NOT IEEE80211_FCTL_MOREFRAGS else fc OR IEEE80211_FCTL_MOREFRAGS)"

lemma new_fc_fields [simp]:
  "ieee80211_hdrlen (new_fc l fc) = ieee80211_hdrlen fc" "ieee80211_is_ctl (new_fc l fc) = ieee80211_is_ctl fc"
  "ieee80211_is_ext (new_fc l fc) = ieee80211_is_ext fc" "ieee80211_has_morefrags (new_fc l fc) \<longleftrightarrow> \<not> l"
  "new_fc l fc AND 0xC = fc AND 0xC"
  unfolding new_fc_def by (cases l; simp only: fc_set_morefrags fc_clear_morefrags if_True if_False simp_thms)+

lemma update_fragment_form:
  assumes "24 \<le> length h"
  shows "update_fragment l i h = put_le16 (new_fc l (frame_control h)) @ take 20 (drop 2 h) @
     put_le16 (seq_ctrl h OR (of_nat i AND IEEE80211_SCTL_FRAG)) @ drop 24 h"
proof -
  have "seq_ctrl (set_fc w h) = seq_ctrl h" for w
    using assms by (simp add: seq_ctrl_def set_fc_def get_le16_def nth_append)
  moreover have "take 22 (set_fc w h) = put_le16 w @ take 20 (drop 2 h)" "drop 24 (set_fc w h) = drop 24 h" for w
    using assms by (simp_all add: set_fc_def)
  ultimately show ?thesis by (simp add: update_fragment_def set_seq_ctrl_def new_fc_def Let_def)
qed

lemma update_fragment_fields:
  assumes "24 \<le> length h"
  shows "frame_control (update_fragment l i h) = new_fc l (frame_control h)"
    and "seq_ctrl (update_fragment l i h) = seq_ctrl h OR (of_nat i AND IEEE80211_SCTL_FRAG)"
    and "addr1 (update_fragment l i h) = addr1 h" "addr2 (update_fragment l i h) = addr2 h"
    and "24 \<le> n \<Longrightarrow> drop n (update_fragment l i h) = drop n h"
    and "length (update_fragment l i h) = length h"
proof -
  note u = update_fragment_form [OF assms, of l i]
  show "frame_control (update_fragment l i h) = new_fc l (frame_control h)"
    unfolding u frame_control_def by (simp add: get_le16_def put_le16_def le16_put_le16)
  show "seq_ctrl (update_fragment l i h) = seq_ctrl h OR (of_nat i AND IEEE80211_SCTL_FRAG)"
  proof -
    have "get_le16 (put_le16 v @ take 20 (drop 2 h) @ put_le16 w @ xs) 22 = w" for v w xs
      using assms by (simp add: get_le16_def nth_append put_le16_def le16_put_le16)
    then show ?thesis unfolding u by (simp add: seq_ctrl_def)
  qed
  show "addr1 (update_fragment l i h) = addr1 h" "addr2 (update_fragment l i h) = addr2 h"
    unfolding u addr1_def addr2_def using assms by (simp_all add: take_drop)
  show "24 \<le> n \<Longrightarrow> drop n (update_fragment l i h) = drop n h" "length (update_fragment l i h) = length h"
    unfolding u using assms by simp_all
qed


section \<open>The pieces\<close>

lemma fragment_loop_pieces:
  "fragment_loop n per rm hdr rest = Inr skbs \<Longrightarrow> 0 \<le> rm \<Longrightarrow> int (length rest) = rm \<Longrightarrow>
   \<exists>ps. skbs = map ((@) hdr) ps \<and> concat ps = rest \<and> (0 < rm \<longrightarrow> ps \<noteq> []) \<and> (0 < per \<longrightarrow> [] \<notin> set ps)"
proof (induction n per rm hdr rest arbitrary: skbs rule: fragment_loop.induct)
  case (1 n per rm hdr rest)
  show ?case
  proof (cases "rm = 0")
    case True
    then show ?thesis using "1.prems" by (simp add: fragment_loop.simps)
  next
    case False
    define l where "l = (if per > rm then rm else per)"
    obtain m skbs' where m: "n = Suc m" "0 \<le> l" "fragment_loop m per (rm - l) hdr (drop (nat l) rest) = Inr skbs'"
        "skbs = (hdr @ take (nat l) rest) # skbs'"
      using "1.prems"(1) False
      by (subst (asm) fragment_loop.simps) (auto simp: l_def Let_def split: nat.splits sum.splits if_splits)
    have "int (length (drop (nat l) rest)) = rm - l" "0 \<le> rm - l"
      using "1.prems"(2,3) m(2) by (auto simp: l_def split: if_splits)
    from "1.IH" [OF False m(1) l_def _ m(3) this(2,1)] m(2) obtain ps where
      "skbs' = map ((@) hdr) ps" "concat ps = drop (nat l) rest" "0 < per \<longrightarrow> [] \<notin> set ps" by auto
    moreover have "0 < per \<longrightarrow> take (nat l) rest \<noteq> []" using "1.prems"(2,3) False by (auto simp: l_def)
    ultimately show ?thesis using m(4) by (intro exI [of _ "take (nat l) rest # ps"]) simp
  qed
qed

lemma tx_fragment_pieces:
  assumes "ieee80211_tx_h_fragment False False False thr allocs data = TX_CONTINUE skbs" "256 \<le> thr"
  shows "\<exists>p ps. skbs = update_fragments 0 (map ((@) (take (ieee80211_hdrlen (frame_control data)) data)) (p # ps)) \<and>
     p @ concat ps = drop (ieee80211_hdrlen (frame_control data)) data \<and> ps \<noteq> [] \<and> 252 < length data \<and> [] \<notin> set (p # ps)"
proof -
  let ?n = "ieee80211_hdrlen (frame_control data)"
  define pos where "pos = nat (thr - 4)"
  have big: "252 < length data" "?n \<le> 36" "?n < pos" "pos < length data"
    using assms hdrlen_le [of "frame_control data"]
    by (auto simp: ieee80211_tx_h_fragment_def pos_def split: if_splits)
  obtain rest where r: "fragment_loop allocs (thr - int ?n - 4) (int (length data) - int pos) (take ?n data) (drop pos data) = Inr rest"
      "skbs = update_fragments 0 (take pos data # rest)"
    using assms big
    by (auto simp: ieee80211_tx_h_fragment_def ieee80211_fragment_def Let_def pos_def algebra_simps
        split: if_splits sum.splits fragment_error.splits)
  from fragment_loop_pieces [OF r(1)] big obtain ps where
    ps: "rest = map ((@) (take ?n data)) ps" "concat ps = drop pos data" "ps \<noteq> []" "[] \<notin> set ps" using assms(2) by auto
  have "take pos data = take ?n data @ drop ?n (take pos data)"
    using big by (metis append_take_drop_id min.absorb1 less_imp_le take_take)
  moreover have "drop ?n (take pos data) @ drop pos data = drop ?n data"
    using big by (metis append_take_drop_id drop_append append_take_drop_id drop_take le_add_diff_inverse2 drop_drop less_imp_le)
  ultimately show ?thesis using r(2) ps big by (intro exI [of _ "drop ?n (take pos data)"] exI [of _ ps]) auto
qed


lemma length_update_fragments [simp]: "length (update_fragments n hs) = length hs"
  by (induction n hs rule: update_fragments.induct) simp_all

lemma update_fragments_nth:
  "k < length hs \<Longrightarrow> update_fragments n hs ! k = update_fragment (Suc k = length hs) (n + k) (hs ! k)"
proof (induction n hs arbitrary: k rule: update_fragments.induct)
  case (2 n h hs)
  then show ?case by (cases k) auto
qed simp


section \<open>The round trip\<close>

text \<open>A frame as received without a key, on queue \<open>q\<close>.\<close>

definition received :: "u8 \<Rightarrow> nat \<Rightarrow> u8 list \<Rightarrow> rx_frag" where
  "received q room d =
     \<lparr>rf_data = d, rf_key = None, rf_pn = [], rf_seqno_idx = q, rf_decrypted = False, rf_tailroom = room,
      rf_linearize_ok = True, rf_expand_ok = True\<rparr>"

lemma received_sel [simp]:
  "rf_data (received q room d) = d" "rf_seqno_idx (received q room d) = q" "rf_linearize_ok (received q room d)"
  "rf_expand_ok (received q room d)" "\<not> prot (received q room d)" "\<not> requires_sequential_pn (received q room d)"
  by (simp_all add: received_def prot_def requires_sequential_pn_def)

definition fragmentable :: "u8 list \<Rightarrow> bool" where
  "fragmentable data \<longleftrightarrow>
     \<not> ieee80211_is_ctl (frame_control data) \<and> \<not> ieee80211_is_ext (frame_control data) \<and>
     seq_ctrl data AND IEEE80211_SCTL_FRAG = 0 \<and> \<not> is_multicast_ether_addr (addr1 data)"

lemma hdrlen_ge_24: "\<not> ieee80211_is_ctl fc \<Longrightarrow> \<not> ieee80211_is_ext fc \<Longrightarrow> 24 \<le> ieee80211_hdrlen fc"
  by (simp add: ieee80211_hdrlen_def)

lemma hdr_prefix_fields:
  assumes "24 \<le> n" "n \<le> length data"
  shows "frame_control (take n data @ p) = frame_control data" "seq_ctrl (take n data @ p) = seq_ctrl data"
    "addr1 (take n data @ p) = addr1 data" "addr2 (take n data @ p) = addr2 data"
  using assms
  by (simp_all add: frame_control_def seq_ctrl_def addr1_def addr2_def get_le16_def nth_append take_drop min_def)

lemma frag_bits:
  assumes "sc AND IEEE80211_SCTL_FRAG = 0" "k < 16"
  shows "unat ((sc OR (of_nat k AND IEEE80211_SCTL_FRAG)) AND IEEE80211_SCTL_FRAG) = k"
    and "IEEE80211_SEQ_TO_SN (sc OR (of_nat k AND IEEE80211_SCTL_FRAG)) = IEEE80211_SEQ_TO_SN sc"
proof -
  have "(sc OR (of_nat k AND 15)) AND 15 = of_nat k AND (15 :: u16)"
    using assms(1) by (simp add: bit.conj_disj_distrib2 and.assoc)
  moreover have "unat (of_nat k AND (15 :: u16)) = unat (of_nat k :: u16) mod 16"
    using unat_and_mask [of "of_nat k :: u16" 4] by (simp add: mask_eq_exp_minus_1)
  moreover have "unat (of_nat k :: u16) = k" using assms(2) by (simp add: unat_of_nat)
  ultimately show "unat ((sc OR (of_nat k AND IEEE80211_SCTL_FRAG)) AND IEEE80211_SCTL_FRAG) = k"
    using assms(2) by simp
  have "(of_nat k AND 15) AND IEEE80211_SCTL_SEQ = (0 :: u16)" by (simp add: and.assoc)
  then show "IEEE80211_SEQ_TO_SN (sc OR (of_nat k AND IEEE80211_SCTL_FRAG)) = IEEE80211_SEQ_TO_SN sc"
    unfolding IEEE80211_SEQ_TO_SN_def by (simp only: and_or_disjoint)
qed

text \<open>What each transmitted fragment looks like to the receiver.\<close>

lemma tx_fragment_fields:
  assumes "fragmentable data" "36 < length data" "k < 16"
    and d: "d = update_fragment l k (take (ieee80211_hdrlen (frame_control data)) data @ p)"
  shows "frame_control d = new_fc l (frame_control data)" "addr1 d = addr1 data" "addr2 d = addr2 data"
    "rf_data f = d \<Longrightarrow> unat (frag_no f) = k" "rf_data f = d \<Longrightarrow> frag_seq f = IEEE80211_SEQ_TO_SN (seq_ctrl data)"
    "rf_data f = d \<Longrightarrow> pulled f = p"
proof -
  let ?n = "ieee80211_hdrlen (frame_control data)"
  have n: "24 \<le> ?n" "?n \<le> length data"
    using assms(1,2) hdrlen_ge_24 hdrlen_le [of "frame_control data"] by (auto simp: fragmentable_def)
  have len: "24 \<le> length (take ?n data @ p)" using n by simp
  note h = hdr_prefix_fields [OF n, of p] and u = update_fragment_fields [OF len, where l = l and i = k, folded d]
  show fc: "frame_control d = new_fc l (frame_control data)" "addr1 d = addr1 data" "addr2 d = addr2 data"
    using h u by simp_all
  show "rf_data f = d \<Longrightarrow> unat (frag_no f) = k" "rf_data f = d \<Longrightarrow> frag_seq f = IEEE80211_SEQ_TO_SN (seq_ctrl data)"
    using frag_bits [of "seq_ctrl data" k] assms(1,3) h u by (simp_all add: frag_no_def frag_seq_def fragmentable_def)
  have "ieee80211_hdrlen (frame_control d) = ?n" unfolding fc by simp
  then show "rf_data f = d \<Longrightarrow> pulled f = p"
    using n u(5) [of ?n] u(6) by (simp add: pulled_def)
qed

text \<open>What the receiver adds to the bytes of the fragments of one frame: one sequence counter, one key, and consecutive packet numbers where
  the key has them.\<close>

definition key_linked :: "rx_frag list \<Rightarrow> bool" where
  "key_linked fs \<longleftrightarrow>
     (\<forall>k < length fs. rf_seqno_idx (fs ! k) = rf_seqno_idx (hd fs) \<and> rf_linearize_ok (fs ! k) \<and> rf_expand_ok (fs ! k) \<and>
        (requires_sequential_pn (hd fs) \<longrightarrow>
           requires_sequential_pn (fs ! k) \<and> (0 < k \<longrightarrow> rf_pn (fs ! k) = (pn_inc ^^ k) (first_pn (hd fs)))) \<and>
        (prot (hd fs) \<longrightarrow> prot (fs ! k) \<and> color (fs ! k) = color (hd fs)))"

lemma key_linked_received: "key_linked (map (received q room) ds)"
  by (cases "ds = []") (auto simp: key_linked_def hd_map)

lemma xor_and_eq: "a AND m = b AND m \<Longrightarrow> (a XOR b) AND m = (0 :: u16)"
  by (simp add: bit.conj_xor_distrib2)

lemma tx_fragments_legit:
  assumes "fragmentable data" "36 < length data" "length ps \<le> 16" "ps \<noteq> []" "key_linked fs"
    and "map rf_data fs = update_fragments 0 (map ((@) (take (ieee80211_hdrlen (frame_control data)) data)) ps)"
  shows "legit fs"
proof -
  have len: "length fs = length ps" using arg_cong [OF assms(6), of length] by simp
  have nth: "rf_data (fs ! k) = update_fragment (Suc k = length ps) k (take (ieee80211_hdrlen (frame_control data)) data @ ps ! k)"
    if "k < length ps" for k using arg_cong [OF assms(6), of "\<lambda>xs. xs ! k"] that len by (simp add: update_fragments_nth)
  have d: "frame_control (rf_data (fs ! k)) AND 0xC = frame_control data AND 0xC" "addr1 (rf_data (fs ! k)) = addr1 data"
      "addr2 (rf_data (fs ! k)) = addr2 data" "unat (frag_no (fs ! k)) = k"
      "frag_seq (fs ! k) = IEEE80211_SEQ_TO_SN (seq_ctrl data)" if "k < length ps" for k
    using tx_fragment_fields(1-3) [OF assms(1,2) _ nth [OF that]] tx_fragment_fields(4,5) [OF assms(1,2) _ nth [OF that] refl] that assms(3) by simp_all
  have ne: "fs \<noteq> []" "0 < length ps" using assms(4) len by (cases ps; auto)+
  have "frag_link (hd fs) k (fs ! k)" if "k < length ps" for k
    using d [OF that] d [OF ne(2)] assms(5) that ne(1) len by (simp add: frag_link_def key_linked_def same_frame_def xor_and_eq hd_conv_nth)
  then show ?thesis using ne len by (simp add: legit_def)
qed

lemma hdr_split:
  assumes "24 \<le> length h"
  shows "take 20 (drop 2 h) @ put_le16 (seq_ctrl h) @ drop 24 h = drop 2 h"
proof -
  have "put_le16 (seq_ctrl h) = take 2 (drop 22 h)"
    using assms by (simp add: seq_ctrl_def get_le16_def put_le16_le16 take_Suc_conv_app_nth numeral_2_eq_2)
  then have "put_le16 (seq_ctrl h) @ drop 24 h = drop 20 (drop 2 h)"
    using append_take_drop_id [of 2 "drop 22 h"] by simp
  then show ?thesis using append_take_drop_id [of 20 "drop 2 h"] by metis
qed

lemma first_fragment:
  assumes "24 \<le> n" "n \<le> length data" "seq_ctrl data AND IEEE80211_SCTL_FRAG = 0"
  shows "update_fragment False 0 (take n data @ p) @ q
       = set_fc (frame_control data OR IEEE80211_FCTL_MOREFRAGS) (take n data @ p @ q)"
proof -
  let ?h = "take n data @ p"
  have len: "24 \<le> length ?h" using assms by simp
  show ?thesis
    using hdr_split [OF len] update_fragment_form [OF len, of False 0] hdr_prefix_fields [OF assms(1,2), of p] len
    by (simp add: new_fc_def set_fc_def)
qed


lemma list_ends: "2 \<le> length xs \<Longrightarrow> \<exists>x ys y. xs = x # ys @ [y]"
  by (cases xs; cases "tl xs" rule: rev_cases) auto

lemma not_late [simp]: "\<not> time_after t (t + FRAG_TIMEOUT)"
  by (simp add: time_after_def signed_before_def)

text \<open>The transmitted queue: the header of \<open>data\<close> before each of the pieces of its body.\<close>

definition tx_view :: "u8 list \<Rightarrow> u8 list list \<Rightarrow> u8 list list \<Rightarrow> bool" where
  "tx_view data skbs ps \<longleftrightarrow>
     skbs = update_fragments 0 (map ((@) (take (ieee80211_hdrlen (frame_control data)) data)) ps) \<and>
     concat ps = drop (ieee80211_hdrlen (frame_control data)) data \<and> 2 \<le> length ps \<and> length ps \<le> 16 \<and>
     36 < length data \<and> fragmentable data"

lemma view_hdrlen:
  assumes "tx_view data skbs ps"
  shows "24 \<le> ieee80211_hdrlen (frame_control data)" "ieee80211_hdrlen (frame_control data) \<le> length data"
  using assms hdrlen_ge_24 hdrlen_le [of "frame_control data"] by (auto simp: tx_view_def fragmentable_def)

lemma view_nth:
  assumes "tx_view data (map rf_data fs) ps" "key_linked fs" "k < length fs"
  shows "rf_data (fs ! k) = update_fragment (Suc k = length fs) k (take (ieee80211_hdrlen (frame_control data)) data @ ps ! k)"
    and "ieee80211_has_morefrags (frame_control (rf_data (fs ! k))) \<longleftrightarrow> Suc k \<noteq> length fs"
    and "pulled (fs ! k) = ps ! k" and "acceptable (fs ! k)"
proof -
  let ?n = "ieee80211_hdrlen (frame_control data)"
  have v: "map rf_data fs = update_fragments 0 (map ((@) (take ?n data)) ps)" "2 \<le> length ps" "length ps \<le> 16"
      "36 < length data" "fragmentable data" using assms(1) by (simp_all add: tx_view_def)
  have len: "length fs = length ps" using arg_cong [OF v(1), of length] by simp
  show nth: "rf_data (fs ! k) = update_fragment (Suc k = length fs) k (take ?n data @ ps ! k)"
    using assms(3) arg_cong [OF v(1), of "\<lambda>xs. xs ! k"] len by (simp add: update_fragments_nth)
  have k: "k < 16" using assms(3) v(3) len by linarith
  note f = tx_fragment_fields [OF v(5,4) k nth]
  show m: "ieee80211_has_morefrags (frame_control (rf_data (fs ! k))) \<longleftrightarrow> Suc k \<noteq> length fs"
    and "pulled (fs ! k) = ps ! k" using f by simp_all
  have "k = 0 \<Longrightarrow> Suc k \<noteq> length fs" using v(2) len by simp
  moreover have "frag_no (fs ! k) = 0 \<Longrightarrow> k = 0" using f(4) [OF refl] by simp
  moreover have "rf_linearize_ok (fs ! k)" "rf_expand_ok (fs ! k)" using assms(2,3) by (simp_all add: key_linked_def)
  ultimately show "acceptable (fs ! k)"
    using f(1,2) m v(5) by (auto simp: acceptable_def fragmented_def fragmentable_def)
qed

lemma view_length: "tx_view data (map rf_data fs) ps \<Longrightarrow> length fs = length ps"
  unfolding tx_view_def using length_update_fragments length_map by metis

lemma view_bodies:
  assumes "tx_view data (map rf_data fs) ps" "key_linked fs"
  shows "map pulled (tl fs) = tl ps"
  using view_nth(3) [OF assms] view_length [OF assms(1)] by (intro nth_equalityI) (auto simp: nth_tl)

lemma view_reassembled:
  assumes "tx_view data (map rf_data fs) ps" "key_linked fs"
  shows "reassembled fs = set_fc (frame_control data OR IEEE80211_FCTL_MOREFRAGS) data"
proof -
  let ?n = "ieee80211_hdrlen (frame_control data)"
  have v: "length fs = length ps" "2 \<le> length ps" "concat ps = drop ?n data" "fragmentable data"
    using assms(1) view_length [OF assms(1)] by (simp_all add: tx_view_def)
  then have ne: "fs \<noteq> []" "ps \<noteq> []" "Suc 0 \<noteq> length fs" "0 < length fs" by auto
  have "rf_data (hd fs) = update_fragment False 0 (take ?n data @ hd ps)"
    using view_nth(1) [OF assms ne(4)] ne by (simp add: hd_conv_nth)
  then have "reassembled fs = update_fragment False 0 (take ?n data @ hd ps) @ concat (tl ps)"
    using view_bodies [OF assms] by (simp add: reassembled_def)
  also have "\<dots> = set_fc (frame_control data OR IEEE80211_FCTL_MOREFRAGS) (take ?n data @ hd ps @ concat (tl ps))"
    using first_fragment [OF view_hdrlen [OF assms(1)]] v(4) by (simp add: fragmentable_def)
  also have "hd ps @ concat (tl ps) = drop ?n data" using v(3) ne(2) by (cases ps) simp_all
  finally show ?thesis by simp
qed

lemma view_run:
  assumes "tx_view data (map rf_data fs) ps" "key_linked fs" "length data < 65536"
    and "length (entries c) = IEEE80211_FRAGMENT_MAX" "cache_next c < IEEE80211_FRAGMENT_MAX"
    and "is_protected (entries c ! cache_next c) \<longrightarrow> prot (hd fs)"
    and "length ts = length fs" "\<forall>t \<in> set ts. \<not> time_after t (hd ts + FRAG_TIMEOUT)"
  shows "defrag_results c (zip fs ts)
       = replicate (length fs - 1) RX_QUEUED @ [RX_CONTINUE (set_fc (frame_control data OR IEEE80211_FCTL_MOREFRAGS) data)]"
proof -
  note nth = view_nth [OF assms(1,2)]
  have v: "length fs = length ps" "2 \<le> length ps" using assms(1) view_length [OF assms(1)] by (simp_all add: tx_view_def)
  obtain d0 ds dl where ends: "fs = d0 # ds @ [dl]" using list_ends [of fs] v by auto
  obtain t0 us tn where times: "ts = t0 # us @ [tn]" using list_ends [of ts] v assms(7) by auto
  have len: "length us = length ds" using assms(7) ends times by simp
  let ?fs = "zip ds us"
  have gs: "fs = d0 # map fst ?fs @ [dl]" using ends len by simp
  have d0: "acceptable d0" "ieee80211_has_morefrags (frame_control (rf_data d0))" using nth(2,4) [of 0] ends by simp_all
  have dl: "acceptable dl" "\<not> ieee80211_has_morefrags (frame_control (rf_data dl))"
    using nth(2,4) [of "Suc (length ds)"] ends by (simp_all add: nth_append)
  have mid: "acceptable d \<and> ieee80211_has_morefrags (frame_control (rf_data d))" if d: "d \<in> set ds" for d
  proof -
    obtain i where "i < length ds" "ds ! i = d" using d by (auto simp: in_set_conv_nth)
    then show ?thesis using nth(2,4) [of "Suc i"] ends by (simp add: nth_append)
  qed
  have "ps \<noteq> []" using v(2) by auto
  then have legit: "legit fs" using tx_fragments_legit [of data ps fs] assms(1,2) by (simp add: tx_view_def)
  have "length (concat (tl ps)) \<le> length data"
    using assms(1) by (cases ps) (auto simp: tx_view_def dest: arg_cong [of _ _ length])
  moreover have "map pulled (map fst ?fs @ [dl]) = tl ps" using view_bodies [OF assms(1,2)] len unfolding ends by simp
  ultimately have small: "length (concat (map pulled (map fst ?fs @ [dl]))) < 65536" using assms(3) by simp
  have "defrag_results c ((d0, t0) # ?fs @ [(dl, tn)])
      = replicate (Suc (length ?fs)) RX_QUEUED @ [RX_CONTINUE (reassembled (d0 # map fst ?fs @ [dl]))]"
    by (rule pending_complete [OF legit [unfolded gs] assms(4,5) _ d0(1) _ _ dl(1) _ _ small])
      (use assms(6,8) d0 dl mid ends times in \<open>auto dest: set_zip_leftD set_zip_rightD\<close>)
  then show ?thesis using view_reassembled [OF assms(1,2)] len unfolding gs [symmetric] by (simp add: ends times)
qed

text \<open>C16: Round trip. The fragments the transmit handler makes of an unprotected unicast frame (at most
  16 of them, a threshold of at least 256 bytes), received in order, are queued one after the other and
  the last one gives the frame back but for the more-fragments bit, which the first fragment had and
  which stays set in its header; provided the cache slot used is not still marked as protected
  (\<open>stale_protection_drops\<close>).\<close>

theorem fragment_roundtrip:
  assumes "ieee80211_tx_h_fragment False False False thr allocs data = TX_CONTINUE skbs"
    and "256 \<le> thr" "fragmentable data" "length skbs \<le> 16" "length data < 65536"
    and "length (entries c) = IEEE80211_FRAGMENT_MAX" "cache_next c < IEEE80211_FRAGMENT_MAX"
    and "\<not> is_protected (entries c ! cache_next c)"
  shows "defrag_results c (map (\<lambda>d. (received q room d, t)) skbs)
       = replicate (length skbs - 1) RX_QUEUED @
         [RX_CONTINUE (set_fc (frame_control data OR IEEE80211_FCTL_MOREFRAGS) data)]"
proof -
  obtain p ps where skbs: "skbs = update_fragments 0 (map ((@) (take (ieee80211_hdrlen (frame_control data)) data)) (p # ps))"
      "p @ concat ps = drop (ieee80211_hdrlen (frame_control data)) data" "ps \<noteq> []" "252 < length data"
    using tx_fragment_pieces [OF assms(1,2)] by blast
  have "tx_view data (map rf_data (map (received q room) skbs)) (p # ps)"
    unfolding tx_view_def using skbs assms(3,4) by (cases ps) (auto simp: comp_def)
  from view_run [OF this key_linked_received assms(5-7), of "replicate (length skbs) t"] assms(8)
  show ?thesis by (cases "skbs = []") (simp_all add: zip_replicate2 comp_def)
qed


text \<open>A frame of 24 bytes of header and 300 of payload, cut at a threshold of 256.\<close>

definition demo_frame :: "u8 list" where
  "demo_frame = frag_frame False False 0x120 (replicate 300 7)"

definition demo_skbs :: "u8 list list" where
  "demo_skbs = [frag_frame True False 0x120 (replicate 228 7), frag_frame False False 0x121 (replicate 72 7)]"

theorem fragment_roundtrip_witness:
  "defrag_results ieee80211_init_frag_cache (map (\<lambda>d. (received 0 64 d, 5)) demo_skbs)
   = replicate (length demo_skbs - 1) RX_QUEUED @
     [RX_CONTINUE (set_fc (frame_control demo_frame OR IEEE80211_FCTL_MOREFRAGS) demo_frame)]"
proof (rule fragment_roundtrip)
  show "ieee80211_tx_h_fragment False False False 256 3 demo_frame = TX_CONTINUE demo_skbs" by code_simp
  show "fragmentable demo_frame" by code_simp
  show "length demo_skbs \<le> 16" by code_simp
  show "length demo_frame < 65536" by (simp add: demo_frame_def frag_frame_def)
  show "length (entries ieee80211_init_frag_cache) = 4" by code_simp
  show "cache_next ieee80211_init_frag_cache < 4" by code_simp
  show "\<not> is_protected (entries ieee80211_init_frag_cache ! cache_next ieee80211_init_frag_cache)" by code_simp
qed simp

end
