(* ===== verification/MeshPath.thy ===== *)
theory MeshPath
  imports Frame
begin

text \<open>
  The mesh path table, net/mac80211/mesh_pathtbl.c, on the part of \<open>struct ieee80211_if_mesh\<close> it works
  on. A path is kept in its table (a list in the order of the walk list) and identified by its
  destination, the key of the hash table; what leaves the component (path selection frames, data
  frames sent or discarded) is appended to \<open>outs\<close>. Offload notifications, the fast transmit cache,
  generation counters and debug output are not modelled.
\<close>


section \<open>State\<close>

type_synonym mac = "u8 list"

datatype mpath_flag =
  MESH_PATH_ACTIVE | MESH_PATH_RESOLVING | MESH_PATH_SN_VALID | MESH_PATH_FIXED | MESH_PATH_RESOLVED |
  MESH_PATH_REQ_QUEUED | MESH_PATH_DELETED

text \<open>A data frame by the header fields the path code reads and writes: the four addresses, the two
  extended ones of the mesh header, whether it is a QoS null frame or bypasses path lookup, and its
  payload.\<close>

record mesh_frame =
  mf_addr1 :: mac
  mf_addr2 :: mac
  mf_addr3 :: mac
  mf_addr4 :: mac
  mf_ext :: "(mac \<times> mac) option"
  mf_qos_null :: bool
  mf_skip_lookup :: bool
  mf_body :: "u8 list"

record mesh_path =
  mp_dst :: mac
  mp_mpp :: mac
  mp_next_hop :: "mac option"
  mp_timer :: "u64 option"     \<comment> \<open>expiry while the timer is pending\<close>
  mp_queue :: "mesh_frame list"
  mp_sn :: u32
  mp_metric :: u32
  mp_hop_count :: u8
  mp_exp_time :: u64
  mp_discovery_timeout :: u32
  mp_discovery_retries :: u8
  mp_flags :: "mpath_flag set"
  mp_rann_snd_addr :: mac
  mp_rann_metric :: u32
  mp_last_preq_to_root :: u64
  mp_is_root :: bool
  mp_is_gate :: bool
  mp_path_change_count :: u32

text \<open>A peer, as far as the link metric needs it; the averages are what \<open>ewma_..._read\<close> returns.\<close>

record mesh_peer =
  peer_estab :: bool
  peer_throughput :: nat       \<comment> \<open>\<open>sta_get_expected_throughput\<close>, kbit/s\<close>
  peer_fail_avg :: nat
  peer_tx_rate_avg :: nat

datatype mesh_out =
    MGMT_TX mac "u8 list"      \<comment> \<open>destination, path selection element with ID and length\<close>
  | DATA_TX mesh_frame
  | DATA_DISCARD mesh_frame

text \<open>The configured times are in jiffies, except the ones the code converts at the place of use.\<close>

record path_cfg =
  vif_addr :: mac
  element_ttl :: u8
  forwarding :: bool
  net_traversal :: u64
  min_preq_int :: u64
  disc_timeout :: u32
  max_preq_retries :: u8
  root_confirmation :: u64
  path_refresh :: u64
  active_path_timeout :: u32   \<comment> \<open>ms\<close>
  perr_min_interval :: u16     \<comment> \<open>TU\<close>
  is_hwmp :: bool
  nolearn :: bool

record path_if =
  cfg :: path_cfg
  peers :: "mac \<Rightarrow> mesh_peer option"
  mesh_paths :: "mesh_path list"
  mpp_paths :: "mesh_path list"
  known_gates :: "mac list"
  num_gates :: int
  mpaths :: int
  if_sn :: u32
  preq_id :: u32
  last_sn_update :: u64
  next_perr :: u64
  last_preq :: u64
  preq_queue :: "(mac \<times> u8) list"
  preq_queue_len :: int
  mesh_path_timer_at :: "u64 option"
  work_queued :: bool
  dropped_frames_ttl :: u32
  dropped_frames_no_route :: u32
  fwded_mcast :: u32
  fwded_unicast :: u32
  fwded_frames :: u32
  mem_ok :: bool               \<comment> \<open>whether allocations succeed\<close>
  outs :: "mesh_out list"

abbreviation (input) MESH_MAX_MPATHS :: int where "MESH_MAX_MPATHS \<equiv> 1024"
abbreviation (input) MESH_FRAME_QUEUE_LEN :: nat where "MESH_FRAME_QUEUE_LEN \<equiv> 10"
abbreviation (input) MESH_PATH_EXPIRE :: u64 where "MESH_PATH_EXPIRE \<equiv> 60000"

definition broadcast_addr :: mac where
  "broadcast_addr = replicate 6 0xff"

definition time_before :: "u64 \<Rightarrow> u64 \<Rightarrow> bool" where
  "time_before a b \<longleftrightarrow> time_after b a"

text \<open>\<open>TU_TO_EXP_TIME\<close>: time units of 1024 microseconds, converted with \<open>HZ\<close> = 100; the argument of
  \<open>usecs_to_jiffies\<close> is 32 bits wide.\<close>

definition usecs_to_jiffies :: "u32 \<Rightarrow> u64" where
  "usecs_to_jiffies u = of_nat ((unat u + 9999) div 10000)"

definition TU_TO_EXP_TIME :: "u64 \<Rightarrow> u64 \<Rightarrow> u64" where
  "TU_TO_EXP_TIME jiffies x = jiffies + usecs_to_jiffies (ucast (x * 1024))"


section \<open>Tables\<close>

definition path_at :: "mac \<Rightarrow> mesh_path list \<Rightarrow> mesh_path option" where
  "path_at d ps = find (\<lambda>p. mp_dst p = d) ps"

definition upd_path :: "mac \<Rightarrow> (mesh_path \<Rightarrow> mesh_path) \<Rightarrow> mesh_path list \<Rightarrow> mesh_path list" where
  "upd_path d f ps = map (\<lambda>p. if mp_dst p = d then f p else p) ps"

definition on_path :: "mac \<Rightarrow> (mesh_path \<Rightarrow> mesh_path) \<Rightarrow> path_if \<Rightarrow> path_if" where
  "on_path d f s = s\<lparr>mesh_paths := upd_path d f (mesh_paths s)\<rparr>"

definition add_flags :: "mpath_flag set \<Rightarrow> mesh_path \<Rightarrow> mesh_path" where
  "add_flags F p = p\<lparr>mp_flags := mp_flags p \<union> F\<rparr>"

definition clear_flags :: "mpath_flag set \<Rightarrow> mesh_path \<Rightarrow> mesh_path" where
  "clear_flags F p = p\<lparr>mp_flags := mp_flags p - F\<rparr>"

definition mpath_expired :: "u64 \<Rightarrow> mesh_path \<Rightarrow> bool" where
  "mpath_expired jiffies p \<longleftrightarrow>
     MESH_PATH_ACTIVE \<in> mp_flags p \<and> time_after jiffies (mp_exp_time p) \<and> MESH_PATH_FIXED \<notin> mp_flags p"

definition mpath_lookup :: "u64 \<Rightarrow> mac \<Rightarrow> mesh_path list \<Rightarrow> mesh_path list \<times> mesh_path option" where
  "mpath_lookup jiffies d ps =
     (case path_at d ps of
        None \<Rightarrow> (ps, None)
      | Some p \<Rightarrow>
          if mpath_expired jiffies p then
            (upd_path d (clear_flags {MESH_PATH_ACTIVE}) ps, Some (clear_flags {MESH_PATH_ACTIVE} p))
          else (ps, Some p))"

definition mesh_path_lookup :: "u64 \<Rightarrow> mac \<Rightarrow> path_if \<Rightarrow> path_if \<times> mesh_path option" where
  "mesh_path_lookup jiffies d s =
     (case mpath_lookup jiffies d (mesh_paths s) of (ps, r) \<Rightarrow> (s\<lparr>mesh_paths := ps\<rparr>, r))"

definition mpp_path_lookup :: "u64 \<Rightarrow> mac \<Rightarrow> path_if \<Rightarrow> path_if \<times> mesh_path option" where
  "mpp_path_lookup jiffies d s =
     (case mpath_lookup jiffies d (mpp_paths s) of (ps, r) \<Rightarrow> (s\<lparr>mpp_paths := ps\<rparr>, r))"

definition mesh_path_new :: "u64 \<Rightarrow> mac \<Rightarrow> mesh_path" where
  "mesh_path_new jiffies d =
     \<lparr>mp_dst = d, mp_mpp = replicate 6 0, mp_next_hop = None, mp_timer = None, mp_queue = [], mp_sn = 0, mp_metric = 0,
      mp_hop_count = 0, mp_exp_time = jiffies, mp_discovery_timeout = 0, mp_discovery_retries = 0, mp_flags = {},
      mp_rann_snd_addr = broadcast_addr, mp_rann_metric = 0, mp_last_preq_to_root = 0, mp_is_root = False,
      mp_is_gate = False, mp_path_change_count = 0\<rparr>"

datatype path_error = EOPNOTSUPP | ENOSPC | ENOMEM | EEXIST | ENXIO | ENOENT | EHOSTUNREACH

text \<open>The counter \<open>mpaths\<close> goes up before the allocation and the insertion, and stays up when they fail
  or find the destination present.\<close>

definition mesh_path_add :: "u64 \<Rightarrow> mac \<Rightarrow> path_if \<Rightarrow> path_if \<times> (path_error + mesh_path)" where
  "mesh_path_add jiffies d s =
     (if d = vif_addr (cfg s) then (s, Inl EOPNOTSUPP)
      else if is_multicast_ether_addr d then (s, Inl EOPNOTSUPP)
      else if mpaths s = MESH_MAX_MPATHS then (s, Inl ENOSPC)
      else let s = s\<lparr>mpaths := mpaths s + 1\<rparr>
           in if \<not> mem_ok s then (s, Inl ENOMEM)
              else case path_at d (mesh_paths s) of
                     Some p \<Rightarrow> (s, Inr p)
                   | None \<Rightarrow> let p = mesh_path_new jiffies d in (s\<lparr>mesh_paths := p # mesh_paths s\<rparr>, Inr p))"

definition mpp_path_add :: "u64 \<Rightarrow> mac \<Rightarrow> mac \<Rightarrow> path_if \<Rightarrow> path_if \<times> path_error option" where
  "mpp_path_add jiffies d mpp s =
     (if d = vif_addr (cfg s) then (s, Some EOPNOTSUPP)
      else if is_multicast_ether_addr d then (s, Some EOPNOTSUPP)
      else if \<not> mem_ok s then (s, Some ENOMEM)
      else if path_at d (mpp_paths s) \<noteq> None then (s, Some EEXIST)
      else (s\<lparr>mpp_paths := (mesh_path_new jiffies d)\<lparr>mp_mpp := mpp\<rparr> # mpp_paths s\<rparr>, None))"

definition mesh_path_add_gate :: "mac \<Rightarrow> path_if \<Rightarrow> path_if" where
  "mesh_path_add_gate d s =
     (case path_at d (mesh_paths s) of
        None \<Rightarrow> s
      | Some p \<Rightarrow>
          if mp_is_gate p then s
          else (on_path d (\<lambda>p. p\<lparr>mp_is_gate := True\<rparr>) s)
                 \<lparr>num_gates := num_gates s + 1, known_gates := d # known_gates s\<rparr>)"

text \<open>On a path already out of its table.\<close>

definition mesh_gate_del :: "mesh_path \<Rightarrow> path_if \<Rightarrow> path_if" where
  "mesh_gate_del p s =
     (if mp_is_gate p then s\<lparr>num_gates := num_gates s - 1, known_gates := remove1 (mp_dst p) (known_gates s)\<rparr> else s)"

definition mesh_path_discard_frame :: "mesh_frame \<Rightarrow> path_if \<Rightarrow> path_if" where
  "mesh_path_discard_frame f s =
     s\<lparr>outs := outs s @ [DATA_DISCARD f], dropped_frames_no_route := dropped_frames_no_route s + 1\<rparr>"

text \<open>The pending frames of the path are discarded and the requests for its destination leave the
  queue. The path's own queue is emptied by the caller, since the path may be out of its table.\<close>

definition mesh_path_flush_pending :: "mesh_path \<Rightarrow> path_if \<Rightarrow> path_if" where
  "mesh_path_flush_pending p s =
     (let s = fold mesh_path_discard_frame (mp_queue p) s;
          rest = filter (\<lambda>(d, _). d \<noteq> mp_dst p) (preq_queue s)
      in s\<lparr>preq_queue_len := preq_queue_len s - int (length (preq_queue s) - length rest), preq_queue := rest\<rparr>)"

text \<open>Both tables share this function, so \<open>mpaths\<close> goes down for a proxy path too.\<close>

definition mesh_path_free :: "mesh_path \<Rightarrow> path_if \<Rightarrow> path_if" where
  "mesh_path_free p s =
     (let s = mesh_gate_del p s in mesh_path_flush_pending p (s\<lparr>mpaths := mpaths s - 1\<rparr>))"

definition path_del :: "bool \<Rightarrow> mesh_path \<Rightarrow> path_if \<Rightarrow> path_if" where
  "path_del is_mpath p s =
     mesh_path_free p
       (if is_mpath then s\<lparr>mesh_paths := filter (\<lambda>q. mp_dst q \<noteq> mp_dst p) (mesh_paths s)\<rparr>
        else s\<lparr>mpp_paths := filter (\<lambda>q. mp_dst q \<noteq> mp_dst p) (mpp_paths s)\<rparr>)"

definition del_paths :: "bool \<Rightarrow> (mesh_path \<Rightarrow> bool) \<Rightarrow> path_if \<Rightarrow> path_if" where
  "del_paths is_mpath P s = fold (path_del is_mpath) (filter P (if is_mpath then mesh_paths s else mpp_paths s)) s"

definition mesh_path_flush_by_nexthop :: "mac \<Rightarrow> path_if \<Rightarrow> path_if" where
  "mesh_path_flush_by_nexthop sta = del_paths True (\<lambda>p. mp_next_hop p = Some sta)"

definition mpp_flush_by_proxy :: "mac \<Rightarrow> path_if \<Rightarrow> path_if" where
  "mpp_flush_by_proxy proxy = del_paths False (\<lambda>p. mp_mpp p = proxy)"

definition mesh_path_flush_by_iface :: "path_if \<Rightarrow> path_if" where
  "mesh_path_flush_by_iface s = del_paths False (\<lambda>_. True) (del_paths True (\<lambda>_. True) s)"

definition mesh_path_del :: "mac \<Rightarrow> path_if \<Rightarrow> path_if \<times> path_error option" where
  "mesh_path_del d s =
     (let s = mpp_flush_by_proxy d s
      in case path_at d (mesh_paths s) of
           None \<Rightarrow> (s, Some ENXIO)
         | Some p \<Rightarrow> (path_del True p s, None))"

definition path_stale :: "u64 \<Rightarrow> mesh_path \<Rightarrow> bool" where
  "path_stale jiffies p \<longleftrightarrow>
     MESH_PATH_RESOLVING \<notin> mp_flags p \<and> MESH_PATH_FIXED \<notin> mp_flags p \<and>
     time_after jiffies (mp_exp_time p + MESH_PATH_EXPIRE)"

definition mesh_path_expire :: "u64 \<Rightarrow> path_if \<Rightarrow> path_if" where
  "mesh_path_expire jiffies s = del_paths False (path_stale jiffies) (del_paths True (path_stale jiffies) s)"



section \<open>Next hops and pending frames\<close>

text \<open>The frames waiting for the path get their receiver and transmitter address at once.\<close>

definition mesh_path_assign_nexthop :: "mac \<Rightarrow> mac \<Rightarrow> mesh_path \<Rightarrow> mesh_path" where
  "mesh_path_assign_nexthop vif sta p =
     p\<lparr>mp_next_hop := Some sta, mp_queue := map (\<lambda>f. f\<lparr>mf_addr1 := sta, mf_addr2 := vif\<rparr>) (mp_queue p)\<rparr>"

definition mesh_path_activate :: "mesh_path \<Rightarrow> mesh_path" where
  "mesh_path_activate p = add_flags {MESH_PATH_ACTIVE, MESH_PATH_RESOLVED} p"

definition mesh_path_tx_pending :: "mac \<Rightarrow> path_if \<Rightarrow> path_if" where
  "mesh_path_tx_pending d s =
     (case path_at d (mesh_paths s) of
        None \<Rightarrow> s
      | Some p \<Rightarrow>
          if MESH_PATH_ACTIVE \<in> mp_flags p then
            (on_path d (\<lambda>p. p\<lparr>mp_queue := []\<rparr>) s)\<lparr>outs := outs s @ map DATA_TX (mp_queue p)\<rparr>
          else s)"

text \<open>\<open>ewma_mesh_fail_avg_init\<close> followed by an addition of 1.\<close>

definition reset_fail_avg :: "mac \<Rightarrow> path_if \<Rightarrow> path_if" where
  "reset_fail_avg sta s = s\<lparr>peers := (peers s)(sta := map_option (\<lambda>n. n\<lparr>peer_fail_avg := 1\<rparr>) (peers s sta))\<rparr>"

definition mesh_path_fix_nexthop :: "mac \<Rightarrow> mac \<Rightarrow> path_if \<Rightarrow> path_if" where
  "mesh_path_fix_nexthop d next_hop s =
     (let s = on_path d (\<lambda>p. mesh_path_activate
                ((mesh_path_assign_nexthop (vif_addr (cfg s)) next_hop p)
                   \<lparr>mp_sn := 0xffff, mp_metric := 0, mp_hop_count := 0, mp_exp_time := 0,
                    mp_flags := {MESH_PATH_FIXED, MESH_PATH_SN_VALID}\<rparr>)) s
      in mesh_path_tx_pending d (reset_fail_avg next_hop s))"

definition PERR_element :: "u8 \<Rightarrow> mac \<Rightarrow> u32 \<Rightarrow> u16 \<Rightarrow> u8 list" where
  "PERR_element ttl target target_sn rcode = [132, 15, ttl, 1, 0] @ target @ put_le32 target_sn @ put_le16 rcode"

definition mesh_path_error_tx :: "u64 \<Rightarrow> u8 \<Rightarrow> mac \<Rightarrow> u32 \<Rightarrow> u16 \<Rightarrow> mac \<Rightarrow> path_if \<Rightarrow> path_if" where
  "mesh_path_error_tx jiffies ttl target target_sn rcode ra s =
     (if time_before jiffies (next_perr s) then s
      else if \<not> mem_ok s then s
      else s\<lparr>outs := outs s @ [MGMT_TX ra (PERR_element ttl target target_sn rcode)],
             next_perr := TU_TO_EXP_TIME jiffies (ucast (perr_min_interval (cfg s)))\<rparr>)"

abbreviation (input) WLAN_REASON_MESH_PATH_DEST_UNREACHABLE :: u16 where
  "WLAN_REASON_MESH_PATH_DEST_UNREACHABLE \<equiv> 63"

definition uses_link :: "mac \<Rightarrow> mesh_path \<Rightarrow> bool" where
  "uses_link sta p \<longleftrightarrow>
     mp_next_hop p = Some sta \<and> MESH_PATH_ACTIVE \<in> mp_flags p \<and> MESH_PATH_FIXED \<notin> mp_flags p"

definition break_path :: "u64 \<Rightarrow> mesh_path \<Rightarrow> path_if \<Rightarrow> path_if" where
  "break_path jiffies p s =
     mesh_path_error_tx jiffies (element_ttl (cfg s)) (mp_dst p) (mp_sn p + 1) WLAN_REASON_MESH_PATH_DEST_UNREACHABLE
       broadcast_addr (on_path (mp_dst p) (\<lambda>p. (clear_flags {MESH_PATH_ACTIVE} p)\<lparr>mp_sn := mp_sn p + 1\<rparr>) s)"

definition mesh_plink_broken :: "u64 \<Rightarrow> mac \<Rightarrow> path_if \<Rightarrow> path_if" where
  "mesh_plink_broken jiffies sta s = fold (break_path jiffies) (filter (uses_link sta) (mesh_paths s)) s"


section \<open>Gates\<close>

text \<open>\<open>None\<close> is a null pointer: the gate has no next hop.\<close>

definition prepare_for_gate :: "mac \<Rightarrow> mesh_path \<Rightarrow> mesh_frame \<Rightarrow> mesh_frame option" where
  "prepare_for_gate vif gate f =
     (case mp_next_hop gate of
        None \<Rightarrow> None
      | Some nh \<Rightarrow>
          let f = (if mf_ext f = None then f\<lparr>mf_ext := Some (mf_addr3 f, mf_addr4 f)\<rparr> else f)
          in Some (f\<lparr>mf_addr1 := nh, mf_addr2 := vif, mf_addr3 := mp_dst gate\<rparr>))"

text \<open>The loop over \<open>failq\<close>: what the gate's queue becomes, and what stays in \<open>failq\<close>.\<close>

fun move_loop :: "bool \<Rightarrow> bool \<Rightarrow> mac \<Rightarrow> mesh_path \<Rightarrow> mesh_frame list \<Rightarrow> mesh_frame list \<Rightarrow> mesh_frame list \<times> mesh_frame list" where
  "move_loop mem copy vif gate gq [] = (gq, [])"
| "move_loop mem copy vif gate gq (f # failq) =
     (if length gq \<ge> MESH_FRAME_QUEUE_LEN \<or> \<not> mem then (gq, f # failq)
      else case prepare_for_gate vif gate f of
             None \<Rightarrow> (gq, f # failq)
           | Some f' \<Rightarrow>
               (case move_loop mem copy vif gate (gq @ [f']) failq of
                  (gq', left) \<Rightarrow> (gq', if copy then f # left else left)))"

definition mesh_path_move_to_queue :: "mac \<Rightarrow> mac \<Rightarrow> bool \<Rightarrow> path_if \<Rightarrow> path_if" where
  "mesh_path_move_to_queue gate from copy s =
     (case (path_at gate (mesh_paths s), path_at from (mesh_paths s)) of
        (Some g, Some p) \<Rightarrow>
          if gate = from \<or> mp_next_hop g = None then s
          else (case move_loop (mem_ok s) copy (vif_addr (cfg s)) g (mp_queue g) (mp_queue p) of
                  (gq, left) \<Rightarrow>
                    on_path gate (\<lambda>g. g\<lparr>mp_queue := gq\<rparr>)
                      (on_path from (\<lambda>p. p\<lparr>mp_queue := if copy then left else []\<rparr>) s))
      | _ \<Rightarrow> s)"

fun gates_loop :: "mac list \<Rightarrow> mac \<Rightarrow> bool \<Rightarrow> path_if \<Rightarrow> path_if \<times> mac" where
  "gates_loop [] from copy s = (s, from)"
| "gates_loop (g # gs) from copy s =
     (case path_at g (mesh_paths s) of
        Some p \<Rightarrow>
          if MESH_PATH_ACTIVE \<in> mp_flags p then gates_loop gs g True (mesh_path_move_to_queue g from copy s)
          else gates_loop gs from copy s
      | None \<Rightarrow> gates_loop gs from copy s)"

definition mesh_path_send_to_gates :: "mac \<Rightarrow> path_if \<Rightarrow> path_if \<times> path_error option" where
  "mesh_path_send_to_gates d s =
     (case gates_loop (known_gates s) d False s of
        (s1, from) \<Rightarrow>
          (fold mesh_path_tx_pending (known_gates s1) s1, if from = d then Some EHOSTUNREACH else None))"

end
