(* ===== verification/Hwmp.thy ===== *)
theory Hwmp
  imports MeshPath
begin

text \<open>
  The hybrid wireless mesh protocol, net/mac80211/mesh_hwmp.c: building and reading path selection
  elements, the airtime link metric, the processing of PREQ, PREP, PERR and RANN elements, path
  discovery with its queue and timer, and next-hop lookup. An element is the byte list after its ID
  and length. Rate statistics (\<open>ieee80211s_update_metric\<close>), proactive root frames and the offload
  callbacks are not modelled.
\<close>


section \<open>Elements\<close>

definition u32_field_get :: "u8 list \<Rightarrow> nat \<Rightarrow> bool \<Rightarrow> u32" where
  "u32_field_get x offset ae = get_le32 x (if ae then offset + 6 else offset)"

definition u16_field_get :: "u8 list \<Rightarrow> nat \<Rightarrow> bool \<Rightarrow> u16" where
  "u16_field_get x offset ae = get_le16 x (if ae then offset + 6 else offset)"

definition AE_F_SET :: "u8 list \<Rightarrow> bool" where "AE_F_SET x \<longleftrightarrow> x ! 0 AND 0x40 \<noteq> 0"

definition addr_at :: "nat \<Rightarrow> u8 list \<Rightarrow> mac" where "addr_at n x = take 6 (drop n x)"

definition PREQ_IE_FLAGS :: "u8 list \<Rightarrow> u8" where "PREQ_IE_FLAGS x = x ! 0"
definition PREQ_IE_HOPCOUNT :: "u8 list \<Rightarrow> u8" where "PREQ_IE_HOPCOUNT x = x ! 1"
definition PREQ_IE_TTL :: "u8 list \<Rightarrow> u8" where "PREQ_IE_TTL x = x ! 2"
definition PREQ_IE_PREQ_ID :: "u8 list \<Rightarrow> u32" where "PREQ_IE_PREQ_ID x = u32_field_get x 3 False"
definition PREQ_IE_ORIG_ADDR :: "u8 list \<Rightarrow> mac" where "PREQ_IE_ORIG_ADDR x = addr_at 7 x"
definition PREQ_IE_ORIG_SN :: "u8 list \<Rightarrow> u32" where "PREQ_IE_ORIG_SN x = u32_field_get x 13 False"
definition PREQ_IE_LIFETIME :: "u8 list \<Rightarrow> u32" where "PREQ_IE_LIFETIME x = u32_field_get x 17 (AE_F_SET x)"
definition PREQ_IE_METRIC :: "u8 list \<Rightarrow> u32" where "PREQ_IE_METRIC x = u32_field_get x 21 (AE_F_SET x)"
definition PREQ_IE_TARGET_F :: "u8 list \<Rightarrow> u8" where "PREQ_IE_TARGET_F x = (if AE_F_SET x then x ! 32 else x ! 26)"
definition PREQ_IE_TARGET_ADDR :: "u8 list \<Rightarrow> mac" where
  "PREQ_IE_TARGET_ADDR x = addr_at (if AE_F_SET x then 33 else 27) x"
definition PREQ_IE_TARGET_SN :: "u8 list \<Rightarrow> u32" where "PREQ_IE_TARGET_SN x = u32_field_get x 33 (AE_F_SET x)"

definition PREP_IE_ORIG_ADDR :: "u8 list \<Rightarrow> mac" where
  "PREP_IE_ORIG_ADDR x = addr_at (if AE_F_SET x then 27 else 21) x"
definition PREP_IE_ORIG_SN :: "u8 list \<Rightarrow> u32" where "PREP_IE_ORIG_SN x = u32_field_get x 27 (AE_F_SET x)"
definition PREP_IE_LIFETIME :: "u8 list \<Rightarrow> u32" where "PREP_IE_LIFETIME x = u32_field_get x 13 (AE_F_SET x)"
definition PREP_IE_METRIC :: "u8 list \<Rightarrow> u32" where "PREP_IE_METRIC x = u32_field_get x 17 (AE_F_SET x)"
definition PREP_IE_TARGET_ADDR :: "u8 list \<Rightarrow> mac" where "PREP_IE_TARGET_ADDR x = addr_at 3 x"
definition PREP_IE_TARGET_SN :: "u8 list \<Rightarrow> u32" where "PREP_IE_TARGET_SN x = u32_field_get x 9 False"

definition PERR_IE_TTL :: "u8 list \<Rightarrow> u8" where "PERR_IE_TTL x = x ! 0"
definition PERR_IE_TARGET_ADDR :: "u8 list \<Rightarrow> mac" where "PERR_IE_TARGET_ADDR x = addr_at 3 x"
definition PERR_IE_TARGET_SN :: "u8 list \<Rightarrow> u32" where "PERR_IE_TARGET_SN x = u32_field_get x 9 False"
definition PERR_IE_TARGET_RCODE :: "u8 list \<Rightarrow> u16" where "PERR_IE_TARGET_RCODE x = u16_field_get x 13 False"

datatype mpath_frame_type = MPATH_PREQ | MPATH_PREP | MPATH_PERR | MPATH_RANN

text \<open>The arguments of \<open>mesh_path_sel_frame_tx\<close>; the target of a RANN is a null pointer that is not
  read.\<close>

record sel_frame =
  sf_flags :: u8
  sf_orig_addr :: mac
  sf_orig_sn :: u32
  sf_target_flags :: u8
  sf_target :: mac
  sf_target_sn :: u32
  sf_hop_count :: u8
  sf_ttl :: u8
  sf_lifetime :: u32
  sf_metric :: u32
  sf_preq_id :: u32

definition sel_element :: "mpath_frame_type \<Rightarrow> sel_frame \<Rightarrow> u8 list option" where
  "sel_element action f =
     (case action of
        MPATH_PREQ \<Rightarrow>
          Some ([130, 37, sf_flags f, sf_hop_count f, sf_ttl f] @ put_le32 (sf_preq_id f) @ sf_orig_addr f @
            put_le32 (sf_orig_sn f) @ put_le32 (sf_lifetime f) @ put_le32 (sf_metric f) @ [1, sf_target_flags f] @
            sf_target f @ put_le32 (sf_target_sn f))
      | MPATH_PREP \<Rightarrow>
          Some ([131, 31, sf_flags f, sf_hop_count f, sf_ttl f] @ sf_target f @ put_le32 (sf_target_sn f) @
            put_le32 (sf_lifetime f) @ put_le32 (sf_metric f) @ sf_orig_addr f @ put_le32 (sf_orig_sn f))
      | MPATH_RANN \<Rightarrow>
          Some ([126, 21, sf_flags f, sf_hop_count f, sf_ttl f] @ sf_orig_addr f @ put_le32 (sf_orig_sn f) @
            put_le32 (sf_lifetime f) @ put_le32 (sf_metric f))
      | MPATH_PERR \<Rightarrow> None)"

definition mesh_path_sel_frame_tx :: "mpath_frame_type \<Rightarrow> mac \<Rightarrow> sel_frame \<Rightarrow> path_if \<Rightarrow> path_if" where
  "mesh_path_sel_frame_tx action da f s =
     (if \<not> mem_ok s then s
      else case sel_element action f of None \<Rightarrow> s | Some e \<Rightarrow> s\<lparr>outs := outs s @ [MGMT_TX da e]\<rparr>)"


section \<open>Sequence numbers and metrics\<close>

abbreviation (input) MAX_METRIC :: u32 where "MAX_METRIC \<equiv> 0xffffffff"

definition SN_GT :: "u32 \<Rightarrow> u32 \<Rightarrow> bool" where "SN_GT x y \<longleftrightarrow> signed_before y x"
definition SN_LT :: "u32 \<Rightarrow> u32 \<Rightarrow> bool" where "SN_LT x y \<longleftrightarrow> signed_before x y"
definition SN_DELTA :: "u32 \<Rightarrow> u32 \<Rightarrow> u32" where "SN_DELTA x y = (if x \<ge> y then x - y else y - x)"

text \<open>The division is the C one: \<open>None\<close> stands for a division by zero.\<close>

definition airtime_of :: "nat \<Rightarrow> nat \<Rightarrow> u32 option" where
  "airtime_of rate err =
     (if rate = 0 \<or> err = 256 then None
      else let tx_time = 256 + 10 * (8192 * 256) div rate;
               estimated_retx = 65536 div (256 - err)
           in Some (of_nat ((tx_time * estimated_retx) div 65536)))"

definition airtime_link_metric_get :: "mesh_peer \<Rightarrow> u32 option" where
  "airtime_link_metric_get sta =
     (if \<not> peer_estab sta then Some MAX_METRIC
      else let rate = (peer_throughput sta + 99) div 100
           in if rate \<noteq> 0 then airtime_of rate 0
              else if peer_fail_avg sta > 95 then Some MAX_METRIC
              else if peer_tx_rate_avg sta = 0 then Some MAX_METRIC
              else airtime_of (peer_tx_rate_avg sta) ((peer_fail_avg sta * 256) div 100))"

text \<open>\<open>mult_frac(x, 10, 9)\<close> on 32 bits, and the sum of metrics, which saturates.\<close>

definition mult_frac_10_9 :: "u32 \<Rightarrow> u32" where
  "mult_frac_10_9 x = (x div 9) * 10 + ((x mod 9) * 10) div 9"

definition add_metric :: "u32 \<Rightarrow> u32 \<Rightarrow> u32" where
  "add_metric orig_metric last_hop_metric =
     (let new_metric = orig_metric + last_hop_metric in if new_metric < orig_metric then MAX_METRIC else new_metric)"


section \<open>Route updates\<close>

text \<open>Whether the information on the originator of the frame is taken (\<open>fresh_info\<close>), and whether the
  frame is processed further (\<open>process\<close>).\<close>

definition orig_info :: "mesh_path \<Rightarrow> mac \<Rightarrow> u32 \<Rightarrow> u32 \<Rightarrow> bool \<times> bool" where
  "orig_info p sta orig_sn new_metric =
     (if MESH_PATH_FIXED \<in> mp_flags p then (False, True)
      else if MESH_PATH_ACTIVE \<in> mp_flags p \<and> MESH_PATH_SN_VALID \<in> mp_flags p then
        (if SN_GT (mp_sn p) orig_sn \<or>
            mp_sn p = orig_sn \<and>
              (if mp_next_hop p \<noteq> Some sta then mult_frac_10_9 new_metric else new_metric) \<ge> mp_metric p
         then (False, False) else (True, True))
      else if MESH_PATH_ACTIVE \<notin> mp_flags p then
        (let have_sn = MESH_PATH_SN_VALID \<in> mp_flags p;
             newer_sn = have_sn \<and> SN_GT orig_sn (mp_sn p);
             bounced = have_sn \<and> SN_DELTA orig_sn (mp_sn p) > 32
         in if \<not> have_sn \<or> newer_sn then (True, True) else if bounced then (True, True) else (False, False))
      else (True, True))"

definition trans_fresh :: "mesh_path \<Rightarrow> mac \<Rightarrow> u32 \<Rightarrow> bool" where
  "trans_fresh p sta last_hop_metric \<longleftrightarrow>
     \<not> (MESH_PATH_FIXED \<in> mp_flags p \<or>
        MESH_PATH_ACTIVE \<in> mp_flags p \<and>
          (if mp_next_hop p \<noteq> Some sta then mult_frac_10_9 last_hop_metric else last_hop_metric) > mp_metric p)"

text \<open>The new path through \<open>sta\<close>; the sequence number is \<open>None\<close> for the transmitter's own path.\<close>

definition take_path :: "mac \<Rightarrow> mac \<Rightarrow> u32 \<Rightarrow> u32 option \<Rightarrow> u64 \<Rightarrow> u8 \<Rightarrow> mesh_path \<Rightarrow> mesh_path" where
  "take_path vif sta metric osn exp_time hopcount p =
     (let changed = (mp_next_hop p \<noteq> Some sta);
          p1 = mesh_path_assign_nexthop vif sta
                 (p\<lparr>mp_path_change_count := mp_path_change_count p + (if changed then 1 else 0)\<rparr>);
          p2 = (case osn of None \<Rightarrow> p1 | Some sn \<Rightarrow> (add_flags {MESH_PATH_SN_VALID} p1)\<lparr>mp_sn := sn\<rparr>)
      in mesh_path_activate
           (p2\<lparr>mp_metric := metric, mp_hop_count := hopcount,
               mp_exp_time := if time_after (mp_exp_time p) exp_time then mp_exp_time p else exp_time\<rparr>))"

definition use_path :: "mac \<Rightarrow> mac \<Rightarrow> u32 \<Rightarrow> u32 option \<Rightarrow> u64 \<Rightarrow> u8 \<Rightarrow> path_if \<Rightarrow> path_if" where
  "use_path d sta metric osn exp_time hopcount s =
     mesh_path_tx_pending d (reset_fail_avg sta
       (on_path d (take_path (vif_addr (cfg s)) sta metric osn exp_time hopcount) s))"

text \<open>The part of the originator; \<open>Inl\<close> is the early return after a failed \<open>mesh_path_add\<close>.\<close>

definition route_orig :: "u64 \<Rightarrow> mac \<Rightarrow> mac \<Rightarrow> u32 \<Rightarrow> u32 \<Rightarrow> u64 \<Rightarrow> u8 \<Rightarrow> path_if \<Rightarrow> path_if + path_if \<times> bool" where
  "route_orig jiffies sta orig_addr orig_sn new_metric exp_time hopcount s =
     (if orig_addr = vif_addr (cfg s) then Inr (s, False)
      else case mesh_path_lookup jiffies orig_addr s of
             (s, Some p) \<Rightarrow>
               (case orig_info p sta orig_sn new_metric of
                  (fresh, process) \<Rightarrow>
                    Inr (if fresh then use_path orig_addr sta new_metric (Some orig_sn) exp_time hopcount s else s, process))
           | (s, None) \<Rightarrow>
               (case mesh_path_add jiffies orig_addr s of
                  (s, Inl _) \<Rightarrow> Inl s
                | (s, Inr _) \<Rightarrow> Inr (use_path orig_addr sta new_metric (Some orig_sn) exp_time hopcount s, True)))"

definition route_trans :: "u64 \<Rightarrow> mac \<Rightarrow> mac \<Rightarrow> u32 \<Rightarrow> u64 \<Rightarrow> path_if \<Rightarrow> path_if + path_if" where
  "route_trans jiffies sta orig_addr last_hop_metric exp_time s =
     (if orig_addr = sta then Inr s
      else case mesh_path_lookup jiffies sta s of
             (s, Some p) \<Rightarrow>
               Inr (if trans_fresh p sta last_hop_metric then use_path sta sta last_hop_metric None exp_time 1 s else s)
           | (s, None) \<Rightarrow>
               (case mesh_path_add jiffies sta s of
                  (s, Inl _) \<Rightarrow> Inl s
                | (s, Inr _) \<Rightarrow> Inr (use_path sta sta last_hop_metric None exp_time 1 s)))"

definition hwmp_route_info_get :: "u64 \<Rightarrow> mac \<Rightarrow> u8 list \<Rightarrow> mpath_frame_type \<Rightarrow> path_if \<Rightarrow> path_if \<times> u32" where
  "hwmp_route_info_get jiffies sta ie action s =
     (case Option.bind (peers s sta) airtime_link_metric_get of
        None \<Rightarrow> (s, 0)
      | Some last_hop_metric \<Rightarrow>
          (case (case action of
                   MPATH_PREQ \<Rightarrow> Some (PREQ_IE_ORIG_ADDR ie, PREQ_IE_ORIG_SN ie, PREQ_IE_LIFETIME ie, PREQ_IE_METRIC ie)
                 | MPATH_PREP \<Rightarrow> Some (PREP_IE_TARGET_ADDR ie, PREP_IE_TARGET_SN ie, PREP_IE_LIFETIME ie, PREP_IE_METRIC ie)
                 | _ \<Rightarrow> None) of
             None \<Rightarrow> (s, 0)
           | Some (orig_addr, orig_sn, lifetime, orig_metric) \<Rightarrow>
               let hopcount = PREQ_IE_HOPCOUNT ie + 1;
                   new_metric = add_metric orig_metric last_hop_metric;
                   exp_time = TU_TO_EXP_TIME jiffies (ucast lifetime)
               in case route_orig jiffies sta orig_addr orig_sn new_metric exp_time hopcount s of
                    Inl s \<Rightarrow> (s, 0)
                  | Inr (s, process) \<Rightarrow>
                      (case route_trans jiffies sta orig_addr last_hop_metric exp_time s of
                         Inl s \<Rightarrow> (s, 0)
                       | Inr s \<Rightarrow> (s, if process then new_metric else 0))))"



section \<open>Discovery queue\<close>

abbreviation (input) PREQ_Q_F_START :: u8 where "PREQ_Q_F_START \<equiv> 1"
abbreviation (input) PREQ_Q_F_REFRESH :: u8 where "PREQ_Q_F_REFRESH \<equiv> 2"
abbreviation (input) MAX_PREQ_QUEUE_LEN :: int where "MAX_PREQ_QUEUE_LEN \<equiv> 64"
abbreviation (input) IEEE80211_PREQ_TO_FLAG :: u8 where "IEEE80211_PREQ_TO_FLAG \<equiv> 1"
abbreviation (input) IEEE80211_PREQ_PROACTIVE_PREP_FLAG :: u8 where "IEEE80211_PREQ_PROACTIVE_PREP_FLAG \<equiv> 4"
abbreviation (input) RANN_FLAG_IS_GATE :: u8 where "RANN_FLAG_IS_GATE \<equiv> 1"

text \<open>When the queued request may go out: at once through the work item, or at the path timer of the
  interface.\<close>

definition schedule_preq :: "u64 \<Rightarrow> path_if \<Rightarrow> path_if" where
  "schedule_preq jiffies s =
     (let gap = min_preq_int (cfg s)
      in if time_after jiffies (last_preq s + gap) then s\<lparr>work_queued := True\<rparr>
         else if time_before jiffies (last_preq s) then s\<lparr>last_preq := jiffies - gap - 1, work_queued := True\<rparr>
         else s\<lparr>mesh_path_timer_at := Some (last_preq s + gap)\<rparr>)"

definition mesh_queue_preq :: "u64 \<Rightarrow> mac \<Rightarrow> u8 \<Rightarrow> path_if \<Rightarrow> path_if" where
  "mesh_queue_preq jiffies d flags s =
     (case path_at d (mesh_paths s) of
        None \<Rightarrow> s
      | Some p \<Rightarrow>
          if \<not> mem_ok s then s
          else if preq_queue_len s = MAX_PREQ_QUEUE_LEN then s
          else if MESH_PATH_REQ_QUEUED \<in> mp_flags p then s
          else schedule_preq jiffies
                 ((on_path d (add_flags {MESH_PATH_REQ_QUEUED}) s)
                    \<lparr>preq_queue := preq_queue s @ [(d, flags)], preq_queue_len := preq_queue_len s + 1\<rparr>))"

definition update_own_sn :: "u64 \<Rightarrow> path_if \<Rightarrow> path_if" where
  "update_own_sn jiffies s =
     (if time_after jiffies (last_sn_update s + net_traversal (cfg s)) \<or> time_before jiffies (last_sn_update s)
      then s\<lparr>if_sn := if_sn s + 1, last_sn_update := jiffies\<rparr> else s)"

text \<open>\<open>MSEC_TO_TU\<close> of the active path timeout, on 32 bits.\<close>

definition default_lifetime :: "path_if \<Rightarrow> u32" where
  "default_lifetime s = (active_path_timeout (cfg s) * 1000) div 1024"

text \<open>The state change of the path when its request is taken from the queue; \<open>None\<close> is \<open>goto enddiscovery\<close>
  with the path as given.\<close>

definition start_path :: "u32 \<Rightarrow> u8 \<Rightarrow> mesh_path \<Rightarrow> mesh_path \<times> bool" where
  "start_path timeout flags p =
     (if mp_flags p \<inter> {MESH_PATH_DELETED, MESH_PATH_FIXED} \<noteq> {} then (p, False)
      else let p = clear_flags {MESH_PATH_REQ_QUEUED} p
           in if flags AND PREQ_Q_F_START \<noteq> 0 then
                (if MESH_PATH_RESOLVING \<in> mp_flags p then (p, False)
                 else ((add_flags {MESH_PATH_RESOLVING} (clear_flags {MESH_PATH_RESOLVED} p))
                         \<lparr>mp_discovery_retries := 0, mp_discovery_timeout := timeout\<rparr>, True))
              else if MESH_PATH_RESOLVING \<notin> mp_flags p \<or> MESH_PATH_RESOLVED \<in> mp_flags p then
                (clear_flags {MESH_PATH_RESOLVING} p, False)
              else (p, True))"

definition send_preq :: "u64 \<Rightarrow> u8 \<Rightarrow> mesh_path \<Rightarrow> path_if \<Rightarrow> path_if" where
  "send_preq jiffies flags p s =
     (let s = update_own_sn jiffies (s\<lparr>last_preq := jiffies\<rparr>)
      in if element_ttl (cfg s) = 0 then s\<lparr>dropped_frames_ttl := dropped_frames_ttl s + 1\<rparr>
         else let da = (if mp_is_root p then mp_rann_snd_addr p else broadcast_addr);
                  s1 = mesh_path_sel_frame_tx MPATH_PREQ da
                    \<lparr>sf_flags = 0, sf_orig_addr = vif_addr (cfg s), sf_orig_sn = if_sn s,
                     sf_target_flags = (if flags AND PREQ_Q_F_REFRESH \<noteq> 0 then IEEE80211_PREQ_TO_FLAG else 0),
                     sf_target = mp_dst p, sf_target_sn = mp_sn p, sf_hop_count = 0, sf_ttl = element_ttl (cfg s),
                     sf_lifetime = default_lifetime s, sf_metric = 0, sf_preq_id = preq_id s\<rparr> s
              in on_path (mp_dst p) (\<lambda>q. q\<lparr>mp_timer := Some (jiffies + ucast (mp_discovery_timeout p))\<rparr>)
                   (s1\<lparr>preq_id := preq_id s1 + 1\<rparr>))"

definition mesh_path_start_discovery :: "u64 \<Rightarrow> path_if \<Rightarrow> path_if" where
  "mesh_path_start_discovery jiffies s =
     (if preq_queue_len s = 0 \<or> time_before jiffies (last_preq s + min_preq_int (cfg s)) then s
      else case preq_queue s of
             [] \<Rightarrow> s
           | (d, flags) # rest \<Rightarrow>
               (case mesh_path_lookup jiffies d (s\<lparr>preq_queue := rest, preq_queue_len := preq_queue_len s - 1\<rparr>) of
                  (s, None) \<Rightarrow> s
                | (s, Some p) \<Rightarrow>
                    (case start_path (disc_timeout (cfg s)) flags p of
                       (p, go) \<Rightarrow>
                         let s = on_path d (\<lambda>_. p) s in if go then send_preq jiffies flags p s else s)))"

text \<open>The discovery timer; \<open>quiescing\<close> is set while the device suspends.\<close>

definition mesh_path_timer :: "bool \<Rightarrow> u64 \<Rightarrow> mac \<Rightarrow> path_if \<Rightarrow> path_if" where
  "mesh_path_timer quiescing jiffies d s =
     (case path_at d (mesh_paths s) of
        None \<Rightarrow> s
      | Some p \<Rightarrow>
          let s = on_path d (\<lambda>p. p\<lparr>mp_timer := None\<rparr>) s
          in if quiescing then s
             else if MESH_PATH_RESOLVED \<in> mp_flags p \<or> MESH_PATH_RESOLVING \<notin> mp_flags p then
               on_path d (clear_flags {MESH_PATH_RESOLVING, MESH_PATH_RESOLVED}) s
             else if mp_discovery_retries p < max_preq_retries (cfg s) then
               mesh_queue_preq jiffies d 0
                 (on_path d (\<lambda>p. (clear_flags {MESH_PATH_REQ_QUEUED} p)
                    \<lparr>mp_discovery_retries := mp_discovery_retries p + 1,
                     mp_discovery_timeout := mp_discovery_timeout p * 2\<rparr>) s)
             else
               let s = on_path d (\<lambda>p. (clear_flags {MESH_PATH_RESOLVING, MESH_PATH_RESOLVED, MESH_PATH_REQ_QUEUED} p)
                         \<lparr>mp_exp_time := jiffies\<rparr>) s
               in if \<not> mp_is_gate p \<and> num_gates s > 0 then fst (mesh_path_send_to_gates d s)
                  else mesh_path_flush_pending p (on_path d (\<lambda>p. p\<lparr>mp_queue := []\<rparr>) s))"


section \<open>Next-hop lookup\<close>

definition mesh_path_refresh :: "u64 \<Rightarrow> mesh_path \<Rightarrow> mac option \<Rightarrow> path_if \<Rightarrow> path_if" where
  "mesh_path_refresh jiffies p addr s =
     (if mp_flags p \<inter> {MESH_PATH_REQ_QUEUED, MESH_PATH_FIXED, MESH_PATH_RESOLVING} \<noteq> {} then s
      else if time_after jiffies (mp_exp_time p - path_refresh (cfg s)) \<and>
              (case addr of None \<Rightarrow> True | Some a \<Rightarrow> vif_addr (cfg s) = a)
      then mesh_queue_preq jiffies (mp_dst p) (PREQ_Q_F_START OR PREQ_Q_F_REFRESH) s else s)"

definition mesh_nexthop_lookup_nolearn :: "mesh_frame \<Rightarrow> path_if \<Rightarrow> mesh_frame option" where
  "mesh_nexthop_lookup_nolearn f s =
     (if is_multicast_ether_addr (mf_addr1 f) then None
      else case peers s (mf_addr3 f) of
             None \<Rightarrow> None
           | Some n \<Rightarrow>
               if \<not> peer_estab n then None else Some (f\<lparr>mf_addr1 := mf_addr3 f, mf_addr2 := vif_addr (cfg s)\<rparr>))"

text \<open>The frame with its next hop, or \<open>None\<close>.\<close>

definition mesh_nexthop_lookup :: "u64 \<Rightarrow> mesh_frame \<Rightarrow> path_if \<Rightarrow> path_if \<times> mesh_frame option" where
  "mesh_nexthop_lookup jiffies f s =
     (case (if nolearn (cfg s) then mesh_nexthop_lookup_nolearn f s else None) of
        Some f' \<Rightarrow> (s, Some f')
      | None \<Rightarrow>
          (case mesh_path_lookup jiffies (mf_addr3 f) s of
             (s, None) \<Rightarrow> (s, None)
           | (s, Some p) \<Rightarrow>
               if MESH_PATH_ACTIVE \<notin> mp_flags p then (s, None)
               else (mesh_path_refresh jiffies p (Some (mf_addr4 f)) s,
                     map_option (\<lambda>nh. f\<lparr>mf_addr1 := nh, mf_addr2 := vif_addr (cfg s)\<rparr>) (mp_next_hop p))))"

text \<open>\<open>Some\<close> the frame ready to send, or \<open>None\<close> when it was queued or discarded.\<close>

definition mesh_nexthop_resolve :: "u64 \<Rightarrow> mesh_frame \<Rightarrow> path_if \<Rightarrow> path_if \<times> mesh_frame option" where
  "mesh_nexthop_resolve jiffies f s =
     (if mf_qos_null f then (s, Some f)
      else if mf_skip_lookup f then (s, Some f)
      else case mesh_nexthop_lookup jiffies f s of
             (s, Some f') \<Rightarrow> (s, Some f')
           | (s, None) \<Rightarrow>
               (case (case mesh_path_lookup jiffies (mf_addr3 f) s of
                        (s, Some p) \<Rightarrow> (s, Inr p)
                      | (s, None) \<Rightarrow> mesh_path_add jiffies (mf_addr3 f) s) of
                  (s, Inl _) \<Rightarrow> (mesh_path_discard_frame f s, None)
                | (s, Inr p) \<Rightarrow>
                    let s = (if MESH_PATH_RESOLVING \<notin> mp_flags p \<and> is_hwmp (cfg s)
                             then mesh_queue_preq jiffies (mf_addr3 f) PREQ_Q_F_START s else s);
                        full = length (mp_queue p) \<ge> MESH_FRAME_QUEUE_LEN;
                        s = on_path (mf_addr3 f)
                              (\<lambda>p. p\<lparr>mp_queue := (if full then tl (mp_queue p) else mp_queue p) @ [f]\<rparr>) s
                    in (if full then mesh_path_discard_frame (hd (mp_queue p)) s else s, None)))"



section \<open>Processing received elements\<close>

text \<open>What the target part of a PREQ decides: the state, whether to reply, with which target address,
  sequence number and metric, whether to forward, the target flags forwarded, and the path that
  \<open>mpath\<close> points to afterwards.\<close>

record preq_verdict =
  v_reply :: bool
  v_forward :: bool
  v_target :: mac
  v_target_sn :: u32
  v_target_metric :: u32
  v_target_flags :: u8
  v_mpath :: "mesh_path option"

definition is_broadcast_ether_addr :: "mac \<Rightarrow> bool" where
  "is_broadcast_ether_addr a \<longleftrightarrow> a = broadcast_addr"

definition preq_target :: "u64 \<Rightarrow> u8 list \<Rightarrow> path_if \<Rightarrow> path_if \<times> preq_verdict" where
  "preq_target jiffies ie s =
     (let target = PREQ_IE_TARGET_ADDR ie; tsn = PREQ_IE_TARGET_SN ie; tf = PREQ_IE_TARGET_F ie; flags = PREQ_IE_FLAGS ie;
          v = \<lparr>v_reply = False, v_forward = True, v_target = target, v_target_sn = tsn, v_target_metric = 0,
               v_target_flags = tf, v_mpath = None\<rparr>
      in if target = vif_addr (cfg s) then
           let s = update_own_sn jiffies (if SN_GT tsn (if_sn s) then s\<lparr>if_sn := tsn\<rparr> else s)
           in (s, v\<lparr>v_reply := True, v_forward := False, v_target_sn := if_sn s\<rparr>)
         else if is_broadcast_ether_addr target \<and> tf AND IEEE80211_PREQ_TO_FLAG \<noteq> 0 then
           (case mesh_path_lookup jiffies (PREQ_IE_ORIG_ADDR ie) s of
              (s, None) \<Rightarrow> (s, v)
            | (s, Some p) \<Rightarrow>
                let (s, v) = (if flags AND IEEE80211_PREQ_PROACTIVE_PREP_FLAG \<noteq> 0 then
                                (s\<lparr>if_sn := if_sn s + 1, last_sn_update := jiffies\<rparr>,
                                 v\<lparr>v_reply := True, v_target := vif_addr (cfg s), v_target_sn := if_sn s + 1\<rparr>)
                              else (s, v));
                    s = (if flags AND RANN_FLAG_IS_GATE \<noteq> 0 then mesh_path_add_gate (mp_dst p) s else s)
                in (s, v\<lparr>v_mpath := Some p\<rparr>))
         else
           (case mesh_path_lookup jiffies target s of
              (s, None) \<Rightarrow> (s, v)
            | (s, Some p) \<Rightarrow>
                if MESH_PATH_SN_VALID \<notin> mp_flags p \<or> SN_LT (mp_sn p) tsn then
                  (on_path target (\<lambda>p. (add_flags {MESH_PATH_SN_VALID} p)\<lparr>mp_sn := tsn\<rparr>) s, v\<lparr>v_mpath := Some p\<rparr>)
                else if tf AND IEEE80211_PREQ_TO_FLAG = 0 \<and> MESH_PATH_ACTIVE \<in> mp_flags p then
                  (s, v\<lparr>v_reply := True, v_target_metric := mp_metric p, v_target_sn := mp_sn p,
                        v_target_flags := tf OR IEEE80211_PREQ_TO_FLAG, v_mpath := Some p\<rparr>)
                else (s, v\<lparr>v_mpath := Some p\<rparr>)))"

definition preq_reply :: "mac \<Rightarrow> u8 list \<Rightarrow> preq_verdict \<Rightarrow> path_if \<Rightarrow> path_if" where
  "preq_reply sa ie v s =
     (if \<not> v_reply v then s
      else if element_ttl (cfg s) \<noteq> 0 then
        mesh_path_sel_frame_tx MPATH_PREP sa
          \<lparr>sf_flags = 0, sf_orig_addr = PREQ_IE_ORIG_ADDR ie, sf_orig_sn = PREQ_IE_ORIG_SN ie, sf_target_flags = 0,
           sf_target = v_target v, sf_target_sn = v_target_sn v, sf_hop_count = 0, sf_ttl = element_ttl (cfg s),
           sf_lifetime = PREQ_IE_LIFETIME ie, sf_metric = v_target_metric v, sf_preq_id = 0\<rparr> s
      else s\<lparr>dropped_frames_ttl := dropped_frames_ttl s + 1\<rparr>)"

definition preq_forward :: "u8 list \<Rightarrow> u32 \<Rightarrow> preq_verdict \<Rightarrow> path_if \<Rightarrow> path_if" where
  "preq_forward ie orig_metric v s =
     (if \<not> (v_forward v \<and> forwarding (cfg s)) then s
      else if PREQ_IE_TTL ie \<le> 1 then s\<lparr>dropped_frames_ttl := dropped_frames_ttl s + 1\<rparr>
      else let da = (case v_mpath v of
                       None \<Rightarrow> broadcast_addr
                     | Some p \<Rightarrow> if mp_is_root p then mp_rann_snd_addr p else broadcast_addr);
               proactive = (PREQ_IE_FLAGS ie AND IEEE80211_PREQ_PROACTIVE_PREP_FLAG \<noteq> 0);
               s = mesh_path_sel_frame_tx MPATH_PREQ da
                 \<lparr>sf_flags = PREQ_IE_FLAGS ie, sf_orig_addr = PREQ_IE_ORIG_ADDR ie, sf_orig_sn = PREQ_IE_ORIG_SN ie,
                  sf_target_flags = v_target_flags v,
                  sf_target = (if proactive then PREQ_IE_TARGET_ADDR ie else v_target v),
                  sf_target_sn = (if proactive then PREQ_IE_TARGET_SN ie else v_target_sn v),
                  sf_hop_count = PREQ_IE_HOPCOUNT ie + 1, sf_ttl = PREQ_IE_TTL ie - 1,
                  sf_lifetime = PREQ_IE_LIFETIME ie, sf_metric = orig_metric, sf_preq_id = PREQ_IE_PREQ_ID ie\<rparr> s;
               s = (if \<not> is_multicast_ether_addr da then s\<lparr>fwded_unicast := fwded_unicast s + 1\<rparr>
                    else s\<lparr>fwded_mcast := fwded_mcast s + 1\<rparr>)
           in s\<lparr>fwded_frames := fwded_frames s + 1\<rparr>)"

definition hwmp_preq_frame_process :: "u64 \<Rightarrow> mac \<Rightarrow> u8 list \<Rightarrow> u32 \<Rightarrow> path_if \<Rightarrow> path_if" where
  "hwmp_preq_frame_process jiffies sa ie orig_metric s =
     (case preq_target jiffies ie s of (s, v) \<Rightarrow> preq_forward ie orig_metric v (preq_reply sa ie v s))"

text \<open>\<open>None\<close> is the null pointer dereference of an active path without a next hop.\<close>

definition hwmp_prep_frame_process :: "u64 \<Rightarrow> u8 list \<Rightarrow> u32 \<Rightarrow> path_if \<Rightarrow> path_if option" where
  "hwmp_prep_frame_process jiffies ie metric s =
     (let orig = PREP_IE_ORIG_ADDR ie; ttl = PREQ_IE_TTL ie
      in if orig = vif_addr (cfg s) then Some s
         else if \<not> forwarding (cfg s) then Some s
         else if ttl \<le> 1 then Some (s\<lparr>dropped_frames_ttl := dropped_frames_ttl s + 1\<rparr>)
         else case mesh_path_lookup jiffies orig s of
                (s, None) \<Rightarrow> Some (s\<lparr>dropped_frames_no_route := dropped_frames_no_route s + 1\<rparr>)
              | (s, Some p) \<Rightarrow>
                  if MESH_PATH_ACTIVE \<notin> mp_flags p then
                    Some (s\<lparr>dropped_frames_no_route := dropped_frames_no_route s + 1\<rparr>)
                  else case mp_next_hop p of
                         None \<Rightarrow> None
                       | Some nh \<Rightarrow>
                           let s = mesh_path_sel_frame_tx MPATH_PREP nh
                             \<lparr>sf_flags = PREQ_IE_FLAGS ie, sf_orig_addr = orig, sf_orig_sn = PREP_IE_ORIG_SN ie,
                              sf_target_flags = 0, sf_target = PREP_IE_TARGET_ADDR ie,
                              sf_target_sn = PREP_IE_TARGET_SN ie, sf_hop_count = PREQ_IE_HOPCOUNT ie + 1,
                              sf_ttl = ttl - 1, sf_lifetime = PREP_IE_LIFETIME ie, sf_metric = metric, sf_preq_id = 0\<rparr> s
                           in Some (s\<lparr>fwded_unicast := fwded_unicast s + 1, fwded_frames := fwded_frames s + 1\<rparr>))"

definition hwmp_perr_frame_process :: "u64 \<Rightarrow> mac \<Rightarrow> u8 list \<Rightarrow> path_if \<Rightarrow> path_if option" where
  "hwmp_perr_frame_process jiffies ta ie s =
     (let ttl = PERR_IE_TTL ie; target = PERR_IE_TARGET_ADDR ie; tsn = PERR_IE_TARGET_SN ie
      in if ttl \<le> 1 then Some (s\<lparr>dropped_frames_ttl := dropped_frames_ttl s + 1\<rparr>)
         else case mesh_path_lookup jiffies target s of
                (s, None) \<Rightarrow> Some s
              | (s, Some p) \<Rightarrow>
                  if MESH_PATH_ACTIVE \<notin> mp_flags p then Some s
                  else case mp_next_hop p of
                         None \<Rightarrow> None
                       | Some nh \<Rightarrow>
                           if ta = nh \<and> MESH_PATH_FIXED \<notin> mp_flags p \<and>
                              (MESH_PATH_SN_VALID \<notin> mp_flags p \<or> SN_GT tsn (mp_sn p) \<or> tsn = 0) then
                             let s = on_path target (\<lambda>p. (clear_flags {MESH_PATH_ACTIVE} p)
                                       \<lparr>mp_sn := if tsn \<noteq> 0 then tsn else mp_sn p + 1\<rparr>) s
                             in Some (if \<not> forwarding (cfg s) then s
                                      else mesh_path_error_tx jiffies (ttl - 1) target tsn (PERR_IE_TARGET_RCODE ie)
                                             broadcast_addr s)
                           else Some s)"

text \<open>A RANN element: flags, hop count, TTL, root address, sequence number, interval, metric.\<close>

definition rann_refresh :: "u64 \<Rightarrow> u8 \<Rightarrow> mesh_path \<Rightarrow> path_if \<Rightarrow> bool" where
  "rann_refresh jiffies ttl p s \<longleftrightarrow>
     (mp_flags p \<inter> {MESH_PATH_ACTIVE, MESH_PATH_RESOLVING} = {} \<or>
      time_after jiffies (mp_last_preq_to_root p + root_confirmation (cfg s)) \<or>
      time_before jiffies (mp_last_preq_to_root p)) \<and>
     MESH_PATH_FIXED \<notin> mp_flags p \<and> ttl \<noteq> 0"

definition rann_accept :: "u64 \<Rightarrow> mac \<Rightarrow> u8 list \<Rightarrow> u32 \<Rightarrow> mesh_path \<Rightarrow> path_if \<Rightarrow> path_if" where
  "rann_accept jiffies sa ie new_metric p s =
     (let ttl = ie ! 2; orig = addr_at 3 ie; orig_sn = get_le32 ie 9;
          s = (if rann_refresh jiffies ttl p s then
                 on_path orig (\<lambda>p. p\<lparr>mp_last_preq_to_root := jiffies\<rparr>)
                   (mesh_queue_preq jiffies orig (PREQ_Q_F_START OR PREQ_Q_F_REFRESH) s)
               else s);
          s = on_path orig (\<lambda>p. p\<lparr>mp_sn := orig_sn, mp_rann_metric := new_metric, mp_is_root := True,
                                  mp_rann_snd_addr := sa\<rparr>) s;
          s = (if ie ! 0 AND RANN_FLAG_IS_GATE \<noteq> 0 then mesh_path_add_gate orig s else s)
      in if ttl \<le> 1 then s\<lparr>dropped_frames_ttl := dropped_frames_ttl s + 1\<rparr>
         else if forwarding (cfg s) then
           mesh_path_sel_frame_tx MPATH_RANN broadcast_addr
             \<lparr>sf_flags = ie ! 0, sf_orig_addr = orig, sf_orig_sn = orig_sn, sf_target_flags = 0, sf_target = [],
              sf_target_sn = 0, sf_hop_count = ie ! 1 + 1, sf_ttl = ttl - 1, sf_lifetime = get_le32 ie 13,
              sf_metric = new_metric, sf_preq_id = 0\<rparr> s
         else s)"

definition hwmp_rann_frame_process :: "u64 \<Rightarrow> mac \<Rightarrow> u8 list \<Rightarrow> path_if \<Rightarrow> path_if" where
  "hwmp_rann_frame_process jiffies sa ie s =
     (let orig = addr_at 3 ie
      in if orig = vif_addr (cfg s) then s
         else case Option.bind (peers s sa) airtime_link_metric_get of
                None \<Rightarrow> s
              | Some last_hop_metric \<Rightarrow>
                  let new_metric = add_metric (get_le32 ie 17) last_hop_metric
                  in case (case mesh_path_lookup jiffies orig s of
                             (s, Some p) \<Rightarrow> (s, Inr p)
                           | (s, None) \<Rightarrow> mesh_path_add jiffies orig s) of
                       (s, Inl _) \<Rightarrow> s\<lparr>dropped_frames_no_route := dropped_frames_no_route s + 1\<rparr>
                     | (s, Inr p) \<Rightarrow>
                         if \<not> SN_LT (mp_sn p) (get_le32 ie 9) \<and>
                            \<not> (mp_sn p = get_le32 ie 9 \<and> new_metric < mp_rann_metric p) then s
                         else rann_accept jiffies sa ie new_metric p s)"

record path_elems =
  el_preq :: "u8 list option"
  el_prep :: "u8 list option"
  el_perr :: "u8 list option"
  el_rann :: "u8 list option"

text \<open>The elements of the frame, in this order; an element of the wrong length ends the processing.\<close>

definition mesh_rx_path_sel_frame :: "u64 \<Rightarrow> mac \<Rightarrow> path_elems \<Rightarrow> path_if \<Rightarrow> path_if option" where
  "mesh_rx_path_sel_frame jiffies sa els s =
     (let rann = (\<lambda>s. case el_rann els of None \<Rightarrow> Some s | Some e \<Rightarrow> Some (hwmp_rann_frame_process jiffies sa e s));
          perr = (\<lambda>s. case el_perr els of
                    None \<Rightarrow> rann s
                  | Some e \<Rightarrow> if length e \<noteq> 15 then Some s else Option.bind (hwmp_perr_frame_process jiffies sa e s) rann);
          prep = (\<lambda>s. case el_prep els of
                    None \<Rightarrow> perr s
                  | Some e \<Rightarrow>
                      if length e \<noteq> 31 then Some s
                      else case hwmp_route_info_get jiffies sa e MPATH_PREP s of
                             (s, m) \<Rightarrow> Option.bind (if m \<noteq> 0 then hwmp_prep_frame_process jiffies e m s else Some s) perr)
      in case peers s sa of
           None \<Rightarrow> Some s
         | Some n \<Rightarrow>
             if \<not> peer_estab n then Some s
             else case el_preq els of
                    None \<Rightarrow> prep s
                  | Some e \<Rightarrow>
                      if length e \<noteq> 37 then Some s
                      else case hwmp_route_info_get jiffies sa e MPATH_PREQ s of
                             (s, m) \<Rightarrow> prep (if m \<noteq> 0 then hwmp_preq_frame_process jiffies sa e m s else s))"

end
