(* ===== verification/MeshPathInv.thy ===== *)
theory MeshPathInv
  imports Hwmp
begin

text \<open>
  The invariant of the path table and that every operation of MeshPath and Hwmp keeps it: destinations
  are unique and never our own or a group address, an active path has a next hop and every next hop is
  a known peer (so no dereference of a null or stale pointer), pending queues hold at most ten frames,
  the discovery queue matches its counter and its limit, and the gate list and counter match the paths
  marked as gates.
\<close>


section \<open>Table lemmas\<close>

definition keeps_key :: "(mesh_path \<Rightarrow> mesh_path) \<Rightarrow> bool" where
  "keeps_key f \<longleftrightarrow> (\<forall>p. mp_dst (f p) = mp_dst p)"

lemma path_at_Some: "path_at d ps = Some p \<Longrightarrow> p \<in> set ps \<and> mp_dst p = d"
  by (auto simp: path_at_def find_Some_iff)

lemma path_at_None: "path_at d ps = None \<longleftrightarrow> d \<notin> mp_dst ` set ps"
  by (auto simp: path_at_def find_None_iff)

lemma path_at_upd:
  "keeps_key f \<Longrightarrow> path_at d (upd_path d' f ps) = (if d = d' then map_option f (path_at d ps) else path_at d ps)"
  by (induction ps) (auto simp: path_at_def upd_path_def keeps_key_def)

interpretation pt: keyed_table path_at upd_path "(#)" "\<lambda>d. filter (\<lambda>q. mp_dst q \<noteq> d)" mp_dst
proof unfold_locales
  show "path_at k t = Some v \<Longrightarrow> mp_dst v = k" for k t v using path_at_Some by blast
  show "path_at k (v # t) = (if mp_dst v = k then Some v else path_at k t)" for k v t by (simp add: path_at_def)
  show "(\<And>v. mp_dst (f v) = mp_dst v) \<Longrightarrow> path_at k (upd_path k' f t) = (if k = k' then map_option f (path_at k t) else path_at k t)"
    for f k k' t by (rule path_at_upd) (simp add: keeps_key_def)
  show "path_at k (filter (\<lambda>q. mp_dst q \<noteq> k') t) = (if k = k' then None else path_at k t)" for k k' t
    by (induction t) (auto simp: path_at_def)
qed

lemma dsts_upd [simp]: "keeps_key f \<Longrightarrow> map mp_dst (upd_path d f ps) = map mp_dst ps"
  by (auto simp: upd_path_def keeps_key_def)

lemma set_upd: "set (upd_path d f ps) = (\<lambda>p. if mp_dst p = d then f p else p) ` set ps"
  by (simp add: upd_path_def)

lemma on_path_sel [simp]:
  "cfg (on_path d f s) = cfg s" "peers (on_path d f s) = peers s" "mpp_paths (on_path d f s) = mpp_paths s"
  "known_gates (on_path d f s) = known_gates s" "num_gates (on_path d f s) = num_gates s"
  "mpaths (on_path d f s) = mpaths s" "preq_queue (on_path d f s) = preq_queue s"
  "preq_queue_len (on_path d f s) = preq_queue_len s" "mesh_paths (on_path d f s) = upd_path d f (mesh_paths s)"
  "outs (on_path d f s) = outs s" "if_sn (on_path d f s) = if_sn s" "mem_ok (on_path d f s) = mem_ok s"
  by (simp_all add: on_path_def)


section \<open>Invariant\<close>

definition path_ok :: "mac \<Rightarrow> (mac \<Rightarrow> mesh_peer option) \<Rightarrow> mesh_path \<Rightarrow> bool" where
  "path_ok vif prs p \<longleftrightarrow>
     mp_dst p \<noteq> vif \<and> \<not> is_multicast_ether_addr (mp_dst p) \<and>
     (MESH_PATH_ACTIVE \<in> mp_flags p \<longrightarrow> mp_next_hop p \<noteq> None) \<and>
     (\<forall>n. mp_next_hop p = Some n \<longrightarrow> prs n \<noteq> None) \<and> length (mp_queue p) \<le> MESH_FRAME_QUEUE_LEN"

definition table_inv :: "path_if \<Rightarrow> bool" where
  "table_inv s \<longleftrightarrow>
     distinct (map mp_dst (mesh_paths s)) \<and> distinct (map mp_dst (mpp_paths s)) \<and>
     (\<forall>p \<in> set (mesh_paths s). path_ok (vif_addr (cfg s)) (peers s) p)"

definition gates_inv :: "path_if \<Rightarrow> bool" where
  "gates_inv s \<longleftrightarrow>
     distinct (known_gates s) \<and> num_gates s = int (length (known_gates s)) \<and>
     (\<forall>p \<in> set (mesh_paths s). mp_is_gate p \<longleftrightarrow> mp_dst p \<in> set (known_gates s)) \<and>
     set (known_gates s) \<subseteq> mp_dst ` set (mesh_paths s) \<and> (\<forall>p \<in> set (mpp_paths s). \<not> mp_is_gate p)"

definition preq_inv :: "path_if \<Rightarrow> bool" where
  "preq_inv s \<longleftrightarrow> preq_queue_len s = int (length (preq_queue s)) \<and> preq_queue_len s \<le> MAX_PREQ_QUEUE_LEN"

definition path_inv :: "path_if \<Rightarrow> bool" where
  "path_inv s \<longleftrightarrow> table_inv s \<and> gates_inv s \<and> preq_inv s"

text \<open>The fields the invariant reads; an operation that changes none of them keeps it.\<close>

definition core :: "path_if \<Rightarrow> _" where
  "core s = (vif_addr (cfg s), {n. peers s n \<noteq> None}, mesh_paths s, mpp_paths s, known_gates s, num_gates s,
     preq_queue s, preq_queue_len s)"

lemma path_inv_core: "core s = core s' \<Longrightarrow> path_inv s = path_inv s'"
  unfolding path_inv_def table_inv_def gates_inv_def preq_inv_def path_ok_def core_def
  by (simp add: set_eq_iff)

lemma path_inv_on_path:
  assumes "path_inv s" "keeps_key f"
    and "\<And>p. p \<in> set (mesh_paths s) \<Longrightarrow> mp_dst p = d \<Longrightarrow> path_ok (vif_addr (cfg s)) (peers s) p \<Longrightarrow>
           path_ok (vif_addr (cfg s)) (peers s) (f p) \<and> mp_is_gate (f p) = mp_is_gate p"
  shows "path_inv (on_path d f s)"
proof -
  have t: "table_inv s" "gates_inv s" "preq_inv s" using assms(1) by (simp_all add: path_inv_def)
  have "table_inv (on_path d f s)" using t(1) assms(2,3) by (auto simp: table_inv_def set_upd)
  moreover have "mp_dst ` set (mesh_paths (on_path d f s)) = mp_dst ` set (mesh_paths s)"
    using assms(2) dsts_upd [OF assms(2)] by (metis list.set_map on_path_sel(9))
  then have "gates_inv (on_path d f s)"
    using t(1,2) assms(2,3) unfolding gates_inv_def table_inv_def
    by (auto simp: set_upd keeps_key_def)
  moreover have "preq_inv (on_path d f s)" using t(3) by (simp add: preq_inv_def)
  ultimately show ?thesis by (simp add: path_inv_def)
qed

text \<open>Updates of a path that are harmless anywhere.\<close>

definition mild :: "(mesh_path \<Rightarrow> mesh_path) \<Rightarrow> bool" where
  "mild f \<longleftrightarrow>
     (\<forall>p. mp_dst (f p) = mp_dst p \<and> mp_is_gate (f p) = mp_is_gate p \<and> mp_next_hop (f p) = mp_next_hop p \<and>
          length (mp_queue (f p)) \<le> length (mp_queue p) \<and>
          (MESH_PATH_ACTIVE \<in> mp_flags (f p) \<longrightarrow> MESH_PATH_ACTIVE \<in> mp_flags p))"

lemma path_inv_mild: "path_inv s \<Longrightarrow> mild f \<Longrightarrow> path_inv (on_path d f s)"
  by (rule path_inv_on_path) (auto simp: mild_def keeps_key_def path_ok_def intro: le_trans)

lemma mild_clear [simp]: "mild (clear_flags F)"
  by (simp add: mild_def clear_flags_def)

lemma mild_add [simp]: "MESH_PATH_ACTIVE \<notin> F \<Longrightarrow> mild (add_flags F)"
  by (simp add: mild_def add_flags_def)

lemma keeps_key_mild [simp]: "mild f \<Longrightarrow> keeps_key f"
  by (simp add: mild_def keeps_key_def)



section \<open>The table operations\<close>

lemma lookup_inv [inv_pres]:
  assumes "path_inv s" "mesh_path_lookup jiffies d s = (s', r)"
  shows "path_inv s'" and "r = path_at d (mesh_paths s')" and "cfg s' = cfg s" and "peers s' = peers s"
    and "outs s' = outs s" and "mem_ok s' = mem_ok s" and "if_sn s' = if_sn s"
proof -
  have on: "s\<lparr>mesh_paths := upd_path d f (mesh_paths s)\<rparr> = on_path d f s" for f by (simp add: on_path_def)
  show "path_inv s'"
    using assms path_inv_mild [OF assms(1) mild_clear]
    by (auto simp: mesh_path_lookup_def mpath_lookup_def on split: option.splits if_splits)
  show "r = path_at d (mesh_paths s')" "cfg s' = cfg s" "peers s' = peers s" "outs s' = outs s" "mem_ok s' = mem_ok s"
      "if_sn s' = if_sn s"
    using assms(2) by (auto simp: mesh_path_lookup_def mpath_lookup_def path_at_upd split: option.splits if_splits)
qed

lemma add_inv [inv_pres]:
  assumes "path_inv s" "mesh_path_add jiffies d s = (s', r)"
  shows "path_inv s'" and "cfg s' = cfg s" and "peers s' = peers s" and "outs s' = outs s"
    and "r = Inr p \<Longrightarrow> path_at d (mesh_paths s') = Some p"
proof -
  let ?s = "s\<lparr>mpaths := mpaths s + 1, mesh_paths := mesh_path_new jiffies d # mesh_paths s\<rparr>"
  have c: "path_inv (s\<lparr>mpaths := mpaths s + 1\<rparr>)"
    using assms(1) by (subst path_inv_core [of _ s]) (simp_all add: core_def)
  have new: "path_inv ?s" if "d \<noteq> vif_addr (cfg s)" "\<not> is_multicast_ether_addr d" "path_at d (mesh_paths s) = None"
  proof -
    have fresh: "d \<notin> mp_dst ` set (mesh_paths s)" using that(3) by (simp add: path_at_None)
    then have "d \<notin> set (known_gates s)" using assms(1) by (auto simp: path_inv_def gates_inv_def)
    moreover have "path_ok (vif_addr (cfg s)) (peers s) (mesh_path_new jiffies d)"
      using that(1,2) by (simp add: mesh_path_new_def path_ok_def)
    moreover have "mp_dst (mesh_path_new jiffies d) = d" "\<not> mp_is_gate (mesh_path_new jiffies d)"
      by (simp_all add: mesh_path_new_def)
    ultimately show ?thesis
      using assms(1) fresh unfolding path_inv_def table_inv_def gates_inv_def preq_inv_def by auto
  qed
  show "path_inv s'"
    using assms(2) c new assms(1) by (auto simp: mesh_path_add_def Let_def split: if_splits option.splits)
  show "cfg s' = cfg s" "peers s' = peers s" "outs s' = outs s" "r = Inr p \<Longrightarrow> path_at d (mesh_paths s') = Some p"
    using assms(2)
    by (auto simp: mesh_path_add_def Let_def path_at_def mesh_path_new_def split: if_splits option.splits)
qed

lemma add_gate_inv [inv_pres]:
  assumes inv: "path_inv s"
  shows "path_inv (mesh_path_add_gate d s)"
proof (cases "path_at d (mesh_paths s)")
  case (Some p)
  note p = path_at_Some [OF Some]
  let ?f = "\<lambda>p. p\<lparr>mp_is_gate := True\<rparr>"
  have key: "keeps_key ?f" by (simp add: keeps_key_def)
  have dsts: "mp_dst ` set (upd_path d ?f (mesh_paths s)) = mp_dst ` set (mesh_paths s)"
    using dsts_upd [OF key] by (metis list.set_map)
  show ?thesis
  proof (cases "mp_is_gate p")
    case False
    have g: "gates_inv s" "table_inv s" "preq_inv s" using inv by (simp_all add: path_inv_def)
    have "table_inv (on_path d ?f s)" using g(2) key by (auto simp: table_inv_def set_upd path_ok_def)
    moreover have "d \<notin> set (known_gates s)" "d \<in> mp_dst ` set (mesh_paths s)"
      using g p False by (auto simp: gates_inv_def)
    moreover have "\<forall>q \<in> set (upd_path d ?f (mesh_paths s)). mp_is_gate q \<longleftrightarrow> mp_dst q \<in> set (d # known_gates s)"
      using g(1) by (auto simp: gates_inv_def set_upd)
    ultimately show ?thesis
      using g Some False unfolding path_inv_def table_inv_def gates_inv_def preq_inv_def
      by (simp add: mesh_path_add_gate_def dsts)
  qed (use inv Some in \<open>simp add: mesh_path_add_gate_def\<close>)
qed (use inv in \<open>simp add: mesh_path_add_gate_def\<close>)

lemma fold_discard:
  "core (fold mesh_path_discard_frame fs s) = core s \<and> outs (fold mesh_path_discard_frame fs s) = outs s @ map DATA_DISCARD fs \<and>
   peers (fold mesh_path_discard_frame fs s) = peers s \<and> cfg (fold mesh_path_discard_frame fs s) = cfg s"
proof (induction fs arbitrary: s)
  case (Cons f fs)
  have "core (mesh_path_discard_frame f s) = core s" by (simp add: mesh_path_discard_frame_def core_def)
  then show ?case using Cons [of "mesh_path_discard_frame f s"] by (simp add: mesh_path_discard_frame_def)
qed simp

lemma flush_pending_inv [inv_pres]:
  assumes inv: "path_inv s"
  shows "path_inv (mesh_path_flush_pending p s)"
proof -
  let ?s = "fold mesh_path_discard_frame (mp_queue p) s"
  let ?rest = "filter (\<lambda>(d, _). d \<noteq> mp_dst p) (preq_queue ?s)"
  have i: "path_inv ?s" using inv path_inv_core fold_discard by blast
  then have q: "preq_queue_len ?s = int (length (preq_queue ?s))" "preq_queue_len ?s \<le> 64"
    by (simp_all add: path_inv_def preq_inv_def)
  have le: "length ?rest \<le> length (preq_queue ?s)" by simp
  have n: "preq_queue_len ?s - int (length (preq_queue ?s) - length ?rest) = int (length ?rest)"
    using q(1) le by linarith
  have "path_inv (?s\<lparr>preq_queue_len := int (length ?rest), preq_queue := ?rest\<rparr>)"
  proof -
    have "int (length ?rest) \<le> 64" using q le by linarith
    then show ?thesis using i unfolding path_inv_def table_inv_def gates_inv_def preq_inv_def by simp
  qed
  then show ?thesis unfolding mesh_path_flush_pending_def Let_def n .
qed

lemma flush_pending_sel [simp]:
  "cfg (mesh_path_flush_pending p s) = cfg s" "peers (mesh_path_flush_pending p s) = peers s"
  "mesh_paths (mesh_path_flush_pending p s) = mesh_paths s" "mpp_paths (mesh_path_flush_pending p s) = mpp_paths s"
  using fold_discard [of "mp_queue p" s] by (simp_all add: mesh_path_flush_pending_def Let_def core_def)

lemma path_del_sel [simp]:
  "cfg (path_del b p s) = cfg s" "peers (path_del b p s) = peers s"
  "mesh_paths (path_del b p s) = (if b then filter (\<lambda>q. mp_dst q \<noteq> mp_dst p) (mesh_paths s) else mesh_paths s)"
  "mpp_paths (path_del b p s) = (if b then mpp_paths s else filter (\<lambda>q. mp_dst q \<noteq> mp_dst p) (mpp_paths s))"
  by (simp_all add: path_del_def mesh_path_free_def mesh_gate_del_def Let_def)

lemma path_del_inv [inv_pres]:
  assumes "path_inv s" "p \<in> set (if b then mesh_paths s else mpp_paths s)"
  shows "path_inv (path_del b p s)"
proof -
  let ?t = "if b then s\<lparr>mesh_paths := filter (\<lambda>q. mp_dst q \<noteq> mp_dst p) (mesh_paths s)\<rparr>
            else s\<lparr>mpp_paths := filter (\<lambda>q. mp_dst q \<noteq> mp_dst p) (mpp_paths s)\<rparr>"
  have t: "table_inv s" "gates_inv s" "preq_inv s" using assms(1) by (simp_all add: path_inv_def)
  have "path_inv (mesh_gate_del p ?t)"
  proof (cases b)
    case True
    then have p: "p \<in> set (mesh_paths s)" using assms(2) by simp
    have sub: "set (known_gates s) - {mp_dst p} \<subseteq> mp_dst ` {q \<in> set (mesh_paths s). mp_dst q \<noteq> mp_dst p}"
      using t(2) by (auto simp: gates_inv_def image_iff)
    have "table_inv (mesh_gate_del p ?t)"
      using t(1) True by (auto simp: table_inv_def mesh_gate_del_def distinct_map_filter)
    moreover have "gates_inv (mesh_gate_del p ?t)"
    proof (cases "mp_is_gate p")
      case gate: True
      then have "mp_dst p \<in> set (known_gates s)" using t(2) p by (auto simp: gates_inv_def)
      then have "int (length (remove1 (mp_dst p) (known_gates s))) = num_gates s - 1"
        using t(2) length_pos_if_in_set [of "mp_dst p" "known_gates s"]
        by (simp add: gates_inv_def length_remove1 of_nat_diff Suc_leI)
      then show ?thesis
        using t(2) True gate sub unfolding gates_inv_def mesh_gate_del_def by (auto simp: set_remove1_eq)
    next
      case no: False
      then have "mp_dst p \<notin> set (known_gates s)" using t(2) p by (auto simp: gates_inv_def)
      then have "set (known_gates s) \<subseteq> mp_dst ` {q \<in> set (mesh_paths s). mp_dst q \<noteq> mp_dst p}" using sub by simp
      then show ?thesis using t(2) True no unfolding gates_inv_def mesh_gate_del_def by simp
    qed
    ultimately show ?thesis using t(3) True by (simp add: path_inv_def preq_inv_def mesh_gate_del_def)
  next
    case False
    then have "\<not> mp_is_gate p" using assms(2) t(2) by (simp add: gates_inv_def)
    then show ?thesis
      using t False unfolding path_inv_def table_inv_def gates_inv_def preq_inv_def mesh_gate_del_def
      by (simp add: distinct_map_filter)
  qed
  then have "path_inv ((mesh_gate_del p ?t)\<lparr>mpaths := mpaths (mesh_gate_del p ?t) - 1\<rparr>)"
    by (subst path_inv_core [of _ "mesh_gate_del p ?t"]) (simp_all add: core_def)
  then show ?thesis by (simp add: path_del_def mesh_path_free_def Let_def flush_pending_inv)
qed



lemma fold_del_inv:
  assumes "path_inv s" "set qs \<subseteq> set (if b then mesh_paths s else mpp_paths s)" "distinct (map mp_dst qs)"
  shows "path_inv (fold (path_del b) qs s) \<and> cfg (fold (path_del b) qs s) = cfg s \<and> peers (fold (path_del b) qs s) = peers s \<and>
     set (mesh_paths (fold (path_del b) qs s)) =
       {q \<in> set (mesh_paths s). b \<longrightarrow> mp_dst q \<notin> mp_dst ` set qs}"
  using assms
proof (induction qs arbitrary: s)
  case (Cons q qs)
  let ?t = "path_del b q s"
  have "path_inv ?t" using Cons.prems(1,2) by (intro path_del_inv) auto
  moreover have "set qs \<subseteq> set (if b then mesh_paths ?t else mpp_paths ?t)"
    using Cons.prems(2,3) by (auto simp: image_iff)
  ultimately show ?case using Cons.IH [of ?t] Cons.prems(3) by auto
qed auto

lemma del_paths_inv [inv_pres]:
  assumes "path_inv s"
  shows "path_inv (del_paths b P s)" "cfg (del_paths b P s) = cfg s" "peers (del_paths b P s) = peers s"
    and "q \<in> set (mesh_paths (del_paths True P s)) \<Longrightarrow> q \<in> set (mesh_paths s) \<and> \<not> P q"
proof -
  let ?qs = "filter P (if b then mesh_paths s else mpp_paths s)"
  have "distinct (map mp_dst (if b then mesh_paths s else mpp_paths s))"
    using assms by (simp add: path_inv_def table_inv_def)
  then have "distinct (map mp_dst ?qs)" by (simp add: distinct_map_filter)
  from fold_del_inv [OF assms _ this] show "path_inv (del_paths b P s)" "cfg (del_paths b P s) = cfg s"
      "peers (del_paths b P s) = peers s"
    unfolding del_paths_def by auto
  have "distinct (map mp_dst (filter P (mesh_paths s)))"
    using assms by (simp add: path_inv_def table_inv_def distinct_map_filter)
  from fold_del_inv [OF assms _ this, of True]
  show "q \<in> set (mesh_paths (del_paths True P s)) \<Longrightarrow> q \<in> set (mesh_paths s) \<and> \<not> P q"
    unfolding del_paths_def by auto
qed



section \<open>Next hops, errors and gates\<close>

lemma tx_pending_inv [inv_pres]: "path_inv s \<Longrightarrow> path_inv (mesh_path_tx_pending d s)"
proof -
  assume inv: "path_inv s"
  have "path_inv (on_path d (\<lambda>p. p\<lparr>mp_queue := []\<rparr>) s)" by (rule path_inv_mild [OF inv]) (simp add: mild_def)
  then have "path_inv ((on_path d (\<lambda>p. p\<lparr>mp_queue := []\<rparr>) s)\<lparr>outs := os\<rparr>)" for os
    by (subst path_inv_core [of _ "on_path d (\<lambda>p. p\<lparr>mp_queue := []\<rparr>) s"]) (simp_all add: core_def)
  then show ?thesis using inv by (simp add: mesh_path_tx_pending_def split: option.splits)
qed

lemma tx_pending_sel [simp]:
  "cfg (mesh_path_tx_pending d s) = cfg s" "peers (mesh_path_tx_pending d s) = peers s"
  "known_gates (mesh_path_tx_pending d s) = known_gates s" "if_sn (mesh_path_tx_pending d s) = if_sn s"
  "mem_ok (mesh_path_tx_pending d s) = mem_ok s"
  by (simp_all add: mesh_path_tx_pending_def split: option.splits)

lemma reset_fail_avg_inv [inv_pres]: "path_inv s \<Longrightarrow> path_inv (reset_fail_avg sta s)"
  by (subst path_inv_core [of _ s]) (auto simp: core_def reset_fail_avg_def)

lemma reset_fail_avg_sel [simp]:
  "cfg (reset_fail_avg sta s) = cfg s" "mesh_paths (reset_fail_avg sta s) = mesh_paths s"
  "mem_ok (reset_fail_avg sta s) = mem_ok s" "if_sn (reset_fail_avg sta s) = if_sn s"
  "outs (reset_fail_avg sta s) = outs s"
  "peers (reset_fail_avg sta s) n = None \<longleftrightarrow> peers s n = None"
  by (simp_all add: reset_fail_avg_def)

lemma error_tx_inv [inv_pres]: "path_inv s \<Longrightarrow> path_inv (mesh_path_error_tx j ttl t tsn rc ra s)"
  by (subst path_inv_core [of _ s]) (auto simp: core_def mesh_path_error_tx_def)

lemma error_tx_sel [simp]:
  "cfg (mesh_path_error_tx j ttl t tsn rc ra s) = cfg s" "peers (mesh_path_error_tx j ttl t tsn rc ra s) = peers s"
  "mesh_paths (mesh_path_error_tx j ttl t tsn rc ra s) = mesh_paths s"
  by (simp_all add: mesh_path_error_tx_def)

lemma break_path_inv: "path_inv s \<Longrightarrow> path_inv (break_path j p s) \<and> cfg (break_path j p s) = cfg s \<and> peers (break_path j p s) = peers s"
  unfolding break_path_def
  by (auto intro!: error_tx_inv path_inv_mild simp: mild_def clear_flags_def)

lemma plink_broken_inv [inv_pres]:
  "path_inv s \<Longrightarrow> path_inv (mesh_plink_broken j sta s) \<and> cfg (mesh_plink_broken j sta s) = cfg s \<and>
     peers (mesh_plink_broken j sta s) = peers s"
proof -
  have "path_inv t \<Longrightarrow> path_inv (fold (break_path j) qs t) \<and> cfg (fold (break_path j) qs t) = cfg t \<and>
      peers (fold (break_path j) qs t) = peers t" for qs t
    by (induction qs arbitrary: t) (use break_path_inv in auto)
  then show "path_inv s \<Longrightarrow> ?thesis" by (simp add: mesh_plink_broken_def)
qed

lemma fix_nexthop_inv [inv_pres]:
  assumes "path_inv s" "peers s sta \<noteq> None"
  shows "path_inv (mesh_path_fix_nexthop d sta s)"
proof -
  have "path_inv (on_path d (\<lambda>p. mesh_path_activate
      ((mesh_path_assign_nexthop (vif_addr (cfg s)) sta p)
         \<lparr>mp_sn := 0xffff, mp_metric := 0, mp_hop_count := 0, mp_exp_time := 0,
          mp_flags := {MESH_PATH_FIXED, MESH_PATH_SN_VALID}\<rparr>)) s)"
    using assms
    by (intro path_inv_on_path)
      (auto simp: keeps_key_def mesh_path_activate_def mesh_path_assign_nexthop_def add_flags_def path_ok_def)
  then show ?thesis by (simp add: mesh_path_fix_nexthop_def Let_def tx_pending_inv reset_fail_avg_inv)
qed

lemma move_loop_length:
  "move_loop mem copy vif g gq fq = (gq', left) \<Longrightarrow> length gq \<le> 10 \<Longrightarrow> length gq' \<le> 10 \<and> length left \<le> length fq"
proof (induction mem copy vif g gq fq arbitrary: gq' left rule: move_loop.induct)
  case (2 mem copy vif gate gq f failq)
  then show ?case by (fastforce split: if_splits option.splits prod.splits)
qed simp

lemma move_to_queue_inv [inv_pres]: "path_inv s \<Longrightarrow> path_inv (mesh_path_move_to_queue g from copy s)"
proof -
  assume inv: "path_inv s"
  show ?thesis
  proof (cases "\<exists>p q. path_at g (mesh_paths s) = Some q \<and> path_at from (mesh_paths s) = Some p \<and> g \<noteq> from \<and> mp_next_hop q \<noteq> None")
    case True
    then obtain p q where pq: "path_at g (mesh_paths s) = Some q" "path_at from (mesh_paths s) = Some p" "g \<noteq> from"
        "mp_next_hop q \<noteq> None" by blast
    obtain gq left where loop: "move_loop (mem_ok s) copy (vif_addr (cfg s)) q (mp_queue q) (mp_queue p) = (gq, left)"
      by fastforce
    have ok: "length (mp_queue q) \<le> 10" "length (mp_queue p) \<le> 10"
      using inv path_at_Some pq(1,2) by (fastforce simp: path_inv_def table_inv_def path_ok_def)+
    have len: "length gq \<le> 10" "length left \<le> 10" using move_loop_length [OF loop ok(1)] ok(2) by auto
    let ?s1 = "on_path from (\<lambda>p. p\<lparr>mp_queue := if copy then left else []\<rparr>) s"
    have "path_inv ?s1" using inv len(2) by (intro path_inv_on_path) (auto simp: keeps_key_def path_ok_def)
    then have "path_inv (on_path g (\<lambda>q. q\<lparr>mp_queue := gq\<rparr>) ?s1)"
      by (rule path_inv_on_path) (use len(1) in \<open>auto simp: keeps_key_def path_ok_def\<close>)
    then show ?thesis using pq loop by (auto simp: mesh_path_move_to_queue_def)
  qed (use inv in \<open>auto simp: mesh_path_move_to_queue_def split: option.splits prod.splits\<close>)
qed

lemma move_to_queue_sel [simp]:
  "cfg (mesh_path_move_to_queue g from copy s) = cfg s" "peers (mesh_path_move_to_queue g from copy s) = peers s"
  by (simp_all add: mesh_path_move_to_queue_def split: option.splits prod.splits)

lemma gates_loop_inv:
  "gates_loop gs frm copy s = (s', fr) \<Longrightarrow> path_inv s \<Longrightarrow> path_inv s' \<and> cfg s' = cfg s \<and> peers s' = peers s"
proof (induction gs frm copy s rule: gates_loop.induct)
  case (2 g gs frm copy s)
  then show ?case using move_to_queue_inv [of s g frm copy] by (auto split: option.splits if_splits)
qed simp

lemma send_to_gates_inv [inv_pres]:
  assumes "path_inv s"
  shows "path_inv (fst (mesh_path_send_to_gates d s)) \<and> cfg (fst (mesh_path_send_to_gates d s)) = cfg s \<and>
     peers (fst (mesh_path_send_to_gates d s)) = peers s"
proof -
  obtain s1 fr where g: "gates_loop (known_gates s) d False s = (s1, fr)" by fastforce
  have "path_inv t \<Longrightarrow> path_inv (fold mesh_path_tx_pending qs t) \<and> cfg (fold mesh_path_tx_pending qs t) = cfg t \<and>
      peers (fold mesh_path_tx_pending qs t) = peers t" for qs t
    by (induction qs arbitrary: t) (use tx_pending_inv in auto)
  then show ?thesis using gates_loop_inv [OF g assms] g by (simp add: mesh_path_send_to_gates_def)
qed

end
