(* ===== verification/HwmpInv.thy ===== *)
theory HwmpInv
  imports MeshPathInv
begin

text \<open>
  The operations of mesh_hwmp.c keep the invariant of MeshPathInv. \<open>good s s'\<close> says that an operation
  that started in \<open>s\<close> has left a state with the invariant, the same configuration and the same set of
  peers; the lemmas chain by transitivity along the code.
\<close>


definition good :: "path_if \<Rightarrow> path_if \<Rightarrow> bool" where
  "good s s' \<longleftrightarrow> path_inv s' \<and> cfg s' = cfg s \<and> (\<forall>n. peers s' n = None \<longleftrightarrow> peers s n = None)"

named_theorems good_intros \<open>operations of the path protocol end in a good state\<close>

lemma good_refl [good_intros]: "path_inv s \<Longrightarrow> good s s"
  by (simp add: good_def)

lemma good_trans: "good s t \<Longrightarrow> good t u \<Longrightarrow> good s u"
  by (simp add: good_def)

lemma good_inv: "good s t \<Longrightarrow> path_inv t"
  by (simp add: good_def)

lemma good_cfg: "good s t \<Longrightarrow> cfg t = cfg s"
  by (simp add: good_def)

lemma good_step: "good s t \<Longrightarrow> (path_inv t \<Longrightarrow> good t (f t)) \<Longrightarrow> good s (f t)"
  by (simp add: good_def)

text \<open>Two states with the same invariant-relevant part and configuration.\<close>

definition same_core :: "path_if \<Rightarrow> path_if \<Rightarrow> bool" where
  "same_core s t \<longleftrightarrow> core s = core t \<and> cfg s = cfg t"

lemma good_same:
  assumes "good s t" "same_core t u"
  shows "good s u"
proof -
  have "{n. peers t n \<noteq> None} = {n. peers u n \<noteq> None}" using assms(2) by (simp add: same_core_def core_def)
  then have "peers t n = None \<longleftrightarrow> peers u n = None" for n by blast
  then show ?thesis using assms path_inv_core [of t u] by (simp add: good_def same_core_def)
qed

lemma good_mild: "path_inv s \<Longrightarrow> mild f \<Longrightarrow> good s (on_path d f s)"
  by (simp add: good_def path_inv_mild)

lemma same_core_refl [simp]: "same_core s s"
  by (simp add: same_core_def)

lemma lookup_good: "path_inv s \<Longrightarrow> mesh_path_lookup j d s = (t, r) \<Longrightarrow> good s t"
  using lookup_inv(1,3,4) [of s j d t r] by (simp add: good_def)

lemma add_good: "path_inv s \<Longrightarrow> mesh_path_add j d s = (t, r) \<Longrightarrow> good s t"
  using add_inv(1,2,3) [of s j d t r] by (simp add: good_def)

lemma add_gate_good: "path_inv s \<Longrightarrow> good s (mesh_path_add_gate d s)"
  using add_gate_inv [of s d] by (auto simp: good_def mesh_path_add_gate_def split: option.splits)

lemma sel_frame_tx_same [simp]: "same_core s (mesh_path_sel_frame_tx a da f s)"
  by (simp add: same_core_def core_def mesh_path_sel_frame_tx_def split: option.splits)

lemma tx_pending_good: "path_inv s \<Longrightarrow> good s (mesh_path_tx_pending d s)"
  by (simp add: good_def tx_pending_inv)

lemma reset_fail_good: "path_inv s \<Longrightarrow> good s (reset_fail_avg sta s)"
  by (simp add: good_def reset_fail_avg_inv)

lemma error_tx_good: "path_inv s \<Longrightarrow> good s (mesh_path_error_tx j ttl t tsn rc ra s)"
  by (simp add: good_def error_tx_inv)


section \<open>Route updates\<close>

lemma take_path_fields [simp]:
  "mp_dst (take_path v sta m osn e h p) = mp_dst p" "mp_is_gate (take_path v sta m osn e h p) = mp_is_gate p"
  "mp_next_hop (take_path v sta m osn e h p) = Some sta" "mp_metric (take_path v sta m osn e h p) = m"
  "mp_sn (take_path v sta m osn e h p) = (case osn of None \<Rightarrow> mp_sn p | Some n \<Rightarrow> n)"
  "mp_flags (take_path v sta m osn e h p) = mp_flags p \<union> {MESH_PATH_ACTIVE, MESH_PATH_RESOLVED} \<union>
     (case osn of None \<Rightarrow> {} | Some n \<Rightarrow> {MESH_PATH_SN_VALID})"
  "length (mp_queue (take_path v sta m osn e h p)) = length (mp_queue p)"
  by (auto simp: take_path_def mesh_path_activate_def mesh_path_assign_nexthop_def add_flags_def Let_def split: option.splits)

lemma use_path_good:
  assumes "path_inv s" "peers s sta \<noteq> None"
  shows "good s (use_path d sta m osn e h s)"
proof -
  let ?t = "on_path d (take_path (vif_addr (cfg s)) sta m osn e h) s"
  have "path_inv ?t"
    by (rule path_inv_on_path [OF assms(1)]) (use assms(2) in \<open>auto simp: keeps_key_def path_ok_def\<close>)
  then have "good s ?t" by (simp add: good_def)
  then have "good s (reset_fail_avg sta ?t)" by (rule good_step) (rule reset_fail_good)
  then have "good s (mesh_path_tx_pending d (reset_fail_avg sta ?t))" by (rule good_step) (rule tx_pending_good)
  then show ?thesis by (simp add: use_path_def)
qed

lemma use_after:
  "good s t \<Longrightarrow> peers s sta \<noteq> None \<Longrightarrow> good s (use_path d sta m osn e h t)"
  using use_path_good [of t sta d m osn e h] by (auto intro: good_trans simp: good_def)

lemma route_orig_good:
  assumes "path_inv s" "peers s sta \<noteq> None"
  shows "(\<forall>t. route_orig j sta d osn m e h s = Inl t \<longrightarrow> good s t) \<and>
     (\<forall>t b. route_orig j sta d osn m e h s = Inr (t, b) \<longrightarrow> good s t)"
proof (cases "d = vif_addr (cfg s)")
  case False
  obtain t r where l: "mesh_path_lookup j d s = (t, r)" by fastforce
  have g: "good s t" using lookup_good [OF assms(1) l] .
  show ?thesis
  proof (cases r)
    case None
    obtain u q where a: "mesh_path_add j d t = (u, q)" by fastforce
    have "good s u" using good_trans [OF g add_good [OF good_inv [OF g] a]] .
    then show ?thesis
      using False l None a use_after [OF _ assms(2)] by (auto simp: route_orig_def split: sum.splits)
  next
    case (Some p)
    then show ?thesis
      using False l g use_after [OF g assms(2)] by (auto simp: route_orig_def split: prod.splits if_splits)
  qed
qed (use assms in \<open>auto simp: route_orig_def good_def\<close>)

lemma route_trans_good:
  assumes "path_inv s" "peers s sta \<noteq> None"
  shows "(\<forall>t. route_trans j sta d m e s = Inl t \<longrightarrow> good s t) \<and> (\<forall>t. route_trans j sta d m e s = Inr t \<longrightarrow> good s t)"
proof (cases "d = sta")
  case False
  obtain t r where l: "mesh_path_lookup j sta s = (t, r)" by fastforce
  have g: "good s t" using lookup_good [OF assms(1) l] .
  show ?thesis
  proof (cases r)
    case None
    obtain u q where a: "mesh_path_add j sta t = (u, q)" by fastforce
    have "good s u" using good_trans [OF g add_good [OF good_inv [OF g] a]] .
    then show ?thesis
      using False l None a use_after [OF _ assms(2)] by (auto simp: route_trans_def split: sum.splits)
  next
    case (Some p)
    then show ?thesis
      using False l g use_after [OF g assms(2)] by (auto simp: route_trans_def split: if_splits)
  qed
qed (use assms in \<open>auto simp: route_trans_def good_def\<close>)

lemma route_info_good:
  assumes "path_inv s" "hwmp_route_info_get j sta ie a s = (t, m)"
  shows "good s t"
proof (cases "peers s sta")
  case None
  then show ?thesis using assms by (simp add: hwmp_route_info_get_def good_refl)
next
  case (Some n)
  then have pr: "peers s sta \<noteq> None" by simp
  note o = route_orig_good [OF assms(1) pr]
  have tr: "good s u" if "good s v" "route_trans j sta d m' e v = Inl u \<or> route_trans j sta d m' e v = Inr u" for u v d m' e
    using that route_trans_good [of v sta j d m' e] pr good_trans [OF that(1)] by (auto simp: good_def)
  show ?thesis
    using assms(2) o tr good_refl [OF assms(1)]
    unfolding hwmp_route_info_get_def
    by (auto simp: Let_def split: option.splits mpath_frame_type.splits sum.splits prod.splits) metis+
qed



section \<open>Discovery\<close>

lemma schedule_same [simp]: "same_core s (schedule_preq j s)"
  by (simp add: same_core_def core_def schedule_preq_def Let_def)

lemma update_own_sn_same [simp]: "same_core s (update_own_sn j s)"
  by (simp add: same_core_def core_def update_own_sn_def)

lemma queue_preq_good:
  assumes "path_inv s"
  shows "good s (mesh_queue_preq j d fl s)"
proof -
  let ?t = "on_path d (add_flags {MESH_PATH_REQ_QUEUED}) s"
  let ?u = "?t\<lparr>preq_queue := preq_queue s @ [(d, fl)], preq_queue_len := preq_queue_len s + 1\<rparr>"
  have t: "path_inv ?t" using path_inv_mild [OF assms] by simp
  have q: "preq_queue_len s = int (length (preq_queue s))" "preq_queue_len s \<le> 64"
    using assms by (simp_all add: path_inv_def preq_inv_def)
  have "good s ?u" if "preq_queue_len s \<noteq> 64"
    using t q that unfolding good_def path_inv_def table_inv_def gates_inv_def preq_inv_def by simp
  then have "good s (schedule_preq j ?u)" if "preq_queue_len s \<noteq> 64" using that good_same schedule_same by blast
  then show ?thesis using good_refl [OF assms] by (auto simp: mesh_queue_preq_def split: option.splits)
qed

lemma start_path_mild: "start_path tm fl p = (q, go) \<Longrightarrow> \<exists>f. mild f \<and> q = f p"
proof -
  assume q: "start_path tm fl p = (q, go)"
  have "mp_dst q = mp_dst p" "mp_is_gate q = mp_is_gate p" "mp_next_hop q = mp_next_hop p" "mp_queue q = mp_queue p"
    "MESH_PATH_ACTIVE \<in> mp_flags q \<longrightarrow> MESH_PATH_ACTIVE \<in> mp_flags p"
    using q by (auto simp: start_path_def Let_def clear_flags_def add_flags_def split: if_splits)
  then show ?thesis by (intro exI [of _ "\<lambda>x. if x = p then q else x"]) (simp add: mild_def)
qed

lemma start_path_fields:
  assumes "start_path tm fl p = (q, go)"
  shows "mp_dst q = mp_dst p" "mp_is_gate q = mp_is_gate p" "mp_next_hop q = mp_next_hop p" "mp_queue q = mp_queue p"
    "MESH_PATH_ACTIVE \<in> mp_flags q \<longleftrightarrow> MESH_PATH_ACTIVE \<in> mp_flags p"
  using assms by (auto simp: start_path_def Let_def clear_flags_def add_flags_def split: if_splits)

text \<open>A destination occurs once, so writing back a changed copy of its path is an update of it.\<close>

lemma write_back:
  assumes "path_inv s" "path_at d (mesh_paths s) = Some p"
  shows "on_path d (\<lambda>_. f p) s = on_path d f s"
proof -
  have "x = p" if "x \<in> set (mesh_paths s)" "mp_dst x = d" for x
    using assms path_at_Some [OF assms(2)] that by (auto simp: path_inv_def table_inv_def distinct_map inj_on_def)
  then show ?thesis by (auto simp: on_path_def upd_path_def)
qed

lemma send_preq_good:
  assumes "path_inv s"
  shows "good s (send_preq j fl p s)"
proof -
  have mt: "mild (\<lambda>q. q\<lparr>mp_timer := v\<rparr>)" for v by (simp add: mild_def)
  have g: "good s (update_own_sn j (s\<lparr>last_preq := j\<rparr>))"
    by (rule good_same [OF good_refl [OF assms]])
      (auto simp: same_core_def core_def update_own_sn_def)
  then have g2: "good s u" if "same_core (update_own_sn j (s\<lparr>last_preq := j\<rparr>)) u" for u
    using good_same that by blast
  have "same_core v ((mesh_path_sel_frame_tx a da f v)\<lparr>preq_id := n\<rparr>)" for v a da f n
    using sel_frame_tx_same [of v a da f] by (simp add: same_core_def core_def)
  from g2 [OF this] good_mild mt have "good s (on_path d (\<lambda>q. q\<lparr>mp_timer := v\<rparr>)
      ((mesh_path_sel_frame_tx a da f (update_own_sn j (s\<lparr>last_preq := j\<rparr>)))\<lparr>preq_id := n\<rparr>))" for d v a da f n
    by (meson good_inv good_trans)
  moreover have "good s ((update_own_sn j (s\<lparr>last_preq := j\<rparr>))\<lparr>dropped_frames_ttl := n\<rparr>)" for n
    by (rule g2) (simp add: same_core_def core_def)
  ultimately show ?thesis by (simp add: send_preq_def Let_def)
qed

lemma start_discovery_good:
  assumes "path_inv s"
  shows "good s (mesh_path_start_discovery j s)"
proof (cases "preq_queue s")
  case (Cons pq rest)
  obtain d fl where pq: "pq = (d, fl)" by fastforce
  let ?s = "s\<lparr>preq_queue := rest, preq_queue_len := preq_queue_len s - 1\<rparr>"
  have g: "good s ?s"
    using assms Cons unfolding good_def path_inv_def table_inv_def gates_inv_def preq_inv_def by auto
  obtain t r where l: "mesh_path_lookup j d ?s = (t, r)" by fastforce
  have gt: "good s t" using good_trans [OF g lookup_good [OF good_inv [OF g] l]] .
  show ?thesis
  proof (cases r)
    case None
    then show ?thesis using Cons pq l gt good_refl [OF assms] by (simp add: mesh_path_start_discovery_def)
  next
    case (Some p)
    obtain q go where q: "start_path (disc_timeout (cfg t)) fl p = (q, go)" by fastforce
    have at: "path_at d (mesh_paths t) = Some p" using lookup_inv(2) [OF good_inv [OF g] l] Some by simp
    obtain f where f: "mild f" "q = f p" using start_path_mild [OF q] by blast
    have "good t (on_path d (\<lambda>_. q) t)"
      using good_mild [OF good_inv [OF gt] f(1)] write_back [OF good_inv [OF gt] at, of f] f(2) by simp
    then have gq: "good s (on_path d (\<lambda>_. q) t)" using good_trans [OF gt] by blast
    then show ?thesis
      using Cons pq l Some q good_refl [OF assms] good_trans [OF gq send_preq_good [OF good_inv [OF gq]]]
      by (simp add: mesh_path_start_discovery_def Let_def)
  qed
qed (use assms in \<open>simp add: mesh_path_start_discovery_def good_def\<close>)

lemma flush_pending_good: "path_inv s \<Longrightarrow> good s (mesh_path_flush_pending p s)"
  by (simp add: good_def flush_pending_inv)

lemma path_timer_good:
  assumes "path_inv s"
  shows "good s (Hwmp.mesh_path_timer qu j d s)"
proof (cases "path_at d (mesh_paths s)")
  case (Some p)
  let ?s = "on_path d (\<lambda>p. p\<lparr>mp_timer := None\<rparr>) s"
  have g: "good s ?s" by (rule good_mild [OF assms]) (simp add: mild_def)
  have step: "good s (on_path d f ?s)" if "mild f" for f
    using good_trans [OF g good_mild [OF good_inv [OF g] that]] .
  have step2: "good s (on_path d h (on_path d f ?s))" if "mild f" "mild h" for f h
    using good_trans [OF step [OF that(1)] good_mild [OF good_inv [OF step [OF that(1)]] that(2)]] .
  have q: "good s (mesh_queue_preq j d 0 (on_path d f ?s))" if "mild f" for f
    using good_trans [OF step [OF that] queue_preq_good [OF good_inv [OF step [OF that]]]] .
  have f: "good s (mesh_path_flush_pending p (on_path d h (on_path d f ?s)))" if "mild f" "mild h" for f h
    using good_trans [OF step2 [OF that] flush_pending_good [OF good_inv [OF step2 [OF that]]]] .
  have gt: "good s (fst (mesh_path_send_to_gates d (on_path d f ?s)))" if "mild f" for f
    using good_trans [OF step [OF that]] send_to_gates_inv [OF good_inv [OF step [OF that]], of d] by (simp add: good_def)
  show ?thesis
    using Some g step q f gt by (simp add: Hwmp.mesh_path_timer_def Let_def mild_def clear_flags_def)
qed (use assms in \<open>simp add: Hwmp.mesh_path_timer_def good_def\<close>)



section \<open>Next-hop lookup\<close>

lemma refresh_good: "path_inv s \<Longrightarrow> good s (mesh_path_refresh j p a s)"
  by (simp add: mesh_path_refresh_def queue_preq_good good_refl)

lemma nexthop_lookup_good:
  assumes "path_inv s" "mesh_nexthop_lookup j f s = (t, r)"
  shows "good s t"
proof -
  obtain u q where l: "mesh_path_lookup j (mf_addr3 f) s = (u, q)" by fastforce
  have g: "good s u" using lookup_good [OF assms(1) l] .
  have "good s (mesh_path_refresh j p a u)" for p a using good_trans [OF g refresh_good [OF good_inv [OF g]]] .
  then show ?thesis
    using assms(2) l g good_refl [OF assms(1)]
    by (auto simp: mesh_nexthop_lookup_def split: option.splits if_splits)
qed

lemma discard_same [simp]: "same_core s (mesh_path_discard_frame f s)"
  by (simp add: same_core_def core_def mesh_path_discard_frame_def)

lemma queue_frame_good:
  assumes "path_inv s" "path_at d (mesh_paths s) = Some p"
  shows "good s (on_path d (\<lambda>p'. p'\<lparr>mp_queue := (if 10 \<le> length (mp_queue p) then tl (mp_queue p') else mp_queue p') @ [f]\<rparr>) s)"
proof -
  have "x = p" if "x \<in> set (mesh_paths s)" "mp_dst x = d" for x
    using assms path_at_Some [OF assms(2)] that by (auto simp: path_inv_def table_inv_def distinct_map inj_on_def)
  then show ?thesis
    using assms(1) unfolding good_def
    by (auto intro!: path_inv_on_path simp: keeps_key_def path_ok_def)
qed

lemma queue_preq_queue:
  "path_at d (mesh_paths s) = Some p \<Longrightarrow>
     \<exists>p'. path_at d (mesh_paths (mesh_queue_preq j d fl s)) = Some p' \<and> mp_queue p' = mp_queue p"
  by (auto simp: mesh_queue_preq_def schedule_preq_def Let_def path_at_upd add_flags_def)

lemma resolve_queue_good:
  assumes "path_inv s" "path_at d (mesh_paths s) = Some p"
  shows "good s (on_path d (\<lambda>p'. p'\<lparr>mp_queue := (if 10 \<le> length (mp_queue p) then tl (mp_queue p') else mp_queue p') @ [f]\<rparr>)
     (if b then mesh_queue_preq j d fl s else s))"
proof -
  let ?t = "if b then mesh_queue_preq j d fl s else s"
  have g: "good s ?t" using queue_preq_good [OF assms(1)] good_refl [OF assms(1)] by simp
  obtain p' where p': "path_at d (mesh_paths ?t) = Some p'" "mp_queue p' = mp_queue p"
    using queue_preq_queue [OF assms(2), of j fl] assms(2) by (cases b) auto
  show ?thesis using good_trans [OF g queue_frame_good [OF good_inv [OF g] p'(1)]] p'(2) by simp
qed

lemma resolve_good:
  assumes "path_inv s" "mesh_nexthop_resolve j f s = (t, r)"
  shows "good s t"
proof (cases "mf_qos_null f \<or> mf_skip_lookup f")
  case True
  then have "t = s" using assms(2) by (simp add: mesh_nexthop_resolve_def split: if_splits)
  then show ?thesis using good_refl [OF assms(1)] by simp
next
  case False
  obtain u q where l: "mesh_nexthop_lookup j f s = (u, q)" by fastforce
  have g: "good s u" using nexthop_lookup_good [OF assms(1) l] .
  obtain v w where m: "(case mesh_path_lookup j (mf_addr3 f) u of (s, Some p) \<Rightarrow> (s, Inr p)
      | (s, None) \<Rightarrow> mesh_path_add j (mf_addr3 f) s) = (v, w)" by fastforce
  obtain u' q' where l2: "mesh_path_lookup j (mf_addr3 f) u = (u', q')" by fastforce
  have g2: "good s u'" using good_trans [OF g lookup_good [OF good_inv [OF g] l2]] .
  have gv: "good s v"
    using m l2 g2 good_trans [OF g2 add_good [OF good_inv [OF g2]]] by (auto split: option.splits)
  have at: "path_at (mf_addr3 f) (mesh_paths v) = Some p" if "w = Inr p" for p
    using m l2 that lookup_inv(2) [OF good_inv [OF g] l2] add_inv(5) [OF good_inv [OF g2]]
    by (auto split: option.splits)
  have d: "good s (mesh_path_discard_frame x y)" if "good s y" for x y using good_same [OF that discard_same] .
  show ?thesis
  proof (cases q)
    case (Some f')
    then show ?thesis using assms(2) False l g by (simp add: mesh_nexthop_resolve_def)
  next
    case None
    show ?thesis
    proof (cases w)
      case (Inl e)
      then show ?thesis using assms(2) False l m None d [OF gv] by (auto simp: mesh_nexthop_resolve_def)
    next
      case (Inr p)
      let ?x = "on_path (mf_addr3 f)
          (\<lambda>p'. p'\<lparr>mp_queue := (if 10 \<le> length (mp_queue p) then tl (mp_queue p') else mp_queue p') @ [f]\<rparr>)
          (if MESH_PATH_RESOLVING \<notin> mp_flags p \<and> is_hwmp (cfg v) then mesh_queue_preq j (mf_addr3 f) 1 v else v)"
      have "good s ?x" using good_trans [OF gv resolve_queue_good [OF good_inv [OF gv] at [OF Inr]]] .
      moreover have "t = (if 10 \<le> length (mp_queue p) then mesh_path_discard_frame (hd (mp_queue p)) ?x else ?x)"
        using assms(2) False l m None Inr unfolding mesh_nexthop_resolve_def Let_def by simp
      ultimately show ?thesis using d by presburger
    qed
  qed
qed


section \<open>Elements\<close>

lemma preq_target_good:
  assumes "path_inv s" "preq_target j ie s = (t, v)"
  shows "good s t"
proof -
  have own: "good s (update_own_sn j (s\<lparr>if_sn := n\<rparr>))" "good s (update_own_sn j s)" for n
    by (rule good_same [OF good_refl [OF assms(1)]], simp add: same_core_def core_def update_own_sn_def)+
  have look: "good s t" if "mesh_path_lookup j d s = (t, r)" for d t r using lookup_good [OF assms(1) that] .
  have sn: "good s (t\<lparr>if_sn := n, last_sn_update := j\<rparr>)" if "good s t" for t n
    by (rule good_same [OF that]) (simp add: same_core_def core_def)
  have gate: "good s (mesh_path_add_gate d t)" if "good s t" for d t
    using good_trans [OF that add_gate_good [OF good_inv [OF that]]] .
  have tsn: "good s (on_path d (\<lambda>p. (add_flags {MESH_PATH_SN_VALID} p)\<lparr>mp_sn := n\<rparr>) t)" if "good s t" for d n t
    using good_trans [OF that good_mild [OF good_inv [OF that]]] by (simp add: mild_def add_flags_def)
  show ?thesis
    using assms(2) own look sn gate tsn unfolding preq_target_def Let_def
    by (auto split: if_splits prod.splits option.splits)
qed

lemma preq_process_good:
  assumes "path_inv s"
  shows "good s (hwmp_preq_frame_process j sa ie m s)"
proof -
  obtain t v where t: "preq_target j ie s = (t, v)" by fastforce
  have g: "good s t" using preq_target_good [OF assms t] .
  have r: "same_core u (preq_reply sa ie v u)" for u
    by (simp add: preq_reply_def) (simp add: same_core_def core_def)
  have f: "same_core u (preq_forward ie m v u)" for u
  proof -
    have "same_core u ((if b then w\<lparr>fwded_unicast := x\<rparr> else w\<lparr>fwded_mcast := y\<rparr>)\<lparr>fwded_frames := z\<rparr>)"
      if "same_core u w" for b w x y z using that by (simp add: same_core_def core_def)
    then show ?thesis by (simp add: preq_forward_def Let_def) (simp add: same_core_def core_def)
  qed
  show ?thesis
    using good_same [OF good_same [OF g r] f] t by (simp add: hwmp_preq_frame_process_def)
qed

text \<open>The invariant excludes the null pointer.\<close>

lemma active_next_hop:
  "path_inv s \<Longrightarrow> path_at d (mesh_paths s) = Some p \<Longrightarrow> MESH_PATH_ACTIVE \<in> mp_flags p \<Longrightarrow> mp_next_hop p \<noteq> None"
  using path_at_Some by (fastforce simp: path_inv_def table_inv_def path_ok_def)

lemma prep_process_good:
  assumes "path_inv s"
  shows "\<exists>t. hwmp_prep_frame_process j ie m s = Some t \<and> good s t"
proof -
  obtain u r where l: "mesh_path_lookup j (PREP_IE_ORIG_ADDR ie) s = (u, r)" by fastforce
  have g: "good s u" using lookup_good [OF assms l] .
  have at: "mp_next_hop p \<noteq> None" if "r = Some p" "MESH_PATH_ACTIVE \<in> mp_flags p" for p
    using active_next_hop [OF good_inv [OF g]] lookup_inv(2) [OF assms l] that by metis
  have upd: "good s (v\<lparr>dropped_frames_ttl := x\<rparr>)" "good s (v\<lparr>dropped_frames_no_route := x\<rparr>)"
      "good s (v\<lparr>fwded_unicast := x, fwded_frames := y\<rparr>)" if "good s v" for v x y
    using that good_same [OF that] by (auto simp: same_core_def core_def)
  have tx: "good s (mesh_path_sel_frame_tx a da f u)" for a da f using good_same [OF g sel_frame_tx_same] .
  show ?thesis
    using l g at upd tx good_refl [OF assms]
    unfolding hwmp_prep_frame_process_def Let_def by (auto split: option.splits)
qed

lemma perr_process_good:
  assumes "path_inv s"
  shows "\<exists>t. hwmp_perr_frame_process j ta ie s = Some t \<and> good s t"
proof -
  obtain u r where l: "mesh_path_lookup j (PERR_IE_TARGET_ADDR ie) s = (u, r)" by fastforce
  have g: "good s u" using lookup_good [OF assms l] .
  have at: "mp_next_hop p \<noteq> None" if "r = Some p" "MESH_PATH_ACTIVE \<in> mp_flags p" for p
    using active_next_hop [OF good_inv [OF g]] lookup_inv(2) [OF assms l] that by metis
  have ttl: "good s (s\<lparr>dropped_frames_ttl := x\<rparr>)" for x
    using good_same [OF good_refl [OF assms]] by (simp add: same_core_def core_def)
  have off: "good s (on_path d (\<lambda>p. (clear_flags {MESH_PATH_ACTIVE} p)\<lparr>mp_sn := if b then n else mp_sn p + 1\<rparr>) u)" for d b n
    using good_trans [OF g good_mild [OF good_inv [OF g]]] by (simp add: mild_def clear_flags_def)
  have err: "good s (mesh_path_error_tx j x y z rc ra v)" if "good s v" for x y z rc ra v
    using good_trans [OF that error_tx_good [OF good_inv [OF that]]] .
  show ?thesis
    using l g at ttl off err
    unfolding hwmp_perr_frame_process_def Let_def by (auto split: option.splits)
qed


lemma rann_accept_good:
  assumes "path_inv s"
  shows "good s (rann_accept j sa ie m p s)"
proof -
  let ?d = "addr_at 3 ie"
  have mild: "mild (\<lambda>p. p\<lparr>mp_last_preq_to_root := j\<rparr>)"
      "mild (\<lambda>p. p\<lparr>mp_sn := n, mp_rann_metric := m, mp_is_root := True, mp_rann_snd_addr := sa\<rparr>)" for n
    by (simp_all add: mild_def)
  have q: "good s (on_path ?d (\<lambda>p. p\<lparr>mp_last_preq_to_root := j\<rparr>) (mesh_queue_preq j ?d fl s))" for fl
    using good_trans [OF queue_preq_good [OF assms] good_mild [OF good_inv [OF queue_preq_good [OF assms]] mild(1)]] .
  have up: "good s (on_path ?d (\<lambda>p. p\<lparr>mp_sn := n, mp_rann_metric := m, mp_is_root := True, mp_rann_snd_addr := sa\<rparr>) t)"
    if "good s t" for t n using good_trans [OF that good_mild [OF good_inv [OF that] mild(2)]] .
  have gate: "good s (mesh_path_add_gate ?d t)" if "good s t" for t
    using good_trans [OF that add_gate_good [OF good_inv [OF that]]] .
  have ttl: "good s (t\<lparr>dropped_frames_ttl := x\<rparr>)" if "good s t" for t x
    using good_same [OF that] by (simp add: same_core_def core_def)
  have tx: "good s (mesh_path_sel_frame_tx a da f t)" if "good s t" for a da f t using good_same [OF that sel_frame_tx_same] .
  show ?thesis
    using q up gate ttl tx good_refl [OF assms] unfolding rann_accept_def Let_def by simp
qed

lemma rann_process_good:
  assumes "path_inv s"
  shows "good s (hwmp_rann_frame_process j sa ie s)"
proof -
  let ?d = "addr_at 3 ie"
  obtain u r where l: "mesh_path_lookup j ?d s = (u, r)" by fastforce
  have g: "good s u" using lookup_good [OF assms l] .
  have a: "good s v" if "mesh_path_add j ?d u = (v, w)" for v w using good_trans [OF g add_good [OF good_inv [OF g] that]] .
  have acc: "good s (rann_accept j sa ie m p v)" if "good s v" for m p v
    using good_trans [OF that rann_accept_good [OF good_inv [OF that]]] .
  have nr: "good s (v\<lparr>dropped_frames_no_route := x\<rparr>)" if "good s v" for v x
    using good_same [OF that] by (simp add: same_core_def core_def)
  show ?thesis
    using l g a acc nr good_refl [OF assms] unfolding hwmp_rann_frame_process_def Let_def
    by (auto split: option.splits sum.splits prod.splits)
qed

lemma rx_rann_good: "path_inv t \<Longrightarrow>
    \<exists>u. (case r of None \<Rightarrow> Some t | Some e \<Rightarrow> Some (hwmp_rann_frame_process j sa e t)) = Some u \<and> good t u"
  using rann_process_good [of t j sa] by (cases r) (auto simp: good_refl)

lemma bind_good:
  assumes "\<exists>t. m = Some t \<and> good s t" "\<And>t. path_inv t \<Longrightarrow> \<exists>u. f t = Some u \<and> good t u"
  shows "\<exists>u. Option.bind m f = Some u \<and> good s u"
proof -
  obtain t where t: "m = Some t" "good s t" using assms(1) by blast
  obtain u where "f t = Some u" "good t u" using assms(2) [OF good_inv [OF t(2)]] by blast
  then show ?thesis using t good_trans by auto
qed

text \<open>A received path selection frame never makes the code dereference a null pointer.\<close>

lemma rx_path_sel_good:
  assumes "path_inv s"
  shows "\<exists>t. mesh_rx_path_sel_frame j sa els s = Some t \<and> good s t"
proof -
  let ?rann = "\<lambda>s. case el_rann els of None \<Rightarrow> Some s | Some e \<Rightarrow> Some (hwmp_rann_frame_process j sa e s)"
  let ?perr = "\<lambda>s. case el_perr els of None \<Rightarrow> ?rann s
      | Some e \<Rightarrow> if length e \<noteq> 15 then Some s else Option.bind (hwmp_perr_frame_process j sa e s) ?rann"
  let ?prep = "\<lambda>s. case el_prep els of None \<Rightarrow> ?perr s
      | Some e \<Rightarrow> if length e \<noteq> 31 then Some s
          else case hwmp_route_info_get j sa e MPATH_PREP s of
            (s, m) \<Rightarrow> Option.bind (if m \<noteq> 0 then hwmp_prep_frame_process j e m s else Some s) ?perr"
  have ok: "\<exists>u. Some t = Some u \<and> good t u" if "path_inv t" for t using good_refl [OF that] by blast
  have rann: "\<exists>u. ?rann t = Some u \<and> good t u" if "path_inv t" for t using rx_rann_good [OF that] .
  have perr: "\<exists>u. ?perr t = Some u \<and> good t u" if "path_inv t" for t
    using rann [OF that] ok [OF that] bind_good [OF perr_process_good [OF that] rann] by (auto split: option.splits)
  have prep: "\<exists>u. ?prep t = Some u \<and> good t u" if t: "path_inv t" for t
  proof (cases "el_prep els")
    case None
    then show ?thesis using perr [OF t] by simp
  next
    case (Some e)
    obtain v m where ri: "hwmp_route_info_get j sa e MPATH_PREP t = (v, m)" by fastforce
    have g: "good t v" using route_info_good [OF t ri] .
    have "\<exists>u. (if m \<noteq> 0 then hwmp_prep_frame_process j e m v else Some v) = Some u \<and> good t u"
      using g prep_process_good [OF good_inv [OF g], of j e m] good_trans [OF g] by auto
    then show ?thesis using Some ri ok [OF t] bind_good [OF _ perr] by simp
  qed
  have preq: "\<exists>u. ?prep (if m \<noteq> 0 then hwmp_preq_frame_process j sa e m v else v) = Some u \<and> good s u"
    if ri: "hwmp_route_info_get j sa e MPATH_PREQ s = (v, m)" for e v m
  proof -
    have g: "good s v" using route_info_good [OF assms ri] .
    have "good s (if m \<noteq> 0 then hwmp_preq_frame_process j sa e m v else v)"
      using g good_trans [OF g preq_process_good [OF good_inv [OF g]]] by simp
    then show ?thesis using prep [OF good_inv] good_trans by blast
  qed
  show ?thesis
    using prep [OF assms] ok [OF assms] preq unfolding mesh_rx_path_sel_frame_def Let_def
    by (auto split: option.splits prod.splits)
qed

end
