(* ===== verification/HwmpProps.thy ===== *)
theory HwmpProps
  imports HwmpInv
begin

text \<open>
  Properties of path selection: runs of events, freshness of routes, replies, elements, the link
  metric, and the places where the code does less than it should.
\<close>


section \<open>Runs\<close>

datatype path_event =
    RX_SEL mac path_elems      \<comment> \<open>a path selection frame from a neighbour\<close>
  | TX_FRAME mesh_frame        \<comment> \<open>a data frame to send\<close>
  | DISCOVER                   \<comment> \<open>the work item takes a request from the queue\<close>
  | PATH_TIMER bool mac        \<comment> \<open>the discovery timer of a path, while quiescing or not\<close>
  | EXPIRE                     \<comment> \<open>housekeeping\<close>
  | LINK_BROKEN mac
  | PEER_UP mac mesh_peer      \<comment> \<open>a peer appears, or its link figures change\<close>
  | PEER_DOWN mac
  | FIX_PATH mac mac
  | DEL_PATH mac
  | ADD_MPP mac mac
  | MEMORY bool

definition mesh_peer_down :: "mac \<Rightarrow> path_if \<Rightarrow> path_if" where
  "mesh_peer_down sta s = (let s = mesh_path_flush_by_nexthop sta s in s\<lparr>peers := (peers s)(sta := None)\<rparr>)"

fun path_step :: "u64 \<Rightarrow> path_event \<Rightarrow> path_if \<Rightarrow> path_if option" where
  "path_step j (RX_SEL sa els) s = mesh_rx_path_sel_frame j sa els s"
| "path_step j (TX_FRAME f) s = Some (fst (mesh_nexthop_resolve j f s))"
| "path_step j DISCOVER s = Some (mesh_path_start_discovery j s)"
| "path_step j (PATH_TIMER qu d) s = Some (Hwmp.mesh_path_timer qu j d s)"
| "path_step j EXPIRE s = Some (mesh_path_expire j s)"
| "path_step j (LINK_BROKEN sta) s = Some (mesh_plink_broken j sta s)"
| "path_step j (PEER_UP sta n) s = Some (s\<lparr>peers := (peers s)(sta := Some n)\<rparr>)"
| "path_step j (PEER_DOWN sta) s = Some (mesh_peer_down sta s)"
| "path_step j (FIX_PATH d sta) s = Some (if peers s sta = None then s else mesh_path_fix_nexthop d sta s)"
| "path_step j (DEL_PATH d) s = Some (fst (mesh_path_del d s))"
| "path_step j (ADD_MPP d m) s = Some (fst (mpp_path_add j d m s))"
| "path_step j (MEMORY b) s = Some (s\<lparr>mem_ok := b\<rparr>)"

fun path_run :: "(u64 \<times> path_event) list \<Rightarrow> path_if \<Rightarrow> path_if option" where
  "path_run [] s = Some s"
| "path_run ((j, e) # evs) s = Option.bind (path_step j e s) (path_run evs)"

definition init_if :: "path_cfg \<Rightarrow> path_if" where
  "init_if c =
     \<lparr>cfg = c, peers = (\<lambda>_. None), mesh_paths = [], mpp_paths = [], known_gates = [], num_gates = 0, mpaths = 0,
      if_sn = 0, preq_id = 0, last_sn_update = 0, next_perr = 0, last_preq = 0, preq_queue = [], preq_queue_len = 0,
      mesh_path_timer_at = None, work_queued = False, dropped_frames_ttl = 0, dropped_frames_no_route = 0,
      fwded_mcast = 0, fwded_unicast = 0, fwded_frames = 0, mem_ok = True, outs = []\<rparr>"

lemma init_path_inv: "path_inv (init_if c)"
  by (simp add: init_if_def path_inv_def table_inv_def gates_inv_def preq_inv_def)

lemma peer_down_inv: "path_inv s \<Longrightarrow> path_inv (mesh_peer_down sta s)"
proof -
  assume inv: "path_inv s"
  let ?t = "mesh_path_flush_by_nexthop sta s"
  have t: "path_inv ?t" "\<And>q. q \<in> set (mesh_paths ?t) \<Longrightarrow> mp_next_hop q \<noteq> Some sta"
    using del_paths_inv(1,4) [OF inv] by (auto simp: mesh_path_flush_by_nexthop_def)
  have "\<forall>p \<in> set (mesh_paths ?t). path_ok (vif_addr (cfg ?t)) ((peers ?t)(sta := None)) p"
    using t unfolding path_inv_def table_inv_def path_ok_def by auto
  then show ?thesis
    using t(1) unfolding path_inv_def table_inv_def gates_inv_def preq_inv_def mesh_peer_down_def Let_def by simp
qed

lemma peer_up_inv: "path_inv s \<Longrightarrow> path_inv (s\<lparr>peers := (peers s)(sta := Some n)\<rparr>)"
  unfolding path_inv_def table_inv_def gates_inv_def preq_inv_def path_ok_def by simp

lemma mpp_add_inv: "path_inv s \<Longrightarrow> path_inv (fst (mpp_path_add j d m s))"
  using path_at_None [of d "mpp_paths s"]
  unfolding path_inv_def table_inv_def gates_inv_def preq_inv_def
  by (auto simp: mpp_path_add_def mesh_path_new_def)

lemma del_path_inv: "path_inv s \<Longrightarrow> path_inv (fst (mesh_path_del d s))"
  using del_paths_inv(1) [of s False "\<lambda>p. mp_mpp p = d"] path_del_inv [of "mpp_flush_by_proxy d s" _ True] path_at_Some
  by (fastforce simp: mesh_path_del_def Let_def mpp_flush_by_proxy_def split: option.splits)

lemma path_step_inv: "path_inv s \<Longrightarrow> \<exists>t. path_step j e s = Some t \<and> path_inv t"
proof (cases e)
  case (RX_SEL sa els)
  assume "path_inv s"
  then show ?thesis using RX_SEL rx_path_sel_good [of s j sa els] by (auto simp: good_def)
next
  case (MEMORY b)
  assume "path_inv s"
  then show ?thesis using MEMORY path_inv_core [of s "s\<lparr>mem_ok := b\<rparr>"] by (simp add: core_def)
next
  case (TX_FRAME f)
  assume "path_inv s"
  then show ?thesis using TX_FRAME resolve_good [of s j f] by (cases "mesh_nexthop_resolve j f s") (auto simp: good_def)
qed (auto intro: start_discovery_good [THEN good_inv] path_timer_good [THEN good_inv] peer_down_inv peer_up_inv mpp_add_inv
      del_path_inv fix_nexthop_inv plink_broken_inv [THEN conjunct1] simp: mesh_path_expire_def del_paths_inv(1))

text \<open>C6: Path table safety. Whatever frames arrive, timers fire, peers come and go and allocations
  fail, no handler dereferences a null next hop, and afterwards destinations are unique and foreign,
  every active path has a next hop that is a current peer, no pending queue exceeds ten frames, and the
  discovery queue and the gate list agree with their counters.\<close>

theorem hwmp_run_safe: "\<exists>s. path_run evs (init_if c) = Some s \<and> path_inv s"
proof -
  have "path_inv s \<Longrightarrow> \<exists>t. path_run evs s = Some t \<and> path_inv t" for s
  proof (induction evs arbitrary: s)
    case (Cons je evs)
    obtain j e where je: "je = (j, e)" by fastforce
    obtain t where "path_step j e s = Some t" "path_inv t" using path_step_inv [OF Cons.prems] by blast
    then show ?case using Cons.IH je by simp
  qed simp
  then show ?thesis using init_path_inv by blast
qed


section \<open>Routes do not go back\<close>

lemma path_at_on_path:
  "keeps_key f \<Longrightarrow> path_at d (mesh_paths (on_path e f s)) = (if d = e then map_option f (path_at d (mesh_paths s)) else path_at d (mesh_paths s))"
  by (simp add: path_at_upd)

lemma path_at_tx_pending:
  "path_at d (mesh_paths (mesh_path_tx_pending e s)) =
     (if d = e then map_option (\<lambda>p. if MESH_PATH_ACTIVE \<in> mp_flags p then p\<lparr>mp_queue := []\<rparr> else p) (path_at d (mesh_paths s))
      else path_at d (mesh_paths s))"
  by (auto simp: mesh_path_tx_pending_def path_at_upd keeps_key_def option.map_ident split: option.splits)

lemma path_at_use_path:
  "path_at d (mesh_paths (use_path e sta m osn x h s)) =
     (if d = e then map_option (\<lambda>p. (take_path (vif_addr (cfg s)) sta m osn x h p)\<lparr>mp_queue := []\<rparr>) (path_at d (mesh_paths s))
      else path_at d (mesh_paths s))"
  by (auto simp: use_path_def path_at_tx_pending path_at_upd keeps_key_def option.map_comp comp_def)

lemma path_at_lookup:
  "mesh_path_lookup j e s = (t, r) \<Longrightarrow> \<not> (d = e \<and> (\<exists>p. path_at d (mesh_paths s) = Some p \<and> mpath_expired j p)) \<Longrightarrow>
     path_at d (mesh_paths t) = path_at d (mesh_paths s)"
  by (auto simp: mesh_path_lookup_def mpath_lookup_def path_at_upd split: option.splits if_splits)

lemma path_at_add: "mesh_path_add j e s = (t, r) \<Longrightarrow> d \<noteq> e \<Longrightarrow> path_at d (mesh_paths t) = path_at d (mesh_paths s)"
  by (auto simp: mesh_path_add_def Let_def path_at_def mesh_path_new_def split: if_splits option.splits)


lemma path_at_route_trans:
  assumes "route_trans j sta og m x s = Inl t \<or> route_trans j sta og m x s = Inr t" "d \<noteq> sta"
  shows "path_at d (mesh_paths t) = path_at d (mesh_paths s)"
  using assms path_at_lookup [of j sta s _ _ d] path_at_add [of j sta _ _ _ d]
  by (auto simp: route_trans_def path_at_use_path split: if_splits prod.splits option.splits sum.splits)

text \<open>Up to this metric the factor 10/9 of the hysteresis does not wrap around.\<close>

lemma unat_plus_small: "unat (a :: u32) + unat b < 4294967296 \<Longrightarrow> unat (a + b) = unat a + unat b"
  by (simp add: unat_word_ariths)

lemma mult_frac_ge:
  assumes "x \<le> 3865470566"
  shows "x \<le> mult_frac_10_9 x"
proof -
  define n where "n = unat x"
  have n: "n \<le> 3865470566" using assms by (simp add: n_def word_le_nat_alt)
  have q: "unat (x div 9) = n div 9" "unat (x mod 9) = n mod 9" by (simp_all add: n_def unat_div unat_mod)
  have "n mod 9 < 9" by simp
  then have r: "unat ((x mod 9) * 10) = n mod 9 * 10" using q(2) by (simp add: unat_word_ariths)
  have d: "unat (((x mod 9) * 10) div 9) = n mod 9 * 10 div 9" using r by (simp add: unat_div)
  have "n div 9 \<le> 429496729" using n by linarith
  then have p: "unat ((x div 9) * 10) = n div 9 * 10" using q(1) by (simp add: unat_word_ariths)
  have "n mod 9 * 10 div 9 = n mod 9" using \<open>n mod 9 < 9\<close> by linarith
  moreover have "n div 9 * 9 + n mod 9 = n" by simp
  ultimately have "n div 9 * 10 + n mod 9 * 10 div 9 < 4294967296" "n \<le> n div 9 * 10 + n mod 9 * 10 div 9"
    using n \<open>n div 9 \<le> 429496729\<close> by linarith+
  moreover from this(1) have "unat (mult_frac_10_9 x) = n div 9 * 10 + n mod 9 * 10 div 9"
    unfolding mult_frac_10_9_def using p d unat_plus_small [of "(x div 9) * 10" "((x mod 9) * 10) div 9"] by metis
  ultimately show ?thesis by (simp add: word_le_nat_alt n_def)
qed


text \<open>What replaces an active route with a valid sequence number: a number that is not older, or the
  same number with a lower metric.\<close>

definition same_route :: "mesh_path \<Rightarrow> mesh_path \<Rightarrow> bool" where
  "same_route p q \<longleftrightarrow> mp_next_hop q = mp_next_hop p \<and> mp_metric q = mp_metric p \<and> mp_sn q = mp_sn p"

definition fresher :: "mesh_path \<Rightarrow> mesh_path \<Rightarrow> bool" where
  "fresher p q \<longleftrightarrow>
     mp_sn q \<noteq> mp_sn p \<and> \<not> SN_GT (mp_sn p) (mp_sn q) \<or>
     mp_sn q = mp_sn p \<and> (mp_metric q < mp_metric p \<or> 3865470566 < mp_metric q)"

lemma orig_info_fresher:
  assumes "MESH_PATH_ACTIVE \<in> mp_flags p" "MESH_PATH_SN_VALID \<in> mp_flags p" "orig_info p sta osn m = (True, b)"
  shows "mp_sn p \<noteq> osn \<and> \<not> SN_GT (mp_sn p) osn \<or> osn = mp_sn p \<and> (m < mp_metric p \<or> 3865470566 < m)"
proof -
  have "mult_frac_10_9 m < k \<Longrightarrow> \<not> 3865470566 < m \<Longrightarrow> m < k" for k
    using mult_frac_ge [of m] by (simp add: not_less)
  then show ?thesis using assms by (auto simp: orig_info_def not_le split: if_splits)
qed

lemma route_orig_fresher:
  assumes "route_orig j sta og osn m x h s = Inl t \<or> route_orig j sta og osn m x h s = Inr (t, b)"
    and "path_at d (mesh_paths s) = Some p" "MESH_PATH_ACTIVE \<in> mp_flags p" "MESH_PATH_SN_VALID \<in> mp_flags p"
    and "\<not> mpath_expired j p"
  shows "\<exists>q. path_at d (mesh_paths t) = Some q \<and> (same_route p q \<or> mp_next_hop q = Some sta \<and> fresher p q)"
proof (cases "og = vif_addr (cfg s)")
  case True
  then show ?thesis using assms by (auto simp: route_orig_def same_route_def)
next
  case False
  obtain u r where l: "mesh_path_lookup j og s = (u, r)" by fastforce
  have at: "path_at d (mesh_paths u) = Some p" using path_at_lookup [OF l, of d] assms(2,5) by simp
  show ?thesis
  proof (cases "d = og")
    case True
    then have r: "r = Some p"
      using l at by (auto simp: mesh_path_lookup_def mpath_lookup_def path_at_upd split: option.splits if_splits)
    obtain fr pr where v: "orig_info p sta osn m = (fr, pr)" by fastforce
    show ?thesis
      using assms(1) False l r v at True orig_info_fresher [OF assms(3,4), of sta osn m pr]
      by (cases fr) (auto simp: route_orig_def path_at_use_path same_route_def fresher_def)
  next
    case no: False
    have "path_at d (mesh_paths t) = Some p"
      using assms(1) False l at no path_at_add [of j og u _ _ d]
      by (auto simp: route_orig_def path_at_use_path split: option.splits prod.splits sum.splits if_splits)
    then show ?thesis by (simp add: same_route_def)
  qed
qed

text \<open>C25: Freshness. Of a path that is active, has a valid sequence number and has not expired, and leads to
  a destination other than the sender itself, a received PREQ or PREP leaves the route as it is or changes
  it into one through the sender whose sequence number is not older, or whose number is the same and
  whose metric is lower or above 3865470566, where the hysteresis factor wraps around 32 bits
  (\<open>hysteresis_wraps\<close>). A path to the sender itself follows the metric alone.\<close>

theorem route_freshness:
  assumes "hwmp_route_info_get j sta ie a s = (t, m)"
    and "path_at d (mesh_paths s) = Some p" "MESH_PATH_ACTIVE \<in> mp_flags p" "MESH_PATH_SN_VALID \<in> mp_flags p"
    and "\<not> mpath_expired j p" "d \<noteq> sta"
  shows "\<exists>q. path_at d (mesh_paths t) = Some q \<and> (same_route p q \<or> mp_next_hop q = Some sta \<and> fresher p q)"
proof -
  consider "t = s" | og osn m x h where "route_orig j sta og osn m x h s = Inl t"
    | og osn m x h u b l where "route_orig j sta og osn m x h s = Inr (u, b)"
        "route_trans j sta og l x u = Inl t \<or> route_trans j sta og l x u = Inr t"
    using assms(1) unfolding hwmp_route_info_get_def Let_def
    by (auto split: option.splits mpath_frame_type.splits sum.splits prod.splits) blast+
  then show ?thesis
  proof cases
    case 1
    then show ?thesis using assms(2) by (simp add: same_route_def)
  next
    case 2
    then show ?thesis using route_orig_fresher [OF _ assms(2-5)] by blast
  next
    case 3
    then show ?thesis using route_orig_fresher [OF _ assms(2-5)] path_at_route_trans [OF 3(2) assms(6)] by metis
  qed
qed


text \<open>A small mesh: node 1 with the peers 2 and 3 and an active path to node 4 through 2.\<close>

definition node :: "u8 \<Rightarrow> mac" where "node n = [2, 0, 0, 0, 0, n]"

definition demo_cfg :: path_cfg where
  "demo_cfg = \<lparr>vif_addr = node 1, element_ttl = 31, forwarding = True, net_traversal = 5, min_preq_int = 1,
     disc_timeout = 10, max_preq_retries = 4, root_confirmation = 200, path_refresh = 100, active_path_timeout = 5000,
     perr_min_interval = 100, is_hwmp = True, nolearn = False\<rparr>"

definition demo_peer :: mesh_peer where
  "demo_peer = \<lparr>peer_estab = True, peer_throughput = 0, peer_fail_avg = 1, peer_tx_rate_avg = 540\<rparr>"

definition demo_path :: mesh_path where
  "demo_path = (mesh_path_new 1000 (node 4))
     \<lparr>mp_next_hop := Some (node 2), mp_sn := 7, mp_metric := 20000, mp_exp_time := 9000,
      mp_flags := {MESH_PATH_ACTIVE, MESH_PATH_RESOLVED, MESH_PATH_SN_VALID}\<rparr>"

definition demo_if :: path_if where
  "demo_if = (init_if demo_cfg)
     \<lparr>peers := (\<lambda>n. if n = node 2 \<or> n = node 3 then Some demo_peer else None), mesh_paths := [demo_path], mpaths := 1\<rparr>"

text \<open>A PREQ of node 4 with sequence number 7 and metric 10, as node 3 forwards it.\<close>

definition demo_preq :: "u8 list" where
  "demo_preq = [0, 1, 30] @ put_le32 9 @ node 4 @ put_le32 7 @ put_le32 5000 @ put_le32 10 @ [1, 0] @ node 1 @ put_le32 0"

theorem route_freshness_witness:
  "\<exists>q. path_at (node 4) (mesh_paths (fst (hwmp_route_info_get 2000 (node 3) demo_preq MPATH_PREQ demo_if))) = Some q \<and>
     (same_route demo_path q \<or> mp_next_hop q = Some (node 3) \<and> fresher demo_path q)"
proof (rule route_freshness [where s = demo_if and j = 2000])
  show "hwmp_route_info_get 2000 (node 3) demo_preq MPATH_PREQ demo_if =
      (fst (hwmp_route_info_get 2000 (node 3) demo_preq MPATH_PREQ demo_if),
       snd (hwmp_route_info_get 2000 (node 3) demo_preq MPATH_PREQ demo_if))" by simp
  show "path_at (node 4) (mesh_paths demo_if) = Some demo_path"
    by (simp add: demo_if_def path_at_def demo_path_def mesh_path_new_def)
  show "MESH_PATH_ACTIVE \<in> mp_flags demo_path" "MESH_PATH_SN_VALID \<in> mp_flags demo_path" by (simp_all add: demo_path_def)
  show "\<not> mpath_expired 2000 demo_path" by code_simp
  show "node 4 \<noteq> node 3" by (simp add: node_def)
qed


section \<open>Elements\<close>

lemma sel_element_fields:
  assumes "length (sf_orig_addr f) = 6" "length (sf_target f) = 6" "sf_flags f AND 0x40 = 0"
  shows "\<exists>x y. sel_element MPATH_PREQ f = Some (130 # 37 # x) \<and> sel_element MPATH_PREP f = Some (131 # 31 # y) \<and>
     length x = 37 \<and> length y = 31 \<and>
     PREQ_IE_FLAGS x = sf_flags f \<and> PREQ_IE_HOPCOUNT x = sf_hop_count f \<and> PREQ_IE_TTL x = sf_ttl f \<and>
     PREQ_IE_PREQ_ID x = sf_preq_id f \<and> PREQ_IE_ORIG_ADDR x = sf_orig_addr f \<and> PREQ_IE_ORIG_SN x = sf_orig_sn f \<and>
     PREQ_IE_LIFETIME x = sf_lifetime f \<and> PREQ_IE_METRIC x = sf_metric f \<and> PREQ_IE_TARGET_F x = sf_target_flags f \<and>
     PREQ_IE_TARGET_ADDR x = sf_target f \<and> PREQ_IE_TARGET_SN x = sf_target_sn f \<and>
     PREQ_IE_FLAGS y = sf_flags f \<and> PREQ_IE_HOPCOUNT y = sf_hop_count f \<and> PREQ_IE_TTL y = sf_ttl f \<and>
     PREP_IE_TARGET_ADDR y = sf_target f \<and> PREP_IE_TARGET_SN y = sf_target_sn f \<and>
     PREP_IE_LIFETIME y = sf_lifetime f \<and> PREP_IE_METRIC y = sf_metric f \<and>
     PREP_IE_ORIG_ADDR y = sf_orig_addr f \<and> PREP_IE_ORIG_SN y = sf_orig_sn f"
proof -
  obtain a b c d e g where o: "sf_orig_addr f = [a, b, c, d, e, g]"
    using assms(1) by (auto simp: length_Suc_conv eval_nat_numeral)
  obtain a' b' c' d' e' g' where t: "sf_target f = [a', b', c', d', e', g']"
    using assms(2) by (auto simp: length_Suc_conv eval_nat_numeral)
  show ?thesis
    using assms(3)
    by (simp add: sel_element_def PREQ_IE_FLAGS_def o t PREQ_IE_HOPCOUNT_def PREQ_IE_TTL_def PREQ_IE_PREQ_ID_def
        PREQ_IE_ORIG_ADDR_def PREQ_IE_ORIG_SN_def PREQ_IE_LIFETIME_def PREQ_IE_METRIC_def PREQ_IE_TARGET_F_def
        PREQ_IE_TARGET_ADDR_def PREQ_IE_TARGET_SN_def PREP_IE_TARGET_ADDR_def PREP_IE_TARGET_SN_def PREP_IE_LIFETIME_def
        PREP_IE_METRIC_def PREP_IE_ORIG_ADDR_def PREP_IE_ORIG_SN_def u32_field_get_def AE_F_SET_def addr_at_def
        get_le32_def put_le32_def le32_put_le32)
qed

text \<open>Round trip. The element built for a PREQ without address extension has 37 bytes and every
  accessor reads back the value that was put in; the same for a PREP with 31 bytes.\<close>

theorem hwmp_element_roundtrip:
  assumes "length (sf_orig_addr f) = 6" "length (sf_target f) = 6" "sf_flags f AND 0x40 = 0"
  shows "\<exists>x y. sel_element MPATH_PREQ f = Some (130 # 37 # x) \<and> sel_element MPATH_PREP f = Some (131 # 31 # y) \<and>
     length x = 37 \<and> length y = 31 \<and>
     PREQ_IE_FLAGS x = sf_flags f \<and> PREQ_IE_HOPCOUNT x = sf_hop_count f \<and> PREQ_IE_TTL x = sf_ttl f \<and>
     PREQ_IE_PREQ_ID x = sf_preq_id f \<and> PREQ_IE_ORIG_ADDR x = sf_orig_addr f \<and> PREQ_IE_ORIG_SN x = sf_orig_sn f \<and>
     PREQ_IE_LIFETIME x = sf_lifetime f \<and> PREQ_IE_METRIC x = sf_metric f \<and> PREQ_IE_TARGET_F x = sf_target_flags f \<and>
     PREQ_IE_TARGET_ADDR x = sf_target f \<and> PREQ_IE_TARGET_SN x = sf_target_sn f \<and>
     PREQ_IE_FLAGS y = sf_flags f \<and> PREQ_IE_HOPCOUNT y = sf_hop_count f \<and> PREQ_IE_TTL y = sf_ttl f \<and>
     PREP_IE_TARGET_ADDR y = sf_target f \<and> PREP_IE_TARGET_SN y = sf_target_sn f \<and>
     PREP_IE_LIFETIME y = sf_lifetime f \<and> PREP_IE_METRIC y = sf_metric f \<and>
     PREP_IE_ORIG_ADDR y = sf_orig_addr f \<and> PREP_IE_ORIG_SN y = sf_orig_sn f"
  by (rule sel_element_fields [OF assms])

definition demo_sel :: sel_frame where
  "demo_sel = \<lparr>sf_flags = 0, sf_orig_addr = node 1, sf_orig_sn = 5, sf_target_flags = 1, sf_target = node 4, sf_target_sn = 7,
     sf_hop_count = 0, sf_ttl = 31, sf_lifetime = 4882, sf_metric = 0, sf_preq_id = 3\<rparr>"

theorem hwmp_element_roundtrip_witness:
  "\<exists>x y. sel_element MPATH_PREQ demo_sel = Some (130 # 37 # x) \<and> sel_element MPATH_PREP demo_sel = Some (131 # 31 # y) \<and>
     length x = 37 \<and> PREQ_IE_TARGET_ADDR x = sf_target demo_sel \<and> PREP_IE_ORIG_ADDR y = sf_orig_addr demo_sel"
  using hwmp_element_roundtrip [of demo_sel] by (auto simp: demo_sel_def node_def)


section \<open>Answers\<close>

lemma update_own_sn_sel [simp]:
  "cfg (update_own_sn j s) = cfg s" "outs (update_own_sn j s) = outs s" "mem_ok (update_own_sn j s) = mem_ok s"
  "mesh_paths (update_own_sn j s) = mesh_paths s"
  by (simp_all add: update_own_sn_def)

text \<open>A PREQ for this node is answered to its sender, and not forwarded. The PREP names this node
  with its current sequence number, which has been raised to the requested one if that was newer, the
  originator of the PREQ, metric 0 and the requested lifetime; the path table is not changed.\<close>

theorem preq_for_us_answered:
  assumes "PREQ_IE_TARGET_ADDR ie = vif_addr (cfg s)" "length ie = 37" "length (vif_addr (cfg s)) = 6"
    and "mem_ok s" "element_ttl (cfg s) \<noteq> 0"
  shows "\<exists>y. outs (hwmp_preq_frame_process j sa ie m s) = outs s @ [MGMT_TX sa (131 # 31 # y)] \<and>
     PREP_IE_TARGET_ADDR y = vif_addr (cfg s) \<and> PREP_IE_TARGET_SN y = if_sn (hwmp_preq_frame_process j sa ie m s) \<and>
     PREP_IE_ORIG_ADDR y = PREQ_IE_ORIG_ADDR ie \<and> PREP_IE_ORIG_SN y = PREQ_IE_ORIG_SN ie \<and> PREP_IE_METRIC y = 0 \<and>
     PREP_IE_LIFETIME y = PREQ_IE_LIFETIME ie \<and>
     if_sn (hwmp_preq_frame_process j sa ie m s) =
       if_sn (update_own_sn j (if SN_GT (PREQ_IE_TARGET_SN ie) (if_sn s) then s\<lparr>if_sn := PREQ_IE_TARGET_SN ie\<rparr> else s)) \<and>
     mesh_paths (hwmp_preq_frame_process j sa ie m s) = mesh_paths s"
proof -
  define u where "u = update_own_sn j (if SN_GT (PREQ_IE_TARGET_SN ie) (if_sn s) then s\<lparr>if_sn := PREQ_IE_TARGET_SN ie\<rparr> else s)"
  have u: "cfg u = cfg s" "outs u = outs s" "mem_ok u = mem_ok s" "mesh_paths u = mesh_paths s" by (simp_all add: u_def)
  let ?f = "\<lparr>sf_flags = 0, sf_orig_addr = PREQ_IE_ORIG_ADDR ie, sf_orig_sn = PREQ_IE_ORIG_SN ie, sf_target_flags = 0,
      sf_target = vif_addr (cfg s), sf_target_sn = if_sn u, sf_hop_count = 0, sf_ttl = element_ttl (cfg s),
      sf_lifetime = PREQ_IE_LIFETIME ie, sf_metric = 0, sf_preq_id = 0\<rparr>"
  have "length (PREQ_IE_ORIG_ADDR ie) = 6" using assms(2) by (simp add: PREQ_IE_ORIG_ADDR_def addr_at_def)
  from sel_element_fields [of ?f] this assms(3) obtain y where
    y: "sel_element MPATH_PREP ?f = Some (131 # 31 # y)" "PREP_IE_TARGET_ADDR y = vif_addr (cfg s)" "PREP_IE_TARGET_SN y = if_sn u"
      "PREP_IE_LIFETIME y = PREQ_IE_LIFETIME ie" "PREP_IE_METRIC y = 0" "PREP_IE_ORIG_ADDR y = PREQ_IE_ORIG_ADDR ie"
      "PREP_IE_ORIG_SN y = PREQ_IE_ORIG_SN ie"
    by auto
  have "hwmp_preq_frame_process j sa ie m s = u\<lparr>outs := outs u @ [MGMT_TX sa (131 # 31 # y)]\<rparr>"
    using assms(1,4,5) y(1) u
    by (simp add: hwmp_preq_frame_process_def preq_target_def Let_def u_def [symmetric] preq_reply_def preq_forward_def
        mesh_path_sel_frame_tx_def)
  then show ?thesis using u y by (simp add: u_def [symmetric])
qed

theorem preq_for_us_answered_witness:
  "\<exists>y. outs (hwmp_preq_frame_process 2000 (node 3) demo_preq 50 demo_if) = outs demo_if @ [MGMT_TX (node 3) (131 # 31 # y)] \<and>
     PREP_IE_TARGET_ADDR y = node 1 \<and> PREP_IE_ORIG_ADDR y = node 4"
proof -
  have c: "vif_addr (cfg demo_if) = node 1" by (simp add: demo_if_def init_if_def demo_cfg_def)
  have o: "PREQ_IE_ORIG_ADDR demo_preq = node 4" by code_simp
  have "\<exists>y. outs (hwmp_preq_frame_process 2000 (node 3) demo_preq 50 demo_if) = outs demo_if @ [MGMT_TX (node 3) (131 # 31 # y)] \<and>
     PREP_IE_TARGET_ADDR y = vif_addr (cfg demo_if) \<and> PREP_IE_ORIG_ADDR y = PREQ_IE_ORIG_ADDR demo_preq"
    using preq_for_us_answered [of demo_preq demo_if 2000 "node 3" 50]
    by (simp add: c demo_preq_def demo_if_def init_if_def demo_cfg_def node_def put_le32_def PREQ_IE_TARGET_ADDR_def
        AE_F_SET_def addr_at_def) blast
  then show ?thesis by (simp add: c o)
qed


section \<open>Link metric\<close>

text \<open>The airtime metric is defined for every peer (no division by zero), and unless it is the
  maximum it is below 1,613,141, so that a path of 255 hops still sums up without saturation.\<close>

theorem airtime_metric_bounded:
  "\<exists>m. airtime_link_metric_get sta = Some m \<and> (m = MAX_METRIC \<or> unat m \<le> 1613140)"
proof -
  have bound: "\<exists>m. airtime_of rate err = Some m \<and> unat m \<le> 1613140" if "rate \<noteq> 0" "err \<le> 243" for rate err
  proof -
    define t where "t = 256 + 10 * (8192 * 256) div rate"
    define e where "e = 65536 div (256 - err)"
    have "20971520 div rate \<le> 20971520" by simp
    then have t: "t \<le> 20971776" by (simp add: t_def)
    have "65536 div (256 - err) \<le> 65536 div 13" using that(2) by (intro div_le_mono2) simp_all
    then have e: "e \<le> 5041" by (simp add: e_def)
    have "t * e \<le> 20971776 * 5041" using t e by (rule mult_le_mono)
    then have le: "t * e div 65536 \<le> 1613140" using div_le_mono [of "t * e" "20971776 * 5041" 65536] by simp
    then have "unat (of_nat (t * e div 65536) :: u32) \<le> 1613140" by (simp add: unat_of_nat del: of_nat_mult)
    then show ?thesis using that by (simp add: airtime_of_def t_def e_def Let_def)
  qed
  have "peer_fail_avg sta \<le> 95 \<Longrightarrow> (peer_fail_avg sta * 256) div 100 \<le> 243" by linarith
  then show ?thesis
    using bound [of "(peer_throughput sta + 99) div 100" 0]
      bound [of "peer_tx_rate_avg sta" "(peer_fail_avg sta * 256) div 100"]
    by (auto simp: airtime_link_metric_get_def Let_def not_less)
qed



section \<open>Resolution\<close>

lemma use_path_outs:
  assumes "path_inv s" "path_at d (mesh_paths s) = Some p"
  shows "outs (use_path d sta m osn x h s) =
     outs s @ map DATA_TX (map (\<lambda>f. f\<lparr>mf_addr1 := sta, mf_addr2 := vif_addr (cfg s)\<rparr>) (mp_queue p))"
proof -
  let ?t = "reset_fail_avg sta (on_path d (take_path (vif_addr (cfg s)) sta m osn x h) s)"
  have "path_at d (mesh_paths ?t) = Some (take_path (vif_addr (cfg s)) sta m osn x h p)"
    using assms(2) by (simp add: path_at_upd keeps_key_def)
  moreover have "mp_queue (take_path (vif_addr (cfg s)) sta m osn x h p)
      = map (\<lambda>f. f\<lparr>mf_addr1 := sta, mf_addr2 := vif_addr (cfg s)\<rparr>) (mp_queue p)"
    by (simp add: take_path_def mesh_path_activate_def mesh_path_assign_nexthop_def add_flags_def Let_def split: option.splits)
  ultimately show ?thesis by (simp add: use_path_def mesh_path_tx_pending_def)
qed

lemma use_path_outs_ext: "path_inv s \<Longrightarrow> \<exists>os. outs (use_path d sta m osn x h s) = outs s @ os"
proof (cases "path_at d (mesh_paths s)")
  case None
  have "path_at d (mesh_paths (on_path d (take_path (vif_addr (cfg s)) sta m osn x h) s)) = None"
    using None by (simp add: path_at_upd keeps_key_def)
  then show ?thesis by (simp add: use_path_def mesh_path_tx_pending_def)
qed (use use_path_outs in blast)

lemma route_trans_outs:
  assumes "path_inv s" "route_trans j sta og m x s = Inl t \<or> route_trans j sta og m x s = Inr t"
  shows "\<exists>os. outs t = outs s @ os"
proof -
  obtain u r where l: "mesh_path_lookup j sta s = (u, r)" by fastforce
  note u = lookup_inv [OF assms(1) l]
  obtain v w where a: "mesh_path_add j sta u = (v, w)" by fastforce
  note v = add_inv [OF u(1) a]
  show ?thesis
    using assms(2) l a use_path_outs_ext [OF u(1)] use_path_outs_ext [OF v(1)] u(5) v(4)
    by (auto simp: route_trans_def split: if_splits option.splits sum.splits)
qed

text \<open>Resolution. When a PREP reports a target whose path is inactive, not fixed and has no valid
  or an older sequence number, the path becomes active through the sender of the PREP with the
  reported sequence number and the summed metric, all frames waiting for it are sent to that sender in
  their order; the PREP is processed further with that metric, unless the path to the sender itself
  could not be added.\<close>

theorem fresh_route_taken:
  assumes "path_inv s" "peers s sta = Some n" "airtime_link_metric_get n = Some l"
    and "path_at (PREP_IE_TARGET_ADDR ie) (mesh_paths s) = Some p"
    and "MESH_PATH_ACTIVE \<notin> mp_flags p" "MESH_PATH_FIXED \<notin> mp_flags p"
    and "MESH_PATH_SN_VALID \<notin> mp_flags p \<or> SN_GT (PREP_IE_TARGET_SN ie) (mp_sn p)"
    and "hwmp_route_info_get j sta ie MPATH_PREP s = (t, m)" "PREP_IE_TARGET_ADDR ie \<noteq> sta"
  shows "m \<in> {0, add_metric (PREP_IE_METRIC ie) l} \<and>
     (\<exists>q. path_at (PREP_IE_TARGET_ADDR ie) (mesh_paths t) = Some q \<and> MESH_PATH_ACTIVE \<in> mp_flags q \<and>
        mp_next_hop q = Some sta \<and> mp_metric q = add_metric (PREP_IE_METRIC ie) l \<and> mp_sn q = PREP_IE_TARGET_SN ie \<and> mp_queue q = []) \<and>
     (\<exists>os. outs t = outs s @ map DATA_TX (map (\<lambda>f. f\<lparr>mf_addr1 := sta, mf_addr2 := vif_addr (cfg s)\<rparr>) (mp_queue p)) @ os)"
proof -
  let ?d = "PREP_IE_TARGET_ADDR ie" and ?sn = "PREP_IE_TARGET_SN ie" and ?m = "add_metric (PREP_IE_METRIC ie) l"
  let ?x = "TU_TO_EXP_TIME j (ucast (PREP_IE_LIFETIME ie))" and ?h = "PREQ_IE_HOPCOUNT ie + 1"
  have vif: "?d \<noteq> vif_addr (cfg s)"
    using assms(1) path_at_Some [OF assms(4)] by (auto simp: path_inv_def table_inv_def path_ok_def)
  have l: "mesh_path_lookup j ?d s = (s, Some p)"
    using assms(4,5) by (simp add: mesh_path_lookup_def mpath_lookup_def mpath_expired_def)
  have info: "orig_info p sta ?sn ?m = (True, True)" using assms(5-7) by (auto simp: orig_info_def Let_def)
  let ?u = "use_path ?d sta ?m (Some ?sn) ?x ?h s"
  have ro: "route_orig j sta ?d ?sn ?m ?x ?h s = Inr (?u, True)" using vif l info by (simp add: route_orig_def)
  have "m \<in> {0, ?m} \<and> (route_trans j sta ?d l ?x ?u = Inl t \<or> route_trans j sta ?d l ?x ?u = Inr t)"
    using assms(2,3,8) ro by (auto simp: hwmp_route_info_get_def Let_def split: sum.splits)
  moreover have "path_inv ?u" using use_path_good [OF assms(1), of sta] assms(2) by (simp add: good_def)
  ultimately show ?thesis
    using path_at_route_trans [of j sta ?d l ?x ?u t ?d] assms(9) route_trans_outs [of ?u j sta ?d l ?x t]
      use_path_outs [OF assms(1,4), of sta ?m "Some ?sn" ?x ?h] path_at_use_path [of ?d ?d sta ?m "Some ?sn" ?x ?h s] assms(4)
    by auto
qed


text \<open>Node 1 waits for a path to node 4; node 3 sends the PREP.\<close>

definition demo_frame5 :: mesh_frame where
  "demo_frame5 = \<lparr>mf_addr1 = replicate 6 0, mf_addr2 = node 1, mf_addr3 = node 4, mf_addr4 = node 1, mf_ext = None,
     mf_qos_null = False, mf_skip_lookup = False, mf_body = [1, 2, 3]\<rparr>"

definition wait_path :: mesh_path where
  "wait_path = (mesh_path_new 1000 (node 4))
     \<lparr>mp_queue := [demo_frame5], mp_flags := {MESH_PATH_RESOLVING}, mp_timer := Some 1010, mp_discovery_timeout := 10\<rparr>"

definition wait_if :: path_if where
  "wait_if = demo_if\<lparr>mesh_paths := [wait_path]\<rparr>"

definition demo_prep :: "u8 list" where
  "demo_prep = [0, 1, 30] @ node 4 @ put_le32 7 @ put_le32 5000 @ put_le32 10 @ node 1 @ put_le32 3"

theorem fresh_route_taken_witness:
  "(\<exists>q. path_at (node 4) (mesh_paths (fst (hwmp_route_info_get 1005 (node 3) demo_prep MPATH_PREP wait_if))) = Some q \<and>
     MESH_PATH_ACTIVE \<in> mp_flags q \<and> mp_next_hop q = Some (node 3)) \<and>
   (\<exists>os. outs (fst (hwmp_route_info_get 1005 (node 3) demo_prep MPATH_PREP wait_if)) =
      outs wait_if @ [DATA_TX (demo_frame5\<lparr>mf_addr1 := node 3, mf_addr2 := node 1\<rparr>)] @ os)"
proof -
  obtain t m where r: "hwmp_route_info_get 1005 (node 3) demo_prep MPATH_PREP wait_if = (t, m)" by fastforce
  have c: "vif_addr (cfg wait_if) = node 1" "mesh_paths wait_if = [wait_path]" "peers wait_if (node 3) = Some demo_peer"
    by (simp_all add: wait_if_def demo_if_def init_if_def demo_cfg_def)
  have d: "PREP_IE_TARGET_ADDR demo_prep = node 4" "PREP_IE_TARGET_SN demo_prep = 7" by code_simp+
  have inv: "path_inv wait_if"
    by (simp add: path_inv_def table_inv_def gates_inv_def preq_inv_def path_ok_def wait_if_def demo_if_def init_if_def
        demo_cfg_def wait_path_def mesh_path_new_def node_def is_multicast_ether_addr_def)
  have l: "airtime_link_metric_get demo_peer = Some 153"
    by (simp add: airtime_link_metric_get_def airtime_of_def demo_peer_def)
  have p: "path_at (node 4) (mesh_paths wait_if) = Some wait_path" "mp_flags wait_path = {MESH_PATH_RESOLVING}"
      "mp_queue wait_path = [demo_frame5]"
    unfolding c by (simp_all add: wait_path_def path_at_def mesh_path_new_def)
  have at: "path_at (PREP_IE_TARGET_ADDR demo_prep) (mesh_paths wait_if) = Some wait_path" using p(1) d(1) by simp
  have fl: "MESH_PATH_ACTIVE \<notin> mp_flags wait_path" "MESH_PATH_FIXED \<notin> mp_flags wait_path"
      "MESH_PATH_SN_VALID \<notin> mp_flags wait_path \<or> SN_GT (PREP_IE_TARGET_SN demo_prep) (mp_sn wait_path)"
    using p(2) by simp_all
  have ne: "PREP_IE_TARGET_ADDR demo_prep \<noteq> node 3" by (simp add: d node_def)
  note res = fresh_route_taken [OF inv c(3) l at fl r ne]
  obtain q where "path_at (node 4) (mesh_paths t) = Some q" "MESH_PATH_ACTIVE \<in> mp_flags q" "mp_next_hop q = Some (node 3)"
    using res d(1) by auto
  moreover obtain os where "outs t = outs wait_if @ [DATA_TX (demo_frame5\<lparr>mf_addr1 := node 3, mf_addr2 := node 1\<rparr>)] @ os"
    using res p(3) c(1) by auto
  ultimately show ?thesis using r by auto
qed


section \<open>Where the code falls short\<close>

text \<open>The path counter. Proxy paths are not counted when they are added but are when they are
  removed: adding a proxy path and deleting the path to its mesh gate leaves \<open>mpaths\<close> at -1, so the
  limit of 1024 paths no longer limits the table.\<close>

theorem mpaths_below_zero:
  "map_option mpaths (path_run [(0, ADD_MPP (node 9) (node 4)), (1, DEL_PATH (node 4))] (init_if demo_cfg)) = Some (- 1)"
  by code_simp

text \<open>The wrapped hysteresis. A route with the maximal metric is replaced by another one with the
  same sequence number and the same maximal metric through a different neighbour, and the frame is
  processed again; through the same neighbour it is refused.\<close>

theorem hysteresis_wraps:
  "orig_info (demo_path\<lparr>mp_metric := MAX_METRIC\<rparr>) (node 3) 7 MAX_METRIC = (True, True) \<and>
   orig_info (demo_path\<lparr>mp_metric := MAX_METRIC\<rparr>) (node 2) 7 MAX_METRIC = (False, False)"
  by code_simp

text \<open>All frames waiting in the table.\<close>

definition waiting :: "path_if \<Rightarrow> mesh_frame list" where
  "waiting s = concat (map mp_queue (mesh_paths s))"

definition gate_if :: path_if where
  "gate_if = demo_if\<lparr>mesh_paths := [(mesh_path_new 1000 (node 5))\<lparr>mp_queue := [demo_frame5]\<rparr>,
      demo_path\<lparr>mp_is_gate := True, mp_queue := replicate 10 demo_frame5\<rparr>], known_gates := [node 4], num_gates := 1\<rparr>"

text \<open>Lost frames. When the frames of a failed path are moved to a gate whose queue is full, they
  leave the failed path but are neither queued, sent nor freed: of eleven waiting frames ten are sent
  and none is left or discarded.\<close>

theorem gate_queue_leak:
  "length (waiting gate_if) = 11 \<and> outs gate_if = [] \<and>
   length (outs (fst (mesh_path_send_to_gates (node 5) gate_if))) = 10 \<and>
   waiting (fst (mesh_path_send_to_gates (node 5) gate_if)) = []"
  by code_simp


lemma queue_preq_full: "preq_queue_len s = 64 \<Longrightarrow> mesh_queue_preq j d fl s = s"
  by (simp add: mesh_queue_preq_def split: option.splits)

lemma lookup_flags:
  assumes "mesh_path_lookup j d s = (t, r)" "path_at d (mesh_paths s) = Some q"
  shows "\<exists>q'. r = Some q' \<and> path_at d (mesh_paths t) = Some q' \<and> mp_flags q - {MESH_PATH_ACTIVE} \<subseteq> mp_flags q'"
    and "preq_queue t = preq_queue s"
proof -
  define q' where "q' = (if mpath_expired j q then clear_flags {MESH_PATH_ACTIVE} q else q)"
  have "r = Some q' \<and> path_at d (mesh_paths t) = Some q' \<and> preq_queue t = preq_queue s"
    using assms by (auto simp: q'_def mesh_path_lookup_def mpath_lookup_def path_at_upd split: if_splits)
  moreover have "mp_flags q - {MESH_PATH_ACTIVE} \<subseteq> mp_flags q'" by (auto simp: q'_def clear_flags_def)
  ultimately show "\<exists>q'. r = Some q' \<and> path_at d (mesh_paths t) = Some q' \<and> mp_flags q - {MESH_PATH_ACTIVE} \<subseteq> mp_flags q'"
    and "preq_queue t = preq_queue s" by blast+
qed

lemma resolving_not_queued:
  assumes "path_at (mf_addr3 f) (mesh_paths s) = Some q" "MESH_PATH_RESOLVING \<in> mp_flags q"
  shows "preq_queue (fst (mesh_nexthop_resolve j f s)) = preq_queue s"
proof -
  obtain t r where l: "mesh_path_lookup j (mf_addr3 f) s = (t, r)" by fastforce
  obtain q' where q': "r = Some q'" "path_at (mf_addr3 f) (mesh_paths t) = Some q'" "MESH_PATH_RESOLVING \<in> mp_flags q'"
    using lookup_flags(1) [OF l assms(1)] assms(2) by blast
  obtain u w where l2: "mesh_path_lookup j (mf_addr3 f) t = (u, w)" by fastforce
  obtain q2 where q2: "w = Some q2" "MESH_PATH_RESOLVING \<in> mp_flags q2"
    using lookup_flags(1) [OF l2 q'(2)] q'(3) by blast
  obtain v z where l3: "mesh_path_lookup j (mf_addr3 f) s = (v, z)" by fastforce
  have pq: "preq_queue t = preq_queue s" "preq_queue u = preq_queue t"
    using lookup_flags(2) [OF l assms(1)] lookup_flags(2) [OF l2 q'(2)] by simp_all
  have ref: "mesh_path_refresh j q' a t = t" for a using q'(3) by (auto simp: mesh_path_refresh_def)
  show ?thesis
    using l l2 q' q2 pq ref
    by (auto simp: mesh_nexthop_resolve_def mesh_nexthop_lookup_def Let_def mesh_path_discard_frame_def split: option.splits)
qed

text \<open>A stalled discovery. When the discovery timer of a path fires while the request queue is
  full, the retry is dropped and the timer is not started again, but the path stays marked as
  resolving: sending frames to the destination queues no new request, and housekeeping never removes
  the path.\<close>

theorem discovery_stalls:
  assumes "path_at d (mesh_paths s) = Some p" "MESH_PATH_RESOLVING \<in> mp_flags p" "MESH_PATH_RESOLVED \<notin> mp_flags p"
    and "mp_discovery_retries p < max_preq_retries (cfg s)" "preq_queue_len s = MAX_PREQ_QUEUE_LEN"
  shows "\<exists>q. path_at d (mesh_paths (Hwmp.mesh_path_timer False j d s)) = Some q \<and> MESH_PATH_RESOLVING \<in> mp_flags q \<and>
     mp_timer q = None \<and> MESH_PATH_REQ_QUEUED \<notin> mp_flags q \<and>
     preq_queue (Hwmp.mesh_path_timer False j d s) = preq_queue s \<and>
     \<not> path_stale j' q \<and>
     preq_queue (fst (mesh_nexthop_resolve j' (f\<lparr>mf_addr3 := d\<rparr>) (Hwmp.mesh_path_timer False j d s))) = preq_queue s"
proof -
  let ?g = "\<lambda>p. (clear_flags {MESH_PATH_REQ_QUEUED} p)
      \<lparr>mp_discovery_retries := mp_discovery_retries p + 1, mp_discovery_timeout := mp_discovery_timeout p * 2\<rparr>"
  let ?t = "on_path d ?g (on_path d (\<lambda>p. p\<lparr>mp_timer := None\<rparr>) s)"
  let ?q = "?g (p\<lparr>mp_timer := None\<rparr>)"
  have t: "Hwmp.mesh_path_timer False j d s = ?t"
    using assms by (simp add: Hwmp.mesh_path_timer_def Let_def queue_preq_full)
  have at: "path_at d (mesh_paths ?t) = Some ?q"
    using assms(1) by (simp add: path_at_upd keeps_key_def clear_flags_def)
  have res: "MESH_PATH_RESOLVING \<in> mp_flags ?q" using assms(2) by (simp add: clear_flags_def)
  have "preq_queue (fst (mesh_nexthop_resolve j' (f\<lparr>mf_addr3 := d\<rparr>) ?t)) = preq_queue ?t"
    by (rule resolving_not_queued [of _ _ ?q]) (use at res in simp_all)
  then show ?thesis
    unfolding t using at res by (simp add: path_stale_def clear_flags_def)
qed

theorem discovery_stalls_witness:
  "\<exists>q. path_at (node 4) (mesh_paths (Hwmp.mesh_path_timer False 1010 (node 4)
        (wait_if\<lparr>preq_queue := replicate 64 (node 9, 1), preq_queue_len := 64\<rparr>))) = Some q \<and>
     MESH_PATH_RESOLVING \<in> mp_flags q \<and> mp_timer q = None"
proof -
  let ?s = "wait_if\<lparr>preq_queue := replicate 64 (node 9, 1), preq_queue_len := 64\<rparr>"
  have "path_at (node 4) (mesh_paths ?s) = Some wait_path"
    by (simp add: wait_if_def path_at_def wait_path_def mesh_path_new_def)
  from discovery_stalls [OF this, of 1010 0 demo_frame5] show ?thesis
    by (auto simp: wait_path_def mesh_path_new_def wait_if_def demo_if_def init_if_def demo_cfg_def)
qed


section \<open>The table as a map\<close>

text \<open>Seen as a map from destinations to paths, adding a path inserts an empty entry
  unless there is one (and nothing on an error), deleting removes exactly the entry of the destination,
  and a lookup changes nothing but the active flag of an expired entry.\<close>

theorem path_table_refines_map:
  "pt.abs_map (mesh_paths (fst (mesh_path_add j d s))) =
     (if isl (snd (mesh_path_add j d s)) then pt.abs_map (mesh_paths s)
      else if pt.abs_map (mesh_paths s) d = None then (pt.abs_map (mesh_paths s))(d \<mapsto> mesh_path_new j d)
      else pt.abs_map (mesh_paths s)) \<and>
   pt.abs_map (mesh_paths (path_del True p s)) = (pt.abs_map (mesh_paths s))(mp_dst p := None) \<and>
   pt.abs_map (mesh_paths (fst (mesh_path_lookup j d s))) =
     (pt.abs_map (mesh_paths s))
       (d := map_option (\<lambda>p. if mpath_expired j p then clear_flags {MESH_PATH_ACTIVE} p else p) (pt.abs_map (mesh_paths s) d))"
proof (intro conjI)
  have new: "mp_dst (mesh_path_new j d) = d" by (simp add: mesh_path_new_def)
  show "pt.abs_map (mesh_paths (fst (mesh_path_add j d s))) =
     (if isl (snd (mesh_path_add j d s)) then pt.abs_map (mesh_paths s)
      else if pt.abs_map (mesh_paths s) d = None then (pt.abs_map (mesh_paths s))(d \<mapsto> mesh_path_new j d)
      else pt.abs_map (mesh_paths s))"
    using pt.abs_ins [of "mesh_path_new j d" "mesh_paths s"] new
    by (auto simp: mesh_path_add_def Let_def pt.abs_map_def split: option.splits)
  show "pt.abs_map (mesh_paths (path_del True p s)) = (pt.abs_map (mesh_paths s))(mp_dst p := None)"
    by (simp add: pt.abs_del)
  show "pt.abs_map (mesh_paths (fst (mesh_path_lookup j d s))) =
     (pt.abs_map (mesh_paths s))
       (d := map_option (\<lambda>p. if mpath_expired j p then clear_flags {MESH_PATH_ACTIVE} p else p) (pt.abs_map (mesh_paths s) d))"
    using pt.abs_upd [of "clear_flags {MESH_PATH_ACTIVE}" d "mesh_paths s"]
    by (auto simp: mesh_path_lookup_def mpath_lookup_def pt.abs_map_def clear_flags_def split: option.splits)
qed

end
