(* ===== verification/Key.thy ===== *)
theory Key
  imports Frame PacketNumber
begin

text \<open>
  What the frame protection handlers share: the key configuration of include/net/mac80211.h, the socket
  buffer as they see it on transmission and the receive context with its status flags, and the results of
  the handlers. The ciphers themselves (AES-CCM, AES-GCM, CMAC and RC4 of the kernel's crypto layer, and
  its CRC-32) are not part of the sources: every definition that uses one takes it as an argument.
\<close>


section \<open>Keys and buffers\<close>

text \<open>The flags of a key the handlers test.\<close>

record key_flags =
  KEY_FLAG_GENERATE_IV :: bool
  KEY_FLAG_GENERATE_IV_MGMT :: bool
  KEY_FLAG_PUT_IV_SPACE :: bool
  KEY_FLAG_GENERATE_MMIC :: bool
  KEY_FLAG_PUT_MIC_SPACE :: bool
  KEY_FLAG_GENERATE_MMIE :: bool
  KEY_FLAG_SPP_AMSDU :: bool

definition no_key_flags :: key_flags where
  "no_key_flags =
     \<lparr>KEY_FLAG_GENERATE_IV = False, KEY_FLAG_GENERATE_IV_MGMT = False, KEY_FLAG_PUT_IV_SPACE = False,
      KEY_FLAG_GENERATE_MMIC = False, KEY_FLAG_PUT_MIC_SPACE = False, KEY_FLAG_GENERATE_MMIE = False,
      KEY_FLAG_SPP_AMSDU = False\<rparr>"

text \<open>\<open>struct ieee80211_key_conf\<close>. The key index is a small number in a signed byte; it is never negative
  for an installed key.\<close>

record key_conf =
  key_bytes :: "u8 list"
  keyidx :: u8
  conf_flags :: key_flags
  tx_pn :: u64

text \<open>A buffer to send: its bytes, the free room at both ends, and the flags of the hardware key, if
  there is one.\<close>

record tx_skb =
  tx_data :: "u8 list"
  headroom :: nat
  tailroom :: nat
  hw_key :: "key_flags option"

text \<open>\<open>skb_push\<close> of \<open>n\<close> bytes and the \<open>memmove\<close> of the header to the new front: between header and
  payload there is room for \<open>n\<close> bytes, which still holds the last bytes of the header.\<close>

definition open_gap :: "nat \<Rightarrow> nat \<Rightarrow> u8 list \<Rightarrow> u8 list" where
  "open_gap n hdrlen data = take hdrlen data @ drop (hdrlen - n) (take hdrlen data) @ drop hdrlen data"

text \<open>The reverse on reception: the header is moved over the \<open>n\<close> bytes behind it and the front is
  pulled.\<close>

definition close_gap :: "nat \<Rightarrow> nat \<Rightarrow> u8 list \<Rightarrow> u8 list" where
  "close_gap n hdrlen data = take hdrlen data @ drop (hdrlen + n) data"

text \<open>A received frame: bytes, the status flags the handlers test, the address of the station it came
  from (if known), the replay counter index, the kind of interface, and whether linearising, allocating
  and trimming succeed.\<close>

record rx_data =
  rx_skb :: "u8 list"
  RX_FLAG_DECRYPTED :: bool
  RX_FLAG_MIC_STRIPPED :: bool
  RX_FLAG_PN_VALIDATED :: bool
  RX_FLAG_ALLOW_SAME_PN :: bool
  RX_FLAG_IV_STRIPPED :: bool
  RX_FLAG_ICV_STRIPPED :: bool
  RX_FLAG_MMIC_STRIPPED :: bool
  RX_FLAG_MMIC_ERROR :: bool
  rx_sta :: "u8 list option"
  security_idx :: nat
  vif_is_ap :: bool
  linearize_ok :: bool
  alloc_ok :: bool
  trim_ok :: bool

datatype rx_drop =
  RX_DROP_U_OOM | RX_DROP_U_REPLAY | RX_DROP_U_MIC_FAIL |
  RX_DROP_U_SHORT_CCMP | RX_DROP_U_SHORT_CCMP_MIC | RX_DROP_U_SHORT_GCMP | RX_DROP_U_SHORT_GCMP_MIC |
  RX_DROP_U_SHORT_CMAC | RX_DROP_U_SHORT_CMAC256 | RX_DROP_U_SHORT_GMAC | RX_DROP_U_BAD_MMIE |
  RX_DROP_U_SHORT_TKIP | RX_DROP_U_TKIP_FAIL | RX_DROP_U_SHORT_MMIC | RX_DROP_U_MMIC_FAIL |
  RX_DROP_U_AP_RX_GROUPCAST | RX_DROP_U_WEP_DEC_FAIL | RX_DROP_U_NO_IV | RX_DROP_U_NO_ICV

datatype rx_result = RxContinue "u8 list" | RxDrop rx_drop

fun is_continue :: "rx_result \<Rightarrow> bool" where
  "is_continue (RxContinue _) = True"
| "is_continue (RxDrop _) = False"

text \<open>An ordinary frame for the software ciphers: no flag set, from a known station.\<close>

definition plain_rx :: "u8 list \<Rightarrow> u8 list \<Rightarrow> nat \<Rightarrow> rx_data" where
  "plain_rx ta skb q =
     \<lparr>rx_skb = skb, RX_FLAG_DECRYPTED = False, RX_FLAG_MIC_STRIPPED = False, RX_FLAG_PN_VALIDATED = False,
      RX_FLAG_ALLOW_SAME_PN = False, RX_FLAG_IV_STRIPPED = False, RX_FLAG_ICV_STRIPPED = False,
      RX_FLAG_MMIC_STRIPPED = False, RX_FLAG_MMIC_ERROR = False, rx_sta = Some ta, security_idx = q,
      vif_is_ap = False, linearize_ok = True, alloc_ok = True, trim_ok = True\<rparr>"

definition ieee80211_tx_set_protected :: "tx_skb list \<Rightarrow> tx_skb list" where
  "ieee80211_tx_set_protected skbs =
     map (\<lambda>skb. skb\<lparr>tx_data := set_fc (frame_control (tx_data skb) OR IEEE80211_FCTL_PROTECTED) (tx_data skb)\<rparr>) skbs"

text \<open>The loop of the transmit handlers over the fragments of a frame: it stops at the first one that
  cannot be protected, and then the whole frame is dropped.\<close>

fun encrypt_all :: "('k \<Rightarrow> tx_skb \<Rightarrow> 'k \<times> tx_skb option) \<Rightarrow> 'k \<Rightarrow> tx_skb list \<Rightarrow> 'k \<times> tx_skb list option" where
  "encrypt_all enc k [] = (k, Some [])"
| "encrypt_all enc k (skb # skbs) =
     (case enc k skb of
        (k, None) \<Rightarrow> (k, None)
      | (k, Some skb') \<Rightarrow>
          (case encrypt_all enc k skbs of
             (k, None) \<Rightarrow> (k, None)
           | (k, Some skbs') \<Rightarrow> (k, Some (skb' # skbs'))))"


section \<open>Robust management frames\<close>

definition ieee80211_is_disassoc :: "u16 \<Rightarrow> bool" where
  "ieee80211_is_disassoc fc \<longleftrightarrow> fc AND (IEEE80211_FCTL_FTYPE OR IEEE80211_FCTL_STYPE) = 0x00A0"

definition ieee80211_is_deauth :: "u16 \<Rightarrow> bool" where
  "ieee80211_is_deauth fc \<longleftrightarrow> fc AND (IEEE80211_FCTL_FTYPE OR IEEE80211_FCTL_STYPE) = 0x00C0"

definition ieee80211_is_action :: "u16 \<Rightarrow> bool" where
  "ieee80211_is_action fc \<longleftrightarrow> fc AND (IEEE80211_FCTL_FTYPE OR IEEE80211_FCTL_STYPE) = 0x00D0"

definition ieee80211_is_beacon :: "u16 \<Rightarrow> bool" where
  "ieee80211_is_beacon fc \<longleftrightarrow> fc AND (IEEE80211_FCTL_FTYPE OR IEEE80211_FCTL_STYPE) = 0x0080"

definition ieee80211_is_auth :: "u16 \<Rightarrow> bool" where
  "ieee80211_is_auth fc \<longleftrightarrow> fc AND (IEEE80211_FCTL_FTYPE OR IEEE80211_FCTL_STYPE) = 0x00B0"

text \<open>The categories of action frames that are not robust: public, HT, WNM unprotected, self protected,
  unprotected DMG, VHT, S1G and vendor specific.\<close>

definition nonrobust_categories :: "u8 list" where
  "nonrobust_categories = [4, 7, 11, 15, 20, 21, 22, 127]"

definition is_robust_mgmt_hdr :: "hdr \<Rightarrow> bool" where
  "is_robust_mgmt_hdr h =
     (let fc = frame_control h
      in if ieee80211_is_disassoc fc \<or> ieee80211_is_deauth fc then True
         else if ieee80211_is_action fc then ieee80211_has_protected fc \<or> h ! 24 \<notin> set nonrobust_categories
         else False)"

definition ieee80211_is_robust_mgmt_frame :: "u8 list \<Rightarrow> bool" where
  "ieee80211_is_robust_mgmt_frame skb \<longleftrightarrow> (if length skb < 25 then False else is_robust_mgmt_hdr skb)"


section \<open>Headers\<close>

text \<open>Inserting and removing bytes behind the header leaves the header alone.\<close>

lemma hdrlen_ge: "4 \<le> ieee80211_hdrlen fc"
  by (simp add: ieee80211_hdrlen_def)

lemma data_hdrlen: "ieee80211_is_data fc \<Longrightarrow> 24 \<le> ieee80211_hdrlen fc"
  by (auto simp: ieee80211_hdrlen_def ieee80211_is_data_def ieee80211_is_ext_def)

lemma hdrlen_a4: "ieee80211_is_data fc \<Longrightarrow> ieee80211_has_a4 fc \<Longrightarrow> 30 \<le> ieee80211_hdrlen fc"
  by (auto simp: ieee80211_hdrlen_def ieee80211_is_data_def ieee80211_is_ext_def)

lemma hdrlen_qos:
  assumes "ieee80211_is_data fc" "ieee80211_is_data_qos fc"
  shows "(if ieee80211_has_a4 fc then 30 else 24) < ieee80211_hdrlen fc"
  using assms by (auto simp: ieee80211_hdrlen_def ieee80211_is_data_def ieee80211_is_ext_def)

lemma frame_control_prefix: "2 \<le> n \<Longrightarrow> n \<le> length d \<Longrightarrow> frame_control (take n d @ x) = frame_control d"
  by (simp add: frame_control_def get_le16_def nth_append)

lemma slice_prefix:
  assumes "i + k \<le> n" "n \<le> length d"
  shows "take k (drop i (take n d @ x)) = take k (drop i d)"
  using assms by (intro nth_equalityI) (simp_all add: nth_append)

lemma fc_set_protected:
  "ieee80211_hdrlen (fc OR 0x4000) = ieee80211_hdrlen fc" "ieee80211_is_data (fc OR 0x4000) = ieee80211_is_data fc"
  by (simp_all add: ieee80211_hdrlen_def fc_defs and_or_disjoint bit.conj_disj_distrib2)

lemma frame_control_set_fc [simp]: "frame_control (set_fc w d) = w"
  by (simp add: frame_control_def set_fc_def get_le16_def put_le16_def le16_put_le16)

lemma length_set_fc [simp]: "2 \<le> length d \<Longrightarrow> length (set_fc w d) = length d"
  by (simp add: set_fc_def)

lemma drop_set_fc [simp]: "2 \<le> i \<Longrightarrow> drop i (set_fc w d) = drop i d"
proof -
  assume "2 \<le> i"
  then have "Suc (Suc (i - 2)) = i" by simp
  then show ?thesis using \<open>2 \<le> i\<close> by (simp add: set_fc_def)
qed

lemma protected_bit: "ieee80211_has_protected fc \<longleftrightarrow> bit fc 14" "bit (0x4000 :: u16) n \<longleftrightarrow> n = 14"
proof -
  have e: "(0x4000 :: u16) = push_bit 14 1" by simp
  show "bit (0x4000 :: u16) n \<longleftrightarrow> n = 14" unfolding e by (simp only: bit_simps) auto
  have "fc AND 2 ^ 14 = 0 \<longleftrightarrow> \<not> bit fc 14" by (rule and_exp_eq_0_iff_not_bit)
  then show "ieee80211_has_protected fc \<longleftrightarrow> bit fc 14" by (simp add: ieee80211_has_protected_def)
qed

lemma protected_or: "ieee80211_has_protected fc \<Longrightarrow> fc OR 0x4000 = fc" "ieee80211_has_protected (fc OR 0x4000)"
  unfolding protected_bit(1) by (rule bit_word_eqI) (simp_all only: bit_or_iff protected_bit(2), auto)

lemma set_fc_same [simp]: "2 \<le> length d \<Longrightarrow> set_fc (frame_control d) d = d"
  by (auto simp: set_fc_def frame_control_def get_le16_def put_le16_le16 numeral_eq_Suc Suc_le_length_iff)

end
