(* ===== verification/Wpa.thy ===== *)
theory Wpa
  imports Key
begin

text \<open>
  CCMP, GCMP and the management frame protection of net/mac80211/wpa.c, with the wrappers of aead_api.c,
  aes_ccm.h, aes_gcm.h, aes_cmac.c and aes_gmac.c. The arguments \<open>aenc\<close> and \<open>adec\<close> are the kernel's
  \<open>crypto_aead_encrypt\<close> and \<open>crypto_aead_decrypt\<close> for the transform of the key: nonce, associated data
  and text to text and tag, \<open>None\<close> for an error. \<open>hash\<close> is its CMAC over the concatenation of the updates.
\<close>

type_synonym aead_enc = "u8 list \<Rightarrow> u8 list \<Rightarrow> u8 list \<Rightarrow> (u8 list \<times> u8 list) option"
type_synonym aead_dec = "u8 list \<Rightarrow> u8 list \<Rightarrow> u8 list \<Rightarrow> u8 list \<Rightarrow> u8 list option"

abbreviation (input) IEEE80211_CCMP_HDR_LEN :: nat where "IEEE80211_CCMP_HDR_LEN \<equiv> 8"
abbreviation (input) IEEE80211_GCMP_HDR_LEN :: nat where "IEEE80211_GCMP_HDR_LEN \<equiv> 8"
abbreviation (input) IEEE80211_GCMP_MIC_LEN :: nat where "IEEE80211_GCMP_MIC_LEN \<equiv> 16"
abbreviation (input) IEEE80211_FCTL_PM :: u16 where "IEEE80211_FCTL_PM \<equiv> 0x1000"
abbreviation (input) IEEE80211_FCTL_MOREDATA :: u16 where "IEEE80211_FCTL_MOREDATA \<equiv> 0x2000"
abbreviation (input) IEEE80211_QOS_CTL_A_MSDU_PRESENT :: u8 where "IEEE80211_QOS_CTL_A_MSDU_PRESENT \<equiv> 0x80"
abbreviation (input) WLAN_EID_MMIE :: u8 where "WLAN_EID_MMIE \<equiv> 76"


section \<open>The wrappers of the AEAD ciphers\<close>

definition aead_encrypt :: "aead_enc \<Rightarrow> bool \<Rightarrow> u8 list \<Rightarrow> u8 list \<Rightarrow> u8 list \<Rightarrow> (u8 list \<times> u8 list) option" where
  "aead_encrypt aenc alloc nonce aad data = (if \<not> alloc then None else aenc nonce aad data)"

text \<open>An empty text is refused before the cipher is called.\<close>

definition aead_decrypt :: "aead_dec \<Rightarrow> bool \<Rightarrow> u8 list \<Rightarrow> u8 list \<Rightarrow> u8 list \<Rightarrow> u8 list \<Rightarrow> u8 list option" where
  "aead_decrypt adec alloc nonce aad data mic =
     (if length data = 0 then None else if \<not> alloc then None else adec nonce aad data mic)"

text \<open>The associated data are preceded by their length, 16 bits with the high byte first.\<close>

definition aad_bytes :: "u8 list \<Rightarrow> u8 list" where
  "aad_bytes aad = take (unat (le16 (aad ! 1) (aad ! 0))) (drop 2 aad)"

definition ieee80211_aes_ccm_encrypt :: "aead_enc \<Rightarrow> bool \<Rightarrow> u8 list \<Rightarrow> u8 list \<Rightarrow> u8 list \<Rightarrow> (u8 list \<times> u8 list) option" where
  "ieee80211_aes_ccm_encrypt aenc alloc b_0 aad data = aead_encrypt aenc alloc b_0 (aad_bytes aad) data"

definition ieee80211_aes_ccm_decrypt :: "aead_dec \<Rightarrow> bool \<Rightarrow> u8 list \<Rightarrow> u8 list \<Rightarrow> u8 list \<Rightarrow> u8 list \<Rightarrow> u8 list option" where
  "ieee80211_aes_ccm_decrypt adec alloc b_0 aad data mic = aead_decrypt adec alloc b_0 (aad_bytes aad) data mic"

definition ieee80211_aes_gcm_encrypt :: "aead_enc \<Rightarrow> bool \<Rightarrow> u8 list \<Rightarrow> u8 list \<Rightarrow> u8 list \<Rightarrow> (u8 list \<times> u8 list) option" where
  "ieee80211_aes_gcm_encrypt aenc alloc j_0 aad data = aead_encrypt aenc alloc j_0 (aad_bytes aad) data"

definition ieee80211_aes_gcm_decrypt :: "aead_dec \<Rightarrow> bool \<Rightarrow> u8 list \<Rightarrow> u8 list \<Rightarrow> u8 list \<Rightarrow> u8 list \<Rightarrow> u8 list option" where
  "ieee80211_aes_gcm_decrypt adec alloc j_0 aad data mic = aead_decrypt adec alloc j_0 (aad_bytes aad) data mic"


section \<open>Nonce and associated data\<close>

text \<open>The masked header, 32 bytes with the length in front, and the traffic identifier that goes into the
  nonce.\<close>

definition ccmp_gcmp_aad :: "u8 list \<Rightarrow> bool \<Rightarrow> u8 list \<times> u8" where
  "ccmp_gcmp_aad skb spp_amsdu =
     (let fc = frame_control skb; mgmt = ieee80211_is_mgmt fc;
          mask_fc = fc AND NOT (IEEE80211_FCTL_RETRY OR IEEE80211_FCTL_PM OR IEEE80211_FCTL_MOREDATA);
          mask_fc = (if \<not> mgmt then mask_fc AND NOT 0x0070 else mask_fc);
          mask_fc = mask_fc OR IEEE80211_FCTL_PROTECTED;
          a4_included = ieee80211_has_a4 fc;
          len_a = (22 :: u16);
          len_a = (if a4_included then len_a + 6 else len_a);
          (qos_tid, mask_fc, len_a) =
            (if ieee80211_is_data_qos fc then
               (ieee80211_get_qos_ctl skb ! 0 AND
                  (if spp_amsdu then IEEE80211_QOS_CTL_TID_MASK OR IEEE80211_QOS_CTL_A_MSDU_PRESENT
                   else IEEE80211_QOS_CTL_TID_MASK),
                mask_fc AND NOT IEEE80211_FCTL_ORDER, len_a + 2)
             else (0, mask_fc, len_a));
          aad = rev (put_le16 len_a) @ put_le16 mask_fc @ take 18 (drop 4 skb) @ [skb ! 22 AND 0x0f, 0] @
                (if a4_included then addr4 skb @ [qos_tid, 0] else qos_tid # replicate 7 0)
      in (aad, qos_tid))"

text \<open>The first 14 bytes of \<open>b_0\<close>; the CCM layer fills the other two.\<close>

definition ccmp_special_blocks :: "u8 list \<Rightarrow> u8 list \<Rightarrow> bool \<Rightarrow> u8 list \<times> u8 list" where
  "ccmp_special_blocks skb pn spp_amsdu =
     (let (aad, qos_tid) = ccmp_gcmp_aad skb spp_amsdu;
          b_0 = [0x1, qos_tid OR (if ieee80211_is_mgmt (frame_control skb) then 0x10 else 0)] @ addr2 skb @ pn
      in (b_0, aad))"

definition gcmp_special_blocks :: "u8 list \<Rightarrow> u8 list \<Rightarrow> bool \<Rightarrow> u8 list \<times> u8 list" where
  "gcmp_special_blocks skb pn spp_amsdu = (addr2 skb @ pn, fst (ccmp_gcmp_aad skb spp_amsdu))"

definition ccmp_pn2hdr :: "u8 list \<Rightarrow> u8 \<Rightarrow> u8 list" where
  "ccmp_pn2hdr pn key_id = [pn ! 5, pn ! 4, 0, 0x20 OR push_bit 6 key_id, pn ! 3, pn ! 2, pn ! 1, pn ! 0]"

definition ccmp_hdr2pn :: "u8 list \<Rightarrow> u8 list" where
  "ccmp_hdr2pn h = [h ! 7, h ! 6, h ! 5, h ! 4, h ! 1, h ! 0]"

definition gcmp_pn2hdr :: "u8 list \<Rightarrow> u8 \<Rightarrow> u8 list" where
  "gcmp_pn2hdr pn key_id = [pn ! 5, pn ! 4, 0, 0x20 OR push_bit 6 key_id, pn ! 3, pn ! 2, pn ! 1, pn ! 0]"

definition gcmp_hdr2pn :: "u8 list \<Rightarrow> u8 list" where
  "gcmp_hdr2pn h = [h ! 7, h ! 6, h ! 5, h ! 4, h ! 1, h ! 0]"


section \<open>CCMP\<close>

text \<open>A CCMP or GCMP key: one replay counter per traffic identifier and one for management frames.\<close>

record aead_key = key_conf +
  rx_pn :: "u8 list list"
  replays :: u32

text \<open>The hardware needs no room for a header or a code.\<close>

definition hw_no_iv :: "key_flags option \<Rightarrow> u16 \<Rightarrow> bool" where
  "hw_no_iv hw fc =
     (case hw of
        None \<Rightarrow> False
      | Some fl \<Rightarrow> \<not> KEY_FLAG_GENERATE_IV fl \<and> \<not> KEY_FLAG_PUT_IV_SPACE fl \<and>
                 \<not> (KEY_FLAG_GENERATE_IV_MGMT fl \<and> ieee80211_is_mgmt fc))"

definition ccmp_encrypt_skb :: "aead_enc \<Rightarrow> bool \<Rightarrow> nat \<Rightarrow> aead_key \<Rightarrow> tx_skb \<Rightarrow> aead_key \<times> tx_skb option" where
  "ccmp_encrypt_skb aenc alloc mic_len key skb =
     (let data = tx_data skb; fc = frame_control data
      in if hw_no_iv (hw_key skb) fc then (key, Some skb)
         else
           let hdrlen = ieee80211_hdrlen fc; tail = (if hw_key skb \<noteq> None then 0 else mic_len)
           in if tailroom skb < tail \<or> headroom skb < IEEE80211_CCMP_HDR_LEN then (key, None)
              else
                let skb = skb\<lparr>headroom := headroom skb - IEEE80211_CCMP_HDR_LEN\<rparr>
                in if (case hw_key skb of None \<Rightarrow> False | Some fl \<Rightarrow> KEY_FLAG_PUT_IV_SPACE fl) then
                     (key, Some (skb\<lparr>tx_data := open_gap IEEE80211_CCMP_HDR_LEN hdrlen data\<rparr>))
                   else
                     let pn64 = tx_pn key + 1; key = key\<lparr>tx_pn := pn64\<rparr>; pn = pn_of_u64 pn64;
                         data' = take hdrlen data @ ccmp_pn2hdr pn (keyidx key) @ drop hdrlen data
                     in if hw_key skb \<noteq> None then (key, Some (skb\<lparr>tx_data := data'\<rparr>))
                        else
                          let (b_0, aad) = ccmp_special_blocks data' pn (KEY_FLAG_SPP_AMSDU (conf_flags key))
                          in case ieee80211_aes_ccm_encrypt aenc alloc b_0 aad (drop hdrlen data) of
                               None \<Rightarrow> (key, None)
                             | Some (c, mic) \<Rightarrow>
                                 (key, Some (skb\<lparr>tx_data := take (hdrlen + IEEE80211_CCMP_HDR_LEN) data' @ c @ mic,
                                                  tailroom := tailroom skb - mic_len\<rparr>)))"

definition ieee80211_crypto_ccmp_encrypt ::
  "aead_enc \<Rightarrow> bool \<Rightarrow> nat \<Rightarrow> aead_key \<Rightarrow> tx_skb list \<Rightarrow> aead_key \<times> tx_skb list option"
where
  "ieee80211_crypto_ccmp_encrypt aenc alloc mic_len key skbs =
     encrypt_all (ccmp_encrypt_skb aenc alloc mic_len) key (ieee80211_tx_set_protected skbs)"

text \<open>The end of the receive handlers: the tag is cut off and the header is moved over the packet number.\<close>

definition strip_header_mic :: "rx_drop \<Rightarrow> rx_data \<Rightarrow> nat \<Rightarrow> nat \<Rightarrow> u8 list \<Rightarrow> rx_result" where
  "strip_header_mic reason rx hdrlen mic_len skb =
     (if \<not> trim_ok rx then RxDrop reason
      else RxContinue (close_gap IEEE80211_CCMP_HDR_LEN hdrlen (take (length skb - mic_len) skb)))"

text \<open>The block that is skipped when the driver has validated the packet number: \<open>Inl\<close> when the frame is
  dropped, otherwise the key, the packet number kept for a fragment, and the decrypted buffer.\<close>

definition ccmp_check ::
  "aead_dec \<Rightarrow> nat \<Rightarrow> nat \<Rightarrow> rx_data \<Rightarrow> aead_key \<Rightarrow> (aead_key \<times> rx_drop) + (aead_key \<times> u8 list option \<times> u8 list)"
where
  "ccmp_check adec hdrlen mic_len rx key =
     (let skb = rx_skb rx; data_len = length skb - hdrlen - IEEE80211_CCMP_HDR_LEN - mic_len;
          pn = ccmp_hdr2pn (drop hdrlen skb); queue = security_idx rx;
          res = memcmp pn (rx_pn key ! queue)
      in if res < 0 \<or> (res = 0 \<and> \<not> RX_FLAG_ALLOW_SAME_PN rx) then
           Inl (key\<lparr>replays := replays key + 1\<rparr>, RX_DROP_U_REPLAY)
         else
           let body = take data_len (drop (hdrlen + IEEE80211_CCMP_HDR_LEN) skb);
               mic = drop (length skb - mic_len) skb;
               plain = (if RX_FLAG_DECRYPTED rx then Some body
                        else let (b_0, aad) = ccmp_special_blocks skb pn (KEY_FLAG_SPP_AMSDU (conf_flags key))
                             in ieee80211_aes_ccm_decrypt adec (alloc_ok rx) b_0 aad body mic)
           in case plain of
                None \<Rightarrow> Inl (key, RX_DROP_U_MIC_FAIL)
              | Some p \<Rightarrow>
                  Inr (key\<lparr>rx_pn := (rx_pn key)[queue := pn]\<rparr>,
                       if ieee80211_is_frag skb then Some pn else None,
                       take (hdrlen + IEEE80211_CCMP_HDR_LEN) skb @ p @ drop (length skb - mic_len) skb))"

text \<open>The receive handler. Besides the key and the result it leaves the packet number in
  \<open>rx->ccm_gcm.pn\<close> when the frame is a fragment.\<close>

definition ieee80211_crypto_ccmp_decrypt ::
  "aead_dec \<Rightarrow> nat \<Rightarrow> rx_data \<Rightarrow> aead_key \<Rightarrow> aead_key \<times> u8 list option \<times> rx_result"
where
  "ieee80211_crypto_ccmp_decrypt adec mic_len rx key =
     (let skb = rx_skb rx; fc = frame_control skb; hdrlen = ieee80211_hdrlen fc
      in if \<not> ieee80211_is_data fc \<and> \<not> ieee80211_is_robust_mgmt_frame skb then (key, None, RxContinue skb)
         else if RX_FLAG_DECRYPTED rx \<and> length skb < hdrlen + IEEE80211_CCMP_HDR_LEN then
           (key, None, RxDrop RX_DROP_U_SHORT_CCMP)
         else if \<not> RX_FLAG_DECRYPTED rx \<and> \<not> linearize_ok rx then (key, None, RxDrop RX_DROP_U_OOM)
         else
           let mic_len = (if RX_FLAG_DECRYPTED rx \<and> RX_FLAG_MIC_STRIPPED rx then 0 else mic_len)
           in if rx_sta rx = None \<or> length skb < hdrlen + IEEE80211_CCMP_HDR_LEN + mic_len then
                (key, None, RxDrop RX_DROP_U_SHORT_CCMP)
              else
                case (if RX_FLAG_PN_VALIDATED rx then Inr (key, None, skb) else ccmp_check adec hdrlen mic_len rx key) of
                  Inl (key, reason) \<Rightarrow> (key, None, RxDrop reason)
                | Inr (key, pn, skb) \<Rightarrow> (key, pn, strip_header_mic RX_DROP_U_SHORT_CCMP_MIC rx hdrlen mic_len skb))"


section \<open>GCMP\<close>

definition gcmp_encrypt_skb :: "aead_enc \<Rightarrow> bool \<Rightarrow> aead_key \<Rightarrow> tx_skb \<Rightarrow> aead_key \<times> tx_skb option" where
  "gcmp_encrypt_skb aenc alloc key skb =
     (let data = tx_data skb; fc = frame_control data
      in if hw_no_iv (hw_key skb) fc then (key, Some skb)
         else
           let hdrlen = ieee80211_hdrlen fc; tail = (if hw_key skb \<noteq> None then 0 else IEEE80211_GCMP_MIC_LEN)
           in if tailroom skb < tail \<or> headroom skb < IEEE80211_GCMP_HDR_LEN then (key, None)
              else
                let skb = skb\<lparr>headroom := headroom skb - IEEE80211_GCMP_HDR_LEN\<rparr>
                in if (case hw_key skb of None \<Rightarrow> False | Some fl \<Rightarrow> KEY_FLAG_PUT_IV_SPACE fl) then
                     (key, Some (skb\<lparr>tx_data := open_gap IEEE80211_GCMP_HDR_LEN hdrlen data\<rparr>))
                   else
                     let pn64 = tx_pn key + 1; key = key\<lparr>tx_pn := pn64\<rparr>; pn = pn_of_u64 pn64;
                         data' = take hdrlen data @ gcmp_pn2hdr pn (keyidx key) @ drop hdrlen data
                     in if hw_key skb \<noteq> None then (key, Some (skb\<lparr>tx_data := data'\<rparr>))
                        else
                          let (j_0, aad) = gcmp_special_blocks data' pn (KEY_FLAG_SPP_AMSDU (conf_flags key))
                          in case ieee80211_aes_gcm_encrypt aenc alloc j_0 aad (drop hdrlen data) of
                               None \<Rightarrow> (key, None)
                             | Some (c, mic) \<Rightarrow>
                                 (key, Some (skb\<lparr>tx_data := take (hdrlen + IEEE80211_GCMP_HDR_LEN) data' @ c @ mic,
                                                  tailroom := tailroom skb - IEEE80211_GCMP_MIC_LEN\<rparr>)))"

definition ieee80211_crypto_gcmp_encrypt ::
  "aead_enc \<Rightarrow> bool \<Rightarrow> aead_key \<Rightarrow> tx_skb list \<Rightarrow> aead_key \<times> tx_skb list option"
where
  "ieee80211_crypto_gcmp_encrypt aenc alloc key skbs =
     encrypt_all (gcmp_encrypt_skb aenc alloc) key (ieee80211_tx_set_protected skbs)"

text \<open>The block that is skipped when the driver has validated the packet number: \<open>Inl\<close> when the frame is
  dropped, otherwise the key, the packet number kept for a fragment, and the decrypted buffer.\<close>

definition gcmp_check ::
  "aead_dec \<Rightarrow> nat \<Rightarrow> nat \<Rightarrow> rx_data \<Rightarrow> aead_key \<Rightarrow> (aead_key \<times> rx_drop) + (aead_key \<times> u8 list option \<times> u8 list)"
where
  "gcmp_check adec hdrlen mic_len rx key =
     (let skb = rx_skb rx; data_len = length skb - hdrlen - IEEE80211_GCMP_HDR_LEN - mic_len;
          pn = gcmp_hdr2pn (drop hdrlen skb); queue = security_idx rx;
          res = memcmp pn (rx_pn key ! queue)
      in if res < 0 \<or> (res = 0 \<and> \<not> RX_FLAG_ALLOW_SAME_PN rx) then
           Inl (key\<lparr>replays := replays key + 1\<rparr>, RX_DROP_U_REPLAY)
         else
           let body = take data_len (drop (hdrlen + IEEE80211_GCMP_HDR_LEN) skb);
               mic = drop (length skb - IEEE80211_GCMP_MIC_LEN) skb;
               plain = (if RX_FLAG_DECRYPTED rx then Some body
                        else let (j_0, aad) = gcmp_special_blocks skb pn (KEY_FLAG_SPP_AMSDU (conf_flags key))
                             in ieee80211_aes_gcm_decrypt adec (alloc_ok rx) j_0 aad body mic)
           in case plain of
                None \<Rightarrow> Inl (key, RX_DROP_U_MIC_FAIL)
              | Some p \<Rightarrow>
                  Inr (key\<lparr>rx_pn := (rx_pn key)[queue := pn]\<rparr>,
                       if ieee80211_is_frag skb then Some pn else None,
                       take (hdrlen + IEEE80211_GCMP_HDR_LEN) skb @ p @ drop (length skb - mic_len) skb))"

text \<open>The receive handler. Besides the key and the result it leaves the packet number in
  \<open>rx->ccm_gcm.pn\<close> when the frame is a fragment.\<close>

definition ieee80211_crypto_gcmp_decrypt ::
  "aead_dec \<Rightarrow> rx_data \<Rightarrow> aead_key \<Rightarrow> aead_key \<times> u8 list option \<times> rx_result"
where
  "ieee80211_crypto_gcmp_decrypt adec rx key =
     (let skb = rx_skb rx; fc = frame_control skb; hdrlen = ieee80211_hdrlen fc
      in if \<not> ieee80211_is_data fc \<and> \<not> ieee80211_is_robust_mgmt_frame skb then (key, None, RxContinue skb)
         else if RX_FLAG_DECRYPTED rx \<and> length skb < hdrlen + IEEE80211_GCMP_HDR_LEN then
           (key, None, RxDrop RX_DROP_U_SHORT_GCMP)
         else if \<not> RX_FLAG_DECRYPTED rx \<and> \<not> linearize_ok rx then (key, None, RxDrop RX_DROP_U_OOM)
         else
           let mic_len = (if RX_FLAG_DECRYPTED rx \<and> RX_FLAG_MIC_STRIPPED rx then 0 else IEEE80211_GCMP_MIC_LEN)
           in if rx_sta rx = None \<or> length skb < hdrlen + IEEE80211_GCMP_HDR_LEN + mic_len then
                (key, None, RxDrop RX_DROP_U_SHORT_GCMP)
              else
                case (if RX_FLAG_PN_VALIDATED rx then Inr (key, None, skb) else gcmp_check adec hdrlen mic_len rx key) of
                  Inl (key, reason) \<Rightarrow> (key, None, RxDrop reason)
                | Inr (key, pn, skb) \<Rightarrow> (key, pn, strip_header_mic RX_DROP_U_SHORT_GCMP_MIC rx hdrlen mic_len skb))"


section \<open>Management frame protection\<close>

text \<open>A key for group-addressed management frames: one counter, and counts of replays and bad codes.\<close>

record bip_key = key_conf +
  bip_rx_pn :: "u8 list"
  bip_replays :: u32
  icverrors :: u32

definition bip_aad :: "u8 list \<Rightarrow> u8 list" where
  "bip_aad skb =
     put_le16 (frame_control skb AND NOT (IEEE80211_FCTL_RETRY OR IEEE80211_FCTL_PM OR IEEE80211_FCTL_MOREDATA))
       @ take 18 (drop 4 skb)"

definition bip_ipn_set64 :: "u64 \<Rightarrow> u8 list" where
  "bip_ipn_set64 pn =
     [ucast pn, ucast (drop_bit 8 pn), ucast (drop_bit 16 pn), ucast (drop_bit 24 pn), ucast (drop_bit 32 pn),
      ucast (drop_bit 40 pn)]"

definition bip_ipn_swap :: "u8 list \<Rightarrow> u8 list" where
  "bip_ipn_swap s = [s ! 5, s ! 4, s ! 3, s ! 2, s ! 1, s ! 0]"

text \<open>The text that is authenticated: the time stamp of a beacon and the code itself count as zero.\<close>

definition bip_text :: "nat \<Rightarrow> u8 list \<Rightarrow> u8 list \<Rightarrow> u8 list" where
  "bip_text tlen aad data =
     (if ieee80211_is_beacon (frame_control aad) then replicate 8 0 @ take (length data - 8 - tlen) (drop 8 data)
      else take (length data - tlen) data) @ replicate tlen 0"

definition ieee80211_aes_cmac :: "(u8 list \<Rightarrow> u8 list) \<Rightarrow> u8 list \<Rightarrow> u8 list \<Rightarrow> u8 list" where
  "ieee80211_aes_cmac hash aad data = take 8 (hash (aad @ bip_text 8 aad data))"

definition ieee80211_aes_cmac_256 :: "(u8 list \<Rightarrow> u8 list) \<Rightarrow> u8 list \<Rightarrow> u8 list \<Rightarrow> u8 list" where
  "ieee80211_aes_cmac_256 hash aad data = hash (aad @ bip_text 16 aad data)"

text \<open>GMAC is GCM with an empty text: everything is associated data. The nonce is completed to the initial
  counter block.\<close>

definition ieee80211_aes_gmac :: "aead_enc \<Rightarrow> bool \<Rightarrow> u8 list \<Rightarrow> u8 list \<Rightarrow> u8 list \<Rightarrow> u8 list option" where
  "ieee80211_aes_gmac aenc alloc aad nonce data =
     (if length data < 16 then None
      else if \<not> alloc then None
      else map_option snd (aenc (nonce @ [0, 0, 0, 1]) (aad @ bip_text 16 aad data) []))"

text \<open>The management MIC element, with \<open>tlen\<close> bytes of code.\<close>

definition mmie :: "nat \<Rightarrow> u8 \<Rightarrow> u8 list \<Rightarrow> u8 list \<Rightarrow> u8 list" where
  "mmie tlen key_id ipn mic = [WLAN_EID_MMIE, of_nat (tlen + 8)] @ put_le16 (ucast key_id) @ ipn @ mic"

text \<open>The three transmit handlers begin alike: one buffer, a key in software or a driver that wants the
  element, and room for it. Then the counter is incremented and the element appended, its code still
  unset (shown as zero).\<close>

definition bip_add_mmie :: "nat \<Rightarrow> bip_key \<Rightarrow> tx_skb list \<Rightarrow> (bip_key \<times> tx_skb, tx_skb list option) sum" where
  "bip_add_mmie tlen key skbs =
     (case skbs of
        [skb] \<Rightarrow>
          (if hw_key skb \<noteq> None \<and> \<not> KEY_FLAG_GENERATE_MMIE (conf_flags key) then Inr (Some skbs)
           else if tailroom skb < tlen + 10 then Inr None
           else
             let pn64 = tx_pn key + 1
             in Inl (key\<lparr>tx_pn := pn64\<rparr>,
                     skb\<lparr>tx_data := tx_data skb @ mmie tlen (keyidx key) (bip_ipn_set64 pn64) (replicate tlen 0),
                         tailroom := tailroom skb - (tlen + 10)\<rparr>))
      | _ \<Rightarrow> Inr None)"

text \<open>Storing the code in the last bytes of the buffer.\<close>

definition put_mic :: "nat \<Rightarrow> u8 list \<Rightarrow> tx_skb \<Rightarrow> tx_skb" where
  "put_mic tlen mic skb = skb\<lparr>tx_data := take (length (tx_data skb) - tlen) (tx_data skb) @ mic\<rparr>"

definition ieee80211_crypto_aes_cmac_encrypt ::
  "(u8 list \<Rightarrow> u8 list) \<Rightarrow> bip_key \<Rightarrow> tx_skb list \<Rightarrow> bip_key \<times> tx_skb list option"
where
  "ieee80211_crypto_aes_cmac_encrypt hash key skbs =
     (case bip_add_mmie 8 key skbs of
        Inr r \<Rightarrow> (key, r)
      | Inl (key, skb) \<Rightarrow>
          if hw_key skb \<noteq> None then (key, Some [skb])
          else (key, Some [put_mic 8 (ieee80211_aes_cmac hash (bip_aad (tx_data skb)) (drop 24 (tx_data skb))) skb]))"

definition ieee80211_crypto_aes_cmac_256_encrypt ::
  "(u8 list \<Rightarrow> u8 list) \<Rightarrow> bip_key \<Rightarrow> tx_skb list \<Rightarrow> bip_key \<times> tx_skb list option"
where
  "ieee80211_crypto_aes_cmac_256_encrypt hash key skbs =
     (case bip_add_mmie 16 key skbs of
        Inr r \<Rightarrow> (key, r)
      | Inl (key, skb) \<Rightarrow>
          if hw_key skb \<noteq> None then (key, Some [skb])
          else (key, Some [put_mic 16 (ieee80211_aes_cmac_256 hash (bip_aad (tx_data skb)) (drop 24 (tx_data skb))) skb]))"

definition ieee80211_crypto_aes_gmac_encrypt ::
  "aead_enc \<Rightarrow> bool \<Rightarrow> bip_key \<Rightarrow> tx_skb list \<Rightarrow> bip_key \<times> tx_skb list option"
where
  "ieee80211_crypto_aes_gmac_encrypt aenc alloc key skbs =
     (case bip_add_mmie 16 key skbs of
        Inr r \<Rightarrow> (key, r)
      | Inl (key, skb) \<Rightarrow>
          if hw_key skb \<noteq> None then (key, Some [skb])
          else
            let nonce = addr2 (tx_data skb) @ bip_ipn_swap (bip_ipn_set64 (tx_pn key))
            in case ieee80211_aes_gmac aenc alloc (bip_aad (tx_data skb)) nonce (drop 24 (tx_data skb)) of
                 None \<Rightarrow> (key, None)
               | Some mic \<Rightarrow> (key, Some [put_mic 16 mic skb]))"

text \<open>What the three receive handlers do up to the comparison of the code: the sequence number of the
  element, or the result.\<close>

definition bip_check :: "nat \<Rightarrow> rx_drop \<Rightarrow> rx_data \<Rightarrow> bip_key \<Rightarrow> (u8 list, bip_key \<times> rx_result) sum" where
  "bip_check tlen short rx key =
     (let skb = rx_skb rx; e = drop (length skb - (tlen + 10)) skb
      in if \<not> ieee80211_is_mgmt (frame_control skb) then Inr (key, RxContinue skb)
         else if length skb < 24 + (tlen + 10) then Inr (key, RxDrop short)
         else if e ! 0 \<noteq> WLAN_EID_MMIE \<or> e ! 1 \<noteq> of_nat (tlen + 8) then Inr (key, RxDrop RX_DROP_U_BAD_MMIE)
         else
           let ipn = bip_ipn_swap (drop 4 e)
           in if memcmp ipn (bip_rx_pn key) \<le> 0 then
                Inr (key\<lparr>bip_replays := bip_replays key + 1\<rparr>, RxDrop RX_DROP_U_REPLAY)
              else Inl ipn)"

text \<open>The counter is stored and the element removed.\<close>

definition bip_accept :: "nat \<Rightarrow> u8 list \<Rightarrow> rx_data \<Rightarrow> bip_key \<Rightarrow> bip_key \<times> rx_result" where
  "bip_accept tlen ipn rx key =
     (key\<lparr>bip_rx_pn := ipn\<rparr>, RxContinue (take (length (rx_skb rx) - (tlen + 10)) (rx_skb rx)))"

definition ieee80211_crypto_aes_cmac_decrypt ::
  "(u8 list \<Rightarrow> u8 list) \<Rightarrow> rx_data \<Rightarrow> bip_key \<Rightarrow> bip_key \<times> rx_result"
where
  "ieee80211_crypto_aes_cmac_decrypt hash rx key =
     (case bip_check 8 RX_DROP_U_SHORT_CMAC rx key of
        Inr r \<Rightarrow> r
      | Inl ipn \<Rightarrow>
          let skb = rx_skb rx
          in if \<not> RX_FLAG_DECRYPTED rx \<and>
                ieee80211_aes_cmac hash (bip_aad skb) (drop 24 skb) \<noteq> drop (length skb - 8) skb then
               (key\<lparr>icverrors := icverrors key + 1\<rparr>, RxDrop RX_DROP_U_MIC_FAIL)
             else bip_accept 8 ipn rx key)"

definition ieee80211_crypto_aes_cmac_256_decrypt ::
  "(u8 list \<Rightarrow> u8 list) \<Rightarrow> rx_data \<Rightarrow> bip_key \<Rightarrow> bip_key \<times> rx_result"
where
  "ieee80211_crypto_aes_cmac_256_decrypt hash rx key =
     (case bip_check 16 RX_DROP_U_SHORT_CMAC256 rx key of
        Inr r \<Rightarrow> r
      | Inl ipn \<Rightarrow>
          let skb = rx_skb rx
          in if \<not> RX_FLAG_DECRYPTED rx \<and>
                ieee80211_aes_cmac_256 hash (bip_aad skb) (drop 24 skb) \<noteq> drop (length skb - 16) skb then
               (key\<lparr>icverrors := icverrors key + 1\<rparr>, RxDrop RX_DROP_U_MIC_FAIL)
             else bip_accept 16 ipn rx key)"

definition ieee80211_crypto_aes_gmac_decrypt :: "aead_enc \<Rightarrow> rx_data \<Rightarrow> bip_key \<Rightarrow> bip_key \<times> rx_result" where
  "ieee80211_crypto_aes_gmac_decrypt aenc rx key =
     (case bip_check 16 RX_DROP_U_SHORT_GMAC rx key of
        Inr r \<Rightarrow> r
      | Inl ipn \<Rightarrow>
          let skb = rx_skb rx
          in if RX_FLAG_DECRYPTED rx then bip_accept 16 ipn rx key
             else if \<not> alloc_ok rx then (key, RxDrop RX_DROP_U_OOM)
             else if ieee80211_aes_gmac aenc (alloc_ok rx) (bip_aad skb) (addr2 skb @ ipn) (drop 24 skb)
                       \<noteq> Some (drop (length skb - 16) skb) then
               (key\<lparr>icverrors := icverrors key + 1\<rparr>, RxDrop RX_DROP_U_MIC_FAIL)
             else bip_accept 16 ipn rx key)"

end
