(* ===== verification/WpaInv.thy ===== *)
theory WpaInv
  imports Wpa
begin

text \<open>
  Every receive handler of Wpa is a replay counter: the interpretations of the locale of PacketNumber on
  CCMP, GCMP and the three management frame handlers. And the facts on nonce and associated data that the
  round trips need.
\<close>


section \<open>CCMP and GCMP\<close>

definition wf_aead_key :: "aead_key \<Rightarrow> bool" where
  "wf_aead_key k \<longleftrightarrow> length (rx_pn k) = 17 \<and> (\<forall>pn \<in> set (rx_pn k). length pn = 6)"

definition aead_counter :: "aead_key \<Rightarrow> nat \<Rightarrow> int" where
  "aead_counter k q = int (pn_val (rx_pn k ! q))"

definition ccmp_recv :: "aead_dec \<Rightarrow> nat \<Rightarrow> rx_data \<Rightarrow> aead_key \<Rightarrow> aead_key \<times> bool" where
  "ccmp_recv adec mic_len rx k =
     (case ieee80211_crypto_ccmp_decrypt adec mic_len rx k of (k, _, r) \<Rightarrow> (k, is_continue r))"

definition gcmp_recv :: "aead_dec \<Rightarrow> rx_data \<Rightarrow> aead_key \<Rightarrow> aead_key \<times> bool" where
  "gcmp_recv adec rx k = (case ieee80211_crypto_gcmp_decrypt adec rx k of (k, _, r) \<Rightarrow> (k, is_continue r))"

text \<open>The number a frame carries behind its header.\<close>

definition aead_pn :: "rx_data \<Rightarrow> int" where
  "aead_pn rx = int (pn_val (ccmp_hdr2pn (drop (ieee80211_hdrlen (frame_control (rx_skb rx))) (rx_skb rx))))"

text \<open>The frames the replay check is for: protected kinds, and the driver has not taken it over.\<close>

definition aead_checked :: "rx_data \<Rightarrow> bool" where
  "aead_checked rx \<longleftrightarrow>
     (ieee80211_is_data (frame_control (rx_skb rx)) \<or> ieee80211_is_robust_mgmt_frame (rx_skb rx)) \<and>
     \<not> RX_FLAG_PN_VALIDATED rx \<and> \<not> RX_FLAG_ALLOW_SAME_PN rx \<and> security_idx rx < 17"

lemma length_hdr2pn [simp]: "length (ccmp_hdr2pn h) = 6" "gcmp_hdr2pn h = ccmp_hdr2pn h"
  by (simp_all add: ccmp_hdr2pn_def gcmp_hdr2pn_def)

lemma strip_continue: "is_continue (strip_header_mic reason rx n m skb) \<longleftrightarrow> trim_ok rx"
  by (simp add: strip_header_mic_def)

text \<open>The effect of both handlers on the key: nothing, one more replay, or the counter of the queue set to
  a number that is not below it, and above it without \<open>RX_FLAG_ALLOW_SAME_PN\<close>.\<close>

definition pn_step :: "rx_data \<Rightarrow> aead_key \<Rightarrow> aead_key \<Rightarrow> bool \<Rightarrow> bool" where
  "pn_step rx k k' ok \<longleftrightarrow>
     (let q = security_idx rx; pn = ccmp_hdr2pn (drop (ieee80211_hdrlen (frame_control (rx_skb rx))) (rx_skb rx));
          res = memcmp pn (rx_pn k ! q)
      in (k' = k \<or> k' = k\<lparr>replays := replays k + 1\<rparr>) \<and> \<not> (ok \<and> aead_checked rx) \<or>
         k' = k\<lparr>rx_pn := (rx_pn k)[q := pn]\<rparr> \<and> (res > 0 \<or> res = 0 \<and> RX_FLAG_ALLOW_SAME_PN rx))"

text \<open>The block of the packet number check, for both ciphers.\<close>

definition check_step :: "nat \<Rightarrow> rx_data \<Rightarrow> aead_key \<Rightarrow> (aead_key \<times> rx_drop) + (aead_key \<times> u8 list option \<times> u8 list) \<Rightarrow> bool" where
  "check_step hdrlen rx k r \<longleftrightarrow>
     (let q = security_idx rx; pn = ccmp_hdr2pn (drop hdrlen (rx_skb rx)); res = memcmp pn (rx_pn k ! q)
      in case r of
           Inl (k', _) \<Rightarrow> k' = k \<or> k' = k\<lparr>replays := replays k + 1\<rparr>
         | Inr (k', _, _) \<Rightarrow> k' = k\<lparr>rx_pn := (rx_pn k)[q := pn]\<rparr> \<and> (res > 0 \<or> res = 0 \<and> RX_FLAG_ALLOW_SAME_PN rx))"

lemma check_steps:
  "check_step hdrlen rx k (ccmp_check adec hdrlen mic_len rx k)"
  "check_step hdrlen rx k (gcmp_check adec hdrlen mic_len rx k)"
  by (auto simp: check_step_def ccmp_check_def gcmp_check_def Let_def split: option.splits)

lemma check_step_pn_step:
  assumes "check_step (ieee80211_hdrlen (frame_control (rx_skb rx))) rx k r"
  shows "r = Inl (k', reason) \<Longrightarrow> pn_step rx k k' False" "r = Inr (k', pn, skb) \<Longrightarrow> pn_step rx k k' ok"
  using assms by (auto simp: check_step_def pn_step_def Let_def)

lemmas check_pn_steps = check_steps(1) [THEN check_step_pn_step(1)] check_steps(1) [THEN check_step_pn_step(2)]
  check_steps(2) [THEN check_step_pn_step(1)] check_steps(2) [THEN check_step_pn_step(2)]

lemma pn_step_refl: "\<not> (ok \<and> aead_checked rx) \<Longrightarrow> pn_step rx k k ok"
  by (simp add: pn_step_def)

lemma ccmp_pn_step: "pn_step rx k (fst (ccmp_recv adec mic_len rx k)) (snd (ccmp_recv adec mic_len rx k))"
  unfolding ccmp_recv_def ieee80211_crypto_ccmp_decrypt_def Let_def
  by (auto simp: pn_step_refl aead_checked_def check_pn_steps split: sum.splits)

lemma gcmp_pn_step: "pn_step rx k (fst (gcmp_recv adec rx k)) (snd (gcmp_recv adec rx k))"
  unfolding gcmp_recv_def ieee80211_crypto_gcmp_decrypt_def Let_def
  by (auto simp: pn_step_refl aead_checked_def check_pn_steps split: sum.splits)

lemma pn_step_laws:
  assumes "wf_aead_key k" "pn_step rx k k' ok"
  shows "wf_aead_key k'" "aead_counter k q \<le> aead_counter k' q"
    and "aead_checked rx \<Longrightarrow> ok \<Longrightarrow> aead_counter k (security_idx rx) < aead_pn rx"
    and "aead_checked rx \<Longrightarrow> ok \<Longrightarrow> aead_counter k' (security_idx rx) = aead_pn rx"
proof -
  let ?q = "security_idx rx"
  let ?pn = "ccmp_hdr2pn (drop (ieee80211_hdrlen (frame_control (rx_skb rx))) (rx_skb rx))"
  have len: "q < 17 \<Longrightarrow> length (rx_pn k ! q) = 6" for q
    using assms(1) by (simp add: wf_aead_key_def)
  note cmp = memcmp_pn_val [of ?pn "rx_pn k ! ?q"]
  show "wf_aead_key k'"
    using assms by (auto simp: pn_step_def wf_aead_key_def Let_def dest!: set_update_subset_insert [THEN subsetD])
  show "aead_counter k q \<le> aead_counter k' q"
  proof (cases "q = ?q \<and> ?q < 17")
    case True
    then show ?thesis
      using assms cmp len [of q] by (auto simp: pn_step_def aead_counter_def Let_def wf_aead_key_def)
  next
    case False
    then show ?thesis
      using assms by (auto simp: pn_step_def aead_counter_def Let_def wf_aead_key_def nth_list_update list_update_beyond)
  qed
  show "aead_counter k ?q < aead_pn rx" "aead_counter k' ?q = aead_pn rx" if "aead_checked rx" ok
    using that assms cmp len [of ?q]
    by (auto simp: pn_step_def aead_counter_def aead_pn_def aead_checked_def Let_def wf_aead_key_def)
qed

interpretation ccmp: replay_counter "ccmp_recv adec mic_len" aead_counter security_idx aead_pn aead_checked wf_aead_key
  for adec mic_len
  by unfold_locales (blast intro: pn_step_laws ccmp_pn_step)+

interpretation gcmp: replay_counter "gcmp_recv adec" aead_counter security_idx aead_pn aead_checked wf_aead_key for adec
  by unfold_locales (blast intro: pn_step_laws gcmp_pn_step)+


section \<open>Management frames\<close>

definition wf_bip_key :: "bip_key \<Rightarrow> bool" where
  "wf_bip_key k \<longleftrightarrow> length (bip_rx_pn k) = 6"

definition bip_counter :: "bip_key \<Rightarrow> nat \<Rightarrow> int" where
  "bip_counter k q = int (pn_val (bip_rx_pn k))"

definition bip_pn :: "nat \<Rightarrow> rx_data \<Rightarrow> int" where
  "bip_pn tlen rx = int (pn_val (bip_ipn_swap (drop 4 (drop (length (rx_skb rx) - (tlen + 10)) (rx_skb rx)))))"

definition bip_checked :: "rx_data \<Rightarrow> bool" where
  "bip_checked rx \<longleftrightarrow> ieee80211_is_mgmt (frame_control (rx_skb rx))"

definition cmac_recv :: "(u8 list \<Rightarrow> u8 list) \<Rightarrow> rx_data \<Rightarrow> bip_key \<Rightarrow> bip_key \<times> bool" where
  "cmac_recv hash rx k = map_prod id is_continue (ieee80211_crypto_aes_cmac_decrypt hash rx k)"

definition cmac_256_recv :: "(u8 list \<Rightarrow> u8 list) \<Rightarrow> rx_data \<Rightarrow> bip_key \<Rightarrow> bip_key \<times> bool" where
  "cmac_256_recv hash rx k = map_prod id is_continue (ieee80211_crypto_aes_cmac_256_decrypt hash rx k)"

definition gmac_recv :: "aead_enc \<Rightarrow> rx_data \<Rightarrow> bip_key \<Rightarrow> bip_key \<times> bool" where
  "gmac_recv aenc rx k = map_prod id is_continue (ieee80211_crypto_aes_gmac_decrypt aenc rx k)"

definition bip_step :: "nat \<Rightarrow> rx_data \<Rightarrow> bip_key \<Rightarrow> bip_key \<Rightarrow> bool \<Rightarrow> bool" where
  "bip_step tlen rx k k' ok \<longleftrightarrow>
     (let ipn = bip_ipn_swap (drop 4 (drop (length (rx_skb rx) - (tlen + 10)) (rx_skb rx)))
      in bip_rx_pn k' = bip_rx_pn k \<and> \<not> (ok \<and> bip_checked rx) \<or>
         bip_rx_pn k' = ipn \<and> memcmp ipn (bip_rx_pn k) > 0)"

lemma bip_steps:
  "bip_step 8 rx k (fst (cmac_recv hash rx k)) (snd (cmac_recv hash rx k))"
  "bip_step 16 rx k (fst (cmac_256_recv hash rx k)) (snd (cmac_256_recv hash rx k))"
  "bip_step 16 rx k (fst (gmac_recv aenc rx k)) (snd (gmac_recv aenc rx k))"
  by (auto simp: bip_step_def cmac_recv_def cmac_256_recv_def gmac_recv_def ieee80211_crypto_aes_cmac_decrypt_def
      ieee80211_crypto_aes_cmac_256_decrypt_def ieee80211_crypto_aes_gmac_decrypt_def bip_check_def bip_accept_def
      bip_checked_def Let_def split: sum.splits if_splits)

lemma bip_step_laws:
  assumes "wf_bip_key k" "bip_step tlen rx k k' ok"
  shows "wf_bip_key k'" "bip_counter k q \<le> bip_counter k' q"
    and "bip_checked rx \<Longrightarrow> ok \<Longrightarrow> bip_counter k 0 < bip_pn tlen rx"
    and "bip_checked rx \<Longrightarrow> ok \<Longrightarrow> bip_counter k' 0 = bip_pn tlen rx"
proof -
  have l: "length (bip_ipn_swap s) = 6" for s by (simp add: bip_ipn_swap_def)
  note cmp = memcmp_pn_val [of "bip_ipn_swap s" "bip_rx_pn k" for s]
  show "wf_bip_key k'" using assms l by (auto simp: bip_step_def wf_bip_key_def Let_def)
  show "bip_counter k q \<le> bip_counter k' q"
    using assms cmp l by (auto simp: bip_step_def wf_bip_key_def bip_counter_def Let_def)
  show "bip_counter k 0 < bip_pn tlen rx" "bip_counter k' 0 = bip_pn tlen rx" if "bip_checked rx" ok
    using that assms cmp l by (auto simp: bip_step_def wf_bip_key_def bip_counter_def bip_pn_def Let_def)
qed

interpretation cmac: replay_counter "cmac_recv hash" bip_counter "\<lambda>_. 0" "bip_pn 8" bip_checked wf_bip_key for hash
  by unfold_locales (blast intro: bip_step_laws bip_steps)+

interpretation cmac_256: replay_counter "cmac_256_recv hash" bip_counter "\<lambda>_. 0" "bip_pn 16" bip_checked wf_bip_key
  for hash
  by unfold_locales (blast intro: bip_step_laws bip_steps)+

interpretation gmac: replay_counter "gmac_recv aenc" bip_counter "\<lambda>_. 0" "bip_pn 16" bip_checked wf_bip_key for aenc
  by unfold_locales (blast intro: bip_step_laws bip_steps)+

end
