(* ===== verification/WpaProps.thy ===== *)
theory WpaProps
  imports WpaInv
begin

text \<open>
  What the frame protection of wpa.c guarantees: no packet number is accepted twice, and what one side
  protects the other side restores.
\<close>


section \<open>Replays\<close>

definition zero_key :: aead_key where
  "zero_key = \<lparr>key_bytes = [], keyidx = 1, conf_flags = no_key_flags, tx_pn = 0, rx_pn = replicate 17 (replicate 6 0),
     replays = 0\<rparr>"

lemma wf_zero_key: "wf_aead_key zero_key"
  by (simp add: wf_aead_key_def zero_key_def)

text \<open>C11: On every queue the packet numbers of the data and robust management frames that CCMP and GCMP
  let through strictly increase, whatever frames arrive and whatever the cipher says, unless the driver
  has taken the check over.\<close>

theorem aead_no_replay:
  assumes "wf_aead_key k"
  shows "sorted_wrt (<) (map aead_pn (filter (\<lambda>rx. security_idx rx = q) (accepted (ccmp_recv adec mic_len) aead_checked k fs)))
       \<and> sorted_wrt (<) (map aead_pn (filter (\<lambda>rx. security_idx rx = q) (accepted (gcmp_recv adec) aead_checked k fs)))"
  using ccmp.no_replay [OF assms] gcmp.no_replay [OF assms] by blast

text \<open>A toy cipher and a frame of a station for the witnesses: the text in clear and a fixed tag.\<close>

definition toy_dec :: "nat \<Rightarrow> aead_dec" where
  "toy_dec n nonce aad c mic = (if mic = replicate n 0xab then Some c else None)"

definition toy_enc :: "nat \<Rightarrow> aead_enc" where
  "toy_enc n nonce aad p = Some (p, replicate n 0xab)"

definition toy_hdr :: hdr where
  "toy_hdr = [0x08, 0x41, 0, 0, 1, 2, 3, 4, 5, 6, 7, 8, 9, 10, 11, 12, 13, 14, 15, 16, 17, 18, 0x10, 0]"

definition toy_frame :: "u8 \<Rightarrow> rx_data" where
  "toy_frame n = plain_rx [7, 8, 9, 10, 11, 12] (toy_hdr @ [n, 0, 0, 0x20, 0, 0, 0, 0, 0x55] @ replicate 8 0xab) 3"

theorem aead_no_replay_witness:
  "map aead_pn (accepted (ccmp_recv (toy_dec 8) 8) aead_checked zero_key [toy_frame 5, toy_frame 5, toy_frame 4, toy_frame 7])
     = [5, 7] \<and>
   sorted_wrt (<) (map aead_pn (filter (\<lambda>rx. security_idx rx = 3)
     (accepted (ccmp_recv (toy_dec 8) 8) aead_checked zero_key [toy_frame 5, toy_frame 5, toy_frame 4, toy_frame 7])))"
proof
  show "map aead_pn (accepted (ccmp_recv (toy_dec 8) 8) aead_checked zero_key [toy_frame 5, toy_frame 5, toy_frame 4, toy_frame 7])
     = [5, 7]"
    by code_simp
qed (use aead_no_replay [OF wf_zero_key] in blast)

text \<open>The same for the group-addressed management frames of all three kinds of code.\<close>

theorem bip_no_replay:
  assumes "wf_bip_key k"
  shows "sorted_wrt (<) (map (bip_pn 8) (accepted (cmac_recv hash) bip_checked k fs))
       \<and> sorted_wrt (<) (map (bip_pn 16) (accepted (cmac_256_recv hash) bip_checked k fs))
       \<and> sorted_wrt (<) (map (bip_pn 16) (accepted (gmac_recv aenc) bip_checked k fs))"
  using cmac.no_replay [OF assms, of 0] cmac_256.no_replay [OF assms, of 0] gmac.no_replay [OF assms, of 0] by simp

definition zero_bip_key :: bip_key where
  "zero_bip_key = \<lparr>key_bytes = [], keyidx = 4, conf_flags = no_key_flags, tx_pn = 0, bip_rx_pn = replicate 6 0,
     bip_replays = 0, icverrors = 0\<rparr>"

text \<open>A deauthentication frame with a management MIC element.\<close>

definition toy_mgmt :: "u8 \<Rightarrow> rx_data" where
  "toy_mgmt n = plain_rx [7, 8, 9, 10, 11, 12]
     ([0xc0, 0] @ drop 2 toy_hdr @ [1, 0] @ mmie 8 4 [n, 0, 0, 0, 0, 0] (replicate 8 0xab)) 0"

theorem bip_no_replay_witness:
  "map (bip_pn 8) (accepted (cmac_recv (\<lambda>_. replicate 16 0xab)) bip_checked zero_bip_key [toy_mgmt 5, toy_mgmt 5, toy_mgmt 6])
     = [5, 6] \<and>
   sorted_wrt (<) (map (bip_pn 8)
     (accepted (cmac_recv (\<lambda>_. replicate 16 0xab)) bip_checked zero_bip_key [toy_mgmt 5, toy_mgmt 5, toy_mgmt 6]))"
proof
  show "map (bip_pn 8) (accepted (cmac_recv (\<lambda>_. replicate 16 0xab)) bip_checked zero_bip_key [toy_mgmt 5, toy_mgmt 5, toy_mgmt 6])
     = [5, 6]"
    by code_simp
  have "wf_bip_key zero_bip_key" by (simp add: wf_bip_key_def zero_bip_key_def)
  from bip_no_replay [OF this]
  show "sorted_wrt (<) (map (bip_pn 8)
     (accepted (cmac_recv (\<lambda>_. replicate 16 0xab)) bip_checked zero_bip_key [toy_mgmt 5, toy_mgmt 5, toy_mgmt 6]))"
    by blast
qed


section \<open>Headers under insertion and removal of the packet number\<close>

text \<open>Everything nonce and associated data are made of lies in the header.\<close>

lemma special_blocks_prefix:
  assumes "ieee80211_is_data (frame_control d)" "ieee80211_hdrlen (frame_control d) \<le> length d"
  shows "ccmp_special_blocks (take (ieee80211_hdrlen (frame_control d)) d @ x) = ccmp_special_blocks d"
    and "gcmp_special_blocks (take (ieee80211_hdrlen (frame_control d)) d @ x) = gcmp_special_blocks d"
    and "ieee80211_is_frag (take (ieee80211_hdrlen (frame_control d)) d @ x) = ieee80211_is_frag d"
proof -
  let ?n = "ieee80211_hdrlen (frame_control d)"
  note n = data_hdrlen [OF assms(1)] assms(2)
  have fc: "frame_control (take ?n d @ x) = frame_control d"
    using n by (intro frame_control_prefix) simp_all
  have q: "ieee80211_get_qos_ctl (take ?n d @ x) ! 0 = ieee80211_get_qos_ctl d ! 0"
    if "ieee80211_is_data_qos (frame_control d)"
    using n hdrlen_qos [OF assms(1) that] by (simp add: ieee80211_get_qos_ctl_def fc nth_append split: if_splits)
  have a4: "addr4 (take ?n d @ x) = addr4 d" if "ieee80211_has_a4 (frame_control d)"
    using n hdrlen_a4 [OF assms(1) that] unfolding addr4_def by (intro slice_prefix) simp_all
  have "take 18 (drop 4 (take ?n d @ x)) = take 18 (drop 4 d)" "(take ?n d @ x) ! 22 = d ! 22"
    using n by (simp_all add: nth_append slice_prefix del: take_append drop_append)
  then have aad: "ccmp_gcmp_aad (take ?n d @ x) = ccmp_gcmp_aad d"
    by (intro ext) (simp add: ccmp_gcmp_aad_def fc q a4 Let_def del: append_take_drop_id)
  have a2: "addr2 (take ?n d @ x) = addr2 d" using n unfolding addr2_def by (intro slice_prefix) simp_all
  show "ccmp_special_blocks (take ?n d @ x) = ccmp_special_blocks d"
    "gcmp_special_blocks (take ?n d @ x) = gcmp_special_blocks d"
    by (intro ext, simp add: ccmp_special_blocks_def gcmp_special_blocks_def aad fc a2)+
  show "ieee80211_is_frag (take ?n d @ x) = ieee80211_is_frag d"
    using n by (simp add: ieee80211_is_frag_def fc seq_ctrl_def get_le16_def nth_append)
qed

lemma hdr2pn_pn2hdr: "length pn = 6 \<Longrightarrow> ccmp_hdr2pn (ccmp_pn2hdr pn i @ x) = pn" "gcmp_pn2hdr = ccmp_pn2hdr"
  by (auto simp: ccmp_hdr2pn_def ccmp_pn2hdr_def gcmp_pn2hdr_def numeral_eq_Suc length_Suc_conv intro!: ext)

lemma length_pn2hdr [simp]: "length (ccmp_pn2hdr pn i) = 8"
  by (simp add: ccmp_pn2hdr_def)


section \<open>Round trips\<close>

text \<open>What the handlers rely on of the cipher of a key: text and tag have their lengths, and decrypting
  with the same nonce and associated data gives the text back.\<close>

definition aead_law :: "aead_enc \<Rightarrow> aead_dec \<Rightarrow> nat \<Rightarrow> bool" where
  "aead_law aenc adec mic_len \<longleftrightarrow>
     (\<forall>nonce aad p c mic. aenc nonce aad p = Some (c, mic) \<longrightarrow>
        length c = length p \<and> length mic = mic_len \<and> adec nonce aad c mic = Some p)"

text \<open>A data frame with a payload, to be protected in software.\<close>

definition protectable :: "tx_skb \<Rightarrow> bool" where
  "protectable skb \<longleftrightarrow>
     hw_key skb = None \<and> ieee80211_is_data (frame_control (tx_data skb)) \<and>
     ieee80211_hdrlen (frame_control (tx_data skb)) < length (tx_data skb)"

text \<open>The form of a protected frame.\<close>

lemma ccmp_encrypt_form:
  assumes "ccmp_encrypt_skb aenc alloc mic_len k skb = (k', Some skb')" "hw_key skb = None"
  defines "d \<equiv> tx_data skb"
  defines "n \<equiv> ieee80211_hdrlen (frame_control d)" and "pn \<equiv> pn_of_u64 (tx_pn k + 1)"
  defines "d' \<equiv> take n d @ ccmp_pn2hdr pn (keyidx k) @ drop n d"
  defines "b \<equiv> ccmp_special_blocks d' pn (KEY_FLAG_SPP_AMSDU (conf_flags k))"
  obtains c mic where "aenc (fst b) (aad_bytes (snd b)) (drop n d) = Some (c, mic)"
    and "k' = k\<lparr>tx_pn := tx_pn k + 1\<rparr>" and "tx_data skb' = take (n + 8) d' @ c @ mic"
  using assms(1,2) that
  unfolding assms(3-) ccmp_encrypt_skb_def hw_no_iv_def ieee80211_aes_ccm_encrypt_def aead_encrypt_def
  by (auto simp: Let_def split: if_splits option.splits prod.splits)

lemma gcmp_encrypt_form:
  assumes "gcmp_encrypt_skb aenc alloc k skb = (k', Some skb')" "hw_key skb = None"
  defines "d \<equiv> tx_data skb"
  defines "n \<equiv> ieee80211_hdrlen (frame_control d)" and "pn \<equiv> pn_of_u64 (tx_pn k + 1)"
  defines "d' \<equiv> take n d @ ccmp_pn2hdr pn (keyidx k) @ drop n d"
  defines "b \<equiv> gcmp_special_blocks d' pn (KEY_FLAG_SPP_AMSDU (conf_flags k))"
  obtains c mic where "aenc (fst b) (aad_bytes (snd b)) (drop n d) = Some (c, mic)"
    and "k' = k\<lparr>tx_pn := tx_pn k + 1\<rparr>" and "tx_data skb' = take (n + 8) d' @ c @ mic"
  using assms(1,2) that
  unfolding assms(3-) gcmp_encrypt_skb_def hw_no_iv_def ieee80211_aes_gcm_encrypt_def aead_encrypt_def
  by (auto simp: Let_def hdr2pn_pn2hdr(2) split: if_splits option.splits prod.splits)

text \<open>A frame of that form is decrypted to what it was made from.\<close>

lemma aead_decrypt_form:
  assumes h: "ieee80211_is_data (frame_control d)" "n = ieee80211_hdrlen (frame_control d)" "n < length d"
    and c: "length c = length (drop n d)" "length mic = mic_len" "length pn = 6"
    and f: "f = take n d @ ccmp_pn2hdr pn i @ c @ mic"
  shows "frame_control f = frame_control d" "length f = length d + 8 + mic_len"
    "ccmp_hdr2pn (drop n f) = pn" "take (length f - n - 8 - mic_len) (drop (n + 8) f) = c"
    "drop (length f - mic_len) f = mic" "take (n + 8) f = take n d @ ccmp_pn2hdr pn i"
    "strip_header_mic reason (plain_rx ta f q) n mic_len (take (n + 8) f @ drop n d @ mic) = RxContinue d"
    "ccmp_special_blocks f = ccmp_special_blocks d" "gcmp_special_blocks f = gcmp_special_blocks d"
    "ieee80211_is_frag f = ieee80211_is_frag d"
proof -
  note n = data_hdrlen [OF h(1)]
  show "frame_control f = frame_control d"
    unfolding f using n h(2,3) by (intro frame_control_prefix) simp_all
  show "ccmp_special_blocks f = ccmp_special_blocks d" "gcmp_special_blocks f = gcmp_special_blocks d"
      "ieee80211_is_frag f = ieee80211_is_frag d"
    unfolding f h(2) using h by (intro special_blocks_prefix; simp)+
  show "length f = length d + 8 + mic_len" "take (length f - n - 8 - mic_len) (drop (n + 8) f) = c"
      "drop (length f - mic_len) f = mic" "take (n + 8) f = take n d @ ccmp_pn2hdr pn i"
      "ccmp_hdr2pn (drop n f) = pn"
      "strip_header_mic reason (plain_rx ta f q) n mic_len (take (n + 8) f @ drop n d @ mic) = RxContinue d"
    using h(3) c by (simp_all add: f hdr2pn_pn2hdr(1) strip_header_mic_def plain_rx_def close_gap_def)
qed

lemma fresh_pn:
  assumes "wf_aead_key k" "q < 17" "aead_counter k q < int (unat p mod 2 ^ 48)"
  shows "memcmp (pn_of_u64 p) (rx_pn k ! q) > 0"
proof -
  have "length (rx_pn k ! q) = 6" using assms(1,2) by (simp add: wf_aead_key_def)
  then show ?thesis
    using memcmp_pn_val [of "pn_of_u64 p" "rx_pn k ! q"] assms(3) by (simp add: aead_counter_def pn_val_of_u64)
qed

lemma ccmp_restores:
  assumes law: "aead_law aenc adec mic_len" and skb: "protectable skb"
    and enc: "ccmp_encrypt_skb aenc alloc mic_len k skb = (k', Some skb')"
    and wf: "wf_aead_key r" "q < 17" "aead_counter r q < int (unat (tx_pn k + 1) mod 2 ^ 48)"
    and spp: "KEY_FLAG_SPP_AMSDU (conf_flags r) = KEY_FLAG_SPP_AMSDU (conf_flags k)"
  shows "k' = k\<lparr>tx_pn := tx_pn k + 1\<rparr> \<and>
     ieee80211_crypto_ccmp_decrypt adec mic_len (plain_rx ta (tx_data skb') q) r =
       (r\<lparr>rx_pn := (rx_pn r)[q := pn_of_u64 (tx_pn k + 1)]\<rparr>,
        if ieee80211_is_frag (tx_data skb) then Some (pn_of_u64 (tx_pn k + 1)) else None, RxContinue (tx_data skb))"
proof -
  let ?d = "tx_data skb" and ?pn = "pn_of_u64 (tx_pn k + 1)"
  let ?n = "ieee80211_hdrlen (frame_control ?d)"
  have h: "ieee80211_is_data (frame_control ?d)" "?n < length ?d" "hw_key skb = None"
    using skb by (simp_all add: protectable_def)
  define b where "b = ccmp_special_blocks ?d ?pn (KEY_FLAG_SPP_AMSDU (conf_flags k))"
  obtain c mic where e: "aenc (fst b) (aad_bytes (snd b)) (drop ?n ?d) = Some (c, mic)"
      "k' = k\<lparr>tx_pn := tx_pn k + 1\<rparr>" "tx_data skb' = take ?n ?d @ ccmp_pn2hdr ?pn (keyidx k) @ c @ mic"
    using ccmp_encrypt_form [OF enc h(3)] h special_blocks_prefix(1) [OF h(1)] unfolding b_def by auto
  have c: "length c = length (drop ?n ?d)" "length mic = mic_len" "adec (fst b) (aad_bytes (snd b)) c mic = Some (drop ?n ?d)"
    using law e(1) unfolding aead_law_def by blast+
  have "c \<noteq> []" using c(1) h(2) by auto
  note form = aead_decrypt_form [OF h(1) refl h(2) c(1,2) length_pn_of_u64 e(3)]
  have dec: "(case ccmp_special_blocks ?d ?pn (KEY_FLAG_SPP_AMSDU (conf_flags r)) of
       (b_0, aad) \<Rightarrow> ieee80211_aes_ccm_decrypt adec True b_0 aad c mic) = Some (drop ?n ?d)"
    using c(3) \<open>c \<noteq> []\<close> unfolding b_def spp
    by (simp add: ieee80211_aes_ccm_decrypt_def aead_decrypt_def case_prod_unfold)
  have "ccmp_check adec ?n mic_len (plain_rx ta (tx_data skb') q) r =
      Inr (r\<lparr>rx_pn := (rx_pn r)[q := ?pn]\<rparr>, if ieee80211_is_frag ?d then Some ?pn else None,
        take (?n + 8) (tx_data skb') @ drop ?n ?d @ mic)"
    unfolding ccmp_check_def plain_rx_def Let_def rx_data.simps form(3,4,5,8,10) dec
    using fresh_pn [OF wf] by simp
  then show ?thesis
    unfolding ieee80211_crypto_ccmp_decrypt_def Let_def
    using e(2) h form(1,2) form(7)
    by (simp add: plain_rx_def)
qed

lemma gcmp_restores:
  assumes law: "aead_law aenc adec 16" and skb: "protectable skb"
    and enc: "gcmp_encrypt_skb aenc alloc k skb = (k', Some skb')"
    and wf: "wf_aead_key r" "q < 17" "aead_counter r q < int (unat (tx_pn k + 1) mod 2 ^ 48)"
    and spp: "KEY_FLAG_SPP_AMSDU (conf_flags r) = KEY_FLAG_SPP_AMSDU (conf_flags k)"
  shows "k' = k\<lparr>tx_pn := tx_pn k + 1\<rparr> \<and>
     ieee80211_crypto_gcmp_decrypt adec (plain_rx ta (tx_data skb') q) r =
       (r\<lparr>rx_pn := (rx_pn r)[q := pn_of_u64 (tx_pn k + 1)]\<rparr>,
        if ieee80211_is_frag (tx_data skb) then Some (pn_of_u64 (tx_pn k + 1)) else None, RxContinue (tx_data skb))"
proof -
  let ?d = "tx_data skb" and ?pn = "pn_of_u64 (tx_pn k + 1)"
  let ?n = "ieee80211_hdrlen (frame_control ?d)"
  have h: "ieee80211_is_data (frame_control ?d)" "?n < length ?d" "hw_key skb = None"
    using skb by (simp_all add: protectable_def)
  define b where "b = gcmp_special_blocks ?d ?pn (KEY_FLAG_SPP_AMSDU (conf_flags k))"
  obtain c mic where e: "aenc (fst b) (aad_bytes (snd b)) (drop ?n ?d) = Some (c, mic)"
      "k' = k\<lparr>tx_pn := tx_pn k + 1\<rparr>" "tx_data skb' = take ?n ?d @ ccmp_pn2hdr ?pn (keyidx k) @ c @ mic"
    using gcmp_encrypt_form [OF enc h(3)] h special_blocks_prefix(2) [OF h(1)] unfolding b_def by auto
  have c: "length c = length (drop ?n ?d)" "length mic = 16" "adec (fst b) (aad_bytes (snd b)) c mic = Some (drop ?n ?d)"
    using law e(1) unfolding aead_law_def by blast+
  have "c \<noteq> []" using c(1) h(2) by auto
  note form = aead_decrypt_form [OF h(1) refl h(2) c(1,2) length_pn_of_u64 e(3)]
  have dec: "(case gcmp_special_blocks ?d ?pn (KEY_FLAG_SPP_AMSDU (conf_flags r)) of
       (j_0, aad) \<Rightarrow> ieee80211_aes_gcm_decrypt adec True j_0 aad c mic) = Some (drop ?n ?d)"
    using c(3) \<open>c \<noteq> []\<close> unfolding b_def spp
    by (simp add: ieee80211_aes_gcm_decrypt_def aead_decrypt_def case_prod_unfold)
  have "gcmp_check adec ?n 16 (plain_rx ta (tx_data skb') q) r =
      Inr (r\<lparr>rx_pn := (rx_pn r)[q := ?pn]\<rparr>, if ieee80211_is_frag ?d then Some ?pn else None,
        take (?n + 8) (tx_data skb') @ drop ?n ?d @ mic)"
    unfolding gcmp_check_def plain_rx_def Let_def rx_data.simps length_hdr2pn(2) form(3,4,5,9,10) dec
    using fresh_pn [OF wf] by simp
  then show ?thesis
    unfolding ieee80211_crypto_gcmp_decrypt_def Let_def
    using e(2) h form(1,2) form(7)
    by (simp add: plain_rx_def)
qed

text \<open>Receiving a list of frames on one queue.\<close>

fun receive_all ::
  "(rx_data \<Rightarrow> aead_key \<Rightarrow> aead_key \<times> u8 list option \<times> rx_result) \<Rightarrow> u8 list \<Rightarrow> nat \<Rightarrow> aead_key \<Rightarrow> u8 list list \<Rightarrow>
   aead_key \<times> (u8 list option \<times> rx_result) list"
where
  "receive_all dec ta q r [] = (r, [])"
| "receive_all dec ta q r (f # fs) =
     (let (r, res) = dec (plain_rx ta f q) r; (r, rs) = receive_all dec ta q r fs in (r, res # rs))"

text \<open>The results expected for frames protected from the counter \<open>p\<close> on.\<close>

fun restored :: "u64 \<Rightarrow> u8 list list \<Rightarrow> (u8 list option \<times> rx_result) list" where
  "restored p [] = []"
| "restored p (d # ds) =
     (if ieee80211_is_frag d then Some (pn_of_u64 (p + 1)) else None, RxContinue d) # restored (p + 1) ds"

text \<open>A cipher suite as the two ends of a link use it: under the law of its cipher a single frame is
  restored. Then so is every sequence of frames.\<close>

locale frame_protection =
  fixes law :: bool
    and room :: "tx_skb \<Rightarrow> bool"
    and enc :: "aead_key \<Rightarrow> tx_skb \<Rightarrow> aead_key \<times> tx_skb option"
    and dec :: "rx_data \<Rightarrow> aead_key \<Rightarrow> aead_key \<times> u8 list option \<times> rx_result"
  assumes succeeds: "law \<Longrightarrow> protectable skb \<Longrightarrow> room skb \<Longrightarrow> \<exists>k' skb'. enc k skb = (k', Some skb')"
    and restores:
    "law \<Longrightarrow> protectable skb \<Longrightarrow> enc k skb = (k', Some skb') \<Longrightarrow> wf_aead_key r \<Longrightarrow> q < 17 \<Longrightarrow>
     aead_counter r q < int (unat (tx_pn k + 1) mod 2 ^ 48) \<Longrightarrow>
     KEY_FLAG_SPP_AMSDU (conf_flags r) = KEY_FLAG_SPP_AMSDU (conf_flags k) \<Longrightarrow>
     k' = k\<lparr>tx_pn := tx_pn k + 1\<rparr> \<and>
     dec (plain_rx ta (tx_data skb') q) r =
       (r\<lparr>rx_pn := (rx_pn r)[q := pn_of_u64 (tx_pn k + 1)]\<rparr>,
        if ieee80211_is_frag (tx_data skb) then Some (pn_of_u64 (tx_pn k + 1)) else None, RxContinue (tx_data skb))"
begin

lemma all_restored:
  "law \<Longrightarrow> encrypt_all enc k skbs = (k', Some skbs') \<Longrightarrow> list_all protectable skbs \<Longrightarrow>
   wf_aead_key r \<Longrightarrow> q < 17 \<Longrightarrow> aead_counter r q \<le> int (unat (tx_pn k)) \<Longrightarrow>
   unat (tx_pn k) + length skbs < 2 ^ 48 \<Longrightarrow>
   KEY_FLAG_SPP_AMSDU (conf_flags r) = KEY_FLAG_SPP_AMSDU (conf_flags k) \<Longrightarrow>
   snd (receive_all dec ta q r (map tx_data skbs')) = restored (tx_pn k) (map tx_data skbs)"
proof (induction skbs arbitrary: k k' r skbs')
  case (Cons skb skbs)
  obtain k1 skb1 skbs1 where e: "enc k skb = (k1, Some skb1)" "encrypt_all enc k1 skbs = (k', Some skbs1)" "skbs' = skb1 # skbs1"
    using Cons.prems(2) by (auto split: prod.splits option.splits)
  have u: "unat (tx_pn k + 1) = unat (tx_pn k) + 1"
    using Cons.prems(7) by (simp add: unat_plus_simple word_le_nat_alt unat_word_ariths)
  have lt: "unat (tx_pn k) + 1 < 2 ^ 48" using Cons.prems(7) by simp
  have *: "k1 = k\<lparr>tx_pn := tx_pn k + 1\<rparr> \<and> dec (plain_rx ta (tx_data skb1) q) r =
       (r\<lparr>rx_pn := (rx_pn r)[q := pn_of_u64 (tx_pn k + 1)]\<rparr>,
        if ieee80211_is_frag (tx_data skb) then Some (pn_of_u64 (tx_pn k + 1)) else None, RxContinue (tx_data skb))"
    using Cons.prems e(1) lt by (intro restores) (simp_all add: u)
  let ?r = "r\<lparr>rx_pn := (rx_pn r)[q := pn_of_u64 (tx_pn k + 1)]\<rparr>"
  have "wf_aead_key ?r"
    using Cons.prems(4) by (auto simp: wf_aead_key_def dest!: set_update_subset_insert [THEN subsetD])
  moreover have "aead_counter ?r q \<le> int (unat (tx_pn k1))"
    using Cons.prems(4,5) * lt by (simp add: aead_counter_def wf_aead_key_def pn_val_of_u64 u)
  ultimately have "snd (receive_all dec ta q ?r (map tx_data skbs1)) = restored (tx_pn k1) (map tx_data skbs)"
    using Cons.prems e(2) * u by (intro Cons.IH) simp_all
  then show ?case using e(3) * by (simp add: case_prod_unfold Let_def)
qed simp

lemma all_succeed:
  "law \<Longrightarrow> list_all protectable skbs \<Longrightarrow> list_all room skbs \<Longrightarrow> \<exists>k' skbs'. encrypt_all enc k skbs = (k', Some skbs')"
proof (induction skbs arbitrary: k)
  case (Cons skb skbs)
  then obtain k1 skb1 where "enc k skb = (k1, Some skb1)" using succeeds [of skb k] by auto
  moreover obtain k' skbs' where "encrypt_all enc k1 skbs = (k', Some skbs')"
    using Cons.IH [of k1] Cons.prems by fastforce
  ultimately show ?case by simp
qed simp

theorem link_roundtrip:
  assumes "law" "list_all protectable skbs" "list_all room skbs" "wf_aead_key r" "q < 17"
    "aead_counter r q \<le> int (unat (tx_pn k))" "unat (tx_pn k) + length skbs < 2 ^ 48"
    "KEY_FLAG_SPP_AMSDU (conf_flags r) = KEY_FLAG_SPP_AMSDU (conf_flags k)"
  shows "\<exists>k' skbs'. encrypt_all enc k skbs = (k', Some skbs') \<and>
     snd (receive_all dec ta q r (map tx_data skbs')) = restored (tx_pn k) (map tx_data skbs)"
  using all_succeed [OF assms(1-3), of k] all_restored [OF assms(1) _ assms(2,4-)] by blast

end

text \<open>The cipher never fails on a valid request, and its buffers can be allocated.\<close>

definition aead_total :: "aead_enc \<Rightarrow> bool" where
  "aead_total aenc \<longleftrightarrow> (\<forall>nonce aad p. aenc nonce aad p \<noteq> None)"

definition aead_room :: "nat \<Rightarrow> tx_skb \<Rightarrow> bool" where
  "aead_room mic_len skb \<longleftrightarrow> 8 \<le> headroom skb \<and> mic_len \<le> tailroom skb"

lemma encrypt_skb_succeeds:
  assumes "aead_total aenc" "protectable skb" "aead_room mic_len skb"
  shows "\<exists>k' skb'. ccmp_encrypt_skb aenc True mic_len k skb = (k', Some skb')"
    and "mic_len = 16 \<Longrightarrow> \<exists>k' skb'. gcmp_encrypt_skb aenc True k skb = (k', Some skb')"
proof -
  have "aenc nonce aad p \<noteq> None" for nonce aad p using assms(1) by (simp add: aead_total_def)
  then show "\<exists>k' skb'. ccmp_encrypt_skb aenc True mic_len k skb = (k', Some skb')"
    and "mic_len = 16 \<Longrightarrow> \<exists>k' skb'. gcmp_encrypt_skb aenc True k skb = (k', Some skb')"
    using assms(2,3)
    by (auto simp: protectable_def aead_room_def ccmp_encrypt_skb_def gcmp_encrypt_skb_def hw_no_iv_def
        ieee80211_aes_ccm_encrypt_def ieee80211_aes_gcm_encrypt_def aead_encrypt_def Let_def case_prod_unfold
        split: option.splits)
qed

interpretation ccmp_link: frame_protection "aead_law aenc adec mic_len \<and> aead_total aenc" "aead_room mic_len"
  "ccmp_encrypt_skb aenc True mic_len" "ieee80211_crypto_ccmp_decrypt adec mic_len" for aenc adec mic_len
  using encrypt_skb_succeeds(1) ccmp_restores by unfold_locales blast+

interpretation gcmp_link: frame_protection "aead_law aenc adec 16 \<and> aead_total aenc" "aead_room 16"
  "gcmp_encrypt_skb aenc True" "ieee80211_crypto_gcmp_decrypt adec" for aenc adec
  using encrypt_skb_succeeds(2) gcmp_restores by unfold_locales blast+

lemma set_protected_protectable:
  assumes "list_all protectable skbs"
  shows "list_all protectable (ieee80211_tx_set_protected skbs)"
proof -
  have "2 \<le> length (tx_data skb)" if "protectable skb" for skb
    using that data_hdrlen [of "frame_control (tx_data skb)"] by (simp add: protectable_def)
  then show ?thesis
    using assms by (auto simp: list_all_iff ieee80211_tx_set_protected_def protectable_def fc_set_protected)
qed

lemma set_protected_room: "list_all (aead_room m) (ieee80211_tx_set_protected skbs) = list_all (aead_room m) skbs"
  by (simp add: list_all_iff ieee80211_tx_set_protected_def aead_room_def)

text \<open>C15: Frames protected by the transmit handler of CCMP or GCMP and received in order are all accepted and
  come out as they were, marked protected; a fragment leaves its packet number for the defragmentation.
  The counter of the sender must stay below \<open>2^48\<close>, where the numbers in the headers start again.\<close>

theorem protected_frames_restored:
  assumes "list_all protectable skbs" "wf_aead_key r" "q < 17" "aead_counter r q \<le> int (unat (tx_pn k))"
    "unat (tx_pn k) + length skbs < 2 ^ 48"
    "KEY_FLAG_SPP_AMSDU (conf_flags r) = KEY_FLAG_SPP_AMSDU (conf_flags k)"
    and "aead_law aenc adec mic_len" "aead_total aenc" "list_all (aead_room mic_len) skbs"
    and "aead_law aenc' adec' 16" "aead_total aenc'" "list_all (aead_room 16) skbs"
  shows "(\<exists>k' skbs'. ieee80211_crypto_ccmp_encrypt aenc True mic_len k skbs = (k', Some skbs') \<and>
       snd (receive_all (ieee80211_crypto_ccmp_decrypt adec mic_len) ta q r (map tx_data skbs'))
         = restored (tx_pn k) (map tx_data (ieee80211_tx_set_protected skbs)))
     \<and> (\<exists>k' skbs'. ieee80211_crypto_gcmp_encrypt aenc' True k skbs = (k', Some skbs') \<and>
       snd (receive_all (ieee80211_crypto_gcmp_decrypt adec') ta q r (map tx_data skbs'))
         = restored (tx_pn k) (map tx_data (ieee80211_tx_set_protected skbs)))"
proof -
  have "length (ieee80211_tx_set_protected skbs) = length skbs" by (simp add: ieee80211_tx_set_protected_def)
  note prems = set_protected_protectable [OF assms(1)] _ assms(2-4) _ assms(6)
  show ?thesis
    unfolding ieee80211_crypto_ccmp_encrypt_def ieee80211_crypto_gcmp_encrypt_def
    using ccmp_link.link_roundtrip [OF _ prems, of aenc adec mic_len ta] gcmp_link.link_roundtrip [OF _ prems, of aenc' adec' ta]
      assms(5,7-) \<open>length _ = _\<close> by (simp add: set_protected_room)
qed

lemma toy_law: "aead_law (toy_enc n) (toy_dec n) n" "aead_total (toy_enc n)"
  by (auto simp: aead_law_def aead_total_def toy_enc_def toy_dec_def)

definition toy_skbs :: "tx_skb list" where
  "toy_skbs = map (\<lambda>(fc, sc). \<lparr>tx_data = [0x08, fc] @ take 20 (drop 2 toy_hdr) @ [sc, 0] @ [1, 2, 3],
     headroom = 32, tailroom = 32, hw_key = None\<rparr>) [(0x05, 0x10), (0x05, 0x11), (0x01, 0x12)]"

theorem protected_frames_restored_witness:
  "(\<exists>k' skbs'. ieee80211_crypto_ccmp_encrypt (toy_enc 8) True 8 zero_key toy_skbs = (k', Some skbs') \<and>
     snd (receive_all (ieee80211_crypto_ccmp_decrypt (toy_dec 8) 8) [7, 8, 9, 10, 11, 12] 3 zero_key (map tx_data skbs'))
       = restored 0 (map tx_data (ieee80211_tx_set_protected toy_skbs)))"
proof -
  have "list_all protectable toy_skbs" by code_simp
  moreover have "aead_counter zero_key 3 \<le> int (unat (tx_pn zero_key))" by code_simp
  moreover have "list_all (aead_room 8) toy_skbs" "list_all (aead_room 16) toy_skbs" by code_simp+
  moreover have "unat (tx_pn zero_key) + length toy_skbs < 2 ^ 48" by (simp add: zero_key_def toy_skbs_def)
  moreover have "tx_pn zero_key = 0" by (simp add: zero_key_def)
  ultimately show ?thesis
    using protected_frames_restored [of toy_skbs zero_key 3 zero_key "toy_enc 8" "toy_dec 8" 8 "toy_enc 16" "toy_dec 16"]
      wf_zero_key toy_law by auto
qed


section \<open>Management frames\<close>

lemma ipn_swap_set64: "bip_ipn_swap (bip_ipn_set64 p) = pn_of_u64 p"
  by (simp add: bip_ipn_swap_def bip_ipn_set64_def pn_of_u64_def)

lemma length_mmie: "length ipn = 6 \<Longrightarrow> length (mmie tlen i ipn mic) = 10 + length mic"
  by (simp add: mmie_def)

lemma length_set64 [simp]: "length (bip_ipn_set64 p) = 6"
  by (simp add: bip_ipn_set64_def)

text \<open>The code of the element does not count in the text it is computed from.\<close>

lemma bip_text_append:
  "8 \<le> length p \<Longrightarrow> length mic = tlen \<Longrightarrow>
   bip_text tlen aad (p @ mic)
     = (if ieee80211_is_beacon (frame_control aad) then replicate 8 0 @ drop 8 p else p) @ replicate tlen 0"
  by (simp add: bip_text_def)

lemma bip_text_mmie:
  assumes "length mic = tlen" "length ipn = 6"
  shows "bip_text tlen aad (x @ mmie tlen i ipn mic) = bip_text tlen aad (x @ mmie tlen i ipn (replicate tlen 0))"
proof -
  let ?p = "x @ [WLAN_EID_MMIE, of_nat (tlen + 8)] @ put_le16 (ucast i) @ ipn"
  have "8 \<le> length ?p" using assms(2) by simp
  then show ?thesis
    using bip_text_append [of ?p mic tlen] bip_text_append [of ?p "replicate tlen 0" tlen] assms(1)
    by (simp add: mmie_def)
qed

lemma bip_frame:
  assumes d: "ieee80211_is_mgmt (frame_control d)" "24 \<le> length d" and mic: "length mic = tlen"
    and wf: "wf_bip_key r" "bip_counter r 0 < int (unat p mod 2 ^ 48)"
    and f: "f = d @ mmie tlen i (bip_ipn_set64 p) mic"
  shows "bip_check tlen short (plain_rx ta f q) r = Inl (pn_of_u64 p)" "drop (length f - tlen) f = mic"
    "bip_aad f = bip_aad d" "addr2 f = addr2 d" "take (length f - (tlen + 10)) f = d"
    "bip_text tlen aad (drop 24 f) = bip_text tlen aad (drop 24 d @ mmie tlen i (bip_ipn_set64 p) (replicate tlen 0))"
proof -
  note len = length_mmie [OF length_set64, of tlen i p mic]
  have fc: "frame_control f = frame_control d"
    using d frame_control_prefix [of "length d" d "mmie tlen i (bip_ipn_set64 p) mic"] by (simp add: f)
  have e: "drop (length f - (tlen + 10)) f = mmie tlen i (bip_ipn_set64 p) mic" using len mic by (simp add: f)
  have "drop 4 (mmie tlen i (bip_ipn_set64 p) mic) = bip_ipn_set64 p @ mic" by (simp add: mmie_def put_le16_def)
  then have swap: "bip_ipn_swap (drop 4 (mmie tlen i (bip_ipn_set64 p) mic)) = pn_of_u64 p"
    by (simp add: bip_ipn_swap_def bip_ipn_set64_def pn_of_u64_def)
  have "memcmp (pn_of_u64 p) (bip_rx_pn r) > 0"
    using memcmp_pn_val [of "pn_of_u64 p" "bip_rx_pn r"] wf by (simp add: wf_bip_key_def bip_counter_def pn_val_of_u64)
  moreover have "length f = length d + tlen + 10" using len mic by (simp add: f)
  ultimately show "bip_check tlen short (plain_rx ta f q) r = Inl (pn_of_u64 p)"
    using d e swap by (simp add: bip_check_def plain_rx_def fc Let_def) (simp add: mmie_def)
  show "drop (length f - tlen) f = mic" using mic by (simp add: f mmie_def)
  show "bip_aad f = bip_aad d" "addr2 f = addr2 d"
    using d(2) by (simp_all add: bip_aad_def fc) (simp_all add: f addr2_def)
  show "take (length f - (tlen + 10)) f = d" using len mic by (simp add: f)
  show "bip_text tlen aad (drop 24 f) = bip_text tlen aad (drop 24 d @ mmie tlen i (bip_ipn_set64 p) (replicate tlen 0))"
    using d(2) bip_text_mmie [OF mic length_set64] by (simp add: f)
qed

text \<open>The element the transmit handlers append for a key, and the frame with its code still zero.\<close>

definition bip_elem :: "bip_key \<Rightarrow> nat \<Rightarrow> u8 list \<Rightarrow> u8 list" where
  "bip_elem k tlen mic = mmie tlen (keyidx k) (bip_ipn_set64 (tx_pn k + 1)) mic"

definition bip_unsigned :: "bip_key \<Rightarrow> nat \<Rightarrow> u8 list \<Rightarrow> u8 list" where
  "bip_unsigned k tlen d = d @ bip_elem k tlen (replicate tlen 0)"

lemma bip_add_form:
  assumes "hw_key skb = None" "tlen + 10 \<le> tailroom skb"
  shows "bip_add_mmie tlen k [skb] = Inl (k\<lparr>tx_pn := tx_pn k + 1\<rparr>,
    skb\<lparr>tx_data := bip_unsigned k tlen (tx_data skb), tailroom := tailroom skb - (tlen + 10)\<rparr>)"
  using assms by (simp add: bip_add_mmie_def bip_unsigned_def bip_elem_def Let_def)

lemma put_mic_form: "tx_data (put_mic tlen mic (skb\<lparr>tx_data := bip_unsigned k tlen d, tailroom := t\<rparr>)) = d @ bip_elem k tlen mic"
  by (simp add: put_mic_def bip_unsigned_def bip_elem_def mmie_def)

lemma bip_unsigned_fields:
  assumes "24 \<le> length d"
  shows "bip_aad (bip_unsigned k tlen d) = bip_aad d" "addr2 (bip_unsigned k tlen d) = addr2 d"
    "drop 24 (bip_unsigned k tlen d) = drop 24 d @ bip_elem k tlen (replicate tlen 0)"
proof -
  have "frame_control (d @ x) = frame_control d" for x
    using assms frame_control_prefix [of "length d" d x] by simp
  then show "bip_aad (bip_unsigned k tlen d) = bip_aad d" "addr2 (bip_unsigned k tlen d) = addr2 d"
      "drop 24 (bip_unsigned k tlen d) = drop 24 d @ bip_elem k tlen (replicate tlen 0)"
    using assms by (simp_all add: bip_unsigned_def bip_aad_def addr2_def)
qed

text \<open>One frame through a transmit and a receive handler.\<close>

definition bip_restored ::
  "(bip_key \<Rightarrow> tx_skb list \<Rightarrow> bip_key \<times> tx_skb list option) \<Rightarrow> (rx_data \<Rightarrow> bip_key \<Rightarrow> bip_key \<times> rx_result) \<Rightarrow>
   bip_key \<Rightarrow> bip_key \<Rightarrow> u8 list \<Rightarrow> nat \<Rightarrow> tx_skb \<Rightarrow> bool"
where
  "bip_restored enc dec k r ta q skb \<longleftrightarrow>
     (case enc k [skb] of
        (k', Some [skb']) \<Rightarrow>
          k' = k\<lparr>tx_pn := tx_pn k + 1\<rparr> \<and>
          dec (plain_rx ta (tx_data skb') q) r = (r\<lparr>bip_rx_pn := pn_of_u64 (tx_pn k + 1)\<rparr>, RxContinue (tx_data skb))
      | _ \<Rightarrow> False)"

text \<open>A frame the transmit handlers sign in software, and a receiver whose counter is behind the sender's.\<close>

definition signable :: "bip_key \<Rightarrow> bip_key \<Rightarrow> tx_skb \<Rightarrow> bool" where
  "signable k r skb \<longleftrightarrow>
     ieee80211_is_mgmt (frame_control (tx_data skb)) \<and> 24 \<le> length (tx_data skb) \<and> hw_key skb = None \<and>
     26 \<le> tailroom skb \<and> wf_bip_key r \<and> bip_counter r 0 < int (unat (tx_pn k + 1) mod 2 ^ 48)"

lemma signable_frame:
  assumes "signable k r skb" "length mic = tlen"
  defines "f \<equiv> tx_data skb @ bip_elem k tlen mic"
  shows "bip_check tlen short (plain_rx ta f q) r = Inl (pn_of_u64 (tx_pn k + 1))" "drop (length f - tlen) f = mic"
    "bip_aad f = bip_aad (tx_data skb)" "addr2 f = addr2 (tx_data skb)" "take (length f - (tlen + 10)) f = tx_data skb"
    "bip_text tlen aad (drop 24 f) = bip_text tlen aad (drop 24 (bip_unsigned k tlen (tx_data skb)))"
proof -
  have s: "ieee80211_is_mgmt (frame_control (tx_data skb))" "24 \<le> length (tx_data skb)" "wf_bip_key r"
      "bip_counter r 0 < int (unat (tx_pn k + 1) mod 2 ^ 48)"
    using assms(1) by (simp_all add: signable_def)
  note fr = bip_frame [OF s(1,2) assms(2) s(3,4) f_def [unfolded bip_elem_def, THEN meta_eq_to_obj_eq]]
  show "bip_check tlen short (plain_rx ta f q) r = Inl (pn_of_u64 (tx_pn k + 1))" "drop (length f - tlen) f = mic"
      "bip_aad f = bip_aad (tx_data skb)" "addr2 f = addr2 (tx_data skb)" "take (length f - (tlen + 10)) f = tx_data skb"
      "bip_text tlen aad (drop 24 f) = bip_text tlen aad (drop 24 (bip_unsigned k tlen (tx_data skb)))"
    by (simp_all only: fr bip_unsigned_fields(3) [OF s(2)] bip_elem_def)
qed

lemma cmac_restores:
  assumes s: "signable k r skb" and hash: "\<And>x. length (hash x) = 16"
  shows "bip_restored (ieee80211_crypto_aes_cmac_encrypt hash) (ieee80211_crypto_aes_cmac_decrypt hash) k r ta q skb"
proof -
  define mic where "mic = ieee80211_aes_cmac hash (bip_aad (tx_data skb)) (drop 24 (bip_unsigned k 8 (tx_data skb)))"
  have l: "length mic = 8" using hash by (simp add: mic_def ieee80211_aes_cmac_def)
  note fr = signable_frame [OF s l]
  have "ieee80211_aes_cmac hash (bip_aad (tx_data skb)) (drop 24 (tx_data skb @ bip_elem k 8 mic)) = mic"
    unfolding ieee80211_aes_cmac_def fr(6) by (simp only: mic_def ieee80211_aes_cmac_def)
  then have "ieee80211_crypto_aes_cmac_decrypt hash (plain_rx ta (tx_data skb @ bip_elem k 8 mic) q) r
      = (r\<lparr>bip_rx_pn := pn_of_u64 (tx_pn k + 1)\<rparr>, RxContinue (tx_data skb))"
    unfolding ieee80211_crypto_aes_cmac_decrypt_def fr(1) sum.case bip_accept_def Let_def
    using fr(2,3,5) by (simp add: plain_rx_def)
  then show ?thesis
    using s unfolding bip_restored_def ieee80211_crypto_aes_cmac_encrypt_def signable_def
    by (simp add: bip_add_form put_mic_form bip_unsigned_fields(1) flip: mic_def)
qed

lemma cmac_256_restores:
  assumes s: "signable k r skb" and hash: "\<And>x. length (hash x) = 16"
  shows "bip_restored (ieee80211_crypto_aes_cmac_256_encrypt hash) (ieee80211_crypto_aes_cmac_256_decrypt hash) k r ta q skb"
proof -
  define mic where "mic = ieee80211_aes_cmac_256 hash (bip_aad (tx_data skb)) (drop 24 (bip_unsigned k 16 (tx_data skb)))"
  have l: "length mic = 16" using hash by (simp add: mic_def ieee80211_aes_cmac_256_def)
  note fr = signable_frame [OF s l]
  have "ieee80211_aes_cmac_256 hash (bip_aad (tx_data skb)) (drop 24 (tx_data skb @ bip_elem k 16 mic)) = mic"
    unfolding ieee80211_aes_cmac_256_def fr(6) by (simp only: mic_def ieee80211_aes_cmac_256_def)
  then have "ieee80211_crypto_aes_cmac_256_decrypt hash (plain_rx ta (tx_data skb @ bip_elem k 16 mic) q) r
      = (r\<lparr>bip_rx_pn := pn_of_u64 (tx_pn k + 1)\<rparr>, RxContinue (tx_data skb))"
    unfolding ieee80211_crypto_aes_cmac_256_decrypt_def fr(1) sum.case bip_accept_def Let_def
    using fr(2,3,5) by (simp add: plain_rx_def)
  then show ?thesis
    using s unfolding bip_restored_def ieee80211_crypto_aes_cmac_256_encrypt_def signable_def
    by (simp add: bip_add_form put_mic_form bip_unsigned_fields(1) flip: mic_def)
qed

lemma gmac_restores:
  assumes s: "signable k r skb" and aenc: "\<And>nonce aad. \<exists>c mic. aenc nonce aad [] = Some (c, mic) \<and> length mic = 16"
  shows "bip_restored (ieee80211_crypto_aes_gmac_encrypt aenc True) (ieee80211_crypto_aes_gmac_decrypt aenc) k r ta q skb"
proof -
  let ?d = "tx_data skb"
  let ?z = "bip_unsigned k 16 ?d"
  define nonce where "nonce = addr2 ?d @ pn_of_u64 (tx_pn k + 1)"
  obtain c mic where m: "aenc (nonce @ [0, 0, 0, 1]) (bip_aad ?d @ bip_text 16 (bip_aad ?d) (drop 24 ?z)) [] = Some (c, mic)"
      "length mic = 16" using aenc by blast
  note fr = signable_frame [OF s m(2)]
  have "16 \<le> length (drop 24 ?z)" "16 \<le> length (drop 24 (?d @ bip_elem k 16 mic))"
    using m(2) s by (simp_all add: signable_def bip_unsigned_def bip_elem_def length_mmie)
  then have g: "ieee80211_aes_gmac aenc True (bip_aad ?d) nonce (drop 24 ?z) = Some mic"
      "ieee80211_aes_gmac aenc True (bip_aad ?d) nonce (drop 24 (?d @ bip_elem k 16 mic)) = Some mic"
    unfolding ieee80211_aes_gmac_def fr(6) using m(1) by simp_all
  have "ieee80211_crypto_aes_gmac_decrypt aenc (plain_rx ta (?d @ bip_elem k 16 mic) q) r
      = (r\<lparr>bip_rx_pn := pn_of_u64 (tx_pn k + 1)\<rparr>, RxContinue ?d)"
    unfolding ieee80211_crypto_aes_gmac_decrypt_def fr(1) sum.case bip_accept_def Let_def
    using fr(2,3,4,5) g(2) by (simp add: plain_rx_def nonce_def)
  then show ?thesis
    using s g(1) unfolding bip_restored_def ieee80211_crypto_aes_gmac_encrypt_def signable_def
    by (simp add: bip_add_form put_mic_form bip_unsigned_fields(1,2) ipn_swap_set64 flip: nonce_def)
qed

text \<open>A management frame to which the transmit handler of one of the three codes has added its element is
  accepted by the receive handler of the same code, which removes the element and stores the packet
  number. Of the ciphers only the lengths of their outputs are used.\<close>

theorem bip_roundtrip:
  assumes "signable k r skb" "\<And>x. length (hash x) = 16"
    and "\<And>nonce aad. \<exists>c mic. aenc nonce aad [] = Some (c, mic) \<and> length mic = 16"
  shows "bip_restored (ieee80211_crypto_aes_cmac_encrypt hash) (ieee80211_crypto_aes_cmac_decrypt hash) k r ta q skb \<and>
     bip_restored (ieee80211_crypto_aes_cmac_256_encrypt hash) (ieee80211_crypto_aes_cmac_256_decrypt hash) k r ta q skb \<and>
     bip_restored (ieee80211_crypto_aes_gmac_encrypt aenc True) (ieee80211_crypto_aes_gmac_decrypt aenc) k r ta q skb"
  by (intro conjI cmac_restores cmac_256_restores gmac_restores assms)

definition toy_deauth :: tx_skb where
  "toy_deauth = \<lparr>tx_data = [0xc0, 0] @ drop 2 toy_hdr @ [1, 0], headroom = 0, tailroom = 26, hw_key = None\<rparr>"

theorem bip_roundtrip_witness:
  "signable zero_bip_key zero_bip_key toy_deauth \<and>
   bip_restored (ieee80211_crypto_aes_gmac_encrypt (toy_enc 16) True) (ieee80211_crypto_aes_gmac_decrypt (toy_enc 16))
     zero_bip_key zero_bip_key [7, 8, 9, 10, 11, 12] 0 toy_deauth"
proof -
  have s: "signable zero_bip_key zero_bip_key toy_deauth"
    unfolding signable_def
  proof (intro conjI)
    have "bip_counter zero_bip_key 0 = 0" "tx_pn zero_bip_key + 1 = 1" by code_simp+
    then show "bip_counter zero_bip_key 0 < int (unat (tx_pn zero_bip_key + 1) mod 2 ^ 48)" by simp
  qed code_simp+
  from bip_roundtrip [OF this, of "\<lambda>_. replicate 16 0" "toy_enc 16"] s show ?thesis
    by (simp add: toy_enc_def)
qed

end
