(* ===== verification/Wep.thy ===== *)
theory Wep
  imports Key
begin

text \<open>
  WEP, net/mac80211/wep.c. \<open>arc4\<close> stands for \<open>arc4_setkey\<close> followed by \<open>arc4_crypt\<close>, \<open>crc\<close> for \<open>crc32_le\<close>,
  both of the kernel's library. TKIP uses the two functions on the payload as well.
\<close>

type_synonym arc4 = "u8 list \<Rightarrow> u8 list \<Rightarrow> u8 list"
type_synonym crc32 = "u32 \<Rightarrow> u8 list \<Rightarrow> u32"

abbreviation (input) IEEE80211_WEP_IV_LEN :: nat where "IEEE80211_WEP_IV_LEN \<equiv> 4"
abbreviation (input) IEEE80211_WEP_ICV_LEN :: nat where "IEEE80211_WEP_ICV_LEN \<equiv> 4"


section \<open>Initialisation vectors\<close>

definition ieee80211_wep_weak_iv :: "u32 \<Rightarrow> nat \<Rightarrow> bool" where
  "ieee80211_wep_weak_iv iv keylen =
     (if iv AND 0xff00 = 0xff00 then
        (let B = unat (drop_bit 16 iv AND 0xff) in B \<ge> 3 \<and> B < 3 + keylen)
      else False)"

text \<open>The new value of \<open>local->wep_iv\<close> and the four bytes in front of the payload.\<close>

definition ieee80211_wep_get_iv :: "u32 \<Rightarrow> nat \<Rightarrow> u8 \<Rightarrow> u32 \<times> u8 list" where
  "ieee80211_wep_get_iv wep_iv keylen key_idx =
     (let iv = wep_iv + 1; iv = (if ieee80211_wep_weak_iv iv keylen then iv + 0x0100 else iv)
      in (iv, [ucast (drop_bit 16 iv AND 0xff), ucast (drop_bit 8 iv AND 0xff), ucast (iv AND 0xff), push_bit 6 key_idx]))"

text \<open>The room for the vector and, unless the hardware fills it in, the vector itself.\<close>

definition ieee80211_wep_add_iv :: "u32 \<Rightarrow> nat \<Rightarrow> u8 \<Rightarrow> tx_skb \<Rightarrow> u32 \<times> tx_skb option" where
  "ieee80211_wep_add_iv wep_iv keylen key_idx skb =
     (let data = set_fc (frame_control (tx_data skb) OR IEEE80211_FCTL_PROTECTED) (tx_data skb)
      in if headroom skb < IEEE80211_WEP_IV_LEN then (wep_iv, None)
         else
           let hdrlen = ieee80211_hdrlen (frame_control data);
               skb = skb\<lparr>headroom := headroom skb - IEEE80211_WEP_IV_LEN\<rparr>
           in if (case hw_key skb of None \<Rightarrow> False | Some fl \<Rightarrow> KEY_FLAG_PUT_IV_SPACE fl) then
                (wep_iv, Some (skb\<lparr>tx_data := open_gap IEEE80211_WEP_IV_LEN hdrlen data\<rparr>))
              else
                let (wep_iv, iv) = ieee80211_wep_get_iv wep_iv keylen key_idx
                in (wep_iv, Some (skb\<lparr>tx_data := take hdrlen data @ iv @ drop hdrlen data\<rparr>)))"

definition ieee80211_wep_remove_iv :: "u8 list \<Rightarrow> u8 list" where
  "ieee80211_wep_remove_iv skb = close_gap IEEE80211_WEP_IV_LEN (ieee80211_hdrlen (frame_control skb)) skb"


section \<open>Payload\<close>

definition ieee80211_wep_encrypt_data :: "arc4 \<Rightarrow> crc32 \<Rightarrow> u8 list \<Rightarrow> u8 list \<Rightarrow> u8 list" where
  "ieee80211_wep_encrypt_data arc4 crc rc4key data = arc4 rc4key (data @ put_le32 (NOT (crc (NOT 0) data)))"

text \<open>\<open>data\<close> includes the checksum. The result: whether the checksum is right, and the buffer.\<close>

definition ieee80211_wep_decrypt_data :: "arc4 \<Rightarrow> crc32 \<Rightarrow> u8 list \<Rightarrow> u8 list \<Rightarrow> bool \<times> u8 list" where
  "ieee80211_wep_decrypt_data arc4 crc rc4key data =
     (let p = arc4 rc4key data; data_len = length data - IEEE80211_WEP_ICV_LEN
      in (put_le32 (NOT (crc (NOT 0) (take data_len p))) = drop data_len p, p))"


section \<open>Handlers\<close>

definition ieee80211_wep_encrypt :: "arc4 \<Rightarrow> crc32 \<Rightarrow> u8 list \<Rightarrow> u8 \<Rightarrow> u32 \<Rightarrow> tx_skb \<Rightarrow> u32 \<times> tx_skb option" where
  "ieee80211_wep_encrypt arc4 crc key key_idx wep_iv skb =
     (if tailroom skb < IEEE80211_WEP_ICV_LEN then (wep_iv, None)
      else
        case ieee80211_wep_add_iv wep_iv (length key) key_idx skb of
          (wep_iv, None) \<Rightarrow> (wep_iv, None)
        | (wep_iv, Some skb) \<Rightarrow>
            let data = tx_data skb; iv = ieee80211_hdrlen (frame_control data); rc4key = take 3 (drop iv data) @ key
            in (wep_iv, Some (skb\<lparr>tx_data := take (iv + IEEE80211_WEP_IV_LEN) data @
                   ieee80211_wep_encrypt_data arc4 crc rc4key (drop (iv + IEEE80211_WEP_IV_LEN) data),
                   tailroom := tailroom skb - IEEE80211_WEP_ICV_LEN\<rparr>)))"

definition wep_encrypt_skb :: "arc4 \<Rightarrow> crc32 \<Rightarrow> u8 list \<Rightarrow> u8 \<Rightarrow> u32 \<Rightarrow> tx_skb \<Rightarrow> u32 \<times> tx_skb option" where
  "wep_encrypt_skb arc4 crc key key_idx wep_iv skb =
     (case hw_key skb of
        None \<Rightarrow> ieee80211_wep_encrypt arc4 crc key key_idx wep_iv skb
      | Some fl \<Rightarrow>
          if KEY_FLAG_GENERATE_IV fl \<or> KEY_FLAG_PUT_IV_SPACE fl then ieee80211_wep_add_iv wep_iv (length key) key_idx skb
          else (wep_iv, Some skb))"

definition ieee80211_crypto_wep_encrypt ::
  "arc4 \<Rightarrow> crc32 \<Rightarrow> u8 list \<Rightarrow> u8 \<Rightarrow> u32 \<Rightarrow> tx_skb list \<Rightarrow> u32 \<times> tx_skb list option"
where
  "ieee80211_crypto_wep_encrypt arc4 crc key key_idx wep_iv skbs =
     encrypt_all (wep_encrypt_skb arc4 crc key key_idx) wep_iv (ieee80211_tx_set_protected skbs)"

text \<open>\<open>Inl\<close> when nothing was done to the buffer; otherwise whether the checksum was right, and the payload
  without vector and checksum.\<close>

definition ieee80211_wep_decrypt :: "arc4 \<Rightarrow> crc32 \<Rightarrow> key_conf option \<Rightarrow> u8 list \<Rightarrow> unit + (bool \<times> u8 list)" where
  "ieee80211_wep_decrypt arc4 crc key skb =
     (let fc = frame_control skb; hdrlen = ieee80211_hdrlen fc
      in if \<not> ieee80211_has_protected fc then Inl ()
         else if length skb < hdrlen + IEEE80211_WEP_IV_LEN + IEEE80211_WEP_ICV_LEN then Inl ()
         else
           case key of
             None \<Rightarrow> Inl ()
           | Some k \<Rightarrow>
               if drop_bit 6 (skb ! (hdrlen + 3)) \<noteq> keyidx k then Inl ()
               else
                 let rc4key = take 3 (drop hdrlen skb) @ key_bytes k;
                     (ok, p) = ieee80211_wep_decrypt_data arc4 crc rc4key (drop (hdrlen + IEEE80211_WEP_IV_LEN) skb);
                     skb = take (hdrlen + IEEE80211_WEP_IV_LEN) skb @ p;
                     skb = take (length skb - IEEE80211_WEP_ICV_LEN) skb
                 in Inr (ok, close_gap IEEE80211_WEP_IV_LEN hdrlen skb))"

definition ieee80211_crypto_wep_decrypt :: "arc4 \<Rightarrow> crc32 \<Rightarrow> key_conf option \<Rightarrow> rx_data \<Rightarrow> rx_result" where
  "ieee80211_crypto_wep_decrypt arc4 crc key rx =
     (let skb = rx_skb rx; fc = frame_control skb
      in if \<not> ieee80211_is_data fc \<and> \<not> ieee80211_is_auth fc then RxContinue skb
         else if \<not> RX_FLAG_DECRYPTED rx then
           (if \<not> linearize_ok rx then RxDrop RX_DROP_U_OOM
            else case ieee80211_wep_decrypt arc4 crc key skb of
                   Inr (True, p) \<Rightarrow> RxContinue p
                 | _ \<Rightarrow> RxDrop RX_DROP_U_WEP_DEC_FAIL)
         else if \<not> RX_FLAG_IV_STRIPPED rx then
           (if length skb < ieee80211_hdrlen fc + IEEE80211_WEP_IV_LEN then RxDrop RX_DROP_U_NO_IV
            else
              let skb = ieee80211_wep_remove_iv skb
              in if RX_FLAG_ICV_STRIPPED rx then RxContinue skb
                 else if \<not> trim_ok rx then RxDrop RX_DROP_U_NO_ICV
                 else RxContinue (take (length skb - IEEE80211_WEP_ICV_LEN) skb))
         else RxContinue skb)"


section \<open>Properties\<close>

text \<open>What the handlers rely on of RC4: it keeps the length and is its own inverse for a key.\<close>

definition arc4_law :: "arc4 \<Rightarrow> bool" where
  "arc4_law arc4 \<longleftrightarrow> (\<forall>k x. length (arc4 k x) = length x \<and> arc4 k (arc4 k x) = x)"

lemma wep_data_roundtrip:
  assumes "arc4_law arc4"
  shows "ieee80211_wep_decrypt_data arc4 crc k (ieee80211_wep_encrypt_data arc4 crc k data)
       = (True, data @ put_le32 (NOT (crc (NOT 0) data)))"
    and "length (ieee80211_wep_encrypt_data arc4 crc k data) = length data + 4"
  using assms by (simp_all add: arc4_law_def ieee80211_wep_decrypt_data_def ieee80211_wep_encrypt_data_def Let_def)

lemma byte_field: "unat (iv AND 0xff00 :: u32) = unat iv div 256 mod 256 * 256"
proof -
  have m: "(0xff00 :: u32) = push_bit 8 (mask 8)" by (simp add: mask_eq_exp_minus_1)
  have "iv AND 0xff00 = push_bit 8 (drop_bit 8 iv AND mask 8)"
    unfolding m by (rule bit_word_eqI) (auto simp: bit_simps)
  moreover have "unat (drop_bit 8 iv AND mask 8) = unat iv div 256 mod 256"
    using unat_and_mask [of "drop_bit 8 iv" 8] unat_drop_bit [of 8 iv] by simp
  moreover have "unat iv div 256 mod 256 * 256 < 2 ^ 32" using mod_less_divisor [of 256 "unat iv div 256"] by simp
  ultimately show ?thesis
    by (simp add: push_bit_eq_mult unat_word_ariths)
qed

text \<open>No initialisation vector is ever of the weak kind, whatever counter and key length: skipping 256
  values once is enough.\<close>

theorem wep_iv_never_weak:
  "\<not> ieee80211_wep_weak_iv (fst (ieee80211_wep_get_iv wep_iv keylen key_idx)) keylen"
proof (cases "ieee80211_wep_weak_iv (wep_iv + 1) keylen")
  case True
  define v where "v = wep_iv + 1"
  have "unat (v AND 0xff00) = unat (0xff00 :: u32)"
    using True by (simp add: ieee80211_wep_weak_iv_def v_def split: if_splits)
  then have v: "unat v div 256 mod 256 = 255" by (simp add: byte_field)
  have "unat (v + 0x100) = (unat v + 256) mod 2 ^ 32" by (simp add: unat_word_ariths)
  moreover have "(n + 256) mod 2 ^ 32 div 256 mod 256 = (n div 256 + 1) mod 256" for n :: nat
  proof -
    have "(n + 256) mod (256 * 2 ^ 24) div 256 = (n + 256) div 256 mod 2 ^ 24"
      by (rule mod_mult_div)
    moreover have "(n + 256) div 256 = n div 256 + 1" by simp
    ultimately show ?thesis by (simp add: mod_mod_cancel)
  qed
  ultimately have "unat (v + 0x100) div 256 mod 256 = (unat v div 256 mod 256 + 1) mod 256"
    by (simp add: mod_Suc_eq)
  then have "unat ((v + 0x100) AND 0xff00) = 0" by (simp add: byte_field v)
  then have "(v + 0x100) AND 0xff00 = 0" by (simp add: unat_eq_0)
  then have "\<not> ieee80211_wep_weak_iv (v + 0x100) keylen" by (simp add: ieee80211_wep_weak_iv_def)
  then show ?thesis using True by (simp add: ieee80211_wep_get_iv_def Let_def v_def)
qed (simp add: ieee80211_wep_get_iv_def Let_def)

text \<open>A frame WEP protects in software.\<close>

definition wep_protectable :: "tx_skb \<Rightarrow> bool" where
  "wep_protectable skb \<longleftrightarrow>
     hw_key skb = None \<and> 4 \<le> headroom skb \<and> 4 \<le> tailroom skb \<and>
     (ieee80211_is_data (frame_control (tx_data skb)) \<or> ieee80211_is_auth (frame_control (tx_data skb))) \<and>
     ieee80211_hdrlen (frame_control (tx_data skb)) \<le> length (tx_data skb)"

lemma key_idx_bits: "k < 4 \<Longrightarrow> drop_bit 6 (push_bit 6 k :: u8) = k"
proof -
  assume "k < 4"
  then have "unat k < 2 ^ 2" by (simp add: word_less_nat_alt)
  then show ?thesis
    using high_bits [of k 2] by (intro bit_word_eqI) (auto simp: bit_simps not_less [symmetric])
qed

lemma wep_restores:
  assumes law: "arc4_law arc4" and k: "keyidx k < 4"
    and skb: "wep_protectable skb" "ieee80211_has_protected (frame_control (tx_data skb))"
  shows "\<exists>iv' skb'. wep_encrypt_skb arc4 crc (key_bytes k) (keyidx k) iv skb = (iv', Some skb') \<and>
     ieee80211_crypto_wep_decrypt arc4 crc (Some k) (plain_rx ta (tx_data skb') q) = RxContinue (tx_data skb)"
proof -
  let ?d = "tx_data skb"
  let ?n = "ieee80211_hdrlen (frame_control ?d)"
  obtain iv' vec where v: "ieee80211_wep_get_iv iv (length (key_bytes k)) (keyidx k) = (iv', vec)" by fastforce
  then have vec: "length vec = 4" "drop_bit 6 (vec ! 3) = keyidx k"
    by (auto simp: ieee80211_wep_get_iv_def Let_def key_idx_bits [OF k])
  have n: "2 \<le> ?n" "?n \<le> length ?d" and hw: "hw_key skb = None" and h: "4 \<le> headroom skb" "4 \<le> tailroom skb"
    using skb(1) hdrlen_ge [of "frame_control ?d"] by (simp_all add: wep_protectable_def)
  have add: "ieee80211_wep_add_iv iv (length (key_bytes k)) (keyidx k) skb
      = (iv', Some (skb\<lparr>headroom := headroom skb - 4, tx_data := take ?n ?d @ vec @ drop ?n ?d\<rparr>))"
    using n hw h(1) v by (simp add: ieee80211_wep_add_iv_def protected_or(1) [OF skb(2)] Let_def)
  define c where "c = ieee80211_wep_encrypt_data arc4 crc (take 3 vec @ key_bytes k) (drop ?n ?d)"
  define f where "f = take ?n ?d @ vec @ c"
  have fc: "frame_control (take ?n ?d @ x) = frame_control ?d" for x using n by (rule frame_control_prefix)
  have enc: "wep_encrypt_skb arc4 crc (key_bytes k) (keyidx k) iv skb
      = (iv', Some (skb\<lparr>headroom := headroom skb - 4, tx_data := f, tailroom := tailroom skb - 4\<rparr>))"
    unfolding wep_encrypt_skb_def hw option.case ieee80211_wep_encrypt_def add using n h vec(1)
    by (simp add: Let_def fc f_def c_def)
  note c = wep_data_roundtrip [OF law, of crc "take 3 vec @ key_bytes k" "drop ?n ?d", folded c_def]
  have "f ! (?n + 3) = vec ! 3" using n vec(1) by (simp add: f_def nth_append)
  then have "ieee80211_wep_decrypt arc4 crc (Some k) f = Inr (True, ?d)"
    using n vec c skb(2) fc [of "vec @ c", folded f_def]
    by (simp add: ieee80211_wep_decrypt_def Let_def) (simp add: f_def close_gap_def)
  then show ?thesis
    using enc skb(1) fc [of "vec @ c", folded f_def]
    by (auto simp: ieee80211_crypto_wep_decrypt_def plain_rx_def wep_protectable_def)
qed

text \<open>Frames encrypted with WEP come out of the receive handler as they were, marked protected; and the
  transmit handler always succeeds when the buffers have room.\<close>

theorem wep_roundtrip:
  assumes "arc4_law arc4" "keyidx k < 4" "list_all wep_protectable skbs"
  shows "\<exists>iv' skbs'. ieee80211_crypto_wep_encrypt arc4 crc (key_bytes k) (keyidx k) iv skbs = (iv', Some skbs') \<and>
     map (\<lambda>skb. ieee80211_crypto_wep_decrypt arc4 crc (Some k) (plain_rx ta (tx_data skb) q)) skbs'
       = map (\<lambda>skb. RxContinue (tx_data skb)) (ieee80211_tx_set_protected skbs)"
  using assms(3) unfolding ieee80211_crypto_wep_encrypt_def ieee80211_tx_set_protected_def
proof (induction skbs arbitrary: iv)
  case (Cons skb skbs)
  let ?p = "skb\<lparr>tx_data := set_fc (frame_control (tx_data skb) OR 0x4000) (tx_data skb)\<rparr>"
  have "2 \<le> length (tx_data skb)"
    using Cons.prems hdrlen_ge [of "frame_control (tx_data skb)"] by (simp add: wep_protectable_def)
  then have "wep_protectable ?p" "ieee80211_has_protected (frame_control (tx_data ?p))"
    using Cons.prems
    by (simp_all add: wep_protectable_def fc_set_protected protected_or(2) ieee80211_is_auth_def and_or_disjoint)
  from wep_restores [OF assms(1,2) this, of crc iv ta q] obtain iv1 skb1 where
    1: "wep_encrypt_skb arc4 crc (key_bytes k) (keyidx k) iv ?p = (iv1, Some skb1)"
      "ieee80211_crypto_wep_decrypt arc4 crc (Some k) (plain_rx ta (tx_data skb1) q) = RxContinue (tx_data ?p)"
    by blast
  from Cons.IH [of iv1] Cons.prems 1 show ?case by fastforce
qed simp

definition toy_arc4 :: arc4 where
  "toy_arc4 k x = map (\<lambda>b. b XOR foldl (+) 0 k) x"

definition toy_crc :: crc32 where
  "toy_crc s x = foldl (\<lambda>a b. a + ucast b) s x"

definition wep_toy_skb :: tx_skb where
  "wep_toy_skb = \<lparr>tx_data = [0x08, 0x01, 0, 0, 1, 2, 3, 4, 5, 6, 7, 8, 9, 10, 11, 12, 13, 14, 15, 16, 17, 18, 0x10, 0, 0xaa, 0xbb],
     headroom = 8, tailroom = 8, hw_key = None\<rparr>"

definition wep_toy_key :: key_conf where
  "wep_toy_key = \<lparr>key_bytes = [1, 2, 3, 4, 5], keyidx = 2, conf_flags = no_key_flags, tx_pn = 0\<rparr>"

lemma toy_arc4_law: "arc4_law toy_arc4"
  by (auto simp: arc4_law_def toy_arc4_def comp_def xor.assoc intro!: map_idI)

theorem wep_roundtrip_witness:
  "\<exists>iv' skbs'. ieee80211_crypto_wep_encrypt toy_arc4 toy_crc (key_bytes wep_toy_key) (keyidx wep_toy_key) 0x03feff [wep_toy_skb]
      = (iv', Some skbs') \<and>
     map (\<lambda>skb. ieee80211_crypto_wep_decrypt toy_arc4 toy_crc (Some wep_toy_key) (plain_rx [] (tx_data skb) 0)) skbs'
       = map (\<lambda>skb. RxContinue (tx_data skb)) (ieee80211_tx_set_protected [wep_toy_skb])"
proof (rule wep_roundtrip [OF toy_arc4_law])
  show "keyidx wep_toy_key < 4" by code_simp
  show "list_all wep_protectable [wep_toy_skb]" by code_simp
qed

end
