(* ===== verification/Michael.thy ===== *)
theory Michael
  imports Frame
begin

text \<open>
  The Michael message integrity code of TKIP, net/mac80211/michael.c, and a reference definition of the
  code as the standard gives it: over the padded message DA, SA, priority, three zero bytes, data, split
  into 32-bit little-endian words. The C code never builds that message: it feeds the pseudo header word
  by word and folds the last one to three bytes into the padding.
\<close>

definition rol32 :: "u32 \<Rightarrow> nat \<Rightarrow> u32" where
  "rol32 x n = push_bit n x OR drop_bit (32 - n) x"

definition ror32 :: "u32 \<Rightarrow> nat \<Rightarrow> u32" where
  "ror32 x n = drop_bit n x OR push_bit (32 - n) x"


section \<open>The code\<close>

record michael_mic_ctx =
  mic_l :: u32
  mic_r :: u32

definition michael_block :: "u32 \<Rightarrow> michael_mic_ctx \<Rightarrow> michael_mic_ctx" where
  "michael_block val mctx =
     (let l = mic_l mctx XOR val;
          r = mic_r mctx XOR rol32 l 17;
          l = l + r;
          r = r XOR (drop_bit 8 (l AND 0xff00ff00) OR push_bit 8 (l AND 0x00ff00ff));
          l = l + r;
          r = r XOR rol32 l 3;
          l = l + r;
          r = r XOR ror32 l 2;
          l = l + r
      in \<lparr>mic_l = l, mic_r = r\<rparr>)"

definition michael_mic_hdr :: "u8 list \<Rightarrow> hdr \<Rightarrow> michael_mic_ctx" where
  "michael_mic_hdr key h =
     (let da = ieee80211_get_DA h; sa = ieee80211_get_SA h;
          tid = (if ieee80211_is_data_qos (frame_control h) then ieee80211_get_tid h else 0);
          mctx = \<lparr>mic_l = get_le32 key 0, mic_r = get_le32 key 4\<rparr>;
          mctx = michael_block (get_le32 da 0) mctx;
          mctx = michael_block (ucast (get_le16 da 4) OR push_bit 16 (ucast (get_le16 sa 0))) mctx;
          mctx = michael_block (get_le32 sa 2) mctx
      in michael_block (ucast tid) mctx)"

text \<open>The \<open>for\<close> loop over the whole words, and the \<open>while\<close> loop over the bytes left.\<close>

definition michael_words :: "u8 list \<Rightarrow> nat \<Rightarrow> michael_mic_ctx \<Rightarrow> michael_mic_ctx" where
  "michael_words data blocks mctx = fold (\<lambda>block. michael_block (get_le32 data (block * 4))) [0..<blocks] mctx"

fun michael_tail :: "u8 list \<Rightarrow> nat \<Rightarrow> nat \<Rightarrow> u32 \<Rightarrow> u32" where
  "michael_tail data base 0 val = val"
| "michael_tail data base (Suc left) val = michael_tail data base left (push_bit 8 val OR ucast (data ! (base + left)))"

definition michael_mic :: "u8 list \<Rightarrow> hdr \<Rightarrow> u8 list \<Rightarrow> u8 list" where
  "michael_mic key h data =
     (let blocks = length data div 4; left = length data mod 4;
          mctx = michael_words data blocks (michael_mic_hdr key h);
          val = michael_tail data (blocks * 4) left 0x5a;
          mctx = michael_block 0 (michael_block val mctx)
      in put_le32 (mic_l mctx) @ put_le32 (mic_r mctx))"


section \<open>The reference\<close>

fun le32_words :: "u8 list \<Rightarrow> u32 list" where
  "le32_words (a # b # c # d # bs) = le32 a b c d # le32_words bs"
| "le32_words _ = []"

definition michael_pad :: "u8 list \<Rightarrow> u8 list" where
  "michael_pad m = m @ 0x5a # replicate (7 - length m mod 4) 0"

definition michael_spec :: "u8 list \<Rightarrow> u8 list \<Rightarrow> u8 list" where
  "michael_spec key m =
     (let mctx = fold michael_block (le32_words (michael_pad m)) \<lparr>mic_l = get_le32 key 0, mic_r = get_le32 key 4\<rparr>
      in put_le32 (mic_l mctx) @ put_le32 (mic_r mctx))"

text \<open>The pseudo header of a frame.\<close>

definition michael_pseudo_header :: "hdr \<Rightarrow> u8 list" where
  "michael_pseudo_header h =
     ieee80211_get_DA h @ ieee80211_get_SA h @
     [if ieee80211_is_data_qos (frame_control h) then ieee80211_get_tid h else 0, 0, 0, 0]"


section \<open>Facts\<close>

lemma length_michael_mic [simp]: "length (michael_mic key h data) = 8"
  by (simp add: michael_mic_def Let_def)

lemma le32_words_append: "4 dvd length xs \<Longrightarrow> le32_words (xs @ ys) = le32_words xs @ le32_words ys"
proof (induction xs rule: le32_words.induct)
  case (1 a b c d bs)
  then have "4 dvd length bs" unfolding list.size by presburger
  with 1 show ?case by simp
qed (simp_all, presburger+)

lemma michael_pad_append:
  "4 dvd length xs \<Longrightarrow> michael_pad (xs @ ys) = xs @ michael_pad ys"
  by (auto simp: michael_pad_def mod_add_left_eq elim!: dvdE)

lemma le32_words_take:
  "4 * n \<le> length xs \<Longrightarrow> le32_words (take (4 * n) xs) = map (\<lambda>i. get_le32 xs (i * 4)) [0..<n]"
proof (induction n)
  case (Suc n)
  have "take (4 * Suc n) xs = take (4 * n) xs @ [xs ! (4 * n), xs ! (4 * n + 1), xs ! (4 * n + 2), xs ! (4 * n + 3)]"
    using Suc.prems by (simp add: take_Suc_conv_app_nth add.commute numeral_eq_Suc)
  then show ?case using Suc by (simp add: le32_words_append get_le32_def mult.commute)
qed simp

lemma short_list_cases:
  assumes "length xs < 4"
  obtains "xs = []" | a where "xs = [a]" | a b where "xs = [a, b]" | a b c where "xs = [a, b, c]"
proof -
  from assms consider "length xs = 0" | "length xs = Suc 0" | "length xs = Suc (Suc 0)"
    | "length xs = Suc (Suc (Suc 0))" by linarith
  then show thesis using that by cases (auto simp: length_Suc_conv)
qed

lemma michael_tail_shift:
  "michael_tail (xs @ ys) (length xs) n val = michael_tail ys 0 n val"
  by (induction n arbitrary: val) simp_all

lemma zeros: "replicate 7 x = [x, x, x, x, x, x, x]" "replicate 6 x = [x, x, x, x, x, x]"
    "replicate 5 x = [x, x, x, x, x]" "replicate 4 x = [x, x, x, x]"
  by (simp_all add: numeral_eq_Suc)

lemma le32_words_pad_short:
  assumes "length ys < 4"
  shows "le32_words (michael_pad ys) = [michael_tail ys 0 (length ys) 0x5a, 0]"
  using assms
proof (cases rule: short_list_cases)
  case (4 a b c)
  then show ?thesis
    by (simp add: michael_pad_def le32_def push_bit_or zeros or.assoc or.commute or.left_commute)
qed (simp_all add: michael_pad_def le32_def push_bit_or zeros or.assoc or.commute or.left_commute)

lemma length_6:
  assumes "length xs = 6"
  obtains a b c d e f where "xs = [a, b, c, d, e, f]"
  using assms by (auto simp: numeral_eq_Suc length_Suc_conv)

lemma le32_words_pseudo:
  assumes "length da = 6" "length sa = 6"
  shows "le32_words (da @ sa @ [t, 0, 0, 0])
       = [get_le32 da 0, ucast (get_le16 da 4) OR push_bit 16 (ucast (get_le16 sa 0)), get_le32 sa 2, ucast t]"
proof -
  obtain a b c d e f where da: "da = [a, b, c, d, e, f]" using length_6 [OF assms(1)] .
  obtain g h i j k l where sa: "sa = [g, h, i, j, k, l]" using length_6 [OF assms(2)] .
  have "le32 e f g h = ucast (le16 e f) OR push_bit 16 (ucast (le16 g h))"
    by (rule bit_word_eqI) (auto simp: le32_def le16_def bit_simps)
  moreover have "le32 t 0 0 0 = ucast t" by (simp add: le32_def)
  ultimately show ?thesis by (simp add: da sa get_le32_def get_le16_def)
qed

lemma length_DA_SA:
  assumes "ieee80211_is_data (frame_control h)" "ieee80211_hdrlen (frame_control h) \<le> length h"
  shows "length (ieee80211_get_DA h) = 6" "length (ieee80211_get_SA h) = 6"
  using assms
  by (auto simp: ieee80211_get_DA_def ieee80211_get_SA_def addr1_def addr2_def addr3_def addr4_def
      ieee80211_hdrlen_def ieee80211_is_data_def ieee80211_is_ext_def split: if_splits)

lemma michael_mic_hdr_fold:
  assumes "ieee80211_is_data (frame_control h)" "ieee80211_hdrlen (frame_control h) \<le> length h"
  shows "michael_mic_hdr key h
       = fold michael_block (le32_words (michael_pseudo_header h)) \<lparr>mic_l = get_le32 key 0, mic_r = get_le32 key 4\<rparr>"
  unfolding michael_pseudo_header_def le32_words_pseudo [OF length_DA_SA [OF assms]]
  by (simp add: michael_mic_hdr_def Let_def)

lemma michael_words_fold:
  "4 * n \<le> length data \<Longrightarrow> michael_words data n mctx = fold michael_block (le32_words (take (4 * n) data)) mctx"
  by (simp add: michael_words_def le32_words_take fold_map comp_def)

text \<open>C33: For a data frame the optimised computation is the Michael code of the padded message.\<close>

theorem michael_mic_is_michael:
  assumes "ieee80211_is_data (frame_control h)" "ieee80211_hdrlen (frame_control h) \<le> length h"
  shows "michael_mic key h data = michael_spec key (michael_pseudo_header h @ data)"
proof -
  define n where "n = length data div 4"
  define ys where "ys = drop (4 * n) data"
  have n: "4 * n \<le> length data" and ys: "length ys = length data mod 4" "length ys < 4"
    by (simp_all add: n_def ys_def minus_mult_div_eq_mod)
  have data: "data = take (4 * n) data @ ys" by (simp add: ys_def)
  have ph: "4 dvd length (michael_pseudo_header h)"
    using length_DA_SA [OF assms] by (simp add: michael_pseudo_header_def)
  have "le32_words (michael_pad (michael_pseudo_header h @ data))
      = le32_words (michael_pseudo_header h) @ le32_words (take (4 * n) data) @ le32_words (michael_pad ys)"
    using ph n by (subst data) (simp add: michael_pad_append le32_words_append)
  moreover have "michael_tail data (n * 4) (length data mod 4) 0x5a = michael_tail ys 0 (length ys) 0x5a"
    using michael_tail_shift [where xs = "take (4 * n) data" and ys = ys and n = "length ys"] data n ys
    by (metis length_take min_absorb2 mult.commute)
  ultimately show ?thesis
    using michael_words_fold [OF n] le32_words_pad_short [OF ys(2)]
    by (simp add: michael_mic_def michael_spec_def Let_def michael_mic_hdr_fold [OF assms] flip: n_def)
qed

definition mic_test_hdr :: hdr where
  "mic_test_hdr = [0x88, 0x01, 0, 0, 1, 2, 3, 4, 5, 6, 7, 8, 9, 10, 11, 12, 13, 14, 15, 16, 17, 18, 0x10, 0, 5, 0]"

theorem michael_mic_is_michael_witness:
  "michael_mic [1, 2, 3, 4, 5, 6, 7, 8] mic_test_hdr [0xaa, 0xbb, 0xcc, 0xdd, 0xee]
     = michael_spec [1, 2, 3, 4, 5, 6, 7, 8] (michael_pseudo_header mic_test_hdr @ [0xaa, 0xbb, 0xcc, 0xdd, 0xee])"
proof (rule michael_mic_is_michael)
  show "ieee80211_is_data (frame_control mic_test_hdr)" by code_simp
  show "ieee80211_hdrlen (frame_control mic_test_hdr) \<le> length mic_test_hdr" by code_simp
qed

end
