(* ===== verification/Tkip.thy ===== *)
theory Tkip
  imports Wep Michael
begin

text \<open>
  TKIP: net/mac80211/tkip.c and the TKIP handlers of wpa.c, with the Michael code added before a frame is
  fragmented and verified after it is put together. As in Wep, RC4 and CRC-32 are arguments.
\<close>


section \<open>Key mixing\<close>

definition tkip_sbox :: "u16 list" where
  "tkip_sbox =
     [0xC6A5, 0xF884, 0xEE99, 0xF68D, 0xFF0D, 0xD6BD, 0xDEB1, 0x9154,
      0x6050, 0x0203, 0xCEA9, 0x567D, 0xE719, 0xB562, 0x4DE6, 0xEC9A,
      0x8F45, 0x1F9D, 0x8940, 0xFA87, 0xEF15, 0xB2EB, 0x8EC9, 0xFB0B,
      0x41EC, 0xB367, 0x5FFD, 0x45EA, 0x23BF, 0x53F7, 0xE496, 0x9B5B,
      0x75C2, 0xE11C, 0x3DAE, 0x4C6A, 0x6C5A, 0x7E41, 0xF502, 0x834F,
      0x685C, 0x51F4, 0xD134, 0xF908, 0xE293, 0xAB73, 0x6253, 0x2A3F,
      0x080C, 0x9552, 0x4665, 0x9D5E, 0x3028, 0x37A1, 0x0A0F, 0x2FB5,
      0x0E09, 0x2436, 0x1B9B, 0xDF3D, 0xCD26, 0x4E69, 0x7FCD, 0xEA9F,
      0x121B, 0x1D9E, 0x5874, 0x342E, 0x362D, 0xDCB2, 0xB4EE, 0x5BFB,
      0xA4F6, 0x764D, 0xB761, 0x7DCE, 0x527B, 0xDD3E, 0x5E71, 0x1397,
      0xA6F5, 0xB968, 0x0000, 0xC12C, 0x4060, 0xE31F, 0x79C8, 0xB6ED,
      0xD4BE, 0x8D46, 0x67D9, 0x724B, 0x94DE, 0x98D4, 0xB0E8, 0x854A,
      0xBB6B, 0xC52A, 0x4FE5, 0xED16, 0x86C5, 0x9AD7, 0x6655, 0x1194,
      0x8ACF, 0xE910, 0x0406, 0xFE81, 0xA0F0, 0x7844, 0x25BA, 0x4BE3,
      0xA2F3, 0x5DFE, 0x80C0, 0x058A, 0x3FAD, 0x21BC, 0x7048, 0xF104,
      0x63DF, 0x77C1, 0xAF75, 0x4263, 0x2030, 0xE51A, 0xFD0E, 0xBF6D,
      0x814C, 0x1814, 0x2635, 0xC32F, 0xBEE1, 0x35A2, 0x88CC, 0x2E39,
      0x9357, 0x55F2, 0xFC82, 0x7A47, 0xC8AC, 0xBAE7, 0x322B, 0xE695,
      0xC0A0, 0x1998, 0x9ED1, 0xA37F, 0x4466, 0x547E, 0x3BAB, 0x0B83,
      0x8CCA, 0xC729, 0x6BD3, 0x283C, 0xA779, 0xBCE2, 0x161D, 0xAD76,
      0xDB3B, 0x6456, 0x744E, 0x141E, 0x92DB, 0x0C0A, 0x486C, 0xB8E4,
      0x9F5D, 0xBD6E, 0x43EF, 0xC4A6, 0x39A8, 0x31A4, 0xD337, 0xF28B,
      0xD532, 0x8B43, 0x6E59, 0xDAB7, 0x018C, 0xB164, 0x9CD2, 0x49E0,
      0xD8B4, 0xACFA, 0xF307, 0xCF25, 0xCAAF, 0xF48E, 0x47E9, 0x1018,
      0x6FD5, 0xF088, 0x4A6F, 0x5C72, 0x3824, 0x57F1, 0x73C7, 0x9751,
      0xCB23, 0xA17C, 0xE89C, 0x3E21, 0x96DD, 0x61DC, 0x0D86, 0x0F85,
      0xE090, 0x7C42, 0x71C4, 0xCCAA, 0x90D8, 0x0605, 0xF701, 0x1C12,
      0xC2A3, 0x6A5F, 0xAEF9, 0x69D0, 0x1791, 0x9958, 0x3A27, 0x27B9,
      0xD938, 0xEB13, 0x2BB3, 0x2233, 0xD2BB, 0xA970, 0x0789, 0x33A7,
      0x2DB6, 0x3C22, 0x1592, 0xC920, 0x8749, 0xAAFF, 0x5078, 0xA57A,
      0x038F, 0x59F8, 0x0980, 0x1A17, 0x65DA, 0xD731, 0x84C6, 0xD0B8,
      0x82C3, 0x29B0, 0x5A77, 0x1E11, 0x7BCB, 0xA8FC, 0x6DD6, 0x2C3A]"

definition swab16 :: "u16 \<Rightarrow> u16" where
  "swab16 x = push_bit 8 x OR drop_bit 8 x"

definition ror16 :: "u16 \<Rightarrow> nat \<Rightarrow> u16" where
  "ror16 x n = drop_bit n x OR push_bit (16 - n) x"

definition tkipS :: "u16 \<Rightarrow> u16" where
  "tkipS val = tkip_sbox ! unat (val AND 0xff) XOR swab16 (tkip_sbox ! unat (drop_bit 8 val))"

definition write_tkip_iv :: "u16 \<Rightarrow> u8 list" where
  "write_tkip_iv iv16 =
     [ucast (drop_bit 8 iv16), ucast ((drop_bit 8 iv16 OR 0x20) AND 0x7f), ucast (iv16 AND 0xFF)]"

text \<open>The five words of the phase 1 key.\<close>

type_synonym p1k = "u16 \<times> u16 \<times> u16 \<times> u16 \<times> u16"

datatype tkip_state = TKIP_STATE_NOT_INIT | TKIP_STATE_PHASE1_DONE | TKIP_STATE_PHASE1_HW_UPLOADED

record tkip_ctx =
  ctx_p1k :: p1k
  p1k_iv32 :: u32
  ctx_state :: tkip_state

record tkip_ctx_rx =
  rx_ctx :: tkip_ctx
  rx_iv32 :: u32
  rx_iv16 :: u16

definition phase1_round :: "u8 list \<Rightarrow> nat \<Rightarrow> p1k \<Rightarrow> p1k" where
  "phase1_round tk i = (\<lambda>(p0, p1, p2, p3, p4).
     let j = 2 * (i mod 2);
         p0 = p0 + tkipS (p4 XOR get_le16 tk (0 + j));
         p1 = p1 + tkipS (p0 XOR get_le16 tk (4 + j));
         p2 = p2 + tkipS (p1 XOR get_le16 tk (8 + j));
         p3 = p3 + tkipS (p2 XOR get_le16 tk (12 + j));
         p4 = p4 + (tkipS (p3 XOR get_le16 tk (0 + j)) + of_nat i)
     in (p0, p1, p2, p3, p4))"

definition phase1_key :: "u8 list \<Rightarrow> u8 list \<Rightarrow> u32 \<Rightarrow> p1k" where
  "phase1_key tk ta iv32 =
     fold (phase1_round tk) [0..<8]
       (ucast (iv32 AND 0xFFFF), ucast (drop_bit 16 iv32), get_le16 ta 0, get_le16 ta 2, get_le16 ta 4)"

definition tkip_mixing_phase1 :: "u8 list \<Rightarrow> tkip_ctx \<Rightarrow> u8 list \<Rightarrow> u32 \<Rightarrow> tkip_ctx" where
  "tkip_mixing_phase1 tk ctx ta tsc_IV32 =
     ctx\<lparr>ctx_p1k := phase1_key tk ta tsc_IV32, ctx_state := TKIP_STATE_PHASE1_DONE, p1k_iv32 := tsc_IV32\<rparr>"

text \<open>The six words \<open>ppk\<close>: substitution rounds, then rotation rounds.\<close>

definition phase2_ppk :: "u8 list \<Rightarrow> p1k \<Rightarrow> u16 \<Rightarrow> u16 \<times> u16 \<times> u16 \<times> u16 \<times> u16 \<times> u16" where
  "phase2_ppk tk = (\<lambda>(p0, p1, p2, p3, p4) tsc_IV16.
     let p5 = p4 + tsc_IV16;
         p0 = p0 + tkipS (p5 XOR get_le16 tk 0);
         p1 = p1 + tkipS (p0 XOR get_le16 tk 2);
         p2 = p2 + tkipS (p1 XOR get_le16 tk 4);
         p3 = p3 + tkipS (p2 XOR get_le16 tk 6);
         p4 = p4 + tkipS (p3 XOR get_le16 tk 8);
         p5 = p5 + tkipS (p4 XOR get_le16 tk 10);
         p0 = p0 + ror16 (p5 XOR get_le16 tk 12) 1;
         p1 = p1 + ror16 (p0 XOR get_le16 tk 14) 1;
         p2 = p2 + ror16 p1 1;
         p3 = p3 + ror16 p2 1;
         p4 = p4 + ror16 p3 1;
         p5 = p5 + ror16 p4 1
     in (p0, p1, p2, p3, p4, p5))"

definition phase2_key :: "u8 list \<Rightarrow> p1k \<Rightarrow> u16 \<Rightarrow> u8 list" where
  "phase2_key tk p tsc_IV16 =
     (case phase2_ppk tk p tsc_IV16 of
        (p0, p1, p2, p3, p4, p5) \<Rightarrow>
          write_tkip_iv tsc_IV16 @ [ucast (drop_bit 1 (p5 XOR get_le16 tk 0) AND 0xFF)] @
          put_le16 p0 @ put_le16 p1 @ put_le16 p2 @ put_le16 p3 @ put_le16 p4 @ put_le16 p5)"

definition tkip_mixing_phase2 :: "u8 list \<Rightarrow> tkip_ctx \<Rightarrow> u16 \<Rightarrow> u8 list" where
  "tkip_mixing_phase2 tk ctx tsc_IV16 = phase2_key tk (ctx_p1k ctx) tsc_IV16"


section \<open>Transmission\<close>

text \<open>The TKIP part of a key: contexts for sending and for each receive queue. The temporal key is the
  first 16 bytes of the key, the two Michael keys follow it.\<close>

record tkip_key = key_conf +
  tkip_tx :: tkip_ctx
  tkip_rx :: "tkip_ctx_rx list"
  mic_failures :: u32

abbreviation (input) "temporal_key k \<equiv> key_bytes k"

definition tx_mic_key :: "tkip_key \<Rightarrow> u8 list" where "tx_mic_key k = take 8 (drop 16 (key_bytes k))"
definition rx_mic_key :: "tkip_key \<Rightarrow> u8 list" where "rx_mic_key k = take 8 (drop 24 (key_bytes k))"

definition TKIP_PN_TO_IV16 :: "u64 \<Rightarrow> u16" where "TKIP_PN_TO_IV16 pn = ucast (pn AND 0xffff)"
definition TKIP_PN_TO_IV32 :: "u64 \<Rightarrow> u32" where "TKIP_PN_TO_IV32 pn = ucast (drop_bit 16 pn AND 0xffffffff)"

definition ieee80211_tkip_add_iv :: "u8 \<Rightarrow> u64 \<Rightarrow> u8 list" where
  "ieee80211_tkip_add_iv key_idx pn =
     write_tkip_iv (TKIP_PN_TO_IV16 pn) @ [push_bit 6 key_idx OR 0x20] @ put_le32 (TKIP_PN_TO_IV32 pn)"

text \<open>The phase 1 key is kept until the upper half of the counter changes. \<open>ta\<close> is the address of the
  interface.\<close>

definition ieee80211_compute_tkip_p1k :: "u8 list \<Rightarrow> u32 \<Rightarrow> tkip_key \<Rightarrow> tkip_key" where
  "ieee80211_compute_tkip_p1k ta iv32 key =
     (let ctx = tkip_tx key
      in if p1k_iv32 ctx \<noteq> iv32 \<or> ctx_state ctx = TKIP_STATE_NOT_INIT then
           key\<lparr>tkip_tx := tkip_mixing_phase1 (temporal_key key) ctx ta iv32\<rparr>
         else key)"

definition ieee80211_get_tkip_p1k_iv :: "u8 list \<Rightarrow> u32 \<Rightarrow> tkip_key \<Rightarrow> tkip_key \<times> p1k" where
  "ieee80211_get_tkip_p1k_iv ta iv32 key =
     (let key = ieee80211_compute_tkip_p1k ta iv32 key in (key, ctx_p1k (tkip_tx key)))"

definition ieee80211_get_tkip_rx_p1k :: "u8 list \<Rightarrow> u8 list \<Rightarrow> u32 \<Rightarrow> p1k" where
  "ieee80211_get_tkip_rx_p1k tk ta iv32 = phase1_key tk ta iv32"

definition ieee80211_get_tkip_p2k :: "u8 list \<Rightarrow> u8 list \<Rightarrow> tkip_key \<Rightarrow> tkip_key \<times> u8 list" where
  "ieee80211_get_tkip_p2k ta skb key =
     (let data = drop (ieee80211_hdrlen (frame_control skb)) skb;
          iv32 = get_le32 data 4; iv16 = ucast (data ! 2) OR push_bit 8 (ucast (data ! 0));
          key = ieee80211_compute_tkip_p1k ta iv32 key
      in (key, tkip_mixing_phase2 (temporal_key key) (tkip_tx key) iv16))"

text \<open>\<open>payload\<close> without the initialisation vectors and the checksum.\<close>

definition ieee80211_tkip_encrypt_data ::
  "arc4 \<Rightarrow> crc32 \<Rightarrow> u8 list \<Rightarrow> u8 list \<Rightarrow> u8 list \<Rightarrow> tkip_key \<Rightarrow> tkip_key \<times> u8 list"
where
  "ieee80211_tkip_encrypt_data arc4 crc ta skb payload key =
     (let (key, rc4key) = ieee80211_get_tkip_p2k ta skb key
      in (key, ieee80211_wep_encrypt_data arc4 crc rc4key payload))"

definition tkip_encrypt_skb :: "arc4 \<Rightarrow> crc32 \<Rightarrow> u8 list \<Rightarrow> tkip_key \<Rightarrow> tx_skb \<Rightarrow> tkip_key \<times> tx_skb option" where
  "tkip_encrypt_skb arc4 crc ta key skb =
     (if (case hw_key skb of None \<Rightarrow> False | Some fl \<Rightarrow> \<not> KEY_FLAG_GENERATE_IV fl \<and> \<not> KEY_FLAG_PUT_IV_SPACE fl) then
        (key, Some skb)
      else
        let data = tx_data skb; hdrlen = ieee80211_hdrlen (frame_control data);
            tail = (if hw_key skb \<noteq> None then 0 else 4)
        in if tailroom skb < tail \<or> headroom skb < 8 then (key, None)
           else
             let skb = skb\<lparr>headroom := headroom skb - 8\<rparr>
             in if (case hw_key skb of None \<Rightarrow> False | Some fl \<Rightarrow> KEY_FLAG_PUT_IV_SPACE fl) then
                  (key, Some (skb\<lparr>tx_data := open_gap 8 hdrlen data\<rparr>))
                else
                  let pn = tx_pn key + 1; key = key\<lparr>tx_pn := pn\<rparr>;
                      data' = take hdrlen data @ ieee80211_tkip_add_iv (keyidx key) pn @ drop hdrlen data
                  in if hw_key skb \<noteq> None then (key, Some (skb\<lparr>tx_data := data'\<rparr>))
                     else
                       let (key, c) = ieee80211_tkip_encrypt_data arc4 crc ta data' (drop hdrlen data) key
                       in (key, Some (skb\<lparr>tx_data := take (hdrlen + 8) data' @ c, tailroom := tailroom skb - 4\<rparr>)))"

definition ieee80211_crypto_tkip_encrypt ::
  "arc4 \<Rightarrow> crc32 \<Rightarrow> u8 list \<Rightarrow> tkip_key \<Rightarrow> tx_skb list \<Rightarrow> tkip_key \<times> tx_skb list option"
where
  "ieee80211_crypto_tkip_encrypt arc4 crc ta key skbs =
     encrypt_all (tkip_encrypt_skb arc4 crc ta) key (ieee80211_tx_set_protected skbs)"

text \<open>The Michael code of a frame to be sent with a TKIP key. \<open>dontfrag\<close>: the frame is not
  fragmented, or the hardware does it; \<open>mic_failure\<close>: the test flag that sends a wrong code on purpose, in software.\<close>

definition ieee80211_tx_h_michael_mic_add :: "bool \<Rightarrow> bool \<Rightarrow> tkip_key option \<Rightarrow> tx_skb \<Rightarrow> tx_skb option" where
  "ieee80211_tx_h_michael_mic_add dontfrag mic_failure key skb =
     (case key of
        None \<Rightarrow> Some skb
      | Some key \<Rightarrow>
          let data = tx_data skb; hdrlen = ieee80211_hdrlen (frame_control data)
          in if length data < 24 \<or> \<not> ieee80211_is_data_present (frame_control data) then Some skb
             else if length data < hdrlen then None
             else
               let skb = (if mic_failure then skb\<lparr>hw_key := None\<rparr> else skb); fl = conf_flags key
               in if hw_key skb \<noteq> None \<and> dontfrag \<and> \<not> (KEY_FLAG_GENERATE_MMIC fl \<or> KEY_FLAG_PUT_MIC_SPACE fl) then Some skb
                  else
                    let tail = (if hw_key skb = None then 8 + 4 else 8)
                    in if tailroom skb < tail \<or> headroom skb < 8 then None
                       else
                         let skb = skb\<lparr>tailroom := tailroom skb - 8\<rparr>;
                             mic = michael_mic (tx_mic_key key) data (drop hdrlen data)
                         in Some (skb\<lparr>tx_data := data @
                              (if KEY_FLAG_PUT_MIC_SPACE fl then replicate 8 0
                               else if mic_failure then (mic ! 0 + 1) # tl mic else mic)\<rparr>))"


section \<open>Reception\<close>

text \<open>The error codes of the decryption; a short payload and a wrong checksum give -1 as well, the value of
  the first.\<close>

datatype tkip_error = TKIP_DECRYPT_NO_EXT_IV | TKIP_DECRYPT_INVALID_KEYIDX | TKIP_DECRYPT_REPLAY

definition tkip_replay :: "tkip_ctx_rx \<Rightarrow> u32 \<Rightarrow> u16 \<Rightarrow> bool" where
  "tkip_replay c iv32 iv16 \<longleftrightarrow>
     iv32 < rx_iv32 c \<or>
     (iv32 = rx_iv32 c \<and>
      (iv16 < rx_iv16 c \<or>
       (iv16 = rx_iv16 c \<and>
        (rx_iv32 c \<noteq> 0 \<or> rx_iv16 c \<noteq> 0 \<or> ctx_state (rx_ctx c) \<noteq> TKIP_STATE_NOT_INIT))))"

text \<open>The context for the second phase, and what is passed to \<open>drv_update_tkip_key\<close> when the driver has
  that callback and the key is uploaded (\<open>hw_update\<close>). Whether the first phase is done again depends on the
  upper half of the counter of the last accepted frame, not on the one the phase 1 key was made for.\<close>

definition tkip_rx_phase1 :: "bool \<Rightarrow> u8 list \<Rightarrow> u8 list \<Rightarrow> u32 \<Rightarrow> tkip_ctx_rx \<Rightarrow> tkip_ctx \<times> (u32 \<times> p1k) option" where
  "tkip_rx_phase1 hw_update tk ta iv32 c =
     (let ctx = (if ctx_state (rx_ctx c) = TKIP_STATE_NOT_INIT \<or> rx_iv32 c \<noteq> iv32
                 then tkip_mixing_phase1 tk (rx_ctx c) ta iv32 else rx_ctx c)
      in if hw_update \<and> ctx_state ctx \<noteq> TKIP_STATE_PHASE1_HW_UPLOADED then
           (ctx\<lparr>ctx_state := TKIP_STATE_PHASE1_HW_UPLOADED\<rparr>, Some (iv32, ctx_p1k ctx))
         else (ctx, None))"

text \<open>The key, what was passed to \<open>drv_update_tkip_key\<close>, and the counter of the frame with the buffer
  behind the vectors (checksum included).\<close>

definition ieee80211_tkip_decrypt_data ::
  "arc4 \<Rightarrow> crc32 \<Rightarrow> bool \<Rightarrow> u8 list \<Rightarrow> bool \<Rightarrow> nat \<Rightarrow> u8 list \<Rightarrow> tkip_key \<Rightarrow>
   tkip_key \<times> (u32 \<times> p1k) option \<times> (tkip_error + (u32 \<times> u16 \<times> u8 list))"
where
  "ieee80211_tkip_decrypt_data arc4 crc hw_update ta only_iv queue payload key =
     (if length payload < 12 then (key, None, Inl TKIP_DECRYPT_NO_EXT_IV)
      else
        let iv16 = push_bit 8 (ucast (payload ! 0)) OR ucast (payload ! 2) :: u16; keyid = payload ! 3;
            iv32 = get_le32 payload 4; pos = drop 8 payload; c = tkip_rx key ! queue; tk = temporal_key key;
            put = (\<lambda>ctx. key\<lparr>tkip_rx := (tkip_rx key)[queue := c\<lparr>rx_ctx := ctx\<rparr>]\<rparr>)
        in if keyid AND 0x20 = 0 then (key, None, Inl TKIP_DECRYPT_NO_EXT_IV)
           else if drop_bit 6 keyid \<noteq> keyidx key then (key, None, Inl TKIP_DECRYPT_INVALID_KEYIDX)
           else if tkip_replay c iv32 iv16 then (key, None, Inl TKIP_DECRYPT_REPLAY)
           else if only_iv then
             (put ((rx_ctx c)\<lparr>ctx_state := TKIP_STATE_PHASE1_HW_UPLOADED\<rparr>), None, Inr (iv32, iv16, pos))
           else
             let (ctx, up) = tkip_rx_phase1 hw_update tk ta iv32 c;
                 (ok, p) = ieee80211_wep_decrypt_data arc4 crc (tkip_mixing_phase2 tk ctx iv16) pos
             in (put ctx, up, if ok then Inr (iv32, iv16, p) else Inl TKIP_DECRYPT_NO_EXT_IV))"

text \<open>The handler: besides key and result, the upload and the counter kept in \<open>rx->tkip\<close>. The length
  test of the code is on unsigned 32-bit numbers.\<close>

definition ieee80211_crypto_tkip_decrypt ::
  "arc4 \<Rightarrow> crc32 \<Rightarrow> bool \<Rightarrow> rx_data \<Rightarrow> tkip_key \<Rightarrow> tkip_key \<times> (u32 \<times> p1k) option \<times> (u32 \<times> u16) option \<times> rx_result"
where
  "ieee80211_crypto_tkip_decrypt arc4 crc hw_update rx key =
     (let skb = rx_skb rx; fc = frame_control skb; hdrlen = ieee80211_hdrlen fc
      in if \<not> ieee80211_is_data fc then (key, None, None, RxContinue skb)
         else
           case rx_sta rx of
             None \<Rightarrow> (key, None, None, RxDrop RX_DROP_U_SHORT_TKIP)
           | Some ta \<Rightarrow>
               if (of_nat (length skb) - of_nat hdrlen :: u32) < 12 then (key, None, None, RxDrop RX_DROP_U_SHORT_TKIP)
               else if \<not> linearize_ok rx then (key, None, None, RxDrop RX_DROP_U_OOM)
               else
                 case ieee80211_tkip_decrypt_data arc4 crc hw_update ta (RX_FLAG_DECRYPTED rx) (security_idx rx)
                        (drop hdrlen skb) key of
                   (key, up, Inl _) \<Rightarrow> (key, up, None, RxDrop RX_DROP_U_TKIP_FAIL)
                 | (key, up, Inr (iv32, iv16, p)) \<Rightarrow>
                     let skb = take (hdrlen + 8) skb @ p;
                         skb = (if RX_FLAG_ICV_STRIPPED rx then skb else take (length skb - 4) skb)
                     in (key, up, Some (iv32, iv16), RxContinue (close_gap 8 hdrlen skb)))"

definition update_rx_iv :: "nat \<Rightarrow> u32 \<Rightarrow> u16 \<Rightarrow> tkip_key \<Rightarrow> tkip_key" where
  "update_rx_iv q iv32 iv16 key =
     key\<lparr>tkip_rx := (tkip_rx key)[q := (tkip_rx key ! q)\<lparr>rx_iv32 := iv32, rx_iv16 := iv16\<rparr>]\<rparr>"

text \<open>The verification. \<open>tkip_iv\<close> is \<open>rx->tkip\<close>; the flag in the result: a Michael failure is reported.\<close>

definition ieee80211_rx_h_michael_mic_verify ::
  "rx_data \<Rightarrow> tkip_key option \<Rightarrow> u32 \<times> u16 \<Rightarrow> tkip_key option \<times> bool \<times> rx_result"
where
  "ieee80211_rx_h_michael_mic_verify rx key tkip_iv =
     (let skb = rx_skb rx; fc = frame_control skb; update_iv = update_rx_iv (security_idx rx) (fst tkip_iv) (snd tkip_iv);
          fail = (\<lambda>k. k\<lparr>mic_failures := mic_failures k + 1\<rparr>)
      in if \<not> ieee80211_is_data_present fc then (key, False, RxContinue skb)
         else if RX_FLAG_MMIC_STRIPPED rx \<or> RX_FLAG_IV_STRIPPED rx then
           (if RX_FLAG_MMIC_ERROR rx then (key, True, RxDrop RX_DROP_U_MMIC_FAIL)
            else if \<not> RX_FLAG_IV_STRIPPED rx then (map_option update_iv key, False, RxContinue skb)
            else (key, False, RxContinue skb))
         else
           case key of
             None \<Rightarrow> (key, False, RxContinue skb)
           | Some k \<Rightarrow>
               if \<not> RX_FLAG_DECRYPTED rx then (key, False, RxContinue skb)
               else if vif_is_ap rx \<and> keyidx k \<noteq> 0 then (key, False, RxDrop RX_DROP_U_AP_RX_GROUPCAST)
               else if RX_FLAG_MMIC_ERROR rx then (Some (fail k), True, RxDrop RX_DROP_U_MMIC_FAIL)
               else
                 let hdrlen = ieee80211_hdrlen fc
                 in if length skb < hdrlen + 8 then (key, False, RxDrop RX_DROP_U_SHORT_MMIC)
                    else if \<not> linearize_ok rx then (key, False, RxDrop RX_DROP_U_OOM)
                    else
                      let data = take (length skb - hdrlen - 8) (drop hdrlen skb)
                      in if michael_mic (rx_mic_key k) skb data \<noteq> drop (length skb - 8) skb then
                           (Some (fail k), True, RxDrop RX_DROP_U_MMIC_FAIL)
                         else (Some (update_iv k), False, RxContinue (take (length skb - 8) skb)))"

end
