(* ===== verification/TkipProps.thy ===== *)
theory TkipProps
  imports Tkip
begin

text \<open>
  TKIP: the replay check over the whole way of a frame (decryption, then the Michael code), the caches of
  the phase 1 key, the round trip, and the frame that a forged one makes undecipherable.
\<close>


section \<open>The counter\<close>

text \<open>The 48-bit counter a queue has reached; a queue that has not seen a frame yet is below zero, so that
  even the number zero is accepted once.\<close>

definition tsc :: "u32 \<Rightarrow> u16 \<Rightarrow> int" where
  "tsc iv32 iv16 = int (unat iv32 * 65536 + unat iv16)"

definition rx_tsc :: "tkip_ctx_rx \<Rightarrow> int" where
  "rx_tsc c =
     (if rx_iv32 c = 0 \<and> rx_iv16 c = 0 \<and> ctx_state (rx_ctx c) = TKIP_STATE_NOT_INIT then - 1
      else tsc (rx_iv32 c) (rx_iv16 c))"

definition tkip_counter :: "tkip_key \<Rightarrow> nat \<Rightarrow> int" where
  "tkip_counter k q = rx_tsc (tkip_rx k ! q)"

lemma unat_u16_bound: "unat (x :: u16) < 65536"
  using unsigned_less [of x, where 'a = nat] by simp

lemma tsc_less: "tsc a b < tsc c d \<longleftrightarrow> a < c \<or> a = c \<and> b < d"
proof -
  have lex: "b < 65536 \<Longrightarrow> d < 65536 \<Longrightarrow> a * 65536 + b < c * 65536 + d \<longleftrightarrow> a < c \<or> a = c \<and> b < d" for a b c d :: nat
    by linarith
  show ?thesis
    unfolding tsc_def of_nat_less_iff lex [OF unat_u16_bound unat_u16_bound]
    by (simp add: word_less_nat_alt word_unat_eq_iff)
qed

lemma tsc_nonneg: "0 \<le> tsc a b"
  by (simp add: tsc_def)

lemma tkip_replay_iff: "tkip_replay c iv32 iv16 \<longleftrightarrow> tsc iv32 iv16 \<le> rx_tsc c"
proof (cases "rx_iv32 c = 0 \<and> rx_iv16 c = 0 \<and> ctx_state (rx_ctx c) = TKIP_STATE_NOT_INIT")
  case True
  then show ?thesis using tsc_nonneg [of iv32 iv16] by (auto simp: tkip_replay_def rx_tsc_def)
next
  case False
  then have "tkip_replay c iv32 iv16 \<longleftrightarrow> \<not> tsc (rx_iv32 c) (rx_iv16 c) < tsc iv32 iv16"
    unfolding tsc_less by (auto simp: tkip_replay_def not_less)
  with False show ?thesis by (auto simp: rx_tsc_def not_less)
qed


section \<open>Replays\<close>

text \<open>A frame that is not fragmented, from its reception to the verification of the Michael code.\<close>

definition tkip_recv :: "arc4 \<Rightarrow> crc32 \<Rightarrow> bool \<Rightarrow> rx_data \<Rightarrow> tkip_key \<Rightarrow> tkip_key \<times> rx_result" where
  "tkip_recv arc4 crc hw_update rx k =
     (case ieee80211_crypto_tkip_decrypt arc4 crc hw_update rx k of
        (k, _, Some iv, RxContinue skb) \<Rightarrow>
          (case ieee80211_rx_h_michael_mic_verify (rx\<lparr>rx_skb := skb, RX_FLAG_DECRYPTED := True\<rparr>) (Some k) iv of
             (Some k, _, r) \<Rightarrow> (k, r)
           | (None, _, r) \<Rightarrow> (k, r))
      | (k, _, _, r) \<Rightarrow> (k, r))"

definition frame_iv32 :: "rx_data \<Rightarrow> u32" where
  "frame_iv32 rx = get_le32 (drop (ieee80211_hdrlen (frame_control (rx_skb rx))) (rx_skb rx)) 4"

definition frame_iv16 :: "rx_data \<Rightarrow> u16" where
  "frame_iv16 rx =
     (let p = drop (ieee80211_hdrlen (frame_control (rx_skb rx))) (rx_skb rx) in push_bit 8 (ucast (p ! 0)) OR ucast (p ! 2))"

definition frame_tsc :: "rx_data \<Rightarrow> int" where
  "frame_tsc rx = tsc (frame_iv32 rx) (frame_iv16 rx)"

text \<open>Data frames that carry data and come with their vectors.\<close>

definition tkip_checked :: "rx_data \<Rightarrow> bool" where
  "tkip_checked rx \<longleftrightarrow>
     ieee80211_is_data_present (frame_control (rx_skb rx)) \<and> \<not> RX_FLAG_IV_STRIPPED rx \<and> security_idx rx < 16 \<and>
     ieee80211_hdrlen (frame_control (rx_skb rx)) \<le> length (rx_skb rx)"

definition wf_tkip_key :: "tkip_key \<Rightarrow> bool" where
  "wf_tkip_key k \<longleftrightarrow> length (tkip_rx k) = 16"

text \<open>The effect of the decryption on the key: on the context of the queue only, which is initialised
  afterwards if it was used; it succeeds only for a counter above that of the queue.\<close>

lemma tkip_rx_phase1_state: "ctx_state (fst (tkip_rx_phase1 hw tk ta iv32 c)) \<noteq> TKIP_STATE_NOT_INIT"
  by (simp add: tkip_rx_phase1_def tkip_mixing_phase1_def Let_def)

definition with_ctx :: "nat \<Rightarrow> tkip_ctx \<Rightarrow> tkip_key \<Rightarrow> tkip_key" where
  "with_ctx q ctx k = k\<lparr>tkip_rx := (tkip_rx k)[q := (tkip_rx k ! q)\<lparr>rx_ctx := ctx\<rparr>]\<rparr>"

definition decrypt_step ::
  "nat \<Rightarrow> u8 list \<Rightarrow> tkip_key \<Rightarrow> tkip_key \<times> (u32 \<times> p1k) option \<times> (tkip_error + (u32 \<times> u16 \<times> u8 list)) \<Rightarrow> bool"
where
  "decrypt_step q p k = (\<lambda>(k', up, r).
     (k' = k \<and> (\<exists>e. r = Inl e)) \<or>
     (\<exists>ctx. k' = with_ctx q ctx k \<and> ctx_state ctx \<noteq> TKIP_STATE_NOT_INIT \<and>
        (case r of
           Inl _ \<Rightarrow> True
         | Inr (iv32, iv16, b) \<Rightarrow>
             iv32 = get_le32 p 4 \<and> iv16 = push_bit 8 (ucast (p ! 0)) OR ucast (p ! 2) \<and>
             \<not> tkip_replay (tkip_rx k ! q) iv32 iv16 \<and> 12 \<le> length p)))"

lemma tkip_decrypt_data_step: "decrypt_step q p k (ieee80211_tkip_decrypt_data arc4 crc hw ta only_iv q p k)"
proof -
  obtain ctx up where ph: "tkip_rx_phase1 hw (key_bytes k) ta (get_le32 p 4) (tkip_rx k ! q) = (ctx, up)" by fastforce
  have "ctx_state ctx \<noteq> TKIP_STATE_NOT_INIT"
    using tkip_rx_phase1_state [of hw "key_bytes k" ta "get_le32 p 4" "tkip_rx k ! q"] by (simp add: ph)
  then show ?thesis
    unfolding ieee80211_tkip_decrypt_data_def decrypt_step_def
    by (auto simp: Let_def ph with_ctx_def split: prod.splits intro!: exI)
qed

lemma close_gap_front:
  "n + 8 \<le> length s \<Longrightarrow> n \<le> m \<Longrightarrow> 4 \<le> n \<Longrightarrow> frame_control (close_gap 8 n (take m (take (n + 8) s @ p))) = frame_control s"
  by (simp add: close_gap_def frame_control_def get_le16_def nth_append min_def)

lemma crypto_tkip_step:
  assumes "ieee80211_crypto_tkip_decrypt arc4 crc hw rx k = (k1, up, ivo, r)"
  shows "(k1 = k \<or> (\<exists>ctx. k1 = with_ctx (security_idx rx) ctx k \<and> ctx_state ctx \<noteq> TKIP_STATE_NOT_INIT)) \<and> ivo = None \<and>
       (is_continue r \<longrightarrow> \<not> ieee80211_is_data (frame_control (rx_skb rx))) \<or>
     (\<exists>ctx skb. k1 = with_ctx (security_idx rx) ctx k \<and> ctx_state ctx \<noteq> TKIP_STATE_NOT_INIT \<and> r = RxContinue skb \<and>
       ivo = Some (frame_iv32 rx, frame_iv16 rx) \<and> rx_tsc (tkip_rx k ! security_idx rx) < frame_tsc rx \<and>
       frame_control skb = frame_control (rx_skb rx))"
proof -
  let ?s = "rx_skb rx" and ?q = "security_idx rx"
  let ?n = "ieee80211_hdrlen (frame_control ?s)"
  have *: "frame_control (close_gap 8 ?n (take (length (take (?n + 8) ?s @ p) - 4) (take (?n + 8) ?s @ p))) = frame_control ?s"
      "frame_control (close_gap 8 ?n (take (?n + 8) ?s @ p)) = frame_control ?s" if "12 \<le> length (drop ?n ?s)" for p
    using that hdrlen_ge [of "frame_control ?s"] close_gap_front [of ?n ?s "?n + 8 + length p - 4" p]
      close_gap_front [of ?n ?s "length (take (?n + 8) ?s @ p)" p] by simp_all
  show ?thesis
  proof (cases "rx_sta rx \<noteq> None \<and> ieee80211_is_data (frame_control ?s) \<and>
      \<not> (of_nat (length ?s) - of_nat ?n :: u32) < 12 \<and> linearize_ok rx")
    case True
    then obtain ta k' up' r' where d: "rx_sta rx = Some ta" "ieee80211_is_data (frame_control ?s)"
        "\<not> (of_nat (length ?s) - of_nat ?n :: u32) < 12" "linearize_ok rx"
        "ieee80211_tkip_decrypt_data arc4 crc hw ta (RX_FLAG_DECRYPTED rx) ?q (drop ?n ?s) k = (k', up', r')"
      by (metis option.exhaust prod.exhaust)
    have step: "decrypt_step ?q (drop ?n ?s) k (k', up', r')"
      using tkip_decrypt_data_step [of ?q "drop ?n ?s" k arc4 crc hw ta "RX_FLAG_DECRYPTED rx"] unfolding d(5) .
    have eq: "(k1, up, ivo, r) = (case r' of Inl _ \<Rightarrow> (k', up', None, RxDrop RX_DROP_U_TKIP_FAIL)
        | Inr (iv32, iv16, p) \<Rightarrow> (k', up', Some (iv32, iv16), RxContinue (close_gap 8 ?n
            (if RX_FLAG_ICV_STRIPPED rx then take (?n + 8) ?s @ p
             else take (length (take (?n + 8) ?s @ p) - 4) (take (?n + 8) ?s @ p)))))"
      using assms d by (simp add: ieee80211_crypto_tkip_decrypt_def Let_def split: sum.splits)
    show ?thesis
    proof (cases r')
      case (Inl e)
      then show ?thesis using eq step by (auto simp: decrypt_step_def)
    next
      case (Inr x)
      obtain iv32 iv16 p where x: "x = (iv32, iv16, p)" by (cases x)
      show ?thesis
        using eq step * [of p] unfolding Inr x
        by (auto simp: decrypt_step_def frame_iv32_def frame_iv16_def frame_tsc_def tkip_replay_iff Let_def)
    qed
  next
    case False
    then show ?thesis
      using assms by (auto simp: ieee80211_crypto_tkip_decrypt_def Let_def split: option.splits if_splits)
  qed
qed

lemma mic_verify_step:
  assumes "ieee80211_rx_h_michael_mic_verify rx (Some k) iv = (ko, rep, r)"
  obtains k2 where "ko = Some k2"
    and "tkip_rx k2 = tkip_rx k \<and>
          \<not> (is_continue r \<and> ieee80211_is_data_present (frame_control (rx_skb rx)) \<and> RX_FLAG_DECRYPTED rx \<and> \<not> RX_FLAG_IV_STRIPPED rx)
       \<or> k2 = update_rx_iv (security_idx rx) (fst iv) (snd iv) k"
  using assms that
  by (auto simp: ieee80211_rx_h_michael_mic_verify_def Let_def split: if_splits)

text \<open>The whole way: the contexts of the other queues stay; that of the queue may be initialised, and takes
  the counter of the frame when the Michael code was right.\<close>

lemma nth_update_same_queue:
  "xs[q' := f (xs ! q')] ! q = (if q = q' \<and> q' < length xs then f (xs ! q) else xs ! q)"
  by (cases "q' < length xs") (auto simp: nth_list_update list_update_beyond)

lemma rx_tsc_ctx: "rx_tsc c \<le> rx_tsc (c\<lparr>rx_ctx := ctx\<rparr>)" if "ctx_state ctx \<noteq> TKIP_STATE_NOT_INIT"
  using that tsc_nonneg [of "rx_iv32 c" "rx_iv16 c"] by (auto simp: rx_tsc_def)

lemma with_ctx_counter:
  assumes "ctx_state ctx \<noteq> TKIP_STATE_NOT_INIT"
  shows "tkip_counter k q \<le> tkip_counter (with_ctx q' ctx k) q"
  using rx_tsc_ctx [OF assms]
  by (simp add: tkip_counter_def with_ctx_def nth_update_same_queue [where f = "\<lambda>c. c\<lparr>rx_ctx := ctx\<rparr>"])

lemma with_ctx_wf [simp]: "wf_tkip_key (with_ctx q' ctx k) = wf_tkip_key k"
    "wf_tkip_key (update_rx_iv q iv32 iv16 k) = wf_tkip_key k"
  by (simp_all add: wf_tkip_key_def with_ctx_def update_rx_iv_def)

lemma update_counter:
  assumes "ctx_state ctx \<noteq> TKIP_STATE_NOT_INIT"
  shows "tkip_counter (update_rx_iv q' iv32 iv16 (with_ctx q' ctx k)) q
       = (if q = q' \<and> q' < length (tkip_rx k) then tsc iv32 iv16 else tkip_counter k q)"
proof -
  have "tkip_rx (update_rx_iv q' iv32 iv16 (with_ctx q' ctx k))
      = (tkip_rx k)[q' := (tkip_rx k ! q')\<lparr>rx_ctx := ctx, rx_iv32 := iv32, rx_iv16 := iv16\<rparr>]"
    by (cases "q' < length (tkip_rx k)") (simp_all add: update_rx_iv_def with_ctx_def list_update_beyond)
  then show ?thesis
    using assms
    by (auto simp: tkip_counter_def rx_tsc_def
        nth_update_same_queue [where f = "\<lambda>c. c\<lparr>rx_ctx := ctx, rx_iv32 := iv32, rx_iv16 := iv16\<rparr>"])
qed

definition tkip_accepts :: "arc4 \<Rightarrow> crc32 \<Rightarrow> bool \<Rightarrow> rx_data \<Rightarrow> tkip_key \<Rightarrow> tkip_key \<times> bool" where
  "tkip_accepts arc4 crc hw_update rx k = map_prod id is_continue (tkip_recv arc4 crc hw_update rx k)"

lemma tkip_recv_laws:
  assumes "tkip_recv arc4 crc hw rx k = (k', r)"
  shows "wf_tkip_key k' = wf_tkip_key k" "tkip_counter k q \<le> tkip_counter k' q"
    and "tkip_checked rx \<Longrightarrow> is_continue r \<Longrightarrow> tkip_counter k (security_idx rx) < frame_tsc rx"
    and "wf_tkip_key k \<Longrightarrow> tkip_checked rx \<Longrightarrow> is_continue r \<Longrightarrow> tkip_counter k' (security_idx rx) = frame_tsc rx"
proof -
  let ?q = "security_idx rx"
  obtain k1 up ivo r1 where d: "ieee80211_crypto_tkip_decrypt arc4 crc hw rx k = (k1, up, ivo, r1)"
    by (metis prod_cases4)
  let ?laws = "\<lambda>q. wf_tkip_key k' = wf_tkip_key k \<and> tkip_counter k q \<le> tkip_counter k' q \<and>
      (tkip_checked rx \<longrightarrow> is_continue r \<longrightarrow> tkip_counter k ?q < frame_tsc rx \<and>
        (wf_tkip_key k \<longrightarrow> tkip_counter k' ?q = frame_tsc rx))"
  from crypto_tkip_step [OF d] consider
    (rejected) "k1 = k \<or> (\<exists>ctx. k1 = with_ctx ?q ctx k \<and> ctx_state ctx \<noteq> TKIP_STATE_NOT_INIT)" "ivo = None"
      "is_continue r1 \<longrightarrow> \<not> ieee80211_is_data (frame_control (rx_skb rx))"
  | (decrypted) ctx skb where "k1 = with_ctx ?q ctx k" "ctx_state ctx \<noteq> TKIP_STATE_NOT_INIT" "r1 = RxContinue skb"
      "ivo = Some (frame_iv32 rx, frame_iv16 rx)" "rx_tsc (tkip_rx k ! ?q) < frame_tsc rx"
      "frame_control skb = frame_control (rx_skb rx)"
    by blast
  then have "?laws q" for q
  proof cases
    case rejected
    then have "k' = k1" "r = r1" using assms d by (simp_all add: tkip_recv_def)
    with rejected show ?thesis
      using with_ctx_counter data_present_data by (auto simp: tkip_checked_def)
  next
    case a: decrypted
    let ?rx = "rx\<lparr>rx_skb := skb, RX_FLAG_DECRYPTED := True\<rparr>"
    obtain ko rep r2 where v: "ieee80211_rx_h_michael_mic_verify ?rx (Some k1) (frame_iv32 rx, frame_iv16 rx) = (ko, rep, r2)"
      by (metis prod_cases3)
    from mic_verify_step [OF v] obtain k2 where k2: "ko = Some k2"
      "tkip_rx k2 = tkip_rx k1 \<and> \<not> (is_continue r2 \<and> ieee80211_is_data_present (frame_control skb) \<and> \<not> RX_FLAG_IV_STRIPPED rx)
       \<or> k2 = update_rx_iv ?q (frame_iv32 rx) (frame_iv16 rx) k1"
      by auto
    have "k' = k2" "r = r2" using assms d a v k2(1) by (simp_all add: tkip_recv_def)
    from k2(2) show ?thesis
    proof
      assume "tkip_rx k2 = tkip_rx k1 \<and> \<not> (is_continue r2 \<and> ieee80211_is_data_present (frame_control skb) \<and> \<not> RX_FLAG_IV_STRIPPED rx)"
      then have "tkip_counter k' = tkip_counter k1" "wf_tkip_key k' = wf_tkip_key k1" "\<not> (is_continue r \<and> tkip_checked rx)"
        using \<open>k' = k2\<close> \<open>r = r2\<close> a(6) by (auto simp: tkip_counter_def wf_tkip_key_def tkip_checked_def)
      then show ?thesis using with_ctx_counter [OF a(2)] a(1) by auto
    next
      assume "k2 = update_rx_iv ?q (frame_iv32 rx) (frame_iv16 rx) k1"
      then show ?thesis
        using a(5) \<open>k' = k2\<close> update_counter [OF a(2)] unfolding a(1)
        by (auto simp: frame_tsc_def tkip_counter_def wf_tkip_key_def [of k] tkip_checked_def)
    qed
  qed
  then show "wf_tkip_key k' = wf_tkip_key k" "tkip_counter k q \<le> tkip_counter k' q"
    and "tkip_checked rx \<Longrightarrow> is_continue r \<Longrightarrow> tkip_counter k ?q < frame_tsc rx"
    and "wf_tkip_key k \<Longrightarrow> tkip_checked rx \<Longrightarrow> is_continue r \<Longrightarrow> tkip_counter k' ?q = frame_tsc rx"
    by auto
qed

interpretation tkip: replay_counter "tkip_accepts arc4 crc hw" tkip_counter security_idx frame_tsc tkip_checked wf_tkip_key
  for arc4 crc hw
  by unfold_locales (use tkip_recv_laws [OF surjective_pairing] in \<open>auto simp: tkip_accepts_def map_prod_def case_prod_unfold\<close>)

text \<open>C12: On every queue the counters of the data frames that pass decryption and the Michael code strictly
  increase; the number zero is accepted at most once, on a fresh key.\<close>

theorem tkip_no_replay:
  assumes "wf_tkip_key k"
  shows "sorted_wrt (<) (map frame_tsc (filter (\<lambda>rx. security_idx rx = q) (accepted (tkip_accepts arc4 crc hw) tkip_checked k fs)))"
  using tkip.no_replay [OF assms] .


section \<open>The phase 1 keys of the sender\<close>

definition vec_iv32 :: "u8 list \<Rightarrow> u32" where
  "vec_iv32 skb = get_le32 (drop (ieee80211_hdrlen (frame_control skb)) skb) 4"

definition vec_iv16 :: "u8 list \<Rightarrow> u16" where
  "vec_iv16 skb =
     (let p = drop (ieee80211_hdrlen (frame_control skb)) skb in ucast (p ! 2) OR push_bit 8 (ucast (p ! 0)))"

definition tx_cache_ok :: "u8 list \<Rightarrow> tkip_key \<Rightarrow> bool" where
  "tx_cache_ok ta k \<longleftrightarrow>
     ctx_state (tkip_tx k) = TKIP_STATE_NOT_INIT \<or>
     ctx_p1k (tkip_tx k) = phase1_key (key_bytes k) ta (p1k_iv32 (tkip_tx k))"

lemma get_tkip_p2k_uncached:
  assumes "tx_cache_ok ta k" "ieee80211_get_tkip_p2k ta skb k = (k', rc4key)"
  shows "rc4key = phase2_key (key_bytes k) (phase1_key (key_bytes k) ta (vec_iv32 skb)) (vec_iv16 skb)"
    and "tx_cache_ok ta k'" "key_bytes k' = key_bytes k" "tx_pn k' = tx_pn k" "keyidx k' = keyidx k"
  using assms
  by (auto simp: ieee80211_get_tkip_p2k_def ieee80211_compute_tkip_p1k_def tkip_mixing_phase1_def tkip_mixing_phase2_def
      tx_cache_ok_def vec_iv32_def vec_iv16_def Let_def split: if_splits)

text \<open>The RC4 keys for a sequence of frames, with the cache.\<close>

fun p2k_run :: "u8 list \<Rightarrow> tkip_key \<Rightarrow> u8 list list \<Rightarrow> u8 list list" where
  "p2k_run ta k [] = []"
| "p2k_run ta k (skb # skbs) = (let (k, rc4key) = ieee80211_get_tkip_p2k ta skb k in rc4key # p2k_run ta k skbs)"

text \<open>C34: With the cached phase 1 key the sender uses for every frame the key that mixing from scratch gives,
  in whatever order the counters of the frames come.\<close>

theorem tkip_tx_cache_transparent:
  assumes "ctx_state (tkip_tx k) = TKIP_STATE_NOT_INIT"
  shows "p2k_run ta k skbs
       = map (\<lambda>skb. phase2_key (key_bytes k) (phase1_key (key_bytes k) ta (vec_iv32 skb)) (vec_iv16 skb)) skbs"
proof -
  have "tx_cache_ok ta k \<Longrightarrow> ?thesis"
  proof (induction skbs arbitrary: k)
    case (Cons skb skbs)
    obtain k' rc4key where p: "ieee80211_get_tkip_p2k ta skb k = (k', rc4key)" by fastforce
    note u = get_tkip_p2k_uncached [OF Cons.prems p]
    show ?case using Cons.IH [OF u(2)] u(1,3) p by simp
  qed simp
  then show ?thesis using assms by (simp add: tx_cache_ok_def)
qed


section \<open>Round trip\<close>

text \<open>Michael reads the addresses and the traffic identifier of the header only.\<close>

lemma fc_protected_addresses:
  "ieee80211_has_a4 (fc OR 0x4000) = ieee80211_has_a4 fc" "ieee80211_has_tods (fc OR 0x4000) = ieee80211_has_tods fc"
  "ieee80211_has_fromds (fc OR 0x4000) = ieee80211_has_fromds fc"
  "ieee80211_is_data_qos (fc OR 0x4000) = ieee80211_is_data_qos fc"
  "ieee80211_is_data_present (fc OR 0x4000) = ieee80211_is_data_present fc"
  by (simp_all add: fc_defs ieee80211_has_tods_def ieee80211_has_fromds_def ieee80211_is_data_present_def and_or_disjoint
      bit.conj_disj_distrib2)

lemma michael_mic_protected:
  assumes "ieee80211_is_data (frame_control d)" "ieee80211_hdrlen (frame_control d) \<le> length d"
  shows "michael_mic key (set_fc (frame_control d OR 0x4000) d @ x) data = michael_mic key d data"
proof -
  let ?h = "set_fc (frame_control d OR 0x4000) d @ x"
  note n = data_hdrlen [OF assms(1)] assms(2)
  have fc: "frame_control ?h = frame_control d OR 0x4000"
    using frame_control_prefix [of "length (set_fc (frame_control d OR 0x4000) d)" "set_fc (frame_control d OR 0x4000) d" x] n
    by simp
  have sl: "take 6 (drop i ?h) = take 6 (drop i d)" if "2 \<le> i" "i + 6 \<le> length d" for i
    using that by simp
  have a: "addr1 ?h = addr1 d" "addr2 ?h = addr2 d" "addr3 ?h = addr3 d"
    using sl n by (simp_all add: addr1_def addr2_def addr3_def)
  have a4: "addr4 ?h = addr4 d" if "ieee80211_has_a4 (frame_control d)"
    using sl [of 24] hdrlen_a4 [OF assms(1) that] n by (simp add: addr4_def)
  have q: "ieee80211_get_tid ?h = ieee80211_get_tid d" if "ieee80211_is_data_qos (frame_control d)"
    using hdrlen_qos [OF assms(1) that] n
    unfolding ieee80211_get_tid_def ieee80211_get_qos_ctl_def fc fc_protected_addresses
    by (simp add: set_fc_def nth_append split: if_splits)
  show ?thesis
    unfolding michael_mic_def michael_mic_hdr_def ieee80211_get_DA_def ieee80211_get_SA_def fc fc_protected_addresses
    using a a4 q by (simp add: Let_def cong: if_cong)
qed

text \<open>The vectors carry key index and counter.\<close>

lemma iv16_of_vec: "push_bit 8 (ucast (ucast (drop_bit 8 w) :: u8)) OR ucast (ucast (w AND 0xFF) :: u8) = (w :: u16)"
proof -
  have m: "w AND 0xFF = w AND mask 8" by (simp add: mask_eq_exp_minus_1)
  show ?thesis unfolding m by (rule bit_word_eqI) (auto simp: bit_simps)
qed

lemma key_octet: "i < 4 \<Longrightarrow> (push_bit 6 i OR 0x20) AND 0x20 = (0x20 :: u8) \<and> drop_bit 6 (push_bit 6 i OR 0x20 :: u8) = i"
proof -
  assume "i < 4"
  then have "drop_bit 6 (push_bit 6 i) = i" by (rule key_idx_bits)
  moreover have "drop_bit 6 (0x20 :: u8) = 0" by (simp add: drop_bit_eq_div)
  moreover have "(push_bit 6 i OR 0x20) AND 0x20 = (0x20 :: u8)" by (simp add: bit.conj_disj_distrib2)
  ultimately show ?thesis by (simp add: drop_bit_or)
qed

lemma length_add_iv [simp]: "length (ieee80211_tkip_add_iv i pn) = 8"
  by (simp add: ieee80211_tkip_add_iv_def write_tkip_iv_def)

lemma add_iv_fields:
  fixes pn :: u64 and i :: u8
  assumes "i < 4"
  defines "v \<equiv> ieee80211_tkip_add_iv i pn"
  shows "get_le32 (v @ x) 4 = TKIP_PN_TO_IV32 pn"
    "push_bit 8 (ucast ((v @ x) ! 0)) OR ucast ((v @ x) ! 2) = TKIP_PN_TO_IV16 pn"
    "(v @ x) ! 3 AND 0x20 \<noteq> 0" "drop_bit 6 ((v @ x) ! 3) = i"
  using key_octet [OF assms(1)] iv16_of_vec [of "TKIP_PN_TO_IV16 pn"]
  by (simp_all add: v_def ieee80211_tkip_add_iv_def write_tkip_iv_def put_le32_def get_le32_def le32_put_le32 nth_append)

definition mixed_key :: "u8 list \<Rightarrow> u8 list \<Rightarrow> u64 \<Rightarrow> u8 list" where
  "mixed_key tk ta pn = phase2_key tk (phase1_key tk ta (TKIP_PN_TO_IV32 pn)) (TKIP_PN_TO_IV16 pn)"

text \<open>The form of an encrypted frame.\<close>

lemma tkip_encrypt_form:
  assumes "tx_cache_ok ta k" "keyidx k < 4" "hw_key skb = None" "8 \<le> headroom skb" "4 \<le> tailroom skb"
  defines "e \<equiv> tx_data skb" and "pn \<equiv> tx_pn k + 1"
  defines "n \<equiv> ieee80211_hdrlen (frame_control e)"
  assumes "n \<le> length e"
  obtains k' skb' where "tkip_encrypt_skb arc4 crc ta k skb = (k', Some skb')"
    and "tx_data skb' = take n e @ ieee80211_tkip_add_iv (keyidx k) pn @
           ieee80211_wep_encrypt_data arc4 crc (mixed_key (key_bytes k) ta pn) (drop n e)"
proof -
  let ?v = "ieee80211_tkip_add_iv (keyidx k) pn"
  define f where "f = take n e @ ?v @ drop n e"
  have n: "2 \<le> n" using hdrlen_ge [of "frame_control e"] by (simp add: n_def)
  have fc: "frame_control f = frame_control e"
    unfolding f_def using n assms(9) by (rule frame_control_prefix)
  have dr: "drop (ieee80211_hdrlen (frame_control f)) f = ?v @ drop n e"
    unfolding fc n_def [symmetric] using assms(9) by (simp add: f_def)
  note v = add_iv_fields [OF assms(2), of pn "drop n e"]
  let ?k = "k\<lparr>tx_pn := pn\<rparr>"
  obtain k' rc4key where p: "ieee80211_get_tkip_p2k ta f ?k = (k', rc4key)" by fastforce
  have "tx_cache_ok ta ?k" using assms(1) by (simp add: tx_cache_ok_def)
  from get_tkip_p2k_uncached(1) [OF this p] have rc4: "rc4key = mixed_key (key_bytes k) ta pn"
    unfolding vec_iv32_def vec_iv16_def Let_def dr v(1) or.commute [of "ucast _" "push_bit 8 _"] v(2)
    by (simp add: mixed_key_def)
  define s where "s = skb\<lparr>headroom := headroom skb - 8,
      tx_data := take (n + 8) f @ ieee80211_wep_encrypt_data arc4 crc rc4key (drop n e), tailroom := tailroom skb - 4\<rparr>"
  have "tkip_encrypt_skb arc4 crc ta k skb = (k', Some s)"
    unfolding s_def using assms(3-5) p
    by (simp add: tkip_encrypt_skb_def ieee80211_tkip_encrypt_data_def Let_def f_def n_def e_def pn_def)
  moreover have "tx_data s = take n e @ ?v @ ieee80211_wep_encrypt_data arc4 crc (mixed_key (key_bytes k) ta pn) (drop n e)"
    using assms(9) by (simp add: s_def rc4) (simp add: f_def)
  ultimately show thesis by (rule that)
qed

text \<open>The receiver's cache: the phase 1 key, if there is one, belongs to the upper half of its counter.\<close>

definition rx_cache_ok :: "u8 list \<Rightarrow> nat \<Rightarrow> tkip_key \<Rightarrow> bool" where
  "rx_cache_ok ta q r \<longleftrightarrow>
     ctx_state (rx_ctx (tkip_rx r ! q)) = TKIP_STATE_NOT_INIT \<or>
     ctx_p1k (rx_ctx (tkip_rx r ! q)) = phase1_key (key_bytes r) ta (rx_iv32 (tkip_rx r ! q))"

lemma rx_phase1_ctx:
  assumes "rx_cache_ok ta q r"
  shows "ctx_p1k (fst (tkip_rx_phase1 hw (key_bytes r) ta iv32 (tkip_rx r ! q))) = phase1_key (key_bytes r) ta iv32"
  using assms by (auto simp: rx_cache_ok_def tkip_rx_phase1_def tkip_mixing_phase1_def Let_def)

lemma tkip_decrypt_form:
  assumes law: "arc4_law arc4" and r: "rx_cache_ok ta q r" "keyidx r < 4"
    and fresh: "rx_tsc (tkip_rx r ! q) < tsc (TKIP_PN_TO_IV32 pn) (TKIP_PN_TO_IV16 pn)"
    and d: "ieee80211_is_data (frame_control e)" "n = ieee80211_hdrlen (frame_control e)" "n \<le> length e"
      "length e < 2 ^ 16"
    and f: "f = take n e @ ieee80211_tkip_add_iv (keyidx r) pn @
        ieee80211_wep_encrypt_data arc4 crc (mixed_key (key_bytes r) ta pn) (drop n e)"
  obtains r' up where "ieee80211_crypto_tkip_decrypt arc4 crc hw (plain_rx ta f q) r
      = (r', up, Some (TKIP_PN_TO_IV32 pn, TKIP_PN_TO_IV16 pn), RxContinue e)" "\<exists>ctx. r' = with_ctx q ctx r"
proof -
  let ?v = "ieee80211_tkip_add_iv (keyidx r) pn"
  define c where "c = ieee80211_wep_encrypt_data arc4 crc (mixed_key (key_bytes r) ta pn) (drop n e)"
  note c = wep_data_roundtrip [OF law, of crc "mixed_key (key_bytes r) ta pn" "drop n e", folded c_def]
  note v = add_iv_fields [OF r(2), of pn c]
  have f': "f = take n e @ ?v @ c" by (simp add: f c_def)
  have fc: "frame_control f = frame_control e"
    unfolding f' using data_hdrlen [OF d(1)] d(2,3) by (intro frame_control_prefix) simp_all
  have dr: "drop n f = ?v @ c" and len: "length f = n + 8 + (length e - n) + 4"
    using d(3) c(2) by (simp_all add: f')
  have u: "\<not> (of_nat (length f) - of_nat n :: u32) < 12"
  proof -
    have "(of_nat (length f) :: u32) - of_nat n = of_nat (12 + (length e - n))" using len by simp
    moreover have "unat (of_nat (12 + (length e - n)) :: u32) = 12 + (length e - n)"
      using d(4) by (simp add: unat_of_nat del: of_nat_add)
    ultimately show ?thesis by (simp add: word_less_nat_alt)
  qed
  obtain ctx up where ph: "tkip_rx_phase1 hw (key_bytes r) ta (TKIP_PN_TO_IV32 pn) (tkip_rx r ! q) = (ctx, up)" by fastforce
  have key: "tkip_mixing_phase2 (key_bytes r) ctx (TKIP_PN_TO_IV16 pn) = mixed_key (key_bytes r) ta pn"
    using rx_phase1_ctx [OF r(1), of hw "TKIP_PN_TO_IV32 pn"] by (simp add: ph tkip_mixing_phase2_def mixed_key_def)
  have nr: "\<not> tkip_replay (tkip_rx r ! q) (TKIP_PN_TO_IV32 pn) (TKIP_PN_TO_IV16 pn)"
    using fresh by (simp add: tkip_replay_iff)
  have "ieee80211_tkip_decrypt_data arc4 crc hw ta False q (?v @ c) r
      = (with_ctx q ctx r, up, Inr (TKIP_PN_TO_IV32 pn, TKIP_PN_TO_IV16 pn, drop n e @ put_le32 (NOT (crc (NOT 0) (drop n e)))))"
    unfolding ieee80211_tkip_decrypt_data_def v(1,2) using v(3,4) c nr
    by (simp add: Let_def ph key with_ctx_def)
  then have "ieee80211_crypto_tkip_decrypt arc4 crc hw (plain_rx ta f q) r
      = (with_ctx q ctx r, up, Some (TKIP_PN_TO_IV32 pn, TKIP_PN_TO_IV16 pn), RxContinue e)"
    using d(1,3) u dr fc
    by (simp add: ieee80211_crypto_tkip_decrypt_def plain_rx_def Let_def flip: d(2)) (simp add: f' close_gap_def)
  then show thesis by (intro that) auto
qed

text \<open>Both phases read the temporal key only.\<close>

lemma mixed_key_temporal:
  assumes "length tk = 16"
  shows "mixed_key (tk @ x) ta pn = mixed_key tk ta pn"
proof -
  have g: "get_le16 (tk @ x) i = get_le16 tk i" if "i < 15" for i
    using that assms by (simp add: get_le16_def nth_append)
  have r: "phase1_round (tk @ x) i = phase1_round tk i" for i
  proof -
    have "2 * (i mod 2) < 3" using mod_less_divisor [of 2 i] by linarith
    then have "get_le16 (tk @ x) (j + 2 * (i mod 2)) = get_le16 tk (j + 2 * (i mod 2))" if "j \<le> 12" for j
      using that by (intro g) simp
    from this [of 0] this [of 4] this [of 8] this [of 12] show ?thesis by (simp add: phase1_round_def)
  qed
  have "phase2_ppk (tk @ x) = phase2_ppk tk"
    unfolding phase2_ppk_def by (simp only: g numeral_less_iff semiring_norm zero_less_numeral)
  then have "phase2_key (tk @ x) = phase2_key tk" by (intro ext) (simp add: phase2_key_def g)
  moreover have "phase1_key (tk @ x) = phase1_key tk"
    unfolding phase1_key_def by (intro ext fold_cong) (simp_all add: r)
  ultimately show ?thesis by (simp add: mixed_key_def)
qed

lemma mic_verified:
  assumes e: "ieee80211_is_data_present (frame_control e)" "ieee80211_hdrlen (frame_control e) \<le> length e"
    and mic: "michael_mic (rx_mic_key r) (e @ mic) (drop (ieee80211_hdrlen (frame_control e)) e) = mic"
  shows "\<exists>r'. ieee80211_rx_h_michael_mic_verify ((plain_rx ta f q)\<lparr>rx_skb := e @ mic, RX_FLAG_DECRYPTED := True\<rparr>) (Some r) iv
     = (Some r', False, RxContinue e)"
proof -
  have l: "length mic = 8" using length_michael_mic [of "rx_mic_key r" "e @ mic"] mic by metis
  have fc: "frame_control (e @ mic) = frame_control e"
    using frame_control_prefix [of "length e" e mic] e(2) hdrlen_ge [of "frame_control e"] by simp
  have "take (length (e @ mic) - ieee80211_hdrlen (frame_control e) - 8) (drop (ieee80211_hdrlen (frame_control e)) (e @ mic))
      = drop (ieee80211_hdrlen (frame_control e)) e"
    using l e(2) by simp
  then show ?thesis
    unfolding ieee80211_rx_h_michael_mic_verify_def using e l mic
    by (simp add: plain_rx_def Let_def fc del: take_append drop_append length_append) simp
qed

text \<open>A data frame that gets its Michael code and is encrypted with TKIP by one side is decrypted and
  verified by the other, which has the Michael keys the other way round, and comes out as it was, marked
  protected.\<close>

theorem tkip_roundtrip:
  assumes law: "arc4_law arc4" and idx: "keyidx k < 4" "keyidx r = keyidx k"
    and keys: "length tk = 16" "length m1 = 8" "length m2 = 8" "key_bytes k = tk @ m1 @ m2" "key_bytes r = tk @ m2 @ m1"
      "\<not> KEY_FLAG_PUT_MIC_SPACE (conf_flags k)"
    and cache: "tx_cache_ok ta k" "rx_cache_ok ta q r"
      "rx_tsc (tkip_rx r ! q) < tsc (TKIP_PN_TO_IV32 (tx_pn k + 1)) (TKIP_PN_TO_IV16 (tx_pn k + 1))"
    and skb: "hw_key skb = None" "ieee80211_is_data_present (frame_control (tx_data skb))"
      "ieee80211_hdrlen (frame_control (tx_data skb)) \<le> length (tx_data skb)" "length (tx_data skb) + 8 < 2 ^ 16"
      "8 \<le> headroom skb" "12 \<le> tailroom skb"
  shows "\<exists>skb1 k' skb2 r'. ieee80211_tx_h_michael_mic_add dontfrag False (Some k) skb = Some skb1 \<and>
     ieee80211_crypto_tkip_encrypt arc4 crc ta k [skb1] = (k', Some [skb2]) \<and>
     tkip_recv arc4 crc hw (plain_rx ta (tx_data skb2) q) r
       = (r', RxContinue (set_fc (frame_control (tx_data skb) OR IEEE80211_FCTL_PROTECTED) (tx_data skb)))"
proof -
  let ?d = "tx_data skb" and ?pn = "tx_pn k + 1"
  let ?n = "ieee80211_hdrlen (frame_control ?d)" and ?e = "set_fc (frame_control ?d OR 0x4000) ?d"
  note data = data_present_data [OF skb(2)]
  have n: "24 \<le> ?n" "2 \<le> length ?d" using data_hdrlen [OF data] skb(3) by simp_all
  define mic where "mic = michael_mic (tx_mic_key k) ?d (drop ?n ?d)"
  have lmic: "length mic = 8" by (simp add: mic_def)
  define skb1 where "skb1 = skb\<lparr>tailroom := tailroom skb - 8, tx_data := ?d @ mic\<rparr>"
  have add: "ieee80211_tx_h_michael_mic_add dontfrag False (Some k) skb = Some skb1"
    using skb n keys(6) by (simp add: ieee80211_tx_h_michael_mic_add_def Let_def skb1_def mic_def)
  define p where "p = skb1\<lparr>tx_data := ?e @ mic\<rparr>"
  have fc1: "frame_control (?d @ mic) = frame_control ?d" "frame_control (?e @ mic) = frame_control ?d OR 0x4000"
    using frame_control_prefix [of "length ?d" ?d mic] frame_control_prefix [of "length ?e" ?e mic] n by simp_all
  have prot: "ieee80211_tx_set_protected [skb1] = [p]"
    using n(2) by (simp add: ieee80211_tx_set_protected_def skb1_def p_def fc1) (simp add: set_fc_def)
  have hn: "ieee80211_hdrlen (frame_control (tx_data p)) = ?n" by (simp add: p_def fc1 fc_set_protected)
  obtain k' skb2 where enc: "tkip_encrypt_skb arc4 crc ta k p = (k', Some skb2)"
      "tx_data skb2 = take ?n (?e @ mic) @ ieee80211_tkip_add_iv (keyidx k) ?pn @
         ieee80211_wep_encrypt_data arc4 crc (mixed_key (key_bytes k) ta ?pn) (drop ?n (?e @ mic))"
    by (rule tkip_encrypt_form [OF cache(1) idx(1), of p arc4 crc])
       (use skb n in \<open>simp_all add: p_def skb1_def fc1 fc_set_protected\<close>)
  have mk: "mixed_key (key_bytes r) ta ?pn = mixed_key (key_bytes k) ta ?pn"
    using mixed_key_temporal [OF keys(1)] by (simp add: keys)
  obtain r1 up ctx where dec: "ieee80211_crypto_tkip_decrypt arc4 crc hw (plain_rx ta (tx_data skb2) q) r
      = (r1, up, Some (TKIP_PN_TO_IV32 ?pn, TKIP_PN_TO_IV16 ?pn), RxContinue (?e @ mic))" "r1 = with_ctx q ctx r"
    by (rule tkip_decrypt_form [OF law cache(2) _ cache(3), of "?e @ mic" ?n "tx_data skb2" crc hw])
       (use idx data skb(3,4) n enc(2) mk lmic in \<open>auto simp: fc1 fc_set_protected\<close>)
  have mk': "rx_mic_key r1 = tx_mic_key k" using keys dec(2) by (simp add: rx_mic_key_def tx_mic_key_def with_ctx_def)
  have "michael_mic (rx_mic_key r1) (?e @ mic) (drop ?n ?e) = mic"
    unfolding mk' mic_def using michael_mic_protected [OF data skb(3)] n by simp
  then obtain r2 where "ieee80211_rx_h_michael_mic_verify
      ((plain_rx ta (tx_data skb2) q)\<lparr>rx_skb := ?e @ mic, RX_FLAG_DECRYPTED := True\<rparr>) (Some r1)
      (TKIP_PN_TO_IV32 ?pn, TKIP_PN_TO_IV16 ?pn) = (Some r2, False, RxContinue ?e)"
    using mic_verified [of ?e r1 mic ta "tx_data skb2" q] skb(2,3) n by (auto simp: fc_protected_addresses fc_set_protected)
  then have "tkip_recv arc4 crc hw (plain_rx ta (tx_data skb2) q) r = (r2, RxContinue ?e)"
    by (simp add: tkip_recv_def dec(1))
  moreover have "ieee80211_crypto_tkip_encrypt arc4 crc ta k [skb1] = (k', Some [skb2])"
    by (simp add: ieee80211_crypto_tkip_encrypt_def prot enc(1))
  ultimately show ?thesis using add by blast
qed


section \<open>Key mixing is injective\<close>

text \<open>Every assignment of both phases adds to one word a function of the others, so each can be undone.\<close>

lemma phase1_round_eqs:
  assumes "phase1_round tk i (a, b, c, d, e) = (q0, q1, q2, q3, q4)"
  defines "j \<equiv> 2 * (i mod 2)"
  shows "q0 = a + tkipS (e XOR get_le16 tk (0 + j))" "q1 = b + tkipS (q0 XOR get_le16 tk (4 + j))"
    "q2 = c + tkipS (q1 XOR get_le16 tk (8 + j))" "q3 = d + tkipS (q2 XOR get_le16 tk (12 + j))"
    "q4 = e + (tkipS (q3 XOR get_le16 tk (0 + j)) + of_nat i)"
  using assms(1) by (auto simp: phase1_round_def Let_def j_def)

lemma phase1_round_inj:
  assumes "phase1_round tk i p = phase1_round tk i p'"
  shows "p = p'"
proof -
  obtain a b c d e where p: "p = (a, b, c, d, e)" by (cases p)
  obtain a' b' c' d' e' where p': "p' = (a', b', c', d', e')" by (cases p')
  obtain q0 q1 q2 q3 q4 where q: "phase1_round tk i p = (q0, q1, q2, q3, q4)" by (cases "phase1_round tk i p")
  note eqs = phase1_round_eqs [OF q [unfolded p]] phase1_round_eqs [OF q [unfolded assms p']]
  have "b = b'" "c = c'" "d = d'" "e = e'" using eqs(2-5) eqs(7-10) by (metis add_right_cancel)+
  moreover from this have "a = a'" using eqs(1) eqs(6) by (metis add_right_cancel)
  ultimately show ?thesis by (simp add: p p')
qed

lemma phase1_fold_inj: "fold (phase1_round tk) xs p = fold (phase1_round tk) xs p' \<Longrightarrow> p = p'"
proof (induction xs arbitrary: p p')
  case (Cons x xs)
  from Cons.prems have "fold (phase1_round tk) xs (phase1_round tk x p) = fold (phase1_round tk) xs (phase1_round tk x p')"
    by (simp only: fold_Cons comp_apply)
  then have "phase1_round tk x p = phase1_round tk x p'" by (rule Cons.IH)
  then show ?case by (rule phase1_round_inj)
qed simp

lemma u32_halves: "ucast (a AND 0xFFFF) = (ucast (b AND 0xFFFF) :: u16) \<Longrightarrow> ucast (drop_bit 16 a) = (ucast (drop_bit 16 b) :: u16) \<Longrightarrow>
  a = (b :: u32)"
proof (rule bit_word_eqI)
  assume l: "ucast (a AND 0xFFFF) = (ucast (b AND 0xFFFF) :: u16)"
    and h: "ucast (drop_bit 16 a) = (ucast (drop_bit 16 b) :: u16)"
  have m: "x AND 0xFFFF = x AND mask 16" for x :: u32 by (simp add: mask_eq_exp_minus_1)
  fix n assume "n < LENGTH(32)"
  then consider "n < 16" | "16 \<le> n" "n < 32" by fastforce
  then show "bit a n = bit b n"
  proof cases
    case 1
    then show ?thesis using arg_cong [OF l, of "\<lambda>w. bit w n"] unfolding m by (simp add: bit_simps)
  next
    case 2
    then show ?thesis using arg_cong [OF h, of "\<lambda>w. bit w (n - 16)"] by (auto simp: bit_simps)
  qed
qed

lemma phase1_key_inj: "phase1_key tk ta iv = phase1_key tk ta iv' \<Longrightarrow> iv = iv'"
  unfolding phase1_key_def by (drule phase1_fold_inj) (auto intro: u32_halves)

lemma write_tkip_iv_inj: "write_tkip_iv a = write_tkip_iv b \<Longrightarrow> a = b"
proof -
  assume "write_tkip_iv a = write_tkip_iv b"
  then have "ucast (drop_bit 8 a) = (ucast (drop_bit 8 b) :: u8)" "ucast (a AND 0xFF) = (ucast (b AND 0xFF) :: u8)"
    by (simp_all only: write_tkip_iv_def list.inject)
  then show ?thesis using iv16_of_vec [of a] iv16_of_vec [of b] by metis
qed

lemma put_le16_inj: "put_le16 a = put_le16 b \<longleftrightarrow> a = b"
  by (metis le16_put_le16 put_le16_def list.inject)

lemma phase2_ppk_eqs:
  assumes "phase2_ppk tk (a, b, c, d, e) iv = (r0, r1, r2, r3, r4, r5)"
  obtains q0 q1 q2 q3 q4 q5 where
    "q0 = a + tkipS ((e + iv) XOR get_le16 tk 0)" "q1 = b + tkipS (q0 XOR get_le16 tk 2)"
    "q2 = c + tkipS (q1 XOR get_le16 tk 4)" "q3 = d + tkipS (q2 XOR get_le16 tk 6)"
    "q4 = e + tkipS (q3 XOR get_le16 tk 8)" "q5 = (e + iv) + tkipS (q4 XOR get_le16 tk 10)"
    "r0 = q0 + ror16 (q5 XOR get_le16 tk 12) 1" "r1 = q1 + ror16 (r0 XOR get_le16 tk 14) 1"
    "r2 = q2 + ror16 r1 1" "r3 = q3 + ror16 r2 1" "r4 = q4 + ror16 r3 1" "r5 = q5 + ror16 r4 1"
proof -
  define q0 where "q0 = a + tkipS ((e + iv) XOR get_le16 tk 0)"
  define q1 where "q1 = b + tkipS (q0 XOR get_le16 tk 2)"
  define q2 where "q2 = c + tkipS (q1 XOR get_le16 tk 4)"
  define q3 where "q3 = d + tkipS (q2 XOR get_le16 tk 6)"
  define q4 where "q4 = e + tkipS (q3 XOR get_le16 tk 8)"
  define q5 where "q5 = (e + iv) + tkipS (q4 XOR get_le16 tk 10)"
  have "(let p0 = q0 + ror16 (q5 XOR get_le16 tk 12) 1; p1 = q1 + ror16 (p0 XOR get_le16 tk 14) 1; p2 = q2 + ror16 p1 1;
      p3 = q3 + ror16 p2 1; p4 = q4 + ror16 p3 1; p5 = q5 + ror16 p4 1 in (p0, p1, p2, p3, p4, p5)) = (r0, r1, r2, r3, r4, r5)"
    using assms unfolding phase2_ppk_def prod.case
    by (simp only: Let_def q0_def q1_def q2_def q3_def q4_def q5_def)
  then have "r0 = q0 + ror16 (q5 XOR get_le16 tk 12) 1" "r1 = q1 + ror16 (r0 XOR get_le16 tk 14) 1"
    "r2 = q2 + ror16 r1 1" "r3 = q3 + ror16 r2 1" "r4 = q4 + ror16 r3 1" "r5 = q5 + ror16 r4 1"
    by (auto simp: Let_def)
  from that [OF q0_def q1_def q2_def q3_def q4_def q5_def this] show thesis .
qed

lemma phase2_ppk_inj:
  assumes "phase2_ppk tk p iv = phase2_ppk tk p' iv"
  shows "p = p'"
proof -
  obtain a b c d e where p: "p = (a, b, c, d, e)" by (cases p)
  obtain a' b' c' d' e' where p': "p' = (a', b', c', d', e')" by (cases p')
  obtain r0 r1 r2 r3 r4 r5 where r: "phase2_ppk tk p iv = (r0, r1, r2, r3, r4, r5)" by (cases "phase2_ppk tk p iv")
  obtain q0 q1 q2 q3 q4 q5 where q: "q0 = a + tkipS ((e + iv) XOR get_le16 tk 0)" "q1 = b + tkipS (q0 XOR get_le16 tk 2)"
    "q2 = c + tkipS (q1 XOR get_le16 tk 4)" "q3 = d + tkipS (q2 XOR get_le16 tk 6)"
    "q4 = e + tkipS (q3 XOR get_le16 tk 8)" "q5 = (e + iv) + tkipS (q4 XOR get_le16 tk 10)"
    "r0 = q0 + ror16 (q5 XOR get_le16 tk 12) 1" "r1 = q1 + ror16 (r0 XOR get_le16 tk 14) 1"
    "r2 = q2 + ror16 r1 1" "r3 = q3 + ror16 r2 1" "r4 = q4 + ror16 r3 1" "r5 = q5 + ror16 r4 1"
    using phase2_ppk_eqs [OF r [unfolded p]] by metis
  obtain s0 s1 s2 s3 s4 s5 where s: "s0 = a' + tkipS ((e' + iv) XOR get_le16 tk 0)" "s1 = b' + tkipS (s0 XOR get_le16 tk 2)"
    "s2 = c' + tkipS (s1 XOR get_le16 tk 4)" "s3 = d' + tkipS (s2 XOR get_le16 tk 6)"
    "s4 = e' + tkipS (s3 XOR get_le16 tk 8)" "s5 = (e' + iv) + tkipS (s4 XOR get_le16 tk 10)"
    "r0 = s0 + ror16 (s5 XOR get_le16 tk 12) 1" "r1 = s1 + ror16 (r0 XOR get_le16 tk 14) 1"
    "r2 = s2 + ror16 r1 1" "r3 = s3 + ror16 r2 1" "r4 = s4 + ror16 r3 1" "r5 = s5 + ror16 r4 1"
    using phase2_ppk_eqs [OF r [unfolded assms p']] by metis
  have 5: "q5 = s5" and "q4 = s4" "q3 = s3" "q2 = s2" "q1 = s1"
    using q(8-12) s(8-12) by (metis add_right_cancel)+
  moreover have 0: "q0 = s0" using q(7) s(7) 5 by (metis add_right_cancel)
  ultimately have "b = b'" "c = c'" "d = d'" "e = e'" using q(2-5) s(2-5) by (metis add_right_cancel)+
  moreover from this have "a = a'" using q(1) s(1) 0 by (metis add_right_cancel)
  ultimately show ?thesis by (simp add: p p')
qed

lemma phase2_key_inj:
  assumes "phase2_key tk p iv = phase2_key tk p' iv'"
  shows "iv = iv'" "p = p'"
proof -
  obtain q0 q1 q2 q3 q4 q5 where q: "phase2_ppk tk p iv = (q0, q1, q2, q3, q4, q5)" by (cases "phase2_ppk tk p iv")
  obtain r0 r1 r2 r3 r4 r5 where r: "phase2_ppk tk p' iv' = (r0, r1, r2, r3, r4, r5)" by (cases "phase2_ppk tk p' iv'")
  have l: "length (write_tkip_iv x) = 3" for x by (simp add: write_tkip_iv_def)
  note eq = assms [unfolded phase2_key_def q r prod.case append_eq_append_conv [OF disjI1, OF l [THEN trans, OF l [symmetric]]]]
  have iv: "write_tkip_iv iv = write_tkip_iv iv'" and w: "put_le16 q0 @ put_le16 q1 @ put_le16 q2 @ put_le16 q3 @ put_le16 q4 @ put_le16 q5
      = put_le16 r0 @ put_le16 r1 @ put_le16 r2 @ put_le16 r3 @ put_le16 r4 @ put_le16 r5"
    using eq by simp_all
  show "iv = iv'" using iv by (rule write_tkip_iv_inj)
  have "(q0, q1, q2, q3, q4, q5) = (r0, r1, r2, r3, r4, r5)"
    using w by (simp add: put_le16_inj)
  then show "p = p'" using phase2_ppk_inj [of tk p iv p'] q r \<open>iv = iv'\<close> by simp
qed

text \<open>For one temporal key and transmitter, two frames have the same RC4 key only if they have the same
  counter: no two counters ever mix to one key.\<close>

theorem tkip_keys_distinct:
  "phase2_key tk (phase1_key tk ta iv32) iv16 = phase2_key tk (phase1_key tk ta iv32') iv16'
     \<longleftrightarrow> iv32 = iv32' \<and> iv16 = iv16'"
  by (blast dest: phase2_key_inj phase1_key_inj)


section \<open>Examples\<close>

definition zero_ctx :: tkip_ctx where
  "zero_ctx = \<lparr>ctx_p1k = (0, 0, 0, 0, 0), p1k_iv32 = 0, ctx_state = TKIP_STATE_NOT_INIT\<rparr>"

text \<open>A key with equal Michael keys, so that it serves both ends.\<close>

definition toy_tk :: "u8 list" where "toy_tk = [1, 2, 3, 4, 5, 6, 7, 8, 9, 10, 11, 12, 13, 14, 15, 16]"
definition toy_mk :: "u8 list" where "toy_mk = [21, 22, 23, 24, 25, 26, 27, 28]"
definition toy_ta :: "u8 list" where "toy_ta = [7, 8, 9, 10, 11, 12]"

definition tkip_toy_key :: "tkip_ctx_rx \<Rightarrow> tkip_key" where
  "tkip_toy_key c =
     \<lparr>key_bytes = toy_tk @ toy_mk @ toy_mk, keyidx = 0, conf_flags = no_key_flags, tx_pn = 4, tkip_tx = zero_ctx,
      tkip_rx = replicate 16 c, mic_failures = 0\<rparr>"

definition fresh_ctx_rx :: tkip_ctx_rx where
  "fresh_ctx_rx = \<lparr>rx_ctx = zero_ctx, rx_iv32 = 0, rx_iv16 = 0\<rparr>"

lemma toy_key_fields [simp]:
  "key_bytes (tkip_toy_key c) = toy_tk @ toy_mk @ toy_mk" "keyidx (tkip_toy_key c) = 0" "tx_pn (tkip_toy_key c) = 4"
  "\<not> KEY_FLAG_PUT_MIC_SPACE (conf_flags (tkip_toy_key c))" "q < 16 \<Longrightarrow> tkip_rx (tkip_toy_key c) ! q = c"
  "wf_tkip_key (tkip_toy_key c)" "tkip_tx (tkip_toy_key c) = zero_ctx"
  by (simp_all add: tkip_toy_key_def no_key_flags_def wf_tkip_key_def)

lemma toy_lengths: "length toy_tk = 16" "length toy_mk = 8"
  by (simp_all add: toy_tk_def toy_mk_def)

theorem tkip_no_replay_witness:
  "wf_tkip_key (tkip_toy_key fresh_ctx_rx) \<and>
   sorted_wrt (<) (map frame_tsc (filter (\<lambda>rx. security_idx rx = 0)
     (accepted (tkip_accepts toy_arc4 toy_crc False) tkip_checked (tkip_toy_key fresh_ctx_rx)
        [plain_rx toy_ta (tx_data wep_toy_skb) 0, plain_rx toy_ta (tx_data wep_toy_skb) 0])))"
  using tkip_no_replay [of "tkip_toy_key fresh_ctx_rx"] toy_key_fields(6) by blast

theorem tkip_tx_cache_transparent_witness:
  "p2k_run toy_ta (tkip_toy_key fresh_ctx_rx) [tx_data wep_toy_skb, tx_data wep_toy_skb]
     = map (\<lambda>skb. phase2_key (toy_tk @ toy_mk @ toy_mk) (phase1_key (toy_tk @ toy_mk @ toy_mk) toy_ta (vec_iv32 skb)) (vec_iv16 skb))
         [tx_data wep_toy_skb, tx_data wep_toy_skb]"
proof -
  have "ctx_state (tkip_tx (tkip_toy_key fresh_ctx_rx)) = TKIP_STATE_NOT_INIT" by (simp add: zero_ctx_def)
  from tkip_tx_cache_transparent [OF this] show ?thesis by (simp only: toy_key_fields)
qed

theorem tkip_roundtrip_witness:
  "\<exists>skb1 k' skb2 r'. ieee80211_tx_h_michael_mic_add True False (Some (tkip_toy_key fresh_ctx_rx)) (wep_toy_skb\<lparr>tailroom := 12\<rparr>) = Some skb1 \<and>
     ieee80211_crypto_tkip_encrypt toy_arc4 toy_crc toy_ta (tkip_toy_key fresh_ctx_rx) [skb1] = (k', Some [skb2]) \<and>
     tkip_recv toy_arc4 toy_crc False (plain_rx toy_ta (tx_data skb2) 0) (tkip_toy_key fresh_ctx_rx)
       = (r', RxContinue (set_fc (frame_control (tx_data wep_toy_skb) OR IEEE80211_FCTL_PROTECTED) (tx_data wep_toy_skb)))"
proof -
  let ?k = "tkip_toy_key fresh_ctx_rx" and ?s = "wep_toy_skb\<lparr>tailroom := 12\<rparr>"
  have c: "tx_cache_ok toy_ta ?k" "rx_cache_ok toy_ta 0 ?k"
    by (simp_all add: tx_cache_ok_def rx_cache_ok_def zero_ctx_def fresh_ctx_rx_def)
  have t: "rx_tsc (tkip_rx ?k ! 0) < tsc (TKIP_PN_TO_IV32 (tx_pn ?k + 1)) (TKIP_PN_TO_IV16 (tx_pn ?k + 1))"
    using tsc_nonneg [of "TKIP_PN_TO_IV32 5" "TKIP_PN_TO_IV16 5"] by (simp add: rx_tsc_def fresh_ctx_rx_def zero_ctx_def)
  have s: "ieee80211_is_data_present (frame_control (tx_data ?s))"
      "ieee80211_hdrlen (frame_control (tx_data ?s)) \<le> length (tx_data ?s)"
    by code_simp+
  have "hw_key ?s = None" "length (tx_data ?s) + 8 < 2 ^ 16" "8 \<le> headroom ?s" "12 \<le> tailroom ?s" "keyidx ?k < 4"
    by (simp_all add: wep_toy_skb_def)
  from tkip_roundtrip [OF toy_arc4_law this(5) refl toy_lengths(1,2,2) toy_key_fields(1,1,4) c t this(1) s this(2-4)]
  show ?thesis by simp
qed


section \<open>A forged frame makes the next genuine frame undecipherable\<close>

text \<open>A queue that has accepted the frame with the counter 5 and holds the phase 1 key of the upper half zero, a
  cipher that deciphers only under the key of the frame with the counter 6, that frame, and a forged frame with
  the upper half one.\<close>

definition cached_ctx_rx :: tkip_ctx_rx where
  "cached_ctx_rx =
     \<lparr>rx_ctx = \<lparr>ctx_p1k = phase1_key (toy_tk @ toy_mk @ toy_mk) toy_ta 0, p1k_iv32 = 0, ctx_state = TKIP_STATE_PHASE1_DONE\<rparr>,
      rx_iv32 = 0, rx_iv16 = 5\<rparr>"

definition key_of_6 :: "u8 list" where
  "key_of_6 = phase2_key (toy_tk @ toy_mk @ toy_mk) (phase1_key (toy_tk @ toy_mk @ toy_mk) toy_ta 0) 6"

definition strict_arc4 :: arc4 where
  "strict_arc4 key x = (if key = key_of_6 then x else map NOT x)"

definition zero_icv :: crc32 where "zero_icv s x = NOT 0"

definition frame_6 :: "u8 list" where "frame_6 = [0, 0x20, 6, 0x20, 0, 0, 0, 0, 0, 0, 0, 0]"
definition forged_frame :: "u8 list" where "forged_frame = [0, 0x20, 0, 0x20, 1, 0, 0, 0, 0, 0, 0, 0]"

text \<open>The key after the forged frame: the phase 1 key is that of the upper half one, the counter is the old one.\<close>

definition poisoned_ctx_rx :: tkip_ctx_rx where
  "poisoned_ctx_rx =
     cached_ctx_rx\<lparr>rx_ctx := \<lparr>ctx_p1k = phase1_key (toy_tk @ toy_mk @ toy_mk) toy_ta 1, p1k_iv32 = 1,
        ctx_state = TKIP_STATE_PHASE1_DONE\<rparr>\<rparr>"

lemma other_keys:
  "phase2_key (toy_tk @ toy_mk @ toy_mk) (phase1_key (toy_tk @ toy_mk @ toy_mk) toy_ta 1) iv16 \<noteq> key_of_6"
proof
  assume "phase2_key (toy_tk @ toy_mk @ toy_mk) (phase1_key (toy_tk @ toy_mk @ toy_mk) toy_ta 1) iv16 = key_of_6"
  then have "(1 :: u32) = 0" unfolding key_of_6_def by (intro phase1_key_inj phase2_key_inj(2))
  then show False by simp
qed

lemma frame_fields:
  "get_le32 frame_6 4 = 0" "get_le32 forged_frame 4 = 1" "length frame_6 = 12" "length forged_frame = 12"
  "frame_6 ! 0 = 0" "frame_6 ! 2 = 6" "frame_6 ! 3 = 0x20" "drop 8 frame_6 = [0, 0, 0, 0]"
  "forged_frame ! 0 = 0" "forged_frame ! 2 = 0" "forged_frame ! 3 = 0x20" "drop 8 forged_frame = [0, 0, 0, 0]"
  by (code_simp)+

lemma strict_decrypt:
  "ieee80211_wep_decrypt_data strict_arc4 zero_icv key_of_6 [0, 0, 0, 0] = (True, [0, 0, 0, 0])"
  "key \<noteq> key_of_6 \<Longrightarrow> ieee80211_wep_decrypt_data strict_arc4 zero_icv key [0, 0, 0, 0] = (False, map NOT [0, 0, 0, 0])"
  by (simp_all add: ieee80211_wep_decrypt_data_def strict_arc4_def zero_icv_def put_le32_def Let_def)

lemma genuine_accepted:
  "\<exists>k. ieee80211_tkip_decrypt_data strict_arc4 zero_icv False toy_ta False 0 frame_6 (tkip_toy_key cached_ctx_rx)
     = (k, None, Inr (0, 6, [0, 0, 0, 0]))"
  using strict_decrypt(1) unfolding key_of_6_def
  by (simp add: ieee80211_tkip_decrypt_data_def frame_fields Let_def cached_ctx_rx_def tkip_replay_def
      tkip_rx_phase1_def tkip_mixing_phase2_def)

lemma forged_rejected:
  "ieee80211_tkip_decrypt_data strict_arc4 zero_icv False toy_ta False 0 forged_frame (tkip_toy_key cached_ctx_rx)
     = (with_ctx 0 (rx_ctx poisoned_ctx_rx) (tkip_toy_key cached_ctx_rx), None, Inl TKIP_DECRYPT_NO_EXT_IV)"
  using strict_decrypt(2) [OF other_keys, of 0]
  by (simp add: ieee80211_tkip_decrypt_data_def frame_fields Let_def cached_ctx_rx_def tkip_replay_def poisoned_ctx_rx_def
      tkip_rx_phase1_def tkip_mixing_phase1_def tkip_mixing_phase2_def with_ctx_def split: prod.splits)

lemma genuine_dropped:
  "snd (snd (ieee80211_tkip_decrypt_data strict_arc4 zero_icv False toy_ta False 0 frame_6
     (with_ctx 0 (rx_ctx poisoned_ctx_rx) (tkip_toy_key cached_ctx_rx)))) = Inl TKIP_DECRYPT_NO_EXT_IV"
proof -
  have "tkip_rx (tkip_toy_key cached_ctx_rx) \<noteq> []" by (simp add: tkip_toy_key_def)
  with strict_decrypt(2) [OF other_keys, of 6] show ?thesis
    by (simp add: ieee80211_tkip_decrypt_data_def frame_fields Let_def cached_ctx_rx_def tkip_replay_def poisoned_ctx_rx_def
        tkip_rx_phase1_def tkip_mixing_phase2_def with_ctx_def split: prod.splits)
qed

text \<open>The receiver mixes a new phase 1 key when the upper half differs from that of the last accepted frame, not
  from that the cached key was made for. A forged frame with another upper half is rejected by the checksum but leaves its
  phase 1 key behind, and the next genuine frame, which would have been deciphered before, is dropped.\<close>

theorem forged_frame_poisons_cache:
  "(\<exists>k. ieee80211_tkip_decrypt_data strict_arc4 zero_icv False toy_ta False 0 frame_6 (tkip_toy_key cached_ctx_rx)
        = (k, None, Inr (0, 6, [0, 0, 0, 0]))) \<and>
   (\<exists>k1 k2. ieee80211_tkip_decrypt_data strict_arc4 zero_icv False toy_ta False 0 forged_frame (tkip_toy_key cached_ctx_rx)
        = (k1, None, Inl TKIP_DECRYPT_NO_EXT_IV) \<and>
      ieee80211_tkip_decrypt_data strict_arc4 zero_icv False toy_ta False 0 frame_6 k1
        = (k2, None, Inl TKIP_DECRYPT_NO_EXT_IV))"
proof -
  obtain k2 up r where d: "ieee80211_tkip_decrypt_data strict_arc4 zero_icv False toy_ta False 0 frame_6
      (with_ctx 0 (rx_ctx poisoned_ctx_rx) (tkip_toy_key cached_ctx_rx)) = (k2, up, r)" by (metis prod_cases3)
  moreover have "up = None" using arg_cong [OF d, of "fst \<circ> snd"]
    by (simp add: ieee80211_tkip_decrypt_data_def Let_def tkip_rx_phase1_def split: prod.splits if_splits)
  ultimately show ?thesis using genuine_accepted forged_rejected genuine_dropped by auto
qed

end
