(* ===== verification/Codel.thy ===== *)
theory Codel
  imports Prelude "HOL-Library.Monad_Syntax"
begin

text \<open>
  The CoDel queue discipline of include/net/codel.h and include/net/codel_impl.h, with the frames as the transmit
  queues hold them. The callbacks are arguments: \<open>dequeue_func\<close> and \<open>drop_func\<close> work on a context of any type,
  \<open>bl\<close> reads the word the backlog pointer refers to. \<open>ect\<close> says of a frame whether the network layer's
  \<open>INET_ECN_set_ce\<close> can mark it, \<open>dsfield\<close> is its \<open>skb_get_dsfield\<close>. A call that dereferences a null pointer or
  never returns has the value \<open>None\<close>.
\<close>


section \<open>Frames\<close>

text \<open>A queued socket buffer: an identity that stands for its contents, its length and the memory it is charged with,
  the time it was queued, the interface it is for, and whether it has been marked.\<close>

record fq_skb =
  skb_id :: nat
  skb_len :: u32
  skb_truesize :: u32
  enqueue_time :: u32
  skb_vif :: nat
  skb_ce :: bool

definition INET_ECN_set_ce :: "(fq_skb \<Rightarrow> bool) \<Rightarrow> fq_skb \<Rightarrow> fq_skb" where
  "INET_ECN_set_ce ect skb = (if ect skb then skb\<lparr>skb_ce := True\<rparr> else skb)"


section \<open>Time\<close>

type_synonym codel_time = u32

definition codel_time_after :: "codel_time \<Rightarrow> codel_time \<Rightarrow> bool" where
  "codel_time_after a b \<longleftrightarrow> 0 < sint (a - b)"

abbreviation codel_time_before :: "codel_time \<Rightarrow> codel_time \<Rightarrow> bool" where
  "codel_time_before a b \<equiv> codel_time_after b a"

definition codel_time_after_eq :: "codel_time \<Rightarrow> codel_time \<Rightarrow> bool" where
  "codel_time_after_eq a b \<longleftrightarrow> 0 \<le> sint (a - b)"

definition MS2TIME :: "nat \<Rightarrow> codel_time" where
  "MS2TIME a = of_nat (drop_bit 10 (a * 1000000))"


section \<open>State\<close>

record codel_params =
  target :: codel_time
  ce_threshold :: codel_time
  interval :: codel_time
  mtu :: u32
  ecn :: bool
  ce_threshold_selector :: u8
  ce_threshold_mask :: u8

record codel_vars =
  cv_count :: u32
  lastcount :: u32
  dropping :: bool
  rec_inv_sqrt :: u16
  first_above_time :: codel_time
  drop_next :: codel_time
  ldelay :: codel_time

record codel_stats =
  maxpacket :: u32
  drop_count :: u32
  drop_len :: u32
  ecn_mark :: u32
  ce_mark :: u32

definition CODEL_DISABLED_THRESHOLD :: codel_time where "CODEL_DISABLED_THRESHOLD = 0x7fffffff"

definition codel_params_init :: "codel_params \<Rightarrow> codel_params" where
  "codel_params_init p =
     p\<lparr>interval := MS2TIME 100, target := MS2TIME 5, ce_threshold := CODEL_DISABLED_THRESHOLD,
       ce_threshold_mask := 0, ce_threshold_selector := 0, ecn := False\<rparr>"

definition codel_vars_init :: codel_vars where
  "codel_vars_init =
     \<lparr>cv_count = 0, lastcount = 0, dropping = False, rec_inv_sqrt = 0, first_above_time = 0, drop_next = 0, ldelay = 0\<rparr>"

definition codel_stats_init :: "codel_stats \<Rightarrow> codel_stats" where
  "codel_stats_init s = s\<lparr>maxpacket := 0\<rparr>"


section \<open>The control law\<close>

definition reciprocal_scale :: "u32 \<Rightarrow> u32 \<Rightarrow> u32" where
  "reciprocal_scale val ep_ro = ucast (drop_bit 32 (ucast val * ucast ep_ro :: u64))"

definition codel_Newton_step :: "codel_vars \<Rightarrow> codel_vars" where
  "codel_Newton_step vars =
     (let invsqrt = push_bit 16 (ucast (rec_inv_sqrt vars)) :: u32;
          invsqrt2 = ucast (drop_bit 32 (ucast invsqrt * ucast invsqrt :: u64)) :: u32;
          val = push_bit 32 3 - ucast (cv_count vars) * ucast invsqrt2 :: u64;
          val = drop_bit 2 val;
          val = drop_bit 31 (val * ucast invsqrt)
      in vars\<lparr>rec_inv_sqrt := ucast (drop_bit 16 val)\<rparr>)"

definition codel_control_law :: "codel_time \<Rightarrow> codel_time \<Rightarrow> u32 \<Rightarrow> codel_time" where
  "codel_control_law t intv r = t + reciprocal_scale intv (push_bit 16 r)"


section \<open>Dropping\<close>

definition codel_should_drop ::
  "fq_skb option \<Rightarrow> codel_params \<Rightarrow> u32 \<Rightarrow> codel_time \<Rightarrow> codel_vars \<Rightarrow> codel_stats \<Rightarrow> bool \<times> codel_vars \<times> codel_stats"
where
  "codel_should_drop skb params backlog now vars stats =
     (case skb of
        None \<Rightarrow> (False, vars\<lparr>first_above_time := 0\<rparr>, stats)
      | Some skb \<Rightarrow>
          let vars = vars\<lparr>ldelay := now - enqueue_time skb\<rparr>;
              stats = (if maxpacket stats < skb_len skb then stats\<lparr>maxpacket := skb_len skb\<rparr> else stats)
          in if codel_time_before (ldelay vars) (target params) \<or> backlog \<le> mtu params then
               (False, vars\<lparr>first_above_time := 0\<rparr>, stats)
             else if first_above_time vars = 0 then
               (False, vars\<lparr>first_above_time := now + interval params\<rparr>, stats)
             else (codel_time_after now (first_above_time vars), vars, stats))"

text \<open>The \<open>while\<close> loop in the dropping state. The frame in hand is never null there: a null frame makes
  \<open>codel_should_drop\<close> false, which ends the loop.\<close>

partial_function (option) codel_drop_loop ::
  "('c \<Rightarrow> (fq_skb option \<times> 'c) option) \<Rightarrow> (fq_skb \<Rightarrow> 'c \<Rightarrow> 'c) \<Rightarrow> ('c \<Rightarrow> u32) \<Rightarrow> (fq_skb \<Rightarrow> bool) \<Rightarrow> codel_params \<Rightarrow> codel_time \<Rightarrow>
   fq_skb \<Rightarrow> codel_vars \<Rightarrow> codel_stats \<Rightarrow> 'c \<Rightarrow> (fq_skb option \<times> codel_vars \<times> codel_stats \<times> 'c) option"
where
  "codel_drop_loop dequeue_func drop_func bl ect params now skb vars stats ctx =
     (if dropping vars \<and> codel_time_after_eq now (drop_next vars) then
        let vars = codel_Newton_step (vars\<lparr>cv_count := cv_count vars + 1\<rparr>);
            next = (\<lambda>v. v\<lparr>drop_next := codel_control_law (drop_next v) (interval params) (ucast (rec_inv_sqrt v))\<rparr>)
        in if ecn params \<and> ect skb then
             Some (Some (INET_ECN_set_ce ect skb), next vars, stats\<lparr>ecn_mark := ecn_mark stats + 1\<rparr>, ctx)
           else
             let stats = stats\<lparr>drop_len := drop_len stats + skb_len skb, drop_count := drop_count stats + 1\<rparr>;
                 ctx = drop_func skb ctx
             in do {
               (skb', ctx) \<leftarrow> dequeue_func ctx;
               let (drop, vars, stats) = codel_should_drop skb' params (bl ctx) now vars stats;
               case skb' of
                 None \<Rightarrow> Some (None, vars\<lparr>dropping := False\<rparr>, stats, ctx)
               | Some skb' \<Rightarrow>
                   if \<not> drop then Some (Some skb', vars\<lparr>dropping := False\<rparr>, stats, ctx)
                   else codel_drop_loop dequeue_func drop_func bl ect params now skb' (next vars) stats ctx
             }
      else Some (Some skb, vars, stats, ctx))"

text \<open>Entering the dropping state: the drop rate of the last time is resumed if that is not long ago.\<close>

definition codel_enter :: "codel_params \<Rightarrow> codel_time \<Rightarrow> codel_vars \<Rightarrow> codel_vars" where
  "codel_enter params now vars =
     (let vars = vars\<lparr>dropping := True\<rparr>;
          delta = cv_count vars - lastcount vars;
          vars = (if delta > 1 \<and> codel_time_before (now - drop_next vars) (16 * interval params)
                  then codel_Newton_step (vars\<lparr>cv_count := delta\<rparr>)
                  else vars\<lparr>cv_count := 1, rec_inv_sqrt := ucast (drop_bit 16 (NOT 0 :: u32))\<rparr>);
          vars = vars\<lparr>lastcount := cv_count vars\<rparr>
      in vars\<lparr>drop_next := codel_control_law now (interval params) (ucast (rec_inv_sqrt vars))\<rparr>)"

text \<open>The marking of frames that waited longer than the threshold.\<close>

definition codel_end ::
  "(fq_skb \<Rightarrow> bool) \<Rightarrow> (fq_skb \<Rightarrow> int) \<Rightarrow> codel_params \<Rightarrow> fq_skb option \<Rightarrow> codel_vars \<Rightarrow> codel_stats \<Rightarrow> fq_skb option \<times> codel_stats"
where
  "codel_end ect dsfield params skb vars stats =
     (case skb of
        None \<Rightarrow> (None, stats)
      | Some skb \<Rightarrow>
          if codel_time_after (ldelay vars) (ce_threshold params) then
            let set_ce = (if ce_threshold_mask params \<noteq> 0 then
                            0 \<le> dsfield skb \<and>
                            (word_of_int (dsfield skb) :: u8) AND ce_threshold_mask params = ce_threshold_selector params
                          else True)
            in if set_ce \<and> ect skb then (Some (INET_ECN_set_ce ect skb), stats\<lparr>ce_mark := ce_mark stats + 1\<rparr>)
               else (Some skb, stats)
          else (Some skb, stats))"

definition codel_dequeue ::
  "('c \<Rightarrow> (fq_skb option \<times> 'c) option) \<Rightarrow> (fq_skb \<Rightarrow> 'c \<Rightarrow> 'c) \<Rightarrow> ('c \<Rightarrow> u32) \<Rightarrow> (fq_skb \<Rightarrow> bool) \<Rightarrow> (fq_skb \<Rightarrow> int) \<Rightarrow>
   codel_params \<Rightarrow> codel_time \<Rightarrow> codel_vars \<Rightarrow> codel_stats \<Rightarrow> 'c \<Rightarrow> (fq_skb option \<times> codel_vars \<times> codel_stats \<times> 'c) option"
where
  "codel_dequeue dequeue_func drop_func bl ect dsfield params now vars stats ctx = do {
     (skb, ctx) \<leftarrow> dequeue_func ctx;
     case skb of
       None \<Rightarrow> Some (None, vars\<lparr>dropping := False\<rparr>, stats, ctx)
     | Some skb \<Rightarrow> do {
         let (drop, vars, stats) = codel_should_drop (Some skb) params (bl ctx) now vars stats;
         (skb, vars, stats, ctx) \<leftarrow>
           (if dropping vars then
              if \<not> drop then Some (Some skb, vars\<lparr>dropping := False\<rparr>, stats, ctx)
              else codel_drop_loop dequeue_func drop_func bl ect params now skb vars stats ctx
            else if drop then
              if ecn params \<and> ect skb then
                Some (Some (INET_ECN_set_ce ect skb), codel_enter params now vars, stats\<lparr>ecn_mark := ecn_mark stats + 1\<rparr>, ctx)
              else
                let stats = stats\<lparr>drop_len := drop_len stats + skb_len skb, drop_count := drop_count stats + 1\<rparr>;
                    ctx = drop_func skb ctx
                in do {
                  (skb, ctx) \<leftarrow> dequeue_func ctx;
                  let (drop, vars, stats) = codel_should_drop skb params (bl ctx) now vars stats;
                  Some (skb, codel_enter params now vars, stats, ctx)
                }
            else Some (Some skb, vars, stats, ctx));
         let (skb, stats) = codel_end ect dsfield params skb vars stats;
         Some (skb, vars, stats, ctx)
       }
   }"

end
