(* ===== verification/FairQueue.thy ===== *)
theory FairQueue
  imports Codel
begin

text \<open>
  The fair queueing of include/net/fq.h and include/net/fq_impl.h. Flows and tins are objects that point to each other,
  so the state is an explicit store: \<open>Flow i\<close> is the entry of the hashed array, \<open>DefaultFlow t\<close> the flow embedded in
  the tin \<open>t\<close>. The chains of a tin and the list of tins with a backlog are lists of identifiers; that an object is on
  no list (\<open>list_empty\<close> of its own link) is read off them. Frames handed to \<open>free_func\<close> are logged in \<open>fq_freed\<close>. A call
  that dereferences a null pointer or never returns has the value \<open>None\<close>.
\<close>


section \<open>State\<close>

datatype flow_id = Flow nat | DefaultFlow nat

text \<open>The deficit is a C \<open>int\<close>.\<close>

record fq_flow =
  fl_tin :: "nat option"
  fl_queue :: "fq_skb list"
  fl_backlog :: u32
  fl_deficit :: int

record fq_tin =
  new_flows :: "flow_id list"
  old_flows :: "flow_id list"
  backlog_bytes :: u32
  backlog_packets :: u32
  tin_overlimit :: u32
  tin_collisions :: u32
  tin_flows :: u32
  tx_bytes :: u32
  tx_packets :: u32

record fq =
  fq_flows :: "flow_id \<Rightarrow> fq_flow"
  fq_tins :: "nat \<Rightarrow> fq_tin"
  flows_bitmap :: "nat \<Rightarrow> bool"
  tin_backlog :: "nat list"
  flows_cnt :: u32
  fq_limit :: u32
  memory_limit :: u32
  memory_usage :: u32
  quantum :: u32
  fq_backlog :: u32
  fq_overlimit :: u32
  overmemory :: u32
  fq_collisions :: u32
  fq_freed :: "fq_skb list"

definition upd_flow :: "flow_id \<Rightarrow> (fq_flow \<Rightarrow> fq_flow) \<Rightarrow> fq \<Rightarrow> fq" where
  "upd_flow f g q = q\<lparr>fq_flows := (fq_flows q)(f := g (fq_flows q f))\<rparr>"

definition upd_tin :: "nat \<Rightarrow> (fq_tin \<Rightarrow> fq_tin) \<Rightarrow> fq \<Rightarrow> fq" where
  "upd_tin t g q = q\<lparr>fq_tins := (fq_tins q)(t := g (fq_tins q t))\<rparr>"

definition free_func :: "fq_skb \<Rightarrow> fq \<Rightarrow> fq" where
  "free_func skb q = q\<lparr>fq_freed := fq_freed q @ [skb]\<rparr>"

text \<open>The conversion of C to a signed 32-bit number.\<close>

definition to_s32 :: "int \<Rightarrow> int" where
  "to_s32 x = signed_take_bit 31 x"

text \<open>\<open>list_del_init\<close> of the link of a flow, wherever it is, and \<open>list_move_tail\<close> to the old flows of a tin.\<close>

definition unlink_flow :: "flow_id \<Rightarrow> fq \<Rightarrow> fq" where
  "unlink_flow f q =
     q\<lparr>fq_tins := (\<lambda>t. (fq_tins q t)\<lparr>new_flows := filter ((\<noteq>) f) (new_flows (fq_tins q t)),
                                    old_flows := filter ((\<noteq>) f) (old_flows (fq_tins q t))\<rparr>)\<rparr>"

definition move_tail_old :: "nat \<Rightarrow> flow_id \<Rightarrow> fq \<Rightarrow> fq" where
  "move_tail_old t f q = upd_tin t (\<lambda>T. T\<lparr>old_flows := old_flows T @ [f]\<rparr>) (unlink_flow f q)"


section \<open>Removal\<close>

definition adjust_removal :: "fq \<Rightarrow> flow_id \<Rightarrow> u32 \<Rightarrow> u32 \<Rightarrow> u32 \<Rightarrow> fq option" where
  "adjust_removal q f packets bytes truesize =
     (case fl_tin (fq_flows q f) of
        None \<Rightarrow> None
      | Some t \<Rightarrow>
          let q = upd_tin t (\<lambda>T. T\<lparr>backlog_bytes := backlog_bytes T - bytes, backlog_packets := backlog_packets T - packets\<rparr>) q;
              q = upd_flow f (\<lambda>F. F\<lparr>fl_backlog := fl_backlog F - bytes\<rparr>) q;
              q = q\<lparr>fq_backlog := fq_backlog q - packets, memory_usage := memory_usage q - truesize\<rparr>
          in if fl_backlog (fq_flows q f) \<noteq> 0 then Some q
             else if f = DefaultFlow t then Some (q\<lparr>tin_backlog := filter ((\<noteq>) t) (tin_backlog q)\<rparr>)
             else case f of
                    Flow idx \<Rightarrow> Some (q\<lparr>flows_bitmap := (flows_bitmap q)(idx := False)\<rparr>)
                  | DefaultFlow _ \<Rightarrow> None)"

definition fq_adjust_removal :: "fq \<Rightarrow> flow_id \<Rightarrow> fq_skb \<Rightarrow> fq option" where
  "fq_adjust_removal q f skb = adjust_removal q f 1 (skb_len skb) (skb_truesize skb)"

definition fq_flow_dequeue :: "flow_id \<Rightarrow> fq \<Rightarrow> (fq_skb option \<times> fq) option" where
  "fq_flow_dequeue f q =
     (case fl_queue (fq_flows q f) of
        [] \<Rightarrow> Some (None, q)
      | skb # rest \<Rightarrow> do {
          q \<leftarrow> fq_adjust_removal (upd_flow f (\<lambda>F. F\<lparr>fl_queue := rest\<rparr>) q) f skb;
          Some (Some skb, q)
        })"

text \<open>The \<open>do\<close> loop over the queue: what remains of it, the frames freed, and the three sums.\<close>

fun drop_loop :: "nat \<Rightarrow> fq_skb list \<Rightarrow> nat \<Rightarrow> u32 \<Rightarrow> u32 \<Rightarrow> fq_skb list \<Rightarrow> fq_skb list \<times> nat \<times> u32 \<times> u32 \<times> fq_skb list" where
  "drop_loop pending [] packets bytes truesize freed = ([], packets, bytes, truesize, freed)"
| "drop_loop pending (skb # rest) packets bytes truesize freed =
     (let packets = packets + 1; bytes = bytes + skb_len skb; truesize = truesize + skb_truesize skb; freed = freed @ [skb]
      in if packets < pending then drop_loop pending rest packets bytes truesize freed
         else (rest, packets, bytes, truesize, freed))"

definition fq_flow_drop :: "flow_id \<Rightarrow> fq \<Rightarrow> (nat \<times> fq) option" where
  "fq_flow_drop f q =
     (let queue = fl_queue (fq_flows q f); pending = min 32 (length queue div 2);
          (rest, packets, bytes, truesize, freed) = drop_loop pending queue 0 0 0 [];
          q = fold free_func freed (upd_flow f (\<lambda>F. F\<lparr>fl_queue := rest\<rparr>) q)
      in do {
        q \<leftarrow> adjust_removal q f (of_nat packets) bytes truesize;
        Some (packets, q)
      })"


section \<open>Dequeueing\<close>

text \<open>The first flow of the new flows, or else of the old ones; the flag says which list it is the head of.\<close>

definition next_flow :: "fq_tin \<Rightarrow> (bool \<times> flow_id) option" where
  "next_flow T =
     (case new_flows T of
        f # _ \<Rightarrow> Some (True, f)
      | [] \<Rightarrow> (case old_flows T of f # _ \<Rightarrow> Some (False, f) | [] \<Rightarrow> None))"

text \<open>What happens to a flow that gave no frame: moved to the old flows, or taken off.\<close>

definition retire_flow :: "nat \<Rightarrow> bool \<Rightarrow> flow_id \<Rightarrow> fq \<Rightarrow> fq" where
  "retire_flow t is_new f q =
     (if is_new \<and> old_flows (fq_tins q t) \<noteq> [] then move_tail_old t f q
      else upd_flow f (\<lambda>F. F\<lparr>fl_tin := None\<rparr>) (unlink_flow f q))"

partial_function (option) fq_tin_dequeue ::
  "(nat \<Rightarrow> flow_id \<Rightarrow> ('s::type \<times> fq) \<Rightarrow> (fq_skb option \<times> 's \<times> fq) option) \<Rightarrow> nat \<Rightarrow> 's \<times> fq \<Rightarrow> (fq_skb option \<times> 's \<times> fq) option"
where
  "fq_tin_dequeue dequeue_func t sq =
     (case sq of (s, q) \<Rightarrow>
        case next_flow (fq_tins q t) of
          None \<Rightarrow> Some (None, s, q)
        | Some (is_new, f) \<Rightarrow>
            if fl_deficit (fq_flows q f) \<le> 0 then
              fq_tin_dequeue dequeue_func t
                (s, move_tail_old t f (upd_flow f (\<lambda>F. F\<lparr>fl_deficit := to_s32 (fl_deficit F + uint (quantum q))\<rparr>) q))
            else do {
              (skb, s, q) \<leftarrow> dequeue_func t f (s, q);
              case skb of
                None \<Rightarrow> fq_tin_dequeue dequeue_func t (s, retire_flow t is_new f q)
              | Some skb \<Rightarrow>
                  Some (Some skb, s,
                    upd_tin t (\<lambda>T. T\<lparr>tx_bytes := tx_bytes T + skb_len skb, tx_packets := tx_packets T + 1\<rparr>)
                      (upd_flow f (\<lambda>F. F\<lparr>fl_deficit := to_s32 (fl_deficit F - uint (skb_len skb))\<rparr>) q))
            })"


section \<open>Enqueueing\<close>

definition fq_flow_idx :: "u32 \<Rightarrow> fq \<Rightarrow> nat" where
  "fq_flow_idx hash q = unat (reciprocal_scale hash (flows_cnt q))"

definition fq_flow_classify :: "nat \<Rightarrow> nat \<Rightarrow> fq \<Rightarrow> flow_id \<times> fq" where
  "fq_flow_classify t idx q =
     (let tin = fl_tin (fq_flows q (Flow idx));
          (f, q) = (if tin \<noteq> None \<and> tin \<noteq> Some t then
                      (DefaultFlow t,
                       upd_tin t (\<lambda>T. T\<lparr>tin_collisions := tin_collisions T + 1\<rparr>) (q\<lparr>fq_collisions := fq_collisions q + 1\<rparr>))
                    else (Flow idx, q));
          q = (if fl_tin (fq_flows q f) = None then upd_tin t (\<lambda>T. T\<lparr>tin_flows := tin_flows T + 1\<rparr>) q else q)
      in (f, q))"

text \<open>One step of the search, and the two loops of it.\<close>

definition fatter :: "fq \<Rightarrow> flow_id \<Rightarrow> flow_id option \<times> u32 \<Rightarrow> flow_id option \<times> u32" where
  "fatter q cur acc = (let cur_len = fl_backlog (fq_flows q cur) in if cur_len \<le> snd acc then acc else (Some cur, cur_len))"

definition fq_find_fattest_flow :: "fq \<Rightarrow> flow_id option" where
  "fq_find_fattest_flow q =
     fst (fold (fatter q)
       (map Flow (filter (flows_bitmap q) [0..<unat (flows_cnt q)]) @ map DefaultFlow (tin_backlog q)) (None, 0))"

text \<open>The loop that frees frames of the fattest flow until the limits are kept.\<close>

partial_function (option) enforce_limits :: "bool \<Rightarrow> fq \<Rightarrow> fq option" where
  "enforce_limits oom q =
     (if fq_limit q < fq_backlog q \<or> oom then
        case fq_find_fattest_flow q of
          None \<Rightarrow> Some q
        | Some f \<Rightarrow> do {
            (n, q) \<leftarrow> fq_flow_drop f q;
            if n = 0 then Some q
            else case fl_tin (fq_flows q f) of
                   None \<Rightarrow> None
                 | Some t \<Rightarrow>
                     let q = upd_tin t (\<lambda>T. T\<lparr>tin_overlimit := tin_overlimit T + 1\<rparr>) q;
                         q = q\<lparr>fq_overlimit := fq_overlimit q + 1\<rparr>
                     in if oom then
                          let q = q\<lparr>overmemory := overmemory q + 1\<rparr> in enforce_limits (memory_limit q < memory_usage q) q
                        else enforce_limits oom q
          }
      else Some q)"

definition enqueue_skb :: "nat \<Rightarrow> flow_id \<Rightarrow> fq_skb \<Rightarrow> fq \<Rightarrow> fq" where
  "enqueue_skb t f skb q =
     (let q = upd_flow f (\<lambda>F. F\<lparr>fl_backlog := fl_backlog F + skb_len skb, fl_queue := fl_queue F @ [skb]\<rparr>) q;
          q = upd_tin t (\<lambda>T. T\<lparr>backlog_bytes := backlog_bytes T + skb_len skb, backlog_packets := backlog_packets T + 1\<rparr>) q
      in q\<lparr>memory_usage := memory_usage q + skb_truesize skb, fq_backlog := fq_backlog q + 1\<rparr>)"

definition linked :: "nat \<Rightarrow> flow_id \<Rightarrow> fq \<Rightarrow> bool" where
  "linked t f q \<longleftrightarrow> f \<in> set (new_flows (fq_tins q t)) \<or> f \<in> set (old_flows (fq_tins q t))"

text \<open>The part before the limits. The link of the flow can only be on the chains of its tin, which is \<open>t\<close> here.\<close>

definition enqueue_skbs :: "nat \<Rightarrow> nat \<Rightarrow> fq_skb list \<Rightarrow> fq \<Rightarrow> fq" where
  "enqueue_skbs t idx skbs q =
     (let (f, q) = fq_flow_classify t idx q;
          q = (if fl_backlog (fq_flows q f) = 0 then
                 if f \<noteq> DefaultFlow t then q\<lparr>flows_bitmap := (flows_bitmap q)(idx := True)\<rparr>
                 else if t \<notin> set (tin_backlog q) then q\<lparr>tin_backlog := t # tin_backlog q\<rparr>
                 else q
               else q);
          q = upd_flow f (\<lambda>F. F\<lparr>fl_tin := Some t\<rparr>) q;
          q = fold (enqueue_skb t f) skbs q
      in if \<not> linked t f q then
           upd_tin t (\<lambda>T. T\<lparr>new_flows := new_flows T @ [f]\<rparr>) (upd_flow f (\<lambda>F. F\<lparr>fl_deficit := to_s32 (uint (quantum q))\<rparr>) q)
         else q)"

definition fq_tin_enqueue :: "nat \<Rightarrow> nat \<Rightarrow> fq_skb list \<Rightarrow> fq \<Rightarrow> fq option" where
  "fq_tin_enqueue t idx skbs q =
     (let q = enqueue_skbs t idx skbs q in enforce_limits (memory_limit q < memory_usage q) q)"


section \<open>Filtering and resetting\<close>

text \<open>The walk over the queue, from the frames already passed to those ahead.\<close>

fun filter_walk :: "(fq_skb \<Rightarrow> bool) \<Rightarrow> flow_id \<Rightarrow> fq_skb list \<Rightarrow> fq_skb list \<Rightarrow> fq \<Rightarrow> fq option" where
  "filter_walk filter_func f kept [] q = Some q"
| "filter_walk filter_func f kept (skb # rest) q =
     (if \<not> filter_func skb then filter_walk filter_func f (kept @ [skb]) rest q
      else do {
        q \<leftarrow> fq_adjust_removal (upd_flow f (\<lambda>F. F\<lparr>fl_queue := kept @ rest\<rparr>) q) f skb;
        filter_walk filter_func f kept rest (free_func skb q)
      })"

definition fq_flow_filter :: "(fq_skb \<Rightarrow> bool) \<Rightarrow> flow_id \<Rightarrow> fq \<Rightarrow> fq option" where
  "fq_flow_filter filter_func f q = filter_walk filter_func f [] (fl_queue (fq_flows q f)) q"

fun filter_flows :: "(fq_skb \<Rightarrow> bool) \<Rightarrow> flow_id list \<Rightarrow> fq \<Rightarrow> fq option" where
  "filter_flows filter_func [] q = Some q"
| "filter_flows filter_func (f # fs) q = do { q \<leftarrow> fq_flow_filter filter_func f q; filter_flows filter_func fs q }"

definition fq_tin_filter :: "(fq_skb \<Rightarrow> bool) \<Rightarrow> nat \<Rightarrow> fq \<Rightarrow> fq option" where
  "fq_tin_filter filter_func t q = do {
     q \<leftarrow> filter_flows filter_func (new_flows (fq_tins q t)) q;
     filter_flows filter_func (old_flows (fq_tins q t)) q
   }"

partial_function (option) reset_loop :: "flow_id \<Rightarrow> fq \<Rightarrow> fq option" where
  "reset_loop f q = do {
     (skb, q) \<leftarrow> fq_flow_dequeue f q;
     case skb of None \<Rightarrow> Some q | Some skb \<Rightarrow> reset_loop f (free_func skb q)
   }"

text \<open>A flow with no tin can be reset only if it is on no chain; the array of flows as a whole is reset when no tin is
  left.\<close>

definition fq_flow_reset :: "flow_id \<Rightarrow> fq \<Rightarrow> fq option" where
  "fq_flow_reset f q =
     (let tin = fl_tin (fq_flows q f) in do {
       q \<leftarrow> reset_loop f q;
       q \<leftarrow> (case tin of
              None \<Rightarrow> Some q
            | Some t \<Rightarrow>
                if linked t f q then
                  let q = unlink_flow f q
                  in Some (if new_flows (fq_tins q t) = [] \<and> old_flows (fq_tins q t) = []
                           then q\<lparr>tin_backlog := filter ((\<noteq>) t) (tin_backlog q)\<rparr> else q)
                else Some q);
       Some (upd_flow f (\<lambda>F. F\<lparr>fl_tin := None\<rparr>) q)
     })"

partial_function (option) fq_tin_reset :: "nat \<Rightarrow> fq \<Rightarrow> fq option" where
  "fq_tin_reset t q =
     (case next_flow (fq_tins q t) of
        None \<Rightarrow> Some q
      | Some (_, f) \<Rightarrow> do { q \<leftarrow> fq_flow_reset f q; fq_tin_reset t q })"

definition fq_flow_init :: fq_flow where
  "fq_flow_init = \<lparr>fl_tin = None, fl_queue = [], fl_backlog = 0, fl_deficit = 0\<rparr>"

definition tin_init :: fq_tin where
  "tin_init =
     \<lparr>new_flows = [], old_flows = [], backlog_bytes = 0, backlog_packets = 0, tin_overlimit = 0, tin_collisions = 0,
      tin_flows = 0, tx_bytes = 0, tx_packets = 0\<rparr>"

text \<open>The initialisation of a tin in zeroed memory.\<close>

definition fq_tin_init :: "nat \<Rightarrow> fq \<Rightarrow> fq" where
  "fq_tin_init t q = upd_flow (DefaultFlow t) (\<lambda>_. fq_flow_init) (upd_tin t (\<lambda>_. tin_init) q)"

text \<open>\<open>flows_ok\<close> and \<open>bitmap_ok\<close>: the two allocations succeed.\<close>

definition fq_init :: "bool \<Rightarrow> bool \<Rightarrow> u32 \<Rightarrow> fq option" where
  "fq_init flows_ok bitmap_ok cnt =
     (if \<not> flows_ok \<or> \<not> bitmap_ok then None
      else Some \<lparr>fq_flows = (\<lambda>_. fq_flow_init), fq_tins = (\<lambda>_. tin_init), flows_bitmap = (\<lambda>_. False), tin_backlog = [],
        flows_cnt = max cnt 1, fq_limit = 8192, memory_limit = push_bit 20 16, memory_usage = 0, quantum = 300,
        fq_backlog = 0, fq_overlimit = 0, overmemory = 0, fq_collisions = 0, fq_freed = []\<rparr>)"

text \<open>The reset of all hashed flows, before the array is freed.\<close>

fun reset_flows :: "flow_id list \<Rightarrow> fq \<Rightarrow> fq option" where
  "reset_flows [] q = Some q"
| "reset_flows (f # fs) q = do { q \<leftarrow> fq_flow_reset f q; reset_flows fs q }"

definition fq_reset :: "fq \<Rightarrow> fq option" where
  "fq_reset q = reset_flows (map Flow [0..<unat (flows_cnt q)]) q"

end
