(* ===== verification/TxQueue.thy ===== *)
theory TxQueue
  imports FairQueue
begin

text \<open>
  The intermediate transmit queues of net/mac80211/tx.c: fair queueing and CoDel put together, one queue (\<open>struct
  txq_info\<close>) per tin. A queue is known by the number of its tin. The hash of a frame is an argument, as the network
  layer computes it; the hardware flags are arguments of the set-up.
\<close>


section \<open>State\<close>

abbreviation (input) IEEE80211_NUM_TIDS :: nat where "IEEE80211_NUM_TIDS \<equiv> 16"
abbreviation (input) IEEE80211_AC_VO :: nat where "IEEE80211_AC_VO \<equiv> 0"
abbreviation (input) IEEE80211_AC_BE :: nat where "IEEE80211_AC_BE \<equiv> 2"

text \<open>\<open>txq_frags\<close> are the frames that go out first; with each, whether it still has to go through the transmit
  handlers. \<open>txq_published\<close>: the queue is entered in its station or interface.\<close>

record txq_info =
  def_cvars :: codel_vars
  cstats :: codel_stats
  txq_frags :: "(fq_skb \<times> bool) list"
  txq_tid :: nat
  txq_ac :: nat
  txq_sta :: "nat option"
  txq_published :: bool
  TXQ_STOP :: bool
  TXQ_DIRTY :: bool

record txq_local =
  cvars :: "nat \<Rightarrow> codel_vars"
  local_cparams :: codel_params
  sta_cparams :: "nat \<Rightarrow> codel_params"
  txqs :: "nat \<Rightarrow> txq_info"
  active_txqs :: "nat \<Rightarrow> nat list"

definition upd_txq :: "nat \<Rightarrow> (txq_info \<Rightarrow> txq_info) \<Rightarrow> txq_local \<Rightarrow> txq_local" where
  "upd_txq t g s = s\<lparr>txqs := (txqs s)(t := g (txqs s t))\<rparr>"

definition ieee802_1d_to_ac :: "nat list" where
  "ieee802_1d_to_ac = [2, 3, 3, 2, 1, 1, 0, 0]"

definition ieee80211_ac_from_tid :: "nat \<Rightarrow> nat" where
  "ieee80211_ac_from_tid tid = ieee802_1d_to_ac ! (tid mod 8)"


section \<open>Callbacks\<close>

definition codel_drop_func :: "fq_skb \<Rightarrow> fq \<Rightarrow> fq" where
  "codel_drop_func skb q = free_func skb q"

definition codel_dequeue_func :: "flow_id \<Rightarrow> fq \<Rightarrow> (fq_skb option \<times> fq) option" where
  "codel_dequeue_func f q = fq_flow_dequeue f q"

definition fq_tin_dequeue_func ::
  "(fq_skb \<Rightarrow> bool) \<Rightarrow> (fq_skb \<Rightarrow> int) \<Rightarrow> codel_time \<Rightarrow> nat \<Rightarrow> flow_id \<Rightarrow> txq_local \<times> fq \<Rightarrow> (fq_skb option \<times> txq_local \<times> fq) option"
where
  "fq_tin_dequeue_func ect dsfield now t f = (\<lambda>(s, q).
     let X = txqs s t;
         params = (case txq_sta X of Some sta \<Rightarrow> sta_cparams s sta | None \<Rightarrow> local_cparams s);
         vars = (case f of DefaultFlow _ \<Rightarrow> def_cvars X | Flow i \<Rightarrow> cvars s i)
     in do {
       (skb, vars, stats, q) \<leftarrow> codel_dequeue (codel_dequeue_func f) codel_drop_func (\<lambda>q. fl_backlog (fq_flows q f))
                                 ect dsfield params now vars (cstats X) q;
       let s = upd_txq t (\<lambda>X. X\<lparr>cstats := stats\<rparr>) s;
       let s = (case f of
                  DefaultFlow _ \<Rightarrow> upd_txq t (\<lambda>X. X\<lparr>def_cvars := vars\<rparr>) s
                | Flow i \<Rightarrow> s\<lparr>cvars := (cvars s)(i := vars)\<rparr>);
       Some (skb, s, q)
     })"


section \<open>Operations\<close>

definition ieee80211_set_skb_enqueue_time :: "codel_time \<Rightarrow> fq_skb list \<Rightarrow> fq_skb list" where
  "ieee80211_set_skb_enqueue_time now = map (\<lambda>skb. skb\<lparr>enqueue_time := now\<rparr>)"

text \<open>A frame for the management queue comes alone.\<close>

definition ieee80211_txq_enqueue :: "u32 \<Rightarrow> codel_time \<Rightarrow> nat \<Rightarrow> fq_skb list \<Rightarrow> txq_local \<times> fq \<Rightarrow> (txq_local \<times> fq) option" where
  "ieee80211_txq_enqueue hash now t skbs = (\<lambda>(s, q).
     let flow_idx = fq_flow_idx hash q; skbs = ieee80211_set_skb_enqueue_time now skbs
     in if txq_tid (txqs s t) = IEEE80211_NUM_TIDS then
          Some (upd_txq t (\<lambda>X. X\<lparr>txq_frags := txq_frags X @ [(hd skbs, True)]\<rparr>) s, q)
        else do { q \<leftarrow> fq_tin_enqueue t flow_idx skbs q; Some (s, q) })"

definition fq_vlan_filter_func :: "nat \<Rightarrow> fq_skb \<Rightarrow> bool" where
  "fq_vlan_filter_func vif skb \<longleftrightarrow> skb_vif skb = vif"

text \<open>\<open>ap_txq\<close> is the queue of the access point the VLAN interface belongs to, if it has one.\<close>

definition ieee80211_txq_remove_vlan :: "bool \<Rightarrow> nat option \<Rightarrow> nat \<Rightarrow> txq_local \<times> fq \<Rightarrow> (txq_local \<times> fq) option" where
  "ieee80211_txq_remove_vlan is_ap_vlan ap_txq vif = (\<lambda>(s, q).
     if \<not> is_ap_vlan then Some (s, q)
     else case ap_txq of
            None \<Rightarrow> Some (s, q)
          | Some t \<Rightarrow> do { q \<leftarrow> fq_tin_filter (fq_vlan_filter_func vif) t q; Some (s, q) })"

text \<open>The rest of the queue is zeroed memory.\<close>

definition zeroed_txq :: txq_info where
  "zeroed_txq =
     \<lparr>def_cvars = codel_vars_init, cstats = \<lparr>maxpacket = 0, drop_count = 0, drop_len = 0, ecn_mark = 0, ce_mark = 0\<rparr>,
      txq_frags = [], txq_tid = 0, txq_ac = 0, txq_sta = None, txq_published = False, TXQ_STOP = False, TXQ_DIRTY = False\<rparr>"

definition ieee80211_txq_init :: "bool \<Rightarrow> bool \<Rightarrow> bool \<Rightarrow> nat option \<Rightarrow> nat \<Rightarrow> nat \<Rightarrow> txq_local \<times> fq \<Rightarrow> txq_local \<times> fq" where
  "ieee80211_txq_init is_station STA_MMPDU_TXQ BUFF_MMPDU_TXQ sta tid t = (\<lambda>(s, q).
     let q = fq_tin_init t q;
         s = upd_txq t (\<lambda>_. zeroed_txq\<lparr>cstats := codel_stats_init (cstats zeroed_txq)\<rparr>) s
     in case sta of
          None \<Rightarrow> (upd_txq t (\<lambda>X. X\<lparr>txq_published := True, txq_tid := 0, txq_ac := IEEE80211_AC_BE\<rparr>) s, q)
        | Some a \<Rightarrow>
            if tid = IEEE80211_NUM_TIDS \<and> (if is_station then \<not> STA_MMPDU_TXQ else \<not> BUFF_MMPDU_TXQ) then (s, q)
            else
              let ac = (if tid = IEEE80211_NUM_TIDS then IEEE80211_AC_VO else ieee80211_ac_from_tid tid)
              in (upd_txq t (\<lambda>X. X\<lparr>txq_ac := ac, txq_sta := Some a, txq_tid := tid, txq_published := True\<rparr>) s, q))"

definition ieee80211_txq_purge :: "nat \<Rightarrow> txq_local \<times> fq \<Rightarrow> (txq_local \<times> fq) option" where
  "ieee80211_txq_purge t = (\<lambda>(s, q). do {
     q \<leftarrow> fq_tin_reset t q;
     let q = fold free_func (map fst (txq_frags (txqs s t))) q;
     let s = upd_txq t (\<lambda>X. X\<lparr>txq_frags := []\<rparr>) s;
     let ac = txq_ac (txqs s t);
     Some (s\<lparr>active_txqs := (active_txqs s)(ac := filter ((\<noteq>) t) (active_txqs s ac))\<rparr>, q)
   })"

text \<open>The parameters of the wiphy that are set override, those that are zero are filled in.\<close>

record txq_params =
  txq_limit :: u32
  txq_memory_limit :: u32
  txq_quantum :: u32

definition ieee80211_txq_set_params :: "txq_params \<Rightarrow> fq \<Rightarrow> txq_params \<times> fq" where
  "ieee80211_txq_set_params w q =
     (let (w, q) = (if txq_limit w \<noteq> 0 then (w, q\<lparr>fq_limit := txq_limit w\<rparr>) else (w\<lparr>txq_limit := fq_limit q\<rparr>, q));
          (w, q) = (if txq_memory_limit w \<noteq> 0 then (w, q\<lparr>memory_limit := txq_memory_limit w\<rparr>)
                    else (w\<lparr>txq_memory_limit := memory_limit q\<rparr>, q));
          (w, q) = (if txq_quantum w \<noteq> 0 then (w, q\<lparr>quantum := txq_quantum w\<rparr>) else (w\<lparr>txq_quantum := quantum q\<rparr>, q))
      in (w, q))"

text \<open>The set-up for a driver that has no queue of its own. \<open>vht\<close>: for each band, if present, whether it supports
  VHT; the last flag: the allocation of the CoDel variables succeeds. \<open>None\<close> is \<open>-ENOMEM\<close>.\<close>

definition ieee80211_txq_setup_flows :: "bool \<Rightarrow> bool \<Rightarrow> bool \<Rightarrow> bool option list \<Rightarrow> txq_params \<Rightarrow> txq_local \<Rightarrow> (txq_params \<times> txq_local \<times> fq) option" where
  "ieee80211_txq_setup_flows flows_ok bitmap_ok cvars_ok vht w s = do {
     q \<leftarrow> fq_init flows_ok bitmap_ok 4096;
     let supp_vht = fold (\<lambda>b supp. case b of None \<Rightarrow> supp | Some v \<Rightarrow> supp \<or> v) vht False;
     let q = (if \<not> supp_vht then q\<lparr>memory_limit := push_bit 20 4\<rparr> else q);
     let p = codel_params_init (local_cparams s);
     let s = s\<lparr>local_cparams := p\<lparr>interval := MS2TIME 100, target := MS2TIME 20, ecn := True\<rparr>\<rparr>;
     if \<not> cvars_ok then None
     else
       let s = s\<lparr>cvars := (\<lambda>_. codel_vars_init)\<rparr>; (w, q) = ieee80211_txq_set_params w q
       in Some (w, s, q)
   }"

text \<open>How \<open>ieee80211_tx_dequeue\<close> picks a frame: the frame and whether the transmit handlers are to be run on it.\<close>

definition tx_dequeue_pick ::
  "(fq_skb \<Rightarrow> bool) \<Rightarrow> (fq_skb \<Rightarrow> int) \<Rightarrow> codel_time \<Rightarrow> bool \<Rightarrow> nat \<Rightarrow> txq_local \<times> fq \<Rightarrow> ((fq_skb \<times> bool) option \<times> txq_local \<times> fq) option"
where
  "tx_dequeue_pick ect dsfield now q_stopped t = (\<lambda>(s, q).
     if q_stopped then Some (None, upd_txq t (\<lambda>X. X\<lparr>TXQ_DIRTY := True\<rparr>) s, q)
     else case txq_frags (txqs s t) of
            (skb, need) # rest \<Rightarrow> Some (Some (skb, need), upd_txq t (\<lambda>X. X\<lparr>txq_frags := rest\<rparr>) s, q)
          | [] \<Rightarrow>
              if TXQ_STOP (txqs s t) then Some (None, s, q)
              else do {
                (skb, s, q) \<leftarrow> fq_tin_dequeue (fq_tin_dequeue_func ect dsfield now) t (s, q);
                Some (map_option (\<lambda>p. (p, True)) skb, s, q)
              })"

end
