(* ===== verification/Airtime.thy ===== *)
theory Airtime
  imports TxQueue SeqNum
begin

text \<open>
  The airtime scheduler of net/mac80211/tx.c: which transmit queue a driver may serve next. A deficit round robin over
  the active queues of an access category shares the airtime between the stations, and the limits on pending airtime
  (AQL) keep the queues of the hardware short; the accounts are kept by sta_info.c. The queues are those of TxQueue; a
  station is known by its number. Signed 32-bit fields are words read with \<open>sint\<close>.
\<close>


section \<open>State\<close>

record airtime_info =
  rx_airtime :: u64
  tx_airtime :: u64
  last_active :: u64
  deficit :: u32
  aql_tx_pending :: u32
  aql_limit_low :: u32
  aql_limit_high :: u32

record airtime_sta =
  airtime :: "nat \<Rightarrow> airtime_info"
  airtime_weight :: u16

text \<open>\<open>txq_round\<close> is the field \<open>schedule_round\<close> of a queue. \<open>AQL\<close> and \<open>AIRTIME_FAIRNESS\<close> are features of the
  wiphy, \<open>aql_disable\<close> the static key.\<close>

record airtime_local =
  schedule_round :: "nat \<Rightarrow> u16"
  txq_round :: "nat \<Rightarrow> u16"
  airtime_flags :: u16
  aql_txq_limit_low :: "nat \<Rightarrow> u32"
  aql_txq_limit_high :: "nat \<Rightarrow> u32"
  aql_threshold :: u32
  aql_total_pending_airtime :: u32
  aql_ac_pending_airtime :: "nat \<Rightarrow> u32"
  stas :: "nat \<Rightarrow> airtime_sta"
  AQL :: bool
  AIRTIME_FAIRNESS :: bool
  aql_disable :: bool

type_synonym sched = "airtime_local \<times> txq_local"

definition upd_airtime :: "nat \<Rightarrow> nat \<Rightarrow> (airtime_info \<Rightarrow> airtime_info) \<Rightarrow> airtime_local \<Rightarrow> airtime_local" where
  "upd_airtime sta ac g a =
     (let X = stas a sta in a\<lparr>stas := (stas a)(sta := X\<lparr>airtime := (airtime X)(ac := g (airtime X ac))\<rparr>)\<rparr>)"

text \<open>A queue is linked into at most one of the lists.\<close>

definition list_del_txq :: "nat \<Rightarrow> txq_local \<Rightarrow> txq_local" where
  "list_del_txq t s = s\<lparr>active_txqs := (\<lambda>ac. filter ((\<noteq>) t) (active_txqs s ac))\<rparr>"

definition list_add_txq :: "nat \<Rightarrow> nat \<Rightarrow> txq_local \<Rightarrow> txq_local" where
  "list_add_txq t ac s = s\<lparr>active_txqs := (active_txqs s)(ac := t # active_txqs s ac)\<rparr>"

definition list_add_tail_txq :: "nat \<Rightarrow> nat \<Rightarrow> txq_local \<Rightarrow> txq_local" where
  "list_add_tail_txq t ac s = s\<lparr>active_txqs := (active_txqs s)(ac := active_txqs s ac @ [t])\<rparr>"

definition txq_linked :: "nat \<Rightarrow> txq_local \<Rightarrow> bool" where
  "txq_linked t s \<longleftrightarrow> t \<in> set (active_txqs s (txq_ac (txqs s t)))"

definition list_move_tail_txq :: "nat \<Rightarrow> nat \<Rightarrow> txq_local \<Rightarrow> txq_local" where
  "list_move_tail_txq t ac s = list_add_tail_txq t ac (list_del_txq t s)"


section \<open>Airtime accounts\<close>

abbreviation (input) AIRTIME_USE_TX :: nat where "AIRTIME_USE_TX \<equiv> 0"
abbreviation (input) AIRTIME_USE_RX :: nat where "AIRTIME_USE_RX \<equiv> 1"

definition new_airtime_sta :: "airtime_local \<Rightarrow> airtime_sta" where
  "new_airtime_sta a =
     \<lparr>airtime = (\<lambda>ac. \<lparr>rx_airtime = 0, tx_airtime = 0, last_active = 0, deficit = 256, aql_tx_pending = 0,
        aql_limit_low = aql_txq_limit_low a ac, aql_limit_high = aql_txq_limit_high a ac\<rparr>),
      airtime_weight = 256\<rparr>"

definition set_airtime_weight :: "u16 \<Rightarrow> airtime_sta \<Rightarrow> airtime_sta" where
  "set_airtime_weight w X = (if w \<noteq> 0 then X\<lparr>airtime_weight := w\<rparr> else X)"

text \<open>The accounts \<open>ieee80211_alloc_hw_nm\<close> sets up; the memory is zeroed, and the features are up to the driver.\<close>

definition alloc_hw_airtime :: "bool \<Rightarrow> bool \<Rightarrow> airtime_local" where
  "alloc_hw_airtime aql fairness =
     \<lparr>schedule_round = (\<lambda>_. 0), txq_round = (\<lambda>_. 0), airtime_flags = 3, aql_txq_limit_low = (\<lambda>_. 5000),
      aql_txq_limit_high = (\<lambda>_. 12000), aql_threshold = 24000, aql_total_pending_airtime = 0,
      aql_ac_pending_airtime = (\<lambda>_. 0),
      stas = (\<lambda>_. \<lparr>airtime = (\<lambda>ac. \<lparr>rx_airtime = 0, tx_airtime = 0, last_active = 0, deficit = 256, aql_tx_pending = 0,
                       aql_limit_low = 5000, aql_limit_high = 12000\<rparr>), airtime_weight = 256\<rparr>),
      AQL = aql, AIRTIME_FAIRNESS = fairness, aql_disable = False\<rparr>"

text \<open>\<open>HZ / 10\<close> with \<open>HZ\<close> = 100; \<open>time_before_eq(x, y)\<close> is the negation of \<open>time_after(x, y)\<close>.\<close>

definition ieee80211_sta_keep_active :: "u64 \<Rightarrow> airtime_local \<Rightarrow> nat \<Rightarrow> nat \<Rightarrow> bool" where
  "ieee80211_sta_keep_active jiffies a sta ac \<longleftrightarrow> \<not> time_after jiffies (last_active (airtime (stas a sta) ac) + 10)"

definition ieee80211_sta_register_airtime :: "u64 \<Rightarrow> nat \<Rightarrow> nat \<Rightarrow> u32 \<Rightarrow> u32 \<Rightarrow> airtime_local \<Rightarrow> airtime_local" where
  "ieee80211_sta_register_airtime jiffies sta tid txa rxa a =
     (let ac = ieee80211_ac_from_tid tid;
          amount = (0 :: u32);
          amount = (if bit (airtime_flags a) AIRTIME_USE_TX then amount + txa else amount);
          amount = (if bit (airtime_flags a) AIRTIME_USE_RX then amount + rxa else amount);
          a = upd_airtime sta ac (\<lambda>X. X\<lparr>tx_airtime := tx_airtime X + ucast txa, rx_airtime := rx_airtime X + ucast rxa\<rparr>) a
      in if ieee80211_sta_keep_active jiffies a sta ac
         then upd_airtime sta ac (\<lambda>X. X\<lparr>deficit := deficit X - amount\<rparr>) a
         else a)"

definition ieee80211_sta_update_pending_airtime :: "nat option \<Rightarrow> nat \<Rightarrow> u16 \<Rightarrow> bool \<Rightarrow> airtime_local \<Rightarrow> airtime_local" where
  "ieee80211_sta_update_pending_airtime sta ac amount tx_completed a =
     (if \<not> AQL a then a
      else if \<not> tx_completed then
        let a = (case sta of
                   Some x \<Rightarrow> upd_airtime x ac (\<lambda>X. X\<lparr>aql_tx_pending := aql_tx_pending X + ucast amount\<rparr>) a
                 | None \<Rightarrow> a)
        in a\<lparr>aql_total_pending_airtime := aql_total_pending_airtime a + ucast amount,
             aql_ac_pending_airtime :=
               (aql_ac_pending_airtime a)(ac := aql_ac_pending_airtime a ac + ucast amount)\<rparr>
      else
        let a = (case sta of
                   Some x \<Rightarrow>
                     let tx_pending = aql_tx_pending (airtime (stas a x) ac) - ucast amount
                     in upd_airtime x ac (\<lambda>X. X\<lparr>aql_tx_pending := if sint tx_pending < 0 then 0 else tx_pending\<rparr>) a
                 | None \<Rightarrow> a);
            a = a\<lparr>aql_total_pending_airtime := aql_total_pending_airtime a - ucast amount\<rparr>;
            tx_pending = aql_ac_pending_airtime a ac - ucast amount
        in if sint tx_pending < 0
           then a\<lparr>aql_ac_pending_airtime := (aql_ac_pending_airtime a)(ac := 0),
                  aql_total_pending_airtime := aql_total_pending_airtime a - tx_pending\<rparr>
           else a\<lparr>aql_ac_pending_airtime := (aql_ac_pending_airtime a)(ac := tx_pending)\<rparr>)"

text \<open>The estimate kept in the frame, ten bits in units of 4 microseconds, and what the two accessors return.\<close>

definition ieee80211_info_get_tx_time_est :: "10 word \<Rightarrow> u16" where
  "ieee80211_info_get_tx_time_est est = push_bit 2 (ucast est)"

definition ieee80211_info_set_tx_time_est :: "u16 \<Rightarrow> 10 word \<times> u16" where
  "ieee80211_info_set_tx_time_est v = (let est = ucast (drop_bit 2 (min v 4095)) in (est, push_bit 2 (ucast est)))"

text \<open>The end of \<open>ieee80211_tx_dequeue\<close> for a frame of a station, with the airtime expected for it, and the
  completion in status.c. The results are the account and the estimate stored in the frame (\<open>est\<close>, zero before).\<close>

definition tx_dequeue_charge :: "nat option \<Rightarrow> nat \<Rightarrow> u32 \<Rightarrow> airtime_local \<Rightarrow> 10 word \<times> airtime_local" where
  "tx_dequeue_charge sta ac expected a =
     (case sta of
        Some x \<Rightarrow>
          if AQL a \<and> expected \<noteq> 0 then
            let (est, amount) = ieee80211_info_set_tx_time_est (ucast expected)
            in (est, ieee80211_sta_update_pending_airtime (Some x) ac amount False a)
          else (0, a)
      | None \<Rightarrow> (0, a))"

definition report_used_skb_airtime :: "nat option \<Rightarrow> nat \<Rightarrow> 10 word \<Rightarrow> airtime_local \<Rightarrow> airtime_local" where
  "report_used_skb_airtime sta ac est a =
     (let tx_time_est = ieee80211_info_get_tx_time_est est
      in if tx_time_est \<noteq> 0 then ieee80211_sta_update_pending_airtime sta ac tx_time_est True a else a)"

text \<open>The status of a frame whose station the driver knows is charged at once, and its estimate cleared so that
  \<open>ieee80211_report_used_skb\<close> does not charge it again.\<close>

definition tx_status_airtime :: "nat option \<Rightarrow> nat \<Rightarrow> 10 word \<Rightarrow> airtime_local \<Rightarrow> 10 word \<times> airtime_local" where
  "tx_status_airtime sta ac est a =
     (let tx_time_est = ieee80211_info_get_tx_time_est est
      in if tx_time_est > 0
         then (fst (ieee80211_info_set_tx_time_est 0), ieee80211_sta_update_pending_airtime sta ac tx_time_est True a)
         else (est, a))"


section \<open>Eligibility\<close>

definition ieee80211_sta_deficit :: "airtime_local \<Rightarrow> nat \<Rightarrow> nat \<Rightarrow> u32" where
  "ieee80211_sta_deficit a sta ac = (let air_info = airtime (stas a sta) ac in deficit air_info - aql_tx_pending air_info)"

definition ieee80211_txq_set_active :: "u64 \<Rightarrow> txq_info \<Rightarrow> airtime_local \<Rightarrow> airtime_local" where
  "ieee80211_txq_set_active jiffies X a =
     (case txq_sta X of
        None \<Rightarrow> a
      | Some sta \<Rightarrow> upd_airtime sta (txq_ac X) (\<lambda>I. I\<lparr>last_active := jiffies\<rparr>) a)"

definition ieee80211_txq_keep_active :: "u64 \<Rightarrow> txq_info \<Rightarrow> airtime_local \<Rightarrow> bool" where
  "ieee80211_txq_keep_active jiffies X a =
     (case txq_sta X of
        None \<Rightarrow> False
      | Some sta \<Rightarrow>
          if sint (ieee80211_sta_deficit a sta (txq_ac X)) \<ge> 0 then False
          else ieee80211_sta_keep_active jiffies a sta (txq_ac X))"

text \<open>The comparisons are between an \<open>int\<close> and a \<open>u32\<close>, hence unsigned.\<close>

definition ieee80211_txq_airtime_check :: "airtime_local \<Rightarrow> txq_info \<Rightarrow> bool" where
  "ieee80211_txq_airtime_check a X =
     (if \<not> AQL a then True
      else if aql_disable a then True
      else case txq_sta X of
             None \<Rightarrow> True
           | Some sta \<Rightarrow>
               if txq_tid X = IEEE80211_NUM_TIDS then True
               else
                 let I = airtime (stas a sta) (txq_ac X)
                 in if aql_tx_pending I < aql_limit_low I then True
                    else if aql_total_pending_airtime a < aql_threshold a \<and> aql_tx_pending I < aql_limit_high I then True
                    else False)"

definition ieee80211_txq_schedule_airtime_check :: "sched \<Rightarrow> nat \<Rightarrow> bool" where
  "ieee80211_txq_schedule_airtime_check = (\<lambda>(a, s) ac.
     if \<not> AQL a then True
     else
       let num_txq = of_nat (length (active_txqs s ac)) :: u32;
           aql_limit = (num_txq - 1) * aql_txq_limit_low a ac div 2 + aql_txq_limit_high a ac
       in aql_ac_pending_airtime a ac < aql_limit)"


section \<open>Scheduling\<close>

definition credit_sta :: "nat \<Rightarrow> nat \<Rightarrow> airtime_local \<Rightarrow> airtime_local" where
  "credit_sta sta ac a = upd_airtime sta ac (\<lambda>X. X\<lparr>deficit := deficit X + ucast (airtime_weight (stas a sta))\<rparr>) a"

definition next_txq_take :: "nat \<Rightarrow> nat \<Rightarrow> sched \<Rightarrow> nat option \<times> sched" where
  "next_txq_take ac t = (\<lambda>(a, s).
     if txq_round a t = schedule_round a ac then (None, a, s)
     else (Some t, a\<lparr>txq_round := (txq_round a)(t := schedule_round a ac)\<rparr>, list_del_txq t s))"

text \<open>One turn of the loop: \<open>Inl\<close> leaves it with a result, \<open>Inr\<close> is the \<open>goto begin\<close>.\<close>

definition next_txq_turn ::
  "nat \<Rightarrow> nat option \<Rightarrow> bool \<Rightarrow> sched \<Rightarrow> (nat option \<times> sched) + (nat option \<times> bool \<times> sched)"
where
  "next_txq_turn ac head found_eligible_txq = (\<lambda>(a, s).
     case active_txqs s ac of
       [] \<Rightarrow> Inl (None, a, s)
     | t # _ \<Rightarrow>
         if head = Some t \<and> \<not> found_eligible_txq then Inl (None, a, s)
         else
           let found = (if head = Some t then False else found_eligible_txq);
               head = (if head = None then Some t else head);
               X = txqs s t
           in case txq_sta X of
                None \<Rightarrow> Inl (next_txq_take ac t (a, s))
              | Some sta \<Rightarrow>
                  let aql_check = ieee80211_txq_airtime_check a X;
                      dfc = ieee80211_sta_deficit a sta (txq_ac X);
                      found = (found \<or> aql_check);
                      a = (if sint dfc < 0 then credit_sta sta (txq_ac X) a else a)
                  in if sint dfc < 0 \<or> \<not> aql_check
                     then Inr (head, found, a, list_move_tail_txq t (txq_ac X) s)
                     else Inl (next_txq_take ac t (a, s)))"

text \<open>\<open>None\<close>: the loop does not end.\<close>

partial_function (option) next_txq_loop :: "nat \<Rightarrow> nat option \<Rightarrow> bool \<Rightarrow> sched \<Rightarrow> (nat option \<times> sched) option" where
  "next_txq_loop ac head found_eligible_txq st =
     (case next_txq_turn ac head found_eligible_txq st of
        Inl r \<Rightarrow> Some r
      | Inr (head, found, st) \<Rightarrow> next_txq_loop ac head found st)"

definition ieee80211_next_txq :: "nat \<Rightarrow> sched \<Rightarrow> (nat option \<times> sched) option" where
  "ieee80211_next_txq ac st =
     (if schedule_round (fst st) ac = 0 then Some (None, st) else next_txq_loop ac None False st)"

definition txq_has_queue :: "nat \<Rightarrow> txq_local \<Rightarrow> fq \<Rightarrow> bool" where
  "txq_has_queue t s q \<longleftrightarrow> \<not> (txq_frags (txqs s t) = [] \<and> backlog_packets (fq_tins q t) = 0)"

text \<open>\<open>__ieee80211_schedule_txq\<close>.\<close>

definition schedule_txq :: "u64 \<Rightarrow> nat \<Rightarrow> bool \<Rightarrow> fq \<Rightarrow> sched \<Rightarrow> sched" where
  "schedule_txq jiffies t force q = (\<lambda>(a, s).
     let X = txqs s t;
         has_queue = (force \<or> txq_has_queue t s q)
     in if \<not> txq_linked t s \<and> (has_queue \<or> ieee80211_txq_keep_active jiffies X a) then
          let s = (if txq_sta X \<noteq> None \<and> airtime_flags a \<noteq> 0 \<and> has_queue \<and> AIRTIME_FAIRNESS a
                   then list_add_txq t (txq_ac X) s else list_add_tail_txq t (txq_ac X) s)
          in (if has_queue then ieee80211_txq_set_active jiffies X a else a, s)
        else (a, s))"

definition ieee80211_schedule_txq :: "u64 \<Rightarrow> nat \<Rightarrow> fq \<Rightarrow> sched \<Rightarrow> sched" where
  "ieee80211_schedule_txq jiffies t q st = schedule_txq jiffies t True q st"

definition ieee80211_return_txq :: "u64 \<Rightarrow> nat \<Rightarrow> bool \<Rightarrow> fq \<Rightarrow> sched \<Rightarrow> sched" where
  "ieee80211_return_txq jiffies t force q st = schedule_txq jiffies t force q st"

text \<open>The loop of \<open>ieee80211_txq_may_transmit\<close> over the queues in front of \<open>t\<close>; the third argument is what is left
  of the list as it was at the start, which is what the safe iterator walks over.\<close>

fun may_transmit_rotate :: "nat \<Rightarrow> nat \<Rightarrow> nat list \<Rightarrow> sched \<Rightarrow> sched" where
  "may_transmit_rotate ac t [] st = st"
| "may_transmit_rotate ac t (iter # rest) (a, s) =
     (if iter = t then (a, s)
      else case txq_sta (txqs s iter) of
             None \<Rightarrow> may_transmit_rotate ac t rest (a, list_move_tail_txq iter ac s)
           | Some sta \<Rightarrow>
               let a = (if sint (ieee80211_sta_deficit a sta ac) < 0 then credit_sta sta ac a else a)
               in may_transmit_rotate ac t rest (a, list_move_tail_txq iter ac s))"

definition may_transmit_out :: "nat \<Rightarrow> sched \<Rightarrow> bool \<times> sched" where
  "may_transmit_out t = (\<lambda>(a, s). (True, a, if txq_linked t s then list_del_txq t s else s))"

definition ieee80211_txq_may_transmit :: "nat \<Rightarrow> sched \<Rightarrow> bool \<times> sched" where
  "ieee80211_txq_may_transmit t = (\<lambda>(a, s).
     let ac = txq_ac (txqs s t)
     in case txq_sta (txqs s t) of
          None \<Rightarrow> may_transmit_out t (a, s)
        | Some sta \<Rightarrow>
            if \<not> txq_linked t s then may_transmit_out t (a, s)
            else if \<not> ieee80211_txq_schedule_airtime_check (a, s) ac then may_transmit_out t (a, s)
            else
              let (a, s) = may_transmit_rotate ac t (active_txqs s ac) (a, s)
              in if sint (deficit (airtime (stas a sta) ac)) \<ge> 0 then may_transmit_out t (a, s)
                 else (False, credit_sta sta ac a, list_move_tail_txq t ac s))"

definition ieee80211_txq_schedule_start :: "nat \<Rightarrow> sched \<Rightarrow> sched" where
  "ieee80211_txq_schedule_start ac = (\<lambda>(a, s).
     if ieee80211_txq_schedule_airtime_check (a, s) ac then
       let r = schedule_round a ac + 1; r = (if r = 0 then r + 1 else r)
       in (a\<lparr>schedule_round := (schedule_round a)(ac := r)\<rparr>, s)
     else (a\<lparr>schedule_round := (schedule_round a)(ac := 0)\<rparr>, s))"

end
