(* ===== verification/AirtimeInv.thy ===== *)
theory AirtimeInv
  imports Airtime
begin

text \<open>
  The invariant of the airtime scheduler, and the search of \<open>ieee80211_next_txq\<close>: it ends because every full
  pass over the list lowers the debt of some station, whatever the wrapped values of the accounts are.
\<close>


section \<open>Invariant\<close>

text \<open>Every list holds queues of its access category, once; every station has a weight.\<close>

definition sched_inv :: "sched \<Rightarrow> bool" where
  "sched_inv = (\<lambda>(a, s).
     (\<forall>ac. distinct (active_txqs s ac) \<and> (\<forall>t \<in> set (active_txqs s ac). txq_ac (txqs s t) = ac)) \<and>
     (\<forall>sta. airtime_weight (stas a sta) \<noteq> 0))"

lemma sched_inv_listD:
  "sched_inv (a, s) \<Longrightarrow> distinct (active_txqs s ac) \<and> (\<forall>t \<in> set (active_txqs s ac). txq_ac (txqs s t) = ac)"
  by (simp add: sched_inv_def)

text \<open>Crediting stations changes deficits only; a turn of the search moves queues within a list.\<close>

definition credited :: "airtime_local \<Rightarrow> airtime_local \<Rightarrow> bool" where
  "credited a a' \<longleftrightarrow>
     a' = a\<lparr>stas := stas a'\<rparr> \<and>
     (\<forall>x. stas a' x = (stas a x)\<lparr>airtime := (\<lambda>ac. (airtime (stas a x) ac)\<lparr>deficit := deficit (airtime (stas a' x) ac)\<rparr>)\<rparr>)"

definition rotated :: "nat \<Rightarrow> sched \<Rightarrow> sched \<Rightarrow> bool" where
  "rotated ac = (\<lambda>(a, s) (a', s').
     credited a a' \<and> s' = s\<lparr>active_txqs := active_txqs s'\<rparr> \<and> mset (active_txqs s' ac) = mset (active_txqs s ac) \<and>
     (\<forall>c. c \<noteq> ac \<longrightarrow> active_txqs s' c = active_txqs s c))"

lemma credited_refl [simp]: "credited a a" by (simp add: credited_def)

lemma credited_fields:
  assumes "credited a a'"
  shows "airtime_weight (stas a' x) = airtime_weight (stas a x)" "AQL a' = AQL a" "aql_disable a' = aql_disable a"
    "schedule_round a' = schedule_round a" "txq_round a' = txq_round a"
    "aql_tx_pending (airtime (stas a' x) c) = aql_tx_pending (airtime (stas a x) c)"
    "aql_limit_low (airtime (stas a' x) c) = aql_limit_low (airtime (stas a x) c)"
    "aql_limit_high (airtime (stas a' x) c) = aql_limit_high (airtime (stas a x) c)"
    "last_active (airtime (stas a' x) c) = last_active (airtime (stas a x) c)"
    "aql_total_pending_airtime a' = aql_total_pending_airtime a" "aql_threshold a' = aql_threshold a"
    "aql_ac_pending_airtime a' = aql_ac_pending_airtime a" "airtime_flags a' = airtime_flags a"
    "AIRTIME_FAIRNESS a' = AIRTIME_FAIRNESS a"
proof -
  have l: "a' = a\<lparr>stas := stas a'\<rparr>"
    and f: "stas a' x = (stas a x)\<lparr>airtime := (\<lambda>ac. (airtime (stas a x) ac)\<lparr>deficit := deficit (airtime (stas a' x) ac)\<rparr>)\<rparr>"
    using assms unfolding credited_def by blast+
  show "airtime_weight (stas a' x) = airtime_weight (stas a x)"
    "aql_tx_pending (airtime (stas a' x) c) = aql_tx_pending (airtime (stas a x) c)"
    "aql_limit_low (airtime (stas a' x) c) = aql_limit_low (airtime (stas a x) c)"
    "aql_limit_high (airtime (stas a' x) c) = aql_limit_high (airtime (stas a x) c)"
    "last_active (airtime (stas a' x) c) = last_active (airtime (stas a x) c)"
    by (subst f, simp)+
  show "AQL a' = AQL a" "aql_disable a' = aql_disable a"
    "schedule_round a' = schedule_round a" "txq_round a' = txq_round a"
    "aql_total_pending_airtime a' = aql_total_pending_airtime a" "aql_threshold a' = aql_threshold a"
    "aql_ac_pending_airtime a' = aql_ac_pending_airtime a" "airtime_flags a' = airtime_flags a"
    "AIRTIME_FAIRNESS a' = AIRTIME_FAIRNESS a"
    by (subst l, simp)+
qed

lemma credited_trans:
  assumes "credited a b" "credited b c"
  shows "credited a c"
proof -
  have l: "b = a\<lparr>stas := stas b\<rparr>" "c = b\<lparr>stas := stas c\<rparr>"
    and f: "stas b x = (stas a x)\<lparr>airtime := (\<lambda>ac. (airtime (stas a x) ac)\<lparr>deficit := deficit (airtime (stas b x) ac)\<rparr>)\<rparr>"
      "stas c x = (stas b x)\<lparr>airtime := (\<lambda>ac. (airtime (stas b x) ac)\<lparr>deficit := deficit (airtime (stas c x) ac)\<rparr>)\<rparr>" for x
    using assms unfolding credited_def by blast+
  have "c = a\<lparr>stas := stas c\<rparr>" by (subst l(2), subst l(1)) simp
  moreover have "stas c x = (stas a x)\<lparr>airtime := (\<lambda>ac. (airtime (stas a x) ac)\<lparr>deficit := deficit (airtime (stas c x) ac)\<rparr>)\<rparr>" for x
    by (subst f(2), subst f(1), subst f(1)) simp
  ultimately show ?thesis by (simp add: credited_def)
qed

lemma rotated_refl [simp]: "rotated ac st st" by (simp add: rotated_def split: prod.splits)

lemma rotated_trans:
  assumes "rotated ac st st'" "rotated ac st' st''"
  shows "rotated ac st st''"
proof -
  obtain a s a' s' a'' s'' where e: "st = (a, s)" "st' = (a', s')" "st'' = (a'', s'')" by (metis surj_pair)
  have l: "s' = s\<lparr>active_txqs := active_txqs s'\<rparr>" "s'' = s'\<lparr>active_txqs := active_txqs s''\<rparr>"
    using assms by (simp_all add: rotated_def e)
  have "s'' = s\<lparr>active_txqs := active_txqs s''\<rparr>" by (subst l(2), subst l(1)) simp
  then show ?thesis using assms credited_trans by (auto simp: rotated_def e)
qed

lemma rotated_txqs:
  assumes "rotated ac (a, s) (a', s')"
  shows "txqs s' = txqs s"
proof -
  have "s' = s\<lparr>active_txqs := active_txqs s'\<rparr>" using assms by (simp add: rotated_def)
  then show ?thesis by (rule ssubst) simp
qed

lemma rotated_sets:
  assumes "rotated ac (a, s) (a', s')"
  shows "set (active_txqs s' c) = set (active_txqs s c)"
  using assms by (cases "c = ac") (auto simp: rotated_def dest: mset_eq_setD)

lemma rotated_inv:
  assumes "rotated ac st st'" "sched_inv st"
  shows "sched_inv st'"
proof -
  obtain a s a' s' where e: "st = (a, s)" "st' = (a', s')" by (metis surj_pair)
  have tx: "txqs s' = txqs s" using rotated_txqs assms(1) by (simp add: e)
  have "distinct (active_txqs s' c) \<and> set (active_txqs s' c) = set (active_txqs s c)" for c
    using assms by (cases "c = ac") (auto simp: rotated_def sched_inv_def e dest: mset_eq_imp_distinct_iff mset_eq_setD)
  then show ?thesis using assms credited_fields(1) [of a a'] by (simp add: rotated_def sched_inv_def e tx)
qed

lemma rotated_check:
  "rotated ac (a, s) (a', s') \<Longrightarrow> ieee80211_txq_airtime_check a' X = ieee80211_txq_airtime_check a X"
  by (auto simp: rotated_def ieee80211_txq_airtime_check_def credited_fields Let_def split: option.splits)


section \<open>Credit and debt\<close>

definition debt :: "airtime_local \<Rightarrow> txq_info \<Rightarrow> nat" where
  "debt a X = (case txq_sta X of None \<Rightarrow> 0 | Some sta \<Rightarrow> nat (- sint (ieee80211_sta_deficit a sta (txq_ac X))))"

lemma sint_credit:
  assumes "sint d < 0"
  shows "sint (d + ucast w :: u32) = sint d + uint (w :: u16)"
proof -
  have w: "0 \<le> uint w" "uint w < 2 ^ 16" using uint_lt2p [of w] by simp_all
  then have "uint (ucast w :: u32) = uint w" by (simp add: unsigned_ucast_eq take_bit_int_eq_self)
  moreover have "signed_take_bit 31 (uint w) = uint w"
    by (rule signed_take_bit_int_eq_self) (rule order_trans [OF _ w(1)], simp, use w(2) in simp)
  ultimately have "sint (ucast w :: u32) = uint w" by (simp add: sint_uint)
  moreover have "signed_take_bit 31 (sint d + uint w) = sint d + uint w"
  proof (rule signed_take_bit_int_eq_self)
    have "- (2 ^ 31) \<le> sint d" using sint_greater_eq [of d] by simp
    then show "- (2 ^ 31) \<le> sint d + uint w" using w(1) by linarith
    have "uint w < 2 ^ 31" using w(2) by simp
    then show "sint d + uint w < 2 ^ 31" using assms by linarith
  qed
  ultimately show ?thesis by (simp add: sint_word_ariths(1))
qed

lemma credit_deficit:
  "ieee80211_sta_deficit (credit_sta x c a) y d =
     (if y = x \<and> d = c then ieee80211_sta_deficit a x c + ucast (airtime_weight (stas a x)) else ieee80211_sta_deficit a y d)"
  by (simp add: ieee80211_sta_deficit_def credit_sta_def upd_airtime_def Let_def)

lemma credit_credited [simp]: "credited a (credit_sta x c a)"
  by (auto simp: credited_def credit_sta_def upd_airtime_def Let_def fun_eq_iff intro!: airtime_sta.equality)

text \<open>A credit lowers the debt of every queue of the station, and no debt rises.\<close>

lemma credit_debt:
  assumes neg: "sint (ieee80211_sta_deficit a x c) < 0" and w: "airtime_weight (stas a x) \<noteq> 0"
  shows "debt (credit_sta x c a) X \<le> debt a X"
    and "txq_sta X = Some x \<Longrightarrow> txq_ac X = c \<Longrightarrow> debt (credit_sta x c a) X < debt a X"
proof -
  have "0 < uint (airtime_weight (stas a x))"
    using w unsigned_eq_0_iff [of "airtime_weight (stas a x)", where 'a = int] by (simp add: order_less_le)
  then show "debt (credit_sta x c a) X \<le> debt a X"
    and "txq_sta X = Some x \<Longrightarrow> txq_ac X = c \<Longrightarrow> debt (credit_sta x c a) X < debt a X"
    using sint_credit [OF neg, of "airtime_weight (stas a x)"] neg
    by (auto simp: debt_def credit_deficit split: option.splits)
qed

lemma rotate_list: "distinct (t # rest) \<Longrightarrow> filter ((\<noteq>) t) (t # rest) = rest"
  by (auto intro: filter_True)

lemma move_tail_active:
  assumes "sched_inv (a, s)" "active_txqs s ac = t # rest"
  shows "active_txqs (list_move_tail_txq t ac s) = (active_txqs s)(ac := rest @ [t])"
proof
  fix c
  have d: "distinct (t # rest)" and ac: "txq_ac (txqs s t) = ac"
    using sched_inv_listD [OF assms(1), of ac] by (simp_all add: assms(2))
  have "t \<notin> set (active_txqs s c)" if "c \<noteq> ac" using assms(1) that ac by (auto simp: sched_inv_def)
  then show "active_txqs (list_move_tail_txq t ac s) c = ((active_txqs s)(ac := rest @ [t])) c"
    using rotate_list [OF d] assms(2)
    by (auto simp: list_move_tail_txq_def list_del_txq_def list_add_tail_txq_def intro!: filter_True)
qed

lemma move_tail_rotated:
  assumes "sched_inv (a, s)" "active_txqs s ac = t # rest" "credited a a'"
  shows "rotated ac (a, s) (a', list_move_tail_txq t ac s)"
proof -
  have "active_txqs (list_move_tail_txq t ac s) = (active_txqs s)(ac := rest @ [t])"
    by (rule move_tail_active [OF assms(1,2)])
  moreover have "list_move_tail_txq t ac s = s\<lparr>active_txqs := active_txqs (list_move_tail_txq t ac s)\<rparr>"
    by (simp add: list_move_tail_txq_def list_add_tail_txq_def list_del_txq_def)
  ultimately show ?thesis using assms by (simp add: rotated_def)
qed


section \<open>The search for the next queue\<close>

text \<open>The invariant of the loop: the search goes round the list from \<open>head\<close>, and while it has found no eligible queue all
  those behind \<open>head\<close> were refused by the airtime limits.\<close>

definition refused :: "sched \<Rightarrow> nat \<Rightarrow> bool" where
  "refused = (\<lambda>(a, s) t. txq_sta (txqs s t) \<noteq> None \<and> \<not> ieee80211_txq_airtime_check a (txqs s t))"

definition search_inv :: "nat \<Rightarrow> nat option \<Rightarrow> bool \<Rightarrow> sched \<Rightarrow> bool" where
  "search_inv ac head found st \<longleftrightarrow>
     sched_inv st \<and>
     (\<forall>h. head = Some h \<longrightarrow> h \<in> set (active_txqs (snd st) ac) \<and>
        (\<not> found \<longrightarrow> list_all (refused st) (dropWhile ((\<noteq>) h) (active_txqs (snd st) ac))))"

definition search_measure :: "nat \<Rightarrow> (nat option \<times> bool \<times> sched \<Rightarrow> nat) list" where
  "search_measure ac =
     [\<lambda>(head, found, a, s). \<Sum>t \<leftarrow> active_txqs s ac. debt a (txqs s t),
      \<lambda>(head, found, a, s). of_bool found,
      \<lambda>(head, found, a, s). case head of None \<Rightarrow> length (active_txqs s ac) | Some h \<Rightarrow> length (takeWhile ((\<noteq>) h) (active_txqs s ac))]"

text \<open>How a turn ends the search.\<close>

definition search_done :: "nat \<Rightarrow> sched \<Rightarrow> nat option \<times> sched \<Rightarrow> bool" where
  "search_done ac st r \<longleftrightarrow>
     (list_all (refused st) (active_txqs (snd st) ac) \<and> r = (None, st)) \<or>
     (\<exists>t rest. active_txqs (snd st) ac = t # rest \<and> r = next_txq_take ac t st \<and>
        ieee80211_txq_airtime_check (fst st) (txqs (snd st) t) \<and>
        (\<forall>x. txq_sta (txqs (snd st) t) = Some x \<longrightarrow> sint (ieee80211_sta_deficit (fst st) x ac) \<ge> 0))"


text \<open>A turn that goes on: \<open>goes_on\<close> describes the state it leaves.\<close>

lemma turn_goes_on:
  assumes inv: "search_inv ac head found (a, s)" and list: "active_txqs s ac = t # rest" and go: "head = Some t \<longrightarrow> found"
    and x: "txq_sta (txqs s t) = Some x"
    and on: "sint (ieee80211_sta_deficit a x ac) < 0 \<or> \<not> ieee80211_txq_airtime_check a (txqs s t)"
  defines "a' \<equiv> if sint (ieee80211_sta_deficit a x ac) < 0 then credit_sta x ac a else a"
    and "s' \<equiv> list_move_tail_txq t ac s" and "head' \<equiv> if head = None then Some t else head"
    and "found' \<equiv> (if head = Some t then False else found) \<or> ieee80211_txq_airtime_check a (txqs s t)"
  shows "rotated ac (a, s) (a', s')" "search_inv ac head' found' (a', s')"
    "((head', found', a', s'), (head, found, a, s)) \<in> measures (search_measure ac)"
proof -
  have si: "sched_inv (a, s)" using inv by (simp add: search_inv_def)
  have dt: "distinct (t # rest)" and ac: "txq_ac (txqs s t) = ac" using sched_inv_listD [OF si, of ac] by (simp_all add: list)
  show rot: "rotated ac (a, s) (a', s')" unfolding a'_def s'_def using move_tail_rotated [OF si list] by simp
  have act: "active_txqs s' ac = rest @ [t]" unfolding s'_def using move_tail_active [OF si list] by simp
  have tx: "txqs s' = txqs s" using rotated_txqs [OF rot] .
  have ref: "refused (a', s') = refused (a, s)" using rotated_check [OF rot] by (simp add: fun_eq_iff refused_def tx)
  have rt: "refused (a, s) t \<longleftrightarrow> \<not> ieee80211_txq_airtime_check a (txqs s t)" using x by (simp add: refused_def)
  have take: "takeWhile ((\<noteq>) t) (rest @ [t]) = rest" using dt by (subst takeWhile_append2) auto
  have drop: "dropWhile ((\<noteq>) t) (rest @ [t]) = [t]" using dt by (subst dropWhile_append2) auto
  show "search_inv ac head' found' (a', s')"
    using inv go dt list rotated_inv [OF rot si]
    by (auto simp: search_inv_def act ref rt drop dropWhile_append1 head'_def found'_def split: if_splits)
  show "((head', found', a', s'), (head, found, a, s)) \<in> measures (search_measure ac)"
  proof (cases "sint (ieee80211_sta_deficit a x ac) < 0")
    case True
    have w: "airtime_weight (stas a x) \<noteq> 0" using si by (simp add: sched_inv_def)
    have "(\<Sum>u \<leftarrow> rest. debt a' (txqs s u)) \<le> (\<Sum>u \<leftarrow> rest. debt a (txqs s u))"
      using credit_debt(1) [OF True w] True by (intro sum_list_mono) (simp add: a'_def)
    moreover have "debt a' (txqs s t) < debt a (txqs s t)" using credit_debt(2) [OF True w x ac] True by (simp add: a'_def)
    ultimately show ?thesis by (simp add: search_measure_def act tx list)
  next
    case False
    then have "a' = a" "\<not> ieee80211_txq_airtime_check a (txqs s t)" using on by (simp_all add: a'_def)
    then show ?thesis using go inv list dt
      by (auto simp: search_measure_def act tx found'_def head'_def search_inv_def take split: option.splits)
  qed
qed

lemma turn_cases:
  assumes inv: "search_inv ac head found (a, s)"
  shows "case next_txq_turn ac head found (a, s) of
      Inl r \<Rightarrow> search_done ac (a, s) r
    | Inr (head', found', st') \<Rightarrow>
        search_inv ac head' found' st' \<and> rotated ac (a, s) st' \<and>
        ((head', found', st'), (head, found, a, s)) \<in> measures (search_measure ac)"
proof -
  have ac: "txq_ac (txqs s t) = ac" if "active_txqs s ac = t # rest" for t rest
    using sched_inv_listD [of a s ac] inv that by (simp add: search_inv_def)
  consider (empty) "active_txqs s ac = []"
    | (stop) t rest where "active_txqs s ac = t # rest" "head = Some t" "\<not> found"
    | (vif) t rest where "active_txqs s ac = t # rest" "head = Some t \<longrightarrow> found" "txq_sta (txqs s t) = None"
    | (sta) t rest x where "active_txqs s ac = t # rest" "head = Some t \<longrightarrow> found" "txq_sta (txqs s t) = Some x"
    by (metis neq_Nil_conv not_None_eq)
  then show ?thesis
  proof cases
    case empty
    then show ?thesis by (simp add: next_txq_turn_def search_done_def)
  next
    case stop
    then show ?thesis using inv by (simp add: next_txq_turn_def search_done_def search_inv_def)
  next
    case vif
    then show ?thesis by (auto simp: next_txq_turn_def search_done_def Let_def ieee80211_txq_airtime_check_def)
  next
    case sta
    show ?thesis
    proof (cases "sint (ieee80211_sta_deficit a x ac) < 0 \<or> \<not> ieee80211_txq_airtime_check a (txqs s t)")
      case True
      then show ?thesis using sta ac turn_goes_on [OF inv sta True] by (auto simp: next_txq_turn_def Let_def)
    next
      case False
      then show ?thesis using sta ac by (auto simp: next_txq_turn_def search_done_def Let_def)
    qed
  qed
qed

text \<open>The search always ends, and its result is that of a final turn on the rotated list.\<close>

lemma next_txq_loop_returns:
  "search_inv ac head found st \<Longrightarrow> \<exists>st1 r. next_txq_loop ac head found st = Some r \<and> rotated ac st st1 \<and> search_done ac st1 r"
proof (induction "(head, found, st)" arbitrary: head found st rule: wf_induct_rule [OF wf_measures [of "search_measure ac"]])
  case less: 1
  obtain a s where st: "st = (a, s)" by fastforce
  note turn = turn_cases [OF less(2) [unfolded st]]
  show ?case
  proof (cases "next_txq_turn ac head found (a, s)")
    case (Inl r)
    then show ?thesis using turn by (intro exI [of _ st] exI [of _ r]) (simp add: st next_txq_loop.simps)
  next
    case (Inr p)
    obtain head' found' st' where p: "p = (head', found', st')" by (cases p)
    with turn Inr have t: "search_inv ac head' found' st'" "rotated ac st st'"
        "((head', found', st'), (head, found, st)) \<in> measures (search_measure ac)"
      by (simp_all add: st)
    obtain st1 r where "next_txq_loop ac head' found' st' = Some r" "rotated ac st' st1" "search_done ac st1 r"
      using less(1) [OF t(3,1)] by blast
    then show ?thesis using Inr p rotated_trans [OF t(2)]
      by (intro exI [of _ st1] exI [of _ r]) (simp add: st next_txq_loop.simps [of _ head])
  qed
qed


lemma take_inv:
  assumes "sched_inv (a, s)"
  shows "sched_inv (snd (next_txq_take ac t (a, s)))"
  using assms by (auto simp: sched_inv_def next_txq_take_def list_del_txq_def)

lemma next_txq_inv:
  assumes inv: "sched_inv st"
  shows "\<exists>r st'. ieee80211_next_txq ac st = Some (r, st') \<and> sched_inv st'"
proof (cases "schedule_round (fst st) ac = 0")
  case True
  then show ?thesis using inv by (simp add: ieee80211_next_txq_def)
next
  case False
  have "search_inv ac None False st" using inv by (simp add: search_inv_def)
  then obtain st1 r where r: "next_txq_loop ac None False st = Some r" "rotated ac st st1" "search_done ac st1 r"
    using next_txq_loop_returns by blast
  have "sched_inv (snd r)"
    using r(3) rotated_inv [OF r(2) inv] take_inv [of "fst st1" "snd st1"] by (auto simp: search_done_def)
  then show ?thesis using False r(1) by (cases r) (simp add: ieee80211_next_txq_def)
qed


section \<open>The other operations\<close>

lemma list_del_inv: "sched_inv (a, s) \<Longrightarrow> sched_inv (a, list_del_txq t s)"
  by (simp add: sched_inv_def list_del_txq_def)

lemma upd_airtime_inv: "sched_inv (a, s) \<Longrightarrow> sched_inv (upd_airtime x c g a, s)"
  by (simp add: sched_inv_def upd_airtime_def Let_def)

lemma move_tail_inv: "sched_inv (a, s) \<Longrightarrow> txq_ac (txqs s t) = ac \<Longrightarrow> sched_inv (a, list_move_tail_txq t ac s)"
  by (auto simp: sched_inv_def list_move_tail_txq_def list_add_tail_txq_def list_del_txq_def)

lemma credit_inv: "sched_inv (a, s) \<Longrightarrow> sched_inv (credit_sta x c a, s)"
  by (simp add: credit_sta_def upd_airtime_inv)

lemma move_tail_txqs [simp]: "txqs (list_move_tail_txq t ac s) = txqs s" "txqs (list_del_txq t s) = txqs s"
  by (simp_all add: list_move_tail_txq_def list_add_tail_txq_def list_del_txq_def)

lemmas sched_inv_intros [inv_pres] = list_del_inv upd_airtime_inv move_tail_inv credit_inv

lemma schedule_txq_inv [inv_pres]:
  assumes "sched_inv st"
  shows "sched_inv (schedule_txq jiffies t force q st)"
proof -
  obtain a s where st: "st = (a, s)" by fastforce
  have add: "sched_inv (a, list_add_txq t (txq_ac (txqs s t)) s)" "sched_inv (a, list_add_tail_txq t (txq_ac (txqs s t)) s)"
    if "\<not> txq_linked t s"
    using assms that by (auto simp: st sched_inv_def txq_linked_def list_add_txq_def list_add_tail_txq_def)
  show ?thesis using assms add
    by (auto simp: st schedule_txq_def Let_def ieee80211_txq_set_active_def upd_airtime_inv split: option.splits)
qed

lemma rotate_inv:
  "sched_inv (a, s) \<Longrightarrow> \<forall>u \<in> set us. txq_ac (txqs s u) = ac \<Longrightarrow> sched_inv (may_transmit_rotate ac t us (a, s))"
  by (induction us arbitrary: a s) (simp_all add: Let_def move_tail_inv credit_inv split: option.splits)

lemma rotate_txqs: "txqs (snd (may_transmit_rotate ac t us (a, s))) = txqs s"
  by (induction us arbitrary: a s) (auto simp: Let_def split: option.splits)

lemma may_transmit_out_inv: "sched_inv st \<Longrightarrow> sched_inv (snd (may_transmit_out t st))"
  by (auto simp: may_transmit_out_def intro: inv_pres split: prod.splits)

lemma may_transmit_inv [inv_pres]:
  assumes "sched_inv st"
  shows "sched_inv (snd (ieee80211_txq_may_transmit t st))"
proof -
  obtain a s where st: "st = (a, s)" by fastforce
  let ?ac = "txq_ac (txqs s t)"
  obtain a' s' where r: "may_transmit_rotate ?ac t (active_txqs s ?ac) (a, s) = (a', s')" by fastforce
  have "sched_inv (a', s')" "txqs s' = txqs s"
    using rotate_inv [of a s "active_txqs s ?ac" ?ac t] rotate_txqs [of ?ac t "active_txqs s ?ac" a s]
      sched_inv_listD [OF assms [unfolded st], of ?ac] assms by (auto simp: r st)
  then show ?thesis using assms may_transmit_out_inv [of "(a, s)"] may_transmit_out_inv [of "(a', s')"]
    by (auto simp: st ieee80211_txq_may_transmit_def Let_def r intro!: inv_pres split: option.splits)
qed

lemma schedule_start_inv [inv_pres]: "sched_inv st \<Longrightarrow> sched_inv (ieee80211_txq_schedule_start ac st)"
  by (auto simp: ieee80211_txq_schedule_start_def Let_def sched_inv_def split: prod.splits)

lemma register_inv [inv_pres]: "sched_inv (a, s) \<Longrightarrow> sched_inv (ieee80211_sta_register_airtime jiffies x tid txa rxa a, s)"
  by (auto simp: ieee80211_sta_register_airtime_def Let_def intro!: inv_pres)

lemma pending_inv [inv_pres]: "sched_inv (a, s) \<Longrightarrow> sched_inv (ieee80211_sta_update_pending_airtime x ac v b a, s)"
  by (auto simp: ieee80211_sta_update_pending_airtime_def Let_def sched_inv_def upd_airtime_def split: option.splits)

end
