(* ===== verification/FairQueueInv.thy ===== *)
theory FairQueueInv
  imports FairQueue
begin

text \<open>
  The invariant of the fair queues and what each operation does to it. The tins in use are the finite set \<open>T\<close>; the
  objects of the store that matter are the hashed flows and the default flows of these tins.
\<close>


section \<open>The invariant\<close>

definition flow_ids :: "nat set \<Rightarrow> fq \<Rightarrow> flow_id set" where
  "flow_ids T q = Flow ` {..<unat (flows_cnt q)} \<union> DefaultFlow ` T"

definition flow_sum :: "(fq_flow \<Rightarrow> 'a::comm_monoid_add) \<Rightarrow> nat set \<Rightarrow> fq \<Rightarrow> 'a" where
  "flow_sum g T q = (\<Sum>f\<in>flow_ids T q. g (fq_flows q f))"

definition lens :: "fq_skb list \<Rightarrow> u32" where "lens skbs = sum_list (map skb_len skbs)"
definition sizes :: "fq_skb list \<Rightarrow> u32" where "sizes skbs = sum_list (map skb_truesize skbs)"
definition memory :: "fq_skb list \<Rightarrow> nat" where "memory skbs = sum_list (map (unat \<circ> skb_truesize) skbs)"

definition wf_skb :: "fq_skb \<Rightarrow> bool" where
  "wf_skb skb \<longleftrightarrow> 0 < skb_len skb \<and> skb_len skb \<le> skb_truesize skb"

definition of_tin :: "nat \<Rightarrow> (fq_skb list \<Rightarrow> 'a::zero) \<Rightarrow> fq_flow \<Rightarrow> 'a" where
  "of_tin t g F = (if fl_tin F = Some t then g (fl_queue F) else 0)"

definition flow_inv :: "nat set \<Rightarrow> flow_id \<Rightarrow> fq_flow \<Rightarrow> bool" where
  "flow_inv T f F \<longleftrightarrow>
     fl_backlog F = lens (fl_queue F) \<and> list_all wf_skb (fl_queue F) \<and>
     (fl_queue F \<noteq> [] \<longrightarrow> fl_tin F \<noteq> None) \<and>
     (\<forall>t. fl_tin F = Some t \<longrightarrow> t \<in> T \<and> (\<forall>u. f = DefaultFlow u \<longrightarrow> u = t)) \<and>
     - (2 ^ 31) \<le> fl_deficit F \<and> fl_deficit F < 2 ^ 31"

definition chain :: "nat \<Rightarrow> fq \<Rightarrow> flow_id list" where
  "chain t q = new_flows (fq_tins q t) @ old_flows (fq_tins q t)"

definition tin_inv :: "nat set \<Rightarrow> fq \<Rightarrow> nat \<Rightarrow> bool" where
  "tin_inv T q t \<longleftrightarrow>
     distinct (chain t q) \<and> set (chain t q) = {f \<in> flow_ids T q. fl_tin (fq_flows q f) = Some t} \<and>
     backlog_bytes (fq_tins q t) = flow_sum (of_tin t lens) T q \<and>
     backlog_packets (fq_tins q t) = flow_sum (of_tin t (of_nat \<circ> length)) T q"

definition fq_inv :: "nat set \<Rightarrow> fq \<Rightarrow> bool" where
  "fq_inv T q \<longleftrightarrow>
     finite T \<and> (\<forall>f \<in> flow_ids T q. flow_inv T f (fq_flows q f)) \<and> (\<forall>t \<in> T. tin_inv T q t) \<and>
     (\<forall>i < unat (flows_cnt q). flows_bitmap q i \<longleftrightarrow> fl_queue (fq_flows q (Flow i)) \<noteq> []) \<and>
     distinct (tin_backlog q) \<and> set (tin_backlog q) = {t \<in> T. fl_queue (fq_flows q (DefaultFlow t)) \<noteq> []} \<and>
     fq_backlog q = of_nat (flow_sum (length \<circ> fl_queue) T q) \<and> memory_usage q = of_nat (flow_sum (memory \<circ> fl_queue) T q) \<and>
     flow_sum (memory \<circ> fl_queue) T q < 2 ^ 32"

text \<open>What no removal of frames changes.\<close>

definition same_shape :: "fq \<Rightarrow> fq \<Rightarrow> bool" where
  "same_shape q q' \<longleftrightarrow>
     (\<forall>f. fl_tin (fq_flows q' f) = fl_tin (fq_flows q f) \<and> fl_deficit (fq_flows q' f) = fl_deficit (fq_flows q f)) \<and>
     (\<forall>t. new_flows (fq_tins q' t) = new_flows (fq_tins q t) \<and> old_flows (fq_tins q' t) = old_flows (fq_tins q t)) \<and>
     flows_cnt q' = flows_cnt q \<and> fq_limit q' = fq_limit q \<and> memory_limit q' = memory_limit q \<and> quantum q' = quantum q"

lemma same_shape_refl [simp]: "same_shape q q"
  by (simp add: same_shape_def)

lemma same_shape_trans [trans]: "same_shape q q' \<Longrightarrow> same_shape q' q'' \<Longrightarrow> same_shape q q''"
  by (simp add: same_shape_def)

lemma same_shape_ids: "same_shape q q' \<Longrightarrow> flow_ids T q' = flow_ids T q"
  by (simp add: same_shape_def flow_ids_def)

lemma same_shape_chain: "same_shape q q' \<Longrightarrow> chain t q' = chain t q"
  by (simp add: same_shape_def chain_def)


section \<open>Sums over the flows\<close>

lemma flow_ids_simps [simp]:
  "Flow i \<in> flow_ids T q \<longleftrightarrow> i < unat (flows_cnt q)" "DefaultFlow t \<in> flow_ids T q \<longleftrightarrow> t \<in> T"
  "finite T \<Longrightarrow> finite (flow_ids T q)"
  by (auto simp: flow_ids_def)

lemma sum_fun_upd:
  fixes g :: "'b \<Rightarrow> 'c::comm_monoid_add"
  assumes "finite A" "x \<in> A"
  shows "(\<Sum>y\<in>A. g ((h(x := z)) y)) + g (h x) = (\<Sum>y\<in>A. g (h y)) + g z"
proof -
  have "(\<Sum>y\<in>A - {x}. g ((h(x := z)) y)) = (\<Sum>y\<in>A - {x}. g (h y))" by (rule sum.cong) auto
  then show ?thesis using sum.remove [OF assms, of "\<lambda>y. g ((h(x := z)) y)"] sum.remove [OF assms, of "\<lambda>y. g (h y)"]
    by (simp add: ac_simps)
qed

lemma flow_sum_upd:
  assumes "finite T" "f \<in> flow_ids T q" "flows_cnt q' = flows_cnt q" "fq_flows q' = (fq_flows q)(f := F)"
  shows "flow_sum g T q' + g (fq_flows q f) = flow_sum g T q + g F"
proof -
  have "flow_ids T q' = flow_ids T q" using assms(3) by (simp add: flow_ids_def)
  then show ?thesis
    unfolding flow_sum_def assms(4) using assms(1,2) sum_fun_upd [of "flow_ids T q" f g "fq_flows q" F] by simp
qed

lemma flow_sum_cong: "flows_cnt q' = flows_cnt q \<Longrightarrow> (\<And>f. f \<in> flow_ids T q \<Longrightarrow> g (fq_flows q' f) = g (fq_flows q f)) \<Longrightarrow> flow_sum g T q' = flow_sum g T q"
  unfolding flow_sum_def by (rule sum.cong) (auto simp: flow_ids_def)

lemma flow_sum_of_nat: "of_nat (flow_sum g T q) = flow_sum (of_nat \<circ> g) T q"
  by (simp add: flow_sum_def)

lemma lens_simps [simp]: "lens [] = 0" "lens (p # ps) = skb_len p + lens ps" "lens (ps @ ps') = lens ps + lens ps'"
  by (simp_all add: lens_def)

lemma sizes_simps [simp]: "sizes [] = 0" "sizes (p # ps) = skb_truesize p + sizes ps" "sizes (ps @ ps') = sizes ps + sizes ps'"
  by (simp_all add: sizes_def)

lemma memory_simps [simp]:
  "memory [] = 0" "memory (p # ps) = unat (skb_truesize p) + memory ps" "memory (ps @ ps') = memory ps + memory ps'"
  by (simp_all add: memory_def)

lemma sizes_memory: "sizes ps = of_nat (memory ps)"
  by (induction ps) (simp_all add: sizes_def)

lemma perm_sums:
  assumes "mset ps = mset ds + mset rs"
  shows "lens ps = lens ds + lens rs" "memory ps = memory ds + memory rs" "length ps = length ds + length rs"
  using arg_cong [OF assms, of "\<lambda>M. sum_mset (image_mset skb_len M)"]
    arg_cong [OF assms, of "\<lambda>M. sum_mset (image_mset (unat \<circ> skb_truesize) M)"] arg_cong [OF assms, of size]
  by (simp_all add: lens_def memory_def sum_mset_sum_list flip: mset_map)

text \<open>Frames have a length, and the bytes of a queue do not wrap while the memory of all frames does not.\<close>

lemma lens_bound: "list_all wf_skb ps \<Longrightarrow> memory ps < 2 ^ 32 \<Longrightarrow> length ps \<le> unat (lens ps) \<and> unat (lens ps) \<le> memory ps"
proof (induction ps)
  case (Cons p ps)
  then have "unat (skb_len p) \<le> unat (skb_truesize p)" "0 < unat (skb_len p)"
    by (simp_all add: wf_skb_def word_le_nat_alt word_less_nat_alt)
  moreover have IH: "length ps \<le> unat (lens ps) \<and> unat (lens ps) \<le> memory ps" using Cons by simp
  moreover have "unat (skb_len p + lens ps) = unat (skb_len p) + unat (lens ps)"
    using Cons.prems(2) calculation by (simp add: unat_word_ariths)
  ultimately show ?case by simp
qed simp

lemma lens_0_iff: "list_all wf_skb ps \<Longrightarrow> memory ps < 2 ^ 32 \<Longrightarrow> lens ps = 0 \<longleftrightarrow> ps = []"
  using lens_bound [of ps] by (auto simp: unat_eq_zero)

lemma flow_sum_ge:
  fixes g :: "fq_flow \<Rightarrow> nat"
  assumes "finite T" "f \<in> flow_ids T q"
  shows "g (fq_flows q f) \<le> flow_sum g T q"
  unfolding flow_sum_def using assms by (intro member_le_sum) auto


section \<open>Removing frames from a flow\<close>

lemma fq_invD:
  assumes "fq_inv T q"
  shows "finite T" "f \<in> flow_ids T q \<Longrightarrow> flow_inv T f (fq_flows q f)" "t \<in> T \<Longrightarrow> tin_inv T q t"
    "i < unat (flows_cnt q) \<Longrightarrow> flows_bitmap q i \<longleftrightarrow> fl_queue (fq_flows q (Flow i)) \<noteq> []"
    "distinct (tin_backlog q)" "set (tin_backlog q) = {t \<in> T. fl_queue (fq_flows q (DefaultFlow t)) \<noteq> []}"
    "fq_backlog q = of_nat (flow_sum (length \<circ> fl_queue) T q)" "memory_usage q = of_nat (flow_sum (memory \<circ> fl_queue) T q)"
    "flow_sum (memory \<circ> fl_queue) T q < 2 ^ 32"
  using assms by (auto simp: fq_inv_def)

lemma flow_memory: "fq_inv T q \<Longrightarrow> f \<in> flow_ids T q \<Longrightarrow> memory (fl_queue (fq_flows q f)) < 2 ^ 32"
  using flow_sum_ge [of T f q "memory \<circ> fl_queue"] by (simp add: fq_inv_def)

text \<open>The state after the frames \<open>ds\<close> left the flow \<open>f\<close>, which keeps \<open>rest\<close>.\<close>

definition removed :: "nat set \<Rightarrow> flow_id \<Rightarrow> fq_skb list \<Rightarrow> fq \<Rightarrow> fq \<Rightarrow> bool" where
  "removed T f rest q q' \<longleftrightarrow>
     fq_inv T q' \<and> same_shape q q' \<and> fq_freed q' = fq_freed q \<and>
     fq_flows q' = (fq_flows q)(f := (fq_flows q f)\<lparr>fl_queue := rest, fl_backlog := lens rest\<rparr>)"

lemma removed_inv:
  assumes inv: "fq_inv T q" and f: "f \<in> flow_ids T q" and t: "fl_tin (fq_flows q f) = Some t"
    and perm: "mset (fl_queue (fq_flows q f)) = mset ds + mset rest"
    and shape: "same_shape q q'"
    and fl: "fq_flows q' = (fq_flows q)(f := (fq_flows q f)\<lparr>fl_queue := rest, fl_backlog := lens rest\<rparr>)"
    and bb: "\<And>u. backlog_bytes (fq_tins q' u) = backlog_bytes (fq_tins q u) - (if u = t then lens ds else 0)"
    and bp: "\<And>u. backlog_packets (fq_tins q' u) = backlog_packets (fq_tins q u) - (if u = t then of_nat (length ds) else 0)"
    and bm: "\<And>i. flows_bitmap q' i \<longleftrightarrow> flows_bitmap q i \<and> \<not> (f = Flow i \<and> rest = [])"
    and tb: "tin_backlog q' = filter (\<lambda>u. \<not> (f = DefaultFlow u \<and> rest = [])) (tin_backlog q)"
    and bl: "fq_backlog q' = fq_backlog q - of_nat (length ds)" "memory_usage q' = memory_usage q - sizes ds"
    and ds: "ds \<noteq> []"
  shows "fq_inv T q'"
proof -
  let ?F = "fq_flows q f" and ?F' = "(fq_flows q f)\<lparr>fl_queue := rest, fl_backlog := lens rest\<rparr>"
  note D = fq_invD [OF inv]
  have cnt: "flows_cnt q' = flows_cnt q" and ids: "flow_ids T q' = flow_ids T q"
    using shape by (simp_all add: same_shape_def flow_ids_def)
  note tot = flow_sum_upd [OF D(1) f cnt fl] and ps = perm_sums [OF perm]
  have q: "fl_queue ?F \<noteq> []" using ps(3) ds by auto
  have set_q: "set (fl_queue ?F) = set ds \<union> set rest" using arg_cong [OF perm, of set_mset] by simp
  have fi: "flow_inv T f ?F'" using D(2) [OF f] t by (auto simp: flow_inv_def list_all_iff set_q)
  have flows: "\<forall>g \<in> flow_ids T q'. flow_inv T g (fq_flows q' g)" unfolding ids fl using D(2) fi by simp
  have tins: "tin_inv T q' u" if "u \<in> T" for u
  proof -
    have "chain u q' = chain u q" using shape by (rule same_shape_chain)
    moreover have "{g \<in> flow_ids T q'. fl_tin (fq_flows q' g) = Some u} = {g \<in> flow_ids T q. fl_tin (fq_flows q g) = Some u}"
      using shape unfolding ids by (auto simp: same_shape_def)
    moreover have "flow_sum (of_tin u lens) T q' = flow_sum (of_tin u lens) T q - (if u = t then lens ds else 0)"
      using tot [of "of_tin u lens"] t ps(1) by (auto simp: of_tin_def algebra_simps split: if_splits)
    moreover have "flow_sum (of_tin u (of_nat \<circ> length)) T q' =
        (flow_sum (of_tin u (of_nat \<circ> length)) T q - (if u = t then of_nat (length ds) else 0) :: u32)"
      using tot [of "of_tin u (of_nat \<circ> length) :: _ \<Rightarrow> u32"] t ps(3) by (auto simp: of_tin_def algebra_simps split: if_splits)
    ultimately show ?thesis using D(3) [OF that] by (simp add: tin_inv_def bb bp)
  qed
  have len: "flow_sum (length \<circ> fl_queue) T q' + length ds = flow_sum (length \<circ> fl_queue) T q"
    and mem: "flow_sum (memory \<circ> fl_queue) T q' + memory ds = flow_sum (memory \<circ> fl_queue) T q"
    using tot [of "length \<circ> fl_queue"] tot [of "memory \<circ> fl_queue"] ps by simp_all
  have "fq_backlog q' = of_nat (flow_sum (length \<circ> fl_queue) T q')" "memory_usage q' = of_nat (flow_sum (memory \<circ> fl_queue) T q')"
    using bl D(7,8) by (simp_all add: sizes_memory flip: len mem)
  moreover have "set (tin_backlog q') = {u \<in> T. fl_queue (fq_flows q' (DefaultFlow u)) \<noteq> []}"
    unfolding tb fl using D(6) q by auto
  moreover have "flows_bitmap q' i \<longleftrightarrow> fl_queue (fq_flows q' (Flow i)) \<noteq> []" if "i < unat (flows_cnt q')" for i
    using D(4) [of i] that q unfolding bm fl cnt by auto
  ultimately show ?thesis
    using D(1,5,9) flows tins mem by (simp add: fq_inv_def tb)
qed

lemma adjust_removal_eq:
  assumes t: "fl_tin (fq_flows q f) = Some t" and u: "\<forall>u. f = DefaultFlow u \<longrightarrow> u = t"
    and z: "fl_backlog (fq_flows q f) - bytes = 0 \<longleftrightarrow> z"
  shows "adjust_removal q f n bytes m = Some
     (q\<lparr>fq_tins := (fq_tins q)(t := (fq_tins q t)\<lparr>backlog_bytes := backlog_bytes (fq_tins q t) - bytes,
                                             backlog_packets := backlog_packets (fq_tins q t) - n\<rparr>),
        fq_flows := (fq_flows q)(f := (fq_flows q f)\<lparr>fl_backlog := fl_backlog (fq_flows q f) - bytes\<rparr>),
        fq_backlog := fq_backlog q - n, memory_usage := memory_usage q - m,
        flows_bitmap := (\<lambda>i. flows_bitmap q i \<and> \<not> (f = Flow i \<and> z)),
        tin_backlog := filter (\<lambda>u. \<not> (f = DefaultFlow u \<and> z)) (tin_backlog q)\<rparr>)"
proof (cases z)
  case False
  then show ?thesis using t z by (simp add: adjust_removal_def upd_flow_def upd_tin_def Let_def)
next
  case True
  then show ?thesis
  proof (cases f)
    case (Flow i)
    have "(flows_bitmap q)(i := False) = (\<lambda>j. flows_bitmap q j \<and> i \<noteq> j)" by (auto simp: fun_eq_iff)
    then show ?thesis using t z True Flow
      by (simp add: adjust_removal_def upd_flow_def upd_tin_def Let_def)
  next
    case (DefaultFlow v)
    then show ?thesis using t u z True
      by (simp add: adjust_removal_def upd_flow_def upd_tin_def Let_def)
  qed
qed

lemma adjust_removed:
  assumes inv: "fq_inv T q" and f: "f \<in> flow_ids T q" and perm: "mset (fl_queue (fq_flows q f)) = mset ds + mset rest"
    and ds: "ds \<noteq> []"
  obtains q' where "adjust_removal (upd_flow f (\<lambda>F. F\<lparr>fl_queue := rest\<rparr>) q) f (of_nat (length ds)) (lens ds) (sizes ds) = Some q'"
    and "removed T f rest q q'"
proof -
  let ?F = "fq_flows q f"
  have fi: "flow_inv T f ?F" using fq_invD(2) [OF inv f] .
  have ne: "fl_queue ?F \<noteq> []" using perm ds by auto
  then obtain t where t: "fl_tin ?F = Some t" using fi by (auto simp: flow_inv_def)
  have def: "\<forall>u. f = DefaultFlow u \<longrightarrow> u = t" using fi t by (auto simp: flow_inv_def)
  have bl: "fl_backlog ?F - lens ds = lens rest" using fi perm_sums(1) [OF perm] by (simp add: flow_inv_def)
  have set_q: "set (fl_queue ?F) = set ds \<union> set rest" using arg_cong [OF perm, of set_mset] by simp
  have z: "lens rest = 0 \<longleftrightarrow> rest = []"
    using fi flow_memory [OF inv f] perm_sums(2) [OF perm]
    by (intro lens_0_iff) (auto simp: flow_inv_def list_all_iff set_q)
  let ?q = "upd_flow f (\<lambda>F. F\<lparr>fl_queue := rest\<rparr>) q"
  have t': "fl_tin (fq_flows ?q f) = Some t" and z': "fl_backlog (fq_flows ?q f) - lens ds = 0 \<longleftrightarrow> rest = []"
    using t z bl by (simp_all add: upd_flow_def)
  define q' where "q' = the (adjust_removal ?q f (of_nat (length ds)) (lens ds) (sizes ds))"
  note eq = adjust_removal_eq [OF t' def z', where n = "of_nat (length ds)" and m = "sizes ds"]
  have q': "adjust_removal ?q f (of_nat (length ds)) (lens ds) (sizes ds) = Some q'" by (simp add: q'_def eq)
  have *: "same_shape q q'" "fq_freed q' = fq_freed q" "fq_flows q' = (fq_flows q)(f := ?F\<lparr>fl_queue := rest, fl_backlog := lens rest\<rparr>)"
    "\<And>u. backlog_bytes (fq_tins q' u) = backlog_bytes (fq_tins q u) - (if u = t then lens ds else 0)"
    "\<And>u. backlog_packets (fq_tins q' u) = backlog_packets (fq_tins q u) - (if u = t then of_nat (length ds) else 0)"
    "\<And>i. flows_bitmap q' i \<longleftrightarrow> flows_bitmap q i \<and> \<not> (f = Flow i \<and> rest = [])"
    "tin_backlog q' = filter (\<lambda>u. \<not> (f = DefaultFlow u \<and> rest = [])) (tin_backlog q)"
    "fq_backlog q' = fq_backlog q - of_nat (length ds)" "memory_usage q' = memory_usage q - sizes ds"
    unfolding q'_def eq using bl by (simp_all add: upd_flow_def same_shape_def)
  have "fq_inv T q'" by (rule removed_inv [OF inv f t perm *(1,3-9) ds])
  with * q' show thesis by (intro that) (simp_all add: removed_def)
qed

lemma removed_free [simp]: "fq_inv T (free_func p q) = fq_inv T q" "same_shape q (free_func p q')  = same_shape q q'"
    "fq_flows (free_func p q) = fq_flows q" "fq_freed (free_func p q) = fq_freed q @ [p]"
    "fq_tins (free_func p q) = fq_tins q"
  by (simp_all add: free_func_def fq_inv_def same_shape_def flow_ids_def flow_sum_def tin_inv_def chain_def)

lemma flow_dequeue_removed:
  assumes "fq_inv T q" "f \<in> flow_ids T q" "fl_queue (fq_flows q f) = p # rest"
  obtains q' where "fq_flow_dequeue f q = Some (Some p, q')" "removed T f rest q q'"
proof -
  have "mset (fl_queue (fq_flows q f)) = mset [p] + mset rest" using assms(3) by simp
  from adjust_removed [OF assms(1,2) this] obtain q'
    where "adjust_removal (upd_flow f (\<lambda>F. F\<lparr>fl_queue := rest\<rparr>) q) f 1 (skb_len p) (skb_truesize p) = Some q'" "removed T f rest q q'"
    by auto
  then show thesis by (intro that) (simp_all add: fq_flow_dequeue_def fq_adjust_removal_def assms(3))
qed

lemma fold_free: "fold free_func ds q = q\<lparr>fq_freed := fq_freed q @ ds\<rparr>"
  by (induction ds arbitrary: q) (simp_all add: free_func_def)

lemma freed_inv [simp]: "fq_inv T (q\<lparr>fq_freed := x\<rparr>) = fq_inv T q" "flow_ids T (q\<lparr>fq_freed := x\<rparr>) = flow_ids T q"
    "flow_sum g T (q\<lparr>fq_freed := x\<rparr>) = flow_sum g T q" "same_shape (q\<lparr>fq_freed := x\<rparr>) q' = same_shape q q'"
    "same_shape q (q'\<lparr>fq_freed := x\<rparr>) = same_shape q q'"
  by (simp_all add: fq_inv_def same_shape_def flow_ids_def flow_sum_def tin_inv_def chain_def)

lemma drop_loop_form:
  obtains ds rest where "queue = ds @ rest" "drop_loop pending queue n b s fr = (rest, n + length ds, b + lens ds, s + sizes ds, fr @ ds)"
    "queue \<noteq> [] \<longrightarrow> ds \<noteq> []" "length ds \<le> max 1 (pending - n)"
proof -
  have "\<exists>ds rest. queue = ds @ rest \<and> drop_loop pending queue n b s fr = (rest, n + length ds, b + lens ds, s + sizes ds, fr @ ds) \<and>
      (queue \<noteq> [] \<longrightarrow> ds \<noteq> []) \<and> length ds \<le> max 1 (pending - n)"
  proof (induction pending queue n b s fr rule: drop_loop.induct)
    case (2 pending p rest n b s fr)
    show ?case
    proof (cases "n + 1 < pending")
      case True
      with 2 [OF refl refl refl refl] obtain ds r where *: "rest = ds @ r"
        "drop_loop pending rest (n + 1) (b + skb_len p) (s + skb_truesize p) (fr @ [p])
          = (r, n + 1 + length ds, b + skb_len p + lens ds, s + skb_truesize p + sizes ds, (fr @ [p]) @ ds)"
        "length ds \<le> max 1 (pending - (n + 1))"
        by blast
      with True show ?thesis by (intro exI [of _ "p # ds"] exI [of _ r]) (simp add: ac_simps)
    next
      case False
      then show ?thesis by (intro exI [of _ "[p]"] exI [of _ rest]) simp
    qed
  qed simp
  then show thesis using that by blast
qed

lemma flow_drop_removed:
  assumes "fq_inv T q" "f \<in> flow_ids T q" "fl_queue (fq_flows q f) \<noteq> []"
  obtains ds rest q' where "fl_queue (fq_flows q f) = ds @ rest" "ds \<noteq> []" "length ds \<le> 32"
    "fq_flow_drop f q = Some (length ds, q')" "removed T f rest (q\<lparr>fq_freed := fq_freed q @ ds\<rparr>) q'"
proof -
  let ?Q = "fl_queue (fq_flows q f)"
  obtain ds rest where d0: "?Q = ds @ rest" "?Q \<noteq> [] \<longrightarrow> ds \<noteq> []" "length ds \<le> max 1 (min 32 (length ?Q div 2) - 0)"
      "drop_loop (min 32 (length ?Q div 2)) ?Q 0 0 0 [] = (rest, 0 + length ds, 0 + lens ds, 0 + sizes ds, [] @ ds)"
    using drop_loop_form [of ?Q "min 32 (length ?Q div 2)" 0 0 0 "[]"] by metis
  then have d: "?Q = ds @ rest" "ds \<noteq> []" "length ds \<le> 32"
      "drop_loop (min 32 (length ?Q div 2)) ?Q 0 0 0 [] = (rest, length ds, lens ds, sizes ds, ds)"
    using assms(3) by simp_all
  let ?q = "q\<lparr>fq_freed := fq_freed q @ ds\<rparr>"
  have "mset (fl_queue (fq_flows ?q f)) = mset ds + mset rest" using d(1) by simp
  from adjust_removed [OF _ _ this d(2), of T] assms(1,2) obtain q'
    where "adjust_removal (upd_flow f (\<lambda>F. F\<lparr>fl_queue := rest\<rparr>) ?q) f (of_nat (length ds)) (lens ds) (sizes ds) = Some q'"
      "removed T f rest ?q q'" by auto
  moreover have "fold free_func ds (upd_flow f (\<lambda>F. F\<lparr>fl_queue := rest\<rparr>) q) = upd_flow f (\<lambda>F. F\<lparr>fl_queue := rest\<rparr>) ?q"
    by (simp add: fold_free upd_flow_def)
  ultimately show thesis using d that by (simp add: fq_flow_drop_def)
qed


section \<open>The fattest flow\<close>

lemma fold_fatter:
  "fold (fatter q) L acc = (r, n) \<Longrightarrow>
     snd acc \<le> n \<and> (\<forall>g \<in> set L. fl_backlog (fq_flows q g) \<le> n) \<and>
     ((r, n) = acc \<or> (\<exists>f \<in> set L. r = Some f \<and> fl_backlog (fq_flows q f) = n \<and> snd acc < n))"
proof (induction L arbitrary: acc)
  case (Cons f L)
  from Cons.IH [of "fatter q f acc"] Cons.prems show ?case
    by (auto simp: fatter_def Let_def split: if_splits)
qed simp

definition busy :: "nat set \<Rightarrow> fq \<Rightarrow> flow_id set" where
  "busy T q = {f \<in> flow_ids T q. fl_queue (fq_flows q f) \<noteq> []}"

lemma fattest_flow:
  assumes inv: "fq_inv T q" and "busy T q \<noteq> {}"
  obtains f where "fq_find_fattest_flow q = Some f" "f \<in> busy T q"
    "\<And>g. g \<in> flow_ids T q \<Longrightarrow> fl_backlog (fq_flows q g) \<le> fl_backlog (fq_flows q f)"
proof -
  let ?L = "map Flow (filter (flows_bitmap q) [0..<unat (flows_cnt q)]) @ map DefaultFlow (tin_backlog q)"
  note D = fq_invD [OF inv]
  have L: "set ?L = busy T q" using D(4,6) by (auto simp: busy_def flow_ids_def)
  have pos: "g \<in> flow_ids T q \<Longrightarrow> fl_backlog (fq_flows q g) = 0 \<longleftrightarrow> g \<notin> busy T q" for g
    using D(2) [of g] flow_memory [OF inv, of g] lens_0_iff by (auto simp: busy_def flow_inv_def)
  obtain r n where fold: "fold (fatter q) ?L (None, 0) = (r, n)" by fastforce
  note F = fold_fatter [OF fold, unfolded L]
  obtain g where "g \<in> busy T q" using assms(2) by auto
  then have "0 < fl_backlog (fq_flows q g)" using pos [of g] by (auto simp: busy_def word_gt_0)
  then have "n \<noteq> 0" using F \<open>g \<in> busy T q\<close> by auto
  then obtain f where f: "f \<in> busy T q" "r = Some f" "fl_backlog (fq_flows q f) = n" using F by auto
  have "fl_backlog (fq_flows q g) \<le> fl_backlog (fq_flows q f)" if "g \<in> flow_ids T q" for g
    unfolding f(3) using F pos [OF that] by (cases "g \<in> busy T q") auto
  moreover have "fq_find_fattest_flow q = Some f" using fold f(2) by (simp add: fq_find_fattest_flow_def)
  ultimately show thesis using f(1) by (intro that)
qed


section \<open>The limits\<close>

definition held :: "nat set \<Rightarrow> fq \<Rightarrow> nat multiset" where
  "held T q = flow_sum (\<lambda>F. mset (map skb_id (fl_queue F))) T q"

lemma removed_sums:
  assumes "removed T f rest q q'" "fq_inv T q" "f \<in> flow_ids T q" "mset (fl_queue (fq_flows q f)) = mset ds + mset rest"
  shows "held T q = held T q' + mset (map skb_id ds)"
    and "flow_sum (length \<circ> fl_queue) T q' + length ds = flow_sum (length \<circ> fl_queue) T q"
    and "flow_sum (memory \<circ> fl_queue) T q' + memory ds = flow_sum (memory \<circ> fl_queue) T q"
proof -
  have "flows_cnt q' = flows_cnt q" using assms(1) by (simp add: removed_def same_shape_def)
  note u = flow_sum_upd [OF fq_invD(1) [OF assms(2)] assms(3) this]
  note u = u [of "(fq_flows q f)\<lparr>fl_queue := rest, fl_backlog := lens rest\<rparr>"] and ps = perm_sums [OF assms(4)]
  have e: "fq_flows q' = (fq_flows q)(f := (fq_flows q f)\<lparr>fl_queue := rest, fl_backlog := lens rest\<rparr>)"
    using assms(1) by (simp add: removed_def)
  have "mset (map skb_id (fl_queue (fq_flows q f))) = mset (map skb_id ds) + mset (map skb_id rest)"
    using arg_cong [OF assms(4), of "image_mset skb_id"] by simp
  then show "held T q = held T q' + mset (map skb_id ds)"
    using u [OF e, of "\<lambda>F. mset (map skb_id (fl_queue F))"] by (simp add: held_def)
  show "flow_sum (length \<circ> fl_queue) T q' + length ds = flow_sum (length \<circ> fl_queue) T q"
    and "flow_sum (memory \<circ> fl_queue) T q' + memory ds = flow_sum (memory \<circ> fl_queue) T q"
    using u [OF e, of "length \<circ> fl_queue"] u [OF e, of "memory \<circ> fl_queue"] ps by simp_all
qed

text \<open>Statistics do not matter.\<close>

lemma fq_inv_cong:
  assumes "fq_flows q' = fq_flows q" "flows_cnt q' = flows_cnt q" "flows_bitmap q' = flows_bitmap q" "tin_backlog q' = tin_backlog q"
    "fq_backlog q' = fq_backlog q" "memory_usage q' = memory_usage q"
    "\<And>t. new_flows (fq_tins q' t) = new_flows (fq_tins q t)" "\<And>t. old_flows (fq_tins q' t) = old_flows (fq_tins q t)"
    "\<And>t. backlog_bytes (fq_tins q' t) = backlog_bytes (fq_tins q t)" "\<And>t. backlog_packets (fq_tins q' t) = backlog_packets (fq_tins q t)"
  shows "fq_inv T q' = fq_inv T q" "flow_ids T q' = flow_ids T q" "flow_sum g T q' = flow_sum g T q"
  using assms by (simp_all add: fq_inv_def flow_ids_def flow_sum_def tin_inv_def chain_def)

text \<open>Frames are taken off the fronts of the queues and freed.\<close>

definition trimmed :: "nat set \<Rightarrow> fq \<Rightarrow> fq \<Rightarrow> bool" where
  "trimmed T q q' \<longleftrightarrow>
     fq_inv T q' \<and> same_shape q q' \<and>
     (\<exists>ds. fq_freed q' = fq_freed q @ ds \<and> held T q = held T q' + mset (map skb_id ds)) \<and>
     (\<forall>f. \<exists>xs. fl_queue (fq_flows q f) = xs @ fl_queue (fq_flows q' f))"

lemma trimmed_refl: "fq_inv T q \<Longrightarrow> trimmed T q q"
  by (simp add: trimmed_def)

lemma trimmed_trans: assumes "trimmed T q q'" "trimmed T q' q''" shows "trimmed T q q''"
proof -
  obtain ds ds' where d: "fq_freed q' = fq_freed q @ ds" "held T q = held T q' + mset (map skb_id ds)"
      "fq_freed q'' = fq_freed q' @ ds'" "held T q' = held T q'' + mset (map skb_id ds')"
    using assms by (auto simp: trimmed_def)
  have "\<exists>xs. fl_queue (fq_flows q f) = xs @ fl_queue (fq_flows q'' f)" for f
    using assms unfolding trimmed_def by (metis append.assoc)
  moreover have "same_shape q q''" using assms same_shape_trans by (auto simp: trimmed_def)
  ultimately show ?thesis using assms(2) d by (auto simp: trimmed_def intro!: exI [of _ "ds @ ds'"])
qed

lemma flow_sum_0_iff: "finite T \<Longrightarrow> flow_sum (length \<circ> fl_queue) T q = 0 \<longleftrightarrow> busy T q = {}"
  by (auto simp: flow_sum_def busy_def)

lemma idle_counters:
  assumes inv: "fq_inv T q" and idle: "busy T q = {}"
  shows "fq_backlog q = 0" "memory_usage q = 0"
proof -
  have "flow_sum (memory \<circ> fl_queue) T q = 0"
    using idle fq_invD(1) [OF inv] by (auto simp: flow_sum_def busy_def)
  moreover have "flow_sum (length \<circ> fl_queue) T q = 0"
    using idle by (simp only: flow_sum_0_iff [OF fq_invD(1) [OF inv]])
  ultimately show "fq_backlog q = 0" "memory_usage q = 0"
    using fq_invD(7,8) [OF inv] by simp_all
qed

lemma usage_nat: "fq_inv T q \<Longrightarrow> unat (memory_usage q) = flow_sum (memory \<circ> fl_queue) T q"
  using fq_invD(8,9) [of T q] by (simp add: unat_of_nat)

text \<open>One round of the loop, up to the statistics.\<close>

lemma drop_round:
  assumes inv: "fq_inv T q" and "busy T q \<noteq> {}"
  obtains f n q' where "fq_find_fattest_flow q = Some f" "f \<in> busy T q" "fq_flow_drop f q = Some (n, q')" "n \<noteq> 0" "trimmed T q q'"
    "fl_tin (fq_flows q' f) \<noteq> None" "memory_usage q' \<le> memory_usage q"
    "flow_sum (length \<circ> fl_queue) T q' < flow_sum (length \<circ> fl_queue) T q"
proof -
  from fattest_flow [OF assms] obtain f where f: "fq_find_fattest_flow q = Some f" "f \<in> busy T q" by metis
  then have ids: "f \<in> flow_ids T q" and ne: "fl_queue (fq_flows q f) \<noteq> []" by (auto simp: busy_def)
  from flow_drop_removed [OF inv ids ne] obtain ds rest q' where d: "fl_queue (fq_flows q f) = ds @ rest" "ds \<noteq> []"
      "fq_flow_drop f q = Some (length ds, q')" "removed T f rest (q\<lparr>fq_freed := fq_freed q @ ds\<rparr>) q'" by metis
  have m: "mset (fl_queue (fq_flows (q\<lparr>fq_freed := fq_freed q @ ds\<rparr>) f)) = mset ds + mset rest" using d(1) by simp
  note sums = removed_sums [OF d(4) _ _ m, simplified, OF inv ids]
  have fl: "fq_flows q' = (fq_flows q)(f := (fq_flows q f)\<lparr>fl_queue := rest, fl_backlog := lens rest\<rparr>)"
    and sh: "same_shape q q'" and inv': "fq_inv T q'" and fr: "fq_freed q' = fq_freed q @ ds"
    using d(4) by (simp_all add: removed_def)
  have "held T q = held T q' + mset (map skb_id ds)" using sums(1) by (simp add: held_def)
  then have "trimmed T q q'" unfolding trimmed_def using inv' sh fr d(1) by (auto simp: fl)
  moreover have "fl_tin (fq_flows q' f) \<noteq> None" using fq_invD(2) [OF inv ids] ne by (simp add: fl flow_inv_def)
  moreover have "memory_usage q' \<le> memory_usage q"
    using sums(3) usage_nat [OF inv] usage_nat [OF inv'] by (simp add: word_le_nat_alt)
  moreover have "flow_sum (length \<circ> fl_queue) T q' < flow_sum (length \<circ> fl_queue) T q"
    using sums(2) d(2) by (cases ds) simp_all
  ultimately show thesis using that f d(2,3) by blast
qed

lemma enforce_limits_ok:
  assumes "fq_inv T q" "\<not> oom \<longrightarrow> memory_usage q \<le> memory_limit q"
  shows "\<exists>q'. enforce_limits oom q = Some q' \<and> trimmed T q q' \<and> fq_backlog q' \<le> fq_limit q' \<and> memory_usage q' \<le> memory_limit q'"
  using assms
proof (induction "flow_sum (length \<circ> fl_queue) T q" arbitrary: q oom rule: less_induct)
  case less
  show ?case
  proof (cases "fq_limit q < fq_backlog q \<or> oom")
    case False
    then show ?thesis using less.prems by (subst enforce_limits.simps) (auto intro: trimmed_refl)
  next
    case True
    show ?thesis
    proof (cases "busy T q = {}")
      case True
      note z = idle_counters [OF less.prems(1) True]
      moreover have "fq_find_fattest_flow q = None"
      proof -
        have "filter (flows_bitmap q) [0..<unat (flows_cnt q)] = []" "tin_backlog q = []"
          using fq_invD(4,6) [OF less.prems(1)] True by (auto simp: busy_def flow_ids_def filter_empty_conv simp flip: set_empty)
        then show ?thesis by (simp add: fq_find_fattest_flow_def)
      qed
      ultimately show ?thesis using less.prems by (subst enforce_limits.simps) (auto intro: trimmed_refl)
    next
      case False
      from drop_round [OF less.prems(1) this] obtain f n q1 where r: "fq_find_fattest_flow q = Some f"
          "fq_flow_drop f q = Some (n, q1)" "n \<noteq> 0" "trimmed T q q1" "fl_tin (fq_flows q1 f) \<noteq> None"
          "memory_usage q1 \<le> memory_usage q" "flow_sum (length \<circ> fl_queue) T q1 < flow_sum (length \<circ> fl_queue) T q" by metis
      obtain t where t: "fl_tin (fq_flows q1 f) = Some t" using r(5) by auto
      define q2 where "q2 = (let q = upd_tin t (\<lambda>T. T\<lparr>tin_overlimit := tin_overlimit T + 1\<rparr>) q1 in q\<lparr>fq_overlimit := fq_overlimit q + 1\<rparr>)"
      define q3 where "q3 = (if oom then q2\<lparr>overmemory := overmemory q2 + 1\<rparr> else q2)"
      define oom' where "oom' \<longleftrightarrow> oom \<and> memory_limit q3 < memory_usage q3"
      have step: "enforce_limits oom q = enforce_limits oom' q3"
        using True r(1-3) t by (subst enforce_limits.simps) (auto simp: q2_def q3_def oom'_def Let_def)
      have same: "fq_flows q3 = fq_flows q1" "flows_cnt q3 = flows_cnt q1" "flows_bitmap q3 = flows_bitmap q1" "tin_backlog q3 = tin_backlog q1"
          "fq_backlog q3 = fq_backlog q1" "memory_usage q3 = memory_usage q1" "fq_freed q3 = fq_freed q1" "memory_limit q3 = memory_limit q1"
          "fq_limit q3 = fq_limit q1" "quantum q3 = quantum q1"
          "\<And>t. new_flows (fq_tins q3 t) = new_flows (fq_tins q1 t)" "\<And>t. old_flows (fq_tins q3 t) = old_flows (fq_tins q1 t)"
          "\<And>t. backlog_bytes (fq_tins q3 t) = backlog_bytes (fq_tins q1 t)"
          "\<And>t. backlog_packets (fq_tins q3 t) = backlog_packets (fq_tins q1 t)"
        by (simp_all add: q3_def q2_def upd_tin_def Let_def)
      note inv3 = fq_inv_cong [OF same(1-6,11-14)]
      have "held T q3 = held T q1" by (simp add: held_def inv3(3))
      then have tr: "trimmed T q q3" using r(4) same inv3(1) by (simp add: trimmed_def same_shape_def)
      have "\<not> oom' \<longrightarrow> memory_usage q3 \<le> memory_limit q3"
      proof (cases oom)
        case False
        have "memory_limit q3 = memory_limit q" using tr by (simp add: trimmed_def same_shape_def)
        then show ?thesis using False less.prems(2) r(6) same(6) by auto
      qed (auto simp: oom'_def)
      from less.hyps [OF _ _ this] r(7) tr obtain q' where "enforce_limits oom' q3 = Some q'" "trimmed T q3 q'"
          "fq_backlog q' \<le> fq_limit q'" "memory_usage q' \<le> memory_limit q'"
        by (auto simp: inv3(3) trimmed_def)
      then show ?thesis using step trimmed_trans [OF tr] by auto
    qed
  qed
qed


section \<open>Adding frames to a flow\<close>

lemma to_s32_range: "- (2 ^ 31) \<le> to_s32 x" "to_s32 x < 2 ^ 31"
  unfolding to_s32_def using signed_take_bit_int_greater_eq_minus_exp [of 31 x] signed_take_bit_int_less_exp [of 31 x] by simp_all

lemma to_s32_id: "- (2 ^ 31) \<le> x \<Longrightarrow> x < 2 ^ 31 \<Longrightarrow> to_s32 x = x"
  unfolding to_s32_def by (rule signed_take_bit_int_eq_self) simp_all

lemma linked_iff: "fq_inv T q \<Longrightarrow> t \<in> T \<Longrightarrow> f \<in> flow_ids T q \<Longrightarrow> linked t f q \<longleftrightarrow> fl_tin (fq_flows q f) = Some t"
  using fq_invD(3) [of T q t] by (auto simp: linked_def tin_inv_def chain_def)

text \<open>The state after \<open>skbs\<close> were queued on the flow \<open>f\<close> for the tin \<open>t\<close>.\<close>

definition added :: "nat set \<Rightarrow> nat \<Rightarrow> flow_id \<Rightarrow> fq_skb list \<Rightarrow> fq \<Rightarrow> fq \<Rightarrow> bool" where
  "added T t f skbs q q' \<longleftrightarrow>
     fq_inv T q' \<and> f \<in> flow_ids T q \<and> (fl_tin (fq_flows q f) = None \<or> fl_tin (fq_flows q f) = Some t) \<and>
     fl_queue (fq_flows q' f) = fl_queue (fq_flows q f) @ skbs \<and> fl_tin (fq_flows q' f) = Some t \<and>
     (\<forall>g. g \<noteq> f \<longrightarrow> fq_flows q' g = fq_flows q g) \<and> held T q' = held T q + mset (map skb_id skbs) \<and>
     fq_freed q' = fq_freed q \<and> flows_cnt q' = flows_cnt q \<and> fq_limit q' = fq_limit q \<and>
     memory_limit q' = memory_limit q \<and> quantum q' = quantum q"

lemma added_inv:
  assumes inv: "fq_inv T q" and f: "f \<in> flow_ids T q" and t: "t \<in> T" "fl_tin (fq_flows q f) = None \<or> fl_tin (fq_flows q f) = Some t"
    and def: "\<forall>u. f = DefaultFlow u \<longrightarrow> u = t"
    and skbs: "skbs \<noteq> []" "list_all wf_skb skbs" "flow_sum (memory \<circ> fl_queue) T q + memory skbs < 2 ^ 32"
    and cnt: "flows_cnt q' = flows_cnt q"
    and fl: "fq_flows q' = (fq_flows q)(f := F')"
    and F': "fl_tin F' = Some t" "fl_queue F' = fl_queue (fq_flows q f) @ skbs" "fl_backlog F' = fl_backlog (fq_flows q f) + lens skbs"
      "- (2 ^ 31) \<le> fl_deficit F'" "fl_deficit F' < 2 ^ 31"
    and ch: "\<And>u. chain u q' = (if u = t \<and> fl_tin (fq_flows q f) = None then take (length (new_flows (fq_tins q t))) (chain t q) @ [f] @ drop (length (new_flows (fq_tins q t))) (chain t q) else chain u q)"
    and bb: "\<And>u. backlog_bytes (fq_tins q' u) = backlog_bytes (fq_tins q u) + (if u = t then lens skbs else 0)"
    and bp: "\<And>u. backlog_packets (fq_tins q' u) = backlog_packets (fq_tins q u) + (if u = t then of_nat (length skbs) else 0)"
    and bm: "\<And>i. flows_bitmap q' i \<longleftrightarrow> flows_bitmap q i \<or> f = Flow i"
    and tb: "distinct (tin_backlog q')" "set (tin_backlog q') = set (tin_backlog q) \<union> {u. f = DefaultFlow u}"
    and bl: "fq_backlog q' = fq_backlog q + of_nat (length skbs)" "memory_usage q' = memory_usage q + sizes skbs"
  shows "fq_inv T q'" "held T q' = held T q + mset (map skb_id skbs)"
proof -
  let ?F = "fq_flows q f"
  note D = fq_invD [OF inv]
  have ids: "flow_ids T q' = flow_ids T q" using cnt by (simp add: flow_ids_def)
  note tot = flow_sum_upd [OF D(1) f cnt fl]
  note ffi = D(2) [OF f]
  have "flow_inv T f F'" using ffi F' t(1) def skbs(2) by (auto simp: flow_inv_def)
  then have flows: "\<forall>g \<in> flow_ids T q'. flow_inv T g (fq_flows q' g)" unfolding ids fl using D(2) by simp
  have empty: "fl_tin ?F = None \<Longrightarrow> fl_queue ?F = []" using ffi by (auto simp: flow_inv_def)
  have tins: "tin_inv T q' u" if "u \<in> T" for u
  proof -
    have D3: "distinct (chain u q)" "set (chain u q) = {g \<in> flow_ids T q. fl_tin (fq_flows q g) = Some u}"
      "backlog_bytes (fq_tins q u) = flow_sum (of_tin u lens) T q"
      "backlog_packets (fq_tins q u) = flow_sum (of_tin u (of_nat \<circ> length)) T q"
      using D(3) [OF that] by (auto simp: tin_inv_def)
    have "distinct (chain u q')" "set (chain u q') = {g \<in> flow_ids T q'. fl_tin (fq_flows q' g) = Some u}"
    proof -
      have nin: "fl_tin ?F = None \<Longrightarrow> u = t \<Longrightarrow> f \<notin> set (chain t q)" using D3(2) by auto
      have split: "set (take n xs @ [f] @ drop n xs) = insert f (set xs)" for n and xs :: "flow_id list"
        by (metis Un_insert_right append_Cons append_Nil append_take_drop_id list.simps(15) set_append)
      have mid: "distinct (take n xs @ f # drop n xs) \<longleftrightarrow> f \<notin> set xs \<and> distinct xs" for n and xs :: "flow_id list"
        using mset_eq_imp_distinct_iff [of "take n xs @ f # drop n xs" "f # take n xs @ drop n xs"]
        unfolding append_take_drop_id by (metis append_take_drop_id distinct.simps(2) mset.simps(2) mset_append union_mset_add_mset_right)
      show "distinct (chain u q')"
        unfolding ch using D3(1) nin by (auto simp: mid simp del: distinct_append)
      show "set (chain u q') = {g \<in> flow_ids T q'. fl_tin (fq_flows q' g) = Some u}"
      proof -
        have "set (chain u q') = (if u = t \<and> fl_tin ?F = None then insert f (set (chain u q)) else set (chain u q))"
          unfolding ch by (simp only: split split: if_split) auto
        then show ?thesis unfolding ids fl D3(2) using t F'(1) f by auto
      qed
    qed
    moreover have "flow_sum (of_tin u lens) T q' = flow_sum (of_tin u lens) T q + (if u = t then lens skbs else 0)"
      using tot [of "of_tin u lens"] t(2) F' empty by (auto simp: of_tin_def split: if_splits)
    moreover have "flow_sum (of_tin u (of_nat \<circ> length)) T q' =
        (flow_sum (of_tin u (of_nat \<circ> length)) T q + (if u = t then of_nat (length skbs) else 0) :: u32)"
      using tot [of "of_tin u (of_nat \<circ> length) :: _ \<Rightarrow> u32"] t(2) F' empty by (auto simp: of_tin_def split: if_splits)
    ultimately show ?thesis using D3(3,4) by (simp add: tin_inv_def bb bp)
  qed
  have len: "flow_sum (length \<circ> fl_queue) T q' = flow_sum (length \<circ> fl_queue) T q + length skbs"
    and mem: "flow_sum (memory \<circ> fl_queue) T q' = flow_sum (memory \<circ> fl_queue) T q + memory skbs"
    using tot [of "length \<circ> fl_queue"] tot [of "memory \<circ> fl_queue"] F' by simp_all
  have "fq_backlog q' = of_nat (flow_sum (length \<circ> fl_queue) T q')" "memory_usage q' = of_nat (flow_sum (memory \<circ> fl_queue) T q')"
    using bl D(7,8) by (simp_all add: sizes_memory len mem)
  moreover have "set (tin_backlog q') = {u \<in> T. fl_queue (fq_flows q' (DefaultFlow u)) \<noteq> []}"
    unfolding tb(2) fl using D(6) F'(2) skbs(1) t(1) def by auto
  moreover have "flows_bitmap q' i \<longleftrightarrow> fl_queue (fq_flows q' (Flow i)) \<noteq> []" if "i < unat (flows_cnt q')" for i
    using D(4) [of i] that skbs(1) F'(2) unfolding bm fl cnt by auto
  ultimately show "fq_inv T q'"
    using D(1) flows tins tb(1) mem skbs(3) by (simp add: fq_inv_def)
  show "held T q' = held T q + mset (map skb_id skbs)"
    using tot [of "\<lambda>F. mset (map skb_id (fl_queue F))"] F'(2) by (simp add: held_def)
qed

lemma fold_enqueue:
  "fold (enqueue_skb t f) skbs q =
     q\<lparr>fq_flows := (fq_flows q)(f := (fq_flows q f)\<lparr>fl_backlog := fl_backlog (fq_flows q f) + lens skbs,
                                                 fl_queue := fl_queue (fq_flows q f) @ skbs\<rparr>),
       fq_tins := (fq_tins q)(t := (fq_tins q t)\<lparr>backlog_bytes := backlog_bytes (fq_tins q t) + lens skbs,
                                              backlog_packets := backlog_packets (fq_tins q t) + of_nat (length skbs)\<rparr>),
       memory_usage := memory_usage q + sizes skbs, fq_backlog := fq_backlog q + of_nat (length skbs)\<rparr>"
  by (induction skbs arbitrary: q) (simp_all add: enqueue_skb_def upd_flow_def upd_tin_def Let_def algebra_simps)

lemma enqueue_added:
  assumes inv: "fq_inv T q" and t: "t \<in> T" and i: "idx < unat (flows_cnt q)"
    and skbs: "skbs \<noteq> []" "list_all wf_skb skbs" "flow_sum (memory \<circ> fl_queue) T q + memory skbs < 2 ^ 32"
  obtains f where "f = Flow idx \<or> f = DefaultFlow t" "added T t f skbs q (enqueue_skbs t idx skbs q)"
proof -
  obtain f q1 where c: "fq_flow_classify t idx q = (f, q1)" by fastforce
  have f: "f \<in> flow_ids T q" "f = Flow idx \<or> f = DefaultFlow t" "fl_tin (fq_flows q f) = None \<or> fl_tin (fq_flows q f) = Some t"
    using c fq_invD(2) [OF inv, of "DefaultFlow t"] i t
    by (auto simp: fq_flow_classify_def Let_def flow_inv_def split: if_splits)
  have q1: "fq_flows q1 = fq_flows q" "flows_cnt q1 = flows_cnt q" "flows_bitmap q1 = flows_bitmap q" "tin_backlog q1 = tin_backlog q"
      "fq_backlog q1 = fq_backlog q" "memory_usage q1 = memory_usage q" "fq_freed q1 = fq_freed q" "memory_limit q1 = memory_limit q"
      "fq_limit q1 = fq_limit q" "quantum q1 = quantum q"
      "\<And>t. new_flows (fq_tins q1 t) = new_flows (fq_tins q t)" "\<And>t. old_flows (fq_tins q1 t) = old_flows (fq_tins q t)"
      "\<And>t. backlog_bytes (fq_tins q1 t) = backlog_bytes (fq_tins q t)"
      "\<And>t. backlog_packets (fq_tins q1 t) = backlog_packets (fq_tins q t)"
    using c by (auto simp: fq_flow_classify_def Let_def upd_tin_def split: if_splits)
  let ?F = "fq_flows q f" and ?q' = "enqueue_skbs t idx skbs q"
  have bz: "fl_backlog ?F = 0 \<longleftrightarrow> fl_queue ?F = []"
    using fq_invD(2) [OF inv f(1)] flow_memory [OF inv f(1)] lens_0_iff by (auto simp: flow_inv_def)
  have lk: "linked t f q \<longleftrightarrow> fl_tin ?F = Some t" using linked_iff [OF inv t f(1)] .
  define F' where "F' = ?F\<lparr>fl_tin := Some t, fl_backlog := fl_backlog ?F + lens skbs, fl_queue := fl_queue ?F @ skbs,
    fl_deficit := if fl_tin ?F = None then to_s32 (uint (quantum q)) else fl_deficit ?F\<rparr>"
  note defs = enqueue_skbs_def c Let_def fold_enqueue upd_flow_def upd_tin_def linked_def q1 prod.case
  have fl: "fq_flows ?q' = (fq_flows q)(f := F')"
    using f(3) lk by (auto simp: defs F'_def split: if_splits)
  have rest: "flows_cnt ?q' = flows_cnt q" "fq_freed ?q' = fq_freed q" "fq_limit ?q' = fq_limit q" "memory_limit ?q' = memory_limit q"
      "quantum ?q' = quantum q" "fq_backlog ?q' = fq_backlog q + of_nat (length skbs)" "memory_usage ?q' = memory_usage q + sizes skbs"
      "\<And>u. backlog_bytes (fq_tins ?q' u) = backlog_bytes (fq_tins q u) + (if u = t then lens skbs else 0)"
      "\<And>u. backlog_packets (fq_tins ?q' u) = backlog_packets (fq_tins q u) + (if u = t then of_nat (length skbs) else 0)"
    by (auto simp: defs)
  have ch: "chain u ?q' = (if u = t \<and> fl_tin ?F = None then take (length (new_flows (fq_tins q t))) (chain t q) @ [f] @ drop (length (new_flows (fq_tins q t))) (chain t q) else chain u q)" for u
    using f(3) lk by (auto simp: defs chain_def)
  have bm: "flows_bitmap ?q' i \<longleftrightarrow> flows_bitmap q i \<or> f = Flow i" for i
    using f(2) i bz fq_invD(4) [OF inv, of idx] by (auto simp: defs)
  have tb: "distinct (tin_backlog ?q')" "set (tin_backlog ?q') = set (tin_backlog q) \<union> {u. f = DefaultFlow u}"
    using f(2) bz fq_invD(5,6) [OF inv] t by (auto simp: defs)
  have F'p: "fl_tin F' = Some t" "fl_queue F' = fl_queue ?F @ skbs" "fl_backlog F' = fl_backlog ?F + lens skbs"
      "- (2 ^ 31) \<le> fl_deficit F'" "fl_deficit F' < 2 ^ 31"
    using fq_invD(2) [OF inv f(1)] to_s32_range [of "uint (quantum q)"] by (simp_all add: F'_def flow_inv_def)
  have def: "\<forall>u. f = DefaultFlow u \<longrightarrow> u = t" using f(2) by auto
  note ai = added_inv [OF inv f(1) t f(3) def skbs rest(1) fl F'p ch rest(8,9) bm tb rest(6,7)]
  have "added T t f skbs q ?q'" unfolding added_def using ai f F'p rest by (simp add: fl)
  then show thesis using that f(2) by blast
qed

end
