(* ===== verification/CodelInv.thy ===== *)
theory CodelInv
  imports Codel
begin

text \<open>
  What CoDel does to the queue it is put on. The locale states what it relies on in its callbacks; under it the
  drop loop ends and a frame is handed out whenever the queue holds one.
\<close>

text \<open>A frame and the same frame, perhaps marked.\<close>

definition same_skb :: "fq_skb \<Rightarrow> fq_skb \<Rightarrow> bool" where
  "same_skb p p' \<longleftrightarrow> p'\<lparr>skb_ce := skb_ce p\<rparr> = p"

lemma same_skb_refl [simp]: "same_skb p p" "same_skb p (INET_ECN_set_ce ect p)" "same_skb p (p\<lparr>skb_ce := c\<rparr>)"
  by (simp_all add: same_skb_def INET_ECN_set_ce_def)

lemma same_skb_trans: "same_skb p p' \<Longrightarrow> same_skb p' p'' \<Longrightarrow> same_skb p p''"
  by (cases p, cases p', cases p'') (simp add: same_skb_def)

lemma same_skb_id: "same_skb p p' \<Longrightarrow> skb_id p' = skb_id p \<and> skb_len p' = skb_len p \<and> skb_truesize p' = skb_truesize p"
  by (cases p, cases p') (auto simp: same_skb_def)


lemma should_drop_backlog: "codel_should_drop skb params b now v s = (True, v', s') \<Longrightarrow> b \<noteq> 0"
  by (auto simp: codel_should_drop_def Let_def split: option.splits if_splits)

lemma codel_end_frame:
  "codel_end ect dsfield params (Some p) v s = (r, s') \<Longrightarrow> \<exists>p'. r = Some p' \<and> same_skb p p'"
  by (auto simp: codel_end_def Let_def split: if_splits)

locale codel_source =
  fixes dequeue_func :: "'c \<Rightarrow> (fq_skb option \<times> 'c) option"
    and drop_func :: "fq_skb \<Rightarrow> 'c \<Rightarrow> 'c"
    and bl :: "'c \<Rightarrow> u32"
    and queue :: "'c \<Rightarrow> fq_skb list"
    and freed :: "'c \<Rightarrow> fq_skb list"
    and ok :: "'c \<Rightarrow> bool"
    and fr :: "'c \<Rightarrow> 'c \<Rightarrow> bool"
  assumes deq_empty: "ok c \<Longrightarrow> queue c = [] \<Longrightarrow> dequeue_func c = Some (None, c)"
    and deq_head: "ok c \<Longrightarrow> queue c = p # ps \<Longrightarrow>
      \<exists>c'. dequeue_func c = Some (Some p, c') \<and> ok c' \<and> fr c c' \<and> queue c' = ps \<and> freed c' = freed c"
    and dropped: "ok c \<Longrightarrow> ok (drop_func p c) \<and> fr c (drop_func p c) \<and> queue (drop_func p c) = queue c \<and> freed (drop_func p c) = freed c @ [p]"
    and idle: "ok c \<Longrightarrow> queue c = [] \<Longrightarrow> bl c = 0"
    and fr_refl: "fr c c"
    and fr_trans: "fr c c' \<Longrightarrow> fr c' c'' \<Longrightarrow> fr c c''"
begin

text \<open>From the context \<open>c\<close>, with \<open>held\<close> already taken off, frames were freed and one was taken.\<close>

definition takes_one :: "fq_skb list \<Rightarrow> 'c \<Rightarrow> fq_skb \<Rightarrow> 'c \<Rightarrow> bool" where
  "takes_one held c p c' \<longleftrightarrow>
     ok c' \<and> fr c c' \<and> (\<exists>ds p0. held @ queue c = ds @ p0 # queue c' \<and> same_skb p0 p \<and> freed c' = freed c @ ds)"

lemma takes_one_now: "ok c \<Longrightarrow> same_skb p p' \<Longrightarrow> takes_one [p] c p' c"
  by (auto simp: takes_one_def fr_refl intro!: exI [of _ "[]"])

lemma drop_then:
  assumes "ok c" "queue c = p' # ps" "dequeue_func (drop_func p c) = Some (Some p', c')" "takes_one [p'] c' r c''"
  shows "takes_one [p] c r c''"
proof -
  let ?c = "drop_func p c"
  note d = dropped [OF assms(1), of p]
  obtain c1 where "dequeue_func ?c = Some (Some p', c1)" "ok c1" "fr ?c c1" "queue c1 = ps" "freed c1 = freed ?c"
    using deq_head [of ?c p' ps] d assms(2) by auto
  with assms(3) have c': "fr ?c c'" "queue c' = ps" "freed c' = freed ?c" by auto
  obtain ds p0 where e: "ok c''" "fr c' c''" "[p'] @ queue c' = ds @ p0 # queue c''" "same_skb p0 r" "freed c'' = freed c' @ ds"
    using assms(4) by (auto simp: takes_one_def)
  have "fr c c''" using fr_trans d c'(1) e(2) by metis
  moreover have "[p] @ queue c = (p # ds) @ p0 # queue c''" using e(3) c'(2) assms(2) by simp
  moreover have "freed c'' = freed c @ (p # ds)" using e(5) c'(3) d by simp
  ultimately show ?thesis using e(1,4) unfolding takes_one_def by blast
qed

lemma next_frame:
  assumes "ok c" "queue c \<noteq> []"
  obtains p' ps c' where "queue c = p' # ps" "dequeue_func (drop_func p c) = Some (Some p', c')" "ok c'" "queue c' = ps"
proof -
  obtain p' ps where q: "queue c = p' # ps" using assms(2) by (cases "queue c") auto
  then show thesis using deq_head [of "drop_func p c" p' ps] dropped [OF assms(1), of p] that by auto
qed

lemma drop_loop_takes:
  assumes "ok c" "queue c \<noteq> []"
  shows "\<exists>r v' s' c'. codel_drop_loop dequeue_func drop_func bl ect params now p v s c = Some (Some r, v', s', c') \<and> takes_one [p] c r c'"
  using assms
proof (induction "length (queue c)" arbitrary: c p v s rule: less_induct)
  case less
  show ?case
  proof (cases "dropping v \<and> codel_time_after_eq now (drop_next v) \<and> \<not> (ecn params \<and> ect p)")
    case False
    then show ?thesis
      using takes_one_now [OF less.prems(1)] by (subst codel_drop_loop.simps) (auto simp: Let_def)
  next
    case True
    obtain p' ps c1 where n: "queue c = p' # ps" "dequeue_func (drop_func p c) = Some (Some p', c1)" "ok c1" "queue c1 = ps"
      using next_frame [OF less.prems] by metis
    define v1 where "v1 = codel_Newton_step (v\<lparr>cv_count := cv_count v + 1\<rparr>)"
    define s1 where "s1 = s\<lparr>drop_len := drop_len s + skb_len p, drop_count := drop_count s + 1\<rparr>"
    obtain d v2 s2 where sd: "codel_should_drop (Some p') params (bl c1) now v1 s1 = (d, v2, s2)" by (metis prod_cases3)
    note step = codel_drop_loop.simps [of dequeue_func drop_func bl ect params now p v s c]
    show ?thesis
    proof (cases d)
      case False
      then show ?thesis
        using True n(2) sd drop_then [OF less.prems(1) n(1,2) takes_one_now [OF n(3) same_skb_refl(1)]]
        unfolding step by (auto simp: Let_def v1_def s1_def)
    next
      case d: True
      then have "queue c1 \<noteq> []" using should_drop_backlog [of "Some p'" params "bl c1"] sd idle [OF n(3)] by auto
      moreover have "length (queue c1) < length (queue c)" using n(1,4) by simp
      ultimately obtain r v' s' c' where r: "takes_one [p'] c1 r c'"
          "codel_drop_loop dequeue_func drop_func bl ect params now p'
            (v2\<lparr>drop_next := codel_control_law (drop_next v2) (interval params) (ucast (rec_inv_sqrt v2))\<rparr>) s2 c1
            = Some (Some r, v', s', c')"
        using less.hyps [OF _ n(3)] by blast
      then show ?thesis
        using True n(2) sd d drop_then [OF less.prems(1) n(1,2) r(1)]
        unfolding step by (auto simp: Let_def v1_def s1_def)
    qed
  qed
qed

lemma dequeue_empty: "ok c \<Longrightarrow> queue c = [] \<Longrightarrow>
    codel_dequeue dequeue_func drop_func bl ect dsfield params now v s c = Some (None, v\<lparr>dropping := False\<rparr>, s, c)"
  by (simp add: codel_dequeue_def deq_empty)

lemma dequeue_takes:
  assumes "ok c" "queue c \<noteq> []"
  shows "\<exists>p v' s' c'. codel_dequeue dequeue_func drop_func bl ect dsfield params now v s c = Some (Some p, v', s', c') \<and> takes_one [] c p c'"
proof -
  obtain p ps where q: "queue c = p # ps" using assms(2) by (cases "queue c") auto
  obtain c1 where c1: "dequeue_func c = Some (Some p, c1)" "ok c1" "fr c c1" "queue c1 = ps" "freed c1 = freed c"
    using deq_head [OF assms(1) q] by auto
  obtain d v1 s1 where sd: "codel_should_drop (Some p) params (bl c1) now v s = (d, v1, s1)" by (metis prod_cases3)
  have ne: "queue c1 \<noteq> []" if d using sd that should_drop_backlog [of "Some p" params "bl c1"] idle [OF c1(2)] by auto
  let ?body = "if dropping v1 then
      if \<not> d then Some (Some p, v1\<lparr>dropping := False\<rparr>, s1, c1)
      else codel_drop_loop dequeue_func drop_func bl ect params now p v1 s1 c1
    else if d then
      if ecn params \<and> ect p then
        Some (Some (INET_ECN_set_ce ect p), codel_enter params now v1, s1\<lparr>ecn_mark := ecn_mark s1 + 1\<rparr>, c1)
      else
        let s1 = s1\<lparr>drop_len := drop_len s1 + skb_len p, drop_count := drop_count s1 + 1\<rparr>; c2 = drop_func p c1
        in do {
          (skb, c2) \<leftarrow> dequeue_func c2;
          let (drop, v1, s1) = codel_should_drop skb params (bl c2) now v1 s1;
          Some (skb, codel_enter params now v1, s1, c2)
        }
    else Some (Some p, v1, s1, c1)"
  have "\<exists>r v' s' c'. ?body = Some (Some r, v', s', c') \<and> takes_one [p] c1 r c'"
  proof (cases "d \<and> (dropping v1 \<or> \<not> (ecn params \<and> ect p))")
    case False
    then show ?thesis using takes_one_now [OF c1(2)] by auto
  next
    case True
    then have ne: "queue c1 \<noteq> []" using ne by simp
    show ?thesis
    proof (cases "dropping v1")
      case True
      then show ?thesis using drop_loop_takes [OF c1(2) ne] \<open>d \<and> _\<close> by auto
    next
      case False
      obtain p' ps' c2 where n: "queue c1 = p' # ps'" "dequeue_func (drop_func p c1) = Some (Some p', c2)" "ok c2" "queue c2 = ps'"
        using next_frame [OF c1(2) ne] by metis
      from drop_then [OF c1(2) n(1,2) takes_one_now [OF n(3) same_skb_refl(1)]] show ?thesis
        using False n(2) True by (auto split: prod.splits)
    qed
  qed
  then obtain r v2 s2 c2 where body: "?body = Some (Some r, v2, s2, c2)" "takes_one [p] c1 r c2" by blast
  obtain r' s3 where e: "codel_end ect dsfield params (Some r) v2 s2 = (Some r', s3)" "same_skb r r'"
    using codel_end_frame by (metis surj_pair)
  have eq: "codel_dequeue dequeue_func drop_func bl ect dsfield params now v s c =
      do { (skb, v, s, c) \<leftarrow> ?body; let (skb, s) = codel_end ect dsfield params skb v s; Some (skb, v, s, c) }"
    unfolding codel_dequeue_def c1(1) by (simp add: sd)
  have "codel_dequeue dequeue_func drop_func bl ect dsfield params now v s c = Some (Some r', v2, s3, c2)"
    unfolding eq body(1) by (simp add: e(1))
  moreover have "takes_one [] c r' c2"
    using body(2) c1 q same_skb_trans [OF _ e(2)] fr_trans unfolding takes_one_def by fastforce
  ultimately show ?thesis by blast
qed

end

end
