(* ===== verification/FairQueueDeq.thy ===== *)
theory FairQueueDeq
  imports FairQueueInv CodelInv
begin

text \<open>
  Dequeueing from a tin. The flow to serve is asked for a frame through the callback \<open>dequeue_func\<close>; the locale states
  what the round robin relies on, and under it the loop returns, keeps the invariant and takes a frame whenever there
  is one.
\<close>


section \<open>Changes of the chains\<close>

lemma fq_inv_chains:
  assumes inv: "fq_inv T q"
    and fl: "\<And>g. fl_queue (fq_flows q' g) = fl_queue (fq_flows q g)" "\<And>g. fl_backlog (fq_flows q' g) = fl_backlog (fq_flows q g)"
      "\<And>g. fl_tin (fq_flows q' g) = fl_tin (fq_flows q g)"
      "\<And>g. g \<in> flow_ids T q \<Longrightarrow> - (2 ^ 31) \<le> fl_deficit (fq_flows q' g) \<and> fl_deficit (fq_flows q' g) < 2 ^ 31"
    and same: "flows_cnt q' = flows_cnt q" "flows_bitmap q' = flows_bitmap q" "tin_backlog q' = tin_backlog q"
      "fq_backlog q' = fq_backlog q" "memory_usage q' = memory_usage q"
      "\<And>t. backlog_bytes (fq_tins q' t) = backlog_bytes (fq_tins q t)" "\<And>t. backlog_packets (fq_tins q' t) = backlog_packets (fq_tins q t)"
    and ch: "\<And>t. t \<in> T \<Longrightarrow> mset (chain t q') = mset (chain t q)"
  shows "fq_inv T q'"
proof -
  have ids: "flow_ids T q' = flow_ids T q" using same(1) by (simp add: flow_ids_def)
  have s: "flow_sum (g \<circ> fl_queue) T q' = flow_sum (g \<circ> fl_queue) T q" for g :: "_ \<Rightarrow> nat"
    using same(1) fl(1) by (intro flow_sum_cong) simp_all
  have o: "flow_sum (of_tin u g) T q' = flow_sum (of_tin u g) T q" for u and g :: "_ \<Rightarrow> u32"
    using same(1) fl(1,3) by (intro flow_sum_cong) (simp_all add: of_tin_def)
  have fi: "flow_inv T g (fq_flows q' g)" if "g \<in> flow_ids T q" for g
    using fq_invD(2) [OF inv that] fl(4) [OF that] unfolding flow_inv_def fl(1-3) by blast
  have ti: "tin_inv T q' u" if "u \<in> T" for u
    using fq_invD(3) [OF inv that] mset_eq_imp_distinct_iff [OF ch [OF that]] mset_eq_setD [OF ch [OF that]]
    by (simp add: tin_inv_def ids fl same o)
  show ?thesis using inv fi ti unfolding fq_inv_def ids s by (simp add: fl same)
qed

lemma chain_unlink: "chain u (unlink_flow f q) = filter ((\<noteq>) f) (chain u q)"
  by (simp add: chain_def unlink_flow_def)

lemma chain_move_tail: "chain u (move_tail_old t f q) = filter ((\<noteq>) f) (chain u q) @ (if u = t then [f] else [])"
  by (simp add: move_tail_old_def upd_tin_def chain_def unlink_flow_def)

lemma filter_neq_notin: "f \<notin> set xs \<Longrightarrow> filter ((\<noteq>) f) xs = xs"
  by (auto intro: filter_True)

lemma mset_filter_neq: "distinct xs \<Longrightarrow> f \<in> set xs \<Longrightarrow> mset (filter ((\<noteq>) f) xs @ [f]) = mset xs"
  by (induction xs) (auto simp: filter_neq_notin)

lemma chain_mem: "fq_inv T q \<Longrightarrow> u \<in> T \<Longrightarrow> f \<in> set (chain u q) \<longleftrightarrow> f \<in> flow_ids T q \<and> fl_tin (fq_flows q f) = Some u"
  using fq_invD(3) [of T q u] by (auto simp: tin_inv_def)

lemma chain_distinct: "fq_inv T q \<Longrightarrow> u \<in> T \<Longrightarrow> distinct (chain u q)"
  using fq_invD(3) [of T q u] by (auto simp: tin_inv_def)

lemma next_flow_chain: "next_flow (fq_tins q t) = Some (is_new, f) \<Longrightarrow> chain t q \<noteq> [] \<and> f \<in> set (chain t q)"
  by (auto simp: next_flow_def chain_def split: list.splits)

lemma next_flow_None: "next_flow (fq_tins q t) = None \<longleftrightarrow> chain t q = []"
  by (auto simp: next_flow_def chain_def split: list.splits)

text \<open>Nothing but chains, deficits and owners of empty flows changes.\<close>

definition turned :: "nat set \<Rightarrow> fq \<Rightarrow> fq \<Rightarrow> bool" where
  "turned T q q' \<longleftrightarrow>
     fq_inv T q' \<and> (\<forall>g. fl_queue (fq_flows q' g) = fl_queue (fq_flows q g)) \<and>
     (\<forall>g. fl_queue (fq_flows q g) \<noteq> [] \<longrightarrow> fl_tin (fq_flows q' g) = fl_tin (fq_flows q g)) \<and>
     (\<forall>g. fl_tin (fq_flows q' g) \<noteq> None \<longrightarrow> fl_tin (fq_flows q' g) = fl_tin (fq_flows q g)) \<and>
     fq_freed q' = fq_freed q \<and> flows_cnt q' = flows_cnt q \<and> fq_limit q' = fq_limit q \<and>
     memory_limit q' = memory_limit q \<and> quantum q' = quantum q"

lemma turned_move:
  assumes inv: "fq_inv T q" and t: "t \<in> T" "f \<in> set (chain t q)"
  shows "turned T q (move_tail_old t f q)"
proof -
  have f: "fl_tin (fq_flows q f) = Some t" "f \<in> flow_ids T q" using chain_mem [OF inv t(1)] t(2) by auto
  have "mset (chain u (move_tail_old t f q)) = mset (chain u q)" if "u \<in> T" for u
  proof (cases "u = t")
    case True
    then show ?thesis using mset_filter_neq [OF chain_distinct [OF inv t(1)] t(2)] by (simp add: chain_move_tail)
  next
    case False
    then have "f \<notin> set (chain u q)" using chain_mem [OF inv that] f by auto
    then show ?thesis using False by (simp add: chain_move_tail filter_neq_notin)
  qed
  moreover have "- (2 ^ 31) \<le> fl_deficit (fq_flows q g) \<and> fl_deficit (fq_flows q g) < 2 ^ 31" if "g \<in> flow_ids T q" for g
    using fq_invD(2) [OF inv that] by (simp add: flow_inv_def)
  ultimately have "fq_inv T (move_tail_old t f q)"
    by (intro fq_inv_chains [OF inv]) (simp_all add: move_tail_old_def upd_tin_def unlink_flow_def)
  then show ?thesis by (simp add: turned_def move_tail_old_def upd_tin_def unlink_flow_def)
qed

lemma turned_deficit:
  assumes inv: "fq_inv T q"
  shows "turned T q (upd_flow f (\<lambda>F. F\<lparr>fl_deficit := to_s32 x\<rparr>) q)"
proof -
  have "- (2 ^ 31) \<le> fl_deficit (fq_flows q g) \<and> fl_deficit (fq_flows q g) < 2 ^ 31" if "g \<in> flow_ids T q" for g
    using fq_invD(2) [OF inv that] by (simp add: flow_inv_def)
  then have "fq_inv T (upd_flow f (\<lambda>F. F\<lparr>fl_deficit := to_s32 x\<rparr>) q)"
    using to_s32_range [of x] by (intro fq_inv_chains [OF inv]) (simp_all add: upd_flow_def chain_def)
  then show ?thesis by (simp add: turned_def upd_flow_def)
qed

lemma turned_refl: "fq_inv T q \<Longrightarrow> turned T q q"
  by (simp add: turned_def)

lemma turned_trans: "turned T q q' \<Longrightarrow> turned T q' q'' \<Longrightarrow> turned T q q''"
  unfolding turned_def by metis

lemma turned_unlink:
  assumes inv: "fq_inv T q" and f: "f \<in> flow_ids T q" "fl_queue (fq_flows q f) = []"
  shows "turned T q (upd_flow f (\<lambda>F. F\<lparr>fl_tin := None\<rparr>) (unlink_flow f q))" (is "turned T q ?q")
proof -
  note D = fq_invD [OF inv]
  have fl: "fq_flows ?q = (fq_flows q)(f := (fq_flows q f)\<lparr>fl_tin := None\<rparr>)" and cnt: "flows_cnt ?q = flows_cnt q"
    by (simp_all add: upd_flow_def unlink_flow_def)
  have ids: "flow_ids T ?q = flow_ids T q" using cnt by (simp add: flow_ids_def)
  note tot = flow_sum_upd [OF D(1) f(1) cnt fl]
  have s: "flow_sum (g \<circ> fl_queue) T ?q = flow_sum (g \<circ> fl_queue) T q" for g :: "_ \<Rightarrow> nat" using tot [of "g \<circ> fl_queue"] by simp
  have o: "flow_sum (of_tin u lens) T ?q = flow_sum (of_tin u lens) T q"
    "flow_sum (of_tin u (of_nat \<circ> length)) T ?q = (flow_sum (of_tin u (of_nat \<circ> length)) T q :: u32)" for u
    using tot [of "of_tin u lens"] tot [of "of_tin u (of_nat \<circ> length) :: _ \<Rightarrow> u32"] f(2)
    by (simp_all add: of_tin_def [of _ _ "fq_flows q f"] of_tin_def [of _ _ "fq_flows q f\<lparr>fl_tin := None\<rparr>"] split: if_splits)
  have fi: "flow_inv T g (fq_flows ?q g)" if "g \<in> flow_ids T q" for g
    using D(2) [OF that] D(2) [OF f(1)] f(2) by (auto simp: fl flow_inv_def)
  have ti: "tin_inv T ?q u" if "u \<in> T" for u
  proof -
    have "chain u ?q = filter ((\<noteq>) f) (chain u q)" using chain_unlink by (simp add: chain_def upd_flow_def)
    then show ?thesis using D(3) [OF that] unfolding tin_inv_def o ids
      by (auto simp: fl upd_flow_def unlink_flow_def)
  qed
  have "fq_inv T ?q"
    unfolding fq_inv_def ids s using inv fi ti f(2) unfolding fq_inv_def
    by (auto simp: upd_flow_def unlink_flow_def)
  then show ?thesis using f(2) by (simp add: turned_def upd_flow_def unlink_flow_def)
qed


section \<open>The callback\<close>

text \<open>A frame, if there is one, is taken off the flow; frames before it are freed.\<close>

definition took :: "nat set \<Rightarrow> flow_id \<Rightarrow> fq \<Rightarrow> fq_skb option \<Rightarrow> fq \<Rightarrow> bool" where
  "took T f q skb q' \<longleftrightarrow>
     fq_inv T q' \<and> same_shape q q' \<and> (\<forall>g. g \<noteq> f \<longrightarrow> fl_queue (fq_flows q' g) = fl_queue (fq_flows q g)) \<and>
     (case skb of
        None \<Rightarrow> fl_queue (fq_flows q f) = [] \<and> fl_queue (fq_flows q' f) = [] \<and> fq_freed q' = fq_freed q
      | Some p \<Rightarrow> \<exists>ds p0. fl_queue (fq_flows q f) = ds @ p0 # fl_queue (fq_flows q' f) \<and> same_skb p0 p \<and>
                   fq_freed q' = fq_freed q @ ds)"

text \<open>What a tin gave: nothing if all its flows are empty, otherwise a frame of one of its flows.\<close>

definition served :: "nat set \<Rightarrow> nat \<Rightarrow> fq \<Rightarrow> fq_skb option \<Rightarrow> fq \<Rightarrow> bool" where
  "served T t q skb q' \<longleftrightarrow>
     fq_inv T q' \<and> flows_cnt q' = flows_cnt q \<and> fq_limit q' = fq_limit q \<and> memory_limit q' = memory_limit q \<and> quantum q' = quantum q \<and>
     (case skb of
        None \<Rightarrow> (\<forall>f \<in> flow_ids T q. fl_tin (fq_flows q f) = Some t \<longrightarrow> fl_queue (fq_flows q f) = []) \<and>
                (\<forall>g. fl_queue (fq_flows q' g) = fl_queue (fq_flows q g)) \<and> fq_freed q' = fq_freed q
      | Some p \<Rightarrow> \<exists>f ds p0. f \<in> flow_ids T q \<and> fl_tin (fq_flows q f) = Some t \<and>
                   fl_queue (fq_flows q f) = ds @ p0 # fl_queue (fq_flows q' f) \<and> same_skb p0 p \<and>
                   fq_freed q' = fq_freed q @ ds \<and> (\<forall>g. g \<noteq> f \<longrightarrow> fl_queue (fq_flows q' g) = fl_queue (fq_flows q g)))"

lemma served_turned:
  assumes "turned T q q1" "served T t q1 skb q'"
  shows "served T t q skb q'"
proof -
  have ids: "flow_ids T q1 = flow_ids T q" using assms(1) by (simp add: turned_def flow_ids_def)
  show ?thesis
  proof (cases skb)
    case None
    then show ?thesis using assms unfolding served_def ids by (auto simp: turned_def)
  next
    case (Some p)
    then obtain f ds p0 where "f \<in> flow_ids T q" "fl_tin (fq_flows q1 f) = Some t"
        "fl_queue (fq_flows q1 f) = ds @ p0 # fl_queue (fq_flows q' f)" "same_skb p0 p"
        "fq_freed q' = fq_freed q1 @ ds" "\<forall>g. g \<noteq> f \<longrightarrow> fl_queue (fq_flows q' g) = fl_queue (fq_flows q1 g)"
      using assms(2) unfolding served_def ids by auto
    moreover have "fl_tin (fq_flows q1 f) = fl_tin (fq_flows q f)" using assms(1) calculation(2) by (simp add: turned_def)
    ultimately show ?thesis using assms Some by (auto simp: served_def turned_def)
  qed
qed


section \<open>The round robin\<close>

text \<open>How far the loop is from its end: flows on the chains, then the deficits to be filled up, then new flows.\<close>

definition backlog_measure :: "nat \<Rightarrow> fq \<Rightarrow> nat \<times> nat \<times> nat" where
  "backlog_measure t q =
     (length (chain t q), \<Sum>g\<in>set (chain t q). nat (1 - fl_deficit (fq_flows q g)), length (new_flows (fq_tins q t)))"

abbreviation rr_less :: "((nat \<times> nat \<times> nat) \<times> (nat \<times> nat \<times> nat)) set" where
  "rr_less \<equiv> less_than <*lex*> (less_than <*lex*> less_than)"

lemma refill_flow:
  assumes inv: "fq_inv T q" and t: "t \<in> T" "f \<in> set (chain t q)" and d: "fl_deficit (fq_flows q f) \<le> 0"
    and quantum: "0 < quantum q" "uint (quantum q) < 2 ^ 31"
  defines "q' \<equiv> move_tail_old t f (upd_flow f (\<lambda>F. F\<lparr>fl_deficit := to_s32 (fl_deficit F + uint (quantum q))\<rparr>) q)"
  shows "turned T q q'" "(backlog_measure t q', backlog_measure t q) \<in> rr_less"
proof -
  let ?F = "fq_flows q f"
  define q1 where "q1 = upd_flow f (\<lambda>F. F\<lparr>fl_deficit := to_s32 (fl_deficit F + uint (quantum q))\<rparr>) q"
  have q1: "q1 = upd_flow f (\<lambda>F. F\<lparr>fl_deficit := to_s32 (fl_deficit ?F + uint (quantum q))\<rparr>) q" by (simp add: q1_def upd_flow_def)
  have tr1: "turned T q q1" unfolding q1 by (rule turned_deficit [OF inv])
  have c1: "chain u q1 = chain u q" for u by (simp add: q1_def upd_flow_def chain_def)
  have tr2: "turned T q1 q'" unfolding q'_def q1_def [symmetric]
    using tr1 t by (intro turned_move) (simp_all add: turned_def c1)
  show "turned T q q'" by (rule turned_trans [OF tr1 tr2])
  have c: "mset (chain t q') = mset (chain t q)"
    using mset_filter_neq [OF chain_distinct [OF inv t(1)] t(2)] unfolding q'_def chain_move_tail q1_def [symmetric] c1 by simp
  have len: "length (chain t q') = length (chain t q)" and set: "set (chain t q') = set (chain t q)"
    using mset_eq_length [OF c] mset_eq_setD [OF c] by auto
  have fl: "fq_flows q' = (fq_flows q)(f := ?F\<lparr>fl_deficit := to_s32 (fl_deficit ?F + uint (quantum q))\<rparr>)"
    by (simp add: q'_def move_tail_old_def upd_tin_def unlink_flow_def upd_flow_def)
  have "f \<in> flow_ids T q" using chain_mem [OF inv t(1)] t(2) by simp
  then have r: "to_s32 (fl_deficit ?F + uint (quantum q)) = fl_deficit ?F + uint (quantum q)"
    using fq_invD(2) [OF inv, of f] d quantum(2) unsigned_greater_eq [of "quantum q", where 'a = int]
    unfolding flow_inv_def by (intro to_s32_id) linarith+
  have "0 < uint (quantum q)" using quantum(1) by (simp add: word_less_alt)
  then have "nat (1 - fl_deficit (?F\<lparr>fl_deficit := to_s32 (fl_deficit ?F + uint (quantum q))\<rparr>)) < nat (1 - fl_deficit ?F)"
    using d by (simp add: r)
  then have "(\<Sum>g\<in>set (chain t q). nat (1 - fl_deficit (fq_flows q' g))) < (\<Sum>g\<in>set (chain t q). nat (1 - fl_deficit (fq_flows q g)))"
    using sum_fun_upd [OF finite_set t(2), of "\<lambda>F. nat (1 - fl_deficit F)" "fq_flows q" "?F\<lparr>fl_deficit := to_s32 (fl_deficit ?F + uint (quantum q))\<rparr>"]
    unfolding fl by linarith
  then show "(backlog_measure t q', backlog_measure t q) \<in> rr_less" by (simp add: backlog_measure_def len set)
qed

lemma retire_turned:
  assumes inv: "fq_inv T q" and t: "t \<in> T" and nx: "next_flow (fq_tins q t) = Some (is_new, f)" and e: "fl_queue (fq_flows q f) = []"
  shows "turned T q (retire_flow t is_new f q)" "(backlog_measure t (retire_flow t is_new f q), backlog_measure t q) \<in> rr_less"
proof -
  have f: "f \<in> set (chain t q)" using next_flow_chain [OF nx] by simp
  then have ids: "f \<in> flow_ids T q" using chain_mem [OF inv t] by simp
  note ds = chain_distinct [OF inv t]
  show "turned T q (retire_flow t is_new f q)"
    unfolding retire_flow_def using turned_move [OF inv t f] turned_unlink [OF inv ids e] by simp
  show "(backlog_measure t (retire_flow t is_new f q), backlog_measure t q) \<in> rr_less"
  proof (cases "is_new \<and> old_flows (fq_tins q t) \<noteq> []")
    case True
    let ?q = "move_tail_old t f q"
    have c: "mset (chain t ?q) = mset (chain t q)" using mset_filter_neq [OF ds f] by (simp add: chain_move_tail)
    have "length (chain t ?q) = length (chain t q)" "set (chain t ?q) = set (chain t q)"
      using mset_eq_length [OF c] mset_eq_setD [OF c] by auto
    moreover have "fq_flows ?q = fq_flows q" by (simp add: move_tail_old_def upd_tin_def unlink_flow_def)
    moreover obtain rest where "new_flows (fq_tins q t) = f # rest" using nx True by (auto simp: next_flow_def split: list.splits)
    then have "length (new_flows (fq_tins ?q t)) < length (new_flows (fq_tins q t))"
      by (simp add: move_tail_old_def upd_tin_def unlink_flow_def le_imp_less_Suc)
    ultimately show ?thesis using True by (simp add: retire_flow_def backlog_measure_def)
  next
    case False
    have "length (filter ((\<noteq>) f) (chain t q)) < length (chain t q)" using length_filter_less [OF f] by simp
    then have "length (chain t (upd_flow f (\<lambda>F. F\<lparr>fl_tin := None\<rparr>) (unlink_flow f q))) < length (chain t q)"
      by (simp add: chain_def upd_flow_def unlink_flow_def)
    then show ?thesis using False by (auto simp: retire_flow_def backlog_measure_def)
  qed
qed

text \<open>The final bookkeeping on a frame that is handed out.\<close>

lemma account_served:
  assumes t: "f \<in> flow_ids T q" "fl_tin (fq_flows q f) = Some t" and tk: "took T f q (Some p) q'"
  shows "served T t q (Some p)
     (upd_tin t (\<lambda>T. T\<lparr>tx_bytes := tx_bytes T + x, tx_packets := tx_packets T + 1\<rparr>)
       (upd_flow f (\<lambda>F. F\<lparr>fl_deficit := to_s32 (fl_deficit F - y)\<rparr>) q'))" (is "served T t q (Some p) ?q")
proof -
  define q1 where "q1 = upd_flow f (\<lambda>F. F\<lparr>fl_deficit := to_s32 (fl_deficit F - y)\<rparr>) q'"
  have "turned T q' q1"
    using turned_deficit [of T q' f "fl_deficit (fq_flows q' f) - y"] tk by (simp add: took_def q1_def upd_flow_def)
  moreover have "fq_inv T ?q = fq_inv T q1" unfolding q1_def [symmetric] by (intro fq_inv_cong(1)) (simp_all add: upd_tin_def)
  ultimately have "turned T q' ?q" by (simp add: turned_def flip: q1_def) (simp add: upd_tin_def)
  with tk t show ?thesis by (auto simp: served_def took_def turned_def same_shape_def)
qed

locale flow_source =
  fixes dequeue_func :: "nat \<Rightarrow> flow_id \<Rightarrow> 's \<times> fq \<Rightarrow> (fq_skb option \<times> 's \<times> fq) option"
    and T :: "nat set"
    and kept :: "'s \<Rightarrow> 's \<Rightarrow> bool"
  assumes takes: "fq_inv T q \<Longrightarrow> t \<in> T \<Longrightarrow> f \<in> set (chain t q) \<Longrightarrow>
      \<exists>skb s' q'. dequeue_func t f (s, q) = Some (skb, s', q') \<and> took T f q skb q' \<and> kept s s'"
    and kept_refl: "kept s s"
    and kept_trans: "kept s s' \<Longrightarrow> kept s' s'' \<Longrightarrow> kept s s''"
begin

lemma tin_dequeue_served:
  assumes "fq_inv T q" "t \<in> T" "0 < quantum q" "uint (quantum q) < 2 ^ 31"
  shows "\<exists>skb s' q'. fq_tin_dequeue dequeue_func t (s, q) = Some (skb, s', q') \<and> served T t q skb q' \<and> kept s s'"
proof -
  have "wf (inv_image rr_less (backlog_measure t))" by auto
  then show ?thesis using assms
  proof (induction q arbitrary: s rule: wf_induct_rule)
    case (less q)
    show ?case
    proof (cases "next_flow (fq_tins q t)")
      case None
      then have "chain t q = []" by (simp add: next_flow_None)
      then have "\<forall>f \<in> flow_ids T q. fl_tin (fq_flows q f) \<noteq> Some t" using chain_mem [OF less.prems(1,2)] by auto
      then show ?thesis using None less.prems(1) by (subst fq_tin_dequeue.simps) (auto simp: served_def kept_refl)
    next
      case (Some x)
      obtain is_new f where nx: "next_flow (fq_tins q t) = Some (is_new, f)" using Some by (cases x) auto
      then have f: "f \<in> set (chain t q)" using next_flow_chain by blast
      have continue: "\<exists>skb s' q'. fq_tin_dequeue dequeue_func t (s1, q1) = Some (skb, s', q') \<and> served T t q skb q' \<and> kept s s'"
        if tr: "turned T q q1" "(backlog_measure t q1, backlog_measure t q) \<in> rr_less" "kept s s1" for s1 q1
      proof -
        obtain skb s' q' where "fq_tin_dequeue dequeue_func t (s1, q1) = Some (skb, s', q')" "served T t q1 skb q'" "kept s1 s'"
          using less.IH [of q1 s1] tr less.prems by (auto simp: turned_def)
        then show ?thesis using served_turned [OF tr(1)] kept_trans [OF tr(3)] by blast
      qed
      show ?thesis
      proof (cases "fl_deficit (fq_flows q f) \<le> 0")
        case True
        then show ?thesis
          using continue [OF refill_flow [OF less.prems(1,2) f True less.prems(3,4)] kept_refl] nx by (subst fq_tin_dequeue.simps) simp
      next
        case False
        obtain skb s1 q1 where tk: "dequeue_func t f (s, q) = Some (skb, s1, q1)" "took T f q skb q1" "kept s s1"
          using takes [OF less.prems(1,2) f] by blast
        have sh: "same_shape q q1" "fq_inv T q1" using tk(2) by (simp_all add: took_def)
        show ?thesis
        proof (cases skb)
          case None
          have "fl_queue (fq_flows q1 g) = fl_queue (fq_flows q g)" for g
            using tk(2) None by (cases "g = f") (simp_all add: took_def)
          then have tq: "turned T q q1" using tk(2) None sh(1) by (simp add: took_def turned_def same_shape_def)
          have nx1: "next_flow (fq_tins q1 t) = Some (is_new, f)" using nx sh(1) unfolding same_shape_def next_flow_def by metis
          have e: "fl_queue (fq_flows q1 f) = []" using tk(2) None by (simp add: took_def)
          note rt = retire_turned [OF sh(2) less.prems(2) nx1 e]
          have "backlog_measure t q1 = backlog_measure t q" using sh(1) by (simp add: backlog_measure_def same_shape_def chain_def)
          then show ?thesis
            using continue [OF turned_trans [OF tq rt(1)] _ tk(3)] rt(2) tk(1) None nx False by (subst fq_tin_dequeue.simps) simp
        next
          case (Some p)
          have "f \<in> flow_ids T q" "fl_tin (fq_flows q f) = Some t" using chain_mem [OF less.prems(1,2)] f by auto
          from account_served [OF this tk(2) [unfolded Some]] show ?thesis
            using tk(1,3) Some nx False by (subst fq_tin_dequeue.simps) simp
        qed
      qed
    qed
  qed
qed

end

end
