(* ===== verification/FairQueueReset.thy ===== *)
theory FairQueueReset
  imports FairQueueDeq
begin

text \<open>
  Filtering and resetting of flows and tins, and the tins that come and go.
\<close>


section \<open>Filtering\<close>

text \<open>Some frames were freed, nothing else changed.\<close>

definition lost :: "nat set \<Rightarrow> fq \<Rightarrow> fq \<Rightarrow> bool" where
  "lost T q q' \<longleftrightarrow>
     fq_inv T q' \<and> same_shape q q' \<and> flow_sum (memory \<circ> fl_queue) T q' \<le> flow_sum (memory \<circ> fl_queue) T q \<and>
     (\<exists>ds. fq_freed q' = fq_freed q @ ds \<and> held T q = held T q' + mset (map skb_id ds))"

lemma lost_refl: "fq_inv T q \<Longrightarrow> lost T q q"
  by (simp add: lost_def)

lemma lost_trans: assumes "lost T q q'" "lost T q' q''" shows "lost T q q''"
proof -
  obtain ds ds' where "fq_freed q' = fq_freed q @ ds" "held T q = held T q' + mset (map skb_id ds)"
      "fq_freed q'' = fq_freed q' @ ds'" "held T q' = held T q'' + mset (map skb_id ds')"
    using assms by (auto simp: lost_def)
  moreover have "same_shape q q''" "flow_sum (memory \<circ> fl_queue) T q'' \<le> flow_sum (memory \<circ> fl_queue) T q"
    using assms same_shape_trans le_trans by (auto simp: lost_def)
  ultimately show ?thesis using assms(2) by (auto simp: lost_def intro!: exI [of _ "ds @ ds'"])
qed

lemma removed_free_lost:
  assumes inv: "fq_inv T q" and f: "f \<in> flow_ids T q" and m: "mset (fl_queue (fq_flows q f)) = mset [p] + mset rest"
  obtains q' where "fq_adjust_removal (upd_flow f (\<lambda>F. F\<lparr>fl_queue := rest\<rparr>) q) f p = Some q'" "lost T q (free_func p q')"
    "fl_queue (fq_flows q' f) = rest" "\<And>g. g \<noteq> f \<Longrightarrow> fl_queue (fq_flows q' g) = fl_queue (fq_flows q g)"
proof -
  from adjust_removed [OF inv f m] obtain q'
    where a: "adjust_removal (upd_flow f (\<lambda>F. F\<lparr>fl_queue := rest\<rparr>) q) f 1 (skb_len p) (skb_truesize p) = Some q'" "removed T f rest q q'"
    by auto
  have "held T q = held T q' + mset (map skb_id [p])" using removed_sums(1) [OF a(2) inv f m] .
  moreover have "held T (free_func p q') = held T q'" by (simp add: held_def free_func_def)
  moreover have "flow_sum (memory \<circ> fl_queue) T (free_func p q') \<le> flow_sum (memory \<circ> fl_queue) T q"
    using removed_sums(3) [OF a(2) inv f m] by (simp add: free_func_def)
  ultimately have "lost T q (free_func p q')" using a(2) by (auto simp: lost_def removed_def)
  then show thesis using that a by (simp add: fq_adjust_removal_def removed_def)
qed

lemma filter_walk_lost:
  assumes "fq_inv T q" "f \<in> flow_ids T q" "fl_queue (fq_flows q f) = kept @ ahead"
  shows "\<exists>q'. filter_walk ff f kept ahead q = Some q' \<and> lost T q q' \<and>
     fl_queue (fq_flows q' f) = kept @ filter (\<lambda>p. \<not> ff p) ahead \<and> (\<forall>g. g \<noteq> f \<longrightarrow> fl_queue (fq_flows q' g) = fl_queue (fq_flows q g))"
  using assms
proof (induction ahead arbitrary: kept q)
  case Nil
  then show ?case by (simp add: lost_refl)
next
  case (Cons p ahead)
  show ?case
  proof (cases "ff p")
    case False
    then show ?thesis using Cons.IH [OF Cons.prems(1,2), of "kept @ [p]"] Cons.prems(3) by simp
  next
    case True
    have m: "mset (fl_queue (fq_flows q f)) = mset [p] + mset (kept @ ahead)" using Cons.prems(3) by simp
    from removed_free_lost [OF Cons.prems(1,2) m] obtain q1
      where q1: "fq_adjust_removal (upd_flow f (\<lambda>F. F\<lparr>fl_queue := kept @ ahead\<rparr>) q) f p = Some q1" "lost T q (free_func p q1)"
        "fl_queue (fq_flows q1 f) = kept @ ahead" "\<And>g. g \<noteq> f \<Longrightarrow> fl_queue (fq_flows q1 g) = fl_queue (fq_flows q g)" by metis
    have "flow_ids T (free_func p q1) = flow_ids T q" using q1(2) same_shape_ids by (auto simp: lost_def)
    with Cons.IH [of "free_func p q1" kept] q1(2,3) Cons.prems(2) obtain q'
      where "filter_walk ff f kept ahead (free_func p q1) = Some q'" "lost T (free_func p q1) q'"
        "fl_queue (fq_flows q' f) = kept @ filter (\<lambda>p. \<not> ff p) ahead" "\<forall>g. g \<noteq> f \<longrightarrow> fl_queue (fq_flows q' g) = fl_queue (fq_flows (free_func p q1) g)"
      by (auto simp: lost_def)
    then show ?thesis using True q1 lost_trans [OF q1(2)] by auto
  qed
qed

lemma filter_flows_lost:
  assumes "fq_inv T q" "set fs \<subseteq> flow_ids T q"
  shows "\<exists>q'. filter_flows ff fs q = Some q' \<and> lost T q q' \<and>
     (\<forall>g. fl_queue (fq_flows q' g) = (if g \<in> set fs then filter (\<lambda>p. \<not> ff p) (fl_queue (fq_flows q g)) else fl_queue (fq_flows q g)))"
  using assms
proof (induction fs arbitrary: q)
  case Nil
  then show ?case by (simp add: lost_refl)
next
  case (Cons f fs)
  have "f \<in> flow_ids T q" using Cons.prems(2) by simp
  from filter_walk_lost [OF Cons.prems(1) this, of "[]" "fl_queue (fq_flows q f)" ff]
  obtain q1 where q1: "fq_flow_filter ff f q = Some q1" "lost T q q1" "fl_queue (fq_flows q1 f) = filter (\<lambda>p. \<not> ff p) (fl_queue (fq_flows q f))"
      "\<forall>g. g \<noteq> f \<longrightarrow> fl_queue (fq_flows q1 g) = fl_queue (fq_flows q g)"
    by (auto simp: fq_flow_filter_def)
  have "flow_ids T q1 = flow_ids T q" using q1(2) same_shape_ids by (auto simp: lost_def)
  then obtain q' where q': "filter_flows ff fs q1 = Some q'" "lost T q1 q'"
      "\<forall>g. fl_queue (fq_flows q' g) = (if g \<in> set fs then filter (\<lambda>p. \<not> ff p) (fl_queue (fq_flows q1 g)) else fl_queue (fq_flows q1 g))"
    using Cons.IH [of q1] q1(2) Cons.prems(2) by (auto simp: lost_def)
  have "fl_queue (fq_flows q' g) = (if g \<in> set (f # fs) then filter (\<lambda>p. \<not> ff p) (fl_queue (fq_flows q g)) else fl_queue (fq_flows q g))" for g
    using q'(3) q1(3,4) by (cases "g = f") auto
  then show ?case using q1(1) q'(1) lost_trans [OF q1(2) q'(2)] by simp
qed

lemma tin_filter_lost:
  assumes inv: "fq_inv T q" and t: "t \<in> T"
  shows "\<exists>q'. fq_tin_filter ff t q = Some q' \<and> lost T q q' \<and>
     (\<forall>g \<in> flow_ids T q. fl_queue (fq_flows q' g) =
        (if fl_tin (fq_flows q g) = Some t then filter (\<lambda>p. \<not> ff p) (fl_queue (fq_flows q g)) else fl_queue (fq_flows q g)))"
proof -
  let ?new = "new_flows (fq_tins q t)" and ?old = "old_flows (fq_tins q t)"
  have ids: "set ?new \<subseteq> flow_ids T q" "set ?old \<subseteq> flow_ids T q" using chain_mem [OF inv t] by (auto simp: chain_def)
  obtain q1 where q1: "filter_flows ff ?new q = Some q1" "lost T q q1"
      "\<forall>g. fl_queue (fq_flows q1 g) = (if g \<in> set ?new then filter (\<lambda>p. \<not> ff p) (fl_queue (fq_flows q g)) else fl_queue (fq_flows q g))"
    using filter_flows_lost [OF inv ids(1)] by blast
  have sh: "same_shape q q1" "fq_inv T q1" using q1(2) by (simp_all add: lost_def)
  then have old: "old_flows (fq_tins q1 t) = ?old" "set ?old \<subseteq> flow_ids T q1"
    using ids(2) same_shape_ids [OF sh(1)] by (simp_all add: same_shape_def)
  obtain q2 where q2: "filter_flows ff ?old q1 = Some q2" "lost T q1 q2"
      "\<forall>g. fl_queue (fq_flows q2 g) = (if g \<in> set ?old then filter (\<lambda>p. \<not> ff p) (fl_queue (fq_flows q1 g)) else fl_queue (fq_flows q1 g))"
    using filter_flows_lost [OF sh(2) old(2)] by blast
  have "fl_queue (fq_flows q2 g) = (if fl_tin (fq_flows q g) = Some t then filter (\<lambda>p. \<not> ff p) (fl_queue (fq_flows q g)) else fl_queue (fq_flows q g))"
    if "g \<in> flow_ids T q" for g
    using that chain_mem [OF inv t, of g] chain_distinct [OF inv t] q1(3) q2(3) by (auto simp: chain_def)
  then show ?thesis using q1(1) q2(1) old(1) lost_trans [OF q1(2) q2(2)] by (simp add: fq_tin_filter_def)
qed


section \<open>Resetting\<close>

lemma reset_loop_lost:
  assumes "fq_inv T q" "f \<in> flow_ids T q"
  shows "\<exists>q'. reset_loop f q = Some q' \<and> lost T q q' \<and> fl_queue (fq_flows q' f) = [] \<and>
     (\<forall>g. g \<noteq> f \<longrightarrow> fl_queue (fq_flows q' g) = fl_queue (fq_flows q g))"
  using assms
proof (induction "fl_queue (fq_flows q f)" arbitrary: q)
  case Nil
  then show ?case by (subst reset_loop.simps) (simp add: fq_flow_dequeue_def lost_refl)
next
  case (Cons p ps)
  have m: "mset (fl_queue (fq_flows q f)) = mset [p] + mset ps" using Cons.hyps(2) [symmetric] by simp
  from removed_free_lost [OF Cons.prems m] obtain q1
    where q1: "fq_adjust_removal (upd_flow f (\<lambda>F. F\<lparr>fl_queue := ps\<rparr>) q) f p = Some q1" "lost T q (free_func p q1)"
      "fl_queue (fq_flows q1 f) = ps" "\<And>g. g \<noteq> f \<Longrightarrow> fl_queue (fq_flows q1 g) = fl_queue (fq_flows q g)" by metis
  have d: "fq_flow_dequeue f q = Some (Some p, q1)" using q1(1) Cons.hyps(2) [symmetric] by (simp add: fq_flow_dequeue_def)
  have "flow_ids T (free_func p q1) = flow_ids T q" using q1(2) same_shape_ids by (auto simp: lost_def)
  with Cons.hyps(1) [of "free_func p q1"] q1(2,3) Cons.prems(2) obtain q'
    where "reset_loop f (free_func p q1) = Some q'" "lost T (free_func p q1) q'" "fl_queue (fq_flows q' f) = []"
      "\<forall>g. g \<noteq> f \<longrightarrow> fl_queue (fq_flows q' g) = fl_queue (fq_flows (free_func p q1) g)"
    by (auto simp: lost_def)
  then show ?case using d q1(4) lost_trans [OF q1(2)] by (subst reset_loop.simps) auto
qed

text \<open>Frames were freed and flows taken off their chains.\<close>

definition purged :: "nat set \<Rightarrow> fq \<Rightarrow> fq \<Rightarrow> bool" where
  "purged T q q' \<longleftrightarrow>
     fq_inv T q' \<and> flows_cnt q' = flows_cnt q \<and> fq_limit q' = fq_limit q \<and> memory_limit q' = memory_limit q \<and> quantum q' = quantum q \<and>
     flow_sum (memory \<circ> fl_queue) T q' \<le> flow_sum (memory \<circ> fl_queue) T q \<and>
     (\<exists>ds. fq_freed q' = fq_freed q @ ds \<and> held T q = held T q' + mset (map skb_id ds))"

lemma purged_trans: assumes "purged T q q'" "purged T q' q''" shows "purged T q q''"
proof -
  obtain ds ds' where "fq_freed q' = fq_freed q @ ds" "held T q = held T q' + mset (map skb_id ds)"
      "fq_freed q'' = fq_freed q' @ ds'" "held T q' = held T q'' + mset (map skb_id ds')"
    using assms by (auto simp: purged_def)
  then show ?thesis using assms by (auto simp: purged_def intro!: exI [of _ "ds @ ds'"])
qed

lemma held_queues: "flows_cnt q' = flows_cnt q \<Longrightarrow> (\<And>g. g \<in> flow_ids T q \<Longrightarrow> fl_queue (fq_flows q' g) = fl_queue (fq_flows q g)) \<Longrightarrow> held T q' = held T q"
  unfolding held_def by (rule flow_sum_cong) simp_all

lemma turned_held: "turned T q q' \<Longrightarrow> held T q' = held T q"
  by (intro held_queues) (simp_all add: turned_def)

lemma turned_purged: "turned T q q' \<Longrightarrow> purged T q q'"
  using turned_held [of T q q'] flow_sum_cong [of q' q T "memory \<circ> fl_queue"] by (simp add: purged_def turned_def)

lemma held_size: "size (held T q) = flow_sum (length \<circ> fl_queue) T q"
  by (simp add: held_def flow_sum_def size_multiset_sum)

lemma lost_purged: "lost T q q' \<Longrightarrow> purged T q q'"
  by (auto simp: purged_def lost_def same_shape_def)

lemma flow_reset_purged:
  assumes inv: "fq_inv T q" and f: "f \<in> flow_ids T q"
  shows "\<exists>q'. fq_flow_reset f q = Some q' \<and> purged T q q' \<and>
     (\<forall>g. fl_queue (fq_flows q' g) = (if g = f then [] else fl_queue (fq_flows q g)) \<and>
          fl_tin (fq_flows q' g) = (if g = f then None else fl_tin (fq_flows q g))) \<and>
     (\<forall>u \<in> T. chain u q' = filter ((\<noteq>) f) (chain u q))"
proof -
  obtain q1 where q1: "reset_loop f q = Some q1" "lost T q q1" "fl_queue (fq_flows q1 f) = []"
      "\<forall>g. g \<noteq> f \<longrightarrow> fl_queue (fq_flows q1 g) = fl_queue (fq_flows q g)"
    using reset_loop_lost [OF assms] by blast
  have sh: "same_shape q q1" "fq_inv T q1" using q1(2) by (simp_all add: lost_def)
  have f1: "f \<in> flow_ids T q1" using f same_shape_ids [OF sh(1)] by simp
  have tin1: "fl_tin (fq_flows q1 g) = fl_tin (fq_flows q g)" for g using sh(1) by (simp add: same_shape_def)
  show ?thesis
  proof (cases "fl_tin (fq_flows q f)")
    case None
    have "upd_flow f (\<lambda>F. F\<lparr>fl_tin := None\<rparr>) q1 = q1"
    proof -
      have "(fq_flows q1 f)\<lparr>fl_tin := None\<rparr> = fq_flows q1 f" using None tin1 [of f] by (cases "fq_flows q1 f") simp
      then show ?thesis by (cases q1) (simp add: upd_flow_def fun_upd_idem_iff)
    qed
    then have "fq_flow_reset f q = Some q1" using None q1(1) by (simp add: fq_flow_reset_def)
    moreover have "chain u q1 = filter ((\<noteq>) f) (chain u q)" if "u \<in> T" for u
      using same_shape_chain [OF sh(1)] chain_mem [OF inv that, of f] None by (simp add: filter_neq_notin)
    ultimately show ?thesis using lost_purged [OF q1(2)] q1(3,4) tin1 None by auto
  next
    case (Some t)
    define q2 where "q2 = upd_flow f (\<lambda>F. F\<lparr>fl_tin := None\<rparr>) (unlink_flow f q1)"
    have t: "t \<in> T" "fl_tin (fq_flows q1 f) = Some t" using fq_invD(2) [OF inv f] Some tin1 by (simp_all add: flow_inv_def)
    have lk: "linked t f q1" using linked_iff [OF sh(2) t(1) f1] t(2) by simp
    have "filter ((\<noteq>) t) (tin_backlog q1) = tin_backlog q1" if "chain t (unlink_flow f q1) = []"
    proof -
      have "fl_queue (fq_flows q1 (DefaultFlow t)) = []"
      proof (cases "f = DefaultFlow t")
        case False
        have "DefaultFlow t \<notin> set (chain t q1)" using that False by (auto simp: chain_unlink filter_empty_conv)
        then show ?thesis using chain_mem [OF sh(2) t(1)] fq_invD(2) [OF sh(2), of "DefaultFlow t"] t(1)
          by (auto simp: flow_inv_def)
      qed (use q1(3) in simp)
      then have "t \<notin> set (tin_backlog q1)" using fq_invD(6) [OF sh(2)] by simp
      then show ?thesis by (rule filter_neq_notin)
    qed
    then have eq: "fq_flow_reset f q = Some q2" using Some q1(1) lk
      by (auto simp: fq_flow_reset_def q2_def Let_def chain_def unlink_flow_def)
    have "chain u q2 = filter ((\<noteq>) f) (chain u q)" for u
      using same_shape_chain [OF sh(1)] chain_unlink [of u f q1] by (simp add: q2_def chain_def upd_flow_def)
    moreover have "purged T q q2" unfolding q2_def
      using purged_trans [OF lost_purged [OF q1(2)] turned_purged [OF turned_unlink [OF sh(2) f1 q1(3)]]] .
    moreover have "fl_tin (fq_flows q2 g) = (if g = f then None else fl_tin (fq_flows q g))"
        "fl_queue (fq_flows q2 g) = (if g = f then [] else fl_queue (fq_flows q g))" for g
      using tin1 q1(3,4) by (simp_all add: q2_def upd_flow_def unlink_flow_def)
    ultimately show ?thesis using eq by simp
  qed
qed

lemma tin_reset_purged:
  assumes "fq_inv T q" "t \<in> T"
  shows "\<exists>q'. fq_tin_reset t q = Some q' \<and> purged T q q' \<and> chain t q' = [] \<and> (\<forall>u \<in> T. u \<noteq> t \<longrightarrow> chain u q' = chain u q)"
  using assms
proof (induction "length (chain t q)" arbitrary: q rule: less_induct)
  case less
  show ?case
  proof (cases "next_flow (fq_tins q t)")
    case None
    then have "chain t q = []" by (simp add: next_flow_None)
    with None show ?thesis using turned_purged [OF turned_refl [OF less.prems(1)]] by (subst fq_tin_reset.simps) simp
  next
    case (Some x)
    obtain b f where nx: "next_flow (fq_tins q t) = Some (b, f)" using Some by (cases x) auto
    then have f: "f \<in> set (chain t q)" using next_flow_chain by blast
    then have ids: "f \<in> flow_ids T q" "fl_tin (fq_flows q f) = Some t" using chain_mem [OF less.prems] by auto
    obtain q1 where q1: "fq_flow_reset f q = Some q1" "purged T q q1" "\<forall>u \<in> T. chain u q1 = filter ((\<noteq>) f) (chain u q)"
      using flow_reset_purged [OF less.prems(1) ids(1)] by blast
    have "length (chain t q1) < length (chain t q)" using q1(3) less.prems(2) length_filter_less [OF f] by simp
    from less.hyps [OF this] q1(2) less.prems(2) obtain q' where q': "fq_tin_reset t q1 = Some q'" "purged T q1 q'" "chain t q' = []"
        "\<forall>u \<in> T. u \<noteq> t \<longrightarrow> chain u q' = chain u q1" by (auto simp: purged_def)
    have "chain u q1 = chain u q" if "u \<in> T" "u \<noteq> t" for u
      using q1(3) that chain_mem [OF less.prems(1) that(1), of f] ids(2) by (simp add: filter_neq_notin)
    then show ?thesis using nx q1(1) q' purged_trans [OF q1(2)] by (subst fq_tin_reset.simps) simp
  qed
qed

lemma tin_reset_empty:
  assumes "fq_inv T q" "t \<in> T" "chain t q = []"
  shows "fl_queue (fq_flows q (DefaultFlow t)) = []" "fl_tin (fq_flows q (DefaultFlow t)) = None"
    "backlog_bytes (fq_tins q t) = 0" "backlog_packets (fq_tins q t) = 0" "t \<notin> set (tin_backlog q)"
proof -
  have no: "fl_tin (fq_flows q g) \<noteq> Some t" if "g \<in> flow_ids T q" for g
    using chain_mem [OF assms(1,2), of g] assms(3) that by simp
  have d: "flow_inv T (DefaultFlow t) (fq_flows q (DefaultFlow t))" using fq_invD(2) [OF assms(1)] assms(2) by simp
  then show "fl_tin (fq_flows q (DefaultFlow t)) = None" using no [of "DefaultFlow t"] assms(2)
    by (cases "fl_tin (fq_flows q (DefaultFlow t))") (auto simp: flow_inv_def)
  then show e: "fl_queue (fq_flows q (DefaultFlow t)) = []" using d by (auto simp: flow_inv_def)
  have "flow_sum (of_tin t g) T q = 0" for g :: "_ \<Rightarrow> u32"
    unfolding flow_sum_def using no by (intro sum.neutral) (simp add: of_tin_def)
  then show "backlog_bytes (fq_tins q t) = 0" "backlog_packets (fq_tins q t) = 0"
    using fq_invD(3) [OF assms(1,2)] by (simp_all add: tin_inv_def)
  show "t \<notin> set (tin_backlog q)" using e fq_invD(6) [OF assms(1)] by simp
qed


section \<open>Tins that come and go\<close>

lemma flow_sum_remove:
  assumes "finite T" "t \<in> T" "g (fq_flows q (DefaultFlow t)) = 0"
  shows "flow_sum g (T - {t}) q = flow_sum g T q"
proof -
  have "flow_ids (T - {t}) q = flow_ids T q - {DefaultFlow t}" by (auto simp: flow_ids_def)
  then show ?thesis unfolding flow_sum_def using assms sum.remove [of "flow_ids T q" "DefaultFlow t" "\<lambda>f. g (fq_flows q f)"] by simp
qed

lemma remove_tin_inv:
  assumes inv: "fq_inv T q" and t: "t \<in> T" and e: "chain t q = []"
  shows "fq_inv (T - {t}) q" "held (T - {t}) q = held T q"
proof -
  note D = fq_invD [OF inv] and E = tin_reset_empty [OF inv t e]
  have s: "flow_sum (g \<circ> fl_queue) (T - {t}) q = flow_sum (g \<circ> fl_queue) T q" if "g [] = 0" for g :: "_ \<Rightarrow> nat"
    using D(1) t E(1) that by (intro flow_sum_remove) simp_all
  have o: "flow_sum (of_tin u g) (T - {t}) q = flow_sum (of_tin u g) T q" for u and g :: "_ \<Rightarrow> u32"
    using D(1) t E(2) by (intro flow_sum_remove) (simp_all add: of_tin_def)
  have no: "fl_tin (fq_flows q g) \<noteq> Some t" if "g \<in> flow_ids T q" for g
    using chain_mem [OF inv t, of g] e that by simp
  have fi: "flow_inv (T - {t}) g (fq_flows q g)" if "g \<in> flow_ids (T - {t}) q" for g
  proof -
    have g: "g \<in> flow_ids T q" using that by (auto simp: flow_ids_def)
    then show ?thesis using D(2) [OF g] no [OF g] by (auto simp: flow_inv_def)
  qed
  have ti: "tin_inv (T - {t}) q u" if u: "u \<in> T - {t}" for u
  proof -
    have "{g \<in> flow_ids (T - {t}) q. fl_tin (fq_flows q g) = Some u} = {g \<in> flow_ids T q. fl_tin (fq_flows q g) = Some u}"
      using E(2) by (auto simp: flow_ids_def)
    then show ?thesis using D(3) [of u] u by (simp add: tin_inv_def o)
  qed
  show "fq_inv (T - {t}) q"
    unfolding fq_inv_def using D E(1) fi ti s [of length] s [of memory] by (auto simp: fq_inv_def)
  show "held (T - {t}) q = held T q" unfolding held_def using D(1) t E(1) by (intro flow_sum_remove) simp_all
qed

lemma add_tin_inv:
  assumes inv: "fq_inv T q" and t: "t \<notin> T"
  shows "fq_inv (insert t T) (fq_tin_init t q)" "held (insert t T) (fq_tin_init t q) = held T q"
proof -
  let ?q = "fq_tin_init t q" and ?T = "insert t T"
  note D = fq_invD [OF inv]
  have ids: "flow_ids ?T ?q = insert (DefaultFlow t) (flow_ids T q)" by (auto simp: flow_ids_def fq_tin_init_def upd_flow_def upd_tin_def)
  have fl: "fq_flows ?q = (fq_flows q)(DefaultFlow t := fq_flow_init)" "fq_tins ?q = (fq_tins q)(t := tin_init)"
    by (simp_all add: fq_tin_init_def upd_flow_def upd_tin_def fun_eq_iff)
  have s: "flow_sum g ?T ?q = flow_sum g T q" if "g fq_flow_init = 0" for g :: "_ \<Rightarrow> 'a::comm_monoid_add"
  proof -
    have "(\<Sum>f\<in>flow_ids T q. g (fq_flows ?q f)) = (\<Sum>f\<in>flow_ids T q. g (fq_flows q f))"
      using t by (intro sum.cong) (auto simp: fl)
    then show ?thesis unfolding flow_sum_def ids using D(1) t that by (simp add: fl)
  qed
  have fi: "flow_inv ?T g (fq_flows ?q g)" if "g \<in> flow_ids ?T ?q" for g
    using that D(2) [of g] t unfolding ids by (auto simp: fl flow_inv_def fq_flow_init_def)
  have none: "fl_tin (fq_flows q g) \<noteq> Some t" if "g \<in> flow_ids T q" for g using D(2) [OF that] t by (auto simp: flow_inv_def)
  have o: "flow_sum (of_tin u g) ?T ?q = flow_sum (of_tin u g) T q" for u and g :: "_ \<Rightarrow> u32"
    by (rule s) (simp add: of_tin_def fq_flow_init_def)
  have ti: "tin_inv ?T ?q u" if "u \<in> ?T" for u
  proof (cases "u = t")
    case True
    have "flow_sum (of_tin t g) T q = 0" for g :: "_ \<Rightarrow> u32"
      unfolding flow_sum_def using none by (intro sum.neutral) (simp add: of_tin_def)
    moreover have "{g \<in> flow_ids ?T ?q. fl_tin (fq_flows ?q g) = Some t} = {}" using none unfolding ids by (auto simp: fl fq_flow_init_def)
    ultimately show ?thesis using True by (simp add: tin_inv_def o) (simp add: fl chain_def tin_init_def)
  next
    case False
    have "{g \<in> flow_ids ?T ?q. fl_tin (fq_flows ?q g) = Some u} = {g \<in> flow_ids T q. fl_tin (fq_flows q g) = Some u}"
      using t unfolding ids by (auto simp: fl fq_flow_init_def)
    then show ?thesis using D(3) [of u] that False by (simp add: tin_inv_def o) (simp add: fl chain_def)
  qed
  have rest: "flows_cnt ?q = flows_cnt q" "flows_bitmap ?q = flows_bitmap q" "tin_backlog ?q = tin_backlog q" "fq_backlog ?q = fq_backlog q"
    "memory_usage ?q = memory_usage q" by (simp_all add: fq_tin_init_def upd_flow_def upd_tin_def)
  have l: "flow_sum (length \<circ> fl_queue) ?T ?q = flow_sum (length \<circ> fl_queue) T q" "flow_sum (memory \<circ> fl_queue) ?T ?q = flow_sum (memory \<circ> fl_queue) T q"
    by (rule s; simp add: fq_flow_init_def)+
  have "set (tin_backlog ?q) = {u \<in> ?T. fl_queue (fq_flows ?q (DefaultFlow u)) \<noteq> []}"
    using D(6) t by (auto simp: rest fl fq_flow_init_def)
  moreover have "flows_bitmap ?q i \<longleftrightarrow> fl_queue (fq_flows ?q (Flow i)) \<noteq> []" if "i < unat (flows_cnt ?q)" for i
    using D(4) [of i] that by (simp add: rest fl)
  ultimately show "fq_inv ?T ?q" unfolding fq_inv_def l using D(1,5,7-9) fi ti by (simp add: rest)
  show "held ?T ?q = held T q" unfolding held_def by (rule s) (simp add: fq_flow_init_def)
qed


section \<open>One flow changed\<close>

lemma flow_sum_one:
  assumes "finite T" "f \<in> flow_ids T q" "flows_cnt q' = flows_cnt q" "\<And>g. g \<noteq> f \<Longrightarrow> fl_queue (fq_flows q' g) = fl_queue (fq_flows q g)"
  shows "flow_sum (\<lambda>F. h (fl_queue F)) T q' + h (fl_queue (fq_flows q f)) = flow_sum (\<lambda>F. h (fl_queue F)) T q + h (fl_queue (fq_flows q' f))"
proof -
  have ids: "flow_ids T q' = flow_ids T q" using assms(3) by (simp add: flow_ids_def)
  have "(\<Sum>g\<in>flow_ids T q - {f}. h (fl_queue (fq_flows q' g))) = (\<Sum>g\<in>flow_ids T q - {f}. h (fl_queue (fq_flows q g)))"
    using assms(4) by (intro sum.cong) auto
  then show ?thesis
    unfolding flow_sum_def ids
    using assms(1,2) sum.remove [of "flow_ids T q" f "\<lambda>g. h (fl_queue (fq_flows q' g))"] sum.remove [of "flow_ids T q" f "\<lambda>g. h (fl_queue (fq_flows q g))"]
    by (simp add: ac_simps)
qed

end
