(* ===== verification/TxQueueProps.thy ===== *)
theory TxQueueProps
  imports TxQueue FairQueueReset
begin

text \<open>
  The transmit queues as a whole. CoDel on a flow meets the contract the round robin asks for, so a queue gives a frame
  whenever it holds one; over every sequence of operations no pointer is null, no loop runs for ever, no frame is
  lost or duplicated, and the limits hold.
\<close>


section \<open>CoDel on a flow\<close>

interpretation flow_codel: codel_source "codel_dequeue_func f" codel_drop_func "\<lambda>q. fl_backlog (fq_flows q f)" "\<lambda>q. fl_queue (fq_flows q f)"
  fq_freed "\<lambda>q. fq_inv T q \<and> f \<in> flow_ids T q"
  "\<lambda>q q'. same_shape q q' \<and> (\<forall>g. g \<noteq> f \<longrightarrow> fl_queue (fq_flows q' g) = fl_queue (fq_flows q g))"
  for T f
proof (unfold_locales, goal_cases)
  case (1 q)
  then show ?case by (simp add: codel_dequeue_func_def fq_flow_dequeue_def)
next
  case (2 q p ps)
  then obtain q' where "fq_flow_dequeue f q = Some (Some p, q')" "removed T f ps q q'"
    using flow_dequeue_removed [of T q f p ps] by blast
  then show ?case using 2(1) same_shape_ids by (auto simp: codel_dequeue_func_def removed_def)
next
  case (3 q p)
  then show ?case by (auto simp: codel_drop_func_def free_func_def flow_ids_def)
next
  case (4 q)
  then show ?case using fq_invD(2) [of T q f] by (simp add: flow_inv_def)
next
  case (5 q)
  show ?case by simp
next
  case (6 q q' q'')
  then show ?case using same_shape_trans by auto
qed

text \<open>Dequeueing leaves everything of the queues alone but the variables of CoDel.\<close>

definition same_queues :: "txq_local \<Rightarrow> txq_local \<Rightarrow> bool" where
  "same_queues s s' \<longleftrightarrow>
     (\<forall>t. txq_frags (txqs s' t) = txq_frags (txqs s t) \<and> txq_tid (txqs s' t) = txq_tid (txqs s t) \<and>
          txq_ac (txqs s' t) = txq_ac (txqs s t) \<and> txq_sta (txqs s' t) = txq_sta (txqs s t)) \<and>
     active_txqs s' = active_txqs s"

interpretation txq: flow_source "fq_tin_dequeue_func ect dsfield now" T same_queues for ect dsfield now T
proof
  show "same_queues s s" for s by (simp add: same_queues_def)
  show "same_queues s s' \<Longrightarrow> same_queues s' s'' \<Longrightarrow> same_queues s s''" for s s' s'' by (simp add: same_queues_def)
  fix q t f and s :: txq_local
  assume a: "fq_inv T q" "t \<in> T" "f \<in> set (chain t q)"
  then have f: "f \<in> flow_ids T q" using chain_mem by blast
  let ?X = "txqs s t"
  let ?params = "case txq_sta ?X of Some sta \<Rightarrow> sta_cparams s sta | None \<Rightarrow> local_cparams s"
  let ?vars = "case f of DefaultFlow _ \<Rightarrow> def_cvars ?X | Flow i \<Rightarrow> cvars s i"
  have "\<exists>skb v st q'. codel_dequeue (codel_dequeue_func f) codel_drop_func (\<lambda>q. fl_backlog (fq_flows q f)) ect dsfield ?params now ?vars (cstats ?X) q
      = Some (skb, v, st, q') \<and> took T f q skb q'"
  proof (cases "fl_queue (fq_flows q f) = []")
    case True
    then show ?thesis using flow_codel.dequeue_empty [of T q f] a(1) f by (simp add: took_def)
  next
    case False
    obtain p v st q' where r: "codel_dequeue (codel_dequeue_func f) codel_drop_func (\<lambda>q. fl_backlog (fq_flows q f)) ect dsfield ?params now ?vars (cstats ?X) q
        = Some (Some p, v, st, q')" and o: "flow_codel.takes_one f T [] q p q'"
      using flow_codel.dequeue_takes [of T q f ect dsfield ?params now ?vars "cstats ?X"] a(1) f False by blast
    then have "took T f q (Some p) q'" unfolding took_def flow_codel.takes_one_def by (auto simp: append_eq_append_conv2)
    with r show ?thesis by blast
  qed
  then show "\<exists>skb s' q'. fq_tin_dequeue_func ect dsfield now t f (s, q) = Some (skb, s', q') \<and> took T f q skb q' \<and> same_queues s s'"
    by (auto simp: fq_tin_dequeue_func_def Let_def same_queues_def upd_txq_def split: flow_id.splits)
qed

text \<open>C13: A transmit queue with frames on it hands one out: the oldest of one of its flows, apart from frames CoDel drops
  before it and frees. A queue hands out nothing only if it is empty. Other flows are untouched.\<close>

theorem txq_dequeue_work_conserving:
  assumes "fq_inv T q" "t \<in> T" "0 < quantum q" "uint (quantum q) < 2 ^ 31"
  shows "\<exists>skb s' q'. fq_tin_dequeue (fq_tin_dequeue_func ect dsfield now) t (s, q) = Some (skb, s', q') \<and> fq_inv T q' \<and>
     (case skb of
        None \<Rightarrow> (\<forall>f \<in> flow_ids T q. fl_tin (fq_flows q f) = Some t \<longrightarrow> fl_queue (fq_flows q f) = [])
      | Some p \<Rightarrow> \<exists>f ds p0. f \<in> flow_ids T q \<and> fl_tin (fq_flows q f) = Some t \<and>
                   fl_queue (fq_flows q f) = ds @ p0 # fl_queue (fq_flows q' f) \<and> same_skb p0 p \<and>
                   fq_freed q' = fq_freed q @ ds \<and> (\<forall>g. g \<noteq> f \<longrightarrow> fl_queue (fq_flows q' g) = fl_queue (fq_flows q g)))"
proof -
  obtain skb s' q' where "fq_tin_dequeue (fq_tin_dequeue_func ect dsfield now) t (s, q) = Some (skb, s', q')" "served T t q skb q'"
    using txq.tin_dequeue_served [OF assms] by blast
  then show ?thesis by (intro exI conjI) (auto simp: served_def split: option.splits)
qed


section \<open>Enqueueing\<close>

lemma set_time [simp]: "list_all wf_skb (ieee80211_set_skb_enqueue_time now skbs) = list_all wf_skb skbs"
    "memory (ieee80211_set_skb_enqueue_time now skbs) = memory skbs" "map skb_id (ieee80211_set_skb_enqueue_time now skbs) = map skb_id skbs"
    "(ieee80211_set_skb_enqueue_time now skbs = []) = (skbs = [])"
  by (simp_all add: ieee80211_set_skb_enqueue_time_def list_all_iff wf_skb_def memory_def comp_def)

lemma reciprocal_scale_less: "0 < n \<Longrightarrow> unat (reciprocal_scale h n) < unat n"
proof -
  assume n: "0 < n"
  have h: "unat h < 2 ^ 32" and m: "unat n < 2 ^ 32" using unsigned_less [of h, where 'a = nat] unsigned_less [of n, where 'a = nat] by simp_all
  have "unat h * unat n < 2 ^ 32 * 2 ^ 32" using h m by (intro mult_strict_mono) simp_all
  moreover have "take_bit 64 (unat h) = unat h" "take_bit 64 (unat n) = unat n" using h m by (simp_all add: take_bit_nat_eq_self)
  ultimately have u: "unat (ucast h * ucast n :: u64) = unat h * unat n"
    by (simp add: unat_word_ariths unsigned_ucast_eq)
  have "unat h * unat n < 2 ^ 32 * unat n" using h n by (simp add: word_less_nat_alt)
  then have "unat h * unat n div 2 ^ 32 < unat n" by (simp add: less_mult_imp_div_less mult.commute)
  moreover have "unat (reciprocal_scale h n) = unat h * unat n div 2 ^ 32 mod 2 ^ 32"
    unfolding reciprocal_scale_def by (simp add: unsigned_ucast_eq unat_drop_bit u take_bit_eq_mod)
  ultimately show ?thesis by (simp add: mod_less_eq_dividend le_less_trans)
qed

text \<open>Enqueueing, as a whole.\<close>

lemma tin_enqueue_ok:
  assumes inv: "fq_inv T q" and t: "t \<in> T" and i: "idx < unat (flows_cnt q)" and skbs: "skbs \<noteq> []" "list_all wf_skb skbs"
    and mem: "memory_usage q \<le> memory_limit q" "unat (memory_limit q) + memory skbs < 2 ^ 32"
  shows "\<exists>q1 q' f. fq_tin_enqueue t idx skbs q = Some q' \<and> (f = Flow idx \<or> f = DefaultFlow t) \<and> added T t f skbs q q1 \<and> trimmed T q1 q' \<and>
     fq_backlog q' \<le> fq_limit q' \<and> memory_usage q' \<le> memory_limit q'"
proof -
  let ?q = "enqueue_skbs t idx skbs q"
  have "flow_sum (memory \<circ> fl_queue) T q + memory skbs < 2 ^ 32"
    using mem usage_nat [OF inv] by (simp add: word_le_nat_alt)
  from enqueue_added [OF inv t i skbs this] obtain f where f: "f = Flow idx \<or> f = DefaultFlow t" "added T t f skbs q ?q" by blast
  have "fq_inv T ?q" using f(2) by (simp add: added_def)
  moreover have "\<not> memory_limit ?q < memory_usage ?q \<longrightarrow> memory_usage ?q \<le> memory_limit ?q" by auto
  ultimately obtain q'
    where "fq_tin_enqueue t idx skbs q = Some q'" "trimmed T ?q q'" "fq_backlog q' \<le> fq_limit q'" "memory_usage q' \<le> memory_limit q'"
    using enforce_limits_ok unfolding fq_tin_enqueue_def Let_def by blast
  with f show ?thesis by blast
qed

text \<open>C35: Enqueueing frames always returns; afterwards the number of frames is within the limit and their memory within the
  memory limit, and what is freed to get there is taken off the fronts of the queues.\<close>

theorem txq_enqueue_bounded:
  assumes "fq_inv T q" "t \<in> T" "idx < unat (flows_cnt q)" "skbs \<noteq> []" "list_all wf_skb skbs"
    and "memory_usage q \<le> memory_limit q" "unat (memory_limit q) + memory skbs < 2 ^ 32"
  shows "\<exists>q'. fq_tin_enqueue t idx skbs q = Some q' \<and> fq_inv T q' \<and>
     fq_backlog q' \<le> fq_limit q \<and> memory_usage q' \<le> memory_limit q \<and>
     (\<forall>g \<in> flow_ids T q. \<exists>xs new. fl_queue (fq_flows q g) @ new = xs @ fl_queue (fq_flows q' g) \<and> (new = [] \<or> new = skbs))"
proof -
  from tin_enqueue_ok [OF assms] obtain q1 q' f
    where e: "fq_tin_enqueue t idx skbs q = Some q'" "added T t f skbs q q1" "trimmed T q1 q'" "fq_backlog q' \<le> fq_limit q'"
      "memory_usage q' \<le> memory_limit q'" by blast
  have "\<exists>xs new. fl_queue (fq_flows q g) @ new = xs @ fl_queue (fq_flows q' g) \<and> (new = [] \<or> new = skbs)" for g
  proof -
    obtain xs where xs: "fl_queue (fq_flows q1 g) = xs @ fl_queue (fq_flows q' g)" using e(3) unfolding trimmed_def by meson
    then show ?thesis
    proof (cases "g = f")
      case True
      then show ?thesis using xs e(2) by (intro exI [of _ xs] exI [of _ skbs]) (simp add: added_def)
    next
      case False
      then show ?thesis using xs e(2) by (intro exI [of _ xs] exI [of _ "[]"]) (simp add: added_def)
    qed
  qed
  moreover have "fq_limit q' = fq_limit q" "memory_limit q' = memory_limit q" "fq_inv T q'"
    using e(2,3) by (simp_all add: added_def trimmed_def same_shape_def)
  ultimately show ?thesis using e(1,4,5) by auto
qed


section \<open>Runs\<close>

datatype txq_event =
    TxqEnqueue nat u32 codel_time "fq_skb list"
  | TxqDequeue nat codel_time bool
  | TxqRemoveVlan bool "nat option" nat
  | TxqInit bool bool bool "nat option" nat nat
  | TxqPurge nat

text \<open>The queues in use, the state, and the frames that came in and went out.\<close>

record txq_sys =
  sys_tins :: "nat set"
  sys_local :: txq_local
  sys_fq :: fq
  sys_in :: "nat list"
  sys_out :: "nat list"

fun txq_step :: "(fq_skb \<Rightarrow> bool) \<Rightarrow> (fq_skb \<Rightarrow> int) \<Rightarrow> txq_event \<Rightarrow> txq_sys \<Rightarrow> txq_sys option" where
  "txq_step ect dsfield (TxqEnqueue t hash now skbs) S = do {
     (s, q) \<leftarrow> ieee80211_txq_enqueue hash now t skbs (sys_local S, sys_fq S);
     Some (S\<lparr>sys_local := s, sys_fq := q, sys_in := sys_in S @ map skb_id skbs\<rparr>)
   }"
| "txq_step ect dsfield (TxqDequeue t now stopped) S = do {
     (r, s, q) \<leftarrow> tx_dequeue_pick ect dsfield now stopped t (sys_local S, sys_fq S);
     Some (S\<lparr>sys_local := s, sys_fq := q, sys_out := sys_out S @ (case r of None \<Rightarrow> [] | Some (p, _) \<Rightarrow> [skb_id p])\<rparr>)
   }"
| "txq_step ect dsfield (TxqRemoveVlan is_vlan ap vif) S = do {
     (s, q) \<leftarrow> ieee80211_txq_remove_vlan is_vlan ap vif (sys_local S, sys_fq S);
     Some (S\<lparr>sys_local := s, sys_fq := q\<rparr>)
   }"
| "txq_step ect dsfield (TxqInit st m b sta tid t) S =
     (let (s, q) = ieee80211_txq_init st m b sta tid t (sys_local S, sys_fq S)
      in Some (S\<lparr>sys_tins := insert t (sys_tins S), sys_local := s, sys_fq := q\<rparr>))"
| "txq_step ect dsfield (TxqPurge t) S = do {
     (s, q) \<leftarrow> ieee80211_txq_purge t (sys_local S, sys_fq S);
     Some (S\<lparr>sys_tins := sys_tins S - {t}, sys_local := s, sys_fq := q\<rparr>)
   }"

text \<open>The callers use queues that exist, initialise new ones, hand over frames with a length that the memory covers and of
  not too much memory at once, and put single frames on the management queue.\<close>

fun txq_allowed :: "txq_sys \<Rightarrow> txq_event \<Rightarrow> bool" where
  "txq_allowed S (TxqEnqueue t hash now skbs) \<longleftrightarrow>
     t \<in> sys_tins S \<and> skbs \<noteq> [] \<and> list_all wf_skb skbs \<and> unat (memory_limit (sys_fq S)) + memory skbs < 2 ^ 32 \<and>
     (txq_tid (txqs (sys_local S) t) = IEEE80211_NUM_TIDS \<longrightarrow> length skbs = 1)"
| "txq_allowed S (TxqDequeue t now stopped) \<longleftrightarrow> t \<in> sys_tins S"
| "txq_allowed S (TxqRemoveVlan is_vlan ap vif) \<longleftrightarrow> (\<forall>t. ap = Some t \<longrightarrow> t \<in> sys_tins S)"
| "txq_allowed S (TxqInit st m b sta tid t) \<longleftrightarrow> t \<notin> sys_tins S"
| "txq_allowed S (TxqPurge t) \<longleftrightarrow> t \<in> sys_tins S"

fun txq_run :: "(fq_skb \<Rightarrow> bool) \<Rightarrow> (fq_skb \<Rightarrow> int) \<Rightarrow> txq_event list \<Rightarrow> txq_sys \<Rightarrow> txq_sys option" where
  "txq_run ect dsfield [] S = Some S"
| "txq_run ect dsfield (e # es) S = (if txq_allowed S e then do { S \<leftarrow> txq_step ect dsfield e S; txq_run ect dsfield es S } else txq_run ect dsfield es S)"

definition frag_ids :: "txq_sys \<Rightarrow> nat multiset" where
  "frag_ids S = (\<Sum>t\<in>sys_tins S. mset (map (skb_id \<circ> fst) (txq_frags (txqs (sys_local S) t))))"

text \<open>Every frame that came in is queued, was handed out or was freed, once.\<close>

definition conserved :: "txq_sys \<Rightarrow> bool" where
  "conserved S \<longleftrightarrow>
     mset (sys_in S) = held (sys_tins S) (sys_fq S) + frag_ids S + mset (sys_out S) + mset (map skb_id (fq_freed (sys_fq S)))"

definition within_limits :: "fq \<Rightarrow> bool" where
  "within_limits q \<longleftrightarrow> fq_backlog q \<le> fq_limit q \<and> memory_usage q \<le> memory_limit q"

definition sys_inv :: "txq_sys \<Rightarrow> bool" where
  "sys_inv S \<longleftrightarrow>
     fq_inv (sys_tins S) (sys_fq S) \<and> 0 < quantum (sys_fq S) \<and> uint (quantum (sys_fq S)) < 2 ^ 31 \<and> 0 < flows_cnt (sys_fq S) \<and>
     within_limits (sys_fq S) \<and> conserved S"

text \<open>Removing frames keeps the limits.\<close>

lemma within_limits_sums:
  assumes "fq_inv T q" "fq_inv T' q'" "fq_limit q' = fq_limit q" "memory_limit q' = memory_limit q"
    and "flow_sum (length \<circ> fl_queue) T' q' \<le> flow_sum (length \<circ> fl_queue) T q"
    and "flow_sum (memory \<circ> fl_queue) T' q' \<le> flow_sum (memory \<circ> fl_queue) T q"
    and "within_limits q"
  shows "within_limits q'"
proof -
  have "length ps \<le> memory ps" if "list_all wf_skb ps" for ps
    using that by (induction ps) (auto simp: wf_skb_def word_le_nat_alt word_less_nat_alt)
  then have le: "flow_sum (length \<circ> fl_queue) T q \<le> flow_sum (memory \<circ> fl_queue) T q" if "fq_inv T q" for T q
    unfolding flow_sum_def using fq_invD(2) [OF that] by (intro sum_mono) (simp add: flow_inv_def)
  have b: "unat (fq_backlog q) = flow_sum (length \<circ> fl_queue) T q" if "fq_inv T q" for T q
    using fq_invD(7,9) [OF that] le [OF that] by (simp add: unat_of_nat)
  show ?thesis using assms b [OF assms(1)] b [OF assms(2)] usage_nat [OF assms(1)] usage_nat [OF assms(2)]
    by (simp add: within_limits_def word_le_nat_alt)
qed


lemma purged_limits: "fq_inv T q \<Longrightarrow> purged T q q' \<Longrightarrow> within_limits q \<Longrightarrow> within_limits q'"
  using held_size [of T q] held_size [of T q'] by (intro within_limits_sums [of T q T q']) (auto simp: purged_def)

text \<open>A frame that is handed out leaves the queues, with those dropped before it.\<close>

lemma served_held:
  assumes inv: "fq_inv T q" and s: "served T t q skb q'"
  shows "\<exists>ds. fq_freed q' = fq_freed q @ ds \<and>
      held T q = held T q' + mset (case skb of None \<Rightarrow> [] | Some p \<Rightarrow> [skb_id p]) + mset (map skb_id ds)"
    and "within_limits q \<Longrightarrow> within_limits q'"
proof -
  have cnt: "flows_cnt q' = flows_cnt q" and lim: "fq_limit q' = fq_limit q" "memory_limit q' = memory_limit q" and inv': "fq_inv T q'"
    using s by (simp_all add: served_def)
  have "(\<exists>ds. fq_freed q' = fq_freed q @ ds \<and>
      held T q = held T q' + mset (case skb of None \<Rightarrow> [] | Some p \<Rightarrow> [skb_id p]) + mset (map skb_id ds)) \<and>
    flow_sum (length \<circ> fl_queue) T q' \<le> flow_sum (length \<circ> fl_queue) T q \<and>
    flow_sum (memory \<circ> fl_queue) T q' \<le> flow_sum (memory \<circ> fl_queue) T q"
  proof (cases skb)
    case None
    then have e: "fl_queue (fq_flows q' g) = fl_queue (fq_flows q g)" for g using s by (simp add: served_def)
    then have "held T q' = held T q" using cnt by (intro held_queues)
    moreover have "flow_sum (h \<circ> fl_queue) T q' = flow_sum (h \<circ> fl_queue) T q" for h :: "_ \<Rightarrow> nat"
      using cnt e by (intro flow_sum_cong) simp_all
    ultimately show ?thesis using s None by (simp add: served_def)
  next
    case (Some p)
    then obtain f ds p0 where f: "f \<in> flow_ids T q" "fl_queue (fq_flows q f) = ds @ p0 # fl_queue (fq_flows q' f)" "same_skb p0 p"
        "fq_freed q' = fq_freed q @ ds" "\<And>g. g \<noteq> f \<Longrightarrow> fl_queue (fq_flows q' g) = fl_queue (fq_flows q g)"
      using s by (auto simp: served_def)
    note one = flow_sum_one [OF fq_invD(1) [OF inv] f(1) cnt f(5)]
    have "held T q = held T q' + mset [skb_id p] + mset (map skb_id ds)"
      using one [of "\<lambda>ps. mset (map skb_id ps)"] f(2) same_skb_id [OF f(3)] by (simp add: held_def)
    moreover have "flow_sum (\<lambda>F. length (fl_queue F)) T q' \<le> flow_sum (\<lambda>F. length (fl_queue F)) T q"
      "flow_sum (\<lambda>F. memory (fl_queue F)) T q' \<le> flow_sum (\<lambda>F. memory (fl_queue F)) T q"
      using one [of length] one [of memory] f(2) by simp_all
    ultimately show ?thesis using f(4) Some by (auto simp: comp_def)
  qed
  then show "\<exists>ds. fq_freed q' = fq_freed q @ ds \<and>
      held T q = held T q' + mset (case skb of None \<Rightarrow> [] | Some p \<Rightarrow> [skb_id p]) + mset (map skb_id ds)"
    and "within_limits q \<Longrightarrow> within_limits q'"
    using within_limits_sums [OF inv inv' lim] by blast+
qed

lemma frag_ids_upd:
  assumes "finite (sys_tins S)" "t \<in> sys_tins S"
  shows "frag_ids (S\<lparr>sys_local := upd_txq t g (sys_local S), sys_fq := q, sys_in := i, sys_out := out\<rparr>) + mset (map (skb_id \<circ> fst) (txq_frags (txqs (sys_local S) t)))
       = frag_ids S + mset (map (skb_id \<circ> fst) (txq_frags (g (txqs (sys_local S) t))))"
  using sum_fun_upd [OF assms, of "\<lambda>X. mset (map (skb_id \<circ> fst) (txq_frags X))" "txqs (sys_local S)" "g (txqs (sys_local S) t)"]
  by (simp add: frag_ids_def upd_txq_def)

lemma enqueue_step_inv:
  assumes inv: "sys_inv S" and ok: "txq_allowed S (TxqEnqueue t hash now skbs)"
  shows "\<exists>S'. txq_step ect dsfield (TxqEnqueue t hash now skbs) S = Some S' \<and> sys_inv S'"
proof -
  let ?T = "sys_tins S" and ?q = "sys_fq S" and ?s = "sys_local S" and ?skbs = "ieee80211_set_skb_enqueue_time now skbs"
  have I: "fq_inv ?T ?q" "0 < flows_cnt ?q" "within_limits ?q" "conserved S" using inv by (simp_all add: sys_inv_def)
  have t: "t \<in> ?T" and skbs: "?skbs \<noteq> []" "list_all wf_skb ?skbs" "unat (memory_limit ?q) + memory ?skbs < 2 ^ 32" using ok by simp_all
  show ?thesis
  proof (cases "txq_tid (txqs ?s t) = IEEE80211_NUM_TIDS")
    case True
    then obtain p where p: "skbs = [p]" using ok by (auto simp: length_Suc_conv)
    define s' where "s' = upd_txq t (\<lambda>X. X\<lparr>txq_frags := txq_frags X @ [(p\<lparr>enqueue_time := now\<rparr>, True)]\<rparr>) ?s"
    let ?S = "S\<lparr>sys_local := s', sys_fq := ?q, sys_in := sys_in S @ [skb_id p]\<rparr>"
    have "txq_step ect dsfield (TxqEnqueue t hash now skbs) S = Some ?S"
      using True p by (simp add: ieee80211_txq_enqueue_def ieee80211_set_skb_enqueue_time_def s'_def Let_def)
    moreover have "frag_ids ?S = add_mset (skb_id p) (frag_ids S)"
      using frag_ids_upd [OF fq_invD(1) [OF I(1)] t, where q = ?q and i = "sys_in S @ [skb_id p]" and out = "sys_out S"
          and g = "\<lambda>X. X\<lparr>txq_frags := txq_frags X @ [(p\<lparr>enqueue_time := now\<rparr>, True)]\<rparr>"] by (simp add: s'_def)
    ultimately show ?thesis using inv by (simp add: sys_inv_def conserved_def)
  next
    case False
    have "fq_flow_idx hash ?q < unat (flows_cnt ?q)" using reciprocal_scale_less [OF I(2)] by (simp add: fq_flow_idx_def)
    from tin_enqueue_ok [OF I(1) t this skbs(1,2) _ skbs(3)] I(3) obtain q1 q' f
      where e: "fq_tin_enqueue t (fq_flow_idx hash ?q) ?skbs ?q = Some q'" "added ?T t f ?skbs ?q q1" "trimmed ?T q1 q'" "within_limits q'"
      by (auto simp: within_limits_def)
    let ?S = "S\<lparr>sys_fq := q', sys_in := sys_in S @ map skb_id skbs\<rparr>"
    have "txq_step ect dsfield (TxqEnqueue t hash now skbs) S = Some ?S"
      using False e(1) by (simp add: ieee80211_txq_enqueue_def Let_def)
    moreover obtain ds where "fq_freed q' = fq_freed q1 @ ds" "held ?T q1 = held ?T q' + mset (map skb_id ds)"
      using e(3) by (auto simp: trimmed_def)
    then have "conserved ?S" using I(4) e(2) set_time(3) [of now skbs] by (simp add: conserved_def added_def frag_ids_def)
    ultimately show ?thesis using inv e(2-4) by (simp add: sys_inv_def trimmed_def added_def same_shape_def)
  qed
qed

lemma dequeue_step_inv:
  assumes inv: "sys_inv S" and t: "t \<in> sys_tins S"
  shows "\<exists>S'. txq_step ect dsfield (TxqDequeue t now stopped) S = Some S' \<and> sys_inv S'"
proof -
  let ?T = "sys_tins S" and ?q = "sys_fq S" and ?s = "sys_local S"
  have I: "fq_inv ?T ?q" "0 < quantum ?q" "uint (quantum ?q) < 2 ^ 31" "within_limits ?q" "conserved S" using inv by (simp_all add: sys_inv_def)
  note upd = frag_ids_upd [OF fq_invD(1) [OF I(1)] t, where q = ?q and i = "sys_in S"]
  consider (stopped) stopped | (frag) p need rest where "\<not> stopped" "txq_frags (txqs ?s t) = (p, need) # rest"
    | (held) "\<not> stopped" "txq_frags (txqs ?s t) = []" "TXQ_STOP (txqs ?s t)"
    | (fq) "\<not> stopped" "txq_frags (txqs ?s t) = []" "\<not> TXQ_STOP (txqs ?s t)"
    by (metis neq_Nil_conv surj_pair)
  then show ?thesis
  proof cases
    case stopped
    then show ?thesis using inv upd [where g = "\<lambda>X. X\<lparr>TXQ_DIRTY := True\<rparr>" and out = "sys_out S"]
      by (simp add: tx_dequeue_pick_def sys_inv_def conserved_def)
  next
    case frag
    then show ?thesis using inv upd [where g = "\<lambda>X. X\<lparr>txq_frags := rest\<rparr>" and out = "sys_out S @ [skb_id p]"]
      by (simp add: tx_dequeue_pick_def sys_inv_def conserved_def)
  next
    case held
    then show ?thesis using inv by (simp add: tx_dequeue_pick_def)
  next
    case fq
    obtain skb s' q' where d: "fq_tin_dequeue (fq_tin_dequeue_func ect dsfield now) t (?s, ?q) = Some (skb, s', q')" "served ?T t ?q skb q'"
        "same_queues ?s s'"
      using txq.tin_dequeue_served [OF I(1) t I(2,3)] by blast
    let ?S = "S\<lparr>sys_local := s', sys_fq := q', sys_out := sys_out S @ (case skb of None \<Rightarrow> [] | Some p \<Rightarrow> [skb_id p])\<rparr>"
    have "txq_step ect dsfield (TxqDequeue t now stopped) S = Some ?S"
      using fq d(1) by (simp add: tx_dequeue_pick_def split: option.splits)
    moreover obtain ds where "fq_freed q' = fq_freed ?q @ ds"
        "held ?T ?q = held ?T q' + mset (case skb of None \<Rightarrow> [] | Some p \<Rightarrow> [skb_id p]) + mset (map skb_id ds)"
      using served_held(1) [OF I(1) d(2)] by blast
    then have "conserved ?S" using I(5) d(3) by (simp add: conserved_def frag_ids_def same_queues_def)
    ultimately show ?thesis using inv d(2) served_held(2) [OF I(1) d(2) I(4)] by (auto simp: sys_inv_def served_def)
  qed
qed


lemma remove_vlan_step_inv:
  assumes inv: "sys_inv S" and ok: "txq_allowed S (TxqRemoveVlan is_vlan ap vif)"
  shows "\<exists>S'. txq_step ect dsfield (TxqRemoveVlan is_vlan ap vif) S = Some S' \<and> sys_inv S'"
proof (cases "is_vlan \<and> ap \<noteq> None")
  case False
  then show ?thesis using inv by (auto simp: ieee80211_txq_remove_vlan_def)
next
  case True
  then obtain t where t: "ap = Some t" "t \<in> sys_tins S" using ok by auto
  have I: "fq_inv (sys_tins S) (sys_fq S)" "within_limits (sys_fq S)" "conserved S" using inv by (simp_all add: sys_inv_def)
  from tin_filter_lost [OF I(1) t(2)] obtain q' where q': "fq_tin_filter (fq_vlan_filter_func vif) t (sys_fq S) = Some q'" "lost (sys_tins S) (sys_fq S) q'"
    by blast
  note pu = lost_purged [OF q'(2)]
  have "conserved (S\<lparr>sys_fq := q'\<rparr>)" using I(3) pu by (auto simp: conserved_def purged_def frag_ids_def)
  then show ?thesis
    using True t(1) q'(1) inv pu purged_limits [OF I(1) pu I(2)]
    by (auto simp: ieee80211_txq_remove_vlan_def sys_inv_def purged_def)
qed

lemma init_step_inv:
  assumes inv: "sys_inv S" and t: "t \<notin> sys_tins S"
  shows "\<exists>S'. txq_step ect dsfield (TxqInit st m b sta tid t) S = Some S' \<and> sys_inv S'"
proof -
  let ?T = "sys_tins S" and ?q = "sys_fq S"
  obtain s' q' where e: "ieee80211_txq_init st m b sta tid t (sys_local S, ?q) = (s', q')" by fastforce
  have I: "fq_inv ?T ?q" "within_limits ?q" "conserved S" using inv by (simp_all add: sys_inv_def)
  have q': "q' = fq_tin_init t ?q" and s': "txq_frags (txqs s' u) = (if u = t then [] else txq_frags (txqs (sys_local S) u))" for u
    using e by (auto simp: ieee80211_txq_init_def Let_def upd_txq_def zeroed_txq_def split: option.splits if_splits)
  have same: "fq_freed q' = fq_freed ?q" "fq_limit q' = fq_limit ?q" "memory_limit q' = memory_limit ?q" "quantum q' = quantum ?q"
    "flows_cnt q' = flows_cnt ?q" "fq_backlog q' = fq_backlog ?q" "memory_usage q' = memory_usage ?q"
    by (simp_all add: q' fq_tin_init_def upd_flow_def upd_tin_def)
  let ?S = "S\<lparr>sys_tins := insert t ?T, sys_local := s', sys_fq := q'\<rparr>"
  have "(\<Sum>u\<in>?T. mset (map (skb_id \<circ> fst) (txq_frags (txqs s' u)))) = frag_ids S"
    unfolding frag_ids_def using t by (intro sum.cong) (auto simp: s')
  then have "frag_ids ?S = frag_ids S" using t fq_invD(1) [OF I(1)] by (simp add: frag_ids_def s')
  then have "conserved ?S" using I(3) add_tin_inv(2) [OF I(1) t] same(1) by (simp add: conserved_def q')
  moreover have "fq_inv (insert t ?T) q'" using add_tin_inv(1) [OF I(1) t] by (simp add: q')
  ultimately show ?thesis using e inv same by (auto simp: sys_inv_def within_limits_def)
qed

lemma purge_step_inv:
  assumes inv: "sys_inv S" and t: "t \<in> sys_tins S"
  shows "\<exists>S'. txq_step ect dsfield (TxqPurge t) S = Some S' \<and> sys_inv S'"
proof -
  let ?T = "sys_tins S" and ?q = "sys_fq S" and ?s = "sys_local S"
  let ?fr = "map fst (txq_frags (txqs ?s t))"
  have I: "fq_inv ?T ?q" "within_limits ?q" "conserved S" using inv by (simp_all add: sys_inv_def)
  from tin_reset_purged [OF I(1) t] obtain q1 where q1: "fq_tin_reset t ?q = Some q1" "purged ?T ?q q1" "chain t q1 = []" by blast
  have inv1: "fq_inv ?T q1" using q1(2) by (simp add: purged_def)
  define q2 where "q2 = fold free_func ?fr q1"
  have q2: "q2 = q1\<lparr>fq_freed := fq_freed q1 @ ?fr\<rparr>" by (simp add: q2_def fold_free)
  obtain s' where e: "ieee80211_txq_purge t (?s, ?q) = Some (s', q2)" and s': "\<And>u. txq_frags (txqs s' u) = (if u = t then [] else txq_frags (txqs ?s u))"
    using q1(1) by (auto simp: ieee80211_txq_purge_def q2_def upd_txq_def Let_def)
  let ?S = "S\<lparr>sys_tins := ?T - {t}, sys_local := s', sys_fq := q2\<rparr>"
  note rm = remove_tin_inv [OF inv1 t q1(3)]
  have "fq_inv (?T - {t}) q2" "held (?T - {t}) q2 = held ?T q1" using rm by (simp_all add: q2 held_def)
  moreover have "within_limits q2" using purged_limits [OF I(1) q1(2) I(2)] by (simp add: within_limits_def q2)
  moreover have "frag_ids S = frag_ids ?S + mset (map skb_id ?fr)"
  proof -
    have "(\<Sum>u\<in>?T - {t}. mset (map (skb_id \<circ> fst) (txq_frags (txqs s' u)))) = (\<Sum>u\<in>?T - {t}. mset (map (skb_id \<circ> fst) (txq_frags (txqs ?s u))))"
      by (intro sum.cong) (auto simp: s')
    then show ?thesis unfolding frag_ids_def
      using sum.remove [OF fq_invD(1) [OF I(1)] t, of "\<lambda>u. mset (map (skb_id \<circ> fst) (txq_frags (txqs ?s u)))"]
      by (simp add: comp_def image_mset.compositionality)
  qed
  moreover obtain ds where "fq_freed q1 = fq_freed ?q @ ds" "held ?T ?q = held ?T q1 + mset (map skb_id ds)"
    using q1(2) by (auto simp: purged_def)
  ultimately have "conserved ?S" "fq_inv (?T - {t}) q2" "within_limits q2" using I(3) by (simp_all add: conserved_def q2)
  then show ?thesis using e inv q1(2) by (auto simp: sys_inv_def purged_def q2)
qed

lemma txq_step_inv: "sys_inv S \<Longrightarrow> txq_allowed S e \<Longrightarrow> \<exists>S'. txq_step ect dsfield e S = Some S' \<and> sys_inv S'"
proof (cases e)
  case (TxqEnqueue t hash now skbs)
  then show "sys_inv S \<Longrightarrow> txq_allowed S e \<Longrightarrow> ?thesis" using enqueue_step_inv by metis
next
  case (TxqDequeue t now stopped)
  then show "sys_inv S \<Longrightarrow> txq_allowed S e \<Longrightarrow> ?thesis" using dequeue_step_inv by (metis txq_allowed.simps(2))
next
  case (TxqRemoveVlan v ap vif)
  then show "sys_inv S \<Longrightarrow> txq_allowed S e \<Longrightarrow> ?thesis" using remove_vlan_step_inv by metis
next
  case (TxqInit st m b sta tid t)
  then show "sys_inv S \<Longrightarrow> txq_allowed S e \<Longrightarrow> ?thesis" using init_step_inv by (metis txq_allowed.simps(4))
next
  case (TxqPurge t)
  then show "sys_inv S \<Longrightarrow> txq_allowed S e \<Longrightarrow> ?thesis" using purge_step_inv by (metis txq_allowed.simps(5))
qed

lemma txq_run_inv: "sys_inv S \<Longrightarrow> \<exists>S'. txq_run ect dsfield es S = Some S' \<and> sys_inv S'"
proof (induction es arbitrary: S)
  case (Cons e es)
  show ?case
  proof (cases "txq_allowed S e")
    case True
    then obtain S1 where "txq_step ect dsfield e S = Some S1" "sys_inv S1" using txq_step_inv Cons.prems by blast
    with Cons.IH True show ?thesis by auto
  qed (use Cons in auto)
qed simp

text \<open>The state after the set-up, with no queue yet.\<close>

definition sys_start :: "txq_local \<Rightarrow> fq \<Rightarrow> txq_sys" where
  "sys_start s q = \<lparr>sys_tins = {}, sys_local = s, sys_fq = q, sys_in = [], sys_out = []\<rparr>"

lemma setup_inv:
  assumes "ieee80211_txq_setup_flows flows_ok bitmap_ok cvars_ok vht w s = Some (w', s', q)" "uint (txq_quantum w) < 2 ^ 31"
  shows "sys_inv (sys_start s' q)"
proof -
  have q: "fq_flows q = (\<lambda>_. fq_flow_init)" "tin_backlog q = []" "flows_bitmap q = (\<lambda>_. False)" "fq_backlog q = 0" "memory_usage q = 0"
      "fq_freed q = []" "flows_cnt q = 4096" "quantum q = (if txq_quantum w = 0 then 300 else txq_quantum w)"
    using assms(1) by (auto simp: ieee80211_txq_setup_flows_def fq_init_def ieee80211_txq_set_params_def Let_def split: if_splits)
  have "flow_sum (g \<circ> fl_queue) {} q = 0" if "g [] = 0" for g :: "_ \<Rightarrow> nat"
    unfolding flow_sum_def by (intro sum.neutral) (simp add: q(1) fq_flow_init_def that)
  from this [of length] this [of memory] have "fq_inv {} q"
    by (simp add: fq_inv_def q(1-5) flow_inv_def fq_flow_init_def)
  moreover have "held {} q = {#}" unfolding held_def flow_sum_def by (intro sum.neutral) (simp add: q(1) fq_flow_init_def)
  moreover have "0 < quantum q" "uint (quantum q) < 2 ^ 31" using assms(2) by (simp_all add: q(8) word_gt_0)
  ultimately show ?thesis
    by (simp add: sys_inv_def sys_start_def conserved_def frag_ids_def within_limits_def q)
qed

text \<open>C5: After the set-up, over every sequence of queue creations and removals, enqueueing, dequeueing and VLAN removals every
  operation returns (no null pointer, no endless loop), the invariant and the limits hold, and every frame that came in
  is queued, was handed out or was freed, exactly once.\<close>

theorem txq_run_conserves:
  assumes "ieee80211_txq_setup_flows flows_ok bitmap_ok cvars_ok vht w s = Some (w', s', q)" "uint (txq_quantum w) < 2 ^ 31"
  shows "\<exists>S. txq_run ect dsfield es (sys_start s' q) = Some S \<and> fq_inv (sys_tins S) (sys_fq S) \<and> within_limits (sys_fq S) \<and>
     mset (sys_in S) = held (sys_tins S) (sys_fq S) + frag_ids S + mset (sys_out S) + mset (map skb_id (fq_freed (sys_fq S)))"
  using txq_run_inv [OF setup_inv [OF assms], of ect dsfield es] by (auto simp: sys_inv_def conserved_def)


section \<open>A quantum of zero\<close>

definition stuck :: "nat set \<Rightarrow> nat \<Rightarrow> fq \<Rightarrow> bool" where
  "stuck T t q \<longleftrightarrow> fq_inv T q \<and> t \<in> T \<and> quantum q = 0 \<and> chain t q \<noteq> [] \<and> (\<forall>f \<in> set (chain t q). fl_deficit (fq_flows q f) \<le> 0)"

lemma stuck_next:
  assumes "stuck T t q" "next_flow (fq_tins q t) = Some (is_new, f)"
  shows "fl_deficit (fq_flows q f) \<le> 0"
    "stuck T t (move_tail_old t f (upd_flow f (\<lambda>F. F\<lparr>fl_deficit := to_s32 (fl_deficit F + uint (quantum q))\<rparr>) q))"
proof -
  have inv: "fq_inv T q" and t: "t \<in> T" and z: "quantum q = 0" and le: "\<forall>f \<in> set (chain t q). fl_deficit (fq_flows q f) \<le> 0"
    using assms(1) by (simp_all add: stuck_def)
  have f: "f \<in> set (chain t q)" using next_flow_chain [OF assms(2)] by simp
  then show "fl_deficit (fq_flows q f) \<le> 0" using le by simp
  have "f \<in> flow_ids T q" using chain_mem [OF inv t] f by simp
  then have "to_s32 (fl_deficit (fq_flows q f)) = fl_deficit (fq_flows q f)"
    using fq_invD(2) [OF inv, of f] unfolding flow_inv_def by (intro to_s32_id) auto
  then have "(fq_flows q f)\<lparr>fl_deficit := to_s32 (fl_deficit (fq_flows q f) + uint (quantum q))\<rparr> = fq_flows q f" by (simp add: z)
  then have id: "upd_flow f (\<lambda>F. F\<lparr>fl_deficit := to_s32 (fl_deficit F + uint (quantum q))\<rparr>) q = q"
    by (cases q) (simp add: upd_flow_def)
  have c: "mset (chain t (move_tail_old t f q)) = mset (chain t q)"
    using mset_filter_neq [OF chain_distinct [OF inv t] f] by (simp add: chain_move_tail)
  have fl: "fq_flows (move_tail_old t f q) = fq_flows q" by (simp add: move_tail_old_def upd_tin_def unlink_flow_def)
  show "stuck T t (move_tail_old t f (upd_flow f (\<lambda>F. F\<lparr>fl_deficit := to_s32 (fl_deficit F + uint (quantum q))\<rparr>) q))"
    unfolding id using turned_move [OF inv t f] z le t fl mset_eq_setD [OF c] mset_eq_length [OF c] assms(1)
    by (auto simp: stuck_def turned_def)
qed

lemma stuck_never_returns:
  assumes "fq_tin_dequeue d t (s, q) = Some r"
  shows "\<not> stuck T t q"
proof -
  have "\<not> stuck T t (snd (s, q))"
  proof (rule fq_tin_dequeue.raw_induct [OF _ assms])
    fix f :: "(nat \<Rightarrow> flow_id \<Rightarrow> 'a \<times> fq \<Rightarrow> (fq_skb option \<times> 'a \<times> fq) option) \<Rightarrow> nat \<Rightarrow> 'a \<times> fq \<Rightarrow> (fq_skb option \<times> 'a \<times> fq) option"
    fix d t r and sq :: "'a \<times> fq"
    assume IH: "\<And>d t sq r. f d t sq = Some r \<Longrightarrow> \<not> stuck T t (snd sq)"
      and body: "(case sq of (s, q) \<Rightarrow>
        case next_flow (fq_tins q t) of
          None \<Rightarrow> Some (None, s, q)
        | Some (is_new, fl) \<Rightarrow>
            if fl_deficit (fq_flows q fl) \<le> 0 then
              f d t (s, move_tail_old t fl (upd_flow fl (\<lambda>F. F\<lparr>fl_deficit := to_s32 (fl_deficit F + uint (quantum q))\<rparr>) q))
            else do {
              (skb, s, q) \<leftarrow> d t fl (s, q);
              case skb of
                None \<Rightarrow> f d t (s, retire_flow t is_new fl q)
              | Some skb \<Rightarrow>
                  Some (Some skb, s,
                    upd_tin t (\<lambda>T. T\<lparr>tx_bytes := tx_bytes T + skb_len skb, tx_packets := tx_packets T + 1\<rparr>)
                      (upd_flow fl (\<lambda>F. F\<lparr>fl_deficit := to_s32 (fl_deficit F - uint (skb_len skb))\<rparr>) q))
            }) = Some r"
    obtain s q where sq: "sq = (s, q)" by fastforce
    show "\<not> stuck T t (snd sq)"
    proof
      assume st: "stuck T t (snd sq)"
      then obtain x where "next_flow (fq_tins q t) = Some x" using next_flow_None [of q t] by (auto simp: sq stuck_def)
      then obtain is_new fl where nx: "next_flow (fq_tins q t) = Some (is_new, fl)" by (cases x) auto
      note n = stuck_next [OF _ nx, of T]
      have "f d t (s, move_tail_old t fl (upd_flow fl (\<lambda>F. F\<lparr>fl_deficit := to_s32 (fl_deficit F + uint (quantum q))\<rparr>) q)) = Some r"
        using body st n(1) nx by (simp add: sq)
      from IH [OF this] n(2) st show False by (simp add: sq)
    qed
  qed
  then show ?thesis by simp
qed

text \<open>C40: With a quantum of zero, which the debugfs file accepts, dequeueing from a tin whose flows have no credit left never
  returns, with the queue lock held.\<close>

theorem quantum_zero_hangs:
  assumes "fq_inv T q" "t \<in> T" "quantum q = 0" "chain t q \<noteq> []" "\<forall>f \<in> set (chain t q). fl_deficit (fq_flows q f) \<le> 0"
  shows "fq_tin_dequeue (fq_tin_dequeue_func ect dsfield now) t (s, q) = None"
  using stuck_never_returns [of "fq_tin_dequeue_func ect dsfield now" t s q _ T] assms
  by (cases "fq_tin_dequeue (fq_tin_dequeue_func ect dsfield now) t (s, q)") (auto simp: stuck_def)


section \<open>CoDel leaves a good queue alone\<close>

text \<open>A frame that waited less than the target is handed out as it is, nothing is dropped or marked, and the dropping state is left.\<close>

theorem codel_good_queue:
  assumes "fq_inv T q" "f \<in> flow_ids T q" "fl_queue (fq_flows q f) = p # ps"
    and "codel_time_before (now - enqueue_time p) (target params)" "\<not> codel_time_after (now - enqueue_time p) (ce_threshold params)"
  shows "\<exists>vars' stats' q'. codel_dequeue (codel_dequeue_func f) codel_drop_func (\<lambda>q. fl_backlog (fq_flows q f)) ect dsfield params now vars stats q
      = Some (Some p, vars', stats', q') \<and> fq_freed q' = fq_freed q \<and> fl_queue (fq_flows q' f) = ps \<and> \<not> dropping vars' \<and> first_above_time vars' = 0 \<and>
     drop_count stats' = drop_count stats \<and> ecn_mark stats' = ecn_mark stats \<and> ce_mark stats' = ce_mark stats"
proof -
  obtain q' where d: "fq_flow_dequeue f q = Some (Some p, q')" "removed T f ps q q'"
    using flow_dequeue_removed [OF assms(1-3)] by blast
  have "fq_freed q' = fq_freed q" "fl_queue (fq_flows q' f) = ps" using d(2) by (simp_all add: removed_def)
  then show ?thesis
    using assms(4,5) d(1) by (auto simp: codel_dequeue_def codel_dequeue_func_def codel_should_drop_def codel_end_def Let_def)
qed


section \<open>Examples\<close>

definition demo_local :: txq_local where
  "demo_local =
     \<lparr>cvars = (\<lambda>_. codel_vars_init),
      local_cparams = \<lparr>target = 0, ce_threshold = 0, interval = 0, mtu = 0, ecn = False, ce_threshold_selector = 0, ce_threshold_mask = 0\<rparr>,
      sta_cparams = (\<lambda>_. \<lparr>target = MS2TIME 20, ce_threshold = CODEL_DISABLED_THRESHOLD, interval = MS2TIME 100, mtu = 0, ecn = True,
        ce_threshold_selector = 0, ce_threshold_mask = 0\<rparr>),
      txqs = (\<lambda>_. zeroed_txq), active_txqs = (\<lambda>_. [])\<rparr>"

definition demo_params :: txq_params where
  "demo_params = \<lparr>txq_limit = 0, txq_memory_limit = 0, txq_quantum = 0\<rparr>"

definition demo_skb :: "nat \<Rightarrow> fq_skb" where
  "demo_skb i = \<lparr>skb_id = i, skb_len = 1500, skb_truesize = 2304, enqueue_time = 0, skb_vif = 0, skb_ce = False\<rparr>"

text \<open>The queues after the set-up, after the creation of one transmit queue, and with one frame on it.\<close>

definition demo_start :: "txq_params \<times> txq_local \<times> fq" where
  "demo_start = the (ieee80211_txq_setup_flows True True True [Some True] demo_params demo_local)"

definition demo_fq :: fq where "demo_fq = fq_tin_init 0 (snd (snd demo_start))"
definition demo_busy :: fq where "demo_busy = enqueue_skbs 0 5 [demo_skb 7] demo_fq"

lemma demo_setup: "ieee80211_txq_setup_flows True True True [Some True] demo_params demo_local
    = Some (fst demo_start, fst (snd demo_start), snd (snd demo_start))"
  by (simp add: demo_start_def ieee80211_txq_setup_flows_def fq_init_def ieee80211_txq_set_params_def Let_def)

lemma demo_fields: "quantum demo_fq = 300" "flows_cnt demo_fq = 4096" "memory_usage demo_fq = 0" "memory_limit demo_fq = 0x1000000"
    "fq_limit demo_fq = 8192" "fq_flows demo_fq = (\<lambda>_. fq_flow_init)" "new_flows (fq_tins demo_fq 0) = []" "old_flows (fq_tins demo_fq 0) = []"
    "flow_sum (memory \<circ> fl_queue) {0} demo_fq = 0"
proof -
  show "fq_flows demo_fq = (\<lambda>_. fq_flow_init)"
    by (simp add: demo_fq_def demo_start_def ieee80211_txq_setup_flows_def fq_init_def ieee80211_txq_set_params_def Let_def
        demo_params_def fq_tin_init_def upd_flow_def upd_tin_def fun_eq_iff)
  then show "flow_sum (memory \<circ> fl_queue) {0} demo_fq = 0"
    unfolding flow_sum_def by (intro sum.neutral) (simp add: fq_flow_init_def)
qed (simp_all add: demo_fq_def demo_start_def ieee80211_txq_setup_flows_def fq_init_def ieee80211_txq_set_params_def Let_def
      demo_params_def fq_tin_init_def upd_flow_def upd_tin_def tin_init_def)

lemma demo_quantum: "uint (txq_quantum demo_params) < 2 ^ 31"
  by (simp add: demo_params_def)

lemma demo_fq_inv: "fq_inv {0} demo_fq"
  using setup_inv [OF demo_setup demo_quantum] add_tin_inv(1) [of "{}" "snd (snd demo_start)" 0]
  by (simp add: demo_fq_def sys_inv_def sys_start_def)

lemma demo_skb_ok: "list_all wf_skb [demo_skb i]" "memory [demo_skb i] = 2304"
  by (simp_all add: demo_skb_def wf_skb_def)

lemma demo_busy_state: "fq_inv {0} demo_busy" "fl_queue (fq_flows demo_busy (Flow 5)) = [demo_skb 7]" "flows_cnt demo_busy = 4096"
    "quantum demo_busy = 300" "chain 0 demo_busy = [Flow 5]" "Flow 5 \<in> flow_ids {0} demo_busy"
proof -
  have mem: "flow_sum (memory \<circ> fl_queue) {0} demo_fq + memory [demo_skb 7] < 2 ^ 32" using demo_skb_ok(2) by (simp add: demo_fields)
  have i: "5 < unat (flows_cnt demo_fq)" by (simp add: demo_fields)
  obtain f where a: "added {0} 0 f [demo_skb 7] demo_fq demo_busy"
    unfolding demo_busy_def by (rule enqueue_added [OF demo_fq_inv _ i _ demo_skb_ok(1) mem]) simp_all
  show inv: "fq_inv {0} demo_busy" and c: "flows_cnt demo_busy = 4096" and "quantum demo_busy = 300"
    using a by (simp_all add: added_def demo_fields)
  show "Flow 5 \<in> flow_ids {0} demo_busy" using c by simp
  have cl: "fq_flow_classify 0 5 demo_fq = (Flow 5, upd_tin 0 (\<lambda>T. T\<lparr>tin_flows := tin_flows T + 1\<rparr>) demo_fq)"
    by (simp add: fq_flow_classify_def demo_fields fq_flow_init_def Let_def)
  show "fl_queue (fq_flows demo_busy (Flow 5)) = [demo_skb 7]" "chain 0 demo_busy = [Flow 5]"
    by (simp_all add: demo_busy_def enqueue_skbs_def cl Let_def enqueue_skb_def demo_fields fq_flow_init_def upd_flow_def upd_tin_def linked_def chain_def)
qed

theorem txq_dequeue_work_conserving_witness:
  "\<exists>skb s' q'. fq_tin_dequeue (fq_tin_dequeue_func (\<lambda>_. False) (\<lambda>_. 0) 40000) 0 (demo_local, demo_busy) = Some (skb, s', q') \<and> fq_inv {0} q' \<and>
     (case skb of
        None \<Rightarrow> (\<forall>f \<in> flow_ids {0} demo_busy. fl_tin (fq_flows demo_busy f) = Some 0 \<longrightarrow> fl_queue (fq_flows demo_busy f) = [])
      | Some p \<Rightarrow> \<exists>f ds p0. f \<in> flow_ids {0} demo_busy \<and> fl_tin (fq_flows demo_busy f) = Some 0 \<and>
                   fl_queue (fq_flows demo_busy f) = ds @ p0 # fl_queue (fq_flows q' f) \<and> same_skb p0 p \<and>
                   fq_freed q' = fq_freed demo_busy @ ds \<and> (\<forall>g. g \<noteq> f \<longrightarrow> fl_queue (fq_flows q' g) = fl_queue (fq_flows demo_busy g)))"
proof (rule txq_dequeue_work_conserving [OF demo_busy_state(1)])
  show "0 < quantum demo_busy" "uint (quantum demo_busy) < 2 ^ 31" by (simp_all add: demo_busy_state(4))
qed simp

theorem txq_enqueue_bounded_witness:
  "\<exists>q'. fq_tin_enqueue 0 5 [demo_skb 7] demo_fq = Some q' \<and> fq_inv {0} q' \<and>
     fq_backlog q' \<le> fq_limit demo_fq \<and> memory_usage q' \<le> memory_limit demo_fq \<and>
     (\<forall>g \<in> flow_ids {0} demo_fq. \<exists>xs new. fl_queue (fq_flows demo_fq g) @ new = xs @ fl_queue (fq_flows q' g) \<and> (new = [] \<or> new = [demo_skb 7]))"
proof (rule txq_enqueue_bounded [OF demo_fq_inv])
  show "unat (memory_limit demo_fq) + memory [demo_skb 7] < 2 ^ 32" using demo_skb_ok(2) by (simp add: demo_fields)
qed (simp_all only: demo_skb_ok, simp_all add: demo_fields)

theorem txq_run_conserves_witness:
  "\<exists>S. txq_run (\<lambda>_. False) (\<lambda>_. 0) [TxqInit True False False (Some 3) 0 0, TxqEnqueue 0 77 100 [demo_skb 7, demo_skb 8], TxqDequeue 0 40000 False]
       (sys_start (fst (snd demo_start)) (snd (snd demo_start))) = Some S \<and>
     fq_inv (sys_tins S) (sys_fq S) \<and> within_limits (sys_fq S) \<and>
     mset (sys_in S) = held (sys_tins S) (sys_fq S) + frag_ids S + mset (sys_out S) + mset (map skb_id (fq_freed (sys_fq S)))"
  by (rule txq_run_conserves [OF demo_setup demo_quantum])

text \<open>The same queue after the quantum was set to zero: the credit of the flow is gone.\<close>

definition demo_stuck :: fq where
  "demo_stuck = upd_flow (Flow 5) (\<lambda>F. F\<lparr>fl_deficit := to_s32 (- 1200)\<rparr>) (demo_busy\<lparr>quantum := 0\<rparr>)"

theorem quantum_zero_hangs_witness:
  "fq_tin_dequeue (fq_tin_dequeue_func (\<lambda>_. False) (\<lambda>_. 0) 40000) 0 (demo_local, demo_stuck) = None"
proof (rule quantum_zero_hangs [where T = "{0}"])
  have "fq_inv {0} (demo_busy\<lparr>quantum := 0\<rparr>) = fq_inv {0} demo_busy" by (intro fq_inv_cong(1)) simp_all
  then show "fq_inv {0} demo_stuck" unfolding demo_stuck_def
    using turned_deficit [of "{0}" "demo_busy\<lparr>quantum := 0\<rparr>" "Flow 5" "- 1200"] demo_busy_state(1) by (simp add: turned_def)
  have c: "chain 0 demo_stuck = [Flow 5]" using demo_busy_state(5) by (simp add: demo_stuck_def chain_def upd_flow_def)
  then show "chain 0 demo_stuck \<noteq> []" by simp
  show "\<forall>f \<in> set (chain 0 demo_stuck). fl_deficit (fq_flows demo_stuck f) \<le> 0"
    using to_s32_id [of "- 1200"] by (simp add: c) (simp add: demo_stuck_def upd_flow_def)
qed (simp_all add: demo_stuck_def upd_flow_def)

theorem codel_good_queue_witness:
  "\<exists>vars' stats' q'. codel_dequeue (codel_dequeue_func (Flow 5)) codel_drop_func (\<lambda>q. fl_backlog (fq_flows q (Flow 5))) (\<lambda>_. True) (\<lambda>_. 0)
       (sta_cparams demo_local 3) 100 codel_vars_init (cstats zeroed_txq) demo_busy
      = Some (Some (demo_skb 7), vars', stats', q') \<and> fq_freed q' = fq_freed demo_busy \<and> fl_queue (fq_flows q' (Flow 5)) = [] \<and>
     \<not> dropping vars' \<and> first_above_time vars' = 0 \<and>
     drop_count stats' = drop_count (cstats zeroed_txq) \<and> ecn_mark stats' = ecn_mark (cstats zeroed_txq) \<and> ce_mark stats' = ce_mark (cstats zeroed_txq)"
proof (rule codel_good_queue [OF demo_busy_state(1,6,2)])
  show "codel_time_before (100 - enqueue_time (demo_skb 7)) (target (sta_cparams demo_local 3))"
    by (simp add: codel_time_after_def demo_skb_def demo_local_def MS2TIME_def drop_bit_eq_div)
  show "\<not> codel_time_after (100 - enqueue_time (demo_skb 7)) (ce_threshold (sta_cparams demo_local 3))"
    by (simp add: codel_time_after_def demo_skb_def demo_local_def CODEL_DISABLED_THRESHOLD_def)
qed

end
