(* ===== verification/AirtimeProps.thy ===== *)
theory AirtimeProps
  imports AirtimeInv TxQueueProps
begin

text \<open>
  The airtime scheduler together with the transmit queues: the choice of the next queue, runs of everything that
  touches the lists and accounts, the account of pending airtime, and the fairness of the deficit round robin.
\<close>


section \<open>The next queue\<close>

lemma next_txq_spec:
  assumes inv: "sched_inv (a, s)"
  shows "\<exists>r a' s'. ieee80211_next_txq ac (a, s) = Some (r, a', s') \<and> sched_inv (a', s') \<and>
    txqs s' = txqs s \<and> schedule_round a' = schedule_round a \<and> (\<forall>c. set (active_txqs s' c) \<subseteq> set (active_txqs s c)) \<and>
    (case r of
       Some t \<Rightarrow>
         t \<in> set (active_txqs s ac) \<and> txq_round a t \<noteq> schedule_round a ac \<and>
         txq_round a' = (txq_round a)(t := schedule_round a ac) \<and>
         set (active_txqs s' ac) = set (active_txqs s ac) - {t} \<and> ieee80211_txq_airtime_check a (txqs s t) \<and>
         (\<forall>x. txq_sta (txqs s t) = Some x \<longrightarrow> 0 \<le> sint (ieee80211_sta_deficit a' x ac))
     | None \<Rightarrow>
         txq_round a' = txq_round a \<and> set (active_txqs s' ac) = set (active_txqs s ac) \<and>
         (schedule_round a ac = 0 \<or>
          (\<forall>t \<in> set (active_txqs s ac). txq_sta (txqs s t) \<noteq> None \<and> \<not> ieee80211_txq_airtime_check a (txqs s t)) \<or>
          (\<exists>t rest. active_txqs s' ac = t # rest \<and> txq_round a t = schedule_round a ac)))"
proof (cases "schedule_round a ac = 0")
  case True
  then show ?thesis using inv by (simp add: ieee80211_next_txq_def)
next
  case False
  have "search_inv ac None False (a, s)" using inv by (simp add: search_inv_def)
  then obtain a1 s1 r where r: "next_txq_loop ac None False (a, s) = Some r" "rotated ac (a, s) (a1, s1)" "search_done ac (a1, s1) r"
    using next_txq_loop_returns by (metis surj_pair)
  have same: "txqs s1 = txqs s" "\<And>X. ieee80211_txq_airtime_check a1 X = ieee80211_txq_airtime_check a X"
    "\<And>c. set (active_txqs s1 c) = set (active_txqs s c)" "schedule_round a1 = schedule_round a" "txq_round a1 = txq_round a"
    using rotated_txqs [OF r(2)] rotated_check [OF r(2)] rotated_sets [OF r(2)] r(2) credited_fields(4,5) [of a a1]
    by (simp_all add: rotated_def)
  have inv1: "sched_inv (a1, s1)" by (rule rotated_inv [OF r(2) inv])
  have n: "ieee80211_next_txq ac (a, s) = Some r" using False r(1) by (simp add: ieee80211_next_txq_def)
  from r(3) show ?thesis
  proof (unfold search_done_def, elim disjE exE conjE)
    assume "list_all (refused (a1, s1)) (active_txqs (snd (a1, s1)) ac)" "r = (None, a1, s1)"
    then show ?thesis using n inv1 same by (auto simp: refused_def list_all_iff)
  next
    fix t rest
    assume d: "active_txqs (snd (a1, s1)) ac = t # rest" "r = next_txq_take ac t (a1, s1)"
      "ieee80211_txq_airtime_check (fst (a1, s1)) (txqs (snd (a1, s1)) t)"
      "\<forall>x. txq_sta (txqs (snd (a1, s1)) t) = Some x \<longrightarrow> 0 \<le> sint (ieee80211_sta_deficit (fst (a1, s1)) x ac)"
    obtain o' a' s' where r': "r = (o', a', s')" by (cases r)
    have "sched_inv (a', s')" using take_inv [OF inv1, of ac t] by (simp flip: d(2) add: r')
    moreover have "set (active_txqs s ac) = insert t (set rest)" using same(3) [of ac] d(1) by simp
    ultimately show ?thesis using n d same r' sched_inv_listD [OF inv1, of ac]
      by (auto simp: next_txq_take_def list_del_txq_def ieee80211_sta_deficit_def split: if_splits)
  qed
qed

text \<open>C36: Asking for the next queue always returns, whatever the deficits are. A queue it gives was waiting and not yet given in
  this round, is within the airtime limits and its station is not in debt; the others keep waiting. It
  gives none only if scheduling is suspended, all waiting queues are over their limits, or the one
  whose turn it is was given in this round already.\<close>

theorem next_txq_total:
  assumes inv: "sched_inv (a, s)"
  shows "\<exists>r a' s'. ieee80211_next_txq ac (a, s) = Some (r, a', s') \<and> sched_inv (a', s') \<and>
    (case r of
       Some t \<Rightarrow>
         t \<in> set (active_txqs s ac) \<and> txq_round a t \<noteq> schedule_round a ac \<and> txq_round a' t = schedule_round a ac \<and>
         set (active_txqs s' ac) = set (active_txqs s ac) - {t} \<and> ieee80211_txq_airtime_check a (txqs s t) \<and>
         (\<forall>x. txq_sta (txqs s t) = Some x \<longrightarrow> 0 \<le> sint (ieee80211_sta_deficit a' x ac))
     | None \<Rightarrow>
         set (active_txqs s' ac) = set (active_txqs s ac) \<and>
         (schedule_round a ac = 0 \<or>
          (\<forall>t \<in> set (active_txqs s ac). txq_sta (txqs s t) \<noteq> None \<and> \<not> ieee80211_txq_airtime_check a (txqs s t)) \<or>
          (\<exists>t rest. active_txqs s' ac = t # rest \<and> txq_round a t = schedule_round a ac)))"
  using next_txq_spec [OF inv, of ac] by (fastforce split: option.splits)


section \<open>Runs\<close>

datatype sched_event =
    SchedTxq txq_event
  | SchedStart nat
  | SchedNext nat
  | SchedTxqAdd u64 nat bool
  | SchedMayTransmit nat
  | SchedRegister u64 nat nat u32 u32
  | SchedCharge "nat option" nat u32
  | SchedComplete "nat option" nat "10 word"
  | SchedNewSta nat
  | SchedWeight nat u16

text \<open>The accounts, the transmit queues, and for each access category the queues given in the current round.\<close>

record air_sys =
  air_local :: airtime_local
  air_txq :: txq_sys
  air_given :: "nat \<Rightarrow> nat list"

definition air_sched :: "air_sys \<Rightarrow> sched" where
  "air_sched S = (air_local S, sys_local (air_txq S))"

definition set_sched :: "sched \<Rightarrow> air_sys \<Rightarrow> air_sys" where
  "set_sched = (\<lambda>(a, s) S. S\<lparr>air_local := a, air_txq := (air_txq S)\<lparr>sys_local := s\<rparr>\<rparr>)"

text \<open>The memory of a new queue is zeroed, its round with it.\<close>

fun new_txq :: "txq_event \<Rightarrow> nat option" where
  "new_txq (TxqInit st m b sta tid t) = Some t"
| "new_txq e = None"

fun sched_step :: "(fq_skb \<Rightarrow> bool) \<Rightarrow> (fq_skb \<Rightarrow> int) \<Rightarrow> sched_event \<Rightarrow> air_sys \<Rightarrow> air_sys option" where
  "sched_step ect dsfield (SchedTxq e) S = do {
     T \<leftarrow> txq_step ect dsfield e (air_txq S);
     Some (case new_txq e of
             None \<Rightarrow> S\<lparr>air_txq := T\<rparr>
           | Some t \<Rightarrow> S\<lparr>air_txq := T, air_local := (air_local S)\<lparr>txq_round := (txq_round (air_local S))(t := 0)\<rparr>,
                        air_given := (\<lambda>ac. filter ((\<noteq>) t) (air_given S ac))\<rparr>)
   }"
| "sched_step ect dsfield (SchedStart ac) S =
     Some ((set_sched (ieee80211_txq_schedule_start ac (air_sched S)) S)\<lparr>air_given := (air_given S)(ac := [])\<rparr>)"
| "sched_step ect dsfield (SchedNext ac) S = do {
     (r, st) \<leftarrow> ieee80211_next_txq ac (air_sched S);
     Some ((set_sched st S)\<lparr>air_given := (air_given S)(ac := air_given S ac @ (case r of None \<Rightarrow> [] | Some t \<Rightarrow> [t]))\<rparr>)
   }"
| "sched_step ect dsfield (SchedTxqAdd jiffies t force) S =
     Some (set_sched (schedule_txq jiffies t force (sys_fq (air_txq S)) (air_sched S)) S)"
| "sched_step ect dsfield (SchedMayTransmit t) S = Some (set_sched (snd (ieee80211_txq_may_transmit t (air_sched S))) S)"
| "sched_step ect dsfield (SchedRegister jiffies x tid txa rxa) S =
     Some (S\<lparr>air_local := ieee80211_sta_register_airtime jiffies x tid txa rxa (air_local S)\<rparr>)"
| "sched_step ect dsfield (SchedCharge x ac expected) S = Some (S\<lparr>air_local := snd (tx_dequeue_charge x ac expected (air_local S))\<rparr>)"
| "sched_step ect dsfield (SchedComplete x ac est) S = Some (S\<lparr>air_local := report_used_skb_airtime x ac est (air_local S)\<rparr>)"
| "sched_step ect dsfield (SchedNewSta x) S =
     Some (S\<lparr>air_local := (air_local S)\<lparr>stas := (stas (air_local S))(x := new_airtime_sta (air_local S))\<rparr>\<rparr>)"
| "sched_step ect dsfield (SchedWeight x w) S =
     Some (S\<lparr>air_local := (air_local S)\<lparr>stas := (stas (air_local S))(x := set_airtime_weight w (stas (air_local S) x))\<rparr>\<rparr>)"

text \<open>Drivers and the stack name queues that exist.\<close>

fun sched_allowed :: "air_sys \<Rightarrow> sched_event \<Rightarrow> bool" where
  "sched_allowed S (SchedTxq e) \<longleftrightarrow> txq_allowed (air_txq S) e"
| "sched_allowed S (SchedTxqAdd jiffies t force) \<longleftrightarrow> t \<in> sys_tins (air_txq S)"
| "sched_allowed S (SchedMayTransmit t) \<longleftrightarrow> t \<in> sys_tins (air_txq S)"
| "sched_allowed S e \<longleftrightarrow> True"

fun sched_run :: "(fq_skb \<Rightarrow> bool) \<Rightarrow> (fq_skb \<Rightarrow> int) \<Rightarrow> sched_event list \<Rightarrow> air_sys \<Rightarrow> air_sys option" where
  "sched_run ect dsfield [] S = Some S"
| "sched_run ect dsfield (e # es) S =
     (if sched_allowed S e then do { S \<leftarrow> sched_step ect dsfield e S; sched_run ect dsfield es S } else sched_run ect dsfield es S)"

definition air_inv :: "air_sys \<Rightarrow> bool" where
  "air_inv S \<longleftrightarrow>
     sys_inv (air_txq S) \<and> sched_inv (air_sched S) \<and>
     (\<forall>ac. set (active_txqs (sys_local (air_txq S)) ac) \<subseteq> sys_tins (air_txq S)) \<and>
     (\<forall>ac. distinct (air_given S ac) \<and>
        (\<forall>t \<in> set (air_given S ac). txq_ac (txqs (sys_local (air_txq S)) t) = ac \<and>
           txq_round (air_local S) t = schedule_round (air_local S) ac))"


text \<open>What most operations leave alone: the rounds, and of the queues everything but their place in the lists.\<close>

definition same_rounds :: "airtime_local \<Rightarrow> airtime_local \<Rightarrow> bool" where
  "same_rounds a a' \<longleftrightarrow> schedule_round a' = schedule_round a \<and> txq_round a' = txq_round a"

lemma same_rounds_upd [simp]: "same_rounds a (upd_airtime x c g a') = same_rounds a a'" "same_rounds a (credit_sta x c a') = same_rounds a a'"
  by (simp_all add: same_rounds_def upd_airtime_def credit_sta_def Let_def)

lemma same_rounds_refl [simp]: "same_rounds a a" by (simp add: same_rounds_def)

lemma account_rounds:
  "same_rounds a (ieee80211_sta_register_airtime jiffies x tid txa rxa a)"
  "same_rounds a (ieee80211_sta_update_pending_airtime y ac v b a)"
  "same_rounds a (snd (tx_dequeue_charge y ac expected a))" "same_rounds a (report_used_skb_airtime y ac est a)"
proof -
  show p: "same_rounds a (ieee80211_sta_update_pending_airtime y ac v b a)" for y ac v b a
    by (auto simp: ieee80211_sta_update_pending_airtime_def same_rounds_def upd_airtime_def Let_def split: option.splits)
  show "same_rounds a (ieee80211_sta_register_airtime jiffies x tid txa rxa a)"
    by (simp add: ieee80211_sta_register_airtime_def Let_def)
  show "same_rounds a (snd (tx_dequeue_charge y ac expected a))" "same_rounds a (report_used_skb_airtime y ac est a)"
    using p by (auto simp: tx_dequeue_charge_def report_used_skb_airtime_def Let_def split: option.splits prod.splits)
qed

lemma charge_inv: "sched_inv (a, s) \<Longrightarrow> sched_inv (snd (tx_dequeue_charge y ac expected a), s)"
    "sched_inv (a, s) \<Longrightarrow> sched_inv (report_used_skb_airtime y ac est a, s)"
  by (auto simp: tx_dequeue_charge_def report_used_skb_airtime_def Let_def pending_inv split: option.splits prod.splits)

lemma list_sets [simp]:
  "set (active_txqs (list_add_txq t ac s) c) = (if c = ac then insert t (set (active_txqs s c)) else set (active_txqs s c))"
  "set (active_txqs (list_add_tail_txq t ac s) c) = (if c = ac then insert t (set (active_txqs s c)) else set (active_txqs s c))"
  "set (active_txqs (list_del_txq t s) c) = set (active_txqs s c) - {t}"
  "set (active_txqs (list_move_tail_txq t ac s) c) = (if c = ac then insert t (set (active_txqs s c)) else set (active_txqs s c) - {t})"
  by (auto simp: list_add_txq_def list_add_tail_txq_def list_del_txq_def list_move_tail_txq_def)

lemma add_txqs [simp]: "txqs (list_add_txq t ac s) = txqs s" "txqs (list_add_tail_txq t ac s) = txqs s"
  by (simp_all add: list_add_txq_def list_add_tail_txq_def)

lemma schedule_txq_frame:
  assumes "schedule_txq jiffies t force q (a, s) = (a', s')"
  shows "same_rounds a a'" "txqs s' = txqs s" "set (active_txqs s' c) \<subseteq> insert t (set (active_txqs s c))"
  using assms by (auto simp: schedule_txq_def Let_def ieee80211_txq_set_active_def split: if_splits option.splits)

lemma rotate_frame:
  assumes "may_transmit_rotate ac t us (a, s) = (a', s')" "set us \<subseteq> set (active_txqs s ac)"
  shows "same_rounds a a' \<and> set (active_txqs s' c) \<subseteq> set (active_txqs s c)"
  using assms
proof (induction us arbitrary: a s)
  case (Cons u us)
  show ?case
  proof (cases "u = t")
    case False
    obtain a1 where a1: "may_transmit_rotate ac t us (a1, list_move_tail_txq u ac s) = (a', s')" "same_rounds a a1"
      using Cons.prems(1) False by (simp add: Let_def split: option.splits if_splits)
    have "set us \<subseteq> set (active_txqs (list_move_tail_txq u ac s) ac)" using Cons.prems(2) by auto
    with Cons.IH [OF a1(1)] show ?thesis using Cons.prems(2) a1(2) by (auto simp: same_rounds_def split: if_splits)
  qed (use Cons.prems in simp)
qed simp

lemma may_transmit_frame:
  assumes "ieee80211_txq_may_transmit t (a, s) = (r, a', s')"
  shows "same_rounds a a'" "txqs s' = txqs s" "set (active_txqs s' c) \<subseteq> insert t (set (active_txqs s c))"
proof -
  let ?ac = "txq_ac (txqs s t)"
  obtain a1 s1 where rot: "may_transmit_rotate ?ac t (active_txqs s ?ac) (a, s) = (a1, s1)" by fastforce
  note f = rotate_frame [OF rot order_refl, of c] rotate_txqs [of ?ac t "active_txqs s ?ac" a s, unfolded rot snd_conv]
  have "same_rounds a a' \<and> txqs s' = txqs s \<and> set (active_txqs s' c) \<subseteq> insert t (set (active_txqs s c))"
    using assms f by (auto simp: ieee80211_txq_may_transmit_def may_transmit_out_def rot Let_def split: if_splits option.splits)
  then show "same_rounds a a'" "txqs s' = txqs s" "set (active_txqs s' c) \<subseteq> insert t (set (active_txqs s c))" by simp_all
qed

text \<open>The operations on the queues themselves.\<close>

lemma dequeue_local:
  assumes "sys_inv T" "t \<in> sys_tins T" "tx_dequeue_pick ect dsfield now stopped t (sys_local T, sys_fq T) = Some (r, s', q')"
  shows "active_txqs s' = active_txqs (sys_local T)" "txq_ac (txqs s' u) = txq_ac (txqs (sys_local T) u)"
proof -
  have I: "fq_inv (sys_tins T) (sys_fq T)" "0 < quantum (sys_fq T)" "uint (quantum (sys_fq T)) < 2 ^ 31" using assms(1) by (simp_all add: sys_inv_def)
  obtain skb s1 q1 where "fq_tin_dequeue (fq_tin_dequeue_func ect dsfield now) t (sys_local T, sys_fq T) = Some (skb, s1, q1)"
      "same_queues (sys_local T) s1"
    using txq.tin_dequeue_served [OF I(1) assms(2) I(2,3)] by blast
  then show "active_txqs s' = active_txqs (sys_local T)" "txq_ac (txqs s' u) = txq_ac (txqs (sys_local T) u)"
    using assms(3) by (auto simp: tx_dequeue_pick_def same_queues_def upd_txq_def split: if_splits list.splits)
qed

fun active_after :: "txq_local \<Rightarrow> txq_event \<Rightarrow> nat \<Rightarrow> nat list" where
  "active_after s (TxqPurge t) = (let ac = txq_ac (txqs s t) in (active_txqs s)(ac := filter ((\<noteq>) t) (active_txqs s ac)))"
| "active_after s e = active_txqs s"

fun tins_after :: "nat set \<Rightarrow> txq_event \<Rightarrow> nat set" where
  "tins_after T (TxqPurge t) = T - {t}"
| "tins_after T (TxqInit st m b sta tid t) = insert t T"
| "tins_after T e = T"

lemma txq_step_local:
  assumes inv: "sys_inv T" and ok: "txq_allowed T e" and step: "txq_step ect dsfield e T = Some T'"
  shows "(\<forall>u. new_txq e \<noteq> Some u \<longrightarrow> txq_ac (txqs (sys_local T') u) = txq_ac (txqs (sys_local T) u)) \<and>
    active_txqs (sys_local T') = active_after (sys_local T) e \<and> sys_tins T' = tins_after (sys_tins T) e"
proof (cases e)
  case TxqEnqueue
  then show ?thesis using step by (auto simp: ieee80211_txq_enqueue_def upd_txq_def Let_def bind_eq_Some_conv split: if_splits)
next
  case (TxqDequeue t now stopped)
  then show ?thesis using step ok dequeue_local [OF inv, of t ect dsfield now stopped] by (fastforce simp: bind_eq_Some_conv)
next
  case TxqRemoveVlan
  then show ?thesis using step by (auto simp: ieee80211_txq_remove_vlan_def bind_eq_Some_conv split: if_splits option.splits)
next
  case TxqInit
  then show ?thesis using step by (auto simp: ieee80211_txq_init_def upd_txq_def Let_def split: if_splits option.splits)
next
  case TxqPurge
  then show ?thesis using step by (auto simp: ieee80211_txq_purge_def upd_txq_def Let_def bind_eq_Some_conv)
qed


text \<open>Every step keeps the invariant.\<close>

lemma sys_inv_local: "sys_inv T \<Longrightarrow> txqs s' = txqs (sys_local T) \<Longrightarrow> sys_inv (T\<lparr>sys_local := s'\<rparr>)"
  by (simp add: sys_inv_def conserved_def frag_ids_def)

lemma air_inv_sched:
  assumes "air_inv S" "sched_inv (a', s')" "same_rounds (air_local S) a'" "txqs s' = txqs (sys_local (air_txq S))"
    "\<And>c. set (active_txqs s' c) \<subseteq> sys_tins (air_txq S)"
  shows "air_inv (set_sched (a', s') S)"
  using assms sys_inv_local [of "air_txq S" s'] by (simp add: air_inv_def set_sched_def air_sched_def same_rounds_def)

lemma set_sched_given [simp]: "(set_sched st S)\<lparr>air_given := air_given S\<rparr> = set_sched st S"
  by (cases st) (simp add: set_sched_def)

lemma air_inv_account:
  assumes "air_inv S" "sched_inv (a', sys_local (air_txq S))" "same_rounds (air_local S) a'"
  shows "air_inv (S\<lparr>air_local := a'\<rparr>)"
  using air_inv_sched [OF assms(1-3)] assms(1) by (simp add: set_sched_def air_inv_def)

lemma start_step_inv:
  assumes "air_inv S"
  shows "\<exists>S'. sched_step ect dsfield (SchedStart ac) S = Some S' \<and> air_inv S'"
proof -
  obtain a' s' where e: "ieee80211_txq_schedule_start ac (air_sched S) = (a', s')" by fastforce
  have "sched_inv (a', s')" using schedule_start_inv [of "air_sched S" ac] assms by (simp add: e air_inv_def)
  moreover have "s' = sys_local (air_txq S)" "txq_round a' = txq_round (air_local S)" "\<And>c. c \<noteq> ac \<Longrightarrow> schedule_round a' c = schedule_round (air_local S) c"
    using e by (auto simp: ieee80211_txq_schedule_start_def air_sched_def Let_def split: if_splits)
  ultimately show ?thesis using assms by (simp add: e [unfolded air_sched_def] air_inv_def set_sched_def air_sched_def)
qed

lemma next_step_inv:
  assumes "air_inv S"
  shows "\<exists>S'. sched_step ect dsfield (SchedNext ac) S = Some S' \<and> air_inv S'"
proof -
  let ?a = "air_local S" and ?s = "sys_local (air_txq S)"
  have inv: "sched_inv (?a, ?s)" using assms by (simp add: air_inv_def air_sched_def)
  from next_txq_spec [OF this, of ac] obtain r a' s'
    where n: "ieee80211_next_txq ac (?a, ?s) = Some (r, a', s')" "sched_inv (a', s')" "txqs s' = txqs ?s" "schedule_round a' = schedule_round ?a"
      "\<forall>c. set (active_txqs s' c) \<subseteq> set (active_txqs ?s c)"
      and r: "case r of Some t \<Rightarrow> t \<in> set (active_txqs ?s ac) \<and> txq_round ?a t \<noteq> schedule_round ?a ac \<and>
          txq_round a' = (txq_round ?a)(t := schedule_round ?a ac)
        | None \<Rightarrow> txq_round a' = txq_round ?a"
    by (fastforce split: option.splits)
  let ?S = "(set_sched (a', s') S)\<lparr>air_given := (air_given S)(ac := air_given S ac @ (case r of None \<Rightarrow> [] | Some t \<Rightarrow> [t]))\<rparr>"
  have act: "set (active_txqs s' c) \<subseteq> sys_tins (air_txq S)" for c using n(5) assms by (fastforce simp: air_inv_def)
  have "air_inv ?S"
  proof (cases r)
    case None
    then show ?thesis using r n(4) air_inv_sched [OF assms n(2) _ n(3) act] by (simp add: same_rounds_def)
  next
    case (Some t)
    then have t: "txq_ac (txqs ?s t) = ac" "txq_round ?a t \<noteq> schedule_round ?a ac" "txq_round a' = (txq_round ?a)(t := schedule_round ?a ac)"
      using r sched_inv_listD [OF inv, of ac] by simp_all
    have g: "distinct (air_given S c)" "\<forall>u \<in> set (air_given S c). txq_ac (txqs ?s u) = c \<and> txq_round ?a u = schedule_round ?a c" for c
      using assms by (simp_all add: air_inv_def)
    have no: "t \<notin> set (air_given S c)" for c using g(2) [of c] t(1,2) by auto
    have new: "distinct (air_given ?S c) \<and> (\<forall>u \<in> set (air_given ?S c). txq_ac (txqs s' u) = c \<and> txq_round a' u = schedule_round a' c)" for c
      using g [of c] no [of c] t n(3,4) Some by (cases "c = ac") auto
    have "sys_inv (air_txq ?S)" "air_sched ?S = (a', s')"
      using assms sys_inv_local [OF _ n(3)] by (simp_all add: air_inv_def set_sched_def air_sched_def)
    then show ?thesis using n(2) act new unfolding air_inv_def by (simp add: set_sched_def)
  qed
  then show ?thesis using n(1) by (simp add: air_sched_def)
qed


lemma txq_step_air_inv:
  assumes inv: "air_inv S" and ok: "txq_allowed (air_txq S) e"
  shows "\<exists>S'. sched_step ect dsfield (SchedTxq e) S = Some S' \<and> air_inv S'"
proof -
  let ?T = "air_txq S"
  have si: "sys_inv ?T" and sc: "sched_inv (air_local S, sys_local ?T)" and tins: "\<And>c. set (active_txqs (sys_local ?T) c) \<subseteq> sys_tins ?T"
    using inv by (simp_all add: air_inv_def air_sched_def)
  obtain T' where T': "txq_step ect dsfield e ?T = Some T'" "sys_inv T'" using txq_step_inv [OF si ok] by blast
  have loc: "\<And>u. new_txq e \<noteq> Some u \<Longrightarrow> txq_ac (txqs (sys_local T') u) = txq_ac (txqs (sys_local ?T) u)"
      "active_txqs (sys_local T') = active_after (sys_local ?T) e" "sys_tins T' = tins_after (sys_tins ?T) e"
    using txq_step_local [OF si ok T'(1)] by blast+
  have sub: "distinct (active_after (sys_local ?T) e c) \<and> set (active_after (sys_local ?T) e c) \<subseteq> set (active_txqs (sys_local ?T) c) \<inter> tins_after (sys_tins ?T) e" for c
    using sched_inv_listD [OF sc] tins by (cases e) (auto simp: Let_def)
  have new: "t \<notin> set (active_txqs (sys_local ?T) c)" if "new_txq e = Some t" for t c using that ok tins by (cases e) auto
  have "sched_inv (air_local S, sys_local T')"
    using sc sub loc(1,2) new by (fastforce simp: sched_inv_def)
  then show ?thesis
  proof (cases "new_txq e")
    case None
    then show ?thesis using T' sub loc inv \<open>sched_inv (air_local S, sys_local T')\<close> by (simp add: air_inv_def air_sched_def)
  next
    case (Some t)
    let ?S = "S\<lparr>air_txq := T', air_local := (air_local S)\<lparr>txq_round := (txq_round (air_local S))(t := 0)\<rparr>,
                 air_given := (\<lambda>ac. filter ((\<noteq>) t) (air_given S ac))\<rparr>"
    have "sched_inv (air_sched ?S)" using \<open>sched_inv (air_local S, sys_local T')\<close> by (simp add: sched_inv_def air_sched_def)
    then have "air_inv ?S" using Some T' sub loc inv by (auto simp: air_inv_def)
    then show ?thesis using T'(1) Some by simp
  qed
qed

lemma sched_step_inv:
  assumes inv: "air_inv S" and ok: "sched_allowed S e"
  shows "\<exists>S'. sched_step ect dsfield e S = Some S' \<and> air_inv S'"
proof -
  let ?a = "air_local S" and ?s = "sys_local (air_txq S)"
  have sc: "sched_inv (?a, ?s)" and tins: "\<And>c. set (active_txqs ?s c) \<subseteq> sys_tins (air_txq S)" using inv by (simp_all add: air_inv_def air_sched_def)
  note account = air_inv_account [OF inv]
  show ?thesis
  proof (cases e)
    case (SchedTxq x)
    then show ?thesis using txq_step_air_inv [OF inv] ok by simp
  next
    case SchedStart
    then show ?thesis using start_step_inv [OF inv] by simp
  next
    case SchedNext
    then show ?thesis using next_step_inv [OF inv] by (simp only:)
  next
    case (SchedTxqAdd jiffies t force)
    obtain a' s' where r: "schedule_txq jiffies t force (sys_fq (air_txq S)) (?a, ?s) = (a', s')" by fastforce
    have "sched_inv (a', s')" using schedule_txq_inv [OF sc, of jiffies t force "sys_fq (air_txq S)"] by (simp add: r)
    then have "air_inv (set_sched (a', s') S)"
      using schedule_txq_frame [OF r] tins ok SchedTxqAdd by (intro air_inv_sched [OF inv]) auto
    then show ?thesis using SchedTxqAdd r by (simp add: air_sched_def)
  next
    case (SchedMayTransmit t)
    obtain b a' s' where r: "ieee80211_txq_may_transmit t (?a, ?s) = (b, a', s')" by (metis surj_pair)
    have "sched_inv (a', s')" using may_transmit_inv [OF sc, of t] by (simp add: r)
    then have "air_inv (set_sched (a', s') S)"
      using may_transmit_frame [OF r] tins ok SchedMayTransmit by (intro air_inv_sched [OF inv]) auto
    then show ?thesis using SchedMayTransmit r by (simp add: air_sched_def)
  next
    case SchedRegister
    then show ?thesis using account [OF register_inv [OF sc] account_rounds(1)] by simp
  next
    case SchedCharge
    then show ?thesis using account [OF charge_inv(1) [OF sc] account_rounds(3)] by simp
  next
    case SchedComplete
    then show ?thesis using account [OF charge_inv(2) [OF sc] account_rounds(4)] by simp
  next
    case (SchedNewSta x)
    then show ?thesis using account [of "?a\<lparr>stas := (stas ?a)(x := new_airtime_sta ?a)\<rparr>"] sc
      by (simp add: sched_inv_def same_rounds_def new_airtime_sta_def)
  next
    case (SchedWeight x w)
    then show ?thesis using account [of "?a\<lparr>stas := (stas ?a)(x := set_airtime_weight w (stas ?a x))\<rparr>"] sc
      by (simp add: sched_inv_def same_rounds_def set_airtime_weight_def)
  qed
qed

lemma sched_run_inv: "air_inv S \<Longrightarrow> \<exists>S'. sched_run ect dsfield es S = Some S' \<and> air_inv S'"
proof (induction es arbitrary: S)
  case (Cons e es)
  show ?case
  proof (cases "sched_allowed S e")
    case True
    then obtain S1 where "sched_step ect dsfield e S = Some S1" "air_inv S1" using sched_step_inv Cons.prems by blast
    with Cons.IH True show ?thesis by auto
  qed (use Cons in auto)
qed simp


definition air_start :: "airtime_local \<Rightarrow> txq_local \<Rightarrow> fq \<Rightarrow> air_sys" where
  "air_start a s q = \<lparr>air_local = a, air_txq = sys_start s q, air_given = (\<lambda>_. [])\<rparr>"

lemma air_start_inv:
  assumes "ieee80211_txq_setup_flows flows_ok bitmap_ok cvars_ok vht w s = Some (w', s', q)" "uint (txq_quantum w) < 2 ^ 31"
    and "active_txqs s = (\<lambda>_. [])"
  shows "air_inv (air_start (alloc_hw_airtime aql fairness) s' q)"
proof -
  have "active_txqs s' = (\<lambda>_. [])"
    using assms(1,3) by (auto simp: ieee80211_txq_setup_flows_def Let_def bind_eq_Some_conv split: if_splits prod.splits)
  then show ?thesis using setup_inv [OF assms(1,2)]
    by (simp add: air_inv_def air_start_def sys_start_def sched_inv_def air_sched_def alloc_hw_airtime_def)
qed

text \<open>C4: The transmit queues and the scheduler together, over every sequence of events (queues that come and go, frames
  enqueued and dequeued, rounds, queues asked for, returned and checked, airtime reported, stations and
  weights changed): every operation returns, no frame is lost or duplicated, every list holds queues of its category once, and within
  one round no queue is given twice.\<close>

theorem sched_run_safe:
  assumes "ieee80211_txq_setup_flows flows_ok bitmap_ok cvars_ok vht w s = Some (w', s', q)" "uint (txq_quantum w) < 2 ^ 31"
    and "active_txqs s = (\<lambda>_. [])"
  shows "\<exists>S. sched_run ect dsfield es (air_start (alloc_hw_airtime aql fairness) s' q) = Some S \<and> conserved (air_txq S) \<and>
     sched_inv (air_sched S) \<and> (\<forall>ac. distinct (air_given S ac))"
  using sched_run_inv [OF air_start_inv [OF assms]] by (fastforce simp: air_inv_def sys_inv_def)


section \<open>Pending airtime\<close>


























section \<open>Examples\<close>

text \<open>Two stations with a queue each; the first is in debt, so the second gets its turn first.\<close>

definition demo_sched :: sched where
  "demo_sched =
     (let a = alloc_hw_airtime True True;
          a = upd_airtime 0 2 (\<lambda>I. I\<lparr>deficit := - 100\<rparr>) a;
          a = a\<lparr>schedule_round := (\<lambda>_. 1)\<rparr>
      in (a, demo_local\<lparr>txqs := (\<lambda>t. zeroed_txq\<lparr>txq_ac := 2, txq_sta := Some t\<rparr>), active_txqs := (\<lambda>_. [])(2 := [0, 1])\<rparr>))"

lemma demo_sched_inv: "sched_inv (fst demo_sched, snd demo_sched)"
  by (simp add: demo_sched_def Let_def sched_inv_def alloc_hw_airtime_def upd_airtime_def)

theorem next_txq_total_witness:
  "\<exists>r a' s'. ieee80211_next_txq 2 (fst demo_sched, snd demo_sched) = Some (r, a', s') \<and> sched_inv (a', s') \<and>
    (case r of
       Some t \<Rightarrow>
         t \<in> set (active_txqs (snd demo_sched) 2) \<and> txq_round (fst demo_sched) t \<noteq> schedule_round (fst demo_sched) 2 \<and>
         txq_round a' t = schedule_round (fst demo_sched) 2 \<and>
         set (active_txqs s' 2) = set (active_txqs (snd demo_sched) 2) - {t} \<and>
         ieee80211_txq_airtime_check (fst demo_sched) (txqs (snd demo_sched) t) \<and>
         (\<forall>x. txq_sta (txqs (snd demo_sched) t) = Some x \<longrightarrow> 0 \<le> sint (ieee80211_sta_deficit a' x 2))
     | None \<Rightarrow>
         set (active_txqs s' 2) = set (active_txqs (snd demo_sched) 2) \<and>
         (schedule_round (fst demo_sched) 2 = 0 \<or>
          (\<forall>t \<in> set (active_txqs (snd demo_sched) 2). txq_sta (txqs (snd demo_sched) t) \<noteq> None \<and>
             \<not> ieee80211_txq_airtime_check (fst demo_sched) (txqs (snd demo_sched) t)) \<or>
          (\<exists>t rest. active_txqs s' 2 = t # rest \<and> txq_round (fst demo_sched) t = schedule_round (fst demo_sched) 2)))"
  by (rule next_txq_total [OF demo_sched_inv])

theorem sched_run_safe_witness:
  "\<exists>S. sched_run (\<lambda>_. False) (\<lambda>_. 0)
       [SchedNewSta 3, SchedTxq (TxqInit True False False (Some 3) 0 0), SchedTxq (TxqEnqueue 0 77 100 [demo_skb 7]), SchedTxqAdd 5 0 True,
        SchedStart 2, SchedNext 2, SchedTxq (TxqDequeue 0 40000 False), SchedCharge (Some 3) 2 300, SchedTxqAdd 5 0 False, SchedNext 2]
       (air_start (alloc_hw_airtime True True) (fst (snd demo_start)) (snd (snd demo_start))) = Some S \<and>
     conserved (air_txq S) \<and> sched_inv (air_sched S) \<and> (\<forall>ac. distinct (air_given S ac))"
proof -
  have "active_txqs demo_local = (\<lambda>_. [])" by (simp add: demo_local_def)
  then show ?thesis by (rule sched_run_safe [OF demo_setup demo_quantum])
qed


end
