(* ===== verification/AirtimeFair.thy ===== *)
theory AirtimeFair
  imports AirtimeInv TxQueueProps
begin

text \<open>
  Airtime fairness: stations that always have frames get airtime in proportion to their weights, up to a bound that does
  not depend on how long they compete. The argument is that of the deficit round robin: the list is gone
  through in turns, so the numbers of credits of two stations differ by at most one, and what a station used is its credits times
  its weight but for the change of its deficit, which stays in a fixed range.
\<close>


section \<open>Serving\<close>

text \<open>What a driver does in a round: it starts it, takes the next queue, transmits frames of it for \<open>amount\<close>
  microseconds, and returns it with frames left.\<close>

definition serve :: "u64 \<Rightarrow> nat \<Rightarrow> u32 \<Rightarrow> fq \<Rightarrow> sched \<Rightarrow> (nat option \<times> sched) option" where
  "serve jiffies tid amount q st = do {
     (r, st) \<leftarrow> ieee80211_next_txq (ieee80211_ac_from_tid tid) (ieee80211_txq_schedule_start (ieee80211_ac_from_tid tid) st);
     case r of
       None \<Rightarrow> Some (None, st)
     | Some t \<Rightarrow>
         let (a, s) = ieee80211_return_txq jiffies t True q st
         in case txq_sta (txqs s t) of
              None \<Rightarrow> Some (None, a, s)
            | Some x \<Rightarrow> Some (Some x, ieee80211_sta_register_airtime jiffies x tid amount 0 a, s)
   }"

text \<open>Rounds in sequence, with the airtime every station used.\<close>

fun serve_run :: "nat \<Rightarrow> fq \<Rightarrow> (u64 \<times> u32) list \<Rightarrow> (nat \<Rightarrow> nat) \<times> sched \<Rightarrow> ((nat \<Rightarrow> nat) \<times> sched) option" where
  "serve_run tid q [] (used, st) = Some (used, st)"
| "serve_run tid q ((jiffies, amount) # es) (used, st) = do {
     (r, st) \<leftarrow> serve jiffies tid amount q st;
     serve_run tid q es (case r of None \<Rightarrow> used | Some x \<Rightarrow> used(x := used x + unat amount), st)
   }"


section \<open>The books\<close>

text \<open>\<open>c\<close> counts the credits of a queue, \<open>d\<close> are the deficits at the start. The queues further back in the list have had
  one credit more.\<close>

definition turns :: "(nat \<Rightarrow> nat) \<Rightarrow> nat list \<Rightarrow> bool" where
  "turns c ts \<longleftrightarrow> (\<exists>k xs ys. ts = xs @ ys \<and> (\<forall>t \<in> set xs. c t = k) \<and> (\<forall>t \<in> set ys. c t = Suc k))"

definition sta_of :: "txq_local \<Rightarrow> nat \<Rightarrow> nat" where
  "sta_of s t = the (txq_sta (txqs s t))"

definition weight_of :: "sched \<Rightarrow> nat \<Rightarrow> int" where
  "weight_of = (\<lambda>(a, s) t. uint (airtime_weight (stas a (sta_of s t))))"

definition deficit_of :: "nat \<Rightarrow> sched \<Rightarrow> nat \<Rightarrow> int" where
  "deficit_of ac = (\<lambda>(a, s) t. sint (deficit (airtime (stas a (sta_of s t)) ac)))"

text \<open>Every queue belongs to a station of its own, with no airtime pending, and its deficit is in range.\<close>

definition competing :: "nat \<Rightarrow> int \<Rightarrow> sched \<Rightarrow> bool" where
  "competing ac A = (\<lambda>(a, s).
     sched_inv (a, s) \<and> \<not> AQL a \<and> AIRTIME_FAIRNESS a \<and> bit (airtime_flags a) AIRTIME_USE_TX \<and>
     inj_on (sta_of s) (set (active_txqs s ac)) \<and>
     (\<forall>t \<in> set (active_txqs s ac). txq_sta (txqs s t) \<noteq> None \<and> aql_tx_pending (airtime (stas a (sta_of s t)) ac) = 0 \<and>
        - A \<le> deficit_of ac (a, s) t \<and> deficit_of ac (a, s) t \<le> 65535))"

definition books :: "nat \<Rightarrow> (nat \<Rightarrow> int) \<Rightarrow> (nat \<Rightarrow> int) \<Rightarrow> (nat \<Rightarrow> nat) \<Rightarrow> (nat \<Rightarrow> nat) \<Rightarrow> sched \<Rightarrow> bool" where
  "books ac d w used c = (\<lambda>(a, s).
     turns c (active_txqs s ac) \<and>
     (\<forall>t \<in> set (active_txqs s ac). weight_of (a, s) t = w t \<and>
        deficit_of ac (a, s) t = d t + w t * int (c t) - int (used (sta_of s t))))"

definition waiting :: "nat \<Rightarrow> txq_local \<Rightarrow> nat set \<times> (nat \<Rightarrow> txq_info)" where
  "waiting ac s = (set (active_txqs s ac), txqs s)"

lemma turns_rotate:
  assumes "turns c (t # ts)" "t \<notin> set ts"
  shows "turns (c(t := Suc (c t))) (ts @ [t])"
proof -
  obtain k xs ys where k: "t # ts = xs @ ys" "\<forall>u \<in> set xs. c u = k" "\<forall>u \<in> set ys. c u = Suc k"
    using assms(1) unfolding turns_def by blast
  show ?thesis
  proof (cases xs)
    case Nil
    then have "\<forall>u \<in> set ts. c u = Suc k" "c t = Suc k" using k by auto
    then show ?thesis unfolding turns_def using assms(2)
      by (intro exI [of _ "Suc k"] exI [of _ ts] exI [of _ "[t]"]) auto
  next
    case (Cons u xs')
    then have "ts = xs' @ ys" "c t = k" "\<forall>u \<in> set xs'. c u = k" using k by auto
    then show ?thesis unfolding turns_def using assms(2) k(3)
      by (intro exI [of _ k] exI [of _ xs'] exI [of _ "ys @ [t]"]) auto
  qed
qed

lemma turns_le: "turns c ts \<Longrightarrow> t \<in> set ts \<Longrightarrow> u \<in> set ts \<Longrightarrow> c t \<le> Suc (c u)"
  unfolding turns_def by fastforce


section \<open>A turn of the search\<close>

lemma credit_fields:
  "airtime_weight (stas (credit_sta x c a) y) = airtime_weight (stas a y)"
  "deficit (airtime (stas (credit_sta x c a) y) b) =
     (if y = x \<and> b = c then deficit (airtime (stas a x) c) + ucast (airtime_weight (stas a x)) else deficit (airtime (stas a y) b))"
  "aql_tx_pending (airtime (stas (credit_sta x c a) y) b) = aql_tx_pending (airtime (stas a y) b)"
  "AQL (credit_sta x c a) = AQL a" "AIRTIME_FAIRNESS (credit_sta x c a) = AIRTIME_FAIRNESS a" "airtime_flags (credit_sta x c a) = airtime_flags a"
  by (simp_all add: credit_sta_def upd_airtime_def Let_def)

lemma turn_fair:
  assumes comp: "competing ac A (a, s)" and bk: "books ac d w used c (a, s)"
    and turn: "next_txq_turn ac head found (a, s) = Inr (head', found', a', s')"
  shows "competing ac A (a', s') \<and> (\<exists>c'. books ac d w used c' (a', s')) \<and> waiting ac s' = waiting ac s"
proof -
  have si: "sched_inv (a, s)" and noaql: "\<not> AQL a" using comp by (simp_all add: competing_def)
  obtain t ts where l: "active_txqs s ac = t # ts" using turn by (cases "active_txqs s ac") (auto simp: next_txq_turn_def)
  have ac: "txq_ac (txqs s t) = ac" and dt: "t \<notin> set ts" using sched_inv_listD [OF si, of ac] by (simp_all add: l)
  obtain x where x: "txq_sta (txqs s t) = Some x" using comp by (auto simp: competing_def l)
  have chk: "ieee80211_txq_airtime_check a X" for X using noaql by (simp add: ieee80211_txq_airtime_check_def)
  have def0: "ieee80211_sta_deficit a x ac = deficit (airtime (stas a x) ac)"
    using comp x by (auto simp: competing_def l ieee80211_sta_deficit_def sta_of_def Let_def)
  have neg: "sint (deficit (airtime (stas a x) ac)) < 0" and a': "a' = credit_sta x ac a" and s': "s' = list_move_tail_txq t ac s"
    using turn l x chk ac def0 by (auto simp: next_txq_turn_def Let_def split: if_splits)
  have act: "active_txqs s' ac = ts @ [t]" using move_tail_active [OF si l] by (simp add: s')
  have tx: "txqs s' = txqs s" by (simp add: s')
  have so: "sta_of s' = sta_of s" "sta_of s t = x" using x by (simp_all add: sta_of_def tx fun_eq_iff)
  have inj: "sta_of s u \<noteq> x" if "u \<in> set ts" for u using comp that dt so(2) by (auto simp: competing_def l inj_on_def)
  have df: "deficit_of ac (a', s') u = deficit_of ac (a, s) u + (if u = t then weight_of (a, s) t else 0)" if "u \<in> set (t # ts)" for u
    using that inj sint_credit [OF neg, of "airtime_weight (stas a x)"] so by (auto simp: deficit_of_def weight_of_def a' credit_fields)
  have w: "weight_of (a', s') u = weight_of (a, s) u" for u by (simp add: weight_of_def a' credit_fields so)
  have "0 \<le> weight_of (a, s) t" "weight_of (a, s) t < 65536" using uint_lt2p [of "airtime_weight (stas a x)"] by (simp_all add: weight_of_def so)
  then have rg: "- A \<le> deficit_of ac (a', s') u \<and> deficit_of ac (a', s') u \<le> 65535" if "u \<in> set (t # ts)" for u
    using that comp df [OF that] neg so by (auto simp: competing_def l deficit_of_def)
  have si': "sched_inv (a', s')" unfolding a' s' using move_tail_inv [OF credit_inv [OF si] ac] .
  have "competing ac A (a', s')" using comp rg si' by (auto simp: competing_def act l so tx a' credit_fields)
  moreover have "books ac d w used (c(t := Suc (c t))) (a', s')"
    using bk turns_rotate [of c t ts] dt df w so by (auto simp: books_def act l algebra_simps)
  ultimately show ?thesis using l act tx by (auto simp: waiting_def)
qed


text \<open>The search as a whole ends in a state with the same books, in which the first queue is taken or none.\<close>

definition fair_end :: "nat \<Rightarrow> int \<Rightarrow> (nat \<Rightarrow> int) \<Rightarrow> (nat \<Rightarrow> int) \<Rightarrow> (nat \<Rightarrow> nat) \<Rightarrow> nat set \<times> (nat \<Rightarrow> txq_info) \<Rightarrow> nat option \<times> sched \<Rightarrow> bool" where
  "fair_end ac A d w used Q r \<longleftrightarrow>
     (\<exists>c a s. competing ac A (a, s) \<and> books ac d w used c (a, s) \<and> waiting ac s = Q \<and>
        (r = (None, a, s) \<or>
         (\<exists>t ts. active_txqs s ac = t # ts \<and> r = next_txq_take ac t (a, s) \<and> 0 \<le> deficit_of ac (a, s) t)))"

lemma turn_end_fair:
  assumes comp: "competing ac A (a, s)" and bk: "books ac d w used c (a, s)"
    and turn: "next_txq_turn ac head found (a, s) = Inl r"
  shows "fair_end ac A d w used (waiting ac s) r"
proof -
  have ac: "txq_ac (txqs s t) = ac" if "active_txqs s ac = t # ts" for t ts
    using comp sched_inv_listD [of a s ac] that by (simp add: competing_def)
  have "r = (None, a, s) \<or> (\<exists>t ts. active_txqs s ac = t # ts \<and> r = next_txq_take ac t (a, s) \<and> 0 \<le> deficit_of ac (a, s) t)"
    using turn comp ac
    by (auto simp: next_txq_turn_def competing_def deficit_of_def sta_of_def ieee80211_sta_deficit_def Let_def
        split: list.splits if_splits option.splits)
  then show ?thesis using comp bk unfolding fair_end_def by blast
qed

lemma loop_fair:
  assumes "next_txq_loop ac head found st = Some r"
  shows "competing ac A st \<longrightarrow> books ac d w used c st \<longrightarrow> fair_end ac A d w used (waiting ac (snd st)) r"
proof -
  have "\<forall>c. competing ac A st \<longrightarrow> books ac d w used c st \<longrightarrow> fair_end ac A d w used (waiting ac (snd st)) r"
  proof (rule next_txq_loop.raw_induct [OF _ assms])
    fix f ac head found st r
    assume IH: "\<And>ac head found st r. f ac head found st = Some r \<Longrightarrow>
        \<forall>c. competing ac A st \<longrightarrow> books ac d w used c st \<longrightarrow> fair_end ac A d w used (waiting ac (snd st)) r"
      and body: "(case next_txq_turn ac head found st of Inl r \<Rightarrow> Some r | Inr (head, found, st) \<Rightarrow> f ac head found st) = Some r"
    obtain a s where st: "st = (a, s)" by fastforce
    show "\<forall>c. competing ac A st \<longrightarrow> books ac d w used c st \<longrightarrow> fair_end ac A d w used (waiting ac (snd st)) r"
    proof (intro allI impI)
      fix c assume h: "competing ac A st" "books ac d w used c st"
      show "fair_end ac A d w used (waiting ac (snd st)) r"
      proof (cases "next_txq_turn ac head found st")
        case (Inl r')
        then show ?thesis using turn_end_fair h body by (simp add: st)
      next
        case (Inr p)
        obtain head' found' a' s' where p: "p = (head', found', a', s')" by (cases p) auto
        note t = turn_fair [OF h [unfolded st] Inr [unfolded st p]]
        then show ?thesis using IH [of ac head' found' "(a', s')" r] body Inr p by (auto simp: st)
      qed
    qed
  qed
  then show ?thesis by blast
qed


section \<open>A round\<close>

text \<open>Rounds do not matter for the books.\<close>

definition same_accounts :: "airtime_local \<Rightarrow> airtime_local \<Rightarrow> bool" where
  "same_accounts a a' \<longleftrightarrow> stas a' = stas a \<and> AQL a' = AQL a \<and> AIRTIME_FAIRNESS a' = AIRTIME_FAIRNESS a \<and> airtime_flags a' = airtime_flags a"

lemma same_accounts_fair:
  assumes "same_accounts a a'"
  shows "competing ac A (a', s) = competing ac A (a, s)" "books ac d w used c (a', s) = books ac d w used c (a, s)"
  using assms by (simp_all add: same_accounts_def competing_def books_def sched_inv_def deficit_of_def weight_of_def)

lemma start_accounts: "ieee80211_txq_schedule_start ac (a, s) = (a', s') \<Longrightarrow> same_accounts a a' \<and> s' = s"
  by (auto simp: ieee80211_txq_schedule_start_def same_accounts_def Let_def split: if_splits)

lemma sint_use:
  assumes "0 \<le> sint d" "uint u \<le> 2 ^ 30"
  shows "sint (d - u :: u32) = sint d - uint u"
proof -
  have d: "sint d < 2 ^ 31" using sint_less [of d] by simp
  have u: "0 \<le> uint u" by simp
  have "signed_take_bit 31 (uint u) = uint u"
    by (rule signed_take_bit_int_eq_self) (rule order_trans [OF _ u], simp, use assms(2) in simp)
  then have "sint u = uint u" by (simp add: sint_uint)
  moreover have "signed_take_bit 31 (sint d - uint u) = sint d - uint u"
  proof (rule signed_take_bit_int_eq_self)
    show "sint d - uint u < 2 ^ 31" using d u by linarith
    have "- (2 ^ 31) \<le> - (2 ^ 30 :: int)" by simp
    then show "- (2 ^ 31) \<le> sint d - uint u" using assms by linarith
  qed
  ultimately show ?thesis by (simp add: sint_word_ariths(2))
qed

text \<open>Using airtime: the account of the station after the queue is returned and the airtime registered.\<close>

lemma keep_active_now: "last_active (airtime (stas a x) ac) = jiffies \<Longrightarrow> ieee80211_sta_keep_active jiffies a x ac"
  by (simp add: ieee80211_sta_keep_active_def time_after_def signed_before_def)

lemma use_account:
  assumes "bit (airtime_flags a) AIRTIME_USE_TX" "a1 = upd_airtime x (ieee80211_ac_from_tid tid) (\<lambda>I. I\<lparr>last_active := jiffies\<rparr>) a"
    and "a' = ieee80211_sta_register_airtime jiffies x tid amount 0 a1"
  shows "deficit (airtime (stas a' y) b) = deficit (airtime (stas a y) b) - (if y = x \<and> b = ieee80211_ac_from_tid tid then amount else 0)"
    "aql_tx_pending (airtime (stas a' y) b) = aql_tx_pending (airtime (stas a y) b)"
    "airtime_weight (stas a' y) = airtime_weight (stas a y)"
    "AQL a' = AQL a" "AIRTIME_FAIRNESS a' = AIRTIME_FAIRNESS a" "airtime_flags a' = airtime_flags a"
proof -
  let ?ac = "ieee80211_ac_from_tid tid"
  define a2 where "a2 = upd_airtime x ?ac (\<lambda>X. X\<lparr>tx_airtime := tx_airtime X + ucast amount, rx_airtime := rx_airtime X + ucast (0 :: u32)\<rparr>) a1"
  have "ieee80211_sta_keep_active jiffies a2 x ?ac"
    by (rule keep_active_now) (simp add: a2_def assms(2) upd_airtime_def Let_def)
  then have a': "a' = upd_airtime x ?ac (\<lambda>X. X\<lparr>deficit := deficit X - amount\<rparr>) a2"
    using assms(1) unfolding assms(3) ieee80211_sta_register_airtime_def
    by (simp add: a2_def Let_def) (simp add: assms(2) upd_airtime_def Let_def)
  show "deficit (airtime (stas a' y) b) = deficit (airtime (stas a y) b) - (if y = x \<and> b = ieee80211_ac_from_tid tid then amount else 0)"
    "aql_tx_pending (airtime (stas a' y) b) = aql_tx_pending (airtime (stas a y) b)"
    "airtime_weight (stas a' y) = airtime_weight (stas a y)"
    "AQL a' = AQL a" "AIRTIME_FAIRNESS a' = AIRTIME_FAIRNESS a" "airtime_flags a' = airtime_flags a"
    by (simp_all add: a' a2_def assms(2) upd_airtime_def Let_def)
qed


text \<open>A queue that is taken and returned with frames left is where it was.\<close>

lemma del_add:
  assumes "sched_inv (a, s)" "active_txqs s ac = t # ts"
  shows "list_add_txq t ac (list_del_txq t s) = s"
proof -
  have dt: "t \<notin> set ts" and ac: "txq_ac (txqs s t) = ac" using sched_inv_listD [OF assms(1), of ac] by (simp_all add: assms(2))
  have "t \<notin> set (active_txqs s c)" if "c \<noteq> ac" for c using assms(1) that ac by (auto simp: sched_inv_def)
  then have "(\<lambda>c. filter ((\<noteq>) t) (active_txqs s c))(ac := t # filter ((\<noteq>) t) (active_txqs s ac)) = active_txqs s"
    using assms(2) dt by (auto simp: fun_eq_iff intro!: filter_True)
  then show ?thesis by (simp add: list_add_txq_def list_del_txq_def)
qed

lemma return_taken:
  assumes comp: "competing ac A (a, s)" and l: "active_txqs s ac = t # ts" and x: "txq_sta (txqs s t) = Some x"
  shows "ieee80211_return_txq jiffies t True q (a, list_del_txq t s) = (upd_airtime x ac (\<lambda>I. I\<lparr>last_active := jiffies\<rparr>) a, s)"
proof -
  have si: "sched_inv (a, s)" and bit: "bit (airtime_flags a) 0" and fair: "AIRTIME_FAIRNESS a" using comp by (simp_all add: competing_def)
  have fl: "airtime_flags a \<noteq> 0" using bit by auto
  have ac: "txq_ac (txqs s t) = ac" using sched_inv_listD [OF si, of ac] by (simp add: l)
  have "\<not> txq_linked t (list_del_txq t s)" by (simp add: txq_linked_def list_del_txq_def)
  then show ?thesis using x ac fl fair del_add [OF si l]
    by (simp add: ieee80211_return_txq_def schedule_txq_def ieee80211_txq_set_active_def Let_def)
qed

lemma use_fair:
  assumes comp: "competing ac A (a, s)" and bk: "books ac d w used c (a, s)" and l: "active_txqs s ac = t # ts"
    and x: "txq_sta (txqs s t) = Some x" and nonneg: "0 \<le> deficit_of ac (a, s) t" and ac: "ac = ieee80211_ac_from_tid tid"
    and amount: "uint amount \<le> A" "A \<le> 2 ^ 30"
    and a': "a' = ieee80211_sta_register_airtime jiffies x tid amount 0 (upd_airtime x ac (\<lambda>I. I\<lparr>last_active := jiffies\<rparr>) a)"
  shows "competing ac A (a', s)" "books ac d w (used(x := used x + unat amount)) c (a', s)"
proof -
  have flag: "bit (airtime_flags a) AIRTIME_USE_TX" and si: "sched_inv (a, s)" using comp by (simp_all add: competing_def)
  note f = use_account [OF flag refl a' [unfolded ac]]
  have si': "sched_inv (a', s)" unfolding a' using register_inv [OF upd_airtime_inv [OF si]] .
  have so: "sta_of s t = x" using x by (simp add: sta_of_def)
  have inj: "sta_of s u = x \<longleftrightarrow> u = t" if "u \<in> set (t # ts)" for u using comp that so by (auto simp: competing_def l inj_on_def)
  have le: "uint amount \<le> 2 ^ 30" using amount by linarith
  have df: "deficit_of ac (a', s) u = deficit_of ac (a, s) u - (if u = t then uint amount else 0)" if "u \<in> set (t # ts)" for u
    using inj [OF that] sint_use [OF _ le, of "deficit (airtime (stas a x) ac)"] nonneg so
    by (auto simp: deficit_of_def f ac)
  have w: "weight_of (a', s) u = weight_of (a, s) u" for u by (simp add: weight_of_def f)
  have "- A \<le> deficit_of ac (a', s) u \<and> deficit_of ac (a', s) u \<le> 65535" if "u \<in> set (t # ts)" for u
  proof -
    have "- A \<le> deficit_of ac (a, s) u" "deficit_of ac (a, s) u \<le> 65535" using comp that by (auto simp: competing_def l)
    moreover have "0 \<le> uint amount" by simp
    ultimately show ?thesis using df [OF that] nonneg amount(1) by (cases "u = t") (simp_all only: refl if_True if_False, linarith+)
  qed
  then have rg: "\<forall>u \<in> set (t # ts). - A \<le> deficit_of ac (a', s) u \<and> deficit_of ac (a', s) u \<le> 65535" by blast
  show "competing ac A (a', s)" using comp rg si' by (simp add: competing_def l f)
  have "deficit_of ac (a', s) u = d u + w u * int (c u) - int ((used(x := used x + unat amount)) (sta_of s u))" if "u \<in> set (t # ts)" for u
  proof -
    have "deficit_of ac (a, s) u = d u + w u * int (c u) - int (used (sta_of s u))" using bk that by (auto simp: books_def l)
    then show ?thesis using df [OF that] inj [OF that] so by (cases "u = t") simp_all
  qed
  then show "books ac d w (used(x := used x + unat amount)) c (a', s)"
    using bk w unfolding books_def l by (simp only: case_prod_conv l) blast
qed

lemma serve_fair:
  assumes comp: "competing ac A st" and bk: "books ac d w used c st" and ac: "ac = ieee80211_ac_from_tid tid"
    and amount: "uint amount \<le> A" "A \<le> 2 ^ 30"
  shows "\<exists>r a' s' c'. serve jiffies tid amount q st = Some (r, a', s') \<and> competing ac A (a', s') \<and>
    books ac d w (case r of None \<Rightarrow> used | Some x \<Rightarrow> used(x := used x + unat amount)) c' (a', s') \<and>
    waiting ac s' = waiting ac (snd st)"
proof -
  obtain a s where st: "st = (a, s)" by fastforce
  obtain a0 where start: "ieee80211_txq_schedule_start ac (a, s) = (a0, s)" "same_accounts a a0"
    using start_accounts by (metis surj_pair)
  have c0: "competing ac A (a0, s)" "books ac d w used c (a0, s)" using comp bk same_accounts_fair [OF start(2)] by (simp_all add: st)
  then have "sched_inv (a0, s)" by (simp add: competing_def)
  then obtain r where n: "ieee80211_next_txq ac (a0, s) = Some r" using next_txq_inv by blast
  have "fair_end ac A d w used (waiting ac s) r"
    using n c0 loop_fair [of ac None False "(a0, s)" r A d w used c]
    by (auto simp: ieee80211_next_txq_def fair_end_def split: if_splits)
  then obtain c1 a1 s1 where e: "competing ac A (a1, s1)" "books ac d w used c1 (a1, s1)" "waiting ac s1 = waiting ac s"
      "r = (None, a1, s1) \<or> (\<exists>t ts. active_txqs s1 ac = t # ts \<and> r = next_txq_take ac t (a1, s1) \<and> 0 \<le> deficit_of ac (a1, s1) t)"
    unfolding fair_end_def by blast
  show ?thesis
  proof (cases "fst r")
    case None
    then have "r = (None, a1, s1)" using e(4) by (auto simp: next_txq_take_def split: if_splits)
    then show ?thesis using n start(1) e by (auto simp: serve_def st ac)
  next
    case (Some t)
    let ?a = "a1\<lparr>txq_round := (txq_round a1)(t := schedule_round a1 ac)\<rparr>"
    obtain ts where t: "active_txqs s1 ac = t # ts" "r = (Some t, ?a, list_del_txq t s1)" "0 \<le> deficit_of ac (a1, s1) t"
      using Some e(4) by (auto simp: next_txq_take_def split: if_splits)
    have acc: "same_accounts a1 ?a" by (simp add: same_accounts_def)
    note c1 = e(1,2) [folded same_accounts_fair [OF acc]]
    obtain x where x: "txq_sta (txqs s1 t) = Some x" using e(1) t(1) by (auto simp: competing_def)
    have nn: "0 \<le> deficit_of ac (?a, s1) t" using t(3) by (simp add: deficit_of_def)
    have "serve jiffies tid amount q st = Some (Some x, ieee80211_sta_register_airtime jiffies x tid amount 0
        (upd_airtime x ac (\<lambda>I. I\<lparr>last_active := jiffies\<rparr>) ?a), s1)"
      using n start(1) t(2) return_taken [OF c1(1) t(1) x] x by (simp add: serve_def st ac)
    then show ?thesis using use_fair [OF c1 t(1) x nn ac amount refl, of jiffies] e(3) by (auto simp: st)
  qed
qed


lemma serve_run_fair:
  assumes "competing ac A st" "books ac d w used c st" "ac = ieee80211_ac_from_tid tid" "A \<le> 2 ^ 30"
    and "\<forall>(jiffies, amount) \<in> set es. uint amount \<le> A"
  shows "\<exists>used' a' s' c'. serve_run tid q es (used, st) = Some (used', a', s') \<and> competing ac A (a', s') \<and>
    books ac d w used' c' (a', s') \<and> waiting ac s' = waiting ac (snd st)"
  using assms
proof (induction es arbitrary: used st c)
  case (Cons e es)
  obtain jiffies amount where e: "e = (jiffies, amount)" by fastforce
  have "uint amount \<le> A" using Cons.prems(5) e by simp
  from serve_fair [OF Cons.prems(1-3) this Cons.prems(4), of jiffies q] obtain r a1 s1 c1
    where r: "serve jiffies tid amount q st = Some (r, a1, s1)" "competing ac A (a1, s1)"
      "books ac d w (case r of None \<Rightarrow> used | Some x \<Rightarrow> used(x := used x + unat amount)) c1 (a1, s1)" "waiting ac s1 = waiting ac (snd st)"
    by blast
  from Cons.IH [OF r(2,3) Cons.prems(3,4)] Cons.prems(5) show ?case by (simp add: e r(1,4))
qed (cases st; auto)

lemma fair_bound:
  fixes u v c d wx wy dx dy ex ey B :: int
  assumes "u = dx + wx * c - ex" "v = dy + wy * d - ey" "\<bar>c - d\<bar> \<le> 1" "\<bar>dx - ex\<bar> \<le> B" "\<bar>dy - ey\<bar> \<le> B" "0 \<le> wx" "0 \<le> wy"
  shows "\<bar>u * wy - v * wx\<bar> \<le> wx * wy + B * (wx + wy)"
proof -
  have e: "u * wy - v * wx = wx * wy * (c - d) + ((dx - ex) * wy - (dy - ey) * wx)" unfolding assms(1,2) by (simp add: algebra_simps)
  have "\<bar>wx * wy * (c - d)\<bar> \<le> wx * wy * 1" unfolding abs_mult using assms(3,6,7) by (intro mult_mono) simp_all
  moreover have "\<bar>(dx - ex) * wy\<bar> \<le> B * wy" "\<bar>(dy - ey) * wx\<bar> \<le> B * wx"
    unfolding abs_mult using assms(4-7) by (simp_all add: mult_right_mono)
  ultimately show ?thesis unfolding e by (simp add: distrib_left)
qed

text \<open>C14: Stations that always have frames share the airtime in proportion to their weights, when they compete as \<open>competing\<close> says:
  airtime fairness on and airtime queue limits off, nothing pending, transmit airtime counted, and one queue per station in the
  access category (a station with both TIDs of a category active is credited twice in a pass). Then over any number of rounds what two of them used,
  each divided by its weight, differs by no more than a bound that depends only on the weights, the largest amount used in one go
  and the range of the deficits. Every round returns.\<close>

theorem airtime_fair:
  assumes comp: "competing ac A (a, s)" and ac: "ac = ieee80211_ac_from_tid tid" and A: "A \<le> 2 ^ 30"
    and amounts: "\<forall>(jiffies, amount) \<in> set es. uint amount \<le> A"
    and tu: "t \<in> set (active_txqs s ac)" "u \<in> set (active_txqs s ac)"
  shows "\<exists>used st. serve_run tid q es (\<lambda>_. 0, a, s) = Some (used, st) \<and>
    \<bar>int (used (sta_of s t)) * weight_of (a, s) u - int (used (sta_of s u)) * weight_of (a, s) t\<bar>
      \<le> weight_of (a, s) t * weight_of (a, s) u + (A + 65535) * (weight_of (a, s) t + weight_of (a, s) u)"
proof -
  let ?w = "weight_of (a, s)" and ?d = "deficit_of ac (a, s)"
  have "turns (\<lambda>_. 0) (active_txqs s ac)" unfolding turns_def by (intro exI [of _ 0] exI [of _ "active_txqs s ac"] exI [of _ "[]"]) simp
  then have "books ac ?d ?w (\<lambda>_. 0) (\<lambda>_. 0) (a, s)" by (simp add: books_def)
  from serve_run_fair [OF comp this ac A amounts, of q] obtain used a' s' c
    where r: "serve_run tid q es (\<lambda>_. 0, a, s) = Some (used, a', s')" "competing ac A (a', s')" "books ac ?d ?w used c (a', s')"
      "waiting ac s' = waiting ac s" by auto
  have so: "sta_of s' = sta_of s" and set: "set (active_txqs s' ac) = set (active_txqs s ac)"
    using r(4) by (simp_all add: waiting_def sta_of_def fun_eq_iff)
  have eq: "int (used (sta_of s v)) = ?d v + ?w v * int (c v) - deficit_of ac (a', s') v" if "v \<in> set (active_txqs s ac)" for v
    using that r(3) so set by (simp add: books_def)
  have rg: "\<bar>?d v - deficit_of ac (a', s') v\<bar> \<le> A + 65535" if "v \<in> set (active_txqs s ac)" for v
  proof -
    have "- A \<le> ?d v" "?d v \<le> 65535" "- A \<le> deficit_of ac (a', s') v" "deficit_of ac (a', s') v \<le> 65535"
      using that comp r(2) set by (simp_all add: competing_def)
    then show ?thesis by linarith
  qed
  have "\<bar>int (c t) - int (c u)\<bar> \<le> 1"
    using r(3) turns_le [of c "active_txqs s' ac" t u] turns_le [of c "active_txqs s' ac" u t] tu set by (auto simp: books_def abs_le_iff)
  from fair_bound [OF eq [OF tu(1)] eq [OF tu(2)] this rg [OF tu(1)] rg [OF tu(2)]] r(1)
  show ?thesis by (simp add: weight_of_def)
qed


text \<open>Two stations, the second with twice the weight of the first; the first is in debt.\<close>

definition demo_race :: sched where
  "demo_race =
     (let a = alloc_hw_airtime False True;
          a = a\<lparr>stas := (stas a)(1 := set_airtime_weight 512 (stas a 1))\<rparr>;
          a = upd_airtime 0 2 (\<lambda>I. I\<lparr>deficit := - 700\<rparr>) a
      in (a, demo_local\<lparr>txqs := (\<lambda>t. zeroed_txq\<lparr>txq_ac := 2, txq_sta := Some t\<rparr>), active_txqs := (\<lambda>_. [])(2 := [0, 1])\<rparr>))"

lemma demo_race_competing: "competing 2 5000 demo_race"
  by (simp add: demo_race_def Let_def competing_def sched_inv_def deficit_of_def sta_of_def alloc_hw_airtime_def upd_airtime_def
      set_airtime_weight_def nth_Cons_numeral)

theorem airtime_fair_witness:
  "\<exists>used st. serve_run 0 demo_fq [(0, 5000), (3, 700), (5, 5000), (9, 2400)] (\<lambda>_. 0, demo_race) = Some (used, st) \<and>
    \<bar>int (used 0) * 512 - int (used 1) * 256\<bar> \<le> 256 * 512 + (5000 + 65535) * (256 + 512)"
proof -
  obtain a s where st: "demo_race = (a, s)" by fastforce
  have w: "weight_of (a, s) 0 = 256" "weight_of (a, s) 1 = 512" "sta_of s 0 = 0" "sta_of s 1 = 1" "active_txqs s 2 = [0, 1]"
    using st by (auto simp: demo_race_def Let_def weight_of_def sta_of_def alloc_hw_airtime_def upd_airtime_def set_airtime_weight_def)
  have ac: "2 = ieee80211_ac_from_tid 0" by (simp add: ieee80211_ac_from_tid_def ieee802_1d_to_ac_def)
  show ?thesis
    using airtime_fair [OF demo_race_competing [unfolded st] ac, of "[(0, 5000), (3, 700), (5, 5000), (9, 2400)]" 0 1 demo_fq]
    by (simp add: w [simplified] st del: serve_run.simps)
qed

end
