(* ===== verification/TxBa.thy ===== *)
theory TxBa
  imports RxBa TxQueue
begin

text \<open>
  The block-ack sessions of the transmitting side: \<open>struct tid_ampdu_tx\<close> (sta_info.h), net/mac80211/agg-tx.c, the
  transmit half of the session work, the teardown and DELBA processing of ht.c, and what tx.c and status.c do with a session.
  A session goes from a request (\<open>tid_start_tx\<close>) over the driver and the peer, in either order, to operational, and over the
  driver to its end; while it is in between the transmit queue of its TID is stopped. The state bits are fields.
  Calls that leave the component are appended to \<open>agg_out\<close>; the answers of the driver are arguments.
\<close>


section \<open>State\<close>

record tid_ampdu_tx =
  agg_pending :: "nat list"
  drv_ready :: bool
  response_received :: bool
  operational :: bool
  stopping :: bool
  want_start :: bool
  want_stop :: bool
  start_cb :: bool
  stop_cb :: bool
  sent_addba :: bool
  agg_last_tx :: u64
  agg_timeout :: u16
  agg_token :: u8
  stop_initiator :: u16
  agg_tx_stop :: bool
  agg_buf_size :: u16
  agg_ssn :: u16
  agg_amsdu :: bool
  failed_bar_ssn :: u16
  bar_pending :: bool
  addba_resp_timer :: "u64 option"
  agg_session_timer :: "u64 option"

text \<open>What the sessions use of the transmit queue of a TID: its flags, and how many fragments wait on it.\<close>

record agg_txq =
  q_stop :: bool
  q_ampdu :: bool
  q_no_amsdu :: bool
  q_frags :: nat

datatype agg_action =
    IEEE80211_AMPDU_TX_START
  | IEEE80211_AMPDU_TX_STOP_CONT
  | IEEE80211_AMPDU_TX_STOP_FLUSH
  | IEEE80211_AMPDU_TX_STOP_FLUSH_CONT
  | IEEE80211_AMPDU_TX_OPERATIONAL

datatype agg_effect =
    AggDrvAction agg_action nat u16 bool u16  \<comment> \<open>tid, size, A-MSDU, starting number\<close>
  | AggSendAddba nat "u8 list"
  | AggSendDelba nat u16 u16                  \<comment> \<open>tid, initiator, reason\<close>
  | AggSendBar nat u16
  | AggWakeTxq nat

text \<open>The station. The hardware queues have a stop counter and a stop flag for aggregation, and frames pending on them.\<close>

record agg_sta =
  tid_tx :: "nat \<Rightarrow> tid_ampdu_tx option"
  tid_start_tx :: "nat \<Rightarrow> tid_ampdu_tx option"
  last_addba_req_time :: "nat \<Rightarrow> u64"
  addba_req_num :: "nat \<Rightarrow> u8"
  dialog_token_allocator :: u8
  agg_work :: bool
  sta_block_ba :: bool
  sta_mfp :: bool
  sta_authorized :: bool
  sta_txq :: "nat \<Rightarrow> agg_txq option"
  tid_seq :: "nat \<Rightarrow> u16"
  agg_queue_stop :: "nat \<Rightarrow> int"
  agg_stopped :: "nat \<Rightarrow> bool"
  local_pending :: "nat \<Rightarrow> nat list"
  agg_out :: "agg_effect list"

text \<open>What does not change: capabilities, hardware flags, the kind of interface and its queues.\<close>

record agg_env =
  agg_caps :: ba_caps
  vht_supported :: bool
  has_ampdu_action :: bool
  AMPDU_AGGREGATION :: bool
  TX_AMPDU_SETUP_IN_HW :: bool
  vif_type :: nat
  reserved_tid :: u8
  max_tx_aggregation_subframes :: u16
  hw_queue :: "nat \<Rightarrow> nat"

abbreviation (input) WLAN_BACK_INITIATOR :: u16 where "WLAN_BACK_INITIATOR \<equiv> 1"
abbreviation (input) WLAN_REASON_QSTA_NOT_USE :: u16 where "WLAN_REASON_QSTA_NOT_USE \<equiv> 37"
abbreviation (input) EINVAL :: int where "EINVAL \<equiv> 22"
abbreviation (input) ENOENT :: int where "ENOENT \<equiv> 2"
abbreviation (input) EBUSY :: int where "EBUSY \<equiv> 16"
abbreviation (input) EAGAIN :: int where "EAGAIN \<equiv> 11"
abbreviation (input) ENOMEM :: int where "ENOMEM \<equiv> 12"
abbreviation (input) EALREADY :: int where "EALREADY \<equiv> 114"
abbreviation (input) HT_AGG_MAX_RETRIES :: u8 where "HT_AGG_MAX_RETRIES \<equiv> 15"
abbreviation (input) HT_AGG_BURST_RETRIES :: u8 where "HT_AGG_BURST_RETRIES \<equiv> 3"

text \<open>\<open>15 * HZ\<close> and \<open>HZ\<close> with \<open>HZ\<close> = 100.\<close>

abbreviation (input) HT_AGG_RETRIES_PERIOD :: u64 where "HT_AGG_RETRIES_PERIOD \<equiv> 1500"
abbreviation (input) ADDBA_RESP_INTERVAL :: u64 where "ADDBA_RESP_INTERVAL \<equiv> 100"
abbreviation (input) STA_MAX_TX_BUFFER :: nat where "STA_MAX_TX_BUFFER \<equiv> 64"

definition upd_tid_tx :: "nat \<Rightarrow> (tid_ampdu_tx \<Rightarrow> tid_ampdu_tx) \<Rightarrow> agg_sta \<Rightarrow> agg_sta" where
  "upd_tid_tx tid g s = s\<lparr>tid_tx := (tid_tx s)(tid := map_option g (tid_tx s tid))\<rparr>"

definition upd_agg_txq :: "nat \<Rightarrow> (agg_txq \<Rightarrow> agg_txq) \<Rightarrow> agg_sta \<Rightarrow> agg_sta" where
  "upd_agg_txq tid g s = s\<lparr>sta_txq := (sta_txq s)(tid := map_option g (sta_txq s tid))\<rparr>"

definition emit :: "agg_effect \<Rightarrow> agg_sta \<Rightarrow> agg_sta" where
  "emit e s = s\<lparr>agg_out := agg_out s @ [e]\<rparr>"


section \<open>Queues\<close>

definition ieee80211_send_bar :: "nat \<Rightarrow> u16 \<Rightarrow> agg_sta \<Rightarrow> agg_sta" where
  "ieee80211_send_bar tid start s = emit (AggSendBar tid start) s"

definition ieee80211_assign_tid_tx :: "nat \<Rightarrow> tid_ampdu_tx option \<Rightarrow> agg_sta \<Rightarrow> agg_sta" where
  "ieee80211_assign_tid_tx tid t s = s\<lparr>tid_tx := (tid_tx s)(tid := t)\<rparr>"

definition ieee80211_stop_queue_agg :: "agg_env \<Rightarrow> nat \<Rightarrow> agg_sta \<Rightarrow> agg_sta" where
  "ieee80211_stop_queue_agg env tid s =
     (let queue = hw_queue env (ieee80211_ac_from_tid tid);
          s = s\<lparr>agg_queue_stop := (agg_queue_stop s)(queue := agg_queue_stop s queue + 1)\<rparr>
      in if agg_queue_stop s queue = 1 then s\<lparr>agg_stopped := (agg_stopped s)(queue := True)\<rparr> else s)"

definition ieee80211_wake_queue_agg :: "agg_env \<Rightarrow> nat \<Rightarrow> agg_sta \<Rightarrow> agg_sta" where
  "ieee80211_wake_queue_agg env tid s =
     (let queue = hw_queue env (ieee80211_ac_from_tid tid);
          s = s\<lparr>agg_queue_stop := (agg_queue_stop s)(queue := agg_queue_stop s queue - 1)\<rparr>
      in if agg_queue_stop s queue = 0 then s\<lparr>agg_stopped := (agg_stopped s)(queue := False)\<rparr> else s)"

definition ieee80211_agg_stop_txq :: "nat \<Rightarrow> agg_sta \<Rightarrow> agg_sta" where
  "ieee80211_agg_stop_txq tid s = upd_agg_txq tid (\<lambda>q. q\<lparr>q_stop := True\<rparr>) s"

definition ieee80211_agg_start_txq :: "nat \<Rightarrow> bool \<Rightarrow> agg_sta \<Rightarrow> agg_sta" where
  "ieee80211_agg_start_txq tid enable s =
     (case sta_txq s tid of
        None \<Rightarrow> s
      | Some _ \<Rightarrow> emit (AggWakeTxq tid) (upd_agg_txq tid (\<lambda>q. q\<lparr>q_ampdu := enable, q_stop := False\<rparr>) s))"

definition ieee80211_agg_splice_packets :: "agg_env \<Rightarrow> nat \<Rightarrow> agg_sta \<Rightarrow> agg_sta" where
  "ieee80211_agg_splice_packets env tid s =
     (let queue = hw_queue env (ieee80211_ac_from_tid tid);
          s = ieee80211_stop_queue_agg env tid s
      in case tid_tx s tid of
           None \<Rightarrow> s
         | Some t \<Rightarrow>
             if agg_pending t \<noteq> [] then
               upd_tid_tx tid (\<lambda>t. t\<lparr>agg_pending := []\<rparr>)
                 (s\<lparr>local_pending := (local_pending s)(queue := local_pending s queue @ agg_pending t)\<rparr>)
             else s)"

definition ieee80211_agg_splice_finish :: "agg_env \<Rightarrow> nat \<Rightarrow> agg_sta \<Rightarrow> agg_sta" where
  "ieee80211_agg_splice_finish env tid s = ieee80211_wake_queue_agg env tid s"

definition ieee80211_remove_tid_tx :: "agg_env \<Rightarrow> nat \<Rightarrow> agg_sta \<Rightarrow> agg_sta" where
  "ieee80211_remove_tid_tx env tid s =
     ieee80211_agg_splice_finish env tid
       (ieee80211_assign_tid_tx tid None (ieee80211_agg_splice_packets env tid s))"


section \<open>Stopping\<close>

datatype ieee80211_agg_stop_reason = AGG_STOP_DECLINED | AGG_STOP_LOCAL_REQUEST | AGG_STOP_PEER_REQUEST | AGG_STOP_DESTROY_STA

text \<open>\<open>__ieee80211_stop_tx_ba_session\<close>.\<close>

definition stop_tx_ba_session :: "nat \<Rightarrow> ieee80211_agg_stop_reason \<Rightarrow> agg_sta \<Rightarrow> int \<times> agg_sta" where
  "stop_tx_ba_session tid reason s =
     (let act = (if reason = AGG_STOP_DESTROY_STA then IEEE80211_AMPDU_TX_STOP_FLUSH else IEEE80211_AMPDU_TX_STOP_CONT);
          s = s\<lparr>tid_start_tx := (tid_start_tx s)(tid := None)\<rparr>
      in case tid_tx s tid of
           None \<Rightarrow> (- ENOENT, s)
         | Some t \<Rightarrow>
             if stopping t then
               (if reason \<noteq> AGG_STOP_DESTROY_STA then (- EALREADY, s)
                else (0, emit (AggDrvAction IEEE80211_AMPDU_TX_STOP_FLUSH_CONT tid 0 False 0) s))
             else if want_start t then (0, ieee80211_assign_tid_tx tid None s)
             else
               let s = upd_tid_tx tid (\<lambda>t. t\<lparr>stopping := True\<rparr>) s;
                   s = ieee80211_agg_stop_txq tid s;
                   s = upd_tid_tx tid (\<lambda>t. t\<lparr>addba_resp_timer := None, agg_session_timer := None\<rparr>) s;
                   s = upd_tid_tx tid (\<lambda>t. t\<lparr>operational := False\<rparr>) s;
                   s = upd_tid_tx tid (\<lambda>t. t\<lparr>
                         stop_initiator := if reason = AGG_STOP_PEER_REQUEST then WLAN_BACK_RECIPIENT else WLAN_BACK_INITIATOR,
                         agg_tx_stop := (reason = AGG_STOP_LOCAL_REQUEST)\<rparr>) s
               in (0, emit (AggDrvAction act tid 0 False 0) s))"

definition ieee80211_stop_tx_ba_session :: "agg_env \<Rightarrow> nat \<Rightarrow> agg_sta \<Rightarrow> int \<times> agg_sta" where
  "ieee80211_stop_tx_ba_session env tid s =
     (if \<not> has_ampdu_action env then (- EINVAL, s)
      else if tid \<ge> IEEE80211_NUM_TIDS then (- EINVAL, s)
      else case tid_tx s tid of
             None \<Rightarrow> (- ENOENT, s)
           | Some t \<Rightarrow>
               if stopping t then (0, s)
               else (0, (upd_tid_tx tid (\<lambda>t. t\<lparr>want_stop := True\<rparr>) s)\<lparr>agg_work := True\<rparr>))"

text \<open>The expiry of the timers; the timer is no longer armed when its function runs.\<close>

definition sta_addba_resp_timer_expired :: "agg_env \<Rightarrow> nat \<Rightarrow> agg_sta \<Rightarrow> agg_sta" where
  "sta_addba_resp_timer_expired env tid s =
     (case tid_tx s tid of
        None \<Rightarrow> s
      | Some t \<Rightarrow> if response_received t then s else snd (ieee80211_stop_tx_ba_session env tid s))"

definition sta_tx_agg_session_timer_expired :: "agg_env \<Rightarrow> u64 \<Rightarrow> nat \<Rightarrow> agg_sta \<Rightarrow> agg_sta" where
  "sta_tx_agg_session_timer_expired env jiffies tid s =
     (case tid_tx s tid of
        None \<Rightarrow> s
      | Some t \<Rightarrow>
          if stopping t then s
          else
            let timeout = agg_last_tx t + TU_TO_JIFFIES (agg_timeout t)
            in if time_after timeout jiffies then upd_tid_tx tid (\<lambda>t. t\<lparr>agg_session_timer := Some timeout\<rparr>) s
               else snd (ieee80211_stop_tx_ba_session env tid s))"


section \<open>Starting\<close>

definition ieee80211_send_addba_with_timeout :: "agg_env \<Rightarrow> u64 \<Rightarrow> nat \<Rightarrow> agg_sta \<Rightarrow> agg_sta" where
  "ieee80211_send_addba_with_timeout env jiffies tid s =
     (case tid_tx s tid of
        None \<Rightarrow> s
      | Some t \<Rightarrow>
          if stopping t \<or> want_stop t then s
          else
            let s = upd_tid_tx tid (\<lambda>t. t\<lparr>addba_resp_timer := Some (jiffies + ADDBA_RESP_INTERVAL)\<rparr>) s;
                s = s\<lparr>last_addba_req_time := (last_addba_req_time s)(tid := jiffies),
                      addba_req_num := (addba_req_num s)(tid := addba_req_num s tid + 1)\<rparr>;
                bsize = (if has_eht (agg_caps env) then max_tx_aggregation_subframes env
                         else if has_he (agg_caps env) then min (max_tx_aggregation_subframes env) IEEE80211_MAX_AMPDU_BUF_HE
                         else IEEE80211_MAX_AMPDU_BUF_HT);
                s = emit (AggSendAddba tid
                      (ieee80211_send_addba_request (agg_caps env) (of_nat tid) (agg_token t) (agg_ssn t) bsize (agg_timeout t))) s
            in upd_tid_tx tid (\<lambda>t. t\<lparr>sent_addba := True\<rparr>) s)"

text \<open>The driver is given the starting number and answers with a status and the number it wants: 0, 1
  (\<open>IEEE80211_AMPDU_TX_START_IMMEDIATE\<close>), 2 (\<open>IEEE80211_AMPDU_TX_START_DELAY_ADDBA\<close>) or an error. \<open>None\<close>: the session is a null pointer.\<close>

definition ieee80211_tx_ba_session_handle_start ::
  "agg_env \<Rightarrow> (nat \<Rightarrow> u16 \<Rightarrow> int \<times> u16) \<Rightarrow> u64 \<Rightarrow> nat \<Rightarrow> agg_sta \<Rightarrow> agg_sta option"
where
  "ieee80211_tx_ba_session_handle_start env drv jiffies tid s =
     (case tid_tx s tid of
        None \<Rightarrow> None
      | Some t \<Rightarrow>
          let s = upd_tid_tx tid (\<lambda>t. t\<lparr>want_start := False\<rparr>) s;
              start = drop_bit 4 (tid_seq s tid);
              s = emit (AggDrvAction IEEE80211_AMPDU_TX_START tid 0 False start) s;
              (ret, start) = drv tid start;
              s = upd_tid_tx tid (\<lambda>t. t\<lparr>agg_ssn := start\<rparr>) s
          in if ret = 2 then Some s
             else if ret = 1 then
               Some (ieee80211_send_addba_with_timeout env jiffies tid (upd_tid_tx tid (\<lambda>t. t\<lparr>drv_ready := True\<rparr>) s))
             else if ret \<noteq> 0 then
               let s = ieee80211_agg_splice_packets env tid s;
                   s = ieee80211_assign_tid_tx tid None s;
                   s = ieee80211_agg_splice_finish env tid s
               in Some (ieee80211_agg_start_txq tid False s)
             else Some (ieee80211_send_addba_with_timeout env jiffies tid s))"

definition ieee80211_refresh_tx_agg_session_timer :: "u64 \<Rightarrow> nat \<Rightarrow> agg_sta \<Rightarrow> agg_sta" where
  "ieee80211_refresh_tx_agg_session_timer jiffies tid s =
     (if tid \<ge> IEEE80211_NUM_TIDS then s else upd_tid_tx tid (\<lambda>t. t\<lparr>agg_last_tx := jiffies\<rparr>) s)"

text \<open>The checks before the session is allocated.\<close>

definition start_tx_check :: "agg_env \<Rightarrow> nat \<Rightarrow> agg_sta \<Rightarrow> bool" where
  "start_tx_check env tid s \<longleftrightarrow>
     unat (reserved_tid env) \<noteq> tid \<and>
     (ht_supported (agg_caps env) \<or> vht_supported env \<or> has_he (agg_caps env) \<or> has_eht (agg_caps env)) \<and>
     has_ampdu_action env \<and>
     \<not> (tid \<ge> IEEE80211_NUM_TIDS \<or> \<not> AMPDU_AGGREGATION env \<or> TX_AMPDU_SETUP_IN_HW env) \<and>
     \<not> tid \<ge> IEEE80211_FIRST_TSPEC_TSID \<and>
     vif_type env \<in> {NL80211_IFTYPE_STATION, NL80211_IFTYPE_MESH_POINT, NL80211_IFTYPE_AP_VLAN, NL80211_IFTYPE_AP, NL80211_IFTYPE_ADHOC} \<and>
     \<not> sta_block_ba s \<and>
     \<not> (sta_mfp s \<and> \<not> sta_authorized s) \<and>
     \<not> (vif_type env = NL80211_IFTYPE_ADHOC \<and> \<not> ht_supported (agg_caps env))"

definition new_tid_tx :: "u16 \<Rightarrow> u8 \<Rightarrow> tid_ampdu_tx" where
  "new_tid_tx timeout token =
     \<lparr>agg_pending = [], drv_ready = False, response_received = False, operational = False, stopping = False, want_start = True,
      want_stop = False, start_cb = False, stop_cb = False, sent_addba = False, agg_last_tx = 0, agg_timeout = timeout,
      agg_token = token, stop_initiator = 0, agg_tx_stop = False, agg_buf_size = 0, agg_ssn = 0, agg_amsdu = False,
      failed_bar_ssn = 0, bar_pending = False, addba_resp_timer = None, agg_session_timer = None\<rparr>"

text \<open>\<open>time_before(x, y)\<close> is \<open>time_after(y, x)\<close>.\<close>

definition ieee80211_start_tx_ba_session :: "agg_env \<Rightarrow> u64 \<Rightarrow> bool \<Rightarrow> nat \<Rightarrow> u16 \<Rightarrow> agg_sta \<Rightarrow> int \<times> agg_sta" where
  "ieee80211_start_tx_ba_session env jiffies alloc tid timeout s =
     (if \<not> start_tx_check env tid s then (- EINVAL, s)
      else if addba_req_num s tid > HT_AGG_MAX_RETRIES then (- EBUSY, s)
      else if addba_req_num s tid > HT_AGG_BURST_RETRIES \<and>
              time_after (last_addba_req_time s tid + HT_AGG_RETRIES_PERIOD) jiffies then (- EBUSY, s)
      else if tid_tx s tid \<noteq> None \<or> tid_start_tx s tid \<noteq> None then (- EAGAIN, s)
      else if \<not> alloc then (- ENOMEM, s)
      else
        let token = dialog_token_allocator s + 1
        in (0, s\<lparr>dialog_token_allocator := token,
                tid_start_tx := (tid_start_tx s)(tid := Some (new_tid_tx timeout token)), agg_work := True\<rparr>))"

definition ieee80211_agg_tx_operational :: "agg_env \<Rightarrow> nat \<Rightarrow> agg_sta \<Rightarrow> agg_sta" where
  "ieee80211_agg_tx_operational env tid s =
     (case tid_tx s tid of
        None \<Rightarrow> s
      | Some t \<Rightarrow>
          let s = emit (AggDrvAction IEEE80211_AMPDU_TX_OPERATIONAL tid (agg_buf_size t) (agg_amsdu t) 0) s;
              s = ieee80211_agg_splice_packets env tid s;
              s = upd_tid_tx tid (\<lambda>t. t\<lparr>operational := True\<rparr>) s;
              s = ieee80211_agg_splice_finish env tid s
          in ieee80211_agg_start_txq tid True s)"

definition ieee80211_start_tx_ba_cb :: "agg_env \<Rightarrow> u64 \<Rightarrow> nat \<Rightarrow> agg_sta \<Rightarrow> agg_sta" where
  "ieee80211_start_tx_ba_cb env jiffies tid s =
     (case tid_tx s tid of
        None \<Rightarrow> s
      | Some t \<Rightarrow>
          let s' = upd_tid_tx tid (\<lambda>t. t\<lparr>drv_ready := True\<rparr>) s
          in if drv_ready t then s'
             else if stopping t \<or> want_stop t then s'
             else if \<not> sent_addba t then ieee80211_send_addba_with_timeout env jiffies tid s'
             else if response_received t then ieee80211_agg_tx_operational env tid s'
             else s')"

text \<open>The driver reports from interrupt context that it started or stopped the session.\<close>

definition ieee80211_lookup_tid_tx :: "nat \<Rightarrow> agg_sta \<Rightarrow> tid_ampdu_tx option" where
  "ieee80211_lookup_tid_tx tid s = (if tid \<ge> IEEE80211_NUM_TIDS then None else tid_tx s tid)"

definition ieee80211_start_tx_ba_cb_irqsafe :: "nat \<Rightarrow> agg_sta \<Rightarrow> agg_sta" where
  "ieee80211_start_tx_ba_cb_irqsafe tid s =
     (case ieee80211_lookup_tid_tx tid s of
        None \<Rightarrow> s
      | Some _ \<Rightarrow> (upd_tid_tx tid (\<lambda>t. t\<lparr>start_cb := True\<rparr>) s)\<lparr>agg_work := True\<rparr>)"

definition ieee80211_stop_tx_ba_cb_irqsafe :: "nat \<Rightarrow> agg_sta \<Rightarrow> agg_sta" where
  "ieee80211_stop_tx_ba_cb_irqsafe tid s =
     (case ieee80211_lookup_tid_tx tid s of
        None \<Rightarrow> s
      | Some _ \<Rightarrow> (upd_tid_tx tid (\<lambda>t. t\<lparr>stop_cb := True\<rparr>) s)\<lparr>agg_work := True\<rparr>)"

definition ieee80211_stop_tx_ba_cb :: "agg_env \<Rightarrow> nat \<Rightarrow> agg_sta \<Rightarrow> agg_sta" where
  "ieee80211_stop_tx_ba_cb env tid s =
     (case tid_tx s tid of
        None \<Rightarrow> s
      | Some t \<Rightarrow>
          if \<not> stopping t then s
          else
            let send_delba = (stop_initiator t = WLAN_BACK_INITIATOR \<and> agg_tx_stop t);
                s = ieee80211_remove_tid_tx env tid s;
                s = ieee80211_agg_start_txq tid False s
            in if send_delba then emit (AggSendDelba tid WLAN_BACK_INITIATOR WLAN_REASON_QSTA_NOT_USE) s else s)"


section \<open>The answer of the peer\<close>

text \<open>The fields of the action frame from its dialog token on: token, status, parameters, timeout, elements.\<close>

definition resp_amsdu :: "u8 list \<Rightarrow> bool" where
  "resp_amsdu body \<longleftrightarrow> get_le16 body 3 AND 1 \<noteq> 0"

definition resp_tid :: "u8 list \<Rightarrow> nat" where
  "resp_tid body = unat (drop_bit 2 (get_le16 body 3 AND 0x003C))"

definition resp_buf_size :: "agg_env \<Rightarrow> (u8 list \<Rightarrow> u8 option) \<Rightarrow> u8 list \<Rightarrow> u16" where
  "resp_buf_size env parse body =
     min (snd (ieee80211_retrieve_addba_ext_data parse (agg_caps env) (drop 7 body) (drop_bit 6 (get_le16 body 3 AND 0xFFC0))))
       (max_tx_aggregation_subframes env)"

definition ieee80211_process_addba_resp :: "agg_env \<Rightarrow> (u8 list \<Rightarrow> u8 option) \<Rightarrow> u64 \<Rightarrow> u8 list \<Rightarrow> agg_sta \<Rightarrow> agg_sta" where
  "ieee80211_process_addba_resp env parse jiffies body s =
     (let amsdu = resp_amsdu body;
          tid = resp_tid body;
          bsize = resp_buf_size env parse body;
          s = (if \<not> amsdu then upd_agg_txq tid (\<lambda>q. q\<lparr>q_no_amsdu := True\<rparr>) s else s)
      in case tid_tx s tid of
           None \<Rightarrow> s
         | Some t \<Rightarrow>
             if body ! 0 \<noteq> agg_token t then s
             else
               let s = upd_tid_tx tid (\<lambda>t. t\<lparr>addba_resp_timer := None\<rparr>) s
               in if want_stop t \<or> stopping t then s
                  else if get_le16 body 1 = WLAN_STATUS_SUCCESS \<and> bsize \<noteq> 0 then
                    (if response_received t then s
                     else
                       let s = upd_tid_tx tid (\<lambda>t. t\<lparr>response_received := True, agg_buf_size := bsize, agg_amsdu := amsdu\<rparr>) s;
                           s = (if drv_ready t then ieee80211_agg_tx_operational env tid s else s);
                           s = s\<lparr>addba_req_num := (addba_req_num s)(tid := 0)\<rparr>;
                           timeout = get_le16 body 5;
                           s = upd_tid_tx tid (\<lambda>t. t\<lparr>agg_timeout := timeout\<rparr>) s
                       in if timeout \<noteq> 0
                          then upd_tid_tx tid (\<lambda>t. t\<lparr>agg_session_timer := Some (jiffies + TU_TO_JIFFIES timeout), agg_last_tx := jiffies\<rparr>) s
                          else s)
                  else snd (stop_tx_ba_session tid AGG_STOP_DECLINED s))"

text \<open>A DELBA of the initiator of our receive session is the business of RxBa.\<close>

definition ieee80211_process_delba :: "u8 list \<Rightarrow> agg_sta \<Rightarrow> agg_sta" where
  "ieee80211_process_delba body s =
     (let params = get_le16 body 0;
          tid = unat (drop_bit 12 (params AND 0xF000));
          initiator = drop_bit 11 (params AND 0x0800)
      in if initiator = WLAN_BACK_INITIATOR then s else snd (stop_tx_ba_session tid AGG_STOP_PEER_REQUEST s))"


section \<open>Work and teardown\<close>

text \<open>The turn of the work for one TID, transmit part: the flag says that the work was put off because fragments are under
  way. \<open>None\<close>: the station has no transmit queue for the TID, or a session is used after it was freed.\<close>

definition ba_work_start ::
  "agg_env \<Rightarrow> (nat \<Rightarrow> u16 \<Rightarrow> int \<times> u16) \<Rightarrow> u64 \<Rightarrow> nat \<Rightarrow> tid_ampdu_tx \<Rightarrow> agg_sta \<Rightarrow> (bool \<times> agg_sta) option"
where
  "ba_work_start env drv jiffies tid t s =
     (case sta_txq s tid of
        None \<Rightarrow> None
      | Some q \<Rightarrow>
          let s = upd_agg_txq tid (\<lambda>q. q\<lparr>q_stop := True\<rparr>) s
          in if q_frags q \<noteq> 0 then Some (True, s\<lparr>agg_work := True\<rparr>)
             else
               let s = s\<lparr>tid_start_tx := (tid_start_tx s)(tid := None)\<rparr>;
                   s = (if tid_tx s tid \<noteq> None then s else ieee80211_assign_tid_tx tid (Some t) s)
               in map_option (Pair False) (ieee80211_tx_ba_session_handle_start env drv jiffies tid s))"

definition ba_work_bits :: "agg_env \<Rightarrow> u64 \<Rightarrow> bool \<Rightarrow> nat \<Rightarrow> tid_ampdu_tx \<Rightarrow> agg_sta \<Rightarrow> agg_sta option" where
  "ba_work_bits env jiffies blocked tid t s =
     (let s = (if \<not> blocked \<and> start_cb t
               then ieee80211_start_tx_ba_cb env jiffies tid (upd_tid_tx tid (\<lambda>t. t\<lparr>start_cb := False\<rparr>) s) else s)
      in case tid_tx s tid of
           None \<Rightarrow> None
         | Some t \<Rightarrow>
             let s = (if want_stop t
                      then snd (stop_tx_ba_session tid AGG_STOP_LOCAL_REQUEST (upd_tid_tx tid (\<lambda>t. t\<lparr>want_stop := False\<rparr>) s))
                      else s)
             in case tid_tx s tid of
                  None \<Rightarrow> None
                | Some t \<Rightarrow>
                    Some (if stop_cb t
                          then ieee80211_stop_tx_ba_cb env tid (upd_tid_tx tid (\<lambda>t. t\<lparr>stop_cb := False\<rparr>) s) else s))"

definition ba_work_tid ::
  "agg_env \<Rightarrow> (nat \<Rightarrow> u16 \<Rightarrow> int \<times> u16) \<Rightarrow> u64 \<Rightarrow> bool \<Rightarrow> nat \<Rightarrow> agg_sta \<Rightarrow> (bool \<times> agg_sta) option"
where
  "ba_work_tid env drv jiffies blocked tid s =
     (if \<not> blocked \<and> tid_start_tx s tid \<noteq> None then ba_work_start env drv jiffies tid (the (tid_start_tx s tid)) s
      else case tid_tx s tid of
             None \<Rightarrow> Some (False, s)
           | Some t \<Rightarrow> map_option (Pair False) (ba_work_bits env jiffies blocked tid t s))"

fun ba_work_tids ::
  "agg_env \<Rightarrow> (nat \<Rightarrow> u16 \<Rightarrow> int \<times> u16) \<Rightarrow> u64 \<Rightarrow> bool \<Rightarrow> nat list \<Rightarrow> agg_sta \<Rightarrow> agg_sta option"
where
  "ba_work_tids env drv jiffies blocked [] s = Some s"
| "ba_work_tids env drv jiffies blocked (tid # tids) s =
     (case ba_work_tid env drv jiffies blocked tid s of
        None \<Rightarrow> None
      | Some (True, s) \<Rightarrow> Some s
      | Some (False, s) \<Rightarrow> ba_work_tids env drv jiffies blocked tids s)"

text \<open>The work is no longer queued when it runs.\<close>

definition ieee80211_ba_session_work :: "agg_env \<Rightarrow> (nat \<Rightarrow> u16 \<Rightarrow> int \<times> u16) \<Rightarrow> u64 \<Rightarrow> agg_sta \<Rightarrow> agg_sta option" where
  "ieee80211_ba_session_work env drv jiffies s =
     ba_work_tids env drv jiffies (sta_block_ba s) [0..<IEEE80211_NUM_TIDS] (s\<lparr>agg_work := False\<rparr>)"

definition ieee80211_sta_tear_down_BA_sessions :: "agg_env \<Rightarrow> ieee80211_agg_stop_reason \<Rightarrow> agg_sta \<Rightarrow> agg_sta" where
  "ieee80211_sta_tear_down_BA_sessions env reason s =
     (let s = fold (\<lambda>i s. snd (stop_tx_ba_session i reason s)) [0..<IEEE80211_NUM_TIDS] s
      in if reason = AGG_STOP_DESTROY_STA then
           fold (\<lambda>i s. case tid_tx s i of
                         None \<Rightarrow> s
                       | Some t \<Rightarrow> if stop_cb t then ieee80211_stop_tx_ba_cb env i (upd_tid_tx i (\<lambda>t. t\<lparr>stop_cb := False\<rparr>) s) else s)
             [0..<IEEE80211_NUM_TIDS] (s\<lparr>agg_work := False\<rparr>)
         else s)"


section \<open>Using a session\<close>

text \<open>A data frame on its way: whether it was queued with the session, and the frame that was dropped for it.\<close>

definition ieee80211_tx_prep_agg :: "u64 \<Rightarrow> nat \<Rightarrow> nat \<Rightarrow> agg_sta \<Rightarrow> bool \<times> nat option \<times> agg_sta" where
  "ieee80211_tx_prep_agg jiffies tid skb s =
     (case tid_tx s tid of
        None \<Rightarrow> (False, None, s)
      | Some t \<Rightarrow>
          if operational t then (False, None, upd_tid_tx tid (\<lambda>t. t\<lparr>agg_last_tx := jiffies\<rparr>) s)
          else if want_start t then (False, None, s)
          else if sta_txq s tid = None then
            let pending = agg_pending t @ [skb]
            in if length pending > STA_MAX_TX_BUFFER
               then (True, Some (hd pending), upd_tid_tx tid (\<lambda>t. t\<lparr>agg_pending := tl pending\<rparr>) s)
               else (True, None, upd_tid_tx tid (\<lambda>t. t\<lparr>agg_pending := pending\<rparr>) s)
          else (False, None, s))"

definition ieee80211_check_pending_bar :: "nat \<Rightarrow> agg_sta \<Rightarrow> agg_sta" where
  "ieee80211_check_pending_bar tid s =
     (case tid_tx s tid of
        None \<Rightarrow> s
      | Some t \<Rightarrow>
          if \<not> bar_pending t then s
          else ieee80211_send_bar tid (failed_bar_ssn t) (upd_tid_tx tid (\<lambda>t. t\<lparr>bar_pending := False\<rparr>) s))"

definition ieee80211_set_bar_pending :: "nat \<Rightarrow> u16 \<Rightarrow> agg_sta \<Rightarrow> agg_sta" where
  "ieee80211_set_bar_pending tid start s = upd_tid_tx tid (\<lambda>t. t\<lparr>failed_bar_ssn := start, bar_pending := True\<rparr>) s"

end
