(* ===== verification/TxBaInv.thy ===== *)
theory TxBaInv
  imports TxBa
begin

text \<open>
  The invariant of the transmit sessions and that every event keeps it. The operations work on one TID at a time, so the
  invariant is stated of one TID and each operation is described by what it does to that TID and that it leaves the others alone.
\<close>


section \<open>The state of a TID\<close>

text \<open>The life of a session that is not just requested.\<close>

definition agg_session_ok :: "tid_ampdu_tx \<Rightarrow> bool" where
  "agg_session_ok t \<longleftrightarrow>
     \<not> want_start t \<and> agg_pending t = [] \<and>
     (operational t \<longrightarrow> drv_ready t \<and> response_received t \<and> sent_addba t \<and> \<not> stopping t) \<and>
     (drv_ready t \<and> \<not> sent_addba t \<longrightarrow> want_stop t \<or> stopping t) \<and>
     (stopping t \<longrightarrow> addba_resp_timer t = None \<and> agg_session_timer t = None) \<and>
     (sent_addba t \<and> \<not> response_received t \<and> \<not> want_stop t \<and> \<not> stopping t \<longrightarrow> addba_resp_timer t \<noteq> None)"

text \<open>A request waits or a session lives, not both. The queue of a live session is stopped as long as it is
  not operational, and marked for aggregation only with a session. Requests that were not answered are counted.\<close>

definition tid_inv :: "agg_env \<Rightarrow> nat \<Rightarrow> agg_sta \<Rightarrow> bool" where
  "tid_inv env tid s \<longleftrightarrow>
     (case tid_tx s tid of
        Some t \<Rightarrow>
          tid < IEEE80211_NUM_TIDS \<and> has_ampdu_action env \<and> tid_start_tx s tid = None \<and> agg_session_ok t \<and>
          (\<forall>q. sta_txq s tid = Some q \<longrightarrow> q_stop q = (\<not> operational t) \<and> (operational t \<longrightarrow> q_ampdu q)) \<and>
          addba_req_num s tid \<le> 16 \<and> (\<not> sent_addba t \<longrightarrow> addba_req_num s tid \<le> 15)
      | None \<Rightarrow>
          (\<forall>t. tid_start_tx s tid = Some t \<longrightarrow>
             tid < IEEE80211_NUM_TIDS \<and> has_ampdu_action env \<and> (\<exists>timeout token. t = new_tid_tx timeout token) \<and> addba_req_num s tid \<le> 15) \<and>
          (\<forall>q. sta_txq s tid = Some q \<longrightarrow> \<not> q_ampdu q) \<and> addba_req_num s tid \<le> 16)"

definition agg_inv :: "agg_env \<Rightarrow> agg_sta \<Rightarrow> bool" where
  "agg_inv env s \<longleftrightarrow>
     (\<forall>tid. tid_inv env tid s) \<and> (\<forall>tid < IEEE80211_NUM_TIDS. sta_txq s tid \<noteq> None) \<and>
     agg_queue_stop s = (\<lambda>_. 0) \<and> agg_stopped s = (\<lambda>_. False)"

text \<open>An operation on one TID.\<close>

definition only_tid :: "nat \<Rightarrow> agg_sta \<Rightarrow> agg_sta \<Rightarrow> bool" where
  "only_tid tid s s' \<longleftrightarrow>
     (\<forall>u. u \<noteq> tid \<longrightarrow> tid_tx s' u = tid_tx s u \<and> tid_start_tx s' u = tid_start_tx s u \<and> sta_txq s' u = sta_txq s u \<and>
        addba_req_num s' u = addba_req_num s u) \<and>
     (sta_txq s' tid = None \<longleftrightarrow> sta_txq s tid = None) \<and>
     agg_queue_stop s' = agg_queue_stop s \<and> agg_stopped s' = agg_stopped s"

lemma only_tid_refl [simp]: "only_tid tid s s" by (simp add: only_tid_def)

lemma only_tid_trans: "only_tid tid s s' \<Longrightarrow> only_tid tid s' s'' \<Longrightarrow> only_tid tid s s''"
  by (simp add: only_tid_def)

lemma only_tid_inv: "only_tid tid s s' \<Longrightarrow> u \<noteq> tid \<Longrightarrow> tid_inv env u s' = tid_inv env u s"
  by (simp add: only_tid_def tid_inv_def split: option.split)

lemma agg_inv_tid:
  assumes "agg_inv env s" "only_tid tid s s'" "tid_inv env tid s'"
  shows "agg_inv env s'"
proof -
  have "tid_inv env u s'" for u
    using assms only_tid_inv [OF assms(2)] by (cases "u = tid") (simp_all add: agg_inv_def)
  moreover have "sta_txq s' u \<noteq> None" if "u < IEEE80211_NUM_TIDS" for u
    using assms that by (cases "u = tid") (simp_all add: agg_inv_def only_tid_def)
  ultimately show ?thesis using assms(1,2) by (simp add: agg_inv_def only_tid_def)
qed

lemmas agg_prims = upd_tid_tx_def upd_agg_txq_def emit_def ieee80211_assign_tid_tx_def

lemma only_tid_prims [simp]:
  "only_tid tid s (upd_tid_tx tid g s') = only_tid tid s s'"
  "only_tid tid s (upd_agg_txq tid h s') = only_tid tid s s'"
  "only_tid tid s (emit e s') = only_tid tid s s'"
  "only_tid tid s (ieee80211_assign_tid_tx tid t s') = only_tid tid s s'"
  "only_tid tid s (s'\<lparr>agg_work := w\<rparr>) = only_tid tid s s'"
  "(\<And>u. u \<noteq> tid \<Longrightarrow> st u = tid_start_tx s' u) \<Longrightarrow> only_tid tid s (s'\<lparr>tid_start_tx := st\<rparr>) = only_tid tid s s'"
  "(\<And>u. u \<noteq> tid \<Longrightarrow> n u = addba_req_num s' u) \<Longrightarrow> only_tid tid s (s'\<lparr>addba_req_num := n\<rparr>) = only_tid tid s s'"
  "only_tid tid s (s'\<lparr>last_addba_req_time := lt\<rparr>) = only_tid tid s s'"
  "only_tid tid s (s'\<lparr>dialog_token_allocator := k\<rparr>) = only_tid tid s s'"
  by (auto simp: only_tid_def agg_prims)

text \<open>What the primitives do to their own TID.\<close>

lemma prims [simp]:
  "tid_tx (upd_tid_tx tid g s) tid = map_option g (tid_tx s tid)"
  "tid_start_tx (upd_tid_tx tid g s) = tid_start_tx s" "sta_txq (upd_tid_tx tid g s) = sta_txq s" "addba_req_num (upd_tid_tx tid g s) = addba_req_num s"
  "agg_queue_stop (upd_tid_tx tid g s) = agg_queue_stop s" "agg_stopped (upd_tid_tx tid g s) = agg_stopped s"
  "tid_tx (upd_agg_txq tid h s) = tid_tx s" "tid_start_tx (upd_agg_txq tid h s) = tid_start_tx s"
  "sta_txq (upd_agg_txq tid h s) tid = map_option h (sta_txq s tid)" "addba_req_num (upd_agg_txq tid h s) = addba_req_num s"
  "agg_queue_stop (upd_agg_txq tid h s) = agg_queue_stop s" "agg_stopped (upd_agg_txq tid h s) = agg_stopped s"
  "tid_tx (emit e s) = tid_tx s" "tid_start_tx (emit e s) = tid_start_tx s" "sta_txq (emit e s) = sta_txq s" "addba_req_num (emit e s) = addba_req_num s"
  "agg_queue_stop (emit e s) = agg_queue_stop s" "agg_stopped (emit e s) = agg_stopped s"
  "tid_tx (ieee80211_assign_tid_tx tid x s) tid = x" "tid_start_tx (ieee80211_assign_tid_tx tid x s) = tid_start_tx s"
  "sta_txq (ieee80211_assign_tid_tx tid x s) = sta_txq s" "addba_req_num (ieee80211_assign_tid_tx tid x s) = addba_req_num s"
  "agg_queue_stop (ieee80211_assign_tid_tx tid x s) = agg_queue_stop s" "agg_stopped (ieee80211_assign_tid_tx tid x s) = agg_stopped s"
  by (simp_all add: agg_prims)


section \<open>Queues\<close>

definition calm :: "agg_sta \<Rightarrow> bool" where
  "calm s \<longleftrightarrow> agg_queue_stop s = (\<lambda>_. 0) \<and> agg_stopped s = (\<lambda>_. False)"

text \<open>With nothing pending the hardware queue is stopped and woken again at once.\<close>

lemma splice_assign:
  assumes "calm s" "\<forall>t. tid_tx s tid = Some t \<longrightarrow> agg_pending t = []"
  shows "ieee80211_agg_splice_finish env tid (ieee80211_assign_tid_tx tid x (ieee80211_agg_splice_packets env tid s))
       = ieee80211_assign_tid_tx tid x s"
  using assms
  by (auto simp: calm_def ieee80211_agg_splice_finish_def ieee80211_agg_splice_packets_def ieee80211_stop_queue_agg_def
      ieee80211_wake_queue_agg_def ieee80211_assign_tid_tx_def Let_def fun_eq_iff intro!: agg_sta.equality split: option.splits)

lemma splice_upd:
  assumes "calm s" "\<forall>t. tid_tx s tid = Some t \<longrightarrow> agg_pending t = []"
  shows "ieee80211_agg_splice_finish env tid (upd_tid_tx tid g (ieee80211_agg_splice_packets env tid s)) = upd_tid_tx tid g s"
  using assms
  by (auto simp: calm_def ieee80211_agg_splice_finish_def ieee80211_agg_splice_packets_def ieee80211_stop_queue_agg_def
      ieee80211_wake_queue_agg_def upd_tid_tx_def Let_def fun_eq_iff intro!: agg_sta.equality split: option.splits)

lemma start_txq_only [simp]: "only_tid tid s (ieee80211_agg_start_txq tid b s') = only_tid tid s s'"
  by (auto simp: ieee80211_agg_start_txq_def split: option.splits)

lemma start_txq_view [simp]:
  "tid_tx (ieee80211_agg_start_txq tid b s) = tid_tx s" "tid_start_tx (ieee80211_agg_start_txq tid b s) = tid_start_tx s"
  "sta_txq (ieee80211_agg_start_txq tid b s) tid = map_option (\<lambda>q. q\<lparr>q_ampdu := b, q_stop := False\<rparr>) (sta_txq s tid)"
  "addba_req_num (ieee80211_agg_start_txq tid b s) = addba_req_num s"
  by (auto simp: ieee80211_agg_start_txq_def split: option.splits)



section \<open>Operations on a TID\<close>

text \<open>\<open>tid_step\<close>: the operation keeps to its TID and, if the invariant held there, it still does.\<close>

definition tid_step :: "agg_env \<Rightarrow> nat \<Rightarrow> agg_sta \<Rightarrow> agg_sta \<Rightarrow> bool" where
  "tid_step env tid s s' \<longleftrightarrow> only_tid tid s s' \<and> tid_inv env tid s'"

lemma tid_step_agg: "agg_inv env s \<Longrightarrow> tid_step env tid s s' \<Longrightarrow> agg_inv env s'"
  unfolding tid_step_def using agg_inv_tid by blast

lemma agg_inv_calm: "agg_inv env s \<Longrightarrow> calm s" by (simp add: agg_inv_def calm_def)

lemma agg_invD: "agg_inv env s \<Longrightarrow> tid_inv env tid s" by (simp add: agg_inv_def)

text \<open>A live session.\<close>

lemma tid_inv_live:
  "tid_tx s tid = Some t \<Longrightarrow> tid_inv env tid s \<longleftrightarrow>
     tid < IEEE80211_NUM_TIDS \<and> has_ampdu_action env \<and> tid_start_tx s tid = None \<and> agg_session_ok t \<and>
     (\<forall>q. sta_txq s tid = Some q \<longrightarrow> q_stop q = (\<not> operational t) \<and> (operational t \<longrightarrow> q_ampdu q)) \<and>
     addba_req_num s tid \<le> 16 \<and> (\<not> sent_addba t \<longrightarrow> addba_req_num s tid \<le> 15)"
  by (simp add: tid_inv_def)

lemma tid_inv_none:
  "tid_tx s tid = None \<Longrightarrow> tid_inv env tid s \<longleftrightarrow>
     (\<forall>t. tid_start_tx s tid = Some t \<longrightarrow>
        tid < IEEE80211_NUM_TIDS \<and> has_ampdu_action env \<and> (\<exists>timeout token. t = new_tid_tx timeout token) \<and> addba_req_num s tid \<le> 15) \<and>
     (\<forall>q. sta_txq s tid = Some q \<longrightarrow> \<not> q_ampdu q) \<and> addba_req_num s tid \<le> 16"
  by (simp add: tid_inv_def)

lemma stop_session_step:
  assumes "tid_inv env tid s"
  shows "tid_step env tid s (snd (stop_tx_ba_session tid reason s))"
proof (cases "tid_tx s tid")
  case None
  then show ?thesis using assms by (auto simp: tid_step_def stop_tx_ba_session_def tid_inv_none Let_def)
next
  case (Some t)
  then show ?thesis using assms
    by (auto simp: tid_step_def stop_tx_ba_session_def tid_inv_live agg_session_ok_def Let_def ieee80211_agg_stop_txq_def)
qed

lemma request_stop_step:
  assumes "tid_inv env tid s"
  shows "tid_step env tid s (snd (ieee80211_stop_tx_ba_session env tid s))"
proof (cases "tid_tx s tid")
  case None
  then show ?thesis using assms by (simp add: tid_step_def ieee80211_stop_tx_ba_session_def)
next
  case (Some t)
  then show ?thesis using assms
    by (auto simp: tid_step_def ieee80211_stop_tx_ba_session_def tid_inv_live agg_session_ok_def)
qed

lemma send_addba_step:
  assumes "tid_inv env tid s" "tid_tx s tid = Some t" "\<not> sent_addba t"
  shows "tid_step env tid s (ieee80211_send_addba_with_timeout env jiffies tid s)"
proof -
  have "addba_req_num s tid + 1 \<le> 16" if "addba_req_num s tid \<le> 15"
    using that by (simp add: word_le_nat_alt unat_word_ariths)
  then show ?thesis using assms
    by (auto simp: tid_step_def ieee80211_send_addba_with_timeout_def tid_inv_live agg_session_ok_def Let_def)
qed

lemma operational_eq:
  assumes "calm s" "tid_tx s tid = Some t" "agg_pending t = []"
  shows "ieee80211_agg_tx_operational env tid s = ieee80211_agg_start_txq tid True (upd_tid_tx tid (\<lambda>t. t\<lparr>operational := True\<rparr>)
     (emit (AggDrvAction IEEE80211_AMPDU_TX_OPERATIONAL tid (agg_buf_size t) (agg_amsdu t) 0) s))"
  using assms splice_upd [of "emit (AggDrvAction IEEE80211_AMPDU_TX_OPERATIONAL tid (agg_buf_size t) (agg_amsdu t) 0) s" tid]
  by (simp add: ieee80211_agg_tx_operational_def calm_def)

lemma operational_step:
  assumes "calm s" "tid_inv env tid s" "tid_tx s tid = Some t" "drv_ready t" "response_received t" "sent_addba t" "\<not> stopping t"
  shows "tid_step env tid s (ieee80211_agg_tx_operational env tid s)"
    "tid_tx (ieee80211_agg_tx_operational env tid s) tid = Some (t\<lparr>operational := True\<rparr>)"
proof -
  have "agg_pending t = []" using assms(2,3) by (simp add: tid_inv_live agg_session_ok_def)
  then show "tid_step env tid s (ieee80211_agg_tx_operational env tid s)"
    "tid_tx (ieee80211_agg_tx_operational env tid s) tid = Some (t\<lparr>operational := True\<rparr>)"
    using assms by (auto simp: operational_eq tid_step_def tid_inv_live agg_session_ok_def)
qed


lemma tid_step_trans: "tid_step env tid s s' \<Longrightarrow> tid_step env tid s' s'' \<Longrightarrow> tid_step env tid s s''"
  unfolding tid_step_def using only_tid_trans by blast

lemma tid_step_refl: "tid_inv env tid s \<Longrightarrow> tid_step env tid s s"
  by (simp add: tid_step_def)

lemma tid_step_calm: "tid_step env tid s s' \<Longrightarrow> calm s \<Longrightarrow> calm s'"
  by (simp add: tid_step_def only_tid_def calm_def)

text \<open>The driver is ready before the request was sent.\<close>

lemma ready_send_step:
  assumes "tid_inv env tid s" "tid_tx s tid = Some t" "\<not> sent_addba t" "\<not> stopping t" "\<not> want_stop t"
  shows "tid_step env tid s (ieee80211_send_addba_with_timeout env jiffies tid (upd_tid_tx tid (\<lambda>t. t\<lparr>drv_ready := True\<rparr>) s))"
proof -
  have "addba_req_num s tid + 1 \<le> 16" if "addba_req_num s tid \<le> 15"
    using that by (simp add: word_le_nat_alt unat_word_ariths)
  then show ?thesis using assms
    by (auto simp: tid_step_def ieee80211_send_addba_with_timeout_def tid_inv_live agg_session_ok_def Let_def)
qed

lemma handle_start_step:
  assumes calm: "calm s" and q: "sta_txq s tid = Some q" "q_stop q" "\<not> q_ampdu q" and st: "tid_start_tx s tid = None"
    and t: "tid_tx s tid = Some (new_tid_tx timeout token)" and tid: "tid < IEEE80211_NUM_TIDS" "has_ampdu_action env" "addba_req_num s tid \<le> 15"
  shows "\<exists>s'. ieee80211_tx_ba_session_handle_start env drv jiffies tid s = Some s' \<and> tid_step env tid s s'"
proof -
  let ?start = "drop_bit 4 (tid_seq s tid)"
  obtain ret start where d: "drv tid ?start = (ret, start)" by fastforce
  define s1 where "s1 = upd_tid_tx tid (\<lambda>t. t\<lparr>agg_ssn := start\<rparr>)
      (emit (AggDrvAction IEEE80211_AMPDU_TX_START tid 0 False ?start) (upd_tid_tx tid (\<lambda>t. t\<lparr>want_start := False\<rparr>) s))"
  define t1 where "t1 = (new_tid_tx timeout token)\<lparr>want_start := False, agg_ssn := start\<rparr>"
  have t1: "tid_tx s1 tid = Some t1" by (simp add: s1_def t t1_def)
  have c1: "calm s1" using calm by (simp add: s1_def calm_def)
  have "addba_req_num s tid \<le> 16" using tid(3) by (simp add: word_le_nat_alt)
  then have i1: "tid_inv env tid s1" using q st tid by (simp add: tid_inv_live [OF t1] agg_session_ok_def) (simp add: s1_def t1_def new_tid_tx_def)
  have o1: "only_tid tid s s1" by (simp add: s1_def)
  have seq: "tid_seq (upd_tid_tx tid g s) = tid_seq s" for g by (simp add: upd_tid_tx_def)
  have h: "ieee80211_tx_ba_session_handle_start env drv jiffies tid s =
      (if ret = 2 then Some s1
       else if ret = 1 then Some (ieee80211_send_addba_with_timeout env jiffies tid (upd_tid_tx tid (\<lambda>t. t\<lparr>drv_ready := True\<rparr>) s1))
       else if ret \<noteq> 0 then Some (ieee80211_agg_start_txq tid False (ieee80211_assign_tid_tx tid None s1))
       else Some (ieee80211_send_addba_with_timeout env jiffies tid s1))"
    using splice_assign [OF c1, of tid env None] t1
    by (simp add: ieee80211_tx_ba_session_handle_start_def t Let_def seq d t1_def new_tid_tx_def flip: s1_def)
  have "\<not> sent_addba t1" "\<not> stopping t1" "\<not> want_stop t1" by (simp_all add: t1_def new_tid_tx_def)
  note step = send_addba_step [OF i1 t1 this(1)] ready_send_step [OF i1 t1 this]
  have "tid_step env tid s1 (ieee80211_agg_start_txq tid False (ieee80211_assign_tid_tx tid None s1))"
    using i1 by (auto simp: tid_step_def tid_inv_none tid_inv_live [OF t1])
  then show ?thesis using h step i1 o1 only_tid_trans [OF o1] by (auto simp: tid_step_def)
qed

lemma work_start_step:
  assumes inv: "agg_inv env s" and t: "tid_start_tx s tid = Some t"
  shows "\<exists>b s'. ba_work_start env drv jiffies tid t s = Some (b, s') \<and> tid_step env tid s s'"
proof -
  have i: "tid_inv env tid s" and calm: "calm s" using inv by (simp_all add: agg_invD agg_inv_calm)
  have none: "tid_tx s tid = None" using i t by (cases "tid_tx s tid") (simp_all add: tid_inv_live)
  note i' = i [unfolded tid_inv_none [OF none]]
  obtain timeout token where new: "t = new_tid_tx timeout token" and tid: "tid < 16" "has_ampdu_action env" "addba_req_num s tid \<le> 15"
    using i' t by blast
  obtain q where q: "sta_txq s tid = Some q" "\<not> q_ampdu q" using inv tid(1) i' by (fastforce simp: agg_inv_def)
  define s1 where "s1 = upd_agg_txq tid (\<lambda>q. q\<lparr>q_stop := True\<rparr>) s"
  define s2 where "s2 = ieee80211_assign_tid_tx tid (Some t) (s1\<lparr>tid_start_tx := (tid_start_tx s1)(tid := None)\<rparr>)"
  have o2: "only_tid tid s s2" by (simp add: s2_def s1_def)
  have work: "ba_work_start env drv jiffies tid t s =
      (if q_frags q \<noteq> 0 then Some (True, s1\<lparr>agg_work := True\<rparr>)
       else map_option (Pair False) (ieee80211_tx_ba_session_handle_start env drv jiffies tid s2))"
    using none by (simp add: ba_work_start_def q Let_def s1_def s2_def)
  have "\<exists>s'. ieee80211_tx_ba_session_handle_start env drv jiffies tid s2 = Some s' \<and> tid_step env tid s2 s'"
    by (rule handle_start_step [where q = "q\<lparr>q_stop := True\<rparr>"]) (use calm q tid in \<open>simp_all add: s2_def s1_def calm_def new\<close>)
  moreover have "tid_step env tid s (s1\<lparr>agg_work := True\<rparr>)"
    using i' none by (auto simp: tid_step_def s1_def tid_inv_none)
  ultimately show ?thesis using work only_tid_trans [OF o2] by (auto simp: tid_step_def)
qed

lemma start_cb_step:
  assumes "calm s" "tid_inv env tid s"
  shows "tid_step env tid s (ieee80211_start_tx_ba_cb env jiffies tid s)"
proof (cases "tid_tx s tid")
  case None
  then show ?thesis using assms by (simp add: ieee80211_start_tx_ba_cb_def tid_step_refl)
next
  case (Some t)
  let ?s = "upd_tid_tx tid (\<lambda>t. t\<lparr>drv_ready := True\<rparr>) s"
  have t: "tid_tx ?s tid = Some (t\<lparr>drv_ready := True\<rparr>)" by (simp add: Some)
  have ready: "tid_step env tid s ?s" if "drv_ready t \<or> stopping t \<or> want_stop t \<or> sent_addba t"
    using assms(2) that Some by (auto simp: tid_step_def tid_inv_live agg_session_ok_def)
  have calm: "calm ?s" using assms(1) by (simp add: calm_def)
  consider "drv_ready t \<or> stopping t \<or> want_stop t" | "\<not> drv_ready t" "\<not> stopping t" "\<not> want_stop t" "\<not> sent_addba t"
    | "\<not> drv_ready t" "\<not> stopping t" "\<not> want_stop t" "sent_addba t" by blast
  then show ?thesis
  proof cases
    case 1
    then show ?thesis using ready Some by (auto simp: ieee80211_start_tx_ba_cb_def Let_def)
  next
    case 2
    then show ?thesis using ready_send_step [OF assms(2) Some] Some by (simp add: ieee80211_start_tx_ba_cb_def Let_def)
  next
    case 3
    then have st: "tid_step env tid s ?s" using ready by blast
    then show ?thesis using 3 Some operational_step(1) [OF calm _ t] tid_step_trans [OF st]
      by (auto simp: ieee80211_start_tx_ba_cb_def tid_step_def Let_def)
  qed
qed

lemma stop_cb_step:
  assumes "calm s" "tid_inv env tid s"
  shows "tid_step env tid s (ieee80211_stop_tx_ba_cb env tid s)"
proof (cases "tid_tx s tid")
  case None
  then show ?thesis using assms by (simp add: ieee80211_stop_tx_ba_cb_def tid_step_refl)
next
  case (Some t)
  have "ieee80211_remove_tid_tx env tid s = ieee80211_assign_tid_tx tid None s"
    unfolding ieee80211_remove_tid_tx_def using assms Some by (intro splice_assign) (simp_all add: tid_inv_live agg_session_ok_def)
  then show ?thesis using assms(2) Some
    by (auto simp: ieee80211_stop_tx_ba_cb_def tid_step_def tid_inv_live tid_inv_none Let_def)
qed


text \<open>Changes that do not touch the life of the session.\<close>

lemma upd_step:
  assumes "tid_inv env tid s" "\<And>t. tid_tx s tid = Some t \<Longrightarrow> agg_session_ok t \<Longrightarrow> agg_session_ok (g t)"
    "\<And>t. operational (g t) = operational t" "\<And>t. sent_addba (g t) = sent_addba t"
  shows "tid_step env tid s (upd_tid_tx tid g s)"
  using assms by (cases "tid_tx s tid") (auto simp: tid_step_def tid_inv_live tid_inv_none)

lemma upd_upd: "upd_tid_tx tid g (upd_tid_tx tid h s) = upd_tid_tx tid (g \<circ> h) s"
  by (simp add: upd_tid_tx_def option.map_comp)

lemma upd_txq_step:
  assumes "tid_inv env tid s" "\<And>q. q_stop (h q) = q_stop q" "\<And>q. q_ampdu (h q) = q_ampdu q"
  shows "tid_step env tid s (upd_agg_txq tid h s)"
  using assms by (cases "tid_tx s tid") (auto simp: tid_step_def tid_inv_live tid_inv_none)

lemma work_flag_step: "tid_step env tid s s' \<Longrightarrow> tid_step env tid s (s'\<lparr>agg_work := b\<rparr>)"
  by (simp add: tid_step_def tid_inv_def split: option.splits)

text \<open>The answer of the peer, accepted.\<close>

definition resp_accepted :: "agg_env \<Rightarrow> u64 \<Rightarrow> nat \<Rightarrow> u16 \<Rightarrow> bool \<Rightarrow> u16 \<Rightarrow> tid_ampdu_tx \<Rightarrow> agg_sta \<Rightarrow> agg_sta" where
  "resp_accepted env jiffies tid bsize amsdu timeout t s =
     (let s = upd_tid_tx tid (\<lambda>t. t\<lparr>response_received := True, agg_buf_size := bsize, agg_amsdu := amsdu\<rparr>) s;
          s = (if drv_ready t then ieee80211_agg_tx_operational env tid s else s);
          s = s\<lparr>addba_req_num := (addba_req_num s)(tid := 0)\<rparr>;
          s = upd_tid_tx tid (\<lambda>t. t\<lparr>agg_timeout := timeout\<rparr>) s
      in if timeout \<noteq> 0
         then upd_tid_tx tid (\<lambda>t. t\<lparr>agg_session_timer := Some (jiffies + TU_TO_JIFFIES timeout), agg_last_tx := jiffies\<rparr>) s
         else s)"

lemma resp_accepted_step:
  assumes calm: "calm s" and inv: "tid_inv env tid s" and t: "tid_tx s tid = Some t" and no: "\<not> want_stop t" "\<not> stopping t" "\<not> response_received t"
  shows "tid_step env tid s (resp_accepted env jiffies tid bsize amsdu timeout t (upd_tid_tx tid (\<lambda>t. t\<lparr>addba_resp_timer := None\<rparr>) s))"
proof -
  let ?g = "\<lambda>t. t\<lparr>addba_resp_timer := None, response_received := True, agg_buf_size := bsize, agg_amsdu := amsdu\<rparr>"
  let ?s1 = "upd_tid_tx tid ?g s"
  have upd: "upd_tid_tx tid (\<lambda>t. t\<lparr>response_received := True, agg_buf_size := bsize, agg_amsdu := amsdu\<rparr>)
      (upd_tid_tx tid (\<lambda>t. t\<lparr>addba_resp_timer := None\<rparr>) s) = ?s1" by (simp add: upd_upd comp_def)
  have s1: "tid_step env tid s ?s1" using inv t no by (intro upd_step) (auto simp: agg_session_ok_def)
  define s2 where "s2 = (if drv_ready t then ieee80211_agg_tx_operational env tid ?s1 else ?s1)"
  have "tid_step env tid ?s1 s2 \<and> (\<exists>t2. tid_tx s2 tid = Some t2 \<and> \<not> stopping t2)"
  proof (cases "drv_ready t")
    case True
    then have sent: "sent_addba t" using inv t no by (auto simp: tid_inv_live agg_session_ok_def)
    have i1: "tid_inv env tid ?s1" using s1 by (simp add: tid_step_def)
    note op = operational_step [OF tid_step_calm [OF s1 calm] i1, of "?g t"]
    show ?thesis using op True sent t no(2) by (simp add: s2_def)
  qed (use s1 t no(2) in \<open>simp add: s2_def tid_step_def\<close>)
  then obtain t2 where s2: "tid_step env tid s s2" "tid_tx s2 tid = Some t2" "\<not> stopping t2" using tid_step_trans [OF s1] by blast
  have "tid_step env tid s (s2\<lparr>addba_req_num := (addba_req_num s2)(tid := 0)\<rparr>)"
    using s2(1,2) by (simp add: tid_step_def tid_inv_live)
  then show ?thesis using s2(2,3) unfolding resp_accepted_def Let_def upd s2_def [symmetric]
    by (auto simp: tid_step_def tid_inv_live agg_session_ok_def)
qed

lemma process_addba_resp_eq:
  "ieee80211_process_addba_resp env parse jiffies body s =
     (let amsdu = resp_amsdu body; tid = resp_tid body; bsize = resp_buf_size env parse body;
          s = (if \<not> amsdu then upd_agg_txq tid (\<lambda>q. q\<lparr>q_no_amsdu := True\<rparr>) s else s);
          s' = upd_tid_tx tid (\<lambda>t. t\<lparr>addba_resp_timer := None\<rparr>) s
      in case tid_tx s tid of
           None \<Rightarrow> s
         | Some t \<Rightarrow>
             if body ! 0 \<noteq> agg_token t then s
             else if want_stop t \<or> stopping t then s'
             else if get_le16 body 1 = WLAN_STATUS_SUCCESS \<and> bsize \<noteq> 0 then
               (if response_received t then s' else resp_accepted env jiffies tid bsize amsdu (get_le16 body 5) t s')
             else snd (stop_tx_ba_session tid AGG_STOP_DECLINED s'))"
  unfolding ieee80211_process_addba_resp_def resp_accepted_def Let_def by (rule refl)


lemma declined_step:
  assumes "tid_inv env tid s" "tid_tx s tid = Some t" "\<not> stopping t"
  shows "tid_step env tid s (snd (stop_tx_ba_session tid reason (upd_tid_tx tid (\<lambda>t. t\<lparr>addba_resp_timer := None\<rparr>) s)))"
  using assms by (auto simp: tid_step_def stop_tx_ba_session_def tid_inv_live agg_session_ok_def Let_def ieee80211_agg_stop_txq_def)

lemma addba_resp_step:
  assumes inv: "agg_inv env s"
  shows "agg_inv env (ieee80211_process_addba_resp env parse jiffies body s)"
proof -
  define tid where "tid = resp_tid body"
  define s0 where "s0 = (if \<not> resp_amsdu body then upd_agg_txq tid (\<lambda>q. q\<lparr>q_no_amsdu := True\<rparr>) s else s)"
  have st0: "tid_step env tid s s0" using agg_invD [OF inv] upd_txq_step [of env tid s] by (simp add: s0_def tid_step_refl)
  note c0 = tid_step_agg [OF inv st0]
  then have i0: "tid_inv env tid s0" and calm: "calm s0" by (simp_all add: agg_invD agg_inv_calm)
  have "tid_step env tid s0 (ieee80211_process_addba_resp env parse jiffies body s)"
  proof (cases "tid_tx s0 tid")
    case None
    then show ?thesis using i0 by (simp add: process_addba_resp_eq Let_def tid_step_refl flip: tid_def s0_def)
  next
    case (Some t)
    have "tid_step env tid s0 (upd_tid_tx tid (\<lambda>t. t\<lparr>addba_resp_timer := None\<rparr>) s0)" if "want_stop t \<or> stopping t \<or> response_received t"
      using that i0 Some by (intro upd_step) (auto simp: agg_session_ok_def)
    then show ?thesis
      using i0 Some resp_accepted_step [OF calm i0 Some] declined_step [OF i0 Some]
      by (auto simp: process_addba_resp_eq Let_def tid_step_refl simp flip: tid_def s0_def)
  qed
  then show ?thesis using tid_step_agg [OF c0] by blast
qed

section \<open>The work\<close>

lemma queue_agg_view [simp]:
  "tid_tx (ieee80211_stop_queue_agg env u s) = tid_tx s" "tid_tx (ieee80211_wake_queue_agg env u s) = tid_tx s"
  by (simp_all add: ieee80211_stop_queue_agg_def ieee80211_wake_queue_agg_def Let_def)

lemma live_ops:
  "(\<exists>t. tid_tx (ieee80211_agg_tx_operational env tid s) tid = Some t) \<longleftrightarrow> (\<exists>t. tid_tx s tid = Some t)"
  "(\<exists>t. tid_tx (ieee80211_send_addba_with_timeout env jiffies tid s) tid = Some t) \<longleftrightarrow> (\<exists>t. tid_tx s tid = Some t)"
  by (auto simp: ieee80211_agg_tx_operational_def ieee80211_send_addba_with_timeout_def ieee80211_agg_splice_packets_def
      ieee80211_agg_splice_finish_def Let_def split: option.splits)

lemma start_cb_live: "tid_tx s tid \<noteq> None \<Longrightarrow> \<exists>t. tid_tx (ieee80211_start_tx_ba_cb env jiffies tid s) tid = Some t"
  by (auto simp: ieee80211_start_tx_ba_cb_def live_ops Let_def split: option.splits)

lemma local_stop_step:
  assumes "tid_inv env tid s" "tid_tx s tid = Some t"
  shows "tid_step env tid s (snd (stop_tx_ba_session tid reason (upd_tid_tx tid (\<lambda>t. t\<lparr>want_stop := False\<rparr>) s)))"
    "tid_tx (snd (stop_tx_ba_session tid reason (upd_tid_tx tid (\<lambda>t. t\<lparr>want_stop := False\<rparr>) s))) tid \<noteq> None"
  using assms by (auto simp: tid_step_def stop_tx_ba_session_def tid_inv_live agg_session_ok_def Let_def ieee80211_agg_stop_txq_def)

lemma work_bits_step:
  assumes calm: "calm s" and inv: "tid_inv env tid s" and t: "tid_tx s tid = Some t"
  shows "\<exists>s'. ba_work_bits env jiffies blocked tid t s = Some s' \<and> tid_step env tid s s'"
proof -
  define s1 where "s1 = (if \<not> blocked \<and> start_cb t
      then ieee80211_start_tx_ba_cb env jiffies tid (upd_tid_tx tid (\<lambda>t. t\<lparr>start_cb := False\<rparr>) s) else s)"
  have c: "tid_step env tid s (upd_tid_tx tid (\<lambda>t. t\<lparr>start_cb := False\<rparr>) s)" by (intro upd_step inv) (simp_all add: agg_session_ok_def)
  have s1: "tid_step env tid s s1" unfolding s1_def
    using tid_step_trans [OF c start_cb_step] tid_step_calm [OF c calm] c inv by (simp add: tid_step_def)
  obtain t1 where t1: "tid_tx s1 tid = Some t1"
    using t start_cb_live [of "upd_tid_tx tid (\<lambda>t. t\<lparr>start_cb := False\<rparr>) s" tid env jiffies]
    by (cases "\<not> blocked \<and> start_cb t") (auto simp: s1_def)
  have i1: "tid_inv env tid s1" using s1 by (simp add: tid_step_def)
  define s2 where "s2 = (if want_stop t1
      then snd (stop_tx_ba_session tid AGG_STOP_LOCAL_REQUEST (upd_tid_tx tid (\<lambda>t. t\<lparr>want_stop := False\<rparr>) s1)) else s1)"
  have s2: "tid_step env tid s1 s2" "tid_tx s2 tid \<noteq> None"
    using local_stop_step [OF i1 t1] t1 i1 by (simp_all add: s2_def tid_step_refl)
  then obtain t2 where t2: "tid_tx s2 tid = Some t2" by blast
  have i2: "tid_inv env tid s2" using s2(1) by (simp add: tid_step_def)
  let ?s3 = "upd_tid_tx tid (\<lambda>t. t\<lparr>stop_cb := False\<rparr>) s2"
  have s3: "tid_step env tid s2 ?s3" by (intro upd_step i2) (simp_all add: agg_session_ok_def)
  have "calm ?s3" using tid_step_calm s1 s2(1) s3 calm by blast
  then have "tid_step env tid ?s3 (ieee80211_stop_tx_ba_cb env tid ?s3)" using stop_cb_step s3 by (simp add: tid_step_def)
  then have "tid_step env tid s (if stop_cb t2 then ieee80211_stop_tx_ba_cb env tid ?s3 else s2)"
    using tid_step_trans [OF s1 s2(1)] tid_step_trans [OF tid_step_trans [OF tid_step_trans [OF s1 s2(1)] s3]] by simp
  moreover have "ba_work_bits env jiffies blocked tid t s = Some (if stop_cb t2 then ieee80211_stop_tx_ba_cb env tid ?s3 else s2)"
    unfolding ba_work_bits_def s1_def [symmetric] Let_def t1 option.case s2_def [symmetric] t2 by simp
  ultimately show ?thesis by blast
qed

lemma work_tid_step:
  assumes inv: "agg_inv env s"
  shows "\<exists>b s'. ba_work_tid env drv jiffies blocked tid s = Some (b, s') \<and> agg_inv env s'"
proof (cases "\<not> blocked \<and> tid_start_tx s tid \<noteq> None")
  case True
  then obtain t where t: "tid_start_tx s tid = Some t" by blast
  then show ?thesis using True work_start_step [OF inv t, of drv jiffies] tid_step_agg [OF inv] by (auto simp: ba_work_tid_def)
next
  case False
  show ?thesis
  proof (cases "tid_tx s tid")
    case None
    then show ?thesis using False inv by (auto simp: ba_work_tid_def)
  next
    case (Some t)
    then show ?thesis
      using False work_bits_step [OF agg_inv_calm [OF inv] agg_invD [OF inv] Some, of jiffies blocked] tid_step_agg [OF inv]
      by (auto simp: ba_work_tid_def)
  qed
qed

lemma work_tids_step: "agg_inv env s \<Longrightarrow> \<exists>s'. ba_work_tids env drv jiffies blocked tids s = Some s' \<and> agg_inv env s'"
proof (induction tids arbitrary: s)
  case (Cons tid tids)
  then obtain b s' where "ba_work_tid env drv jiffies blocked tid s = Some (b, s')" "agg_inv env s'" using work_tid_step by blast
  then show ?case using Cons.IH by (cases b) auto
qed simp

lemma agg_inv_work [simp]: "agg_inv env (s\<lparr>agg_work := b\<rparr>) = agg_inv env s"
  by (simp add: agg_inv_def tid_inv_def cong: option.case_cong)

lemma work_step: "agg_inv env s \<Longrightarrow> \<exists>s'. ieee80211_ba_session_work env drv jiffies s = Some s' \<and> agg_inv env s'"
  by (simp add: ieee80211_ba_session_work_def work_tids_step del: upt_Suc)

lemma tear_down_step:
  assumes "agg_inv env s"
  shows "agg_inv env (ieee80211_sta_tear_down_BA_sessions env reason s)"
proof -
  have a: "agg_inv env (fold (\<lambda>i s. snd (stop_tx_ba_session i reason s)) tids s)" if "agg_inv env s" for tids s
    using that tid_step_agg [OF _ stop_session_step [OF agg_invD]] by (induction tids arbitrary: s) simp_all
  have one: "agg_inv env (case tid_tx s i of None \<Rightarrow> s
      | Some t \<Rightarrow> if stop_cb t then ieee80211_stop_tx_ba_cb env i (upd_tid_tx i (\<lambda>t. t\<lparr>stop_cb := False\<rparr>) s) else s)" if "agg_inv env s" for i s
  proof -
    have "tid_step env i s (upd_tid_tx i (\<lambda>t. t\<lparr>stop_cb := False\<rparr>) s)" by (intro upd_step agg_invD that) (simp_all add: agg_session_ok_def)
    from tid_step_agg [OF that this] have "agg_inv env (upd_tid_tx i (\<lambda>t. t\<lparr>stop_cb := False\<rparr>) s)" .
    from tid_step_agg [OF this stop_cb_step [OF agg_inv_calm [OF this] agg_invD [OF this]]] that
    show ?thesis by (auto split: option.split)
  qed
  have b: "agg_inv env (fold (\<lambda>i s. case tid_tx s i of None \<Rightarrow> s
      | Some t \<Rightarrow> if stop_cb t then ieee80211_stop_tx_ba_cb env i (upd_tid_tx i (\<lambda>t. t\<lparr>stop_cb := False\<rparr>) s) else s) tids s)"
    if "agg_inv env s" for tids s
    using that one by (induction tids arbitrary: s) simp_all
  show ?thesis unfolding ieee80211_sta_tear_down_BA_sessions_def Let_def using a [OF assms] b by auto
qed

end
