(* ===== verification/TxBaProps.thy ===== *)
theory TxBaProps
  imports TxBaInv RxBaProps
begin

text \<open>
  The properties of transmit block-ack sessions: over every sequence of events, the agreement of the two sides, a peer that
  does not answer, and the two ways in which a queue stays stopped for good.
\<close>


section \<open>Examples\<close>

definition demo_agg_env :: agg_env where
  "demo_agg_env =
     \<lparr>agg_caps = demo_caps, vht_supported = True, has_ampdu_action = True, AMPDU_AGGREGATION = True, TX_AMPDU_SETUP_IN_HW = False,
      vif_type = NL80211_IFTYPE_STATION, reserved_tid = 255, max_tx_aggregation_subframes = 64, hw_queue = (\<lambda>ac. ac)\<rparr>"

definition demo_agg_sta :: agg_sta where
  "demo_agg_sta =
     \<lparr>tid_tx = (\<lambda>_. None), tid_start_tx = (\<lambda>_. None), last_addba_req_time = (\<lambda>_. 0), addba_req_num = (\<lambda>_. 0),
      dialog_token_allocator = 0, agg_work = False, sta_block_ba = False, sta_mfp = False, sta_authorized = True,
      sta_txq = (\<lambda>_. Some \<lparr>q_stop = False, q_ampdu = False, q_no_amsdu = False, q_frags = 0\<rparr>), tid_seq = (\<lambda>_. 0x640),
      agg_queue_stop = (\<lambda>_. 0), agg_stopped = (\<lambda>_. False), local_pending = (\<lambda>_. []), agg_out = []\<rparr>"

definition demo_parse :: "u8 list \<Rightarrow> u8 option" where
  "demo_parse elems = (if length elems = 3 then Some (elems ! 2) else None)"

text \<open>The driver accepts at once, or has the request put off until it is ready.\<close>

definition drv_immediate :: "nat \<Rightarrow> u16 \<Rightarrow> int \<times> u16" where
  "drv_immediate tid start = (1, start)"

definition drv_delay :: "nat \<Rightarrow> u16 \<Rightarrow> int \<times> u16" where
  "drv_delay tid start = (2, start)"

text \<open>The answer of a receiver that grants 32 frames on TID 5 with dialog token 1.\<close>

definition demo_resp :: "u8 list" where
  "demo_resp = ieee80211_send_addba_resp demo_caps True 5 1 WLAN_STATUS_SUCCESS 1 32 0 1"

text \<open>What is to be seen of TID 5: the state bits, the timer, and whether its transmit queue is marked and stopped.\<close>

definition tid5 :: "agg_sta \<Rightarrow> (bool \<times> bool \<times> bool \<times> bool \<times> bool) option \<times> (bool \<times> bool) option" where
  "tid5 s =
     (map_option (\<lambda>t. (drv_ready t, sent_addba t, response_received t, operational t, addba_resp_timer t \<noteq> None)) (tid_tx s 5),
      map_option (\<lambda>q. (q_ampdu q, q_stop q)) (sta_txq s 5))"


section \<open>Runs\<close>

text \<open>What can happen: requests, the work, the driver and the peer answering, timers, frames, flags of the station, and fragments that come and go.\<close>

datatype agg_event =
    AggStart u64 bool nat u16
  | AggWork u64 "nat \<Rightarrow> u16 \<Rightarrow> int \<times> u16"
  | AggStartCb nat
  | AggStopCb nat
  | AggStop nat
  | AggAddbaTimer nat
  | AggSessionTimer u64 nat
  | AggResp u64 "u8 list"
  | AggDelba "u8 list"
  | AggTearDown ieee80211_agg_stop_reason
  | AggTx u64 nat nat
  | AggRefresh u64 nat
  | AggBarFailed nat u16
  | AggAcked nat
  | AggFrags nat nat
  | AggFlags bool bool bool

text \<open>A timer fires only if it is armed, and is not armed any more then.\<close>

fun agg_step :: "agg_env \<Rightarrow> (u8 list \<Rightarrow> u8 option) \<Rightarrow> agg_event \<Rightarrow> agg_sta \<Rightarrow> agg_sta option" where
  "agg_step env parse (AggStart jiffies alloc tid timeout) s = Some (snd (ieee80211_start_tx_ba_session env jiffies alloc tid timeout s))"
| "agg_step env parse (AggWork jiffies drv) s = ieee80211_ba_session_work env drv jiffies s"
| "agg_step env parse (AggStartCb tid) s = Some (ieee80211_start_tx_ba_cb_irqsafe tid s)"
| "agg_step env parse (AggStopCb tid) s = Some (ieee80211_stop_tx_ba_cb_irqsafe tid s)"
| "agg_step env parse (AggStop tid) s = Some (snd (ieee80211_stop_tx_ba_session env tid s))"
| "agg_step env parse (AggAddbaTimer tid) s =
     (case tid_tx s tid of
        Some t \<Rightarrow> if addba_resp_timer t \<noteq> None
                  then Some (sta_addba_resp_timer_expired env tid (upd_tid_tx tid (\<lambda>t. t\<lparr>addba_resp_timer := None\<rparr>) s)) else Some s
      | None \<Rightarrow> Some s)"
| "agg_step env parse (AggSessionTimer jiffies tid) s =
     (case tid_tx s tid of
        Some t \<Rightarrow> if agg_session_timer t \<noteq> None
                  then Some (sta_tx_agg_session_timer_expired env jiffies tid (upd_tid_tx tid (\<lambda>t. t\<lparr>agg_session_timer := None\<rparr>) s)) else Some s
      | None \<Rightarrow> Some s)"
| "agg_step env parse (AggResp jiffies body) s = Some (ieee80211_process_addba_resp env parse jiffies body s)"
| "agg_step env parse (AggDelba body) s = Some (ieee80211_process_delba body s)"
| "agg_step env parse (AggTearDown reason) s = Some (ieee80211_sta_tear_down_BA_sessions env reason s)"
| "agg_step env parse (AggTx jiffies tid skb) s = Some (snd (snd (ieee80211_tx_prep_agg jiffies tid skb s)))"
| "agg_step env parse (AggRefresh jiffies tid) s = Some (ieee80211_refresh_tx_agg_session_timer jiffies tid s)"
| "agg_step env parse (AggBarFailed tid start) s = Some (ieee80211_set_bar_pending tid start s)"
| "agg_step env parse (AggAcked tid) s = Some (ieee80211_check_pending_bar tid s)"
| "agg_step env parse (AggFrags tid n) s = Some (upd_agg_txq tid (\<lambda>q. q\<lparr>q_frags := n\<rparr>) s)"
| "agg_step env parse (AggFlags block mfp auth) s = Some (s\<lparr>sta_block_ba := block, sta_mfp := mfp, sta_authorized := auth\<rparr>)"

fun agg_run :: "agg_env \<Rightarrow> (u8 list \<Rightarrow> u8 option) \<Rightarrow> agg_event list \<Rightarrow> agg_sta \<Rightarrow> agg_sta option" where
  "agg_run env parse [] s = Some s"
| "agg_run env parse (e # es) s = (case agg_step env parse e s of None \<Rightarrow> None | Some s \<Rightarrow> agg_run env parse es s)"

lemma addba_timer_step:
  assumes "tid_inv env tid s" "tid_tx s tid = Some t" "addba_resp_timer t \<noteq> None"
  shows "tid_step env tid s (sta_addba_resp_timer_expired env tid (upd_tid_tx tid (\<lambda>t. t\<lparr>addba_resp_timer := None\<rparr>) s))"
  using assms by (auto simp: tid_step_def sta_addba_resp_timer_expired_def ieee80211_stop_tx_ba_session_def tid_inv_live agg_session_ok_def)

lemma session_timer_step:
  assumes "tid_inv env tid s" "tid_tx s tid = Some t"
  shows "tid_step env tid s (sta_tx_agg_session_timer_expired env jiffies tid (upd_tid_tx tid (\<lambda>t. t\<lparr>agg_session_timer := None\<rparr>) s))"
  using assms by (auto simp: tid_step_def sta_tx_agg_session_timer_expired_def ieee80211_stop_tx_ba_session_def tid_inv_live agg_session_ok_def Let_def)

lemma start_session_step:
  assumes "tid_inv env tid s"
  shows "tid_step env tid s (snd (ieee80211_start_tx_ba_session env jiffies alloc tid timeout s))"
  using assms by (auto simp: tid_step_def ieee80211_start_tx_ba_session_def start_tx_check_def tid_inv_none Let_def not_less)

lemma tx_step:
  assumes "agg_inv env s"
  shows "tid_step env tid s (snd (snd (ieee80211_tx_prep_agg jiffies tid skb s)))"
proof (cases "tid_tx s tid")
  case None
  then show ?thesis using agg_invD [OF assms] by (simp add: ieee80211_tx_prep_agg_def tid_step_refl)
next
  case (Some t)
  have "tid_inv env tid s" using agg_invD [OF assms] .
  moreover from this have "sta_txq s tid \<noteq> None" using assms Some by (simp add: agg_inv_def tid_inv_live)
  moreover have "tid_step env tid s (upd_tid_tx tid (\<lambda>t. t\<lparr>agg_last_tx := jiffies\<rparr>) s)"
    by (rule upd_step [OF \<open>tid_inv env tid s\<close>]) (simp_all add: agg_session_ok_def)
  ultimately show ?thesis using Some by (auto simp: ieee80211_tx_prep_agg_def tid_step_refl)
qed

lemma agg_step_inv:
  assumes inv: "agg_inv env s"
  shows "\<exists>s'. agg_step env parse e s = Some s' \<and> agg_inv env s'"
proof -
  note i = agg_invD [OF inv] and step = tid_step_agg [OF inv]
  have upd: "agg_inv env (upd_tid_tx tid g s)" if "\<And>t. agg_session_ok t \<Longrightarrow> agg_session_ok (g t)" "\<And>t. operational (g t) = operational t" "\<And>t. sent_addba (g t) = sent_addba t" for tid g
    by (rule step [OF upd_step [OF i]]) (use that in simp_all)
  show ?thesis
  proof (cases e)
    case AggStart
    then show ?thesis using step [OF start_session_step [OF i]] by simp
  next
    case AggWork
    then show ?thesis using work_step [OF inv] by simp
  next
    case AggStartCb
    then show ?thesis using upd [of "\<lambda>t. t\<lparr>start_cb := True\<rparr>"] inv
      by (auto simp: ieee80211_start_tx_ba_cb_irqsafe_def agg_session_ok_def split: option.split)
  next
    case AggStopCb
    then show ?thesis using upd [of "\<lambda>t. t\<lparr>stop_cb := True\<rparr>"] inv
      by (auto simp: ieee80211_stop_tx_ba_cb_irqsafe_def agg_session_ok_def split: option.split)
  next
    case AggStop
    then show ?thesis using step [OF request_stop_step [OF i]] by simp
  next
    case (AggAddbaTimer tid)
    then show ?thesis using step [OF addba_timer_step [OF i]] inv by (auto split: option.split)
  next
    case (AggSessionTimer jiffies tid)
    then show ?thesis using step [OF session_timer_step [OF i]] inv by (auto split: option.split)
  next
    case AggResp
    then show ?thesis using addba_resp_step [OF inv] by simp
  next
    case AggDelba
    then show ?thesis using step [OF stop_session_step [OF i]] inv by (simp add: ieee80211_process_delba_def Let_def)
  next
    case AggTearDown
    then show ?thesis using tear_down_step [OF inv] by simp
  next
    case AggTx
    then show ?thesis using step [OF tx_step [OF inv]] by simp
  next
    case AggRefresh
    then show ?thesis using upd inv by (simp add: ieee80211_refresh_tx_agg_session_timer_def agg_session_ok_def)
  next
    case AggBarFailed
    then show ?thesis using upd by (simp add: ieee80211_set_bar_pending_def agg_session_ok_def)
  next
    case (AggAcked tid)
    have "agg_inv env (ieee80211_send_bar tid b (upd_tid_tx tid (\<lambda>t. t\<lparr>bar_pending := False\<rparr>) s))" for b
      using upd_step [OF i, of tid "\<lambda>t. t\<lparr>bar_pending := False\<rparr>"]
      by (intro step [of tid]) (auto simp: ieee80211_send_bar_def tid_step_def agg_session_ok_def tid_inv_def split: option.splits)
    then show ?thesis using AggAcked inv by (auto simp: ieee80211_check_pending_bar_def split: option.split)
  next
    case AggFrags
    then show ?thesis using step [OF upd_txq_step [OF i]] by simp
  next
    case AggFlags
    then show ?thesis using inv by (simp add: agg_inv_def tid_inv_def cong: option.case_cong)
  qed
qed

lemma agg_run_inv: "agg_inv env s \<Longrightarrow> \<exists>s'. agg_run env parse es s = Some s' \<and> agg_inv env s'"
proof (induction es arbitrary: s)
  case (Cons e es)
  then show ?case using agg_step_inv [of env s parse e] by auto
qed simp

text \<open>A station as it is allocated, with the transmit queues of a driver that uses them.\<close>

definition fresh_agg_sta :: "agg_sta \<Rightarrow> bool" where
  "fresh_agg_sta s \<longleftrightarrow>
     tid_tx s = (\<lambda>_. None) \<and> tid_start_tx s = (\<lambda>_. None) \<and> addba_req_num s = (\<lambda>_. 0) \<and>
     (\<forall>tid < IEEE80211_NUM_TIDS. sta_txq s tid \<noteq> None) \<and> (\<forall>tid q. sta_txq s tid = Some q \<longrightarrow> \<not> q_ampdu q) \<and>
     agg_queue_stop s = (\<lambda>_. 0) \<and> agg_stopped s = (\<lambda>_. False)"

lemma fresh_inv: "fresh_agg_sta s \<Longrightarrow> agg_inv env s"
  by (simp add: fresh_agg_sta_def agg_inv_def tid_inv_none)

text \<open>C3: In every state that the events can reach from a fresh station the session work and every other event return, and
  every session is sound: no second one is requested beside it, it is operational only when the driver is ready and
  the request was sent and answered, the transmit queue of its TID is stopped exactly as long as it is not operational and
  marked for aggregation as soon as it is, and while it waits for an answer the response timer is armed. No hardware queue
  stays stopped, a queue without a session is not marked, and no TID has more than 16 unanswered requests.\<close>

theorem agg_run_safe:
  assumes "fresh_agg_sta s"
  shows "\<exists>s'. agg_run env parse es s = Some s' \<and>
     (\<forall>tid t q. tid_tx s' tid = Some t \<and> sta_txq s' tid = Some q \<longrightarrow>
        tid < 16 \<and> tid_start_tx s' tid = None \<and> \<not> want_start t \<and>
        (operational t \<longrightarrow> drv_ready t \<and> response_received t \<and> sent_addba t \<and> \<not> stopping t \<and> q_ampdu q) \<and>
        q_stop q = (\<not> operational t) \<and>
        (sent_addba t \<and> \<not> response_received t \<and> \<not> want_stop t \<and> \<not> stopping t \<longrightarrow> addba_resp_timer t \<noteq> None)) \<and>
     (\<forall>tid q. tid_tx s' tid = None \<and> sta_txq s' tid = Some q \<longrightarrow> \<not> q_ampdu q) \<and>
     (\<forall>tid. addba_req_num s' tid \<le> 16) \<and> agg_stopped s' = (\<lambda>_. False)"
proof -
  obtain s' where s': "agg_run env parse es s = Some s'" "agg_inv env s'" using agg_run_inv [OF fresh_inv [OF assms]] by blast
  have "addba_req_num s' tid \<le> 16" for tid using agg_invD [OF s'(2), of tid] by (cases "tid_tx s' tid") (simp_all add: tid_inv_def)
  moreover have "\<not> q_ampdu q" if "tid_tx s' tid = None" "sta_txq s' tid = Some q" for tid q
    using agg_invD [OF s'(2), of tid] that by (simp add: tid_inv_none)
  moreover have "agg_stopped s' = (\<lambda>_. False)" using s'(2) by (simp add: agg_inv_def)
  moreover have "tid < 16 \<and> tid_start_tx s' tid = None \<and> \<not> want_start t \<and>
        (operational t \<longrightarrow> drv_ready t \<and> response_received t \<and> sent_addba t \<and> \<not> stopping t \<and> q_ampdu q) \<and>
        q_stop q = (\<not> operational t) \<and>
        (sent_addba t \<and> \<not> response_received t \<and> \<not> want_stop t \<and> \<not> stopping t \<longrightarrow> addba_resp_timer t \<noteq> None)"
    if "tid_tx s' tid = Some t" "sta_txq s' tid = Some q" for tid t q
    using agg_invD [OF s'(2), of tid] that by (simp add: tid_inv_live agg_session_ok_def)
  ultimately show ?thesis using s'(1) by blast
qed

theorem agg_run_safe_witness:
  "\<exists>s'. agg_run demo_agg_env demo_parse [AggStart 10 True 5 0, AggWork 11 drv_immediate, AggResp 12 demo_resp] demo_agg_sta = Some s' \<and>
     tid5 s' = (Some (True, True, True, True, False), Some (True, False)) \<and>
     (\<forall>tid t q. tid_tx s' tid = Some t \<and> sta_txq s' tid = Some q \<longrightarrow> q_stop q = (\<not> operational t)) \<and> agg_stopped s' = (\<lambda>_. False)"
proof -
  let ?es = "[AggStart 10 True 5 0, AggWork 11 drv_immediate, AggResp 12 demo_resp]"
  have f: "fresh_agg_sta demo_agg_sta" by (simp add: fresh_agg_sta_def demo_agg_sta_def)
  have v: "map_option tid5 (agg_run demo_agg_env demo_parse ?es demo_agg_sta) = Some (Some (True, True, True, True, False), Some (True, False))"
    by code_simp
  from agg_run_safe [OF f, of demo_agg_env demo_parse ?es] v show ?thesis by fastforce
qed


section \<open>Both sides\<close>

text \<open>The steps on the transmitting side when the driver takes the session: the state in which the request was sent.\<close>

definition requested :: "agg_env \<Rightarrow> u64 \<Rightarrow> u16 \<Rightarrow> u8 \<Rightarrow> bool \<Rightarrow> u16 \<Rightarrow> tid_ampdu_tx" where
  "requested env jiffies timeout token ready start =
     (new_tid_tx timeout token)\<lparr>want_start := False, agg_ssn := start, drv_ready := ready, sent_addba := True,
        addba_resp_timer := Some (jiffies + ADDBA_RESP_INTERVAL)\<rparr>"

definition request_size :: "agg_env \<Rightarrow> u16" where
  "request_size env =
     (if has_eht (agg_caps env) then max_tx_aggregation_subframes env
      else if has_he (agg_caps env) then min (max_tx_aggregation_subframes env) IEEE80211_MAX_AMPDU_BUF_HE
      else IEEE80211_MAX_AMPDU_BUF_HT)"

lemma handle_start_sends:
  assumes "tid_tx s tid = Some (new_tid_tx timeout token)" "txdrv tid (drop_bit 4 (tid_seq s tid)) = (if ready then 1 else 0, start)"
  shows "\<exists>s1. ieee80211_tx_ba_session_handle_start env txdrv jiffies tid s = Some s1 \<and>
     tid_tx s1 tid = Some (requested env jiffies timeout token ready start) \<and> sta_txq s1 = sta_txq s \<and> calm s1 = calm s \<and>
     (\<exists>e. agg_out s1 = agg_out s @ [e, AggSendAddba tid
        (ieee80211_send_addba_request (agg_caps env) (of_nat tid) token start (request_size env) timeout)])"
  using assms
  by (cases ready)
    (auto simp: ieee80211_tx_ba_session_handle_start_def ieee80211_send_addba_with_timeout_def Let_def request_size_def requested_def
      new_tid_tx_def calm_def agg_prims)

lemma resp_wire:
  assumes "tid < 16" "wire_size c bsz" "\<And>d. parse [159, 1, d] = Some d" "has_he c = has_he (agg_caps env)" "has_eht c = has_eht (agg_caps env)"
    and body_def: "body = ieee80211_send_addba_resp c amsdu (of_nat tid) token status 1 bsz timeout ext"
  shows "resp_tid body = tid" "resp_amsdu body = amsdu" "resp_buf_size env parse body = min bsz (max_tx_aggregation_subframes env)"
    "body ! 0 = token" "get_le16 body 1 = status" "get_le16 body 5 = timeout"
proof -
  let ?tid = "of_nat tid :: u16"
  have tid: "unat ?tid = tid" using assms(1) by (simp add: unat_of_nat)
  then have "unat ?tid < 16" using assms(1) by simp
  note capab = addba_resp_capab [OF this, of amsdu 1 bsz]
  have "snd (ieee80211_retrieve_addba_ext_data parse (agg_caps env) (if has_he c then ieee80211_add_addbaext ext bsz else []) (bsz AND mask 10)) = bsz"
    unfolding assms(4) using assms(2-5) by (intro retrieve_size) (simp_all add: wire_size_def)
  then show "resp_tid body = tid" "resp_amsdu body = amsdu" "resp_buf_size env parse body = min bsz (max_tx_aggregation_subframes env)"
    "body ! 0 = token" "get_le16 body 1 = status" "get_le16 body 5 = timeout"
    unfolding body_def ieee80211_send_addba_resp_def resp_tid_def resp_amsdu_def resp_buf_size_def Let_def token_fields capab
    by (simp_all only: tid nth_Cons_0)
qed

text \<open>The transmitting side gets the answer and the driver reports that it is ready, if it was not at once.\<close>

lemma resp_opens:
  assumes "calm s" "tid_tx s tid = Some (requested env jiffies0 timeout0 token ready start)" "sta_txq s tid = Some q"
    and "resp_tid body = tid" "body ! 0 = token" "get_le16 body 1 = WLAN_STATUS_SUCCESS" "resp_buf_size env parse body \<noteq> 0"
  shows "\<exists>t q. tid_tx (ieee80211_start_tx_ba_cb env jiffies' tid (ieee80211_process_addba_resp env parse jiffies body s)) tid = Some t \<and>
     sta_txq (ieee80211_start_tx_ba_cb env jiffies' tid (ieee80211_process_addba_resp env parse jiffies body s)) tid = Some q \<and>
     operational t \<and> agg_ssn t = start \<and> agg_buf_size t = resp_buf_size env parse body \<and> agg_timeout t = get_le16 body 5 \<and>
     agg_amsdu t = resp_amsdu body \<and> q_ampdu q \<and> \<not> q_stop q"
proof -
  define s0 where "s0 = (if \<not> resp_amsdu body then upd_agg_txq tid (\<lambda>q. q\<lparr>q_no_amsdu := True\<rparr>) s else s)"
  let ?s' = "upd_tid_tx tid (\<lambda>t. t\<lparr>addba_resp_timer := None\<rparr>) s0"
  let ?t = "requested env jiffies0 timeout0 token ready start"
  have s0: "calm s0" "tid_tx s0 tid = Some ?t" "\<exists>q. sta_txq s0 tid = Some q" using assms(1-3) by (auto simp: s0_def calm_def)
  have "ieee80211_process_addba_resp env parse jiffies body s
     = resp_accepted env jiffies tid (resp_buf_size env parse body) (resp_amsdu body) (get_le16 body 5) ?t ?s'"
    using assms(4-7) s0(2) by (simp add: process_addba_resp_eq Let_def flip: s0_def) (simp add: requested_def new_tid_tx_def)
  then show ?thesis using s0
    by (auto simp: resp_accepted_def operational_eq ieee80211_start_tx_ba_cb_def requested_def new_tid_tx_def calm_def Let_def)
qed

lemma request_size_bounds:
  assumes "0 < max_tx_aggregation_subframes env" "max_tx_aggregation_subframes env \<le> 1024"
    and "has_he c = has_he (agg_caps env)" "has_eht c = has_eht (agg_caps env)" "has_eht c \<longrightarrow> has_he c"
  shows "0 < request_size env" "request_size env \<le> max_buf_size c" "b \<le> request_size env \<Longrightarrow> wire_size c b"
  using assms by (auto simp: request_size_def max_buf_size_def wire_size_def word_le_nat_alt word_less_nat_alt min_def split: if_splits)

lemma clamp_bounds:
  assumes "0 < bsize" "0 < max_rx_aggregation_subframes c"
  shows "0 < clamp_buf_size c bsize" "clamp_buf_size c bsize \<le> bsize"
  using assms by (auto simp: clamp_buf_size_def Let_def)

text \<open>C24: The two sides of a session agree. A transmitter asks for a session whose driver accepts it with the starting number
  \<open>start\<close>, at once or later; its ADDBA request reaches a receiver whose checks pass, whose driver agrees and which has
  memory; the ADDBA response that the receiver builds goes back. Then the receiver has a fresh reorder session for the TID whose
  head is \<open>start\<close>, and the transmitter, once its driver is ready, has an operational session with the same starting number and
  timeout and a window that is not empty and not larger than the receiver's buffer, both within what their hardware supports, and its transmit queue runs, marked for
  aggregation. The element parser is assumed to return the data byte of an ADDBA extension element.\<close>

theorem addba_handshake:
  assumes caps: "has_he c = has_he (agg_caps env)" "has_eht c = has_eht (agg_caps env)" "has_eht c \<longrightarrow> has_he c"
      "0 < max_tx_aggregation_subframes env" "max_tx_aggregation_subframes env \<le> 1024" "0 < max_rx_aggregation_subframes c"
    and tx: "calm s" "tid_tx s tid = Some (new_tid_tx timeout token)" "sta_txq s tid \<noteq> None"
      "txdrv tid (drop_bit 4 (tid_seq s tid)) = (if ready then 1 else 0, start)" "unat start < 4096"
    and rx: "mlme_inv m" "tid < 8" "link_usable c" "ht_supported c \<or> band_6ghz c" "\<not> block_ba c" "\<not> hw_reordering c" "\<And>p. rxdrv p"
      "\<not> (agg_session_valid m ! tid \<and> tid_rx_token m ! tid = token)"
    and parse: "\<And>d. parse [159, 1, d] = Some d"
  shows "\<exists>s1 e req m' freed eff bsize ext r s3 t q.
     ieee80211_tx_ba_session_handle_start env txdrv jiffies tid s = Some s1 \<and> agg_out s1 = agg_out s @ [e, AggSendAddba tid req] \<and>
     ieee80211_process_addba_request parse c rxdrv True jiffies1 m req
       = (m', freed, eff @ [SendAddbaResp tid token WLAN_STATUS_SUCCESS 1 bsize timeout ext]) \<and>
     s3 = ieee80211_start_tx_ba_cb env jiffies3 tid (ieee80211_process_addba_resp env parse jiffies2
            (ieee80211_send_addba_resp c amsdu (of_nat tid) token WLAN_STATUS_SUCCESS 1 bsize timeout ext) s1) \<and>
     tid_rx m' ! tid = Some r \<and> tid_tx s3 tid = Some t \<and> sta_txq s3 tid = Some q \<and>
     head_seq_num r = start \<and> agg_ssn t = start \<and> ba_timeout r = timeout \<and> agg_timeout t = timeout \<and> operational t \<and>
     0 < agg_buf_size t \<and> agg_buf_size t \<le> buf_size r \<and> length (reorder_buf r) = unat (buf_size r) \<and>
     buf_size r \<le> max_rx_aggregation_subframes c \<and> agg_buf_size t \<le> max_tx_aggregation_subframes env \<and>
     agg_amsdu t = amsdu \<and> q_ampdu q \<and> \<not> q_stop q"
proof -
  let ?t = "requested env jiffies timeout token ready start" and ?bsize = "clamp_buf_size c (request_size env)"
  define req where "req = ieee80211_send_addba_request (agg_caps env) (of_nat tid) token start (request_size env) timeout"
  obtain s1 e q where s1: "ieee80211_tx_ba_session_handle_start env txdrv jiffies tid s = Some s1" "tid_tx s1 tid = Some ?t" "calm s1"
      "sta_txq s1 tid = Some q" "agg_out s1 = agg_out s @ [e, AggSendAddba tid req]"
    using handle_start_sends [where txdrv = txdrv, OF tx(2,4), of env jiffies] tx(1,3) by (auto simp: req_def)
  have tid: "unat (of_nat tid :: u16) = tid" using rx(2) by (simp add: unat_of_nat)
  note size = request_size_bounds [OF caps(4,5,1,2,3)] and clamp = clamp_bounds [OF _ caps(6), of "request_size env"]
  have wire: "wire_size (agg_caps env) (request_size env)" using size(3) caps(1,2) by (simp add: wire_size_def)
  obtain ext where p: "parse_addba_request parse c req = \<lparr>r_token = token, r_timeout = timeout, r_ssn = start, r_policy = 1,
      r_tid = of_nat tid, r_buf_size = request_size env, r_ext = ext\<rparr>"
    unfolding req_def using addba_request_roundtrip [OF wire, of "of_nat tid" start parse c token timeout] tid rx(2) tx(5) parse caps(1,2) by auto
  have "addba_check c tid 1 (request_size env) = None" using rx(2-5) size(2) by (auto simp: addba_check_def not_less)
  from addba_grants [where drv = rxdrv, OF rx(1) this rx(6,7,8), of jiffies1 timeout start False ext]
  obtain m' freed eff where m': "ieee80211_process_addba_request parse c rxdrv True jiffies1 m req
       = (m', freed, eff @ [SendAddbaResp tid token WLAN_STATUS_SUCCESS 1 ?bsize timeout ext])"
      "tid_rx m' ! tid = Some (new_session start ?bsize timeout False jiffies1)"
    by (auto simp: ieee80211_process_addba_request_def p tid)
  let ?resp = "ieee80211_send_addba_resp c amsdu (of_nat tid) token WLAN_STATUS_SUCCESS 1 ?bsize timeout ext"
  have r: "resp_tid ?resp = tid" "resp_amsdu ?resp = amsdu" "resp_buf_size env parse ?resp = min ?bsize (max_tx_aggregation_subframes env)"
    "?resp ! 0 = token" "get_le16 ?resp 1 = WLAN_STATUS_SUCCESS" "get_le16 ?resp 5 = timeout"
    using resp_wire [OF _ size(3) parse caps(1,2) refl, of tid ?bsize amsdu token WLAN_STATUS_SUCCESS timeout ext] rx(2) clamp size(1) by auto
  have pos: "0 < min ?bsize (max_tx_aggregation_subframes env)" using clamp(1) size(1) caps(4) by (simp add: min_def)
  then have nz: "resp_buf_size env parse ?resp \<noteq> 0" unfolding r by (metis word_not_simps(1))
  have cut: "?bsize \<le> max_rx_aggregation_subframes c" by (simp add: clamp_buf_size_def Let_def not_less)
  from resp_opens [OF s1(3,2,4) r(1,4,5) nz, of jiffies3 jiffies2] s1(1,5) m' pos cut show ?thesis
    unfolding r by (fastforce simp: new_session_def)
qed

definition demo_requester :: agg_sta where
  "demo_requester = demo_agg_sta\<lparr>tid_tx := (\<lambda>_. None)(5 := Some (new_tid_tx 30 1))\<rparr>"

theorem addba_handshake_witness:
  "\<exists>s1 e req m' freed eff bsize ext r s3 t q.
     ieee80211_tx_ba_session_handle_start demo_agg_env drv_immediate 10 5 demo_requester = Some s1 \<and>
     agg_out s1 = agg_out demo_requester @ [e, AggSendAddba 5 req] \<and>
     ieee80211_process_addba_request demo_parse demo_caps (\<lambda>_. True) True 11 demo_mlme req
       = (m', freed, eff @ [SendAddbaResp 5 1 WLAN_STATUS_SUCCESS 1 bsize 30 ext]) \<and>
     s3 = ieee80211_start_tx_ba_cb demo_agg_env 13 5 (ieee80211_process_addba_resp demo_agg_env demo_parse 12
            (ieee80211_send_addba_resp demo_caps True (of_nat 5) 1 WLAN_STATUS_SUCCESS 1 bsize 30 ext) s1) \<and>
     tid_rx m' ! 5 = Some r \<and> tid_tx s3 5 = Some t \<and> sta_txq s3 5 = Some q \<and>
     head_seq_num r = 100 \<and> agg_ssn t = 100 \<and> ba_timeout r = 30 \<and> agg_timeout t = 30 \<and> operational t \<and>
     0 < agg_buf_size t \<and> agg_buf_size t \<le> buf_size r \<and> length (reorder_buf r) = unat (buf_size r) \<and>
     buf_size r \<le> max_rx_aggregation_subframes demo_caps \<and> agg_buf_size t \<le> max_tx_aggregation_subframes demo_agg_env \<and>
     agg_amsdu t = True \<and> q_ampdu q \<and> \<not> q_stop q"
proof (rule addba_handshake [where ready = True])
  show "drv_immediate 5 (drop_bit 4 (tid_seq demo_requester 5)) = (if True then 1 else 0, 100)" by code_simp
  show "mlme_inv demo_mlme" by (rule demo_mlme_inv)
  show "\<not> (agg_session_valid demo_mlme ! 5 \<and> tid_rx_token demo_mlme ! 5 = 1)" by code_simp
  show "demo_parse [159, 1, d] = Some d" for d by (simp add: demo_parse_def)
qed (simp_all add: demo_caps_def demo_agg_env_def demo_requester_def demo_agg_sta_def calm_def)


section \<open>No answer\<close>

text \<open>The turn of the work for the TID of a session that is to stop, and for one that the driver has stopped.\<close>

lemma work_bits_stop:
  assumes "tid_tx s tid = Some t" "want_stop t" "\<not> stopping t" "\<not> want_start t" "\<not> stop_cb t"
  shows "\<exists>s' t'. ba_work_bits env jiffies blocked tid t s = Some s' \<and> tid_tx s' tid = Some t' \<and> stopping t' \<and>
     stop_initiator t' = WLAN_BACK_INITIATOR \<and> agg_tx_stop t' \<and> \<not> stop_cb t' \<and> \<not> want_stop t' \<and>
     agg_out s' = agg_out s @ [AggDrvAction IEEE80211_AMPDU_TX_STOP_CONT tid 0 False 0]"
  using assms
  by (cases "\<not> blocked \<and> start_cb t"; cases "drv_ready t")
    (auto simp: ba_work_bits_def ieee80211_start_tx_ba_cb_def stop_tx_ba_session_def ieee80211_agg_stop_txq_def Let_def agg_prims)

lemma work_bits_end:
  assumes "calm s" "tid_tx s tid = Some t" "stopping t" "stop_cb t" "\<not> want_stop t" "agg_pending t = []"
    and "stop_initiator t = WLAN_BACK_INITIATOR" "agg_tx_stop t" "sta_txq s tid = Some q"
  shows "\<exists>s' q'. ba_work_bits env jiffies blocked tid t s = Some s' \<and> tid_tx s' tid = None \<and> sta_txq s' tid = Some q' \<and> \<not> q_stop q' \<and> \<not> q_ampdu q' \<and>
     agg_out s' = agg_out s @ [AggWakeTxq tid, AggSendDelba tid WLAN_BACK_INITIATOR WLAN_REASON_QSTA_NOT_USE]"
proof -
  define s1 where "s1 = (if \<not> blocked \<and> start_cb t
      then ieee80211_start_tx_ba_cb env jiffies tid (upd_tid_tx tid (\<lambda>t. t\<lparr>start_cb := False\<rparr>) s) else s)"
  have s1: "calm s1" "sta_txq s1 = sta_txq s" "agg_out s1 = agg_out s" "\<exists>r c. tid_tx s1 tid = Some (t\<lparr>drv_ready := r, start_cb := c\<rparr>)"
    using assms(1-3) by (auto simp: s1_def ieee80211_start_tx_ba_cb_def calm_def agg_prims Let_def)
      (metis tid_ampdu_tx.surjective tid_ampdu_tx.update_convs(2,8))+
  let ?s = "upd_tid_tx tid (\<lambda>t. t\<lparr>stop_cb := False\<rparr>) s1"
  have "ieee80211_remove_tid_tx env tid ?s = ieee80211_assign_tid_tx tid None ?s"
    unfolding ieee80211_remove_tid_tx_def using assms s1 by (intro splice_assign) (auto simp: calm_def)
  then show ?thesis using assms s1 unfolding ba_work_bits_def s1_def [symmetric] Let_def
    by (auto simp: ieee80211_stop_tx_ba_cb_def ieee80211_agg_start_txq_def) (simp add: agg_prims)
qed

text \<open>The turns of the other TIDs: they only add to the output and request no session.\<close>

definition onward :: "agg_sta \<Rightarrow> agg_sta \<Rightarrow> bool" where
  "onward s s' \<longleftrightarrow> (\<forall>u. tid_start_tx s u = None \<longrightarrow> tid_start_tx s' u = None) \<and> (\<exists>out. agg_out s' = agg_out s @ out)"

lemma onward_refl [simp]: "onward s s" by (simp add: onward_def)

lemma onward_trans: "onward s s' \<Longrightarrow> onward s' s'' \<Longrightarrow> onward s s''" by (auto simp: onward_def)

lemma onward_prims [simp]:
  "onward s (upd_tid_tx tid g s') = onward s s'" "onward s (upd_agg_txq tid h s') = onward s s'"
  "onward s (ieee80211_assign_tid_tx tid t s') = onward s s'"
  "onward s s' \<Longrightarrow> onward s (emit e s')" "onward s s' \<Longrightarrow> onward s (s'\<lparr>tid_start_tx := (tid_start_tx s')(tid := None)\<rparr>)"
  "onward s (s'\<lparr>last_addba_req_time := lt\<rparr>) = onward s s'" "onward s (s'\<lparr>addba_req_num := n\<rparr>) = onward s s'"
  "onward s (s'\<lparr>local_pending := lp\<rparr>) = onward s s'"
  "onward s (s'\<lparr>agg_queue_stop := a\<rparr>) = onward s s'" "onward s (s'\<lparr>agg_stopped := b\<rparr>) = onward s s'"
  by (auto simp: onward_def agg_prims)

lemma onward_queues [simp]:
  "onward s (ieee80211_agg_splice_packets env tid s') = onward s s'" "onward s (ieee80211_agg_splice_finish env tid s') = onward s s'"
  "onward s s' \<Longrightarrow> onward s (ieee80211_agg_start_txq tid b s')"
  by (auto simp: ieee80211_agg_splice_packets_def ieee80211_agg_splice_finish_def ieee80211_stop_queue_agg_def ieee80211_wake_queue_agg_def
      ieee80211_agg_start_txq_def Let_def split: option.split)

lemma onward_ops [simp]:
  "onward s s' \<Longrightarrow> onward s (ieee80211_send_addba_with_timeout env jiffies tid s')"
  "onward s s' \<Longrightarrow> onward s (ieee80211_agg_tx_operational env tid s')"
  "onward s s' \<Longrightarrow> onward s (snd (stop_tx_ba_session tid reason s'))"
  "onward s s' \<Longrightarrow> onward s (ieee80211_stop_tx_ba_cb env tid s')"
  by (auto simp: ieee80211_send_addba_with_timeout_def ieee80211_agg_tx_operational_def stop_tx_ba_session_def ieee80211_stop_tx_ba_cb_def
      ieee80211_remove_tid_tx_def ieee80211_agg_stop_txq_def Let_def split: option.split)

lemma onward_start_cb [simp]: "onward s s' \<Longrightarrow> onward s (ieee80211_start_tx_ba_cb env jiffies tid s')"
  by (auto simp: ieee80211_start_tx_ba_cb_def Let_def split: option.split)

lemma work_bits_onward: "ba_work_bits env jiffies blocked tid t s = Some s' \<Longrightarrow> onward s s'"
  by (auto simp: ba_work_bits_def Let_def split: option.splits if_splits)

definition same_tid :: "nat \<Rightarrow> agg_sta \<Rightarrow> agg_sta \<Rightarrow> bool" where
  "same_tid tid s s' \<longleftrightarrow> tid_tx s' tid = tid_tx s tid \<and> sta_txq s' tid = sta_txq s tid"

lemma quiet_turn:
  assumes inv: "agg_inv env s" and quiet: "\<forall>u. tid_start_tx s u = None"
  shows "\<exists>s'. ba_work_tid env drv jiffies blocked u s = Some (False, s') \<and> agg_inv env s' \<and> onward s s' \<and> (\<forall>v. v \<noteq> u \<longrightarrow> same_tid v s s') \<and>
     (\<forall>t. tid_tx s u = Some t \<longrightarrow> ba_work_bits env jiffies blocked u t s = Some s')"
proof (cases "tid_tx s u")
  case None
  then show ?thesis using quiet inv by (auto simp: ba_work_tid_def same_tid_def)
next
  case (Some t)
  obtain s' where s': "ba_work_bits env jiffies blocked u t s = Some s'" "tid_step env u s s'"
    using work_bits_step [OF agg_inv_calm [OF inv] agg_invD [OF inv] Some] by blast
  moreover have "\<forall>v. v \<noteq> u \<longrightarrow> same_tid v s s'" using s'(2) by (simp add: tid_step_def only_tid_def same_tid_def)
  ultimately show ?thesis using Some quiet tid_step_agg [OF inv s'(2)] work_bits_onward [OF s'(1)] by (simp add: ba_work_tid_def)
qed

text \<open>A whole run of the work does with a TID what its turn does.\<close>

lemma quiet_work:
  assumes "agg_inv env s" "\<forall>u. tid_start_tx s u = None" "distinct tids"
  shows "\<exists>s'. ba_work_tids env drv jiffies blocked tids s = Some s' \<and> agg_inv env s' \<and> onward s s' \<and>
     (if tid \<in> set tids
      then \<exists>sa sb. same_tid tid s sa \<and> agg_inv env sa \<and> onward s sa \<and> onward sb s' \<and> same_tid tid sb s' \<and>
             (\<forall>t. tid_tx s tid = Some t \<longrightarrow> ba_work_bits env jiffies blocked tid t sa = Some sb)
      else same_tid tid s s')"
  using assms
proof (induction tids arbitrary: s)
  case (Cons u tids)
  obtain s1 where s1: "ba_work_tid env drv jiffies blocked u s = Some (False, s1)" "agg_inv env s1" "onward s s1"
      "\<forall>v. v \<noteq> u \<longrightarrow> same_tid v s s1" "\<forall>t. tid_tx s u = Some t \<longrightarrow> ba_work_bits env jiffies blocked u t s = Some s1"
    using quiet_turn [OF Cons.prems(1,2)] by blast
  have "\<forall>v. tid_start_tx s1 v = None" using s1(3) Cons.prems(2) by (simp add: onward_def)
  then obtain s' where s': "ba_work_tids env drv jiffies blocked tids s1 = Some s'" "agg_inv env s'" "onward s1 s'"
     "if tid \<in> set tids
      then \<exists>sa sb. same_tid tid s1 sa \<and> agg_inv env sa \<and> onward s1 sa \<and> onward sb s' \<and> same_tid tid sb s' \<and>
             (\<forall>t. tid_tx s1 tid = Some t \<longrightarrow> ba_work_bits env jiffies blocked tid t sa = Some sb)
      else same_tid tid s1 s'"
    using Cons.IH [OF s1(2)] Cons.prems(3) by auto
  have run: "ba_work_tids env drv jiffies blocked (u # tids) s = Some s'" "onward s s'" using s1(1,3) s'(1,3) onward_trans by auto
  show ?case
  proof (cases "tid = u")
    case True
    then have "same_tid tid s1 s'" using s'(4) Cons.prems(3) by simp
    moreover have "same_tid tid s s" by (simp add: same_tid_def)
    ultimately show ?thesis using run s'(2,3) s1(5) Cons.prems(1) True by auto
  next
    case False
    then have "same_tid tid s s1" using s1(4) by blast
    moreover from this have "tid_tx s1 tid = tid_tx s tid" "same_tid tid s1 x \<Longrightarrow> same_tid tid s x" for x by (simp_all add: same_tid_def)
    ultimately show ?thesis using run s'(2,4) False onward_trans [OF s1(3)] by (simp split: if_splits) blast
  qed
qed (simp add: same_tid_def)

text \<open>One run of the work, seen from the TID of a session.\<close>

lemma work_turn:
  assumes inv: "agg_inv env s" and quiet: "\<forall>u. tid_start_tx s u = None" and t: "tid_tx s tid = Some t"
  shows "\<exists>s' sa sb. ieee80211_ba_session_work env drv jiffies s = Some s' \<and> agg_inv env s' \<and> (\<forall>u. tid_start_tx s' u = None) \<and>
     same_tid tid s sa \<and> calm sa \<and> ba_work_bits env jiffies (sta_block_ba s) tid t sa = Some sb \<and> same_tid tid sb s' \<and>
     set (agg_out s) \<subseteq> set (agg_out sa) \<and> set (agg_out sb) \<subseteq> set (agg_out s')"
proof -
  let ?s = "s\<lparr>agg_work := False\<rparr>"
  have tid: "tid \<in> set [0..<IEEE80211_NUM_TIDS]" using agg_invD [OF inv, of tid] t by (simp add: tid_inv_live del: upt_Suc)
  have "\<forall>u. tid_start_tx ?s u = None" "agg_inv env ?s" "tid_tx ?s tid = Some t" using quiet inv t by simp_all
  then obtain s' sa sb where "ba_work_tids env drv jiffies (sta_block_ba s) [0..<IEEE80211_NUM_TIDS] ?s = Some s'" "agg_inv env s'" "onward ?s s'"
      "same_tid tid ?s sa" "agg_inv env sa" "onward ?s sa" "onward sb s'" "same_tid tid sb s'"
      "ba_work_bits env jiffies (sta_block_ba s) tid t sa = Some sb"
    using quiet_work [of env ?s "[0..<IEEE80211_NUM_TIDS]" drv jiffies "sta_block_ba s" tid] tid by (auto simp del: upt_Suc)
  then show ?thesis using quiet unfolding ieee80211_ba_session_work_def
    by (fastforce simp: onward_def same_tid_def agg_inv_calm simp del: upt_Suc)
qed

text \<open>C38: A request that the peer does not answer does not hold its queue for good. In any reachable state with no further
  session requested, when the response timer of a session that was not answered expires, the work stops the session with the driver; once the
  driver reports that it has, the work removes the session, tells the peer with a DELBA, and the transmit queue of the TID
  runs again, not marked for aggregation.\<close>

theorem unanswered_request_ends:
  assumes "fresh_agg_sta s0" "agg_run env parse es s0 = Some s" "\<forall>u. tid_start_tx s u = None"
    and "tid_tx s tid = Some t" "sent_addba t" "\<not> response_received t" "\<not> want_stop t" "\<not> stopping t" "\<not> stop_cb t"
  shows "\<exists>s' q. agg_run env parse [AggAddbaTimer tid, AggWork jiffies drv, AggStopCb tid, AggWork jiffies' drv'] s = Some s' \<and>
     tid_tx s' tid = None \<and> sta_txq s' tid = Some q \<and> \<not> q_stop q \<and> \<not> q_ampdu q \<and>
     {AggDrvAction IEEE80211_AMPDU_TX_STOP_CONT tid 0 False 0, AggWakeTxq tid, AggSendDelba tid WLAN_BACK_INITIATOR WLAN_REASON_QSTA_NOT_USE} \<subseteq> set (agg_out s')"
proof -
  have inv: "agg_inv env s" using agg_run_inv [OF fresh_inv [OF assms(1)], of env parse es] assms(2) by auto
  then have ti: "tid < IEEE80211_NUM_TIDS" "has_ampdu_action env" "agg_session_ok t" using agg_invD [OF inv, of tid] assms(4) by (simp_all add: tid_inv_live)
  then have armed: "addba_resp_timer t \<noteq> None" and ws: "\<not> want_start t" using assms(5-8) by (simp_all add: agg_session_ok_def)
  define s1 where "s1 = sta_addba_resp_timer_expired env tid (upd_tid_tx tid (\<lambda>t. t\<lparr>addba_resp_timer := None\<rparr>) s)"
  let ?t1 = "t\<lparr>addba_resp_timer := None, want_stop := True\<rparr>"
  have e1: "agg_step env parse (AggAddbaTimer tid) s = Some s1" using assms(4) armed by (simp add: s1_def)
  have i1: "agg_inv env s1" using agg_step_inv [OF inv, of parse "AggAddbaTimer tid"] e1 by auto
  have s1: "tid_tx s1 tid = Some ?t1" "\<forall>u. tid_start_tx s1 u = None"
    using assms(3,4,6,8) ti(1,2) by (simp_all add: s1_def sta_addba_resp_timer_expired_def ieee80211_stop_tx_ba_session_def)
  obtain s2 sa sb where w: "ieee80211_ba_session_work env drv jiffies s1 = Some s2" "agg_inv env s2" "\<forall>u. tid_start_tx s2 u = None"
      "same_tid tid s1 sa" "ba_work_bits env jiffies (sta_block_ba s1) tid ?t1 sa = Some sb" "same_tid tid sb s2"
      "set (agg_out sb) \<subseteq> set (agg_out s2)"
    using work_turn [OF i1 s1(2,1)] by metis
  obtain t2 where t2: "tid_tx s2 tid = Some t2" "stopping t2" "stop_initiator t2 = WLAN_BACK_INITIATOR" "agg_tx_stop t2" "\<not> want_stop t2"
      "AggDrvAction IEEE80211_AMPDU_TX_STOP_CONT tid 0 False 0 \<in> set (agg_out s2)"
    using work_bits_stop [of sa tid ?t1 env jiffies "sta_block_ba s1"] w(4-7) s1(1) assms(8,9) ws by (auto simp: same_tid_def)
  define s3 where "s3 = (upd_tid_tx tid (\<lambda>t. t\<lparr>stop_cb := True\<rparr>) s2)\<lparr>agg_work := True\<rparr>"
  let ?t3 = "t2\<lparr>stop_cb := True\<rparr>"
  have e3: "agg_step env parse (AggStopCb tid) s2 = Some s3"
    using t2(1) ti(1) by (simp add: s3_def ieee80211_stop_tx_ba_cb_irqsafe_def ieee80211_lookup_tid_tx_def)
  have i3: "agg_inv env s3" using agg_step_inv [OF w(2), of parse "AggStopCb tid"] e3 by auto
  have s3: "tid_tx s3 tid = Some ?t3" "\<forall>u. tid_start_tx s3 u = None" "agg_out s3 = agg_out s2"
    using t2(1) w(3) by (simp_all add: s3_def) (simp add: agg_prims)
  obtain s4 sc sd where v: "ieee80211_ba_session_work env drv' jiffies' s3 = Some s4" "same_tid tid s3 sc" "calm sc"
      "ba_work_bits env jiffies' (sta_block_ba s3) tid ?t3 sc = Some sd" "same_tid tid sd s4" "set (agg_out s3) \<subseteq> set (agg_out sc)" "set (agg_out sd) \<subseteq> set (agg_out s4)"
    using work_turn [OF i3 s3(2,1)] by metis
  obtain q where q: "sta_txq sc tid = Some q" using i3 ti(1) v(2) by (auto simp: agg_inv_def same_tid_def)
  have "agg_pending ?t3 = []" using agg_invD [OF i3, of tid] s3(1) by (simp add: tid_inv_live agg_session_ok_def)
  then obtain q' where "tid_tx sd tid = None" "sta_txq sd tid = Some q'" "\<not> q_stop q'" "\<not> q_ampdu q'"
      "agg_out sd = agg_out sc @ [AggWakeTxq tid, AggSendDelba tid WLAN_BACK_INITIATOR WLAN_REASON_QSTA_NOT_USE]"
    using work_bits_end [of sc tid ?t3 q env jiffies' "sta_block_ba s3"] v(2,3,4) q s3(1) t2(2-5) by (auto simp: same_tid_def)
  then have "tid_tx s4 tid = None" "sta_txq s4 tid = Some q'" "\<not> q_stop q'" "\<not> q_ampdu q'"
      "{AggWakeTxq tid, AggSendDelba tid WLAN_BACK_INITIATOR WLAN_REASON_QSTA_NOT_USE} \<subseteq> set (agg_out s4)" "set (agg_out sc) \<subseteq> set (agg_out s4)"
    using v(5,7) by (auto simp: same_tid_def)
  then show ?thesis using e1 w(1) e3 v(1,6) t2(6) s3(3) by auto
qed

theorem unanswered_request_ends_witness:
  "\<exists>s s' q. agg_run demo_agg_env demo_parse [AggStart 10 True 5 0, AggWork 11 drv_immediate] demo_agg_sta = Some s \<and>
     agg_run demo_agg_env demo_parse [AggAddbaTimer 5, AggWork 200 drv_immediate, AggStopCb 5, AggWork 210 drv_immediate] s = Some s' \<and>
     tid_tx s' 5 = None \<and> sta_txq s' 5 = Some q \<and> \<not> q_stop q \<and> \<not> q_ampdu q \<and>
     {AggDrvAction IEEE80211_AMPDU_TX_STOP_CONT 5 0 False 0, AggWakeTxq 5, AggSendDelba 5 WLAN_BACK_INITIATOR WLAN_REASON_QSTA_NOT_USE} \<subseteq> set (agg_out s')"
proof -
  let ?run = "agg_run demo_agg_env demo_parse [AggStart 10 True 5 0, AggWork 11 drv_immediate] demo_agg_sta"
  have f: "fresh_agg_sta demo_agg_sta" by (simp add: fresh_agg_sta_def demo_agg_sta_def)
  obtain s where s: "?run = Some s" "agg_inv demo_agg_env s" using agg_run_inv [OF fresh_inv [OF f]] by blast
  have "map_option (\<lambda>s. (tid5 s, list_all (\<lambda>u. tid_start_tx s u = None) [0..<16])) ?run
     = Some ((Some (True, True, False, False, True), Some (False, True)), True)"
    "map_option (\<lambda>s. map_option (\<lambda>t. (want_stop t, stopping t, stop_cb t)) (tid_tx s 5)) ?run = Some (Some (False, False, False))"
    by code_simp+
  then obtain t where t: "tid_tx s 5 = Some t" "sent_addba t" "\<not> response_received t" "\<not> want_stop t" "\<not> stopping t" "\<not> stop_cb t"
      "\<forall>u < 16. tid_start_tx s u = None"
    unfolding s(1) by (auto simp: tid5_def list_all_iff)
  have "tid_start_tx s u = None" for u
    using t(7) agg_invD [OF s(2), of u] by (cases "tid_tx s u"; cases "tid_start_tx s u") (auto simp: tid_inv_def not_less)
  with unanswered_request_ends [OF f s(1) _ t(1-6), of 200 drv_immediate 210 drv_immediate] s(1) show ?thesis by blast
qed


section \<open>Queues that stay stopped\<close>

text \<open>A response that comes before the request was sent disables the session. The driver asks to put the
  request off; a response with the right token arrives and is taken although nothing was requested; when the driver is ready
  the request is sent, its real answer is ignored as a duplicate, and the expiry of the response timer is ignored because a response
  was received. The session stays not operational and the transmit queue of the TID stopped.\<close>

theorem early_response_stalls:
  "map_option tid5 (agg_run demo_agg_env demo_parse
       [AggStart 10 True 5 0, AggWork 11 drv_delay, AggResp 12 demo_resp, AggStartCb 5, AggWork 13 drv_delay, AggResp 14 demo_resp] demo_agg_sta)
     = Some (Some (True, True, True, False, False), Some (False, True)) \<and>
   map_option tid5 (agg_run demo_agg_env demo_parse
       [AggStart 10 True 5 0, AggWork 11 drv_delay, AggResp 12 demo_resp, AggStartCb 5, AggWork 13 drv_delay, AggAddbaTimer 5, AggWork 200 drv_delay,
        AggStartCb 5, AggWork 201 drv_delay] demo_agg_sta)
     = Some (Some (True, True, True, False, False), Some (False, True)) \<and>
   map_option tid5 (agg_run demo_agg_env demo_parse
       [AggStart 10 True 5 0, AggWork 11 drv_delay, AggStartCb 5, AggWork 13 drv_delay, AggResp 14 demo_resp] demo_agg_sta)
     = Some (Some (True, True, True, True, False), Some (True, False))"
  by (intro conjI; code_simp)

text \<open>A session that is torn down while its start waits for fragments leaves the transmit queue of its TID stopped: the
  work has set the stop flag and put itself off, the teardown frees the request and returns without touching the flag, and with no
  session left nothing clears it.\<close>

theorem stopped_request_leaks_stop:
  "map_option tid5 (agg_run demo_agg_env demo_parse
       [AggFrags 5 1, AggStart 10 True 5 0, AggWork 11 drv_immediate, AggTearDown AGG_STOP_LOCAL_REQUEST, AggFrags 5 0, AggWork 12 drv_immediate] demo_agg_sta)
     = Some (None, Some (False, True))"
  by code_simp

end
