(* ===== verification/Ether.thy ===== *)
theory Ether
  imports Frame
begin

text \<open>
  From 802.11 to Ethernet: the conversion of a received data frame and of the subframes of an A-MSDU
  (net/wireless/util.c), and the receive handler for A-MSDUs (net/mac80211/rx.c). A frame is a byte list; a buffer with page fragments is a
  record of its parts. The reading of eight bytes at the front of a subframe that may be shorter is
  modelled as it is: \<open>behind\<close> gives what lies in memory behind the subframe that starts at an offset.
\<close>


section \<open>Headers\<close>

abbreviation (input) ETH_ALEN :: nat where "ETH_ALEN \<equiv> 6"
abbreviation (input) ETH_HLEN :: nat where "ETH_HLEN \<equiv> 14"
abbreviation (input) ETH_P_802_3_MIN :: u16 where "ETH_P_802_3_MIN \<equiv> 0x0600"
abbreviation (input) ETH_P_AARP :: u16 where "ETH_P_AARP \<equiv> 0x80F3"
abbreviation (input) ETH_P_IPX :: u16 where "ETH_P_IPX \<equiv> 0x8137"
abbreviation (input) MESH_FLAGS_AE_A4 :: u8 where "MESH_FLAGS_AE_A4 \<equiv> 1"
abbreviation (input) MESH_FLAGS_AE_A5_A6 :: u8 where "MESH_FLAGS_AE_A5_A6 \<equiv> 2"
abbreviation (input) MESH_FLAGS_AE :: u8 where "MESH_FLAGS_AE \<equiv> 3"

definition rfc1042_header :: "u8 list" where
  "rfc1042_header = [0xaa, 0xaa, 0x03, 0x00, 0x00, 0x00]"

definition bridge_tunnel_header :: "u8 list" where
  "bridge_tunnel_header = [0xaa, 0xaa, 0x03, 0x00, 0x00, 0xf8]"

record ethhdr =
  h_dest :: "u8 list"
  h_source :: "u8 list"
  h_proto :: u16

definition put_eth :: "ethhdr \<Rightarrow> u8 list" where
  "put_eth e = h_dest e @ h_source e @ put_be16 (h_proto e)"

definition get_eth :: "u8 list \<Rightarrow> ethhdr" where
  "get_eth b = \<lparr>h_dest = take 6 b, h_source = take 6 (drop 6 b), h_proto = get_be16 b 12\<rparr>"

text \<open>\<open>__ieee80211_get_mesh_hdrlen\<close>.\<close>

definition mesh_hdrlen :: "u8 \<Rightarrow> nat" where
  "mesh_hdrlen flags =
     (let ae = flags AND MESH_FLAGS_AE
      in if ae = MESH_FLAGS_AE_A4 then 12 else if ae = MESH_FLAGS_AE_A5_A6 then 18 else 6)"

text \<open>The protocol behind an RFC 1042 or bridge-tunnel header of six bytes.\<close>

definition ieee80211_get_8023_tunnel_proto :: "u8 list \<Rightarrow> u16 option" where
  "ieee80211_get_8023_tunnel_proto b =
     (let proto = get_be16 b 6
      in if \<not> (take 6 b = rfc1042_header \<and> proto \<noteq> ETH_P_AARP \<and> proto \<noteq> ETH_P_IPX) \<and> take 6 b \<noteq> bridge_tunnel_header
         then None else Some proto)"


section \<open>One frame\<close>

text \<open>The Ethernet frame of a mesh data frame, whose mesh header follows an Ethernet header. \<open>None\<close> for an error.\<close>

definition ieee80211_strip_8023_mesh_hdr :: "u8 list \<Rightarrow> u8 list option" where
  "ieee80211_strip_8023_mesh_hdr skb =
     (if length skb < 15 then None
      else
        let eth = get_eth skb; flags = skb ! 14;
            hdrlen = ETH_HLEN + mesh_hdrlen flags;
            proto = (if length skb \<ge> hdrlen + 8 then ieee80211_get_8023_tunnel_proto (drop hdrlen skb) else None)
        in if proto = None \<and> length skb < hdrlen then None
           else
             let (hdrlen, eth) =
                   (case proto of
                      Some p \<Rightarrow> (hdrlen + ETH_ALEN + 2, eth\<lparr>h_proto := p\<rparr>)
                    | None \<Rightarrow> (hdrlen, eth\<lparr>h_proto := of_nat (length skb - hdrlen)\<rparr>));
                 mesh_addr = drop (ETH_HLEN + ETH_ALEN) skb;
                 eth = (if flags AND MESH_FLAGS_AE = MESH_FLAGS_AE_A4 then eth\<lparr>h_source := take 6 mesh_addr\<rparr>
                        else if flags AND MESH_FLAGS_AE = MESH_FLAGS_AE_A5_A6
                        then eth\<lparr>h_dest := take 6 mesh_addr, h_source := take 6 (drop 6 mesh_addr)\<rparr>
                        else eth)
             in Some (put_eth eth @ drop hdrlen skb))"

text \<open>The direction bits against the kind of the receiving interface.\<close>

definition ds_allowed :: "u16 \<Rightarrow> nat \<Rightarrow> u8 list \<Rightarrow> u8 list \<Rightarrow> u8 list \<Rightarrow> bool" where
  "ds_allowed fc iftype da sa addr =
     (let ds = fc AND (IEEE80211_FCTL_TODS OR IEEE80211_FCTL_FROMDS)
      in if ds = IEEE80211_FCTL_TODS then iftype \<in> {NL80211_IFTYPE_AP, NL80211_IFTYPE_AP_VLAN, NL80211_IFTYPE_P2P_GO}
         else if ds = IEEE80211_FCTL_TODS OR IEEE80211_FCTL_FROMDS
         then iftype \<in> {NL80211_IFTYPE_MESH_POINT, NL80211_IFTYPE_AP_VLAN, NL80211_IFTYPE_STATION}
         else if ds = IEEE80211_FCTL_FROMDS
         then iftype \<in> {NL80211_IFTYPE_STATION, NL80211_IFTYPE_P2P_CLIENT, NL80211_IFTYPE_MESH_POINT} \<and>
              \<not> (is_multicast_ether_addr da \<and> sa = addr)
         else iftype \<in> {NL80211_IFTYPE_ADHOC, NL80211_IFTYPE_STATION, NL80211_IFTYPE_OCB})"

text \<open>The Ethernet header and what follows it. The caller has seen to it that the frame has a frame control field.\<close>

definition ieee80211_data_to_8023_exthdr ::
  "u8 list \<Rightarrow> u8 list \<Rightarrow> nat \<Rightarrow> u8 \<Rightarrow> bool \<Rightarrow> (ethhdr \<times> u8 list) option"
where
  "ieee80211_data_to_8023_exthdr skb addr iftype data_offset is_amsdu =
     (let fc = frame_control skb
      in if \<not> ieee80211_is_data_present fc then None
         else
           let hdrlen = ieee80211_hdrlen fc + unat data_offset
           in if length skb < hdrlen then None
              else
                let da = ieee80211_get_DA skb; sa = ieee80211_get_SA skb
                in if \<not> ds_allowed fc iftype da sa addr then None
                   else
                     case (if \<not> is_amsdu \<and> iftype \<noteq> NL80211_IFTYPE_MESH_POINT \<and> length skb \<ge> hdrlen + 8
                           then ieee80211_get_8023_tunnel_proto (drop hdrlen skb) else None) of
                       Some proto \<Rightarrow> Some (\<lparr>h_dest = da, h_source = sa, h_proto = proto\<rparr>, drop (hdrlen + ETH_ALEN + 2) skb)
                     | None \<Rightarrow> Some (\<lparr>h_dest = da, h_source = sa, h_proto = of_nat (length skb - hdrlen)\<rparr>, drop hdrlen skb))"

text \<open>\<open>ieee80211_data_to_8023\<close> of include/net/cfg80211.h: the header goes in front of the frame.\<close>

definition ieee80211_data_to_8023 :: "u8 list \<Rightarrow> u8 list \<Rightarrow> nat \<Rightarrow> u8 list option" where
  "ieee80211_data_to_8023 skb addr iftype =
     map_option (\<lambda>(eth, rest). put_eth eth @ rest) (ieee80211_data_to_8023_exthdr skb addr iftype 0 False)"


section \<open>Subframes\<close>

text \<open>A buffer: its linear part, its page fragments, and the buffers on its fragment list. \<open>a_head_frag\<close>: the linear part can be
  given away as a page fragment.\<close>

record amsdu_skb =
  a_head :: "u8 list"
  a_frags :: "u8 list list"
  a_frag_list :: "u8 list list"
  a_head_frag :: bool

definition skb_bytes :: "amsdu_skb \<Rightarrow> u8 list" where
  "skb_bytes skb = a_head skb @ concat (a_frags skb) @ concat (a_frag_list skb)"

text \<open>The two loops of \<open>__ieee80211_amsdu_copy_frag\<close>: find the part the offset falls into, then take parts until the
  length is reached. \<open>None\<close>: beyond the last fragment.\<close>

fun copy_frag_seek :: "u8 list list \<Rightarrow> nat \<Rightarrow> (u8 list list \<times> nat) option" where
  "copy_frag_seek [] offset = None"
| "copy_frag_seek (f # fs) offset = (if offset \<ge> length f then copy_frag_seek fs (offset - length f) else Some (f # fs, offset))"

fun copy_frag_take :: "u8 list list \<Rightarrow> nat \<Rightarrow> u8 list list option" where
  "copy_frag_take fs 0 = Some []"
| "copy_frag_take [] (Suc n) = None"
| "copy_frag_take (f # fs) (Suc n) = map_option (Cons (take (Suc n) f)) (copy_frag_take fs (Suc n - min (Suc n) (length f)))"

definition amsdu_copy_frag :: "amsdu_skb \<Rightarrow> nat \<Rightarrow> nat \<Rightarrow> u8 list list option" where
  "amsdu_copy_frag skb offset len =
     (case copy_frag_seek (a_head skb # a_frags skb) offset of
        None \<Rightarrow> None
      | Some (fs, offset) \<Rightarrow>
          (case fs of
             [] \<Rightarrow> None
           | f # fs \<Rightarrow>
               let cur_len = min len (length f - offset)
               in map_option (Cons (take cur_len (drop offset f))) (copy_frag_take fs (len - cur_len))))"

text \<open>\<open>__ieee80211_amsdu_copy\<close>: the linear part of the new frame and its fragments.\<close>

definition amsdu_copy :: "amsdu_skb \<Rightarrow> bool \<Rightarrow> nat \<Rightarrow> nat \<Rightarrow> bool \<Rightarrow> nat \<Rightarrow> (u8 list \<times> u8 list list) option" where
  "amsdu_copy skb alloc offset len reuse_frag min_len =
     (if length (skb_bytes skb) - offset < len then None
      else if \<not> alloc then None
      else
        let cur_len = (if reuse_frag then min len min_len else len);
            linear = take cur_len (drop offset (skb_bytes skb))
        in if len - cur_len = 0 then Some (linear, [])
           else map_option (Pair linear) (amsdu_copy_frag skb (offset + cur_len) (len - cur_len)))"

definition ieee80211_amsdu_subframe_length :: "u8 list \<Rightarrow> u8 \<Rightarrow> u8 \<Rightarrow> u16" where
  "ieee80211_amsdu_subframe_length field mesh_flags hdr_type =
     (if hdr_type \<ge> 2 then get_le16 field 0 else get_be16 field 0)
       + (if hdr_type \<noteq> 0 then of_nat (mesh_hdrlen mesh_flags) else 0)"

text \<open>\<open>(4 - subframe_len) & 3\<close>.\<close>

definition amsdu_padding :: "nat \<Rightarrow> nat" where
  "amsdu_padding subframe_len = nat ((4 - int subframe_len) mod 4)"

text \<open>The loop of \<open>ieee80211_is_valid_amsdu\<close> from an offset on, with the bytes from there. Four bytes of the length
  field are read: the structure it is read into is padded.\<close>

function amsdu_valid_from :: "u8 \<Rightarrow> u8 list \<Rightarrow> bool" where
  "amsdu_valid_from mesh_hdr rest =
     (if rest = [] then True
      else if 4 > length rest then False
      else if length rest < 2 * ETH_ALEN + 4 then False
      else
        let len = ieee80211_amsdu_subframe_length (drop 12 rest) (rest ! 14) mesh_hdr;
            subframe_len = ETH_HLEN + unat len
        in if subframe_len > length rest then False
           else amsdu_valid_from mesh_hdr (drop (subframe_len + amsdu_padding subframe_len) rest))"
  by pat_completeness auto

termination
  by (relation "measure (\<lambda>(_, rest). length rest)") (auto simp: Let_def)

declare amsdu_valid_from.simps [simp del]

definition ieee80211_is_valid_amsdu :: "u8 list \<Rightarrow> u8 \<Rightarrow> bool" where
  "ieee80211_is_valid_amsdu skb mesh_hdr = amsdu_valid_from mesh_hdr skb"

text \<open>What does not change in the loop of \<open>ieee80211_amsdu_to_8023s\<close>.\<close>

record amsdu_args =
  am_iftype :: nat
  am_check_da :: "u8 list option"
  am_check_sa :: "u8 list option"
  am_control :: u8
  am_alloc :: "nat \<Rightarrow> bool"
  am_behind :: "nat \<Rightarrow> u8 list"

definition am_mesh :: "amsdu_args \<Rightarrow> bool" where
  "am_mesh a \<longleftrightarrow> am_iftype a = NL80211_IFTYPE_MESH_POINT"

definition am_skip :: "amsdu_args \<Rightarrow> ethhdr \<Rightarrow> bool" where
  "am_skip a eth \<longleftrightarrow>
     (case am_check_da a of None \<Rightarrow> False | Some da \<Rightarrow> \<not> is_multicast_ether_addr (h_dest eth) \<and> da \<noteq> h_dest eth) \<or>
     (case am_check_sa a of None \<Rightarrow> False | Some sa \<Rightarrow> sa \<noteq> h_source eth)"

text \<open>The Ethernet frame of a subframe: \<open>frame\<close> is its linear part, \<open>frags\<close> its fragments. \<open>skb_pull\<close> does nothing when the frame is too short.\<close>

definition amsdu_finish :: "amsdu_args \<Rightarrow> nat \<Rightarrow> ethhdr \<Rightarrow> u8 list \<Rightarrow> u8 list list \<Rightarrow> u8 list" where
  "amsdu_finish a offset eth frame frags =
     (case (if \<not> am_mesh a then ieee80211_get_8023_tunnel_proto (frame @ am_behind a offset) else None) of
        Some proto \<Rightarrow>
          put_eth (eth\<lparr>h_proto := proto\<rparr>)
            @ (if length frame + length (concat frags) \<ge> ETH_ALEN + 2 then drop (ETH_ALEN + 2) frame else frame) @ concat frags
      | None \<Rightarrow> put_eth eth @ frame @ concat frags)"

text \<open>The flags byte is read in a mesh only; for another interface the control argument is 0 and it is not used.
  \<open>None\<close>: the whole A-MSDU is purged.\<close>

function amsdu_loop :: "amsdu_args \<Rightarrow> amsdu_skb \<Rightarrow> nat \<Rightarrow> u8 list list \<Rightarrow> u8 list list option" where
  "amsdu_loop a skb offset list =
     (let rest = drop offset (skb_bytes skb); remaining = length rest;
          reuse_frag = (a_head_frag skb \<and> a_frag_list skb = [])
      in if (if am_mesh a then 15 else 14) > remaining then None
         else
           let eth = get_eth rest;
               flags = (if am_mesh a then rest ! 14 else 0);
               mesh_len = (if am_mesh a then mesh_hdrlen flags else 0);
               len = unat (ieee80211_amsdu_subframe_length (drop 12 rest) flags (am_control a));
               subframe_len = ETH_HLEN + len;
               padding = amsdu_padding subframe_len
           in if subframe_len > remaining then None
              else if h_dest eth = rfc1042_header then None
              else
                let last = (remaining \<le> subframe_len + padding);
                    next = offset + subframe_len + padding
                in if am_skip a eth then (if last then Some list else amsdu_loop a skb next list)
                   else if concat (a_frags skb) = [] \<and> a_frag_list skb = [] \<and> \<not> reuse_frag \<and> last then
                     Some (list @ [amsdu_finish a offset eth (drop ETH_HLEN rest) []])
                   else
                     case amsdu_copy skb (am_alloc a offset) (offset + ETH_HLEN) len reuse_frag (32 + mesh_len) of
                       None \<Rightarrow> None
                     | Some (frame, frags) \<Rightarrow>
                         let list = list @ [amsdu_finish a offset eth frame frags]
                         in if last then Some list else amsdu_loop a skb next list)"
  by pat_completeness auto

termination
  by (relation "measure (\<lambda>(_, skb, offset, _). length (skb_bytes skb) - offset)") (auto simp: Let_def)

declare amsdu_loop.simps [simp del]

definition ieee80211_amsdu_to_8023s :: "amsdu_args \<Rightarrow> amsdu_skb \<Rightarrow> u8 list list" where
  "ieee80211_amsdu_to_8023s a skb = (case amsdu_loop a skb 0 [] of None \<Rightarrow> [] | Some list \<Rightarrow> list)"


section \<open>The receive handler\<close>

datatype amsdu_cipher = AmsduWep | AmsduTkip | AmsduOther

record amsdu_sta =
  as_tdls_peer :: bool
  as_mesh_control :: int       \<comment> \<open>\<open>s8 amsdu_mesh_control\<close>: -1 not known, 0, 1 or 2\<close>

record amsdu_rx =
  ar_amsdu :: bool             \<comment> \<open>\<open>IEEE80211_RX_AMSDU\<close>\<close>
  ar_iftype :: nat
  ar_addr :: "u8 list"
  ar_vlan_sta :: bool
  ar_use_4addr :: bool
  ar_sta :: "amsdu_sta option"
  ar_key :: "amsdu_cipher option"
  ar_alloc :: "nat \<Rightarrow> bool"
  ar_behind :: "nat \<Rightarrow> u8 list"

datatype amsdu_result =
    AmsduContinue
  | AmsduDropMonitor
  | AmsduBad4addr
  | AmsduBad
  | AmsduBadCipher
  | AmsduFrames int "u8 list list"   \<comment> \<open>the format of the peer, and the frames handed on\<close>

text \<open>The formats under which the A-MSDU parses: the only one, or -1 for none or several.\<close>

fun amsdu_detect :: "u8 list \<Rightarrow> nat list \<Rightarrow> int \<Rightarrow> int" where
  "amsdu_detect skb [] valid = valid"
| "amsdu_detect skb (i # is) valid =
     (if \<not> ieee80211_is_valid_amsdu skb (of_nat i) then amsdu_detect skb is valid
      else if valid \<ge> 0 then - 1
      else amsdu_detect skb is (int i))"

text \<open>\<open>__ieee80211_rx_h_amsdu\<close>, up to the list of frames. The handler pulls the header off the linear part; \<open>frags\<close> and \<open>frag_list\<close> stay.
  The format is a \<open>s8\<close> that the conversion takes as a \<open>u8\<close>.\<close>

definition rx_h_amsdu :: "amsdu_rx \<Rightarrow> amsdu_sta \<Rightarrow> amsdu_skb \<Rightarrow> u8 \<Rightarrow> amsdu_result" where
  "rx_h_amsdu rx sta skb data_offset =
     (let fc = frame_control (a_head skb);
          (want_da, want_sa) =
            (if ieee80211_has_a4 fc then (False, False)
             else if ar_iftype rx = NL80211_IFTYPE_AP \<or> ar_iftype rx = NL80211_IFTYPE_AP_VLAN then (False, True)
             else if ar_iftype rx = NL80211_IFTYPE_STATION then (True, as_tdls_peer sta)
             else if ar_iftype rx = NL80211_IFTYPE_MESH_POINT then (False, False)
             else (True, True))
      in case ieee80211_data_to_8023_exthdr (skb_bytes skb) (ar_addr rx) (ar_iftype rx) data_offset True of
           None \<Rightarrow> AmsduBad
         | Some (eth, body) \<Rightarrow>
             let control = (if as_mesh_control sta < 0 then amsdu_detect body [0, 1, 2] (- 1) else as_mesh_control sta);
                 hdrlen = ieee80211_hdrlen fc + unat data_offset
             in AmsduFrames control
                  (ieee80211_amsdu_to_8023s
                     \<lparr>am_iftype = ar_iftype rx, am_check_da = (if want_da then Some (h_dest eth) else None),
                      am_check_sa = (if want_sa then Some (h_source eth) else None), am_control = of_int control,
                      am_alloc = ar_alloc rx, am_behind = ar_behind rx\<rparr>
                     (skb\<lparr>a_head := drop hdrlen (a_head skb)\<rparr>)))"

definition ieee80211_rx_h_amsdu :: "amsdu_rx \<Rightarrow> amsdu_skb \<Rightarrow> amsdu_result" where
  "ieee80211_rx_h_amsdu rx skb =
     (let hdr = a_head skb; fc = frame_control hdr
      in if \<not> ar_amsdu rx then AmsduContinue
         else if \<not> ieee80211_is_data fc then AmsduContinue
         else if \<not> ieee80211_is_data_present fc then AmsduDropMonitor
         else if ieee80211_has_a4 fc \<and>
                 \<not> (ar_iftype rx = NL80211_IFTYPE_AP_VLAN \<and> ar_vlan_sta rx \<or>
                    ar_iftype rx = NL80211_IFTYPE_STATION \<and> ar_use_4addr rx \<or>
                    ar_iftype rx = NL80211_IFTYPE_MESH_POINT) then AmsduBad4addr
         else
           case ar_sta rx of
             None \<Rightarrow> AmsduBad
           | Some sta \<Rightarrow>
               if is_multicast_ether_addr (addr1 hdr) then AmsduBad
               else if ar_key rx = Some AmsduWep \<or> ar_key rx = Some AmsduTkip then AmsduBadCipher
               else rx_h_amsdu rx sta skb 0)"

end
