(* ===== verification/EtherTx.thy ===== *)
theory EtherTx
  imports Ether
begin

text \<open>
  From Ethernet to 802.11: the header of a frame sent (\<open>ieee80211_build_hdr\<close> of net/mac80211/tx.c, with the
  mesh addresses of mesh.c), the fast path (\<open>__ieee80211_xmit_fast\<close>) and the aggregation of frames
  into an A-MSDU while they wait in their transmit queue (\<open>ieee80211_amsdu_aggregate\<close>).
\<close>


section \<open>The 802.11 header\<close>

abbreviation (input) ENOLINK :: int where "ENOLINK \<equiv> 67"
abbreviation (input) EPERM :: int where "EPERM \<equiv> 1"
abbreviation (input) ENOTCONN :: int where "ENOTCONN \<equiv> 107"
abbreviation (input) IEEE80211_LINK_UNSPECIFIED :: nat where "IEEE80211_LINK_UNSPECIFIED \<equiv> 15"

text \<open>The fields of \<open>struct ieee80211_hdr\<close>; duration and sequence control are zero here.\<close>

record hdr80211 =
  hd_fc :: u16
  hd_addr1 :: "u8 list"
  hd_addr2 :: "u8 list"
  hd_addr3 :: "u8 list"
  hd_addr4 :: "u8 list"

text \<open>The first \<open>n\<close> bytes of the structure in memory.\<close>

definition put_hdr :: "hdr80211 \<Rightarrow> nat \<Rightarrow> u8 list" where
  "put_hdr h n = take n (put_le16 (hd_fc h) @ [0, 0] @ hd_addr1 h @ hd_addr2 h @ hd_addr3 h @ [0, 0] @ hd_addr4 h)"

record xmit_sta =
  xs_addr :: "u8 list"
  xs_authorized :: bool
  xs_wme :: bool
  xs_tdls_peer :: bool
  xs_mlo :: bool
  xs_link_id :: nat
  xs_tdls_bssid :: "u8 list option"   \<comment> \<open>the BSSID of the link of a TDLS peer, if the link is there\<close>

record xmit_if =
  xi_type :: nat
  xi_addr :: "u8 list"
  xi_use_4addr :: bool
  xi_mld :: bool
  xi_chanctx :: bool                  \<comment> \<open>a channel context (of the AP, for a VLAN)\<close>
  xi_link_addr :: "nat \<Rightarrow> u8 list option"
  xi_ap_addr :: "u8 list"
  xi_bssid :: "u8 list"               \<comment> \<open>\<open>deflink.u.mgd.bssid\<close> or \<open>u.ibss.bssid\<close>\<close>
  xi_control_port :: u16
  xi_our_addr :: "u8 list \<Rightarrow> bool"
  xi_nss_mesh :: bool                 \<comment> \<open>unicast mesh frames are left to the hardware\<close>
  xi_mesh_ttl :: u8
  xi_mesh_seqnum :: u32

text \<open>A path of the mesh path table to the destination, and a proxy path: what is read of them.\<close>

record xmit_mpath =
  xm_dst :: "u8 list"
  xm_next_hop :: bool
  xm_active :: bool                   \<comment> \<open>\<open>MESH_PATH_ACTIVE\<close> or \<open>MESH_PATH_RESOLVING\<close>\<close>

datatype xmit_effect = MppRefreshed "u8 list" | MeshPathDel "u8 list"

definition ieee80211_fill_mesh_addresses :: "hdr80211 \<Rightarrow> u8 list \<Rightarrow> u8 list \<Rightarrow> hdr80211 \<times> nat" where
  "ieee80211_fill_mesh_addresses h meshda meshsa =
     (if is_multicast_ether_addr meshda
      then (h\<lparr>hd_fc := hd_fc h OR IEEE80211_FCTL_FROMDS, hd_addr1 := meshda, hd_addr2 := meshsa, hd_addr3 := meshsa\<rparr>, 24)
      else (h\<lparr>hd_fc := hd_fc h OR (IEEE80211_FCTL_FROMDS OR IEEE80211_FCTL_TODS),
              hd_addr1 := replicate 6 0, hd_addr2 := meshsa, hd_addr3 := meshda, hd_addr4 := meshsa\<rparr>, 30))"

text \<open>The mesh header and the sequence number after it.\<close>

definition ieee80211_new_mesh_header :: "xmit_if \<Rightarrow> u8 list option \<Rightarrow> u8 list option \<Rightarrow> u8 list \<times> xmit_if" where
  "ieee80211_new_mesh_header x addr4or5 addr6 =
     (let seqnum = xi_mesh_seqnum x + 1; x' = x\<lparr>xi_mesh_seqnum := seqnum\<rparr>
      in case (addr4or5, addr6) of
           (None, Some _) \<Rightarrow> ([], x)
         | (Some a, None) \<Rightarrow> ([MESH_FLAGS_AE_A4, xi_mesh_ttl x] @ put_le32 seqnum @ a, x')
         | (Some a, Some b) \<Rightarrow> ([MESH_FLAGS_AE_A5_A6, xi_mesh_ttl x] @ put_le32 seqnum @ a @ b, x')
         | (None, None) \<Rightarrow> ([0, xi_mesh_ttl x] @ put_le32 seqnum, x'))"

text \<open>What the choice of the addresses gives: header, its length, mesh header, link, station flags, effects.\<close>

record built =
  bu_hdr :: hdr80211
  bu_hdrlen :: nat
  bu_mesh :: "u8 list"
  bu_link :: nat
  bu_effects :: "xmit_effect list"
  bu_if :: xmit_if

definition data_hdr :: hdr80211 where
  "data_hdr = \<lparr>hd_fc = IEEE80211_FTYPE_DATA, hd_addr1 = replicate 6 0, hd_addr2 = replicate 6 0, hd_addr3 = replicate 6 0,
     hd_addr4 = replicate 6 0\<rparr>"

definition addrs3 :: "u16 \<Rightarrow> u8 list \<Rightarrow> u8 list \<Rightarrow> u8 list \<Rightarrow> hdr80211" where
  "addrs3 ds a1 a2 a3 = data_hdr\<lparr>hd_fc := IEEE80211_FTYPE_DATA OR ds, hd_addr1 := a1, hd_addr2 := a2, hd_addr3 := a3\<rparr>"

definition addrs4 :: "u8 list \<Rightarrow> u8 list \<Rightarrow> u8 list \<Rightarrow> u8 list \<Rightarrow> hdr80211" where
  "addrs4 a1 a2 a3 a4 = (addrs3 (IEEE80211_FCTL_FROMDS OR IEEE80211_FCTL_TODS) a1 a2 a3)\<lparr>hd_addr4 := a4\<rparr>"

definition plain_built :: "xmit_if \<Rightarrow> nat \<Rightarrow> hdr80211 \<Rightarrow> nat \<Rightarrow> built" where
  "plain_built x link_id h n = \<lparr>bu_hdr = h, bu_hdrlen = n, bu_mesh = [], bu_link = link_id, bu_effects = [], bu_if = x\<rparr>"

text \<open>\<open>case NL80211_IFTYPE_AP\<close>.\<close>

definition build_ap :: "xmit_if \<Rightarrow> xmit_sta option \<Rightarrow> nat \<Rightarrow> u8 list \<Rightarrow> int + built" where
  "build_ap x sta link_id skb =
     (let out = (\<lambda>link_id a2. Inr (plain_built x link_id (addrs3 IEEE80211_FCTL_FROMDS (take 6 skb) a2 (take 6 (drop 6 skb))) 24))
      in if xi_mld x \<and> (case sta of None \<Rightarrow> False | Some s \<Rightarrow> \<not> xs_mlo s) then
           let link_id = xs_link_id (the sta)
           in (case xi_link_addr x link_id of None \<Rightarrow> Inl (- ENOLINK) | Some a \<Rightarrow> out link_id a)
         else if link_id = IEEE80211_LINK_UNSPECIFIED \<or> (case sta of None \<Rightarrow> False | Some s \<Rightarrow> xs_mlo s) then out link_id (xi_addr x)
         else (case xi_link_addr x link_id of None \<Rightarrow> Inl (- ENOLINK) | Some a \<Rightarrow> out link_id a))"

text \<open>\<open>case NL80211_IFTYPE_MESH_POINT\<close>, for a frame that is not left to the hardware.\<close>

definition build_mesh ::
  "(u8 list \<Rightarrow> xmit_mpath option) \<Rightarrow> (u8 list \<Rightarrow> u8 list option) \<Rightarrow> bool \<Rightarrow> xmit_if \<Rightarrow> nat \<Rightarrow> u8 list \<Rightarrow> built"
where
  "build_mesh lookup mpp_lookup skip x link_id skb =
     (let da = take 6 skb; sa = take 6 (drop 6 skb);
          mpath = (if is_multicast_ether_addr da then None else lookup da);
          want_mpp = (\<not> is_multicast_ether_addr da \<and>
                      (case mpath of None \<Rightarrow> True | Some p \<Rightarrow> \<not> xm_next_hop p \<or> \<not> xm_active p));
          mppath = (if want_mpp then mpp_lookup da else None);
          eff = (if mppath \<noteq> None then [MppRefreshed da] else [])
                @ (case mpath of Some p \<Rightarrow> if mppath \<noteq> None then [MeshPathDel (xm_dst p)] else [] | None \<Rightarrow> []);
          (h, hdrlen, mesh, x') =
            (if xi_addr x = sa \<and> \<not> (mppath \<noteq> None \<and> mppath \<noteq> Some da) then
               let (h, hdrlen) = ieee80211_fill_mesh_addresses data_hdr da sa;
                   (mesh, x') = ieee80211_new_mesh_header x None None
               in (h, hdrlen, mesh, x')
             else
               let mesh_da = (case mppath of Some m \<Rightarrow> m | None \<Rightarrow> (case mpath of Some p \<Rightarrow> xm_dst p | None \<Rightarrow> da));
                   (h, hdrlen) = ieee80211_fill_mesh_addresses data_hdr mesh_da (xi_addr x);
                   (mesh, x') = (if is_multicast_ether_addr mesh_da then ieee80211_new_mesh_header x (Some sa) None
                                 else ieee80211_new_mesh_header x (Some da) (Some sa))
               in (h, hdrlen, mesh, x'));
          h = (if skip \<and> hd_addr1 h = replicate 6 0 then h\<lparr>hd_addr1 := da\<rparr> else h)
      in \<lparr>bu_hdr = h, bu_hdrlen = hdrlen, bu_mesh = mesh, bu_link = link_id, bu_effects = eff, bu_if = x'\<rparr>)"

text \<open>The switch over the kind of interface. A station is dereferenced only where the caller has looked it up.\<close>

definition build_addresses ::
  "(u8 list \<Rightarrow> xmit_mpath option) \<Rightarrow> (u8 list \<Rightarrow> u8 list option) \<Rightarrow> bool \<Rightarrow> xmit_if \<Rightarrow> xmit_sta option \<Rightarrow> nat \<Rightarrow> u8 list \<Rightarrow> int + built"
where
  "build_addresses lookup mpp_lookup skip x sta link_id skb =
     (let da = take 6 skb; sa = take 6 (drop 6 skb); ethertype = get_be16 skb 12; out = plain_built x link_id
      in if xi_type x = NL80211_IFTYPE_AP_VLAN \<and> xi_use_4addr x then
           Inr (out (addrs4 (xs_addr (the sta)) (xi_addr x) da sa) 30)
         else if xi_type x = NL80211_IFTYPE_AP_VLAN \<or> xi_type x = NL80211_IFTYPE_AP then build_ap x sta link_id skb
         else if xi_type x = NL80211_IFTYPE_MESH_POINT then Inr (build_mesh lookup mpp_lookup skip x link_id skb)
         else if xi_type x = NL80211_IFTYPE_STATION then
           (if xs_tdls_peer (the sta) then
              (case xs_tdls_bssid (the sta) of None \<Rightarrow> Inl (- 22) | Some b \<Rightarrow> Inr (out (addrs3 0 da sa b) 24))
            else if xi_use_4addr x \<and> ethertype \<noteq> xi_control_port x then Inr (out (addrs4 (xi_bssid x) (xi_addr x) da sa) 30)
            else Inr (out (addrs3 IEEE80211_FCTL_TODS (xi_ap_addr x) sa da) 24))
         else if xi_type x = NL80211_IFTYPE_OCB then Inr (out (addrs3 0 da sa (replicate 6 0xFF)) 24)
         else if xi_type x = NL80211_IFTYPE_ADHOC then Inr (out (addrs3 0 da sa (xi_bssid x)) 24)
         else Inl (- 22))"

text \<open>The header in front of the payload, after the Ethernet header or all of it but the type was pulled off.\<close>

definition encaps :: "u16 \<Rightarrow> u8 list \<times> nat" where
  "encaps ethertype =
     (if ethertype = ETH_P_AARP \<or> ethertype = ETH_P_IPX then (bridge_tunnel_header, ETH_HLEN - 2)
      else if ethertype \<ge> ETH_P_802_3_MIN then (rfc1042_header, ETH_HLEN - 2)
      else ([], ETH_HLEN))"

text \<open>\<open>ieee80211_build_hdr\<close>: the frame, and the interface and effects after it. \<open>cookie\<close> says that the caller asked for one;
  \<open>shared\<close> and \<open>resize\<close> say whether the copy and the room for the header can be had. The request for an
  acknowledgement report is not modelled.\<close>

definition ieee80211_build_hdr ::
  "(u8 list \<Rightarrow> xmit_mpath option) \<Rightarrow> (u8 list \<Rightarrow> u8 list option) \<Rightarrow> bool \<Rightarrow> bool \<Rightarrow> bool \<Rightarrow> bool \<Rightarrow> xmit_if \<Rightarrow> xmit_sta option \<Rightarrow> nat \<Rightarrow>
   u8 list \<Rightarrow> int + (u8 list \<times> nat \<times> xmit_effect list \<times> xmit_if)"
where
  "ieee80211_build_hdr lookup mpp_lookup skip cookie shared resize x sta link_id skb =
     (let mesh = (xi_type x = NL80211_IFTYPE_MESH_POINT); ethertype = get_be16 skb 12
      in if mesh \<and> xi_nss_mesh x \<and> \<not> is_multicast_ether_addr (take 6 skb) then Inr (skb, link_id, [], x)
         else
           case build_addresses lookup mpp_lookup skip x sta link_id skb of
             Inl err \<Rightarrow> Inl err
           | Inr b \<Rightarrow>
               if \<not> xi_chanctx x \<and> \<not> xi_mld x then Inl (- ENOTCONN)
               else
                 let multicast = is_multicast_ether_addr (hd_addr1 (bu_hdr b));
                     authorized = (case sta of None \<Rightarrow> False | Some s \<Rightarrow> xs_authorized s);
                     wme_sta = (case sta of None \<Rightarrow> mesh | Some s \<Rightarrow> xs_wme s);
                     fc = hd_fc (bu_hdr b) OR (if wme_sta then IEEE80211_STYPE_QOS_DATA else 0);
                     hdrlen = bu_hdrlen b + (if wme_sta then 2 else 0)
                 in if \<not> mesh \<and> xi_type x \<noteq> NL80211_IFTYPE_OCB \<and> \<not> multicast \<and> \<not> authorized \<and>
                       (ethertype \<noteq> xi_control_port x \<or> \<not> xi_our_addr x (take 6 (drop 6 skb))) then Inl (- EPERM)
                    else if \<not> shared then Inl (- 12)
                    else if \<not> resize then Inl (- 12)
                    else
                      let h = (bu_hdr b)\<lparr>hd_fc := fc\<rparr>; (encaps_data, skip_header_bytes) = encaps ethertype;
                          body = bu_mesh b @ encaps_data @ drop skip_header_bytes skb;
                          frame = (if ieee80211_is_data_qos fc then put_hdr h (hdrlen - 2) @ [0, 0] @ body
                                   else put_hdr h hdrlen @ body)
                      in if cookie \<and> link_id \<noteq> bu_link b \<and> bu_link b \<noteq> IEEE80211_LINK_UNSPECIFIED then Inl (- 22)
                         else Inr (frame, bu_link b, bu_effects b, bu_if b))"


section \<open>The fast path\<close>

definition overwrite :: "nat \<Rightarrow> u8 list \<Rightarrow> u8 list \<Rightarrow> u8 list" where
  "overwrite i bs xs = take i xs @ bs @ drop (i + length bs) xs"

datatype fast_cipher = FastCcmp | FastGcmp | FastTkip | FastWep | FastMgmt | FastUnknown

record fast_key =
  fk_cipher :: fast_cipher
  fk_gen_iv :: bool
  fk_iv_spc :: bool
  fk_mmic :: bool
  fk_uploaded :: bool
  fk_tainted :: bool

record fast_tx =
  ft_hdr_len :: nat
  ft_sa_offs :: nat
  ft_da_offs :: nat
  ft_pn_offs :: nat
  ft_hdr :: "u8 list"

text \<open>\<open>sizeof(build.hdr)\<close>: header, QoS field, IV and RFC 1042 header.\<close>

definition FAST_HDR_SIZE :: nat where
  "FAST_HDR_SIZE = 30 + 2 + 8 + 6"

text \<open>What stands against the fast path before the header is looked at: hardware support, power saving, authorization, no-ack, fragmentation.\<close>

record fast_guards =
  fg_support :: bool
  fg_static_ps :: bool
  fg_uploaded :: bool
  fg_ps :: bool
  fg_noack :: bool
  fg_frag :: bool
  fg_chanctx :: bool            \<comment> \<open>the channel context of the interface itself\<close>

definition fast_ok :: "fast_guards \<Rightarrow> xmit_if \<Rightarrow> xmit_sta \<Rightarrow> bool" where
  "fast_ok g x sta \<longleftrightarrow>
     fg_support g \<and> \<not> (fg_static_ps g \<and> xi_type x = NL80211_IFTYPE_STATION) \<and> xs_authorized sta \<and> fg_uploaded g \<and>
     \<not> fg_ps g \<and> \<not> fg_noack g \<and> \<not> fg_frag g \<and> (xi_mld x \<or> fg_chanctx g)"

text \<open>The switch over the kind of interface: direction bits, offsets of the addresses of a frame, header length, header.\<close>

definition fast_addresses :: "xmit_if \<Rightarrow> xmit_sta \<Rightarrow> (u16 \<times> nat \<times> nat \<times> nat \<times> u8 list) option" where
  "fast_addresses x sta =
     (let hdr = replicate FAST_HDR_SIZE 0; ft = IEEE80211_FTYPE_DATA
      in if xi_type x = NL80211_IFTYPE_ADHOC then Some (ft, 4, 10, 24, overwrite 16 (xi_bssid x) hdr)
         else if xi_type x = NL80211_IFTYPE_STATION then
           (if xs_tdls_peer sta then
              Some (ft, 4, 10, 24, case xs_tdls_bssid sta of None \<Rightarrow> hdr | Some b \<Rightarrow> overwrite 16 b hdr)
            else if xi_use_4addr x then
              Some (ft OR (IEEE80211_FCTL_FROMDS OR IEEE80211_FCTL_TODS), 16, 24, 30, overwrite 10 (xi_addr x) (overwrite 4 (xi_bssid x) hdr))
            else Some (ft OR IEEE80211_FCTL_TODS, 16, 10, 24, overwrite 4 (xi_ap_addr x) hdr))
         else if xi_type x = NL80211_IFTYPE_AP_VLAN \<and> xi_use_4addr x then
           Some (ft OR (IEEE80211_FCTL_FROMDS OR IEEE80211_FCTL_TODS), 16, 24, 30, overwrite 10 (xi_addr x) (overwrite 4 (xs_addr sta) hdr))
         else if xi_type x = NL80211_IFTYPE_AP_VLAN \<or> xi_type x = NL80211_IFTYPE_AP then
           (case (if xs_mlo sta \<or> \<not> xi_mld x then Some (xi_addr x) else xi_link_addr x (xs_link_id sta)) of
              None \<Rightarrow> None
            | Some a \<Rightarrow> Some (ft OR IEEE80211_FCTL_FROMDS, 4, 16, 24, overwrite 10 a hdr))
         else None)"

text \<open>The room for the IV and the offset of the packet number, or that the key keeps the station off the fast path.\<close>

definition fast_iv :: "fast_key \<Rightarrow> nat \<Rightarrow> (nat \<times> nat) option" where
  "fast_iv k hdr_len =
     (if \<not> fk_uploaded k \<or> fk_tainted k then None
      else case fk_cipher k of
             FastCcmp \<Rightarrow> Some (if fk_gen_iv k \<or> fk_iv_spc k then 8 else 0, if fk_gen_iv k then hdr_len else 0)
           | FastGcmp \<Rightarrow> Some (if fk_gen_iv k \<or> fk_iv_spc k then 8 else 0, if fk_gen_iv k then hdr_len else 0)
           | FastTkip \<Rightarrow> if fk_mmic k \<or> fk_gen_iv k then None else Some (if fk_iv_spc k then 8 else 0, 0)
           | FastWep \<Rightarrow> if fk_gen_iv k then None else Some (if fk_iv_spc k then 4 else 0, 0)
           | FastMgmt \<Rightarrow> None
           | FastUnknown \<Rightarrow> if fk_gen_iv k then None else Some (0, 0))"

text \<open>\<open>ieee80211_check_fast_xmit\<close>; \<open>alloc\<close>: the copy could be allocated.\<close>

definition ieee80211_check_fast_xmit :: "fast_guards \<Rightarrow> bool \<Rightarrow> fast_key option \<Rightarrow> xmit_if \<Rightarrow> xmit_sta \<Rightarrow> fast_tx option" where
  "ieee80211_check_fast_xmit g alloc key x sta =
     (if \<not> fast_ok g x sta then None
      else case fast_addresses x sta of
             None \<Rightarrow> None
           | Some (fc, da_offs, sa_offs, hdr_len, hdr) \<Rightarrow>
               let fc = fc OR (if xs_wme sta then IEEE80211_STYPE_QOS_DATA else 0);
                   hdr_len = hdr_len + (if xs_wme sta then 2 else 0)
               in case (case key of None \<Rightarrow> Some (0, 0) | Some k \<Rightarrow> fast_iv k hdr_len) of
                    None \<Rightarrow> None
                  | Some (iv, pn_offs) \<Rightarrow>
                      let fc = fc OR (if key \<noteq> None then IEEE80211_FCTL_PROTECTED else 0);
                          hdr = overwrite (hdr_len + iv) rfc1042_header (overwrite 0 (put_le16 fc) hdr)
                      in if \<not> alloc then None
                         else Some \<lparr>ft_hdr_len = hdr_len + iv + 6, ft_sa_offs = sa_offs, ft_da_offs = da_offs, ft_pn_offs = pn_offs, ft_hdr = hdr\<rparr>)"

text \<open>A frame of the fast path: the first checks of \<open>ieee80211_xmit_fast\<close>, then the header of \<open>__ieee80211_xmit_fast\<close>; \<open>ampdu_wait\<close>: a session for the TID that is not operational.\<close>

definition ieee80211_xmit_fast :: "fast_tx \<Rightarrow> u16 \<Rightarrow> bool \<Rightarrow> bool \<Rightarrow> u8 list \<Rightarrow> bool" where
  "ieee80211_xmit_fast f control_port wifi_status ampdu_wait skb =
     (let ethertype = get_be16 skb 12
      in \<not> (ethertype = control_port \<or> ethertype < ETH_P_802_3_MIN \<or> wifi_status \<or>
            (frame_control (ft_hdr f) AND IEEE80211_STYPE_QOS_DATA \<noteq> 0 \<and> ampdu_wait)))"

definition xmit_fast_frame :: "fast_tx \<Rightarrow> u8 \<Rightarrow> u8 list \<Rightarrow> u8 list" where
  "xmit_fast_frame f tid skb =
     (let da = take 6 skb; sa = take 6 (drop 6 skb);
          d = take (ft_hdr_len f) (ft_hdr f) @ drop (ETH_HLEN - 2) skb;
          d = overwrite (ft_da_offs f) da d;
          d = overwrite (ft_sa_offs f) sa d
      in if frame_control (ft_hdr f) AND IEEE80211_STYPE_QOS_DATA \<noteq> 0
         then overwrite (if ieee80211_has_a4 (frame_control d) then 30 else 24) [tid] d else d)"


section \<open>Aggregation\<close>

text \<open>A frame in its queue: the linear part, the subframes appended to it, and the flags of its control block.\<close>

record queued_skb =
  qk_data :: "u8 list"
  qk_frag_list :: "u8 list list"
  qk_amsdu :: bool
  qk_probe :: bool
  qk_gso :: bool

definition qk_len :: "queued_skb \<Rightarrow> nat" where
  "qk_len k = length (qk_data k) + length (concat (qk_frag_list k))"

text \<open>\<open>ieee80211_amsdu_prepare_head\<close>: the header for the first subframe, whose addresses are those of the frame, and the
  A-MSDU bit. \<open>bssid\<close> is that of a station, AP or VLAN.\<close>

definition ieee80211_amsdu_prepare_head :: "fast_tx \<Rightarrow> u8 list option \<Rightarrow> bool \<Rightarrow> queued_skb \<Rightarrow> queued_skb option" where
  "ieee80211_amsdu_prepare_head f bssid alloc k =
     (let hdr_len = ft_hdr_len f - 6; subframe_len = qk_len k - hdr_len
      in if qk_probe k then None
         else if qk_amsdu k then Some k
         else if \<not> alloc then None
         else
           let data = qk_data k; hdr = take hdr_len data;
               src = take 6 (drop (ft_sa_offs f) hdr); dst = take 6 (drop (ft_da_offs f) hdr);
               fc = frame_control hdr;
               hdr = (case bssid of
                        None \<Rightarrow> hdr
                      | Some b \<Rightarrow>
                          let hdr = (if ieee80211_has_fromds fc then overwrite (ft_sa_offs f) b hdr else hdr)
                          in if ieee80211_has_tods fc then overwrite (ft_da_offs f) b hdr else hdr);
               qc = (if ieee80211_has_a4 fc then 30 else 24);
               hdr = overwrite qc [hdr ! qc OR 0x80] hdr
           in Some (k\<lparr>qk_data := hdr @ dst @ src @ put_be16 (of_nat subframe_len) @ drop hdr_len data, qk_amsdu := True\<rparr>))"

record amsdu_limits =
  al_tx_amsdu :: bool           \<comment> \<open>\<open>TX_AMSDU\<close>\<close>
  al_offload :: bool
  al_mesh :: bool
  al_no_amsdu :: bool           \<comment> \<open>no transmit queue, or \<open>IEEE80211_TXQ_NO_AMSDU\<close>\<close>
  al_max_len :: nat
  al_max_rc_len :: nat
  al_max_tid_len :: nat
  al_max_subframes :: nat
  al_max_frags :: nat
  al_bssid :: "u8 list option"

definition amsdu_max_len :: "amsdu_limits \<Rightarrow> nat" where
  "amsdu_max_len l =
     (let m = al_max_len l;
          m = (if al_max_rc_len l \<noteq> 0 then min m (al_max_rc_len l) else m)
      in if al_max_tid_len l \<noteq> 0 then min m (al_max_tid_len l) else m)"

text \<open>The subframe appended for a frame, with the padding of the one before it in front.\<close>

definition amsdu_subframe :: "nat \<Rightarrow> u8 list \<Rightarrow> u8 list" where
  "amsdu_subframe pad skb =
     replicate pad 0 @ take 6 skb @ take 6 (drop 6 skb) @ put_be16 (of_nat (length skb - ETH_ALEN)) @ rfc1042_header @ drop (ETH_HLEN - 2) skb"

text \<open>\<open>ieee80211_amsdu_aggregate\<close>: \<open>head\<close> is the last frame of the flow, \<open>frags\<close> the page fragments of both, \<open>drv_ok\<close> the
  opinion of the driver, the two flags the allocations. The frame is taken, or not; the head may have
  been prepared even when it is not. The counters of the queue grow by what the head grows; they are not part of this model.\<close>

definition ieee80211_amsdu_aggregate ::
  "amsdu_limits \<Rightarrow> fast_tx \<Rightarrow> nat \<Rightarrow> bool \<Rightarrow> bool \<Rightarrow> bool \<Rightarrow> bool \<Rightarrow> queued_skb option \<Rightarrow> u8 list \<Rightarrow> bool \<times> queued_skb option"
where
  "ieee80211_amsdu_aggregate l f frags drv_ok alloc alloc' gso head skb =
     (if \<not> al_tx_amsdu l \<or> al_offload l \<or> al_mesh l \<or> gso \<or> al_no_amsdu l then (False, head)
      else case head of
        None \<Rightarrow> (False, head)
      | Some k \<Rightarrow>
          if qk_gso k then (False, head)
          else if length skb + qk_len k > amsdu_max_len l then (False, head)
          else
            let n = 2 + length (qk_frag_list k); nfrags = n + frags
            in if al_max_subframes l \<noteq> 0 \<and> n > al_max_subframes l then (False, head)
               else if al_max_frags l \<noteq> 0 \<and> nfrags > al_max_frags l then (False, head)
               else if \<not> drv_ok then (False, head)
               else case ieee80211_amsdu_prepare_head f (al_bssid l) alloc k of
                 None \<Rightarrow> (False, head)
               | Some k \<Rightarrow>
                   let hdrlen = ft_hdr_len f - 6;
                       over = (qk_len k - hdrlen) mod 4;
                       pad = (if over \<noteq> 0 then 4 - over else 0)
                   in if \<not> alloc' then (False, Some k)
                      else (True, Some (k\<lparr>qk_frag_list := qk_frag_list k @ [amsdu_subframe pad skb]\<rparr>)))"

end
