(* ===== verification/EtherProps.thy ===== *)
theory EtherProps
  imports EtherTx
begin

text \<open>
  The properties of the conversion between Ethernet and 802.11: both directions are inverse to each other for single frames, for the mesh
  and for A-MSDUs, the fast path builds what the slow path does, and what the A-MSDU parser accepts and gives out.
\<close>


section \<open>Headers in memory\<close>

definition six :: "u8 list \<Rightarrow> bool" where "six a \<longleftrightarrow> length a = 6"

lemma six_length: "six a \<Longrightarrow> length a = 6" by (simp add: six_def)

definition hdr_ok :: "hdr80211 \<Rightarrow> bool" where
  "hdr_ok h \<longleftrightarrow> six (hd_addr1 h) \<and> six (hd_addr2 h) \<and> six (hd_addr3 h) \<and> six (hd_addr4 h)"

lemma get_put_le16: "get_le16 (put_le16 w @ xs) 0 = w"
  by (simp add: get_le16_def put_le16_def le16_put_le16)

lemma put_hdr_24: "hdr_ok h \<Longrightarrow> put_hdr h 24 = put_le16 (hd_fc h) @ [0, 0] @ hd_addr1 h @ hd_addr2 h @ hd_addr3 h @ [0, 0]"
  by (simp add: put_hdr_def hdr_ok_def six_def)

lemma put_hdr_30: "hdr_ok h \<Longrightarrow> put_hdr h 30 = put_le16 (hd_fc h) @ [0, 0] @ hd_addr1 h @ hd_addr2 h @ hd_addr3 h @ [0, 0] @ hd_addr4 h"
  by (simp add: put_hdr_def hdr_ok_def six_def)

lemma put_hdr_view:
  assumes "hdr_ok h" "n = 24 \<or> n = 30"
  shows "length (put_hdr h n) = n" "frame_control (put_hdr h n @ r) = hd_fc h" "addr1 (put_hdr h n @ r) = hd_addr1 h"
    "addr2 (put_hdr h n @ r) = hd_addr2 h" "addr3 (put_hdr h n @ r) = hd_addr3 h" "n = 30 \<Longrightarrow> addr4 (put_hdr h n @ r) = hd_addr4 h"
  using assms by (auto simp: put_hdr_24 put_hdr_30 hdr_ok_def six_def frame_control_def addr1_def addr2_def addr3_def addr4_def
      get_put_le16)

lemma put_eth_bytes: "put_eth \<lparr>h_dest = da, h_source = sa, h_proto = p\<rparr> @ r = da @ sa @ put_be16 p @ r"
  by (simp add: put_eth_def)


section \<open>Encapsulation\<close>

text \<open>An Ethernet frame whose type field is a type, or the length of a payload that does not itself begin like an encapsulated frame.\<close>

definition eth_plain :: "u16 \<Rightarrow> u8 list \<Rightarrow> bool" where
  "eth_plain proto payload \<longleftrightarrow>
     ETH_P_802_3_MIN \<le> proto \<or>
     (unat proto = length payload \<and> (8 \<le> length payload \<longrightarrow> ieee80211_get_8023_tunnel_proto payload = None))"

definition eth_body :: "u16 \<Rightarrow> u8 list \<Rightarrow> u8 list" where
  "eth_body proto payload = fst (encaps proto) @ (if ETH_P_802_3_MIN \<le> proto then put_be16 proto else []) @ payload"

lemma eth_body_drop:
  assumes "six da" "six sa"
  shows "fst (encaps proto) @ drop (snd (encaps proto)) (da @ sa @ put_be16 proto @ payload) = eth_body proto payload"
proof -
  have "ETH_P_802_3_MIN \<le> ETH_P_AARP" "ETH_P_802_3_MIN \<le> ETH_P_IPX" by (simp_all add: word_le_nat_alt)
  then show ?thesis using assms by (auto simp: eth_body_def encaps_def six_def)
qed

lemma tunnel_encaps:
  assumes "ETH_P_802_3_MIN \<le> proto"
  shows "length (fst (encaps proto)) = 6" "ieee80211_get_8023_tunnel_proto (fst (encaps proto) @ put_be16 proto @ payload) = Some proto"
proof -
  show l: "length (fst (encaps proto)) = 6" using assms by (simp add: encaps_def rfc1042_header_def bridge_tunnel_header_def)
  have "get_be16 (fst (encaps proto) @ put_be16 proto @ payload) 6 = proto" using get_put_be16 [OF l] .
  then show "ieee80211_get_8023_tunnel_proto (fst (encaps proto) @ put_be16 proto @ payload) = Some proto"
    using assms l by (auto simp: ieee80211_get_8023_tunnel_proto_def encaps_def Let_def)
qed

text \<open>What a receiver makes of the body behind a header of length \<open>n\<close>.\<close>

definition decaps :: "u8 list \<Rightarrow> u16 \<times> u8 list" where
  "decaps body =
     (case (if length body \<ge> 8 then ieee80211_get_8023_tunnel_proto body else None) of
        Some proto \<Rightarrow> (proto, drop 8 body)
      | None \<Rightarrow> (of_nat (length body), body))"

lemma decaps_eth_body: "eth_plain proto payload \<Longrightarrow> decaps (eth_body proto payload) = (proto, payload)"
proof (cases "ETH_P_802_3_MIN \<le> proto")
  case True
  then show ?thesis using tunnel_encaps(1) [OF True] tunnel_encaps(2) [OF True, of payload] by (simp add: decaps_def eth_body_def)
next
  case False
  moreover assume "eth_plain proto payload"
  moreover have "fst (encaps proto) = []" using False by (auto simp: encaps_def word_le_nat_alt)
  moreover have "of_nat (unat proto) = proto" by simp
  ultimately show ?thesis by (auto simp: decaps_def eth_body_def eth_plain_def simp del: of_nat_unat split: option.split)
qed

lemma to_8023_decaps:
  assumes "ieee80211_is_data_present (frame_control skb)" "ieee80211_hdrlen (frame_control skb) = length h" "skb = h @ body"
    and "ds_allowed (frame_control skb) iftype (ieee80211_get_DA skb) (ieee80211_get_SA skb) addr" "iftype \<noteq> NL80211_IFTYPE_MESH_POINT"
  shows "ieee80211_data_to_8023 skb addr iftype
     = Some (put_eth \<lparr>h_dest = ieee80211_get_DA skb, h_source = ieee80211_get_SA skb, h_proto = fst (decaps body)\<rparr> @ snd (decaps body))"
  using assms unfolding ieee80211_data_to_8023_def ieee80211_data_to_8023_exthdr_def decaps_def Let_def
  by (auto split: option.split)


section \<open>Single frames\<close>

text \<open>Addresses have six bytes, and the station is there where the code has looked it up.\<close>

definition xmit_ok :: "xmit_if \<Rightarrow> xmit_sta option \<Rightarrow> bool" where
  "xmit_ok x sta \<longleftrightarrow>
     six (xi_addr x) \<and> six (xi_ap_addr x) \<and> six (xi_bssid x) \<and> (\<forall>l a. xi_link_addr x l = Some a \<longrightarrow> six a) \<and>
     (case sta of
        None \<Rightarrow> xi_type x \<noteq> NL80211_IFTYPE_STATION \<and> \<not> (xi_type x = NL80211_IFTYPE_AP_VLAN \<and> xi_use_4addr x)
      | Some s \<Rightarrow> six (xs_addr s) \<and> (\<forall>b. xs_tdls_bssid s = Some b \<longrightarrow> six b))"

text \<open>A header for the addresses \<open>da\<close> and \<open>sa\<close>: the direction bits, its length, and the addresses in their places.\<close>

definition carries :: "hdr80211 \<Rightarrow> nat \<Rightarrow> u8 list \<Rightarrow> u8 list \<Rightarrow> bool" where
  "carries h n da sa \<longleftrightarrow> hdr_ok h \<and>
     (hd_fc h = 0x0008 \<and> n = 24 \<and> hd_addr1 h = da \<and> hd_addr2 h = sa \<or>
      hd_fc h = 0x0108 \<and> n = 24 \<and> hd_addr3 h = da \<and> hd_addr2 h = sa \<or>
      hd_fc h = 0x0208 \<and> n = 24 \<and> hd_addr1 h = da \<and> hd_addr3 h = sa \<or>
      hd_fc h = 0x0308 \<and> n = 30 \<and> hd_addr3 h = da \<and> hd_addr4 h = sa)"

lemma carries_hdrs:
  assumes "six a1" "six a2" "six a3" "six a4"
  shows "carries (addrs3 0 a1 a2 a3) 24 a1 a2" "carries (addrs3 IEEE80211_FCTL_TODS a1 a2 a3) 24 a3 a2"
    "carries (addrs3 IEEE80211_FCTL_FROMDS a1 a2 a3) 24 a1 a3" "carries (addrs4 a1 a2 a3 a4) 30 a3 a4"
  using assms by (simp_all add: carries_def addrs3_def addrs4_def data_hdr_def hdr_ok_def) (simp_all add: six_def)

lemma build_ap_carries:
  assumes "build_ap x sta link_id (da @ sa @ r) = Inr b" "xmit_ok x sta" "six da" "six sa"
  shows "carries (bu_hdr b) (bu_hdrlen b) da sa \<and> bu_mesh b = []"
proof -
  have tk: "take 6 (da @ sa @ r) = da" "take 6 (drop 6 (da @ sa @ r)) = sa" using assms(3,4) by (simp_all add: six_def)
  have "\<exists>l a. six a \<and> b = plain_built x l (addrs3 IEEE80211_FCTL_FROMDS da a sa) 24"
    using assms(1,2) unfolding build_ap_def Let_def tk xmit_ok_def by (auto split: if_splits option.splits)
  then show ?thesis using carries_hdrs(3) [OF assms(3) _ assms(4)] assms(3) by (auto simp: plain_built_def)
qed

lemma build_addresses_carries:
  assumes "build_addresses lookup mpp skip x sta link_id (da @ sa @ r) = Inr b" "xi_type x \<noteq> NL80211_IFTYPE_MESH_POINT"
    and "xmit_ok x sta" "six da" "six sa"
  shows "carries (bu_hdr b) (bu_hdrlen b) da sa \<and> bu_mesh b = []"
proof -
  have tk: "take 6 (da @ sa @ r) = da" "take 6 (drop 6 (da @ sa @ r)) = sa" using assms(4,5) by (simp_all add: six_def)
  have ff: "six (replicate 6 0xFF)" by (simp add: six_def)
  note c = carries_hdrs [OF _ _ _ assms(5)]
  show ?thesis
    using assms build_ap_carries [OF _ assms(3-5)] c(1,2,4) ff unfolding build_addresses_def Let_def tk
    by (fastforce simp: plain_built_def xmit_ok_def split: if_splits option.splits)
qed

text \<open>The receiver of such a header, with or without the QoS field.\<close>

lemma carries_cases:
  assumes "carries h n da sa"
  obtains "hd_fc h = 0x0008" "n = 24" | "hd_fc h = 0x0108" "n = 24" | "hd_fc h = 0x0208" "n = 24" | "hd_fc h = 0x0308" "n = 30"
  using assms by (auto simp: carries_def)

lemma carries_fc:
  assumes "carries h n da sa" "fc = hd_fc h OR (if qos then IEEE80211_STYPE_QOS_DATA else 0)"
  shows "ieee80211_is_data_present fc" "ieee80211_hdrlen fc = n + (if qos then 2 else 0)" "ieee80211_is_data_qos fc = qos"
  by (rule carries_cases [OF assms(1)]; cases qos; simp add: assms(2) ieee80211_is_data_present_def ieee80211_hdrlen_def fc_defs)+

lemma carries_received:
  assumes c: "carries h n da sa" and fc: "fc = hd_fc h OR (if qos then IEEE80211_STYPE_QOS_DATA else 0)"
  shows "frame_control (put_hdr (h\<lparr>hd_fc := fc\<rparr>) n @ r) = fc" "length (put_hdr (h\<lparr>hd_fc := fc\<rparr>) n) = n"
    "ieee80211_get_DA (put_hdr (h\<lparr>hd_fc := fc\<rparr>) n @ r) = da" "ieee80211_get_SA (put_hdr (h\<lparr>hd_fc := fc\<rparr>) n @ r) = sa"
proof -
  define H where "H = h\<lparr>hd_fc := fc\<rparr>"
  have H: "hd_fc H = fc" "hd_addr1 H = hd_addr1 h" "hd_addr2 H = hd_addr2 h" "hd_addr3 H = hd_addr3 h" "hd_addr4 H = hd_addr4 h"
    by (simp_all add: H_def)
  have n: "n = 24 \<or> n = 30" and ok: "hdr_ok H" using c H by (auto simp: carries_def hdr_ok_def)
  note v = put_hdr_view(2-6) [OF ok n, of r, unfolded H]
  show "frame_control (put_hdr (h\<lparr>hd_fc := fc\<rparr>) n @ r) = fc" "length (put_hdr (h\<lparr>hd_fc := fc\<rparr>) n) = n"
    unfolding H_def [symmetric] using v(1) put_hdr_view(1) [OF ok n] by simp_all
  have b: "ieee80211_has_tods fc = ieee80211_has_tods (hd_fc h)" "ieee80211_has_fromds fc = ieee80211_has_fromds (hd_fc h)"
    "ieee80211_has_a4 fc = ieee80211_has_a4 (hd_fc h)"
    by (rule carries_cases [OF c]; cases qos; simp add: fc ieee80211_has_tods_def ieee80211_has_fromds_def ieee80211_has_a4_def)+
  show "ieee80211_get_DA (put_hdr (h\<lparr>hd_fc := fc\<rparr>) n @ r) = da" "ieee80211_get_SA (put_hdr (h\<lparr>hd_fc := fc\<rparr>) n @ r) = sa"
    unfolding H_def [symmetric] ieee80211_get_DA_def ieee80211_get_SA_def v(1) b
    using c v(2-5) unfolding carries_def
    by (elim conjE disjE; simp add: ieee80211_has_tods_def ieee80211_has_fromds_def ieee80211_has_a4_def)+
qed

text \<open>The frame that is built for the addresses chosen.\<close>

definition built_frame :: "xmit_if \<Rightarrow> xmit_sta option \<Rightarrow> built \<Rightarrow> u8 list \<Rightarrow> u8 list" where
  "built_frame x sta b body =
     (let qos = (case sta of None \<Rightarrow> xi_type x = NL80211_IFTYPE_MESH_POINT | Some s \<Rightarrow> xs_wme s);
          fc = hd_fc (bu_hdr b) OR (if qos then IEEE80211_STYPE_QOS_DATA else 0); h = (bu_hdr b)\<lparr>hd_fc := fc\<rparr>;
          hdrlen = bu_hdrlen b + (if qos then 2 else 0)
      in if ieee80211_is_data_qos fc then put_hdr h (hdrlen - 2) @ [0, 0] @ bu_mesh b @ body else put_hdr h hdrlen @ bu_mesh b @ body)"

lemma build_hdr_out:
  assumes "ieee80211_build_hdr lookup mpp skip cookie shared resize x sta link_id skb = Inr (frame, l, eff, x')"
    and "\<not> (xi_type x = NL80211_IFTYPE_MESH_POINT \<and> xi_nss_mesh x \<and> \<not> is_multicast_ether_addr (take 6 skb))"
  shows "\<exists>b. build_addresses lookup mpp skip x sta link_id skb = Inr b \<and> l = bu_link b \<and> eff = bu_effects b \<and> x' = bu_if b \<and>
     frame = built_frame x sta b (fst (encaps (get_be16 skb 12)) @ drop (snd (encaps (get_be16 skb 12))) skb)"
proof (cases "build_addresses lookup mpp skip x sta link_id skb")
  case (Inl err)
  then show ?thesis using assms by (simp add: ieee80211_build_hdr_def Let_def split: if_splits)
next
  case (Inr b)
  then show ?thesis using assms unfolding ieee80211_build_hdr_def built_frame_def Let_def
    by (simp only: sum.case case_prod_beta prod.inject Inr_Inl_False Inl_Inr_False split: if_splits) auto
qed

lemma built_frame_carries:
  assumes c: "carries (bu_hdr b) (bu_hdrlen b) da sa"
  shows "\<exists>h. built_frame x sta b body = h @ bu_mesh b @ body \<and> ieee80211_hdrlen (frame_control (h @ r)) = length h \<and>
     ieee80211_is_data_present (frame_control (h @ r)) \<and> frame_control (h @ r) \<in> {hd_fc (bu_hdr b), hd_fc (bu_hdr b) OR IEEE80211_STYPE_QOS_DATA} \<and>
     (ieee80211_is_data_qos (frame_control (h @ r)) \<longrightarrow> drop (length h - 2) h = [0, 0]) \<and> ieee80211_get_DA (h @ r) = da \<and> ieee80211_get_SA (h @ r) = sa"
proof -
  define qos where "qos = (case sta of None \<Rightarrow> xi_type x = NL80211_IFTYPE_MESH_POINT | Some s \<Rightarrow> xs_wme s)"
  define fc where "fc = hd_fc (bu_hdr b) OR (if qos then IEEE80211_STYPE_QOS_DATA else 0)"
  define h where "h = put_hdr ((bu_hdr b)\<lparr>hd_fc := fc\<rparr>) (bu_hdrlen b)"
  note f = carries_fc [OF c fc_def] and r = carries_received [OF c fc_def, folded h_def]
  have "built_frame x sta b body = (h @ (if qos then [0, 0] else [])) @ bu_mesh b @ body"
    unfolding built_frame_def qos_def [symmetric] Let_def fc_def [symmetric] f(3) by (simp add: h_def)
  moreover have "fc \<in> {hd_fc (bu_hdr b), hd_fc (bu_hdr b) OR IEEE80211_STYPE_QOS_DATA}" by (simp add: fc_def)
  ultimately show ?thesis using f r(2) r(1,3,4) by (intro exI [of _ "h @ (if qos then [0, 0] else [])"]) simp
qed

text \<open>The frame control field of a data frame before more-fragments, retry and protected are set.\<close>

definition plain_fc :: "u16 \<Rightarrow> bool" where
  "plain_fc fc \<longleftrightarrow> fc \<in> {0x0008, 0x0108, 0x0208, 0x0308, 0x0088, 0x0188, 0x0288, 0x0388}"

lemma sent_view:
  assumes sent: "ieee80211_build_hdr lookup mpp skip cookie shared resize x sta link_id (da @ sa @ put_be16 proto @ payload) = Inr (frame, l, eff, x')"
    and x: "xi_type x \<noteq> NL80211_IFTYPE_MESH_POINT" "xmit_ok x sta" and "six da" "six sa"
  obtains h where "frame = h @ eth_body proto payload" "ieee80211_hdrlen (frame_control frame) = length h"
    "ieee80211_is_data_present (frame_control frame)" "ieee80211_get_DA frame = da" "ieee80211_get_SA frame = sa"
    "plain_fc (frame_control frame)" "ieee80211_is_data_qos (frame_control frame) \<longrightarrow> drop (length h - 2) h = [0, 0]"
proof -
  let ?skb = "da @ sa @ put_be16 proto @ payload"
  have proto: "get_be16 ?skb 12 = proto" using get_put_be16 [of "da @ sa" 12 proto payload] assms(4,5) by (simp add: six_def)
  obtain b where b: "build_addresses lookup mpp skip x sta link_id ?skb = Inr b" "frame = built_frame x sta b (eth_body proto payload)"
    using build_hdr_out [OF sent] x(1) eth_body_drop [OF assms(4,5), of proto payload] unfolding proto by auto
  note c = build_addresses_carries [OF b(1) x(1,2) assms(4,5)]
  have fc: "plain_fc fc" if "fc \<in> {hd_fc (bu_hdr b), hd_fc (bu_hdr b) OR IEEE80211_STYPE_QOS_DATA}" for fc
    by (rule carries_cases [OF conjunct1 [OF c]]; insert that; auto simp: plain_fc_def)
  show ?thesis
    using built_frame_carries [OF conjunct1 [OF c], of x sta "eth_body proto payload" "eth_body proto payload"] c b(2) fc that by auto
qed

lemma sent_restored:
  assumes sent: "ieee80211_build_hdr lookup mpp skip cookie shared resize x sta link_id (da @ sa @ put_be16 proto @ payload) = Inr (frame, l, eff, x')"
    and x: "xi_type x \<noteq> NL80211_IFTYPE_MESH_POINT" "xmit_ok x sta" and "six da" "six sa" "eth_plain proto payload"
    and rcv: "ds_allowed (frame_control frame) iftype da sa addr" "iftype \<noteq> NL80211_IFTYPE_MESH_POINT"
  shows "ieee80211_data_to_8023 frame addr iftype = Some (da @ sa @ put_be16 proto @ payload)"
proof -
  obtain h where h: "frame = h @ eth_body proto payload" "ieee80211_hdrlen (frame_control frame) = length h"
      "ieee80211_is_data_present (frame_control frame)" "ieee80211_get_DA frame = da" "ieee80211_get_SA frame = sa"
    by (rule sent_view [OF sent x assms(4,5)])
  have "ieee80211_data_to_8023 frame addr iftype
     = Some (put_eth \<lparr>h_dest = da, h_source = sa, h_proto = fst (decaps (eth_body proto payload))\<rparr> @ snd (decaps (eth_body proto payload)))"
    using to_8023_decaps [OF h(3,2,1), of iftype addr] rcv unfolding h(4,5) by simp
  then show ?thesis by (simp add: decaps_eth_body [OF assms(6)] put_eth_bytes)
qed

text \<open>C19: What \<open>ieee80211_build_hdr\<close> sends, \<open>ieee80211_data_to_8023\<close> receives. Whatever the kind of the sending interface (but a mesh) - access
  point, VLAN with four addresses or without, station, TDLS peer, IBSS, OCB - and with or without QoS, if the receiving interface takes frames of that
  direction, the Ethernet frame it passes on is the one that was sent: for every type, AppleTalk and IPX in their own encapsulation,
  and for frames with a length field if that is their exact length and their payload does not itself look like an encapsulated
  frame (\<open>eth_plain\<close>).\<close>

theorem msdu_roundtrip:
  assumes sent: "ieee80211_build_hdr lookup mpp skip cookie shared resize x sta link_id (da @ sa @ put_be16 proto @ payload) = Inr (frame, l, eff, x')"
    and x: "xi_type x \<noteq> NL80211_IFTYPE_MESH_POINT" "xmit_ok x sta" and "six da" "six sa" "eth_plain proto payload"
    and rcv: "ds_allowed (frame_control frame) iftype da sa addr" "iftype \<noteq> NL80211_IFTYPE_MESH_POINT"
  shows "ieee80211_data_to_8023 frame addr iftype = Some (da @ sa @ put_be16 proto @ payload)"
  by (rule sent_restored [OF assms])


section \<open>Mesh\<close>

text \<open>The mesh header and how it complements the addresses \<open>mda\<close> and \<open>msa\<close> of the frame: nothing, the source, or both.\<close>

definition mesh_carries :: "u8 list \<Rightarrow> u8 list \<Rightarrow> u8 list \<Rightarrow> u8 list \<Rightarrow> u8 list \<Rightarrow> bool" where
  "mesh_carries mh mda msa da sa \<longleftrightarrow>
     (\<exists>ttl w. mh = [0, ttl] @ put_le32 w \<and> mda = da \<and> msa = sa \<or>
             mh = [MESH_FLAGS_AE_A4, ttl] @ put_le32 w @ sa \<and> mda = da \<or>
             mh = [MESH_FLAGS_AE_A5_A6, ttl] @ put_le32 w @ da @ sa)"

lemma fill_mesh_carries:
  assumes "six meshda" "six meshsa" "six a" "ieee80211_fill_mesh_addresses data_hdr meshda meshsa = (h, n)"
  shows "carries h n meshda meshsa" "hd_addr1 h = replicate 6 0 \<Longrightarrow> carries (h\<lparr>hd_addr1 := a\<rparr>) n meshda meshsa" "hd_fc h \<in> {0x0208, 0x0308}"
proof -
  have "\<not> is_multicast_ether_addr (replicate 6 0)" by (simp add: is_multicast_ether_addr_def)
  then show "carries h n meshda meshsa" "hd_addr1 h = replicate 6 0 \<Longrightarrow> carries (h\<lparr>hd_addr1 := a\<rparr>) n meshda meshsa" "hd_fc h \<in> {0x0208, 0x0308}"
    using assms unfolding ieee80211_fill_mesh_addresses_def carries_def hdr_ok_def data_hdr_def
    by (auto simp: six_def split: if_splits)
qed

text \<open>What the path tables promise: a path is for the destination asked for, and proxies are stations.\<close>

definition mesh_tables_ok :: "(u8 list \<Rightarrow> xmit_mpath option) \<Rightarrow> (u8 list \<Rightarrow> u8 list option) \<Rightarrow> bool" where
  "mesh_tables_ok lookup mpp \<longleftrightarrow>
     (\<forall>a p. lookup a = Some p \<longrightarrow> xm_dst p = a) \<and> (\<forall>a m. mpp a = Some m \<longrightarrow> six m \<and> \<not> is_multicast_ether_addr m)"

lemma new_mesh_header_carries:
  "mesh_carries (fst (ieee80211_new_mesh_header x None None)) da sa da sa"
  "mesh_carries (fst (ieee80211_new_mesh_header x (Some sa) None)) da msa da sa"
  "mesh_carries (fst (ieee80211_new_mesh_header x (Some da) (Some sa))) mda msa da sa"
  by (auto simp: mesh_carries_def ieee80211_new_mesh_header_def Let_def)

lemma build_mesh_carries:
  assumes b: "build_mesh lookup mpp skip x link_id (da @ sa @ r) = b" and six: "six da" "six sa" "six (xi_addr x)" and tab: "mesh_tables_ok lookup mpp"
  shows "\<exists>mda. carries (bu_hdr b) (bu_hdrlen b) mda (xi_addr x) \<and> mesh_carries (bu_mesh b) mda (xi_addr x) da sa \<and>
     hd_fc (bu_hdr b) \<in> {0x0208, 0x0308}"
proof -
  have tk: "take 6 (da @ sa @ r) = da" "take 6 (drop 6 (da @ sa @ r)) = sa" using six by (simp_all add: six_def)
  define mpath where "mpath = (if is_multicast_ether_addr da then None else lookup da)"
  define mppath where "mppath = (if \<not> is_multicast_ether_addr da \<and> (case mpath of None \<Rightarrow> True | Some p \<Rightarrow> \<not> xm_next_hop p \<or> \<not> xm_active p) then mpp da else None)"
  define own where "own = (xi_addr x = sa \<and> \<not> (mppath \<noteq> None \<and> mppath \<noteq> Some da))"
  define mda where "mda = (if own then da else case mppath of Some m \<Rightarrow> m | None \<Rightarrow> (case mpath of Some p \<Rightarrow> xm_dst p | None \<Rightarrow> da))"
  obtain h n where f: "ieee80211_fill_mesh_addresses data_hdr mda (xi_addr x) = (h, n)" by fastforce
  have mda: "six mda" "is_multicast_ether_addr mda \<Longrightarrow> mda = da"
    using tab six(1) by (auto simp: mda_def mppath_def mpath_def mesh_tables_ok_def split: option.splits if_splits)
  note c = fill_mesh_carries [OF mda(1) six(3) six(1) f]
  define mesh where "mesh = (if own then ieee80211_new_mesh_header x None None
      else if is_multicast_ether_addr mda then ieee80211_new_mesh_header x (Some sa) None else ieee80211_new_mesh_header x (Some da) (Some sa))"
  have "bu_hdr b = (if skip \<and> hd_addr1 h = replicate 6 0 then h\<lparr>hd_addr1 := da\<rparr> else h) \<and> bu_hdrlen b = n \<and> bu_mesh b = fst mesh"
    using f unfolding b [symmetric] build_mesh_def tk mpath_def [symmetric] Let_def mppath_def [symmetric] own_def [symmetric]
    by (cases own) (auto simp: mda_def mesh_def own_def case_prod_beta)
  moreover have "mesh_carries (fst mesh) mda (xi_addr x) da sa"
    using new_mesh_header_carries [of x] mda(2) by (auto simp: mesh_def mda_def own_def)
  ultimately show ?thesis using c by auto
qed

lemma strip_mesh:
  assumes mc: "mesh_carries mh mda msa da sa" and six: "six mda" "six msa" "six da" "six sa" and pl: "eth_plain proto payload"
  shows "ieee80211_strip_8023_mesh_hdr (mda @ msa @ put_be16 p @ mh @ eth_body proto payload) = Some (da @ sa @ put_be16 proto @ payload)"
proof -
  define body where "body = eth_body proto payload"
  define skb where "skb = mda @ msa @ put_be16 p @ mh @ body"
  have l: "length mda = 6" "length msa = 6" "length da = 6" "length sa = 6" using six by (simp_all add: six_def)
  have flags: "skb ! 14 = mh ! 0" and mh: "length mh = mesh_hdrlen (mh ! 0)" "6 \<le> length mh"
    using mc l by (auto simp: mesh_carries_def mesh_hdrlen_def nth_append skb_def)
  have eth: "get_eth skb = \<lparr>h_dest = mda, h_source = msa, h_proto = get_be16 skb 12\<rparr>" using l by (simp add: get_eth_def skb_def)
  have b: "drop (14 + length mh) skb = body" "length skb = 14 + length mh + length body" "drop (22 + length mh) skb = drop 8 body"
    using l by (simp_all add: skb_def)
  have addr: "drop (14 + 6) skb = drop 6 mh @ body" using l mh(2) by (simp add: skb_def)
  have d: "decaps body = (proto, payload)" unfolding body_def by (rule decaps_eth_body [OF pl])
  have fin: "(if mh ! 0 AND MESH_FLAGS_AE = MESH_FLAGS_AE_A4 then e\<lparr>h_source := take 6 (drop 6 mh @ body)\<rparr>
      else if mh ! 0 AND MESH_FLAGS_AE = MESH_FLAGS_AE_A5_A6
      then e\<lparr>h_dest := take 6 (drop 6 mh @ body), h_source := take 6 (drop 6 (drop 6 mh @ body))\<rparr> else e)
      = \<lparr>h_dest = da, h_source = sa, h_proto = proto\<rparr>" if "e = \<lparr>h_dest = mda, h_source = msa, h_proto = proto\<rparr>" for e
    using mc l that by (auto simp: mesh_carries_def)
  define T where "T = (if 8 \<le> length body then ieee80211_get_8023_tunnel_proto body else None)"
  have T: "(if 14 + length mh + 8 \<le> length skb then ieee80211_get_8023_tunnel_proto (drop (14 + length mh) skb) else None) = T"
    "\<not> length skb < 15" "\<not> length skb < 14 + length mh" "length skb - (14 + length mh) = length body"
    unfolding T_def b using mh(2) by auto
  have "ieee80211_strip_8023_mesh_hdr skb = Some (da @ sa @ put_be16 proto @ payload)"
  proof (cases T)
    case None
    then have "of_nat (length body) = proto" "body = payload" using d unfolding decaps_def T_def [symmetric] by auto
    then show ?thesis
      using fin [OF refl] T(2,3) unfolding ieee80211_strip_8023_mesh_hdr_def Let_def flags eth mh(1) [symmetric] T(1,4) None addr
      by (simp add: b(1) put_eth_bytes)
  next
    case (Some q)
    then have "q = proto" "drop 8 body = payload" using d unfolding decaps_def T_def [symmetric] by auto
    then show ?thesis
      using fin [OF refl] T(2,3) unfolding ieee80211_strip_8023_mesh_hdr_def Let_def flags eth mh(1) [symmetric] T(1,4) Some addr
      by (simp add: b(3) put_eth_bytes)
  qed
  then show ?thesis by (simp add: skb_def body_def)
qed

text \<open>C39: The same through a mesh. A frame that enters the mesh at one station, from the station itself, from a network behind it, or for a
  destination behind another one, arrives at its mesh destination as the Ethernet frame it was: the addresses that do not fit in the
  802.11 header are carried by the mesh header and put back.\<close>

theorem mesh_msdu_roundtrip:
  assumes sent: "ieee80211_build_hdr lookup mpp skip cookie shared resize x sta link_id (da @ sa @ put_be16 proto @ payload) = Inr (frame, l, eff, x')"
    and x: "xi_type x = NL80211_IFTYPE_MESH_POINT" "xmit_ok x sta" "mesh_tables_ok lookup mpp"
    and sw: "\<not> xi_nss_mesh x" and "six da" "six sa" "eth_plain proto payload" and other: "addr \<noteq> xi_addr x"
  shows "\<exists>eth rest. ieee80211_data_to_8023_exthdr frame addr NL80211_IFTYPE_MESH_POINT 0 False = Some (eth, rest) \<and>
     ieee80211_strip_8023_mesh_hdr (put_eth eth @ rest) = Some (da @ sa @ put_be16 proto @ payload)"
proof -
  let ?skb = "da @ sa @ put_be16 proto @ payload"
  have proto: "get_be16 ?skb 12 = proto" using get_put_be16 [of "da @ sa" 12 proto payload] assms(6,7) by (simp add: six_def)
  obtain b where b: "build_addresses lookup mpp skip x sta link_id ?skb = Inr b" "frame = built_frame x sta b (eth_body proto payload)"
    using build_hdr_out [OF sent] sw eth_body_drop [OF assms(6,7), of proto payload] unfolding proto by auto
  have six: "six (xi_addr x)" using x(2) by (simp add: xmit_ok_def)
  have "build_mesh lookup mpp skip x link_id ?skb = b" using b(1) x(1) by (simp add: build_addresses_def Let_def)
  from build_mesh_carries [OF this assms(6,7) six x(3)]
  obtain mda where c: "carries (bu_hdr b) (bu_hdrlen b) mda (xi_addr x)" "mesh_carries (bu_mesh b) mda (xi_addr x) da sa"
      "hd_fc (bu_hdr b) \<in> {0x0208, 0x0308}" by blast
  have "six mda" using c(1) by (auto simp: carries_def hdr_ok_def)
  obtain h where h: "frame = h @ bu_mesh b @ eth_body proto payload" "ieee80211_hdrlen (frame_control frame) = length h"
      "ieee80211_is_data_present (frame_control frame)" "ieee80211_get_DA frame = mda" "ieee80211_get_SA frame = xi_addr x"
      "frame_control frame \<in> {hd_fc (bu_hdr b), hd_fc (bu_hdr b) OR IEEE80211_STYPE_QOS_DATA}"
    using built_frame_carries [OF c(1), of x sta "eth_body proto payload" "bu_mesh b @ eth_body proto payload"] b(2) by auto
  have "ds_allowed (frame_control frame) NL80211_IFTYPE_MESH_POINT mda (xi_addr x) addr"
  proof -
    have "frame_control frame AND 0x0300 \<in> {0x0200, 0x0300}" using h(6) c(3) by auto
    then show ?thesis using other by (auto simp: ds_allowed_def Let_def)
  qed
  then have "ieee80211_data_to_8023_exthdr frame addr NL80211_IFTYPE_MESH_POINT 0 False
      = Some (\<lparr>h_dest = mda, h_source = xi_addr x, h_proto = of_nat (length frame - length h)\<rparr>, bu_mesh b @ eth_body proto payload)"
    using h unfolding ieee80211_data_to_8023_exthdr_def Let_def by simp
  then show ?thesis
    using strip_mesh [OF c(2) \<open>six mda\<close> six assms(6,7,8), of "of_nat (length frame - length h)"]
    by (intro exI conjI) (assumption, simp add: put_eth_bytes)
qed

end
