(* ===== verification/EtherFast.thy ===== *)
theory EtherFast
  imports EtherProps
begin

text \<open>
  The fast path of tx.c against the slow one: the header that is computed once per station, filled with the addresses of a frame, is the header
  that \<open>ieee80211_build_hdr\<close> would have built.
\<close>


lemma overwrite_app: "length xs = i \<Longrightarrow> length ys = length bs \<Longrightarrow> overwrite i bs (xs @ ys @ zs) = xs @ bs @ zs"
  by (simp add: overwrite_def)

lemma overwrite_beyond: "length xs \<le> i \<Longrightarrow> overwrite i bs (xs @ ys) = xs @ overwrite (i - length xs) bs ys"
  by (simp add: overwrite_def)

lemma overwrite_within: "i + length bs \<le> length xs \<Longrightarrow> overwrite i bs (xs @ ys) = overwrite i bs xs @ ys"
  by (simp add: overwrite_def)

lemma length_overwrite [simp]: "i + length bs \<le> length xs \<Longrightarrow> length (overwrite i bs xs) = length xs"
  by (simp add: overwrite_def)

text \<open>A header of which the fast path has filled the part that is the same for all frames.\<close>

definition fast_part :: "nat \<Rightarrow> nat \<Rightarrow> nat \<Rightarrow> u8 list \<Rightarrow> hdr80211 \<Rightarrow> u8 list \<Rightarrow> u8 list \<Rightarrow> bool" where
  "fast_part da_offs sa_offs n p h da sa \<longleftrightarrow>
     length p = n \<and> da_offs + 6 \<le> n \<and> sa_offs + 6 \<le> n \<and>
     (\<forall>fc. overwrite sa_offs sa (overwrite da_offs da (overwrite 0 (put_le16 fc) p)) = put_hdr (h\<lparr>hd_fc := fc\<rparr>) n)"

lemma take_overwrite: "i + length bs \<le> n \<Longrightarrow> n \<le> length xs \<Longrightarrow> take n (overwrite i bs xs) = overwrite i bs (take n xs)"
  by (simp add: overwrite_def drop_take)

lemma hdr_zeros:
  "take 24 (replicate FAST_HDR_SIZE (0 :: u8)) = [0, 0, 0, 0] @ replicate 6 0 @ replicate 6 0 @ replicate 6 0 @ [0, 0]"
  "take 30 (replicate FAST_HDR_SIZE (0 :: u8)) = [0, 0, 0, 0] @ replicate 6 0 @ replicate 6 0 @ replicate 6 0 @ [0, 0] @ replicate 6 0"
  by (simp_all add: FAST_HDR_SIZE_def) code_simp+

lemma part24:
  assumes "length z1 = 6" "length z2 = 6" "length z3 = 6" "length da = 6" "length sa = 6" "length a = 6"
  shows "fast_part 4 10 24 (overwrite 16 a ([0, 0, 0, 0] @ z1 @ z2 @ z3 @ [0, 0])) (addrs3 ds da sa a) da sa"
    "fast_part 16 10 24 (overwrite 4 a ([0, 0, 0, 0] @ z1 @ z2 @ z3 @ [0, 0])) (addrs3 ds a sa da) da sa"
    "fast_part 4 16 24 (overwrite 10 a ([0, 0, 0, 0] @ z1 @ z2 @ z3 @ [0, 0])) (addrs3 ds da a sa) da sa"
  using assms by (simp_all add: fast_part_def overwrite_def put_hdr_def addrs3_def data_hdr_def)

lemma part30:
  assumes "length z1 = 6" "length z2 = 6" "length z3 = 6" "length z4 = 6" "length da = 6" "length sa = 6" "length a = 6" "length b = 6"
  shows "fast_part 16 24 30 (overwrite 10 a (overwrite 4 b ([0, 0, 0, 0] @ z1 @ z2 @ z3 @ [0, 0] @ z4))) (addrs4 b a da sa) da sa"
  using assms by (simp add: fast_part_def overwrite_def put_hdr_def addrs3_def addrs4_def data_hdr_def)

lemma fast_parts:
  assumes "six da" "six sa" "six a" "six b"
  shows "fast_part 4 10 24 (take 24 (overwrite 16 a (replicate FAST_HDR_SIZE 0))) (addrs3 ds da sa a) da sa"
    "fast_part 16 10 24 (take 24 (overwrite 4 a (replicate FAST_HDR_SIZE 0))) (addrs3 ds a sa da) da sa"
    "fast_part 4 16 24 (take 24 (overwrite 10 a (replicate FAST_HDR_SIZE 0))) (addrs3 ds da a sa) da sa"
    "fast_part 16 24 30 (take 30 (overwrite 10 a (overwrite 4 b (replicate FAST_HDR_SIZE 0)))) (addrs4 b a da sa) da sa"
proof -
  have l: "length da = 6" "length sa = 6" "length a = 6" "length b = 6" using assms by (simp_all add: six_def)
  have t: "take 24 (overwrite i a (replicate FAST_HDR_SIZE 0)) = overwrite i a (take 24 (replicate FAST_HDR_SIZE 0))" if "i \<le> 18" for i
    using that by (intro take_overwrite) (simp_all add: l FAST_HDR_SIZE_def)
  have le: "(16::nat) \<le> 18" "(4::nat) \<le> 18" "(10::nat) \<le> 18" by simp_all
  have t': "take 30 (overwrite 10 a (overwrite 4 b (replicate FAST_HDR_SIZE 0))) = overwrite 10 a (overwrite 4 b (take 30 (replicate FAST_HDR_SIZE 0)))"
    by (simp add: take_overwrite l FAST_HDR_SIZE_def)
  show "fast_part 4 10 24 (take 24 (overwrite 16 a (replicate FAST_HDR_SIZE 0))) (addrs3 ds da sa a) da sa"
    "fast_part 16 10 24 (take 24 (overwrite 4 a (replicate FAST_HDR_SIZE 0))) (addrs3 ds a sa da) da sa"
    "fast_part 4 16 24 (take 24 (overwrite 10 a (replicate FAST_HDR_SIZE 0))) (addrs3 ds da a sa) da sa"
    unfolding t [OF le(1)] t [OF le(2)] t [OF le(3)] hdr_zeros by (rule part24; simp add: l)+
  show "fast_part 16 24 30 (take 30 (overwrite 10 a (overwrite 4 b (replicate FAST_HDR_SIZE 0)))) (addrs4 b a da sa) da sa"
    unfolding t' hdr_zeros using l by (intro part30) simp_all
qed

lemma drop_overwrite: "i + length bs \<le> n \<Longrightarrow> n \<le> length xs \<Longrightarrow> drop n (overwrite i bs xs) = drop n xs"
  by (simp add: overwrite_def)

text \<open>Both paths choose the same header.\<close>

lemma fast_layout:
  assumes f: "fast_addresses x sta = Some (fc, da_offs, sa_offs, n, hdr)" and ok: "xmit_ok x (Some sta)" "six da" "six sa"
    and proto: "get_be16 (da @ sa @ r) 12 \<noteq> xi_control_port x"
    and tdls: "xi_type x = NL80211_IFTYPE_STATION \<and> xs_tdls_peer sta \<longrightarrow> xs_tdls_bssid sta \<noteq> None"
  shows "\<exists>l h. build_addresses lookup mpp skip x (Some sta) IEEE80211_LINK_UNSPECIFIED (da @ sa @ r) = Inr (plain_built x l h n) \<and>
     fc = hd_fc h \<and> fast_part da_offs sa_offs n (take n hdr) h da sa \<and> length hdr = FAST_HDR_SIZE \<and> drop n hdr = replicate (FAST_HDR_SIZE - n) 0 \<and>
     (n = 24 \<or> n = 30)"
proof -
  have z: "length (overwrite i a (replicate FAST_HDR_SIZE 0)) = FAST_HDR_SIZE" "drop 24 (overwrite i a (replicate FAST_HDR_SIZE 0)) = replicate (FAST_HDR_SIZE - 24) 0"
    if "six a" "i \<le> 18" for i a using that by (simp_all add: six_def FAST_HDR_SIZE_def drop_overwrite)
  have z': "length (overwrite 10 a (overwrite 4 b (replicate FAST_HDR_SIZE 0))) = FAST_HDR_SIZE"
    "drop 30 (overwrite 10 a (overwrite 4 b (replicate FAST_HDR_SIZE 0))) = replicate (FAST_HDR_SIZE - 30) 0"
    if "six a" "six b" for a b using that by (simp_all add: six_def FAST_HDR_SIZE_def drop_overwrite)
  have fcs: "hd_fc (addrs3 ds a1 a2 a3) = IEEE80211_FTYPE_DATA OR ds" "hd_fc (addrs4 a1 a2 a3 a4) = IEEE80211_FTYPE_DATA OR (IEEE80211_FCTL_FROMDS OR IEEE80211_FCTL_TODS)"
    for ds a1 a2 a3 a4 by (simp_all add: addrs3_def addrs4_def)
  note p = fast_parts [OF ok(2,3)]
  have I: ?thesis if "build_addresses lookup mpp skip x (Some sta) IEEE80211_LINK_UNSPECIFIED (da @ sa @ r) = Inr (plain_built x l h n)" "fc = hd_fc h"
      "fast_part da_offs sa_offs n (take n hdr) h da sa" "length hdr = FAST_HDR_SIZE" "drop n hdr = replicate (FAST_HDR_SIZE - n) 0" "n = 24 \<or> n = 30" for l h
    using that by blast
  have six: "six (xi_addr x)" "six (xi_ap_addr x)" "six (xi_bssid x)" "six (xs_addr sta)" using ok(1) by (simp_all add: xmit_ok_def)
  have len: "length da = 6" "length sa = 6" using ok by (simp_all add: six_def)
  note b = build_addresses_def Let_def len
  consider "xi_type x = NL80211_IFTYPE_ADHOC" | "xi_type x = NL80211_IFTYPE_STATION" "xs_tdls_peer sta"
    | "xi_type x = NL80211_IFTYPE_STATION" "\<not> xs_tdls_peer sta" "xi_use_4addr x" | "xi_type x = NL80211_IFTYPE_STATION" "\<not> xs_tdls_peer sta" "\<not> xi_use_4addr x"
    | "xi_type x = NL80211_IFTYPE_AP_VLAN" "xi_use_4addr x"
    | "xi_type x = NL80211_IFTYPE_AP \<or> xi_type x = NL80211_IFTYPE_AP_VLAN \<and> \<not> xi_use_4addr x"
    using f by (auto simp: fast_addresses_def Let_def split: if_splits)
  then show ?thesis
  proof cases
    case 1
    then show ?thesis using f p(1) [OF six(3) six(3)] z [OF six(3)] by (intro I [where h = "addrs3 0 da sa (xi_bssid x)" and l = IEEE80211_LINK_UNSPECIFIED]) (auto simp: fast_addresses_def fcs b)
  next
    case 2
    then obtain a where a: "xs_tdls_bssid sta = Some a" "six a" using tdls ok(1) by (auto simp: xmit_ok_def)
    then show ?thesis using 2 f p(1) [OF a(2) a(2)] z [OF a(2)] by (intro I [where h = "addrs3 0 da sa a" and l = IEEE80211_LINK_UNSPECIFIED]) (auto simp: fast_addresses_def fcs b)
  next
    case 3
    then show ?thesis using f p(4) [OF six(1,3)] z' [OF six(1,3)] proto
      by (intro I [where h = "addrs4 (xi_bssid x) (xi_addr x) da sa" and l = IEEE80211_LINK_UNSPECIFIED]) (auto simp: fast_addresses_def fcs b)
  next
    case 4
    then show ?thesis using f p(2) [OF six(2) six(2)] z [OF six(2)] by (intro I [where h = "addrs3 IEEE80211_FCTL_TODS (xi_ap_addr x) sa da" and l = IEEE80211_LINK_UNSPECIFIED]) (auto simp: fast_addresses_def fcs b)
  next
    case 5
    then show ?thesis using f p(4) [OF six(1,4)] z' [OF six(1,4)]
      by (intro I [where h = "addrs4 (xs_addr sta) (xi_addr x) da sa" and l = IEEE80211_LINK_UNSPECIFIED]) (auto simp: fast_addresses_def fcs b)
  next
    case 6
    then obtain a where a: "(if xs_mlo sta \<or> \<not> xi_mld x then Some (xi_addr x) else xi_link_addr x (xs_link_id sta)) = Some a" "six a"
        "(fc, da_offs, sa_offs, n, hdr) = (IEEE80211_FTYPE_DATA OR IEEE80211_FCTL_FROMDS, 4, 16, 24, overwrite 10 a (replicate FAST_HDR_SIZE 0))"
      using f ok(1) by (auto simp: fast_addresses_def xmit_ok_def Let_def split: if_splits option.splits)
    then show ?thesis using 6 p(3) [OF a(2) a(2)] z [OF a(2)]
      by (intro I [where h = "addrs3 IEEE80211_FCTL_FROMDS da a sa" and l = "if xs_mlo sta \<or> \<not> xi_mld x then IEEE80211_LINK_UNSPECIFIED else xs_link_id sta"])
        (auto simp: fcs b build_ap_def split: if_splits)
  qed
qed

lemma fast_take:
  assumes "length hdr = FAST_HDR_SIZE" "drop n hdr = replicate (FAST_HDR_SIZE - n) 0" "24 \<le> n" "n + k + 6 \<le> FAST_HDR_SIZE"
  shows "take (n + k + 6) (overwrite (n + k) rfc1042_header (overwrite 0 (put_le16 fc) hdr)) = overwrite 0 (put_le16 fc) (take n hdr) @ replicate k 0 @ rfc1042_header"
    "frame_control (overwrite (n + k) rfc1042_header (overwrite 0 (put_le16 fc) hdr)) = fc"
proof -
  have hdr: "hdr = take n hdr @ replicate (FAST_HDR_SIZE - n) 0" using assms(2) append_take_drop_id [of n hdr] by simp
  have n: "length (take n hdr) = n" using assms by simp
  have "overwrite 0 (put_le16 fc) hdr = overwrite 0 (put_le16 fc) (take n hdr) @ replicate (FAST_HDR_SIZE - n) 0"
    using overwrite_within [of 0 "put_le16 fc" "take n hdr"] n assms(3) by (subst hdr) simp
  moreover have "replicate (FAST_HDR_SIZE - n) 0 = replicate k 0 @ replicate 6 0 @ replicate (FAST_HDR_SIZE - n - k - 6) (0 :: u8)"
    using assms(4) by (simp flip: replicate_add)
  ultimately have o: "overwrite (n + k) rfc1042_header (overwrite 0 (put_le16 fc) hdr)
      = overwrite 0 (put_le16 fc) (take n hdr) @ replicate k 0 @ rfc1042_header @ replicate (FAST_HDR_SIZE - n - k - 6) 0"
    using n assms(3) overwrite_app [of "overwrite 0 (put_le16 fc) (take n hdr) @ replicate k 0" "n + k" "replicate 6 0" rfc1042_header]
    by (simp add: rfc1042_header_def)
  then show "take (n + k + 6) (overwrite (n + k) rfc1042_header (overwrite 0 (put_le16 fc) hdr)) = overwrite 0 (put_le16 fc) (take n hdr) @ replicate k 0 @ rfc1042_header"
    using n assms(3) by (simp add: rfc1042_header_def)
  show "frame_control (overwrite (n + k) rfc1042_header (overwrite 0 (put_le16 fc) hdr)) = fc"
    unfolding o by (simp add: overwrite_def frame_control_def get_put_le16)
qed

lemma put_hdr_fc: "24 \<le> n \<Longrightarrow> overwrite 0 (put_le16 w) (put_hdr h n) = put_hdr (h\<lparr>hd_fc := w\<rparr>) n"
  by (simp add: put_hdr_def overwrite_def drop_take)

text \<open>The frame of the fast path, in parts.\<close>

lemma fast_frame_parts:
  assumes c: "carries h n da sa" and p: "fast_part da_offs sa_offs n (take n hdr) h da sa"
    and hdr: "length hdr = FAST_HDR_SIZE" "drop n hdr = replicate (FAST_HDR_SIZE - n) 0"
    and fc: "fc = hd_fc h OR (if qos then IEEE80211_STYPE_QOS_DATA else 0) OR (if prot then IEEE80211_FCTL_PROTECTED else 0)"
    and iv: "iv \<le> 8" and f: "ft_hdr_len f = n + (if qos then 2 else 0) + iv + 6" "ft_da_offs f = da_offs" "ft_sa_offs f = sa_offs"
      "ft_hdr f = overwrite (n + (if qos then 2 else 0) + iv) rfc1042_header (overwrite 0 (put_le16 fc) hdr)"
    and six: "six da" "six sa"
  shows "xmit_fast_frame f tid (da @ sa @ r) = put_hdr (h\<lparr>hd_fc := fc\<rparr>) n @ (if qos then [tid, 0] else []) @ replicate iv 0 @ rfc1042_header @ r"
proof -
  define k where "k = (if qos then 2 else 0) + iv"
  have n: "24 \<le> n" "n + k + 6 \<le> FAST_HDR_SIZE" using c iv by (auto simp: carries_def k_def FAST_HDR_SIZE_def)
  note t = fast_take [OF hdr n, of fc]
  have h': "ft_hdr_len f = n + k + 6" "ft_hdr f = overwrite (n + k) rfc1042_header (overwrite 0 (put_le16 fc) hdr)" by (simp_all add: f k_def add.assoc)
  have tk: "take 6 (da @ sa @ r) = da" "take 6 (drop 6 (da @ sa @ r)) = sa" "drop (ETH_HLEN - 2) (da @ sa @ r) = r" using six by (simp_all add: six_def)
  have len: "length da = 6" "length sa = 6" using six by (simp_all add: six_def)
  let ?p = "overwrite 0 (put_le16 fc) (take n hdr)" and ?r = "replicate k 0 @ rfc1042_header @ r"
  have pl: "length ?p = n" "da_offs + 6 \<le> n" "sa_offs + 6 \<le> n" using p n(1) by (auto simp: fast_part_def)
  have "overwrite sa_offs sa (overwrite da_offs da (?p @ ?r)) = put_hdr (h\<lparr>hd_fc := fc\<rparr>) n @ ?r"
    using p overwrite_within [of da_offs da ?p ?r] overwrite_within [of sa_offs sa "overwrite da_offs da ?p" ?r] pl len
    by (simp add: fast_part_def)
  then have d: "overwrite sa_offs sa (overwrite da_offs da (take (ft_hdr_len f) (ft_hdr f) @ r)) = put_hdr (h\<lparr>hd_fc := fc\<rparr>) n @ ?r"
    unfolding h' t by simp
  have ok: "hdr_ok (h\<lparr>hd_fc := fc\<rparr>)" "n = 24 \<or> n = 30" using c by (auto simp: carries_def hdr_ok_def)
  have v: "length (put_hdr (h\<lparr>hd_fc := fc\<rparr>) n) = n" "frame_control (put_hdr (h\<lparr>hd_fc := fc\<rparr>) n @ x) = fc" for x
    using put_hdr_view(1,2) [OF ok] by simp_all
  have bits: "(fc AND IEEE80211_STYPE_QOS_DATA \<noteq> 0) = qos" "(if ieee80211_has_a4 fc then 30 else 24) = n"
    by (rule carries_cases [OF c]; cases qos; cases prot; simp add: fc ieee80211_has_a4_def)+
  have q: "overwrite n [tid] (put_hdr (h\<lparr>hd_fc := fc\<rparr>) n @ ?r) = put_hdr (h\<lparr>hd_fc := fc\<rparr>) n @ [tid, 0] @ replicate iv 0 @ rfc1042_header @ r" if qos
    using that overwrite_app [OF v(1), of "[0]" "[tid]" "0 # replicate iv 0 @ rfc1042_header @ r"] by (simp add: k_def numeral_2_eq_2)
  let ?d = "put_hdr (h\<lparr>hd_fc := fc\<rparr>) n @ ?r"
  have "xmit_fast_frame f tid (da @ sa @ r)
      = (if frame_control (ft_hdr f) AND IEEE80211_STYPE_QOS_DATA \<noteq> 0 then overwrite (if ieee80211_has_a4 (frame_control ?d) then 30 else 24) [tid] ?d else ?d)"
    by (simp only: xmit_fast_frame_def Let_def tk f(2,3) d)
  also have "frame_control (ft_hdr f) = fc" unfolding h'(2) by (rule t(2))
  also have "frame_control ?d = fc" using v(2) by simp
  finally show ?thesis unfolding bits hdr80211.select_convs hdr80211.update_convs using q by (simp add: k_def)
qed

lemma fast_iv_bound: "fast_iv k n = Some (iv, pn) \<Longrightarrow> iv \<le> 8"
  by (auto simp: fast_iv_def split: if_splits fast_cipher.splits)

lemma check_fast_xmit_parts:
  assumes "ieee80211_check_fast_xmit g alloc key x sta = Some f"
  obtains fc da_offs sa_offs n hdr iv where "fast_ok g x sta" "fast_addresses x sta = Some (fc, da_offs, sa_offs, n, hdr)" "iv \<le> 8"
    "ft_hdr_len f = n + (if xs_wme sta then 2 else 0) + iv + 6" "ft_da_offs f = da_offs" "ft_sa_offs f = sa_offs"
    "ft_hdr f = overwrite (n + (if xs_wme sta then 2 else 0) + iv) rfc1042_header
      (overwrite 0 (put_le16 (fc OR (if xs_wme sta then IEEE80211_STYPE_QOS_DATA else 0) OR (if key \<noteq> None then IEEE80211_FCTL_PROTECTED else 0))) hdr)"
proof -
  obtain fc da_offs sa_offs n hdr where a: "fast_addresses x sta = Some (fc, da_offs, sa_offs, n, hdr)"
    using assms by (auto simp: ieee80211_check_fast_xmit_def split: if_splits option.splits)
  define hl where "hl = n + (if xs_wme sta then 2 else 0)"
  obtain iv pn where v: "(case key of None \<Rightarrow> Some (0, 0) | Some k \<Rightarrow> fast_iv k hl) = Some (iv, pn)"
    using assms unfolding ieee80211_check_fast_xmit_def a option.case prod.case Let_def hl_def [symmetric] by (auto split: if_splits option.splits)
  then have "iv \<le> 8" using fast_iv_bound by (auto split: option.splits)
  moreover have "fast_ok g x sta" "ft_hdr_len f = n + (if xs_wme sta then 2 else 0) + iv + 6" "ft_da_offs f = da_offs" "ft_sa_offs f = sa_offs"
    "ft_hdr f = overwrite (n + (if xs_wme sta then 2 else 0) + iv) rfc1042_header
      (overwrite 0 (put_le16 (fc OR (if xs_wme sta then IEEE80211_STYPE_QOS_DATA else 0) OR (if key \<noteq> None then IEEE80211_FCTL_PROTECTED else 0))) hdr)"
    using assms unfolding ieee80211_check_fast_xmit_def a option.case prod.case Let_def hl_def [symmetric] v by (auto simp: or.assoc split: if_splits)
  ultimately show ?thesis using that a by blast
qed

text \<open>C18: The fast path sends what the slow path sends. If the header of a station is precomputed and a frame qualifies for the fast
  path, \<open>ieee80211_build_hdr\<close> would accept the frame too, and the frame of the fast path is the one of the slow path with the
  protected bit set when there is a key, the priority in the QoS field and room for the IV behind the header - for every type but AppleTalk and
  IPX, which the fast path encapsulates differently (\<open>fast_aarp_not_restored\<close>). (A VLAN with a channel context has that of its access point; a TDLS peer has its link.) The precomputed header fits its array.\<close>

theorem fast_path_equals_slow:
  assumes f: "ieee80211_check_fast_xmit g alloc key x sta = Some f" and ok: "xmit_ok x (Some sta)" "six da" "six sa"
    and fast: "ieee80211_xmit_fast f (xi_control_port x) status wait (da @ sa @ put_be16 proto @ payload)" and proto: "proto \<noteq> ETH_P_AARP" "proto \<noteq> ETH_P_IPX"
    and tdls: "xi_type x = NL80211_IFTYPE_STATION \<and> xs_tdls_peer sta \<longrightarrow> xs_tdls_bssid sta \<noteq> None" and ctx: "fg_chanctx g \<longrightarrow> xi_chanctx x"
  shows "\<exists>frame l. ieee80211_build_hdr lookup mpp skip False True True x (Some sta) IEEE80211_LINK_UNSPECIFIED (da @ sa @ put_be16 proto @ payload)
       = Inr (frame, l, [], x) \<and>
     (let n = ieee80211_hdrlen (frame_control frame); h = take n frame;
          h = overwrite 0 (put_le16 (frame_control frame OR (if key \<noteq> None then IEEE80211_FCTL_PROTECTED else 0))) h;
          h = (if xs_wme sta then overwrite (n - 2) [tid] h else h)
      in xmit_fast_frame f tid (da @ sa @ put_be16 proto @ payload) = h @ replicate (ft_hdr_len f - 6 - n) 0 @ drop n frame \<and>
         n \<le> ft_hdr_len f - 6 \<and> ft_hdr_len f \<le> FAST_HDR_SIZE)"
proof -
  let ?skb = "da @ sa @ put_be16 proto @ payload" and ?qos = "xs_wme sta"
  have pr: "get_be16 ?skb 12 = proto" using get_put_be16 [of "da @ sa" 12 proto payload] ok(2,3) by (simp add: six_def)
  have big: "ETH_P_802_3_MIN \<le> proto" "proto \<noteq> xi_control_port x" using fast pr by (auto simp: ieee80211_xmit_fast_def Let_def not_less)
  obtain fc da_offs sa_offs n hdr iv where p: "fast_ok g x sta" "fast_addresses x sta = Some (fc, da_offs, sa_offs, n, hdr)" "iv \<le> 8"
    "ft_hdr_len f = n + (if ?qos then 2 else 0) + iv + 6" "ft_da_offs f = da_offs" "ft_sa_offs f = sa_offs"
    "ft_hdr f = overwrite (n + (if ?qos then 2 else 0) + iv) rfc1042_header
      (overwrite 0 (put_le16 (fc OR (if ?qos then IEEE80211_STYPE_QOS_DATA else 0) OR (if key \<noteq> None then IEEE80211_FCTL_PROTECTED else 0))) hdr)"
    using check_fast_xmit_parts [OF f] by metis
  obtain l h where b: "build_addresses lookup mpp skip x (Some sta) IEEE80211_LINK_UNSPECIFIED ?skb = Inr (plain_built x l h n)" and
      h: "fc = hd_fc h" "fast_part da_offs sa_offs n (take n hdr) h da sa" "length hdr = FAST_HDR_SIZE" "drop n hdr = replicate (FAST_HDR_SIZE - n) 0"
    using fast_layout [OF p(2) ok, of "put_be16 proto @ payload" lookup mpp skip] pr big(2) tdls by auto
  have type: "xi_type x \<noteq> NL80211_IFTYPE_MESH_POINT" using p(2) by (auto simp: fast_addresses_def Let_def)
  have c: "carries h n da sa" using build_addresses_carries [OF b type ok] by (simp add: plain_built_def)
  define fq where "fq = hd_fc h OR (if ?qos then IEEE80211_STYPE_QOS_DATA else 0)"
  have fqh: "\<not> ?qos \<Longrightarrow> h\<lparr>hd_fc := fq\<rparr> = h" "?qos \<Longrightarrow> fq = hd_fc h OR IEEE80211_STYPE_QOS_DATA" "\<not> ?qos \<Longrightarrow> fq = hd_fc h" by (simp_all add: fq_def)
  define k where "k = (if ?qos then [0, 0 :: u8] else [])"
  let ?H = "put_hdr (h\<lparr>hd_fc := fq\<rparr>) n" and ?body = "rfc1042_header @ put_be16 proto @ payload"
  note r = carries_received(1,2) [OF c fq_def] and cf = carries_fc [OF c fq_def]
  have "fst (encaps proto) @ drop (snd (encaps proto)) ?skb = ?body" using eth_body_drop [OF ok(2,3), of proto payload] big(1) proto by (simp add: eth_body_def encaps_def)
  then have slow: "ieee80211_build_hdr lookup mpp skip False True True x (Some sta) IEEE80211_LINK_UNSPECIFIED ?skb = Inr (?H @ k @ ?body, l, [], x)"
    using b p(1) ctx type cf(3) fqh unfolding ieee80211_build_hdr_def Let_def pr case_prod_beta
    by (cases "xs_wme sta") (auto simp: plain_built_def fast_ok_def k_def)
  have n24: "24 \<le> n" using c by (auto simp: carries_def)
  have fastf: "xmit_fast_frame f tid ?skb = put_hdr (h\<lparr>hd_fc := fq OR (if key \<noteq> None then IEEE80211_FCTL_PROTECTED else 0)\<rparr>) n
      @ (if ?qos then [tid, 0] else []) @ replicate iv 0 @ ?body"
    using fast_frame_parts [OF c h(2-4) refl p(3-6) p(7) [unfolded h(1)] ok(2,3), of tid "put_be16 proto @ payload"] by (simp add: fq_def or.assoc)
  define frame where "frame = ?H @ k @ ?body"
  have fr: "frame_control frame = fq" "ieee80211_hdrlen fq = n + length k" "take (n + length k) frame = ?H @ k" "drop (n + length k) frame = ?body"
    using r cf(2) by (simp_all add: k_def frame_def)
  have o: "overwrite 0 (put_le16 w) (?H @ k) = put_hdr (h\<lparr>hd_fc := w\<rparr>) n @ k" for w
    using put_hdr_fc [OF n24, of w "h\<lparr>hd_fc := fq\<rparr>"] overwrite_within [of 0 "put_le16 w" ?H k] r(2) n24 by simp
  have q: "overwrite n [tid] (put_hdr (h\<lparr>hd_fc := w\<rparr>) n @ [0, 0]) = put_hdr (h\<lparr>hd_fc := w\<rparr>) n @ [tid, 0]" for w
    using overwrite_app [of "put_hdr (h\<lparr>hd_fc := w\<rparr>) n" n "[0]" "[tid]" "[0]"] put_hdr_view(1) [of "h\<lparr>hd_fc := w\<rparr>" n] c by (auto simp: carries_def hdr_ok_def)
  have "ft_hdr_len f - 6 - (n + length k) = iv" "n + length k \<le> ft_hdr_len f - 6" "ft_hdr_len f \<le> FAST_HDR_SIZE"
    using p(3,4) c by (auto simp: k_def FAST_HDR_SIZE_def carries_def)
  then have "let n = ieee80211_hdrlen (frame_control frame); h = take n frame;
          h = overwrite 0 (put_le16 (frame_control frame OR (if key \<noteq> None then IEEE80211_FCTL_PROTECTED else 0))) h;
          h = (if xs_wme sta then overwrite (n - 2) [tid] h else h)
      in xmit_fast_frame f tid ?skb = h @ replicate (ft_hdr_len f - 6 - n) 0 @ drop n frame \<and> n \<le> ft_hdr_len f - 6 \<and> ft_hdr_len f \<le> FAST_HDR_SIZE"
    unfolding Let_def fr o fastf using q by (cases "xs_wme sta") (simp_all add: k_def)
  then show ?thesis using slow unfolding frame_def [symmetric] by blast
qed
end
