(* ===== verification/EtherAmsdu.thy ===== *)
theory EtherAmsdu
  imports EtherFast
begin

text \<open>
  A-MSDUs, from the transmit queue of the sender (\<open>ieee80211_amsdu_aggregate\<close>) to the receive handler of its peer: the bytes that are sent are those of the
  format, the receiver copies its parts whatever the layout of its buffer, and what it hands on are the frames that went in. For arbitrary
  bytes from the air: what is handed on, and how much.
\<close>


section \<open>Buffers\<close>

lemma copy_frag_take_slice: "n \<le> length (concat fs) \<Longrightarrow> \<exists>out. copy_frag_take fs n = Some out \<and> concat out = take n (concat fs)"
proof (induction fs n rule: copy_frag_take.induct)
  case (3 f fs n)
  have "Suc n - min (Suc n) (length f) \<le> length (concat fs)" using 3(2) by simp
  from 3(1) [OF this] obtain out where "copy_frag_take fs (Suc n - min (Suc n) (length f)) = Some out"
      "concat out = take (Suc n - min (Suc n) (length f)) (concat fs)" by blast
  then show ?case by (auto simp: min_def)
qed simp_all

lemma copy_frag_seek_drop:
  "offset < length (concat fs) \<Longrightarrow>
   \<exists>f fs' i. copy_frag_seek fs offset = Some (f # fs', i) \<and> i < length f \<and> drop offset (concat fs) = drop i f @ concat fs'"
proof (induction fs offset rule: copy_frag_seek.induct)
  case (2 f fs offset)
  then show ?case by (cases "length f \<le> offset") auto
qed simp

lemma amsdu_copy_frag_slice:
  assumes "a_frag_list skb = []" "offset + len \<le> length (skb_bytes skb)" "0 < len"
  shows "\<exists>out. amsdu_copy_frag skb offset len = Some out \<and> concat out = take len (drop offset (skb_bytes skb))"
proof -
  let ?fs = "a_head skb # a_frags skb"
  have b: "skb_bytes skb = concat ?fs" using assms(1) by (simp add: skb_bytes_def)
  obtain f fs' i where s: "copy_frag_seek ?fs offset = Some (f # fs', i)" "i < length f" "drop offset (concat ?fs) = drop i f @ concat fs'"
    using copy_frag_seek_drop [of offset ?fs] assms(2,3) b by auto
  have l: "len \<le> length (drop i f @ concat fs')" using assms(2) unfolding b s(3) [symmetric] by simp
  let ?c = "min len (length f - i)"
  have "len - ?c \<le> length (concat fs')" using l by simp
  from copy_frag_take_slice [OF this] obtain out where "copy_frag_take fs' (len - ?c) = Some out" "concat out = take (len - ?c) (concat fs')" by blast
  then show ?thesis unfolding b s(3) using s(1,2) by (auto simp: amsdu_copy_frag_def Let_def min_def)
qed

text \<open>\<open>__ieee80211_amsdu_copy\<close> copies: whatever the layout of the buffer (linear, with page fragments, with a fragment list) and whether its
  pages are shared or copied, the new frame has exactly the bytes of the subframe, and enough of them in its linear part for the
  headers that are looked at next.\<close>

lemma amsdu_copy_is_slice:
  assumes "alloc" "offset + len \<le> length (skb_bytes skb)" "reuse_frag \<longrightarrow> a_frag_list skb = []"
  shows "\<exists>linear frags. amsdu_copy skb alloc offset len reuse_frag min_len = Some (linear, frags) \<and>
     linear @ concat frags = take len (drop offset (skb_bytes skb)) \<and> min len min_len \<le> length linear"
proof -
  define cur where "cur = (if reuse_frag then min len min_len else len)"
  let ?lin = "take cur (drop offset (skb_bytes skb))"
  have lin: "length ?lin = cur" "min len min_len \<le> cur" "cur \<le> len" using assms(2) by (auto simp: cur_def)
  show ?thesis
  proof (cases "len - cur = 0")
    case True
    then show ?thesis using assms lin by (auto simp: amsdu_copy_def cur_def Let_def)
  next
    case False
    then have "a_frag_list skb = []" using assms(3) by (auto simp: cur_def split: if_splits)
    then obtain out where out: "amsdu_copy_frag skb (offset + cur) (len - cur) = Some out"
        "concat out = take (len - cur) (drop (offset + cur) (skb_bytes skb))"
      using amsdu_copy_frag_slice [of skb "offset + cur" "len - cur"] False assms(2) by auto
    have "?lin @ concat out = take len (drop offset (skb_bytes skb))"
      unfolding out(2) using lin(3) take_add [of cur "len - cur" "drop offset (skb_bytes skb)"] by (simp add: add.commute)
    moreover have "amsdu_copy skb alloc offset len reuse_frag min_len = Some (?lin, out)"
      using out(1) False assms(1,2) unfolding amsdu_copy_def cur_def [symmetric] Let_def by simp
    ultimately show ?thesis using lin by auto
  qed
qed


section \<open>The format of an A-MSDU\<close>

text \<open>The subframe of an Ethernet frame, and the subframes of several, each but the last padded to a multiple of four bytes.\<close>

definition subframe :: "u8 list \<Rightarrow> u8 list" where
  "subframe e = take 12 e @ put_be16 (of_nat (length e - 6)) @ rfc1042_header @ drop 12 e"

fun amsdu_body :: "u8 list list \<Rightarrow> u8 list" where
  "amsdu_body [] = []"
| "amsdu_body [e] = subframe e"
| "amsdu_body (e # es) = subframe e @ replicate (amsdu_padding (length (subframe e))) 0 @ amsdu_body es"

text \<open>An Ethernet frame for an A-MSDU: with a type that RFC 1042 encapsulates, and short enough for the length field.\<close>

definition msdu_ok :: "u8 list \<Rightarrow> bool" where
  "msdu_ok e \<longleftrightarrow> 14 \<le> length e \<and> length e - 6 < 65536 \<and> ETH_P_802_3_MIN \<le> get_be16 e 12 \<and> get_be16 e 12 \<notin> {ETH_P_AARP, ETH_P_IPX} \<and>
     take 6 e \<noteq> rfc1042_header"

lemma padding_bound: "amsdu_padding n < 4" "(n + amsdu_padding n) mod 4 = 0"
proof -
  have "int (amsdu_padding n) = (4 - int n) mod 4" by (simp add: amsdu_padding_def)
  then show "amsdu_padding n < 4" "(n + amsdu_padding n) mod 4 = 0" by presburger+
qed

lemma padding_mod: "amsdu_padding n = (if n mod 4 \<noteq> 0 then 4 - n mod 4 else 0)"
  using padding_bound [of n] by presburger

lemma padding_cong: "m mod 4 = n mod 4 \<Longrightarrow> amsdu_padding m = amsdu_padding n" by (simp add: padding_mod)

lemma length_subframe: "14 \<le> length e \<Longrightarrow> length (subframe e) = 14 + (length e - 6)"
  by (simp add: subframe_def rfc1042_header_def)

lemma subframe_view:
  assumes "msdu_ok e"
  shows "get_eth (subframe e @ r) = \<lparr>h_dest = take 6 e, h_source = take 6 (drop 6 e), h_proto = of_nat (length e - 6)\<rparr>"
    "get_be16 (drop 12 (subframe e @ r)) 0 = of_nat (length e - 6)" "drop 14 (subframe e @ r) = rfc1042_header @ drop 12 e @ r"
    "rfc1042_header @ drop 12 e = rfc1042_header @ put_be16 (get_be16 e 12) @ drop 14 e"
proof -
  have l: "14 \<le> length e" using assms by (simp add: msdu_ok_def)
  then have t: "length (take 12 e) = 12" by simp
  have b: "get_be16 (subframe e @ r) 12 = of_nat (length e - 6)"
    using get_put_be16 [OF t, of "of_nat (length e - 6)" "rfc1042_header @ drop 12 e @ r"] by (simp add: subframe_def)
  then show "get_eth (subframe e @ r) = \<lparr>h_dest = take 6 e, h_source = take 6 (drop 6 e), h_proto = of_nat (length e - 6)\<rparr>"
    using l unfolding get_eth_def b by (simp add: subframe_def min_def drop_take)
  show "get_be16 (drop 12 (subframe e @ r)) 0 = of_nat (length e - 6)" using b l by (simp add: get_be16_def subframe_def put_be16_def nth_append)
  show "drop 14 (subframe e @ r) = rfc1042_header @ drop 12 e @ r" using l by (simp add: subframe_def min_def)
  have "put_be16 (get_be16 e 12) = [e ! 12, e ! 13]" using put_le16_le16 [of "e ! 13" "e ! 12"] by (simp add: put_be16_def put_le16_def get_be16_def)
  moreover have "drop 12 e = e ! 12 # e ! 13 # drop 14 e" using l
    by (simp add: Cons_nth_drop_Suc [symmetric] numeral_eq_Suc)
  ultimately show "rfc1042_header @ drop 12 e = rfc1042_header @ put_be16 (get_be16 e 12) @ drop 14 e" by simp
qed

lemma eth_parts: "14 \<le> length e \<Longrightarrow> take 6 e @ take 6 (drop 6 e) @ put_be16 (get_be16 e 12) @ drop 14 e = e"
proof -
  assume l: "14 \<le> length e"
  have "put_be16 (get_be16 e 12) = [e ! 12, e ! 13]" using put_le16_le16 [of "e ! 13" "e ! 12"] by (simp add: put_be16_def put_le16_def get_be16_def)
  moreover have "drop 12 e = e ! 12 # e ! 13 # drop 14 e" using l by (simp add: Cons_nth_drop_Suc [symmetric] numeral_eq_Suc)
  ultimately have "take 6 e @ take 6 (drop 6 e) @ put_be16 (get_be16 e 12) @ drop 14 e = take 6 e @ take 6 (drop 6 e) @ drop 6 (drop 6 e)" by simp
  then show ?thesis by (simp only: append_take_drop_id)
qed

lemma finish_subframe:
  assumes "msdu_ok e" "\<not> am_mesh a" "frame @ concat frags = rfc1042_header @ drop 12 e" "8 \<le> length frame"
  shows "amsdu_finish a offset \<lparr>h_dest = take 6 e, h_source = take 6 (drop 6 e), h_proto = p\<rparr> frame frags = e"
proof -
  have l: "14 \<le> length e" using assms(1) by (simp add: msdu_ok_def)
  have all: "frame @ concat frags = (rfc1042_header @ put_be16 (get_be16 e 12)) @ drop 14 e" using assms(3) subframe_view(4) [OF assms(1)] by simp
  have "take 8 frame = take 8 (frame @ concat frags)" using assms(4) by simp
  also have "\<dots> = rfc1042_header @ put_be16 (get_be16 e 12)" unfolding all by (simp add: rfc1042_header_def)
  finally have t8: "take 8 frame = rfc1042_header @ put_be16 (get_be16 e 12)" .
  have "drop 8 frame @ concat frags = drop 8 (frame @ concat frags)" using assms(4) by simp
  also have "\<dots> = drop 14 e" unfolding all by (simp add: rfc1042_header_def)
  finally have d8: "drop 8 frame @ concat frags = drop 14 e" .
  have "frame = rfc1042_header @ put_be16 (get_be16 e 12) @ drop 8 frame" using append_take_drop_id [of 8 frame] t8 by simp
  then obtain fr where fr: "frame = rfc1042_header @ put_be16 (get_be16 e 12) @ fr" "fr @ concat frags = drop 14 e" using d8 by metis
  have "ieee80211_get_8023_tunnel_proto (frame @ am_behind a offset) = Some (get_be16 e 12)"
    using assms(1) get_put_be16 [of rfc1042_header 6 "get_be16 e 12" "fr @ am_behind a offset"]
    by (simp add: ieee80211_get_8023_tunnel_proto_def fr(1) msdu_ok_def rfc1042_header_def Let_def)
  then show ?thesis
    using assms(2,4) d8 eth_parts [OF l] by (simp add: amsdu_finish_def put_eth_def)
qed

section \<open>Receiving\<close>

text \<open>A conversion outside of a mesh for which memory can be had and which lets the frames pass.\<close>

definition takes :: "amsdu_args \<Rightarrow> u8 list \<Rightarrow> bool" where
  "takes a e \<longleftrightarrow> \<not> am_skip a (get_eth e)"

lemma takes_eth: "msdu_ok e \<Longrightarrow> am_skip a \<lparr>h_dest = take 6 e, h_source = take 6 (drop 6 e), h_proto = p\<rparr> = (\<not> takes a e)"
  by (simp add: takes_def am_skip_def get_eth_def cong: option.case_cong)

lemma amsdu_loop_step:
  assumes rest: "drop offset (skb_bytes skb) = subframe e @ r" and e: "msdu_ok e" "takes a e"
    and a: "\<not> am_mesh a" "am_control a = 0" "\<And>i. am_alloc a i"
    and ends: "fin = (length r \<le> amsdu_padding (length (subframe e)))" "fin \<longrightarrow> r = []"
  shows "amsdu_loop a skb offset list = (if fin then Some (list @ [e])
     else amsdu_loop a skb (offset + length (subframe e) + amsdu_padding (length (subframe e))) (list @ [e]))"
proof -
  have l: "14 \<le> length e" "length e - 6 < 65536" "take 6 e \<noteq> rfc1042_header" using e(1) by (simp_all add: msdu_ok_def)
  define len where "len = length e - 6"
  have len: "unat (of_nat len :: u16) = len" using l(2) by (simp add: len_def unat_of_nat)
  have sl: "length (subframe e) = 14 + len" using length_subframe [OF l(1)] by (simp add: len_def)
  define R where "R = subframe e @ r"
  note v = subframe_view(1-3) [OF e(1), of r, folded len_def R_def]
  have R: "length R = 14 + len + length r" "drop offset (skb_bytes skb) = R" using sl rest by (simp_all add: R_def)
  have field: "unat (ieee80211_amsdu_subframe_length (drop 12 R) 0 0) = len"
    unfolding ieee80211_amsdu_subframe_length_def v(2) using len by simp
  have msdu: "take len (drop (offset + 14) (skb_bytes skb)) = rfc1042_header @ drop 12 e"
  proof -
    have "length (rfc1042_header @ drop 12 e) = len" using l(1) by (simp add: len_def rfc1042_header_def)
    moreover have "drop (offset + 14) (skb_bytes skb) = (rfc1042_header @ drop 12 e) @ r"
      using v(3) unfolding add.commute [of offset] drop_drop [symmetric] R(2) by simp
    ultimately show ?thesis by simp
  qed
  have bound: "offset + 14 + len \<le> length (skb_bytes skb)"
  proof -
    have "length (drop offset (skb_bytes skb)) = 14 + len + length r" unfolding R by simp
    then show ?thesis by simp
  qed
  let ?eth = "\<lparr>h_dest = take 6 e, h_source = take 6 (drop 6 e), h_proto = of_nat len\<rparr>"
  have fin1: "amsdu_finish a offset ?eth (drop 14 R) [] = e" if fin
    using that ends(2) v(3) l(1) by (intro finish_subframe e a) (simp_all add: rfc1042_header_def)
  obtain linear frags where c: "amsdu_copy skb (am_alloc a offset) (offset + 14) len (a_head_frag skb \<and> a_frag_list skb = []) 32 = Some (linear, frags)"
      "linear @ concat frags = rfc1042_header @ drop 12 e" "min len 32 \<le> length linear"
    using amsdu_copy_is_slice [of "am_alloc a offset" "offset + 14" len skb "a_head_frag skb \<and> a_frag_list skb = []" 32] a(3) bound msdu by auto
  have fin2: "amsdu_finish a offset ?eth linear frags = e"
    using c(2,3) l(1) by (intro finish_subframe e a) (simp_all add: len_def)
  have skip: "\<not> am_skip a ?eth" using takes_eth [OF e(1)] e(2) by simp
  have mesh: "(if am_mesh a then x else y) = y" for x y :: "'z" using a(1) by simp
  show ?thesis
    unfolding amsdu_loop.simps [of a skb offset] Let_def R(2) mesh a(2) field v(1) sl
    using R(1) l(3) skip fin1 fin2 c(1) ends(1) sl by (simp add: add.assoc)
qed

lemma amsdu_body_Cons: "es \<noteq> [] \<Longrightarrow> amsdu_body (e # es) = subframe e @ replicate (amsdu_padding (length (subframe e))) 0 @ amsdu_body es"
  by (cases es) simp_all

lemma amsdu_loop_body:
  assumes a: "\<not> am_mesh a" "am_control a = 0" "\<And>i. am_alloc a i"
  shows "es \<noteq> [] \<Longrightarrow> \<forall>e \<in> set es. msdu_ok e \<and> takes a e \<Longrightarrow> drop offset (skb_bytes skb) = amsdu_body es \<Longrightarrow>
     amsdu_loop a skb offset list = Some (list @ es)"
proof (induction es arbitrary: offset list)
  case (Cons e es)
  have e: "msdu_ok e" "takes a e" using Cons.prems(2) by simp_all
  show ?case
  proof (cases "es = []")
    case True
    then show ?thesis using amsdu_loop_step [OF _ e a refl, of offset skb "[]"] Cons.prems(3) by simp
  next
    case False
    define pad where "pad = amsdu_padding (length (subframe e))"
    have rest: "drop offset (skb_bytes skb) = subframe e @ replicate pad 0 @ amsdu_body es"
      using Cons.prems(3) amsdu_body_Cons [OF False] by (simp add: pad_def)
    obtain e' es' where "es = e' # es'" using False by (cases es) auto
    then have "amsdu_body es \<noteq> []" using Cons.prems(2) length_subframe [of e'] by (cases es') (auto simp: msdu_ok_def)
    then have "amsdu_loop a skb offset list = amsdu_loop a skb (offset + length (subframe e) + pad) (list @ [e])"
      using amsdu_loop_step [OF rest e a refl, of list] by (simp add: pad_def)
    moreover have "drop (offset + length (subframe e) + pad) (skb_bytes skb) = amsdu_body es"
    proof -
      have "drop (offset + length (subframe e) + pad) (skb_bytes skb) = drop (length (subframe e) + pad) (drop offset (skb_bytes skb))"
        by (simp add: ac_simps)
      then show ?thesis unfolding rest by simp
    qed
    ultimately show ?thesis using Cons.IH [OF False] Cons.prems(2) by simp
  qed
qed simp


section \<open>Sending\<close>

definition qk_bytes :: "queued_skb \<Rightarrow> u8 list" where
  "qk_bytes k = qk_data k @ concat (qk_frag_list k)"

lemma qk_len_bytes: "qk_len k = length (qk_bytes k)" by (simp add: qk_len_def qk_bytes_def)

lemma body_mod4: "es \<noteq> [] \<Longrightarrow> length (amsdu_body es) mod 4 = length (subframe (last es)) mod 4"
proof (induction es rule: amsdu_body.induct)
  case (3 e e' es)
  have "(length (subframe e) + amsdu_padding (length (subframe e))) mod 4 = 0" by (rule padding_bound)
  then have "length (amsdu_body (e # e' # es)) mod 4 = length (amsdu_body (e' # es)) mod 4" by (simp del: amsdu_body.simps add: amsdu_body_Cons) presburger
  then show ?case using 3 by simp
qed simp_all

lemma amsdu_body_snoc:
  "es \<noteq> [] \<Longrightarrow> amsdu_body (es @ [e]) = amsdu_body es @ replicate (amsdu_padding (length (amsdu_body es))) 0 @ subframe e"
proof (induction es rule: amsdu_body.induct)
  case (3 e1 e2 es)
  have "amsdu_padding (length (amsdu_body (e1 # e2 # es))) = amsdu_padding (length (amsdu_body (e2 # es)))"
    using body_mod4 [of "e1 # e2 # es"] body_mod4 [of "e2 # es"] by (intro padding_cong) simp
  then show ?case using 3 by simp
qed simp_all

lemma subframe_eq: "14 \<le> length e \<Longrightarrow> amsdu_subframe pad e = replicate pad 0 @ subframe e"
  by (simp add: amsdu_subframe_def subframe_def) (metis append_assoc append_take_drop_id diff_add_inverse drop_take numeral_plus_numeral add_num_simps take_add take_drop)

text \<open>A head that is an A-MSDU takes another frame.\<close>

lemma aggregate_step:
  assumes k: "qk_amsdu k" "qk_bytes k = H @ amsdu_body es" "es \<noteq> []" and H: "length H = ft_hdr_len f - 6" and e: "14 \<le> length e"
    and agg: "ieee80211_amsdu_aggregate l f frags drv_ok alloc alloc' gso (Some k) e = (True, Some k')"
  shows "qk_amsdu k' \<and> qk_bytes k' = H @ amsdu_body (es @ [e])"
proof -
  have "qk_len k - (ft_hdr_len f - 6) = length (amsdu_body es)" unfolding qk_len_bytes k(2) using H by simp
  then have "k' = k\<lparr>qk_frag_list := qk_frag_list k @ [replicate (amsdu_padding (length (amsdu_body es))) 0 @ subframe e]\<rparr>"
    using agg k(1) unfolding ieee80211_amsdu_aggregate_def ieee80211_amsdu_prepare_head_def Let_def padding_mod subframe_eq [OF e]
    by (simp split: if_splits)
  then show ?thesis using k amsdu_body_snoc [OF k(3), of e] by (simp add: qk_bytes_def)
qed

text \<open>A sequence of frames, all of them taken.\<close>

fun aggregated :: "amsdu_limits \<Rightarrow> fast_tx \<Rightarrow> queued_skb \<Rightarrow> u8 list list \<Rightarrow> queued_skb option" where
  "aggregated l f k [] = Some k"
| "aggregated l f k (e # es) =
     (case ieee80211_amsdu_aggregate l f 0 True True True False (Some k) e of
        (True, Some k') \<Rightarrow> aggregated l f k' es
      | _ \<Rightarrow> None)"

lemma aggregated_amsdu:
  assumes "length H = ft_hdr_len f - 6"
  shows "qk_amsdu k \<Longrightarrow> qk_bytes k = H @ amsdu_body ds \<Longrightarrow> ds \<noteq> [] \<Longrightarrow> \<forall>e \<in> set es. 14 \<le> length e \<Longrightarrow> aggregated l f k es = Some k' \<Longrightarrow>
     qk_bytes k' = H @ amsdu_body (ds @ es)"
proof (induction es arbitrary: k ds)
  case (Cons e es)
  then obtain k1 where k1: "ieee80211_amsdu_aggregate l f 0 True True True False (Some k) e = (True, Some k1)" "aggregated l f k1 es = Some k'"
    by (auto split: prod.splits bool.splits option.splits)
  have "qk_amsdu k1 \<and> qk_bytes k1 = H @ amsdu_body (ds @ [e])"
    using aggregate_step [OF Cons.prems(1-3) assms _ k1(1)] Cons.prems(4) by simp
  then show ?case using Cons.IH [of k1 "ds @ [e]"] Cons.prems(4) k1(2) by simp
qed simp

text \<open>The first frame appended to a plain frame prepares it: the same as appending to the prepared one.\<close>

lemma aggregate_prepares:
  assumes "\<not> qk_amsdu k" "ieee80211_amsdu_aggregate l f frags drv_ok alloc True gso (Some k) e = (True, Some k')"
  obtains k1 where "ieee80211_amsdu_prepare_head f (al_bssid l) alloc k = Some k1"
    "qk_bytes k' = qk_bytes k1 @ amsdu_subframe (amsdu_padding (qk_len k1 - (ft_hdr_len f - 6))) e" "qk_amsdu k'" "qk_amsdu k1"
proof -
  obtain k1 where k1: "ieee80211_amsdu_prepare_head f (al_bssid l) alloc k = Some k1"
    using assms(2) by (auto simp: ieee80211_amsdu_aggregate_def Let_def split: if_splits option.splits)
  have "qk_amsdu k1" using k1 by (auto simp: ieee80211_amsdu_prepare_head_def Let_def split: if_splits)
  moreover have "k' = k1\<lparr>qk_frag_list := qk_frag_list k1 @ [amsdu_subframe (amsdu_padding (qk_len k1 - (ft_hdr_len f - 6))) e]\<rparr>"
    using assms(2) k1 unfolding ieee80211_amsdu_aggregate_def Let_def padding_mod by (simp split: if_splits)
  ultimately show ?thesis using that k1 by (simp add: qk_bytes_def)
qed

lemma hdr26:
  assumes "hdr_ok h" "six b"
  shows "put_hdr h 24 @ q = put_le16 (hd_fc h) @ [0, 0] @ hd_addr1 h @ hd_addr2 h @ hd_addr3 h @ [0, 0] @ q"
    "overwrite 16 b (put_hdr h 24 @ q) = put_hdr (h\<lparr>hd_addr3 := b\<rparr>) 24 @ q"
    "take 6 (drop 4 (put_hdr h 24 @ q)) = hd_addr1 h" "take 6 (drop 10 (put_hdr h 24 @ q)) = hd_addr2 h" "take 6 (drop 16 (put_hdr h 24 @ q)) = hd_addr3 h"
    "overwrite 24 [c] (put_hdr h 24 @ [d, 0]) = put_hdr h 24 @ [c, 0]" "(put_hdr h 24 @ [d, 0]) ! 24 = d" "length (put_hdr h 24) = 24"
proof -
  have l: "length (hd_addr1 h) = 6" "length (hd_addr2 h) = 6" "length (hd_addr3 h) = 6" "length b = 6" using assms by (simp_all add: hdr_ok_def six_def)
  have ok: "hdr_ok (h\<lparr>hd_addr3 := b\<rparr>)" using assms by (simp add: hdr_ok_def)
  note p = put_hdr_24 [OF assms(1)] put_hdr_24 [OF ok]
  show "put_hdr h 24 @ q = put_le16 (hd_fc h) @ [0, 0] @ hd_addr1 h @ hd_addr2 h @ hd_addr3 h @ [0, 0] @ q" using p by simp
  show "overwrite 16 b (put_hdr h 24 @ q) = put_hdr (h\<lparr>hd_addr3 := b\<rparr>) 24 @ q" unfolding p using l by (simp add: overwrite_def)
  show "take 6 (drop 4 (put_hdr h 24 @ q)) = hd_addr1 h" "take 6 (drop 10 (put_hdr h 24 @ q)) = hd_addr2 h" "take 6 (drop 16 (put_hdr h 24 @ q)) = hd_addr3 h"
    unfolding p using l by simp_all
  show l24: "length (put_hdr h 24) = 24" unfolding p using l by simp
  show "overwrite 24 [c] (put_hdr h 24 @ [d, 0]) = put_hdr h 24 @ [c, 0]" "(put_hdr h 24 @ [d, 0]) ! 24 = d"
    using overwrite_app [OF l24, of "[d]" "[c]" "[0]"] l24 by (simp_all add: nth_append)
qed

text \<open>The frame of an access point to a station, and of a station to its access point.\<close>

definition amsdu_hdr_ok :: "fast_tx \<Rightarrow> hdr80211 \<Rightarrow> u8 list \<Rightarrow> u8 list \<Rightarrow> bool" where
  "amsdu_hdr_ok f h da sa \<longleftrightarrow> hdr_ok h \<and> ft_hdr_len f = 32 \<and>
     (hd_fc h = 0x0288 \<and> ft_da_offs f = 4 \<and> ft_sa_offs f = 16 \<and> hd_addr1 h = da \<and> hd_addr3 h = sa \<or>
      hd_fc h = 0x0188 \<and> ft_da_offs f = 16 \<and> ft_sa_offs f = 10 \<and> hd_addr3 h = da \<and> hd_addr2 h = sa)"

lemma prepare_head_view:
  assumes ok: "amsdu_hdr_ok f h da sa" "six b" and e: "da @ sa = take 12 e" "14 \<le> length e"
    and k: "qk_data k = put_hdr h 24 @ [tid, 0] @ rfc1042_header @ drop 12 e" "qk_frag_list k = []" "\<not> qk_amsdu k" "\<not> qk_probe k"
  shows "\<exists>k1. ieee80211_amsdu_prepare_head f (Some b) True k = Some k1 \<and> qk_amsdu k1 \<and>
     qk_bytes k1 = put_hdr (h\<lparr>hd_addr3 := b\<rparr>) 24 @ [tid OR 0x80, 0] @ subframe e"
proof -
  have h: "hdr_ok h" and fl: "ft_hdr_len f - 6 = 26" using ok(1) by (simp_all add: amsdu_hdr_ok_def)
  have h': "hdr_ok (h\<lparr>hd_addr3 := b\<rparr>)" using h ok(2) by (simp add: hdr_ok_def)
  note v = hdr26(2-8) [OF h ok(2)] and v' = hdr26(6,7) [OF h' ok(2)]
  have hd: "take 26 (qk_data k) = put_hdr h 24 @ [tid, 0]" "drop 26 (qk_data k) = rfc1042_header @ drop 12 e" unfolding k(1) using v(7) by simp_all
  have len: "qk_len k - 26 = length e - 6" unfolding qk_len_def k(1,2) using v(7) e(2) by (simp add: rfc1042_header_def)
  have fc: "frame_control (put_hdr h 24 @ [tid, 0]) = hd_fc h" using put_hdr_view(2) [OF h] by simp
  have bits: "(if ieee80211_has_a4 (hd_fc h) then 30 else 24) = (24 :: nat)" using ok(1) by (auto simp: amsdu_hdr_ok_def ieee80211_has_a4_def)
  show ?thesis
    using k(3,4) ok(1) unfolding ieee80211_amsdu_prepare_head_def Let_def fl hd len fc bits amsdu_hdr_ok_def
    by (elim conjE disjE)
      (simp_all del: take_append drop_append add: ieee80211_has_fromds_def ieee80211_has_tods_def v v' qk_bytes_def k(2) subframe_def flip: e(1))
qed

text \<open>The frame of the fast path that becomes the head: without a key, with the QoS field.\<close>

lemma fast_amsdu_head:
  assumes f: "ieee80211_check_fast_xmit g alloc None x sta = Some f" and ok: "xmit_ok x (Some sta)" "six da" "six sa" "xs_wme sta"
    and dir: "xi_type x = NL80211_IFTYPE_AP \<or> xi_type x = NL80211_IFTYPE_STATION \<and> \<not> xi_use_4addr x \<and> \<not> xs_tdls_peer sta"
  obtains h where "amsdu_hdr_ok f h da sa" "xmit_fast_frame f tid (da @ sa @ r) = put_hdr h 24 @ [tid, 0] @ rfc1042_header @ r"
    "xi_type x = NL80211_IFTYPE_AP \<Longrightarrow> hd_fc h = 0x0288 \<and> hd_addr1 h = da"
    "xi_type x = NL80211_IFTYPE_STATION \<Longrightarrow> hd_fc h = 0x0188 \<and> hd_addr1 h = xi_ap_addr x"
proof -
  note out = that
  obtain fc da_offs sa_offs n hdr where p: "fast_addresses x sta = Some (fc, da_offs, sa_offs, n, hdr)" "ft_hdr_len f = n + 2 + 6"
    "ft_da_offs f = da_offs" "ft_sa_offs f = sa_offs" "ft_hdr f = overwrite (n + 2) rfc1042_header (overwrite 0 (put_le16 (fc OR IEEE80211_STYPE_QOS_DATA)) hdr)"
    using f ok(4) by (auto simp: ieee80211_check_fast_xmit_def Let_def split: if_splits option.splits)
  have z: "length (overwrite i a (replicate FAST_HDR_SIZE 0)) = FAST_HDR_SIZE" "drop 24 (overwrite i a (replicate FAST_HDR_SIZE 0)) = replicate (FAST_HDR_SIZE - 24) 0"
    if "six a" "i \<le> 18" for i a using that by (simp_all add: six_def FAST_HDR_SIZE_def drop_overwrite)
  have I: thesis if c: "carries h 24 da sa" and q: "fast_part da_offs sa_offs 24 (take 24 hdr) h da sa" "n = 24" "fc = hd_fc h"
      "length hdr = FAST_HDR_SIZE" "drop 24 hdr = replicate (FAST_HDR_SIZE - 24) 0"
    and k: "xi_type x = NL80211_IFTYPE_AP \<and> fc = 0x0208 \<and> da_offs = 4 \<and> sa_offs = 16 \<and> hd_addr1 h = da \<and> hd_addr3 h = sa \<or>
      xi_type x = NL80211_IFTYPE_STATION \<and> fc = 0x0108 \<and> da_offs = 16 \<and> sa_offs = 10 \<and> hd_addr1 h = xi_ap_addr x \<and> hd_addr3 h = da \<and> hd_addr2 h = sa" for h
  proof (rule out [of "h\<lparr>hd_fc := fc OR IEEE80211_STYPE_QOS_DATA\<rparr>"])
    show "xmit_fast_frame f tid (da @ sa @ r) = put_hdr (h\<lparr>hd_fc := fc OR IEEE80211_STYPE_QOS_DATA\<rparr>) 24 @ [tid, 0] @ rfc1042_header @ r"
      using fast_frame_parts [OF c q(1,4,5), where qos = True and prot = False and iv = 0 and f = f and fc = "fc OR IEEE80211_STYPE_QOS_DATA" and tid = tid and r = r] p q(2,3) ok
      by simp
  qed (use c k p q(2) in \<open>auto simp: amsdu_hdr_ok_def carries_def hdr_ok_def\<close>)
  show ?thesis
  proof (cases "xi_type x = NL80211_IFTYPE_AP")
    case True
    then obtain a where a: "six a" "fc = 0x0208" "da_offs = 4" "sa_offs = 16" "n = 24" "hdr = overwrite 10 a (replicate FAST_HDR_SIZE 0)"
      using p(1) ok(1) by (auto simp: fast_addresses_def xmit_ok_def Let_def split: if_splits option.splits)
    then show ?thesis using True fast_parts(3) [OF ok(2,3) a(1) a(1), of IEEE80211_FCTL_FROMDS] carries_hdrs(3) [OF ok(2) a(1) ok(3) a(1)] z [OF a(1)]
      by (intro I [of "addrs3 IEEE80211_FCTL_FROMDS da a sa"]) (auto simp: addrs3_def)
  next
    case False
    then have t: "xi_type x = NL80211_IFTYPE_STATION" and a: "six (xi_ap_addr x)" "fc = 0x0108" "da_offs = 16" "sa_offs = 10" "n = 24"
        "hdr = overwrite 4 (xi_ap_addr x) (replicate FAST_HDR_SIZE 0)"
      using dir p(1) ok(1) by (auto simp: fast_addresses_def xmit_ok_def Let_def split: if_splits)
    then show ?thesis using fast_parts(2) [OF ok(2,3) a(1) a(1), of IEEE80211_FCTL_TODS] carries_hdrs(2) [OF a(1) ok(3,2) a(1)] z [OF a(1)]
      by (intro I [of "addrs3 IEEE80211_FCTL_TODS (xi_ap_addr x) sa da"]) (auto simp: addrs3_def)
  qed
qed

text \<open>The receive handler on a frame with the header of an access point or a station.\<close>

lemma rx_h_amsdu_frames:
  assumes H: "hdr_ok h" "hd_fc h = 0x0288 \<and> ar_iftype rx = NL80211_IFTYPE_STATION \<or>
      hd_fc h = 0x0188 \<and> (ar_iftype rx = NL80211_IFTYPE_AP \<or> ar_iftype rx = NL80211_IFTYPE_AP_VLAN)"
      "\<not> is_multicast_ether_addr (hd_addr1 h)"
    and skb: "skb_bytes skb = (put_hdr h 24 @ q) @ amsdu_body es" "length q = 2" "26 \<le> length (a_head skb)" and es: "es \<noteq> []" "\<forall>e \<in> set es. msdu_ok e"
    and rx: "ar_amsdu rx" "ar_sta rx = Some st" "as_mesh_control st = 0" "\<not> as_tdls_peer st" "ar_key rx = None" "\<And>i. ar_alloc rx i"
    and da: "ar_iftype rx = NL80211_IFTYPE_STATION \<Longrightarrow> \<forall>e \<in> set es. hd_addr1 h = take 6 e \<or> is_multicast_ether_addr (take 6 e)"
    and sa: "ar_iftype rx \<noteq> NL80211_IFTYPE_STATION \<Longrightarrow> \<forall>e \<in> set es. take 6 (drop 6 e) = hd_addr2 h"
  shows "ieee80211_rx_h_amsdu rx skb = AmsduFrames 0 es"
proof -
  define hd where "hd = a_head skb"
  have pl: "length (put_hdr h 24) = 24" using put_hdr_view(1) [OF H(1)] by simp
  obtain r where r: "hd = put_hdr h 24 @ q @ r"
  proof
    have "take 26 hd = take 26 (skb_bytes skb)" using skb(3) by (simp add: skb_bytes_def hd_def)
    also have "\<dots> = put_hdr h 24 @ q" unfolding skb(1) using pl skb(2) by simp
    finally have "take 26 hd = put_hdr h 24 @ q" .
    then show "hd = put_hdr h 24 @ q @ drop 26 hd" using append_take_drop_id [of 26 hd] by simp
  qed
  note v = put_hdr_view(2-5) [OF H(1)] 
  have fc: "frame_control hd = hd_fc h" "addr1 hd = hd_addr1 h" unfolding r using v by simp_all
  have fs: "frame_control (skb_bytes skb) = hd_fc h" "addr1 (skb_bytes skb) = hd_addr1 h" "addr2 (skb_bytes skb) = hd_addr2 h" "length (skb_bytes skb) \<ge> 26"
    "drop 26 (skb_bytes skb) = amsdu_body es"
    unfolding skb(1) using v pl skb(2) by simp_all
  have n: "ieee80211_hdrlen (hd_fc h) = 26" "ieee80211_is_data (hd_fc h)" "ieee80211_is_data_present (hd_fc h)" "\<not> ieee80211_has_a4 (hd_fc h)"
    using H(2) by (auto simp: ieee80211_hdrlen_def ieee80211_is_data_present_def ieee80211_has_a4_def fc_defs)
  have body: "skb_bytes (skb\<lparr>a_head := drop 26 hd\<rparr>) = amsdu_body es"
    using fs(5) skb(3) by (simp add: skb_bytes_def hd_def)
  define DA where "DA = ieee80211_get_DA (skb_bytes skb)"
  define SA where "SA = ieee80211_get_SA (skb_bytes skb)"
  have D: "ar_iftype rx = NL80211_IFTYPE_STATION \<Longrightarrow> DA = hd_addr1 h" "ar_iftype rx \<noteq> NL80211_IFTYPE_STATION \<Longrightarrow> SA = hd_addr2 h"
    using H(2) fs(1-3) by (auto simp: DA_def SA_def ieee80211_get_DA_def ieee80211_get_SA_def ieee80211_has_tods_def ieee80211_has_fromds_def ieee80211_has_a4_def)
  have ex: "ieee80211_data_to_8023_exthdr (skb_bytes skb) (ar_addr rx) (ar_iftype rx) 0 True
      = Some (\<lparr>h_dest = DA, h_source = SA, h_proto = of_nat (length (skb_bytes skb) - 26)\<rparr>, amsdu_body es)"
    using n fs H(2,3) D unfolding ieee80211_data_to_8023_exthdr_def fs(1) n(1) DA_def [symmetric] SA_def [symmetric] Let_def
    by (auto simp: ds_allowed_def)
  have conv: "ieee80211_amsdu_to_8023s a (skb\<lparr>a_head := drop 26 hd\<rparr>) = es" if "\<not> am_mesh a" "am_control a = 0" "\<And>i. am_alloc a i" "\<forall>e \<in> set es. takes a e" for a
    using amsdu_loop_body [OF that(1-3) es(1), of 0 "skb\<lparr>a_head := drop 26 hd\<rparr>" "[]"] that(4) es(2) body by (simp add: ieee80211_amsdu_to_8023s_def)
  show ?thesis
    unfolding ieee80211_rx_h_amsdu_def rx_h_amsdu_def Let_def hd_def [symmetric] fc ex option.case prod.case case_prod_beta n(1)
    using n H rx fc D da sa by (auto intro!: conv simp: am_mesh_def takes_def am_skip_def get_eth_def)
qed

text \<open>C17: An A-MSDU that the transmit queue has put together from any number of frames arrives as these frames, without encryption
  and with three addresses. An access point (to one station, for it or for a group) or a station (to its access point, from one source
  address) with no key sends a first frame on the fast path and appends others to it while it waits - the header of the subframe, its
  length, the RFC 1042 header and the padding in front of the next one; the receiving station or access point is handed exactly the
  Ethernet frames that went in, in their order, whether the received buffer is linear, has page fragments or a fragment list, and whether
  its pages are shared or copied. The frames have a type (\<open>msdu_ok\<close>) other than AppleTalk and IPX, which the transmit queue puts behind an RFC 1042
  header and the receiver does not take out of it (\<open>fast_aarp_not_restored\<close> shows this for the fast path).\<close>

theorem amsdu_roundtrip:
  assumes f: "ieee80211_check_fast_xmit g alloc None x sta = Some f" and x: "xmit_ok x (Some sta)" "xs_wme sta"
    and dir: "xi_type x = NL80211_IFTYPE_AP \<and> ar_iftype rx = NL80211_IFTYPE_STATION \<and> \<not> is_multicast_ether_addr (take 6 e0) \<and>
        (\<forall>e \<in> set es. take 6 e0 = take 6 e \<or> is_multicast_ether_addr (take 6 e)) \<or>
      xi_type x = NL80211_IFTYPE_STATION \<and> \<not> xi_use_4addr x \<and> \<not> xs_tdls_peer sta \<and> ar_iftype rx \<in> {NL80211_IFTYPE_AP, NL80211_IFTYPE_AP_VLAN} \<and>
        \<not> is_multicast_ether_addr (xi_ap_addr x) \<and> (\<forall>e \<in> set es. take 6 (drop 6 e) = take 6 (drop 6 e0))"
    and es: "\<forall>e \<in> set (e0 # es). msdu_ok e" "es \<noteq> []" and l: "al_bssid l = Some b" "six b"
    and sent: "aggregated l f \<lparr>qk_data = xmit_fast_frame f tid e0, qk_frag_list = [], qk_amsdu = False, qk_probe = False, qk_gso = False\<rparr> es = Some k"
    and rx: "ar_amsdu rx" "ar_sta rx = Some st" "as_mesh_control st = 0" "\<not> as_tdls_peer st" "ar_key rx = None" "\<forall>i. ar_alloc rx i"
    and skb: "skb_bytes skb = qk_bytes k" "26 \<le> length (a_head skb)"
  shows "ieee80211_rx_h_amsdu rx skb = AmsduFrames 0 (e0 # es)"
proof -
  define da where "da = take 6 e0"
  define sa where "sa = take 6 (drop 6 e0)"
  have len: "14 \<le> length e0" using es(1) by (simp add: msdu_ok_def)
  have six: "six da" "six sa" using len by (simp_all add: six_def da_def sa_def)
  have parts: "da @ sa = take 12 e0" "da @ sa @ drop 12 e0 = e0" using append_take_drop_id [of 6 e0] append_take_drop_id [of 6 "drop 6 e0"]
    by (simp_all add: da_def sa_def flip: take_add)
  obtain h where h: "amsdu_hdr_ok f h da sa" "xmit_fast_frame f tid e0 = put_hdr h 24 @ [tid, 0] @ rfc1042_header @ drop 12 e0"
      "xi_type x = NL80211_IFTYPE_AP \<Longrightarrow> hd_fc h = 0x0288 \<and> hd_addr1 h = da"
      "xi_type x = NL80211_IFTYPE_STATION \<Longrightarrow> hd_fc h = 0x0188 \<and> hd_addr1 h = xi_ap_addr x"
    using fast_amsdu_head [OF f x(1) six x(2), of tid "drop 12 e0"] dir unfolding parts by blast
  define k0 where "k0 = \<lparr>qk_data = xmit_fast_frame f tid e0, qk_frag_list = [], qk_amsdu = False, qk_probe = False, qk_gso = False\<rparr>"
  obtain e es' k' where es': "es = e # es'" "ieee80211_amsdu_aggregate l f 0 True True True False (Some k0) e = (True, Some k')" "aggregated l f k' es' = Some k"
    using sent es(2) unfolding k0_def [symmetric] by (cases es) (auto split: prod.splits bool.splits option.splits)
  obtain k1 where k1: "ieee80211_amsdu_prepare_head f (Some b) True k0 = Some k1" "qk_amsdu k'"
      "qk_bytes k' = qk_bytes k1 @ amsdu_subframe (amsdu_padding (qk_len k1 - (ft_hdr_len f - 6))) e"
    using aggregate_prepares [OF _ es'(2)] l(1) by (auto simp: k0_def)
  define H where "H = put_hdr (h\<lparr>hd_addr3 := b\<rparr>) 24 @ [tid OR 0x80, 0]"
  have ok: "hdr_ok (h\<lparr>hd_addr3 := b\<rparr>)" using h(1) l(2) by (simp add: amsdu_hdr_ok_def hdr_ok_def)
  have fl: "length H = ft_hdr_len f - 6" using h(1) put_hdr_view(1) [OF ok, of 24] by (simp add: H_def amsdu_hdr_ok_def)
  have b1: "qk_bytes k1 = H @ amsdu_body [e0]"
    using prepare_head_view [OF h(1) l(2) parts(1) len, of k0 tid] h(2) k1(1) by (auto simp: k0_def H_def)
  have "14 \<le> length e" using es(1) es'(1) by (simp add: msdu_ok_def)
  then have "qk_bytes k' = H @ amsdu_body [e0, e]"
    using k1(3) fl unfolding qk_len_bytes b1 by (simp add: subframe_eq)
  then have bytes: "skb_bytes skb = (put_hdr (h\<lparr>hd_addr3 := b\<rparr>) 24 @ [tid OR 0x80, 0]) @ amsdu_body (e0 # es)"
    using aggregated_amsdu [OF fl k1(2), of "[e0, e]" es' l k] es(1) es'(1,3) skb(1) by (simp add: msdu_ok_def H_def)
  have a2: "hd_fc h = 0x0188 \<Longrightarrow> hd_addr2 h = sa" using h(1) by (auto simp: amsdu_hdr_ok_def)
  show ?thesis
    by (rule rx_h_amsdu_frames [OF ok _ _ bytes _ skb(2) _ es(1) rx(1-5)])
      (use dir h(3,4) a2 rx(6) in \<open>auto simp: da_def sa_def\<close>)
qed


section \<open>Arbitrary bytes\<close>

text \<open>A frame as the conversion makes it from a subframe: its header is that of the subframe but for the type.\<close>

lemma finish_length: "length (amsdu_finish a offset eth frame frags) \<le> length (h_dest eth) + length (h_source eth) + 2 + length frame + length (concat frags)"
  by (auto simp: amsdu_finish_def put_eth_def split: option.split)

lemma finish_eth:
  assumes "six (h_dest eth)" "six (h_source eth)"
  shows "\<exists>p r. amsdu_finish a offset eth frame frags = h_dest eth @ h_source eth @ put_be16 p @ r"
  by (auto simp: amsdu_finish_def put_eth_def split: option.split)

definition handed_ok :: "amsdu_args \<Rightarrow> u8 list \<Rightarrow> bool" where
  "handed_ok a fr \<longleftrightarrow> 14 \<le> length fr \<and> take 6 fr \<noteq> rfc1042_header \<and> takes a fr"

lemma finish_handed:
  assumes "\<not> am_skip a (get_eth rest)" "h_dest (get_eth rest) \<noteq> rfc1042_header" "14 \<le> length rest"
  shows "handed_ok a (amsdu_finish a offset (get_eth rest) frame frags)"
proof -
  have six: "six (h_dest (get_eth rest))" "six (h_source (get_eth rest))" using assms(3) by (simp_all add: get_eth_def six_def)
  obtain p r where "amsdu_finish a offset (get_eth rest) frame frags = h_dest (get_eth rest) @ h_source (get_eth rest) @ put_be16 p @ r"
    using finish_eth [OF six] by blast
  then show ?thesis using assms(1,2) six by (simp add: handed_ok_def takes_def am_skip_def six_def get_eth_def cong: option.case_cong)
qed

lemma copy_length: "amsdu_copy skb alloc offset len reuse min_len = Some (fr, frags) \<Longrightarrow> offset + len \<le> length (skb_bytes skb) \<Longrightarrow>
   reuse \<longrightarrow> a_frag_list skb = [] \<Longrightarrow> length fr + length (concat frags) \<le> len"
proof -
  assume c: "amsdu_copy skb alloc offset len reuse min_len = Some (fr, frags)" and l: "offset + len \<le> length (skb_bytes skb)" "reuse \<longrightarrow> a_frag_list skb = []"
  have "alloc" using c by (auto simp: amsdu_copy_def split: if_splits)
  from amsdu_copy_is_slice [OF this l, of min_len] have "fr @ concat frags = take len (drop offset (skb_bytes skb))" using c by auto
  then have "length (fr @ concat frags) \<le> len" by simp
  then show ?thesis by simp
qed

lemma amsdu_loop_handed:
  "amsdu_loop a skb offset list = Some out \<Longrightarrow>
   \<exists>new. out = list @ new \<and> (\<forall>fr \<in> set new. handed_ok a fr) \<and> sum_list (map length new) \<le> length (skb_bytes skb) - offset"
proof (induction "length (skb_bytes skb) - offset" arbitrary: offset list out rule: less_induct)
  case less
  define rest where "rest = drop offset (skb_bytes skb)"
  define flags where "flags = (if am_mesh a then rest ! 14 else 0)"
  define len where "len = unat (ieee80211_amsdu_subframe_length (drop 12 rest) flags (am_control a))"
  define reuse where "reuse = (a_head_frag skb \<and> a_frag_list skb = [])"
  define pad where "pad = amsdu_padding (14 + len)"
  define fin where "fin = (length rest \<le> 14 + len + pad)"
  define nxt where "nxt = offset + (14 + len) + pad"
  let ?eth = "get_eth rest" and ?m = "if am_mesh a then mesh_hdrlen flags else 0"
  note defs = rest_def [symmetric] flags_def [symmetric] len_def [symmetric] reuse_def [symmetric] pad_def [symmetric] fin_def [symmetric] nxt_def [symmetric]
  have run: "amsdu_loop a skb offset list =
      (if (if am_mesh a then 15 else 14) > length rest \<or> 14 + len > length rest \<or> h_dest ?eth = rfc1042_header then None
       else if am_skip a ?eth then (if fin then Some list else amsdu_loop a skb nxt list)
       else if concat (a_frags skb) = [] \<and> a_frag_list skb = [] \<and> \<not> reuse \<and> fin then Some (list @ [amsdu_finish a offset ?eth (drop 14 rest) []])
       else case amsdu_copy skb (am_alloc a offset) (offset + 14) len reuse (32 + ?m) of
              None \<Rightarrow> None
            | Some (fr, frags) \<Rightarrow> (if fin then Some (list @ [amsdu_finish a offset ?eth fr frags])
                else amsdu_loop a skb nxt (list @ [amsdu_finish a offset ?eth fr frags])))"
    unfolding amsdu_loop.simps [of a skb offset] Let_def defs by simp

  have b: "offset + 14 + len \<le> length (skb_bytes skb)" "length (skb_bytes skb) = offset + length rest" if "14 + len \<le> length rest" using that by (auto simp: rest_def)
  have h: "handed_ok a (amsdu_finish a offset ?eth fr frags)" if "\<not> am_skip a ?eth" "h_dest ?eth \<noteq> rfc1042_header" "14 \<le> length rest" for fr frags
    using that by (rule finish_handed)
  have n: "length (amsdu_finish a offset ?eth fr frags) \<le> 14 + length fr + length (concat frags)" for fr frags
    using finish_length [of a offset ?eth fr frags] by (simp add: get_eth_def)
  have big: "14 + len \<le> length rest" "14 \<le> length rest" "h_dest ?eth \<noteq> rfc1042_header" using less.prems unfolding run by (auto split: if_splits)
  note b = b [OF big(1)]
  have IH: "\<exists>new. out = list' @ new \<and> (\<forall>fr \<in> set new. handed_ok a fr) \<and> sum_list (map length new) \<le> length (skb_bytes skb) - nxt"
    if "amsdu_loop a skb nxt list' = Some out" for list' using less.hyps [OF _ that] b by (simp add: nxt_def)
  have one: ?case if "out = list @ [amsdu_finish a offset ?eth fr frags]" "\<not> am_skip a ?eth" "length fr + length (concat frags) \<le> length rest - 14" for fr frags
    using that h [OF that(2) big(3,2), of fr frags] n [of fr frags] b big by simp
  show ?case
  proof (cases "am_skip a ?eth")
    case True
    then have "fin \<and> out = list \<or> amsdu_loop a skb nxt list = Some out" using less.prems big unfolding run by (auto split: if_splits)
    then show ?thesis using IH [of list] b by (auto simp: nxt_def)
  next
    case False
    show ?thesis
    proof (cases "concat (a_frags skb) = [] \<and> a_frag_list skb = [] \<and> \<not> reuse \<and> fin")
      case True
      then show ?thesis using less.prems big False unfolding run by (intro one [of "drop 14 rest" "[]"]) (auto split: if_splits)
    next
      case reused: False
      then obtain fr frags where c: "amsdu_copy skb (am_alloc a offset) (offset + 14) len reuse (32 + ?m) = Some (fr, frags)"
          "fin \<and> out = list @ [amsdu_finish a offset ?eth fr frags] \<or> amsdu_loop a skb nxt (list @ [amsdu_finish a offset ?eth fr frags]) = Some out"
        using less.prems big False unfolding run by (simp split: if_splits option.splits prod.splits)
      have l: "length fr + length (concat frags) \<le> len" using copy_length [OF c(1)] b by (simp add: reuse_def)
      from c(2) show ?thesis
      proof
        assume "fin \<and> out = list @ [amsdu_finish a offset ?eth fr frags]"
        then show ?thesis using one [of fr frags] False l big by simp
      next
        assume "amsdu_loop a skb nxt (list @ [amsdu_finish a offset ?eth fr frags]) = Some out"
        from IH [OF this] obtain new where new: "out = list @ amsdu_finish a offset ?eth fr frags # new" "\<forall>fr \<in> set new. handed_ok a fr"
            "sum_list (map length new) \<le> length (skb_bytes skb) - nxt" by auto
        then show ?thesis using h [OF False big(3,2), of fr frags] n [of fr frags] l b big
          by (intro exI [of _ "amsdu_finish a offset ?eth fr frags # new"]) (simp add: nxt_def)
      qed
    qed
  qed
qed

text \<open>C20: Whatever bytes come from the air, the frames handed on by \<open>ieee80211_amsdu_to_8023s\<close> have an Ethernet header each, none is
  addressed to the bytes of an RFC 1042 header (a frame of which an attacker has flipped the A-MSDU bit begins with them, and then nothing of it
  is handed on), each has the source that is checked for and the destination or a multicast one, and together they
  are not longer than what was received. The loop ends for every buffer.\<close>

theorem amsdu_handed_safe:
  "(\<forall>fr \<in> set (ieee80211_amsdu_to_8023s a skb). 14 \<le> length fr \<and> take 6 fr \<noteq> rfc1042_header \<and>
      (case am_check_da a of None \<Rightarrow> True | Some da \<Rightarrow> take 6 fr = da \<or> is_multicast_ether_addr (take 6 fr)) \<and>
      (case am_check_sa a of None \<Rightarrow> True | Some sa \<Rightarrow> take 6 (drop 6 fr) = sa)) \<and>
   sum_list (map length (ieee80211_amsdu_to_8023s a skb)) \<le> length (skb_bytes skb) \<and>
   (take 6 (skb_bytes skb) = rfc1042_header \<longrightarrow> ieee80211_amsdu_to_8023s a skb = [])"
proof (intro conjI impI)
  obtain new where new: "ieee80211_amsdu_to_8023s a skb = new" "\<forall>fr \<in> set new. handed_ok a fr" "sum_list (map length new) \<le> length (skb_bytes skb)"
    using amsdu_loop_handed [of a skb 0 "[]"] by (cases "amsdu_loop a skb 0 []") (auto simp: ieee80211_amsdu_to_8023s_def)
  show "\<forall>fr \<in> set (ieee80211_amsdu_to_8023s a skb). 14 \<le> length fr \<and> take 6 fr \<noteq> rfc1042_header \<and>
      (case am_check_da a of None \<Rightarrow> True | Some da \<Rightarrow> take 6 fr = da \<or> is_multicast_ether_addr (take 6 fr)) \<and>
      (case am_check_sa a of None \<Rightarrow> True | Some sa \<Rightarrow> take 6 (drop 6 fr) = sa)"
    using new(2) unfolding new(1) by (auto simp: handed_ok_def takes_def am_skip_def get_eth_def split: option.splits)
  show "sum_list (map length (ieee80211_amsdu_to_8023s a skb)) \<le> length (skb_bytes skb)" using new by simp
  show "ieee80211_amsdu_to_8023s a skb = []" if "take 6 (skb_bytes skb) = rfc1042_header"
    using that by (simp add: ieee80211_amsdu_to_8023s_def amsdu_loop.simps [of a skb 0] Let_def get_eth_def)
qed

text \<open>A subframe shorter than an RFC 1042 header and a type: its type is read from behind it, and becomes the type of
  the frame, in front of the header that is not removed.\<close>

lemma amsdu_short_reads_behind:
  assumes "six da" "six sa" "da \<noteq> rfc1042_header" "\<not> am_mesh a" "am_control a = 0" "am_check_da a = None" "am_check_sa a = None"
    and "get_be16 (am_behind a 0) 0 \<notin> {ETH_P_AARP, ETH_P_IPX}"
  shows "ieee80211_amsdu_to_8023s a \<lparr>a_head = da @ sa @ put_be16 6 @ rfc1042_header, a_frags = [], a_frag_list = [], a_head_frag = False\<rparr>
     = [da @ sa @ put_be16 (get_be16 (am_behind a 0) 0) @ rfc1042_header]"
proof -
  define skb where "skb = \<lparr>a_head = da @ sa @ put_be16 6 @ rfc1042_header, a_frags = [], a_frag_list = [], a_head_frag = False\<rparr>"
  have l: "length da = 6" "length sa = 6" "length rfc1042_header = 6" using assms(1,2) by (simp_all add: six_def rfc1042_header_def)
  have bytes: "skb_bytes skb = da @ sa @ put_be16 6 @ rfc1042_header" by (simp add: skb_def skb_bytes_def)
  have p: "get_be16 (da @ sa @ put_be16 6 @ rfc1042_header) 12 = 6" "get_be16 (put_be16 6 @ rfc1042_header) 0 = 6"
    "get_be16 (rfc1042_header @ m) 6 = get_be16 m 0" for m
    using get_put_be16 [of "da @ sa" 12 6 rfc1042_header] get_put_be16 [of "[]" 0 6 rfc1042_header] l by (simp_all add: get_be16_def nth_append rfc1042_header_def)
  have t: "ieee80211_get_8023_tunnel_proto (rfc1042_header @ am_behind a 0) = Some (get_be16 (am_behind a 0) 0)"
    using assms(8) l p(3) by (simp add: ieee80211_get_8023_tunnel_proto_def Let_def)
  show ?thesis unfolding skb_def [symmetric] ieee80211_amsdu_to_8023s_def amsdu_loop.simps [of a skb 0] Let_def bytes
    using assms(3-7) l p t
    by (simp add: get_eth_def am_skip_def ieee80211_amsdu_subframe_length_def amsdu_padding_def amsdu_finish_def put_eth_def skb_def)
qed

text \<open>A mesh peer whose format is not known: two subframes of 24 and 18 bytes are also one subframe of 42 bytes with a mesh header. The
  ambiguous format is kept as -1, taken for little-endian lengths, and nothing is handed on.\<close>

definition two_readings :: "u8 list" where
  "two_readings = [2, 0, 0, 0, 0, 1, 2, 0, 0, 0, 0, 2, 0, 10, 2, 0, 0, 0, 0, 0, 0, 0, 0, 0, 2, 0, 0, 0, 0, 3, 2, 0, 0, 0, 0, 2, 0, 4, 0, 0, 0, 0]"

lemma amsdu_ambiguous_is_lost:
  "amsdu_detect two_readings [0, 1, 2] (- 1) = - 1"
  "ieee80211_amsdu_to_8023s \<lparr>am_iftype = NL80211_IFTYPE_MESH_POINT, am_check_da = None, am_check_sa = None, am_control = of_int (- 1),
     am_alloc = (\<lambda>_. True), am_behind = (\<lambda>_. [])\<rparr> \<lparr>a_head = two_readings, a_frags = [], a_frag_list = [], a_head_frag = False\<rparr> = []"
  by code_simp+
end
