(* ===== verification/EtherExamples.thy ===== *)
theory EtherExamples
  imports EtherAmsdu
begin

text \<open>
  Concrete frames, interfaces and A-MSDUs at which the properties of the conversion apply: an access point and a station, a mesh point that proxies
  another station, a station with a CCMP key on the fast path, and three frames aggregated into one and received in fragments.
\<close>

definition w_ap :: xmit_if where
  "w_ap = \<lparr>xi_type = NL80211_IFTYPE_AP, xi_addr = [2, 0, 0, 0, 0, 1], xi_use_4addr = False, xi_mld = False, xi_chanctx = True, xi_link_addr = (\<lambda>_. None),
     xi_ap_addr = [2, 0, 0, 0, 0, 1], xi_bssid = [2, 0, 0, 0, 0, 1], xi_control_port = 0x888E, xi_our_addr = (\<lambda>_. False), xi_nss_mesh = False,
     xi_mesh_ttl = 31, xi_mesh_seqnum = 0xFFFFFFFF\<rparr>"

definition w_sta :: xmit_sta where
  "w_sta = \<lparr>xs_addr = [2, 0, 0, 0, 0, 2], xs_authorized = True, xs_wme = True, xs_tdls_peer = False, xs_mlo = False, xs_link_id = 0, xs_tdls_bssid = None\<rparr>"

lemma w_ap_ok: "xmit_ok w_ap (Some w_sta)" by (simp add: xmit_ok_def w_ap_def w_sta_def six_def)

theorem msdu_roundtrip_witness:
  "\<exists>frame l eff x'. ieee80211_build_hdr (\<lambda>_. None) (\<lambda>_. None) False False True True w_ap (Some w_sta) IEEE80211_LINK_UNSPECIFIED
       ([2, 0, 0, 0, 0, 2] @ [2, 0, 0, 0, 0, 9] @ put_be16 ETH_P_IPX @ [1, 2, 3]) = Inr (frame, l, eff, x') \<and>
     ieee80211_data_to_8023 frame [2, 0, 0, 0, 0, 2] NL80211_IFTYPE_STATION = Some ([2, 0, 0, 0, 0, 2] @ [2, 0, 0, 0, 0, 9] @ put_be16 ETH_P_IPX @ [1, 2, 3])"
proof -
  let ?out = "ieee80211_build_hdr (\<lambda>_. None) (\<lambda>_. None) False False True True w_ap (Some w_sta) IEEE80211_LINK_UNSPECIFIED
       ([2, 0, 0, 0, 0, 2] @ [2, 0, 0, 0, 0, 9] @ put_be16 ETH_P_IPX @ [1, 2, 3])"
  have "case ?out of Inl _ \<Rightarrow> False | Inr (frame, _) \<Rightarrow> ds_allowed (frame_control frame) NL80211_IFTYPE_STATION [2, 0, 0, 0, 0, 2] [2, 0, 0, 0, 0, 9] [2, 0, 0, 0, 0, 2]"
    by code_simp
  then obtain frame l eff x' where r: "?out = Inr (frame, l, eff, x')"
      "ds_allowed (frame_control frame) NL80211_IFTYPE_STATION [2, 0, 0, 0, 0, 2] [2, 0, 0, 0, 0, 9] [2, 0, 0, 0, 0, 2]"
    by (auto split: sum.splits prod.splits)
  have "eth_plain ETH_P_IPX [1, 2, 3]" by code_simp
  then have "ieee80211_data_to_8023 frame [2, 0, 0, 0, 0, 2] NL80211_IFTYPE_STATION = Some ([2, 0, 0, 0, 0, 2] @ [2, 0, 0, 0, 0, 9] @ put_be16 ETH_P_IPX @ [1, 2, 3])"
    by (intro msdu_roundtrip [OF r(1) _ w_ap_ok _ _ _ r(2)]) (simp_all add: w_ap_def six_def)
  then show ?thesis using r(1) by blast
qed

definition w_mesh :: xmit_if where "w_mesh = w_ap\<lparr>xi_type := NL80211_IFTYPE_MESH_POINT\<rparr>"

theorem mesh_msdu_roundtrip_witness:
  "\<exists>frame l eff x' eth rest.
     ieee80211_build_hdr (\<lambda>_. None) [[2, 0, 0, 0, 0, 2] \<mapsto> [2, 0, 0, 0, 0, 7]] False False True True w_mesh None IEEE80211_LINK_UNSPECIFIED
       ([2, 0, 0, 0, 0, 2] @ [2, 0, 0, 0, 0, 9] @ put_be16 0x0800 @ [1, 2, 3]) = Inr (frame, l, eff, x') \<and>
     ieee80211_data_to_8023_exthdr frame [2, 0, 0, 0, 0, 7] NL80211_IFTYPE_MESH_POINT 0 False = Some (eth, rest) \<and>
     ieee80211_strip_8023_mesh_hdr (put_eth eth @ rest) = Some ([2, 0, 0, 0, 0, 2] @ [2, 0, 0, 0, 0, 9] @ put_be16 0x0800 @ [1, 2, 3])"
proof -
  let ?mpp = "[[2, 0, 0, 0, 0, 2] \<mapsto> [2, 0, 0, 0, 0, 7]]"
  let ?out = "ieee80211_build_hdr (\<lambda>_. None) ?mpp False False True True w_mesh None IEEE80211_LINK_UNSPECIFIED
       ([2, 0, 0, 0, 0, 2] @ [2, 0, 0, 0, 0, 9] @ put_be16 0x0800 @ [1, 2, 3])"
  have "case ?out of Inl _ \<Rightarrow> False | Inr (frame, _) \<Rightarrow> True" by code_simp
  then obtain frame l eff x' where r: "?out = Inr (frame, l, eff, x')" by (auto split: sum.splits prod.splits)
  have "mesh_tables_ok (\<lambda>_. None) ?mpp" by (simp add: mesh_tables_ok_def six_def is_multicast_ether_addr_def)
  moreover have "xmit_ok w_mesh None" by (simp add: xmit_ok_def w_mesh_def w_ap_def six_def)
  moreover have "eth_plain 0x0800 [1, 2, 3]" by code_simp
  ultimately have "\<exists>eth rest. ieee80211_data_to_8023_exthdr frame [2, 0, 0, 0, 0, 7] NL80211_IFTYPE_MESH_POINT 0 False = Some (eth, rest) \<and>
     ieee80211_strip_8023_mesh_hdr (put_eth eth @ rest) = Some ([2, 0, 0, 0, 0, 2] @ [2, 0, 0, 0, 0, 9] @ put_be16 0x0800 @ [1, 2, 3])"
    by (intro mesh_msdu_roundtrip [OF r]) (simp_all add: w_mesh_def w_ap_def six_def)
  then show ?thesis using r by blast
qed

definition w_guards :: fast_guards where
  "w_guards = \<lparr>fg_support = True, fg_static_ps = False, fg_uploaded = True, fg_ps = False, fg_noack = False, fg_frag = False, fg_chanctx = True\<rparr>"

definition w_ccmp :: fast_key where
  "w_ccmp = \<lparr>fk_cipher = FastCcmp, fk_gen_iv = True, fk_iv_spc = False, fk_mmic = False, fk_uploaded = True, fk_tainted = False\<rparr>"

definition w_fast :: "fast_key option \<Rightarrow> fast_tx" where
  "w_fast key = the (ieee80211_check_fast_xmit w_guards True key w_ap w_sta)"

lemma w_fast_ok: "ieee80211_check_fast_xmit w_guards True key w_ap w_sta = Some (w_fast key)" if "key = None \<or> key = Some w_ccmp"
proof -
  have "ieee80211_check_fast_xmit w_guards True None w_ap w_sta \<noteq> None" "ieee80211_check_fast_xmit w_guards True (Some w_ccmp) w_ap w_sta \<noteq> None"
    by code_simp+
  then show ?thesis using that by (auto simp: w_fast_def)
qed

theorem fast_path_equals_slow_witness:
  "\<exists>frame l. ieee80211_build_hdr (\<lambda>_. None) (\<lambda>_. None) False False True True w_ap (Some w_sta) IEEE80211_LINK_UNSPECIFIED
       ([2, 0, 0, 0, 0, 2] @ [2, 0, 0, 0, 0, 9] @ put_be16 0x0800 @ [1, 2, 3]) = Inr (frame, l, [], w_ap) \<and>
     (let n = ieee80211_hdrlen (frame_control frame); h = take n frame;
          h = overwrite 0 (put_le16 (frame_control frame OR IEEE80211_FCTL_PROTECTED)) h; h = overwrite (n - 2) [5] h
      in xmit_fast_frame (w_fast (Some w_ccmp)) 5 ([2, 0, 0, 0, 0, 2] @ [2, 0, 0, 0, 0, 9] @ put_be16 0x0800 @ [1, 2, 3])
           = h @ replicate (ft_hdr_len (w_fast (Some w_ccmp)) - 6 - n) 0 @ drop n frame \<and>
         n \<le> ft_hdr_len (w_fast (Some w_ccmp)) - 6 \<and> ft_hdr_len (w_fast (Some w_ccmp)) \<le> FAST_HDR_SIZE)"
proof -
  have f: "ieee80211_check_fast_xmit w_guards True (Some w_ccmp) w_ap w_sta = Some (w_fast (Some w_ccmp))" by (rule w_fast_ok) simp
  have q: "ieee80211_xmit_fast (w_fast (Some w_ccmp)) (xi_control_port w_ap) False False ([2, 0, 0, 0, 0, 2] @ [2, 0, 0, 0, 0, 9] @ put_be16 0x0800 @ [1, 2, 3])"
    by code_simp
  show ?thesis
    using fast_path_equals_slow [OF f w_ap_ok _ _ q, of "\<lambda>_. None" "\<lambda>_. None" False 5] by (simp add: w_sta_def six_def w_ap_def Let_def)
qed

definition w_limits :: amsdu_limits where
  "w_limits = \<lparr>al_tx_amsdu = True, al_offload = False, al_mesh = False, al_no_amsdu = False, al_max_len = 3839, al_max_rc_len = 0, al_max_tid_len = 0,
     al_max_subframes = 3, al_max_frags = 0, al_bssid = Some [2, 0, 0, 0, 0, 1]\<rparr>"

definition w_msdu :: "u8 \<Rightarrow> u8 list" where
  "w_msdu b = [2, 0, 0, 0, 0, 2, 2, 0, 0, 0, 0, b, 8, 0, b, b, b, b, b]"

definition w_queued :: queued_skb where
  "w_queued = \<lparr>qk_data = xmit_fast_frame (w_fast None) 5 (w_msdu 9), qk_frag_list = [], qk_amsdu = False, qk_probe = False, qk_gso = False\<rparr>"

definition w_received :: amsdu_skb where
  "w_received = (let b = qk_bytes (the (aggregated w_limits (w_fast None) w_queued [w_msdu 10, w_msdu 11]))
     in \<lparr>a_head = take 30 b, a_frags = [take 20 (drop 30 b), drop 50 b], a_frag_list = [], a_head_frag = True\<rparr>)"

definition w_rx :: amsdu_rx where
  "w_rx = \<lparr>ar_amsdu = True, ar_iftype = NL80211_IFTYPE_STATION, ar_addr = [2, 0, 0, 0, 0, 2], ar_vlan_sta = False, ar_use_4addr = False,
     ar_sta = Some \<lparr>as_tdls_peer = False, as_mesh_control = 0\<rparr>, ar_key = None, ar_alloc = (\<lambda>_. True), ar_behind = (\<lambda>_. [])\<rparr>"

theorem amsdu_roundtrip_witness: "ieee80211_rx_h_amsdu w_rx w_received = AmsduFrames 0 [w_msdu 9, w_msdu 10, w_msdu 11]"
proof -
  define k where "k = the (aggregated w_limits (w_fast None) w_queued [w_msdu 10, w_msdu 11])"
  have "aggregated w_limits (w_fast None) w_queued [w_msdu 10, w_msdu 11] \<noteq> None" by code_simp
  then have k: "aggregated w_limits (w_fast None) w_queued [w_msdu 10, w_msdu 11] = Some k" by (auto simp: k_def)
  have b: "26 \<le> length (a_head w_received)" by code_simp
  have s: "skb_bytes w_received = qk_bytes k"
  proof -
    have "take 30 b @ take 20 (drop 30 b) @ drop 50 b = b" for b :: "u8 list" using append_take_drop_id [of 30 b] append_take_drop_id [of 20 "drop 30 b"] by simp
    then show ?thesis by (simp add: w_received_def k_def skb_bytes_def Let_def)
  qed
  have "msdu_ok (w_msdu 9)" "msdu_ok (w_msdu 10)" "msdu_ok (w_msdu 11)" by (simp_all add: msdu_ok_def w_msdu_def get_be16_def rfc1042_header_def le16_def)
  then have m: "\<forall>e \<in> set [w_msdu 9, w_msdu 10, w_msdu 11]. msdu_ok e" by simp
  have f: "ieee80211_check_fast_xmit w_guards True None w_ap w_sta = Some (w_fast None)" by (rule w_fast_ok) simp
  show ?thesis
    by (rule amsdu_roundtrip [OF f w_ap_ok _ _ m _ _ _ k [unfolded w_queued_def] _ _ _ _ _ _ s b,
          where b = "[2, 0, 0, 0, 0, 1]" and st = "\<lparr>as_tdls_peer = False, as_mesh_control = 0\<rparr>"])
      (simp_all add: w_sta_def w_ap_def w_rx_def w_msdu_def w_limits_def six_def is_multicast_ether_addr_def)
qed

definition w_args :: amsdu_args where
  "w_args = \<lparr>am_iftype = NL80211_IFTYPE_STATION, am_check_da = Some [2, 0, 0, 0, 0, 2], am_check_sa = None, am_control = 0,
     am_alloc = (\<lambda>_. True), am_behind = (\<lambda>_. [])\<rparr>"

definition w_flipped :: amsdu_skb where
  "w_flipped = \<lparr>a_head = rfc1042_header @ [8, 0, 0x45, 0, 0, 20, 0, 0, 0, 6], a_frags = [[1, 2, 3, 4, 5, 6]], a_frag_list = [], a_head_frag = False\<rparr>"

theorem amsdu_handed_safe_witness:
  "take 6 (skb_bytes w_flipped) = rfc1042_header \<and> ieee80211_amsdu_to_8023s w_args w_flipped = []"
proof -
  have "take 6 (skb_bytes w_flipped) = rfc1042_header" by code_simp
  then show ?thesis using amsdu_handed_safe [of w_args w_flipped] by blast
qed

text \<open>AppleTalk ARP on the fast path: it qualifies, is sent behind an RFC 1042 header, and the receiver, which removes that header for other
  types only, hands on a frame with a length field in front of it. The slow path would have used the bridge-tunnel header.\<close>

lemma fast_aarp_not_restored:
  "let e = [2, 0, 0, 0, 0, 2, 2, 0, 0, 0, 0, 9, 0x80, 0xF3, 1, 2, 3]; frame = xmit_fast_frame (w_fast None) 5 e
   in ieee80211_xmit_fast (w_fast None) (xi_control_port w_ap) False False e \<and>
      ieee80211_data_to_8023 frame [2, 0, 0, 0, 0, 2] NL80211_IFTYPE_STATION
        = Some ([2, 0, 0, 0, 0, 2, 2, 0, 0, 0, 0, 9, 0, 11] @ rfc1042_header @ [0x80, 0xF3, 1, 2, 3])"
  by code_simp

end
