(* ===== verification/RxKeys.thy ===== *)
theory RxKeys
  imports Key Ether "HOL-Library.Monad_Syntax"
begin

text \<open>
  Which key protects a frame: \<open>ieee80211_tx_h_select_key\<close> of net/mac80211/tx.c on the sending side, and on the receiving side
  (net/mac80211/rx.c) the choice of the key in \<open>ieee80211_rx_h_decrypt\<close>, the decisions whether an unprotected frame may pass
  (\<open>ieee80211_drop_unencrypted\<close>, \<open>ieee80211_drop_unencrypted_mgmt\<close>, \<open>ieee80211_frame_allowed\<close>) and the delivery of data
  frames by \<open>ieee80211_rx_h_data\<close>. The arrays of keys are lists, and an index outside of them is the value \<open>None\<close>.
\<close>


section \<open>Keys\<close>

datatype cipher_suite =
  CIPHER_WEP40 | CIPHER_WEP104 | CIPHER_TKIP | CIPHER_CCMP | CIPHER_CCMP_256 | CIPHER_GCMP | CIPHER_GCMP_256 |
  CIPHER_AES_CMAC | CIPHER_BIP_CMAC_256 | CIPHER_BIP_GMAC_128 | CIPHER_BIP_GMAC_256 | CIPHER_OTHER

definition wep_cipher :: "cipher_suite \<Rightarrow> bool" where
  "wep_cipher c \<longleftrightarrow> c = CIPHER_WEP40 \<or> c = CIPHER_WEP104"

definition bip_cipher :: "cipher_suite \<Rightarrow> bool" where
  "bip_cipher c \<longleftrightarrow> c = CIPHER_AES_CMAC \<or> c = CIPHER_BIP_CMAC_256 \<or> c = CIPHER_BIP_GMAC_128 \<or> c = CIPHER_BIP_GMAC_256"

definition aead_cipher :: "cipher_suite \<Rightarrow> bool" where
  "aead_cipher c \<longleftrightarrow> c = CIPHER_CCMP \<or> c = CIPHER_CCMP_256 \<or> c = CIPHER_GCMP \<or> c = CIPHER_GCMP_256"

text \<open>A key as the choice sees it; \<open>sk_id\<close> stands for the address of the structure.\<close>

record sel_key =
  sk_id :: nat
  sk_cipher :: cipher_suite
  sk_tainted :: bool
  sk_uploaded :: bool
  sk_sw_mgmt_tx :: bool

abbreviation (input) NUM_DEFAULT_KEYS :: nat where "NUM_DEFAULT_KEYS \<equiv> 4"
abbreviation (input) NUM_DEFAULT_MGMT_KEYS :: nat where "NUM_DEFAULT_MGMT_KEYS \<equiv> 2"
abbreviation (input) NUM_DEFAULT_BEACON_KEYS :: nat where "NUM_DEFAULT_BEACON_KEYS \<equiv> 2"

text \<open>Group addressed mesh and multihop action frames.\<close>

definition ieee80211_is_group_privacy_action :: "u8 list \<Rightarrow> bool" where
  "ieee80211_is_group_privacy_action skb \<longleftrightarrow>
     25 \<le> length skb \<and> ieee80211_is_action (frame_control skb) \<and> is_multicast_ether_addr (addr1 skb) \<and> (skb ! 24 = 13 \<or> skb ! 24 = 14)"


section \<open>Sending\<close>

text \<open>What the handler reads: the station (if there is one) with its current pairwise key and two of its flags, the default keys of the
  link (if the link is there) and of the interface.\<close>

record tx_sta_keys =
  ts_ptk :: "sel_key option"
  ts_mfp :: bool
  ts_uses_encryption :: bool

record tx_keys =
  tk_sta :: "tx_sta_keys option"
  tk_link :: bool
  tk_multicast_key :: "sel_key option"
  tk_mgmt_key :: "sel_key option"
  tk_unicast_key :: "sel_key option"

definition ieee80211_use_mfp :: "u16 \<Rightarrow> tx_sta_keys option \<Rightarrow> u8 list \<Rightarrow> bool" where
  "ieee80211_use_mfp fc sta skb \<longleftrightarrow>
     ieee80211_is_mgmt fc \<and> (case sta of None \<Rightarrow> False | Some s \<Rightarrow> ts_mfp s) \<and> ieee80211_is_robust_mgmt_frame skb"

definition ieee80211_select_link_key :: "tx_keys \<Rightarrow> u8 list \<Rightarrow> sel_key option" where
  "ieee80211_select_link_key t skb =
     (if \<not> tk_link t then None
      else if ieee80211_is_group_privacy_action skb then tk_multicast_key t
      else if ieee80211_is_mgmt (frame_control skb) \<and> is_multicast_ether_addr (addr1 skb) \<and> ieee80211_is_robust_mgmt_frame skb
      then tk_mgmt_key t
      else if is_multicast_ether_addr (addr1 skb) then tk_multicast_key t
      else None)"

text \<open>Dropped, or sent with a key or without one, and whether the hardware has the key. \<open>dont_encrypt\<close> is
  \<open>IEEE80211_TX_INTFL_DONT_ENCRYPT\<close>, \<open>control_port\<close> that the protocol of the frame is that of the control port.\<close>

datatype tx_select = TxKeyDrop | TxKey "sel_key option" bool

definition ieee80211_tx_h_select_key :: "tx_keys \<Rightarrow> bool \<Rightarrow> bool \<Rightarrow> u8 list \<Rightarrow> tx_select" where
  "ieee80211_tx_h_select_key t dont_encrypt control_port skb =
     (let fc = frame_control skb;
          key = (case Option.bind (tk_sta t) ts_ptk of
                   Some k \<Rightarrow> Some k
                 | None \<Rightarrow>
                     (case ieee80211_select_link_key t skb of
                        Some k \<Rightarrow> Some k
                      | None \<Rightarrow> if \<not> is_multicast_ether_addr (addr1 skb) then tk_unicast_key t else None))
      in if dont_encrypt then TxKey None False
         else case key of
           Some k \<Rightarrow>
             let unfit = ((wep_cipher (sk_cipher k) \<or> sk_cipher k = CIPHER_TKIP) \<and> \<not> ieee80211_is_data_present fc \<or>
                          aead_cipher (sk_cipher k) \<and> \<not> ieee80211_is_data_present fc \<and> \<not> ieee80211_use_mfp fc (tk_sta t) skb \<and>
                            \<not> ieee80211_is_group_privacy_action skb \<or>
                          bip_cipher (sk_cipher k) \<and> \<not> ieee80211_is_mgmt fc);
                 skip_hw = (aead_cipher (sk_cipher k) \<and> \<not> unfit \<and> sk_sw_mgmt_tx k \<and> ieee80211_is_mgmt fc)
             in if unfit then TxKey None False
                else if sk_tainted k \<and> \<not> ieee80211_is_deauth fc \<and> \<not> control_port then TxKeyDrop
                else TxKey (Some k) (\<not> skip_hw \<and> sk_uploaded k)
         | None \<Rightarrow>
             if ieee80211_is_data_present fc \<and> (case tk_sta t of None \<Rightarrow> False | Some s \<Rightarrow> ts_uses_encryption s) then TxKeyDrop
             else TxKey None False)"


section \<open>Receiving\<close>

text \<open>The key index in the management MIC element at the end of a frame, or -1.\<close>

definition ieee80211_get_mmie_keyidx :: "u8 list \<Rightarrow> int" where
  "ieee80211_get_mmie_keyidx skb =
     (let n = length skb; mmie = drop (n - 18) skb; mmie16 = drop (n - 26) skb
      in if n < 24 + 18 \<or> \<not> is_multicast_ether_addr (addr1 skb) then - 1
         else if \<not> ieee80211_is_robust_mgmt_frame skb \<and> \<not> ieee80211_is_beacon (frame_control skb) then - 1
         else if mmie ! 0 = 76 \<and> mmie ! 1 = 16 then int (unat (get_le16 mmie 2))
         else if n \<ge> 24 + 26 \<and> mmie16 ! 0 = 76 \<and> mmie16 ! 1 = 24 then int (unat (get_le16 mmie16 2))
         else - 1)"

definition ieee80211_get_keyid :: "u8 list \<Rightarrow> int" where
  "ieee80211_get_keyid skb =
     (let hdrlen = ieee80211_hdrlen (frame_control skb)
      in if length skb < hdrlen + 4 then - 22 else int (unat (drop_bit 6 (skb ! (hdrlen + 3)))))"

text \<open>The keys of the sender (\<open>rx->sta\<close>, \<open>rx->link_sta\<close>), of the link and of the interface.\<close>

record rx_sta_keys =
  rs_ptk :: "sel_key option list"
  rs_ptk_idx :: nat
  rs_gtk :: "sel_key option list"
  rs_mfp :: bool
  rs_assoc :: bool
  rs_authorized :: bool

record rx_keys =
  rk_sta :: "rx_sta_keys option"
  rk_link_sta :: bool                \<comment> \<open>\<open>rx->link_sta\<close>, only with a station\<close>
  rk_gtk :: "sel_key option list"
  rk_mgmt_key :: "sel_key option"
  rk_keys :: "sel_key option list"

definition key_at :: "sel_key option list \<Rightarrow> nat \<Rightarrow> sel_key option option" where
  "key_at ks i = (if i < length ks then Some (ks ! i) else None)"

definition sta_gtk :: "rx_keys \<Rightarrow> nat \<Rightarrow> sel_key option option" where
  "sta_gtk r i = (case rk_sta r of Some s \<Rightarrow> if rk_link_sta r then key_at (rs_gtk s) i else Some None | None \<Rightarrow> Some None)"

definition or_key :: "sel_key option option \<Rightarrow> sel_key option option \<Rightarrow> sel_key option option" where
  "or_key a b = do { k \<leftarrow> a; (case k of Some _ \<Rightarrow> Some k | None \<Rightarrow> b) }"

definition ieee80211_rx_get_bigtk :: "rx_keys \<Rightarrow> int \<Rightarrow> sel_key option option" where
  "ieee80211_rx_get_bigtk r idx =
     (let i = (if idx < 0 then NUM_DEFAULT_KEYS + NUM_DEFAULT_MGMT_KEYS else nat idx);
          i2 = (if i = NUM_DEFAULT_KEYS + NUM_DEFAULT_MGMT_KEYS then i + 1 else i - 1)
      in or_key (sta_gtk r i) (or_key (key_at (rk_gtk r) i) (or_key (sta_gtk r i2) (key_at (rk_gtk r) i2))))"

text \<open>The first of the four group keys that is set.\<close>

fun first_key :: "sel_key option list \<Rightarrow> nat \<Rightarrow> nat \<Rightarrow> sel_key option option" where
  "first_key ks i 0 = Some None"
| "first_key ks i (Suc n) = or_key (key_at ks i) (first_key ks (i + 1) n)"

datatype key_drop = DropNoKeyId | DropBadBcnKeyidx | DropBadMgmtKeyidx | DropMonitor

text \<open>Pass without decryption (with the key that might have been used), drop, or decrypt with a key.\<close>

datatype rx_select = RxSelContinue "sel_key option" | RxSelDrop key_drop | RxSelDecrypt sel_key

text \<open>The end of the choice.\<close>

definition rx_use_key :: "sel_key option \<Rightarrow> rx_select" where
  "rx_use_key key = (case key of None \<Rightarrow> RxSelDrop DropMonitor | Some k \<Rightarrow> if sk_tainted k then RxSelDrop DropMonitor else RxSelDecrypt k)"

text \<open>\<open>ieee80211_rx_h_decrypt\<close> up to the switch over the cipher. \<open>stripped\<close>: decrypted by the hardware and the IV removed;
  \<open>iv_stripped\<close>: the IV removed.\<close>

definition rx_select_key :: "rx_keys \<Rightarrow> bool \<Rightarrow> bool \<Rightarrow> u8 list \<Rightarrow> rx_select option" where
  "rx_select_key r stripped iv_stripped skb =
     (let fc = frame_control skb; prot = ieee80211_has_protected fc; mcast = is_multicast_ether_addr (addr1 skb);
          keyid = ieee80211_get_keyid skb;
          mmie_keyidx = (if prot then - 1 else ieee80211_get_mmie_keyidx skb)
      in if ieee80211_is_ext fc then Some (RxSelContinue None)
         else do {
           sta_ptk \<leftarrow> (case rk_sta r of None \<Rightarrow> Some None | Some s \<Rightarrow> key_at (rs_ptk s) (rs_ptk_idx s));
           if rk_sta r \<noteq> None \<and> prot \<and> \<not> iv_stripped \<and> keyid < 0 then Some (RxSelDrop DropNoKeyId)
           else do {
             ptk_idx \<leftarrow> (case rk_sta r of Some s \<Rightarrow> if prot \<and> \<not> iv_stripped then key_at (rs_ptk s) (nat keyid) else Some None | None \<Rightarrow> Some None);
             if \<not> mcast \<and> sta_ptk \<noteq> None then
               let key = (case ptk_idx of Some k \<Rightarrow> Some k | None \<Rightarrow> sta_ptk)
               in if stripped then Some (RxSelContinue key)
                  else if \<not> prot then Some (RxSelContinue key)
                  else Some (rx_use_key key)
             else if mmie_keyidx \<ge> 0 \<and> ieee80211_is_beacon fc then
               (if stripped then Some (RxSelContinue None)
                else if mmie_keyidx < int (NUM_DEFAULT_KEYS + NUM_DEFAULT_MGMT_KEYS) \<or>
                        mmie_keyidx \<ge> int (NUM_DEFAULT_KEYS + NUM_DEFAULT_MGMT_KEYS + NUM_DEFAULT_BEACON_KEYS)
                then Some (RxSelDrop DropBadBcnKeyidx)
                else do {
                  key \<leftarrow> ieee80211_rx_get_bigtk r mmie_keyidx;
                  Some (case key of None \<Rightarrow> RxSelContinue None | Some k \<Rightarrow> rx_use_key (Some k))
                })
             else if mmie_keyidx \<ge> 0 then
               (if stripped then Some (RxSelContinue None)
                else if mmie_keyidx < int NUM_DEFAULT_KEYS \<or> mmie_keyidx \<ge> int (NUM_DEFAULT_KEYS + NUM_DEFAULT_MGMT_KEYS)
                then Some (RxSelDrop DropBadMgmtKeyidx)
                else if rk_link_sta r \<and> ieee80211_is_group_privacy_action skb \<and> (case rk_sta r of None \<Rightarrow> False | Some s \<Rightarrow> rs_mfp s)
                then Some (RxSelDrop DropMonitor)
                else do {
                  key \<leftarrow> or_key (sta_gtk r (nat mmie_keyidx)) (key_at (rk_gtk r) (nat mmie_keyidx));
                  Some (rx_use_key key)
                })
             else if \<not> prot then do {
               key \<leftarrow> (if ieee80211_is_beacon fc then ieee80211_rx_get_bigtk r (- 1)
                       else if ieee80211_is_mgmt fc \<and> mcast then Some (rk_mgmt_key r)
                       else or_key (case rk_sta r of Some s \<Rightarrow> if rk_link_sta r then first_key (rs_gtk s) 0 NUM_DEFAULT_KEYS else Some None | None \<Rightarrow> Some None)
                                   (first_key (rk_gtk r) 0 NUM_DEFAULT_KEYS));
               Some (RxSelContinue key)
             }
             else if stripped then Some (RxSelContinue None)
             else if keyid < 0 then Some (RxSelDrop DropNoKeyId)
             else do {
               gtk \<leftarrow> (if mcast then or_key (sta_gtk r (nat keyid)) (key_at (rk_gtk r) (nat keyid)) else Some None);
               key \<leftarrow> (case gtk of Some k \<Rightarrow> Some gtk | None \<Rightarrow> do {
                         k \<leftarrow> key_at (rk_keys r) (nat keyid);
                         Some (case k of Some k' \<Rightarrow> if \<not> wep_cipher (sk_cipher k') \<and> \<not> mcast then None else k | None \<Rightarrow> None)
                       });
               Some (rx_use_key key)
             }
           }
         })"

section \<open>Unprotected frames\<close>

definition ieee80211_802_1x_port_control :: "rx_keys \<Rightarrow> bool" where
  "ieee80211_802_1x_port_control r \<longleftrightarrow> (case rk_sta r of None \<Rightarrow> True | Some s \<Rightarrow> \<not> rs_authorized s)"

text \<open>\<open>decrypted\<close> is \<open>RX_FLAG_DECRYPTED\<close>, \<open>key\<close> is \<open>rx->key\<close>. True: drop.\<close>

definition ieee80211_drop_unencrypted :: "bool \<Rightarrow> sel_key option \<Rightarrow> u16 \<Rightarrow> bool" where
  "ieee80211_drop_unencrypted decrypted key fc \<longleftrightarrow>
     (if decrypted then False
      else \<not> ieee80211_has_protected fc \<and> \<not> ieee80211_is_any_nullfunc fc \<and> ieee80211_is_data fc \<and> key \<noteq> None)"

definition ieee80211_is_public_action :: "u8 list \<Rightarrow> bool" where
  "ieee80211_is_public_action skb \<longleftrightarrow> 25 \<le> length skb \<and> ieee80211_is_action (frame_control skb) \<and> skb ! 24 = 4"

definition ieee80211_is_protected_dual_of_public_action :: "u8 list \<Rightarrow> bool" where
  "ieee80211_is_protected_dual_of_public_action skb \<longleftrightarrow>
     (if \<not> ieee80211_is_public_action skb \<or> length skb < 26 then False
      else skb ! 25 \<notin> set [0, 3, 7, 14, 15, 32, 33, 34, 9])"

definition ieee80211_is_unicast_robust_mgmt_frame :: "u8 list \<Rightarrow> bool" where
  "ieee80211_is_unicast_robust_mgmt_frame skb \<longleftrightarrow> (if is_multicast_ether_addr (addr1 skb) then False else ieee80211_is_robust_mgmt_frame skb)"

definition ieee80211_is_multicast_robust_mgmt_frame :: "u8 list \<Rightarrow> bool" where
  "ieee80211_is_multicast_robust_mgmt_frame skb \<longleftrightarrow> (if \<not> is_multicast_ether_addr (addr1 skb) then False else ieee80211_is_robust_mgmt_frame skb)"

datatype mgmt_verdict =
  MgmtContinue | UnprotDual | UnprotUcastMgmt | UnprotMcastMgmt | UnprotBeacon | UnprotAction | UnprotUnicastPubAction | UnprotRobustAction

text \<open>The verdict on a management frame. The caller has seen to it that an action frame has a category.\<close>

definition ieee80211_drop_unencrypted_mgmt :: "rx_keys \<Rightarrow> bool \<Rightarrow> sel_key option \<Rightarrow> u8 list \<Rightarrow> mgmt_verdict" where
  "ieee80211_drop_unencrypted_mgmt r decrypted key skb =
     (let fc = frame_control skb; action = ieee80211_is_action fc;
          late = (if action \<and> ieee80211_is_robust_mgmt_frame skb \<and> (case rk_sta r of None \<Rightarrow> True | Some s \<Rightarrow> \<not> rs_assoc s)
                  then UnprotRobustAction else MgmtContinue)
      in if decrypted then MgmtContinue
         else if action \<and> skb ! 24 = 9 then UnprotDual
         else if (case rk_sta r of None \<Rightarrow> False | Some s \<Rightarrow> rs_mfp s) then
           (if \<not> ieee80211_has_protected fc \<and> ieee80211_is_unicast_robust_mgmt_frame skb then
              (if (ieee80211_is_deauth fc \<or> ieee80211_is_disassoc fc) \<and> key = None then MgmtContinue else UnprotUcastMgmt)
            else if ieee80211_is_multicast_robust_mgmt_frame skb \<and> ieee80211_get_mmie_keyidx skb < 0 then UnprotMcastMgmt
            else if ieee80211_is_beacon fc \<and> key \<noteq> None \<and> ieee80211_get_mmie_keyidx skb < 0 then UnprotBeacon
            else if action \<and> key = None \<and> ieee80211_is_robust_mgmt_frame skb then UnprotAction
            else if \<not> is_multicast_ether_addr (addr1 skb) \<and> ieee80211_is_protected_dual_of_public_action skb then UnprotUnicastPubAction
            else late)
         else late)"


section \<open>Data frames\<close>

record rx_iface =
  ri_type :: nat
  ri_addr :: "u8 list"
  ri_mld :: bool
  ri_link_addrs :: "u8 list list"
  ri_use_4addr :: bool
  ri_vlan_sta :: bool
  ri_bss :: bool
  ri_control_port :: u16

definition ieee80211_is_our_addr :: "rx_iface \<Rightarrow> u8 list \<Rightarrow> bool" where
  "ieee80211_is_our_addr i addr \<longleftrightarrow> ri_addr i = addr \<or> (ri_mld i \<and> addr \<in> set (ri_link_addrs i))"

definition pae_group_addr :: "u8 list" where
  "pae_group_addr = [0x01, 0x80, 0xC2, 0x00, 0x00, 0x03]"

definition ieee80211_frame_allowed :: "rx_iface \<Rightarrow> rx_keys \<Rightarrow> bool \<Rightarrow> sel_key option \<Rightarrow> u16 \<Rightarrow> u8 list \<Rightarrow> bool" where
  "ieee80211_frame_allowed i r decrypted key fc eth \<longleftrightarrow>
     (if h_proto (get_eth eth) = ri_control_port i
      then ieee80211_is_our_addr i (h_dest (get_eth eth)) \<or> h_dest (get_eth eth) = pae_group_addr
      else \<not> ieee80211_802_1x_port_control r \<and> \<not> ieee80211_drop_unencrypted decrypted key fc)"

datatype data_drop =
  DdMonitor | DdUnexpected4addrEvent | DdUnexpectedVlan4addr | DdUnexpectedSta4addr | DdUnexpectedVlanMcast | DdInvalid8023 | DdNotPortControl

text \<open>\<open>__ieee80211_data_to_8023\<close>: the Ethernet frame, and whether it is one of the control port.\<close>

definition rx_data_to_8023 :: "rx_iface \<Rightarrow> u8 list \<Rightarrow> data_drop + (u8 list \<times> bool)" where
  "rx_data_to_8023 i skb =
     (let fc = frame_control skb; a4 = ieee80211_has_a4 fc;
          station = (ri_type i = NL80211_IFTYPE_STATION \<and> ri_use_4addr i \<noteq> a4)
      in if a4 \<and> ri_type i = NL80211_IFTYPE_AP_VLAN \<and> \<not> ri_vlan_sta i then Inl DdUnexpectedVlan4addr
         else if station \<and> \<not> ri_use_4addr i then Inl DdUnexpectedSta4addr
         else
           let check_port_control = (station \<and> addr1 skb \<noteq> ri_addr i)
           in if is_multicast_ether_addr (addr1 skb) \<and> ri_type i = NL80211_IFTYPE_AP_VLAN \<and> ri_vlan_sta i then Inl DdUnexpectedVlanMcast
              else case ieee80211_data_to_8023 skb (ri_addr i) (ri_type i) of
                None \<Rightarrow> Inl DdInvalid8023
              | Some eth \<Rightarrow>
                  if h_proto (get_eth eth) = ri_control_port i then Inr (eth, True)
                  else if check_port_control then Inl DdNotPortControl
                  else Inr (eth, False))"

datatype data_result =
    DataContinue
  | DataDrop data_drop
  | DataMesh                       \<comment> \<open>what \<open>ieee80211_rx_mesh_data\<close> has kept, forwarded or dropped\<close>
  | DataTdls "u8 list"             \<comment> \<open>queued for the interface\<close>
  | DataDeliver "u8 list" bool     \<comment> \<open>given to the stack, on the device of the AP if True\<close>

definition tdls_switch :: "u8 list \<Rightarrow> bool" where
  "tdls_switch eth \<longleftrightarrow> h_proto (get_eth eth) = 0x890D \<and> 17 \<le> length eth \<and> eth ! 14 = 2 \<and> eth ! 15 = 12 \<and> (eth ! 16 = 5 \<or> eth ! 16 = 6)"

text \<open>\<open>ieee80211_rx_h_data\<close>. \<open>mesh\<close> is \<open>ieee80211_rx_mesh_data\<close> on a mesh interface, which gives the frame without its mesh header when
  it is for us; \<open>event\<close> is \<open>WLAN_STA_4ADDR_EVENT\<close> of the station: the first drop of a four-address frame of it is reported. The power-save timer is not
  modelled.\<close>

definition ieee80211_rx_h_data ::
  "(u8 list \<Rightarrow> u8 list option) \<Rightarrow> rx_iface \<Rightarrow> rx_keys \<Rightarrow> bool \<Rightarrow> bool \<Rightarrow> sel_key option \<Rightarrow> u8 list \<Rightarrow> data_result"
where
  "ieee80211_rx_h_data mesh i r event decrypted key skb =
     (let fc = frame_control skb
      in if \<not> ieee80211_is_data fc then DataContinue
         else if \<not> ieee80211_is_data_present fc then DataDrop DdMonitor
         else if ieee80211_has_a4 fc \<and> ri_type i = NL80211_IFTYPE_AP then
           DataDrop (if rk_sta r \<noteq> None \<and> \<not> event then DdUnexpected4addrEvent else DdMonitor)
         else case rx_data_to_8023 i skb of
           Inl d \<Rightarrow> DataDrop d
         | Inr (eth, port_control) \<Rightarrow>
             (case (if ri_type i = NL80211_IFTYPE_MESH_POINT then mesh eth else Some eth) of
                None \<Rightarrow> DataMesh
              | Some eth \<Rightarrow>
                  if \<not> ieee80211_frame_allowed i r decrypted key fc eth then DataDrop DdMonitor
                  else if tdls_switch eth then DataTdls eth
                  else DataDeliver eth (ri_type i = NL80211_IFTYPE_AP_VLAN \<and> port_control \<and> ri_bss i)))"

end
