(* ===== verification/RxKeysProps.thy ===== *)
theory RxKeysProps
  imports RxKeys
begin

text \<open>
  The properties of the choice of keys: no array is read outside its bounds, a frame for one station is decrypted only with a pairwise key, and no data
  frame passes in the clear, in either direction, once there is a key for it.
\<close>


section \<open>Receiving\<close>

text \<open>The sizes of the arrays.\<close>

definition rx_keys_wf :: "rx_keys \<Rightarrow> bool" where
  "rx_keys_wf r \<longleftrightarrow>
     length (rk_gtk r) = NUM_DEFAULT_KEYS + NUM_DEFAULT_MGMT_KEYS + NUM_DEFAULT_BEACON_KEYS \<and> length (rk_keys r) = NUM_DEFAULT_KEYS \<and>
     (rk_link_sta r \<longrightarrow> rk_sta r \<noteq> None) \<and>
     (case rk_sta r of
        None \<Rightarrow> True
      | Some s \<Rightarrow> length (rs_ptk s) = NUM_DEFAULT_KEYS \<and> rs_ptk_idx s < NUM_DEFAULT_KEYS \<and>
          length (rs_gtk s) = NUM_DEFAULT_KEYS + NUM_DEFAULT_MGMT_KEYS + NUM_DEFAULT_BEACON_KEYS)"

definition pairwise_keys :: "rx_keys \<Rightarrow> sel_key set" where
  "pairwise_keys r = (case rk_sta r of None \<Rightarrow> {} | Some s \<Rightarrow> {k. Some k \<in> set (rs_ptk s)})"

text \<open>The group keys with an index in a set.\<close>

definition group_keys :: "rx_keys \<Rightarrow> nat set \<Rightarrow> sel_key set" where
  "group_keys r I = {k. \<exists>i \<in> I. i < length (rk_gtk r) \<and> rk_gtk r ! i = Some k \<or>
     (\<exists>s. rk_sta r = Some s \<and> i < length (rs_gtk s) \<and> rs_gtk s ! i = Some k)}"

definition default_keys :: "rx_keys \<Rightarrow> sel_key set" where
  "default_keys r = {k. Some k \<in> set (rk_keys r)}"

lemma key_at_in: "i < length ks \<Longrightarrow> key_at ks i = Some (ks ! i)" by (simp add: key_at_def)

lemma or_key_Some: "or_key (Some a) (Some b) = Some (case a of Some _ \<Rightarrow> a | None \<Rightarrow> b)"
  by (simp add: or_key_def split: option.split)

lemma sta_gtk_at: "rx_keys_wf r \<Longrightarrow> i < 8 \<Longrightarrow> \<exists>k. sta_gtk r i = Some k \<and> (\<forall>k'. k = Some k' \<longrightarrow> k' \<in> group_keys r {i})"
  by (auto simp: sta_gtk_def rx_keys_wf_def key_at_def group_keys_def split: option.splits)

lemma gtk_at: "rx_keys_wf r \<Longrightarrow> i < 8 \<Longrightarrow> \<exists>k. key_at (rk_gtk r) i = Some k \<and> (\<forall>k'. k = Some k' \<longrightarrow> k' \<in> group_keys r {i})"
  by (auto simp: rx_keys_wf_def key_at_def group_keys_def)

lemma or_key_obtain:
  assumes "\<exists>k. a = Some k \<and> (\<forall>k'. k = Some k' \<longrightarrow> k' \<in> A)" "\<exists>k. b = Some k \<and> (\<forall>k'. k = Some k' \<longrightarrow> k' \<in> B)"
  shows "\<exists>k. or_key a b = Some k \<and> (\<forall>k'. k = Some k' \<longrightarrow> k' \<in> A \<union> B)"
  using assms by (auto simp: or_key_Some split: option.split)

lemma group_keys_mono: "I \<subseteq> J \<Longrightarrow> group_keys r I \<subseteq> group_keys r J" by (auto simp: group_keys_def)

lemma group_key_at:
  assumes "rx_keys_wf r" "i < 8" "i \<in> I"
  shows "\<exists>k. or_key (sta_gtk r i) (key_at (rk_gtk r) i) = Some k \<and> (\<forall>k'. k = Some k' \<longrightarrow> k' \<in> group_keys r I)"
  using or_key_obtain [OF sta_gtk_at [OF assms(1,2)] gtk_at [OF assms(1,2)]] group_keys_mono [of "{i}" I r] assms(3) by auto

lemma bigtk_at:
  assumes "rx_keys_wf r" "idx < 0 \<or> idx = 6 \<or> idx = 7"
  shows "\<exists>k. ieee80211_rx_get_bigtk r idx = Some k \<and> (\<forall>k'. k = Some k' \<longrightarrow> k' \<in> group_keys r {6, 7})"
proof -
  obtain i i2 :: nat where i: "(i = 6 \<and> i2 = 7) \<or> (i = 7 \<and> i2 = 6)"
      "ieee80211_rx_get_bigtk r idx = or_key (sta_gtk r i) (or_key (key_at (rk_gtk r) i) (or_key (sta_gtk r i2) (key_at (rk_gtk r) i2)))"
    using assms(2) that [of 6 7] that [of 7 6] by (auto simp: ieee80211_rx_get_bigtk_def Let_def)
  then have b: "i < 8" "i2 < 8" by auto
  note at = sta_gtk_at [OF assms(1)] gtk_at [OF assms(1)]
  have "\<exists>k. ieee80211_rx_get_bigtk r idx = Some k \<and> (\<forall>k'. k = Some k' \<longrightarrow> k' \<in> group_keys r {i} \<union> (group_keys r {i} \<union> (group_keys r {i2} \<union> group_keys r {i2})))"
    unfolding i(2) by (intro or_key_obtain at b)
  moreover have "group_keys r {i} \<union> (group_keys r {i} \<union> (group_keys r {i2} \<union> group_keys r {i2})) \<subseteq> group_keys r {6, 7}"
    using i(1) by (auto simp: group_keys_def)
  ultimately show ?thesis by blast
qed

lemma first_key_at: "i + n \<le> length ks \<Longrightarrow> \<exists>k. first_key ks i n = Some k \<and> (k = None \<longrightarrow> (\<forall>j. i \<le> j \<and> j < i + n \<longrightarrow> ks ! j = None))"
proof (induction n arbitrary: i)
  case (Suc n)
  obtain k where k: "first_key ks (i + 1) n = Some k" "k = None \<longrightarrow> (\<forall>j. i + 1 \<le> j \<and> j < i + 1 + n \<longrightarrow> ks ! j = None)"
    using Suc.IH [of "i + 1"] Suc.prems by auto
  have "(\<forall>j. i \<le> j \<and> j < i + Suc n \<longrightarrow> ks ! j = None)" if "ks ! i = None" "k = None"
    using k(2) that by (metis Suc_eq_plus1 Suc_leI add_Suc_shift le_neq_implies_less)
  then show ?case using k(1) Suc.prems by (auto simp: key_at_in or_key_Some split: option.split)
qed auto

lemma clear_key:
  assumes "rx_keys_wf r"
  shows "\<exists>k. or_key (case rk_sta r of Some s \<Rightarrow> if rk_link_sta r then first_key (rs_gtk s) 0 4 else Some None | None \<Rightarrow> Some None) (first_key (rk_gtk r) 0 4) = Some k \<and>
     (k = None \<longrightarrow> (\<forall>j < 4. rk_gtk r ! j = None))"
proof -
  obtain k2 where k2: "first_key (rk_gtk r) 0 4 = Some k2" "k2 = None \<longrightarrow> (\<forall>j < 4. rk_gtk r ! j = None)"
    using first_key_at [of 0 4 "rk_gtk r"] assms by (auto simp: rx_keys_wf_def)
  obtain k1 where "(case rk_sta r of Some s \<Rightarrow> if rk_link_sta r then first_key (rs_gtk s) 0 4 else Some None | None \<Rightarrow> Some None) = Some k1"
  proof (cases "rk_sta r")
    case (Some s)
    then show ?thesis using first_key_at [of 0 4 "rs_gtk s"] assms that by (cases "rk_link_sta r") (auto simp: rx_keys_wf_def)
  qed (use that in simp)
  then show ?thesis using k2 by (auto simp: or_key_Some split: option.split)
qed

lemma keyid_bound: "ieee80211_get_keyid skb < 4"
proof -
  have "unat (drop_bit 6 (b :: u8)) < 4" for b using unsigned_less [where ?'a = nat and w = b] by (simp add: unat_drop_bit)
  then have "int (unat (drop_bit 6 (b :: u8))) < 4" for b by (metis of_nat_less_iff of_nat_numeral)
  then show ?thesis by (auto simp: ieee80211_get_keyid_def Let_def)
qed

lemma mmie_multicast: "0 \<le> ieee80211_get_mmie_keyidx skb \<Longrightarrow> is_multicast_ether_addr (addr1 skb)"
  by (auto simp: ieee80211_get_mmie_keyidx_def Let_def split: if_splits)

lemma use_key_decrypt: "rx_use_key key = RxSelDecrypt k \<longleftrightarrow> key = Some k \<and> \<not> sk_tainted k"
  by (auto simp: rx_use_key_def split: option.splits)

definition rx_key_right :: "rx_keys \<Rightarrow> u8 list \<Rightarrow> rx_select \<Rightarrow> bool" where
  "rx_key_right r skb s \<longleftrightarrow>
     (\<forall>k. s = RxSelDecrypt k \<longrightarrow> \<not> sk_tainted k \<and>
        (if \<not> is_multicast_ether_addr (addr1 skb) then k \<in> pairwise_keys r \<or> (wep_cipher (sk_cipher k) \<and> k \<in> default_keys r)
         else if ieee80211_has_protected (frame_control skb) then k \<in> group_keys r {0, 1, 2, 3} \<union> default_keys r
         else k \<in> group_keys r (if ieee80211_is_beacon (frame_control skb) then {6, 7} else {4, 5})))"

lemma right_no_key: "rx_key_right r skb (RxSelContinue key)" "rx_key_right r skb (RxSelDrop d)"
  by (simp_all add: rx_key_right_def)


text \<open>The four ways to the choice of a key: the sender's pairwise key, a group key by the index in a management MIC element, none for an
  unprotected frame, a key by the index in the header.\<close>

lemma select_pairwise:
  assumes "rx_keys_wf r" "\<not> ieee80211_is_ext (frame_control skb)" "\<not> is_multicast_ether_addr (addr1 skb)"
    and "rk_sta r = Some st" "rs_ptk st ! rs_ptk_idx st = Some kp"
  shows "\<exists>s. rx_select_key r stripped ivs skb = Some s \<and> rx_key_right r skb s \<and>
     (\<not> ieee80211_has_protected (frame_control skb) \<longrightarrow> s = RxSelContinue (Some kp))"
proof -
  have wf: "length (rs_ptk st) = 4" "rs_ptk_idx st < 4" using assms(1,4) by (simp_all add: rx_keys_wf_def)
  have kp: "kp \<in> pairwise_keys r" using assms(4,5) wf by (auto simp: pairwise_keys_def in_set_conv_nth)
  have n: "nat (ieee80211_get_keyid skb) < 4" using keyid_bound [of skb] by simp
  then have kn: "k \<in> pairwise_keys r" if "rs_ptk st ! nat (ieee80211_get_keyid skb) = Some k" for k
    using that assms(4) wf by (auto simp: pairwise_keys_def in_set_conv_nth)
  show ?thesis
    using assms(2-5) wf n kp kn unfolding rx_select_key_def Let_def
    by (auto simp: key_at_in use_key_decrypt rx_key_right_def split: option.splits)
qed

lemma select_group:
  assumes wf: "rx_keys_wf r" and ext: "\<not> ieee80211_is_ext (frame_control skb)"
    and no_ptk: "is_multicast_ether_addr (addr1 skb) \<or> (case rk_sta r of None \<Rightarrow> True | Some st \<Rightarrow> rs_ptk st ! rs_ptk_idx st = None)"
  shows "\<exists>s. rx_select_key r stripped ivs skb = Some s \<and> rx_key_right r skb s"
proof -
  let ?fc = "frame_control skb" and ?m = "ieee80211_get_mmie_keyidx skb" and ?k = "ieee80211_get_keyid skb"
  have n: "nat ?k < 4" using keyid_bound [of skb] by simp
  obtain ptk where ptk: "(case rk_sta r of None \<Rightarrow> Some None | Some s \<Rightarrow> key_at (rs_ptk s) (rs_ptk_idx s)) = Some ptk"
      "is_multicast_ether_addr (addr1 skb) \<or> ptk = None"
    using wf no_ptk by (auto simp: rx_keys_wf_def key_at_def split: option.splits)
  obtain ptki where ptki: "(case rk_sta r of Some s \<Rightarrow> if ieee80211_has_protected ?fc \<and> \<not> ivs then key_at (rs_ptk s) (nat ?k) else Some None | None \<Rightarrow> Some None) = Some ptki"
    using wf n by (cases "rk_sta r"; cases "ieee80211_has_protected ?fc \<and> \<not> ivs") (auto simp: rx_keys_wf_def key_at_def)
  have b: "\<exists>k. ieee80211_rx_get_bigtk r ?m = Some k \<and> (\<forall>k'. k = Some k' \<longrightarrow> k' \<in> group_keys r {6, 7})" if "\<not> ?m < 6" "\<not> 8 \<le> ?m"
    using bigtk_at [OF wf, of ?m] that by force
  have b1: "\<exists>k. ieee80211_rx_get_bigtk r (- 1) = Some k" using bigtk_at [OF wf, of "- 1"] by auto
  have g: "\<exists>k. or_key (sta_gtk r (nat ?m)) (key_at (rk_gtk r) (nat ?m)) = Some k \<and> (\<forall>k'. k = Some k' \<longrightarrow> k' \<in> group_keys r {4, 5})"
    if "\<not> ?m < 4" "\<not> 6 \<le> ?m" using that by (intro group_key_at [OF wf]) auto
  have g4: "\<exists>k. or_key (sta_gtk r (nat ?k)) (key_at (rk_gtk r) (nat ?k)) = Some k \<and> (\<forall>k'. k = Some k' \<longrightarrow> k' \<in> group_keys r {0, 1, 2, 3})"
    using n by (intro group_key_at [OF wf]) auto
  have d: "\<exists>k. key_at (rk_keys r) (nat ?k) = Some k \<and> (\<forall>k'. k = Some k' \<longrightarrow> k' \<in> default_keys r)"
    using wf n by (auto simp: rx_keys_wf_def key_at_def default_keys_def in_set_conv_nth)
  note f = clear_key [OF wf]
  note run = rx_select_key_def [of r stripped ivs skb, unfolded Let_def ptk(1) ptki Option.bind.simps]
  note simps = rx_key_right_def use_key_decrypt
  consider "rk_sta r \<noteq> None \<and> ieee80211_has_protected ?fc \<and> \<not> ivs \<and> ?k < 0"
    | (bcn) "\<not> ieee80211_has_protected ?fc" "0 \<le> ?m" "ieee80211_is_beacon ?fc" | (mgmt) "\<not> ieee80211_has_protected ?fc" "0 \<le> ?m" "\<not> ieee80211_is_beacon ?fc"
    | (clear) "\<not> ieee80211_has_protected ?fc" "\<not> 0 \<le> ?m" | (prot) "ieee80211_has_protected ?fc" "\<not> (rk_sta r \<noteq> None \<and> \<not> ivs \<and> ?k < 0)" by blast
  then show ?thesis
  proof cases
    case 1
    then show ?thesis unfolding run simps using ext by simp
  next
    case bcn
    then show ?thesis using ext ptk(2) b mmie_multicast [of skb] by (auto simp: run simps split: option.splits)
  next
    case mgmt
    then show ?thesis using ext ptk(2) g mmie_multicast [of skb] by (auto simp: run simps)
  next
    case clear
    then show ?thesis using ext ptk(2) b1 f by (auto simp: run simps)
  next
    case prot
    then show ?thesis using ext ptk(2) g4 d by (auto simp: run simps split: option.splits)
  qed
qed

text \<open>C22: The key of a received frame. For every frame, and every state of the keys, \<open>ieee80211_rx_h_decrypt\<close> indexes its arrays within their
  bounds, also by the index that the frame carries; a frame for one station is decrypted only with a pairwise key of its sender, or with
  a default key that is a WEP key; a group frame never with a pairwise key: a protected one with one of the first four group keys or a default key,
  a beacon with a management MIC with one of the two beacon keys, another frame with one with one of the two management keys. A key that is being removed is not used.\<close>

theorem rx_key_choice:
  assumes "rx_keys_wf r"
  shows "\<exists>s. rx_select_key r stripped ivs skb = Some s \<and>
     (\<forall>k. s = RxSelDecrypt k \<longrightarrow> \<not> sk_tainted k \<and>
        (if \<not> is_multicast_ether_addr (addr1 skb) then k \<in> pairwise_keys r \<or> (wep_cipher (sk_cipher k) \<and> k \<in> default_keys r)
         else if ieee80211_has_protected (frame_control skb) then k \<in> group_keys r {0, 1, 2, 3} \<union> default_keys r
         else k \<in> group_keys r (if ieee80211_is_beacon (frame_control skb) then {6, 7} else {4, 5})))"
proof -
  have "\<exists>s. rx_select_key r stripped ivs skb = Some s \<and> rx_key_right r skb s"
  proof (cases "ieee80211_is_ext (frame_control skb)")
    case False
    then show ?thesis using select_pairwise [OF assms False] select_group [OF assms False] by (fastforce split: option.splits)
  qed (simp add: rx_select_key_def rx_key_right_def)
  then show ?thesis unfolding rx_key_right_def .
qed

text \<open>There is a key for the frame: a pairwise key of the sender for a frame to one station, or a group key of the link.\<close>

definition key_known :: "rx_keys \<Rightarrow> u8 list \<Rightarrow> bool" where
  "key_known r skb \<longleftrightarrow>
     (\<not> is_multicast_ether_addr (addr1 skb) \<and> (\<exists>s. rk_sta r = Some s \<and> rs_ptk s ! rs_ptk_idx s \<noteq> None)) \<or>
     (\<exists>j < NUM_DEFAULT_KEYS. rk_gtk r ! j \<noteq> None)"

lemma ftype_of: "fc AND 0xFC = v \<Longrightarrow> fc AND 0xC = v AND (0xC :: u16)"
  by (auto simp: and.assoc)

lemma present_of: "fc AND 0xFC = v \<Longrightarrow> fc AND 0x4C = v AND (0x4C :: u16)"
  by (auto simp: and.assoc)

lemma data_not_mgmt:
  assumes "ieee80211_is_data fc"
  shows "\<not> ieee80211_is_beacon fc" "\<not> ieee80211_is_disassoc fc" "\<not> ieee80211_is_deauth fc" "\<not> ieee80211_is_action fc" "\<not> ieee80211_is_mgmt fc" "\<not> ieee80211_is_ext fc"
proof -
  have d: "fc AND 0xC = 8" using assms by (simp add: ieee80211_is_data_def)
  show "\<not> ieee80211_is_beacon fc" "\<not> ieee80211_is_disassoc fc" "\<not> ieee80211_is_deauth fc" "\<not> ieee80211_is_action fc"
    using ftype_of [where fc = fc] d
    by (auto simp: ieee80211_is_beacon_def ieee80211_is_disassoc_def ieee80211_is_deauth_def ieee80211_is_action_def)
  show "\<not> ieee80211_is_mgmt fc" "\<not> ieee80211_is_ext fc" using d by (simp_all add: fc_defs)
qed

lemma data_no_mmie: "ieee80211_is_data (frame_control skb) \<Longrightarrow> ieee80211_get_mmie_keyidx skb = - 1"
  using data_not_mgmt [of "frame_control skb"]
  by (simp add: ieee80211_get_mmie_keyidx_def ieee80211_is_robust_mgmt_frame_def is_robust_mgmt_hdr_def Let_def)

lemma clear_frame_key:
  assumes wf: "rx_keys_wf r" and data: "ieee80211_is_data (frame_control skb)" and clear: "\<not> ieee80211_has_protected (frame_control skb)"
    and known: "key_known r skb" and sel: "rx_select_key r stripped ivs skb = Some (RxSelContinue key)"
  shows "key \<noteq> None"
proof (cases "\<not> is_multicast_ether_addr (addr1 skb) \<and> (\<exists>s. rk_sta r = Some s \<and> rs_ptk s ! rs_ptk_idx s \<noteq> None)")
  case True
  then show ?thesis using select_pairwise [OF wf data_not_mgmt(6) [OF data]] clear sel by fastforce
next
  case False
  then have gtk: "\<exists>j < 4. rk_gtk r ! j \<noteq> None" using known by (auto simp: key_known_def)
  obtain k where k: "or_key (case rk_sta r of Some s \<Rightarrow> if rk_link_sta r then first_key (rs_gtk s) 0 4 else Some None | None \<Rightarrow> Some None) (first_key (rk_gtk r) 0 4) = Some k"
      "k \<noteq> None" using clear_key [OF wf] gtk by auto
  obtain ptk where ptk: "(case rk_sta r of None \<Rightarrow> Some None | Some s \<Rightarrow> key_at (rs_ptk s) (rs_ptk_idx s)) = Some ptk"
      "\<not> (\<not> is_multicast_ether_addr (addr1 skb) \<and> ptk \<noteq> None)"
    using wf False by (auto simp: rx_keys_wf_def key_at_def split: option.splits)
  show ?thesis
    using sel k clear ptk(2) data_no_mmie [OF data] data_not_mgmt [OF data] unfolding rx_select_key_def Let_def ptk(1)
    by (cases "rk_sta r") (auto split: if_splits)
qed

text \<open>C21: No data in the clear. When the receiver has a key for a data frame - the pairwise key of its sender, or a group key - and
  the frame is not protected, and the hardware has not decrypted it, then \<open>ieee80211_rx_h_decrypt\<close> notes the key and
  \<open>ieee80211_rx_h_data\<close> hands the frame on only if it is one of the control port (EAPOL) for this interface or the PAE group address. And
  whatever the keys, only frames of an authorized station or of the control port are handed on.\<close>

theorem cleartext_only_eapol:
  assumes "rx_keys_wf r" "rx_select_key r False ivs skb = Some (RxSelContinue key)"
    and "ieee80211_rx_h_data mesh i r event False key skb \<in> {DataDeliver eth ap, DataTdls eth}"
  shows "(\<exists>s. rk_sta r = Some s \<and> rs_authorized s) \<and> (ieee80211_has_protected (frame_control skb) \<or> \<not> key_known r skb) \<or>
     h_proto (get_eth eth) = ri_control_port i \<and> (ieee80211_is_our_addr i (h_dest (get_eth eth)) \<or> h_dest (get_eth eth) = pae_group_addr)"
proof -
  let ?fc = "frame_control skb"
  have d: "ieee80211_is_data ?fc" "ieee80211_is_data_present ?fc" "ieee80211_frame_allowed i r False key ?fc eth"
    using assms(3) by (auto simp: ieee80211_rx_h_data_def Let_def split: if_splits sum.splits option.splits prod.splits)
  have "\<not> ieee80211_is_any_nullfunc ?fc"
    using d(2) present_of [where fc = ?fc] by (auto simp: ieee80211_is_data_present_def ieee80211_is_any_nullfunc_def ieee80211_is_nullfunc_def ieee80211_is_qos_nullfunc_def)
  then show ?thesis
    using d clear_frame_key [OF assms(1) d(1) _ _ assms(2)]
    by (auto simp: ieee80211_frame_allowed_def ieee80211_802_1x_port_control_def ieee80211_drop_unencrypted_def split: if_splits option.splits)
qed

text \<open>Robust management frames of a station with management frame protection.\<close>

lemma robust_mgmt_needs_protection:
  assumes "rk_sta r = Some s" "rs_mfp s" "ieee80211_is_robust_mgmt_frame skb" "ieee80211_drop_unencrypted_mgmt r False key skb = MgmtContinue"
  shows "if is_multicast_ether_addr (addr1 skb) then 0 \<le> ieee80211_get_mmie_keyidx skb
     else ieee80211_has_protected (frame_control skb) \<or> ((ieee80211_is_deauth (frame_control skb) \<or> ieee80211_is_disassoc (frame_control skb)) \<and> key = None)"
  using assms
  by (auto simp: ieee80211_drop_unencrypted_mgmt_def ieee80211_is_unicast_robust_mgmt_frame_def ieee80211_is_multicast_robust_mgmt_frame_def Let_def not_less
      split: if_splits)


section \<open>Sending\<close>

text \<open>Pairwise, multicast and unicast default keys are keys for data: \<open>cfg80211_validate_key_settings\<close> takes the ciphers for management frames only with the
  indices of management keys.\<close>

definition tx_keys_fit :: "tx_keys \<Rightarrow> bool" where
  "tx_keys_fit t \<longleftrightarrow>
     (\<forall>k. Option.bind (tk_sta t) ts_ptk = Some k \<or> tk_multicast_key t = Some k \<or> tk_unicast_key t = Some k \<longrightarrow> \<not> bip_cipher (sk_cipher k))"

text \<open>C23: No data is sent in the clear. For a station that uses encryption \<open>ieee80211_tx_h_select_key\<close> drops a data frame or finds a key for data: the
  pairwise key of the station when there is one; a key that is being removed only for the control port. (Left aside are frames
  marked \<open>IEEE80211_TX_INTFL_DONT_ENCRYPT\<close>, for which the handler chooses no key by design.)\<close>

theorem tx_never_clear:
  assumes "tx_keys_fit t" "ieee80211_is_data_present (frame_control skb)" "tk_sta t = Some s" "ts_uses_encryption s"
    and "ieee80211_tx_h_select_key t False control_port skb = TxKey ko hw"
  shows "\<exists>k. ko = Some k \<and> \<not> bip_cipher (sk_cipher k) \<and> (sk_tainted k \<longrightarrow> control_port) \<and> (ts_ptk s \<noteq> None \<longrightarrow> ko = ts_ptk s)"
proof -
  have d: "\<not> ieee80211_is_mgmt (frame_control skb)" "\<not> ieee80211_is_group_privacy_action skb" "\<not> ieee80211_is_deauth (frame_control skb)"
    using data_not_mgmt [OF data_present_data [OF assms(2)]] by (simp_all add: ieee80211_is_group_privacy_action_def)
  define key where "key = (case Option.bind (tk_sta t) ts_ptk of Some k \<Rightarrow> Some k | None \<Rightarrow>
      (case ieee80211_select_link_key t skb of Some k \<Rightarrow> Some k | None \<Rightarrow> if \<not> is_multicast_ether_addr (addr1 skb) then tk_unicast_key t else None))"
  have fit: "\<not> bip_cipher (sk_cipher k)" if "key = Some k" for k
    using that assms(1) d by (auto simp: key_def tx_keys_fit_def ieee80211_select_link_key_def split: option.splits if_splits)
  have "\<exists>k. key = Some k \<and> ko = Some k \<and> (sk_tainted k \<longrightarrow> control_port)"
    using assms(2-5) d fit unfolding ieee80211_tx_h_select_key_def Let_def key_def [symmetric]
    by (auto split: option.splits if_splits)
  moreover have "ts_ptk s \<noteq> None \<longrightarrow> key = ts_ptk s" using assms(3) by (auto simp: key_def)
  ultimately show ?thesis using fit by auto
qed


section \<open>Examples\<close>

definition demo_ptk :: sel_key where
  "demo_ptk = \<lparr>sk_id = 1, sk_cipher = CIPHER_CCMP, sk_tainted = False, sk_uploaded = False, sk_sw_mgmt_tx = False\<rparr>"

definition demo_sender :: rx_sta_keys where
  "demo_sender = \<lparr>rs_ptk = [Some demo_ptk, None, None, None], rs_ptk_idx = 0, rs_gtk = replicate 8 None, rs_mfp = False, rs_assoc = True, rs_authorized = True\<rparr>"

definition demo_rx_keys :: rx_keys where
  "demo_rx_keys = \<lparr>rk_sta = Some demo_sender, rk_link_sta = True, rk_gtk = replicate 8 None, rk_mgmt_key = None, rk_keys = replicate 4 None\<rparr>"

lemma demo_rx_keys_wf: "rx_keys_wf demo_rx_keys" by (simp add: rx_keys_wf_def demo_rx_keys_def demo_sender_def)

definition demo_iface :: rx_iface where
  "demo_iface = \<lparr>ri_type = NL80211_IFTYPE_STATION, ri_addr = [2, 0, 0, 0, 0, 2], ri_mld = False, ri_link_addrs = [], ri_use_4addr = False,
     ri_vlan_sta = False, ri_bss = True, ri_control_port = 0x888E\<rparr>"

text \<open>A data frame from the access point, protected or not, with EAPOL or another type.\<close>

definition demo_data :: "u8 \<Rightarrow> u8 list \<Rightarrow> u8 list" where
  "demo_data fc1 body = [0x08, fc1, 0, 0] @ [2, 0, 0, 0, 0, 2] @ [2, 0, 0, 0, 0, 1] @ [2, 0, 0, 0, 0, 9] @ [0, 0] @ body"

theorem rx_key_choice_witness:
  "rx_select_key demo_rx_keys False False (demo_data 0x42 [1, 0, 0, 0x20, 0, 0, 0, 0, 7]) = Some (RxSelDecrypt demo_ptk) \<and> demo_ptk \<in> pairwise_keys demo_rx_keys"
proof -
  have "rx_select_key demo_rx_keys False False (demo_data 0x42 [1, 0, 0, 0x20, 0, 0, 0, 0, 7]) = Some (RxSelDecrypt demo_ptk)" by code_simp
  moreover have "\<not> is_multicast_ether_addr (addr1 (demo_data 0x42 [1, 0, 0, 0x20, 0, 0, 0, 0, 7]))" "\<not> wep_cipher (sk_cipher demo_ptk)" by code_simp+
  ultimately show ?thesis using rx_key_choice [OF demo_rx_keys_wf, of False False "demo_data 0x42 [1, 0, 0, 0x20, 0, 0, 0, 0, 7]"] by auto
qed

definition demo_eapol :: "u8 list" where
  "demo_eapol = demo_data 0x02 (rfc1042_header @ [0x88, 0x8E, 1, 3])"

theorem cleartext_only_eapol_witness:
  "\<exists>key eth. rx_select_key demo_rx_keys False False demo_eapol = Some (RxSelContinue key) \<and>
     ieee80211_rx_h_data Some demo_iface demo_rx_keys False False key demo_eapol = DataDeliver eth False \<and>
     h_proto (get_eth eth) = ri_control_port demo_iface"
proof -
  have s: "rx_select_key demo_rx_keys False False demo_eapol = Some (RxSelContinue (Some demo_ptk))" by code_simp
  have d: "ieee80211_rx_h_data Some demo_iface demo_rx_keys False False (Some demo_ptk) demo_eapol
      = DataDeliver ([2, 0, 0, 0, 0, 2, 2, 0, 0, 0, 0, 9, 0x88, 0x8E, 1, 3]) False" by code_simp
  have "key_known demo_rx_keys demo_eapol" "\<not> ieee80211_has_protected (frame_control demo_eapol)"
    by (simp add: key_known_def demo_rx_keys_def demo_sender_def demo_eapol_def demo_data_def addr1_def is_multicast_ether_addr_def) code_simp
  then show ?thesis using cleartext_only_eapol [OF demo_rx_keys_wf s, where mesh = Some and i = demo_iface and event = False and ap = False] s d by fastforce
qed

theorem tx_never_clear_witness:
  "\<exists>k. ieee80211_tx_h_select_key \<lparr>tk_sta = Some \<lparr>ts_ptk = Some demo_ptk, ts_mfp = False, ts_uses_encryption = True\<rparr>, tk_link = True,
       tk_multicast_key = None, tk_mgmt_key = None, tk_unicast_key = None\<rparr> False False (demo_data 0x01 [1, 2, 3]) = TxKey (Some k) False \<and> \<not> bip_cipher (sk_cipher k)"
proof -
  let ?t = "\<lparr>tk_sta = Some \<lparr>ts_ptk = Some demo_ptk, ts_mfp = False, ts_uses_encryption = True\<rparr>, tk_link = True,
       tk_multicast_key = None, tk_mgmt_key = None, tk_unicast_key = None\<rparr>"
  have k: "ieee80211_tx_h_select_key ?t False False (demo_data 0x01 [1, 2, 3]) = TxKey (Some demo_ptk) False" by code_simp
  have "tx_keys_fit ?t" by (simp add: tx_keys_fit_def demo_ptk_def bip_cipher_def)
  moreover have "ieee80211_is_data_present (frame_control (demo_data 0x01 [1, 2, 3]))" by code_simp
  ultimately have "\<not> bip_cipher (sk_cipher demo_ptk)" using tx_never_clear [OF _ _ _ _ k, of "\<lparr>ts_ptk = Some demo_ptk, ts_mfp = False, ts_uses_encryption = True\<rparr>"] by simp
  then show ?thesis using k by blast
qed

end
