(* ===== verification/DataPath.thy ===== *)
theory DataPath
  imports RxKeys EtherTx Defrag Wpa SeqNum
begin

text \<open>
  The handlers a data frame goes through, put together: on the sending side the QoS field (net/mac80211/wme.c), the sequence number
  (\<open>ieee80211_tx_h_sequence\<close>), fragmentation and encryption in the order of \<open>invoke_tx_handlers_late\<close> (net/mac80211/tx.c), on the receiving side
  (net/mac80211/rx.c) the recognition of retransmissions (\<open>ieee80211_rx_h_check_dup\<close>), the choice of the key, decryption, defragmentation and
  delivery in the order of \<open>ieee80211_invoke_rx_handlers\<close> and \<open>ieee80211_rx_handlers\<close>, for a frame outside of a block-ack session. The
  handlers in between that only count, save power or look at other kinds of frames are left out.
\<close>


section \<open>QoS field\<close>

text \<open>\<open>ieee80211_set_qos_hdr\<close> of wme.c: the priority as TID, and no acknowledgement for group frames and for the TIDs of \<open>noack_map\<close>; the second
  result is \<open>IEEE80211_TX_CTL_NO_ACK\<close>.\<close>

definition ieee80211_set_qos_hdr :: "bool \<Rightarrow> bool \<Rightarrow> u16 \<Rightarrow> u32 \<Rightarrow> u8 list \<Rightarrow> u8 list \<times> bool" where
  "ieee80211_set_qos_hdr mesh injected noack_map priority skb =
     (let fc = frame_control skb; tid = (ucast priority :: u8) AND 7; p = (if ieee80211_has_a4 fc then 30 else 24)
      in if \<not> ieee80211_is_data_qos fc then (skb, False)
         else if injected then (skb, skb ! p AND 0x20 \<noteq> 0)
         else
           let noack = (is_multicast_ether_addr (addr1 skb) \<or> bit noack_map (unat tid));
               flags = (skb ! p AND NOT 0x6F) OR (if noack then 0x20 else 0);
               second = (if mesh then (skb ! (p + 1) AND 0x06) OR (if ieee80211_is_qos_nullfunc fc then 0 else 1) else 0)
           in (skb[p := flags OR tid, p + 1 := second], noack))"


section \<open>Sequence numbers\<close>

text \<open>The counters of the interface and, for each TID, of the station.\<close>

record seq_state =
  sq_sequence_number :: u16
  sq_mld_mcast_seq :: u16
  sq_tid_seq :: "nat \<Rightarrow> u16"

definition ieee80211_tx_next_seq :: "(nat \<Rightarrow> u16) \<Rightarrow> nat \<Rightarrow> u16 \<times> (nat \<Rightarrow> u16)" where
  "ieee80211_tx_next_seq sq tid = (sq tid, sq(tid := (sq tid + 0x10) AND IEEE80211_SCTL_SEQ))"

text \<open>What the handler reads besides the frame: the kind of interface, whether it is an MLD, \<open>IEEE80211_TX_CTRL_NO_SEQNO\<close>,
  \<open>IEEE80211_TX_CTRL_MCAST_MLO_FIRST_TX\<close>, and whether there is a station.\<close>

record seq_env =
  qe_type :: nat
  qe_mld :: bool
  qe_no_seqno :: bool
  qe_mlo_first :: bool
  qe_sta :: bool

abbreviation (input) NL80211_IFTYPE_MONITOR :: nat where "NL80211_IFTYPE_MONITOR \<equiv> 6"

definition ieee80211_tx_h_sequence :: "seq_env \<Rightarrow> seq_state \<Rightarrow> u8 list \<Rightarrow> u8 list \<times> seq_state" where
  "ieee80211_tx_h_sequence e s skb =
     (let fc = frame_control skb; mcast = is_multicast_ether_addr (addr1 skb)
      in if qe_type e = NL80211_IFTYPE_MONITOR then (skb, s)
         else if ieee80211_is_ctl fc then (skb, s)
         else if ieee80211_hdrlen fc < 24 then (skb, s)
         else if ieee80211_is_qos_nullfunc fc then (skb, s)
         else if qe_no_seqno e then (skb, s)
         else if mcast \<and> qe_mld e \<and> qe_type e = NL80211_IFTYPE_AP then
           let m = (if qe_mlo_first e then sq_mld_mcast_seq s + 0x10 else sq_mld_mcast_seq s)
           in (set_seq_ctrl m skb, s\<lparr>sq_mld_mcast_seq := m\<rparr>)
         else if \<not> ieee80211_is_data_qos fc \<or> mcast then
           (set_seq_ctrl (sq_sequence_number s) skb, s\<lparr>sq_sequence_number := sq_sequence_number s + 0x10\<rparr>)
         else if \<not> qe_sta e then (skb, s)
         else
           let (sc, sq) = ieee80211_tx_next_seq (sq_tid_seq s) (unat (ieee80211_get_tid skb))
           in (set_seq_ctrl sc skb, s\<lparr>sq_tid_seq := sq\<rparr>))"


section \<open>Retransmissions\<close>

record rx_qos =
  pq_seqno_idx :: nat
  pq_security_idx :: nat
  pq_priority :: nat
  pq_amsdu :: bool

definition ieee80211_parse_qos :: "u8 list \<Rightarrow> rx_qos" where
  "ieee80211_parse_qos skb =
     (let fc = frame_control skb
      in if ieee80211_is_data_qos fc then
           let qc = ieee80211_get_qos_ctl skb ! 0; tid = unat (qc AND IEEE80211_QOS_CTL_TID_MASK)
           in \<lparr>pq_seqno_idx = tid, pq_security_idx = tid, pq_priority = (if tid > 7 then 0 else tid), pq_amsdu = (qc AND 0x80 \<noteq> 0)\<rparr>
         else \<lparr>pq_seqno_idx = 16, pq_security_idx = (if ieee80211_is_mgmt fc then 16 else 0), pq_priority = 0, pq_amsdu = False\<rparr>)"

text \<open>The last sequence control field of each counter of the station, and the last sequence number of group frames of an MLD. \<open>None\<close>:
  none yet (\<open>IEEE80211_SN_MODULO\<close>).\<close>

record dup_state =
  du_last_seq_ctrl :: "nat \<Rightarrow> u16"
  du_mcast_last :: "u16 option"

record dup_env =
  de_validated :: bool          \<comment> \<open>\<open>RX_FLAG_DUP_VALIDATED\<close>\<close>
  de_amsdu_more :: bool         \<comment> \<open>\<open>RX_FLAG_AMSDU_MORE\<close>\<close>
  de_sta :: bool
  de_mld_station :: bool        \<comment> \<open>an MLD interface of type station\<close>

text \<open>True: dropped as a duplicate.\<close>

definition ieee80211_rx_h_check_dup :: "dup_env \<Rightarrow> nat \<Rightarrow> dup_state \<Rightarrow> u8 list \<Rightarrow> dup_state \<times> bool" where
  "ieee80211_rx_h_check_dup e seqno_idx d skb =
     (let fc = frame_control skb
      in if de_validated e then (d, False)
         else if length skb < 24 then (d, False)
         else if ieee80211_is_ctl fc \<or> ieee80211_is_any_nullfunc fc then (d, False)
         else if \<not> de_sta e then (d, False)
         else if is_multicast_ether_addr (addr1 skb) then
           let sn = ieee80211_get_sn skb
           in if \<not> ieee80211_is_data_present fc then (d, False)
              else if \<not> de_mld_station e then (d, False)
              else (case du_mcast_last d of
                      Some l \<Rightarrow> if ieee80211_sn_less_eq sn l then (d, True) else (d\<lparr>du_mcast_last := Some sn\<rparr>, False)
                    | None \<Rightarrow> (d\<lparr>du_mcast_last := Some sn\<rparr>, False))
         else if ieee80211_has_retry fc \<and> du_last_seq_ctrl d seqno_idx = seq_ctrl skb then (d, True)
         else if \<not> de_amsdu_more e then (d\<lparr>du_last_seq_ctrl := (du_last_seq_ctrl d)(seqno_idx := seq_ctrl skb)\<rparr>, False)
         else (d, False))"


section \<open>Sending\<close>

text \<open>The handlers of the ciphers that number packets, with the cipher of the kernel as an argument; the others have keys of their own
  and are not part of this path. The length of the MIC.\<close>

definition mic_len_of :: "cipher_suite \<Rightarrow> nat" where
  "mic_len_of c = (if c = CIPHER_CCMP then 8 else 16)"

definition tx_encrypt :: "(cipher_suite \<Rightarrow> aead_enc) \<Rightarrow> cipher_suite \<Rightarrow> aead_key \<Rightarrow> tx_skb list \<Rightarrow> aead_key \<times> tx_skb list option" where
  "tx_encrypt aenc c k skbs =
     (if c = CIPHER_CCMP then ieee80211_crypto_ccmp_encrypt (aenc c) True 8 k skbs
      else if c = CIPHER_CCMP_256 then ieee80211_crypto_ccmp_encrypt (aenc c) True 16 k skbs
      else if c = CIPHER_GCMP \<or> c = CIPHER_GCMP_256 then ieee80211_crypto_gcmp_encrypt (aenc c) True k skbs
      else (k, None))"

text \<open>What \<open>ieee80211_tx_prepare\<close> decides: \<open>IEEE80211_TX_CTL_DONTFRAG\<close>, if it was not set already (\<open>dontfrag\<close>), for group frames, for frames below
  the threshold and for those of a block-ack session (\<open>ampdu\<close>).\<close>

definition tx_dontfrag :: "bool \<Rightarrow> bool \<Rightarrow> u32 \<Rightarrow> u8 list \<Rightarrow> bool" where
  "tx_dontfrag dontfrag ampdu thr skb \<longleftrightarrow> dontfrag \<or> is_multicast_ether_addr (addr1 skb) \<or> length skb + 4 \<le> unat thr \<or> ampdu"

text \<open>\<open>invoke_tx_handlers_late\<close> for a frame with such a key, outside of a block-ack session and sent for the first time: number, fragment (\<open>thr\<close> is the fragmentation threshold, which the handler
  reads as a signed number, \<open>allocs\<close> how many buffers can be had), encrypt. The buffers have the room that is reserved for the encryption.\<close>

definition tx_handlers_late ::
  "(cipher_suite \<Rightarrow> aead_enc) \<Rightarrow> cipher_suite \<Rightarrow> seq_env \<Rightarrow> u32 \<Rightarrow> nat \<Rightarrow> nat \<Rightarrow> nat \<Rightarrow> seq_state \<Rightarrow> aead_key \<Rightarrow> u8 list \<Rightarrow>
   (seq_state \<times> aead_key \<times> u8 list list) option"
where
  "tx_handlers_late aenc c e thr allocs head tail s k skb =
     (let (skb, s) = ieee80211_tx_h_sequence e s skb
      in case ieee80211_tx_h_fragment (tx_dontfrag False False thr skb) False False (sint thr) allocs skb of
           TX_CONTINUE skbs \<Rightarrow>
             (case tx_encrypt aenc c k (map (\<lambda>d. \<lparr>tx_data = d, headroom = head, tailroom = tail, hw_key = None\<rparr>) skbs) of
                (k, Some skbs) \<Rightarrow> Some (s, k, map tx_data skbs)
              | (k, None) \<Rightarrow> None)
         | _ \<Rightarrow> None)"

text \<open>A frame from \<open>ieee80211_xmit\<close> on, for a key that is not in the hardware: the QoS field, the key (\<open>invoke_tx_handlers_early\<close>, whose other
  handlers save power or look at other frames) and the handlers above. \<open>ks\<close> are the keys by their identity.\<close>

definition xmit_data ::
  "(cipher_suite \<Rightarrow> aead_enc) \<Rightarrow> tx_keys \<Rightarrow> bool \<Rightarrow> u16 \<Rightarrow> u32 \<Rightarrow> seq_env \<Rightarrow> u32 \<Rightarrow> nat \<Rightarrow> nat \<Rightarrow> nat \<Rightarrow> seq_state \<Rightarrow> (nat \<Rightarrow> aead_key) \<Rightarrow> u8 list \<Rightarrow>
   (seq_state \<times> sel_key \<times> (nat \<Rightarrow> aead_key) \<times> u8 list list) option"
where
  "xmit_data aenc t control_port noack_map priority e thr allocs head tail s ks skb =
     (let skb = fst (ieee80211_set_qos_hdr False False noack_map priority skb)
      in case ieee80211_tx_h_select_key t False control_port skb of
           TxKey (Some k) False \<Rightarrow>
             map_option (\<lambda>(s, key, skbs). (s, k, ks(sk_id k := key), skbs))
               (tx_handlers_late aenc (sk_cipher k) e thr allocs head tail s (ks (sk_id k)) skb)
         | _ \<Rightarrow> None)"


section \<open>Receiving\<close>

definition rx_decrypt :: "(cipher_suite \<Rightarrow> aead_dec) \<Rightarrow> cipher_suite \<Rightarrow> rx_data \<Rightarrow> aead_key \<Rightarrow> aead_key \<times> u8 list option \<times> rx_result" where
  "rx_decrypt adec c rx k =
     (if c = CIPHER_CCMP then ieee80211_crypto_ccmp_decrypt (adec c) 8 rx k
      else if c = CIPHER_CCMP_256 then ieee80211_crypto_ccmp_decrypt (adec c) 16 rx k
      else ieee80211_crypto_gcmp_decrypt (adec c) rx k)"

text \<open>The state of the receiver: for retransmissions, of its keys (by their identity) and of the fragment cache of the sender.\<close>

record rx_chain =
  rc_dup :: dup_state
  rc_keys :: "nat \<Rightarrow> aead_key"
  rc_cache :: fragment_cache

record rx_env =
  re_dup :: dup_env
  re_ta :: "u8 list"
  re_keys :: rx_keys
  re_color :: "nat \<Rightarrow> u32"
  re_iface :: rx_iface
  re_event :: bool
  re_tailroom :: nat

datatype chain_result =
    ChDuplicate
  | ChKeyDrop
  | ChDecryptDrop rx_drop
  | ChOtherCipher                  \<comment> \<open>given to the handler of a cipher that is not part of this path\<close>
  | ChQueued                       \<comment> \<open>a fragment\<close>
  | ChDefragDrop
  | ChAmsdu "u8 list"              \<comment> \<open>given to \<open>ieee80211_rx_h_amsdu\<close>\<close>
  | ChData data_result

text \<open>From defragmentation on, for a frame \<open>skb\<close> with the key \<open>key\<close>, decrypted or not, and its packet number.\<close>

definition rx_after_decrypt ::
  "rx_env \<Rightarrow> rx_qos \<Rightarrow> sel_key option \<Rightarrow> bool \<Rightarrow> u8 list \<Rightarrow> u8 list \<Rightarrow> u64 \<Rightarrow> rx_chain \<Rightarrow> rx_chain \<times> chain_result"
where
  "rx_after_decrypt env q key decrypted pn skb jiffies st =
     (let f = \<lparr>rf_data = skb,
               rf_key = map_option (\<lambda>k. \<lparr>key_seq_pn = aead_cipher (sk_cipher k), key_color = re_color env (sk_id k),
                                        key_rx_pn = rx_pn (rc_keys st (sk_id k)) ! pq_security_idx q\<rparr>) key,
               rf_pn = pn, rf_seqno_idx = of_nat (pq_seqno_idx q), rf_decrypted = decrypted, rf_tailroom = re_tailroom env,
               rf_linearize_ok = True, rf_expand_ok = True\<rparr>;
          (cache, res) = ieee80211_rx_h_defragment (rc_cache st) f jiffies;
          st = st\<lparr>rc_cache := cache\<rparr>
      in case res of
           RX_CONTINUE d \<Rightarrow>
             if pq_amsdu q then (st, ChAmsdu d)
             else (st, ChData (ieee80211_rx_h_data Some (re_iface env) (re_keys env) (re_event env) decrypted key d))
         | RX_QUEUED \<Rightarrow> (st, ChQueued)
         | _ \<Rightarrow> (st, ChDefragDrop))"

definition rx_handlers ::
  "(cipher_suite \<Rightarrow> aead_dec) \<Rightarrow> rx_env \<Rightarrow> rx_chain \<Rightarrow> u8 list \<Rightarrow> u64 \<Rightarrow> rx_chain \<times> chain_result"
where
  "rx_handlers adec env st skb jiffies =
     (let q = ieee80211_parse_qos skb;
          (dup, drp) = ieee80211_rx_h_check_dup (re_dup env) (pq_seqno_idx q) (rc_dup st) skb;
          st = st\<lparr>rc_dup := dup\<rparr>
      in if drp then (st, ChDuplicate)
         else case rx_select_key (re_keys env) False False skb of
           None \<Rightarrow> (st, ChKeyDrop)
         | Some (RxSelDrop _) \<Rightarrow> (st, ChKeyDrop)
         | Some (RxSelContinue key) \<Rightarrow> rx_after_decrypt env q key False (replicate 6 0) skb jiffies st
         | Some (RxSelDecrypt k) \<Rightarrow>
             if \<not> aead_cipher (sk_cipher k) then (st, ChOtherCipher)
             else
             (case rx_decrypt adec (sk_cipher k) (plain_rx (re_ta env) skb (pq_security_idx q)) (rc_keys st (sk_id k)) of
                (key', pn, res) \<Rightarrow>
                  let st = st\<lparr>rc_keys := (rc_keys st)(sk_id k := key')\<rparr>
                  in (case res of
                        RxDrop d \<Rightarrow> (st, ChDecryptDrop d)
                      | RxContinue d \<Rightarrow> rx_after_decrypt env q (Some k) True (case pn of Some p \<Rightarrow> p | None \<Rightarrow> replicate 6 0) d jiffies st)))"

text \<open>All frames of a list, received at the times given with them.\<close>

fun rx_run :: "(cipher_suite \<Rightarrow> aead_dec) \<Rightarrow> rx_env \<Rightarrow> rx_chain \<Rightarrow> (u8 list \<times> u64) list \<Rightarrow> chain_result list" where
  "rx_run adec env st [] = []"
| "rx_run adec env st ((skb, jiffies) # fs) =
     (case rx_handlers adec env st skb jiffies of (st, res) \<Rightarrow> res # rx_run adec env st fs)"

end
