(* ===== verification/DataPathProps.thy ===== *)
theory DataPathProps
  imports DataPath EtherProps DefragTx WpaProps RxKeysProps
begin

text \<open>
  The path of a data frame from end to end: what the handlers of the sender do to it and those of the receiver undo.
\<close>


section \<open>Frame control\<close>

lemma plain_fc_cases:
  assumes "plain_fc fc"
  obtains "fc = 0x0008" | "fc = 0x0108" | "fc = 0x0208" | "fc = 0x0308" | "fc = 0x0088" | "fc = 0x0188" | "fc = 0x0288" | "fc = 0x0388"
  using assms by (auto simp: plain_fc_def)

lemmas fc_unfold = ieee80211_is_data_present_def ieee80211_hdrlen_def fc_defs ieee80211_has_a4_def ieee80211_has_tods_def ieee80211_has_fromds_def
  ieee80211_has_retry_def ieee80211_has_protected_def ieee80211_has_morefrags_def ieee80211_is_any_nullfunc_def ieee80211_is_nullfunc_def
  ieee80211_is_qos_nullfunc_def

lemma plain_bits:
  assumes "plain_fc fc" "m \<in> {0, 0x400, 0x4000, 0x4400, 0x800, 0xC00, 0x4800, 0x4C00}" "f = fc OR m"
  shows "ieee80211_is_data f" "ieee80211_is_data_present f" "\<not> ieee80211_is_ctl f" "\<not> ieee80211_is_ext f" "\<not> ieee80211_is_mgmt f" "\<not> ieee80211_is_any_nullfunc f"
    "\<not> ieee80211_is_qos_nullfunc f"
    "ieee80211_hdrlen f = ieee80211_hdrlen fc" "ieee80211_is_data_qos f = ieee80211_is_data_qos fc" "ieee80211_has_a4 f = ieee80211_has_a4 fc"
    "ieee80211_has_tods f = ieee80211_has_tods fc" "ieee80211_has_fromds f = ieee80211_has_fromds fc"
    "f AND (IEEE80211_FCTL_TODS OR IEEE80211_FCTL_FROMDS) = fc AND (IEEE80211_FCTL_TODS OR IEEE80211_FCTL_FROMDS)"
    "24 \<le> ieee80211_hdrlen fc" "ieee80211_hdrlen fc \<le> 32" "ieee80211_has_protected f = (m AND 0x4000 \<noteq> 0)" "ieee80211_has_morefrags f = (m AND 0x400 \<noteq> 0)"
    "ieee80211_has_retry f = (m AND 0x800 \<noteq> 0)" "f AND NOT 0x400 = fc OR (m AND NOT 0x400)"
  unfolding assms(3) by (rule plain_fc_cases [OF assms(1)]; insert assms(2); elim insertE emptyE; simp add: fc_unfold)+


section \<open>Numbering\<close>

definition seq_wf :: "seq_state \<Rightarrow> bool" where
  "seq_wf s \<longleftrightarrow> sq_sequence_number s AND IEEE80211_SCTL_FRAG = 0 \<and> (\<forall>tid. sq_tid_seq s tid AND IEEE80211_SCTL_FRAG = 0)"

definition seq_env_ok :: "seq_env \<Rightarrow> bool" where
  "seq_env_ok e \<longleftrightarrow> qe_type e \<noteq> NL80211_IFTYPE_MONITOR \<and> \<not> qe_no_seqno e \<and> qe_sta e"

lemma set_seq_ctrl_view:
  assumes "24 \<le> length skb"
  shows "length (set_seq_ctrl w skb) = length skb" "frame_control (set_seq_ctrl w skb) = frame_control skb" "addr1 (set_seq_ctrl w skb) = addr1 skb"
    "addr2 (set_seq_ctrl w skb) = addr2 skb" "seq_ctrl (set_seq_ctrl w skb) = w" "drop 24 (set_seq_ctrl w skb) = drop 24 skb"
    "take 18 (drop 4 (set_seq_ctrl w skb)) = take 18 (drop 4 skb)"
proof -
  have l: "length (take 22 skb) = 22" using assms by simp
  show "length (set_seq_ctrl w skb) = length skb" "drop 24 (set_seq_ctrl w skb) = drop 24 skb" using assms by (simp_all add: set_seq_ctrl_def)
  show "frame_control (set_seq_ctrl w skb) = frame_control skb" using assms by (simp add: set_seq_ctrl_def frame_control_def get_le16_def nth_append)
  show "seq_ctrl (set_seq_ctrl w skb) = w"
    using assms by (simp add: set_seq_ctrl_def seq_ctrl_def get_le16_def nth_append put_le16_def le16_put_le16)
  show "addr1 (set_seq_ctrl w skb) = addr1 skb" "addr2 (set_seq_ctrl w skb) = addr2 skb" "take 18 (drop 4 (set_seq_ctrl w skb)) = take 18 (drop 4 skb)"
    using assms by (simp_all add: set_seq_ctrl_def addr1_def addr2_def drop_take min_def)
qed

lemma tx_sequence_numbers:
  assumes "plain_fc (frame_control skb)" "\<not> is_multicast_ether_addr (addr1 skb)" "seq_env_ok e" "seq_wf s"
  obtains w s' where "ieee80211_tx_h_sequence e s skb = (set_seq_ctrl w skb, s')" "w AND IEEE80211_SCTL_FRAG = 0"
proof -
  note b = plain_bits [OF assms(1), of 0 "frame_control skb", simplified]
  have "\<exists>w s'. ieee80211_tx_h_sequence e s skb = (set_seq_ctrl w skb, s') \<and> w AND IEEE80211_SCTL_FRAG = 0"
    using assms(2-4) b unfolding ieee80211_tx_h_sequence_def Let_def seq_env_ok_def seq_wf_def ieee80211_tx_next_seq_def by auto
  then show ?thesis using that by blast
qed


section \<open>Conversion\<close>

text \<open>The conversion to Ethernet reads of the header the addresses and the type: sequence number, retry, more-fragments and protected do not matter.\<close>

lemma to_8023_header_bits:
  assumes fc: "plain_fc (frame_control f)" "m \<in> {0, 0x400, 0x4000, 0x4400}" "frame_control g = frame_control f OR m"
    and eq: "length g = length f" "take 18 (drop 4 g) = take 18 (drop 4 f)"
      "ieee80211_has_a4 (frame_control f) \<longrightarrow> addr4 g = addr4 f" "drop (ieee80211_hdrlen (frame_control f)) g = drop (ieee80211_hdrlen (frame_control f)) f"
  shows "ieee80211_data_to_8023 g addr ift = ieee80211_data_to_8023 f addr ift"
proof -
  have m: "m \<in> {0, 0x400, 0x4000, 0x4400, 0x800, 0xC00, 0x4800, 0x4C00}" using fc(2) by auto
  note b = plain_bits [OF fc(1) m refl, folded fc(3)] and c = plain_bits [OF fc(1), of 0 "frame_control f", simplified]
  have part: "take k (drop i (drop 4 g)) = take k (drop i (drop 4 f))" if "i + k \<le> 18" for i k
  proof -
    have "take k (drop i (drop 4 x)) = take k (drop i (take 18 (drop 4 x)))" for x :: "u8 list" using that by (simp add: drop_take min_def)
    then show ?thesis using eq(2) by simp
  qed
  have "addr1 g = addr1 f" "addr2 g = addr2 f" "addr3 g = addr3 f"
    using part [of 0 6] part [of 6 6] part [of 12 6] by (simp_all add: addr1_def addr2_def addr3_def)
  then have a: "ieee80211_get_DA g = ieee80211_get_DA f" "ieee80211_get_SA g = ieee80211_get_SA f"
    using b eq(3) by (simp_all add: ieee80211_get_DA_def ieee80211_get_SA_def)
  have d: "drop (8 + ieee80211_hdrlen (frame_control f)) x = drop 8 (drop (ieee80211_hdrlen (frame_control f)) x)" for x :: "u8 list" by (simp add: add.commute)
  have ds: "ds_allowed (frame_control g) ift da sa addr = ds_allowed (frame_control f) ift da sa addr" for da sa
    unfolding ds_allowed_def Let_def b(13) ..
  show ?thesis
    unfolding ieee80211_data_to_8023_def ieee80211_data_to_8023_exthdr_def Let_def a ds eq(1) b(8)
    using b(2) c(2) eq(4) d [of f] d [of g] by (simp add: add.commute split: option.split)
qed


section \<open>Protection\<close>

definition enc_one :: "(cipher_suite \<Rightarrow> aead_enc) \<Rightarrow> cipher_suite \<Rightarrow> aead_key \<Rightarrow> tx_skb \<Rightarrow> aead_key \<times> tx_skb option" where
  "enc_one aenc c = (if c = CIPHER_CCMP then ccmp_encrypt_skb (aenc c) True 8 else if c = CIPHER_CCMP_256 then ccmp_encrypt_skb (aenc c) True 16
     else gcmp_encrypt_skb (aenc c) True)"

definition link_law :: "(cipher_suite \<Rightarrow> aead_enc) \<Rightarrow> (cipher_suite \<Rightarrow> aead_dec) \<Rightarrow> cipher_suite \<Rightarrow> bool" where
  "link_law aenc adec c \<longleftrightarrow> aead_law (aenc c) (adec c) (mic_len_of c) \<and> aead_total (aenc c)"

lemma tx_encrypt_all: "aead_cipher c \<Longrightarrow> tx_encrypt aenc c k skbs = encrypt_all (enc_one aenc c) k (ieee80211_tx_set_protected skbs)"
  by (auto simp: tx_encrypt_def enc_one_def aead_cipher_def ieee80211_crypto_ccmp_encrypt_def ieee80211_crypto_gcmp_encrypt_def)

lemma enc_one_restores:
  assumes "aead_cipher c" "link_law aenc adec c" "protectable skb" "enc_one aenc c k skb = (k', Some skb')"
    and "wf_aead_key r" "q < 17" "aead_counter r q < int (unat (tx_pn k + 1) mod 2 ^ 48)"
    and "KEY_FLAG_SPP_AMSDU (conf_flags r) = KEY_FLAG_SPP_AMSDU (conf_flags k)"
  shows "k' = k\<lparr>tx_pn := tx_pn k + 1\<rparr> \<and>
     rx_decrypt adec c (plain_rx ta (tx_data skb') q) r =
       (r\<lparr>rx_pn := (rx_pn r)[q := pn_of_u64 (tx_pn k + 1)]\<rparr>,
        if ieee80211_is_frag (tx_data skb) then Some (pn_of_u64 (tx_pn k + 1)) else None, RxContinue (tx_data skb))"
proof -
  have "aead_law (aenc c) (adec c) (mic_len_of c)" using assms(2) by (simp add: link_law_def)
  note cc = ccmp_restores [OF this assms(3) _ assms(5-8)] and gc = gcmp_restores [OF _ assms(3) _ assms(5-8)]
  consider "c = CIPHER_CCMP" "mic_len_of c = 8" "enc_one aenc c = ccmp_encrypt_skb (aenc c) True 8" "rx_decrypt adec c = ieee80211_crypto_ccmp_decrypt (adec c) 8"
    | "c = CIPHER_CCMP_256" "mic_len_of c = 16" "enc_one aenc c = ccmp_encrypt_skb (aenc c) True 16" "rx_decrypt adec c = ieee80211_crypto_ccmp_decrypt (adec c) 16"
    | "mic_len_of c = 16" "enc_one aenc c = gcmp_encrypt_skb (aenc c) True" "rx_decrypt adec c = ieee80211_crypto_gcmp_decrypt (adec c)"
    using assms(1) by (auto simp: aead_cipher_def mic_len_of_def enc_one_def rx_decrypt_def [abs_def])
  then show ?thesis
  proof cases
    case 1
    show ?thesis using cc assms(4) unfolding 1(2-4) by blast
  next
    case 2
    show ?thesis using cc assms(4) unfolding 2(2-4) by blast
  next
    case 3
    show ?thesis using gc \<open>aead_law _ _ _\<close> assms(4) unfolding 3 by blast
  qed
qed

lemma enc_one_form:
  assumes "aead_cipher c" "protectable skb" "enc_one aenc c k skb = (k', Some skb')"
  shows "\<exists>rest. tx_data skb' = take (ieee80211_hdrlen (frame_control (tx_data skb))) (tx_data skb) @ ccmp_pn2hdr (pn_of_u64 (tx_pn k + 1)) (keyidx k) @ rest"
proof -
  have p: "hw_key skb = None" "ieee80211_hdrlen (frame_control (tx_data skb)) < length (tx_data skb)" using assms(2) by (simp_all add: protectable_def)
  have gap: "n \<le> length d \<Longrightarrow> take (n + 8) (take n d @ ccmp_pn2hdr pn i @ drop n d) = take n d @ ccmp_pn2hdr pn i" for n d pn i by simp
  show ?thesis
  proof (cases "c = CIPHER_CCMP \<or> c = CIPHER_CCMP_256")
    case True
    then obtain mic_len where "ccmp_encrypt_skb (aenc c) True mic_len k skb = (k', Some skb')" using assms(3) by (auto simp: enc_one_def split: if_splits)
    from ccmp_encrypt_form [OF this p(1)] p(2) show ?thesis by (fastforce simp: gap)
  next
    case False
    then have "gcmp_encrypt_skb (aenc c) True k skb = (k', Some skb')" using assms(3) by (auto simp: enc_one_def)
    from gcmp_encrypt_form [OF this p(1)] p(2) show ?thesis by (fastforce simp: gap)
  qed
qed


section \<open>On the air\<close>

text \<open>A frame whose header is that of \<open>D\<close>, and its retransmission.\<close>

definition retry_of :: "u8 list \<Rightarrow> u8 list" where
  "retry_of w = set_fc (frame_control w OR IEEE80211_FCTL_RETRY) w"

definition air :: "u16 \<Rightarrow> u16 \<Rightarrow> u8 list \<Rightarrow> bool" where
  "air fc m D \<longleftrightarrow> plain_fc fc \<and> m \<in> {0x4000, 0x4400} \<and> frame_control D = fc OR m \<and> ieee80211_hdrlen fc < length D \<and>
     \<not> is_multicast_ether_addr (addr1 D)"

lemma air_bits:
  assumes "air fc m D"
  shows "plain_fc fc" "m \<in> {0, 0x400, 0x4000, 0x4400, 0x800, 0xC00, 0x4800, 0x4C00}" "frame_control D = fc OR m"
    "m OR 0x800 \<in> {0, 0x400, 0x4000, 0x4400, 0x800, 0xC00, 0x4800, 0x4C00}" "m AND 0x800 = 0" "m AND 0x4000 \<noteq> 0"
    "ieee80211_hdrlen fc < length D" "\<not> is_multicast_ether_addr (addr1 D)"
  using assms by (auto simp: air_def)

lemma plain_qos: "plain_fc fc \<Longrightarrow> ieee80211_is_data_qos fc \<Longrightarrow> (if ieee80211_has_a4 fc then 30 else 24) < ieee80211_hdrlen fc"
  by (erule plain_fc_cases) (simp_all add: fc_unfold)

lemma wire_view:
  assumes a: "air fc m D" and w: "W = take (ieee80211_hdrlen (frame_control D)) D @ r"
  shows "frame_control W = fc OR m" "addr1 W = addr1 D" "seq_ctrl W = seq_ctrl D" "ieee80211_parse_qos W = ieee80211_parse_qos D" "24 \<le> length W"
proof -
  note b = air_bits [OF a]
  note p = plain_bits [OF b(1,2,3)]
  let ?n = "ieee80211_hdrlen (frame_control D)"
  have n: "24 \<le> ?n" "?n \<le> length D" using p(8,14) b(7) by simp_all
  show fc: "frame_control W = fc OR m" "addr1 W = addr1 D" "seq_ctrl W = seq_ctrl D" using hdr_prefix_fields [OF n, of r] b(3) w by simp_all
  show "24 \<le> length W" using n w by simp
  have "ieee80211_get_qos_ctl W ! 0 = ieee80211_get_qos_ctl D ! 0" if "ieee80211_is_data_qos fc"
    using plain_qos [OF b(1) that] p(8,10) b(3) n(2) unfolding ieee80211_get_qos_ctl_def fc(1) by (simp add: w nth_append split: if_splits)
  then show "ieee80211_parse_qos W = ieee80211_parse_qos D" using p(9,5) b(3) by (simp add: ieee80211_parse_qos_def Let_def fc(1))
qed

lemma retry_view:
  assumes a: "air fc m D" and w: "W = take (ieee80211_hdrlen (frame_control D)) D @ r"
  shows "frame_control (retry_of W) = fc OR (m OR 0x800)" "addr1 (retry_of W) = addr1 D" "seq_ctrl (retry_of W) = seq_ctrl D"
    "ieee80211_parse_qos (retry_of W) = ieee80211_parse_qos D" "24 \<le> length (retry_of W)"
proof -
  note v = wire_view [OF a w] and b = air_bits [OF a]
  have fc: "frame_control (retry_of W) = fc OR (m OR 0x800)" by (simp add: retry_of_def v(1) or.assoc)
  note p = plain_bits [OF b(1,2) refl] and q = plain_bits [OF b(1,4) refl]
  show "frame_control (retry_of W) = fc OR (m OR 0x800)" by (rule fc)
  show "addr1 (retry_of W) = addr1 D" "24 \<le> length (retry_of W)" using v(2,5) by (simp_all add: retry_of_def addr1_def)
  have "seq_ctrl (set_fc x W) = seq_ctrl W" for x using v(5) by (simp add: seq_ctrl_def set_fc_def get_le16_def nth_append)
  then show "seq_ctrl (retry_of W) = seq_ctrl D" using v(3) by (simp add: retry_of_def)
  have "ieee80211_get_qos_ctl (retry_of W) = ieee80211_get_qos_ctl W"
    using p(10) q(10) by (simp add: ieee80211_get_qos_ctl_def fc v(1)) (simp add: retry_of_def)
  then show "ieee80211_parse_qos (retry_of W) = ieee80211_parse_qos D"
    unfolding v(4) [symmetric] using p(5,9) q(5,9) by (simp add: ieee80211_parse_qos_def Let_def fc v(1))
qed

text \<open>A first copy passes, and is then the last frame seen; its retransmissions do not pass.\<close>

definition dup_env_ok :: "dup_env \<Rightarrow> bool" where
  "dup_env_ok e \<longleftrightarrow> \<not> de_validated e \<and> \<not> de_amsdu_more e \<and> de_sta e"

lemma dup_first:
  assumes "air fc m D" "W = take (ieee80211_hdrlen (frame_control D)) D @ r" "dup_env_ok e"
  shows "ieee80211_rx_h_check_dup e i d W = (d\<lparr>du_last_seq_ctrl := (du_last_seq_ctrl d)(i := seq_ctrl D)\<rparr>, False)"
proof -
  note v = wire_view [OF assms(1,2)] and b = air_bits [OF assms(1)]
  note p = plain_bits [OF b(1,2) refl]
  show ?thesis using assms(3) v p b by (simp add: ieee80211_rx_h_check_dup_def Let_def dup_env_ok_def)
qed

lemma dup_again:
  assumes "air fc m D" "W = take (ieee80211_hdrlen (frame_control D)) D @ r" "dup_env_ok e" "du_last_seq_ctrl d i = seq_ctrl D"
  shows "ieee80211_rx_h_check_dup e i d (retry_of W) = (d, True)"
proof -
  note v = retry_view [OF assms(1,2)] and b = air_bits [OF assms(1)]
  note p = plain_bits [OF b(1,4) refl]
  have "(m OR 0x800) AND 0x800 \<noteq> 0" using b(4) by auto
  then show ?thesis using assms(3,4) v p b(8) by (simp add: ieee80211_rx_h_check_dup_def Let_def dup_env_ok_def)
qed

end
