(* ===== verification/DataPathRun.thy ===== *)
theory DataPathRun
  imports DataPathProps
begin

text \<open>
  Whole sequences of frames through the handlers of the receiver: each fragment of a protected frame is decrypted and given to the
  defragmentation once, however often it is retransmitted.
\<close>


section \<open>The key\<close>

text \<open>The receiver has the pairwise key \<open>sk\<close> of an authorized sender under the index that the sender writes.\<close>

definition rx_ready :: "rx_env \<Rightarrow> sel_key \<Rightarrow> u8 \<Rightarrow> bool" where
  "rx_ready env sk idx \<longleftrightarrow>
     dup_env_ok (re_dup env) \<and> rx_keys_wf (re_keys env) \<and> aead_cipher (sk_cipher sk) \<and> \<not> sk_tainted sk \<and> unat idx < NUM_DEFAULT_KEYS \<and>
     (\<exists>s. rk_sta (re_keys env) = Some s \<and> rs_ptk s ! rs_ptk_idx s \<noteq> None \<and> rs_ptk s ! unat idx = Some sk \<and> rs_authorized s)"

lemma keyid_bits: "unat (i :: u8) < 4 \<Longrightarrow> drop_bit 6 (push_bit 6 i) = i"
proof -
  assume "unat i < 4"
  then have "unat i \<in> {0, 1, 2, 3}" by auto
  then have "i \<in> {0, 1, 2, 3}" by (auto simp: word_unat_eq_iff)
  then show ?thesis by auto
qed

lemma select_ptk:
  assumes r: "rx_ready env sk i" and a: "air fc m D" and w: "W = take (ieee80211_hdrlen (frame_control D)) D @ ccmp_pn2hdr pn i @ rest"
  shows "rx_select_key (re_keys env) False False W = Some (RxSelDecrypt sk)"
proof -
  note v = wire_view [OF a w] and b = air_bits [OF a]
  note p = plain_bits [OF b(1,2) refl]
  obtain s where s: "rk_sta (re_keys env) = Some s" "rs_ptk s ! rs_ptk_idx s \<noteq> None" "rs_ptk s ! unat i = Some sk"
    using r by (auto simp: rx_ready_def)
  have i: "unat i < 4" "\<not> sk_tainted sk" using r by (simp_all add: rx_ready_def)
  have wf: "length (rs_ptk s) = 4" "rs_ptk_idx s < 4" using r s(1) by (auto simp: rx_ready_def rx_keys_wf_def)
  have n: "ieee80211_hdrlen (frame_control D) = ieee80211_hdrlen fc" using b(3) p(8) by simp
  have "W ! (ieee80211_hdrlen fc + 3) = 0x20 OR push_bit 6 i" using b(7) by (simp add: w n nth_append ccmp_pn2hdr_def)
  moreover have "ieee80211_hdrlen fc + 4 \<le> length W" using b(7) by (simp add: w n ccmp_pn2hdr_def)
  ultimately have "ieee80211_get_keyid W = int (unat i)"
    using p(8) by (simp add: ieee80211_get_keyid_def v(1) Let_def keyid_bits [OF i(1)])
  then show ?thesis
    using s i wf p(4,16) b(6,8) unfolding rx_select_key_def Let_def v(1,2) by (auto simp: key_at_in rx_use_key_def)
qed


section \<open>One frame\<close>

lemma data_parse_idx:
  assumes "air fc m D"
  shows "pq_security_idx (ieee80211_parse_qos D) < 17"
proof -
  note b = air_bits [OF assms]
  note p = plain_bits [OF b(1,2,3)]
  have "unat (x AND 0xF :: u8) < 17" for x
  proof -
    have "x AND 0xF \<le> 0xF" by (rule word_and_le1)
    then show ?thesis by (simp add: word_le_nat_alt)
  qed
  then show ?thesis using p(5) by (simp add: ieee80211_parse_qos_def Let_def)
qed

text \<open>The state after the first copy of a frame, but for the fragment cache.\<close>

definition seen :: "sel_key \<Rightarrow> rx_qos \<Rightarrow> u64 \<Rightarrow> u8 list \<Rightarrow> rx_chain \<Rightarrow> rx_chain" where
  "seen sk q p D st =
     st\<lparr>rc_dup := (rc_dup st)\<lparr>du_last_seq_ctrl := (du_last_seq_ctrl (rc_dup st))(pq_seqno_idx q := seq_ctrl D)\<rparr>,
        rc_keys := (rc_keys st)(sk_id sk := (rc_keys st (sk_id sk))\<lparr>rx_pn := (rx_pn (rc_keys st (sk_id sk)))[pq_security_idx q := pn_of_u64 p]\<rparr>)\<rparr>"

text \<open>The counter of the receiver's key is behind that of the sender's, and both are of one kind.\<close>

definition keys_fit :: "rx_qos \<Rightarrow> aead_key \<Rightarrow> aead_key \<Rightarrow> bool" where
  "keys_fit q r k \<longleftrightarrow> wf_aead_key r \<and> aead_counter r (pq_security_idx q) \<le> int (unat (tx_pn k)) \<and>
     KEY_FLAG_SPP_AMSDU (conf_flags r) = KEY_FLAG_SPP_AMSDU (conf_flags k)"

lemma rx_one:
  assumes r: "rx_ready env sk (keyidx k)" and law: "link_law aenc adec (sk_cipher sk)"
    and p: "protectable skb" and a: "air fc m (tx_data skb)" and e: "enc_one aenc (sk_cipher sk) k skb = (k', Some skb')"
    and q: "q = ieee80211_parse_qos (tx_data skb)" and fit: "keys_fit q (rc_keys st (sk_id sk)) k" and small: "unat (tx_pn k) + 1 < 2 ^ 48"
  shows "rx_handlers adec env st (tx_data skb') t =
      rx_after_decrypt env q (Some sk) True (if ieee80211_is_frag (tx_data skb) then pn_of_u64 (tx_pn k + 1) else replicate 6 0) (tx_data skb) t
        (seen sk q (tx_pn k + 1) (tx_data skb) st)"
    and "k' = k\<lparr>tx_pn := tx_pn k + 1\<rparr>"
    and "\<exists>rest. tx_data skb' = take (ieee80211_hdrlen (frame_control (tx_data skb))) (tx_data skb) @ rest"
proof -
  have c: "aead_cipher (sk_cipher sk)" "dup_env_ok (re_dup env)" using r by (simp_all add: rx_ready_def)
  obtain rest where w: "tx_data skb' = take (ieee80211_hdrlen (frame_control (tx_data skb))) (tx_data skb) @ ccmp_pn2hdr (pn_of_u64 (tx_pn k + 1)) (keyidx k) @ rest"
    using enc_one_form [OF c(1) p e] by blast
  have "unat (tx_pn k + 1) = unat (tx_pn k) + 1" using small by (simp add: unat_word_ariths)
  then have "aead_counter (rc_keys st (sk_id sk)) (pq_security_idx q) < int (unat (tx_pn k + 1) mod 2 ^ 48)"
    using fit small by (simp add: keys_fit_def)
  note dec = enc_one_restores [OF c(1) law p e _ _ this, where ta = "re_ta env"]
  have d: "k' = k\<lparr>tx_pn := tx_pn k + 1\<rparr>" "rx_decrypt adec (sk_cipher sk) (plain_rx (re_ta env) (tx_data skb') (pq_security_idx q)) (rc_keys st (sk_id sk)) =
       ((rc_keys st (sk_id sk))\<lparr>rx_pn := (rx_pn (rc_keys st (sk_id sk)))[pq_security_idx q := pn_of_u64 (tx_pn k + 1)]\<rparr>,
        if ieee80211_is_frag (tx_data skb) then Some (pn_of_u64 (tx_pn k + 1)) else None, RxContinue (tx_data skb))"
    using dec fit data_parse_idx [OF a] q by (simp_all add: keys_fit_def)
  show "k' = k\<lparr>tx_pn := tx_pn k + 1\<rparr>" by (rule d(1))
  show "\<exists>rest. tx_data skb' = take (ieee80211_hdrlen (frame_control (tx_data skb))) (tx_data skb) @ rest" using w by blast
  note v = wire_view(4) [OF a w] and first = dup_first [OF a w c(2)]
  show "rx_handlers adec env st (tx_data skb') t =
      rx_after_decrypt env q (Some sk) True (if ieee80211_is_frag (tx_data skb) then pn_of_u64 (tx_pn k + 1) else replicate 6 0) (tx_data skb) t
        (seen sk q (tx_pn k + 1) (tx_data skb) st)"
    unfolding rx_handlers_def v q [symmetric] first Let_def prod.case select_ptk [OF r a w]
    using c(1) d(2) by (simp add: seen_def)
qed

lemma rx_again:
  assumes "air fc m D" "W = take (ieee80211_hdrlen (frame_control D)) D @ r" "dup_env_ok (re_dup env)"
    and "du_last_seq_ctrl (rc_dup st) (pq_seqno_idx (ieee80211_parse_qos D)) = seq_ctrl D"
  shows "rx_handlers adec env st (retry_of W) t = (st, ChDuplicate)"
  using retry_view(4) [OF assms(1,2)] dup_again [OF assms(1-4)] by (simp add: rx_handlers_def Let_def)

lemma rx_repeat:
  assumes "\<And>t. rx_handlers adec env st w t = (st, ChDuplicate)"
  shows "rx_run adec env st (map (\<lambda>t. (w, t)) ts @ fs) = replicate (length ts) ChDuplicate @ rx_run adec env st fs"
  using assms by (induction ts) simp_all


section \<open>Fragments and their retransmissions\<close>

text \<open>A fragment as the defragmentation gets it, with the packet number \<open>p\<close>.\<close>

definition decrypted_frag :: "rx_env \<Rightarrow> sel_key \<Rightarrow> rx_qos \<Rightarrow> u64 \<Rightarrow> u8 list \<Rightarrow> rx_frag" where
  "decrypted_frag env sk q p D =
     \<lparr>rf_data = D, rf_key = Some \<lparr>key_seq_pn = True, key_color = re_color env (sk_id sk), key_rx_pn = pn_of_u64 p\<rparr>,
      rf_pn = (if ieee80211_is_frag D then pn_of_u64 p else replicate 6 0), rf_seqno_idx = of_nat (pq_seqno_idx q), rf_decrypted = True,
      rf_tailroom = re_tailroom env, rf_linearize_ok = True, rf_expand_ok = True\<rparr>"

fun decrypted_frags :: "rx_env \<Rightarrow> sel_key \<Rightarrow> rx_qos \<Rightarrow> u64 \<Rightarrow> u8 list list \<Rightarrow> rx_frag list" where
  "decrypted_frags env sk q p [] = []"
| "decrypted_frags env sk q p (D # Ds) = decrypted_frag env sk q (p + 1) D # decrypted_frags env sk q (p + 1) Ds"

text \<open>What follows from the result of the defragmentation.\<close>

definition chain_of :: "rx_env \<Rightarrow> sel_key \<Rightarrow> defrag_result \<Rightarrow> chain_result" where
  "chain_of env sk res =
     (case res of
        RX_CONTINUE d \<Rightarrow> ChData (ieee80211_rx_h_data Some (re_iface env) (re_keys env) (re_event env) True (Some sk) d)
      | RX_QUEUED \<Rightarrow> ChQueued
      | _ \<Rightarrow> ChDefragDrop)"

lemma after_decrypt:
  assumes "\<not> pq_amsdu q" "aead_cipher (sk_cipher sk)" "pq_security_idx q < length (rx_pn (rc_keys st (sk_id sk)))"
  shows "rx_after_decrypt env q (Some sk) True (if ieee80211_is_frag D then pn_of_u64 p else replicate 6 0) D t (seen sk q p D st) =
     (case ieee80211_rx_h_defragment (rc_cache st) (decrypted_frag env sk q p D) t of
        (c, res) \<Rightarrow> ((seen sk q p D st)\<lparr>rc_cache := c\<rparr>, chain_of env sk res))"
proof -
  have "rc_cache (seen sk q p D st) = rc_cache st" "rx_pn (rc_keys (seen sk q p D st) (sk_id sk)) ! pq_security_idx q = pn_of_u64 p"
    using assms(3) by (simp_all add: seen_def)
  then show ?thesis
    using assms(1,2) by (simp add: rx_after_decrypt_def decrypted_frag_def chain_of_def Let_def split: prod.split defrag_result.split)
qed

lemma seen_fit:
  assumes "keys_fit q (rc_keys st (sk_id sk)) k" "pq_security_idx q < 17" "unat (tx_pn k) + 1 < 2 ^ 48"
  shows "keys_fit q (rc_keys ((seen sk q (tx_pn k + 1) D st)\<lparr>rc_cache := c\<rparr>) (sk_id sk)) (k\<lparr>tx_pn := tx_pn k + 1\<rparr>)"
proof -
  have "unat (tx_pn k + 1) = unat (tx_pn k) + 1" using assms(3) by (simp add: unat_word_ariths)
  then show ?thesis
    using assms by (auto simp: keys_fit_def seen_def wf_aead_key_def aead_counter_def pn_val_of_u64 dest!: set_update_subset_insert [THEN subsetD])
qed

text \<open>The frames \<open>Ws\<close> on the air: each is received first at a time \<open>t\<close>, and then again, as a retransmission, at the times \<open>ts\<close>.\<close>

fun on_air :: "u8 list list \<Rightarrow> (u64 \<times> u64 list) list \<Rightarrow> (u8 list \<times> u64) list" where
  "on_air (W # Ws) ((t, ts) # cs) = (W, t) # map (\<lambda>t. (retry_of W, t)) ts @ on_air Ws cs"
| "on_air _ _ = []"

fun with_copies :: "chain_result list \<Rightarrow> (u64 \<times> u64 list) list \<Rightarrow> chain_result list" where
  "with_copies (r # rs) ((t, ts) # cs) = r # replicate (length ts) ChDuplicate @ with_copies rs cs"
| "with_copies _ _ = []"

text \<open>Fragments of one frame, to be protected: equal headers but for the fragment number and the more-fragments bit.\<close>

definition same_msdu :: "u16 \<Rightarrow> rx_qos \<Rightarrow> tx_skb \<Rightarrow> bool" where
  "same_msdu fc q skb \<longleftrightarrow> protectable skb \<and> (\<exists>m. air fc m (tx_data skb)) \<and> ieee80211_parse_qos (tx_data skb) = q"

lemma rx_run_copies:
  assumes r: "rx_ready env sk (keyidx k)" and law: "link_law aenc adec (sk_cipher sk)" and am: "\<not> pq_amsdu q"
    and "\<forall>skb \<in> set skbs. same_msdu fc q skb" "encrypt_all (enc_one aenc (sk_cipher sk)) k skbs = (k', Some skbs')"
    and "keys_fit q (rc_keys st (sk_id sk)) k" "unat (tx_pn k) + length skbs < 2 ^ 48" "length cs = length skbs"
  shows "rx_run adec env st (on_air (map tx_data skbs') cs) =
     with_copies (map (chain_of env sk) (defrag_results (rc_cache st) (zip (decrypted_frags env sk q (tx_pn k) (map tx_data skbs)) (map fst cs)))) cs"
  using assms
proof (induction skbs arbitrary: k skbs' cs st)
  case (Cons skb skbs)
  obtain t ts cs' where cs: "cs = (t, ts) # cs'" "length cs' = length skbs" using Cons.prems(8) by (cases cs) auto
  obtain k1 skb1 skbs1 where e: "enc_one aenc (sk_cipher sk) k skb = (k1, Some skb1)"
      "encrypt_all (enc_one aenc (sk_cipher sk)) k1 skbs = (k', Some skbs1)" "skbs' = skb1 # skbs1"
    using Cons.prems(5) by (auto split: prod.splits option.splits)
  let ?D = "tx_data skb"
  obtain m where s: "protectable skb" "air fc m ?D" "q = ieee80211_parse_qos ?D" using Cons.prems(4) by (auto simp: same_msdu_def)
  have small: "unat (tx_pn k) + 1 < 2 ^ 48" using Cons.prems(7) by simp
  note one = rx_one [OF Cons.prems(1) law s(1,2) e(1) s(3) Cons.prems(6) small]
  obtain rest where w: "tx_data skb1 = take (ieee80211_hdrlen (frame_control ?D)) ?D @ rest" using one(3) by blast
  have idx: "pq_security_idx q < 17" "aead_cipher (sk_cipher sk)" "dup_env_ok (re_dup env)"
    using data_parse_idx [OF s(2)] s(3) r by (simp_all add: rx_ready_def)
  have len: "pq_security_idx q < length (rx_pn (rc_keys st (sk_id sk)))" using Cons.prems(6) idx(1) by (simp add: keys_fit_def wf_aead_key_def)
  obtain c res where dr: "ieee80211_rx_h_defragment (rc_cache st) (decrypted_frag env sk q (tx_pn k + 1) ?D) t = (c, res)" by fastforce
  define st1 where "st1 = (seen sk q (tx_pn k + 1) ?D st)\<lparr>rc_cache := c\<rparr>"
  have step: "rx_handlers adec env st (tx_data skb1) t = (st1, chain_of env sk res)"
    using one(1) [of t] after_decrypt [OF am idx(2) len, of env ?D "tx_pn k + 1" t] dr by (simp add: st1_def)
  have "rx_handlers adec env st1 (retry_of (tx_data skb1)) t' = (st1, ChDuplicate)" for t'
    by (rule rx_again [OF s(2) w idx(3)]) (simp add: st1_def seen_def s(3))
  note copies = rx_repeat [OF this]
  have k1: "tx_pn k1 = tx_pn k + 1" "keyidx k1 = keyidx k" "unat (tx_pn k + 1) = unat (tx_pn k) + 1" using one(2) small by (simp_all add: unat_word_ariths)
  have "rx_run adec env st1 (on_air (map tx_data skbs1) cs') =
      with_copies (map (chain_of env sk) (defrag_results (rc_cache st1) (zip (decrypted_frags env sk q (tx_pn k1) (map tx_data skbs)) (map fst cs')))) cs'"
  proof (rule Cons.IH [OF _ law am _ e(2)])
    show "keys_fit q (rc_keys st1 (sk_id sk)) k1" unfolding st1_def one(2) by (rule seen_fit [OF Cons.prems(6) idx(1) small])
  qed (use Cons.prems k1 cs in auto)
  then show ?case unfolding cs(1) e(3) using step copies dr k1(1) by (simp add: st1_def)
qed simp

end
