(* ===== verification/DataPathEnd.thy ===== *)
theory DataPathEnd
  imports DataPathRun
begin

text \<open>
  Both ends of the path: the fragments that the sender makes, as the receiver puts them together, and the Ethernet frame that it delivers.
\<close>


section \<open>Protected fragments\<close>

text \<open>The protected bit is set after the frame has been cut; the fragments are those of the frame with the bit set.\<close>

definition protect :: "u8 list \<Rightarrow> u8 list" where
  "protect d = set_fc (frame_control d OR IEEE80211_FCTL_PROTECTED) d"

lemma set_protected_data: "map tx_data (ieee80211_tx_set_protected skbs) = map protect (map tx_data skbs)"
  by (simp add: ieee80211_tx_set_protected_def protect_def)

lemma new_fc_protected: "new_fc l (fc OR IEEE80211_FCTL_PROTECTED) = new_fc l fc OR IEEE80211_FCTL_PROTECTED"
  by (cases l) (simp_all add: new_fc_def bit.conj_disj_distrib2 or.assoc)

lemma protect_view:
  assumes "24 \<le> length d"
  shows "length (protect d) = length d" "frame_control (protect d) = frame_control d OR IEEE80211_FCTL_PROTECTED" "addr1 (protect d) = addr1 d"
    "seq_ctrl (protect d) = seq_ctrl d" "2 \<le> i \<Longrightarrow> drop i (protect d) = drop i d"
proof -
  show "length (protect d) = length d" "frame_control (protect d) = frame_control d OR IEEE80211_FCTL_PROTECTED" "addr1 (protect d) = addr1 d"
    "2 \<le> i \<Longrightarrow> drop i (protect d) = drop i d" using assms by (simp_all add: protect_def addr1_def)
  show "seq_ctrl (protect d) = seq_ctrl d" using assms by (simp add: protect_def seq_ctrl_def set_fc_def get_le16_def nth_append)
qed

lemma protect_fragment:
  assumes "24 \<le> length h"
  shows "protect (update_fragment l i h) = update_fragment l i (protect h)"
proof -
  have "24 \<le> length (protect h)" using assms protect_view(1) by simp
  note u = update_fragment_form [OF assms] and v = update_fragment_form [OF this]
  have d: "take 20 (drop 2 (protect h)) = take 20 (drop 2 h)" "drop 24 (protect h) = drop 24 h" using protect_view(5) [OF assms] by simp_all
  have "protect (update_fragment l i h) = put_le16 (new_fc l (frame_control h) OR IEEE80211_FCTL_PROTECTED) @ drop 2 (update_fragment l i h)"
    unfolding protect_def set_fc_def update_fragment_fields(1) [OF assms] ..
  then show ?thesis unfolding v protect_view(2,4) [OF assms] new_fc_protected d by (simp add: u)
qed

lemma protect_fragments: "\<forall>h \<in> set hs. 24 \<le> length h \<Longrightarrow> map protect (update_fragments n hs) = update_fragments n (map protect hs)"
  by (induction n hs rule: update_fragments.induct) (simp_all add: protect_fragment)

lemma protect_prefix:
  assumes "24 \<le> n" "n \<le> length data"
  shows "protect (take n data @ p) = take n (protect data) @ p"
proof -
  have "frame_control (take n data @ p) = frame_control data" using hdr_prefix_fields(1) [OF assms] .
  moreover have "take n (put_le16 w @ drop 2 data) = put_le16 w @ drop 2 (take n data)" for w
    using assms by (simp add: drop_take)
  moreover have "drop 2 (take n data @ p) = drop 2 (take n data) @ p" using assms by simp
  ultimately show ?thesis unfolding protect_def set_fc_def by simp
qed

text \<open>The frame control field of a plain data frame, cut and protected.\<close>

lemma plain_new_fc: "plain_fc fc \<Longrightarrow> new_fc l fc OR IEEE80211_FCTL_PROTECTED = fc OR (if l then 0x4000 else 0x4400)"
  by (erule plain_fc_cases; cases l) (simp_all add: new_fc_def)


section \<open>Packet numbers\<close>

lemma pn_inc_of: "unat p + 1 < 2 ^ 48 \<Longrightarrow> pn_inc (pn_of_u64 p) = pn_of_u64 (p + 1)"
proof -
  assume s: "unat p + 1 < 2 ^ 48"
  then have "unat (p + 1) = unat p + 1" by (simp add: unat_word_ariths)
  moreover note pn_inc_is_successor [OF length_pn_of_u64, of p]
  ultimately show ?thesis using s pn_val_inj [of "pn_inc (pn_of_u64 p)" "pn_of_u64 (p + 1)"] by (simp add: pn_val_of_u64)
qed

lemma pn_inc_iter: "unat p + i < 2 ^ 48 \<Longrightarrow> (pn_inc ^^ i) (pn_of_u64 p) = pn_of_u64 (p + of_nat i)"
proof (induction i)
  case (Suc i)
  have "unat (p + of_nat i) = unat p + i" using Suc.prems by (simp add: unat_word_ariths unat_of_nat)
  then show ?case using Suc pn_inc_of [of "p + of_nat i"] by (simp add: algebra_simps)
qed simp

lemma decrypted_frags_nth:
  "length (decrypted_frags env sk q p Ds) = length Ds"
  "i < length Ds \<Longrightarrow> decrypted_frags env sk q p Ds ! i = decrypted_frag env sk q (p + 1 + of_nat i) (Ds ! i)"
proof -
  show "length (decrypted_frags env sk q p Ds) = length Ds" by (induction Ds arbitrary: p) simp_all
  show "i < length Ds \<Longrightarrow> decrypted_frags env sk q p Ds ! i = decrypted_frag env sk q (p + 1 + of_nat i) (Ds ! i)"
  proof (induction Ds arbitrary: p i)
    case (Cons D Ds)
    then show ?case by (cases i) (simp_all add: algebra_simps)
  qed simp
qed

lemma decrypted_frags_data: "map rf_data (decrypted_frags env sk q p Ds) = Ds"
  by (rule nth_equalityI) (simp_all add: decrypted_frags_nth decrypted_frag_def)

lemma decrypted_linked:
  assumes "\<forall>D \<in> set Ds. ieee80211_has_protected (frame_control D) \<and> ieee80211_is_frag D" "unat p + length Ds < 2 ^ 48"
  shows "key_linked (decrypted_frags env sk q p Ds)" "Ds \<noteq> [] \<Longrightarrow> prot (hd (decrypted_frags env sk q p Ds))"
proof -
  let ?fs = "decrypted_frags env sk q p Ds"
  note nth = decrypted_frags_nth [where env = env and sk = sk and q = q and p = p and Ds = Ds]
  have hd: "hd ?fs = decrypted_frag env sk q (p + 1) (hd Ds)" if "Ds \<noteq> []" using that by (cases Ds) simp_all
  have f: "requires_sequential_pn (decrypted_frag env sk q x D)" "prot (decrypted_frag env sk q x D)"
    "color (decrypted_frag env sk q x D) = re_color env (sk_id sk)" "rf_pn (decrypted_frag env sk q x D) = pn_of_u64 x"
    "first_pn (decrypted_frag env sk q x D) = pn_of_u64 x" if "D \<in> set Ds" for x D
    using that assms(1) by (simp_all add: decrypted_frag_def requires_sequential_pn_def prot_def color_def first_pn_def)
  have pn: "(pn_inc ^^ k) (pn_of_u64 (p + 1)) = pn_of_u64 (p + 1 + of_nat k)" if "k < length Ds" for k
  proof -
    have "unat (p + 1) = unat p + 1" using that assms(2) by (simp add: unat_word_ariths)
    then show ?thesis using pn_inc_iter [of "p + 1" k] that assms(2) by simp
  qed
  show "Ds \<noteq> [] \<Longrightarrow> prot (hd ?fs)" using hd f(2) by simp
  have "rf_seqno_idx (decrypted_frag env sk q x D) = of_nat (pq_seqno_idx q)" "rf_linearize_ok (decrypted_frag env sk q x D)"
    "rf_expand_ok (decrypted_frag env sk q x D)" for x D by (simp_all add: decrypted_frag_def)
  then show "key_linked ?fs" unfolding key_linked_def using hd f pn nth by (cases "Ds = []") auto
qed


section \<open>What is sent\<close>

text \<open>The frame \<open>data\<close> and its fragments: itself, or those of the handler.\<close>

definition cut :: "u8 list \<Rightarrow> u8 list list \<Rightarrow> bool" where
  "cut data ds \<longleftrightarrow> ds = [data] \<or> (\<exists>ps. tx_view data ds ps \<and> [] \<notin> set ps)"

lemma view_pieces:
  assumes "tx_view data Ds ps" "D \<in> set Ds"
  obtains l k p where "k < 16" "p \<in> set ps" "D = update_fragment l k (take (ieee80211_hdrlen (frame_control data)) data @ p)" "ieee80211_is_frag D"
proof -
  obtain k where k: "k < length Ds" "Ds ! k = D" using assms(2) by (auto simp: in_set_conv_nth)
  have v: "tx_view data (map rf_data (map (received 0 0) Ds)) ps" using assms(1) by (simp add: comp_def)
  have len: "length Ds = length ps" "length ps \<le> 16" using view_length [OF v] assms(1) by (simp_all add: tx_view_def)
  note n = view_nth [OF v key_linked_received, of k]
  have "ieee80211_is_frag D"
    using n(4) k by (auto simp: acceptable_def fragmented_def ieee80211_is_frag_def frag_no_def)
  then show ?thesis using that [of k "ps ! k" "Suc k = length Ds"] n(1) k len by simp
qed

lemma parse_qos_eq:
  assumes "ieee80211_is_data_qos (frame_control a) = ieee80211_is_data_qos (frame_control b)" "ieee80211_is_mgmt (frame_control a) = ieee80211_is_mgmt (frame_control b)"
    and "ieee80211_is_data_qos (frame_control b) \<Longrightarrow> ieee80211_get_qos_ctl a ! 0 = ieee80211_get_qos_ctl b ! 0"
  shows "ieee80211_parse_qos a = ieee80211_parse_qos b"
  using assms by (simp add: ieee80211_parse_qos_def Let_def)

lemma protect_cut:
  assumes "cut data ds" "plain_fc (frame_control data)" "24 \<le> length data"
  shows "cut (protect data) (map protect ds)"
proof (cases "ds = [data]")
  case False
  then obtain ps where ps: "tx_view data ds ps" "[] \<notin> set ps" using assms(1) by (auto simp: cut_def)
  let ?n = "ieee80211_hdrlen (frame_control data)"
  note n = view_hdrlen [OF ps(1)] and pv = protect_view [OF assms(3)] and b = plain_bits [OF assms(2), of "0x4000" "frame_control (protect data)"]
  have v: "ds = update_fragments 0 (map ((@) (take ?n data)) ps)" using ps(1) by (simp add: tx_view_def)
  have "\<forall>h \<in> set (map ((@) (take ?n data)) ps). 24 \<le> length h" using n by auto
  then have "map protect ds = update_fragments 0 (map ((@) (take ?n (protect data))) ps)"
    unfolding v using protect_fragments protect_prefix [OF n] by (simp add: comp_def)
  moreover have "ieee80211_hdrlen (frame_control (protect data)) = ?n" using b(8) pv(2) by simp
  moreover have "fragmentable (protect data)"
    using ps(1) b(3,4) pv(2,3,4) by (simp add: tx_view_def fragmentable_def)
  ultimately have "tx_view (protect data) (map protect ds) ps" using ps(1) pv(1) pv(5) [of ?n] n(1) by (simp add: tx_view_def)
  then show ?thesis using ps(2) by (auto simp: cut_def)
qed (simp add: cut_def)

lemma fragment_air:
  assumes fc: "plain_fc (frame_control data)" and n: "ieee80211_hdrlen (frame_control data) < length data" and uni: "\<not> is_multicast_ether_addr (addr1 data)"
    and D: "cut (protect data) Ds" "D \<in> set Ds"
  shows "\<exists>m. air (frame_control data) m D" "ieee80211_parse_qos D = ieee80211_parse_qos data"
proof -
  let ?n = "ieee80211_hdrlen (frame_control data)" and ?P = "protect data"
  have "24 \<le> length data" using n plain_bits(14) [OF fc, of 0] by simp
  note pv = protect_view [OF this]
  note b = plain_bits [OF fc, of "0x4000" "frame_control ?P"]
  have nP: "ieee80211_hdrlen (frame_control ?P) = ?n" using b(8) pv(2) by simp
  have qP: "ieee80211_get_qos_ctl ?P = ieee80211_get_qos_ctl data" using b(10) pv(2) pv(5) by (simp add: ieee80211_get_qos_ctl_def)
  have "(\<exists>m. air (frame_control data) m D) \<and> ieee80211_parse_qos D = ieee80211_parse_qos data"
  proof (cases "D = ?P")
    case True
    have "air (frame_control data) 0x4000 ?P" using fc n uni pv by (simp add: air_def)
    moreover have "ieee80211_parse_qos ?P = ieee80211_parse_qos data"
      using b(5,9) pv(2) plain_bits(5) [OF fc, of 0] qP by (intro parse_qos_eq) simp_all
    ultimately show ?thesis using True by blast
  next
    case False
    then obtain ps where ps: "tx_view ?P Ds ps" "[] \<notin> set ps" using D by (auto simp: cut_def)
    obtain l k p where p: "k < 16" "p \<in> set ps" "D = update_fragment l k (take (ieee80211_hdrlen (frame_control ?P)) ?P @ p)"
      by (rule view_pieces [OF ps(1) D(2)])
    have v: "fragmentable ?P" "36 < length ?P" using ps(1) by (simp_all add: tx_view_def)
    note f = tx_fragment_fields(1,2) [OF v p(1,3)]
    define m where "m = (if l then 0x4000 else 0x4400 :: u16)"
    have m: "m \<in> {0, 0x400, 0x4000, 0x4400, 0x800, 0xC00, 0x4800, 0x4C00}" "m \<in> {0x4000, 0x4400}" by (simp_all add: m_def)
    have fD: "frame_control D = frame_control data OR m"
      using f(1) plain_new_fc [OF fc, of l] unfolding pv(2) new_fc_protected m_def by simp
    note c = plain_bits [OF fc m(1) fD]
    have l: "24 \<le> length (take ?n ?P @ p)" using n c(14) pv(1) by simp
    note u = update_fragment_fields(5,6) [OF l, where l = l and i = k, folded p(3) [unfolded nP]]
    have "p \<noteq> []" using ps(2) p(2) by auto
    then have len: "?n < length D" using u(2) n pv(1) by simp
    have "ieee80211_get_qos_ctl D ! 0 = ieee80211_get_qos_ctl ?P ! 0" if "ieee80211_is_data_qos (frame_control data)"
      using plain_qos [OF fc that] c(10) b(10) pv(1,2) u(1) n unfolding ieee80211_get_qos_ctl_def
      by (auto simp: nth_append split: if_splits)
    then have "ieee80211_parse_qos D = ieee80211_parse_qos data"
      using c(5,9) plain_bits(5) [OF fc, of 0] qP by (intro parse_qos_eq) simp_all
    moreover have "air (frame_control data) m D" unfolding air_def using fc m(2) fD len uni f(2) pv(3) by simp
    ultimately show ?thesis by blast
  qed
  then show "\<exists>m. air (frame_control data) m D" "ieee80211_parse_qos D = ieee80211_parse_qos data" by blast+
qed

lemma encrypt_all_length: "encrypt_all enc k skbs = (k', Some skbs') \<Longrightarrow> length skbs' = length skbs"
  by (induction skbs arbitrary: k skbs') (auto split: prod.splits option.splits)

lemma fragment_cut:
  assumes ds: "ieee80211_tx_h_fragment (tx_dontfrag False False thr d) False False (sint thr) allocs d = TX_CONTINUE ds" "length ds \<le> 16" and thr: "256 \<le> sint thr"
    and d: "plain_fc (frame_control d)" "\<not> is_multicast_ether_addr (addr1 d)" "seq_ctrl d AND IEEE80211_SCTL_FRAG = 0"
  shows "cut d ds"
proof (cases "tx_dontfrag False False thr d")
  case True
  then show ?thesis using ds by (simp add: cut_def ieee80211_tx_h_fragment_def)
next
  case False
  then obtain p ps where p: "ds = update_fragments 0 (map ((@) (take (ieee80211_hdrlen (frame_control d)) d)) (p # ps))"
      "p @ concat ps = drop (ieee80211_hdrlen (frame_control d)) d" "ps \<noteq> []" "252 < length d" "[] \<notin> set (p # ps)"
    using tx_fragment_pieces [of "sint thr" allocs d ds] ds(1) thr by auto
  have "fragmentable d" using d plain_bits(3,4) [OF d(1), of 0 "frame_control d"] by (simp add: fragmentable_def)
  moreover have "2 \<le> length (p # ps)" using p(3) by (cases ps) simp_all
  ultimately have "tx_view d ds (p # ps)" unfolding tx_view_def using p ds(2) by simp
  then show ?thesis using p(5) by (auto simp: cut_def)
qed

text \<open>The fragments, with the protected bit set, are those of one frame.\<close>

lemma cut_same_msdu:
  assumes d: "plain_fc (frame_control data)" "ieee80211_hdrlen (frame_control data) < length data" "\<not> is_multicast_ether_addr (addr1 data)"
    and cut: "cut data (map tx_data skbs)" and hw: "\<forall>x \<in> set skbs. hw_key x = None"
  shows "cut (protect data) (map tx_data (ieee80211_tx_set_protected skbs))"
    "\<forall>x \<in> set (ieee80211_tx_set_protected skbs). same_msdu (frame_control data) (ieee80211_parse_qos data) x"
proof -
  have "24 \<le> length data" using d(2) plain_bits(14) [OF d(1), of 0] by simp
  then show cutP: "cut (protect data) (map tx_data (ieee80211_tx_set_protected skbs))"
    using protect_cut [OF cut d(1)] unfolding set_protected_data by blast
  show "\<forall>x \<in> set (ieee80211_tx_set_protected skbs). same_msdu (frame_control data) (ieee80211_parse_qos data) x"
  proof
    fix x assume x: "x \<in> set (ieee80211_tx_set_protected skbs)"
    then have D: "tx_data x \<in> set (map tx_data (ieee80211_tx_set_protected skbs))" by simp
    obtain m where a: "air (frame_control data) m (tx_data x)" using fragment_air(1) [OF d cutP D] by blast
    note b = plain_bits(1,8) [OF air_bits(1,2,3) [OF a]]
    have "hw_key x = None" using x hw by (auto simp: ieee80211_tx_set_protected_def)
    then have "protectable x" using b air_bits(7) [OF a] by (simp add: protectable_def)
    then show "same_msdu (frame_control data) (ieee80211_parse_qos data) x"
      using a fragment_air(2) [OF d cutP D] by (auto simp: same_msdu_def)
  qed
qed

lemma late_sends:
  assumes late: "tx_handlers_late aenc c e thr allocs head tail s k skb = Some (s', k', Ws)"
    and fc: "plain_fc (frame_control skb)" "\<not> is_multicast_ether_addr (addr1 skb)" "24 \<le> length skb"
    and e: "seq_env_ok e" "seq_wf s" and thr: "256 \<le> sint thr" and c: "aead_cipher c" and few: "length Ws \<le> 16"
  obtains w skbs skbs' where "w AND IEEE80211_SCTL_FRAG = 0" "cut (set_seq_ctrl w skb) (map tx_data skbs)" "\<forall>x \<in> set skbs. hw_key x = None"
    "encrypt_all (enc_one aenc c) k (ieee80211_tx_set_protected skbs) = (k', Some skbs')" "Ws = map tx_data skbs'"
proof -
  obtain w s1 where w: "ieee80211_tx_h_sequence e s skb = (set_seq_ctrl w skb, s1)" "w AND IEEE80211_SCTL_FRAG = 0"
    by (rule tx_sequence_numbers [OF fc(1,2) e])
  let ?d = "set_seq_ctrl w skb"
  note v = set_seq_ctrl_view [OF fc(3), of w]
  obtain ds where ds: "ieee80211_tx_h_fragment (tx_dontfrag False False thr ?d) False False (sint thr) allocs ?d = TX_CONTINUE ds"
    using late w(1) by (auto simp: tx_handlers_late_def split: tx_result.splits)
  define skbs where "skbs = map (\<lambda>d. \<lparr>tx_data = d, headroom = head, tailroom = tail, hw_key = None\<rparr>) ds"
  obtain skbs' where s': "tx_encrypt aenc c k skbs = (k', Some skbs')" "Ws = map tx_data skbs'"
    using late w(1) ds by (auto simp: tx_handlers_late_def skbs_def split: prod.splits option.splits)
  have data: "map tx_data skbs = ds" "\<forall>x \<in> set skbs. hw_key x = None" by (auto simp: skbs_def comp_def)
  note enc = s'(1) [unfolded tx_encrypt_all [OF c]]
  have len: "length ds \<le> 16" using encrypt_all_length [OF enc] few s'(2) by (simp add: skbs_def ieee80211_tx_set_protected_def)
  have "cut ?d ds" by (rule fragment_cut [OF ds len thr]) (use v(2,3,5) w(2) fc in simp_all)
  then show ?thesis using that [of w skbs skbs'] w(2) data enc s'(2) by simp
qed


section \<open>What is received\<close>

lemma set_fc_twice: "set_fc v (set_fc w d) = set_fc v d" by (simp add: set_fc_def)

lemma cut_received:
  assumes fc: "plain_fc (frame_control data)" and n: "ieee80211_hdrlen (frame_control data) < length data" and uni: "\<not> is_multicast_ether_addr (addr1 data)"
    and sc: "seq_ctrl data AND IEEE80211_SCTL_FRAG = 0" and D: "cut (protect data) Ds" and small: "length data < 65536" "unat p + length Ds < 2 ^ 48"
    and c: "length (entries c) = IEEE80211_FRAGMENT_MAX" "cache_next c < IEEE80211_FRAGMENT_MAX"
    and t: "length ts = length Ds" "\<forall>t \<in> set ts. \<not> time_after t (hd ts + FRAG_TIMEOUT)"
  shows "\<exists>m \<in> {0x4000, 0x4400}. defrag_results c (zip (decrypted_frags env sk q p Ds) ts)
     = replicate (length Ds - 1) RX_QUEUED @ [RX_CONTINUE (set_fc (frame_control data OR m) data)]"
proof -
  have "24 \<le> length data" using n plain_bits(14) [OF fc, of 0] by simp
  note pv = protect_view [OF this] and b = plain_bits [OF fc, of "0x4000" "frame_control (protect data)"]
  show ?thesis
  proof (cases "Ds = [protect data]")
    case True
    obtain t where "ts = [t]" using t(1) True by (cases ts) auto
    moreover have "ieee80211_rx_h_defragment c (decrypted_frag env sk q (p + 1) (protect data)) t = (c, RX_CONTINUE (protect data))" for t
      using b(3,4,17) pv(2,4) sc by (simp add: ieee80211_rx_h_defragment_def decrypted_frag_def frag_no_def Let_def)
    ultimately show ?thesis using True by (intro bexI [of _ "0x4000"]) (simp_all add: protect_def)
  next
    case False
    then obtain ps where ps: "tx_view (protect data) Ds ps" using D by (auto simp: cut_def)
    have "ieee80211_has_protected (frame_control x) \<and> ieee80211_is_frag x" if x: "x \<in> set Ds" for x
    proof
      obtain m where a: "air (frame_control data) m x" using fragment_air(1) [OF fc n uni D x] by blast
      show "ieee80211_has_protected (frame_control x)" using plain_bits(16) [OF air_bits(1,2,3) [OF a]] air_bits(6) [OF a] by simp
      show "ieee80211_is_frag x" by (rule view_pieces [OF ps x])
    qed
    then have linked: "key_linked (decrypted_frags env sk q p Ds)" "Ds \<noteq> [] \<Longrightarrow> prot (hd (decrypted_frags env sk q p Ds))"
      using decrypted_linked [OF _ small(2)] by blast+
    have v: "tx_view (protect data) (map rf_data (decrypted_frags env sk q p Ds)) ps" using ps by (simp add: decrypted_frags_data)
    have "length Ds = length ps" "2 \<le> length ps" using view_length [OF v] ps by (simp_all add: decrypted_frags_nth(1) tx_view_def)
    then have "Ds \<noteq> []" by auto
    with linked have "defrag_results c (zip (decrypted_frags env sk q p Ds) ts) = replicate (length Ds - 1) RX_QUEUED @
        [RX_CONTINUE (set_fc (frame_control (protect data) OR IEEE80211_FCTL_MOREFRAGS) (protect data))]"
      using view_run [OF v linked(1) _ c _ _ t(2)] small(1) pv(1) t(1) by (simp add: decrypted_frags_nth(1))
    moreover have "frame_control (protect data) OR IEEE80211_FCTL_MOREFRAGS = frame_control data OR 0x4400" unfolding pv(2) by (simp add: or.assoc)
    ultimately show ?thesis by (intro bexI [of _ "0x4400"]) (simp_all add: protect_def set_fc_twice)
  qed
qed

text \<open>The interface takes frames with the frame control field \<open>fc\<close>: no mesh, and four addresses only where they are expected.\<close>

definition rx_takes :: "rx_iface \<Rightarrow> u16 \<Rightarrow> bool" where
  "rx_takes i fc \<longleftrightarrow> ri_type i \<noteq> NL80211_IFTYPE_MESH_POINT \<and>
     (ieee80211_has_a4 fc \<longrightarrow> ri_type i \<noteq> NL80211_IFTYPE_AP) \<and> (ri_type i = NL80211_IFTYPE_AP_VLAN \<and> ieee80211_has_a4 fc \<longrightarrow> ri_vlan_sta i) \<and>
     (ri_type i = NL80211_IFTYPE_STATION \<longrightarrow> ri_use_4addr i = ieee80211_has_a4 fc)"

lemma rx_data_delivers:
  assumes fc: "plain_fc fc" "m \<in> {0x4000, 0x4400}" "frame_control G = fc OR m" and uni: "\<not> is_multicast_ether_addr (addr1 G)"
    and eth: "ieee80211_data_to_8023 G (ri_addr i) (ri_type i) = Some eth" "h_proto (get_eth eth) \<noteq> ri_control_port i" "\<not> tdls_switch eth"
    and i: "rx_takes i fc" and sta: "rk_sta r = Some s" "rs_authorized s"
  shows "ieee80211_rx_h_data Some i r event True key G = DataDeliver eth False"
proof -
  have "m \<in> {0, 0x400, 0x4000, 0x4400, 0x800, 0xC00, 0x4800, 0x4C00}" using fc(2) by auto
  note b = plain_bits [OF fc(1) this fc(3)]
  have "rx_data_to_8023 i G = Inr (eth, False)"
    using eth(1,2) i uni unfolding rx_data_to_8023_def rx_takes_def Let_def b(10) by auto
  then show ?thesis
    using b(1,2,10) i eth sta unfolding ieee80211_rx_h_data_def rx_takes_def Let_def
    by (auto simp: ieee80211_frame_allowed_def ieee80211_802_1x_port_control_def ieee80211_drop_unencrypted_def)
qed


section \<open>The QoS field\<close>

lemma set_qos_view:
  assumes fc: "plain_fc (frame_control f)" and n: "ieee80211_hdrlen (frame_control f) \<le> length f"
    and g: "g = fst (ieee80211_set_qos_hdr False False noack_map priority f)"
  shows "length g = length f" "frame_control g = frame_control f" "addr1 g = addr1 f" "take 18 (drop 4 g) = take 18 (drop 4 f)"
    "ieee80211_has_a4 (frame_control f) \<longrightarrow> addr4 g = addr4 f" "drop (ieee80211_hdrlen (frame_control f)) g = drop (ieee80211_hdrlen (frame_control f)) f"
    "ieee80211_is_data_qos (frame_control f) \<longrightarrow> ieee80211_get_qos_ctl f ! 0 = 0 \<Longrightarrow> \<not> pq_amsdu (ieee80211_parse_qos g)"
proof -
  define p where "p = (if ieee80211_has_a4 (frame_control f) then 30 else 24 :: nat)"
  define x where "x = (f ! p AND NOT 0x6F OR (if is_multicast_ether_addr (addr1 f) \<or> bit noack_map (unat ((ucast priority :: u8) AND 7)) then 0x20 else 0)) OR
    (ucast priority AND 7)"
  have h: "ieee80211_is_data_qos (frame_control f) \<Longrightarrow> ieee80211_hdrlen (frame_control f) = p + 2"
    by (rule plain_fc_cases [OF fc]) (simp_all add: fc_unfold p_def)
  have gx: "g = (if ieee80211_is_data_qos (frame_control f) then f[p := x, p + 1 := 0] else f)"
    unfolding g ieee80211_set_qos_hdr_def Let_def p_def [symmetric] x_def by simp
  have p24: "24 \<le> p" "ieee80211_has_a4 (frame_control f) \<Longrightarrow> p = 30" by (simp_all add: p_def)
  show l: "length g = length f" unfolding gx by simp
  show fg: "frame_control g = frame_control f" unfolding gx using p24 by (simp add: frame_control_def get_le16_def)
  show "take 18 (drop 4 g) = take 18 (drop 4 f)" "addr1 g = addr1 f"
    unfolding gx using p24 by (simp_all add: addr1_def drop_update_swap)
  show "ieee80211_has_a4 (frame_control f) \<longrightarrow> addr4 g = addr4 f" unfolding gx using p24(2) by (simp add: addr4_def drop_update_swap)
  show "drop (ieee80211_hdrlen (frame_control f)) g = drop (ieee80211_hdrlen (frame_control f)) f" unfolding gx using h by simp
  show "\<not> pq_amsdu (ieee80211_parse_qos g)" if z: "ieee80211_is_data_qos (frame_control f) \<longrightarrow> ieee80211_get_qos_ctl f ! 0 = 0"
  proof (cases "ieee80211_is_data_qos (frame_control f)")
    case True
    have len: "p + 1 < length f" using h [OF True] n by simp
    have ctl: "ieee80211_get_qos_ctl y ! 0 = y ! p" if "frame_control y = frame_control f" "length y = length f" for y
      using that len by (simp add: ieee80211_get_qos_ctl_def p_def split: if_splits)
    have "f ! p = 0" using z True ctl [of f] by simp
    moreover have "ieee80211_get_qos_ctl g ! 0 = x" using ctl [OF fg l] len True by (simp add: gx)
    ultimately show ?thesis using True fg by (simp add: ieee80211_parse_qos_def Let_def x_def bit.conj_disj_distrib2 and.assoc)
  next
    case False
    then show ?thesis using fg by (simp add: ieee80211_parse_qos_def Let_def)
  qed
qed

lemma qos_offset:
  assumes "plain_fc (frame_control f)" "ieee80211_is_data_qos (frame_control f)"
  shows "ieee80211_get_qos_ctl f = drop (ieee80211_hdrlen (frame_control f) - 2) f"
  using assms(2) unfolding ieee80211_get_qos_ctl_def by (rule_tac plain_fc_cases [OF assms(1)]) (simp_all add: fc_unfold)


text \<open>A frame \<open>f\<close> that has got its QoS field, its number and its bits, and is delivered.\<close>

lemma numbered_delivered:
  assumes fc: "plain_fc (frame_control f)" and n: "ieee80211_hdrlen (frame_control f) < length f"
    and g: "g = fst (ieee80211_set_qos_hdr False False noack_map priority f)" and m: "m \<in> {0x4000, 0x4400}" and uni: "\<not> is_multicast_ether_addr (addr1 f)"
    and eth: "ieee80211_data_to_8023 f (ri_addr i) (ri_type i) = Some eth" and i: "rx_takes i (frame_control f)"
    and proto: "h_proto (get_eth eth) \<noteq> ri_control_port i" "\<not> tdls_switch eth" and rx: "rx_ready env sk idx"
  shows "ieee80211_rx_h_data Some i (re_keys env) event True key (set_fc (frame_control g OR m) (set_seq_ctrl w g)) = DataDeliver eth False"
proof -
  define G where "G = set_fc (frame_control g OR m) (set_seq_ctrl w g)"
  note v = set_qos_view [OF fc less_imp_le [OF n] g]
  have n24: "24 \<le> ieee80211_hdrlen (frame_control f)" using plain_bits(14) [OF fc, of 0] by simp
  then have l24: "24 \<le> length g" using v(1) n by simp
  note u = set_seq_ctrl_view [OF this, of w]
  have Gfc: "frame_control G = frame_control f OR m" using v(2) by (simp add: G_def)
  have d24: "24 \<le> j \<Longrightarrow> drop j G = drop j g" for j
    using u(6) by (simp add: G_def) (metis drop_drop le_add_diff_inverse2)
  have "take 18 (drop 4 G) = take 18 (drop 4 g)" using u(7) by (simp add: G_def)
  moreover have "length G = length g" using u(1) l24 by (simp add: G_def)
  moreover have "addr4 G = addr4 g" using d24 [of 24] by (simp add: addr4_def)
  ultimately have data: "ieee80211_data_to_8023 G (ri_addr i) (ri_type i) = Some eth"
    using to_8023_header_bits [OF fc _ Gfc] m v(1,4,5,6) d24 [OF n24] eth by auto
  have "addr1 G = addr1 g" using u(3) by (simp add: G_def addr1_def)
  moreover obtain sta where "rk_sta (re_keys env) = Some sta" "rs_authorized sta" using rx by (auto simp: rx_ready_def)
  ultimately show ?thesis using rx_data_delivers [OF fc m Gfc _ data proto i] v(3) uni unfolding G_def [symmetric] by simp
qed

lemma eth_proto: "six da \<Longrightarrow> six sa \<Longrightarrow> h_proto (get_eth (da @ sa @ put_be16 proto @ payload)) = proto"
  using get_put_be16 [of "da @ sa" 12 proto payload] by (simp add: get_eth_def six_def)


section \<open>From the sender to the receiver\<close>

text \<open>A frame \<open>g\<close> with its 802.11 header, sent in any number of protected fragments, each with any number of retransmissions: the receiver comes to
  deliver it, as one frame, with a sequence number and more bits set in its header.\<close>

lemma late_received:
  assumes late: "tx_handlers_late aenc (sk_cipher sk) e thr allocs head tail s k g = Some (s', k', Ws)"
    and g: "plain_fc (frame_control g)" "ieee80211_hdrlen (frame_control g) < length g" "\<not> is_multicast_ether_addr (addr1 g)" "length g < 65536"
      "\<not> pq_amsdu (ieee80211_parse_qos g)"
    and e: "seq_env_ok e" "seq_wf s" "256 \<le> sint thr" "length Ws \<le> 16" "unat (tx_pn k) + length Ws < 2 ^ 48"
    and rx: "rx_ready env sk (keyidx k)" "link_law aenc adec (sk_cipher sk)" "keys_fit (ieee80211_parse_qos g) (rc_keys st (sk_id sk)) k"
    and cache: "length (entries (rc_cache st)) = IEEE80211_FRAGMENT_MAX" "cache_next (rc_cache st) < IEEE80211_FRAGMENT_MAX"
    and times: "length cs = length Ws" "\<forall>t \<in> set (map fst cs). \<not> time_after t (hd (map fst cs) + FRAG_TIMEOUT)"
  shows "\<exists>w. \<exists>m \<in> {0x4000, 0x4400}. rx_run adec env st (on_air Ws cs) =
     with_copies (replicate (length Ws - 1) ChQueued @ [chain_of env sk (RX_CONTINUE (set_fc (frame_control g OR m) (set_seq_ctrl w g)))]) cs"
proof -
  have c: "aead_cipher (sk_cipher sk)" using rx(1) by (simp add: rx_ready_def)
  have l24: "24 \<le> length g" using g(2) plain_bits(14) [OF g(1), of 0] by simp
  obtain w skbs skbs' where w: "w AND IEEE80211_SCTL_FRAG = 0" "cut (set_seq_ctrl w g) (map tx_data skbs)" "\<forall>x \<in> set skbs. hw_key x = None"
      "encrypt_all (enc_one aenc (sk_cipher sk)) k (ieee80211_tx_set_protected skbs) = (k', Some skbs')" "Ws = map tx_data skbs'"
    by (rule late_sends [OF late g(1,3) l24 e(1-3) c e(4)])
  define data where "data = set_seq_ctrl w g"
  define P where "P = ieee80211_tx_set_protected skbs"
  note v = set_seq_ctrl_view [OF l24, of w, folded data_def]
  have d: "plain_fc (frame_control data)" "ieee80211_hdrlen (frame_control data) < length data" "\<not> is_multicast_ether_addr (addr1 data)" "24 \<le> length data"
    using g v l24 by simp_all
  have q: "ieee80211_parse_qos data = ieee80211_parse_qos g"
  proof (rule parse_qos_eq)
    have "drop 30 y = drop 6 (drop 24 y)" for y :: "u8 list" by simp
    then show "ieee80211_get_qos_ctl data ! 0 = ieee80211_get_qos_ctl g ! 0" using v(2,6) by (simp only: ieee80211_get_qos_ctl_def)
  qed (simp_all add: v(2))
  note P = cut_same_msdu [OF d(1-3) w(2) [folded data_def] w(3), folded P_def, unfolded q]
  have len: "length P = length Ws" using encrypt_all_length [OF w(4)] w(5) by (simp add: P_def)
  have run: "rx_run adec env st (on_air Ws cs) = with_copies (map (chain_of env sk) (defrag_results (rc_cache st)
      (zip (decrypted_frags env sk (ieee80211_parse_qos g) (tx_pn k) (map tx_data P)) (map fst cs)))) cs"
    unfolding w(5) by (rule rx_run_copies [OF rx(1,2) g(5) P(2) w(4) [folded P_def] rx(3)]) (use e(5) times(1) len in simp_all)
  have "seq_ctrl data AND IEEE80211_SCTL_FRAG = 0" "length data < 65536" using v(1,5) w(1) g(4) by simp_all
  from cut_received [OF d(1-3) this(1) P(1) this(2) _ cache _ times(2), of "tx_pn k" env sk "ieee80211_parse_qos g"] len times(1) e(5)
  obtain m where m: "m \<in> {0x4000, 0x4400}" "defrag_results (rc_cache st) (zip (decrypted_frags env sk (ieee80211_parse_qos g) (tx_pn k) (map tx_data P)) (map fst cs))
      = replicate (length Ws - 1) RX_QUEUED @ [RX_CONTINUE (set_fc (frame_control data OR m) data)]" by auto
  then show ?thesis unfolding run by (intro exI [of _ w] bexI [OF _ m(1)]) (simp add: chain_of_def [of env sk RX_QUEUED] data_def [symmetric] v(2))
qed

end
