(* ===== verification/DataPathSend.thy ===== *)
theory DataPathSend
  imports DataPathEnd
begin

text \<open>
  The sender does send: with enough buffers and a cipher that does not fail the handlers cut a frame into at most sixteen fragments and protect them.
\<close>


section \<open>Cutting\<close>

lemma fragment_loop_succeeds:
  "0 \<le> rm \<Longrightarrow> 0 < per \<Longrightarrow> rm \<le> per * int N \<Longrightarrow> N \<le> n \<Longrightarrow> \<exists>skbs. fragment_loop n per rm hdr rest = Inr skbs \<and> length skbs \<le> N"
proof (induction N arbitrary: n rm rest)
  case 0
  then show ?case by (subst fragment_loop.simps) simp
next
  case (Suc N)
  show ?case
  proof (cases "rm = 0")
    case True
    then show ?thesis by (subst fragment_loop.simps) simp
  next
    case False
    define l where "l = (if per > rm then rm else per)"
    obtain m where m: "n = Suc m" "N \<le> m" using Suc.prems(4) by (cases n) auto
    have "0 \<le> rm - l" "rm - l \<le> per * int N" "0 \<le> l" using Suc.prems by (auto simp: l_def algebra_simps)
    from Suc.IH [OF this(1) Suc.prems(2) this(2) m(2), of "drop (nat l) rest"] this(3) False m(1)
    show ?thesis by (subst fragment_loop.simps) (auto simp: Let_def l_def [symmetric])
  qed
qed

lemma sint_pos: "0 \<le> sint (w :: u32) \<Longrightarrow> sint w = int (unat w)"
proof -
  assume "0 \<le> sint w"
  then have "int (unat w) < int (2 ^ 31)" using sint_neg_iff [of w] unfolding of_nat_less_iff by (simp add: not_le)
  then have "uint w < 2 ^ 31" by simp
  moreover have "- (2 ^ 31) \<le> uint w" by (rule order_trans [OF _ uint_ge_0]) simp
  ultimately have "signed_take_bit 31 (uint w) = uint w" by (intro signed_take_bit_int_eq_self)
  then show ?thesis by (simp add: sint_uint)
qed

lemma tx_fragment_succeeds:
  assumes "256 \<le> sint thr" "int (length g) \<le> 16 * (sint thr - 34)" "15 \<le> allocs" "plain_fc (frame_control g)" "\<not> is_multicast_ether_addr (addr1 g)"
  shows "\<exists>ds. ieee80211_tx_h_fragment (tx_dontfrag False False thr g) False False (sint thr) allocs g = TX_CONTINUE ds \<and> length ds \<le> 16"
proof (cases "tx_dontfrag False False thr g")
  case True
  then show ?thesis by (simp add: ieee80211_tx_h_fragment_def)
next
  case False
  let ?n = "ieee80211_hdrlen (frame_control g)"
  have "sint thr = int (unat thr)" by (rule sint_pos) (use assms(1) in simp)
  moreover have "unat thr < length g + 4" using False assms(5) by (simp add: tx_dontfrag_def)
  ultimately have long: "sint thr < int (length g) + 4" by linarith
  have n: "?n \<le> 32" using plain_bits(15) [OF assms(4), of 0] by simp
  have "\<exists>skbs. fragment_loop allocs (sint thr - int ?n - 4) (int (length g) - int ?n - (sint thr - int ?n - 4)) (take ?n g) (drop (nat (int ?n + (sint thr - int ?n - 4))) g) = Inr skbs
      \<and> length skbs \<le> 15"
    by (rule fragment_loop_succeeds) (use long n assms(1-3) in auto)
  then show ?thesis using False long by (auto simp: ieee80211_tx_h_fragment_def ieee80211_fragment_def Let_def)
qed


section \<open>Protecting\<close>

lemma enc_one_succeeds:
  assumes "aead_cipher c" "aead_total (aenc c)" "protectable skb" "aead_room 16 skb"
  shows "\<exists>k' skb'. enc_one aenc c k skb = (k', Some skb')"
proof -
  have "aead_room 8 skb" using assms(4) by (simp add: aead_room_def)
  then show ?thesis
    using assms(1,4) encrypt_skb_succeeds [OF assms(2,3)] unfolding enc_one_def aead_cipher_def by auto
qed

lemma encrypt_all_succeeds:
  assumes "aead_cipher c" "aead_total (aenc c)" "\<forall>skb \<in> set skbs. protectable skb \<and> aead_room 16 skb"
  shows "\<exists>k' skbs'. encrypt_all (enc_one aenc c) k skbs = (k', Some skbs')"
  using assms(3)
proof (induction skbs arbitrary: k)
  case (Cons skb skbs)
  obtain k1 skb1 where "enc_one aenc c k skb = (k1, Some skb1)" using enc_one_succeeds [OF assms(1), of aenc skb k] assms(2) Cons.prems by auto
  moreover obtain k' skbs' where "encrypt_all (enc_one aenc c) k1 skbs = (k', Some skbs')" using Cons.IH [of k1] Cons.prems by auto
  ultimately show ?case by simp
qed simp

lemma late_succeeds:
  assumes g: "plain_fc (frame_control g)" "ieee80211_hdrlen (frame_control g) < length g" "\<not> is_multicast_ether_addr (addr1 g)"
    and e: "seq_env_ok e" "seq_wf s" and thr: "256 \<le> sint thr" "int (length g) \<le> 16 * (sint thr - 34)"
    and room: "15 \<le> allocs" "8 \<le> head" "16 \<le> tail" and c: "aead_cipher c" "aead_total (aenc c)"
  shows "\<exists>s' k' Ws. tx_handlers_late aenc c e thr allocs head tail s k g = Some (s', k', Ws) \<and> length Ws \<le> 16"
proof -
  have l24: "24 \<le> length g" using g(2) plain_bits(14) [OF g(1), of 0] by simp
  obtain w s1 where w: "ieee80211_tx_h_sequence e s g = (set_seq_ctrl w g, s1)" "w AND IEEE80211_SCTL_FRAG = 0"
    by (rule tx_sequence_numbers [OF g(1,3) e])
  define d where "d = set_seq_ctrl w g"
  note v = set_seq_ctrl_view [OF l24, of w, folded d_def]
  have d: "plain_fc (frame_control d)" "ieee80211_hdrlen (frame_control d) < length d" "\<not> is_multicast_ether_addr (addr1 d)"
    "seq_ctrl d AND IEEE80211_SCTL_FRAG = 0" "int (length d) \<le> 16 * (sint thr - 34)" using g v thr w(2) by simp_all
  obtain ds where ds: "ieee80211_tx_h_fragment (tx_dontfrag False False thr d) False False (sint thr) allocs d = TX_CONTINUE ds" "length ds \<le> 16"
    using tx_fragment_succeeds [OF thr(1) d(5) room(1) d(1,3)] by blast
  define skbs where "skbs = map (\<lambda>d. \<lparr>tx_data = d, headroom = head, tailroom = tail, hw_key = None\<rparr>) ds"
  have skbs: "map tx_data skbs = ds" "\<forall>x \<in> set skbs. hw_key x = None" by (auto simp: skbs_def comp_def)
  have "cut d (map tx_data skbs)" unfolding skbs(1) by (rule fragment_cut [OF ds thr(1) d(1,3,4)])
  from cut_same_msdu(2) [OF d(1-3) this skbs(2)]
  have "\<forall>x \<in> set (ieee80211_tx_set_protected skbs). protectable x \<and> aead_room 16 x"
    using room(2,3) by (auto simp: same_msdu_def skbs_def aead_room_def ieee80211_tx_set_protected_def)
  from encrypt_all_succeeds [where aenc = aenc and c = c, OF c this, of k] obtain k' skbs' where
    enc: "encrypt_all (enc_one aenc c) k (ieee80211_tx_set_protected skbs) = (k', Some skbs')" by blast
  have "length skbs' = length ds" using encrypt_all_length [OF enc] by (simp add: skbs_def ieee80211_tx_set_protected_def)
  then show ?thesis
    unfolding tx_handlers_late_def w(1) using ds enc tx_encrypt_all [OF c(1), of aenc k skbs]
    by (simp add: d_def [symmetric] skbs_def [symmetric])
qed



section \<open>The key of the sender\<close>

text \<open>The station has a pairwise key that is neither in the hardware nor about to go.\<close>

definition tx_ready :: "tx_keys \<Rightarrow> sel_key \<Rightarrow> bool" where
  "tx_ready t sk \<longleftrightarrow> Option.bind (tk_sta t) ts_ptk = Some sk \<and> aead_cipher (sk_cipher sk) \<and> \<not> sk_tainted sk \<and> \<not> sk_uploaded sk"

lemma ready_select:
  assumes "tx_ready t sk" "ieee80211_is_data_present (frame_control skb)"
  shows "ieee80211_tx_h_select_key t False control_port skb = TxKey (Some sk) False"
  using assms by (auto simp: ieee80211_tx_h_select_key_def tx_ready_def Let_def aead_cipher_def wep_cipher_def bip_cipher_def)

end
