(* ===== verification/Spec2Isabelle.thy ===== *)
theory Spec2Isabelle
  imports RxBaProps Radiotap MeshPlinkProps DefragTx HwmpProps WpaProps TkipProps AirtimeProps AirtimeFair TxBaProps EtherExamples RxKeysProps DataPathSend
begin

text \<open>
  A verification development for the 802.11 stack of the router firmware built by this repository: the
  mac80211 and cfg80211 sources under src/src/omnia-ng/openwrt/package/kernel/mac80211/src (all file names
  below are relative to that directory). The rest of the repository is the build system around it, patches
  and configuration, and third-party drivers and tools.

  \<^bold>\<open>The parts and how they interact.\<close>
  On the receive side a driver hands frames to net/mac80211/rx.c. A QoS data frame of a block-ack session
  first goes through the reorder buffer of its session (rx.c, agg-rx.c, ht.c), which passes it and the
  frames it was holding back on in sequence-number order. Each of those is decrypted (wpa.c, wep.c,
  tkip.c), put together with the other fragments of its frame (rx.c), and, under TKIP, verified with
  the Michael code (michael.c). Mesh action frames then reach the peer link state machine
  (mesh_plink.c) and path selection (mesh_hwmp.c), which keep the table of paths (mesh_pathtbl.c).
  Data frames, and the subframes of A-MSDUs, become Ethernet frames (rx.c, net/wireless/util.c).
  Frames injected or monitored carry a radiotap header (net/wireless/radiotap.c).
  On the transmit side an Ethernet frame gets its 802.11 header (tx.c, mesh.c), may be appended to an A-MSDU,
  and waits in the intermediate transmit queues (tx.c over include/net/fq_impl.h
  and include/net/codel_impl.h). The queues of the stations take turns by the airtime they have used (tx.c, sta_info.c);
  the frames dequeued are fragmented (tx.c), numbered and encrypted by the same files as above, and sent under
  the block-ack session that agg-tx.c negotiates with the peer.

  \<^bold>\<open>Prelude and shared theories.\<close>
  \<^item> Prelude: the C integer types as words, little-endian reads and writes of byte lists, list
    update and map lemmas, the collections of rules, and the locale \<open>keyed_table\<close>: what a hash table keyed by a
    field of its entries promises under lookup, insertion, deletion and update.
  \<^item> SeqNum: include/linux/ieee80211.h \<open>ieee80211_sn_less\<close>, \<open>_add\<close>, \<open>_inc\<close>, \<open>_sub\<close>, the mesh
    sequence comparison \<open>SN_GT\<close>, \<open>SN_LT\<close> and \<open>time_after\<close> of jiffies. The locale \<open>serial_counter\<close> is
    the common contract (comparison by distance on a circle), interpreted as \<open>sn\<close> for the 12-bit number and as
    \<open>wrap\<close> for machine words of any width.
  \<^item> Frame: the frame-control predicates, \<open>ieee80211_hdrlen\<close> (net/wireless/util.c), addresses and QoS field.

  \<^bold>\<open>Block-ack receive sessions.\<close>
  \<^item> Reorder: \<open>struct tid_ampdu_rx\<close> as the record \<open>tid_ampdu_rx\<close> and, from rx.c,
    \<open>ieee80211_release_reorder_frame(s)\<close>, \<open>ieee80211_sta_reorder_release\<close>, \<open>ieee80211_sta_manage_reorder_buf\<close>
    and the reorder timer; ReorderInv its invariant (stored counter, slots), ReorderOrder the order of release.
  \<^item> RxBa: \<open>struct sta_ampdu_mlme\<close>, set-up and teardown with the requests of drivers that negotiate themselves (agg-rx.c), the receive
    part of the session work (ht.c), building and parsing of ADDBA (agg-tx.c, ht.c), building and reception of a BlockAckReq
    (agg-tx.c, \<open>ieee80211_rx_h_ctrl\<close> of rx.c) and filtered-frame marking. RxBaInv makes the events a step relation and
    states as the locale \<open>session_contract\<close> what a property of a session must promise to hold in every session of every run,
    with the conservation of frames. It is interpreted as \<open>exact\<close> on the invariant with the counter of stored MPDUs, which all
    events but the filter marker keep, and as \<open>formed\<close> on well-formedness, which the marker keeps too. RxBaProps holds the properties.
    The marker's bitmap has 64 bits; for windows above 64 the shift is undefined in C and gives 0 in the model.

  \<^bold>\<open>Radiotap.\<close> Radiotap: the iterator of net/wireless/radiotap.c on a byte list; a read outside the list and the use
  of the pointer the code leaves unset are values of the result, so that memory safety is a theorem about them.

  \<^bold>\<open>Fragmentation.\<close> Defrag: the fragment cache and \<open>ieee80211_rx_h_defragment\<close> (rx.c), \<open>ieee80211_tx_h_fragment\<close>
  (tx.c). DefragInv says what a cache entry may be made of, DefragProps shows it over whole runs (no mixing of
  frames and, after a protected first fragment, of keys or packet numbers; completeness; bounds), DefragTx the round trip of both handlers.

  \<^bold>\<open>Mesh.\<close>
  \<^item> MeshPlink: \<open>struct mesh_sta\<close> and mesh_plink.c (event selection, \<open>mesh_plink_fsm\<close>, timers, frame
    processing); MeshPlinkInv the invariant on \<open>estab_plinks\<close>; MeshPlinkProps the properties of runs.
  \<^item> MeshPath: \<open>struct mesh_path\<close> and mesh_pathtbl.c; MeshPathInv the invariant, with \<open>keyed_table\<close> interpreted as
    \<open>pt\<close> on the table. Hwmp: mesh_hwmp.c; HwmpInv that its handlers keep the invariant; HwmpProps the
    properties of runs, route freshness, elements, and the table seen as a finite map.

  \<^bold>\<open>Frame protection.\<close>
  \<^item> PacketNumber: 48-bit counters in six bytes and the locale \<open>replay_counter\<close> (a receiver that compares
    the number of a frame with a stored one before it accepts it, and stores it after): its accepted numbers
    strictly increase on every counter. Key: \<open>struct ieee80211_key\<close>, buffers, results of the handlers.
  \<^item> Michael (michael.c), Wep (wep.c), Tkip (tkip.c and the TKIP handlers of wpa.c), TkipProps.
  \<^item> Wpa: the CCMP, GCMP, CMAC and GMAC handlers of wpa.c with aead_api.c, aes_cmac.c, aes_gmac.c. WpaInv
    interprets \<open>replay_counter\<close> on each of them (\<open>ccmp\<close>, \<open>gcmp\<close>, \<open>cmac\<close>, \<open>cmac_256\<close>, \<open>gmac\<close>; TkipProps adds
    \<open>tkip\<close>); WpaProps states sender and receiver as the locale \<open>frame_protection\<close>, interpreted as \<open>ccmp_link\<close> and
    \<open>gcmp_link\<close>.
  \<^item> The ciphers and checksums of the kernel's crypto layer are arguments. The round trips assume of them that
    decryption inverts encryption (\<open>aead_law\<close> and relatives), and the witnesses give instances.

  \<^bold>\<open>Transmit queues.\<close>
  \<^item> Codel: include/net/codel.h, codel_impl.h over callbacks; CodelInv the locale \<open>codel_source\<close> with
    what the callbacks must do, and that CoDel then ends and gives a frame.
  \<^item> FairQueue: include/net/fq.h, fq_impl.h on a store of flows and tins that point to each other; FairQueueInv
    the invariant, enqueueing and the limits; FairQueueDeq the deficit round robin, with the locale
    \<open>flow_source\<close>; FairQueueReset filtering, resetting, and tins that come and go.
  \<^item> TxQueue: the callbacks and queues of tx.c; TxQueueProps interprets \<open>codel_source\<close> as \<open>flow_codel\<close> on a
    flow and \<open>flow_source\<close> as \<open>txq\<close> on CoDel over a tin, and proves the properties over sequences of operations.

  \<^bold>\<open>Airtime.\<close>
  \<^item> Airtime: the scheduling of transmit queues by airtime deficits (\<open>ieee80211_next_txq\<close>, \<open>ieee80211_txq_may_transmit\<close>,
    rounds, the registration of airtime in sta_info.c) and the airtime queue limits with the estimate that each frame carries.
  \<^item> AirtimeInv: the invariant over all operations of a driver; AirtimeProps: runs, that choosing a queue ends, and that
    pending airtime is exactly that of the frames in flight; AirtimeFair: the service of backlogged stations, with one queue
    each, in proportion to their weights.

  \<^bold>\<open>Block-ack transmit sessions.\<close>
  \<^item> TxBa: agg-tx.c, the session work, teardown and DELBA of ht.c, the use of a session in tx.c and pending BlockAckReqs of
    status.c, with the driver's answers as arguments. TxBaInv: the invariant over every event.
  \<^item> TxBaProps: safety of runs, the handshake with the receiving side of RxBa, that an unanswered request ends.

  \<^bold>\<open>Ethernet and 802.11.\<close>
  \<^item> Ether: the receiving direction - \<open>ieee80211_data_to_8023_exthdr\<close>, \<open>ieee80211_strip_8023_mesh_hdr\<close>,
    \<open>ieee80211_amsdu_to_8023s\<close> and its copying out of fragmented buffers (net/wireless/util.c), the A-MSDU handler (rx.c).
    EtherTx: the sending direction - \<open>ieee80211_build_hdr\<close>, the fast path's \<open>ieee80211_check_fast_xmit\<close> and
    \<open>__ieee80211_xmit_fast\<close>, \<open>ieee80211_amsdu_aggregate\<close> (tx.c), the mesh header (mesh.c).
  \<^item> EtherProps: both directions are inverse to each other, for every kind of interface and for the mesh; EtherFast: the fast path
    builds what the slow path does, AppleTalk and IPX apart; EtherAmsdu: unencrypted A-MSDUs arrive as the frames that went in, and what arbitrary bytes can make the
    receiver hand on; EtherExamples: concrete frames.

  \<^bold>\<open>Keys and the whole path.\<close>
  \<^item> RxKeys: the choice of the key of a sent (tx.c) and of a received frame, the checks on unprotected data and management frames and the
    delivery of data frames (rx.c). RxKeysProps: keys of the right kind, within the arrays, and no data in the clear.
  \<^item> DataPath: the QoS field (wme.c), sequence numbers (tx.c), the recognition of retransmissions (rx.c), and the handlers of both sides put together in the
    order of \<open>invoke_tx_handlers_late\<close> and \<open>ieee80211_rx_handlers\<close>, from the components above. DataPathProps: header bits, numbering, one protected
    frame on the air; DataPathRun: sequences of fragments with their retransmissions; DataPathEnd: the fragments of the sender at the receiver;
    DataPathSend: that sending succeeds. The property of the whole path, \<open>data_path_roundtrip\<close>, stands at the end of this theory.

  \<^bold>\<open>Conventions.\<close>
  Integers have their width (\<open>8 word\<close> to \<open>64 word\<close>) wherever the code can wrap them. A function that may run
  for ever or dereference a null pointer is a \<open>partial_function (option)\<close> or returns an option, with
  \<open>None\<close> for both; that it returns is then a theorem (ba_events_return, hwmp_run_safe, txq_run_conserves,
  txq_dequeue_work_conserving), and there is no fuel in any definition of the model. \<open>HZ\<close> is 100 as in the kernel
  configuration of the target; jiffies, random numbers and failures of allocation are inputs. Locks and RCU are not
  modelled: each operation is one step of its component, as the lock it holds makes it.

  \<^bold>\<open>Where the code does less than it should\<close> is shown by theorems too, some of which the manifest does not list:
  \<open>timeout_keeps_stale_amsdu\<close>, \<open>filter_marker_hangs\<close> and \<open>window_60_drops_new_frame\<close> (RxBaProps),
  \<open>radiotap_xchannel_uninit\<close> (Radiotap), \<open>stale_protection_drops\<close> and \<open>clear_first_fragment_mixes\<close> (DefragProps), \<open>mpaths_below_zero\<close>,
  \<open>hysteresis_wraps\<close>, \<open>gate_queue_leak\<close>, \<open>discovery_stalls\<close> (HwmpProps), \<open>forged_frame_poisons_cache\<close>
  (TkipProps), \<open>quantum_zero_hangs\<close> (TxQueueProps), \<open>early_response_stalls\<close> and \<open>stopped_request_leaks_stop\<close> (TxBaProps),
  \<open>amsdu_short_reads_behind\<close> and \<open>amsdu_ambiguous_is_lost\<close> (EtherAmsdu), \<open>fast_aarp_not_restored\<close> (EtherExamples).

  \<^bold>\<open>Not modelled.\<close> Key installation (key.c), station management
  (mlme.c, scan.c), rate control, nl80211 and the rest of cfg80211: most of these fill structures from netlink or from
  elements and call the driver. The drivers (ath11k, ath12k and others) program registers and firmware. Build scripts,
  patches and boot loaders are outside the language and the core of the program. Within the modelled files: debug
  output, statistics and tracing; the average-rate bookkeeping and root announcements of HWMP; the rate, HT and VHT
  part of a peering frame; requests for acknowledgement reports; the forwarding of mesh data frames. The path from end to end is that of
  CCMP and GCMP outside of block-ack sessions; their interplay with the reorder buffer is only shown for the buffer itself.
\<close>


section \<open>Examples\<close>

text \<open>An access point sends 300 bytes to a station with a fragmentation threshold of 256, under CCMP with a toy cipher.\<close>

definition w_eth :: "u8 list" where
  "w_eth = [2, 0, 0, 0, 0, 2] @ [2, 0, 0, 0, 0, 9] @ put_be16 0x0800 @ replicate 300 7"

definition w_built :: "int + (u8 list \<times> nat \<times> xmit_effect list \<times> xmit_if)" where
  "w_built = ieee80211_build_hdr (\<lambda>_. None) (\<lambda>_. None) False False True True w_ap (Some w_sta) IEEE80211_LINK_UNSPECIFIED w_eth"

definition w_tx_keys :: tx_keys where
  "w_tx_keys = \<lparr>tk_sta = Some \<lparr>ts_ptk = Some demo_ptk, ts_mfp = False, ts_uses_encryption = True\<rparr>, tk_link = True,
     tk_multicast_key = None, tk_mgmt_key = None, tk_unicast_key = None\<rparr>"

definition w_seq_env :: seq_env where
  "w_seq_env = \<lparr>qe_type = NL80211_IFTYPE_AP, qe_mld = False, qe_no_seqno = False, qe_mlo_first = False, qe_sta = True\<rparr>"

definition w_seq :: seq_state where
  "w_seq = \<lparr>sq_sequence_number = 0x40, sq_mld_mcast_seq = 0, sq_tid_seq = (\<lambda>_. 0x120)\<rparr>"

definition w_rx_env :: rx_env where
  "w_rx_env = \<lparr>re_dup = \<lparr>de_validated = False, de_amsdu_more = False, de_sta = True, de_mld_station = False\<rparr>, re_ta = [2, 0, 0, 0, 0, 1],
     re_keys = demo_rx_keys, re_color = (\<lambda>_. 1), re_iface = demo_iface, re_event = False, re_tailroom = 0\<rparr>"

definition w_chain :: rx_chain where
  "w_chain = \<lparr>rc_dup = \<lparr>du_last_seq_ctrl = (\<lambda>_. 0xFFFF), du_mcast_last = None\<rparr>, rc_keys = (\<lambda>_. zero_key), rc_cache = ieee80211_init_frag_cache\<rparr>"

definition w_link_key :: aead_key where
  "w_link_key = zero_key\<lparr>keyidx := 0\<rparr>"


section \<open>From end to end\<close>

text \<open>C2: A data frame from end to end. An Ethernet frame for one station that \<open>ieee80211_build_hdr\<close> accepts is sent: it gets its priority and sequence number,
  the pairwise key of the station is chosen, it is cut into at most sixteen fragments and each is encrypted with the next packet number (CCMP or GCMP, 128 or 256).
  However often each fragment is then retransmitted, the receiver that has the key drops the copies as duplicates, decrypts and reassembles the fragments received within
  two seconds, whatever its fragment cache held, and delivers exactly the Ethernet frame that was given to the sender, once. (The sender is no mesh; its
  counter is not about to reach \<open>2^48\<close> and not behind that of the receiver; buffers can be allocated; the frame is no EAPOL or TDLS frame, and its direction is one
  that the receiving interface takes.)\<close>

theorem data_path_roundtrip:
  assumes built: "ieee80211_build_hdr lookup mpp skip cookie shared resize x sta link_id (da @ sa @ put_be16 proto @ payload) = Inr (frame, l, eff, x')"
    and x: "xi_type x \<noteq> NL80211_IFTYPE_MESH_POINT" "xmit_ok x sta" and eth: "six da" "six sa" "eth_plain proto payload" "eth_body proto payload \<noteq> []"
    and frame: "\<not> is_multicast_ether_addr (addr1 frame)" "length frame < 65536" "int (length frame) \<le> 16 * (sint thr - 34)" "256 \<le> sint thr"
    and e: "seq_env_ok e" "seq_wf s" "15 \<le> allocs" "8 \<le> head" "16 \<le> tail"
    and tx: "tx_ready t tsk" "unat (tx_pn (ks (sk_id tsk))) + 16 < 2 ^ 48"
    and rx: "rx_ready env sk (keyidx (ks (sk_id tsk)))" "sk_cipher sk = sk_cipher tsk" "link_law aenc adec (sk_cipher sk)"
      "keys_fit (ieee80211_parse_qos (fst (ieee80211_set_qos_hdr False False noack_map priority frame))) (rc_keys st (sk_id sk)) (ks (sk_id tsk))"
    and cache: "length (entries (rc_cache st)) = IEEE80211_FRAGMENT_MAX" "cache_next (rc_cache st) < IEEE80211_FRAGMENT_MAX"
    and rcv: "rx_takes (re_iface env) (frame_control frame)" "ds_allowed (frame_control frame) (ri_type (re_iface env)) da sa (ri_addr (re_iface env))"
      "proto \<noteq> ri_control_port (re_iface env)" "proto \<noteq> 0x890D"
  shows "\<exists>s' ks' Ws. xmit_data aenc t control_port noack_map priority e thr allocs head tail s ks frame = Some (s', tsk, ks', Ws) \<and>
     (\<forall>cs. length cs = length Ws \<longrightarrow> (\<forall>t \<in> set (map fst cs). \<not> time_after t (hd (map fst cs) + FRAG_TIMEOUT)) \<longrightarrow>
        rx_run adec env st (on_air Ws cs) =
          with_copies (replicate (length Ws - 1) ChQueued @ [ChData (DataDeliver (da @ sa @ put_be16 proto @ payload) False)]) cs)"
proof -
  define g where "g = fst (ieee80211_set_qos_hdr False False noack_map priority frame)"
  define k where "k = ks (sk_id tsk)"
  obtain h where h: "frame = h @ eth_body proto payload" "ieee80211_hdrlen (frame_control frame) = length h" "plain_fc (frame_control frame)"
      "ieee80211_is_data_qos (frame_control frame) \<longrightarrow> drop (length h - 2) h = [0, 0]"
    by (rule sent_view [OF built x eth(1,2)])
  have n: "ieee80211_hdrlen (frame_control frame) < length frame" using h(1,2) eth(4) by (cases "eth_body proto payload") simp_all
  have "ieee80211_is_data_qos (frame_control frame) \<longrightarrow> ieee80211_get_qos_ctl frame ! 0 = 0"
    using qos_offset [OF h(3)] h(1,2,4) by auto
  note v = set_qos_view [OF h(3) less_imp_le [OF n] g_def] and am = set_qos_view(7) [OF h(3) less_imp_le [OF n] g_def this]
  have g: "plain_fc (frame_control g)" "ieee80211_hdrlen (frame_control g) < length g" "\<not> is_multicast_ether_addr (addr1 g)" "length g < 65536"
      "int (length g) \<le> 16 * (sint thr - 34)" using v(1-3) h(3) n frame by simp_all
  have c: "aead_cipher (sk_cipher sk)" "aead_total (aenc (sk_cipher sk))" using rx(1,3) by (simp_all add: rx_ready_def link_law_def)
  obtain s' k' Ws where late: "tx_handlers_late aenc (sk_cipher sk) e thr allocs head tail s k g = Some (s', k', Ws)" "length Ws \<le> 16"
    using late_succeeds [where c = "sk_cipher sk" and aenc = aenc, OF g(1-3) e(1,2) frame(4) g(5) e(3-5) c] by blast
  have "xmit_data aenc t control_port noack_map priority e thr allocs head tail s ks frame = Some (s', tsk, ks(sk_id tsk := k'), Ws)"
    unfolding xmit_data_def Let_def g_def [symmetric]
    using ready_select [OF tx(1)] plain_bits(2) [OF g(1), of 0 "frame_control g"] late(1) rx(2) by (simp add: k_def)
  moreover have "rx_run adec env st (on_air Ws cs) =
      with_copies (replicate (length Ws - 1) ChQueued @ [ChData (DataDeliver (da @ sa @ put_be16 proto @ payload) False)]) cs"
    if times: "length cs = length Ws" "\<forall>t \<in> set (map fst cs). \<not> time_after t (hd (map fst cs) + FRAG_TIMEOUT)" for cs
  proof -
    have "unat (tx_pn k) + length Ws < 2 ^ 48" using tx(2) late(2) by (simp add: k_def)
    from late_received [OF late(1) g(1-4) am e(1,2) frame(4) late(2) this rx(1) [folded k_def] rx(3) rx(4) [folded g_def k_def] cache times]
    obtain w m where wm: "m \<in> {0x4000, 0x4400}" "rx_run adec env st (on_air Ws cs) =
        with_copies (replicate (length Ws - 1) ChQueued @ [chain_of env sk (RX_CONTINUE (set_fc (frame_control g OR m) (set_seq_ctrl w g)))]) cs" by blast
    have "ieee80211_data_to_8023 frame (ri_addr (re_iface env)) (ri_type (re_iface env)) = Some (da @ sa @ put_be16 proto @ payload)"
      using sent_restored [OF built x eth(1-3) rcv(2)] rcv(1) by (simp add: rx_takes_def)
    from numbered_delivered [OF h(3) n g_def wm(1) frame(1) this rcv(1) _ _ rx(1)] rcv(3,4) eth_proto [OF eth(1,2)]
    show ?thesis using wm(2) by (simp add: chain_of_def tdls_switch_def)
  qed
  ultimately show ?thesis by blast
qed

lemma w_built_ok:
  "case w_built of Inl _ \<Rightarrow> False | Inr (frame, _) \<Rightarrow>
     \<not> is_multicast_ether_addr (addr1 frame) \<and> length frame < 400 \<and> rx_takes demo_iface (frame_control frame) \<and>
     ds_allowed (frame_control frame) NL80211_IFTYPE_STATION [2, 0, 0, 0, 0, 2] [2, 0, 0, 0, 0, 9] [2, 0, 0, 0, 0, 2] \<and>
     pq_security_idx (ieee80211_parse_qos (fst (ieee80211_set_qos_hdr False False 0 3 frame))) = 3"
  by code_simp


theorem data_path_roundtrip_witness:
  "\<exists>frame l eff x' s' ks' Ws. w_built = Inr (frame, l, eff, x') \<and>
     xmit_data (\<lambda>c. toy_enc (mic_len_of c)) w_tx_keys False 0 3 w_seq_env 256 15 8 16 w_seq (\<lambda>_. w_link_key) frame = Some (s', demo_ptk, ks', Ws) \<and>
     rx_run (\<lambda>c. toy_dec (mic_len_of c)) w_rx_env w_chain (on_air Ws (map (\<lambda>_. (1000, [1001, 1002])) Ws)) =
       with_copies (replicate (length Ws - 1) ChQueued @ [ChData (DataDeliver w_eth False)]) (map (\<lambda>_. (1000, [1001, 1002])) Ws)"
proof -
  obtain frame l eff x' where f: "w_built = Inr (frame, l, eff, x')" "\<not> is_multicast_ether_addr (addr1 frame)" "length frame < 400"
      "rx_takes demo_iface (frame_control frame)"
      "ds_allowed (frame_control frame) NL80211_IFTYPE_STATION [2, 0, 0, 0, 0, 2] [2, 0, 0, 0, 0, 9] [2, 0, 0, 0, 0, 2]"
      "pq_security_idx (ieee80211_parse_qos (fst (ieee80211_set_qos_hdr False False 0 3 frame))) = 3"
    using w_built_ok by (auto split: sum.splits)
  note built = f(1) [unfolded w_built_def w_eth_def]
  have sint: "sint (256 :: u32) = 256" by code_simp
  have plain: "eth_plain 0x0800 (replicate 300 7)" by (simp add: eth_plain_def)
  have body: "eth_body 0x0800 (replicate 300 7) \<noteq> []" by (simp add: eth_body_def)
  have e: "seq_env_ok w_seq_env" "seq_wf w_seq" by (simp_all add: seq_env_ok_def w_seq_env_def seq_wf_def w_seq_def)
  have tx: "tx_ready w_tx_keys demo_ptk" by (simp add: tx_ready_def w_tx_keys_def demo_ptk_def aead_cipher_def)
  have rx: "rx_ready w_rx_env demo_ptk (keyidx w_link_key)"
    using demo_rx_keys_wf by (simp add: rx_ready_def w_rx_env_def dup_env_ok_def demo_rx_keys_def demo_sender_def demo_ptk_def aead_cipher_def w_link_key_def)
  have law: "link_law (\<lambda>c. toy_enc (mic_len_of c)) (\<lambda>c. toy_dec (mic_len_of c)) c" for c by (simp add: link_law_def toy_law)
  have fit: "keys_fit (ieee80211_parse_qos (fst (ieee80211_set_qos_hdr False False 0 3 frame))) (rc_keys w_chain (sk_id demo_ptk)) w_link_key"
    using wf_zero_key f(6) by (simp add: keys_fit_def w_chain_def w_link_key_def zero_key_def aead_counter_def pn_val_def numeral_eq_Suc)
  have cache: "length (entries (rc_cache w_chain)) = IEEE80211_FRAGMENT_MAX" "cache_next (rc_cache w_chain) < IEEE80211_FRAGMENT_MAX"
    by (simp_all add: w_chain_def ieee80211_init_frag_cache_def)
  have iface: "re_iface w_rx_env = demo_iface" by (simp add: w_rx_env_def)
  have "\<exists>s' ks' Ws. xmit_data (\<lambda>c. toy_enc (mic_len_of c)) w_tx_keys False 0 3 w_seq_env 256 15 8 16 w_seq (\<lambda>_. w_link_key) frame = Some (s', demo_ptk, ks', Ws) \<and>
     (\<forall>cs. length cs = length Ws \<longrightarrow> (\<forall>t \<in> set (map fst cs). \<not> time_after t (hd (map fst cs) + FRAG_TIMEOUT)) \<longrightarrow>
        rx_run (\<lambda>c. toy_dec (mic_len_of c)) w_rx_env w_chain (on_air Ws cs) =
          with_copies (replicate (length Ws - 1) ChQueued @ [ChData (DataDeliver ([2, 0, 0, 0, 0, 2] @ [2, 0, 0, 0, 0, 9] @ put_be16 0x0800 @ replicate 300 7) False)]) cs)"
    by (rule data_path_roundtrip [OF built _ w_ap_ok _ _ plain body f(2) _ _ _ e _ _ _ tx _ rx refl law fit cache])
      (use f(3-5) iface in \<open>simp_all add: sint w_ap_def six_def demo_iface_def w_link_key_def zero_key_def\<close>)
  then obtain s' ks' Ws where r: "xmit_data (\<lambda>c. toy_enc (mic_len_of c)) w_tx_keys False 0 3 w_seq_env 256 15 8 16 w_seq (\<lambda>_. w_link_key) frame = Some (s', demo_ptk, ks', Ws)"
      "\<And>cs. length cs = length Ws \<Longrightarrow> \<forall>t \<in> set (map fst cs). \<not> time_after t (hd (map fst cs) + FRAG_TIMEOUT) \<Longrightarrow>
        rx_run (\<lambda>c. toy_dec (mic_len_of c)) w_rx_env w_chain (on_air Ws cs) = with_copies (replicate (length Ws - 1) ChQueued @ [ChData (DataDeliver w_eth False)]) cs"
    unfolding w_eth_def by blast
  have "\<forall>t \<in> set (map fst (map (\<lambda>_. (1000, [1001, 1002])) Ws)). \<not> time_after t (hd (map fst (map (\<lambda>_. (1000 :: u64, [1001 :: u64, 1002])) Ws)) + FRAG_TIMEOUT)"
    using not_late [of 1000] by (cases Ws) auto
  from r(2) [OF _ this] r(1) f(1) show ?thesis by auto
qed

end
